(* ===== verification/Prelude.thy ===== *)
theory Prelude
  imports Main "HOL-Library.Word" "HOL-Library.AList" "HOL-Library.Signed_Division" "HOL-Library.Multiset"
begin

text \<open>
  What every component theory shares: the Go types the model uses, results with errors and
  panics as values, Go maps, decimal numbers and string splitting of the Go standard library,
  and the interface of a cache goroutine that serves one request at a time.

  \<^item> Go's \<open>int\<close> identifiers are HOL \<open>int\<close>: the code stores and compares them and never
    computes with them.  Amounts and counters that are computed with keep their width
    (\<open>int64\<close>, \<open>uint64\<close> and \<open>uint32\<close> are words, so addition wraps as in Go).
  \<^item> A pointer that is only tested for nil and read is an \<open>option\<close>.
  \<^item> A Go map that is only read, written and deleted by key is a HOL map; a Go map the code
    ranges over is an association list, and the range order, which Go leaves unspecified, is a
    parameter \<open>ord\<close> of the operation, constrained only by \<open>range_order\<close>.
\<close>

section \<open>Go types and results\<close>

type_synonym int64 = "64 word"
type_synonym uint64 = "64 word"
type_synonym uint32 = "32 word"
type_synonym time = int \<comment> \<open>an instant, in nanoseconds\<close>

datatype go_error = Error string | Panic string

type_synonym 'a result = "go_error + 'a"

abbreviation Ok :: "'a \<Rightarrow> 'a result" where "Ok \<equiv> Inr"
abbreviation Fails :: "string \<Rightarrow> 'a result" where "Fails m \<equiv> Inl (Error m)"
abbreviation Panics :: "string \<Rightarrow> 'a result" where "Panics m \<equiv> Inl (Panic m)"

named_theorems go_defs \<open>definitions of the small helper operations\<close>
named_theorems split_rules \<open>case splits the step proofs use\<close>

lemmas [split_rules] = if_splits option.splits sum.splits prod.splits list.splits

text \<open>Go's truncating division on a signed word; the caller tests for a zero divisor.\<close>

definition quot64 :: "int64 \<Rightarrow> int64 \<Rightarrow> int64" where
  "quot64 a b = word_of_int (sint a sdiv sint b)"

lemma quot64_small:
  assumes "0 \<le> sint a" and "sint a < sint b"
  shows "quot64 a b = 0"
  using assms by (simp add: quot64_def signed_divide_int_def)

lemma quot64_self:
  assumes "a \<noteq> 0"
  shows "quot64 a a = 1"
proof -
  have "sint a \<noteq> 0" using assms by (metis signed_0 signed_word_eqI)
  then show ?thesis by (simp add: quot64_def signed_divide_int_def sgn_if)
qed

section \<open>Go maps\<close>

text \<open>Reading a missing key gives the zero value of the element type.\<close>

definition mget :: "'v \<Rightarrow> ('k \<rightharpoonup> 'v) \<Rightarrow> 'k \<Rightarrow> 'v" where
  [go_defs]: "mget z m k = (case m k of None \<Rightarrow> z | Some v \<Rightarrow> v)"

lemma mget_upd [simp]: "mget z (m(k \<mapsto> v)) j = (if j = k then v else mget z m j)"
  by (simp add: mget_def)

lemma mget_empty [simp]: "mget z Map.empty k = z"
  by (simp add: mget_def)

lemma mget_Some [simp]: "m k = Some v \<Longrightarrow> mget z m k = v"
  by (simp add: mget_def)

lemma mget_None [simp]: "m k = None \<Longrightarrow> mget z m k = z"
  by (simp add: mget_def)

abbreviation aget :: "'v \<Rightarrow> ('k \<times> 'v) list \<Rightarrow> 'k \<Rightarrow> 'v" where
  "aget z m k \<equiv> mget z (map_of m) k"

abbreviation aput :: "'k \<Rightarrow> 'v \<Rightarrow> ('k \<times> 'v) list \<Rightarrow> ('k \<times> 'v) list" where
  "aput \<equiv> AList.update"

abbreviation adel :: "'k \<Rightarrow> ('k \<times> 'v) list \<Rightarrow> ('k \<times> 'v) list" where
  "adel \<equiv> AList.delete"

definition keys_distinct :: "('k \<times> 'v) list \<Rightarrow> bool" where
  "keys_distinct m \<longleftrightarrow> distinct (map fst m)"

lemma keys_distinct_Nil [simp]: "keys_distinct []"
  by (simp add: keys_distinct_def)

lemma keys_distinct_aput [simp]: "keys_distinct m \<Longrightarrow> keys_distinct (aput k v m)"
  by (simp add: keys_distinct_def distinct_update)

lemma keys_distinct_adel [simp]: "keys_distinct m \<Longrightarrow> keys_distinct (adel k m)"
  by (simp add: keys_distinct_def distinct_delete)

lemma map_of_aput [simp]: "map_of (aput k v m) = (map_of m)(k \<mapsto> v)"
  by (rule update_conv')

lemma map_of_adel [simp]: "map_of (adel k m) = (map_of m)(k := None)"
  by (rule delete_conv')

lemma map_of_keys_distinct:
  "keys_distinct m \<Longrightarrow> map_of m k = Some v \<longleftrightarrow> (k, v) \<in> set m"
  by (simp add: keys_distinct_def)

lemma set_aputD: "(k, v) \<in> set (aput j w m) \<Longrightarrow> (k, v) = (j, w) \<or> (k, v) \<in> set m"
  by (induction m) (auto split: if_splits)

lemma set_adelD: "p \<in> set (adel j m) \<Longrightarrow> p \<in> set m"
  by (auto simp: AList.delete_eq)

text \<open>
  The order in which \<open>range\<close> visits a map: any permutation of its entries.  Every property of
  an operation that ranges over a map is proved for all such orders.
\<close>

type_synonym ('k, 'v) order = "('k \<times> 'v) list \<Rightarrow> ('k \<times> 'v) list"

definition range_order :: "('k, 'v) order \<Rightarrow> bool" where
  "range_order ord \<longleftrightarrow> (\<forall>m. mset (ord m) = mset m)"

lemma range_order_set: "range_order ord \<Longrightarrow> set (ord m) = set m"
  by (metis range_order_def set_mset_mset)

lemma range_order_id [simp]: "range_order (\<lambda>m. m)" "range_order rev"
  by (simp_all add: range_order_def)

text \<open>What a loop over a map collects is the same multiset in any range order.\<close>

lemma mset_concat_map: "mset (concat (map f xs)) = sum_mset (image_mset (mset \<circ> f) (mset xs))"
  by (simp add: mset_concat sum_mset_sum_list [symmetric] o_def flip: mset_map)

lemma range_order_concat_map:
  "range_order ord \<Longrightarrow> mset (concat (map f (ord m))) = mset (concat (map f m))"
  by (simp add: mset_concat_map range_order_def)

section \<open>Decimal numbers and strings\<close>

definition digit_char :: "nat \<Rightarrow> char" where
  "digit_char d = char_of (48 + d)"

lemma digit_char_numerals [simp]:
  "digit_char 0 = CHR ''0''" "digit_char (Suc 0) = CHR ''1''" "digit_char 1 = CHR ''1''"
  "digit_char 2 = CHR ''2''" "digit_char 3 = CHR ''3''" "digit_char 4 = CHR ''4''"
  "digit_char 5 = CHR ''5''" "digit_char 6 = CHR ''6''" "digit_char 7 = CHR ''7''"
  "digit_char 8 = CHR ''8''" "digit_char 9 = CHR ''9''"
  unfolding digit_char_def by code_simp+

definition is_digit :: "char \<Rightarrow> bool" where
  "is_digit c \<longleftrightarrow> 48 \<le> (of_char c :: nat) \<and> (of_char c :: nat) \<le> 57"

definition digit_val :: "char \<Rightarrow> nat" where
  "digit_val c = of_char c - 48"

text \<open>\<open>strconv.FormatUint\<close> with base 10.\<close>

fun format_uint :: "nat \<Rightarrow> string" where
  "format_uint n = (if n < 10 then [digit_char n] else format_uint (n div 10) @ [digit_char (n mod 10)])"

declare format_uint.simps [simp del]

text \<open>\<open>fmt.Sprintf\<close> of an \<open>int\<close> with \<open>%v\<close>.\<close>

definition format_int :: "int \<Rightarrow> string" where
  "format_int i = (if i < 0 then CHR ''-'' # format_uint (nat (- i)) else format_uint (nat i))"

fun digits_val :: "nat \<Rightarrow> string \<Rightarrow> nat option" where
  "digits_val acc [] = Some acc"
| "digits_val acc (c # cs) =
     (if is_digit c then digits_val (10 * acc + digit_val c) cs else None)"

text \<open>
  \<open>strconv.Atoi\<close>: an optional sign, at least one digit, and the value must fit \<open>int64\<close>
  (Torq is built for 64-bit platforms).
\<close>

definition atoi :: "string \<Rightarrow> int option" where
  "atoi s =
     (let neg = (case s of c # _ \<Rightarrow> c = CHR ''-'' | [] \<Rightarrow> False);
          signed = (case s of c # _ \<Rightarrow> c = CHR ''-'' \<or> c = CHR ''+'' | [] \<Rightarrow> False);
          ds = (if signed then tl s else s)
      in if ds = [] then None
         else case digits_val 0 ds of
                None \<Rightarrow> None
              | Some n \<Rightarrow>
                  (if neg then (if n \<le> 2 ^ 63 then Some (- int n) else None)
                   else if n < 2 ^ 63 then Some (int n) else None))"

text \<open>\<open>strings.Split\<close> with a one-character separator.\<close>

fun split_on :: "char \<Rightarrow> string \<Rightarrow> string list" where
  "split_on c [] = [[]]"
| "split_on c (x # xs) =
     (if x = c then [] # split_on c xs
      else case split_on c xs of [] \<Rightarrow> [[x]] | p # ps \<Rightarrow> (x # p) # ps)"

lemma split_on_nonempty [simp]: "split_on c s \<noteq> []"
  by (induction s) (auto split: list.splits)

lemma split_on_no_sep: "c \<notin> set s \<Longrightarrow> split_on c s = [s]"
  by (induction s) auto

lemma split_on_parts: "p \<in> set (split_on c s) \<Longrightarrow> c \<notin> set p"
  by (induction s arbitrary: p) (auto split: list.splits if_splits)

lemma split_on_append: "c \<notin> set s \<Longrightarrow> split_on c (s @ c # t) = s # split_on c t"
  by (induction s) auto

lemma digit_char_facts:
  assumes "d < 10"
  shows "is_digit (digit_char d)" and "digit_val (digit_char d) = d"
  using assms by (simp_all add: is_digit_def digit_val_def digit_char_def take_bit_eq_mod)

lemma format_uint_nonempty [simp]: "format_uint n \<noteq> []"
  by (subst format_uint.simps) simp

lemma format_uint_digits: "\<forall>c \<in> set (format_uint n). is_digit c"
proof (induction n rule: format_uint.induct)
  case (1 n)
  then show ?case
    by (subst format_uint.simps) (auto simp: digit_char_facts)
qed

lemma digits_val_append:
  "digits_val acc (xs @ [c]) =
     (case digits_val acc xs of None \<Rightarrow> None
      | Some n \<Rightarrow> if is_digit c then Some (10 * n + digit_val c) else None)"
  by (induction xs arbitrary: acc) (auto split: option.splits)

lemma digits_val_format_uint: "digits_val 0 (format_uint n) = Some n"
proof (induction n rule: format_uint.induct)
  case (1 n)
  show ?case
  proof (cases "n < 10")
    case True
    then show ?thesis by (subst format_uint.simps) (simp add: digit_char_facts)
  next
    case False
    with 1 show ?thesis
      by (subst format_uint.simps) (simp add: digits_val_append digit_char_facts)
  qed
qed

lemma is_digit_not_special [simp]:
  "\<not> is_digit (CHR ''-'')" "\<not> is_digit (CHR ''+'')" "\<not> is_digit (CHR '':'')" "\<not> is_digit (CHR ''x'')"
  by (simp_all add: is_digit_def)

lemma format_uint_no_special:
  "CHR '':'' \<notin> set (format_uint n)" "CHR ''x'' \<notin> set (format_uint n)"
  "CHR ''-'' \<notin> set (format_uint n)" "CHR ''+'' \<notin> set (format_uint n)"
  using format_uint_digits [of n] is_digit_not_special by blast+

lemma format_uint_unsigned:
  "(case format_uint n of [] \<Rightarrow> False | c # _ \<Rightarrow> c = CHR ''-'') = False"
  "(case format_uint n of [] \<Rightarrow> False | c # _ \<Rightarrow> c = CHR ''-'' \<or> c = CHR ''+'') = False"
  using format_uint_no_special [of n] by (auto split: list.splits)

lemma atoi_format_uint: "n < 2 ^ 63 \<Longrightarrow> atoi (format_uint n) = Some (int n)"
  by (simp add: atoi_def format_uint_unsigned digits_val_format_uint)

lemma atoi_format_int:
  assumes "- (2 ^ 63) \<le> i" and "i < 2 ^ 63"
  shows "atoi (format_int i) = Some i"
proof (cases "i < 0")
  case True
  with assms have "nat (- i) \<le> 2 ^ 63" by (simp add: nat_le_iff)
  with True show ?thesis
    by (simp add: atoi_def format_int_def digits_val_format_uint)
next
  case False
  with assms have "nat i < 2 ^ 63" by (simp add: nat_less_iff)
  with False show ?thesis
    by (simp add: format_int_def atoi_format_uint)
qed

lemma format_int_no_colon: "CHR '':'' \<notin> set (format_int i)"
  by (simp add: format_int_def format_uint_no_special)

lemma inj_format_uint: "format_uint m = format_uint n \<Longrightarrow> m = n"
  by (metis digits_val_format_uint option.inject)

lemma minus_not_format_uint [simp]:
  "CHR ''-'' # s \<noteq> format_uint n" "format_uint n \<noteq> CHR ''-'' # s"
  using format_uint_no_special(3) [of n] list.set_intros(1) by metis+

lemma inj_format_int: "format_int i = format_int j \<Longrightarrow> i = j"
  by (auto simp: format_int_def dest!: inj_format_uint split: if_splits)

section \<open>Cache goroutines\<close>

text \<open>
  A cache is one goroutine that owns its maps and serves one request after the other
  (\<open>for { select { case m := <-ch: process(m) } }\<close>).  Serving a request either completes with
  the next state and the value sent on the requester's channel, if any, or the goroutine blocks
  forever (a send on a nil channel), or it panics, which ends the program.
\<close>

datatype ('s, 'r) outcome = Served 's "'r option" | Blocked | Crashed string

definition send :: "bool \<Rightarrow> 'r \<Rightarrow> 's \<Rightarrow> ('s, 'r) outcome" where
  [go_defs]: "send present r s = (if present then Served s (Some r) else Blocked)"

text \<open>
  What a client that waits on its response channel receives: None when it waits forever (or the
  program has ended).
\<close>

definition answer :: "('s, 'r) outcome \<Rightarrow> 'r option" where
  [go_defs]: "answer out = (case out of Served s r \<Rightarrow> r | Blocked \<Rightarrow> None | Crashed m \<Rightarrow> None)"

lemma answer_simps [simp]:
  "answer (Served s r) = r" "answer Blocked = None" "answer (Crashed m) = None"
  by (simp_all add: answer_def)

text \<open>The state after a request is served.\<close>

definition state_after :: "('s, 'r) outcome \<Rightarrow> 's option" where
  [go_defs]: "state_after out = (case out of Served s r \<Rightarrow> Some s | Blocked \<Rightarrow> None | Crashed m \<Rightarrow> None)"

lemma state_after_simps [simp]:
  "state_after (Served s r) = Some s" "state_after Blocked = None" "state_after (Crashed m) = None"
  by (simp_all add: state_after_def)

lemma send_simps [simp]:
  "send True r s = Served s (Some r)" "send False r s = Blocked"
  "send p r s = Served t u \<longleftrightarrow> p \<and> t = s \<and> u = Some r"
  "state_after (send p r s) = Some t \<longleftrightarrow> p \<and> t = s"
  "answer (send p r s) = Some q \<longleftrightarrow> p \<and> q = r"
  by (auto simp: send_def)

inductive serves :: "('s \<Rightarrow> 'm \<Rightarrow> ('s, 'r) outcome) \<Rightarrow> 's \<Rightarrow> 'm list \<Rightarrow> 's \<Rightarrow> bool"
  for serve where
  serves_Nil: "serves serve s [] s"
| serves_Cons: "serve s m = Served t r \<Longrightarrow> serves serve t ms u \<Longrightarrow> serves serve s (m # ms) u"

inductive_cases serves_NilE: "serves serve s [] u"
inductive_cases serves_ConsE: "serves serve s (m # ms) u"

inductive_simps serves_simps [simp]:
  "serves serve s [] u"
  "serves serve s (m # ms) u"

locale cache_server =
  fixes serve :: "'s \<Rightarrow> 'm \<Rightarrow> ('s, 'r) outcome"
    and init :: 's
    and invar :: "'s \<Rightarrow> bool"
  assumes invar_init: "invar init"
    and invar_serve: "invar s \<Longrightarrow> serve s m = Served t r \<Longrightarrow> invar t"
begin

lemma invar_serves: "serves serve s ms t \<Longrightarrow> invar s \<Longrightarrow> invar t"
  by (induction rule: serves.induct) (auto intro: invar_serve)

lemma invar_reachable: "serves serve init ms t \<Longrightarrow> invar t"
  by (erule invar_serves) (rule invar_init)

end

text \<open>
  The contract of a cache that keeps one value per key: a read after a write of the same key
  sees that write, a write of another key does not change what is read.
\<close>

locale keyed_cache =
  fixes get :: "'s \<Rightarrow> 'k \<Rightarrow> 'v"
    and put :: "'k \<Rightarrow> 'v \<Rightarrow> 's \<Rightarrow> 's"
    and ok :: "'k \<Rightarrow> 'v \<Rightarrow> bool"
  assumes get_put: "ok k v \<Longrightarrow> get (put k v s) k = v"
    and get_put_other: "j \<noteq> k \<Longrightarrow> get (put k v s) j = get s j"
begin

definition put_all :: "('k \<times> 'v) list \<Rightarrow> 's \<Rightarrow> 's" where
  "put_all kvs s = foldl (\<lambda>s (k, v). put k v s) s kvs"

lemma put_all_Nil [simp]: "put_all [] s = s"
  by (simp add: put_all_def)

lemma put_all_snoc [simp]: "put_all (kvs @ [(k, v)]) s = put k v (put_all kvs s)"
  by (simp add: put_all_def)

lemma get_put_all:
  assumes "\<forall>(k, v) \<in> set kvs. ok k v"
  shows "get (put_all kvs s) j = (case map_of (rev kvs) j of None \<Rightarrow> get s j | Some v \<Rightarrow> v)"
  using assms
proof (induction kvs rule: rev_induct)
  case (snoc kv kvs)
  then show ?case
    by (cases kv) (auto simp: get_put get_put_other)
qed simp

end

end
