(* ===== verification/ManagedSettings.thy ===== *)
theory ManagedSettings
  imports Prelude
begin

text \<open>
  The cache of the user interface settings, \<open>src/pkg/commons/managedSettings.go\<close>: its state is
  the four variables of \<open>ManagedSettingsCache\<close>, its step is \<open>processManagedSettings\<close>.
\<close>

datatype ManagedSettingsCacheOperationType = READ_SETTINGS | WRITE_SETTINGS

record ManagedSettings =
  ms_Type :: ManagedSettingsCacheOperationType
  ms_DefaultLanguage :: string
  ms_PreferredTimeZone :: string
  ms_DefaultDateRange :: string
  ms_WeekStartsOn :: string
  ms_Out :: bool

record SettingsState =
  defaultLanguage :: string
  preferredTimeZone :: string
  defaultDateRange :: string
  weekStartsOn :: string

definition emptySettingsState :: SettingsState where
  "emptySettingsState =
     \<lparr>defaultLanguage = [], preferredTimeZone = [], defaultDateRange = [], weekStartsOn = []\<rparr>"

definition processManagedSettings ::
    "SettingsState \<Rightarrow> ManagedSettings \<Rightarrow> (SettingsState, ManagedSettings) outcome" where
  "processManagedSettings s m =
     (case ms_Type m of
        READ_SETTINGS \<Rightarrow>
          send (ms_Out m)
            (m\<lparr>ms_DefaultLanguage := defaultLanguage s,
               ms_PreferredTimeZone := preferredTimeZone s,
               ms_DefaultDateRange := defaultDateRange s,
               ms_WeekStartsOn := weekStartsOn s\<rparr>) s
      | WRITE_SETTINGS \<Rightarrow>
          Served
            \<lparr>defaultLanguage = ms_DefaultLanguage m,
             preferredTimeZone = ms_PreferredTimeZone m,
             defaultDateRange = ms_DefaultDateRange m,
             weekStartsOn = ms_WeekStartsOn m\<rparr> None)"

definition GetSettings :: "SettingsState \<Rightarrow> ManagedSettings option" where
  "GetSettings s =
     answer (processManagedSettings s
       \<lparr>ms_Type = READ_SETTINGS, ms_DefaultLanguage = [], ms_PreferredTimeZone = [],
        ms_DefaultDateRange = [], ms_WeekStartsOn = [], ms_Out = True\<rparr>)"

definition SetSettings ::
    "string \<Rightarrow> string \<Rightarrow> string \<Rightarrow> string \<Rightarrow> SettingsState \<Rightarrow> (SettingsState, ManagedSettings) outcome" where
  "SetSettings dateRange language week timeZone s =
     processManagedSettings s
       \<lparr>ms_Type = WRITE_SETTINGS, ms_DefaultLanguage = language, ms_PreferredTimeZone = timeZone,
        ms_DefaultDateRange = dateRange, ms_WeekStartsOn = week, ms_Out = False\<rparr>"

text \<open>A read never changes the settings; only a read whose client passed no channel blocks.\<close>

lemma processManagedSettings_blocks:
  "processManagedSettings s m = Blocked \<longleftrightarrow> ms_Type m = READ_SETTINGS \<and> \<not> ms_Out m"
  by (auto simp: processManagedSettings_def send_def
      split: ManagedSettingsCacheOperationType.splits)

lemma read_settings_frame:
  "ms_Type m = READ_SETTINGS \<Longrightarrow> processManagedSettings s m = Served t r \<Longrightarrow> t = s"
  by (simp add: processManagedSettings_def)

lemma GetSettings_SetSettings:
  "SetSettings dr la we tz s = Served t r \<Longrightarrow>
   GetSettings t = Some \<lparr>ms_Type = READ_SETTINGS, ms_DefaultLanguage = la,
     ms_PreferredTimeZone = tz, ms_DefaultDateRange = dr, ms_WeekStartsOn = we, ms_Out = True\<rparr>"
  by (auto simp: SetSettings_def GetSettings_def processManagedSettings_def)

text \<open>Every writable configuration is the effect of some write: the four fields are independent.\<close>

definition stored_settings :: "SettingsState \<Rightarrow> string \<times> string \<times> string \<times> string" where
  "stored_settings s = (defaultDateRange s, defaultLanguage s, weekStartsOn s, preferredTimeZone s)"

definition write_settings ::
    "unit \<Rightarrow> string \<times> string \<times> string \<times> string \<Rightarrow> SettingsState \<Rightarrow> SettingsState" where
  "write_settings u v s =
     (case v of (dr, la, we, tz) \<Rightarrow> (case SetSettings dr la we tz s of Served t r \<Rightarrow> t | _ \<Rightarrow> s))"

interpretation settings_cache: keyed_cache "\<lambda>s u. stored_settings s" write_settings "\<lambda>u v. True"
  by unfold_locales
    (auto simp: stored_settings_def write_settings_def SetSettings_def processManagedSettings_def
      split: prod.splits)

end
