(* ===== verification/ManagedChannelGroup.thy ===== *)
theory ManagedChannelGroup
  imports Prelude
begin

text \<open>
  The cache of the tags and categories of each channel,
  \<open>src/pkg/commons/managedChannelGroup.go\<close>.  The read handler filters the stored groups by the
  \<open>Include\<close> mode.  One of its modes compares two \<open>*int\<close> pointers, so a category pointer is
  modelled with its address.
\<close>

text \<open>A pointer: nil, or an address with the value it points to.  Go's \<open>==\<close> compares addresses.\<close>

type_synonym 'a pointer = "(nat \<times> 'a) option"

definition ptr_eq :: "'a pointer \<Rightarrow> 'a pointer \<Rightarrow> bool" where
  "ptr_eq p q \<longleftrightarrow> map_option fst p = map_option fst q"

record ChannelGroup =
  cg_TagId :: "int option"
  cg_TagName :: "string option"
  cg_TagStyle :: "string option"
  cg_CategoryId :: "int pointer"
  cg_CategoryName :: "string option"
  cg_CategoryStyle :: "string option"

datatype ManagedChannelGroupCacheOperationType = READ_CHANNELGROUPS | WRITE_CHANNELGROUPS

datatype ChannelGroupInclude =
  CATEGORIES_ONLY | DISTINCT_REGULAR_AND_TAG_CATEGORIES | ALL_REGULAR_AND_TAG_CATEGORIES | TAGS_ONLY

record ManagedChannelGroup =
  mcg_Type :: ManagedChannelGroupCacheOperationType
  mcg_ChannelId :: int
  mcg_Include :: ChannelGroupInclude
  mcg_ChannelGroups :: "ChannelGroup list"
  mcg_Out :: bool

record ManagedChannelGroupSettings =
  mcgs_ChannelId :: int
  mcgs_ChannelGroups :: "ChannelGroup list"

type_synonym ChannelGroupState = "int \<rightharpoonup> ManagedChannelGroupSettings"

section \<open>The read handler\<close>

definition tags_only :: "ChannelGroup list \<Rightarrow> ChannelGroup list" where
  "tags_only gs = filter (\<lambda>g. cg_TagId g \<noteq> None) gs"

definition categories_only :: "ChannelGroup list \<Rightarrow> ChannelGroup list" where
  "categories_only gs = filter (\<lambda>g. cg_CategoryId g \<noteq> None \<and> cg_TagId g = None) gs"

definition is_tag_category :: "ChannelGroup \<Rightarrow> bool" where
  "is_tag_category g \<longleftrightarrow> cg_CategoryId g \<noteq> None \<and> cg_TagId g \<noteq> None"

text \<open>The labelled loop: append the categories that come with a tag.\<close>

fun add_tag_categories ::
    "ChannelGroupInclude \<Rightarrow> ChannelGroup list \<Rightarrow> ChannelGroup list \<Rightarrow> ChannelGroup list" where
  "add_tag_categories incl result [] = result"
| "add_tag_categories incl result (g # gs) =
     (if is_tag_category g then
        (if incl = DISTINCT_REGULAR_AND_TAG_CATEGORIES \<and>
            list_ex (\<lambda>e. ptr_eq (cg_CategoryId e) (cg_CategoryId g)) result
         then add_tag_categories incl result gs
         else add_tag_categories incl (result @ [g]) gs)
      else add_tag_categories incl result gs)"

definition included_groups :: "ChannelGroupInclude \<Rightarrow> ChannelGroup list \<Rightarrow> ChannelGroup list" where
  "included_groups incl gs =
     (if incl = TAGS_ONLY then tags_only gs
      else if incl = CATEGORIES_ONLY then categories_only gs
      else add_tag_categories incl (categories_only gs) gs)"

definition processManagedChannelGroupSettings ::
    "ChannelGroupState \<Rightarrow> ManagedChannelGroup \<Rightarrow>
     (ChannelGroupState, ManagedChannelGroupSettings option) outcome" where
  "processManagedChannelGroupSettings s m =
     (case mcg_Type m of
        READ_CHANNELGROUPS \<Rightarrow>
          (case s (mcg_ChannelId m) of
             None \<Rightarrow> send (mcg_Out m) None s
           | Some settings \<Rightarrow>
               send (mcg_Out m)
                 (Some \<lparr>mcgs_ChannelId = mcg_ChannelId m,
                        mcgs_ChannelGroups = included_groups (mcg_Include m) (mcgs_ChannelGroups settings)\<rparr>) s)
      | WRITE_CHANNELGROUPS \<Rightarrow>
          (if mcg_ChannelId m = 0 then Served s None
           else Served (s(mcg_ChannelId m \<mapsto>
                  \<lparr>mcgs_ChannelId = mcg_ChannelId m, mcgs_ChannelGroups = mcg_ChannelGroups m\<rparr>)) None))"

definition GetChannelGroupsByChannelId ::
    "int \<Rightarrow> ChannelGroupInclude \<Rightarrow> ChannelGroupState \<Rightarrow> ManagedChannelGroupSettings option option" where
  "GetChannelGroupsByChannelId channelId incl s =
     answer (processManagedChannelGroupSettings s
       \<lparr>mcg_Type = READ_CHANNELGROUPS, mcg_ChannelId = channelId, mcg_Include = incl,
        mcg_ChannelGroups = [], mcg_Out = True\<rparr>)"

definition SetChannelGroupsByChannelId ::
    "int \<Rightarrow> ChannelGroup list \<Rightarrow> ChannelGroupState \<Rightarrow>
     (ChannelGroupState, ManagedChannelGroupSettings option) outcome" where
  "SetChannelGroupsByChannelId channelId groups s =
     processManagedChannelGroupSettings s
       \<lparr>mcg_Type = WRITE_CHANNELGROUPS, mcg_ChannelId = channelId, mcg_Include = CATEGORIES_ONLY,
        mcg_ChannelGroups = groups, mcg_Out = False\<rparr>"

section \<open>The cache invariant\<close>

text \<open>Every entry is stored under its own channel id, and no entry is stored under 0.\<close>

definition group_state_ok :: "ChannelGroupState \<Rightarrow> bool" where
  "group_state_ok s \<longleftrightarrow> s 0 = None \<and> (\<forall>k v. s k = Some v \<longrightarrow> mcgs_ChannelId v = k)"

interpretation group_cache: cache_server processManagedChannelGroupSettings Map.empty group_state_ok
  by unfold_locales
    (auto simp: group_state_ok_def processManagedChannelGroupSettings_def
      split: ManagedChannelGroupCacheOperationType.splits option.splits if_splits)

definition stored_groups :: "ChannelGroupState \<Rightarrow> int \<Rightarrow> ChannelGroup list option" where
  "stored_groups s k = map_option mcgs_ChannelGroups (s k)"

definition write_groups :: "int \<Rightarrow> ChannelGroup list option \<Rightarrow> ChannelGroupState \<Rightarrow> ChannelGroupState" where
  "write_groups k gs s =
     (case gs of None \<Rightarrow> s
      | Some g \<Rightarrow> (case SetChannelGroupsByChannelId k g s of Served t r \<Rightarrow> t | _ \<Rightarrow> s))"

interpretation group_store: keyed_cache stored_groups write_groups "\<lambda>k v. k \<noteq> 0 \<and> v \<noteq> None"
  by unfold_locales
    (auto simp: stored_groups_def write_groups_def SetChannelGroupsByChannelId_def
      processManagedChannelGroupSettings_def split: option.splits)

section \<open>What the modes return\<close>

lemma add_tag_categories_all:
  "incl \<noteq> DISTINCT_REGULAR_AND_TAG_CATEGORIES \<Longrightarrow>
   add_tag_categories incl result gs = result @ filter is_tag_category gs"
  by (induction gs arbitrary: result) auto

lemma add_tag_categories_fresh:
  assumes "distinct (map (map_option fst \<circ> cg_CategoryId) (result @ filter is_tag_category gs))"
  shows "add_tag_categories DISTINCT_REGULAR_AND_TAG_CATEGORIES result gs =
         result @ filter is_tag_category gs"
  using assms
proof (induction gs arbitrary: result)
  case (Cons g gs)
  show ?case
  proof (cases "is_tag_category g")
    case True
    with Cons.prems have "\<not> list_ex (\<lambda>e. ptr_eq (cg_CategoryId e) (cg_CategoryId g)) result"
      by (force simp: list_ex_iff ptr_eq_def image_iff)
    with True Cons show ?thesis by simp
  next
    case False
    with Cons show ?thesis by simp
  qed
qed simp

lemma set_add_tag_categories:
  "set result \<subseteq> set (add_tag_categories incl result gs)"
  "set (add_tag_categories incl result gs) \<subseteq> set result \<union> {g \<in> set gs. is_tag_category g}"
  by (induction gs arbitrary: result) (force split: if_splits)+

lemma add_tag_categories_covers:
  assumes "g \<in> set gs" and "is_tag_category g"
  shows "\<exists>e \<in> set (add_tag_categories incl result gs). ptr_eq (cg_CategoryId e) (cg_CategoryId g)"
  using assms
proof (induction gs arbitrary: result)
  case (Cons h gs)
  show ?case
  proof (cases "h = g")
    case True
    have "\<exists>e \<in> set (if incl = DISTINCT_REGULAR_AND_TAG_CATEGORIES \<and>
            list_ex (\<lambda>e. ptr_eq (cg_CategoryId e) (cg_CategoryId g)) result then result
          else result @ [g]). ptr_eq (cg_CategoryId e) (cg_CategoryId g)"
      by (auto simp: list_ex_iff ptr_eq_def)
    with True Cons.prems(2) show ?thesis
      using set_add_tag_categories(1) by (fastforce split: if_splits)
  next
    case False
    with Cons show ?thesis by auto
  qed
qed simp

end
