(* ===== verification/Constants.thy ===== *)
theory Constants
  imports Prelude
begin

text \<open>
  The enumerations and constants of \<open>src/pkg/commons/constants.go\<close>.  An \<open>iota\<close> enumeration is
  a datatype; where the code compares, stores or transmits the number behind a constant, a
  \<open>code\<close> function gives it.  Bit flag types (\<open>PingSystem\<close>,
  \<open>NodeConnectionDetailCustomSettings\<close>) stay bytes.
\<close>

section \<open>Services\<close>

datatype ServiceType = LndService | VectorService | AmbossService | TorqService

definition TorqDummyNodeId :: int where
  "TorqDummyNodeId = - 1337"

datatype ServiceCommand = Boot | Kill

datatype Status = Inactive | Active | Pending | Deleted | Initializing

fun status_code :: "Status \<Rightarrow> int" where
  "status_code Inactive = 0"
| "status_code Active = 1"
| "status_code Pending = 2"
| "status_code Deleted = 3"
| "status_code Initializing = 4"

text \<open>A \<open>Status\<close> read from a number that names none of the constants has no constructor here.\<close>

definition status_of_code :: "int \<Rightarrow> Status option" where
  "status_of_code n =
     (if n = 0 then Some Inactive else if n = 1 then Some Active else if n = 2 then Some Pending
      else if n = 3 then Some Deleted else if n = 4 then Some Initializing else None)"

lemma status_of_status_code [simp]: "status_of_code (status_code s) = Some s"
  by (cases s) (simp_all add: status_of_code_def)

record ServiceChannelMessage =
  scm_ServiceType :: ServiceType
  scm_ServiceCommand :: ServiceCommand
  scm_NodeId :: int
  scm_EnforcedServiceStatus :: "Status option"
  scm_NoDelay :: bool
  scm_Out :: bool

section \<open>Chains and channels\<close>

datatype Implementation = LND | CLN

datatype Chain = Bitcoin | Litecoin

datatype Network = MainNet | TestNet | RegTest | SigNet | SimNet

datatype ChannelStatus =
    Opening | Open | Closing
  | CooperativeClosed | LocalForceClosed | RemoteForceClosed
  | BreachClosed | FundingCancelledClosed | AbandonedClosed

fun channel_status_code :: "ChannelStatus \<Rightarrow> int" where
  "channel_status_code Opening = 0"
| "channel_status_code Open = 1"
| "channel_status_code Closing = 2"
| "channel_status_code CooperativeClosed = 100"
| "channel_status_code LocalForceClosed = 101"
| "channel_status_code RemoteForceClosed = 102"
| "channel_status_code BreachClosed = 103"
| "channel_status_code FundingCancelledClosed = 104"
| "channel_status_code AbandonedClosed = 105"

lemma channel_status_code_inj: "channel_status_code a = channel_status_code b \<Longrightarrow> a = b"
  by (cases a; cases b) simp_all

text \<open>The code compares channel statuses by their numbers.\<close>

instantiation ChannelStatus :: linorder
begin

definition less_eq_ChannelStatus :: "ChannelStatus \<Rightarrow> ChannelStatus \<Rightarrow> bool" where
  "less_eq_ChannelStatus a b \<longleftrightarrow> channel_status_code a \<le> channel_status_code b"

definition less_ChannelStatus :: "ChannelStatus \<Rightarrow> ChannelStatus \<Rightarrow> bool" where
  "less_ChannelStatus a b \<longleftrightarrow> channel_status_code a < channel_status_code b"

instance
  by intro_classes
    (auto simp: less_eq_ChannelStatus_def less_ChannelStatus_def intro: channel_status_code_inj)

end

section \<open>Bit flags\<close>

type_synonym PingSystem = "8 word"

definition PingAmboss :: PingSystem where
  "PingAmboss = 1"

definition PingVector :: PingSystem where
  "PingVector = 2"

definition PingSystemMax :: int where
  "PingSystemMax = uint PingVector * 2 - 1"

type_synonym NodeConnectionDetailCustomSettings = "8 word"

definition ImportFailedPayments :: NodeConnectionDetailCustomSettings where
  "ImportFailedPayments = 1"

definition NodeConnectionDetailCustomSettingsMax :: int where
  "NodeConnectionDetailCustomSettingsMax = uint ImportFailedPayments * 2 - 1"

section \<open>Subscription streams\<close>

datatype SubscriptionStream =
    TransactionStream | HtlcEventStream | ChannelEventStream | GraphEventStream | ForwardStream
  | InvoiceStream | PaymentStream | InFlightPaymentStream | PeerEventStream
  | ChannelBalanceCacheStream

definition SubscriptionStreams :: "SubscriptionStream list" where
  "SubscriptionStreams =
     [TransactionStream, HtlcEventStream, ChannelEventStream, GraphEventStream, ForwardStream,
      InvoiceStream, PaymentStream, InFlightPaymentStream, PeerEventStream,
      ChannelBalanceCacheStream]"

lemma SubscriptionStreams_complete: "set SubscriptionStreams = UNIV" "distinct SubscriptionStreams"
proof -
  show "set SubscriptionStreams = UNIV"
    unfolding SubscriptionStreams_def
    by (rule set_eqI, case_tac x) simp_all
  show "distinct SubscriptionStreams"
    by (simp add: SubscriptionStreams_def)
qed

text \<open>\<open>IsChannelBalanceCache\<close> on a pointer that may be nil.\<close>

definition IsChannelBalanceCache :: "SubscriptionStream option \<Rightarrow> bool" where
  "IsChannelBalanceCache ss =
     (case ss of
        None \<Rightarrow> False
      | Some s \<Rightarrow>
          s = ForwardStream \<or> s = InvoiceStream \<or> s = PaymentStream \<or> s = PeerEventStream \<or>
          s = ChannelEventStream \<or> s = GraphEventStream \<or> s = HtlcEventStream)"

datatype ImportType = ImportChannelAndRoutingPolicies | ImportNodeInformation

record ImportRequest =
  ir_ImportType :: ImportType
  ir_Out :: bool

end
