(* ===== verification/Functions.thy ===== *)
theory Functions
  imports Constants
begin

unbundle bit_operations_syntax

text \<open>
  The conversions of \<open>src/pkg/commons/functions.go\<close>: network and chain names, short channel ids
  between LND's 64-bit form and the text form \<open>BLOCKxTXxOUTPUT\<close>, channel points
  \<open>HASH:INDEX\<close>.  The lemmas show that both text forms are parsed back to what was printed, and
  on which inputs the parser panics.  The mutex probes of the file use reflection on
  \<open>sync.Mutex\<close> and are not modelled; the caches never call them.
\<close>

definition GetNetwork :: "string \<Rightarrow> Network" where
  "GetNetwork network =
     (if network = ''testnet'' then TestNet
      else if network = ''signet'' then SigNet
      else if network = ''simnet'' then SimNet
      else if network = ''regtest'' then RegTest
      else MainNet)"

definition GetChain :: "string \<Rightarrow> Chain" where
  "GetChain chain = (if chain = ''litecoin'' then Litecoin else Bitcoin)"

section \<open>Short channel ids\<close>

definition ConvertLNDShortChannelID :: "uint64 \<Rightarrow> string" where
  "ConvertLNDShortChannelID lndShortChannelID =
     (let blockHeight = (ucast (drop_bit 40 lndShortChannelID) :: 32 word);
          txIndex = (ucast (drop_bit 16 lndShortChannelID) :: 32 word) AND 0xFFFFFF;
          outputIndex = (ucast lndShortChannelID :: 16 word)
      in format_uint (unat blockHeight) @ ''x'' @ format_uint (unat txIndex) @ ''x'' @
         format_uint (unat outputIndex))"

definition ConvertShortChannelIDToLND :: "string \<Rightarrow> uint64 result" where
  "ConvertShortChannelIDToLND shortChannelID =
     (let parts = split_on (CHR ''x'') shortChannelID in
      case atoi (parts ! 0) of
        None \<Rightarrow> Fails ''Converting block height from string to int''
      | Some blockHeight \<Rightarrow>
          (if length parts \<le> 1 then Panics ''index out of range [1]''
           else case atoi (parts ! 1) of
             None \<Rightarrow> Fails ''Converting tx index from string to int''
           | Some txIndex \<Rightarrow>
               (if length parts \<le> 2 then Panics ''index out of range [2]''
                else case atoi (parts ! 2) of
                  None \<Rightarrow> Fails ''Converting tx position from string to int''
                | Some txPosition \<Rightarrow>
                    Ok ((push_bit 40 (word_of_int blockHeight)) OR
                        (push_bit 16 (word_of_int txIndex)) OR
                        word_of_int txPosition))))"

text \<open>The text of three components, and what the parser makes of it.\<close>

definition scid_text :: "nat \<Rightarrow> nat \<Rightarrow> nat \<Rightarrow> string" where
  "scid_text b t p = format_uint b @ ''x'' @ format_uint t @ ''x'' @ format_uint p"

lemma scid_text_parts:
  "split_on (CHR ''x'') (scid_text b t p) = [format_uint b, format_uint t, format_uint p]"
  by (simp add: scid_text_def split_on_append split_on_no_sep format_uint_no_special)

lemma parse_scid_text:
  assumes "b < 2 ^ 63" "t < 2 ^ 63" "p < 2 ^ 63"
  shows "ConvertShortChannelIDToLND (scid_text b t p) =
    Ok (push_bit 40 (word_of_nat b) OR push_bit 16 (word_of_nat t) OR word_of_nat p)"
  using assms
  by (simp add: ConvertShortChannelIDToLND_def scid_text_parts atoi_format_uint)

lemma mask_24: "(0xFFFFFF :: 32 word) = mask 24"
  by (simp add: mask_eq_exp_minus_1)

lemmas word_bits =
  bit_or_iff bit_and_iff bit_push_bit_iff bit_unsigned_iff bit_drop_bit_eq bit_mask_iff o_def
  bit_of_nat_iff possible_bit_word

lemma scid_components:
  fixes x :: uint64
  shows "push_bit 40 (word_of_nat (unat (ucast (drop_bit 40 x) :: 32 word))) OR
         push_bit 16 (word_of_nat (unat ((ucast (drop_bit 16 x) :: 32 word) AND 0xFFFFFF))) OR
         word_of_nat (unat (ucast x :: 16 word)) = x"
proof -
  have u: "word_of_nat (unat (w :: 'a::len word)) = (ucast w :: uint64)" for w
    by simp
  show ?thesis
    unfolding u mask_24
  proof (rule bit_word_eqI, goal_cases)
    case (1 n)
    then show ?case
      by (cases "n < 40"; cases "n < 16") (auto simp: word_bits)
  qed
qed

text \<open>In the other direction the three fields do not overlap when each is within its width.\<close>

lemma bounded_bits: "n < 2 ^ k \<Longrightarrow> bit n i \<Longrightarrow> i < k" for n :: nat
  by (metis bit_take_bit_iff take_bit_nat_eq_self)

lemma assemble_scid:
  assumes "b < 2 ^ 24" "t < 2 ^ 24" "p < 2 ^ 16"
  defines "x \<equiv> push_bit 40 (word_of_nat b) OR push_bit 16 (word_of_nat t) OR word_of_nat p :: uint64"
  shows "unat (ucast (drop_bit 40 x) :: 32 word) = b"
    and "unat ((ucast (drop_bit 16 x) :: 32 word) AND 0xFFFFFF) = t"
    and "unat (ucast x :: 16 word) = p"
proof -
  note small = assms(1-3) [THEN bounded_bits]
  show "unat (ucast (drop_bit 40 x) :: 32 word) = b"
    by (rule bit_eqI, simp only: word_bits x_def, simp) (auto dest: small)
  show "unat ((ucast (drop_bit 16 x) :: 32 word) AND 0xFFFFFF) = t"
    unfolding mask_24
    by (rule bit_eqI, simp only: word_bits x_def, simp) (auto dest: small)
  show "unat (ucast x :: 16 word) = p"
    by (rule bit_eqI, simp only: word_bits x_def, simp) (auto dest: small)
qed

lemma ConvertLNDShortChannelID_text:
  "ConvertLNDShortChannelID x =
     scid_text (unat (ucast (drop_bit 40 x) :: 32 word))
       (unat ((ucast (drop_bit 16 x) :: 32 word) AND 0xFFFFFF)) (unat (ucast x :: 16 word))"
  by (simp add: ConvertLNDShortChannelID_def scid_text_def Let_def)

lemma unat_lt_2_63: "LENGTH('a::len) \<le> 32 \<Longrightarrow> unat (w :: 'a word) < 2 ^ 63"
proof -
  assume "LENGTH('a) \<le> 32"
  then have "(2::nat) ^ LENGTH('a) \<le> 2 ^ 32" by (rule power_increasing) simp
  moreover have "unat w < 2 ^ LENGTH('a)" by (rule unsigned_less)
  moreover have "(2::nat) ^ 32 \<le> 2 ^ 63" by simp
  ultimately show ?thesis by (metis less_le_trans)
qed

text \<open>
  C1: every 64-bit LND short channel id is read back from its text form: the parser accepts what
  the printer prints and returns the same 64 bits.
\<close>

theorem scid_roundtrip:
  "ConvertShortChannelIDToLND (ConvertLNDShortChannelID x) = Ok x"
proof -
  have "LENGTH(32) \<le> 32" "LENGTH(16) \<le> 32" by simp_all
  note small = this [THEN unat_lt_2_63]
  show ?thesis
    unfolding ConvertLNDShortChannelID_text parse_scid_text [OF small(1) small(1) small(2)]
      scid_components ..
qed

text \<open>
  a text whose three numbers fit LND's fields (24, 24 and 16 bits) is parsed, and printing the
  parsed id gives the same text.
\<close>

lemma scid_text_roundtrip:
  assumes "b < 2 ^ 24" "t < 2 ^ 24" "p < 2 ^ 16"
  shows "\<exists>x. ConvertShortChannelIDToLND (scid_text b t p) = Ok x \<and>
             ConvertLNDShortChannelID x = scid_text b t p"
proof -
  have "b < 2 ^ 63" "t < 2 ^ 63" "p < 2 ^ 63" using assms by simp_all
  from parse_scid_text [OF this] show ?thesis
    using assemble_scid [OF assms] by (auto simp: ConvertLNDShortChannelID_text)
qed

lemma scid_text_roundtrip_witness:
  "\<exists>x. ConvertShortChannelIDToLND (scid_text 505580 1917 1) = Ok x \<and>
       ConvertLNDShortChannelID x = scid_text 505580 1917 1"
  by (rule scid_text_roundtrip) simp_all

text \<open>A number too large for its field runs into the next one: two texts, one channel.\<close>

lemma scid_overflow_collides:
  "ConvertShortChannelIDToLND (scid_text 0 0 65536) = ConvertShortChannelIDToLND (scid_text 0 1 0)"
  by (simp add: parse_scid_text push_bit_eq_mult)

text \<open>The parser returns an error for a bad number but panics when a component is missing.\<close>

lemma atoi_empty [simp]: "atoi [] = None"
  by (simp add: atoi_def)

lemma scid_missing_part_panics:
  assumes "n < 2 ^ 63"
  shows "ConvertShortChannelIDToLND (format_uint n) = Panics ''index out of range [1]''"
  using assms
  by (simp add: ConvertShortChannelIDToLND_def split_on_no_sep format_uint_no_special atoi_format_uint)

lemma scid_empty: "ConvertShortChannelIDToLND [] = Fails ''Converting block height from string to int''"
  by (simp add: ConvertShortChannelIDToLND_def)

lemma scid_panics_iff:
  "(\<exists>m. ConvertShortChannelIDToLND s = Panics m) \<longleftrightarrow>
   (let parts = split_on (CHR ''x'') s in
      atoi (parts ! 0) \<noteq> None \<and>
      (length parts = 1 \<or> length parts = 2 \<and> atoi (parts ! 1) \<noteq> None))"
proof -
  have "split_on (CHR ''x'') s \<noteq> []" by simp
  then have "0 < length (split_on (CHR ''x'') s)" by blast
  moreover have "0 < k \<Longrightarrow> k = 1 \<or> k = 2 \<or> 2 < k" for k :: nat by linarith
  ultimately consider "length (split_on (CHR ''x'') s) = 1" | "length (split_on (CHR ''x'') s) = 2"
    | "2 < length (split_on (CHR ''x'') s)" by blast
  then show ?thesis
    by cases (auto simp: ConvertShortChannelIDToLND_def Let_def split: option.splits)
qed

section \<open>Channel points\<close>

definition ParseChannelPoint :: "string \<Rightarrow> string \<times> int" where
  "ParseChannelPoint channelPoint =
     (let parts = split_on (CHR '':'') channelPoint in
      if channelPoint \<noteq> [] \<and> CHR '':'' \<in> set channelPoint \<and> length parts = 2
      then (case atoi (parts ! 1) of
              Some outputIndex \<Rightarrow> (parts ! 0, outputIndex)
            | None \<Rightarrow> ([], 0))
      else ([], 0))"

definition CreateChannelPoint :: "string \<Rightarrow> int \<Rightarrow> string" where
  "CreateChannelPoint fundingTransactionHash fundingOutputIndex =
     fundingTransactionHash @ '':'' @ format_int fundingOutputIndex"

lemma ParseChannelPoint_CreateChannelPoint:
  assumes "CHR '':'' \<notin> set h" and "- (2 ^ 63) \<le> i" and "i < 2 ^ 63"
  shows "ParseChannelPoint (CreateChannelPoint h i) = (h, i)"
  using assms
  by (simp add: ParseChannelPoint_def CreateChannelPoint_def split_on_append split_on_no_sep
      format_int_no_colon atoi_format_int)

text \<open>
  parsing a created channel point gives back the funding transaction hash and the output
  index, for a hash without a colon and any index of Go's \<open>int\<close>.
\<close>

lemma channel_point_roundtrip:
  assumes "CHR '':'' \<notin> set h" and "- (2 ^ 63) \<le> i" and "i < 2 ^ 63"
  shows "ParseChannelPoint (CreateChannelPoint h i) = (h, i)"
  using assms by (rule ParseChannelPoint_CreateChannelPoint)

lemma channel_point_roundtrip_witness:
  "ParseChannelPoint (CreateChannelPoint ''ab12'' 1) = (''ab12'', 1)"
  by (rule channel_point_roundtrip) simp_all

text \<open>Hence distinct funding outputs have distinct channel points, which key the caches.\<close>

lemma channel_point_inj:
  assumes "CHR '':'' \<notin> set h" "CHR '':'' \<notin> set g"
    and "CreateChannelPoint h i = CreateChannelPoint g j"
  shows "h = g \<and> i = j"
proof -
  from assms(3) have "split_on (CHR '':'') (CreateChannelPoint h i) = split_on (CHR '':'') (CreateChannelPoint g j)"
    by simp
  with assms(1,2) show ?thesis
    by (auto simp: CreateChannelPoint_def split_on_append split_on_no_sep format_int_no_colon
        dest: inj_format_int)
qed

lemma ParseChannelPoint_no_colon: "CHR '':'' \<notin> set s \<Longrightarrow> ParseChannelPoint s = ([], 0)"
  by (simp add: ParseChannelPoint_def)

end
