(* ===== verification/ManagedChannel.thy ===== *)
theory ManagedChannel
  imports Functions
begin

text \<open>
  The channel cache, \<open>src/pkg/commons/managedChannel.go\<close>: lookups of channel ids by short
  channel id and by funding output, once over all channels and once over the channels that are
  not closed, the status and the settings of every channel.  The state is the six maps of
  \<open>ManagedChannelCache\<close>; the three that a handler ranges over are association lists.  The step
  is \<open>processManagedChannel\<close>, which is given the two range orders of the
  maps it ranges over.
\<close>

section \<open>Messages and state\<close>

datatype ManagedChannelCacheOperationType =
    READ_ACTIVE_CHANNELID_BY_SHORTCHANNELID
  | READ_CHANNELID_BY_SHORTCHANNELID
  | READ_ACTIVE_CHANNELID_BY_FUNDING_TRANSACTION
  | READ_CHANNELID_BY_FUNDING_TRANSACTION
  | READ_CHANNELIDS_BY_NODE_ID
  | READ_STATUSID_BY_CHANNELID
  | READ_CHANNEL_SETTINGS
  | READ_ALL_CHANNEL_SETTINGS
  | WRITE_CHANNEL
  | WRITE_CHANNELSTATUSID

record ManagedChannel =
  mc_Type :: ManagedChannelCacheOperationType
  mc_ChannelId :: int
  mc_ShortChannelId :: string
  mc_LndShortChannelId :: uint64
  mc_FundingTransactionHash :: string
  mc_FundingOutputIndex :: int
  mc_Capacity :: int64
  mc_NodeId :: int
  mc_FirstNodeId :: int
  mc_SecondNodeId :: int
  mc_InitiatingNodeId :: "int option"
  mc_AcceptingNodeId :: "int option"
  mc_Private :: bool
  mc_Status :: ChannelStatus
  mc_Out :: bool
  mc_ChannelSettingOut :: bool
  mc_ChannelSettingsOut :: bool
  mc_ChannelIdsOut :: bool

record ManagedChannelSettings =
  mcs_ChannelId :: int
  mcs_ShortChannelId :: string
  mcs_LndShortChannelId :: uint64
  mcs_FundingTransactionHash :: string
  mcs_FundingOutputIndex :: int
  mcs_Capacity :: int64
  mcs_FirstNodeId :: int
  mcs_SecondNodeId :: int
  mcs_InitiatingNodeId :: "int option"
  mcs_AcceptingNodeId :: "int option"
  mcs_Private :: bool
  mcs_Status :: ChannelStatus

definition zeroChannelSettings :: ManagedChannelSettings where
  "zeroChannelSettings =
     \<lparr>mcs_ChannelId = 0, mcs_ShortChannelId = [], mcs_LndShortChannelId = 0,
      mcs_FundingTransactionHash = [], mcs_FundingOutputIndex = 0, mcs_Capacity = 0,
      mcs_FirstNodeId = 0, mcs_SecondNodeId = 0, mcs_InitiatingNodeId = None,
      mcs_AcceptingNodeId = None, mcs_Private = False, mcs_Status = Opening\<rparr>"

definition channelRequest :: "ManagedChannelCacheOperationType \<Rightarrow> ManagedChannel" where
  [simp]: "channelRequest ty =
     \<lparr>mc_Type = ty, mc_ChannelId = 0, mc_ShortChannelId = [], mc_LndShortChannelId = 0,
      mc_FundingTransactionHash = [], mc_FundingOutputIndex = 0, mc_Capacity = 0, mc_NodeId = 0,
      mc_FirstNodeId = 0, mc_SecondNodeId = 0, mc_InitiatingNodeId = None,
      mc_AcceptingNodeId = None, mc_Private = False, mc_Status = Opening, mc_Out = False,
      mc_ChannelSettingOut = False, mc_ChannelSettingsOut = False, mc_ChannelIdsOut = False\<rparr>"

record ChannelState =
  shortChannelIdCache :: "(string \<times> int) list"
  allShortChannelIdCache :: "string \<rightharpoonup> int"
  channelPointCache :: "(string \<times> int) list"
  allChannelPointCache :: "string \<rightharpoonup> int"
  allChannelStatusCache :: "int \<rightharpoonup> ChannelStatus"
  allChannelSettingsByChannelIdCache :: "(int \<times> ManagedChannelSettings) list"

definition emptyChannelState :: ChannelState where
  "emptyChannelState =
     \<lparr>shortChannelIdCache = [], allShortChannelIdCache = Map.empty, channelPointCache = [],
      allChannelPointCache = Map.empty, allChannelStatusCache = Map.empty,
      allChannelSettingsByChannelIdCache = []\<rparr>"

datatype ChannelReply =
    ChannelOut ManagedChannel
  | ChannelSettingOut ManagedChannelSettings
  | ChannelSettingsOut "ManagedChannelSettings list"
  | ChannelIdsOut "int list"

section \<open>The handlers\<close>

text \<open>\<open>createChannelPoint\<close> builds the same text as \<open>CreateChannelPoint\<close> of the functions file.\<close>

definition createChannelPoint :: "ManagedChannel \<Rightarrow> string" where
  "createChannelPoint m = mc_FundingTransactionHash m @ '':'' @ format_int (mc_FundingOutputIndex m)"

text \<open>
  \<open>parseAndConvertShortIds\<close> receives its argument by value: the result is the callee's copy,
  which the caller never sees.  A conversion error is logged and leaves 0.
\<close>

definition parseAndConvertShortIds :: "ManagedChannel \<Rightarrow> ManagedChannel result" where
  "parseAndConvertShortIds m =
     (let m1 = (if mc_ShortChannelId m = [] \<and> mc_LndShortChannelId m \<noteq> 0
                then m\<lparr>mc_ShortChannelId := ConvertLNDShortChannelID (mc_LndShortChannelId m)\<rparr>
                else m)
      in if mc_LndShortChannelId m1 = 0 \<and> mc_ShortChannelId m1 \<noteq> []
         then (case ConvertShortChannelIDToLND (mc_ShortChannelId m1) of
                 Ok lnd \<Rightarrow> Ok (m1\<lparr>mc_LndShortChannelId := lnd\<rparr>)
               | Fails e \<Rightarrow> Ok (m1\<lparr>mc_LndShortChannelId := 0\<rparr>)
               | Panics e \<Rightarrow> Panics e)
         else Ok m1)"

text \<open>Per channel, once as first node and once as second node.\<close>

definition channels_of_node ::
    "int \<Rightarrow> (int \<times> ManagedChannelSettings) list \<Rightarrow> ManagedChannelSettings list" where
  "channels_of_node nodeId entries =
     concat (map (\<lambda>(k, cs).
       (if mcs_FirstNodeId cs = nodeId then [cs] else []) @
       (if mcs_SecondNodeId cs = nodeId then [cs] else [])) entries)"

text \<open>The first key, in range order, whose channel is the given one; the empty text if none is.\<close>

definition matching_key :: "int \<Rightarrow> (string \<times> int) list \<Rightarrow> string" where
  "matching_key channelId entries =
     (case find (\<lambda>(k, v). v = channelId) entries of None \<Rightarrow> [] | Some (k, v) \<Rightarrow> k)"

definition delete_matching ::
    "(string, int) order \<Rightarrow> int \<Rightarrow> (string \<times> int) list \<Rightarrow> (string \<times> int) list" where
  "delete_matching ord channelId m =
     (let k = matching_key channelId (ord m) in if k \<noteq> [] then adel k m else m)"

definition settings_of_message :: "ManagedChannel \<Rightarrow> ManagedChannelSettings" where
  "settings_of_message m =
     \<lparr>mcs_ChannelId = mc_ChannelId m,
      mcs_ShortChannelId = mc_ShortChannelId m,
      mcs_LndShortChannelId = 0,
      mcs_FundingTransactionHash = mc_FundingTransactionHash m,
      mcs_FundingOutputIndex = mc_FundingOutputIndex m,
      mcs_Capacity = mc_Capacity m,
      mcs_FirstNodeId = mc_FirstNodeId m,
      mcs_SecondNodeId = mc_SecondNodeId m,
      mcs_InitiatingNodeId = mc_InitiatingNodeId m,
      mcs_AcceptingNodeId = mc_AcceptingNodeId m,
      mcs_Private = mc_Private m,
      mcs_Status = mc_Status m\<rparr>"

definition writeChannel :: "ManagedChannel \<Rightarrow> ChannelState \<Rightarrow> (ChannelState, ChannelReply) outcome" where
  "writeChannel m s =
     (if mc_ChannelId m = 0 \<or> mc_FundingTransactionHash m = [] then Served s None
      else
        let channelPoint = createChannelPoint m in
        case parseAndConvertShortIds m of
          Inl e \<Rightarrow> Crashed (case e of Error t \<Rightarrow> t | Panic t \<Rightarrow> t)
        | Inr dropped \<Rightarrow>
            let s1 = (if mc_Status m < CooperativeClosed
                      then (let s0 = (if mc_ShortChannelId m \<noteq> []
                                      then s\<lparr>shortChannelIdCache :=
                                               aput (mc_ShortChannelId m) (mc_ChannelId m) (shortChannelIdCache s)\<rparr>
                                      else s)
                            in s0\<lparr>channelPointCache := aput channelPoint (mc_ChannelId m) (channelPointCache s0)\<rparr>)
                      else s);
                s2 = (if mc_ShortChannelId m \<noteq> []
                      then s1\<lparr>allShortChannelIdCache :=
                                (allShortChannelIdCache s1)(mc_ShortChannelId m \<mapsto> mc_ChannelId m)\<rparr>
                      else s1)
            in Served
                 (s2\<lparr>allChannelPointCache := (allChannelPointCache s2)(channelPoint \<mapsto> mc_ChannelId m),
                     allChannelStatusCache := (allChannelStatusCache s2)(mc_ChannelId m \<mapsto> mc_Status m),
                     allChannelSettingsByChannelIdCache :=
                       aput (mc_ChannelId m) (settings_of_message m)
                         (allChannelSettingsByChannelIdCache s2)\<rparr>) None)"

definition writeChannelStatus ::
    "(string, int) order \<Rightarrow> ManagedChannel \<Rightarrow> ChannelState \<Rightarrow> (ChannelState, ChannelReply) outcome" where
  "writeChannelStatus ordC m s =
     (if mc_ChannelId m = 0 then Served s None
      else
        let s1 = (if CooperativeClosed \<le> mc_Status m
                  then s\<lparr>shortChannelIdCache :=
                           delete_matching ordC (mc_ChannelId m) (shortChannelIdCache s),
                         channelPointCache :=
                           delete_matching ordC (mc_ChannelId m) (channelPointCache s)\<rparr>
                  else s);
            settings = aget zeroChannelSettings (allChannelSettingsByChannelIdCache s1) (mc_ChannelId m)
        in Served
             (s1\<lparr>allChannelStatusCache := (allChannelStatusCache s1)(mc_ChannelId m \<mapsto> mc_Status m),
                 allChannelSettingsByChannelIdCache :=
                   aput (mc_ChannelId m) (settings\<lparr>mcs_Status := mc_Status m\<rparr>)
                     (allChannelSettingsByChannelIdCache s1)\<rparr>) None)"

type_synonym channel_orders = "(string, int) order \<times> (int, ManagedChannelSettings) order"

definition processManagedChannel ::
    "channel_orders \<Rightarrow> ChannelState \<Rightarrow> ManagedChannel \<Rightarrow> (ChannelState, ChannelReply) outcome" where
  "processManagedChannel ords s m =
     (case mc_Type m of
        READ_ACTIVE_CHANNELID_BY_SHORTCHANNELID \<Rightarrow>
          send (mc_Out m)
            (ChannelOut (m\<lparr>mc_ChannelId := aget 0 (shortChannelIdCache s) (mc_ShortChannelId m)\<rparr>)) s
      | READ_CHANNELID_BY_SHORTCHANNELID \<Rightarrow>
          send (mc_Out m)
            (ChannelOut (m\<lparr>mc_ChannelId := mget 0 (allShortChannelIdCache s) (mc_ShortChannelId m)\<rparr>)) s
      | READ_ACTIVE_CHANNELID_BY_FUNDING_TRANSACTION \<Rightarrow>
          send (mc_Out m)
            (ChannelOut (m\<lparr>mc_ChannelId := aget 0 (channelPointCache s) (createChannelPoint m)\<rparr>)) s
      | READ_CHANNELID_BY_FUNDING_TRANSACTION \<Rightarrow>
          send (mc_Out m)
            (ChannelOut (m\<lparr>mc_ChannelId := mget 0 (allChannelPointCache s) (createChannelPoint m)\<rparr>)) s
      | READ_STATUSID_BY_CHANNELID \<Rightarrow>
          send (mc_Out m)
            (ChannelOut (m\<lparr>mc_Status := mget Opening (allChannelStatusCache s) (mc_ChannelId m)\<rparr>)) s
      | READ_CHANNELIDS_BY_NODE_ID \<Rightarrow>
          send (mc_ChannelIdsOut m)
            (ChannelIdsOut (map mcs_ChannelId
               (channels_of_node (mc_NodeId m) (snd ords (allChannelSettingsByChannelIdCache s))))) s
      | READ_ALL_CHANNEL_SETTINGS \<Rightarrow>
          send (mc_ChannelSettingsOut m)
            (ChannelSettingsOut
               (channels_of_node (mc_NodeId m) (snd ords (allChannelSettingsByChannelIdCache s)))) s
      | READ_CHANNEL_SETTINGS \<Rightarrow>
          send (mc_ChannelSettingOut m)
            (ChannelSettingOut
               (aget zeroChannelSettings (allChannelSettingsByChannelIdCache s) (mc_ChannelId m))) s
      | WRITE_CHANNEL \<Rightarrow> writeChannel m s
      | WRITE_CHANNELSTATUSID \<Rightarrow> writeChannelStatus (fst ords) m s)"

section \<open>The client functions\<close>

definition asked_channel :: "ChannelReply option \<Rightarrow> ManagedChannel option" where
  [simp]: "asked_channel r = (case r of Some (ChannelOut c) \<Rightarrow> Some c | _ \<Rightarrow> None)"

definition GetActiveChannelIdByFundingTransaction ::
    "channel_orders \<Rightarrow> ChannelState \<Rightarrow> string \<Rightarrow> int \<Rightarrow> int option" where
  "GetActiveChannelIdByFundingTransaction ords s hash index =
     map_option mc_ChannelId (asked_channel (answer (processManagedChannel ords s
       ((channelRequest READ_ACTIVE_CHANNELID_BY_FUNDING_TRANSACTION)
          \<lparr>mc_FundingTransactionHash := hash, mc_FundingOutputIndex := index, mc_Out := True\<rparr>))))"

definition GetChannelIdByFundingTransaction ::
    "channel_orders \<Rightarrow> ChannelState \<Rightarrow> string \<Rightarrow> int \<Rightarrow> int option" where
  "GetChannelIdByFundingTransaction ords s hash index =
     map_option mc_ChannelId (asked_channel (answer (processManagedChannel ords s
       ((channelRequest READ_CHANNELID_BY_FUNDING_TRANSACTION)
          \<lparr>mc_FundingTransactionHash := hash, mc_FundingOutputIndex := index, mc_Out := True\<rparr>))))"

definition GetChannelIdByChannelPoint ::
    "channel_orders \<Rightarrow> ChannelState \<Rightarrow> string \<Rightarrow> int option" where
  "GetChannelIdByChannelPoint ords s channelPoint =
     (let (hash, index) = ParseChannelPoint channelPoint in
      map_option mc_ChannelId (asked_channel (answer (processManagedChannel ords s
       ((channelRequest READ_CHANNELID_BY_FUNDING_TRANSACTION)
          \<lparr>mc_FundingTransactionHash := hash, mc_FundingOutputIndex := index, mc_Out := True\<rparr>)))))"

definition GetActiveChannelIdByShortChannelId ::
    "channel_orders \<Rightarrow> ChannelState \<Rightarrow> string \<Rightarrow> int option" where
  "GetActiveChannelIdByShortChannelId ords s shortChannelId =
     (if shortChannelId = [] \<or> shortChannelId = ''0x0x0'' then Some 0
      else map_option mc_ChannelId (asked_channel (answer (processManagedChannel ords s
        ((channelRequest READ_ACTIVE_CHANNELID_BY_SHORTCHANNELID)
           \<lparr>mc_ShortChannelId := shortChannelId, mc_Out := True\<rparr>)))))"

definition GetChannelIdByShortChannelId ::
    "channel_orders \<Rightarrow> ChannelState \<Rightarrow> string \<Rightarrow> int option" where
  "GetChannelIdByShortChannelId ords s shortChannelId =
     (if shortChannelId = [] \<or> shortChannelId = ''0x0x0'' then Some 0
      else map_option mc_ChannelId (asked_channel (answer (processManagedChannel ords s
        ((channelRequest READ_CHANNELID_BY_SHORTCHANNELID)
           \<lparr>mc_ShortChannelId := shortChannelId, mc_Out := True\<rparr>)))))"

definition GetChannelIdByLndShortChannelId ::
    "channel_orders \<Rightarrow> ChannelState \<Rightarrow> uint64 \<Rightarrow> int option" where
  "GetChannelIdByLndShortChannelId ords s lndShortChannelId =
     (if lndShortChannelId = 0 then Some 0
      else map_option mc_ChannelId (asked_channel (answer (processManagedChannel ords s
        ((channelRequest READ_CHANNELID_BY_SHORTCHANNELID)
           \<lparr>mc_ShortChannelId := ConvertLNDShortChannelID lndShortChannelId, mc_Out := True\<rparr>)))))"

definition GetChannelIdsByNodeId :: "channel_orders \<Rightarrow> ChannelState \<Rightarrow> int \<Rightarrow> int list option" where
  "GetChannelIdsByNodeId ords s peerNodeId =
     (case answer (processManagedChannel ords s
             ((channelRequest READ_CHANNELIDS_BY_NODE_ID)
                \<lparr>mc_NodeId := peerNodeId, mc_ChannelIdsOut := True\<rparr>)) of
        Some (ChannelIdsOut ids) \<Rightarrow> Some ids
      | _ \<Rightarrow> None)"

definition GetChannelStatusByChannelId ::
    "channel_orders \<Rightarrow> ChannelState \<Rightarrow> int \<Rightarrow> ChannelStatus option" where
  "GetChannelStatusByChannelId ords s channelId =
     map_option mc_Status (asked_channel (answer (processManagedChannel ords s
       ((channelRequest READ_STATUSID_BY_CHANNELID)\<lparr>mc_ChannelId := channelId, mc_Out := True\<rparr>))))"

definition GetChannelSettingsByNodeId ::
    "channel_orders \<Rightarrow> ChannelState \<Rightarrow> int \<Rightarrow> ManagedChannelSettings list option" where
  "GetChannelSettingsByNodeId ords s nodeId =
     (case answer (processManagedChannel ords s
             ((channelRequest READ_ALL_CHANNEL_SETTINGS)
                \<lparr>mc_NodeId := nodeId, mc_ChannelSettingsOut := True\<rparr>)) of
        Some (ChannelSettingsOut cs) \<Rightarrow> Some cs
      | _ \<Rightarrow> None)"

definition GetChannelSettingByChannelId ::
    "channel_orders \<Rightarrow> ChannelState \<Rightarrow> int \<Rightarrow> ManagedChannelSettings option" where
  "GetChannelSettingByChannelId ords s channelId =
     (case answer (processManagedChannel ords s
             ((channelRequest READ_CHANNEL_SETTINGS)
                \<lparr>mc_ChannelId := channelId, mc_ChannelSettingOut := True\<rparr>)) of
        Some (ChannelSettingOut cs) \<Rightarrow> Some cs
      | _ \<Rightarrow> None)"

definition setChannelMessage ::
    "int \<Rightarrow> string option \<Rightarrow> ChannelStatus \<Rightarrow> string \<Rightarrow> int \<Rightarrow> int64 \<Rightarrow> bool \<Rightarrow> int \<Rightarrow> int \<Rightarrow>
     int option \<Rightarrow> int option \<Rightarrow> ManagedChannel" where
  "setChannelMessage channelId shortChannelId status hash index cap private first second initiating accepting =
     (let m = (channelRequest WRITE_CHANNEL)
                \<lparr>mc_ChannelId := channelId, mc_FundingTransactionHash := hash,
                 mc_FundingOutputIndex := index, mc_Capacity := cap, mc_FirstNodeId := first,
                 mc_SecondNodeId := second, mc_InitiatingNodeId := initiating,
                 mc_AcceptingNodeId := accepting, mc_Private := private, mc_Status := status\<rparr>
      in case shortChannelId of
           None \<Rightarrow> m
         | Some sc \<Rightarrow> if sc \<noteq> [] then m\<lparr>mc_ShortChannelId := sc\<rparr> else m)"

definition SetChannel ::
    "channel_orders \<Rightarrow> int \<Rightarrow> string option \<Rightarrow> ChannelStatus \<Rightarrow> string \<Rightarrow> int \<Rightarrow> int64 \<Rightarrow> bool \<Rightarrow>
     int \<Rightarrow> int \<Rightarrow> int option \<Rightarrow> int option \<Rightarrow> ChannelState \<Rightarrow> (ChannelState, ChannelReply) outcome" where
  "SetChannel ords channelId shortChannelId status hash index cap private first second initiating
     accepting s =
     processManagedChannel ords s
       (setChannelMessage channelId shortChannelId status hash index cap private first second
         initiating accepting)"

definition SetChannelStatus ::
    "channel_orders \<Rightarrow> int \<Rightarrow> ChannelStatus \<Rightarrow> ChannelState \<Rightarrow> (ChannelState, ChannelReply) outcome" where
  "SetChannelStatus ords channelId status s =
     processManagedChannel ords s
       ((channelRequest WRITE_CHANNELSTATUSID)\<lparr>mc_ChannelId := channelId, mc_Status := status\<rparr>)"

text \<open>What the clients read, as lookups in the maps.\<close>

lemma channel_reads:
  "GetActiveChannelIdByFundingTransaction ords s h i =
     Some (aget 0 (channelPointCache s) (CreateChannelPoint h i))"
  "GetChannelIdByFundingTransaction ords s h i =
     Some (mget 0 (allChannelPointCache s) (CreateChannelPoint h i))"
  "sc \<noteq> [] \<Longrightarrow> sc \<noteq> ''0x0x0'' \<Longrightarrow>
   GetActiveChannelIdByShortChannelId ords s sc = Some (aget 0 (shortChannelIdCache s) sc)"
  "sc \<noteq> [] \<Longrightarrow> sc \<noteq> ''0x0x0'' \<Longrightarrow>
   GetChannelIdByShortChannelId ords s sc = Some (mget 0 (allShortChannelIdCache s) sc)"
  "GetChannelStatusByChannelId ords s c = Some (mget Opening (allChannelStatusCache s) c)"
  "GetChannelSettingByChannelId ords s c =
     Some (aget zeroChannelSettings (allChannelSettingsByChannelIdCache s) c)"
  by (simp_all add: GetActiveChannelIdByFundingTransaction_def GetChannelIdByFundingTransaction_def
      GetActiveChannelIdByShortChannelId_def GetChannelIdByShortChannelId_def
      GetChannelStatusByChannelId_def GetChannelSettingByChannelId_def processManagedChannel_def
      createChannelPoint_def CreateChannelPoint_def)

lemma node_reads:
  "GetChannelIdsByNodeId ords s n =
     Some (map mcs_ChannelId (channels_of_node n (snd ords (allChannelSettingsByChannelIdCache s))))"
  "GetChannelSettingsByNodeId ords s n =
     Some (channels_of_node n (snd ords (allChannelSettingsByChannelIdCache s)))"
  by (simp_all add: GetChannelIdsByNodeId_def GetChannelSettingsByNodeId_def processManagedChannel_def)

lemma GetChannelIdByChannelPoint_read:
  "CHR '':'' \<notin> set h \<Longrightarrow> - (2 ^ 63) \<le> i \<Longrightarrow> i < 2 ^ 63 \<Longrightarrow>
   GetChannelIdByChannelPoint ords s (CreateChannelPoint h i) = GetChannelIdByFundingTransaction ords s h i"
  by (simp add: GetChannelIdByChannelPoint_def GetChannelIdByFundingTransaction_def
      ParseChannelPoint_CreateChannelPoint)

section \<open>The cache invariant\<close>

text \<open>
  The lookups over the open channels are part of the lookups over all channels; the empty text is
  never a key; status and settings are kept for the same channels and agree on the status; no
  channel has id 0; the 64-bit short channel id of the settings is never set; settings are stored
  under their own channel id unless they name no node.
\<close>

definition channel_state_ok :: "ChannelState \<Rightarrow> bool" where
  "channel_state_ok s \<longleftrightarrow>
     keys_distinct (shortChannelIdCache s) \<and> keys_distinct (channelPointCache s) \<and>
     keys_distinct (allChannelSettingsByChannelIdCache s) \<and>
     dom (map_of (shortChannelIdCache s)) \<subseteq> dom (allShortChannelIdCache s) \<and>
     dom (map_of (channelPointCache s)) \<subseteq> dom (allChannelPointCache s) \<and>
     [] \<notin> dom (allShortChannelIdCache s) \<and> [] \<notin> dom (allChannelPointCache s) \<and>
     0 \<notin> ran (allShortChannelIdCache s) \<and> 0 \<notin> ran (allChannelPointCache s) \<and>
     (\<forall>c. allChannelStatusCache s c =
          map_option mcs_Status (map_of (allChannelSettingsByChannelIdCache s) c)) \<and>
     map_of (allChannelSettingsByChannelIdCache s) 0 = None \<and>
     (\<forall>c cs. map_of (allChannelSettingsByChannelIdCache s) c = Some cs \<longrightarrow>
        mcs_LndShortChannelId cs = 0 \<and>
        (mcs_ChannelId cs = c \<or>
         mcs_ChannelId cs = 0 \<and> mcs_FirstNodeId cs = 0 \<and> mcs_SecondNodeId cs = 0))"

lemma channel_state_ok_settings:
  assumes "channel_state_ok s" and "map_of (allChannelSettingsByChannelIdCache s) c = Some cs"
  shows "mcs_ChannelId cs = c \<or>
     mcs_ChannelId cs = 0 \<and> mcs_FirstNodeId cs = 0 \<and> mcs_SecondNodeId cs = 0"
  using assms unfolding channel_state_ok_def by blast

lemma channel_state_ok_init: "channel_state_ok emptyChannelState"
  by (simp add: channel_state_ok_def emptyChannelState_def)

lemma createChannelPoint_nonempty [simp]: "createChannelPoint m \<noteq> []" "[] \<noteq> createChannelPoint m"
  by (simp_all add: createChannelPoint_def)

lemma map_of_delete_matching:
  "map_of (delete_matching ord c m) k = Some v \<Longrightarrow> map_of m k = Some v"
  by (auto simp: delete_matching_def Let_def split: if_splits)

lemma keys_distinct_delete_matching [simp]:
  "keys_distinct m \<Longrightarrow> keys_distinct (delete_matching ord c m)"
  by (simp add: delete_matching_def Let_def)

lemma dom_delete_matching: "dom (map_of (delete_matching ord c m)) \<subseteq> dom (map_of m)"
  by (auto dest: map_of_delete_matching)

lemma ran_upd_zero: "0 \<notin> ran m \<Longrightarrow> c \<noteq> (0::int) \<Longrightarrow> 0 \<notin> ran (m(k \<mapsto> c))"
  by (auto simp: ran_def)

text \<open>The cases in which a channel is written, with the state it leaves.\<close>

lemma writeChannel_Served:
  assumes "writeChannel m s = Served t r"
  obtains "t = s" "mc_ChannelId m = 0 \<or> mc_FundingTransactionHash m = []"
  | "mc_ChannelId m \<noteq> 0" "mc_FundingTransactionHash m \<noteq> []" "\<exists>d. parseAndConvertShortIds m = Ok d"
    "shortChannelIdCache t =
       (if mc_Status m < CooperativeClosed \<and> mc_ShortChannelId m \<noteq> []
        then aput (mc_ShortChannelId m) (mc_ChannelId m) (shortChannelIdCache s)
        else shortChannelIdCache s)"
    "channelPointCache t =
       (if mc_Status m < CooperativeClosed
        then aput (createChannelPoint m) (mc_ChannelId m) (channelPointCache s)
        else channelPointCache s)"
    "allShortChannelIdCache t =
       (if mc_ShortChannelId m \<noteq> []
        then (allShortChannelIdCache s)(mc_ShortChannelId m \<mapsto> mc_ChannelId m)
        else allShortChannelIdCache s)"
    "allChannelPointCache t = (allChannelPointCache s)(createChannelPoint m \<mapsto> mc_ChannelId m)"
    "allChannelStatusCache t = (allChannelStatusCache s)(mc_ChannelId m \<mapsto> mc_Status m)"
    "allChannelSettingsByChannelIdCache t =
       aput (mc_ChannelId m) (settings_of_message m) (allChannelSettingsByChannelIdCache s)"
  using assms
  by (auto simp: writeChannel_def Let_def split: if_splits sum.splits)

lemma channel_state_ok_writeChannel:
  assumes "channel_state_ok s" and "writeChannel m s = Served t r"
  shows "channel_state_ok t"
  using assms(2)
proof (cases rule: writeChannel_Served)
  case 1
  with assms(1) show ?thesis by simp
next
  case 2
  note old = assms(1) [unfolded channel_state_ok_def]
  show ?thesis
    unfolding channel_state_ok_def
  proof (intro conjI)
    show "keys_distinct (shortChannelIdCache t)" "keys_distinct (channelPointCache t)"
      "keys_distinct (allChannelSettingsByChannelIdCache t)"
      using old by (simp_all add: 2)
    show "dom (map_of (shortChannelIdCache t)) \<subseteq> dom (allShortChannelIdCache t)"
      "dom (map_of (channelPointCache t)) \<subseteq> dom (allChannelPointCache t)"
      using old by (auto simp add: 2)
    show "[] \<notin> dom (allShortChannelIdCache t)" "[] \<notin> dom (allChannelPointCache t)"
      using old by (auto simp add: 2)
    show "0 \<notin> ran (allShortChannelIdCache t)" "0 \<notin> ran (allChannelPointCache t)"
      using old by (simp_all add: 2 ran_upd_zero)
    show "\<forall>c. allChannelStatusCache t c =
        map_option mcs_Status (map_of (allChannelSettingsByChannelIdCache t) c)"
      using old by (simp add: 2 settings_of_message_def)
    show "map_of (allChannelSettingsByChannelIdCache t) 0 = None"
      using old by (simp add: 2)
    show "\<forall>c cs. map_of (allChannelSettingsByChannelIdCache t) c = Some cs \<longrightarrow>
        mcs_LndShortChannelId cs = 0 \<and>
        (mcs_ChannelId cs = c \<or>
         mcs_ChannelId cs = 0 \<and> mcs_FirstNodeId cs = 0 \<and> mcs_SecondNodeId cs = 0)"
      using old by (auto simp add: 2 settings_of_message_def)
  qed
qed

lemma writeChannelStatus_Served:
  assumes "writeChannelStatus ord m s = Served t r"
  obtains "t = s" "mc_ChannelId m = 0"
  | "mc_ChannelId m \<noteq> 0"
    "shortChannelIdCache t =
       (if CooperativeClosed \<le> mc_Status m
        then delete_matching ord (mc_ChannelId m) (shortChannelIdCache s) else shortChannelIdCache s)"
    "channelPointCache t =
       (if CooperativeClosed \<le> mc_Status m
        then delete_matching ord (mc_ChannelId m) (channelPointCache s) else channelPointCache s)"
    "allShortChannelIdCache t = allShortChannelIdCache s"
    "allChannelPointCache t = allChannelPointCache s"
    "allChannelStatusCache t = (allChannelStatusCache s)(mc_ChannelId m \<mapsto> mc_Status m)"
    "allChannelSettingsByChannelIdCache t =
       aput (mc_ChannelId m)
         ((aget zeroChannelSettings (allChannelSettingsByChannelIdCache s) (mc_ChannelId m))
            \<lparr>mcs_Status := mc_Status m\<rparr>)
         (allChannelSettingsByChannelIdCache s)"
  using assms
  by (auto simp: writeChannelStatus_def Let_def split: if_splits)

lemma channel_state_ok_writeChannelStatus:
  assumes "channel_state_ok s" and "writeChannelStatus ord m s = Served t r"
  shows "channel_state_ok t"
  using assms(2)
proof (cases rule: writeChannelStatus_Served)
  case 1
  with assms(1) show ?thesis by simp
next
  case 2
  note old = assms(1) [unfolded channel_state_ok_def]
  let ?cs = "aget zeroChannelSettings (allChannelSettingsByChannelIdCache s) (mc_ChannelId m)"
  have cs: "mcs_LndShortChannelId ?cs = 0 \<and>
      (mcs_ChannelId ?cs = mc_ChannelId m \<or>
       mcs_ChannelId ?cs = 0 \<and> mcs_FirstNodeId ?cs = 0 \<and> mcs_SecondNodeId ?cs = 0)"
    using old
    by (cases "map_of (allChannelSettingsByChannelIdCache s) (mc_ChannelId m)")
      (auto simp: zeroChannelSettings_def)
  show ?thesis
    unfolding channel_state_ok_def
  proof (intro conjI)
    show "keys_distinct (shortChannelIdCache t)" "keys_distinct (channelPointCache t)"
      "keys_distinct (allChannelSettingsByChannelIdCache t)"
      using old by (simp_all add: 2)
    have "dom (map_of (shortChannelIdCache t)) \<subseteq> dom (map_of (shortChannelIdCache s))"
      by (simp add: 2 dom_delete_matching)
    with old show "dom (map_of (shortChannelIdCache t)) \<subseteq> dom (allShortChannelIdCache t)"
      by (simp add: 2 subset_trans)
    have "dom (map_of (channelPointCache t)) \<subseteq> dom (map_of (channelPointCache s))"
      by (simp add: 2 dom_delete_matching)
    with old show "dom (map_of (channelPointCache t)) \<subseteq> dom (allChannelPointCache t)"
      by (simp add: 2 subset_trans)
    show "[] \<notin> dom (allShortChannelIdCache t)" "[] \<notin> dom (allChannelPointCache t)"
      "0 \<notin> ran (allShortChannelIdCache t)" "0 \<notin> ran (allChannelPointCache t)"
      using old by (simp_all add: 2)
    show "\<forall>c. allChannelStatusCache t c =
        map_option mcs_Status (map_of (allChannelSettingsByChannelIdCache t) c)"
      using old by (simp add: 2)
    show "map_of (allChannelSettingsByChannelIdCache t) 0 = None"
      using old by (simp add: 2)
    show "\<forall>c cs. map_of (allChannelSettingsByChannelIdCache t) c = Some cs \<longrightarrow>
        mcs_LndShortChannelId cs = 0 \<and>
        (mcs_ChannelId cs = c \<or>
         mcs_ChannelId cs = 0 \<and> mcs_FirstNodeId cs = 0 \<and> mcs_SecondNodeId cs = 0)"
      using old cs by (simp add: 2)
  qed
qed

lemma processManagedChannel_Served:
  assumes "processManagedChannel ords s m = Served t r"
  obtains "t = s" "mc_Type m \<noteq> WRITE_CHANNEL" "mc_Type m \<noteq> WRITE_CHANNELSTATUSID"
  | "mc_Type m = WRITE_CHANNEL" "writeChannel m s = Served t r"
  | "mc_Type m = WRITE_CHANNELSTATUSID" "writeChannelStatus (fst ords) m s = Served t r"
  using assms
  by (cases "mc_Type m") (auto simp: processManagedChannel_def)

text \<open>The maps may be ranged in another order at every request.\<close>

interpretation channel_cache:
  cache_server "\<lambda>s (ords, m). processManagedChannel ords s m" emptyChannelState channel_state_ok
proof
  show "channel_state_ok emptyChannelState" by (rule channel_state_ok_init)
  fix s t r and om :: "channel_orders \<times> ManagedChannel"
  assume "channel_state_ok s" and "(case om of (ords, m) \<Rightarrow> processManagedChannel ords s m) = Served t r"
  then show "channel_state_ok t"
    by (cases om) (auto elim!: processManagedChannel_Served
      intro: channel_state_ok_writeChannel channel_state_ok_writeChannelStatus)
qed

section \<open>Properties\<close>

text \<open>
  C2: whatever requests the channel cache has served, its maps are consistent: open-channel
  lookups are part of the all-channel lookups, status and settings agree, no lookup leads to the
  channel id 0, and no stored channel carries its 64-bit short channel id.
\<close>

theorem channel_cache_invariant:
  "serves (\<lambda>s (ords, m). processManagedChannel ords s m) emptyChannelState ms t \<Longrightarrow> channel_state_ok t"
  by (rule channel_cache.invar_reachable)

text \<open>
  A channel as it is stored by \<open>SetChannel\<close>, and the conditions under which a write is accepted.
\<close>

lemma setChannelMessage_simps [simp]:
  "mc_Type (setChannelMessage c sc st h i cap p f g n a) = WRITE_CHANNEL"
  "mc_ChannelId (setChannelMessage c sc st h i cap p f g n a) = c"
  "mc_ShortChannelId (setChannelMessage c sc st h i cap p f g n a) = (case sc of None \<Rightarrow> [] | Some x \<Rightarrow> x)"
  "mc_LndShortChannelId (setChannelMessage c sc st h i cap p f g n a) = 0"
  "mc_FundingTransactionHash (setChannelMessage c sc st h i cap p f g n a) = h"
  "mc_FundingOutputIndex (setChannelMessage c sc st h i cap p f g n a) = i"
  "mc_Status (setChannelMessage c sc st h i cap p f g n a) = st"
  "createChannelPoint (setChannelMessage c sc st h i cap p f g n a) = CreateChannelPoint h i"
  by (auto simp: setChannelMessage_def Let_def createChannelPoint_def CreateChannelPoint_def
      split: option.splits)

lemma settings_of_setChannelMessage:
  "settings_of_message (setChannelMessage c sc st h i cap p f g n a) =
     \<lparr>mcs_ChannelId = c, mcs_ShortChannelId = (case sc of None \<Rightarrow> [] | Some x \<Rightarrow> x),
      mcs_LndShortChannelId = 0, mcs_FundingTransactionHash = h, mcs_FundingOutputIndex = i,
      mcs_Capacity = cap, mcs_FirstNodeId = f, mcs_SecondNodeId = g, mcs_InitiatingNodeId = n,
      mcs_AcceptingNodeId = a, mcs_Private = p, mcs_Status = st\<rparr>"
  by (auto simp: setChannelMessage_def Let_def settings_of_message_def split: option.splits)

lemma parseAndConvertShortIds_panics_iff:
  "(\<exists>e. parseAndConvertShortIds m = Inl e) \<longleftrightarrow>
   mc_LndShortChannelId m = 0 \<and>
   (\<exists>e. ConvertShortChannelIDToLND (mc_ShortChannelId m) = Panics e)"
  by (auto simp: parseAndConvertShortIds_def Let_def scid_empty split: sum.splits go_error.splits)

text \<open>
  after \<open>SetChannel\<close> with a channel id and a funding transaction hash is served, every client
  function reads back what was written: both funding lookups (the active one only while the
  channel is not closed), the status, and the whole settings record, whose 64-bit short channel id
  stays 0.
\<close>

lemma SetChannel_read_back:
  assumes "c \<noteq> 0" and "h \<noteq> []"
    and "SetChannel ords c sc st h i cap p f g n a s = Served t r"
  shows "GetChannelIdByFundingTransaction ords t h i = Some c \<and>
    GetActiveChannelIdByFundingTransaction ords t h i =
      (if st < CooperativeClosed then Some c
       else GetActiveChannelIdByFundingTransaction ords s h i) \<and>
    GetChannelStatusByChannelId ords t c = Some st \<and>
    GetChannelSettingByChannelId ords t c = Some
      \<lparr>mcs_ChannelId = c, mcs_ShortChannelId = (case sc of None \<Rightarrow> [] | Some x \<Rightarrow> x),
       mcs_LndShortChannelId = 0, mcs_FundingTransactionHash = h, mcs_FundingOutputIndex = i,
       mcs_Capacity = cap, mcs_FirstNodeId = f, mcs_SecondNodeId = g, mcs_InitiatingNodeId = n,
       mcs_AcceptingNodeId = a, mcs_Private = p, mcs_Status = st\<rparr>"
proof -
  from assms(3) have "writeChannel (setChannelMessage c sc st h i cap p f g n a) s = Served t r"
    by (simp add: SetChannel_def processManagedChannel_def)
  then show ?thesis
    by (rule writeChannel_Served)
      (use assms(1,2) in \<open>simp_all add: channel_reads settings_of_setChannelMessage\<close>)
qed

text \<open>A channel state with one open channel, the running example of this theory.\<close>

definition exampleChannelState :: ChannelState where
  "exampleChannelState =
     (case SetChannel (id, id) 7 (Some ''505580x1917x1'') Open ''ab'' 1 1000 False 3 4 None None
             emptyChannelState of
        Served t r \<Rightarrow> t | _ \<Rightarrow> emptyChannelState)"

lemma exampleChannelState_eq:
  "exampleChannelState =
     \<lparr>shortChannelIdCache = [(''505580x1917x1'', 7)],
      allShortChannelIdCache = [''505580x1917x1'' \<mapsto> 7],
      channelPointCache = [(''ab:1'', 7)], allChannelPointCache = [''ab:1'' \<mapsto> 7],
      allChannelStatusCache = [7 \<mapsto> Open],
      allChannelSettingsByChannelIdCache =
        [(7, \<lparr>mcs_ChannelId = 7, mcs_ShortChannelId = ''505580x1917x1'', mcs_LndShortChannelId = 0,
              mcs_FundingTransactionHash = ''ab'', mcs_FundingOutputIndex = 1, mcs_Capacity = 1000,
              mcs_FirstNodeId = 3, mcs_SecondNodeId = 4, mcs_InitiatingNodeId = None,
              mcs_AcceptingNodeId = None, mcs_Private = False, mcs_Status = Open\<rparr>)]\<rparr>"
proof -
  have scid: "''505580x1917x1'' = scid_text 505580 1917 1"
    by (simp add: scid_text_def format_uint.simps)
  have parsed: "\<exists>x. ConvertShortChannelIDToLND ''505580x1917x1'' = Ok x"
    unfolding scid by (rule exI, rule parse_scid_text) simp_all
  have point: "CreateChannelPoint ''ab'' 1 = ''ab:1''"
    by (simp add: CreateChannelPoint_def format_int_def format_uint.simps)
  obtain d where d: "parseAndConvertShortIds
      (setChannelMessage 7 (Some ''505580x1917x1'') Open ''ab'' 1 1000 False 3 4 None None) = Ok d"
    using parsed by (auto simp: parseAndConvertShortIds_def Let_def)
  have "Open < CooperativeClosed" by (simp add: less_ChannelStatus_def)
  then show ?thesis
    by (simp add: exampleChannelState_def SetChannel_def processManagedChannel_def writeChannel_def
        d Let_def point settings_of_setChannelMessage emptyChannelState_def)
qed

theorem channel_cache_invariant_witness:
  "\<exists>t. serves (\<lambda>s (ords, m). processManagedChannel ords s m) emptyChannelState
         [((rev, rev), (channelRequest WRITE_CHANNELSTATUSID)\<lparr>mc_ChannelId := 7, mc_Status := Open\<rparr>)] t \<and>
       channel_state_ok t"
proof -
  let ?ms = "[((rev, rev), (channelRequest WRITE_CHANNELSTATUSID)\<lparr>mc_ChannelId := 7, mc_Status := Open\<rparr>)]"
  have "\<exists>t. serves (\<lambda>s (ords, m). processManagedChannel ords s m) emptyChannelState ?ms t"
    by (simp add: processManagedChannel_def writeChannelStatus_def Let_def)
  then show ?thesis using channel_cache_invariant [of ?ms] by blast
qed

lemma SetChannel_read_back_witness:
  "\<exists>t r. SetChannel (id, id) 7 None Open ''ab'' 1 1000 False 3 4 None None emptyChannelState = Served t r \<and>
     GetActiveChannelIdByFundingTransaction (id, id) t ''ab'' 1 = Some 7"
proof -
  have "\<exists>t r. SetChannel (id, id) 7 None Open ''ab'' 1 1000 False 3 4 None None emptyChannelState = Served t r"
    by (simp add: SetChannel_def processManagedChannel_def writeChannel_def
        parseAndConvertShortIds_def setChannelMessage_def Let_def)
  moreover have "Open < CooperativeClosed" by (simp add: less_ChannelStatus_def)
  ultimately show ?thesis
    using SetChannel_read_back [of 7 "''ab''" "(id, id)" None Open 1 1000 False 3 4 None None emptyChannelState]
    by fastforce
qed

text \<open>Closing a channel removes an entry of that channel and nothing else, in any range order.\<close>

lemma matching_key_found:
  assumes "range_order ord" and "keys_distinct m" and "matching_key c (ord m) = k" and "k \<noteq> []"
  shows "map_of m k = Some c"
proof -
  from assms(3,4) obtain v where "find (\<lambda>(k, v). v = c) (ord m) = Some (k, v)"
    by (auto simp: matching_key_def split: option.splits)
  then have "(k, c) \<in> set (ord m)" by (auto simp: find_Some_iff) (metis nth_mem)
  with assms(1,2) show ?thesis by (simp add: range_order_set map_of_keys_distinct)
qed

lemma delete_matching_other:
  assumes "range_order ord" and "keys_distinct m" and "map_of m k \<noteq> Some c"
  shows "map_of (delete_matching ord c m) k = map_of m k"
  using assms matching_key_found [OF assms(1,2)]
  by (auto simp: delete_matching_def Let_def)

lemma matching_key_complete:
  assumes "range_order ord" and "keys_distinct m" and "map_of m k = Some c"
    and "\<forall>j. map_of m j = Some c \<longrightarrow> j = k"
  shows "matching_key c (ord m) = k"
proof -
  have "(k, c) \<in> set (ord m)"
    using assms(1-3) by (simp add: range_order_set map_of_keys_distinct)
  then obtain p where p: "find (\<lambda>(k, v). v = c) (ord m) = Some p"
    by (cases "find (\<lambda>(k, v). v = c) (ord m)") (auto simp: find_None_iff)
  then obtain j where "p = (j, c)" and "(j, c) \<in> set (ord m)"
    by (auto simp: find_Some_iff) (metis nth_mem)
  moreover from this(2) have "map_of m j = Some c"
    using assms(1,2) by (simp add: range_order_set map_of_keys_distinct)
  ultimately show ?thesis using p assms(4) by (simp add: matching_key_def)
qed

lemma delete_matching_unique:
  assumes "range_order ord" and "keys_distinct m" and "map_of m k = Some c" and "k \<noteq> []"
    and "\<forall>j. map_of m j = Some c \<longrightarrow> j = k"
  shows "map_of (delete_matching ord c m) k = None"
  using matching_key_complete [OF assms(1-3,5)] assms(4)
  by (simp add: delete_matching_def Let_def)

lemma delete_matching_closes:
  assumes "range_order ord" and "keys_distinct m"
    and "\<forall>k k'. map_of m k = Some c \<and> map_of m k' = Some c \<longrightarrow> k = k'" and "k \<noteq> []" and "c \<noteq> 0"
  shows "aget 0 (delete_matching ord c m) k = (if aget 0 m k = c then 0 else aget 0 m k)"
proof (cases "map_of m k = Some c")
  case True
  with delete_matching_unique [OF assms(1,2) True assms(4)] assms(3) show ?thesis
    by (auto simp: mget_def)
next
  case False
  with delete_matching_other [OF assms(1,2) False] assms(5) show ?thesis
    by (auto simp: mget_def split: option.splits)
qed

text \<open>
  C3: reporting a closed status for a channel that the lookups over open channels hold under at
  most one short channel id and at most one funding output takes it out of both of them, whatever
  order the maps are ranged in; every other answer of the two lookups, and every answer of the two
  lookups over all channels, stays as it was, and the status is recorded.
\<close>

theorem SetChannelStatus_closes:
  assumes "range_order (fst ords)" and "channel_state_ok s" and "c \<noteq> 0"
    and "CooperativeClosed \<le> st"
    and "\<forall>k k'. map_of (shortChannelIdCache s) k = Some c \<and> map_of (shortChannelIdCache s) k' = Some c \<longrightarrow> k = k'"
    and "\<forall>k k'. map_of (channelPointCache s) k = Some c \<and> map_of (channelPointCache s) k' = Some c \<longrightarrow> k = k'"
    and "SetChannelStatus ords c st s = Served t r"
  shows "GetActiveChannelIdByFundingTransaction ords t h i =
      (if GetActiveChannelIdByFundingTransaction ords s h i = Some c then Some 0
       else GetActiveChannelIdByFundingTransaction ords s h i) \<and>
    GetActiveChannelIdByShortChannelId ords t sc =
      (if GetActiveChannelIdByShortChannelId ords s sc = Some c then Some 0
       else GetActiveChannelIdByShortChannelId ords s sc) \<and>
    GetChannelIdByFundingTransaction ords t h i = GetChannelIdByFundingTransaction ords s h i \<and>
    GetChannelIdByShortChannelId ords t sc = GetChannelIdByShortChannelId ords s sc \<and>
    GetChannelStatusByChannelId ords t c = Some st"
proof -
  from assms(2) have kd: "keys_distinct (shortChannelIdCache s)" "keys_distinct (channelPointCache s)"
    by (simp_all add: channel_state_ok_def)
  note points = delete_matching_closes [OF assms(1) kd(2) assms(6) _ assms(3)]
  note shorts = delete_matching_closes [OF assms(1) kd(1) assms(5) _ assms(3)]
  have point: "CreateChannelPoint h i \<noteq> []" by (simp add: CreateChannelPoint_def)
  have none: "sc = [] \<or> sc = ''0x0x0'' \<Longrightarrow>
      GetActiveChannelIdByShortChannelId ords u sc = Some 0 \<and> GetChannelIdByShortChannelId ords u sc = Some 0" for u
    by (auto simp: GetActiveChannelIdByShortChannelId_def GetChannelIdByShortChannelId_def)
  from assms(7) have "writeChannelStatus (fst ords)
      ((channelRequest WRITE_CHANNELSTATUSID)\<lparr>mc_ChannelId := c, mc_Status := st\<rparr>) s = Served t r"
    by (simp add: SetChannelStatus_def processManagedChannel_def)
  then show ?thesis
    by (cases "sc = [] \<or> sc = ''0x0x0''"; elim writeChannelStatus_Served)
      (use assms(3,4) in \<open>simp_all add: channel_reads none points [OF point] shorts\<close>)
qed

lemma exampleChannelState_ok: "channel_state_ok exampleChannelState"
  by (simp add: channel_state_ok_def exampleChannelState_eq keys_distinct_def)

theorem SetChannelStatus_closes_witness:
  "\<exists>t r. SetChannelStatus (id, id) 7 CooperativeClosed exampleChannelState = Served t r \<and>
     GetActiveChannelIdByFundingTransaction (id, id) t ''ab'' 1 = Some 0 \<and>
     GetActiveChannelIdByShortChannelId (id, id) t ''505580x1917x1'' = Some 0"
proof -
  have pt: "CreateChannelPoint ''ab'' 1 = ''ab:1''"
    by (simp add: CreateChannelPoint_def format_int_def format_uint.simps)
  have "range_order (fst (id, id) :: (string, int) order)" by (simp add: range_order_def)
  moreover have "channel_state_ok exampleChannelState" by (rule exampleChannelState_ok)
  moreover have "GetActiveChannelIdByFundingTransaction (id, id) exampleChannelState ''ab'' 1 = Some 7"
      "GetActiveChannelIdByShortChannelId (id, id) exampleChannelState ''505580x1917x1'' = Some 7"
    by (simp_all add: channel_reads exampleChannelState_eq pt)
  moreover have "\<forall>k k'. map_of (channelPointCache exampleChannelState) k = Some 7 \<and>
      map_of (channelPointCache exampleChannelState) k' = Some 7 \<longrightarrow> k = k'"
      "\<forall>k k'. map_of (shortChannelIdCache exampleChannelState) k = Some 7 \<and>
      map_of (shortChannelIdCache exampleChannelState) k' = Some 7 \<longrightarrow> k = k'"
    by (simp_all add: exampleChannelState_eq)
  moreover obtain t r where
    st: "SetChannelStatus (id, id) 7 CooperativeClosed exampleChannelState = Served t r"
    by (simp add: SetChannelStatus_def processManagedChannel_def writeChannelStatus_def Let_def)
  ultimately show ?thesis
    using SetChannelStatus_closes [where ords = "(id, id)" and s = exampleChannelState and c = 7
        and st = CooperativeClosed and h = "''ab''" and i = 1 and sc = "''505580x1917x1''"
        and t = t and r = r]
    by auto
qed

text \<open>
  writing a whole channel with a closed status does not take it out of the lookups over open
  channels: a channel that was active before is still reported as active afterwards.
\<close>

lemma SetChannel_closed_stays_active:
  assumes "CooperativeClosed \<le> st"
    and "SetChannel ords c sc st h i cap p f g n a s = Served t r"
  shows "GetActiveChannelIdByFundingTransaction ords t h i = GetActiveChannelIdByFundingTransaction ords s h i"
proof -
  from assms(2) have "writeChannel (setChannelMessage c sc st h i cap p f g n a) s = Served t r"
    by (simp add: SetChannel_def processManagedChannel_def)
  then show ?thesis
    by (rule writeChannel_Served) (use assms(1) in \<open>simp_all add: channel_reads leD\<close>)
qed

lemma SetChannel_closed_stays_active_witness:
  "\<exists>t r. SetChannel (id, id) 7 None CooperativeClosed ''ab'' 1 1000 False 3 4 None None
           exampleChannelState = Served t r \<and>
     GetActiveChannelIdByFundingTransaction (id, id) t ''ab'' 1 = Some 7"
proof -
  have pt: "CreateChannelPoint ''ab'' 1 = ''ab:1''"
    by (simp add: CreateChannelPoint_def format_int_def format_uint.simps)
  obtain t r where st: "SetChannel (id, id) 7 None CooperativeClosed ''ab'' 1 1000 False 3 4 None None
           exampleChannelState = Served t r"
    by (simp add: SetChannel_def processManagedChannel_def writeChannel_def
        parseAndConvertShortIds_def setChannelMessage_def Let_def)
  have "GetActiveChannelIdByFundingTransaction (id, id) exampleChannelState ''ab'' 1 = Some 7"
    by (simp add: channel_reads exampleChannelState_eq pt)
  with st SetChannel_closed_stays_active [OF order_refl st] show ?thesis by auto
qed

text \<open>
  the channels reported for a node do not depend on the range order up to permutation, and
  contain exactly the channels whose settings name the node, twice when it is both ends.
\<close>

lemma GetChannelSettingsByNodeId_spec:
  assumes "range_order (snd ords)" and "keys_distinct (allChannelSettingsByChannelIdCache s)"
  shows "\<exists>cs. GetChannelSettingsByNodeId ords s n = Some cs \<and>
     mset cs = mset (channels_of_node n (allChannelSettingsByChannelIdCache s)) \<and>
     (\<forall>x. x \<in> set cs \<longleftrightarrow>
        (\<exists>c. map_of (allChannelSettingsByChannelIdCache s) c = Some x \<and>
             (mcs_FirstNodeId x = n \<or> mcs_SecondNodeId x = n)))"
proof -
  let ?m = "allChannelSettingsByChannelIdCache s"
  let ?cs = "channels_of_node n (snd ords ?m)"
  have "mset ?cs = mset (channels_of_node n ?m)"
    using assms(1) by (simp add: channels_of_node_def range_order_concat_map)
  moreover from this have "set ?cs = set (channels_of_node n ?m)" by (metis set_mset_mset)
  ultimately show ?thesis
    using assms(2) by (auto simp: node_reads channels_of_node_def map_of_keys_distinct)
qed

lemma GetChannelSettingsByNodeId_spec_witness:
  "\<exists>cs. GetChannelSettingsByNodeId (rev, rev) exampleChannelState 3 = Some cs \<and>
     mset cs = mset (channels_of_node 3 (allChannelSettingsByChannelIdCache exampleChannelState))"
  using GetChannelSettingsByNodeId_spec [of "(rev, rev)" exampleChannelState 3]
  by (auto simp: exampleChannelState_eq keys_distinct_def)

section \<open>The interface to the other caches\<close>

text \<open>
  The channel state cache asks the channel cache for the settings of a channel and for those of
  all channels of a node.  What it relies on: a channel reported for a node names that node, and
  looking up its id gives the same settings.
\<close>

locale channel_registry =
  fixes valid :: "'c \<Rightarrow> bool"
    and setting :: "'c \<Rightarrow> int \<Rightarrow> ManagedChannelSettings"
    and by_node :: "'c \<Rightarrow> int \<Rightarrow> ManagedChannelSettings list"
  assumes by_node_names: "valid c \<Longrightarrow> x \<in> set (by_node c n) \<Longrightarrow> mcs_FirstNodeId x = n \<or> mcs_SecondNodeId x = n"
    and by_node_setting: "valid c \<Longrightarrow> n \<noteq> 0 \<Longrightarrow> x \<in> set (by_node c n) \<Longrightarrow> setting c (mcs_ChannelId x) = x"
begin

lemma by_node_capacity:
  "valid c \<Longrightarrow> n \<noteq> 0 \<Longrightarrow> x \<in> set (by_node c n) \<Longrightarrow>
   mcs_Capacity (setting c (mcs_ChannelId x)) = mcs_Capacity x"
  by (simp add: by_node_setting)

end

definition registry_valid :: "channel_orders \<times> ChannelState \<Rightarrow> bool" where
  "registry_valid c \<longleftrightarrow> range_order (snd (fst c)) \<and> channel_state_ok (snd c)"

definition registry_setting :: "channel_orders \<times> ChannelState \<Rightarrow> int \<Rightarrow> ManagedChannelSettings" where
  "registry_setting c channelId = the (GetChannelSettingByChannelId (fst c) (snd c) channelId)"

definition registry_by_node :: "channel_orders \<times> ChannelState \<Rightarrow> int \<Rightarrow> ManagedChannelSettings list" where
  "registry_by_node c nodeId = the (GetChannelSettingsByNodeId (fst c) (snd c) nodeId)"

lemma registry_by_node_member:
  assumes "registry_valid c" and "x \<in> set (registry_by_node c n)"
  shows "(mcs_FirstNodeId x = n \<or> mcs_SecondNodeId x = n) \<and>
    (\<exists>k. map_of (allChannelSettingsByChannelIdCache (snd c)) k = Some x)"
  using assms
  by (auto simp: registry_by_node_def registry_valid_def node_reads channels_of_node_def
      range_order_set channel_state_ok_def map_of_keys_distinct split: if_splits)

interpretation channel_cache_registry:
  channel_registry registry_valid registry_setting registry_by_node
proof
  fix c x n
  assume c: "registry_valid c" and x: "x \<in> set (registry_by_node c n)"
  from registry_by_node_member [OF c x]
  show "mcs_FirstNodeId x = n \<or> mcs_SecondNodeId x = n" by simp
  assume n: "n \<noteq> 0"
  from registry_by_node_member [OF c x] obtain k where
    k: "map_of (allChannelSettingsByChannelIdCache (snd c)) k = Some x" by blast
  from c have "channel_state_ok (snd c)" by (simp add: registry_valid_def)
  from channel_state_ok_settings [OF this k] registry_by_node_member [OF c x] n
  have "mcs_ChannelId x = k" by auto
  with k
  show "registry_setting c (mcs_ChannelId x) = x"
    by (simp add: registry_setting_def channel_reads)
qed

end
