(* ===== verification/ManagedNode.thy ===== *)
theory ManagedNode
  imports Constants
begin

text \<open>
  The node cache, \<open>src/pkg/commons/managedNode.go\<close>: the nodes Torq manages and the nodes it has
  channels with, by chain, network and public key, with their settings and names.  Each id cache
  is a map of maps of maps, as in the code; \<open>flat\<close> reads it as one map from
  (chain, network, key).  The refinement lemmas say that every request acts on these flat maps the
  way an abstract directory of nodes does, and that every answer is the one that the list of the
  earlier requests determines.
\<close>

section \<open>Messages and state\<close>

datatype ManagedNodeCacheOperationType =
    READ_ALL_TORQ_NODE
  | WRITE_INACTIVE_TORQ_NODE
  | READ_ALL_TORQ_NODEIDS
  | READ_ALL_TORQ_PUBLICKEYS
  | READ_ACTIVE_TORQ_NODE
  | WRITE_ACTIVE_TORQ_NODE
  | READ_ACTIVE_TORQ_NODEIDS
  | READ_ACTIVE_TORQ_PUBLICKEYS
  | READ_ALL_ACTIVE_TORQ_NODEIDS
  | READ_ACTIVE_CHANNEL_NODE
  | READ_CHANNEL_NODE
  | WRITE_ACTIVE_CHANNEL_NODE
  | WRITE_INACTIVE_CHANNEL_NODE
  | INACTIVATE_CHANNEL_NODE
  | READ_ALL_CHANNEL_NODEIDS
  | READ_ALL_CHANNEL_PUBLICKEYS
  | READ_NODE_SETTINGS

record ManagedNode =
  mn_Type :: ManagedNodeCacheOperationType
  mn_NodeId :: int
  mn_Chain :: "Chain option"
  mn_Network :: "Network option"
  mn_PublicKey :: string
  mn_Name :: "string option"
  mn_Out :: bool
  mn_NodeIdsOut :: bool
  mn_NodeIdSettingsOut :: bool
  mn_PublicKeysOut :: bool

record ManagedNodeSettings =
  mns_NodeId :: int
  mns_Chain :: Chain
  mns_Network :: Network
  mns_PublicKey :: string
  mns_Name :: "string option"
  mns_Status :: Status

definition zeroNodeSettings :: ManagedNodeSettings where
  "zeroNodeSettings =
     \<lparr>mns_NodeId = 0, mns_Chain = Bitcoin, mns_Network = MainNet, mns_PublicKey = [],
      mns_Name = None, mns_Status = Inactive\<rparr>"

definition nodeRequest :: "ManagedNodeCacheOperationType \<Rightarrow> ManagedNode" where
  [simp]: "nodeRequest ty =
     \<lparr>mn_Type = ty, mn_NodeId = 0, mn_Chain = None, mn_Network = None, mn_PublicKey = [],
      mn_Name = None, mn_Out = False, mn_NodeIdsOut = False, mn_NodeIdSettingsOut = False,
      mn_PublicKeysOut = False\<rparr>"

type_synonym key_ids = "(string \<times> int) list"
type_synonym network_ids = "(Network \<times> key_ids) list"
type_synonym id_cache = "(Chain \<times> network_ids) list"

record NodeState =
  allTorqNodeIdCache :: id_cache
  activeTorqNodeIdCache :: id_cache
  channelNodeIdCache :: id_cache
  allChannelNodeIdCache :: id_cache
  nodeSettingsByNodeIdCache :: "int \<rightharpoonup> ManagedNodeSettings"
  torqNodeNameByNodeIdCache :: "int \<rightharpoonup> string"

definition emptyNodeState :: NodeState where
  "emptyNodeState =
     \<lparr>allTorqNodeIdCache = [], activeTorqNodeIdCache = [], channelNodeIdCache = [],
      allChannelNodeIdCache = [], nodeSettingsByNodeIdCache = Map.empty,
      torqNodeNameByNodeIdCache = Map.empty\<rparr>"

text \<open>The range orders of the three kinds of maps.\<close>

record NodeOrders =
  by_key :: "(string, int) order"
  by_network :: "(Network, key_ids) order"
  by_chain :: "(Chain, network_ids) order"

datatype NodeReply =
    NodeOut ManagedNode
  | NodeIdsOut "int list"
  | NodeIdSettingsOut ManagedNodeSettings
  | PublicKeysOut "string list"

section \<open>The id caches\<close>

definition initializeIdCache :: "Chain \<Rightarrow> Network \<Rightarrow> id_cache \<Rightarrow> id_cache" where
  "initializeIdCache chain network cache =
     (let c1 = (if map_of cache chain = None then aput chain [] cache else cache);
          networks = aget [] c1 chain
      in if map_of networks network = None then aput chain (aput network [] networks) c1 else c1)"

definition ids_of :: "Chain \<Rightarrow> Network \<Rightarrow> id_cache \<Rightarrow> key_ids" where
  "ids_of chain network cache = aget [] (aget [] cache chain) network"

definition set_ids :: "Chain \<Rightarrow> Network \<Rightarrow> key_ids \<Rightarrow> id_cache \<Rightarrow> id_cache" where
  "set_ids chain network ids cache = aput chain (aput network ids (aget [] cache chain)) cache"

text \<open>\<open>initializeIdCache\<close> followed by an assignment or a \<open>delete\<close> in the innermost map.\<close>

definition put_id :: "Chain \<Rightarrow> Network \<Rightarrow> string \<Rightarrow> int \<Rightarrow> id_cache \<Rightarrow> id_cache" where
  "put_id chain network key nodeId cache =
     (let c1 = initializeIdCache chain network cache
      in set_ids chain network (aput key nodeId (ids_of chain network c1)) c1)"

definition del_id :: "Chain \<Rightarrow> Network \<Rightarrow> string \<Rightarrow> id_cache \<Rightarrow> id_cache" where
  "del_id chain network key cache =
     (let c1 = initializeIdCache chain network cache
      in set_ids chain network (adel key (ids_of chain network c1)) c1)"

text \<open>The nested loops of \<open>READ_ALL_ACTIVE_TORQ_NODEIDS\<close>; nil selects every chain or network.\<close>

definition collect_ids ::
    "NodeOrders \<Rightarrow> Chain option \<Rightarrow> Network option \<Rightarrow> id_cache \<Rightarrow> int list" where
  "collect_ids ords chain network cache =
     concat (map (\<lambda>(c, networks).
       if chain = None \<or> chain = Some c
       then concat (map (\<lambda>(n, ids).
              if network = None \<or> network = Some n then map snd (by_key ords ids) else [])
            (by_network ords networks))
       else []) (by_chain ords cache))"

section \<open>The handlers\<close>

text \<open>
  The four handlers that look up one node: \<open>get\<close> and \<open>put\<close> select the id cache, \<open>named\<close> tells
  whether the handler adds the node's name.
\<close>

definition readNode ::
    "(NodeState \<Rightarrow> id_cache) \<Rightarrow> (id_cache \<Rightarrow> NodeState \<Rightarrow> NodeState) \<Rightarrow> bool \<Rightarrow>
     ManagedNode \<Rightarrow> NodeState \<Rightarrow> (NodeState, NodeReply) outcome" where
  "readNode get put named m s =
     (case (mn_Chain m, mn_Network m) of
        (Some chain, Some network) \<Rightarrow>
          (let cache = initializeIdCache chain network (get s);
               m1 = m\<lparr>mn_NodeId := aget 0 (ids_of chain network cache) (mn_PublicKey m)\<rparr>;
               m2 = (if named
                     then (case torqNodeNameByNodeIdCache s (mn_NodeId m1) of
                             Some nodeName \<Rightarrow> m1\<lparr>mn_Name := Some nodeName\<rparr>
                           | None \<Rightarrow> m1)
                     else m1)
           in send (mn_Out m) (NodeOut m2) (put cache s))
      | _ \<Rightarrow> send (mn_Out m) (NodeOut m) s)"

definition readNodeIds ::
    "NodeOrders \<Rightarrow> (NodeState \<Rightarrow> id_cache) \<Rightarrow> (id_cache \<Rightarrow> NodeState \<Rightarrow> NodeState) \<Rightarrow>
     ManagedNode \<Rightarrow> NodeState \<Rightarrow> (NodeState, NodeReply) outcome" where
  "readNodeIds ords get put m s =
     (case (mn_Chain m, mn_Network m) of
        (Some chain, Some network) \<Rightarrow>
          (let cache = initializeIdCache chain network (get s)
           in send (mn_NodeIdsOut m)
                (NodeIdsOut (map snd (by_key ords (ids_of chain network cache)))) (put cache s))
      | _ \<Rightarrow> send (mn_NodeIdsOut m) (NodeIdsOut []) s)"

definition readPublicKeys ::
    "NodeOrders \<Rightarrow> (NodeState \<Rightarrow> id_cache) \<Rightarrow> (id_cache \<Rightarrow> NodeState \<Rightarrow> NodeState) \<Rightarrow>
     ManagedNode \<Rightarrow> NodeState \<Rightarrow> (NodeState, NodeReply) outcome" where
  "readPublicKeys ords get put m s =
     (case (mn_Chain m, mn_Network m) of
        (Some chain, Some network) \<Rightarrow>
          (let cache = initializeIdCache chain network (get s)
           in send (mn_PublicKeysOut m)
                (PublicKeysOut (map fst (by_key ords (ids_of chain network cache)))) (put cache s))
      | _ \<Rightarrow> send (mn_PublicKeysOut m) (PublicKeysOut []) s)"

definition readAllActiveTorqNodeIds ::
    "NodeOrders \<Rightarrow> ManagedNode \<Rightarrow> NodeState \<Rightarrow> (NodeState, NodeReply) outcome" where
  "readAllActiveTorqNodeIds ords m s =
     (case (mn_Chain m, mn_Network m) of
        (Some chain, Some network) \<Rightarrow>
          (let cache = initializeIdCache chain network (activeTorqNodeIdCache s)
           in send (mn_NodeIdsOut m)
                (NodeIdsOut (map snd (by_key ords (ids_of chain network cache))))
                (s\<lparr>activeTorqNodeIdCache := cache\<rparr>))
      | (chain, network) \<Rightarrow>
          send (mn_NodeIdsOut m)
            (NodeIdsOut (collect_ids ords chain network (activeTorqNodeIdCache s))) s)"

definition readNodeSettings :: "ManagedNode \<Rightarrow> NodeState \<Rightarrow> (NodeState, NodeReply) outcome" where
  "readNodeSettings m s =
     (if mn_NodeId m = 0 then send (mn_NodeIdSettingsOut m) (NodeIdSettingsOut zeroNodeSettings) s
      else
        let nodeSettings = mget zeroNodeSettings (nodeSettingsByNodeIdCache s) (mn_NodeId m)
        in send (mn_NodeIdSettingsOut m)
             (NodeIdSettingsOut
               (case torqNodeNameByNodeIdCache s (mn_NodeId m) of
                  Some nodeName \<Rightarrow> nodeSettings\<lparr>mns_Name := Some nodeName\<rparr>
                | None \<Rightarrow> nodeSettings)) s)"

definition node_settings ::
    "ManagedNode \<Rightarrow> Chain \<Rightarrow> Network \<Rightarrow> string option \<Rightarrow> Status \<Rightarrow> ManagedNodeSettings" where
  "node_settings m chain network name status =
     \<lparr>mns_NodeId = mn_NodeId m, mns_Chain = chain, mns_Network = network,
      mns_PublicKey = mn_PublicKey m, mns_Name = name, mns_Status = status\<rparr>"

text \<open>Neither Torq node handler sets \<open>Status\<close>, which is left at its zero value \<open>Inactive\<close>.\<close>

definition writeTorqNode :: "bool \<Rightarrow> ManagedNode \<Rightarrow> NodeState \<Rightarrow> (NodeState, NodeReply) outcome" where
  "writeTorqNode active m s =
     (case (mn_Name m, mn_Chain m, mn_Network m) of
        (Some name, Some chain, Some network) \<Rightarrow>
          (if name = [] \<or> mn_PublicKey m = [] \<or> mn_NodeId m = 0 then Served s None
           else
             let key = mn_PublicKey m; nodeId = mn_NodeId m;
                 s1 = s\<lparr>torqNodeNameByNodeIdCache := (torqNodeNameByNodeIdCache s)(nodeId \<mapsto> name)\<rparr>;
                 s2 = (if active
                       then s1\<lparr>activeTorqNodeIdCache := put_id chain network key nodeId (activeTorqNodeIdCache s1)\<rparr>
                       else s1);
                 s3 = s2\<lparr>allTorqNodeIdCache := put_id chain network key nodeId (allTorqNodeIdCache s2)\<rparr>;
                 s4 = (if active
                       then s3\<lparr>channelNodeIdCache := put_id chain network key nodeId (channelNodeIdCache s3)\<rparr>
                       else s3);
                 s5 = s4\<lparr>allChannelNodeIdCache := put_id chain network key nodeId (allChannelNodeIdCache s4)\<rparr>
             in Served (s5\<lparr>nodeSettingsByNodeIdCache := (nodeSettingsByNodeIdCache s5)
                             (nodeId \<mapsto> node_settings m chain network (mn_Name m) Inactive)\<rparr>) None)
      | _ \<Rightarrow> Served s None)"

definition writeChannelNode :: "bool \<Rightarrow> ManagedNode \<Rightarrow> NodeState \<Rightarrow> (NodeState, NodeReply) outcome" where
  "writeChannelNode active m s =
     (case (mn_Chain m, mn_Network m) of
        (Some chain, Some network) \<Rightarrow>
          (if mn_PublicKey m = [] \<or> mn_NodeId m = 0 then Served s None
           else
             let key = mn_PublicKey m; nodeId = mn_NodeId m;
                 s1 = (if active
                       then s\<lparr>channelNodeIdCache := put_id chain network key nodeId (channelNodeIdCache s)\<rparr>
                       else s);
                 s2 = s1\<lparr>allChannelNodeIdCache := put_id chain network key nodeId (allChannelNodeIdCache s1)\<rparr>
             in Served (s2\<lparr>nodeSettingsByNodeIdCache := (nodeSettingsByNodeIdCache s2)
                             (nodeId \<mapsto> node_settings m chain network None
                                          (if active then Active else Inactive))\<rparr>) None)
      | _ \<Rightarrow> Served s None)"

definition inactivateChannelNode :: "ManagedNode \<Rightarrow> NodeState \<Rightarrow> (NodeState, NodeReply) outcome" where
  "inactivateChannelNode m s =
     (case (mn_Chain m, mn_Network m) of
        (Some chain, Some network) \<Rightarrow>
          (if mn_PublicKey m = [] then Served s None
           else Served (s\<lparr>channelNodeIdCache := del_id chain network (mn_PublicKey m) (channelNodeIdCache s),
                          nodeSettingsByNodeIdCache := (nodeSettingsByNodeIdCache s)
                            (mn_NodeId m \<mapsto> node_settings m chain network None Inactive)\<rparr>) None)
      | _ \<Rightarrow> Served s None)"

definition processManagedNode ::
    "NodeOrders \<Rightarrow> NodeState \<Rightarrow> ManagedNode \<Rightarrow> (NodeState, NodeReply) outcome" where
  "processManagedNode ords s m =
     (case mn_Type m of
        READ_ALL_TORQ_NODE \<Rightarrow>
          readNode allTorqNodeIdCache (\<lambda>c s. s\<lparr>allTorqNodeIdCache := c\<rparr>) True m s
      | READ_ACTIVE_TORQ_NODE \<Rightarrow>
          readNode activeTorqNodeIdCache (\<lambda>c s. s\<lparr>activeTorqNodeIdCache := c\<rparr>) True m s
      | READ_ACTIVE_CHANNEL_NODE \<Rightarrow>
          readNode channelNodeIdCache (\<lambda>c s. s\<lparr>channelNodeIdCache := c\<rparr>) False m s
      | READ_CHANNEL_NODE \<Rightarrow>
          readNode allChannelNodeIdCache (\<lambda>c s. s\<lparr>allChannelNodeIdCache := c\<rparr>) False m s
      | READ_ALL_TORQ_NODEIDS \<Rightarrow>
          readNodeIds ords allTorqNodeIdCache (\<lambda>c s. s\<lparr>allTorqNodeIdCache := c\<rparr>) m s
      | READ_ACTIVE_TORQ_NODEIDS \<Rightarrow>
          readNodeIds ords activeTorqNodeIdCache (\<lambda>c s. s\<lparr>activeTorqNodeIdCache := c\<rparr>) m s
      | READ_ALL_CHANNEL_NODEIDS \<Rightarrow>
          readNodeIds ords allChannelNodeIdCache (\<lambda>c s. s\<lparr>allChannelNodeIdCache := c\<rparr>) m s
      | READ_ALL_TORQ_PUBLICKEYS \<Rightarrow>
          readPublicKeys ords allTorqNodeIdCache (\<lambda>c s. s\<lparr>allTorqNodeIdCache := c\<rparr>) m s
      | READ_ACTIVE_TORQ_PUBLICKEYS \<Rightarrow>
          readPublicKeys ords activeTorqNodeIdCache (\<lambda>c s. s\<lparr>activeTorqNodeIdCache := c\<rparr>) m s
      | READ_ALL_CHANNEL_PUBLICKEYS \<Rightarrow>
          readPublicKeys ords allChannelNodeIdCache (\<lambda>c s. s\<lparr>allChannelNodeIdCache := c\<rparr>) m s
      | READ_ALL_ACTIVE_TORQ_NODEIDS \<Rightarrow> readAllActiveTorqNodeIds ords m s
      | READ_NODE_SETTINGS \<Rightarrow> readNodeSettings m s
      | WRITE_INACTIVE_TORQ_NODE \<Rightarrow> writeTorqNode False m s
      | WRITE_ACTIVE_TORQ_NODE \<Rightarrow> writeTorqNode True m s
      | WRITE_ACTIVE_CHANNEL_NODE \<Rightarrow> writeChannelNode True m s
      | WRITE_INACTIVE_CHANNEL_NODE \<Rightarrow> writeChannelNode False m s
      | INACTIVATE_CHANNEL_NODE \<Rightarrow> inactivateChannelNode m s)"

section \<open>The client functions\<close>

definition asked_node :: "NodeReply option \<Rightarrow> ManagedNode option" where
  [simp]: "asked_node r = (case r of Some (NodeOut m) \<Rightarrow> Some m | _ \<Rightarrow> None)"

definition asked_ids :: "NodeReply option \<Rightarrow> int list option" where
  [simp]: "asked_ids r = (case r of Some (NodeIdsOut ids) \<Rightarrow> Some ids | _ \<Rightarrow> None)"

definition asked_keys :: "NodeReply option \<Rightarrow> string list option" where
  [simp]: "asked_keys r = (case r of Some (PublicKeysOut ks) \<Rightarrow> Some ks | _ \<Rightarrow> None)"

definition GetAllChannelPublicKeys :: "NodeOrders \<Rightarrow> NodeState \<Rightarrow> Chain \<Rightarrow> Network \<Rightarrow> string list option" where
  "GetAllChannelPublicKeys ords s chain network =
     asked_keys (answer (processManagedNode ords s ((nodeRequest READ_ALL_CHANNEL_PUBLICKEYS)
       \<lparr>mn_Chain := Some chain, mn_Network := Some network, mn_PublicKeysOut := True\<rparr>)))"

definition GetAllTorqPublicKeys :: "NodeOrders \<Rightarrow> NodeState \<Rightarrow> Chain \<Rightarrow> Network \<Rightarrow> string list option" where
  "GetAllTorqPublicKeys ords s chain network =
     asked_keys (answer (processManagedNode ords s ((nodeRequest READ_ALL_TORQ_PUBLICKEYS)
       \<lparr>mn_Chain := Some chain, mn_Network := Some network, mn_PublicKeysOut := True\<rparr>)))"

definition GetAllTorqNodeIds :: "NodeOrders \<Rightarrow> NodeState \<Rightarrow> Chain \<Rightarrow> Network \<Rightarrow> int list option" where
  "GetAllTorqNodeIds ords s chain network =
     asked_ids (answer (processManagedNode ords s ((nodeRequest READ_ALL_TORQ_NODEIDS)
       \<lparr>mn_Chain := Some chain, mn_Network := Some network, mn_NodeIdsOut := True\<rparr>)))"

definition GetChannelPublicKeys :: "NodeOrders \<Rightarrow> NodeState \<Rightarrow> Chain \<Rightarrow> Network \<Rightarrow> string list option" where
  "GetChannelPublicKeys ords s chain network =
     asked_keys (answer (processManagedNode ords s ((nodeRequest READ_ALL_CHANNEL_PUBLICKEYS)
       \<lparr>mn_Chain := Some chain, mn_Network := Some network, mn_PublicKeysOut := True\<rparr>)))"

definition GetChannelNodeIds :: "NodeOrders \<Rightarrow> NodeState \<Rightarrow> Chain \<Rightarrow> Network \<Rightarrow> int list option" where
  "GetChannelNodeIds ords s chain network =
     asked_ids (answer (processManagedNode ords s ((nodeRequest READ_ALL_CHANNEL_NODEIDS)
       \<lparr>mn_Chain := Some chain, mn_Network := Some network, mn_NodeIdsOut := True\<rparr>)))"

definition GetAllActiveTorqNodeIds ::
    "NodeOrders \<Rightarrow> NodeState \<Rightarrow> Chain option \<Rightarrow> Network option \<Rightarrow> int list option" where
  "GetAllActiveTorqNodeIds ords s chain network =
     asked_ids (answer (processManagedNode ords s ((nodeRequest READ_ALL_ACTIVE_TORQ_NODEIDS)
       \<lparr>mn_Chain := chain, mn_Network := network, mn_NodeIdsOut := True\<rparr>)))"

definition SetTorqNode ::
    "NodeOrders \<Rightarrow> int \<Rightarrow> string \<Rightarrow> Status \<Rightarrow> string \<Rightarrow> Chain \<Rightarrow> Network \<Rightarrow> NodeState \<Rightarrow>
     (NodeState, NodeReply) outcome" where
  "SetTorqNode ords nodeId name status publicKey chain network s =
     (if status = Active
      then processManagedNode ords s ((nodeRequest WRITE_ACTIVE_TORQ_NODE)
             \<lparr>mn_NodeId := nodeId, mn_Chain := Some chain, mn_Network := Some network,
              mn_PublicKey := publicKey, mn_Name := Some name\<rparr>)
      else processManagedNode ords s ((nodeRequest WRITE_INACTIVE_TORQ_NODE)
             \<lparr>mn_NodeId := nodeId, mn_Chain := Some chain, mn_Network := Some network,
              mn_PublicKey := publicKey, mn_Name := Some name\<rparr>))"

definition GetNodeIdByPublicKey :: "NodeOrders \<Rightarrow> NodeState \<Rightarrow> string \<Rightarrow> Chain \<Rightarrow> Network \<Rightarrow> int option" where
  "GetNodeIdByPublicKey ords s publicKey chain network =
     map_option mn_NodeId (asked_node (answer (processManagedNode ords s ((nodeRequest READ_CHANNEL_NODE)
       \<lparr>mn_PublicKey := publicKey, mn_Chain := Some chain, mn_Network := Some network,
        mn_Out := True\<rparr>))))"

definition GetActiveNodeIdByPublicKey :: "NodeOrders \<Rightarrow> NodeState \<Rightarrow> string \<Rightarrow> Chain \<Rightarrow> Network \<Rightarrow> int option" where
  "GetActiveNodeIdByPublicKey ords s publicKey chain network =
     map_option mn_NodeId (asked_node (answer (processManagedNode ords s ((nodeRequest READ_ACTIVE_CHANNEL_NODE)
       \<lparr>mn_PublicKey := publicKey, mn_Chain := Some chain, mn_Network := Some network,
        mn_Out := True\<rparr>))))"

definition SetInactiveChannelNode ::
    "NodeOrders \<Rightarrow> int \<Rightarrow> string \<Rightarrow> Chain \<Rightarrow> Network \<Rightarrow> NodeState \<Rightarrow> (NodeState, NodeReply) outcome" where
  "SetInactiveChannelNode ords nodeId publicKey chain network s =
     processManagedNode ords s ((nodeRequest WRITE_INACTIVE_CHANNEL_NODE)
       \<lparr>mn_NodeId := nodeId, mn_PublicKey := publicKey, mn_Chain := Some chain,
        mn_Network := Some network\<rparr>)"

definition SetChannelNode ::
    "NodeOrders \<Rightarrow> int \<Rightarrow> string \<Rightarrow> Chain \<Rightarrow> Network \<Rightarrow> ChannelStatus \<Rightarrow> NodeState \<Rightarrow>
     (NodeState, NodeReply) outcome" where
  "SetChannelNode ords nodeId publicKey chain network status s =
     (if status < CooperativeClosed
      then processManagedNode ords s ((nodeRequest WRITE_ACTIVE_CHANNEL_NODE)
             \<lparr>mn_NodeId := nodeId, mn_PublicKey := publicKey, mn_Chain := Some chain,
              mn_Network := Some network\<rparr>)
      else SetInactiveChannelNode ords nodeId publicKey chain network s)"

definition InactivateChannelNode ::
    "NodeOrders \<Rightarrow> string \<Rightarrow> Chain \<Rightarrow> Network \<Rightarrow> NodeState \<Rightarrow> (NodeState, NodeReply) outcome" where
  "InactivateChannelNode ords publicKey chain network s =
     processManagedNode ords s ((nodeRequest INACTIVATE_CHANNEL_NODE)
       \<lparr>mn_PublicKey := publicKey, mn_Chain := Some chain, mn_Network := Some network\<rparr>)"

definition GetNodeSettingsByNodeId :: "NodeOrders \<Rightarrow> NodeState \<Rightarrow> int \<Rightarrow> ManagedNodeSettings option" where
  "GetNodeSettingsByNodeId ords s nodeId =
     (case answer (processManagedNode ords s ((nodeRequest READ_NODE_SETTINGS)
             \<lparr>mn_NodeId := nodeId, mn_NodeIdSettingsOut := True\<rparr>)) of
        Some (NodeIdSettingsOut ns) \<Rightarrow> Some ns
      | _ \<Rightarrow> None)"

section \<open>The id caches as flat maps\<close>

definition flat :: "id_cache \<Rightarrow> Chain \<times> Network \<times> string \<rightharpoonup> int" where
  "flat cache = (\<lambda>(chain, network, key). map_of (ids_of chain network cache) key)"

lemma ids_of_initializeIdCache [simp]:
  "ids_of c n (initializeIdCache c' n' cache) = ids_of c n cache"
  by (auto simp: ids_of_def initializeIdCache_def Let_def mget_def split: option.splits)

lemma ids_of_set_ids [simp]:
  "ids_of c n (set_ids c' n' ids cache) = (if c = c' \<and> n = n' then ids else ids_of c n cache)"
  by (auto simp: ids_of_def set_ids_def)

lemma flat_empty [simp]: "flat [] = Map.empty"
  by (auto simp: flat_def ids_of_def)

lemma flat_initializeIdCache [simp]: "flat (initializeIdCache c n cache) = flat cache"
  by (simp add: flat_def)

lemma flat_put_id [simp]: "flat (put_id c n k v cache) = (flat cache)((c, n, k) \<mapsto> v)"
  by (rule ext) (simp add: flat_def put_id_def Let_def split_def prod_eq_iff)

lemma flat_del_id [simp]: "flat (del_id c n k cache) = (flat cache)((c, n, k) := None)"
  by (rule ext) (simp add: flat_def del_id_def Let_def split_def prod_eq_iff)

lemma flat_ids_of: "aget 0 (ids_of c n cache) k = mget 0 (flat cache) (c, n, k)"
  by (simp add: flat_def mget_def)

text \<open>The maps at every level have distinct keys.\<close>

definition id_cache_ok :: "id_cache \<Rightarrow> bool" where
  "id_cache_ok cache \<longleftrightarrow> keys_distinct cache \<and>
     (\<forall>c networks. (c, networks) \<in> set cache \<longrightarrow> keys_distinct networks \<and>
        (\<forall>n ids. (n, ids) \<in> set networks \<longrightarrow> keys_distinct ids))"

lemma id_cache_ok_networks:
  assumes "id_cache_ok cache"
  shows "keys_distinct (aget [] cache c) \<and>
    (\<forall>n ids. (n, ids) \<in> set (aget [] cache c) \<longrightarrow> keys_distinct ids)"
proof (cases "map_of cache c")
  case (Some networks)
  then have "(c, networks) \<in> set cache" by (rule map_of_SomeD)
  with assms Some show ?thesis unfolding id_cache_ok_def by simp
qed simp

lemma id_cache_ok_ids: "id_cache_ok cache \<Longrightarrow> keys_distinct (ids_of c n cache)"
  using id_cache_ok_networks [of cache c]
  by (cases "map_of (aget [] cache c) n") (auto simp: ids_of_def dest: map_of_SomeD)

lemma id_cache_ok_aput:
  assumes "id_cache_ok cache" and "keys_distinct networks"
    and "\<forall>n ids. (n, ids) \<in> set networks \<longrightarrow> keys_distinct ids"
  shows "id_cache_ok (aput c networks cache)"
  using assms by (auto simp: id_cache_ok_def dest!: set_aputD)

lemma id_cache_ok_set_ids:
  assumes "id_cache_ok cache" and "keys_distinct ids"
  shows "id_cache_ok (set_ids c n ids cache)"
  unfolding set_ids_def
  using id_cache_ok_networks [OF assms(1), of c] assms
  by (intro id_cache_ok_aput) (auto dest!: set_aputD)

lemma id_cache_ok_initializeIdCache [simp]:
  assumes "id_cache_ok cache"
  shows "id_cache_ok (initializeIdCache c n cache)"
proof -
  let ?c1 = "if map_of cache c = None then aput c [] cache else cache"
  have c1: "id_cache_ok ?c1" using assms by (simp add: id_cache_ok_aput)
  have "id_cache_ok (aput c (aput n [] (aget [] ?c1 c)) ?c1)"
    using id_cache_ok_networks [OF c1, of c] c1
    by (intro id_cache_ok_aput) (auto dest!: set_aputD)
  with c1 show ?thesis unfolding initializeIdCache_def Let_def by simp
qed

lemma id_cache_ok_put_id [simp]: "id_cache_ok cache \<Longrightarrow> id_cache_ok (put_id c n k v cache)"
  unfolding put_id_def Let_def
  by (intro id_cache_ok_set_ids id_cache_ok_initializeIdCache) (simp_all add: id_cache_ok_ids)

lemma id_cache_ok_del_id [simp]: "id_cache_ok cache \<Longrightarrow> id_cache_ok (del_id c n k cache)"
  unfolding del_id_def Let_def
  by (intro id_cache_ok_set_ids id_cache_ok_initializeIdCache) (simp_all add: id_cache_ok_ids)

text \<open>One entry of an id cache is written or deleted, as a keyed store.\<close>

definition write_entry :: "Chain \<times> Network \<times> string \<Rightarrow> int option \<Rightarrow> id_cache \<Rightarrow> id_cache" where
  "write_entry at v cache =
     (case v of None \<Rightarrow> del_id (fst at) (fst (snd at)) (snd (snd at)) cache
      | Some i \<Rightarrow> put_id (fst at) (fst (snd at)) (snd (snd at)) i cache)"

lemma flat_write_entry [simp]: "flat (write_entry at v cache) = (flat cache)(at := v)"
  by (cases v) (simp_all add: write_entry_def)

interpretation id_store: keyed_cache flat write_entry "\<lambda>at v. True"
  by unfold_locales simp_all

section \<open>The abstract directory\<close>

record NodeDirectory =
  dir_allTorq :: "Chain \<times> Network \<times> string \<rightharpoonup> int"
  dir_activeTorq :: "Chain \<times> Network \<times> string \<rightharpoonup> int"
  dir_channel :: "Chain \<times> Network \<times> string \<rightharpoonup> int"
  dir_allChannel :: "Chain \<times> Network \<times> string \<rightharpoonup> int"
  dir_settings :: "int \<rightharpoonup> ManagedNodeSettings"
  dir_names :: "int \<rightharpoonup> string"

definition directory :: "NodeState \<Rightarrow> NodeDirectory" where
  "directory s =
     \<lparr>dir_allTorq = flat (allTorqNodeIdCache s), dir_activeTorq = flat (activeTorqNodeIdCache s),
      dir_channel = flat (channelNodeIdCache s), dir_allChannel = flat (allChannelNodeIdCache s),
      dir_settings = nodeSettingsByNodeIdCache s, dir_names = torqNodeNameByNodeIdCache s\<rparr>"

text \<open>
  What a request means for the directory: reads change nothing, the writes enter the node in the
  registers the operation names.
\<close>

definition enter_settings ::
    "ManagedNode \<Rightarrow> Chain \<Rightarrow> Network \<Rightarrow> string option \<Rightarrow> Status \<Rightarrow> NodeDirectory \<Rightarrow> NodeDirectory" where
  "enter_settings m chain network name status d =
     d\<lparr>dir_settings := (dir_settings d)(mn_NodeId m \<mapsto> node_settings m chain network name status)\<rparr>"

definition enter_known :: "bool \<Rightarrow> Chain \<times> Network \<times> string \<Rightarrow> int \<Rightarrow> NodeDirectory \<Rightarrow> NodeDirectory" where
  "enter_known active at i d =
     (if active
      then d\<lparr>dir_channel := (dir_channel d)(at \<mapsto> i), dir_allChannel := (dir_allChannel d)(at \<mapsto> i)\<rparr>
      else d\<lparr>dir_allChannel := (dir_allChannel d)(at \<mapsto> i)\<rparr>)"

definition enter_torq :: "bool \<Rightarrow> Chain \<times> Network \<times> string \<Rightarrow> int \<Rightarrow> string \<Rightarrow> NodeDirectory \<Rightarrow> NodeDirectory" where
  "enter_torq active at i name d =
     (if active
      then d\<lparr>dir_names := (dir_names d)(i \<mapsto> name), dir_activeTorq := (dir_activeTorq d)(at \<mapsto> i),
             dir_allTorq := (dir_allTorq d)(at \<mapsto> i)\<rparr>
      else d\<lparr>dir_names := (dir_names d)(i \<mapsto> name), dir_allTorq := (dir_allTorq d)(at \<mapsto> i)\<rparr>)"

definition torq_node_step :: "bool \<Rightarrow> ManagedNode \<Rightarrow> Chain \<Rightarrow> Network \<Rightarrow> NodeDirectory \<Rightarrow> NodeDirectory" where
  "torq_node_step active m c n d =
     (case mn_Name m of
        None \<Rightarrow> d
      | Some name \<Rightarrow>
          (if name = [] \<or> mn_PublicKey m = [] \<or> mn_NodeId m = 0 then d
           else enter_settings m c n (mn_Name m) Inactive
                  (enter_known active (c, n, mn_PublicKey m) (mn_NodeId m)
                    (enter_torq active (c, n, mn_PublicKey m) (mn_NodeId m) name d))))"

definition channel_node_step :: "bool \<Rightarrow> ManagedNode \<Rightarrow> Chain \<Rightarrow> Network \<Rightarrow> NodeDirectory \<Rightarrow> NodeDirectory" where
  "channel_node_step active m c n d =
     (if mn_PublicKey m = [] \<or> mn_NodeId m = 0 then d
      else enter_settings m c n None (if active then Active else Inactive)
             (enter_known active (c, n, mn_PublicKey m) (mn_NodeId m) d))"

definition drop_channel_node_step :: "ManagedNode \<Rightarrow> Chain \<Rightarrow> Network \<Rightarrow> NodeDirectory \<Rightarrow> NodeDirectory" where
  "drop_channel_node_step m c n d =
     (if mn_PublicKey m = [] then d
      else enter_settings m c n None Inactive
             (d\<lparr>dir_channel := (dir_channel d)((c, n, mn_PublicKey m) := None)\<rparr>))"

definition directory_step :: "ManagedNode \<Rightarrow> NodeDirectory \<Rightarrow> NodeDirectory" where
  "directory_step m d =
     (case mn_Chain m of None \<Rightarrow> d | Some c \<Rightarrow>
     (case mn_Network m of None \<Rightarrow> d | Some n \<Rightarrow>
        if mn_Type m = WRITE_ACTIVE_TORQ_NODE then torq_node_step True m c n d
        else if mn_Type m = WRITE_INACTIVE_TORQ_NODE then torq_node_step False m c n d
        else if mn_Type m = WRITE_ACTIVE_CHANNEL_NODE then channel_node_step True m c n d
        else if mn_Type m = WRITE_INACTIVE_CHANNEL_NODE then channel_node_step False m c n d
        else if mn_Type m = INACTIVATE_CHANNEL_NODE then drop_channel_node_step m c n d
        else d))"

lemmas directory_defs =
  directory_step_def torq_node_step_def channel_node_step_def drop_channel_node_step_def
  enter_torq_def enter_known_def enter_settings_def directory_def

lemma directory_readNode:
  assumes "readNode get put named m s = Served t r"
    and "\<And>c. flat c = flat (get s) \<Longrightarrow> directory (put c s) = directory s"
  shows "directory t = directory s"
  using assms by (auto simp: readNode_def Let_def split: option.splits)

lemma directory_readNodeIds:
  assumes "readNodeIds ords get put m s = Served t r"
    and "\<And>c. flat c = flat (get s) \<Longrightarrow> directory (put c s) = directory s"
  shows "directory t = directory s"
  using assms by (auto simp: readNodeIds_def Let_def split: option.splits)

lemma directory_readPublicKeys:
  assumes "readPublicKeys ords get put m s = Served t r"
    and "\<And>c. flat c = flat (get s) \<Longrightarrow> directory (put c s) = directory s"
  shows "directory t = directory s"
  using assms by (auto simp: readPublicKeys_def Let_def split: option.splits)

lemma directory_other_reads:
  "readAllActiveTorqNodeIds ords m s = Served t r \<Longrightarrow> directory t = directory s"
  "readNodeSettings m s = Served t r \<Longrightarrow> directory t = directory s"
  by (auto simp: readAllActiveTorqNodeIds_def readNodeSettings_def directory_def Let_def
      split: option.splits if_splits)

lemma directory_writeTorqNode:
  assumes "writeTorqNode active m s = Served t r"
    and "mn_Type m = (if active then WRITE_ACTIVE_TORQ_NODE else WRITE_INACTIVE_TORQ_NODE)"
  shows "directory t = directory_step m (directory s)"
  using assms
  by (cases "mn_Name m"; cases "mn_Chain m"; cases "mn_Network m"; cases active)
    (auto simp: writeTorqNode_def directory_defs Let_def split: if_splits)

lemma directory_writeChannelNode:
  assumes "writeChannelNode active m s = Served t r"
    and "mn_Type m = (if active then WRITE_ACTIVE_CHANNEL_NODE else WRITE_INACTIVE_CHANNEL_NODE)"
  shows "directory t = directory_step m (directory s)"
  using assms
  by (cases "mn_Chain m"; cases "mn_Network m"; cases active)
    (auto simp: writeChannelNode_def directory_defs Let_def split: if_splits)

lemma directory_inactivateChannelNode:
  assumes "inactivateChannelNode m s = Served t r" and "mn_Type m = INACTIVATE_CHANNEL_NODE"
  shows "directory t = directory_step m (directory s)"
  using assms
  by (cases "mn_Chain m"; cases "mn_Network m")
    (auto simp: inactivateChannelNode_def directory_defs Let_def split: if_splits)

definition is_node_write :: "ManagedNodeCacheOperationType \<Rightarrow> bool" where
  "is_node_write ty \<longleftrightarrow>
     ty \<in> {WRITE_ACTIVE_TORQ_NODE, WRITE_INACTIVE_TORQ_NODE, WRITE_ACTIVE_CHANNEL_NODE,
           WRITE_INACTIVE_CHANNEL_NODE, INACTIVATE_CHANNEL_NODE}"

lemma directory_step_read: "\<not> is_node_write (mn_Type m) \<Longrightarrow> directory_step m d = d"
  by (cases "mn_Type m") (auto simp: directory_step_def is_node_write_def split: option.splits)

lemma directory_puts:
  "flat c = flat (allTorqNodeIdCache s) \<Longrightarrow> directory (s\<lparr>allTorqNodeIdCache := c\<rparr>) = directory s"
  "flat c = flat (activeTorqNodeIdCache s) \<Longrightarrow> directory (s\<lparr>activeTorqNodeIdCache := c\<rparr>) = directory s"
  "flat c = flat (channelNodeIdCache s) \<Longrightarrow> directory (s\<lparr>channelNodeIdCache := c\<rparr>) = directory s"
  "flat c = flat (allChannelNodeIdCache s) \<Longrightarrow> directory (s\<lparr>allChannelNodeIdCache := c\<rparr>) = directory s"
  by (simp_all add: directory_def)

lemmas node_read_frames =
  directory_readNode [where get = allTorqNodeIdCache and put = "\<lambda>c s. s\<lparr>allTorqNodeIdCache := c\<rparr>",
    OF _ directory_puts(1)]
  directory_readNode [where get = activeTorqNodeIdCache and put = "\<lambda>c s. s\<lparr>activeTorqNodeIdCache := c\<rparr>",
    OF _ directory_puts(2)]
  directory_readNode [where get = channelNodeIdCache and put = "\<lambda>c s. s\<lparr>channelNodeIdCache := c\<rparr>",
    OF _ directory_puts(3)]
  directory_readNode [where get = allChannelNodeIdCache and put = "\<lambda>c s. s\<lparr>allChannelNodeIdCache := c\<rparr>",
    OF _ directory_puts(4)]
  directory_readNodeIds [where get = allTorqNodeIdCache and put = "\<lambda>c s. s\<lparr>allTorqNodeIdCache := c\<rparr>",
    OF _ directory_puts(1)]
  directory_readNodeIds [where get = activeTorqNodeIdCache and put = "\<lambda>c s. s\<lparr>activeTorqNodeIdCache := c\<rparr>",
    OF _ directory_puts(2)]
  directory_readNodeIds [where get = allChannelNodeIdCache and put = "\<lambda>c s. s\<lparr>allChannelNodeIdCache := c\<rparr>",
    OF _ directory_puts(4)]
  directory_readPublicKeys [where get = allTorqNodeIdCache and put = "\<lambda>c s. s\<lparr>allTorqNodeIdCache := c\<rparr>",
    OF _ directory_puts(1)]
  directory_readPublicKeys [where get = activeTorqNodeIdCache and put = "\<lambda>c s. s\<lparr>activeTorqNodeIdCache := c\<rparr>",
    OF _ directory_puts(2)]
  directory_readPublicKeys [where get = allChannelNodeIdCache and put = "\<lambda>c s. s\<lparr>allChannelNodeIdCache := c\<rparr>",
    OF _ directory_puts(4)]
  directory_other_reads

lemma directory_reads:
  assumes "processManagedNode ords s m = Served t r" and "\<not> is_node_write (mn_Type m)"
  shows "directory t = directory s"
  using assms
  by (cases "mn_Type m") (simp_all add: processManagedNode_def is_node_write_def node_read_frames)

lemma directory_refinement:
  assumes "processManagedNode ords s m = Served t r"
  shows "directory t = directory_step m (directory s)"
proof (cases "is_node_write (mn_Type m)")
  case True
  with assms show ?thesis
    by (cases "mn_Type m")
      (auto simp: processManagedNode_def is_node_write_def
        intro: directory_writeTorqNode directory_writeChannelNode directory_inactivateChannelNode)
next
  case False
  with assms show ?thesis by (simp add: directory_reads directory_step_read)
qed

section \<open>The cache invariant\<close>

text \<open>
  An active Torq node is a Torq node, a Torq node and an active channel node are channel nodes, no
  node has id 0 except in the settings, settings are stored under their own id, and every named
  node has settings and a name that is not empty.
\<close>

definition directory_ok :: "NodeDirectory \<Rightarrow> bool" where
  "directory_ok d \<longleftrightarrow>
     dom (dir_activeTorq d) \<subseteq> dom (dir_allTorq d) \<and> dom (dir_allTorq d) \<subseteq> dom (dir_allChannel d) \<and>
     dom (dir_channel d) \<subseteq> dom (dir_allChannel d) \<and> 0 \<notin> ran (dir_allChannel d) \<and>
     0 \<notin> ran (dir_allTorq d) \<and> 0 \<notin> ran (dir_activeTorq d) \<and> 0 \<notin> ran (dir_channel d) \<and>
     (\<forall>i ns. dir_settings d i = Some ns \<longrightarrow> mns_NodeId ns = i \<and> mns_Status ns \<in> {Active, Inactive}) \<and>
     (\<forall>i name. dir_names d i = Some name \<longrightarrow> name \<noteq> [] \<and> i \<noteq> 0) \<and>
     dom (dir_names d) \<subseteq> dom (dir_settings d)"

lemma ran_upd_ne: "0 \<notin> ran m \<Longrightarrow> i \<noteq> (0::int) \<Longrightarrow> 0 \<notin> ran (m(k \<mapsto> i))"
  by (auto simp: ran_def)

lemma ran_del_ne: "0 \<notin> ran m \<Longrightarrow> (0::int) \<notin> ran (m(k := None))"
  by (auto simp: ran_def)

text \<open>The facts that carry an inclusion of domains and a nonzero range over one update.\<close>

lemmas register_rules = subset_insertI2 ran_upd_ne ran_del_ne

lemma directory_ok_torq_node_step:
  assumes "directory_ok d" shows "directory_ok (torq_node_step active m c n d)"
proof -
  note old = assms [unfolded directory_ok_def]
  show ?thesis
  proof (cases "\<exists>name. mn_Name m = Some name \<and> name \<noteq> [] \<and> mn_PublicKey m \<noteq> [] \<and> mn_NodeId m \<noteq> 0")
    case True
    then obtain name where "mn_Name m = Some name" "name \<noteq> []" "mn_PublicKey m \<noteq> []" "mn_NodeId m \<noteq> 0"
      by blast
    with old show ?thesis
      unfolding directory_ok_def torq_node_step_def enter_settings_def enter_known_def enter_torq_def node_settings_def
      by (cases active) (simp_all add: register_rules)
  next
    case False
    then have "torq_node_step active m c n d = d"
      by (cases "mn_Name m") (auto simp: torq_node_step_def)
    with assms show ?thesis by simp
  qed
qed

lemma directory_ok_channel_node_step:
  assumes "directory_ok d" shows "directory_ok (channel_node_step active m c n d)"
proof -
  note old = assms [unfolded directory_ok_def]
  show ?thesis
  proof (cases "mn_PublicKey m = [] \<or> mn_NodeId m = 0")
    case False
    with old show ?thesis
      unfolding directory_ok_def channel_node_step_def enter_settings_def enter_known_def node_settings_def
      by (cases active) (simp_all add: register_rules)
  qed (use assms in \<open>simp add: channel_node_step_def\<close>)
qed

lemma directory_ok_drop_channel_node_step:
  assumes "directory_ok d" shows "directory_ok (drop_channel_node_step m c n d)"
proof -
  note old = assms [unfolded directory_ok_def]
  then have "dom (dir_channel d) - {k} \<subseteq> dom (dir_allChannel d)" for k
    by blast
  with old show ?thesis
    unfolding directory_ok_def drop_channel_node_step_def enter_settings_def node_settings_def
    by (simp add: register_rules)
qed

lemma directory_ok_step: "directory_ok d \<Longrightarrow> directory_ok (directory_step m d)"
  by (simp add: directory_step_def directory_ok_torq_node_step directory_ok_channel_node_step
      directory_ok_drop_channel_node_step split: option.splits)

definition id_caches_ok :: "NodeState \<Rightarrow> bool" where
  "id_caches_ok s \<longleftrightarrow>
     id_cache_ok (allTorqNodeIdCache s) \<and> id_cache_ok (activeTorqNodeIdCache s) \<and>
     id_cache_ok (channelNodeIdCache s) \<and> id_cache_ok (allChannelNodeIdCache s)"

definition node_state_ok :: "NodeState \<Rightarrow> bool" where
  "node_state_ok s \<longleftrightarrow> id_caches_ok s \<and> directory_ok (directory s)"

lemma id_caches_ok_writes:
  assumes "id_caches_ok s"
  shows "writeTorqNode active m s = Served t r \<Longrightarrow> id_caches_ok t"
    and "writeChannelNode active m s = Served t r \<Longrightarrow> id_caches_ok t"
    and "inactivateChannelNode m s = Served t r \<Longrightarrow> id_caches_ok t"
  using assms
  by (auto simp: id_caches_ok_def writeTorqNode_def writeChannelNode_def inactivateChannelNode_def
      Let_def split: option.splits if_splits)

lemma id_caches_ok_reads:
  assumes "id_caches_ok s"
    and "\<And>c. id_cache_ok (get s) \<and> (id_cache_ok c \<longrightarrow> id_caches_ok (put c s))"
  shows "readNode get put named m s = Served t r \<Longrightarrow> id_caches_ok t"
    and "readNodeIds ords get put m s = Served t r \<Longrightarrow> id_caches_ok t"
    and "readPublicKeys ords get put m s = Served t r \<Longrightarrow> id_caches_ok t"
  using assms
  by (auto simp: readNode_def readNodeIds_def readPublicKeys_def Let_def split: option.splits)

lemma id_caches_ok_puts:
  assumes "id_caches_ok s"
  shows "id_cache_ok (allTorqNodeIdCache s) \<and> (id_cache_ok c \<longrightarrow> id_caches_ok (s\<lparr>allTorqNodeIdCache := c\<rparr>))"
    "id_cache_ok (activeTorqNodeIdCache s) \<and> (id_cache_ok c \<longrightarrow> id_caches_ok (s\<lparr>activeTorqNodeIdCache := c\<rparr>))"
    "id_cache_ok (channelNodeIdCache s) \<and> (id_cache_ok c \<longrightarrow> id_caches_ok (s\<lparr>channelNodeIdCache := c\<rparr>))"
    "id_cache_ok (allChannelNodeIdCache s) \<and> (id_cache_ok c \<longrightarrow> id_caches_ok (s\<lparr>allChannelNodeIdCache := c\<rparr>))"
  using assms by (simp_all add: id_caches_ok_def)

lemma id_caches_ok_other_reads:
  assumes "id_caches_ok s"
  shows "readAllActiveTorqNodeIds ords m s = Served t r \<Longrightarrow> id_caches_ok t"
    and "readNodeSettings m s = Served t r \<Longrightarrow> id_caches_ok t"
  using assms
  by (auto simp: readAllActiveTorqNodeIds_def readNodeSettings_def id_caches_ok_def Let_def
      split: option.splits if_splits)

lemma id_caches_ok_process:
  assumes ok: "id_caches_ok s" and "processManagedNode ords s m = Served t r"
  shows "id_caches_ok t"
proof -
  note all_torq = id_caches_ok_reads [OF ok, where get = allTorqNodeIdCache
      and put = "\<lambda>c s. s\<lparr>allTorqNodeIdCache := c\<rparr>", OF id_caches_ok_puts(1) [OF ok]]
  note active_torq = id_caches_ok_reads [OF ok, where get = activeTorqNodeIdCache
      and put = "\<lambda>c s. s\<lparr>activeTorqNodeIdCache := c\<rparr>", OF id_caches_ok_puts(2) [OF ok]]
  note chan = id_caches_ok_reads [OF ok, where get = channelNodeIdCache
      and put = "\<lambda>c s. s\<lparr>channelNodeIdCache := c\<rparr>", OF id_caches_ok_puts(3) [OF ok]]
  note all_chan = id_caches_ok_reads [OF ok, where get = allChannelNodeIdCache
      and put = "\<lambda>c s. s\<lparr>allChannelNodeIdCache := c\<rparr>", OF id_caches_ok_puts(4) [OF ok]]
  note step = assms(2) [unfolded processManagedNode_def]
  then show ?thesis
    by (cases "mn_Type m"; simp only: ManagedNodeCacheOperationType.case)
      (erule all_torq active_torq chan all_chan id_caches_ok_other_reads [OF ok]
        id_caches_ok_writes [OF ok])+
qed

interpretation node_cache:
  cache_server "\<lambda>s (ords, m). processManagedNode ords s m" emptyNodeState node_state_ok
proof
  show "node_state_ok emptyNodeState"
    by (simp add: node_state_ok_def id_caches_ok_def emptyNodeState_def directory_def directory_ok_def
        id_cache_ok_def)
  fix s t r and om :: "NodeOrders \<times> ManagedNode"
  assume "node_state_ok s" and "(case om of (ords, m) \<Rightarrow> processManagedNode ords s m) = Served t r"
  then show "node_state_ok t"
    unfolding node_state_ok_def
    using id_caches_ok_process directory_refinement directory_ok_step
    by (cases om) (metis (no_types, lifting) case_prod_conv)
qed

section \<open>What the cache answers\<close>

text \<open>
  The specification reads the answers off the list of the earlier requests and knows nothing of
  the caches.  A register holds at a place (chain, network, public key) the id of the latest
  accepted request of one of the operations that write it; a place that was inactivated since is
  empty.  A request is accepted when it names a chain, a network and a key, and, unless it
  inactivates a node, an id that is not 0 and, for a Torq node, a name that is not empty.
\<close>

datatype Register = AllTorq | ActiveTorq | ActiveChannel | AnyChannel

primrec writers :: "Register \<Rightarrow> ManagedNodeCacheOperationType list" where
  "writers AllTorq = [WRITE_ACTIVE_TORQ_NODE, WRITE_INACTIVE_TORQ_NODE]"
| "writers ActiveTorq = [WRITE_ACTIVE_TORQ_NODE]"
| "writers ActiveChannel = [WRITE_ACTIVE_TORQ_NODE, WRITE_ACTIVE_CHANNEL_NODE, INACTIVATE_CHANNEL_NODE]"
| "writers AnyChannel = [WRITE_ACTIVE_TORQ_NODE, WRITE_INACTIVE_TORQ_NODE, WRITE_ACTIVE_CHANNEL_NODE,
    WRITE_INACTIVE_CHANNEL_NODE]"

definition is_torq_write :: "ManagedNode \<Rightarrow> bool" where
  "is_torq_write m \<longleftrightarrow> mn_Type m \<in> set (writers AllTorq)"

definition accepted :: "ManagedNode \<Rightarrow> bool" where
  "accepted m \<longleftrightarrow> is_node_write (mn_Type m) \<and> mn_Chain m \<noteq> None \<and> mn_Network m \<noteq> None \<and>
     mn_PublicKey m \<noteq> [] \<and>
     (mn_Type m = INACTIVATE_CHANNEL_NODE \<or>
      mn_NodeId m \<noteq> 0 \<and> (is_torq_write m \<longrightarrow> mn_Name m \<noteq> None \<and> mn_Name m \<noteq> Some []))"

definition place_of :: "ManagedNode \<Rightarrow> Chain \<times> Network \<times> string" where
  "place_of m = (the (mn_Chain m), the (mn_Network m), mn_PublicKey m)"

definition latest :: "(ManagedNode \<Rightarrow> bool) \<Rightarrow> ManagedNode list \<Rightarrow> ManagedNode option" where
  "latest p past = find (\<lambda>m. accepted m \<and> p m) (rev past)"

definition entered :: "Register \<Rightarrow> ManagedNode list \<Rightarrow> Chain \<times> Network \<times> string \<rightharpoonup> int" where
  "entered R past pl =
     (case latest (\<lambda>m. mn_Type m \<in> set (writers R) \<and> place_of m = pl) past of
        None \<Rightarrow> None
      | Some m \<Rightarrow> if mn_Type m = INACTIVATE_CHANNEL_NODE then None else Some (mn_NodeId m))"

definition torq_name :: "ManagedNode list \<Rightarrow> int \<rightharpoonup> string" where
  "torq_name past i =
     (case latest (\<lambda>m. is_torq_write m \<and> mn_NodeId m = i) past of None \<Rightarrow> None | Some m \<Rightarrow> mn_Name m)"

text \<open>
  The settings of a node are those of the latest request that carries its id.  Only
  \<open>WRITE_ACTIVE_CHANNEL_NODE\<close> stores a node as active.
\<close>

definition settings_in :: "ManagedNode \<Rightarrow> ManagedNodeSettings" where
  "settings_in m =
     (case place_of m of (chain, network, key) \<Rightarrow>
        \<lparr>mns_NodeId = mn_NodeId m, mns_Chain = chain, mns_Network = network, mns_PublicKey = key,
         mns_Name = (if is_torq_write m then mn_Name m else None),
         mns_Status = (if mn_Type m = WRITE_ACTIVE_CHANNEL_NODE then Active else Inactive)\<rparr>)"

definition node_settings_in :: "ManagedNode list \<Rightarrow> int \<rightharpoonup> ManagedNodeSettings" where
  "node_settings_in past i = map_option settings_in (latest (\<lambda>m. mn_NodeId m = i) past)"

definition shown_settings :: "ManagedNode list \<Rightarrow> int \<Rightarrow> ManagedNodeSettings" where
  "shown_settings past i =
     (if i = 0 then zeroNodeSettings
      else let ns = (case node_settings_in past i of None \<Rightarrow> zeroNodeSettings | Some ns \<Rightarrow> ns)
           in case torq_name past i of None \<Rightarrow> ns | Some name \<Rightarrow> ns\<lparr>mns_Name := Some name\<rparr>)"

definition id_at :: "Register \<Rightarrow> ManagedNode list \<Rightarrow> ManagedNode \<Rightarrow> int" where
  "id_at R past m = (case entered R past (place_of m) of None \<Rightarrow> 0 | Some i \<Rightarrow> i)"

text \<open>
  The answer to a question for one node: the request with the id filled in, 0 for a place that
  is empty; a Torq read fills in the name as well.  Without a chain or a network the request comes
  back as it was.
\<close>

definition one_node :: "Register \<Rightarrow> bool \<Rightarrow> ManagedNode list \<Rightarrow> ManagedNode \<Rightarrow> NodeReply" where
  "one_node R named past m =
     NodeOut
       (if mn_Chain m = None \<or> mn_Network m = None then m
        else m\<lparr>mn_NodeId := id_at R past m,
               mn_Name := (if named \<and> torq_name past (id_at R past m) \<noteq> None
                           then torq_name past (id_at R past m) else mn_Name m)\<rparr>)"

text \<open>The occupied places of a register on a chain and a network, None standing for all, each once.\<close>

definition lists_places ::
    "Register \<Rightarrow> ManagedNode list \<Rightarrow> Chain option \<Rightarrow> Network option \<Rightarrow> (Chain \<times> Network \<times> string) list \<Rightarrow> bool" where
  "lists_places R past chain network places \<longleftrightarrow> distinct places \<and>
     set places = {(c, n, k). entered R past (c, n, k) \<noteq> None \<and>
       (chain = None \<or> chain = Some c) \<and> (network = None \<or> network = Some n)}"

definition ids_at :: "Register \<Rightarrow> ManagedNode list \<Rightarrow> (Chain \<times> Network \<times> string) list \<Rightarrow> int list" where
  "ids_at R past places = map (\<lambda>pl. the (entered R past pl)) places"

definition lists_ids :: "Register \<Rightarrow> ManagedNode list \<Rightarrow> ManagedNode \<Rightarrow> NodeReply \<Rightarrow> bool" where
  "lists_ids R past m r \<longleftrightarrow>
     (if mn_Chain m = None \<or> mn_Network m = None then r = NodeIdsOut []
      else \<exists>places. lists_places R past (mn_Chain m) (mn_Network m) places \<and>
                    r = NodeIdsOut (ids_at R past places))"

definition lists_keys :: "Register \<Rightarrow> ManagedNode list \<Rightarrow> ManagedNode \<Rightarrow> NodeReply \<Rightarrow> bool" where
  "lists_keys R past m r \<longleftrightarrow>
     (if mn_Chain m = None \<or> mn_Network m = None then r = PublicKeysOut []
      else \<exists>places. lists_places R past (mn_Chain m) (mn_Network m) places \<and>
                    r = PublicKeysOut (map (\<lambda>(c, n, k). k) places))"

definition lists_all_ids :: "Register \<Rightarrow> ManagedNode list \<Rightarrow> ManagedNode \<Rightarrow> NodeReply \<Rightarrow> bool" where
  "lists_all_ids R past m r \<longleftrightarrow>
     (\<exists>places. lists_places R past (mn_Chain m) (mn_Network m) places \<and>
               r = NodeIdsOut (ids_at R past places))"

definition answers_log :: "ManagedNode list \<Rightarrow> ManagedNode \<Rightarrow> NodeReply option \<Rightarrow> bool" where
  "answers_log past m reply =
     (case reply of
        None \<Rightarrow> is_node_write (mn_Type m)
      | Some r \<Rightarrow>
         (case mn_Type m of
            READ_ALL_TORQ_NODE \<Rightarrow> r = one_node AllTorq True past m
          | READ_ACTIVE_TORQ_NODE \<Rightarrow> r = one_node ActiveTorq True past m
          | READ_ACTIVE_CHANNEL_NODE \<Rightarrow> r = one_node ActiveChannel False past m
          | READ_CHANNEL_NODE \<Rightarrow> r = one_node AnyChannel False past m
          | READ_ALL_TORQ_NODEIDS \<Rightarrow> lists_ids AllTorq past m r
          | READ_ACTIVE_TORQ_NODEIDS \<Rightarrow> lists_ids ActiveTorq past m r
          | READ_ALL_CHANNEL_NODEIDS \<Rightarrow> lists_ids AnyChannel past m r
          | READ_ALL_TORQ_PUBLICKEYS \<Rightarrow> lists_keys AllTorq past m r
          | READ_ACTIVE_TORQ_PUBLICKEYS \<Rightarrow> lists_keys ActiveTorq past m r
          | READ_ALL_CHANNEL_PUBLICKEYS \<Rightarrow> lists_keys AnyChannel past m r
          | READ_ALL_ACTIVE_TORQ_NODEIDS \<Rightarrow> lists_all_ids ActiveTorq past m r
          | READ_NODE_SETTINGS \<Rightarrow> r = NodeIdSettingsOut (shown_settings past (mn_NodeId m))
          | _ \<Rightarrow> False))"

text \<open>The registers of the log are the abstract directory.\<close>

definition log_directory :: "ManagedNode list \<Rightarrow> NodeDirectory" where
  "log_directory past =
     \<lparr>dir_allTorq = entered AllTorq past, dir_activeTorq = entered ActiveTorq past,
      dir_channel = entered ActiveChannel past, dir_allChannel = entered AnyChannel past,
      dir_settings = node_settings_in past, dir_names = torq_name past\<rparr>"

lemma latest_snoc: "latest p (past @ [m]) = (if accepted m \<and> p m then Some m else latest p past)"
  by (simp add: latest_def)

lemma entered_snoc:
  "entered R (past @ [m]) =
     (if accepted m \<and> mn_Type m \<in> set (writers R)
      then (entered R past)(place_of m :=
             (if mn_Type m = INACTIVATE_CHANNEL_NODE then None else Some (mn_NodeId m)))
      else entered R past)"
  by (rule ext) (simp add: entered_def latest_snoc)

lemma torq_name_snoc:
  "torq_name (past @ [m]) =
     (if accepted m \<and> is_torq_write m then (torq_name past)(mn_NodeId m := mn_Name m) else torq_name past)"
  by (rule ext) (simp add: torq_name_def latest_snoc)

lemma node_settings_in_snoc:
  "node_settings_in (past @ [m]) =
     (if accepted m then (node_settings_in past)(mn_NodeId m \<mapsto> settings_in m) else node_settings_in past)"
  by (rule ext) (simp add: node_settings_in_def latest_snoc)

lemmas log_snoc = entered_snoc torq_name_snoc node_settings_in_snoc

lemma log_directory_step: "directory_step m (log_directory past) = log_directory (past @ [m])"
proof (cases "accepted m")
  case True
  then obtain c n where cn: "mn_Chain m = Some c" "mn_Network m = Some n" by (auto simp: accepted_def)
  from True show ?thesis
    by (cases "mn_Type m"; cases "mn_Name m")
      (simp_all add: accepted_def is_node_write_def is_torq_write_def log_directory_def log_snoc cn
        place_of_def settings_in_def directory_step_def torq_node_step_def channel_node_step_def
        drop_channel_node_step_def enter_torq_def enter_known_def enter_settings_def node_settings_def)
next
  case False
  then have same: "log_directory (past @ [m]) = log_directory past"
    by (simp add: log_directory_def log_snoc)
  from False show ?thesis
    unfolding same
    by (cases "mn_Chain m"; cases "mn_Network m"; cases "mn_Type m"; cases "mn_Name m")
      (auto simp: accepted_def is_node_write_def is_torq_write_def directory_step_def
        torq_node_step_def channel_node_step_def drop_channel_node_step_def)
qed

lemma serves_log_directory:
  "serves (\<lambda>s (ords, m). processManagedNode ords s m) s0 ms s \<Longrightarrow>
   directory s0 = log_directory past \<Longrightarrow> directory s = log_directory (past @ map snd ms)"
proof (induction s0 ms s arbitrary: past rule: serves.induct)
  case (serves_Cons s0 om t r ms u)
  obtain ords m where om: "om = (ords, m)" by (cases om)
  with serves_Cons.hyps(1) have "directory t = directory_step m (directory s0)"
    by (intro directory_refinement [of ords s0 m t r]) simp
  then have "directory t = log_directory (past @ [m])"
    by (simp add: serves_Cons.prems log_directory_step)
  from serves_Cons.IH [OF this] om show ?case by simp
qed simp

lemma reached_log_directory:
  assumes "serves (\<lambda>s (ords, m). processManagedNode ords s m) emptyNodeState past s"
  shows "directory s = log_directory (map snd past)"
proof -
  have "directory emptyNodeState = log_directory []"
    by (simp add: directory_def emptyNodeState_def log_directory_def entered_def [abs_def]
        torq_name_def [abs_def] node_settings_in_def [abs_def] latest_def)
  from serves_log_directory [OF assms this] show ?thesis by simp
qed

lemma directory_fields:
  assumes "directory s = log_directory past"
  shows "flat (allTorqNodeIdCache s) = entered AllTorq past"
    and "flat (activeTorqNodeIdCache s) = entered ActiveTorq past"
    and "flat (channelNodeIdCache s) = entered ActiveChannel past"
    and "flat (allChannelNodeIdCache s) = entered AnyChannel past"
    and "nodeSettingsByNodeIdCache s = node_settings_in past"
    and "torqNodeNameByNodeIdCache s = torq_name past"
  using assms by (simp_all add: directory_def log_directory_def)

text \<open>A range over an id cache visits every matching place once.\<close>

definition key_entries :: "NodeOrders \<Rightarrow> Chain \<Rightarrow> Network \<Rightarrow> key_ids \<Rightarrow> ((Chain \<times> Network \<times> string) \<times> int) list" where
  "key_entries ords c n ids = map (\<lambda>(k, i). ((c, n, k), i)) (by_key ords ids)"

definition range_entries ::
    "NodeOrders \<Rightarrow> Chain option \<Rightarrow> Network option \<Rightarrow> id_cache \<Rightarrow> ((Chain \<times> Network \<times> string) \<times> int) list" where
  "range_entries ords chain network cache =
     concat (map (\<lambda>(c, networks).
       if chain = None \<or> chain = Some c
       then concat (map (\<lambda>(n, ids).
              if network = None \<or> network = Some n then key_entries ords c n ids else [])
            (by_network ords networks))
       else []) (by_chain ords cache))"

lemma range_distinct_keys: "range_order ord \<Longrightarrow> keys_distinct m \<Longrightarrow> distinct (map fst (ord m))"
  unfolding keys_distinct_def
  by (metis mset_eq_imp_distinct_iff mset_map range_order_def)

lemma distinct_concat_tagged:
  assumes "distinct (map fst xs)" and "\<And>x. x \<in> set xs \<Longrightarrow> distinct (g x)"
    and "\<And>x y. x \<in> set xs \<Longrightarrow> y \<in> set (g x) \<Longrightarrow> tag y = fst x"
  shows "distinct (concat (map g xs))"
  using assms
proof (induction xs)
  case (Cons x xs)
  have "set (g x) \<inter> set (concat (map g xs)) = {}"
  proof (rule ccontr)
    assume "\<not> ?thesis"
    then obtain y x' where "y \<in> set (g x)" "x' \<in> set xs" "y \<in> set (g x')" by auto
    then have "fst x' = fst x" using Cons.prems(3) by (metis list.set_intros)
    with Cons.prems(1) \<open>x' \<in> set xs\<close> show False by (auto simp: image_iff)
  qed
  then show ?case using Cons by simp
qed simp

lemma distinct_key_entries:
  assumes "range_order (by_key ords)" and "keys_distinct ids"
  shows "distinct (map fst (key_entries ords c n ids))"
proof -
  have "distinct (map (\<lambda>k. (c, n, k)) (map fst (by_key ords ids)))"
    using range_distinct_keys [OF assms] by (simp add: distinct_map inj_on_def)
  moreover have "map (\<lambda>k. (c, n, k)) (map fst (by_key ords ids)) = map fst (key_entries ords c n ids)"
    by (simp add: key_entries_def split_def)
  ultimately show ?thesis by simp
qed

lemma set_key_entries:
  assumes "range_order (by_key ords)" and "id_cache_ok cache"
  shows "(pl, i) \<in> set (key_entries ords c n (ids_of c n cache)) \<longleftrightarrow>
    flat cache pl = Some i \<and> fst pl = c \<and> fst (snd pl) = n"
  using id_cache_ok_ids [OF assms(2), of c n]
  by (cases pl) (auto simp: key_entries_def range_order_set [OF assms(1)] flat_def map_of_keys_distinct)

lemma range_entries_distinct:
  assumes orders: "range_order (by_key ords)" "range_order (by_network ords)" "range_order (by_chain ords)"
    and ok: "id_cache_ok cache"
  shows "distinct (map fst (range_entries ords chain network cache))"
proof -
  note orders_set = orders [THEN range_order_set]
  have nets: "distinct (concat (map (\<lambda>(n, ids).
      if network = None \<or> network = Some n then map fst (key_entries ords c n ids) else [])
      (by_network ords networks)))" if "(c, networks) \<in> set cache" for c networks
  proof (rule distinct_concat_tagged [where tag = "\<lambda>pl. fst (snd pl)"])
    show "distinct (map fst (by_network ords networks))"
      using ok that by (intro range_distinct_keys orders) (simp add: id_cache_ok_def)
  next
    fix x assume "x \<in> set (by_network ords networks)"
    with ok that have "keys_distinct (snd x)"
      by (cases x) (auto simp: id_cache_ok_def orders_set)
    then show "distinct (case x of (n, ids) \<Rightarrow>
        if network = None \<or> network = Some n then map fst (key_entries ords c n ids) else [])"
      by (cases x) (simp add: distinct_key_entries [OF orders(1)])
  qed (auto simp: key_entries_def split: if_splits)
  have "map fst (range_entries ords chain network cache) =
      concat (map (\<lambda>(c, networks). if chain = None \<or> chain = Some c
        then concat (map (\<lambda>(n, ids). if network = None \<or> network = Some n
               then map fst (key_entries ords c n ids) else []) (by_network ords networks))
        else []) (by_chain ords cache))"
    by (simp add: range_entries_def map_concat comp_def split_def if_distrib cong: if_cong)
  also have "distinct \<dots>"
  proof (rule distinct_concat_tagged [where tag = fst])
    show "distinct (map fst (by_chain ords cache))"
      using ok by (intro range_distinct_keys orders) (simp add: id_cache_ok_def)
  next
    fix x assume "x \<in> set (by_chain ords cache)"
    moreover obtain c networks where x: "x = (c, networks)" by (cases x)
    ultimately have "(c, networks) \<in> set cache" by (simp add: orders_set(3))
    from nets [OF this] show "distinct (case x of (c, networks) \<Rightarrow> if chain = None \<or> chain = Some c
        then concat (map (\<lambda>(n, ids). if network = None \<or> network = Some n
               then map fst (key_entries ords c n ids) else []) (by_network ords networks)) else [])"
      unfolding x by simp
  qed (auto simp: key_entries_def split: if_splits)
  finally show ?thesis .
qed

lemma range_entries_set:
  assumes orders: "range_order (by_key ords)" "range_order (by_network ords)" "range_order (by_chain ords)"
    and ok: "id_cache_ok cache"
  shows "((c, n, k), i) \<in> set (range_entries ords chain network cache) \<longleftrightarrow>
    flat cache (c, n, k) = Some i \<and> (chain = None \<or> chain = Some c) \<and> (network = None \<or> network = Some n)"
    (is "?l \<longleftrightarrow> ?r")
proof -
  note orders_set = orders [THEN range_order_set]
  have "?l \<longleftrightarrow> (chain = None \<or> chain = Some c) \<and> (network = None \<or> network = Some n) \<and>
      (\<exists>networks ids. (c, networks) \<in> set cache \<and> (n, ids) \<in> set networks \<and> (k, i) \<in> set ids)"
    unfolding range_entries_def key_entries_def by (auto simp: orders_set split: if_splits) force+
  moreover have "(\<exists>networks ids. (c, networks) \<in> set cache \<and> (n, ids) \<in> set networks \<and> (k, i) \<in> set ids) \<longleftrightarrow>
      flat cache (c, n, k) = Some i"
  proof -
    have kd: "(c, networks) \<in> set cache \<longleftrightarrow> map_of cache c = Some networks" for networks
      using ok by (simp add: id_cache_ok_def map_of_keys_distinct)
    have kd2: "(n, ids) \<in> set networks \<longleftrightarrow> map_of networks n = Some ids"
      if "map_of cache c = Some networks" for networks ids
      using id_cache_ok_networks [OF ok, of c] that by (simp add: map_of_keys_distinct)
    have kd3: "(k, i) \<in> set ids \<longleftrightarrow> map_of ids k = Some i"
      if "map_of cache c = Some networks" "map_of networks n = Some ids" for networks ids
      using id_cache_ok_ids [OF ok, of c n] that by (simp add: ids_of_def map_of_keys_distinct)
    have "flat cache (c, n, k) = Some i \<longleftrightarrow>
      (\<exists>networks ids. map_of cache c = Some networks \<and> map_of networks n = Some ids \<and> map_of ids k = Some i)"
      by (cases "map_of cache c"; cases "map_of (aget [] cache c) n") (auto simp: flat_def ids_of_def)
    with kd kd2 kd3 show ?thesis by blast
  qed
  ultimately show ?thesis by blast
qed

lemma collect_ids_entries: "collect_ids ords chain network cache = map snd (range_entries ords chain network cache)"
  by (simp add: collect_ids_def range_entries_def key_entries_def map_concat comp_def split_def if_distrib
      cong: if_cong)

text \<open>A list of entries that is complete and visits no place twice answers as the log says.\<close>

lemma entries_places:
  assumes "distinct (map fst es)"
    and "\<And>c n k i. ((c, n, k), i) \<in> set es \<longleftrightarrow> entered R past (c, n, k) = Some i \<and>
           (chain = None \<or> chain = Some c) \<and> (network = None \<or> network = Some n)"
  shows "lists_places R past chain network (map fst es)" and "map snd es = ids_at R past (map fst es)"
proof -
  show "lists_places R past chain network (map fst es)"
    unfolding lists_places_def
  proof
    show "set (map fst es) = {(c, n, k). entered R past (c, n, k) \<noteq> None \<and>
       (chain = None \<or> chain = Some c) \<and> (network = None \<or> network = Some n)}"
      (is "_ = ?P")
    proof (intro set_eqI iffI)
      fix pl assume "pl \<in> set (map fst es)"
      then obtain q where q: "q \<in> set es" "pl = fst q" by auto
      obtain c n k i where "q = ((c, n, k), i)" by (metis prod_cases3 surj_pair)
      with q have "pl = (c, n, k)" "((c, n, k), i) \<in> set es" by simp_all
      with assms(2) [of c n k i] show "pl \<in> ?P" by auto
    next
      fix pl assume "pl \<in> ?P"
      then obtain c n k i where pl: "pl = (c, n, k)" and "((c, n, k), i) \<in> set es"
        using assms(2) by (cases pl) auto
      from this(2) have "(c, n, k) \<in> fst ` set es" by (rule rev_image_eqI) simp
      with pl show "pl \<in> set (map fst es)" by simp
    qed
  qed (rule assms(1))
  show "map snd es = ids_at R past (map fst es)"
    unfolding ids_at_def map_map by (rule map_cong [OF refl]) (use assms(2) in \<open>auto simp: comp_def\<close>)
qed

lemma answered_all_ids:
  fixes ords :: NodeOrders
  assumes orders: "range_order (by_key ords)" "range_order (by_network ords)" "range_order (by_chain ords)"
    and ok: "id_cache_ok cache" and fl: "flat cache = entered R past"
  shows "\<exists>places. lists_places R past chain network places \<and>
    collect_ids ords chain network cache = ids_at R past places"
  using entries_places [of "range_entries ords chain network cache" R past chain network]
    range_entries_distinct [OF orders ok] range_entries_set [OF orders ok]
  unfolding fl collect_ids_entries by blast

lemma answered_keys:
  fixes ords :: NodeOrders
  assumes order: "range_order (by_key ords)" and ok: "id_cache_ok cache" and fl: "flat cache = entered R past"
  shows "\<exists>places. lists_places R past (Some c) (Some n) places \<and>
    map snd (by_key ords (ids_of c n cache)) = ids_at R past places \<and>
    map fst (by_key ords (ids_of c n cache)) = map (\<lambda>(c, n, k). k) places"
proof -
  let ?es = "key_entries ords c n (ids_of c n cache)"
  have "distinct (map fst ?es)" using distinct_key_entries [OF order] id_cache_ok_ids [OF ok] by blast
  moreover have "((c', n', k), i) \<in> set ?es \<longleftrightarrow> entered R past (c', n', k) = Some i \<and>
      (Some c = None \<or> Some c = Some c') \<and> (Some n = None \<or> Some n = Some n')" for c' n' k i
    unfolding set_key_entries [OF order ok] fl by auto
  ultimately have "lists_places R past (Some c) (Some n) (map fst ?es)" "map snd ?es = ids_at R past (map fst ?es)"
    by (rule entries_places)+
  moreover have "map snd ?es = map snd (by_key ords (ids_of c n cache))"
    "map (\<lambda>(c, n, k). k) (map fst ?es) = map fst (by_key ords (ids_of c n cache))"
    by (simp_all add: key_entries_def comp_def split_def)
  ultimately show ?thesis by metis
qed

text \<open>Each kind of read answers as the log says, once its cache is the register.\<close>

lemma readNode_answers:
  assumes "readNode get put named m s = Served t r" and "flat (get s) = entered R past"
    and "torqNodeNameByNodeIdCache s = torq_name past"
  shows "r = Some (one_node R named past m)"
proof (cases "mn_Chain m = None \<or> mn_Network m = None")
  case True
  with assms(1) show ?thesis
    by (cases "mn_Chain m"; cases "mn_Network m") (simp_all add: readNode_def one_node_def)
next
  case False
  then obtain c n where cn: "mn_Chain m = Some c" "mn_Network m = Some n" by auto
  then have "aget 0 (ids_of c n (get s)) (mn_PublicKey m) = id_at R past m"
    unfolding flat_ids_of assms(2) by (simp add: id_at_def place_of_def mget_def)
  with assms(1) cn show ?thesis
    by (cases "torq_name past (id_at R past m)")
      (auto simp: readNode_def one_node_def Let_def assms(3))
qed

lemma readNodeIds_answers:
  assumes "readNodeIds ords get put m s = Served t r" and "flat (get s) = entered R past"
    and "range_order (by_key ords)" and "id_cache_ok (get s)"
  shows "\<exists>q. r = Some q \<and> lists_ids R past m q"
  using assms(1) answered_keys [OF assms(3,4,2), of "the (mn_Chain m)" "the (mn_Network m)"]
  by (cases "mn_Chain m"; cases "mn_Network m") (auto simp: readNodeIds_def lists_ids_def Let_def)

lemma readPublicKeys_answers:
  assumes "readPublicKeys ords get put m s = Served t r" and "flat (get s) = entered R past"
    and "range_order (by_key ords)" and "id_cache_ok (get s)"
  shows "\<exists>q. r = Some q \<and> lists_keys R past m q"
  using assms(1) answered_keys [OF assms(3,4,2), of "the (mn_Chain m)" "the (mn_Network m)"]
  by (cases "mn_Chain m"; cases "mn_Network m") (auto simp: readPublicKeys_def lists_keys_def Let_def)

lemma readAllActive_answers:
  assumes "readAllActiveTorqNodeIds ords m s = Served t r" and "flat (activeTorqNodeIdCache s) = entered R past"
    and orders: "range_order (by_key ords)" "range_order (by_network ords)" "range_order (by_chain ords)"
    and ok: "id_cache_ok (activeTorqNodeIdCache s)"
  shows "\<exists>q. r = Some q \<and> lists_all_ids R past m q"
  using assms(1)
    answered_keys [OF orders(1) ok assms(2), of "the (mn_Chain m)" "the (mn_Network m)"]
    answered_all_ids [OF orders ok assms(2), of "mn_Chain m" "mn_Network m"]
  by (cases "mn_Chain m"; cases "mn_Network m")
    (auto simp: readAllActiveTorqNodeIds_def lists_all_ids_def Let_def)

lemma readNodeSettings_answers:
  assumes "readNodeSettings m s = Served t r" and "nodeSettingsByNodeIdCache s = node_settings_in past"
    and "torqNodeNameByNodeIdCache s = torq_name past"
  shows "r = Some (NodeIdSettingsOut (shown_settings past (mn_NodeId m)))"
  using assms
  by (auto simp: readNodeSettings_def shown_settings_def Let_def mget_def split: if_splits option.splits)

lemma node_write_silent:
  assumes "processManagedNode ords s m = Served t r" and "is_node_write (mn_Type m)"
  shows "r = None"
  using assms
  by (auto simp: is_node_write_def processManagedNode_def writeTorqNode_def writeChannelNode_def
      inactivateChannelNode_def Let_def split: option.splits if_splits)

section \<open>Properties\<close>

text \<open>
  C4: whatever requests the node cache has served, its answer to the next one is the one the list
  of those requests determines: a question for one node gets the id of the latest accepted request
  that wrote the place (chain, network, key) in the register the question is about, or 0 when there
  is none or the place was inactivated since, and for a Torq node the name given last; a question
  for ids or keys gets those of all occupied places of its register, each place once, in some
  order; the settings are those of the latest accepted request with that id, under the name given
  last to it as a Torq node; a write answers nothing.
\<close>

theorem node_cache_refines_directory:
  assumes "serves (\<lambda>s (ords, m). processManagedNode ords s m) emptyNodeState past s"
    and "range_order (by_key ords)" "range_order (by_network ords)" "range_order (by_chain ords)"
    and "processManagedNode ords s m = Served t r"
  shows "answers_log (map snd past) m r"
proof -
  note log = directory_fields [OF reached_log_directory [OF assms(1)]]
  have "node_state_ok s" using assms(1) by (rule node_cache.invar_reachable)
  then have ok: "id_cache_ok (allTorqNodeIdCache s)" "id_cache_ok (activeTorqNodeIdCache s)"
      "id_cache_ok (channelNodeIdCache s)" "id_cache_ok (allChannelNodeIdCache s)"
    by (simp_all add: node_state_ok_def id_caches_ok_def)
  note one =
    readNode_answers [where get = allTorqNodeIdCache, OF _ log(1,6)]
    readNode_answers [where get = activeTorqNodeIdCache, OF _ log(2,6)]
    readNode_answers [where get = channelNodeIdCache, OF _ log(3,6)]
    readNode_answers [where get = allChannelNodeIdCache, OF _ log(4,6)]
  note ids =
    readNodeIds_answers [where get = allTorqNodeIdCache, OF _ log(1) assms(2) ok(1)]
    readNodeIds_answers [where get = activeTorqNodeIdCache, OF _ log(2) assms(2) ok(2)]
    readNodeIds_answers [where get = allChannelNodeIdCache, OF _ log(4) assms(2) ok(4)]
  note keys =
    readPublicKeys_answers [where get = allTorqNodeIdCache, OF _ log(1) assms(2) ok(1)]
    readPublicKeys_answers [where get = activeTorqNodeIdCache, OF _ log(2) assms(2) ok(2)]
    readPublicKeys_answers [where get = allChannelNodeIdCache, OF _ log(4) assms(2) ok(4)]
  note all = readAllActive_answers [OF _ log(2) assms(2-4) ok(2)]
  note settings = readNodeSettings_answers [OF _ log(5,6)]
  show ?thesis
  proof (cases "is_node_write (mn_Type m)")
    case True
    with node_write_silent [OF assms(5)] show ?thesis by (simp add: answers_log_def)
  next
    case False
    with assms(5) show ?thesis
      unfolding processManagedNode_def answers_log_def is_node_write_def
      by (cases "mn_Type m"; simp only: ManagedNodeCacheOperationType.case)
        (auto dest!: one ids keys all settings)
  qed
qed

theorem node_cache_refines_directory_witness:
  "\<exists>s t r. serves (\<lambda>s (ords, m). processManagedNode ords s m) emptyNodeState
         [(\<lparr>by_key = id, by_network = id, by_chain = id\<rparr>, (nodeRequest WRITE_ACTIVE_CHANNEL_NODE)
            \<lparr>mn_NodeId := 5, mn_PublicKey := ''pk'', mn_Chain := Some Bitcoin, mn_Network := Some MainNet\<rparr>)] s \<and>
       processManagedNode \<lparr>by_key = rev, by_network = rev, by_chain = rev\<rparr> s
         ((nodeRequest READ_CHANNEL_NODE)
            \<lparr>mn_PublicKey := ''pk'', mn_Chain := Some Bitcoin, mn_Network := Some MainNet, mn_Out := True\<rparr>)
         = Served t (Some (NodeOut r)) \<and> mn_NodeId r = 5"
proof -
  let ?o = "\<lparr>by_key = rev, by_network = rev, by_chain = rev\<rparr> :: NodeOrders"
  let ?m = "(nodeRequest WRITE_ACTIVE_CHANNEL_NODE)
    \<lparr>mn_NodeId := 5, mn_PublicKey := ''pk'', mn_Chain := Some Bitcoin, mn_Network := Some MainNet\<rparr>"
  let ?q = "(nodeRequest READ_CHANNEL_NODE)
    \<lparr>mn_PublicKey := ''pk'', mn_Chain := Some Bitcoin, mn_Network := Some MainNet, mn_Out := True\<rparr>"
  let ?ms = "[(\<lparr>by_key = id, by_network = id, by_chain = id\<rparr> :: NodeOrders, ?m)]"
  obtain s where s: "serves (\<lambda>s (ords, m). processManagedNode ords s m) emptyNodeState ?ms s"
    by (simp add: processManagedNode_def writeChannelNode_def Let_def)
  obtain t r where t: "processManagedNode ?o s ?q = Served t r"
    by (simp add: processManagedNode_def readNode_def Let_def)
  have "answers_log (map snd ?ms) ?q r"
    by (rule node_cache_refines_directory [OF s _ _ _ t]) simp_all
  then have "r = Some (NodeOut (?q\<lparr>mn_NodeId := 5\<rparr>))"
    by (simp add: answers_log_def one_node_def id_at_def entered_def latest_def place_of_def accepted_def
        is_node_write_def is_torq_write_def split: option.splits)
  with s t show ?thesis by auto
qed

text \<open>
  after any sequence of requests the registers of the node cache are consistent: active Torq
  nodes are Torq nodes, Torq nodes and active channel nodes are channel nodes, no register leads
  to id 0, and settings are stored under their own id.
\<close>

lemma node_cache_invariant:
  "serves (\<lambda>s (ords, m). processManagedNode ords s m) emptyNodeState ms t \<Longrightarrow> directory_ok (directory t)"
  using node_cache.invar_reachable by (simp add: node_state_ok_def)

lemma node_cache_invariant_witness:
  "\<exists>t. serves (\<lambda>s (ords, m). processManagedNode ords s m) emptyNodeState
         [(\<lparr>by_key = rev, by_network = rev, by_chain = rev\<rparr>, (nodeRequest WRITE_ACTIVE_CHANNEL_NODE)
            \<lparr>mn_NodeId := 5, mn_PublicKey := ''pk'', mn_Chain := Some Bitcoin, mn_Network := Some MainNet\<rparr>)] t \<and>
       directory_ok (directory t)"
proof -
  let ?ms = "[(\<lparr>by_key = rev, by_network = rev, by_chain = rev\<rparr>, (nodeRequest WRITE_ACTIVE_CHANNEL_NODE)
    \<lparr>mn_NodeId := 5, mn_PublicKey := ''pk'', mn_Chain := Some Bitcoin, mn_Network := Some MainNet\<rparr>)]"
  have "\<exists>t. serves (\<lambda>s (ords, m). processManagedNode ords s m) emptyNodeState ?ms t"
    by (simp add: processManagedNode_def writeChannelNode_def Let_def)
  then show ?thesis using node_cache_invariant [of ?ms] by blast
qed

text \<open>What the clients read, in terms of the directory.\<close>

lemma node_cache_reads:
  "GetNodeIdByPublicKey ords s k c n = Some (mget 0 (dir_allChannel (directory s)) (c, n, k))"
  "GetActiveNodeIdByPublicKey ords s k c n = Some (mget 0 (dir_channel (directory s)) (c, n, k))"
  by (simp_all add: GetNodeIdByPublicKey_def GetActiveNodeIdByPublicKey_def processManagedNode_def
      readNode_def Let_def directory_def flat_ids_of)

lemma node_settings_read:
  "i \<noteq> 0 \<Longrightarrow> GetNodeSettingsByNodeId ords s i = Some
     (case dir_names (directory s) i of
        Some name \<Rightarrow> (mget zeroNodeSettings (dir_settings (directory s)) i)\<lparr>mns_Name := Some name\<rparr>
      | None \<Rightarrow> mget zeroNodeSettings (dir_settings (directory s)) i)"
  by (simp add: GetNodeSettingsByNodeId_def processManagedNode_def readNodeSettings_def directory_def Let_def
      split: option.splits)

lemma collect_ids_set:
  assumes "range_order (by_key ords)" "range_order (by_network ords)" "range_order (by_chain ords)"
    and "id_cache_ok cache"
  shows "i \<in> set (collect_ids ords chain network cache) \<longleftrightarrow>
    (\<exists>c n k. flat cache (c, n, k) = Some i \<and> (chain = None \<or> chain = Some c) \<and>
             (network = None \<or> network = Some n))"
    (is "?l \<longleftrightarrow> ?r")
proof -
  note orders = assms(1-3) [THEN range_order_set]
  have "?l \<longleftrightarrow> (\<exists>c networks. (c, networks) \<in> set cache \<and> (chain = None \<or> chain = Some c) \<and>
      (\<exists>n ids. (n, ids) \<in> set networks \<and> (network = None \<or> network = Some n) \<and> i \<in> snd ` set ids))"
    unfolding collect_ids_def
    by (auto simp: orders split: if_splits) force+
  also have "\<dots> \<longleftrightarrow> ?r"
  proof -
    have kd: "(c, networks) \<in> set cache \<longleftrightarrow> map_of cache c = Some networks" for c networks
      using assms(4) by (simp add: id_cache_ok_def map_of_keys_distinct)
    have kd2: "(n, ids) \<in> set networks \<longleftrightarrow> map_of networks n = Some ids" if "map_of cache c = Some networks" for c networks n ids
      using id_cache_ok_networks [OF assms(4), of c] that by (simp add: map_of_keys_distinct)
    have kd3: "i \<in> snd ` set ids \<longleftrightarrow> (\<exists>k. map_of ids k = Some i)"
      if "map_of cache c = Some networks" "map_of networks n = Some ids" for c networks n ids
      using id_cache_ok_ids [OF assms(4), of c n] that by (force simp: ids_of_def map_of_keys_distinct)
    have fl: "flat cache (c, n, k) = Some i \<longleftrightarrow>
      (\<exists>networks ids. map_of cache c = Some networks \<and> map_of networks n = Some ids \<and> map_of ids k = Some i)"
      for c n k
      by (cases "map_of cache c"; cases "map_of (aget [] cache c) n") (auto simp: flat_def ids_of_def)
    show ?thesis unfolding kd fl using kd2 kd3 by blast
  qed
  finally show ?thesis .
qed

text \<open>
  the ids of the active Torq nodes reported for a chain and a network, either of which may be
  left open, are exactly those of the matching entries of the active register, in any range order.
\<close>

lemma GetAllActiveTorqNodeIds_spec:
  assumes "range_order (by_key ords)" "range_order (by_network ords)" "range_order (by_chain ords)"
    and "node_state_ok s"
  shows "\<exists>ids. GetAllActiveTorqNodeIds ords s chain network = Some ids \<and>
    (\<forall>i. i \<in> set ids \<longleftrightarrow>
       (\<exists>c n k. dir_activeTorq (directory s) (c, n, k) = Some i \<and>
          (chain = None \<or> chain = Some c) \<and> (network = None \<or> network = Some n)))"
proof -
  have ok: "id_cache_ok (activeTorqNodeIdCache s)"
    using assms(4) by (simp add: node_state_ok_def id_caches_ok_def)
  have both: "i \<in> snd ` set (ids_of c n (activeTorqNodeIdCache s)) \<longleftrightarrow>
      (\<exists>k. flat (activeTorqNodeIdCache s) (c, n, k) = Some i)" for i c n
    using id_cache_ok_ids [OF ok, of c n] by (force simp: flat_def map_of_keys_distinct)
  show ?thesis
    unfolding GetAllActiveTorqNodeIds_def
    by (cases chain; cases network)
      (simp_all add: processManagedNode_def readAllActiveTorqNodeIds_def directory_def Let_def both
        collect_ids_set [OF assms(1-3) ok] range_order_set [OF assms(1)])
qed

text \<open>A cache with one active Torq node, the running example of this theory.\<close>

abbreviation "idOrders \<equiv> \<lparr>by_key = (\<lambda>m. m), by_network = (\<lambda>m. m), by_chain = (\<lambda>m. m)\<rparr>"

lemma example_torq_node:
  obtains t where "SetTorqNode idOrders 9 ''torq'' Active ''pk'' Bitcoin MainNet emptyNodeState = Served t None"
    and "node_state_ok t" and "dir_activeTorq (directory t) = [(Bitcoin, MainNet, ''pk'') \<mapsto> 9]"
proof -
  obtain t where t: "SetTorqNode idOrders 9 ''torq'' Active ''pk'' Bitcoin MainNet emptyNodeState = Served t None"
    by (simp add: SetTorqNode_def processManagedNode_def writeTorqNode_def Let_def)
  then have step: "processManagedNode idOrders emptyNodeState ((nodeRequest WRITE_ACTIVE_TORQ_NODE)
      \<lparr>mn_NodeId := 9, mn_Chain := Some Bitcoin, mn_Network := Some MainNet,
       mn_PublicKey := ''pk'', mn_Name := Some ''torq''\<rparr>) = Served t None"
    by (simp add: SetTorqNode_def)
  then have "node_state_ok t" using node_cache.invar_serve [OF node_cache.invar_init, of "(idOrders, _)"] by simp
  moreover have "dir_activeTorq (directory t) = [(Bitcoin, MainNet, ''pk'') \<mapsto> 9]"
    unfolding directory_refinement [OF step] by (simp add: directory_defs emptyNodeState_def)
  ultimately show ?thesis using t that by blast
qed

lemma GetAllActiveTorqNodeIds_spec_witness:
  "\<exists>s ids. GetAllActiveTorqNodeIds idOrders s (Some Bitcoin) None = Some ids \<and> 9 \<in> set ids"
proof -
  obtain t where t: "node_state_ok t" "dir_activeTorq (directory t) = [(Bitcoin, MainNet, ''pk'') \<mapsto> 9]"
    by (rule example_torq_node)
  from GetAllActiveTorqNodeIds_spec [of idOrders t "Some Bitcoin" None] t show ?thesis
    by fastforce
qed

lemma SetTorqNode_directory:
  assumes "SetTorqNode ords i name status key c n s = Served t r"
    and "i \<noteq> 0" and "name \<noteq> []" and "key \<noteq> []"
  shows "directory t =
     (let active = (status = Active); at = (c, n, key) in
      (enter_known active at i (enter_torq active at i name (directory s)))
        \<lparr>dir_settings := (dir_settings (directory s))(i \<mapsto>
          \<lparr>mns_NodeId = i, mns_Chain = c, mns_Network = n, mns_PublicKey = key,
           mns_Name = Some name, mns_Status = Inactive\<rparr>)\<rparr>)"
  using assms directory_refinement
  unfolding SetTorqNode_def Let_def
  by (cases "status = Active")
    (simp_all add: directory_step_def torq_node_step_def enter_settings_def node_settings_def
      enter_known_def enter_torq_def)

text \<open>
  after a Torq node is registered its id is found by its public key and its settings carry
  its key and name; an active node is also an active channel node.  The stored status is
  \<open>Inactive\<close> whatever status was passed.
\<close>

lemma SetTorqNode_read_back:
  assumes "SetTorqNode ords i name status key c n s = Served t r"
    and "i \<noteq> 0" and "name \<noteq> []" and "key \<noteq> []"
  shows "GetNodeIdByPublicKey ords t key c n = Some i \<and>
    GetNodeSettingsByNodeId ords t i = Some
      \<lparr>mns_NodeId = i, mns_Chain = c, mns_Network = n, mns_PublicKey = key,
       mns_Name = Some name, mns_Status = Inactive\<rparr> \<and>
    GetActiveNodeIdByPublicKey ords t key c n =
      (if status = Active then Some i else GetActiveNodeIdByPublicKey ords s key c n)"
  using assms(2)
  by (simp add: node_cache_reads node_settings_read SetTorqNode_directory [OF assms] Let_def
      enter_known_def enter_torq_def)

lemma SetTorqNode_read_back_witness:
  "\<exists>t. SetTorqNode idOrders 9 ''torq'' Active ''pk'' Bitcoin MainNet emptyNodeState = Served t None \<and>
     GetNodeIdByPublicKey idOrders t ''pk'' Bitcoin MainNet = Some 9"
proof -
  obtain t where t: "SetTorqNode idOrders 9 ''torq'' Active ''pk'' Bitcoin MainNet emptyNodeState = Served t None"
    by (rule example_torq_node)
  from SetTorqNode_read_back [OF t] t show ?thesis by simp
qed

text \<open>
  registering a Torq node with any other status does not take it off the list of active Torq
  nodes: the reported active ids stay as they were, so a node that was active is still reported.
\<close>

lemma SetTorqNode_inactive_stays_active:
  assumes "status \<noteq> Active" and "SetTorqNode ords i name status key c n s = Served t r"
  shows "GetAllActiveTorqNodeIds ords t chain network = GetAllActiveTorqNodeIds ords s chain network"
proof -
  have "activeTorqNodeIdCache t = activeTorqNodeIdCache s"
    using assms by (auto simp: SetTorqNode_def processManagedNode_def writeTorqNode_def Let_def split: if_splits)
  then show ?thesis
    by (cases chain; cases network)
      (simp_all add: GetAllActiveTorqNodeIds_def processManagedNode_def readAllActiveTorqNodeIds_def Let_def)
qed

lemma SetTorqNode_inactive_stays_active_witness:
  "\<exists>s t. SetTorqNode idOrders 9 ''torq'' Inactive ''pk'' Bitcoin MainNet s = Served t None \<and>
     (\<exists>ids. GetAllActiveTorqNodeIds idOrders t None None = Some ids \<and> 9 \<in> set ids)"
proof -
  obtain s where s: "node_state_ok s" "dir_activeTorq (directory s) = [(Bitcoin, MainNet, ''pk'') \<mapsto> 9]"
    by (rule example_torq_node)
  obtain t where t: "SetTorqNode idOrders 9 ''torq'' Inactive ''pk'' Bitcoin MainNet s = Served t None"
    by (simp add: SetTorqNode_def processManagedNode_def writeTorqNode_def Let_def)
  have ok: "id_cache_ok (activeTorqNodeIdCache s)" and fl: "flat (activeTorqNodeIdCache s) = [(Bitcoin, MainNet, ''pk'') \<mapsto> 9]"
    using s by (simp_all add: node_state_ok_def id_caches_ok_def directory_def)
  have "9 \<in> set (collect_ids idOrders None None (activeTorqNodeIdCache s))"
    using collect_ids_set [of idOrders "activeTorqNodeIdCache s" 9 None None] ok fl by simp
  then have "\<exists>ids. GetAllActiveTorqNodeIds idOrders s None None = Some ids \<and> 9 \<in> set ids"
    by (simp add: GetAllActiveTorqNodeIds_def processManagedNode_def readAllActiveTorqNodeIds_def)
  with t SetTorqNode_inactive_stays_active [OF _ t] show ?thesis by (metis Status.distinct(1))
qed

text \<open>
  inactivating a channel node removes exactly its key from the active channel nodes.  The
  message carries no node id, so the settings written are those of node 0 and the settings of the
  inactivated node, its status included, stay as they were.
\<close>

lemma InactivateChannelNode_effect:
  assumes "InactivateChannelNode ords key c n s = Served t r" and "key \<noteq> []"
  shows "GetActiveNodeIdByPublicKey ords t key c n = Some 0 \<and>
    (\<forall>k d e. (k, d, e) \<noteq> (key, c, n) \<longrightarrow>
       GetActiveNodeIdByPublicKey ords t k d e = GetActiveNodeIdByPublicKey ords s k d e) \<and>
    (\<forall>k d e. GetNodeIdByPublicKey ords t k d e = GetNodeIdByPublicKey ords s k d e) \<and>
    (\<forall>i. i \<noteq> 0 \<longrightarrow> GetNodeSettingsByNodeId ords t i = GetNodeSettingsByNodeId ords s i)"
proof -
  have "directory t = (directory s)
      \<lparr>dir_channel := (dir_channel (directory s))((c, n, key) := None),
       dir_settings := (dir_settings (directory s))(0 \<mapsto>
         \<lparr>mns_NodeId = 0, mns_Chain = c, mns_Network = n, mns_PublicKey = key,
          mns_Name = None, mns_Status = Inactive\<rparr>)\<rparr>"
    using assms directory_refinement
    by (fastforce simp: InactivateChannelNode_def directory_step_def drop_channel_node_step_def
        enter_settings_def node_settings_def)
  then show ?thesis by (auto simp: node_cache_reads node_settings_read mget_def split: option.splits)
qed

lemma InactivateChannelNode_effect_witness:
  "\<exists>t. InactivateChannelNode idOrders ''pk'' Bitcoin MainNet emptyNodeState = Served t None \<and>
     GetActiveNodeIdByPublicKey idOrders t ''pk'' Bitcoin MainNet = Some 0"
proof -
  obtain t where t: "InactivateChannelNode idOrders ''pk'' Bitcoin MainNet emptyNodeState = Served t None"
    by (simp add: InactivateChannelNode_def processManagedNode_def inactivateChannelNode_def)
  from InactivateChannelNode_effect [OF t] t show ?thesis by simp
qed

end
