(* ===== verification/Events.thy ===== *)
theory Events
  imports Constants
begin

text \<open>
  The event and request types of \<open>src/pkg/commons/events.go\<close>.  A Go struct that embeds
  \<open>EventData\<close> is a record that extends it.  Of the enumerations of LND's API only the constants
  the source names are distinguished; every other value is kept by its number.
\<close>

type_synonym bytes = "8 word list"

section \<open>Enumerations of the LND interface\<close>

datatype ChannelEventUpdateType =
    OPEN_CHANNEL | CLOSED_CHANNEL | ACTIVE_CHANNEL | INACTIVE_CHANNEL | PENDING_OPEN_CHANNEL
  | FULLY_RESOLVED_CHANNEL | OtherChannelEvent int

datatype InvoiceState = SETTLED | OtherInvoiceState int

datatype PeerEventType = PEER_ONLINE | PEER_OFFLINE | OtherPeerEvent int

datatype PaymentStatus = IN_FLIGHT | SUCCEEDED | FAILED | OtherPaymentStatus int

datatype PaymentFailureReason =
  FAILURE_REASON_NONE | FAILURE_REASON_TIMEOUT | FAILURE_REASON_NO_ROUTE | OtherFailureReason int

section \<open>Events\<close>

record EventData =
  ev_EventTime :: time
  ev_NodeId :: int

record GraphEventData = EventData +
  ged_EventNodeId :: "int option"
  ged_AnnouncingNodeId :: "int option"
  ged_ConnectingNodeId :: "int option"
  ged_ChannelId :: "int option"

record NodeGraphEventData =
  nged_Alias :: string
  nged_Color :: string
  nged_Addresses :: string
  nged_Features :: string

record ChannelGraphEventData =
  cged_Disabled :: bool
  cged_TimeLockDelta :: uint32
  cged_MinHtlcMsat :: uint64
  cged_MaxHtlcMsat :: uint64
  cged_FeeBaseMsat :: uint64
  cged_FeeRateMilliMsat :: uint64

record ServiceEvent = EventData +
  se_Type :: ServiceType
  se_SubscriptionStream :: "SubscriptionStream option"
  se_Status :: Status
  se_PreviousStatus :: Status

record NodeGraphEvent = GraphEventData +
  nge_Data :: NodeGraphEventData
  nge_PreviousEventTime :: time
  nge_PreviousEventData :: NodeGraphEventData

record ChannelGraphEvent = GraphEventData +
  cge_Data :: ChannelGraphEventData
  cge_PreviousEventTime :: time
  cge_PreviousEventData :: ChannelGraphEventData

record TransactionEvent = EventData +
  te_Timestamp :: time
  te_TransactionHash :: "string option"
  te_Amount :: "int64 option"
  te_NumberOfConfirmations :: "32 word option"
  te_BlockHash :: "string option"
  te_BlockHeight :: "32 word option"
  te_TotalFees :: "int64 option"
  te_DestinationAddresses :: "string list option"
  te_RawTransactionHex :: "string option"
  te_Label :: "string option"

record ChannelEvent = EventData +
  ce_Type :: ChannelEventUpdateType
  ce_ChannelId :: int

record InvoiceEvent = EventData +
  ie_ChannelId :: int
  ie_AddIndex :: uint64
  ie_ValueMSat :: uint64
  ie_State :: InvoiceState
  ie_AmountPaidMsat :: uint64
  ie_SettledDate :: time
  ie_DestinationNodeId :: "int option"

record PeerEvent = EventData +
  pe_Type :: PeerEventType
  pe_EventNodeId :: int

record PaymentEvent = EventData +
  pay_AmountPaid :: int64
  pay_FeeMsat :: uint64
  pay_PaymentStatus :: PaymentStatus
  pay_PaymentFailureReason :: PaymentFailureReason
  pay_OutgoingChannelId :: "int option"
  pay_RebalanceAmountMsat :: "uint64 option"
  pay_IncomingChannelId :: "int option"

record BlockEvent = EventData +
  be_Height :: uint32
  be_Hash :: bytes

record HtlcEvent = EventData +
  he_Timestamp :: time
  he_Data :: string
  he_EventOrigin :: "string option"
  he_EventType :: "string option"
  he_OutgoingHtlcId :: "uint64 option"
  he_IncomingHtlcId :: "uint64 option"
  he_TimestampNs :: "uint64 option"
  he_IncomingAmtMsat :: "uint64 option"
  he_OutgoingAmtMsat :: "uint64 option"
  he_IncomingTimelock :: "uint32 option"
  he_OutgoingTimelock :: "uint32 option"
  he_BoltFailureCode :: "string option"
  he_BoltFailureString :: "string option"
  he_LndFailureDetail :: "string option"
  he_OutgoingChannelId :: "int option"
  he_IncomingChannelId :: "int option"

record ForwardEvent = EventData +
  fe_Timestamp :: time
  fe_FeeMsat :: uint64
  fe_AmountInMsat :: uint64
  fe_AmountOutMsat :: uint64
  fe_OutgoingChannelId :: "int option"
  fe_IncomingChannelId :: "int option"

section \<open>Requests and responses\<close>

record FailedRequest =
  fr_Reason :: string
  fr_Error :: string

record ChannelPoint =
  cp_TxId :: bytes
  cp_OutputIndex :: uint32

record OpenChannelRequest =
  ocr_NodeId :: int
  ocr_SatPerVbyte :: "uint64 option"
  ocr_NodePubKey :: string
  ocr_Host :: "string option"
  ocr_LocalFundingAmount :: int64
  ocr_PushSat :: "int64 option"
  ocr_TargetConf :: "32 word option"
  ocr_Private :: "bool option"
  ocr_MinHtlcMsat :: "uint64 option"
  ocr_RemoteCsvDelay :: "uint32 option"
  ocr_MinConfs :: "32 word option"
  ocr_SpendUnconfirmed :: "bool option"
  ocr_CloseAddress :: "string option"

record OpenChannelResponse =
  ocs_ReqId :: string
  ocs_Request :: OpenChannelRequest
  ocs_Status :: ChannelStatus
  ocs_ChannelPoint :: string
  ocs_PendingChannelPoint :: string

record CloseChannelRequest =
  ccr_NodeId :: int
  ccr_ChannelId :: int
  ccr_Force :: "bool option"
  ccr_TargetConf :: "32 word option"
  ccr_DeliveryAddress :: "string option"
  ccr_SatPerVbyte :: "uint64 option"

record CloseChannelStatus =
  ccst_ClosingTxId :: bytes
  ccst_Success :: bool

record CloseChannelResponse =
  ccs_ReqId :: string
  ccs_Request :: CloseChannelRequest
  ccs_Status :: ChannelStatus
  ccs_ClosePendingChannelPoint :: ChannelPoint
  ccs_CloseChannelStatus :: CloseChannelStatus

record NewAddressRequest =
  nar_NodeId :: int
  nar_Type :: "32 word"
  nar_Account :: string

record NewPaymentRequest =
  npr_NodeId :: int
  npr_Invoice :: "string option"
  npr_TimeOutSecs :: "32 word"
  npr_Dest :: "string option"
  npr_AmtMSat :: "int64 option"
  npr_FeeLimitMsat :: "int64 option"
  npr_AllowSelfPayment :: "bool option"

record MppRecord =
  mpp_PaymentAddr :: string
  mpp_TotalAmtMsat :: int64

record Hops =
  hop_ChanId :: string
  hop_Expiry :: uint32
  hop_AmtToForwardMsat :: int64
  hop_PubKey :: string
  hop_MppRecord :: MppRecord

record Route =
  rt_TotalTimeLock :: uint32
  rt_Hops :: "Hops list"
  rt_TotalAmtMsat :: int64

record FailureDetails =
  fd_Reason :: string
  fd_FailureSourceIndex :: uint32
  fd_Height :: uint32

record PayOnChainRequest =
  poc_NodeId :: int
  poc_Address :: string
  poc_AmountSat :: int64
  poc_TargetConf :: "32 word option"
  poc_SatPerVbyte :: "uint64 option"
  poc_SendAll :: "bool option"
  poc_Label :: "string option"
  poc_MinConfs :: "32 word option"
  poc_SpendUnconfirmed :: "bool option"

record UpdateChannelRequest =
  ucr_NodeId :: int
  ucr_ChannelId :: "int option"
  ucr_FeeRateMilliMsat :: "uint64 option"
  ucr_FeeBaseMsat :: "uint64 option"
  ucr_MaxHtlcMsat :: "uint64 option"
  ucr_MinHtlcMsat :: "uint64 option"
  ucr_TimeLockDelta :: "uint32 option"

record UpdateChannelResponse =
  ucs_Request :: UpdateChannelRequest
  ucs_Status :: Status
  ucs_FailedUpdates :: "FailedRequest list"

record BatchOpenChannel =
  boc_NodePubkey :: string
  boc_LocalFundingAmount :: int64
  boc_PushSat :: "int64 option"
  boc_Private :: "bool option"
  boc_MinHtlcMsat :: "uint64 option"

record BatchOpenRequest =
  bor_NodeId :: int
  bor_Channels :: "BatchOpenChannel list"
  bor_TargetConf :: "32 word option"
  bor_SatPerVbyte :: "int64 option"

record PendingChannel =
  pch_PendingChannelPoint :: string

record BatchOpenResponse =
  bos_PendingChannels :: "PendingChannel list"

end
