(* ===== verification/ManagedChannelState.thy ===== *)
theory ManagedChannelState
  imports Events ManagedChannel
begin

text \<open>
  The channel state cache, \<open>src/pkg/commons/managedChannelState.go\<close>: for each Torq node the
  balances, routing policies and pending HTLCs of its channels, the status of the node's data and
  when that was last deactivated.  The step is \<open>processManagedChannelStateSettings\<close>; its
  environment holds what it obtains from outside the cache: the clock, the channel cache it asks
  for settings, and the order in which the inner map is ranged.
\<close>

section \<open>Messages and state\<close>

datatype ManagedChannelStateCacheOperationType =
    READ_CHANNELSTATE
  | READ_ALL_CHANNELSTATES
  | READ_CHANNELBALANCESTATE
  | READ_ALL_CHANNELBALANCESTATES
  | WRITE_INITIAL_CHANNELSTATES
  | WRITE_CHANNELSTATE_NODESTATUS
  | WRITE_CHANNELSTATE_CHANNELSTATUS
  | WRITE_CHANNELSTATE_ROUTINGPOLICY
  | WRITE_CHANNELSTATE_UPDATEBALANCE
  | WRITE_CHANNELSTATE_UPDATEHTLCEVENT

datatype ChannelBalanceStateHtlcInclude =
    PENDING_HTLCS_IGNORED
  | PENDING_HTLCS_LOCAL_BALANCE_ADJUSTED_DOWNWARDS
  | PENDING_HTLCS_REMOTE_BALANCE_ADJUSTED_DOWNWARDS
  | PENDING_HTLCS_LOCAL_AND_REMOTE_BALANCE_ADJUSTED_DOWNWARDS
  | PENDING_HTLCS_LOCAL_BALANCE_ADJUSTED_UPWARDS
  | PENDING_HTLCS_REMOTE_BALANCE_ADJUSTED_UPWARDS
  | PENDING_HTLCS_LOCAL_AND_REMOTE_BALANCE_ADJUSTED_UPWARDS

datatype ChannelStateInclude =
  ALL_LOCAL_ACTIVE_CHANNELS | ALL_LOCAL_AND_REMOTE_ACTIVE_CHANNELS | ALL_CHANNELS

record Htlc =
  htlc_Incoming :: bool
  htlc_Amount :: int64
  htlc_HashLock :: bytes
  htlc_ExpirationHeight :: uint32
  htlc_HtlcIndex :: uint64
  htlc_ForwardingChannel :: uint64
  htlc_ForwardingHtlcIndex :: uint64

record ManagedChannelStateSettings =
  css_NodeId :: int
  css_RemoteNodeId :: int
  css_ChannelId :: int
  css_LocalBalance :: int64
  css_LocalDisabled :: bool
  css_LocalFeeBaseMsat :: uint64
  css_LocalFeeRateMilliMsat :: uint64
  css_LocalMinHtlcMsat :: uint64
  css_LocalMaxHtlcMsat :: uint64
  css_LocalTimeLockDelta :: uint32
  css_RemoteBalance :: int64
  css_RemoteDisabled :: bool
  css_RemoteFeeBaseMsat :: uint64
  css_RemoteFeeRateMilliMsat :: uint64
  css_RemoteMinHtlcMsat :: uint64
  css_RemoteMaxHtlcMsat :: uint64
  css_RemoteTimeLockDelta :: uint32
  css_UnsettledBalance :: int64
  css_PendingHtlcs :: "Htlc list"
  css_PendingIncomingHtlcCount :: int
  css_PendingIncomingHtlcAmount :: int64
  css_PendingOutgoingHtlcCount :: int
  css_PendingOutgoingHtlcAmount :: int64
  css_CommitFee :: int64
  css_CommitWeight :: int64
  css_FeePerKw :: int64
  css_NumUpdates :: uint64
  css_ChanStatusFlags :: string
  css_CommitmentType :: int
  css_Lifetime :: int64
  css_TotalSatoshisReceived :: int64
  css_TotalSatoshisSent :: int64

record ManagedChannelBalanceStateSettings =
  cbs_NodeId :: int
  cbs_RemoteNodeId :: int
  cbs_ChannelId :: int
  cbs_HtlcInclude :: ChannelBalanceStateHtlcInclude
  cbs_LocalBalance :: int64
  cbs_LocalBalancePerMilleRatio :: int64
  cbs_RemoteBalance :: int64
  cbs_RemoteBalancePerMilleRatio :: int64

record ManagedChannelState =
  st_Type :: ManagedChannelStateCacheOperationType
  st_NodeId :: int
  st_RemoteNodeId :: int
  st_ChannelId :: int
  st_Status :: Status
  st_Local :: bool
  st_Balance :: int64
  st_Disabled :: bool
  st_FeeBaseMsat :: uint64
  st_FeeRateMilliMsat :: uint64
  st_MinHtlcMsat :: uint64
  st_MaxHtlcMsat :: uint64
  st_TimeLockDelta :: uint32
  st_Amount :: int64
  st_ForceResponse :: bool
  st_HtlcEvent :: HtlcEvent
  st_ChannelStateSettings :: "ManagedChannelStateSettings list"
  st_HtlcInclude :: ChannelBalanceStateHtlcInclude
  st_StateInclude :: ChannelStateInclude
  st_StateOut :: bool
  st_StatesOut :: bool
  st_BalanceStateOut :: bool
  st_BalanceStatesOut :: bool

type_synonym node_channels = "(int \<times> ManagedChannelStateSettings) list"

record StateCache =
  settingsByChannelId :: "int \<rightharpoonup> node_channels"
  settingsStatus :: "int \<rightharpoonup> Status"
  deactivationTime :: "int \<rightharpoonup> time"

definition emptyStateCache :: StateCache where
  "emptyStateCache =
     \<lparr>settingsByChannelId = Map.empty, settingsStatus = Map.empty, deactivationTime = Map.empty\<rparr>"

datatype StateReply =
    StateOut "ManagedChannelStateSettings option"
  | StatesOut "ManagedChannelStateSettings list"
  | BalanceStateOut "ManagedChannelBalanceStateSettings option"
  | BalanceStatesOut "ManagedChannelBalanceStateSettings list"

text \<open>The clock, the answers of the channel cache, and the range order of the inner map.\<close>

record StateEnv =
  env_now :: time
  env_setting :: "int \<Rightarrow> ManagedChannelSettings"
  env_by_node :: "int \<Rightarrow> ManagedChannelSettings list"
  env_order :: "(int, ManagedChannelStateSettings) order"

section \<open>Readiness and balances\<close>

definition second :: time where
  "second = 1000000000"

definition TOLERATED_SUBSCRIPTION_DOWNTIME_SECONDS :: int where
  "TOLERATED_SUBSCRIPTION_DOWNTIME_SECONDS = 15"

definition isNodeReady :: "time \<Rightarrow> (int \<rightharpoonup> Status) \<Rightarrow> int \<Rightarrow> (int \<rightharpoonup> time) \<Rightarrow> bool \<Rightarrow> bool" where
  "isNodeReady now statuses nodeId deactivations forceResponse =
     (if mget Inactive statuses nodeId \<noteq> Active
      then (case deactivations nodeId of
              Some t \<Rightarrow>
                if now - t < TOLERATED_SUBSCRIPTION_DOWNTIME_SECONDS * second then True
                else forceResponse
            | None \<Rightarrow> forceResponse)
      else True)"

text \<open>
  \<open>processHtlcInclude\<close>; the ratios divide by the capacity before they multiply by 1000, and the
  division panics when the capacity is 0.
\<close>

definition processHtlcInclude ::
    "ManagedChannelState \<Rightarrow> ManagedChannelStateSettings \<Rightarrow> int64 \<Rightarrow>
     ManagedChannelBalanceStateSettings result" where
  "processHtlcInclude m settings capacity =
     (let incl = st_HtlcInclude m;
          local0 = css_LocalBalance settings;
          remote0 = css_RemoteBalance settings;
          local1 = (if incl = PENDING_HTLCS_LOCAL_BALANCE_ADJUSTED_DOWNWARDS \<or>
                       incl = PENDING_HTLCS_LOCAL_AND_REMOTE_BALANCE_ADJUSTED_DOWNWARDS
                    then css_LocalBalance settings - css_PendingOutgoingHtlcAmount settings else local0);
          remote1 = (if incl = PENDING_HTLCS_REMOTE_BALANCE_ADJUSTED_DOWNWARDS \<or>
                        incl = PENDING_HTLCS_LOCAL_AND_REMOTE_BALANCE_ADJUSTED_DOWNWARDS
                     then css_RemoteBalance settings - css_PendingIncomingHtlcAmount settings else remote0);
          local2 = (if incl = PENDING_HTLCS_LOCAL_BALANCE_ADJUSTED_UPWARDS \<or>
                       incl = PENDING_HTLCS_LOCAL_AND_REMOTE_BALANCE_ADJUSTED_UPWARDS
                    then css_LocalBalance settings + css_PendingIncomingHtlcAmount settings else local1);
          remote2 = (if incl = PENDING_HTLCS_REMOTE_BALANCE_ADJUSTED_UPWARDS \<or>
                        incl = PENDING_HTLCS_LOCAL_AND_REMOTE_BALANCE_ADJUSTED_UPWARDS
                     then css_RemoteBalance settings + css_PendingOutgoingHtlcAmount settings else remote1)
      in if capacity = 0 then Panics ''integer divide by zero''
         else Ok \<lparr>cbs_NodeId = st_NodeId m, cbs_RemoteNodeId = st_RemoteNodeId m,
                  cbs_ChannelId = st_ChannelId m, cbs_HtlcInclude = incl,
                  cbs_LocalBalance = local2,
                  cbs_LocalBalancePerMilleRatio = quot64 (css_LocalBalance settings) capacity * 1000,
                  cbs_RemoteBalance = remote2,
                  cbs_RemoteBalancePerMilleRatio = quot64 (css_RemoteBalance settings) capacity * 1000\<rparr>)"

text \<open>The loop of \<open>READ_ALL_CHANNELBALANCESTATES\<close> over the channels of the channel cache.\<close>

fun collect_balances ::
    "ManagedChannelState \<Rightarrow> node_channels \<Rightarrow> ManagedChannelSettings list \<Rightarrow>
     ManagedChannelBalanceStateSettings list result" where
  "collect_balances m channels [] = Ok []"
| "collect_balances m channels (cs # rest) =
     (if mcs_Status cs \<noteq> Open then collect_balances m channels rest
      else case map_of channels (mcs_ChannelId cs) of
        None \<Rightarrow> collect_balances m channels rest
      | Some settings \<Rightarrow>
          if css_LocalDisabled settings \<and> st_StateInclude m \<noteq> ALL_CHANNELS
          then collect_balances m channels rest
          else if css_RemoteDisabled settings \<and> st_StateInclude m = ALL_LOCAL_AND_REMOTE_ACTIVE_CHANNELS
          then collect_balances m channels rest
          else case processHtlcInclude m settings (mcs_Capacity cs) of
                 Inl e \<Rightarrow> Inl e
               | Inr b \<Rightarrow> (case collect_balances m channels rest of
                              Inl e \<Rightarrow> Inl e
                            | Inr bs \<Rightarrow> Ok (b # bs)))"

section \<open>The handlers\<close>

definition readChannelState ::
    "StateEnv \<Rightarrow> ManagedChannelState \<Rightarrow> StateCache \<Rightarrow> (StateCache, StateReply) outcome" where
  "readChannelState env m s =
     (let reply = (\<lambda>r. send (st_StateOut m) (StateOut r) s) in
      if st_ChannelId m = 0 \<or> st_NodeId m = 0 then reply None
      else if isNodeReady (env_now env) (settingsStatus s) (st_NodeId m) (deactivationTime s) (st_ForceResponse m)
      then (case settingsByChannelId s (st_NodeId m) of
              None \<Rightarrow> reply None
            | Some channels \<Rightarrow> reply (map_of channels (st_ChannelId m)))
      else reply None)"

definition readAllChannelStates ::
    "StateEnv \<Rightarrow> ManagedChannelState \<Rightarrow> StateCache \<Rightarrow> (StateCache, StateReply) outcome" where
  "readAllChannelStates env m s =
     (let reply = (\<lambda>r. send (st_StatesOut m) (StatesOut r) s) in
      if st_NodeId m = 0 then reply []
      else if isNodeReady (env_now env) (settingsStatus s) (st_NodeId m) (deactivationTime s) (st_ForceResponse m)
      then (case settingsByChannelId s (st_NodeId m) of
              None \<Rightarrow> reply []
            | Some channels \<Rightarrow> reply (map snd (env_order env channels)))
      else reply [])"

definition panic_text :: "go_error \<Rightarrow> string" where
  "panic_text e = (case e of Error t \<Rightarrow> t | Panic t \<Rightarrow> t)"

definition readChannelBalanceState ::
    "StateEnv \<Rightarrow> ManagedChannelState \<Rightarrow> StateCache \<Rightarrow> (StateCache, StateReply) outcome" where
  "readChannelBalanceState env m s =
     (let reply = (\<lambda>r. send (st_BalanceStateOut m) (BalanceStateOut r) s) in
      if st_ChannelId m = 0 \<or> st_NodeId m = 0 then reply None
      else if isNodeReady (env_now env) (settingsStatus s) (st_NodeId m) (deactivationTime s) (st_ForceResponse m)
      then (case settingsByChannelId s (st_NodeId m) of
              None \<Rightarrow> reply None
            | Some channels \<Rightarrow>
                (case map_of channels (st_ChannelId m) of
                   None \<Rightarrow> reply None
                 | Some settings \<Rightarrow>
                     (case processHtlcInclude m settings (mcs_Capacity (env_setting env (st_ChannelId m))) of
                        Inl e \<Rightarrow> Crashed (panic_text e)
                      | Inr b \<Rightarrow> reply (Some b))))
      else reply None)"

definition readAllChannelBalanceStates ::
    "StateEnv \<Rightarrow> ManagedChannelState \<Rightarrow> StateCache \<Rightarrow> (StateCache, StateReply) outcome" where
  "readAllChannelBalanceStates env m s =
     (let reply = (\<lambda>r. send (st_BalanceStatesOut m) (BalanceStatesOut r) s) in
      if st_NodeId m = 0 then reply []
      else if isNodeReady (env_now env) (settingsStatus s) (st_NodeId m) (deactivationTime s) (st_ForceResponse m)
      then (case settingsByChannelId s (st_NodeId m) of
              None \<Rightarrow> reply []
            | Some channels \<Rightarrow>
                (case collect_balances m channels (env_by_node env (st_NodeId m)) of
                   Inl e \<Rightarrow> Crashed (panic_text e)
                 | Inr bs \<Rightarrow> reply bs))
      else reply [])"

definition writeInitialStates :: "ManagedChannelState \<Rightarrow> StateCache \<Rightarrow> StateCache" where
  "writeInitialStates m s =
     (if st_NodeId m = 0 then s
      else s\<lparr>settingsByChannelId := (settingsByChannelId s)
               (st_NodeId m \<mapsto>
                 foldl (\<lambda>channels cs. aput (css_ChannelId cs) cs channels) [] (st_ChannelStateSettings m))\<rparr>)"

definition writeNodeStatus :: "time \<Rightarrow> ManagedChannelState \<Rightarrow> StateCache \<Rightarrow> StateCache" where
  "writeNodeStatus now m s =
     (if st_NodeId m = 0 then s
      else case settingsStatus s (st_NodeId m) of
        Some currentStatus \<Rightarrow>
          (let s1 = (if st_Status m \<noteq> currentStatus
                     then s\<lparr>settingsStatus := (settingsStatus s)(st_NodeId m \<mapsto> st_Status m)\<rparr> else s)
           in if st_Status m \<noteq> Active \<and> currentStatus = Active
              then s1\<lparr>deactivationTime := (deactivationTime s1)(st_NodeId m \<mapsto> now)\<rparr> else s1)
      | None \<Rightarrow>
          s\<lparr>settingsStatus := (settingsStatus s)(st_NodeId m \<mapsto> st_Status m),
            deactivationTime := (deactivationTime s)(st_NodeId m \<mapsto> now)\<rparr>)"

text \<open>
  The handlers below look up the channel of a node and store its changed settings; an uncached
  node or channel is only logged.
\<close>

definition update_channel ::
    "int \<Rightarrow> int \<Rightarrow> (ManagedChannelStateSettings \<Rightarrow> ManagedChannelStateSettings) \<Rightarrow> StateCache \<Rightarrow> StateCache" where
  "update_channel nodeId channelId f s =
     (case settingsByChannelId s nodeId of
        None \<Rightarrow> s
      | Some channels \<Rightarrow>
          (case map_of channels channelId of
             None \<Rightarrow> s
           | Some cs \<Rightarrow>
               s\<lparr>settingsByChannelId := (settingsByChannelId s)(nodeId \<mapsto> aput channelId (f cs) channels)\<rparr>))"

definition delete_channel :: "int \<Rightarrow> int \<Rightarrow> StateCache \<Rightarrow> StateCache" where
  "delete_channel nodeId channelId s =
     (case settingsByChannelId s nodeId of
        None \<Rightarrow> s
      | Some channels \<Rightarrow> s\<lparr>settingsByChannelId := (settingsByChannelId s)(nodeId \<mapsto> adel channelId channels)\<rparr>)"

definition writeChannelStateStatus :: "time \<Rightarrow> ManagedChannelState \<Rightarrow> StateCache \<Rightarrow> StateCache" where
  "writeChannelStateStatus now m s =
     (if st_ChannelId m = 0 \<or> st_NodeId m = 0 then s
      else if \<not> isNodeReady now (settingsStatus s) (st_NodeId m) (deactivationTime s) (st_ForceResponse m) then s
      else case st_Status m of
             Active \<Rightarrow> update_channel (st_NodeId m) (st_ChannelId m) (css_LocalDisabled_update (\<lambda>_. False)) s
           | Inactive \<Rightarrow> update_channel (st_NodeId m) (st_ChannelId m) (css_LocalDisabled_update (\<lambda>_. True)) s
           | Deleted \<Rightarrow> delete_channel (st_NodeId m) (st_ChannelId m) s
           | _ \<Rightarrow> s)"

definition apply_policy :: "ManagedChannelState \<Rightarrow> ManagedChannelStateSettings \<Rightarrow> ManagedChannelStateSettings" where
  "apply_policy m cs =
     (if st_Local m
      then cs\<lparr>css_LocalDisabled := st_Disabled m, css_LocalTimeLockDelta := st_TimeLockDelta m,
              css_LocalMinHtlcMsat := st_MinHtlcMsat m, css_LocalMaxHtlcMsat := st_MaxHtlcMsat m,
              css_LocalFeeBaseMsat := st_FeeBaseMsat m, css_LocalFeeRateMilliMsat := st_FeeRateMilliMsat m\<rparr>
      else cs\<lparr>css_RemoteDisabled := st_Disabled m, css_RemoteTimeLockDelta := st_TimeLockDelta m,
              css_RemoteMinHtlcMsat := st_MinHtlcMsat m, css_RemoteMaxHtlcMsat := st_MaxHtlcMsat m,
              css_RemoteFeeBaseMsat := st_FeeBaseMsat m, css_RemoteFeeRateMilliMsat := st_FeeRateMilliMsat m\<rparr>)"

definition writeRoutingPolicy :: "time \<Rightarrow> ManagedChannelState \<Rightarrow> StateCache \<Rightarrow> StateCache" where
  "writeRoutingPolicy now m s =
     (if st_ChannelId m = 0 \<or> st_NodeId m = 0 then s
      else if \<not> isNodeReady now (settingsStatus s) (st_NodeId m) (deactivationTime s) (st_ForceResponse m) then s
      else update_channel (st_NodeId m) (st_ChannelId m) (apply_policy m) s)"

text \<open>
  The remote balance is computed from the local balance that has already been updated.
\<close>

definition apply_balance :: "int64 \<Rightarrow> ManagedChannelStateSettings \<Rightarrow> ManagedChannelStateSettings" where
  "apply_balance amount cs =
     (let c1 = cs\<lparr>css_NumUpdates := css_NumUpdates cs + 1\<rparr>;
          c2 = c1\<lparr>css_LocalBalance := css_LocalBalance c1 + amount\<rparr>
      in c2\<lparr>css_RemoteBalance := css_LocalBalance c2 - amount\<rparr>)"

definition writeBalance :: "ManagedChannelState \<Rightarrow> StateCache \<Rightarrow> StateCache" where
  "writeBalance m s =
     (if st_ChannelId m = 0 \<or> st_NodeId m = 0 then s
      else update_channel (st_NodeId m) (st_ChannelId m) (apply_balance (st_Amount m)) s)"

section \<open>HTLC events\<close>

definition new_htlc :: "bool \<Rightarrow> uint64 \<Rightarrow> uint64 \<Rightarrow> Htlc" where
  "new_htlc incoming amtMsat index =
     \<lparr>htlc_Incoming = incoming, htlc_Amount = amtMsat div 1000, htlc_HashLock = [],
      htlc_ExpirationHeight = 0, htlc_HtlcIndex = index, htlc_ForwardingChannel = 0,
      htlc_ForwardingHtlcIndex = 0\<rparr>"

definition incoming_htlc :: "uint64 \<Rightarrow> uint64 \<Rightarrow> ManagedChannelStateSettings \<Rightarrow> ManagedChannelStateSettings" where
  "incoming_htlc amtMsat index cs =
     (let foundIt = list_ex (\<lambda>h. htlc_HtlcIndex h = index) (css_PendingHtlcs cs);
          pending = filter (\<lambda>h. htlc_HtlcIndex h \<noteq> index) (css_PendingHtlcs cs)
      in if foundIt
         then cs\<lparr>css_UnsettledBalance := css_UnsettledBalance cs - amtMsat div 1000,
                 css_PendingHtlcs := pending\<rparr>
         else cs\<lparr>css_UnsettledBalance := css_UnsettledBalance cs + amtMsat div 1000,
                 css_PendingHtlcs := pending @ [new_htlc True amtMsat index]\<rparr>)"

text \<open>
  The handler of the outgoing side adds and subtracts the incoming amount, which it dereferences
  without a nil test.
\<close>

definition outgoing_htlc ::
    "uint64 option \<Rightarrow> uint64 \<Rightarrow> uint64 \<Rightarrow> ManagedChannelStateSettings \<Rightarrow> ManagedChannelStateSettings result" where
  "outgoing_htlc incomingAmtMsat outgoingAmtMsat index cs =
     (let foundIt = list_ex (\<lambda>h. htlc_HtlcIndex h = index) (css_PendingHtlcs cs);
          pending = filter (\<lambda>h. htlc_HtlcIndex h \<noteq> index) (css_PendingHtlcs cs)
      in case incomingAmtMsat of
           None \<Rightarrow> Panics ''nil pointer dereference''
         | Some inAmt \<Rightarrow>
             (if foundIt
              then Ok (cs\<lparr>css_UnsettledBalance := css_UnsettledBalance cs + inAmt div 1000,
                          css_PendingHtlcs := pending\<rparr>)
              else Ok (cs\<lparr>css_UnsettledBalance := css_UnsettledBalance cs - inAmt div 1000,
                          css_PendingHtlcs := pending @ [new_htlc False outgoingAmtMsat index]\<rparr>)))"

definition has_channel :: "int option \<Rightarrow> bool" where
  "has_channel c \<longleftrightarrow> c \<noteq> None \<and> c \<noteq> Some 0"

definition htlc_incoming_step :: "HtlcEvent \<Rightarrow> node_channels \<Rightarrow> node_channels" where
  "htlc_incoming_step e channels =
     (case he_IncomingChannelId e of
        None \<Rightarrow> channels
      | Some c \<Rightarrow>
          if c = 0 then channels
          else (case (map_of channels c, he_IncomingAmtMsat e, he_IncomingHtlcId e) of
                  (Some cs, Some amt, Some index) \<Rightarrow> aput c (incoming_htlc amt index cs) channels
                | _ \<Rightarrow> channels))"

definition htlc_outgoing_step :: "HtlcEvent \<Rightarrow> node_channels \<Rightarrow> node_channels result" where
  "htlc_outgoing_step e channels =
     (case he_OutgoingChannelId e of
        None \<Rightarrow> Ok channels
      | Some c \<Rightarrow>
          if c = 0 then Ok channels
          else (case (map_of channels c, he_OutgoingAmtMsat e, he_OutgoingHtlcId e) of
                  (Some cs, Some amt, Some index) \<Rightarrow>
                    (case outgoing_htlc (he_IncomingAmtMsat e) amt index cs of
                       Inl p \<Rightarrow> Inl p
                     | Inr cs' \<Rightarrow> Ok (aput c cs' channels))
                | _ \<Rightarrow> Ok channels))"

definition writeHtlcEvent :: "HtlcEvent \<Rightarrow> StateCache \<Rightarrow> (StateCache, StateReply) outcome" where
  "writeHtlcEvent e s =
     (if \<not> has_channel (he_OutgoingChannelId e) \<and> \<not> has_channel (he_IncomingChannelId e) \<or> ev_NodeId e = 0
      then Served s None
      else case settingsByChannelId s (ev_NodeId e) of
        None \<Rightarrow> Served s None
      | Some channels \<Rightarrow>
          (case htlc_outgoing_step e (htlc_incoming_step e channels) of
             Inl p \<Rightarrow> Crashed (panic_text p)
           | Inr channels' \<Rightarrow>
               Served (s\<lparr>settingsByChannelId := (settingsByChannelId s)(ev_NodeId e \<mapsto> channels')\<rparr>) None))"

definition processManagedChannelStateSettings ::
    "StateEnv \<Rightarrow> StateCache \<Rightarrow> ManagedChannelState \<Rightarrow> (StateCache, StateReply) outcome" where
  "processManagedChannelStateSettings env s m =
     (case st_Type m of
        READ_CHANNELSTATE \<Rightarrow> readChannelState env m s
      | READ_ALL_CHANNELSTATES \<Rightarrow> readAllChannelStates env m s
      | READ_CHANNELBALANCESTATE \<Rightarrow> readChannelBalanceState env m s
      | READ_ALL_CHANNELBALANCESTATES \<Rightarrow> readAllChannelBalanceStates env m s
      | WRITE_INITIAL_CHANNELSTATES \<Rightarrow> Served (writeInitialStates m s) None
      | WRITE_CHANNELSTATE_NODESTATUS \<Rightarrow> Served (writeNodeStatus (env_now env) m s) None
      | WRITE_CHANNELSTATE_CHANNELSTATUS \<Rightarrow> Served (writeChannelStateStatus (env_now env) m s) None
      | WRITE_CHANNELSTATE_ROUTINGPOLICY \<Rightarrow> Served (writeRoutingPolicy (env_now env) m s) None
      | WRITE_CHANNELSTATE_UPDATEBALANCE \<Rightarrow> Served (writeBalance m s) None
      | WRITE_CHANNELSTATE_UPDATEHTLCEVENT \<Rightarrow> writeHtlcEvent (st_HtlcEvent m) s)"

section \<open>The client functions\<close>

definition zeroHtlcEvent :: HtlcEvent where
  "zeroHtlcEvent =
     \<lparr>ev_EventTime = 0, ev_NodeId = 0, he_Timestamp = 0, he_Data = [], he_EventOrigin = None,
      he_EventType = None, he_OutgoingHtlcId = None, he_IncomingHtlcId = None,
      he_TimestampNs = None, he_IncomingAmtMsat = None, he_OutgoingAmtMsat = None,
      he_IncomingTimelock = None, he_OutgoingTimelock = None, he_BoltFailureCode = None,
      he_BoltFailureString = None, he_LndFailureDetail = None, he_OutgoingChannelId = None,
      he_IncomingChannelId = None\<rparr>"

definition stateRequest :: "ManagedChannelStateCacheOperationType \<Rightarrow> ManagedChannelState" where
  [simp]: "stateRequest ty =
     \<lparr>st_Type = ty, st_NodeId = 0, st_RemoteNodeId = 0, st_ChannelId = 0, st_Status = Inactive,
      st_Local = False, st_Balance = 0, st_Disabled = False, st_FeeBaseMsat = 0,
      st_FeeRateMilliMsat = 0, st_MinHtlcMsat = 0, st_MaxHtlcMsat = 0, st_TimeLockDelta = 0,
      st_Amount = 0, st_ForceResponse = False, st_HtlcEvent = zeroHtlcEvent,
      st_ChannelStateSettings = [], st_HtlcInclude = PENDING_HTLCS_IGNORED,
      st_StateInclude = ALL_LOCAL_ACTIVE_CHANNELS, st_StateOut = False, st_StatesOut = False,
      st_BalanceStateOut = False, st_BalanceStatesOut = False\<rparr>"

definition GetChannelStates ::
    "StateEnv \<Rightarrow> StateCache \<Rightarrow> int \<Rightarrow> bool \<Rightarrow> ManagedChannelStateSettings list option" where
  "GetChannelStates env s nodeId forceResponse =
     (case answer (processManagedChannelStateSettings env s ((stateRequest READ_ALL_CHANNELSTATES)
             \<lparr>st_NodeId := nodeId, st_ForceResponse := forceResponse, st_StatesOut := True\<rparr>)) of
        Some (StatesOut cs) \<Rightarrow> Some cs
      | _ \<Rightarrow> None)"

definition GetChannelState ::
    "StateEnv \<Rightarrow> StateCache \<Rightarrow> int \<Rightarrow> int \<Rightarrow> bool \<Rightarrow> ManagedChannelStateSettings option option" where
  "GetChannelState env s nodeId channelId forceResponse =
     (case answer (processManagedChannelStateSettings env s ((stateRequest READ_CHANNELSTATE)
             \<lparr>st_NodeId := nodeId, st_ChannelId := channelId, st_ForceResponse := forceResponse,
              st_StateOut := True\<rparr>)) of
        Some (StateOut cs) \<Rightarrow> Some cs
      | _ \<Rightarrow> None)"

text \<open>The request type of this client is that of the read of a single channel.\<close>

definition GetChannelBalanceStates ::
    "StateEnv \<Rightarrow> StateCache \<Rightarrow> int \<Rightarrow> bool \<Rightarrow> ChannelStateInclude \<Rightarrow> ChannelBalanceStateHtlcInclude \<Rightarrow>
     ManagedChannelBalanceStateSettings list option" where
  "GetChannelBalanceStates env s nodeId forceResponse stateInclude htlcInclude =
     (case answer (processManagedChannelStateSettings env s ((stateRequest READ_CHANNELBALANCESTATE)
             \<lparr>st_NodeId := nodeId, st_ForceResponse := forceResponse, st_HtlcInclude := htlcInclude,
              st_StateInclude := stateInclude, st_BalanceStatesOut := True\<rparr>)) of
        Some (BalanceStatesOut bs) \<Rightarrow> Some bs
      | _ \<Rightarrow> None)"

definition GetChannelBalanceState ::
    "StateEnv \<Rightarrow> StateCache \<Rightarrow> int \<Rightarrow> int \<Rightarrow> bool \<Rightarrow> ChannelBalanceStateHtlcInclude \<Rightarrow>
     ManagedChannelBalanceStateSettings option option" where
  "GetChannelBalanceState env s nodeId channelId forceResponse htlcInclude =
     (case answer (processManagedChannelStateSettings env s ((stateRequest READ_CHANNELBALANCESTATE)
             \<lparr>st_NodeId := nodeId, st_ChannelId := channelId, st_ForceResponse := forceResponse,
              st_HtlcInclude := htlcInclude, st_BalanceStateOut := True\<rparr>)) of
        Some (BalanceStateOut b) \<Rightarrow> Some b
      | _ \<Rightarrow> None)"

type_synonym state_step = "StateCache \<Rightarrow> (StateCache, StateReply) outcome"

definition SetChannelStates :: "StateEnv \<Rightarrow> int \<Rightarrow> ManagedChannelStateSettings list \<Rightarrow> state_step" where
  "SetChannelStates env nodeId css s =
     processManagedChannelStateSettings env s ((stateRequest WRITE_INITIAL_CHANNELSTATES)
       \<lparr>st_NodeId := nodeId, st_ChannelStateSettings := css\<rparr>)"

definition SetChannelStateNodeStatus :: "StateEnv \<Rightarrow> int \<Rightarrow> Status \<Rightarrow> state_step" where
  "SetChannelStateNodeStatus env nodeId status s =
     processManagedChannelStateSettings env s ((stateRequest WRITE_CHANNELSTATE_NODESTATUS)
       \<lparr>st_NodeId := nodeId, st_Status := status\<rparr>)"

definition SetChannelStateChannelStatus :: "StateEnv \<Rightarrow> int \<Rightarrow> int \<Rightarrow> Status \<Rightarrow> state_step" where
  "SetChannelStateChannelStatus env nodeId channelId status s =
     processManagedChannelStateSettings env s ((stateRequest WRITE_CHANNELSTATE_CHANNELSTATUS)
       \<lparr>st_NodeId := nodeId, st_ChannelId := channelId, st_Status := status\<rparr>)"

definition SetChannelStateRoutingPolicy ::
    "StateEnv \<Rightarrow> int \<Rightarrow> int \<Rightarrow> bool \<Rightarrow> ChannelGraphEventData \<Rightarrow> state_step" where
  "SetChannelStateRoutingPolicy env nodeId channelId isLocal p s =
     processManagedChannelStateSettings env s ((stateRequest WRITE_CHANNELSTATE_ROUTINGPOLICY)
       \<lparr>st_NodeId := nodeId, st_ChannelId := channelId, st_Local := isLocal,
        st_Disabled := cged_Disabled p, st_TimeLockDelta := cged_TimeLockDelta p,
        st_MinHtlcMsat := cged_MinHtlcMsat p, st_MaxHtlcMsat := cged_MaxHtlcMsat p,
        st_FeeBaseMsat := cged_FeeBaseMsat p, st_FeeRateMilliMsat := cged_FeeRateMilliMsat p\<rparr>)"

definition SetChannelStateBalanceUpdateMsat ::
    "StateEnv \<Rightarrow> int \<Rightarrow> int \<Rightarrow> bool \<Rightarrow> uint64 \<Rightarrow> state_step" where
  "SetChannelStateBalanceUpdateMsat env nodeId channelId increaseBalance amount s =
     processManagedChannelStateSettings env s ((stateRequest WRITE_CHANNELSTATE_UPDATEBALANCE)
       \<lparr>st_NodeId := nodeId, st_ChannelId := channelId,
        st_Amount := (if increaseBalance then amount div 1000 else - (amount div 1000))\<rparr>)"

definition SetChannelStateBalanceUpdate ::
    "StateEnv \<Rightarrow> int \<Rightarrow> int \<Rightarrow> bool \<Rightarrow> int64 \<Rightarrow> state_step" where
  "SetChannelStateBalanceUpdate env nodeId channelId increaseBalance amount s =
     processManagedChannelStateSettings env s ((stateRequest WRITE_CHANNELSTATE_UPDATEBALANCE)
       \<lparr>st_NodeId := nodeId, st_ChannelId := channelId,
        st_Amount := (if increaseBalance then amount else - amount)\<rparr>)"

definition SetChannelStateBalanceHtlcEvent :: "StateEnv \<Rightarrow> HtlcEvent \<Rightarrow> state_step" where
  "SetChannelStateBalanceHtlcEvent env e s =
     processManagedChannelStateSettings env s
       ((stateRequest WRITE_CHANNELSTATE_UPDATEHTLCEVENT)\<lparr>st_HtlcEvent := e\<rparr>)"

section \<open>The cached state of one channel\<close>

definition cached :: "StateCache \<Rightarrow> int \<Rightarrow> int \<Rightarrow> ManagedChannelStateSettings option" where
  "cached s nodeId channelId = Option.bind (settingsByChannelId s nodeId) (\<lambda>cs. map_of cs channelId)"

lemma cached_update_channel:
  "cached (update_channel n c f s) n' c' =
     (if n' = n \<and> c' = c then map_option f (cached s n c) else cached s n' c')"
  by (auto simp: cached_def update_channel_def split: option.splits)

lemma cached_delete_channel:
  "cached (delete_channel n c s) n' c' = (if n' = n \<and> c' = c then None else cached s n' c')"
  by (auto simp: cached_def delete_channel_def split: option.splits)

lemma update_channel_frame [simp]:
  "settingsStatus (update_channel n c f s) = settingsStatus s"
  "deactivationTime (update_channel n c f s) = deactivationTime s"
  "settingsStatus (delete_channel n c s) = settingsStatus s"
  "deactivationTime (delete_channel n c s) = deactivationTime s"
  by (auto simp: update_channel_def delete_channel_def split: option.splits)

lemma GetChannelState_force:
  assumes "n \<noteq> 0" and "c \<noteq> 0"
  shows "GetChannelState env s n c True = Some (cached s n c)"
  using assms
  by (auto simp: GetChannelState_def processManagedChannelStateSettings_def readChannelState_def
      Let_def cached_def isNodeReady_def split: option.splits if_splits)

lemma isNodeReady_iff:
  "isNodeReady now statuses n deact force \<longleftrightarrow>
     statuses n = Some Active \<or> force \<or> (\<exists>t. deact n = Some t \<and> now - t < 15 * second)"
  by (auto simp: isNodeReady_def TOLERATED_SUBSCRIPTION_DOWNTIME_SECONDS_def mget_def
      split: option.splits if_splits)

section \<open>The cache invariant\<close>

text \<open>
  Every inner map has distinct keys and stores a channel's state under its own channel id; no node
  has id 0; a deactivation time is only kept for a node with a status.
\<close>

definition channels_ok :: "node_channels \<Rightarrow> bool" where
  "channels_ok channels \<longleftrightarrow>
     keys_distinct channels \<and> (\<forall>c cs. map_of channels c = Some cs \<longrightarrow> css_ChannelId cs = c)"

definition state_cache_ok :: "StateCache \<Rightarrow> bool" where
  "state_cache_ok s \<longleftrightarrow>
     (\<forall>n channels. settingsByChannelId s n = Some channels \<longrightarrow> channels_ok channels) \<and>
     settingsByChannelId s 0 = None \<and> settingsStatus s 0 = None \<and>
     dom (deactivationTime s) \<subseteq> dom (settingsStatus s)"

lemma channels_ok_Nil [simp]: "channels_ok []"
  by (simp add: channels_ok_def)

lemma channels_ok_aput: "channels_ok channels \<Longrightarrow> css_ChannelId cs = c \<Longrightarrow> channels_ok (aput c cs channels)"
  by (simp add: channels_ok_def)

lemma channels_ok_adel: "channels_ok channels \<Longrightarrow> channels_ok (adel c channels)"
  by (simp add: channels_ok_def)

lemma channels_ok_lookup: "channels_ok channels \<Longrightarrow> map_of channels c = Some cs \<Longrightarrow> css_ChannelId cs = c"
  by (simp add: channels_ok_def)

lemma channels_ok_initial:
  "channels_ok channels \<Longrightarrow>
   channels_ok (foldl (\<lambda>channels cs. aput (css_ChannelId cs) cs channels) channels css)"
  by (induction css arbitrary: channels) (simp_all add: channels_ok_aput)

lemma state_cache_ok_set:
  assumes "state_cache_ok s" and "channels_ok channels" and "n \<noteq> 0"
  shows "state_cache_ok (s\<lparr>settingsByChannelId := (settingsByChannelId s)(n \<mapsto> channels)\<rparr>)"
  using assms by (simp add: state_cache_ok_def)

lemma state_cache_ok_channels:
  "state_cache_ok s \<Longrightarrow> settingsByChannelId s n = Some channels \<Longrightarrow> channels_ok channels \<and> n \<noteq> 0"
  by (auto simp: state_cache_ok_def)

lemma state_cache_ok_update_channel:
  assumes "state_cache_ok s" and "\<And>cs. css_ChannelId (f cs) = css_ChannelId cs"
  shows "state_cache_ok (update_channel n c f s)"
  using assms state_cache_ok_channels [OF assms(1), of n]
  by (auto simp: update_channel_def split: option.splits
      intro!: state_cache_ok_set channels_ok_aput dest: channels_ok_lookup)

lemma state_cache_ok_delete_channel: "state_cache_ok s \<Longrightarrow> state_cache_ok (delete_channel n c s)"
  using state_cache_ok_channels [of s n]
  by (auto simp: delete_channel_def split: option.splits intro!: state_cache_ok_set channels_ok_adel)

lemma apply_policy_ChannelId [simp]: "css_ChannelId (apply_policy m cs) = css_ChannelId cs"
  by (simp add: apply_policy_def)

lemma apply_balance_ChannelId [simp]: "css_ChannelId (apply_balance a cs) = css_ChannelId cs"
  by (simp add: apply_balance_def Let_def)

lemma incoming_htlc_ChannelId [simp]: "css_ChannelId (incoming_htlc a i cs) = css_ChannelId cs"
  by (simp add: incoming_htlc_def Let_def)

lemma outgoing_htlc_ChannelId: "outgoing_htlc a b i cs = Ok cs' \<Longrightarrow> css_ChannelId cs' = css_ChannelId cs"
  by (auto simp: outgoing_htlc_def Let_def split: option.splits if_splits)

lemma channels_ok_incoming: "channels_ok channels \<Longrightarrow> channels_ok (htlc_incoming_step e channels)"
  by (auto simp: htlc_incoming_step_def split: option.splits
      intro!: channels_ok_aput dest: channels_ok_lookup)

lemma channels_ok_outgoing:
  "channels_ok channels \<Longrightarrow> htlc_outgoing_step e channels = Ok channels' \<Longrightarrow> channels_ok channels'"
  by (auto simp: htlc_outgoing_step_def split: option.splits if_splits sum.splits
      intro!: channels_ok_aput dest: channels_ok_lookup outgoing_htlc_ChannelId)

lemma state_cache_ok_writeHtlcEvent:
  assumes "state_cache_ok s" and "writeHtlcEvent e s = Served t r"
  shows "state_cache_ok t"
proof (cases "settingsByChannelId s (ev_NodeId e)")
  case None
  with assms show ?thesis by (auto simp: writeHtlcEvent_def split: if_splits)
next
  case (Some channels)
  with assms(2) consider "t = s" | channels' where
      "htlc_outgoing_step e (htlc_incoming_step e channels) = Ok channels'"
      "t = s\<lparr>settingsByChannelId := (settingsByChannelId s)(ev_NodeId e \<mapsto> channels')\<rparr>"
    by (auto simp: writeHtlcEvent_def split: if_splits sum.splits)
  then show ?thesis
    using assms(1) state_cache_ok_channels [OF assms(1) Some]
    by cases (auto intro: state_cache_ok_set channels_ok_outgoing channels_ok_incoming)
qed

lemma state_cache_ok_writes:
  assumes "state_cache_ok s"
  shows "state_cache_ok (writeInitialStates m s)" "state_cache_ok (writeNodeStatus now m s)"
    "state_cache_ok (writeChannelStateStatus now m s)" "state_cache_ok (writeRoutingPolicy now m s)"
    "state_cache_ok (writeBalance m s)"
proof -
  show "state_cache_ok (writeInitialStates m s)"
    using assms by (simp add: writeInitialStates_def state_cache_ok_set channels_ok_initial)
  show "state_cache_ok (writeNodeStatus now m s)"
    using assms
    by (auto simp: writeNodeStatus_def state_cache_ok_def Let_def split: option.splits)
  show "state_cache_ok (writeChannelStateStatus now m s)"
    using assms
    by (simp add: writeChannelStateStatus_def state_cache_ok_update_channel
        state_cache_ok_delete_channel split: Status.splits)
  show "state_cache_ok (writeRoutingPolicy now m s)" "state_cache_ok (writeBalance m s)"
    using assms
    by (simp_all add: writeRoutingPolicy_def writeBalance_def state_cache_ok_update_channel)
qed

lemma reads_frame:
  "readChannelState env m s = Served t r \<Longrightarrow> t = s"
  "readAllChannelStates env m s = Served t r \<Longrightarrow> t = s"
  "readChannelBalanceState env m s = Served t r \<Longrightarrow> t = s"
  "readAllChannelBalanceStates env m s = Served t r \<Longrightarrow> t = s"
  by (auto simp: readChannelState_def readAllChannelStates_def readChannelBalanceState_def
      readAllChannelBalanceStates_def Let_def split: if_splits option.splits sum.splits)

text \<open>
  The environment may be another one for every request: the clock advances, the channel cache
  changes, and the range order is arbitrary each time.
\<close>

interpretation state_cache:
  cache_server "\<lambda>s (env, m). processManagedChannelStateSettings env s m" emptyStateCache state_cache_ok
proof
  show "state_cache_ok emptyStateCache" by (simp add: state_cache_ok_def emptyStateCache_def)
  fix s t r and em :: "StateEnv \<times> ManagedChannelState"
  assume ok: "state_cache_ok s"
    and "(case em of (env, m) \<Rightarrow> processManagedChannelStateSettings env s m) = Served t r"
  then obtain env m where "processManagedChannelStateSettings env s m = Served t r"
    by (cases em) simp
  then show "state_cache_ok t"
    using ok state_cache_ok_writes [OF ok] state_cache_ok_writeHtlcEvent [OF ok]
    by (cases "st_Type m") (auto simp: processManagedChannelStateSettings_def dest: reads_frame)
qed

text \<open>
  C5: after any sequence of requests, under any clock and any answers of the channel cache, every
  channel state is stored once per node and under its own channel id, and no node has id 0.
\<close>

theorem state_cache_invariant:
  "serves (\<lambda>s (env, m). processManagedChannelStateSettings env s m) emptyStateCache ms t \<Longrightarrow>
   state_cache_ok t"
  by (rule state_cache.invar_reachable)

text \<open>An environment and a cache with one channel of node 1, the running example below.\<close>

definition exampleEnv :: "time \<Rightarrow> StateEnv" where
  "exampleEnv now =
     \<lparr>env_now = now, env_setting = (\<lambda>c. zeroChannelSettings), env_by_node = (\<lambda>n. []), env_order = (\<lambda>m. m)\<rparr>"

definition exampleSettings :: ManagedChannelStateSettings where
  "exampleSettings =
     \<lparr>css_NodeId = 1, css_RemoteNodeId = 2, css_ChannelId = 7, css_LocalBalance = 600,
      css_LocalDisabled = False, css_LocalFeeBaseMsat = 0, css_LocalFeeRateMilliMsat = 0,
      css_LocalMinHtlcMsat = 0, css_LocalMaxHtlcMsat = 0, css_LocalTimeLockDelta = 0,
      css_RemoteBalance = 400, css_RemoteDisabled = False, css_RemoteFeeBaseMsat = 0,
      css_RemoteFeeRateMilliMsat = 0, css_RemoteMinHtlcMsat = 0, css_RemoteMaxHtlcMsat = 0,
      css_RemoteTimeLockDelta = 0, css_UnsettledBalance = 0, css_PendingHtlcs = [],
      css_PendingIncomingHtlcCount = 0, css_PendingIncomingHtlcAmount = 0,
      css_PendingOutgoingHtlcCount = 0, css_PendingOutgoingHtlcAmount = 0, css_CommitFee = 0,
      css_CommitWeight = 0, css_FeePerKw = 0, css_NumUpdates = 0, css_ChanStatusFlags = [],
      css_CommitmentType = 0, css_Lifetime = 0, css_TotalSatoshisReceived = 0,
      css_TotalSatoshisSent = 0\<rparr>"

definition exampleCache :: StateCache where
  "exampleCache =
     \<lparr>settingsByChannelId = [1 \<mapsto> [(7, exampleSettings)]], settingsStatus = [1 \<mapsto> Active],
      deactivationTime = Map.empty\<rparr>"

lemma cached_example [simp]: "cached exampleCache 1 7 = Some exampleSettings"
  by (simp add: cached_def exampleCache_def)

theorem state_cache_invariant_witness:
  "\<exists>t. serves (\<lambda>s (env, m). processManagedChannelStateSettings env s m) emptyStateCache
         [(exampleEnv 5, (stateRequest WRITE_CHANNELSTATE_NODESTATUS)\<lparr>st_NodeId := 1, st_Status := Active\<rparr>)] t \<and>
       state_cache_ok t"
proof -
  let ?ms = "[(exampleEnv 5, (stateRequest WRITE_CHANNELSTATE_NODESTATUS)\<lparr>st_NodeId := 1, st_Status := Active\<rparr>)]"
  have "\<exists>t. serves (\<lambda>s (env, m). processManagedChannelStateSettings env s m) emptyStateCache ?ms t"
    by (simp add: processManagedChannelStateSettings_def)
  then show ?thesis using state_cache_invariant [of ?ms] by blast
qed

section \<open>Balances\<close>

text \<open>
  a balance update of a cached channel counts one more update, moves the local balance by the
  amount, and sets the remote balance to the local balance from before the update; every other
  channel keeps its state.
\<close>

lemma SetChannelStateBalanceUpdate_effect:
  assumes "n \<noteq> 0" and "c \<noteq> 0"
    and "GetChannelState env s n c True = Some (Some cs)"
    and "SetChannelStateBalanceUpdate env n c increase amount s = Served t r"
  shows "GetChannelState env t n c True = Some (Some (cs
      \<lparr>css_NumUpdates := css_NumUpdates cs + 1,
       css_LocalBalance := css_LocalBalance cs + (if increase then amount else - amount),
       css_RemoteBalance := css_LocalBalance cs\<rparr>)) \<and>
    (\<forall>n' c'. n' \<noteq> 0 \<and> c' \<noteq> 0 \<and> (n', c') \<noteq> (n, c) \<longrightarrow>
       GetChannelState env t n' c' True = GetChannelState env s n' c' True)"
proof -
  have cs: "cached s n c = Some cs" using assms(1-3) by (simp add: GetChannelState_force)
  have "t = update_channel n c (apply_balance (if increase then amount else - amount)) s"
    using assms(1,2,4)
    by (auto simp: SetChannelStateBalanceUpdate_def processManagedChannelStateSettings_def writeBalance_def)
  then show ?thesis
    using assms(1,2) cs
    by (auto simp: GetChannelState_force cached_update_channel apply_balance_def Let_def)
qed

lemma SetChannelStateBalanceUpdate_effect_witness:
  "\<exists>t r cs. SetChannelStateBalanceUpdate (exampleEnv 0) 1 7 True 100 exampleCache = Served t r \<and>
     GetChannelState (exampleEnv 0) t 1 7 True = Some (Some cs) \<and>
     css_LocalBalance cs = 700 \<and> css_RemoteBalance cs = 600"
proof -
  obtain t r where t: "SetChannelStateBalanceUpdate (exampleEnv 0) 1 7 True 100 exampleCache = Served t r"
    by (simp add: SetChannelStateBalanceUpdate_def processManagedChannelStateSettings_def)
  have "GetChannelState (exampleEnv 0) exampleCache 1 7 True = Some (Some exampleSettings)"
    by (simp add: GetChannelState_force)
  from SetChannelStateBalanceUpdate_effect [OF _ _ this t] t show ?thesis
    by (auto simp: exampleSettings_def)
qed

text \<open>
  the per-mille ratios of a balance state are 0 for every balance below the capacity and 1000
  when one side holds it all, because the division comes first; a capacity of 0 panics.
\<close>

lemma processHtlcInclude_ratio:
  assumes "0 \<le> sint (css_LocalBalance cs)" "sint (css_LocalBalance cs) \<le> sint capacity"
  shows "if capacity = 0 then \<exists>e. processHtlcInclude m cs capacity = Panics e
    else \<exists>b. processHtlcInclude m cs capacity = Ok b \<and>
      cbs_LocalBalancePerMilleRatio b = (if css_LocalBalance cs = capacity then 1000 else 0)"
proof (cases "css_LocalBalance cs = capacity")
  case True
  then show ?thesis by (simp add: processHtlcInclude_def Let_def quot64_self)
next
  case False
  then have "sint (css_LocalBalance cs) \<noteq> sint capacity" by (metis signed_word_eqI)
  with assms have "quot64 (css_LocalBalance cs) capacity = 0" by (intro quot64_small) auto
  with False show ?thesis by (simp add: processHtlcInclude_def Let_def)
qed

lemma processHtlcInclude_ratio_witness:
  "\<exists>b. processHtlcInclude (stateRequest READ_CHANNELBALANCESTATE) exampleSettings 1000 = Ok b \<and>
     cbs_LocalBalance b = 600 \<and> cbs_LocalBalancePerMilleRatio b = 0"
proof -
  have "sint (600 :: int64) = 600" "sint (1000 :: int64) = 1000" by simp_all
  then have "0 \<le> sint (css_LocalBalance exampleSettings)"
    "sint (css_LocalBalance exampleSettings) \<le> sint (1000 :: int64)"
    by (simp_all add: exampleSettings_def)
  from processHtlcInclude_ratio [OF this, of "stateRequest READ_CHANNELBALANCESTATE"] show ?thesis
    by (auto simp: exampleSettings_def processHtlcInclude_def Let_def)
qed

text \<open>
  \<open>GetChannelBalanceStates\<close> never returns, in any state of the cache: its request asks for one
  channel and carries the wrong response channel, so the cache blocks on a nil channel.
\<close>

lemma GetChannelBalanceStates_never_returns:
  "GetChannelBalanceStates env s n force si hi = None \<and>
   processManagedChannelStateSettings env s ((stateRequest READ_CHANNELBALANCESTATE)
     \<lparr>st_NodeId := n, st_ForceResponse := force, st_HtlcInclude := hi, st_StateInclude := si,
      st_BalanceStatesOut := True\<rparr>) = Blocked"
  by (simp add: GetChannelBalanceStates_def processManagedChannelStateSettings_def
      readChannelBalanceState_def)

section \<open>HTLC events\<close>

definition in_update :: "HtlcEvent \<Rightarrow> ManagedChannelStateSettings \<Rightarrow> ManagedChannelStateSettings" where
  "in_update e cs =
     (case (he_IncomingAmtMsat e, he_IncomingHtlcId e) of
        (Some amt, Some index) \<Rightarrow> incoming_htlc amt index cs
      | _ \<Rightarrow> cs)"

definition out_update :: "HtlcEvent \<Rightarrow> ManagedChannelStateSettings \<Rightarrow> ManagedChannelStateSettings" where
  "out_update e cs =
     (case (he_OutgoingAmtMsat e, he_OutgoingHtlcId e) of
        (Some amt, Some index) \<Rightarrow>
          (case outgoing_htlc (he_IncomingAmtMsat e) amt index cs of Inr cs' \<Rightarrow> cs' | Inl p \<Rightarrow> cs)
      | _ \<Rightarrow> cs)"

lemma map_of_htlc_incoming_step:
  "map_of (htlc_incoming_step e channels) k =
     (if he_IncomingChannelId e = Some k \<and> k \<noteq> 0
      then map_option (in_update e) (map_of channels k) else map_of channels k)"
  by (auto simp: htlc_incoming_step_def in_update_def split: option.splits)

lemma map_of_htlc_outgoing_step:
  "htlc_outgoing_step e channels = Ok channels' \<Longrightarrow>
   map_of channels' k =
     (if he_OutgoingChannelId e = Some k \<and> k \<noteq> 0
      then map_option (out_update e) (map_of channels k) else map_of channels k)"
  by (auto simp: htlc_outgoing_step_def out_update_def split: option.splits if_splits sum.splits)

lemma cached_writeHtlcEvent:
  assumes "writeHtlcEvent e s = Served t r" and "ev_NodeId e \<noteq> 0"
    and "he_IncomingChannelId e \<noteq> he_OutgoingChannelId e"
  shows "cached t n c =
    (if n \<noteq> ev_NodeId e \<or> c = 0 then cached s n c
     else if he_IncomingChannelId e = Some c then map_option (in_update e) (cached s n c)
     else if he_OutgoingChannelId e = Some c then map_option (out_update e) (cached s n c)
     else cached s n c)"
proof (cases "settingsByChannelId s (ev_NodeId e)")
  case None
  with assms(1) show ?thesis by (auto simp: writeHtlcEvent_def cached_def split: if_splits)
next
  case (Some channels)
  show ?thesis
  proof (cases "has_channel (he_OutgoingChannelId e) \<or> has_channel (he_IncomingChannelId e)")
    case False
    with assms(1,2) have "t = s" by (simp add: writeHtlcEvent_def)
    with False show ?thesis by (auto simp: has_channel_def)
  next
    case True
    with Some assms(1,2) obtain channels' where
      out: "htlc_outgoing_step e (htlc_incoming_step e channels) = Ok channels'"
      and t: "t = s\<lparr>settingsByChannelId := (settingsByChannelId s)(ev_NodeId e \<mapsto> channels')\<rparr>"
      by (auto simp: writeHtlcEvent_def split: sum.splits)
    show ?thesis
      using assms(3) Some
      by (cases "he_IncomingChannelId e = Some c")
        (simp_all add: t cached_def map_of_htlc_outgoing_step [OF out] map_of_htlc_incoming_step)
  qed
qed

definition not_pending :: "uint64 option \<Rightarrow> ManagedChannelStateSettings \<Rightarrow> bool" where
  "not_pending index cs \<longleftrightarrow> (\<forall>h \<in> set (css_PendingHtlcs cs). index \<noteq> Some (htlc_HtlcIndex h))"

lemma incoming_htlc_twice:
  assumes "not_pending (Some i) cs"
  shows "incoming_htlc a i (incoming_htlc a i cs) = cs"
proof -
  have "filter (\<lambda>h. htlc_HtlcIndex h \<noteq> i) (css_PendingHtlcs cs) = css_PendingHtlcs cs"
    "\<not> list_ex (\<lambda>h. htlc_HtlcIndex h = i) (css_PendingHtlcs cs)"
    using assms by (auto simp: not_pending_def list_ex_iff filter_id_conv)
  then show ?thesis by (simp add: incoming_htlc_def Let_def new_htlc_def)
qed

lemma outgoing_htlc_twice:
  assumes "not_pending (Some i) cs" and "outgoing_htlc x a i cs = Ok cs'"
  shows "outgoing_htlc x a i cs' = Ok cs"
proof -
  have "filter (\<lambda>h. htlc_HtlcIndex h \<noteq> i) (css_PendingHtlcs cs) = css_PendingHtlcs cs"
    "\<not> list_ex (\<lambda>h. htlc_HtlcIndex h = i) (css_PendingHtlcs cs)"
    using assms(1) by (auto simp: not_pending_def list_ex_iff filter_id_conv)
  with assms(2) show ?thesis by (auto simp: outgoing_htlc_def Let_def new_htlc_def split: option.splits)
qed

lemma in_update_twice: "not_pending (he_IncomingHtlcId e) cs \<Longrightarrow> in_update e (in_update e cs) = cs"
  by (auto simp: in_update_def incoming_htlc_twice split: option.splits)

lemma out_update_twice:
  assumes "not_pending (he_OutgoingHtlcId e) cs"
  shows "out_update e (out_update e cs) = cs"
proof (cases "he_OutgoingAmtMsat e = None \<or> he_OutgoingHtlcId e = None")
  case True
  then show ?thesis by (auto simp: out_update_def split: option.splits)
next
  case False
  then obtain a i where ai: "he_OutgoingAmtMsat e = Some a" "he_OutgoingHtlcId e = Some i" by auto
  show ?thesis
  proof (cases "outgoing_htlc (he_IncomingAmtMsat e) a i cs")
    case (Inl p)
    with ai show ?thesis by (simp add: out_update_def)
  next
    case (Inr cs')
    from assms ai have "not_pending (Some i) cs" by simp
    from outgoing_htlc_twice [OF this Inr] Inr ai show ?thesis by (simp add: out_update_def)
  qed
qed

text \<open>
  C11: an HTLC event adds its pending HTLCs and the same event later takes them away.  When the
  event names a node and its incoming and outgoing sides lie on different channels, neither side's
  HTLC is pending in its channel yet, and the cache serves the event twice in a row without the
  nil dereference that ends the program, every cached channel state is what it was before, balances
  included.
\<close>

theorem htlc_event_twice_restores:
  assumes "SetChannelStateBalanceHtlcEvent env e s = Served t r"
    and "SetChannelStateBalanceHtlcEvent env e t = Served u r'"
    and "ev_NodeId e \<noteq> 0" and "he_IncomingChannelId e \<noteq> he_OutgoingChannelId e"
    and "\<forall>c cs. he_IncomingChannelId e = Some c \<and> cached s (ev_NodeId e) c = Some cs \<longrightarrow>
           not_pending (he_IncomingHtlcId e) cs"
    and "\<forall>c cs. he_OutgoingChannelId e = Some c \<and> cached s (ev_NodeId e) c = Some cs \<longrightarrow>
           not_pending (he_OutgoingHtlcId e) cs"
  shows "\<forall>n c. cached u n c = cached s n c"
proof -
  have w: "writeHtlcEvent e s = Served t r" "writeHtlcEvent e t = Served u r'"
    using assms(1,2) by (simp_all add: SetChannelStateBalanceHtlcEvent_def processManagedChannelStateSettings_def)
  note step1 = cached_writeHtlcEvent [OF w(1) assms(3,4)]
  note step2 = cached_writeHtlcEvent [OF w(2) assms(3,4)]
  show ?thesis
    unfolding step2 step1
    using assms(5,6) by (auto simp: option.map_comp o_def in_update_twice out_update_twice
        intro!: option.map_ident_strong)
qed

text \<open>
  an HTLC event for a cached outgoing channel that carries no incoming amount ends the program
  with a nil dereference, although the outgoing amount and HTLC are there.
\<close>

lemma htlc_event_without_incoming_amount_crashes:
  assumes "he_OutgoingChannelId e = Some c" and "c \<noteq> 0" and "ev_NodeId e \<noteq> 0"
    and "cached s (ev_NodeId e) c = Some cs"
    and "he_IncomingAmtMsat e = None"
    and "he_OutgoingAmtMsat e = Some a" and "he_OutgoingHtlcId e = Some i"
  shows "SetChannelStateBalanceHtlcEvent env e s = Crashed ''nil pointer dereference''"
proof -
  obtain channels where ch: "settingsByChannelId s (ev_NodeId e) = Some channels" "map_of channels c = Some cs"
    using assms(4) by (auto simp: cached_def bind_eq_Some_conv)
  have "htlc_incoming_step e channels = channels"
    using assms(5) by (auto simp: htlc_incoming_step_def split: option.splits)
  with ch assms show ?thesis
    by (simp add: SetChannelStateBalanceHtlcEvent_def processManagedChannelStateSettings_def
        writeHtlcEvent_def has_channel_def htlc_outgoing_step_def outgoing_htlc_def panic_text_def Let_def)
qed

text \<open>A forwarded HTLC: in on channel 8, which is not cached, out on channel 7.\<close>

definition exampleHtlcEvent :: HtlcEvent where
  "exampleHtlcEvent = zeroHtlcEvent
     \<lparr>ev_NodeId := 1, he_IncomingChannelId := Some 8, he_IncomingAmtMsat := Some 3000,
      he_IncomingHtlcId := Some 4, he_OutgoingChannelId := Some 7, he_OutgoingAmtMsat := Some 2000,
      he_OutgoingHtlcId := Some 5\<rparr>"

lemma htlc_event_served:
  assumes "he_IncomingAmtMsat e = Some a"
  shows "\<exists>t. SetChannelStateBalanceHtlcEvent env e s = Served t None"
proof -
  have no_panic: "htlc_outgoing_step e channels \<noteq> Inl p" for channels p
    using assms by (auto simp: htlc_outgoing_step_def outgoing_htlc_def Let_def split: option.splits)
  have "\<exists>t. writeHtlcEvent e s = Served t None"
    by (auto simp: writeHtlcEvent_def no_panic split: option.splits sum.splits)
  then show ?thesis
    by (simp add: SetChannelStateBalanceHtlcEvent_def processManagedChannelStateSettings_def)
qed

theorem htlc_event_twice_restores_witness:
  "\<exists>t u. SetChannelStateBalanceHtlcEvent (exampleEnv 0) exampleHtlcEvent exampleCache = Served t None \<and>
     SetChannelStateBalanceHtlcEvent (exampleEnv 0) exampleHtlcEvent t = Served u None \<and>
     cached u 1 7 = Some exampleSettings"
proof -
  have amt: "he_IncomingAmtMsat exampleHtlcEvent = Some 3000" by (simp add: exampleHtlcEvent_def)
  obtain t u where tu: "SetChannelStateBalanceHtlcEvent (exampleEnv 0) exampleHtlcEvent exampleCache = Served t None"
    "SetChannelStateBalanceHtlcEvent (exampleEnv 0) exampleHtlcEvent t = Served u None"
    using htlc_event_served [OF amt] by blast
  have "\<forall>n c. cached u n c = cached exampleCache n c"
    by (rule htlc_event_twice_restores [OF tu])
      (auto simp: exampleHtlcEvent_def not_pending_def cached_def exampleCache_def exampleSettings_def
        split: if_splits)
  with tu show ?thesis by auto
qed

lemma htlc_event_without_incoming_amount_crashes_witness:
  "SetChannelStateBalanceHtlcEvent (exampleEnv 0)
     (zeroHtlcEvent\<lparr>ev_NodeId := 1, he_OutgoingChannelId := Some 7, he_OutgoingAmtMsat := Some 2000,
                    he_OutgoingHtlcId := Some 5\<rparr>) exampleCache
   = Crashed ''nil pointer dereference''"
  by (rule htlc_event_without_incoming_amount_crashes [where c = 7 and cs = exampleSettings])
    (simp_all add: zeroHtlcEvent_def)

section \<open>Node status and routing policies\<close>

lemma GetChannelState_ready:
  assumes "n \<noteq> 0" and "c \<noteq> 0"
  shows "GetChannelState env s n c force =
    Some (if isNodeReady (env_now env) (settingsStatus s) n (deactivationTime s) force
          then cached s n c else None)"
  using assms
  by (auto simp: GetChannelState_def processManagedChannelStateSettings_def readChannelState_def
      Let_def cached_def split: option.splits)

text \<open>
  when the data of an active (or so far unknown) node is marked with another status, its
  channel states are still answered for exactly 15 seconds after that moment, and afterwards only
  to requests that force a response.
\<close>

lemma node_status_grace_period:
  assumes "n \<noteq> 0" and "c \<noteq> 0" and "st \<noteq> Active"
    and "settingsStatus s n = Some Active \<or> settingsStatus s n = None"
    and "SetChannelStateNodeStatus env n st s = Served t r"
  shows "GetChannelState env' t n c force =
    Some (if force \<or> env_now env' - env_now env < 15 * second then cached s n c else None)"
proof -
  have t: "t = writeNodeStatus (env_now env)
      ((stateRequest WRITE_CHANNELSTATE_NODESTATUS)\<lparr>st_NodeId := n, st_Status := st\<rparr>) s"
    using assms(5) by (simp add: SetChannelStateNodeStatus_def processManagedChannelStateSettings_def)
  have "deactivationTime t n = Some (env_now env)" "settingsStatus t n = Some st"
    "settingsByChannelId t = settingsByChannelId s"
    using assms(1,3,4) unfolding t by (auto simp: writeNodeStatus_def Let_def)
  then show ?thesis
    using assms(1-3) by (simp add: GetChannelState_ready isNodeReady_iff cached_def)
qed

lemma node_status_grace_period_witness:
  "\<exists>t. SetChannelStateNodeStatus (exampleEnv 0) 1 Inactive exampleCache = Served t None \<and>
     GetChannelState (exampleEnv (14 * second)) t 1 7 False = Some (Some exampleSettings) \<and>
     GetChannelState (exampleEnv (15 * second)) t 1 7 False = Some None"
proof -
  obtain t where t: "SetChannelStateNodeStatus (exampleEnv 0) 1 Inactive exampleCache = Served t None"
    by (simp add: SetChannelStateNodeStatus_def processManagedChannelStateSettings_def)
  have "settingsStatus exampleCache 1 = Some Active \<or> settingsStatus exampleCache 1 = None"
    by (simp add: exampleCache_def)
  from node_status_grace_period [OF _ _ _ this t] t show ?thesis
    by (simp add: exampleEnv_def second_def)
qed

text \<open>
  a routing policy that arrives for a ready node replaces the six policy fields of the side it
  names and nothing else of that channel, and no other channel changes.
\<close>

lemma SetChannelStateRoutingPolicy_effect:
  assumes "n \<noteq> 0" and "c \<noteq> 0"
    and "isNodeReady (env_now env) (settingsStatus s) n (deactivationTime s) False"
    and "GetChannelState env s n c True = Some (Some cs)"
    and "SetChannelStateRoutingPolicy env n c isLocal p s = Served t r"
  shows "GetChannelState env t n c True = Some (Some
      (if isLocal
       then cs\<lparr>css_LocalDisabled := cged_Disabled p, css_LocalTimeLockDelta := cged_TimeLockDelta p,
              css_LocalMinHtlcMsat := cged_MinHtlcMsat p, css_LocalMaxHtlcMsat := cged_MaxHtlcMsat p,
              css_LocalFeeBaseMsat := cged_FeeBaseMsat p, css_LocalFeeRateMilliMsat := cged_FeeRateMilliMsat p\<rparr>
       else cs\<lparr>css_RemoteDisabled := cged_Disabled p, css_RemoteTimeLockDelta := cged_TimeLockDelta p,
              css_RemoteMinHtlcMsat := cged_MinHtlcMsat p, css_RemoteMaxHtlcMsat := cged_MaxHtlcMsat p,
              css_RemoteFeeBaseMsat := cged_FeeBaseMsat p, css_RemoteFeeRateMilliMsat := cged_FeeRateMilliMsat p\<rparr>)) \<and>
    (\<forall>n' c'. n' \<noteq> 0 \<and> c' \<noteq> 0 \<and> (n', c') \<noteq> (n, c) \<longrightarrow>
       GetChannelState env t n' c' True = GetChannelState env s n' c' True)"
proof -
  have cs: "cached s n c = Some cs" using assms(1,2,4) by (simp add: GetChannelState_force)
  let ?m = "(stateRequest WRITE_CHANNELSTATE_ROUTINGPOLICY)
       \<lparr>st_NodeId := n, st_ChannelId := c, st_Local := isLocal,
        st_Disabled := cged_Disabled p, st_TimeLockDelta := cged_TimeLockDelta p,
        st_MinHtlcMsat := cged_MinHtlcMsat p, st_MaxHtlcMsat := cged_MaxHtlcMsat p,
        st_FeeBaseMsat := cged_FeeBaseMsat p, st_FeeRateMilliMsat := cged_FeeRateMilliMsat p\<rparr>"
  have "t = update_channel n c (apply_policy ?m) s"
    using assms(1,2,3,5)
    by (simp add: SetChannelStateRoutingPolicy_def processManagedChannelStateSettings_def writeRoutingPolicy_def)
  then show ?thesis
    using assms(1,2) cs
    by (auto simp: GetChannelState_force cached_update_channel apply_policy_def)
qed

lemma SetChannelStateRoutingPolicy_effect_witness:
  "\<exists>t cs. SetChannelStateRoutingPolicy (exampleEnv 0) 1 7 True
       \<lparr>cged_Disabled = True, cged_TimeLockDelta = 40, cged_MinHtlcMsat = 1, cged_MaxHtlcMsat = 2,
        cged_FeeBaseMsat = 3, cged_FeeRateMilliMsat = 4\<rparr> exampleCache = Served t None \<and>
     GetChannelState (exampleEnv 0) t 1 7 True = Some (Some cs) \<and> css_LocalTimeLockDelta cs = 40"
proof -
  let ?p = "\<lparr>cged_Disabled = True, cged_TimeLockDelta = 40, cged_MinHtlcMsat = 1, cged_MaxHtlcMsat = 2,
        cged_FeeBaseMsat = 3, cged_FeeRateMilliMsat = 4\<rparr>"
  obtain t where t: "SetChannelStateRoutingPolicy (exampleEnv 0) 1 7 True ?p exampleCache = Served t None"
    by (simp add: SetChannelStateRoutingPolicy_def processManagedChannelStateSettings_def)
  have "isNodeReady (env_now (exampleEnv 0)) (settingsStatus exampleCache) 1 (deactivationTime exampleCache) False"
    by (simp add: isNodeReady_iff exampleCache_def)
  moreover have "GetChannelState (exampleEnv 0) exampleCache 1 7 True = Some (Some exampleSettings)"
    by (simp add: GetChannelState_force)
  ultimately show ?thesis
    using SetChannelStateRoutingPolicy_effect [OF _ _ _ _ t, of exampleSettings] t by auto
qed

section \<open>Balance states of all channels of a node\<close>

text \<open>The channels of the channel cache that the loop reports, and what it reports for each.\<close>

definition reported ::
    "ManagedChannelState \<Rightarrow> node_channels \<Rightarrow> ManagedChannelSettings \<Rightarrow> bool" where
  "reported m channels cs \<longleftrightarrow>
     mcs_Status cs = Open \<and>
     (\<exists>settings. map_of channels (mcs_ChannelId cs) = Some settings \<and>
        (css_LocalDisabled settings \<longrightarrow> st_StateInclude m = ALL_CHANNELS) \<and>
        (css_RemoteDisabled settings \<longrightarrow> st_StateInclude m \<noteq> ALL_LOCAL_AND_REMOTE_ACTIVE_CHANNELS))"

lemma collect_balances_Ok:
  "collect_balances m channels css = Ok bs \<Longrightarrow>
   list_all2 (\<lambda>cs b. \<exists>settings. map_of channels (mcs_ChannelId cs) = Some settings \<and>
       processHtlcInclude m settings (mcs_Capacity cs) = Ok b)
     (filter (reported m channels) css) bs"
  by (induction css arbitrary: bs)
    (auto simp: reported_def split: if_splits option.splits sum.splits)

lemma processHtlcInclude_ChannelId:
  "processHtlcInclude m settings cap = Ok b \<Longrightarrow> cbs_ChannelId b = st_ChannelId m"
  by (auto simp: processHtlcInclude_def Let_def split: if_splits)

text \<open>
  the balance states of a node are computed, in the order of the channel cache, for exactly its
  open channels that are cached and not excluded as disabled, each with the capacity the channel
  cache gives for that channel.  All of them carry the channel id of the request instead of their
  own.
\<close>

lemma readAllChannelBalanceStates_spec:
  assumes "registry_valid c" and "env_by_node env = registry_by_node c"
    and "env_setting env = registry_setting c"
    and "st_NodeId m \<noteq> 0" and "settingsByChannelId s (st_NodeId m) = Some channels"
    and "isNodeReady (env_now env) (settingsStatus s) (st_NodeId m) (deactivationTime s) (st_ForceResponse m)"
    and "readAllChannelBalanceStates env m s = Served t (Some (BalanceStatesOut bs))"
  shows "list_all2 (\<lambda>x b. (mcs_FirstNodeId x = st_NodeId m \<or> mcs_SecondNodeId x = st_NodeId m) \<and>
        cbs_ChannelId b = st_ChannelId m \<and>
        (\<exists>settings. map_of channels (mcs_ChannelId x) = Some settings \<and>
           processHtlcInclude m settings (mcs_Capacity (env_setting env (mcs_ChannelId x))) = Ok b))
     (filter (reported m channels) (env_by_node env (st_NodeId m))) bs"
proof -
  have "collect_balances m channels (env_by_node env (st_NodeId m)) = Ok bs"
    using assms(4-7) by (auto simp: readAllChannelBalanceStates_def Let_def split: sum.splits)
  then have all: "list_all2 (\<lambda>x b. \<exists>settings. map_of channels (mcs_ChannelId x) = Some settings \<and>
       processHtlcInclude m settings (mcs_Capacity x) = Ok b)
     (filter (reported m channels) (env_by_node env (st_NodeId m))) bs"
    by (rule collect_balances_Ok)
  have member: "(mcs_FirstNodeId x = st_NodeId m \<or> mcs_SecondNodeId x = st_NodeId m) \<and>
      mcs_Capacity (env_setting env (mcs_ChannelId x)) = mcs_Capacity x"
    if "x \<in> set (filter (reported m channels) (env_by_node env (st_NodeId m)))" for x
    using that assms(1-4) channel_cache_registry.by_node_names channel_cache_registry.by_node_capacity
    by simp
  from all show ?thesis
    by (rule list.rel_mono_strong) (use member processHtlcInclude_ChannelId in fastforce)
qed

lemma readAllChannelBalanceStates_spec_witness:
  "\<exists>s bs. readAllChannelBalanceStates
       \<lparr>env_now = 0, env_setting = registry_setting ((rev, rev), exampleChannelState),
        env_by_node = registry_by_node ((rev, rev), exampleChannelState), env_order = (\<lambda>m. m)\<rparr>
       ((stateRequest READ_ALL_CHANNELBALANCESTATES)\<lparr>st_NodeId := 3, st_BalanceStatesOut := True\<rparr>) s
     = Served s (Some (BalanceStatesOut bs)) \<and> length bs = 1 \<and> cbs_ChannelId (hd bs) = 0"
proof -
  let ?c = "((rev, rev), exampleChannelState) :: channel_orders \<times> ChannelState"
  let ?env = "\<lparr>env_now = 0, env_setting = registry_setting ?c, env_by_node = registry_by_node ?c,
    env_order = (\<lambda>m. m)\<rparr> :: StateEnv"
  let ?m = "(stateRequest READ_ALL_CHANNELBALANCESTATES)\<lparr>st_NodeId := 3, st_BalanceStatesOut := True\<rparr>"
  let ?s = "exampleCache\<lparr>settingsByChannelId := [3 \<mapsto> [(7, exampleSettings)]], settingsStatus := [3 \<mapsto> Active]\<rparr>"
  have valid: "registry_valid ?c" by (simp add: registry_valid_def exampleChannelState_ok)
  obtain x where x: "registry_by_node ?c 3 = [x]" "mcs_ChannelId x = 7" "mcs_Status x = Open" "mcs_Capacity x = 1000"
    by (simp add: registry_by_node_def node_reads channels_of_node_def exampleChannelState_eq)
  obtain b where "processHtlcInclude ?m exampleSettings 1000 = Ok b"
    by (simp add: processHtlcInclude_def Let_def)
  then have "collect_balances ?m [(7, exampleSettings)] [x] = Ok [b]"
    using x(2-4) by (simp add: exampleSettings_def)
  moreover have ready: "isNodeReady (env_now ?env) (settingsStatus ?s) (st_NodeId ?m)
      (deactivationTime ?s) (st_ForceResponse ?m)"
    by (simp add: isNodeReady_iff)
  ultimately have step: "readAllChannelBalanceStates ?env ?m ?s = Served ?s (Some (BalanceStatesOut [b]))"
    using x(1) by (simp add: readAllChannelBalanceStates_def Let_def)
  have chs: "settingsByChannelId ?s (st_NodeId ?m) = Some [(7, exampleSettings)]" by simp
  have rep: "filter (reported ?m [(7, exampleSettings)]) (env_by_node ?env (st_NodeId ?m)) = [x]"
    using x by (simp add: reported_def exampleSettings_def)
  from readAllChannelBalanceStates_spec [OF valid _ _ _ chs ready step]
  have "cbs_ChannelId b = 0" unfolding rep by simp
  with step show ?thesis by (intro exI [of _ ?s] exI [of _ "[b]"]) simp
qed

end
