(* ===== verification/Services.thy ===== *)
theory Services
  imports Events
begin

text \<open>
  The registry of running services, \<open>src/pkg/commons/services.go\<close>: per node the status of the
  service, its cancel function, boot lock and times, and for the LND service the status of each
  subscription stream.  Every method holds the registry's mutex from start to end, so each is one
  step on the state.  A nil map of the Go struct is the empty map.  The boot lock of a node is
  created by \<open>GetBootLock\<close> and never replaced, so the lock is named by its node and the state
  keeps whether it is locked; a cancel function is named by a number.
\<close>

section \<open>State\<close>

type_synonym stream_statuses = "(SubscriptionStream \<times> Status) list"

record Services =
  sv_ServiceType :: ServiceType
  sv_serviceStatus :: "(int \<times> Status) list"
  sv_runningList :: "int \<rightharpoonup> nat"
  sv_bootLock :: "int \<rightharpoonup> bool"
  sv_bootTime :: "int \<rightharpoonup> time"
  sv_cancelTime :: "int \<rightharpoonup> time"
  sv_enforcedServiceStatus :: "int \<rightharpoonup> Status option"
  sv_noDelay :: "int \<rightharpoonup> bool"
  sv_streamStatus :: "int \<rightharpoonup> stream_statuses"
  sv_streamBootTime :: "int \<rightharpoonup> (SubscriptionStream \<rightharpoonup> time)"
  sv_streamInitializationPingTime :: "int \<rightharpoonup> (SubscriptionStream \<rightharpoonup> time)"
  sv_includeIncomplete :: "int \<rightharpoonup> bool"

definition emptyServices :: "ServiceType \<Rightarrow> Services" where
  "emptyServices ty =
     \<lparr>sv_ServiceType = ty, sv_serviceStatus = [], sv_runningList = Map.empty,
      sv_bootLock = Map.empty, sv_bootTime = Map.empty, sv_cancelTime = Map.empty,
      sv_enforcedServiceStatus = Map.empty, sv_noDelay = Map.empty, sv_streamStatus = Map.empty,
      sv_streamBootTime = Map.empty, sv_streamInitializationPingTime = Map.empty,
      sv_includeIncomplete = Map.empty\<rparr>"

abbreviation status_of :: "Services \<Rightarrow> int \<Rightarrow> Status" where
  "status_of rs nodeId \<equiv> aget Inactive (sv_serviceStatus rs) nodeId"

abbreviation stream_status :: "Services \<Rightarrow> int \<Rightarrow> SubscriptionStream \<Rightarrow> Status" where
  "stream_status rs nodeId stream \<equiv> aget Inactive (mget [] (sv_streamStatus rs) nodeId) stream"

definition ensure :: "int \<Rightarrow> 'v \<Rightarrow> (int \<rightharpoonup> 'v) \<Rightarrow> (int \<rightharpoonup> 'v)" where
  "ensure nodeId v m = (case m nodeId of None \<Rightarrow> m(nodeId \<mapsto> v) | Some w \<Rightarrow> m)"

definition initServiceMaps :: "int \<Rightarrow> Services \<Rightarrow> Services" where
  "initServiceMaps nodeId rs =
     rs\<lparr>sv_streamStatus := ensure nodeId [] (sv_streamStatus rs),
        sv_streamBootTime := ensure nodeId Map.empty (sv_streamBootTime rs),
        sv_streamInitializationPingTime := ensure nodeId Map.empty (sv_streamInitializationPingTime rs)\<rparr>"

text \<open>The event goes out only when the status changed and there is a channel to send it on.\<close>

definition sendServiceEvent ::
    "time \<Rightarrow> int \<Rightarrow> bool \<Rightarrow> Status \<Rightarrow> Status \<Rightarrow> ServiceType \<Rightarrow> SubscriptionStream option \<Rightarrow> ServiceEvent list" where
  "sendServiceEvent now nodeId eventChannel previousStatus status serviceType stream =
     (if previousStatus \<noteq> status \<and> eventChannel
      then [\<lparr>ev_EventTime = now, ev_NodeId = nodeId, se_Type = serviceType,
             se_SubscriptionStream = stream, se_Status = status, se_PreviousStatus = previousStatus\<rparr>]
      else [])"

definition setStreamStatuses :: "int \<Rightarrow> Status \<Rightarrow> Services \<Rightarrow> Services" where
  "setStreamStatuses nodeId status rs =
     rs\<lparr>sv_streamStatus := (sv_streamStatus rs)
          (nodeId \<mapsto> foldl (\<lambda>m ss. aput ss status m) [] SubscriptionStreams)\<rparr>"

definition set_status :: "int \<Rightarrow> Status \<Rightarrow> Services \<Rightarrow> Services" where
  "set_status nodeId status rs = rs\<lparr>sv_serviceStatus := aput nodeId status (sv_serviceStatus rs)\<rparr>"

section \<open>Operations\<close>

definition AddSubscription ::
    "time \<Rightarrow> int \<Rightarrow> nat \<Rightarrow> bool \<Rightarrow> Services \<Rightarrow> Services \<times> ServiceEvent list" where
  "AddSubscription now nodeId cancelFunc eventChannel rs =
     (let r0 = initServiceMaps nodeId rs;
          previousStatus = status_of r0 nodeId;
          r1 = set_status nodeId Pending
                 (r0\<lparr>sv_runningList := (sv_runningList r0)(nodeId \<mapsto> cancelFunc)\<rparr>);
          r2 = (if sv_ServiceType r1 = LndService then setStreamStatuses nodeId Inactive r1 else r1)
      in (r2, sendServiceEvent now nodeId eventChannel previousStatus (status_of r2 nodeId) (sv_ServiceType r2) None))"

definition RemoveSubscription :: "time \<Rightarrow> int \<Rightarrow> bool \<Rightarrow> Services \<Rightarrow> Services \<times> ServiceEvent list" where
  "RemoveSubscription now nodeId eventChannel rs =
     (let r0 = initServiceMaps nodeId rs;
          previousStatus = status_of r0 nodeId;
          r1 = (if sv_runningList r0 nodeId \<noteq> None
                then set_status nodeId Inactive
                       (r0\<lparr>sv_runningList := (sv_runningList r0)(nodeId := None)\<rparr>)
                else r0);
          r2 = (if sv_ServiceType r1 = LndService then setStreamStatuses nodeId Inactive r1 else r1)
      in (r2, sendServiceEvent now nodeId eventChannel previousStatus (status_of r2 nodeId) (sv_ServiceType r2) None))"

text \<open>The result also names the cancel function that was called.\<close>

definition Cancel ::
    "time \<Rightarrow> int \<Rightarrow> Status option \<Rightarrow> bool \<Rightarrow> bool \<Rightarrow> Services \<Rightarrow>
     Services \<times> ServiceEvent list \<times> nat option \<times> Status" where
  "Cancel now nodeId enforcedServiceStatus noDelay eventChannel rs =
     (let r0 = initServiceMaps nodeId rs;
          previousStatus = status_of r0 nodeId
      in case sv_runningList r0 nodeId of
           None \<Rightarrow> (r0, [], None, Inactive)
         | Some cancelFunc \<Rightarrow>
             (if sv_bootLock r0 nodeId = Some True then (r0, [], None, Pending)
              else
                let r1 = r0\<lparr>sv_noDelay := (sv_noDelay r0)(nodeId \<mapsto> noDelay),
                            sv_enforcedServiceStatus :=
                              (sv_enforcedServiceStatus r0)(nodeId \<mapsto> enforcedServiceStatus),
                            sv_runningList := (sv_runningList r0)(nodeId := None),
                            sv_cancelTime := (sv_cancelTime r0)(nodeId \<mapsto> now)\<rparr>;
                    r2 = setStreamStatuses nodeId Inactive (set_status nodeId Inactive r1)
                in (r2, sendServiceEvent now nodeId eventChannel previousStatus (status_of r2 nodeId)
                          (sv_ServiceType r2) None,
                    Some cancelFunc, Active)))"

definition GetEnforcedServiceStatusCheck :: "int \<Rightarrow> Services \<Rightarrow> Services \<times> Status option" where
  "GetEnforcedServiceStatusCheck nodeId rs =
     (let r0 = initServiceMaps nodeId rs in
      case sv_enforcedServiceStatus r0 nodeId of
        Some enforced \<Rightarrow>
          (r0\<lparr>sv_enforcedServiceStatus := (sv_enforcedServiceStatus r0)(nodeId := None)\<rparr>, enforced)
      | None \<Rightarrow> (r0, None))"

definition IsNoDelay :: "int \<Rightarrow> Services \<Rightarrow> Services \<times> bool" where
  "IsNoDelay nodeId rs =
     (let r0 = initServiceMaps nodeId rs in
      case sv_noDelay r0 nodeId of
        Some noDelay \<Rightarrow> (r0\<lparr>sv_noDelay := (sv_noDelay r0)(nodeId := None)\<rparr>, noDelay)
      | None \<Rightarrow> (r0, False))"

text \<open>The loop of \<open>GetStatus\<close>: the first status that is not active, \<open>Pending\<close> once a second one differs.\<close>

fun stream_summary :: "Status option \<Rightarrow> Status list \<Rightarrow> Status" where
  "stream_summary acc [] = (case acc of None \<Rightarrow> Active | Some st \<Rightarrow> st)"
| "stream_summary acc (st # rest) =
     (if st \<noteq> Active
      then (case acc of
              None \<Rightarrow> stream_summary (Some st) rest
            | Some first \<Rightarrow> if first \<noteq> st then Pending else stream_summary acc rest)
      else stream_summary acc rest)"

definition GetStatus :: "(SubscriptionStream, Status) order \<Rightarrow> int \<Rightarrow> Services \<Rightarrow> Services \<times> Status" where
  "GetStatus ord nodeId rs =
     (let r0 = initServiceMaps nodeId rs in
      (r0, case map_of (sv_serviceStatus r0) nodeId of
             None \<Rightarrow> Inactive
           | Some serviceStatus \<Rightarrow>
               if serviceStatus \<noteq> Active then serviceStatus
               else if sv_ServiceType r0 = LndService
               then stream_summary None (map snd (ord (mget [] (sv_streamStatus r0) nodeId)))
               else Active))"

definition GetNodeIds :: "(int, Status) order \<Rightarrow> Services \<Rightarrow> int list" where
  "GetNodeIds ord rs = map fst (ord (sv_serviceStatus rs))"

definition GetActiveNodeIds :: "(int, Status) order \<Rightarrow> (SubscriptionStream, Status) order \<Rightarrow> Services \<Rightarrow> int list" where
  "GetActiveNodeIds ord ordS rs =
     concat (map (\<lambda>(nodeId, serviceStatus).
       if serviceStatus \<noteq> Active then []
       else if sv_ServiceType rs = LndService \<and>
               list_ex (\<lambda>(stream, st). st \<noteq> Active) (ordS (mget [] (sv_streamStatus rs) nodeId))
       then [] else [nodeId]) (ord (sv_serviceStatus rs)))"

definition GetStreamStatus :: "int \<Rightarrow> SubscriptionStream \<Rightarrow> Services \<Rightarrow> Services \<times> Status" where
  "GetStreamStatus nodeId stream rs =
     (let r0 = initServiceMaps nodeId rs in
      (r0, case map_of (sv_serviceStatus r0) nodeId of
             None \<Rightarrow> Inactive
           | Some serviceStatus \<Rightarrow>
               if serviceStatus \<noteq> Active then serviceStatus
               else (case map_of (mget [] (sv_streamStatus r0) nodeId) stream of
                       Some streamStatus \<Rightarrow> streamStatus
                     | None \<Rightarrow> Inactive)))"

definition GetStreamBootTime :: "int \<Rightarrow> SubscriptionStream \<Rightarrow> Services \<Rightarrow> Services \<times> time option" where
  "GetStreamBootTime nodeId stream rs =
     (let r0 = initServiceMaps nodeId rs in
      (r0, if map_of (sv_serviceStatus r0) nodeId \<noteq> Some Active then None
           else if map_of (mget [] (sv_streamStatus r0) nodeId) stream \<noteq> Some Active then None
           else mget Map.empty (sv_streamBootTime r0) nodeId stream))"

definition GetStreamInitializationPingTime :: "int \<Rightarrow> SubscriptionStream \<Rightarrow> Services \<Rightarrow> Services \<times> time option" where
  "GetStreamInitializationPingTime nodeId stream rs =
     (let r0 = initServiceMaps nodeId rs in
      (r0, case sv_streamInitializationPingTime r0 nodeId of
             None \<Rightarrow> None
           | Some m \<Rightarrow> m stream))"

definition GetChannelBalanceCacheStreamStatus :: "int \<Rightarrow> Services \<Rightarrow> Services \<times> Status" where
  "GetChannelBalanceCacheStreamStatus nodeId rs =
     (let r0 = initServiceMaps nodeId rs in
      (r0, case map_of (sv_serviceStatus r0) nodeId of
             None \<Rightarrow> Inactive
           | Some serviceStatus \<Rightarrow>
               if serviceStatus \<noteq> Active then serviceStatus
               else stream_summary None
                      (map (stream_status r0 nodeId)
                        (filter (\<lambda>stream. IsChannelBalanceCache (Some stream)) SubscriptionStreams))))"

definition GetBootTime :: "int \<Rightarrow> Services \<Rightarrow> Services \<times> time option" where
  "GetBootTime nodeId rs =
     (let r0 = initServiceMaps nodeId rs in
      (r0, if map_of (sv_serviceStatus r0) nodeId \<noteq> Some Active then None
           else sv_bootTime r0 nodeId))"

text \<open>The lock is returned by its name, the node.\<close>

definition GetBootLock :: "int \<Rightarrow> Services \<Rightarrow> Services \<times> int" where
  "GetBootLock nodeId rs =
     (let r0 = initServiceMaps nodeId rs in
      (if sv_bootLock r0 nodeId = None
       then r0\<lparr>sv_bootLock := (sv_bootLock r0)(nodeId \<mapsto> False)\<rparr> else r0, nodeId))"

text \<open>\<open>TryLock\<close> of a boot lock obtained before, as the boot code calls it on the mutex.\<close>

definition TryLock :: "int \<Rightarrow> Services \<Rightarrow> Services \<times> bool" where
  "TryLock lock rs =
     (if sv_bootLock rs lock = Some False
      then (rs\<lparr>sv_bootLock := (sv_bootLock rs)(lock \<mapsto> True)\<rparr>, True) else (rs, False))"

definition GetIncludeIncomplete :: "int \<Rightarrow> Services \<Rightarrow> Services \<times> bool" where
  "GetIncludeIncomplete nodeId rs =
     (let r0 = initServiceMaps nodeId rs in (r0, mget False (sv_includeIncomplete r0) nodeId))"

definition SetIncludeIncomplete :: "int \<Rightarrow> bool \<Rightarrow> Services \<Rightarrow> Services" where
  "SetIncludeIncomplete nodeId includeIncomplete rs =
     (let r0 = initServiceMaps nodeId rs in
      r0\<lparr>sv_includeIncomplete := (sv_includeIncomplete r0)(nodeId \<mapsto> includeIncomplete)\<rparr>)"

definition Initialising :: "time \<Rightarrow> int \<Rightarrow> bool \<Rightarrow> Services \<Rightarrow> Services \<times> ServiceEvent list" where
  "Initialising now nodeId eventChannel rs =
     (let r0 = initServiceMaps nodeId rs;
          previousStatus = status_of r0 nodeId;
          r1 = set_status nodeId Initializing r0
      in (r1, sendServiceEvent now nodeId eventChannel previousStatus (status_of r1 nodeId) (sv_ServiceType r1) None))"

text \<open>Unlocking a mutex that is not locked is a fatal error of the Go runtime.\<close>

definition Booted ::
    "time \<Rightarrow> int \<Rightarrow> int option \<Rightarrow> bool \<Rightarrow> Services \<Rightarrow> (Services, ServiceEvent list) outcome" where
  "Booted now nodeId bootLock eventChannel rs =
     (case (case bootLock of
              None \<Rightarrow> Some rs
            | Some lock \<Rightarrow>
                if sv_bootLock rs lock = Some True
                then Some (rs\<lparr>sv_bootLock := (sv_bootLock rs)(lock \<mapsto> False)\<rparr>) else None) of
        None \<Rightarrow> Crashed ''unlock of unlocked mutex''
      | Some unlocked \<Rightarrow>
          (let r0 = initServiceMaps nodeId unlocked;
               previousStatus = status_of r0 nodeId;
               r1 = set_status nodeId Active (r0\<lparr>sv_bootTime := (sv_bootTime r0)(nodeId \<mapsto> now)\<rparr>);
               r2 = (if sv_ServiceType r1 = LndService then setStreamStatuses nodeId Pending r1 else r1)
           in Served r2 (Some (sendServiceEvent now nodeId eventChannel previousStatus
                                 (status_of r2 nodeId) (sv_ServiceType r2) None))))"

definition SetStreamStatus ::
    "time \<Rightarrow> int \<Rightarrow> SubscriptionStream \<Rightarrow> Status \<Rightarrow> bool \<Rightarrow> Services \<Rightarrow> Services \<times> ServiceEvent list" where
  "SetStreamStatus now nodeId stream status eventChannel rs =
     (let r0 = initServiceMaps nodeId rs;
          r1 = (if status = Initializing
                then r0\<lparr>sv_streamInitializationPingTime := (sv_streamInitializationPingTime r0)
                          (nodeId \<mapsto> (mget Map.empty (sv_streamInitializationPingTime r0) nodeId)(stream \<mapsto> now))\<rparr>
                else r0);
          previousStatus = stream_status r1 nodeId stream
      in if previousStatus = status then (r1, [])
         else
           let r2 = r1\<lparr>sv_streamStatus := (sv_streamStatus r1)
                         (nodeId \<mapsto> aput stream status (mget [] (sv_streamStatus r1) nodeId))\<rparr>;
               r3 = (if status = Active
                     then r2\<lparr>sv_streamBootTime := (sv_streamBootTime r2)
                               (nodeId \<mapsto> (mget Map.empty (sv_streamBootTime r2) nodeId)(stream \<mapsto> now))\<rparr>
                     else r2)
           in (r3, sendServiceEvent now nodeId eventChannel previousStatus (stream_status r3 nodeId stream)
                     (sv_ServiceType r3) (Some stream)))"

section \<open>Sequences of calls\<close>

text \<open>
  The calls that change the state.  \<open>CallRead\<close> stands for the reading methods, whose only effect
  is that of \<open>initServiceMaps\<close>; the clock is part of a call.
\<close>

datatype ServiceCall =
    CallAdd time int nat
  | CallRemove time int
  | CallCancel time int "Status option" bool
  | CallEnforced int
  | CallNoDelay int
  | CallRead int
  | CallBootLock int
  | CallTryLock int
  | CallSetIncludeIncomplete int bool
  | CallInitialising time int
  | CallBooted time int "int option"
  | CallSetStreamStatus time int SubscriptionStream Status

definition service_call :: "Services \<Rightarrow> ServiceCall \<Rightarrow> (Services, ServiceEvent list) outcome" where
  "service_call rs call =
     (case call of
        CallAdd now n cancelFunc \<Rightarrow>
          (let x = AddSubscription now n cancelFunc True rs in Served (fst x) (Some (snd x)))
      | CallRemove now n \<Rightarrow>
          (let x = RemoveSubscription now n True rs in Served (fst x) (Some (snd x)))
      | CallCancel now n enforced noDelay \<Rightarrow>
          (let x = Cancel now n enforced noDelay True rs in Served (fst x) (Some (fst (snd x))))
      | CallEnforced n \<Rightarrow> Served (fst (GetEnforcedServiceStatusCheck n rs)) (Some [])
      | CallNoDelay n \<Rightarrow> Served (fst (IsNoDelay n rs)) (Some [])
      | CallRead n \<Rightarrow> Served (initServiceMaps n rs) (Some [])
      | CallBootLock n \<Rightarrow> Served (fst (GetBootLock n rs)) (Some [])
      | CallTryLock n \<Rightarrow> Served (fst (TryLock n rs)) (Some [])
      | CallSetIncludeIncomplete n b \<Rightarrow> Served (SetIncludeIncomplete n b rs) (Some [])
      | CallInitialising now n \<Rightarrow>
          (let x = Initialising now n True rs in Served (fst x) (Some (snd x)))
      | CallBooted now n lock \<Rightarrow> Booted now n lock True rs
      | CallSetStreamStatus now n stream st \<Rightarrow>
          (let x = SetStreamStatus now n stream st True rs in Served (fst x) (Some (snd x))))"

lemma reads_only_init:
  "fst (GetStatus ord n rs) = initServiceMaps n rs"
  "fst (GetStreamStatus n stream rs) = initServiceMaps n rs"
  "fst (GetStreamBootTime n stream rs) = initServiceMaps n rs"
  "fst (GetStreamInitializationPingTime n stream rs) = initServiceMaps n rs"
  "fst (GetChannelBalanceCacheStreamStatus n rs) = initServiceMaps n rs"
  "fst (GetBootTime n rs) = initServiceMaps n rs"
  "fst (GetIncludeIncomplete n rs) = initServiceMaps n rs"
  by (simp_all add: GetStatus_def GetStreamStatus_def GetStreamBootTime_def GetBootTime_def
      GetStreamInitializationPingTime_def GetChannelBalanceCacheStreamStatus_def
      GetIncludeIncomplete_def Let_def)

lemma ensure_simps [simp]:
  "mget z (ensure n z m) k = mget z m k"
  "ensure n v m n \<noteq> None"
  by (auto simp: ensure_def mget_def split: option.splits)

lemma initServiceMaps_simps [simp]:
  "sv_ServiceType (initServiceMaps n rs) = sv_ServiceType rs"
  "sv_serviceStatus (initServiceMaps n rs) = sv_serviceStatus rs"
  "sv_runningList (initServiceMaps n rs) = sv_runningList rs"
  "sv_bootLock (initServiceMaps n rs) = sv_bootLock rs"
  "sv_bootTime (initServiceMaps n rs) = sv_bootTime rs"
  "sv_cancelTime (initServiceMaps n rs) = sv_cancelTime rs"
  "sv_enforcedServiceStatus (initServiceMaps n rs) = sv_enforcedServiceStatus rs"
  "sv_noDelay (initServiceMaps n rs) = sv_noDelay rs"
  "sv_includeIncomplete (initServiceMaps n rs) = sv_includeIncomplete rs"
  "mget [] (sv_streamStatus (initServiceMaps n rs)) k = mget [] (sv_streamStatus rs) k"
  "mget Map.empty (sv_streamBootTime (initServiceMaps n rs)) k = mget Map.empty (sv_streamBootTime rs) k"
  by (simp_all add: initServiceMaps_def)

lemma map_of_all_streams:
  "map_of (foldl (\<lambda>m ss. aput ss st m) [] SubscriptionStreams) stream = Some st"
proof -
  have "map_of (foldl (\<lambda>m ss. aput ss st m) m0 sss) stream =
      (if stream \<in> set sss then Some st else map_of m0 stream)" for sss m0
    by (induction sss arbitrary: m0) auto
  then show ?thesis by (simp add: SubscriptionStreams_complete)
qed

lemma aget_all_streams: "aget z (foldl (\<lambda>m ss. aput ss st m) [] SubscriptionStreams) stream = st"
  by (rule mget_Some) (rule map_of_all_streams)

lemma keys_distinct_all_streams: "keys_distinct (foldl (\<lambda>m ss. aput ss st m) [] SubscriptionStreams)"
proof -
  have "keys_distinct m0 \<Longrightarrow> keys_distinct (foldl (\<lambda>m ss. aput ss st m) m0 sss)"
    for sss :: "SubscriptionStream list" and m0
    by (induction sss arbitrary: m0) auto
  then show ?thesis by simp
qed

lemma setStreamStatuses_simps [simp]:
  "sv_ServiceType (setStreamStatuses n st rs) = sv_ServiceType rs"
  "sv_serviceStatus (setStreamStatuses n st rs) = sv_serviceStatus rs"
  "sv_runningList (setStreamStatuses n st rs) = sv_runningList rs"
  "sv_bootTime (setStreamStatuses n st rs) = sv_bootTime rs"
  "sv_streamBootTime (setStreamStatuses n st rs) = sv_streamBootTime rs"
  "stream_status (setStreamStatuses n st rs) k stream = (if k = n then st else stream_status rs k stream)"
  "mget [] (sv_streamStatus (setStreamStatuses n st rs)) n = foldl (\<lambda>m ss. aput ss st m) [] SubscriptionStreams"
  by (auto simp: setStreamStatuses_def mget_def map_of_all_streams)

lemma set_status_simps [simp]:
  "sv_ServiceType (set_status n st rs) = sv_ServiceType rs"
  "sv_runningList (set_status n st rs) = sv_runningList rs"
  "sv_bootTime (set_status n st rs) = sv_bootTime rs"
  "sv_streamStatus (set_status n st rs) = sv_streamStatus rs"
  "sv_streamBootTime (set_status n st rs) = sv_streamBootTime rs"
  "map_of (sv_serviceStatus (set_status n st rs)) = (map_of (sv_serviceStatus rs))(n \<mapsto> st)"
  "keys_distinct (sv_serviceStatus rs) \<Longrightarrow> keys_distinct (sv_serviceStatus (set_status n st rs))"
  by (simp_all add: set_status_def)

text \<open>
  The invariant: a service that can be cancelled is pending, initializing or active; an active
  service has a boot time, an active stream a stream boot time.
\<close>

definition live :: "Status \<Rightarrow> bool" where
  "live st \<longleftrightarrow> st = Pending \<or> st = Initializing \<or> st = Active"

lemma live_simps [simp]: "live Pending" "live Initializing" "live Active" "\<not> live Inactive" "\<not> live Deleted"
  by (simp_all add: live_def)

definition services_ok :: "Services \<Rightarrow> bool" where
  "services_ok rs \<longleftrightarrow>
     keys_distinct (sv_serviceStatus rs) \<and>
     (\<forall>n c. sv_runningList rs n = Some c \<longrightarrow> live (status_of rs n)) \<and>
     (\<forall>n. status_of rs n = Active \<longrightarrow> sv_bootTime rs n \<noteq> None) \<and>
     (\<forall>n stream. stream_status rs n stream = Active \<longrightarrow>
        mget Map.empty (sv_streamBootTime rs) n stream \<noteq> None)"

lemma services_ok_init: "services_ok (emptyServices ty)"
  by (simp add: services_ok_def emptyServices_def)

lemma services_ok_initServiceMaps [simp]: "services_ok (initServiceMaps n rs) = services_ok rs"
  by (simp add: services_ok_def)

lemma services_ok_locks [simp]:
  "services_ok (rs\<lparr>sv_bootLock := b\<rparr>) = services_ok rs"
  "services_ok (rs\<lparr>sv_enforcedServiceStatus := e\<rparr>) = services_ok rs"
  "services_ok (rs\<lparr>sv_noDelay := d\<rparr>) = services_ok rs"
  "services_ok (rs\<lparr>sv_cancelTime := c\<rparr>) = services_ok rs"
  "services_ok (rs\<lparr>sv_includeIncomplete := i\<rparr>) = services_ok rs"
  "services_ok (rs\<lparr>sv_streamInitializationPingTime := p\<rparr>) = services_ok rs"
  by (simp_all add: services_ok_def)

lemma services_ok_setStreamStatuses:
  "services_ok rs \<Longrightarrow> st \<noteq> Active \<Longrightarrow> services_ok (setStreamStatuses n st rs)"
  by (simp add: services_ok_def)

lemma services_ok_AddSubscription: "services_ok rs \<Longrightarrow> services_ok (fst (AddSubscription now n c ch rs))"
  by (auto simp: AddSubscription_def Let_def services_ok_def)

lemma services_ok_RemoveSubscription: "services_ok rs \<Longrightarrow> services_ok (fst (RemoveSubscription now n ch rs))"
  by (auto simp: RemoveSubscription_def Let_def services_ok_def)

lemma services_ok_Cancel: "services_ok rs \<Longrightarrow> services_ok (fst (Cancel now n e d ch rs))"
  by (auto simp: Cancel_def Let_def services_ok_def split: option.splits)

lemma services_ok_Initialising: "services_ok rs \<Longrightarrow> services_ok (fst (Initialising now n ch rs))"
  by (auto simp: Initialising_def Let_def services_ok_def)

lemma services_ok_Booted: "services_ok rs \<Longrightarrow> Booted now n lock ch rs = Served t r \<Longrightarrow> services_ok t"
  by (auto simp: Booted_def Let_def services_ok_def split: option.splits if_splits)

lemma services_ok_flags:
  "services_ok rs \<Longrightarrow> services_ok (fst (GetEnforcedServiceStatusCheck n rs))"
  "services_ok rs \<Longrightarrow> services_ok (fst (IsNoDelay n rs))"
  "services_ok rs \<Longrightarrow> services_ok (fst (GetBootLock n rs))"
  "services_ok rs \<Longrightarrow> services_ok (fst (TryLock n rs))"
  "services_ok rs \<Longrightarrow> services_ok (SetIncludeIncomplete n b rs)"
  by (simp_all add: GetEnforcedServiceStatusCheck_def IsNoDelay_def GetBootLock_def TryLock_def
      SetIncludeIncomplete_def Let_def split: option.splits)

lemma services_ok_SetStreamStatus:
  assumes "services_ok rs"
  shows "services_ok (fst (SetStreamStatus now n stream st ch rs))"
proof -
  have ok: "services_ok (r\<lparr>sv_streamStatus := (sv_streamStatus r)(n \<mapsto> aput stream st (mget [] (sv_streamStatus r) n))\<rparr>)"
    if "services_ok r" "st \<noteq> Active" for r
    using that by (auto simp: services_ok_def)
  have ok_active: "services_ok (r\<lparr>sv_streamStatus := (sv_streamStatus r)(n \<mapsto> aput stream Active (mget [] (sv_streamStatus r) n)),
       sv_streamBootTime := (sv_streamBootTime r)(n \<mapsto> (mget Map.empty (sv_streamBootTime r) n)(stream \<mapsto> now))\<rparr>)"
    if "services_ok r" for r
    using that by (auto simp: services_ok_def)
  show ?thesis
    using assms ok [of "initServiceMaps n rs"] ok_active [of "initServiceMaps n rs"]
    by (simp add: SetStreamStatus_def Let_def ok)
qed

lemmas services_ok_ops =
  services_ok_AddSubscription services_ok_RemoveSubscription services_ok_Cancel
  services_ok_Initialising services_ok_Booted services_ok_flags services_ok_SetStreamStatus

lemma services_ok_call:
  assumes "services_ok rs" and "service_call rs call = Served t r"
  shows "services_ok t"
  using assms
  by (cases call) (auto simp: service_call_def services_ok_ops Let_def)

interpretation service_registry: cache_server service_call "emptyServices ty" services_ok for ty
  by unfold_locales (auto intro: services_ok_init services_ok_call)

text \<open>
  C6: after any sequence of calls a service with a cancel function is pending, initializing or
  active, and its boot time is reported exactly while it is active.
\<close>

theorem services_invariant:
  assumes "serves service_call (emptyServices ty) calls rs"
  shows "(sv_runningList rs n \<noteq> None \<longrightarrow> live (status_of rs n)) \<and>
    (snd (GetBootTime n rs) \<noteq> None \<longleftrightarrow> map_of (sv_serviceStatus rs) n = Some Active)"
proof -
  have ok: "services_ok rs" using assms by (rule service_registry.invar_reachable)
  have "map_of (sv_serviceStatus rs) n = Some Active \<Longrightarrow> sv_bootTime rs n \<noteq> None"
    using ok by (auto simp: services_ok_def mget_def)
  with ok show ?thesis
    by (auto simp: services_ok_def GetBootTime_def Let_def)
qed

lemma booted_example:
  obtains rs where
    "serves service_call (emptyServices TorqService) [CallAdd 0 1 5, CallBooted 3 1 None] rs"
    "sv_runningList rs 1 = Some 5" "map_of (sv_serviceStatus rs) 1 = Some Active"
  by (simp add: service_call_def AddSubscription_def Booted_def Let_def emptyServices_def)

theorem services_invariant_witness:
  "\<exists>rs. serves service_call (emptyServices TorqService) [CallAdd 0 1 5, CallBooted 3 1 None] rs \<and>
     live (status_of rs 1) \<and> snd (GetBootTime 1 rs) \<noteq> None"
proof -
  obtain rs where rs: "serves service_call (emptyServices TorqService) [CallAdd 0 1 5, CallBooted 3 1 None] rs"
    and facts: "sv_runningList rs 1 = Some 5" "map_of (sv_serviceStatus rs) 1 = Some Active"
    by (rule booted_example)
  from services_invariant [OF rs, of 1] facts rs show ?thesis by blast
qed

section \<open>The reported status\<close>

lemma stream_summary_Some:
  assumes "first \<noteq> Active"
  shows "stream_summary (Some first) sts = (if set sts \<subseteq> {Active, first} then first else Pending)"
proof (induction sts)
  case (Cons x sts)
  then show ?case
    using assms by (cases "x = Active"; cases "x = first") simp_all
qed simp

lemma stream_summary_active: "set sts \<subseteq> {Active} \<Longrightarrow> stream_summary None sts = Active"
  by (induction sts) auto

lemma stream_summary_common:
  "st \<in> set sts \<Longrightarrow> st \<noteq> Active \<Longrightarrow> set sts \<subseteq> {Active, st} \<Longrightarrow> stream_summary None sts = st"
  by (induction sts) (auto simp: stream_summary_Some)

lemma stream_summary_mixed:
  "a \<in> set sts \<Longrightarrow> b \<in> set sts \<Longrightarrow> a \<noteq> Active \<Longrightarrow> b \<noteq> Active \<Longrightarrow> a \<noteq> b \<Longrightarrow>
   stream_summary None sts = Pending"
proof (induction sts)
  case (Cons x sts)
  show ?case
  proof (cases "x = Active")
    case True
    with Cons show ?thesis by simp
  next
    case False
    with Cons.prems have "\<not> set sts \<subseteq> {Active, x}" by auto
    with False show ?thesis by (simp add: stream_summary_Some)
  qed
qed simp

text \<open>
  the status of an active LND service does not depend on the order in which its streams are
  ranged: it is active when all streams are, the common status when all streams that are not
  active share one, and pending when two such streams differ.
\<close>

lemma GetStatus_spec:
  assumes "range_order ord" and "sv_ServiceType rs = LndService"
    and "map_of (sv_serviceStatus rs) n = Some Active"
    and "statuses = snd ` set (mget [] (sv_streamStatus rs) n)"
  shows "(statuses \<subseteq> {Active} \<longrightarrow> snd (GetStatus ord n rs) = Active) \<and>
     (\<forall>st \<in> statuses. st \<noteq> Active \<and> statuses \<subseteq> {Active, st} \<longrightarrow> snd (GetStatus ord n rs) = st) \<and>
     (\<forall>a \<in> statuses. \<forall>b \<in> statuses. a \<noteq> Active \<and> b \<noteq> Active \<and> a \<noteq> b \<longrightarrow>
        snd (GetStatus ord n rs) = Pending)"
proof -
  let ?sts = "map snd (ord (mget [] (sv_streamStatus rs) n))"
  have g: "snd (GetStatus ord n rs) = stream_summary None ?sts"
    using assms(2,3) by (simp add: GetStatus_def Let_def)
  have "statuses = set ?sts" using assms(1,4) by (simp add: range_order_set)
  then show ?thesis
    unfolding g by (simp add: stream_summary_active stream_summary_common stream_summary_mixed)
qed

lemma GetStatus_spec_witness:
  "\<exists>rs. snd (GetStatus rev 1 rs) = Inactive \<and> map_of (sv_serviceStatus rs) 1 = Some Active \<and>
     sv_streamStatus rs 1 = Some [(ForwardStream, Active), (InvoiceStream, Inactive)]"
proof -
  let ?rs = "(emptyServices LndService)\<lparr>sv_serviceStatus := [(1, Active)],
    sv_streamStatus := [1 \<mapsto> [(ForwardStream, Active), (InvoiceStream, Inactive)]]\<rparr>"
  have st: "{Active, Inactive} = snd ` set (mget [] (sv_streamStatus ?rs) 1)" by auto
  have ty: "sv_ServiceType ?rs = LndService" "map_of (sv_serviceStatus ?rs) 1 = Some Active"
    by (simp_all add: emptyServices_def)
  from GetStatus_spec [OF range_order_id(2) ty st] have "snd (GetStatus rev 1 ?rs) = Inactive" by simp
  then show ?thesis by (intro exI [of _ ?rs]) simp
qed

section \<open>Cancelling\<close>

text \<open>
  \<open>Cancel\<close> answers active exactly when it cancelled a running service whose boot lock is free,
  pending when the service is booting, inactive when it is not running.  Only in the first case
  is the cancel function called, the service stopped with all streams inactive, and the one-time
  settings stored; they are then handed out exactly once.
\<close>

lemma Cancel_spec:
  assumes "Cancel now n enforced noDelay ch rs = (t, es, called, ans)"
  shows "(ans = Inactive \<longleftrightarrow> sv_runningList rs n = None) \<and>
    (ans = Pending \<longleftrightarrow> sv_runningList rs n \<noteq> None \<and> sv_bootLock rs n = Some True) \<and>
    (ans = Active \<longleftrightarrow> sv_runningList rs n \<noteq> None \<and> sv_bootLock rs n \<noteq> Some True) \<and>
    called = (if ans = Active then sv_runningList rs n else None) \<and>
    (ans \<noteq> Active \<longrightarrow> es = [] \<and> t = initServiceMaps n rs) \<and>
    (ans = Active \<longrightarrow>
       status_of t n = Inactive \<and> sv_runningList t n = None \<and> (\<forall>stream. stream_status t n stream = Inactive) \<and>
       snd (GetEnforcedServiceStatusCheck n t) = enforced \<and>
       snd (GetEnforcedServiceStatusCheck n (fst (GetEnforcedServiceStatusCheck n t))) = None \<and>
       snd (IsNoDelay n t) = noDelay \<and> snd (IsNoDelay n (fst (IsNoDelay n t))) = False)"
proof (cases "sv_runningList rs n")
  case None
  with assms show ?thesis by (auto simp: Cancel_def Let_def)
next
  case (Some c)
  show ?thesis
  proof (cases "sv_bootLock rs n = Some True")
    case True
    with assms Some show ?thesis by (auto simp: Cancel_def Let_def)
  next
    case False
    let ?r = "setStreamStatuses n Inactive (set_status n Inactive
      (initServiceMaps n rs\<lparr>sv_noDelay := (sv_noDelay rs)(n \<mapsto> noDelay),
         sv_enforcedServiceStatus := (sv_enforcedServiceStatus rs)(n \<mapsto> enforced),
         sv_runningList := (sv_runningList rs)(n := None),
         sv_cancelTime := (sv_cancelTime rs)(n \<mapsto> now)\<rparr>))"
    from assms Some False have t: "t = ?r" "ans = Active" "called = Some c"
      by (auto simp: Cancel_def Let_def)
    have flags: "sv_enforcedServiceStatus ?r n = Some enforced" "sv_noDelay ?r n = Some noDelay"
      by (simp_all add: setStreamStatuses_def set_status_def)
    show ?thesis
      using Some False flags
      by (simp add: t GetEnforcedServiceStatusCheck_def IsNoDelay_def Let_def
          aget_all_streams)
  qed
qed

lemma Cancel_spec_witness:
  "\<exists>t es. Cancel 9 1 (Some Inactive) True True
        ((emptyServices LndService)\<lparr>sv_runningList := [1 \<mapsto> 5], sv_serviceStatus := [(1, Active)]\<rparr>)
      = (t, es, Some 5, Active) \<and>
     snd (GetEnforcedServiceStatusCheck 1 t) = Some Inactive"
proof -
  let ?rs = "(emptyServices LndService)\<lparr>sv_runningList := [1 \<mapsto> 5], sv_serviceStatus := [(1, Active)]\<rparr>"
  obtain t es c a where x: "Cancel 9 1 (Some Inactive) True True ?rs = (t, es, c, a)"
    by (metis prod_cases4)
  from Cancel_spec [OF x] have "a = Active" "c = Some 5" "snd (GetEnforcedServiceStatusCheck 1 t) = Some Inactive"
    by (simp_all add: emptyServices_def)
  with x show ?thesis by blast
qed

section \<open>Events\<close>

text \<open>Running a sequence of calls, with all events sent on the way.\<close>

fun run_calls :: "Services \<Rightarrow> ServiceCall list \<Rightarrow> (Services \<times> ServiceEvent list) option" where
  "run_calls rs [] = Some (rs, [])"
| "run_calls rs (c # cs) =
     (case service_call rs c of
        Served t r \<Rightarrow>
          (case run_calls t cs of
             Some (u, es) \<Rightarrow> Some (u, (case r of Some e \<Rightarrow> e | None \<Rightarrow> []) @ es)
           | None \<Rightarrow> None)
      | _ \<Rightarrow> None)"

text \<open>What a listener knows that enters the status of every service event without a stream.\<close>

definition replay :: "(int \<Rightarrow> Status) \<Rightarrow> ServiceEvent list \<Rightarrow> int \<Rightarrow> Status" where
  "replay f es = foldl (\<lambda>f e. if se_SubscriptionStream e = None then f(ev_NodeId e := se_Status e) else f) f es"

lemma replay_append: "replay f (xs @ ys) = replay (replay f xs) ys"
  by (simp add: replay_def)

lemma replay_sendServiceEvent:
  "replay f (sendServiceEvent now n True (f n) st ty None) = f(n := st)"
  "replay f (sendServiceEvent now n True p st ty (Some stream)) = f"
  "replay f [] = f"
  by (auto simp: replay_def sendServiceEvent_def)

lemma status_of_updates:
  "status_of (set_status n st rs) = (status_of rs)(n := st)"
  "status_of (setStreamStatuses n st rs) = status_of rs"
  "status_of (initServiceMaps n rs) = status_of rs"
  by (auto simp: fun_eq_iff)

lemma status_of_SetStreamStatus: "status_of (fst (SetStreamStatus now n stream st ch rs)) = status_of rs"
  by (auto simp: SetStreamStatus_def Let_def)

lemma SetStreamStatus_events: "replay f (snd (SetStreamStatus now n stream st True rs)) = f"
  by (simp add: SetStreamStatus_def Let_def replay_sendServiceEvent)

lemma replay_call:
  assumes "service_call rs call = Served t r"
  shows "replay (status_of rs) (case r of Some e \<Rightarrow> e | None \<Rightarrow> []) = status_of t"
proof (cases call)
  case (CallSetStreamStatus now n stream st)
  with assms show ?thesis
    by (auto simp: service_call_def Let_def SetStreamStatus_events status_of_SetStreamStatus)
next
  case (CallRemove now n)
  with assms show ?thesis
    using replay_sendServiceEvent(1) [of "status_of rs"]
    by (auto simp: service_call_def RemoveSubscription_def Let_def status_of_updates)
next
  case (CallBooted now n lock)
  with assms show ?thesis
    using replay_sendServiceEvent(1) [of "status_of rs"]
    by (auto simp: service_call_def Booted_def Let_def status_of_updates split: option.splits if_splits)
qed (use assms replay_sendServiceEvent(1) [of "status_of rs"] in
    \<open>auto simp: service_call_def AddSubscription_def Cancel_def Initialising_def
      GetEnforcedServiceStatusCheck_def IsNoDelay_def GetBootLock_def TryLock_def
      SetIncludeIncomplete_def Let_def status_of_updates replay_sendServiceEvent(3)
      split: option.splits\<close>)

lemma replay_run: "run_calls rs calls = Some (t, es) \<Longrightarrow> replay (status_of rs) es = status_of t"
proof (induction calls arbitrary: rs es)
  case (Cons c calls)
  from Cons.prems obtain u r e where step: "service_call rs c = Served u r"
    and rest: "run_calls u calls = Some (t, e)"
    and es: "es = (case r of Some e \<Rightarrow> e | None \<Rightarrow> []) @ e"
    by (auto split: outcome.splits option.splits)
  show ?case unfolding es replay_append replay_call [OF step] using rest by (rule Cons.IH)
qed (simp add: replay_sendServiceEvent(3))

text \<open>
  C7: the event stream is complete: a listener that starts with every service inactive and enters
  the status of each service event knows, after any sequence of calls, exactly the status the
  registry has for every node.
\<close>

theorem events_replay_to_status:
  "run_calls (emptyServices ty) calls = Some (rs, es) \<Longrightarrow> replay (\<lambda>n. Inactive) es = status_of rs"
  using replay_run [of "emptyServices ty" calls rs es] by (simp add: emptyServices_def)

theorem events_replay_to_status_witness:
  "\<exists>rs es. run_calls (emptyServices TorqService) [CallAdd 0 1 5, CallBooted 3 1 None, CallCancel 7 1 None False]
       = Some (rs, es) \<and> length es = 3 \<and> replay (\<lambda>n. Inactive) es = status_of rs"
proof -
  obtain rs es where r: "run_calls (emptyServices TorqService)
      [CallAdd 0 1 5, CallBooted 3 1 None, CallCancel 7 1 None False] = Some (rs, es)" "length es = 3"
    by (simp add: service_call_def AddSubscription_def Booted_def Cancel_def Let_def emptyServices_def
        sendServiceEvent_def set_status_def setStreamStatuses_def initServiceMaps_def)
  from events_replay_to_status [OF r(1)] r show ?thesis by blast
qed

section \<open>Boot locks\<close>

text \<open>
  the boot lock of a node is held by at most one caller: of two successive \<open>TryLock\<close> calls
  without \<open>Booted\<close> in between the second fails, and after \<open>Booted\<close> with the lock it succeeds
  again.
\<close>

lemma boot_lock_exclusive:
  assumes "TryLock l rs = (t, True)"
  shows "snd (TryLock l t) = False \<and>
    (\<forall>now n ch u r. Booted now n (Some l) ch t = Served u r \<longrightarrow> snd (TryLock l u) = True)"
proof -
  have "sv_bootLock t l = Some True"
    using assms by (auto simp: TryLock_def split: if_splits)
  then show ?thesis
    by (auto simp: TryLock_def Booted_def Let_def set_status_def setStreamStatuses_def initServiceMaps_def
        split: if_splits)
qed

lemma boot_lock_exclusive_witness:
  "\<exists>t. TryLock 1 (fst (GetBootLock 1 (emptyServices LndService))) = (t, True) \<and> snd (TryLock 1 t) = False"
proof -
  obtain t where t: "TryLock 1 (fst (GetBootLock 1 (emptyServices LndService))) = (t, True)"
    by (simp add: TryLock_def GetBootLock_def emptyServices_def Let_def)
  from boot_lock_exclusive [OF t] t show ?thesis by blast
qed

end
