(* ===== verification/Broadcast.thy ===== *)
theory Broadcast
  imports Prelude
begin

text \<open>
  The broadcast server, \<open>src/pkg/broadcast/broadcast.go\<close>: one goroutine that copies every
  value of its source to all subscribed listeners.  Its select loop is a step relation; the inputs
  are what the select may pick.  Channels are numbers, drawn fresh by \<open>Subscribe\<close>.  The state
  records, besides the listeners of the code, which channels were closed and every delivery made.
\<close>

section \<open>The select loop\<close>

record 'v Broadcast =
  bc_listeners :: "nat list"
  bc_next :: nat
  bc_closed :: "nat list"
  bc_log :: "(nat \<times> 'v) list"
  bc_running :: bool

text \<open>
  \<open>Interrupted v k\<close>: the context is done while \<open>v\<close> is being delivered, after \<open>k\<close> listeners took it.
\<close>

datatype 'v input =
  Subscribe | CancelSubscription nat | Value 'v | Interrupted 'v nat | SourceClosed | ContextDone

definition NewBroadcastServer :: "'v Broadcast" where
  "NewBroadcastServer =
     \<lparr>bc_listeners = [], bc_next = 0, bc_closed = [], bc_log = [], bc_running = True\<rparr>"

text \<open>The matching listener is overwritten by the last one, the slice shortened, the channel closed.\<close>

fun swap_remove :: "nat \<Rightarrow> nat list \<Rightarrow> nat list" where
  "swap_remove ch [] = []"
| "swap_remove ch (l # ls) =
     (if l = ch then (if ls = [] then [] else last ls # butlast ls) else l # swap_remove ch ls)"

definition removeListener :: "nat \<Rightarrow> 'v Broadcast \<Rightarrow> 'v Broadcast" where
  "removeListener ch s =
     (if ch \<in> set (bc_listeners s)
      then s\<lparr>bc_listeners := swap_remove ch (bc_listeners s), bc_closed := bc_closed s @ [ch]\<rparr>
      else s)"

definition deliver :: "'v \<Rightarrow> nat list \<Rightarrow> 'v Broadcast \<Rightarrow> 'v Broadcast" where
  "deliver v ls s = s\<lparr>bc_log := bc_log s @ map (\<lambda>l. (l, v)) ls\<rparr>"

text \<open>The deferred function: on return every listener is closed.\<close>

definition stop :: "'v Broadcast \<Rightarrow> 'v Broadcast" where
  "stop s = s\<lparr>bc_closed := bc_closed s @ bc_listeners s, bc_running := False\<rparr>"

inductive serve_step :: "'v Broadcast \<Rightarrow> 'v input \<Rightarrow> 'v Broadcast \<Rightarrow> bool" where
  subscribe: "bc_running s \<Longrightarrow>
     serve_step s Subscribe (s\<lparr>bc_listeners := bc_listeners s @ [bc_next s], bc_next := Suc (bc_next s)\<rparr>)"
| cancel: "bc_running s \<Longrightarrow> serve_step s (CancelSubscription ch) (removeListener ch s)"
| value_all: "bc_running s \<Longrightarrow> serve_step s (Value v) (deliver v (bc_listeners s) s)"
| interrupted: "bc_running s \<Longrightarrow> k < length (bc_listeners s) \<Longrightarrow>
     serve_step s (Interrupted v k) (stop (deliver v (take k (bc_listeners s)) s))"
| source_closed: "bc_running s \<Longrightarrow> serve_step s SourceClosed (stop s)"
| context_done: "bc_running s \<Longrightarrow> serve_step s ContextDone (stop s)"

inductive_cases serve_stepE: "serve_step s i t"

inductive_simps serve_step_simps:
  "serve_step s Subscribe t" "serve_step s (CancelSubscription ch) t" "serve_step s (Value v) t"
  "serve_step s (Interrupted v k) t" "serve_step s SourceClosed t" "serve_step s ContextDone t"

inductive serve_run :: "'v Broadcast \<Rightarrow> 'v input list \<Rightarrow> 'v Broadcast \<Rightarrow> bool" where
  run_Nil: "serve_run s [] s"
| run_Cons: "serve_step s i t \<Longrightarrow> serve_run t ins u \<Longrightarrow> serve_run s (i # ins) u"

inductive_simps serve_run_simps [simp]: "serve_run s [] t" "serve_run s (i # ins) t"

section \<open>No channel is closed twice or used after it is closed\<close>

lemma mset_swap_remove: "ch \<in> set ls \<Longrightarrow> mset (swap_remove ch ls) = mset ls - {#ch#}"
proof (induction ls)
  case (Cons l ls)
  show ?case
  proof (cases "l = ch")
    case True
    have "mset (last ls # butlast ls) = mset ls" if "ls \<noteq> []"
      by (subst (3) append_butlast_last_id [OF that, symmetric]) simp
    with True show ?thesis by auto
  next
    case False
    with Cons show ?thesis by simp
  qed
qed simp

text \<open>
  Listeners are distinct and drawn from the numbers handed out; none is closed while the server
  runs, all are once it stopped; no channel is ever closed twice.
\<close>

definition broadcast_ok :: "'v Broadcast \<Rightarrow> bool" where
  "broadcast_ok s \<longleftrightarrow>
     distinct (bc_listeners s) \<and> distinct (bc_closed s) \<and>
     set (bc_listeners s) \<subseteq> {..<bc_next s} \<and> set (bc_closed s) \<subseteq> {..<bc_next s} \<and>
     (if bc_running s then set (bc_listeners s) \<inter> set (bc_closed s) = {}
      else set (bc_listeners s) \<subseteq> set (bc_closed s))"

lemma distinct_swap_remove:
  assumes "distinct ls" and "ch \<in> set ls"
  shows "distinct (swap_remove ch ls)" and "set (swap_remove ch ls) = set ls - {ch}"
proof -
  have m: "mset (swap_remove ch ls) = mset (remove1 ch ls)"
    using assms(2) by (simp add: mset_swap_remove)
  then show "distinct (swap_remove ch ls)"
    using assms(1) mset_eq_imp_distinct_iff [OF m] by simp
  from m show "set (swap_remove ch ls) = set ls - {ch}"
    using assms(1) by (metis set_mset_mset set_remove1_eq)
qed

lemma broadcast_ok_stop: "broadcast_ok s \<Longrightarrow> bc_running s \<Longrightarrow> broadcast_ok (stop s)"
  by (auto simp: broadcast_ok_def stop_def)

lemma broadcast_ok_deliver [simp]:
  "broadcast_ok (deliver v ls s) = broadcast_ok s" "bc_running (deliver v ls s) = bc_running s"
  by (simp_all add: broadcast_ok_def deliver_def)

lemma broadcast_ok_step: "serve_step s i t \<Longrightarrow> broadcast_ok s \<Longrightarrow> broadcast_ok t"
proof (induction rule: serve_step.induct)
  case (subscribe s)
  then show ?case by (fastforce simp: broadcast_ok_def)
next
  case (cancel s ch)
  then show ?case
    by (auto simp: broadcast_ok_def removeListener_def distinct_swap_remove)
qed (simp_all add: broadcast_ok_stop)

lemma broadcast_ok_run: "serve_run s ins t \<Longrightarrow> broadcast_ok s \<Longrightarrow> broadcast_ok t"
  by (induction rule: serve_run.induct) (auto dest: broadcast_ok_step)

text \<open>
  C10: however the select loop runs, no listener is closed twice, no value is delivered to a closed
  listener (a running server has no closed listener), and when the server returns every remaining
  listener is closed.
\<close>

theorem broadcast_safety:
  "serve_run NewBroadcastServer ins t \<Longrightarrow>
     distinct (bc_listeners t) \<and> distinct (bc_closed t) \<and>
     (if bc_running t then set (bc_listeners t) \<inter> set (bc_closed t) = {}
      else set (bc_listeners t) \<subseteq> set (bc_closed t))"
  using broadcast_ok_run [of NewBroadcastServer ins t]
  by (simp add: broadcast_ok_def NewBroadcastServer_def)

theorem broadcast_safety_witness:
  "\<exists>t :: nat Broadcast. serve_run NewBroadcastServer [Subscribe, Subscribe, CancelSubscription 0, SourceClosed] t \<and>
     bc_closed t = [0, 1] \<and> distinct (bc_closed t)"
proof -
  obtain t :: "nat Broadcast" where
    t: "serve_run NewBroadcastServer [Subscribe, Subscribe, CancelSubscription 0, SourceClosed] t"
    "bc_closed t = [0, 1]"
    by (simp add: serve_step_simps NewBroadcastServer_def removeListener_def stop_def)
  from broadcast_safety [OF t(1)] t show ?thesis by blast
qed

section \<open>Every listener sees the source's values in order\<close>

definition received :: "nat \<Rightarrow> (nat \<times> 'v) list \<Rightarrow> 'v list" where
  "received l log = map snd (filter (\<lambda>(k, v). k = l) log)"

definition emitted :: "'v input list \<Rightarrow> 'v list" where
  "emitted ins = concat (map (\<lambda>i. case i of Value v \<Rightarrow> [v] | _ \<Rightarrow> []) ins)"

lemma received_deliver:
  assumes "distinct ls"
  shows "received l (bc_log (deliver v ls s)) = received l (bc_log s) @ (if l \<in> set ls then [v] else [])"
proof -
  have "filter (\<lambda>(k, w). k = l) (map (\<lambda>k. (k, v)) ls) = (if l \<in> set ls then [(l, v)] else [])"
    using assms by (induction ls) auto
  then show ?thesis by (simp add: received_def deliver_def)
qed

lemma step_delivery:
  assumes "serve_step s i t" and "broadcast_ok s" and "l \<in> set (bc_listeners s)"
    and "i \<noteq> CancelSubscription l" and "bc_running t"
  shows "l \<in> set (bc_listeners t) \<and>
    received l (bc_log t) = received l (bc_log s) @ (case i of Value v \<Rightarrow> [v] | _ \<Rightarrow> [])"
  using assms
  by (induction rule: serve_step.induct)
    (auto simp: stop_def removeListener_def broadcast_ok_def distinct_swap_remove received_deliver,
     auto simp: deliver_def)

lemma stopped_no_step: "serve_run s ins t \<Longrightarrow> \<not> bc_running s \<Longrightarrow> ins = [] \<and> t = s"
  by (induction rule: serve_run.induct) (auto elim: serve_stepE)

lemma run_delivery:
  assumes "serve_run s ins t" and "broadcast_ok s" and "l \<in> set (bc_listeners s)"
    and "CancelSubscription l \<notin> set ins" and "bc_running t"
  shows "received l (bc_log t) = received l (bc_log s) @ emitted ins"
  using assms
proof (induction rule: serve_run.induct)
  case (run_Cons s i t ins u)
  have "bc_running t"
    using run_Cons.hyps(2) run_Cons.prems(4) stopped_no_step by blast
  from step_delivery [OF run_Cons.hyps(1) run_Cons.prems(1,2) _ this] run_Cons.prems(3)
  have "l \<in> set (bc_listeners t)"
    and "received l (bc_log t) = received l (bc_log s) @ (case i of Value v \<Rightarrow> [v] | _ \<Rightarrow> [])"
    by auto
  with run_Cons broadcast_ok_step [OF run_Cons.hyps(1)] show ?case
    by (simp add: emitted_def)
qed (simp add: emitted_def)

text \<open>
  C9: while the server runs, a listener that stays subscribed receives every value of the source,
  each once and in the order of the source, no matter which other listeners come and go.
\<close>

theorem broadcast_delivery:
  assumes "serve_run NewBroadcastServer pre s" and "l \<in> set (bc_listeners s)"
    and "serve_run s ins t" and "CancelSubscription l \<notin> set ins" and "bc_running t"
  shows "received l (bc_log t) = received l (bc_log s) @ emitted ins"
  using assms(2-5) broadcast_ok_run [OF assms(1)]
  by (intro run_delivery) (simp_all add: broadcast_ok_def NewBroadcastServer_def)

theorem broadcast_delivery_witness:
  "\<exists>s t :: nat Broadcast. serve_run NewBroadcastServer [Subscribe, Subscribe] s \<and>
     serve_run s [Value 7, CancelSubscription 0, Value 8] t \<and> received 1 (bc_log t) = [7, 8]"
proof -
  obtain s t :: "nat Broadcast" where
    s: "serve_run NewBroadcastServer [Subscribe, Subscribe] s" "1 \<in> set (bc_listeners s)" "bc_log s = []"
    and t: "serve_run s [Value 7, CancelSubscription 0, Value 8] t" "bc_running t"
    by (simp add: serve_step_simps NewBroadcastServer_def removeListener_def deliver_def)
  from broadcast_delivery [OF s(1,2) t(1) _ t(2)] s(3)
  have "received 1 (bc_log t) = [7, 8]" by (simp add: received_def emitted_def)
  with s t show ?thesis by blast
qed

end
