(* ===== verification/Corridors.thy ===== *)
theory Corridors
  imports Prelude
begin

unbundle bit_operations_syntax

text \<open>
  Corridors, \<open>src/internal/corridors/corridor.go\<close>: rules that attach a flag to pairs of nodes,
  tags, categories and channels.  A cache per corridor type keeps the rules by priority and key;
  the best corridor for a key is the matching rule of the highest priority.  The rows the database
  returns for a type are a parameter.  The lemmas show that the search returns a matching rule that
  is maximal in priority, whatever the map order, and the type's default when nothing matches.
\<close>

section \<open>Types\<close>

datatype CorridorPriority = FromCategory | FromTag | FromNode | ToCategory | ToTag | ToNode | Channel

fun corridor_priority_code :: "CorridorPriority \<Rightarrow> nat" where
  "corridor_priority_code FromCategory = 0"
| "corridor_priority_code FromTag = 1"
| "corridor_priority_code FromNode = 2"
| "corridor_priority_code ToCategory = 3"
| "corridor_priority_code ToTag = 4"
| "corridor_priority_code ToNode = 5"
| "corridor_priority_code Channel = 6"

record CorridorType =
  ct_CorridorTypeId :: int
  ct_Label :: string
  ct_DefaultFlag :: int

definition Category :: CorridorType where
  "Category = \<lparr>ct_CorridorTypeId = 0, ct_Label = ''category'', ct_DefaultFlag = 0\<rparr>"

definition Tag :: CorridorType where
  "Tag = \<lparr>ct_CorridorTypeId = 1, ct_Label = ''tag'', ct_DefaultFlag = 0\<rparr>"

definition corridorTypes :: "CorridorType list" where
  "corridorTypes = [Category, Tag]"

record CorridorKey =
  ck_CorridorType :: CorridorType
  ck_Inverse :: bool
  ck_ReferenceId :: int
  ck_FromCategoryId :: int
  ck_FromTagId :: int
  ck_FromNodeId :: int
  ck_ChannelId :: int
  ck_ToCategoryId :: int
  ck_ToTagId :: int
  ck_ToNodeId :: int

record Corridor =
  co_CorridorId :: int
  co_CorridorTypeId :: int
  co_ReferenceId :: "int option"
  co_Flag :: int
  co_Inverse :: bool
  co_Priority :: int
  co_FromCategoryId :: "int option"
  co_FromTagId :: "int option"
  co_FromNodeId :: "int option"
  co_ChannelId :: "int option"
  co_ToCategoryId :: "int option"
  co_ToTagId :: "int option"
  co_ToNodeId :: "int option"
  co_CreatedOn :: time
  co_UpdateOn :: time

type_synonym corridor_entries = "(CorridorKey \<times> Corridor) list"
type_synonym corridor_map = "(nat \<times> corridor_entries) list"

record corridorCacheByType =
  corridorCacheMap :: corridor_map
  corridorCacheSortedKeys :: "nat list"

definition zeroKey :: CorridorKey where
  "zeroKey =
     \<lparr>ck_CorridorType = \<lparr>ct_CorridorTypeId = 0, ct_Label = [], ct_DefaultFlag = 0\<rparr>,
      ck_Inverse = False, ck_ReferenceId = 0, ck_FromCategoryId = 0, ck_FromTagId = 0,
      ck_FromNodeId = 0, ck_ChannelId = 0, ck_ToCategoryId = 0, ck_ToTagId = 0, ck_ToNodeId = 0\<rparr>"

definition zeroCorridor :: Corridor where
  "zeroCorridor =
     \<lparr>co_CorridorId = 0, co_CorridorTypeId = 0, co_ReferenceId = None, co_Flag = 0,
      co_Inverse = False, co_Priority = 0, co_FromCategoryId = None, co_FromTagId = None,
      co_FromNodeId = None, co_ChannelId = None, co_ToCategoryId = None, co_ToTagId = None,
      co_ToNodeId = None, co_CreatedOn = 0, co_UpdateOn = 0\<rparr>"

section \<open>Priorities and keys\<close>

definition getPriority :: "CorridorPriority \<Rightarrow> nat" where
  "getPriority p = push_bit (corridor_priority_code p) 1"

definition hasPriority :: "CorridorPriority \<Rightarrow> nat \<Rightarrow> bool" where
  "hasPriority p priority = ((priority AND getPriority p) = getPriority p)"

definition is_set :: "int option \<Rightarrow> bool" where
  "is_set x \<longleftrightarrow> x \<noteq> None \<and> x \<noteq> Some 0"

definition calculatePriority :: "Corridor \<Rightarrow> nat" where
  "calculatePriority c =
     (if is_set (co_FromCategoryId c) then getPriority FromCategory else 0) +
     (if is_set (co_FromTagId c) then getPriority FromTag else 0) +
     (if is_set (co_FromNodeId c) then getPriority FromNode else 0) +
     (if is_set (co_ToCategoryId c) then getPriority ToCategory else 0) +
     (if is_set (co_ToTagId c) then getPriority ToTag else 0) +
     (if is_set (co_ToNodeId c) then getPriority ToNode else 0) +
     (if is_set (co_ChannelId c) then getPriority Channel else 0)"

definition getCorridorTypeFromId :: "int \<Rightarrow> CorridorType option" where
  "getCorridorTypeFromId corridorTypeId =
     (if corridorTypeId = ct_CorridorTypeId Category then Some Category
      else if corridorTypeId = ct_CorridorTypeId Tag then Some Tag
      else None)"

definition or0 :: "int option \<Rightarrow> int" where
  "or0 x = (case x of None \<Rightarrow> 0 | Some v \<Rightarrow> v)"

definition constructKey :: "Corridor \<Rightarrow> CorridorKey" where
  "constructKey corridor =
     (case getCorridorTypeFromId (co_CorridorTypeId corridor) of
        None \<Rightarrow> zeroKey
      | Some corridorType \<Rightarrow>
          \<lparr>ck_CorridorType = corridorType,
           ck_Inverse = co_Inverse corridor,
           ck_ReferenceId = or0 (co_ReferenceId corridor),
           ck_FromCategoryId = or0 (co_FromCategoryId corridor),
           ck_FromTagId = or0 (co_FromTagId corridor),
           ck_FromNodeId = or0 (co_FromNodeId corridor),
           ck_ChannelId = or0 (co_ChannelId corridor),
           ck_ToCategoryId = or0 (co_ToCategoryId corridor),
           ck_ToTagId = or0 (co_ToTagId corridor),
           ck_ToNodeId = or0 (co_ToNodeId corridor)\<rparr>)"

definition equals :: "CorridorKey \<Rightarrow> nat \<Rightarrow> CorridorKey \<Rightarrow> bool" where
  "equals key priority otherKey =
     (if hasPriority FromCategory priority \<and> ck_FromCategoryId otherKey \<noteq> ck_FromCategoryId key then False
      else if hasPriority FromTag priority \<and> ck_FromTagId otherKey \<noteq> ck_FromTagId key then False
      else if hasPriority FromNode priority \<and> ck_FromNodeId otherKey \<noteq> ck_FromNodeId key then False
      else if hasPriority ToCategory priority \<and> ck_ToCategoryId otherKey \<noteq> ck_ToCategoryId key then False
      else if hasPriority ToTag priority \<and> ck_ToTagId otherKey \<noteq> ck_ToTagId key then False
      else if hasPriority ToNode priority \<and> ck_ToNodeId otherKey \<noteq> ck_ToNodeId key then False
      else if hasPriority Channel priority \<and> ck_ChannelId otherKey \<noteq> ck_ChannelId key then False
      else True)"

section \<open>The cache\<close>

text \<open>A wrong stored priority is only logged; an inverse corridor is not cached.\<close>

definition addToCorridorCache :: "Corridor \<Rightarrow> corridor_map \<Rightarrow> corridor_map" where
  "addToCorridorCache c staging =
     (let priority = calculatePriority c in
      if co_Inverse c then staging
      else
        let s1 = (if map_of staging priority = None then aput priority [] staging else staging)
        in aput priority (aput (constructKey c) c (aget [] s1 priority)) s1)"

definition updateCache :: "corridor_map \<Rightarrow> nat list \<Rightarrow> corridorCacheByType \<Rightarrow> corridorCacheByType" where
  "updateCache cacheMap cacheSortedKeys cc =
     cc\<lparr>corridorCacheMap := cacheMap, corridorCacheSortedKeys := cacheSortedKeys\<rparr>"

fun search_corridor ::
    "(CorridorKey, Corridor) order \<Rightarrow> CorridorKey \<Rightarrow> corridor_map \<Rightarrow> nat list \<Rightarrow> Corridor option" where
  "search_corridor ord key m [] = None"
| "search_corridor ord key m (priority # rest) =
     (case find (\<lambda>(cKey, c). co_ReferenceId c = Some (ck_ReferenceId key) \<and> equals key priority cKey)
             (ord (aget [] m priority)) of
        Some (cKey, c) \<Rightarrow> Some c
      | None \<Rightarrow> search_corridor ord key m rest)"

definition getBestCorridor ::
    "(CorridorKey, Corridor) order \<Rightarrow> corridorCacheByType \<Rightarrow> CorridorKey \<Rightarrow> Corridor" where
  "getBestCorridor ord cc key =
     (case search_corridor ord key (corridorCacheMap cc) (corridorCacheSortedKeys cc) of
        Some c \<Rightarrow> c
      | None \<Rightarrow> zeroCorridor\<lparr>co_CorridorTypeId := ct_CorridorTypeId (ck_CorridorType key),
                             co_Flag := ct_DefaultFlag (ck_CorridorType key)\<rparr>)"

type_synonym corridor_caches = "CorridorType \<rightharpoonup> corridorCacheByType"

definition corridorCache :: corridor_caches where
  "corridorCache =
     [Category \<mapsto> \<lparr>corridorCacheMap = [], corridorCacheSortedKeys = []\<rparr>,
      Tag \<mapsto> \<lparr>corridorCacheMap = [], corridorCacheSortedKeys = []\<rparr>]"

text \<open>
  A refresh returns the caches as it leaves them and its error, if any.  Updating the cache of a
  type that has none dereferences a nil cache.
\<close>

definition finalizeCorridorCacheByType ::
    "(nat, corridor_entries) order \<Rightarrow> CorridorType \<Rightarrow> corridor_map \<Rightarrow> corridor_caches \<Rightarrow>
     corridor_caches \<times> go_error option" where
  "finalizeCorridorCacheByType ord corridorType staging caches =
     (let sortedKeys = rev (sort (map fst (ord staging))) in
      case caches corridorType of
        None \<Rightarrow> (caches, Some (Panic ''nil pointer dereference''))
      | Some cc \<Rightarrow> (caches(corridorType \<mapsto> updateCache staging sortedKeys cc), None))"

text \<open>\<open>rows\<close> are the corridors the database returns for the type, or its error.\<close>

definition RefreshCorridorCacheByType ::
    "(int \<Rightarrow> Corridor list result) \<Rightarrow> (nat, corridor_entries) order \<Rightarrow> CorridorType \<Rightarrow>
     corridor_caches \<Rightarrow> corridor_caches \<times> go_error option" where
  "RefreshCorridorCacheByType rows ord corridorType caches =
     (case rows (ct_CorridorTypeId corridorType) of
        Inl e \<Rightarrow> (caches, Some e)
      | Inr corridors \<Rightarrow>
          finalizeCorridorCacheByType ord corridorType
            (foldl (\<lambda>staging c. addToCorridorCache c staging) [] corridors) caches)"

fun refresh_types ::
    "(int \<Rightarrow> Corridor list result) \<Rightarrow> (nat, corridor_entries) order \<Rightarrow> CorridorType list \<Rightarrow>
     corridor_caches \<Rightarrow> corridor_caches \<times> go_error option" where
  "refresh_types rows ord [] caches = (caches, None)"
| "refresh_types rows ord (t # ts) caches =
     (case RefreshCorridorCacheByType rows ord t caches of
        (caches', Some e) \<Rightarrow> (caches', Some e)
      | (caches', None) \<Rightarrow> refresh_types rows ord ts caches')"

definition RefreshCorridorCache ::
    "(int \<Rightarrow> Corridor list result) \<Rightarrow> (nat, corridor_entries) order \<Rightarrow> corridor_caches \<Rightarrow>
     corridor_caches \<times> go_error option" where
  "RefreshCorridorCache rows ord caches = refresh_types rows ord corridorTypes caches"

definition RefreshCorridorCacheByTypeId ::
    "(int \<Rightarrow> Corridor list result) \<Rightarrow> (nat, corridor_entries) order \<Rightarrow> int \<Rightarrow>
     corridor_caches \<Rightarrow> corridor_caches \<times> go_error option" where
  "RefreshCorridorCacheByTypeId rows ord corridorTypeId caches =
     (case getCorridorTypeFromId corridorTypeId of
        None \<Rightarrow> (caches, Some (Panic ''nil pointer dereference''))
      | Some corridorType \<Rightarrow> RefreshCorridorCacheByType rows ord corridorType caches)"

definition GetBestCorridor ::
    "(CorridorKey, Corridor) order \<Rightarrow> corridor_caches \<Rightarrow> CorridorKey \<Rightarrow> Corridor result" where
  "GetBestCorridor ord caches key =
     (case caches (ck_CorridorType key) of
        None \<Rightarrow> Panics ''nil pointer dereference''
      | Some cc \<Rightarrow> Ok (getBestCorridor ord cc key))"

definition GetBestCorridorFlag ::
    "(CorridorKey, Corridor) order \<Rightarrow> corridor_caches \<Rightarrow> CorridorKey \<Rightarrow> int result" where
  "GetBestCorridorFlag ord caches key = map_sum id co_Flag (GetBestCorridor ord caches key)"

definition GetBestCorridorStatus ::
    "(CorridorKey, Corridor) order \<Rightarrow> corridor_caches \<Rightarrow> CorridorKey \<Rightarrow> bool result" where
  "GetBestCorridorStatus ord caches key = map_sum id (\<lambda>c. co_Flag c = 1) (GetBestCorridor ord caches key)"

section \<open>Priorities are the sets of the specified fields\<close>

lemma and_push_bit_one: "(n AND push_bit k 1) = push_bit k 1 \<longleftrightarrow> bit n k" for n :: nat
proof
  assume "(n AND push_bit k 1) = push_bit k 1"
  then have "bit (n AND push_bit k 1) k = bit (push_bit k (1 :: nat)) k" by simp
  then show "bit n k" by (simp add: bit_and_iff bit_exp_iff)
next
  assume b: "bit n k"
  show "(n AND push_bit k 1) = push_bit k 1"
  proof (rule bit_eqI)
    fix j
    show "bit (n AND push_bit k 1) j = bit (push_bit k (1 :: nat)) j"
    proof (cases "j = k")
      case True
      with b show ?thesis by (simp add: bit_and_iff)
    next
      case False
      then have "\<not> bit (push_bit k (1 :: nat)) j" by (simp add: bit_exp_iff)
      then show ?thesis by (simp add: bit_and_iff)
    qed
  qed
qed

lemma hasPriority_bit: "hasPriority p n \<longleftrightarrow> bit n (corridor_priority_code p)"
  by (simp only: hasPriority_def getPriority_def and_push_bit_one)

lemma all_priorities:
  "(\<forall>p. P p) \<longleftrightarrow>
     P FromCategory \<and> P FromTag \<and> P FromNode \<and> P ToCategory \<and> P ToTag \<and> P ToNode \<and> P Channel"
  by (metis CorridorPriority.exhaust)

definition field_of :: "CorridorPriority \<Rightarrow> Corridor \<Rightarrow> int option" where
  "field_of p c =
     (case p of FromCategory \<Rightarrow> co_FromCategoryId c | FromTag \<Rightarrow> co_FromTagId c
      | FromNode \<Rightarrow> co_FromNodeId c | ToCategory \<Rightarrow> co_ToCategoryId c | ToTag \<Rightarrow> co_ToTagId c
      | ToNode \<Rightarrow> co_ToNodeId c | Channel \<Rightarrow> co_ChannelId c)"

definition key_field :: "CorridorPriority \<Rightarrow> CorridorKey \<Rightarrow> int" where
  "key_field p k =
     (case p of FromCategory \<Rightarrow> ck_FromCategoryId k | FromTag \<Rightarrow> ck_FromTagId k
      | FromNode \<Rightarrow> ck_FromNodeId k | ToCategory \<Rightarrow> ck_ToCategoryId k | ToTag \<Rightarrow> ck_ToTagId k
      | ToNode \<Rightarrow> ck_ToNodeId k | Channel \<Rightarrow> ck_ChannelId k)"

lemma equals_iff:
  "equals key n other \<longleftrightarrow> (\<forall>p. hasPriority p n \<longrightarrow> key_field p other = key_field p key)"
  unfolding all_priorities by (simp add: equals_def key_field_def)

lemma bit_digit [simp]:
  "bit (of_bool a + 2 * x) 0 = a" "bit (of_bool a + 2 * x) (Suc k) = bit x k" for x :: nat
  by (simp_all add: bit_0 bit_Suc)

lemma calculatePriority_digits:
  "calculatePriority c =
     of_bool (is_set (co_FromCategoryId c)) + 2 * (of_bool (is_set (co_FromTagId c)) +
       2 * (of_bool (is_set (co_FromNodeId c)) + 2 * (of_bool (is_set (co_ToCategoryId c)) +
         2 * (of_bool (is_set (co_ToTagId c)) + 2 * (of_bool (is_set (co_ToNodeId c)) +
           2 * (of_bool (is_set (co_ChannelId c)) + 2 * 0))))))"
  by (simp add: calculatePriority_def getPriority_def)

lemma corridor_priority_code_Suc:
  "corridor_priority_code p =
     (case p of FromCategory \<Rightarrow> 0 | FromTag \<Rightarrow> Suc 0 | FromNode \<Rightarrow> Suc (Suc 0)
      | ToCategory \<Rightarrow> Suc (Suc (Suc 0)) | ToTag \<Rightarrow> Suc (Suc (Suc (Suc 0)))
      | ToNode \<Rightarrow> Suc (Suc (Suc (Suc (Suc 0)))) | Channel \<Rightarrow> Suc (Suc (Suc (Suc (Suc (Suc 0))))))"
  by (cases p) simp_all

lemma hasPriority_calculatePriority_iff: "hasPriority p (calculatePriority c) \<longleftrightarrow> is_set (field_of p c)"
  unfolding hasPriority_bit calculatePriority_digits corridor_priority_code_Suc
  by (cases p) (simp_all only: CorridorPriority.case bit_digit field_of_def)

section \<open>What the staging cache holds\<close>

text \<open>The corridor a staging map holds for a priority and a key.\<close>

definition staged :: "corridor_map \<Rightarrow> nat \<Rightarrow> CorridorKey \<Rightarrow> Corridor option" where
  "staged st p k = map_of (aget [] st p) k"

definition staging_ok :: "corridor_map \<Rightarrow> bool" where
  "staging_ok st \<longleftrightarrow>
     keys_distinct st \<and> (\<forall>p. keys_distinct (aget [] st p)) \<and>
     (\<forall>p k c. staged st p k = Some c \<longrightarrow>
        \<not> co_Inverse c \<and> calculatePriority c = p \<and> constructKey c = k)"

lemma staged_add:
  "staged (addToCorridorCache c st) p k =
     (if \<not> co_Inverse c \<and> p = calculatePriority c \<and> k = constructKey c then Some c else staged st p k)"
  by (auto simp: staged_def addToCorridorCache_def Let_def mget_def split: option.splits)

lemma staging_ok_add:
  assumes "staging_ok st"
  shows "staging_ok (addToCorridorCache c st)"
proof -
  have "keys_distinct (addToCorridorCache c st)"
    using assms by (simp add: staging_ok_def addToCorridorCache_def Let_def)
  moreover have "keys_distinct (aget [] (addToCorridorCache c st) p)" for p
    using assms by (auto simp: staging_ok_def addToCorridorCache_def Let_def)
  ultimately show ?thesis
    using assms by (auto simp: staging_ok_def staged_add)
qed

definition stage_all :: "Corridor list \<Rightarrow> corridor_map" where
  "stage_all cs = foldl (\<lambda>staging c. addToCorridorCache c staging) [] cs"

lemma staging_ok_stage_all: "staging_ok (stage_all cs)"
  by (induction cs rule: rev_induct)
     (simp_all add: stage_all_def staging_ok_add, simp add: staging_ok_def staged_def)

lemma staged_in: "staged (stage_all cs) p k = Some c \<Longrightarrow> c \<in> set cs"
  by (induction cs rule: rev_induct)
     (auto simp: stage_all_def staged_add staged_def [of "[]"] split: if_splits)

lemma staged_present:
  "c \<in> set cs \<Longrightarrow> \<not> co_Inverse c \<Longrightarrow>
   \<exists>d. staged (stage_all cs) (calculatePriority c) (constructKey c) = Some d"
  by (induction cs rule: rev_induct) (auto simp: stage_all_def staged_add)

section \<open>The search\<close>

definition hit :: "corridor_map \<Rightarrow> CorridorKey \<Rightarrow> nat \<Rightarrow> CorridorKey \<Rightarrow> Corridor \<Rightarrow> bool" where
  "hit st key p k c \<longleftrightarrow>
     staged st p k = Some c \<and> co_ReferenceId c = Some (ck_ReferenceId key) \<and> equals key p k"

lemma hit_in_range:
  assumes "staging_ok st" and "range_order ord"
  shows "hit st key p k c \<longleftrightarrow>
     (k, c) \<in> set (ord (aget [] st p)) \<and> co_ReferenceId c = Some (ck_ReferenceId key) \<and> equals key p k"
  using assms by (simp add: hit_def staged_def range_order_set staging_ok_def map_of_keys_distinct)

text \<open>What one priority's inner loop finds.\<close>

definition search_priority ::
    "(CorridorKey, Corridor) order \<Rightarrow> CorridorKey \<Rightarrow> corridor_map \<Rightarrow> nat \<Rightarrow> (CorridorKey \<times> Corridor) option" where
  "search_priority ord key m priority =
     find (\<lambda>(cKey, c). co_ReferenceId c = Some (ck_ReferenceId key) \<and> equals key priority cKey)
       (ord (aget [] m priority))"

lemma search_corridor_Cons:
  "search_corridor ord key m (p # ps) =
     (case search_priority ord key m p of Some (k, c) \<Rightarrow> Some c | None \<Rightarrow> search_corridor ord key m ps)"
  by (simp add: search_priority_def)

lemma search_priority_None:
  assumes "staging_ok st" and "range_order ord" and "search_priority ord key st p = None"
  shows "\<not> hit st key p k c"
  using assms(3) unfolding search_priority_def find_None_iff hit_in_range [OF assms(1,2)] by auto

lemma search_priority_Some:
  assumes "staging_ok st" and "range_order ord" and "search_priority ord key st p = Some (k, c)"
  shows "hit st key p k c"
proof -
  have "(k, c) \<in> set (ord (aget [] st p))"
    using assms(3) unfolding search_priority_def find_Some_iff by (metis nth_mem)
  moreover have "co_ReferenceId c = Some (ck_ReferenceId key) \<and> equals key p k"
    using assms(3) unfolding search_priority_def find_Some_iff by auto
  ultimately show ?thesis by (simp add: hit_in_range [OF assms(1,2)])
qed

lemma search_corridor_Some:
  assumes "staging_ok st" and "range_order ord"
    and "search_corridor ord key st ps = Some c" and "sorted_wrt (\<ge>) ps"
  shows "\<exists>p k. p \<in> set ps \<and> hit st key p k c \<and> (\<forall>q j d. q \<in> set ps \<and> hit st key q j d \<longrightarrow> q \<le> p)"
  using assms(3,4)
proof (induction ps)
  case (Cons q qs)
  show ?case
  proof (cases "search_priority ord key st q")
    case None
    then have no: "\<not> hit st key q j d" for j d
      by (rule search_priority_None [OF assms(1,2)])
    have "search_corridor ord key st qs = Some c"
      using None Cons.prems(1) by (simp only: search_corridor_Cons option.case)
    moreover have "sorted_wrt (\<ge>) qs" using Cons.prems(2) by simp
    ultimately obtain p k where "p \<in> set qs" "hit st key p k c"
      and "\<forall>q j d. q \<in> set qs \<and> hit st key q j d \<longrightarrow> q \<le> p"
      using Cons.IH by blast
    with no show ?thesis by (metis set_ConsD list.set_intros(2))
  next
    case (Some e)
    obtain k d where e: "e = (k, d)" by (cases e)
    with Some Cons.prems have "d = c" by (simp only: search_corridor_Cons) simp
    with Some e have "hit st key q k c" by (simp add: search_priority_Some [OF assms(1,2)])
    moreover have "\<forall>r \<in> set (q # qs). r \<le> q" using Cons.prems by simp
    ultimately show ?thesis by (metis list.set_intros(1))
  qed
qed simp

lemma search_corridor_None:
  assumes "staging_ok st" and "range_order ord" and "search_corridor ord key st ps = None"
    and "p \<in> set ps"
  shows "\<not> hit st key p k c"
  using assms(3,4)
proof (induction ps)
  case (Cons q qs)
  show ?case
  proof (cases "search_priority ord key st q")
    case None
    then have "\<not> hit st key q k c" by (rule search_priority_None [OF assms(1,2)])
    moreover have "search_corridor ord key st qs = None"
      using None Cons.prems(1) by (simp only: search_corridor_Cons option.case)
    ultimately show ?thesis using Cons.IH Cons.prems(2) by auto
  next
    case (Some e)
    with Cons.prems(1) show ?thesis by (simp only: search_corridor_Cons) (simp split: prod.splits)
  qed
qed simp

section \<open>Rules and keys\<close>

text \<open>A rule matches a key when it is for the same reference and each field it specifies agrees.\<close>

definition corridor_matches :: "CorridorKey \<Rightarrow> Corridor \<Rightarrow> bool" where
  "corridor_matches key c \<longleftrightarrow>
     \<not> co_Inverse c \<and> co_ReferenceId c = Some (ck_ReferenceId key) \<and>
     (\<forall>p. is_set (field_of p c) \<longrightarrow> field_of p c = Some (key_field p key))"

lemma key_field_constructKey:
  "getCorridorTypeFromId (co_CorridorTypeId c) = Some t \<Longrightarrow>
   key_field p (constructKey c) = or0 (field_of p c)"
  by (cases p) (simp_all add: key_field_def constructKey_def field_of_def)

lemma equals_constructKey:
  assumes "getCorridorTypeFromId (co_CorridorTypeId c) = Some t"
  shows "equals key (calculatePriority c) (constructKey c) \<longleftrightarrow>
     (\<forall>p. is_set (field_of p c) \<longrightarrow> field_of p c = Some (key_field p key))"
proof -
  have "or0 x = v \<longleftrightarrow> x = Some v" if "is_set x" for x v
    using that by (auto simp: is_set_def or0_def split: option.splits)
  then show ?thesis
    by (auto simp: equals_iff hasPriority_calculatePriority_iff key_field_constructKey [OF assms])
qed

lemma hit_matches:
  assumes "staging_ok st" and "hit st key p k c"
    and "getCorridorTypeFromId (co_CorridorTypeId c) = Some t"
  shows "corridor_matches key c \<and> calculatePriority c = p \<and> constructKey c = k"
  using assms equals_constructKey [OF assms(3), of key]
  by (auto simp: hit_def corridor_matches_def staging_ok_def)

text \<open>Two rules that match one key with one priority have the same key themselves.\<close>

lemma matching_constructKey:
  assumes t: "getCorridorTypeFromId (co_CorridorTypeId c) = Some t"
    and same: "co_CorridorTypeId d = co_CorridorTypeId c" "calculatePriority d = calculatePriority c"
    and m: "corridor_matches key c" "corridor_matches key d"
  shows "constructKey d = constructKey c"
proof -
  have "or0 (field_of p d) = or0 (field_of p c)" for p
  proof -
    have s: "is_set (field_of p d) \<longleftrightarrow> is_set (field_of p c)"
      using same(2) by (metis hasPriority_calculatePriority_iff)
    show ?thesis
    proof (cases "is_set (field_of p c)")
      case True
      with s have "is_set (field_of p d)" by simp
      with True m have "field_of p d = Some (key_field p key)" "field_of p c = Some (key_field p key)"
        unfolding corridor_matches_def by blast+
      then show ?thesis by (simp only:)
    next
      case False
      with s show ?thesis by (auto simp: is_set_def or0_def split: option.splits)
    qed
  qed
  note f = this
  have fields: "or0 (co_FromCategoryId d) = or0 (co_FromCategoryId c)" "or0 (co_FromTagId d) = or0 (co_FromTagId c)"
    "or0 (co_FromNodeId d) = or0 (co_FromNodeId c)" "or0 (co_ToCategoryId d) = or0 (co_ToCategoryId c)"
    "or0 (co_ToTagId d) = or0 (co_ToTagId c)" "or0 (co_ToNodeId d) = or0 (co_ToNodeId c)"
    "or0 (co_ChannelId d) = or0 (co_ChannelId c)"
    using f [of FromCategory] f [of FromTag] f [of FromNode] f [of ToCategory] f [of ToTag]
      f [of ToNode] f [of Channel] by (simp_all only: field_of_def CorridorPriority.case)
  have "co_Inverse d = co_Inverse c" "co_ReferenceId d = co_ReferenceId c"
    using m by (simp_all add: corridor_matches_def)
  then show ?thesis using t by (simp add: constructKey_def same(1) fields)
qed

section \<open>After a refresh\<close>

lemma refresh_caches:
  assumes "getCorridorTypeFromId tid = Some t" and "rows tid = Ok cs"
    and "RefreshCorridorCacheByTypeId rows ord tid caches = (caches', None)"
  shows "caches' t = Some \<lparr>corridorCacheMap = stage_all cs,
            corridorCacheSortedKeys = rev (sort (map fst (ord (stage_all cs))))\<rparr>"
proof -
  have "ct_CorridorTypeId t = tid"
    using assms(1) by (auto simp: getCorridorTypeFromId_def split: if_splits)
  with assms show ?thesis
    by (auto simp: RefreshCorridorCacheByTypeId_def RefreshCorridorCacheByType_def
        finalizeCorridorCacheByType_def Let_def updateCache_def stage_all_def split: option.splits)
qed

lemma sorted_keys:
  assumes "range_order ord"
  shows "sorted_wrt (\<ge>) (rev (sort (map fst (ord st))))"
    and "staged st p k = Some c \<Longrightarrow> p \<in> set (rev (sort (map fst (ord st))))"
proof -
  show "sorted_wrt (\<ge>) (rev (sort (map fst (ord st))))"
    by (simp add: sorted_wrt_rev)
  assume "staged st p k = Some c"
  then have "map_of st p \<noteq> None" by (auto simp: staged_def mget_def split: option.splits)
  then have "p \<in> fst ` set st" by (simp add: map_of_eq_None_iff)
  then show "p \<in> set (rev (sort (map fst (ord st))))"
    by (simp add: range_order_set [OF assms])
qed

text \<open>Each matching rule leaves a hit of its priority.\<close>

lemma matches_hit:
  assumes "d \<in> set cs" and "corridor_matches key d"
    and "\<forall>c \<in> set cs. co_CorridorTypeId c = tid" and "getCorridorTypeFromId tid = Some t"
    and "ck_ReferenceId key \<noteq> 0"
  shows "\<exists>e. hit (stage_all cs) key (calculatePriority d) (constructKey d) e"
proof -
  have m: "\<not> co_Inverse d" "co_ReferenceId d = Some (ck_ReferenceId key)"
    using assms(2) by (simp_all add: corridor_matches_def)
  obtain e where e: "staged (stage_all cs) (calculatePriority d) (constructKey d) = Some e"
    using staged_present [OF assms(1) m(1)] by blast
  then have "e \<in> set cs" and k: "constructKey e = constructKey d"
    using staged_in staging_ok_stage_all by (auto simp: staging_ok_def)
  with assms have t: "getCorridorTypeFromId (co_CorridorTypeId e) = Some t"
    "getCorridorTypeFromId (co_CorridorTypeId d) = Some t" by auto
  have "or0 (co_ReferenceId e) = ck_ReferenceId key"
    using arg_cong [OF k, of ck_ReferenceId] m t by (simp add: constructKey_def or0_def)
  then have "co_ReferenceId e = Some (ck_ReferenceId key)"
    using assms(5) by (auto simp: or0_def split: option.splits)
  moreover have "equals key (calculatePriority d) (constructKey d)"
    using assms(2) by (simp add: equals_constructKey [OF t(2)] corridor_matches_def)
  ultimately show ?thesis using e by (auto simp: hit_def)
qed

text \<open>What the search returns, over the rows: the lemma the properties rest on.\<close>

lemma search_rows:
  assumes "getCorridorTypeFromId tid = Some t" and "rows tid = Ok cs"
    and "\<forall>c \<in> set cs. co_CorridorTypeId c = tid"
    and "RefreshCorridorCacheByTypeId rows ord tid caches = (caches', None)"
    and "range_order ord" and "range_order ord'"
    and "ck_CorridorType key = t" and "ck_ReferenceId key \<noteq> 0"
    and "GetBestCorridor ord' caches' key = Ok c"
  shows "(\<forall>d \<in> set cs. \<not> corridor_matches key d) \<and>
         c = zeroCorridor\<lparr>co_CorridorTypeId := tid, co_Flag := ct_DefaultFlag t\<rparr> \<or>
         corridor_matches key c \<and>
         staged (stage_all cs) (calculatePriority c) (constructKey c) = Some c \<and>
         (\<forall>d \<in> set cs. corridor_matches key d \<longrightarrow> calculatePriority d \<le> calculatePriority c)"
proof -
  let ?st = "stage_all cs" let ?ks = "rev (sort (map fst (ord ?st)))"
  note ok = staging_ok_stage_all [of cs]
  have tid: "ct_CorridorTypeId t = tid"
    using assms(1) by (auto simp: getCorridorTypeFromId_def split: if_splits)
  have c: "(case search_corridor ord' key ?st ?ks of Some c \<Rightarrow> c
     | None \<Rightarrow> zeroCorridor\<lparr>co_CorridorTypeId := tid, co_Flag := ct_DefaultFlag t\<rparr>) = c"
    using assms(7,9) refresh_caches [OF assms(1,2,4)] tid
    by (simp add: GetBestCorridor_def getBestCorridor_def cong: option.case_cong)
  have hits: "\<exists>e. hit ?st key (calculatePriority d) (constructKey d) e \<and> calculatePriority d \<in> set ?ks"
    if "d \<in> set cs" "corridor_matches key d" for d
    using matches_hit [OF that assms(3,1,8)] sorted_keys(2) [OF assms(5)] by (auto simp only: hit_def)
  show ?thesis
  proof (cases "search_corridor ord' key ?st ?ks")
    case None
    then have "\<forall>d \<in> set cs. \<not> corridor_matches key d"
      using hits search_corridor_None [OF ok assms(6) None] by blast
    with None c show ?thesis by simp
  next
    case (Some b)
    with c have b: "b = c" by simp
    obtain p k where pk: "hit ?st key p k c"
      and max: "\<forall>q j d. q \<in> set ?ks \<and> hit ?st key q j d \<longrightarrow> q \<le> p"
      using search_corridor_Some [OF ok assms(6) Some sorted_keys(1) [OF assms(5)]] b by blast
    then have "c \<in> set cs" by (auto simp only: hit_def intro: staged_in)
    with assms have "getCorridorTypeFromId (co_CorridorTypeId c) = Some t" by simp
    from hit_matches [OF ok pk this] have m: "corridor_matches key c" "calculatePriority c = p" "constructKey c = k"
      by simp_all
    moreover have "\<forall>d \<in> set cs. corridor_matches key d \<longrightarrow> calculatePriority d \<le> p"
      using hits max by blast
    ultimately show ?thesis using pk by (auto simp only: hit_def)
  qed
qed

lemma GetBestCorridor_total:
  assumes "getCorridorTypeFromId tid = Some t" and "rows tid = Ok cs"
    and "RefreshCorridorCacheByTypeId rows ord tid caches = (caches', None)"
    and "ck_CorridorType key = t"
  shows "\<exists>c. GetBestCorridor ord' caches' key = Ok c"
  using refresh_caches [OF assms(1-3)] assms(4) by (simp add: GetBestCorridor_def)

section \<open>Properties\<close>

text \<open>
  the priority of a corridor is the set of the fields it specifies, one bit each: bit tests on
  it answer exactly which fields are set (non-nil and non-zero), so it lies between 0 and 127.
\<close>

lemma calculatePriority_is_specified_fields:
  "calculatePriority c < 128 \<and> hasPriority p (calculatePriority c) = is_set (field_of p c)"
  using hasPriority_calculatePriority_iff [of p c]
  by (simp add: calculatePriority_digits)

text \<open>
  the later a field stands in the priority order, the more it outweighs: a corridor that
  specifies a field the other does not, and agrees with it on every field after it, has the
  higher priority (so a rule for a channel beats every rule without one).
\<close>

lemma calculatePriority_most_specific:
  assumes "is_set (field_of p d)" and "\<not> is_set (field_of p c)"
    and "\<forall>q. corridor_priority_code p < corridor_priority_code q \<longrightarrow>
           is_set (field_of q c) = is_set (field_of q d)"
  shows "calculatePriority c < calculatePriority d"
proof -
  have b: "of_bool x \<le> (1 :: nat)" for x by simp
  show ?thesis
    using assms b [of "is_set (co_FromCategoryId c)"] b [of "is_set (co_FromTagId c)"]
      b [of "is_set (co_FromNodeId c)"] b [of "is_set (co_ToCategoryId c)"]
      b [of "is_set (co_ToTagId c)"] b [of "is_set (co_ToNodeId c)"]
    unfolding all_priorities calculatePriority_digits
    by (cases p) (simp_all add: field_of_def)
qed

text \<open>
  C8: after a successful refresh of a type, the best corridor for a key of that type is a row of
  the database that matches the key, of the highest priority among all rows that match; when no
  row matches it is the default corridor of the type.  Whatever order the maps are visited in.
\<close>

theorem GetBestCorridor_is_best_match:
  assumes "getCorridorTypeFromId tid = Some t" and "rows tid = Ok cs"
    and "\<forall>c \<in> set cs. co_CorridorTypeId c = tid"
    and "RefreshCorridorCacheByTypeId rows ord tid caches = (caches', None)"
    and "range_order ord" and "range_order ord'"
    and "ck_CorridorType key = t" and "ck_ReferenceId key \<noteq> 0"
  shows "\<exists>c. GetBestCorridor ord' caches' key = Ok c \<and>
     (if \<exists>d \<in> set cs. corridor_matches key d
      then c \<in> set cs \<and> corridor_matches key c \<and>
           (\<forall>d \<in> set cs. corridor_matches key d \<longrightarrow> calculatePriority d \<le> calculatePriority c)
      else c = zeroCorridor\<lparr>co_CorridorTypeId := tid, co_Flag := ct_DefaultFlag t\<rparr>)"
proof -
  obtain c where c: "GetBestCorridor ord' caches' key = Ok c"
    using GetBestCorridor_total [OF assms(1,2,4,7)] by blast
  from search_rows [OF assms c] show ?thesis
  proof (elim disjE conjE)
    assume "corridor_matches key c"
      "staged (stage_all cs) (calculatePriority c) (constructKey c) = Some c"
      "\<forall>d \<in> set cs. corridor_matches key d \<longrightarrow> calculatePriority d \<le> calculatePriority c"
    moreover from this have "c \<in> set cs" by (blast intro: staged_in)
    ultimately show ?thesis using c by auto
  qed (use c in auto)
qed

text \<open>
  the best corridor, its flag and its status do not depend on the order in which Go ranges
  over the maps, neither when the cache is built nor when it is searched.
\<close>

lemma GetBestCorridor_order_independent:
  assumes "getCorridorTypeFromId tid = Some t" and "rows tid = Ok cs"
    and "\<forall>c \<in> set cs. co_CorridorTypeId c = tid"
    and "RefreshCorridorCacheByTypeId rows ord1 tid caches = (caches1, None)"
    and "RefreshCorridorCacheByTypeId rows ord2 tid caches = (caches2, None)"
    and "range_order ord1" and "range_order ord2" and "range_order ord3" and "range_order ord4"
    and "ck_CorridorType key = t" and "ck_ReferenceId key \<noteq> 0"
  shows "GetBestCorridor ord3 caches1 key = GetBestCorridor ord4 caches2 key \<and>
         GetBestCorridorStatus ord3 caches1 key = GetBestCorridorStatus ord4 caches2 key"
proof -
  obtain c where c: "GetBestCorridor ord3 caches1 key = Ok c"
    using GetBestCorridor_total [OF assms(1,2,4,10)] by blast
  obtain d where d: "GetBestCorridor ord4 caches2 key = Ok d"
    using GetBestCorridor_total [OF assms(1,2,5,10)] by blast
  note sc = search_rows [OF assms(1-4,6,8,10,11) c]
  note sd = search_rows [OF assms(1-3,5,7,9,10,11) d]
  have "c = d"
  proof (cases "\<exists>e \<in> set cs. corridor_matches key e")
    case False
    with sc sd show ?thesis by (metis staged_in)
  next
    case True
    with sc have mc: "corridor_matches key c" "staged (stage_all cs) (calculatePriority c) (constructKey c) = Some c"
      "\<forall>d \<in> set cs. corridor_matches key d \<longrightarrow> calculatePriority d \<le> calculatePriority c" by blast+
    from True sd have md: "corridor_matches key d" "staged (stage_all cs) (calculatePriority d) (constructKey d) = Some d"
      "\<forall>c \<in> set cs. corridor_matches key c \<longrightarrow> calculatePriority c \<le> calculatePriority d" by blast+
    from mc md have cd: "c \<in> set cs" "d \<in> set cs" by (blast intro: staged_in)+
    with mc md have p: "calculatePriority d = calculatePriority c" by (meson le_antisym)
    moreover have "constructKey d = constructKey c"
      using matching_constructKey [OF _ _ p mc(1) md(1)] cd assms(1,3) by simp
    ultimately show ?thesis using mc(2) md(2) by simp
  qed
  with c d show ?thesis by (simp add: GetBestCorridorStatus_def)
qed

text \<open>
  with the caches of the two known types in place (as at program start), a refresh by type id
  succeeds exactly when the id is 0 or 1 and the database answers; an unknown id panics with a nil
  dereference and changes nothing.  Every refresh keeps the two caches in place, and the search
  then never panics for a key of a known type.
\<close>

lemma RefreshCorridorCacheByTypeId_outcome:
  assumes "caches Category \<noteq> None" and "caches Tag \<noteq> None"
    and "RefreshCorridorCacheByTypeId rows ord tid caches = (caches', e)"
  shows "(e = None) = (tid \<in> {0, 1} \<and> (\<exists>cs. rows tid = Ok cs)) \<and>
         (tid \<notin> {0, 1} \<longrightarrow> caches' = caches \<and> e = Some (Panic ''nil pointer dereference'')) \<and>
         caches' Category \<noteq> None \<and> caches' Tag \<noteq> None \<and>
         (\<forall>t \<in> set corridorTypes. \<exists>c. GetBestCorridor ord' caches' (zeroKey\<lparr>ck_CorridorType := t\<rparr>) = Ok c)"
proof -
  have types: "getCorridorTypeFromId tid = (if tid = 0 then Some Category else if tid = 1 then Some Tag else None)"
    by (simp add: getCorridorTypeFromId_def Category_def Tag_def)
  have ids: "ct_CorridorTypeId Category = 0" "ct_CorridorTypeId Tag = 1"
    by (simp_all add: Category_def Tag_def)
  have e: "(e = None) = (tid \<in> {0, 1} \<and> (\<exists>cs. rows tid = Ok cs))"
    and p: "tid \<notin> {0, 1} \<longrightarrow> caches' = caches \<and> e = Some (Panic ''nil pointer dereference'')"
    and k: "caches' Category \<noteq> None \<and> caches' Tag \<noteq> None"
    using assms ids
    by (auto simp: RefreshCorridorCacheByTypeId_def types RefreshCorridorCacheByType_def
        finalizeCorridorCacheByType_def Let_def split: sum.splits option.splits if_splits)
  moreover have "\<exists>c. GetBestCorridor ord' caches' (zeroKey\<lparr>ck_CorridorType := t\<rparr>) = Ok c"
    if "t \<in> set corridorTypes" for t
    using that k by (auto simp: corridorTypes_def GetBestCorridor_def)
  ultimately show ?thesis by blast
qed

section \<open>Witnesses\<close>

text \<open>The rules of the repository's own test: tag 5 for nodes 1 and 2, off for channel 1.\<close>

definition exampleCorridors :: "Corridor list" where
  "exampleCorridors =
     [zeroCorridor\<lparr>co_CorridorTypeId := 1, co_CorridorId := 1, co_Flag := 1, co_ReferenceId := Some 5,
        co_FromNodeId := Some 1\<rparr>,
      zeroCorridor\<lparr>co_CorridorTypeId := 1, co_CorridorId := 2, co_Flag := 0, co_ReferenceId := Some 5,
        co_FromNodeId := Some 1, co_ChannelId := Some 1\<rparr>,
      zeroCorridor\<lparr>co_CorridorTypeId := 1, co_CorridorId := 3, co_Flag := 1, co_ReferenceId := Some 5,
        co_FromNodeId := Some 2\<rparr>]"

definition exampleCorridorKey :: CorridorKey where
  "exampleCorridorKey =
     zeroKey\<lparr>ck_CorridorType := Tag, ck_ReferenceId := 5, ck_FromNodeId := 1, ck_ChannelId := 1\<rparr>"

definition exampleCorridorCaches :: "(nat, corridor_entries) order \<Rightarrow> corridor_caches" where
  "exampleCorridorCaches ord =
     fst (RefreshCorridorCacheByTypeId (\<lambda>_. Ok exampleCorridors) ord 1 corridorCache)"

lemma exampleCorridorCaches_refreshed:
  "RefreshCorridorCacheByTypeId (\<lambda>_. Ok exampleCorridors) ord 1 corridorCache = (exampleCorridorCaches ord, None)"
proof -
  have "snd (RefreshCorridorCacheByTypeId (\<lambda>_. Ok exampleCorridors) ord 1 corridorCache) = None"
    by (simp add: RefreshCorridorCacheByTypeId_def getCorridorTypeFromId_def RefreshCorridorCacheByType_def
        finalizeCorridorCacheByType_def corridorCache_def Category_def Tag_def)
  then show ?thesis by (metis exampleCorridorCaches_def prod.collapse)
qed

lemma exampleCorridors_facts:
  "getCorridorTypeFromId 1 = Some Tag" "\<forall>c \<in> set exampleCorridors. co_CorridorTypeId c = 1"
  "ck_CorridorType exampleCorridorKey = Tag" "ck_ReferenceId exampleCorridorKey \<noteq> 0"
  by (simp_all add: getCorridorTypeFromId_def Category_def Tag_def exampleCorridors_def exampleCorridorKey_def)

lemma exampleCorridors_match: "\<exists>d \<in> set exampleCorridors. corridor_matches exampleCorridorKey d"
  by (rule bexI [of _ "exampleCorridors ! 1"])
    (simp_all add: exampleCorridors_def exampleCorridorKey_def corridor_matches_def all_priorities
      field_of_def key_field_def is_set_def zeroCorridor_def)

theorem GetBestCorridor_is_best_match_witness:
  "\<exists>c. GetBestCorridor rev (exampleCorridorCaches rev) exampleCorridorKey = Ok c \<and>
       c \<in> set exampleCorridors \<and> corridor_matches exampleCorridorKey c \<and>
       (\<forall>d \<in> set exampleCorridors. corridor_matches exampleCorridorKey d \<longrightarrow>
          calculatePriority d \<le> calculatePriority c)"
  using GetBestCorridor_is_best_match [OF exampleCorridors_facts(1) refl exampleCorridors_facts(2)
      exampleCorridorCaches_refreshed range_order_id(2) range_order_id(2) exampleCorridors_facts(3,4)]
    exampleCorridors_match by simp

lemma GetBestCorridor_order_independent_witness:
  "GetBestCorridor rev (exampleCorridorCaches rev) exampleCorridorKey =
   GetBestCorridor (\<lambda>m. m) (exampleCorridorCaches (\<lambda>m. m)) exampleCorridorKey"
  using GetBestCorridor_order_independent [OF exampleCorridors_facts(1) refl exampleCorridors_facts(2)
      exampleCorridorCaches_refreshed exampleCorridorCaches_refreshed range_order_id(2) range_order_id(1)
      range_order_id(2) range_order_id(1) exampleCorridors_facts(3,4)] by simp

lemma calculatePriority_most_specific_witness:
  "calculatePriority (exampleCorridors ! 0) < calculatePriority (exampleCorridors ! 1)"
  by (rule calculatePriority_most_specific [of Channel])
    (simp_all add: exampleCorridors_def field_of_def is_set_def zeroCorridor_def all_priorities)

lemma RefreshCorridorCacheByTypeId_outcome_witness:
  "snd (RefreshCorridorCacheByTypeId (\<lambda>_. Ok exampleCorridors) rev 7 corridorCache) =
     Some (Panic ''nil pointer dereference'')"
proof -
  have c: "corridorCache Category \<noteq> None" "corridorCache Tag \<noteq> None"
    by (simp_all add: corridorCache_def)
  obtain caches' e where r: "RefreshCorridorCacheByTypeId (\<lambda>_. Ok exampleCorridors) rev 7 corridorCache = (caches', e)"
    by fastforce
  from RefreshCorridorCacheByTypeId_outcome [OF c r] r show ?thesis by simp
qed

end
