(* ===== verification/ChannelBalanceCache.thy ===== *)
theory ChannelBalanceCache
  imports ManagedChannelState ManagedNode Services
begin

text \<open>
  The maintenance of the channel state cache, \<open>src/pkg/lnd/channelBalanceCache.go\<close>: a goroutine
  that rewrites the states of a node's channels from LND at every tick and one that applies each
  broadcasted event.  \<open>SendStreamEvent\<close> is from \<open>src/pkg/lnd/helper.go\<close>, \<open>ChannelPolicy\<close> from
  \<open>src/internal/channels/handlers.go\<close>.  LND's answer and the policies of the database are
  parameters; the channel and node caches are those of their theories.  (A read of the node cache
  may create an empty inner map there, which no read can observe.)
\<close>

section \<open>Stream events\<close>

definition SendStreamEvent ::
    "time \<Rightarrow> bool \<Rightarrow> int \<Rightarrow> SubscriptionStream \<Rightarrow> Status \<Rightarrow> Status \<Rightarrow> Services \<Rightarrow>
     Services \<times> ServiceEvent list \<times> Status" where
  "SendStreamEvent now eventChannel nodeId stream status previousStatus rs =
     (if eventChannel \<and> (status = Initializing \<or> previousStatus \<noteq> status)
      then let x = SetStreamStatus now nodeId stream status eventChannel rs in (fst x, snd x, status)
      else (rs, [], status))"

section \<open>Initialization from LND\<close>

record LndHtlc =
  lh_Incoming :: bool
  lh_Amount :: int64
  lh_HashLock :: bytes
  lh_ExpirationHeight :: uint32
  lh_HtlcIndex :: uint64
  lh_ForwardingChannel :: uint64
  lh_ForwardingHtlcIndex :: uint64

text \<open>The fields of LND's channel that the code reads.\<close>

record LndChannel =
  lc_ChannelPoint :: string
  lc_RemotePubkey :: string
  lc_LocalBalance :: int64
  lc_RemoteBalance :: int64
  lc_CommitFee :: int64
  lc_CommitWeight :: int64
  lc_FeePerKw :: int64
  lc_NumUpdates :: uint64
  lc_ChanStatusFlags :: string
  lc_CommitmentType :: int
  lc_Lifetime :: int64
  lc_TotalSatoshisSent :: int64
  lc_TotalSatoshisReceived :: int64
  lc_PendingHtlcs :: "LndHtlc list"

record ChannelPolicy =
  cpol_Disabled :: bool
  cpol_TimeLockDelta :: uint32
  cpol_MinHtlcMsat :: uint64
  cpol_MaxHtlcMsat :: uint64
  cpol_FeeRateMillMsat :: uint64
  cpol_ShortChannelId :: string
  cpol_FeeBaseMsat :: uint64
  cpol_NodeId :: int
  cpol_RemoteNodeId :: int

text \<open>
  Where the initialization reads from: LND's channel list, the routing policies of a channel and a
  node in the database, the channel cache and the node cache.
\<close>

record BalanceSources =
  src_lnd :: "LndChannel list result"
  src_localPolicy :: "int \<Rightarrow> int \<Rightarrow> ChannelPolicy result"
  src_remotePolicy :: "int \<Rightarrow> int \<Rightarrow> ChannelPolicy result"
  src_channelOrders :: channel_orders
  src_channels :: ChannelState
  src_nodeOrders :: NodeOrders
  src_nodes :: NodeState

definition htlc_of :: "LndHtlc \<Rightarrow> Htlc" where
  "htlc_of h =
     \<lparr>htlc_Incoming = lh_Incoming h, htlc_Amount = lh_Amount h, htlc_HashLock = lh_HashLock h,
      htlc_ExpirationHeight = lh_ExpirationHeight h, htlc_HtlcIndex = lh_HtlcIndex h,
      htlc_ForwardingChannel = lh_ForwardingChannel h, htlc_ForwardingHtlcIndex = lh_ForwardingHtlcIndex h\<rparr>"

text \<open>One pending HTLC: it counts as incoming when its forwarding index is 0.\<close>

definition add_pending :: "LndHtlc \<Rightarrow> ManagedChannelStateSettings \<Rightarrow> ManagedChannelStateSettings" where
  "add_pending h cs =
     (let htlc = htlc_of h;
          c1 = cs\<lparr>css_PendingHtlcs := css_PendingHtlcs cs @ [htlc]\<rparr>
      in if htlc_ForwardingHtlcIndex htlc = 0
         then c1\<lparr>css_PendingIncomingHtlcCount := css_PendingIncomingHtlcCount c1 + 1,
                 css_PendingIncomingHtlcAmount := css_PendingIncomingHtlcAmount c1 + htlc_Amount htlc\<rparr>
         else c1\<lparr>css_PendingOutgoingHtlcCount := css_PendingOutgoingHtlcCount c1 + 1,
                 css_PendingOutgoingHtlcAmount := css_PendingOutgoingHtlcAmount c1 + htlc_Amount htlc\<rparr>)"

definition channel_state_of ::
    "int \<Rightarrow> int \<Rightarrow> int \<Rightarrow> ChannelPolicy \<Rightarrow> ChannelPolicy \<Rightarrow> LndChannel \<Rightarrow> ManagedChannelStateSettings" where
  "channel_state_of nodeId remoteNodeId channelId localPolicy remotePolicy lndChannel =
     fold add_pending (lc_PendingHtlcs lndChannel)
       \<lparr>css_NodeId = nodeId, css_RemoteNodeId = remoteNodeId, css_ChannelId = channelId,
        css_LocalBalance = lc_LocalBalance lndChannel,
        css_LocalDisabled = cpol_Disabled localPolicy,
        css_LocalFeeBaseMsat = cpol_FeeBaseMsat localPolicy,
        css_LocalFeeRateMilliMsat = cpol_FeeRateMillMsat localPolicy,
        css_LocalMinHtlcMsat = cpol_MinHtlcMsat localPolicy,
        css_LocalMaxHtlcMsat = cpol_MaxHtlcMsat localPolicy,
        css_LocalTimeLockDelta = cpol_TimeLockDelta localPolicy,
        css_RemoteBalance = lc_RemoteBalance lndChannel,
        css_RemoteDisabled = cpol_Disabled remotePolicy,
        css_RemoteFeeBaseMsat = cpol_FeeBaseMsat remotePolicy,
        css_RemoteFeeRateMilliMsat = cpol_FeeRateMillMsat remotePolicy,
        css_RemoteMinHtlcMsat = cpol_MinHtlcMsat remotePolicy,
        css_RemoteMaxHtlcMsat = cpol_MaxHtlcMsat remotePolicy,
        css_RemoteTimeLockDelta = cpol_TimeLockDelta remotePolicy,
        css_UnsettledBalance = 0, css_PendingHtlcs = [],
        css_PendingIncomingHtlcCount = 0, css_PendingIncomingHtlcAmount = 0,
        css_PendingOutgoingHtlcCount = 0, css_PendingOutgoingHtlcAmount = 0,
        css_CommitFee = lc_CommitFee lndChannel, css_CommitWeight = lc_CommitWeight lndChannel,
        css_FeePerKw = lc_FeePerKw lndChannel, css_NumUpdates = lc_NumUpdates lndChannel,
        css_ChanStatusFlags = lc_ChanStatusFlags lndChannel,
        css_CommitmentType = lc_CommitmentType lndChannel, css_Lifetime = lc_Lifetime lndChannel,
        css_TotalSatoshisReceived = lc_TotalSatoshisReceived lndChannel,
        css_TotalSatoshisSent = lc_TotalSatoshisSent lndChannel\<rparr>"

datatype BuildResult =
    Built "ManagedChannelStateSettings list"
  | Returned "go_error option" \<comment> \<open>the function returned early, with this error or nil\<close>
  | Waiting \<comment> \<open>a cache never answered\<close>

text \<open>
  The loop over LND's channels.  For an unknown channel the code returns \<open>errors.Wrapf(err, ...)\<close>
  where \<open>err\<close> is nil, which is nil.
\<close>

fun build_states ::
    "BalanceSources \<Rightarrow> int \<Rightarrow> ManagedNodeSettings \<Rightarrow> LndChannel list \<Rightarrow>
     ManagedChannelStateSettings list \<Rightarrow> BuildResult" where
  "build_states src nodeId nodeSettings [] states = Built states"
| "build_states src nodeId nodeSettings (lndChannel # rest) states =
     (case (GetChannelIdByChannelPoint (src_channelOrders src) (src_channels src) (lc_ChannelPoint lndChannel),
            GetNodeIdByPublicKey (src_nodeOrders src) (src_nodes src) (lc_RemotePubkey lndChannel)
              (mns_Chain nodeSettings) (mns_Network nodeSettings)) of
        (Some channelId, Some remoteNodeId) \<Rightarrow>
          (if channelId = 0 then Returned None
           else case src_localPolicy src channelId nodeId of
             Inl e \<Rightarrow> Returned (Some e)
           | Inr localPolicy \<Rightarrow>
               (case src_remotePolicy src channelId nodeId of
                  Inl e \<Rightarrow> Returned (Some e)
                | Inr remotePolicy \<Rightarrow>
                    build_states src nodeId nodeSettings rest
                      (states @ [channel_state_of nodeId remoteNodeId channelId localPolicy remotePolicy lndChannel])))
      | _ \<Rightarrow> Waiting)"

text \<open>
  The state is the registry of services and the channel state cache; the value is the error the
  function returns.  \<open>env1\<close> and \<open>env2\<close> are the environments of its two writes.
\<close>

definition initializeChannelBalanceFromLnd ::
    "BalanceSources \<Rightarrow> StateEnv \<Rightarrow> StateEnv \<Rightarrow> (SubscriptionStream, Status) order \<Rightarrow> bool \<Rightarrow> int \<Rightarrow>
     Services \<times> StateCache \<Rightarrow> (Services \<times> StateCache, go_error option) outcome" where
  "initializeChannelBalanceFromLnd src env1 env2 ord writeLocked nodeId w =
     (if writeLocked then Served w (Some (Some (Error ''already locked'')))
      else case GetNodeSettingsByNodeId (src_nodeOrders src) (src_nodes src) nodeId of
        None \<Rightarrow> Blocked
      | Some nodeSettings \<Rightarrow>
          (case src_lnd src of
             Inl e \<Rightarrow> Served w (Some (Some e))
           | Inr lndChannels \<Rightarrow>
               (case build_states src nodeId nodeSettings lndChannels [] of
                  Waiting \<Rightarrow> Blocked
                | Returned e \<Rightarrow> Served w (Some e)
                | Built states \<Rightarrow>
                    (case SetChannelStates env1 nodeId states (snd w) of
                       Blocked \<Rightarrow> Blocked
                     | Crashed t \<Rightarrow> Crashed t
                     | Served cache1 r1 \<Rightarrow>
                         (let (services1, status) = GetStatus ord nodeId (fst w) in
                          case SetChannelStateNodeStatus env2 nodeId status cache1 of
                            Blocked \<Rightarrow> Blocked
                          | Crashed t \<Rightarrow> Crashed t
                          | Served cache2 r2 \<Rightarrow> Served (services1, cache2) (Some None))))))"

section \<open>Synchronization\<close>

text \<open>
  Between two uses of the registry other goroutines may use it too: \<open>others i\<close> is what they do to
  it before the i-th use.  The result is the pair of loop variables and the events sent.
\<close>

definition synchronizeDataFromLnd ::
    "(Services \<times> StateCache \<Rightarrow> (Services \<times> StateCache, go_error option) outcome) \<Rightarrow>
     (nat \<Rightarrow> Services \<Rightarrow> Services) \<Rightarrow> (nat \<Rightarrow> time) \<Rightarrow> bool \<Rightarrow> int \<Rightarrow> SubscriptionStream \<Rightarrow> bool \<Rightarrow> Status \<Rightarrow>
     Services \<times> StateCache \<Rightarrow>
     (Services \<times> StateCache, bool \<times> Status \<times> ServiceEvent list) outcome" where
  "synchronizeDataFromLnd initialize others now eventChannel nodeId stream bootStrapping serviceStatus w =
     (let (sv1, streams1) = GetChannelBalanceCacheStreamStatus nodeId (others 0 (fst w));
          boot1 = (if streams1 \<noteq> Active then True else bootStrapping);
          (sv2, ev1, status1) = SendStreamEvent (now 0) eventChannel nodeId stream
            (if boot1 then Initializing else Active) serviceStatus (others 1 sv1)
      in case initialize (others 2 sv2, snd w) of
           Blocked \<Rightarrow> Blocked
         | Crashed t \<Rightarrow> Crashed t
         | Served (sv3, cache) reply \<Rightarrow>
             (if reply = None \<or> reply = Some None
              then let (sv4, streams2) = GetChannelBalanceCacheStreamStatus nodeId (others 3 sv3)
                   in if streams2 = Active
                      then let (sv5, ev2, status2) =
                                 SendStreamEvent (now 1) eventChannel nodeId stream Active status1 (others 4 sv4)
                           in Served (sv5, cache) (Some (False, status2, ev1 @ ev2))
                      else Served (sv4, cache) (Some (boot1, status1, ev1))
              else let (sv4, ev2, status2) =
                         SendStreamEvent (now 1) eventChannel nodeId stream Pending status1 (others 3 sv3)
                   in Served (sv4, cache) (Some (boot1, status2, ev1 @ ev2))))"

section \<open>Broadcasted events\<close>

datatype BroadcastedEvent =
    ServiceEv ServiceEvent
  | ChannelEv ChannelEvent
  | ChannelGraphEv ChannelGraphEvent
  | ForwardEv ForwardEvent
  | InvoiceEv InvoiceEvent
  | PaymentEv PaymentEvent
  | HtlcEv HtlcEvent
  | PeerEv PeerEvent
  | CloseChannelEv CloseChannelResponse
  | UpdateChannelEv UpdateChannelResponse
  | OtherEv \<comment> \<open>a value of any other type\<close>

text \<open>Doing one request after the other.\<close>

definition and_then :: "('s, 'r) outcome \<Rightarrow> ('s \<Rightarrow> ('s, 'r) outcome) \<Rightarrow> ('s, 'r) outcome" where
  "and_then out f = (case out of Served s r \<Rightarrow> f s | Blocked \<Rightarrow> Blocked | Crashed m \<Rightarrow> Crashed m)"

definition set_if ::
    "int option \<Rightarrow> (int \<Rightarrow> state_step) \<Rightarrow> state_step" where
  "set_if c f s = (case c of None \<Rightarrow> Served s None | Some i \<Rightarrow> f i s)"

definition or_current :: "'a option \<Rightarrow> 'a \<Rightarrow> 'a" where
  "or_current requested current = (case requested of None \<Rightarrow> current | Some v \<Rightarrow> v)"

definition channel_event_status :: "ChannelEventUpdateType \<Rightarrow> Status" where
  "channel_event_status ty =
     (case ty of ACTIVE_CHANNEL \<Rightarrow> Active | INACTIVE_CHANNEL \<Rightarrow> Inactive | CLOSED_CHANNEL \<Rightarrow> Deleted
      | _ \<Rightarrow> Inactive)"

definition peer_event_status :: "PeerEventType \<Rightarrow> Status" where
  "peer_event_status ty = (case ty of PEER_ONLINE \<Rightarrow> Active | PEER_OFFLINE \<Rightarrow> Inactive | _ \<Rightarrow> Inactive)"

fun set_channel_statuses :: "(nat \<Rightarrow> StateEnv) \<Rightarrow> nat \<Rightarrow> int \<Rightarrow> Status \<Rightarrow> int list \<Rightarrow> state_step" where
  "set_channel_statuses envs i nodeId status [] s = Served s None"
| "set_channel_statuses envs i nodeId status (channelId # rest) s =
     and_then (SetChannelStateChannelStatus (envs i) nodeId channelId status s)
       (set_channel_statuses envs (Suc i) nodeId status rest)"

definition update_channel_response :: "(nat \<Rightarrow> StateEnv) \<Rightarrow> UpdateChannelRequest \<Rightarrow> state_step" where
  "update_channel_response envs req s =
     (case ucr_ChannelId req of
        None \<Rightarrow> Served s None
      | Some channelId \<Rightarrow>
          if ucr_NodeId req = 0 \<or> channelId = 0 then Served s None
          else (case GetChannelState (envs 0) s (ucr_NodeId req) channelId True of
                  None \<Rightarrow> Blocked
                | Some None \<Rightarrow> Crashed ''nil pointer dereference''
                | Some (Some current) \<Rightarrow>
                    SetChannelStateRoutingPolicy (envs 1) (ucr_NodeId req) channelId True
                      \<lparr>cged_Disabled = css_LocalDisabled current,
                       cged_TimeLockDelta = or_current (ucr_TimeLockDelta req) (css_LocalTimeLockDelta current),
                       cged_MinHtlcMsat = or_current (ucr_MinHtlcMsat req) (css_LocalMinHtlcMsat current),
                       cged_MaxHtlcMsat = or_current (ucr_MaxHtlcMsat req) (css_LocalMaxHtlcMsat current),
                       cged_FeeBaseMsat = or_current (ucr_FeeBaseMsat req) (css_LocalFeeBaseMsat current),
                       cged_FeeRateMilliMsat = or_current (ucr_FeeRateMilliMsat req) (css_LocalFeeRateMilliMsat current)\<rparr> s))"

text \<open>
  \<open>envs i\<close> is the environment of the i-th request the handler sends.  The branch of a closed channel
  uses \<open>channelEvent\<close>, which the failed type assertion left with its zero value.
\<close>

definition processBroadcastedEvent ::
    "(nat \<Rightarrow> StateEnv) \<Rightarrow> channel_orders \<Rightarrow> ChannelState \<Rightarrow> BroadcastedEvent \<Rightarrow> state_step" where
  "processBroadcastedEvent envs ords channels event s =
     (case event of
        ServiceEv e \<Rightarrow>
          if ev_NodeId e = 0 \<or> se_Type e \<noteq> LndService then Served s None
          else if \<not> IsChannelBalanceCache (se_SubscriptionStream e) then Served s None
          else SetChannelStateNodeStatus (envs 0) (ev_NodeId e) (se_Status e) s
      | ChannelEv e \<Rightarrow>
          if ev_NodeId e = 0 \<or> ce_ChannelId e = 0 then Served s None
          else SetChannelStateChannelStatus (envs 0) (ev_NodeId e) (ce_ChannelId e)
                 (channel_event_status (ce_Type e)) s
      | ChannelGraphEv e \<Rightarrow>
          (case (ged_ChannelId e, ged_AnnouncingNodeId e, ged_ConnectingNodeId e) of
             (Some channelId, Some announcing, Some connecting) \<Rightarrow>
               if ev_NodeId e = 0 \<or> channelId = 0 \<or> announcing = 0 \<or> connecting = 0 then Served s None
               else SetChannelStateRoutingPolicy (envs 0) (ev_NodeId e) channelId
                      (announcing = ev_NodeId e) (cge_Data e) s
           | _ \<Rightarrow> Served s None)
      | ForwardEv e \<Rightarrow>
          if ev_NodeId e = 0 then Served s None
          else and_then
                 (set_if (fe_IncomingChannelId e)
                    (\<lambda>c. SetChannelStateBalanceUpdateMsat (envs 0) (ev_NodeId e) c True (fe_AmountInMsat e)) s)
                 (set_if (fe_OutgoingChannelId e)
                    (\<lambda>c. SetChannelStateBalanceUpdateMsat (envs 1) (ev_NodeId e) c False (fe_AmountOutMsat e)))
      | InvoiceEv e \<Rightarrow>
          if ev_NodeId e = 0 \<or> ie_State e \<noteq> SETTLED then Served s None
          else SetChannelStateBalanceUpdateMsat (envs 0) (ev_NodeId e) (ie_ChannelId e) True (ie_AmountPaidMsat e) s
      | PaymentEv e \<Rightarrow>
          (case pay_OutgoingChannelId e of
             None \<Rightarrow> Served s None
           | Some c \<Rightarrow>
               if ev_NodeId e = 0 \<or> c = 0 \<or> pay_PaymentStatus e \<noteq> SUCCEEDED then Served s None
               else SetChannelStateBalanceUpdate (envs 0) (ev_NodeId e) c False (pay_AmountPaid e) s)
      | HtlcEv e \<Rightarrow>
          if ev_NodeId e = 0 then Served s None else SetChannelStateBalanceHtlcEvent (envs 0) e s
      | PeerEv e \<Rightarrow>
          if ev_NodeId e = 0 \<or> pe_EventNodeId e = 0 then Served s None
          else (case GetChannelIdsByNodeId ords channels (pe_EventNodeId e) of
                  None \<Rightarrow> Blocked
                | Some channelIds \<Rightarrow>
                    set_channel_statuses envs 0 (ev_NodeId e) (peer_event_status (pe_Type e)) channelIds s)
      | CloseChannelEv e \<Rightarrow>
          if ccr_NodeId (ccs_Request e) = 0 then Served s None
          else SetChannelStateChannelStatus (envs 0) 0 0 Deleted s
      | UpdateChannelEv e \<Rightarrow> update_channel_response envs (ucs_Request e) s
      | OtherEv \<Rightarrow> Served s None)"

section \<open>What one request can change\<close>

definition confined :: "int \<Rightarrow> StateCache \<Rightarrow> StateCache \<Rightarrow> bool" where
  "confined n s t \<longleftrightarrow>
     (\<forall>m. m \<noteq> n \<longrightarrow> settingsByChannelId t m = settingsByChannelId s m \<and>
        settingsStatus t m = settingsStatus s m \<and> deactivationTime t m = deactivationTime s m)"

definition keeps_status :: "StateCache \<Rightarrow> StateCache \<Rightarrow> bool" where
  "keeps_status s t \<longleftrightarrow> settingsStatus t = settingsStatus s \<and> deactivationTime t = deactivationTime s"

lemma confined_refl [simp]: "confined n s s"
  by (simp add: confined_def)

lemma confined_trans: "confined n s t \<Longrightarrow> confined n t u \<Longrightarrow> confined n s u"
  by (simp add: confined_def)

lemma keeps_status_refl [simp]: "keeps_status s s"
  by (simp add: keeps_status_def)

lemma keeps_status_trans: "keeps_status s t \<Longrightarrow> keeps_status t u \<Longrightarrow> keeps_status s u"
  by (simp add: keeps_status_def)

lemma confined_update_channel [simp]: "confined n s (update_channel n c f s)"
  by (auto simp: confined_def update_channel_def split: option.splits)

lemma confined_delete_channel [simp]: "confined n s (delete_channel n c s)"
  by (auto simp: confined_def delete_channel_def split: option.splits)

lemma keeps_status_channel [simp]:
  "keeps_status s (update_channel n c f s)" "keeps_status s (delete_channel n c s)"
  by (simp_all add: keeps_status_def)

text \<open>The effect of each client function, as one equation.\<close>

lemma set_requests:
  "SetChannelStates env n css s = Served (writeInitialStates ((stateRequest WRITE_INITIAL_CHANNELSTATES)
     \<lparr>st_NodeId := n, st_ChannelStateSettings := css\<rparr>) s) None"
  "SetChannelStateNodeStatus env n status s = Served (writeNodeStatus (env_now env)
     ((stateRequest WRITE_CHANNELSTATE_NODESTATUS)\<lparr>st_NodeId := n, st_Status := status\<rparr>) s) None"
  "SetChannelStateChannelStatus env n c status s = Served (writeChannelStateStatus (env_now env)
     ((stateRequest WRITE_CHANNELSTATE_CHANNELSTATUS)
       \<lparr>st_NodeId := n, st_ChannelId := c, st_Status := status\<rparr>) s) None"
  "SetChannelStateBalanceUpdateMsat env n c increase amt s =
     Served (if c = 0 \<or> n = 0 then s
             else update_channel n c (apply_balance (if increase then amt div 1000 else - (amt div 1000))) s) None"
  "SetChannelStateBalanceUpdate env n c increase amount s =
     Served (if c = 0 \<or> n = 0 then s
             else update_channel n c (apply_balance (if increase then amount else - amount)) s) None"
  "SetChannelStateBalanceHtlcEvent env e s = writeHtlcEvent e s"
  by (simp_all add: SetChannelStates_def SetChannelStateNodeStatus_def SetChannelStateChannelStatus_def
      SetChannelStateBalanceUpdateMsat_def SetChannelStateBalanceUpdate_def
      SetChannelStateBalanceHtlcEvent_def processManagedChannelStateSettings_def writeBalance_def)

lemma set_policy_request:
  "\<exists>m. st_NodeId m = n \<and> st_ChannelId m = c \<and>
       SetChannelStateRoutingPolicy env n c l p s = Served (writeRoutingPolicy (env_now env) m s) None"
  by (rule exI [of _ "(stateRequest WRITE_CHANNELSTATE_ROUTINGPOLICY)
       \<lparr>st_NodeId := n, st_ChannelId := c, st_Local := l,
        st_Disabled := cged_Disabled p, st_TimeLockDelta := cged_TimeLockDelta p,
        st_MinHtlcMsat := cged_MinHtlcMsat p, st_MaxHtlcMsat := cged_MaxHtlcMsat p,
        st_FeeBaseMsat := cged_FeeBaseMsat p, st_FeeRateMilliMsat := cged_FeeRateMilliMsat p\<rparr>"])
    (simp add: SetChannelStateRoutingPolicy_def processManagedChannelStateSettings_def)

text \<open>A request that is served leaves the invariant, changes one node, and most keep the status.\<close>

definition good_step :: "int \<Rightarrow> (StateCache, StateReply) outcome \<Rightarrow> StateCache \<Rightarrow> bool" where
  "good_step n out s \<longleftrightarrow>
     (\<forall>t r. out = Served t r \<and> state_cache_ok s \<longrightarrow> state_cache_ok t \<and> confined n s t \<and> keeps_status s t)"

lemma good_step_id [simp]: "good_step n (Served s None) s"
  by (simp add: good_step_def)

lemma good_step_stuck [simp]: "good_step n Blocked s" "good_step n (Crashed m) s"
  by (simp_all add: good_step_def)

lemma good_step_and_then:
  assumes "good_step n out s" and "\<And>t. good_step n (f t) t"
  shows "good_step n (and_then out f) s"
  using assms unfolding good_step_def and_then_def
  by (fastforce split: outcome.splits intro: confined_trans keeps_status_trans)

lemma good_step_status: "good_step n (SetChannelStateChannelStatus env n c status s) s"
  by (auto simp: good_step_def set_requests state_cache_ok_writes)
    (simp_all add: writeChannelStateStatus_def split: Status.split)

lemma good_step_balance:
  "good_step n (SetChannelStateBalanceUpdateMsat env n c increase amt s) s"
  "good_step n (SetChannelStateBalanceUpdate env n c increase amount s) s"
  by (simp_all add: good_step_def set_requests state_cache_ok_update_channel)

lemma good_step_policy: "good_step n (SetChannelStateRoutingPolicy env n c l p s) s"
proof -
  obtain m where "st_NodeId m = n"
    and "SetChannelStateRoutingPolicy env n c l p s = Served (writeRoutingPolicy (env_now env) m s) None"
    using set_policy_request by blast
  moreover from this(1) have "confined n s (writeRoutingPolicy (env_now env) m s)"
    "keeps_status s (writeRoutingPolicy (env_now env) m s)"
    by (simp_all add: writeRoutingPolicy_def)
  ultimately show ?thesis by (simp add: good_step_def state_cache_ok_writes)
qed

lemma good_step_htlc: "good_step (ev_NodeId e) (SetChannelStateBalanceHtlcEvent env e s) s"
proof -
  have "confined (ev_NodeId e) s t \<and> keeps_status s t" if "writeHtlcEvent e s = Served t r" for t r
    using that by (auto simp: writeHtlcEvent_def confined_def keeps_status_def
        split: if_splits option.splits sum.splits)
  then show ?thesis using state_cache_ok_writeHtlcEvent
    by (auto simp: good_step_def set_requests)
qed

lemma good_step_statuses: "good_step n (set_channel_statuses envs i n status ids s) s"
  by (induction ids arbitrary: i s) (auto intro: good_step_and_then good_step_status)

lemma good_step_set_if: "(\<And>c t. good_step n (f c t) t) \<Longrightarrow> good_step n (set_if c f s) s"
  by (simp add: set_if_def split: option.split)

lemma good_step_update: "good_step (ucr_NodeId req) (update_channel_response envs req s) s"
  by (simp add: update_channel_response_def good_step_policy split: option.split)

text \<open>The Torq node an event is about.\<close>

definition event_node :: "BroadcastedEvent \<Rightarrow> int" where
  "event_node event =
     (case event of
        ServiceEv e \<Rightarrow> ev_NodeId e | ChannelEv e \<Rightarrow> ev_NodeId e | ChannelGraphEv e \<Rightarrow> ev_NodeId e
      | ForwardEv e \<Rightarrow> ev_NodeId e | InvoiceEv e \<Rightarrow> ev_NodeId e | PaymentEv e \<Rightarrow> ev_NodeId e
      | HtlcEv e \<Rightarrow> ev_NodeId e | PeerEv e \<Rightarrow> ev_NodeId e
      | CloseChannelEv e \<Rightarrow> ccr_NodeId (ccs_Request e)
      | UpdateChannelEv e \<Rightarrow> ucr_NodeId (ucs_Request e) | OtherEv \<Rightarrow> 0)"

definition is_service_event :: "BroadcastedEvent \<Rightarrow> bool" where
  "is_service_event event = (case event of ServiceEv e \<Rightarrow> True | _ \<Rightarrow> False)"

lemma good_step_close: "good_step n (SetChannelStateChannelStatus env 0 0 status s) s"
  by (simp add: good_step_def set_requests writeChannelStateStatus_def)

lemma good_step_event:
  "\<not> is_service_event event \<Longrightarrow>
   good_step (event_node event) (processBroadcastedEvent envs ords channels event s) s"
  by (cases event)
    (simp_all add: is_service_event_def event_node_def processBroadcastedEvent_def good_step_status
      good_step_balance good_step_policy good_step_htlc good_step_statuses good_step_update
      good_step_close good_step_and_then good_step_set_if split: option.split prod.split)

section \<open>Properties of the event handler\<close>

text \<open>
  applying a broadcasted event keeps the cache well-formed, changes nothing of any node but the
  one the event names, and only service events change the status of a node's data.
\<close>

lemma broadcasted_event_confined:
  assumes "state_cache_ok s" and "processBroadcastedEvent envs ords channels event s = Served t r"
  shows "state_cache_ok t \<and>
         (\<forall>n c. n \<noteq> event_node event \<longrightarrow>
            cached t n c = cached s n c \<and> settingsStatus t n = settingsStatus s n) \<and>
         (\<not> is_service_event event \<longrightarrow>
            settingsStatus t = settingsStatus s \<and> deactivationTime t = deactivationTime s)"
proof (cases "is_service_event event")
  case True
  then obtain e where e: "event = ServiceEv e"
    by (auto simp: is_service_event_def split: BroadcastedEvent.splits)
  have node: "confined (st_NodeId m) s (writeNodeStatus now m s)" for now m
    by (auto simp: confined_def writeNodeStatus_def Let_def split: option.split)
  have "SetChannelStateNodeStatus env (ev_NodeId e) status s = Served t r \<Longrightarrow>
      state_cache_ok t \<and> confined (ev_NodeId e) s t" for env status
    using node [of "(stateRequest WRITE_CHANNELSTATE_NODESTATUS)
        \<lparr>st_NodeId := ev_NodeId e, st_Status := status\<rparr>" "env_now env"] assms(1)
    by (auto simp: set_requests state_cache_ok_writes)
  with assms e have "state_cache_ok t" "confined (event_node event) s t"
    by (auto simp: processBroadcastedEvent_def event_node_def split: if_splits)
  with True show ?thesis by (simp add: confined_def cached_def)
next
  case False
  from good_step_event [OF this, of envs ords channels s] assms
  have "state_cache_ok t" "confined (event_node event) s t" "keeps_status s t"
    by (auto simp: good_step_def)
  then show ?thesis by (simp add: confined_def keeps_status_def cached_def)
qed

text \<open>
  a forward between two cached channels raises the local balance of the incoming channel by the
  amount that came in and lowers that of the outgoing one by the amount that went out (in whole
  satoshi), counts one update on each, and touches no other channel.
\<close>

lemma forward_event_effect:
  assumes "ev_NodeId e = n" and "n \<noteq> 0"
    and "fe_IncomingChannelId e = Some a" and "fe_OutgoingChannelId e = Some b"
    and "a \<noteq> 0" and "b \<noteq> 0" and "a \<noteq> b"
    and "cached s n a = Some ca" and "cached s n b = Some cb"
  shows "\<exists>t ca' cb'. processBroadcastedEvent envs ords channels (ForwardEv e) s = Served t None \<and>
     cached t n a = Some ca' \<and> cached t n b = Some cb' \<and>
     css_LocalBalance ca' = css_LocalBalance ca + fe_AmountInMsat e div 1000 \<and>
     css_LocalBalance cb' = css_LocalBalance cb - fe_AmountOutMsat e div 1000 \<and>
     css_NumUpdates ca' = css_NumUpdates ca + 1 \<and> css_NumUpdates cb' = css_NumUpdates cb + 1 \<and>
     (\<forall>m c. (m, c) \<noteq> (n, a) \<and> (m, c) \<noteq> (n, b) \<longrightarrow> cached t m c = cached s m c)"
proof -
  let ?u = "update_channel n a (apply_balance (fe_AmountInMsat e div 1000)) s"
  let ?t = "update_channel n b (apply_balance (- (fe_AmountOutMsat e div 1000))) ?u"
  have "processBroadcastedEvent envs ords channels (ForwardEv e) s = Served ?t None"
    using assms(1-6) by (simp add: processBroadcastedEvent_def set_if_def and_then_def set_requests)
  moreover have "cached ?t n a = Some (apply_balance (fe_AmountInMsat e div 1000) ca)"
    "cached ?t n b = Some (apply_balance (- (fe_AmountOutMsat e div 1000)) cb)"
    "\<forall>m c. (m, c) \<noteq> (n, a) \<and> (m, c) \<noteq> (n, b) \<longrightarrow> cached ?t m c = cached s m c"
    using assms(7-9) by (auto simp: cached_update_channel)
  ultimately show ?thesis by (fastforce simp: apply_balance_def Let_def)
qed

text \<open>
  the response to a channel update sets, in the local policy of the cached channel, the fields
  that were requested and keeps the current ones for the rest, when the node's data is ready; for a
  channel that is not cached it ends the program with a nil dereference.
\<close>

lemma update_response_outcome:
  assumes "ucs_Request resp = req" and "ucr_NodeId req = n" and "ucr_ChannelId req = Some c"
    and "n \<noteq> 0" and "c \<noteq> 0"
  shows "case cached s n c of
      None \<Rightarrow> processBroadcastedEvent envs ords channels (UpdateChannelEv resp) s =
                Crashed ''nil pointer dereference''
    | Some cs \<Rightarrow> \<exists>t. processBroadcastedEvent envs ords channels (UpdateChannelEv resp) s = Served t None \<and>
        cached t n c = Some
          (if isNodeReady (env_now (envs 1)) (settingsStatus s) n (deactivationTime s) False
           then cs\<lparr>css_LocalTimeLockDelta := or_current (ucr_TimeLockDelta req) (css_LocalTimeLockDelta cs),
                   css_LocalMinHtlcMsat := or_current (ucr_MinHtlcMsat req) (css_LocalMinHtlcMsat cs),
                   css_LocalMaxHtlcMsat := or_current (ucr_MaxHtlcMsat req) (css_LocalMaxHtlcMsat cs),
                   css_LocalFeeBaseMsat := or_current (ucr_FeeBaseMsat req) (css_LocalFeeBaseMsat cs),
                   css_LocalFeeRateMilliMsat :=
                     or_current (ucr_FeeRateMilliMsat req) (css_LocalFeeRateMilliMsat cs)\<rparr>
           else cs)"
proof (cases "cached s n c")
  case None
  with assms show ?thesis
    by (simp add: processBroadcastedEvent_def update_channel_response_def GetChannelState_force)
next
  case (Some cs)
  have st: "SetChannelStateRoutingPolicy env n c True p s = Served
      (if isNodeReady (env_now env) (settingsStatus s) n (deactivationTime s) False
       then update_channel n c (\<lambda>cs. cs\<lparr>css_LocalDisabled := cged_Disabled p,
              css_LocalTimeLockDelta := cged_TimeLockDelta p, css_LocalMinHtlcMsat := cged_MinHtlcMsat p,
              css_LocalMaxHtlcMsat := cged_MaxHtlcMsat p, css_LocalFeeBaseMsat := cged_FeeBaseMsat p,
              css_LocalFeeRateMilliMsat := cged_FeeRateMilliMsat p\<rparr>) s
       else s) None" for env p
    using assms(4,5)
    by (simp add: SetChannelStateRoutingPolicy_def processManagedChannelStateSettings_def
        writeRoutingPolicy_def apply_policy_def [abs_def])
  from assms Some show ?thesis
    by (simp add: processBroadcastedEvent_def update_channel_response_def GetChannelState_force st
        cached_update_channel)
qed

text \<open>The response to a channel close changes nothing: its branch names node and channel 0.\<close>

lemma close_response_ignored: "processBroadcastedEvent envs ords channels (CloseChannelEv e) s = Served s None"
  by (simp add: processBroadcastedEvent_def set_requests writeChannelStateStatus_def)

section \<open>Properties of the initialization\<close>

text \<open>The channel's state is built from these answers of the caches and the database.\<close>

definition known_channel ::
    "BalanceSources \<Rightarrow> int \<Rightarrow> ManagedNodeSettings \<Rightarrow> LndChannel \<Rightarrow> ManagedChannelStateSettings \<Rightarrow> bool" where
  "known_channel src nodeId nodeSettings lndChannel state \<longleftrightarrow>
     (\<exists>channelId remoteNodeId localPolicy remotePolicy.
        GetChannelIdByChannelPoint (src_channelOrders src) (src_channels src) (lc_ChannelPoint lndChannel) = Some channelId \<and>
        channelId \<noteq> 0 \<and>
        GetNodeIdByPublicKey (src_nodeOrders src) (src_nodes src) (lc_RemotePubkey lndChannel)
          (mns_Chain nodeSettings) (mns_Network nodeSettings) = Some remoteNodeId \<and>
        src_localPolicy src channelId nodeId = Ok localPolicy \<and>
        src_remotePolicy src channelId nodeId = Ok remotePolicy \<and>
        state = channel_state_of nodeId remoteNodeId channelId localPolicy remotePolicy lndChannel)"

definition unknown_channel :: "BalanceSources \<Rightarrow> LndChannel \<Rightarrow> bool" where
  "unknown_channel src lndChannel \<longleftrightarrow>
     GetChannelIdByChannelPoint (src_channelOrders src) (src_channels src) (lc_ChannelPoint lndChannel) = Some 0"

lemma build_states_Built:
  "build_states src n ns chans acc = Built res \<Longrightarrow>
   \<exists>xs. res = acc @ xs \<and> list_all2 (known_channel src n ns) chans xs"
proof (induction chans arbitrary: acc)
  case (Cons ch chans)
  from Cons.prems obtain channelId remoteNodeId lp rp where
    k: "GetChannelIdByChannelPoint (src_channelOrders src) (src_channels src) (lc_ChannelPoint ch) = Some channelId"
      "channelId \<noteq> 0"
      "GetNodeIdByPublicKey (src_nodeOrders src) (src_nodes src) (lc_RemotePubkey ch)
          (mns_Chain ns) (mns_Network ns) = Some remoteNodeId"
      "src_localPolicy src channelId n = Ok lp" "src_remotePolicy src channelId n = Ok rp"
    and rest: "build_states src n ns chans (acc @ [channel_state_of n remoteNodeId channelId lp rp ch]) = Built res"
    by (simp split: option.splits if_splits sum.splits)
  from Cons.IH [OF rest] obtain xs where
    "res = acc @ channel_state_of n remoteNodeId channelId lp rp ch # xs"
    "list_all2 (known_channel src n ns) chans xs" by auto
  moreover have "known_channel src n ns ch (channel_state_of n remoteNodeId channelId lp rp ch)"
    using k by (auto simp: known_channel_def)
  ultimately show ?case by auto
qed simp

lemma build_states_known:
  "list_all2 (known_channel src n ns) chans xs \<Longrightarrow>
   build_states src n ns (chans @ rest) acc = build_states src n ns rest (acc @ xs)"
  by (induction arbitrary: acc rule: list_all2_induct) (auto simp: known_channel_def)

lemma build_states_unknown:
  assumes "list_all2 (known_channel src n ns) before xs" and "unknown_channel src ch"
  shows "build_states src n ns (before @ ch # after) [] = Returned None"
  using assms by (simp add: build_states_known unknown_channel_def node_cache_reads)

lemma map_of_initial:
  "map_of (foldl (\<lambda>channels cs. aput (css_ChannelId cs) cs channels) m css) c =
     (case map_of (rev (map (\<lambda>cs. (css_ChannelId cs, cs)) css)) c of None \<Rightarrow> map_of m c | Some cs \<Rightarrow> Some cs)"
  by (induction css rule: rev_induct) auto

lemma cached_writeInitialStates:
  "st_NodeId m \<noteq> 0 \<Longrightarrow>
   cached (writeInitialStates m s) n c =
     (if n = st_NodeId m
      then map_of (rev (map (\<lambda>cs. (css_ChannelId cs, cs)) (st_ChannelStateSettings m))) c else cached s n c)"
  by (simp add: cached_def writeInitialStates_def map_of_initial split: option.split)

lemma cached_writeNodeStatus: "cached (writeNodeStatus now m s) n c = cached s n c"
  by (auto simp: cached_def writeNodeStatus_def Let_def split: option.split)

lemma settingsStatus_writeNodeStatus:
  "st_NodeId m \<noteq> 0 \<Longrightarrow> settingsStatus (writeNodeStatus now m s) (st_NodeId m) = Some (st_Status m)"
  by (auto simp: writeNodeStatus_def Let_def split: option.split)

text \<open>
  when the initialization succeeds and LND lists no channel that Torq does not know, the cache
  holds for the node exactly the channels LND lists, each with LND's balances and the policies of
  the database (the last entry should LND list a channel twice); channels LND no longer lists are
  gone, other nodes keep theirs, and the status of the node's data is that of its LND service.
\<close>

lemma initialize_from_LND_spec:
  assumes "n \<noteq> 0" and "src_lnd src = Ok chans" and "\<forall>ch \<in> set chans. \<not> unknown_channel src ch"
    and "initializeChannelBalanceFromLnd src env1 env2 ord locked n (sv, s) = Served (sv', t) (Some None)"
  shows "\<exists>nodeSettings states.
     GetNodeSettingsByNodeId (src_nodeOrders src) (src_nodes src) n = Some nodeSettings \<and>
     list_all2 (known_channel src n nodeSettings) chans states \<and>
     (\<forall>m c. cached t m c = (if m = n then map_of (rev (map (\<lambda>cs. (css_ChannelId cs, cs)) states)) c
                            else cached s m c)) \<and>
     settingsStatus t n = Some (snd (GetStatus ord n sv))"
proof -
  have locked: "\<not> locked" using assms(4) by (auto simp: initializeChannelBalanceFromLnd_def split: if_splits)
  obtain ns where ns: "GetNodeSettingsByNodeId (src_nodeOrders src) (src_nodes src) n = Some ns"
    using node_settings_read [OF assms(1)] by blast
  let ?b = "build_states src n ns chans []"
  obtain states where states: "?b = Built states"
  proof (cases ?b)
    case (Returned e)
    with assms(2,4) ns locked have "?b = Returned None" by (simp add: initializeChannelBalanceFromLnd_def)
    moreover have "build_states src n ns chs acc \<noteq> Returned None" if "set chs \<subseteq> set chans" for chs acc
      using that assms(3)
      by (induction chs arbitrary: acc)
        (auto simp: unknown_channel_def split: option.splits if_splits sum.splits)
    ultimately show ?thesis by blast
  qed (use assms(2,4) ns locked in \<open>auto simp: initializeChannelBalanceFromLnd_def\<close>)
  from build_states_Built [OF states] have k: "list_all2 (known_channel src n ns) chans states" by simp
  obtain sv1 status where st: "GetStatus ord n sv = (sv1, status)" by fastforce
  have "cached t m c = (if m = n then map_of (rev (map (\<lambda>cs. (css_ChannelId cs, cs)) states)) c else cached s m c)"
    for m c
    using assms(1,2,4) ns locked states st
    by (auto simp: initializeChannelBalanceFromLnd_def set_requests cached_writeNodeStatus cached_writeInitialStates)
  moreover have "settingsStatus t n = Some status"
    using assms(1,2,4) ns locked states st settingsStatus_writeNodeStatus
      [of "(stateRequest WRITE_CHANNELSTATE_NODESTATUS)\<lparr>st_NodeId := n, st_Status := status\<rparr>"]
    by (auto simp: initializeChannelBalanceFromLnd_def set_requests)
  ultimately show ?thesis using ns k st by auto
qed

text \<open>
  when LND lists a channel that Torq does not know, the initialization stops there and returns
  no error: neither the states nor the status of the node are written, and with all streams active
  the synchronization still ends the bootstrap and reports the cache as active.
\<close>

lemma unknown_channel_reported_active:
  assumes "n \<noteq> 0" and "src_lnd src = Ok (before @ ch # after)"
    and "GetNodeSettingsByNodeId (src_nodeOrders src) (src_nodes src) n = Some nodeSettings"
    and "list_all2 (known_channel src n nodeSettings) before states" and "unknown_channel src ch"
    and "\<And>sv. snd (GetChannelBalanceCacheStreamStatus n (others 0 sv)) = Active"
    and "\<And>sv. snd (GetChannelBalanceCacheStreamStatus n (others 3 sv)) = Active"
  shows "\<exists>sv' events.
     synchronizeDataFromLnd (initializeChannelBalanceFromLnd src env1 env2 ord False n) others now True n
       stream boot status (sv, s) = Served (sv', s) (Some (False, Active, events))"
proof -
  have init: "initializeChannelBalanceFromLnd src env1 env2 ord False n w = Served w (Some None)" for w
    using assms(2,3) build_states_unknown [OF assms(4,5)]
    by (simp add: initializeChannelBalanceFromLnd_def)
  obtain sv1 where g1: "GetChannelBalanceCacheStreamStatus n (others 0 sv) = (sv1, Active)"
    using assms(6) [of sv] by (metis prod.collapse)
  obtain sv2 ev1 status1 where e1: "SendStreamEvent (now 0) True n stream
      (if boot then Initializing else Active) status (others 1 sv1) = (sv2, ev1, status1)"
    by (metis prod_cases3)
  obtain sv4 where g2: "GetChannelBalanceCacheStreamStatus n (others 3 (others 2 sv2)) = (sv4, Active)"
    using assms(7) [of "others 2 sv2"] by (metis prod.collapse)
  obtain sv5 ev2 where e2: "SendStreamEvent (now (Suc 0)) True n stream Active status1 (others 4 sv4) = (sv5, ev2, Active)"
    using that by (cases "status1 = Active") (simp_all add: SendStreamEvent_def Let_def)
  show ?thesis
    using e1 by (cases boot) (simp_all add: synchronizeDataFromLnd_def init g1 g2 e2)
qed

section \<open>Witnesses\<close>

lemma exampleCache_ok: "state_cache_ok exampleCache"
  by (simp add: state_cache_ok_def exampleCache_def channels_ok_def keys_distinct_def exampleSettings_def)

definition exampleInvoiceEvent :: InvoiceEvent where
  "exampleInvoiceEvent =
     \<lparr>ev_EventTime = 0, ev_NodeId = 1, ie_ChannelId = 7, ie_AddIndex = 1, ie_ValueMSat = 5000,
      ie_State = SETTLED, ie_AmountPaidMsat = 5000, ie_SettledDate = 0, ie_DestinationNodeId = None\<rparr>"

lemma broadcasted_event_confined_witness:
  "\<exists>t. processBroadcastedEvent (\<lambda>i. exampleEnv (int i)) (id, id) emptyChannelState (InvoiceEv exampleInvoiceEvent) exampleCache =
         Served t None \<and>
       state_cache_ok t \<and> cached t 2 7 = cached exampleCache 2 7 \<and> settingsStatus t = settingsStatus exampleCache"
proof -
  obtain t where t: "processBroadcastedEvent (\<lambda>i. exampleEnv (int i)) (id, id) emptyChannelState
      (InvoiceEv exampleInvoiceEvent) exampleCache = Served t None"
    by (simp add: exampleInvoiceEvent_def processBroadcastedEvent_def set_requests)
  from broadcasted_event_confined [OF exampleCache_ok t] t show ?thesis
    by (simp add: event_node_def is_service_event_def exampleInvoiceEvent_def)
qed

text \<open>A node with two channels, and a forward of 3 satoshi from the first to the second.\<close>

definition exampleTwoChannels :: StateCache where
  "exampleTwoChannels =
     exampleCache\<lparr>settingsByChannelId :=
       [1 \<mapsto> [(7, exampleSettings), (8, exampleSettings\<lparr>css_ChannelId := 8\<rparr>)]]\<rparr>"

definition exampleForward :: ForwardEvent where
  "exampleForward =
     \<lparr>ev_EventTime = 0, ev_NodeId = 1, fe_Timestamp = 0, fe_FeeMsat = 1000, fe_AmountInMsat = 4000,
      fe_AmountOutMsat = 3000, fe_OutgoingChannelId = Some 8, fe_IncomingChannelId = Some 7\<rparr>"

lemma forward_event_effect_witness:
  "\<exists>t ca cb. processBroadcastedEvent (\<lambda>i. exampleEnv (int i)) (id, id) emptyChannelState (ForwardEv exampleForward)
       exampleTwoChannels = Served t None \<and>
     cached t 1 7 = Some ca \<and> cached t 1 8 = Some cb \<and> css_LocalBalance ca = 604 \<and> css_LocalBalance cb = 597"
proof -
  have c: "cached exampleTwoChannels 1 7 = Some exampleSettings"
    "cached exampleTwoChannels 1 8 = Some (exampleSettings\<lparr>css_ChannelId := 8\<rparr>)"
    by (simp_all add: cached_def exampleTwoChannels_def)
  have e: "ev_NodeId exampleForward = 1" "fe_IncomingChannelId exampleForward = Some 7"
    "fe_OutgoingChannelId exampleForward = Some 8" "fe_AmountInMsat exampleForward div 1000 = 4"
    "fe_AmountOutMsat exampleForward div 1000 = 3" "css_LocalBalance exampleSettings = 600"
    by (simp_all add: exampleForward_def exampleSettings_def)
  have "(1 :: int) \<noteq> 0" "(7 :: int) \<noteq> 0" "(8 :: int) \<noteq> 0" "(7 :: int) \<noteq> 8" by simp_all
  note eff = forward_event_effect [OF e(1) this(1) e(2,3) this(2,3,4) c,
      where envs = "\<lambda>i. exampleEnv (int i)" and ords = "(id, id)" and channels = emptyChannelState]
  show ?thesis using eff
    by (elim exE conjE, intro exI conjI) (assumption | simp add: e)+
qed

definition exampleUpdate :: UpdateChannelRequest where
  "exampleUpdate =
     \<lparr>ucr_NodeId = 1, ucr_ChannelId = Some 7, ucr_FeeRateMilliMsat = Some 250, ucr_FeeBaseMsat = None,
      ucr_MaxHtlcMsat = None, ucr_MinHtlcMsat = None, ucr_TimeLockDelta = Some 40\<rparr>"

lemma update_response_outcome_witness:
  "\<exists>t cs. processBroadcastedEvent (\<lambda>i. exampleEnv (int i)) (id, id) emptyChannelState
       (UpdateChannelEv \<lparr>ucs_Request = exampleUpdate, ucs_Status = Active, ucs_FailedUpdates = []\<rparr>) exampleCache =
         Served t None \<and>
     cached t 1 7 = Some cs \<and> css_LocalFeeRateMilliMsat cs = 250 \<and> css_LocalTimeLockDelta cs = 40 \<and>
     css_LocalFeeBaseMsat cs = 0"
proof -
  have ready: "isNodeReady now (settingsStatus exampleCache) 1 d False" for now d
    by (simp add: isNodeReady_iff exampleCache_def)
  from update_response_outcome [where resp = "\<lparr>ucs_Request = exampleUpdate, ucs_Status = Active, ucs_FailedUpdates = []\<rparr>"
      and req = exampleUpdate and n = 1 and c = 7 and s = exampleCache
      and envs = "\<lambda>i. exampleEnv (int i)" and ords = "(id, id)" and channels = emptyChannelState] ready
  show ?thesis by (auto simp: exampleUpdate_def or_current_def exampleSettings_def)
qed

definition examplePolicy :: ChannelPolicy where
  "examplePolicy =
     \<lparr>cpol_Disabled = False, cpol_TimeLockDelta = 40, cpol_MinHtlcMsat = 1, cpol_MaxHtlcMsat = 900000,
      cpol_FeeRateMillMsat = 250, cpol_ShortChannelId = [], cpol_FeeBaseMsat = 0, cpol_NodeId = 1,
      cpol_RemoteNodeId = 2\<rparr>"

definition exampleLndChannel :: LndChannel where
  "exampleLndChannel =
     \<lparr>lc_ChannelPoint = CreateChannelPoint ''ab'' 1, lc_RemotePubkey = ''k'', lc_LocalBalance = 600,
      lc_RemoteBalance = 400, lc_CommitFee = 0, lc_CommitWeight = 0, lc_FeePerKw = 0, lc_NumUpdates = 0,
      lc_ChanStatusFlags = [], lc_CommitmentType = 0, lc_Lifetime = 0, lc_TotalSatoshisSent = 0,
      lc_TotalSatoshisReceived = 0, lc_PendingHtlcs = []\<rparr>"

definition exampleSources :: "ChannelState \<Rightarrow> BalanceSources" where
  "exampleSources channels =
     \<lparr>src_lnd = Ok [exampleLndChannel], src_localPolicy = (\<lambda>_ _. Ok examplePolicy),
      src_remotePolicy = (\<lambda>_ _. Ok examplePolicy), src_channelOrders = (id, id), src_channels = channels,
      src_nodeOrders = \<lparr>by_key = id, by_network = id, by_chain = id\<rparr>, src_nodes = emptyNodeState\<rparr>"

lemma example_channel_id:
  "GetChannelIdByChannelPoint (id, id) channels (lc_ChannelPoint exampleLndChannel) =
     Some (mget 0 (allChannelPointCache channels) (CreateChannelPoint ''ab'' 1))"
  by (simp add: exampleLndChannel_def GetChannelIdByChannelPoint_read channel_reads)

lemma example_point: "CreateChannelPoint ''ab'' 1 = ''ab:1''"
  by (simp add: CreateChannelPoint_def format_int_def format_uint.simps)

lemma initialize_from_LND_spec_witness:
  "\<exists>sv t cs. initializeChannelBalanceFromLnd (exampleSources exampleChannelState) (exampleEnv 0) (exampleEnv 0)
       (\<lambda>m. m) False 1 (emptyServices LndService, emptyStateCache) = Served (sv, t) (Some None) \<and>
     cached t 1 7 = Some cs \<and> css_LocalBalance cs = 600 \<and> settingsStatus t 1 = Some Inactive"
proof -
  let ?src = "exampleSources exampleChannelState"
  have id7: "GetChannelIdByChannelPoint (src_channelOrders ?src) (src_channels ?src) (lc_ChannelPoint exampleLndChannel) = Some 7"
    using example_channel_id [of exampleChannelState]
    by (simp add: exampleSources_def example_point exampleChannelState_eq)
  obtain ns where ns: "GetNodeSettingsByNodeId (src_nodeOrders ?src) (src_nodes ?src) 1 = Some ns"
    using node_settings_read [of 1] by fastforce
  obtain rid where rid: "GetNodeIdByPublicKey (src_nodeOrders ?src) (src_nodes ?src) (lc_RemotePubkey exampleLndChannel)
      (mns_Chain ns) (mns_Network ns) = Some rid"
    by (simp add: node_cache_reads)
  have built: "build_states ?src 1 ns [exampleLndChannel] [] =
      Built [channel_state_of 1 rid 7 examplePolicy examplePolicy exampleLndChannel]"
    using id7 rid by (simp add: exampleSources_def)
  have lnd: "src_lnd ?src = Ok [exampleLndChannel]" by (simp add: exampleSources_def)
  have known: "\<forall>ch \<in> set [exampleLndChannel]. \<not> unknown_channel ?src ch"
    using id7 by (simp add: unknown_channel_def)
  obtain sv t where run: "initializeChannelBalanceFromLnd ?src (exampleEnv 0) (exampleEnv 0)
       (\<lambda>m. m) False 1 (emptyServices LndService, emptyStateCache) = Served (sv, t) (Some None)"
    using ns lnd built
    by (cases "GetStatus (\<lambda>m. m) 1 (emptyServices LndService)")
      (simp add: initializeChannelBalanceFromLnd_def set_requests)
  from initialize_from_LND_spec [OF _ lnd known run] obtain ns' states where
    s: "GetNodeSettingsByNodeId (src_nodeOrders ?src) (src_nodes ?src) 1 = Some ns'"
      "list_all2 (known_channel ?src 1 ns') [exampleLndChannel] states"
      "\<forall>m c. cached t m c = (if m = 1 then map_of (rev (map (\<lambda>cs. (css_ChannelId cs, cs)) states)) c
                            else cached emptyStateCache m c)"
      "settingsStatus t 1 = Some (snd (GetStatus (\<lambda>m. m) 1 (emptyServices LndService)))"
    by auto
  from s(2) id7 obtain rid' lp rp where "states = [channel_state_of 1 rid' 7 lp rp exampleLndChannel]"
    by (auto simp: list_all2_Cons1 known_channel_def)
  with s(3) have "cached t 1 7 = Some (channel_state_of 1 rid' 7 lp rp exampleLndChannel)"
    by (simp add: channel_state_of_def exampleLndChannel_def)
  moreover have "settingsStatus t 1 = Some Inactive"
    using s(4) by (simp add: GetStatus_def Let_def emptyServices_def initServiceMaps_def)
  ultimately show ?thesis using run
    by (auto simp: channel_state_of_def exampleLndChannel_def)
qed

text \<open>A registry in which the LND service of node 1 and all its streams are active.\<close>

definition exampleActiveServices :: Services where
  "exampleActiveServices = (emptyServices LndService)
     \<lparr>sv_serviceStatus := [(1, Active)],
      sv_streamStatus := [1 \<mapsto> map (\<lambda>stream. (stream, Active)) SubscriptionStreams]\<rparr>"

lemma exampleActiveServices_streams:
  "snd (GetChannelBalanceCacheStreamStatus 1 exampleActiveServices) = Active"
  by (simp add: GetChannelBalanceCacheStreamStatus_def exampleActiveServices_def emptyServices_def
      initServiceMaps_def ensure_def SubscriptionStreams_def IsChannelBalanceCache_def Let_def)

lemma unknown_channel_reported_active_witness:
  "\<exists>sv events. synchronizeDataFromLnd
       (initializeChannelBalanceFromLnd (exampleSources emptyChannelState) (exampleEnv 0) (exampleEnv 0) (\<lambda>m. m) False 1)
       (\<lambda>_ _. exampleActiveServices) (\<lambda>_. 0) True 1 ChannelBalanceCacheStream True Inactive
       (exampleActiveServices, emptyStateCache) =
     Served (sv, emptyStateCache) (Some (False, Active, events))"
proof -
  let ?src = "exampleSources emptyChannelState"
  obtain ns where ns: "GetNodeSettingsByNodeId (src_nodeOrders ?src) (src_nodes ?src) 1 = Some ns"
    using node_settings_read [of 1] by fastforce
  have "unknown_channel ?src exampleLndChannel"
    using example_channel_id [of emptyChannelState]
    by (simp add: unknown_channel_def exampleSources_def emptyChannelState_def)
  moreover have "src_lnd ?src = Ok ([] @ exampleLndChannel # [])" by (simp add: exampleSources_def)
  ultimately show ?thesis
    by (intro unknown_channel_reported_active [where before = "[]" and after = "[]" and states = "[]" and ch = exampleLndChannel])
      (simp_all add: ns exampleActiveServices_streams)
qed

end
