(* ===== verification/Channels.thy ===== *)
theory Channels
  imports ManagedChannel
begin

text \<open>
  The channels of the database and their cache, \<open>src/internal/channels/channel.go\<close> and the queries
  it uses from \<open>src/internal/channels/database.go\<close>.  The table is a list of rows by channel id; it
  has no uniqueness constraint besides the id.  Each SQL statement is given by what it selects or
  changes; \<open>fails q\<close> is the error the database answers statement \<open>q\<close> with, if any.  The lemmas
  show that the cache stays coherent with the table and that a channel gets one row only, and
  where errors are swallowed.
\<close>

section \<open>Types\<close>

datatype ClosureType =
    COOPERATIVE_CLOSE | LOCAL_FORCE_CLOSE | REMOTE_FORCE_CLOSE | BREACH_CLOSE | FUNDING_CANCELED
  | ABANDONED | OtherClosureType int

definition GetClosureStatus :: "ClosureType \<Rightarrow> ChannelStatus" where
  "GetClosureStatus ty =
     (case ty of
        COOPERATIVE_CLOSE \<Rightarrow> CooperativeClosed
      | LOCAL_FORCE_CLOSE \<Rightarrow> LocalForceClosed
      | REMOTE_FORCE_CLOSE \<Rightarrow> RemoteForceClosed
      | BREACH_CLOSE \<Rightarrow> BreachClosed
      | FUNDING_CANCELED \<Rightarrow> FundingCancelledClosed
      | ABANDONED \<Rightarrow> AbandonedClosed
      | OtherClosureType i \<Rightarrow> Closing)"

record Channel =
  ch_ChannelID :: int
  ch_ShortChannelID :: "string option"
  ch_FundingTransactionHash :: string
  ch_FundingOutputIndex :: int
  ch_ClosingTransactionHash :: "string option"
  ch_LNDShortChannelID :: "uint64 option"
  ch_Capacity :: int64
  ch_Private :: bool
  ch_FirstNodeId :: int
  ch_SecondNodeId :: int
  ch_InitiatingNodeId :: "int option"
  ch_AcceptingNodeId :: "int option"
  ch_ClosingNodeId :: "int option"
  ch_Status :: ChannelStatus
  ch_CreatedOn :: time
  ch_UpdateOn :: "time option"

definition zeroChannel :: Channel where
  "zeroChannel =
     \<lparr>ch_ChannelID = 0, ch_ShortChannelID = None, ch_FundingTransactionHash = [],
      ch_FundingOutputIndex = 0, ch_ClosingTransactionHash = None, ch_LNDShortChannelID = None,
      ch_Capacity = 0, ch_Private = False, ch_FirstNodeId = 0, ch_SecondNodeId = 0,
      ch_InitiatingNodeId = None, ch_AcceptingNodeId = None, ch_ClosingNodeId = None,
      ch_Status = Opening, ch_CreatedOn = 0, ch_UpdateOn = None\<rparr>"

datatype ChannelQuery =
    SelectByShortChannelId | SelectByFundingTransaction | SelectChannel | SelectChannels | InsertChannel
  | UpdateStatusAndLndIds | UpdateClosing | UpdateStatus

type_synonym db_failures = "ChannelQuery \<Rightarrow> go_error option"

record ChannelTable =
  tbl_rows :: "(int \<times> Channel) list"
  tbl_nextId :: int

section \<open>Queries\<close>

text \<open>
  \<open>errors.As(err, &sql.ErrNoRows)\<close> asks for an error of the interface type \<open>error\<close>, which every
  error is.  It also stores \<open>err\<close> in the global \<open>sql.ErrNoRows\<close>, which is not modelled: code that
  compares an error with \<open>sql.ErrNoRows\<close> afterwards is taken as if the variable still held its
  initial value.
\<close>

definition errors_As_error :: "go_error \<Rightarrow> bool" where
  "errors_As_error e = True"

definition is_no_short_id :: "string option \<Rightarrow> bool" where
  "is_no_short_id sc \<longleftrightarrow> sc = None \<or> sc = Some [] \<or> sc = Some ''0x0x0''"

definition selected_id :: "db_failures \<Rightarrow> ChannelQuery \<Rightarrow> (Channel \<Rightarrow> bool) \<Rightarrow> (int, Channel) order \<Rightarrow>
    ChannelTable \<Rightarrow> int \<times> go_error option" where
  "selected_id fails query cond ord db =
     (case fails query of
        Some e \<Rightarrow> if errors_As_error e then (0, None) else (0, Some e)
      | None \<Rightarrow> (case find (\<lambda>(i, row). cond row) (ord (tbl_rows db)) of
                   None \<Rightarrow> (0, None)
                 | Some (i, row) \<Rightarrow> (i, None)))"

definition getChannelIdByShortChannelId ::
    "db_failures \<Rightarrow> (int, Channel) order \<Rightarrow> ChannelTable \<Rightarrow> string option \<Rightarrow> int \<times> go_error option" where
  "getChannelIdByShortChannelId fails ord db shortChannelId =
     (if is_no_short_id shortChannelId then (0, None)
      else selected_id fails SelectByShortChannelId (\<lambda>row. ch_ShortChannelID row = shortChannelId) ord db)"

definition getChannelIdByFundingTransaction ::
    "db_failures \<Rightarrow> (int, Channel) order \<Rightarrow> ChannelTable \<Rightarrow> string \<Rightarrow> int \<Rightarrow> int \<times> go_error option" where
  "getChannelIdByFundingTransaction fails ord db hash index =
     selected_id fails SelectByFundingTransaction
       (\<lambda>row. ch_FundingTransactionHash row = hash \<and> ch_FundingOutputIndex row = index) ord db"

definition GetChannel :: "db_failures \<Rightarrow> ChannelTable \<Rightarrow> int \<Rightarrow> Channel result" where
  "GetChannel fails db channelId =
     (case fails SelectChannel of
        Some e \<Rightarrow> Inl e
      | None \<Rightarrow> (case map_of (tbl_rows db) channelId of None \<Rightarrow> Ok zeroChannel | Some row \<Rightarrow> Ok row))"

definition stored_short_id :: "string option \<Rightarrow> string option" where
  "stored_short_id sc = (if is_no_short_id sc then None else sc)"

definition stored_lnd_id :: "uint64 option \<Rightarrow> uint64 option" where
  "stored_lnd_id lnd = (if lnd = Some 0 then None else lnd)"

definition SetChannel_of :: "channel_orders \<Rightarrow> int \<Rightarrow> Channel \<Rightarrow> ChannelState \<Rightarrow> (ChannelState, ChannelReply) outcome" where
  "SetChannel_of ords channelId c s =
     SetChannel ords channelId (ch_ShortChannelID c) (ch_Status c) (ch_FundingTransactionHash c)
       (ch_FundingOutputIndex c) (ch_Capacity c) (ch_Private c) (ch_FirstNodeId c) (ch_SecondNodeId c)
       (ch_InitiatingNodeId c) (ch_AcceptingNodeId c) s"

type_synonym channel_world = "ChannelState \<times> ChannelTable"

text \<open>A write to the channel cache as part of a step on cache and table.\<close>

definition cache_write ::
    "(ChannelState, ChannelReply) outcome \<Rightarrow> ChannelTable \<Rightarrow> 'a \<Rightarrow> (channel_world, 'a) outcome" where
  "cache_write out db a =
     (case out of Served s r \<Rightarrow> Served (s, db) (Some a) | Blocked \<Rightarrow> Blocked | Crashed m \<Rightarrow> Crashed m)"

definition addChannel ::
    "db_failures \<Rightarrow> channel_orders \<Rightarrow> time \<Rightarrow> Channel \<Rightarrow> channel_world \<Rightarrow>
     (channel_world, int \<times> go_error option) outcome" where
  "addChannel fails ords now channel w =
     (case fails InsertChannel of
        Some e \<Rightarrow> Served w (Some (0, Some e))
      | None \<Rightarrow>
          (let (s, db) = w;
               newId = tbl_nextId db;
               row = channel\<lparr>ch_ChannelID := newId, ch_CreatedOn := now, ch_UpdateOn := Some now,
                             ch_ShortChannelID := stored_short_id (ch_ShortChannelID channel),
                             ch_LNDShortChannelID := stored_lnd_id (ch_LNDShortChannelID channel)\<rparr>;
               db' = db\<lparr>tbl_rows := aput newId row (tbl_rows db), tbl_nextId := newId + 1\<rparr>
           in cache_write (SetChannel_of ords newId row s) db' (newId, None)))"

definition update_row :: "int \<Rightarrow> (Channel \<Rightarrow> bool) \<Rightarrow> (Channel \<Rightarrow> Channel) \<Rightarrow> ChannelTable \<Rightarrow> ChannelTable" where
  "update_row channelId cond f db =
     (case map_of (tbl_rows db) channelId of
        None \<Rightarrow> db
      | Some row \<Rightarrow> if cond row then db\<lparr>tbl_rows := aput channelId (f row) (tbl_rows db)\<rparr> else db)"

text \<open>In SQL a comparison with NULL is not true.\<close>

definition sql_differs :: "'a option \<Rightarrow> 'a option \<Rightarrow> bool" where
  "sql_differs a b \<longleftrightarrow> (\<exists>x y. a = Some x \<and> b = Some y \<and> x \<noteq> y)"

definition updateChannelStatusAndLndIds ::
    "db_failures \<Rightarrow> time \<Rightarrow> int \<Rightarrow> ChannelStatus \<Rightarrow> string option \<Rightarrow> uint64 option \<Rightarrow> ChannelTable \<Rightarrow>
     ChannelTable \<times> go_error option" where
  "updateChannelStatusAndLndIds fails now channelId status shortChannelId lndShortChannelId db =
     (case fails UpdateStatusAndLndIds of
        Some e \<Rightarrow> (db, Some e)
      | None \<Rightarrow>
          (let sc = stored_short_id shortChannelId; lnd = stored_lnd_id lndShortChannelId in
           (update_row channelId
              (\<lambda>row. ch_Status row \<noteq> status \<or>
                     ch_ShortChannelID row = None \<or> sql_differs (ch_ShortChannelID row) sc \<or>
                     ch_LNDShortChannelID row = None \<or> sql_differs (ch_LNDShortChannelID row) lnd)
              (\<lambda>row. row\<lparr>ch_Status := status, ch_ShortChannelID := sc, ch_LNDShortChannelID := lnd,
                         ch_UpdateOn := Some now\<rparr>) db, None)))"

definition updateChannelClosingTransactionHash ::
    "db_failures \<Rightarrow> time \<Rightarrow> int \<Rightarrow> string \<Rightarrow> int option \<Rightarrow> ChannelTable \<Rightarrow> ChannelTable \<times> go_error option" where
  "updateChannelClosingTransactionHash fails now channelId hash closingNodeId db =
     (case fails UpdateClosing of
        Some e \<Rightarrow> (db, Some e)
      | None \<Rightarrow>
          (update_row channelId
             (\<lambda>row. ch_ClosingTransactionHash row = None \<or> ch_ClosingTransactionHash row \<noteq> Some hash)
             (\<lambda>row. row\<lparr>ch_ClosingTransactionHash := Some hash, ch_ClosingNodeId := closingNodeId,
                        ch_UpdateOn := Some now\<rparr>) db, None))"

definition UpdateChannelStatus ::
    "db_failures \<Rightarrow> channel_orders \<Rightarrow> time \<Rightarrow> int \<Rightarrow> ChannelStatus \<Rightarrow> channel_world \<Rightarrow>
     (channel_world, go_error option) outcome" where
  "UpdateChannelStatus fails ords now channelId status w =
     (case fails UpdateStatus of
        Some e \<Rightarrow> Served w (Some (Some e))
      | None \<Rightarrow>
          cache_write (SetChannelStatus ords channelId status (fst w))
            (update_row channelId (\<lambda>row. ch_Status row \<noteq> status)
               (\<lambda>row. row\<lparr>ch_Status := status, ch_UpdateOn := Some now\<rparr>) (snd w)) None)"

section \<open>Adding a channel or updating its status\<close>

datatype FoundChannel =
    Existing int
  | Missing
  | Failed "go_error option" \<comment> \<open>the function returns 0 and this error or nil\<close>
  | NoAnswer

text \<open>
  Without a funding transaction the function returns \<open>errors.Wrapf(err, ...)\<close> for an unknown channel,
  where \<open>err\<close> is nil: no error.
\<close>

definition find_channel ::
    "db_failures \<Rightarrow> channel_orders \<Rightarrow> (int, Channel) order \<Rightarrow> Channel \<Rightarrow> channel_world \<Rightarrow> FoundChannel" where
  "find_channel fails ords ord channel w =
     (if ch_FundingTransactionHash channel = []
      then (if is_no_short_id (ch_ShortChannelID channel) then Failed None
            else case GetChannelIdByShortChannelId ords (fst w) (the (ch_ShortChannelID channel)) of
                   None \<Rightarrow> NoAnswer
                 | Some cached \<Rightarrow>
                     if cached \<noteq> 0 then Existing cached
                     else (case getChannelIdByShortChannelId fails ord (snd w) (ch_ShortChannelID channel) of
                             (i, Some e) \<Rightarrow> Failed (Some e)
                           | (i, None) \<Rightarrow> if i = 0 then Failed None else Existing i))
      else case GetChannelIdByFundingTransaction ords (fst w) (ch_FundingTransactionHash channel)
                  (ch_FundingOutputIndex channel) of
             None \<Rightarrow> NoAnswer
           | Some cached \<Rightarrow>
               if cached \<noteq> 0 then Existing cached
               else (case getChannelIdByFundingTransaction fails ord (snd w)
                            (ch_FundingTransactionHash channel) (ch_FundingOutputIndex channel) of
                       (i, Some e) \<Rightarrow> Failed (Some e)
                     | (i, None) \<Rightarrow> if i = 0 then Missing else Existing i))"

text \<open>The update of the row of an existing channel that is not in the cache.\<close>

definition update_uncached ::
    "db_failures \<Rightarrow> time \<Rightarrow> int \<Rightarrow> Channel \<Rightarrow> ChannelTable \<Rightarrow> ChannelTable \<times> go_error option" where
  "update_uncached fails now channelId channel db =
     (case GetChannel fails db channelId of
        Inl e \<Rightarrow> (db, Some e)
      | Inr existing \<Rightarrow>
          (let (db1, err1) =
                 (if ch_Status existing \<noteq> ch_Status channel \<or>
                     ch_ShortChannelID existing \<noteq> ch_ShortChannelID channel \<or>
                     ch_LNDShortChannelID existing \<noteq> ch_LNDShortChannelID channel
                  then updateChannelStatusAndLndIds fails now channelId (ch_Status channel)
                         (ch_ShortChannelID channel) (ch_LNDShortChannelID channel) db
                  else (db, None))
           in if err1 \<noteq> None then (db1, err1)
              else case ch_ClosingTransactionHash channel of
                     Some hash \<Rightarrow>
                       if ch_ClosingTransactionHash existing = None \<and> CooperativeClosed \<le> ch_Status channel
                       then updateChannelClosingTransactionHash fails now channelId hash (ch_ClosingNodeId channel) db1
                       else (db1, None)
                   | None \<Rightarrow> (db1, None)))"

definition update_cached ::
    "db_failures \<Rightarrow> time \<Rightarrow> int \<Rightarrow> Channel \<Rightarrow> ManagedChannelSettings \<Rightarrow> ChannelTable \<Rightarrow>
     ChannelTable \<times> go_error option" where
  "update_cached fails now channelId channel settings db =
     (let newShortChannelId = (case ch_ShortChannelID channel of None \<Rightarrow> [] | Some sc \<Rightarrow> sc);
          newLndShortChannelId = (case ch_LNDShortChannelID channel of None \<Rightarrow> 0 | Some lnd \<Rightarrow> lnd);
          (db1, err1) =
            (if mcs_Status settings \<noteq> ch_Status channel \<or>
                mcs_ShortChannelId settings \<noteq> newShortChannelId \<or>
                mcs_LndShortChannelId settings \<noteq> newLndShortChannelId
             then updateChannelStatusAndLndIds fails now channelId (ch_Status channel)
                    (ch_ShortChannelID channel) (ch_LNDShortChannelID channel) db
             else (db, None))
      in if err1 \<noteq> None then (db1, err1)
         else case ch_ClosingTransactionHash channel of
                Some hash \<Rightarrow>
                  if CooperativeClosed \<le> ch_Status channel
                  then updateChannelClosingTransactionHash fails now channelId hash (ch_ClosingNodeId channel) db1
                  else (db1, None)
              | None \<Rightarrow> (db1, None))"

definition AddChannelOrUpdateChannelStatus ::
    "db_failures \<Rightarrow> channel_orders \<Rightarrow> (int, Channel) order \<Rightarrow> time \<Rightarrow> Channel \<Rightarrow> channel_world \<Rightarrow>
     (channel_world, int \<times> go_error option) outcome" where
  "AddChannelOrUpdateChannelStatus fails ords ord now channel w =
     (case find_channel fails ords ord channel w of
        NoAnswer \<Rightarrow> Blocked
      | Failed e \<Rightarrow> Served w (Some (0, e))
      | Missing \<Rightarrow> addChannel fails ords now channel w
      | Existing channelId \<Rightarrow>
          (case GetChannelSettingByChannelId ords (fst w) channelId of
             None \<Rightarrow> Blocked
           | Some settings \<Rightarrow>
               (let (db', err) =
                      (if mcs_ChannelId settings = 0 then update_uncached fails now channelId channel (snd w)
                       else update_cached fails now channelId channel settings (snd w))
                in if err \<noteq> None then Served (fst w, db') (Some (0, err))
                   else cache_write (SetChannel_of ords channelId channel (fst w)) db' (channelId, None))))"

text \<open>Filling the cache from the table, row by row; \<open>ord\<close> is the order of the query's rows.\<close>

fun set_channels :: "channel_orders \<Rightarrow> (int \<times> Channel) list \<Rightarrow> ChannelState \<Rightarrow> (ChannelState, ChannelReply) outcome" where
  "set_channels ords [] s = Served s None"
| "set_channels ords ((channelId, row) # rows) s =
     (case SetChannel_of ords channelId row s of
        Served s' r \<Rightarrow> set_channels ords rows s'
      | Blocked \<Rightarrow> Blocked
      | Crashed m \<Rightarrow> Crashed m)"

definition InitializeManagedChannelCache ::
    "db_failures \<Rightarrow> channel_orders \<Rightarrow> (int, Channel) order \<Rightarrow> channel_world \<Rightarrow>
     (channel_world, go_error option) outcome" where
  "InitializeManagedChannelCache fails ords ord w =
     (case fails SelectChannels of
        Some e \<Rightarrow> Served w (Some (Some e))
      | None \<Rightarrow> cache_write (set_channels ords (ord (tbl_rows (snd w))) (fst w)) (snd w) None)"

section \<open>Coherence of cache and table\<close>

abbreviation row_of :: "ChannelTable \<Rightarrow> int \<Rightarrow> Channel option" where
  "row_of db \<equiv> map_of (tbl_rows db)"

abbreviation settings_of :: "ChannelState \<Rightarrow> int \<Rightarrow> ManagedChannelSettings option" where
  "settings_of s \<equiv> map_of (allChannelSettingsByChannelIdCache s)"

text \<open>
  Row ids are positive and below the next id; what the cache finds for a channel point is the
  channel whose row has that point; the cached status is the status of the row.
\<close>

definition coherent :: "channel_world \<Rightarrow> bool" where
  "coherent w \<longleftrightarrow>
     keys_distinct (tbl_rows (snd w)) \<and> 0 < tbl_nextId (snd w) \<and>
     (\<forall>c row. row_of (snd w) c = Some row \<longrightarrow> 0 < c \<and> c < tbl_nextId (snd w)) \<and>
     (\<forall>p c. allChannelPointCache (fst w) p = Some c \<longrightarrow>
        (\<exists>row. row_of (snd w) c = Some row \<and> ch_FundingTransactionHash row \<noteq> [] \<and>
           CreateChannelPoint (ch_FundingTransactionHash row) (ch_FundingOutputIndex row) = p)) \<and>
     (\<forall>c cs. settings_of (fst w) c = Some cs \<and> mcs_ChannelId cs \<noteq> 0 \<longrightarrow>
        (\<exists>row. row_of (snd w) c = Some row \<and> ch_Status row = mcs_Status cs))"

definition same_channel :: "Channel \<Rightarrow> Channel \<Rightarrow> bool" where
  "same_channel a b \<longleftrightarrow>
     ch_FundingTransactionHash a = ch_FundingTransactionHash b \<and>
     ch_FundingOutputIndex a = ch_FundingOutputIndex b"

lemma coherentD:
  assumes "coherent w"
  shows "keys_distinct (tbl_rows (snd w))" and "0 < tbl_nextId (snd w)"
    and "\<And>c row. row_of (snd w) c = Some row \<Longrightarrow> 0 < c \<and> c < tbl_nextId (snd w)"
    and "\<And>p c. allChannelPointCache (fst w) p = Some c \<Longrightarrow>
        \<exists>row. row_of (snd w) c = Some row \<and> ch_FundingTransactionHash row \<noteq> [] \<and>
           CreateChannelPoint (ch_FundingTransactionHash row) (ch_FundingOutputIndex row) = p"
    and "\<And>c cs. settings_of (fst w) c = Some cs \<Longrightarrow> mcs_ChannelId cs \<noteq> 0 \<Longrightarrow>
        \<exists>row. row_of (snd w) c = Some row \<and> ch_Status row = mcs_Status cs"
  using assms unfolding coherent_def by blast+

lemma SetChannel_of_Served:
  assumes "SetChannel_of ords c ch s = Served t r" and "c \<noteq> 0"
  shows "if ch_FundingTransactionHash ch = [] then t = s
    else allChannelPointCache t = (allChannelPointCache s)
           (CreateChannelPoint (ch_FundingTransactionHash ch) (ch_FundingOutputIndex ch) \<mapsto> c) \<and>
         settings_of t = (settings_of s)(c \<mapsto> the (settings_of t c)) \<and>
         mcs_Status (the (settings_of t c)) = ch_Status ch"
proof -
  from assms(1) have "writeChannel (setChannelMessage c (ch_ShortChannelID ch) (ch_Status ch)
      (ch_FundingTransactionHash ch) (ch_FundingOutputIndex ch) (ch_Capacity ch) (ch_Private ch)
      (ch_FirstNodeId ch) (ch_SecondNodeId ch) (ch_InitiatingNodeId ch) (ch_AcceptingNodeId ch)) s = Served t r"
    by (simp add: SetChannel_of_def SetChannel_def processManagedChannel_def)
  then show ?thesis
    by (rule writeChannel_Served) (use assms(2) in \<open>simp_all add: settings_of_setChannelMessage\<close>)
qed

text \<open>What an update of one row keeps: all other rows, and what identifies the channel.\<close>

definition row_step :: "int \<Rightarrow> ChannelTable \<Rightarrow> ChannelTable \<Rightarrow> bool" where
  "row_step c db db' \<longleftrightarrow>
     tbl_nextId db' = tbl_nextId db \<and> (keys_distinct (tbl_rows db) \<longrightarrow> keys_distinct (tbl_rows db')) \<and>
     (\<forall>d. d \<noteq> c \<longrightarrow> row_of db' d = row_of db d) \<and>
     (row_of db c = None \<longrightarrow> row_of db' c = None) \<and>
     (\<forall>row. row_of db c = Some row \<longrightarrow> (\<exists>row'. row_of db' c = Some row' \<and> same_channel row' row))"

lemma row_step_refl [simp]: "row_step c db db"
  by (simp add: row_step_def same_channel_def)

lemma row_step_trans: "row_step c a b \<Longrightarrow> row_step c b d \<Longrightarrow> row_step c a d"
  by (cases "row_of a c") (fastforce simp: row_step_def same_channel_def)+

lemma row_step_update_row:
  "(\<And>row. same_channel (f row) row) \<Longrightarrow> row_step c db (update_row c cond f db)"
  by (auto simp: update_row_def row_step_def same_channel_def split: option.splits)

lemma row_step_updates:
  "updateChannelStatusAndLndIds fails now c st sc lnd db = (db', e) \<Longrightarrow> row_step c db db'"
  "updateChannelClosingTransactionHash fails now c h n db = (db', e) \<Longrightarrow> row_step c db db'"
  by (auto simp: updateChannelStatusAndLndIds_def updateChannelClosingTransactionHash_def Let_def
      same_channel_def split: option.splits intro!: row_step_update_row)

text \<open>The status of the row after an update: the new one, unless it was the same before.\<close>

definition row_status :: "ChannelTable \<Rightarrow> int \<Rightarrow> ChannelStatus option" where
  "row_status db c = map_option ch_Status (row_of db c)"

lemma row_status_updates:
  "updateChannelStatusAndLndIds fails now c st sc lnd db = (db', None) \<Longrightarrow>
   row_status db' c = map_option (\<lambda>_. st) (row_of db c)"
  "updateChannelClosingTransactionHash fails now c h n db = (db', e) \<Longrightarrow> row_status db' c = row_status db c"
  by (auto simp: updateChannelStatusAndLndIds_def updateChannelClosingTransactionHash_def Let_def
      update_row_def row_status_def split: option.splits if_splits)

lemma update_uncached_step:
  assumes "update_uncached fails now c ch db = (db', e)"
  shows "row_step c db db'" and "e = None \<Longrightarrow> row_of db c \<noteq> None \<Longrightarrow> row_status db' c = Some (ch_Status ch)"
proof -
  show "row_step c db db'"
    using assms
    by (auto simp: update_uncached_def Let_def split: sum.splits if_splits option.splits prod.splits
        dest: row_step_updates intro: row_step_trans)
  assume e: "e = None" and "row_of db c \<noteq> None"
  then obtain row where row: "row_of db c = Some row" by blast
  from assms e have g: "GetChannel fails db c = Ok row"
    using row by (auto simp: update_uncached_def GetChannel_def split: option.splits)
  show "row_status db' c = Some (ch_Status ch)"
    using assms e row g
    by (auto simp: update_uncached_def Let_def row_status_def split: if_splits option.splits prod.splits
        dest!: row_status_updates)
qed

lemma update_cached_step:
  assumes "update_cached fails now c ch settings db = (db', e)"
  shows "row_step c db db'"
    and "e = None \<Longrightarrow> row_status db c = Some (mcs_Status settings) \<Longrightarrow> row_status db' c = Some (ch_Status ch)"
proof -
  show "row_step c db db'"
    using assms
    by (auto simp: update_cached_def Let_def split: if_splits option.splits prod.splits
        dest: row_step_updates intro: row_step_trans)
  assume e: "e = None" and "row_status db c = Some (mcs_Status settings)"
  then show "row_status db' c = Some (ch_Status ch)"
    using assms
    by (auto simp: update_cached_def Let_def row_status_def split: if_splits option.splits prod.splits
        dest!: row_status_updates)
qed

lemma coherent_step:
  assumes co: "coherent (s, db)" and step: "row_step c db db'"
    and row: "row_of db' c = Some row" "same_channel row ch" "ch_Status row = ch_Status ch"
    and hash: "ch_FundingTransactionHash ch \<noteq> []"
    and set: "SetChannel_of ords c ch s = Served t r" and c: "0 < c" "c < tbl_nextId db"
  shows "coherent (t, db')"
proof -
  note old = coherentD [OF co, simplified]
  from SetChannel_of_Served [OF set] c hash have
    pts: "allChannelPointCache t = (allChannelPointCache s)
        (CreateChannelPoint (ch_FundingTransactionHash ch) (ch_FundingOutputIndex ch) \<mapsto> c)"
    and sets: "settings_of t = (settings_of s)(c \<mapsto> the (settings_of t c))"
    and st: "mcs_Status (the (settings_of t c)) = ch_Status ch"
    by simp_all
  have keep: "\<exists>row'. row_of db' d = Some row' \<and> same_channel row' row0" if "row_of db d = Some row0" for d row0
    using step that unfolding row_step_def same_channel_def by (cases "d = c") auto
  show ?thesis
    unfolding coherent_def fst_conv snd_conv
  proof (intro conjI allI impI; (elim conjE)?)
    show "keys_distinct (tbl_rows db')" "0 < tbl_nextId db'"
      using step old(1,2) by (simp_all add: row_step_def)
    fix d row1 assume "row_of db' d = Some row1"
    then have "d = c \<or> row_of db d = Some row1" using step by (auto simp: row_step_def)
    then show "0 < d" "d < tbl_nextId db'" using old(3) c step by (auto simp: row_step_def)
  next
    fix p d assume p: "allChannelPointCache t p = Some d"
    show "\<exists>row. row_of db' d = Some row \<and> ch_FundingTransactionHash row \<noteq> [] \<and>
        CreateChannelPoint (ch_FundingTransactionHash row) (ch_FundingOutputIndex row) = p"
    proof (cases "p = CreateChannelPoint (ch_FundingTransactionHash ch) (ch_FundingOutputIndex ch)")
      case True
      with p pts row hash show ?thesis by (auto simp: same_channel_def)
    next
      case False
      with p pts have "allChannelPointCache s p = Some d" by simp
      from old(4) [OF this] keep show ?thesis by (fastforce simp: same_channel_def)
    qed
  next
    fix d cs assume d: "settings_of t d = Some cs" and nz: "mcs_ChannelId cs \<noteq> 0"
    show "\<exists>row. row_of db' d = Some row \<and> ch_Status row = mcs_Status cs"
    proof (cases "d = c")
      case True
      with d st row(1,3) show ?thesis by simp
    next
      case False
      with d sets have "settings_of s d = Some cs" by (metis fun_upd_other)
      from old(5) [OF this nz] False step show ?thesis by (auto simp: row_step_def)
    qed
  qed
qed

text \<open>Inserting a row is a step that starts from the table with the row and the next id advanced.\<close>

lemma coherent_insert:
  assumes co: "coherent (s, db)"
  shows "coherent (s, db\<lparr>tbl_rows := aput (tbl_nextId db) row (tbl_rows db), tbl_nextId := tbl_nextId db + 1\<rparr>)"
proof -
  note old = coherentD [OF co, simplified]
  have new: "row_of db (tbl_nextId db) = None" using old(3) by force
  show ?thesis
    unfolding coherent_def
  proof (intro conjI allI impI; (elim conjE)?; simp only: fst_conv snd_conv)
    fix p d assume "allChannelPointCache s p = Some d"
    from old(4) [OF this] new show "\<exists>row'. row_of (db\<lparr>tbl_rows := aput (tbl_nextId db) row (tbl_rows db),
        tbl_nextId := tbl_nextId db + 1\<rparr>) d = Some row' \<and> ch_FundingTransactionHash row' \<noteq> [] \<and>
        CreateChannelPoint (ch_FundingTransactionHash row') (ch_FundingOutputIndex row') = p"
      by force
  next
    fix d cs assume "settings_of s d = Some cs" "mcs_ChannelId cs \<noteq> 0"
    from old(5) [OF this] new show "\<exists>row'. row_of (db\<lparr>tbl_rows := aput (tbl_nextId db) row (tbl_rows db),
        tbl_nextId := tbl_nextId db + 1\<rparr>) d = Some row' \<and> ch_Status row' = mcs_Status cs"
      by force
  next
    fix d row1 assume "row_of (db\<lparr>tbl_rows := aput (tbl_nextId db) row (tbl_rows db),
        tbl_nextId := tbl_nextId db + 1\<rparr>) d = Some row1"
    then have "d = tbl_nextId db \<or> (0 < d \<and> d < tbl_nextId db)" using old(3) by (auto split: if_splits)
    then show "0 < d" "d < tbl_nextId (db\<lparr>tbl_rows := aput (tbl_nextId db) row (tbl_rows db),
        tbl_nextId := tbl_nextId db + 1\<rparr>)" using old(2) by auto
  qed (use old in simp_all)
qed

lemma selected_id_found:
  assumes "fails q = None" and "range_order ord" and "keys_distinct (tbl_rows db)"
    and "\<And>i row. row_of db i = Some row \<Longrightarrow> i \<noteq> 0"
  shows "selected_id fails q cond ord db = (i, e) \<Longrightarrow>
    e = None \<and> (if i = 0 then \<forall>j row. row_of db j = Some row \<longrightarrow> \<not> cond row
                 else \<exists>row. row_of db i = Some row \<and> cond row)"
proof -
  assume sel: "selected_id fails q cond ord db = (i, e)"
  have mem: "(j, row) \<in> set (ord (tbl_rows db)) \<longleftrightarrow> row_of db j = Some row" for j row
    using assms(2,3) by (simp add: range_order_set map_of_keys_distinct)
  show ?thesis
  proof (cases "find (\<lambda>(i, row). cond row) (ord (tbl_rows db))")
    case None
    with sel assms(1) have "i = 0" "e = None" by (simp_all add: selected_id_def)
    moreover have "\<not> cond row" if "row_of db j = Some row" for j row
      using None that unfolding find_None_iff by (auto simp: mem [symmetric])
    ultimately show ?thesis by simp
  next
    case (Some p)
    obtain j row where p: "p = (j, row)" by (cases p)
    with Some have "(j, row) \<in> set (ord (tbl_rows db))" "cond row"
      unfolding find_Some_iff by (metis nth_mem, auto)
    then have "row_of db j = Some row" by (simp add: mem)
    with assms(4) sel Some p assms(1) \<open>cond row\<close> show ?thesis by (simp add: selected_id_def)
  qed
qed

text \<open>Transaction hashes are hexadecimal; all that is needed of them is that they hold no colon.\<close>

definition no_colon :: "Channel \<Rightarrow> bool" where
  "no_colon c \<longleftrightarrow> CHR '':'' \<notin> set (ch_FundingTransactionHash c)"

lemma find_channel_funding:
  assumes co: "coherent w" and ord: "range_order ord"
    and hash: "ch_FundingTransactionHash ch \<noteq> []" "no_colon ch"
    and hex: "\<forall>d row. row_of (snd w) d = Some row \<longrightarrow> no_colon row"
  shows "(\<exists>c row. find_channel fails ords ord ch w = Existing c \<and> row_of (snd w) c = Some row \<and> same_channel row ch) \<or>
         find_channel fails ords ord ch w = Missing \<and>
         (fails SelectByFundingTransaction = None \<longrightarrow>
           (\<forall>d row. row_of (snd w) d = Some row \<longrightarrow> \<not> same_channel row ch))"
proof -
  note old = coherentD [OF co]
  let ?p = "CreateChannelPoint (ch_FundingTransactionHash ch) (ch_FundingOutputIndex ch)"
  show ?thesis
  proof (cases "mget 0 (allChannelPointCache (fst w)) ?p = 0")
    case False
    then obtain c where c: "allChannelPointCache (fst w) ?p = Some c" "c \<noteq> 0"
      by (cases "allChannelPointCache (fst w) ?p") auto
    from old(4) [OF c(1)] obtain row where row: "row_of (snd w) c = Some row"
      "CreateChannelPoint (ch_FundingTransactionHash row) (ch_FundingOutputIndex row) = ?p" by blast
    with hex hash have "same_channel row ch"
      using channel_point_inj unfolding same_channel_def no_colon_def by blast
    with row c hash show ?thesis by (simp add: find_channel_def channel_reads)
  next
    case True
    obtain i e where sel: "getChannelIdByFundingTransaction fails ord (snd w)
        (ch_FundingTransactionHash ch) (ch_FundingOutputIndex ch) = (i, e)" by fastforce
    show ?thesis
    proof (cases "fails SelectByFundingTransaction")
      case f: None
      have "i \<noteq> 0" if "row_of (snd w) i = Some row" for i row using old(3) that by force
      from selected_id_found [OF f ord old(1) this sel [unfolded getChannelIdByFundingTransaction_def]]
      have e: "e = None" and i: "if i = 0 then \<forall>j row. row_of (snd w) j = Some row \<longrightarrow> \<not> same_channel row ch
          else \<exists>row. row_of (snd w) i = Some row \<and> same_channel row ch"
        by (auto simp: same_channel_def split: if_splits)
      have "find_channel fails ords ord ch w = (if i = 0 then Missing else Existing i)"
        using True hash sel e by (simp add: find_channel_def channel_reads)
      with i show ?thesis by (auto split: if_splits)
    next
      case (Some p)
      then have "find_channel fails ords ord ch w = Missing"
        using True hash by (simp add: find_channel_def channel_reads getChannelIdByFundingTransaction_def
            selected_id_def errors_As_error_def)
      with Some show ?thesis by simp
    qed
  qed
qed

text \<open>The cache was written for channel \<open>c\<close> last, with the point and status of \<open>ch\<close>.\<close>

definition written :: "channel_orders \<Rightarrow> int \<Rightarrow> Channel \<Rightarrow> ChannelState \<Rightarrow> bool" where
  "written ords c ch t \<longleftrightarrow>
     (\<exists>s r ch'. c \<noteq> 0 \<and> SetChannel_of ords c ch' s = Served t r \<and> same_channel ch' ch \<and>
        ch_Status ch' = ch_Status ch)"

lemma written_reads:
  assumes "written ords c ch t" and hash: "ch_FundingTransactionHash ch \<noteq> []"
  shows "GetChannelIdByFundingTransaction ords t (ch_FundingTransactionHash ch) (ch_FundingOutputIndex ch) = Some c"
    and "GetChannelStatusByChannelId ords t c = Some (ch_Status ch)"
proof -
  obtain s r ch' where c: "c \<noteq> 0" and set: "SetChannel_of ords c ch' s = Served t r"
    and same: "same_channel ch' ch" "ch_Status ch' = ch_Status ch"
    using assms(1) by (auto simp: written_def)
  from set have "writeChannel (setChannelMessage c (ch_ShortChannelID ch') (ch_Status ch')
      (ch_FundingTransactionHash ch') (ch_FundingOutputIndex ch') (ch_Capacity ch') (ch_Private ch')
      (ch_FirstNodeId ch') (ch_SecondNodeId ch') (ch_InitiatingNodeId ch') (ch_AcceptingNodeId ch')) s = Served t r"
    by (simp add: SetChannel_of_def SetChannel_def processManagedChannel_def)
  then have "allChannelPointCache t (CreateChannelPoint (ch_FundingTransactionHash ch) (ch_FundingOutputIndex ch)) = Some c
      \<and> allChannelStatusCache t c = Some (ch_Status ch)"
    by (rule writeChannel_Served) (use c hash same in \<open>simp_all add: same_channel_def\<close>)
  then show "GetChannelIdByFundingTransaction ords t (ch_FundingTransactionHash ch) (ch_FundingOutputIndex ch) = Some c"
    and "GetChannelStatusByChannelId ords t c = Some (ch_Status ch)"
    by (simp_all add: channel_reads)
qed

definition added ::
    "db_failures \<Rightarrow> channel_orders \<Rightarrow> Channel \<Rightarrow> ChannelTable \<Rightarrow> int \<Rightarrow> channel_world \<Rightarrow> bool" where
  "added fails ords ch db c w' \<longleftrightarrow>
     coherent w' \<and> (\<exists>row. row_of (snd w') c = Some row \<and> same_channel row ch \<and> ch_Status row = ch_Status ch) \<and>
     (\<forall>d. d \<noteq> c \<longrightarrow> row_of (snd w') d = row_of db d) \<and>
     (row_of db c = None \<and> fails SelectByFundingTransaction = None \<longrightarrow> (\<forall>d row. row_of db d = Some row \<longrightarrow> \<not> same_channel row ch)) \<and>
     written ords c ch (fst w')"

lemma AddChannel_existing:
  assumes co: "coherent (s, db)" and hash: "ch_FundingTransactionHash ch \<noteq> []"
    and found: "find_channel fails ords ord ch (s, db) = Existing d"
    and row: "row_of db d = Some row" "same_channel row ch"
    and add: "AddChannelOrUpdateChannelStatus fails ords ord now ch (s, db) = Served (t, db') (Some (c, None))"
  shows "added fails ords ch db c (t, db')"
proof -
  note old = coherentD [OF co, simplified]
  obtain settings where settings: "settings = aget zeroChannelSettings (allChannelSettingsByChannelIdCache s) d" by blast
  obtain db1 err where up: "(if mcs_ChannelId settings = 0 then update_uncached fails now d ch db
      else update_cached fails now d ch settings db) = (db1, err)" by fastforce
  from add found up settings have set: "err = None" "d = c" "db1 = db'"
    "\<exists>r. SetChannel_of ords c ch s = Served t r"
    by (auto simp: AddChannelOrUpdateChannelStatus_def channel_reads cache_write_def Let_def
        split: if_splits outcome.splits)
  from row set(2) have r: "row_of db c = Some row" by simp
  have step: "row_step c db db'"
    using up set by (auto split: if_splits dest: update_uncached_step(1) update_cached_step(1))
  have "mcs_ChannelId settings \<noteq> 0 \<Longrightarrow> row_status db c = Some (mcs_Status settings)"
    using settings set(2) old(5) [of c settings] r
    by (cases "settings_of s c") (auto simp: zeroChannelSettings_def row_status_def)
  then have st: "row_status db' c = Some (ch_Status ch)"
    using up set r by (auto split: if_splits dest: update_uncached_step(2) update_cached_step(2))
  obtain row' where row': "row_of db' c = Some row'" "same_channel row' ch" "ch_Status row' = ch_Status ch"
    using step st r row(2) by (fastforce simp: row_step_def row_status_def same_channel_def)
  obtain r' where sc: "SetChannel_of ords c ch s = Served t r'" using set by blast
  have c: "0 < c" "c < tbl_nextId db" using old(3) r by auto
  have "written ords c ch t" using sc c by (force simp: written_def same_channel_def)
  moreover have "\<forall>d. d \<noteq> c \<longrightarrow> row_of db' d = row_of db d" using step by (simp add: row_step_def)
  ultimately show ?thesis
    using coherent_step [OF co step row' hash sc c] row' r by (simp add: added_def)
qed

lemma AddChannel_missing:
  assumes co: "coherent (s, db)" and hash: "ch_FundingTransactionHash ch \<noteq> []"
    and miss: "find_channel fails ords ord ch (s, db) = Missing"
    and none: "fails SelectByFundingTransaction = None \<longrightarrow>
           (\<forall>d row. row_of db d = Some row \<longrightarrow> \<not> same_channel row ch)"
    and add: "AddChannelOrUpdateChannelStatus fails ords ord now ch (s, db) = Served (t, db') (Some (c, None))"
  shows "added fails ords ch db c (t, db')"
proof -
  note old = coherentD [OF co, simplified]
  let ?n = "tbl_nextId db"
  let ?row = "ch\<lparr>ch_ChannelID := ?n, ch_CreatedOn := now, ch_UpdateOn := Some now,
     ch_ShortChannelID := stored_short_id (ch_ShortChannelID ch),
     ch_LNDShortChannelID := stored_lnd_id (ch_LNDShortChannelID ch)\<rparr>"
  let ?db = "db\<lparr>tbl_rows := aput ?n ?row (tbl_rows db), tbl_nextId := ?n + 1\<rparr>"
  from add miss have set: "c = ?n" "db' = ?db" "\<exists>r. SetChannel_of ords ?n ?row s = Served t r"
    by (auto simp: AddChannelOrUpdateChannelStatus_def addChannel_def cache_write_def Let_def
        split: if_splits outcome.splits option.splits)
  obtain r' where sc: "SetChannel_of ords ?n ?row s = Served t r'" using set by blast
  have "coherent (t, ?db)"
    by (rule coherent_step [where row = ?row, OF coherent_insert [OF co] row_step_refl _ _ _ _ sc])
      (use hash old(2) in \<open>simp_all add: same_channel_def\<close>)
  moreover have "written ords ?n ch t" using sc old(2) by (force simp: written_def same_channel_def)
  ultimately show ?thesis using set none by (simp add: added_def same_channel_def)
qed

lemma AddChannel_added:
  assumes "coherent w" and "range_order ord"
    and "ch_FundingTransactionHash ch \<noteq> []" and "no_colon ch"
    and "\<forall>d row. row_of (snd w) d = Some row \<longrightarrow> no_colon row"
    and "AddChannelOrUpdateChannelStatus fails ords ord now ch w = Served w' (Some (c, None))"
  shows "added fails ords ch (snd w) c w'"
  using find_channel_funding [where w = w and ord = ord and fails = fails and ch = ch and ords = ords, OF assms(1-5)]
    assms(1,3,6)
  by (cases w; cases w') (auto intro: AddChannel_existing AddChannel_missing)

section \<open>Properties\<close>

text \<open>
  C12: suppose the cache is coherent with the table, and a channel is added or updated whose
  funding transaction hash is not empty, no hash (its own or a stored one) holding a colon, and the
  call reports success.  Then the cache is coherent with the table afterwards; the returned id is
  that of a row for this channel with the given status, every other row is untouched, and the cache
  answers the id and the status.  A row is added only when the channel had none, unless the lookup
  by funding transaction failed: such a failure is taken for a missing row, and the channel may be
  stored a second time.
\<close>

theorem AddChannel_coherent:
  assumes "coherent w" and "range_order ord"
    and "ch_FundingTransactionHash ch \<noteq> []" and "no_colon ch"
    and "\<forall>d row. row_of (snd w) d = Some row \<longrightarrow> no_colon row"
    and "AddChannelOrUpdateChannelStatus fails ords ord now ch w = Served w' (Some (c, None))"
  shows "coherent w' \<and>
    (\<exists>row. row_of (snd w') c = Some row \<and> same_channel row ch \<and> ch_Status row = ch_Status ch) \<and>
    (\<forall>d. d \<noteq> c \<longrightarrow> row_of (snd w') d = row_of (snd w) d) \<and>
    (row_of (snd w) c = None \<and> fails SelectByFundingTransaction = None \<longrightarrow> (\<forall>d row. row_of (snd w) d = Some row \<longrightarrow> \<not> same_channel row ch)) \<and>
    GetChannelIdByFundingTransaction ords (fst w') (ch_FundingTransactionHash ch) (ch_FundingOutputIndex ch) = Some c \<and>
    GetChannelStatusByChannelId ords (fst w') c = Some (ch_Status ch)"
  using AddChannel_added [OF assms] written_reads [OF _ assms(3)] by (simp add: added_def)

text \<open>
  a failing lookup is taken for "no such channel": when the channel is not cached and the
  database cannot answer the lookup by funding transaction, a second row is inserted for a channel
  that has one, and the caller is told of success with the id of the new row.
\<close>

lemma failed_lookup_duplicates_channel:
  assumes "coherent (s, db)" and "row_of db d = Some row" and "same_channel row ch"
    and "ch_FundingTransactionHash ch \<noteq> []" and "ch_ShortChannelID ch = None"
    and "GetChannelIdByFundingTransaction ords s (ch_FundingTransactionHash ch) (ch_FundingOutputIndex ch) = Some 0"
    and "fails SelectByFundingTransaction = Some e" and "fails InsertChannel = None"
  shows "\<exists>t db' c row'. AddChannelOrUpdateChannelStatus fails ords ord now ch (s, db) = Served (t, db') (Some (c, None)) \<and>
     c \<noteq> d \<and> row_of db' d = Some row \<and> row_of db' c = Some row' \<and> same_channel row' row"
proof -
  have d: "d \<noteq> tbl_nextId db" using coherentD(3) [OF assms(1), simplified, OF assms(2)] by simp
  have miss: "find_channel fails ords ord ch (s, db) = Missing"
    using assms(4,6,7)
    by (simp add: find_channel_def getChannelIdByFundingTransaction_def selected_id_def errors_As_error_def)
  have "\<exists>t r. SetChannel ords c None st h i cap p f g n a s = Served t r" for c st h i cap p f g n a
    by (simp add: SetChannel_def processManagedChannel_def writeChannel_def parseAndConvertShortIds_def
        setChannelMessage_def Let_def)
  then obtain t r where "SetChannel_of ords (tbl_nextId db) (ch\<lparr>ch_ChannelID := tbl_nextId db, ch_CreatedOn := now,
      ch_UpdateOn := Some now, ch_ShortChannelID := None, ch_LNDShortChannelID := stored_lnd_id (ch_LNDShortChannelID ch)\<rparr>) s
      = Served t r"
    unfolding SetChannel_of_def by fastforce
  then show ?thesis
    using miss assms(2,3,5,8) d
    by (simp add: AddChannelOrUpdateChannelStatus_def addChannel_def cache_write_def Let_def
        stored_short_id_def is_no_short_id_def same_channel_def)
qed

text \<open>An unknown channel without a funding transaction: id 0 and no error.\<close>

lemma AddChannel_without_funding:
  assumes "ch_FundingTransactionHash ch = []" and "is_no_short_id (ch_ShortChannelID ch)"
  shows "AddChannelOrUpdateChannelStatus fails ords ord now ch w = Served w (Some (0, None))"
  using assms by (simp add: AddChannelOrUpdateChannelStatus_def find_channel_def)

text \<open>Filling an empty cache makes it coherent with the table.\<close>

lemma set_channels_coherent:
  assumes "set_channels ords rows s = Served t r" and "coherent (s, db)"
    and "\<forall>(c, row) \<in> set rows. row_of db c = Some row \<and> ch_FundingTransactionHash row \<noteq> []"
  shows "coherent (t, db)"
  using assms
proof (induction rows arbitrary: s)
  case (Cons cr rows)
  obtain c row where cr: "cr = (c, row)" by (cases cr)
  with Cons.prems(1) obtain s' r' where set: "SetChannel_of ords c row s = Served s' r'"
    and rest: "set_channels ords rows s' = Served t r"
    by (auto split: outcome.splits)
  have row: "row_of db c = Some row" "ch_FundingTransactionHash row \<noteq> []" using Cons.prems(3) cr by auto
  have "0 < c" "c < tbl_nextId db" using coherentD(3) [OF Cons.prems(2)] row by auto
  then have "coherent (s', db)"
    using coherent_step [OF Cons.prems(2) row_step_refl row(1) _ _ row(2) set] by (simp add: same_channel_def)
  with Cons.IH [OF rest] Cons.prems(3) show ?case by simp
qed simp

lemma InitializeManagedChannelCache_coherent:
  assumes "InitializeManagedChannelCache fails ords ord (emptyChannelState, db) = Served w (Some None)"
    and "range_order ord" and "keys_distinct (tbl_rows db)" and "0 < tbl_nextId db"
    and "\<forall>c row. row_of db c = Some row \<longrightarrow> 0 < c \<and> c < tbl_nextId db \<and> ch_FundingTransactionHash row \<noteq> []"
  shows "coherent w"
proof -
  have "coherent (emptyChannelState, db)"
    using assms(3-5) by (simp add: coherent_def emptyChannelState_def)
  moreover obtain t r where "set_channels ords (ord (tbl_rows db)) emptyChannelState = Served t r" "w = (t, db)"
    using assms(1)
    by (auto simp: InitializeManagedChannelCache_def cache_write_def split: option.splits outcome.splits)
  moreover have "\<forall>(c, row) \<in> set (ord (tbl_rows db)). row_of db c = Some row \<and> ch_FundingTransactionHash row \<noteq> []"
    using assms(2,3,5) by (auto simp: range_order_set map_of_keys_distinct)
  ultimately show ?thesis using set_channels_coherent by blast
qed

section \<open>Witnesses\<close>

definition exampleChannel :: Channel where
  "exampleChannel = zeroChannel\<lparr>ch_FundingTransactionHash := ''ab'', ch_FundingOutputIndex := 1, ch_Status := Open\<rparr>"

definition exampleTable :: ChannelTable where
  "exampleTable = \<lparr>tbl_rows = [(4, exampleChannel\<lparr>ch_Status := Opening\<rparr>)], tbl_nextId = 5\<rparr>"

lemma exampleTable_coherent: "coherent (emptyChannelState, exampleTable)"
  by (simp add: coherent_def exampleTable_def emptyChannelState_def keys_distinct_def)

theorem AddChannel_coherent_witness:
  "\<exists>w c. AddChannelOrUpdateChannelStatus (\<lambda>_. None) (id, id) rev 9 exampleChannel (emptyChannelState, exampleTable) =
       Served w (Some (c, None)) \<and> coherent w \<and> GetChannelStatusByChannelId (id, id) (fst w) c = Some Open"
proof -
  have run: "\<exists>w c. AddChannelOrUpdateChannelStatus (\<lambda>_. None) (id, id) rev 9 exampleChannel
      (emptyChannelState, exampleTable) = Served w (Some (c, None))"
    by (simp add: AddChannelOrUpdateChannelStatus_def find_channel_def channel_reads emptyChannelState_def
        exampleChannel_def exampleTable_def zeroChannel_def getChannelIdByFundingTransaction_def selected_id_def
        zeroChannelSettings_def update_uncached_def GetChannel_def updateChannelStatusAndLndIds_def Let_def
        cache_write_def SetChannel_of_def SetChannel_def processManagedChannel_def writeChannel_def
        parseAndConvertShortIds_def setChannelMessage_def)
  then obtain w c where w: "AddChannelOrUpdateChannelStatus (\<lambda>_. None) (id, id) rev 9 exampleChannel
      (emptyChannelState, exampleTable) = Served w (Some (c, None))" by blast
  have "\<forall>d row. row_of (snd (emptyChannelState, exampleTable)) d = Some row \<longrightarrow> no_colon row"
    by (simp add: exampleTable_def exampleChannel_def no_colon_def)
  from AddChannel_coherent [OF exampleTable_coherent range_order_id(2) _ _ this w] w
  show ?thesis by (auto simp: exampleChannel_def no_colon_def)
qed

lemma failed_lookup_duplicates_channel_witness:
  "\<exists>t db' c. AddChannelOrUpdateChannelStatus
       ((\<lambda>_. None)(SelectByFundingTransaction \<mapsto> Error ''connection reset'')) (id, id) rev 9 exampleChannel
       (emptyChannelState, exampleTable) = Served (t, db') (Some (c, None)) \<and> c \<noteq> 4 \<and>
     row_of db' 4 \<noteq> None \<and> row_of db' c \<noteq> None"
proof -
  have row: "row_of exampleTable 4 = Some (exampleChannel\<lparr>ch_Status := Opening\<rparr>)"
    by (simp add: exampleTable_def)
  show ?thesis
    using failed_lookup_duplicates_channel [OF exampleTable_coherent row, where ch = exampleChannel
        and fails = "(\<lambda>_. None)(SelectByFundingTransaction \<mapsto> Error ''connection reset'')"
        and ords = "(id, id)" and ord = rev and now = 9 and e = "Error ''connection reset''"]
    by (fastforce simp: exampleChannel_def same_channel_def zeroChannel_def channel_reads emptyChannelState_def)
qed

end
