(* ===== verification/GoText.thy ===== *)
theory GoText
  imports Prelude
begin

text \<open>
  What the request code uses of Go's standard library beyond the prelude: \<open>encoding/hex\<close>,
  \<open>strings.Contains\<close>, \<open>strconv.ParseUint\<close>, and gRPC response streams read in a loop.  The lemmas are
  the round trips of the encodings and what a reading loop hands on.
\<close>

section \<open>Hexadecimal text\<close>

type_synonym byte = "8 word"

definition hex_digit :: "nat \<Rightarrow> char" where
  "hex_digit d = (if d < 10 then char_of (48 + d) else char_of (87 + d))"

definition hex_val :: "char \<Rightarrow> nat option" where
  "hex_val c =
     (let n = of_char c in
      if 48 \<le> n \<and> n \<le> 57 then Some (n - 48)
      else if 97 \<le> n \<and> n \<le> 102 then Some (n - 87)
      else if 65 \<le> n \<and> n \<le> 70 then Some (n - 55)
      else None)"

definition hex_encode :: "byte list \<Rightarrow> string" where
  "hex_encode bs = concat (map (\<lambda>b. [hex_digit (unat b div 16), hex_digit (unat b mod 16)]) bs)"

text \<open>\<open>hex.DecodeString\<close>: pairs of digits; an odd length or another character is an error.\<close>

fun hex_decode :: "string \<Rightarrow> byte list option" where
  "hex_decode [] = Some []"
| "hex_decode [c] = None"
| "hex_decode (c # d # cs) =
     (case (hex_val c, hex_val d, hex_decode cs) of
        (Some x, Some y, Some bs) \<Rightarrow> Some (word_of_nat (16 * x + y) # bs)
      | _ \<Rightarrow> None)"

lemma hex_val_digit: "d < 16 \<Longrightarrow> hex_val (hex_digit d) = Some d"
  by (auto simp: hex_val_def hex_digit_def Let_def take_bit_eq_mod)

lemma hex_decode_encode: "hex_decode (hex_encode bs) = Some bs"
proof (induction bs)
  case (Cons b bs)
  have "unat b < 256" by (simp add: order_less_le_trans [OF unsigned_less])
  then have "hex_val (hex_digit (unat b div 16)) = Some (unat b div 16)"
    "hex_val (hex_digit (unat b mod 16)) = Some (unat b mod 16)"
    by (auto intro: hex_val_digit)
  moreover have "16 * (unat b div 16) + unat b mod 16 = unat b" by simp
  ultimately show ?case using Cons by (simp add: hex_encode_def)
qed (simp add: hex_encode_def)

lemma hex_decode_length: "hex_decode s = Some bs \<Longrightarrow> length s = 2 * length bs"
  by (induction s arbitrary: bs rule: hex_decode.induct) (auto split: option.splits)

section \<open>Substrings and numbers\<close>

fun contains :: "string \<Rightarrow> string \<Rightarrow> bool" where
  "contains [] sub = (sub = [])"
| "contains (c # cs) sub = (take (length sub) (c # cs) = sub \<or> contains cs sub)"

text \<open>\<open>strconv.ParseUint\<close> with base 10: digits only, and the value must fit the bit size.\<close>

definition parse_uint :: "nat \<Rightarrow> string \<Rightarrow> nat option" where
  "parse_uint bits s =
     (if s = [] then None
      else case digits_val 0 s of
             None \<Rightarrow> None
           | Some n \<Rightarrow> if n < 2 ^ bits then Some n else None)"

lemma parse_uint_format_uint: "parse_uint bits (format_uint n) = (if n < 2 ^ bits then Some n else None)"
  by (simp add: parse_uint_def digits_val_format_uint)

text \<open>\<open>strconv.ParseBool\<close>.\<close>

definition parse_bool :: "string \<Rightarrow> bool option" where
  "parse_bool s =
     (if s \<in> set [''1'', ''t'', ''T'', ''TRUE'', ''true'', ''True''] then Some True
      else if s \<in> set [''0'', ''f'', ''F'', ''FALSE'', ''false'', ''False''] then Some False
      else None)"

section \<open>Optional fields of a request\<close>

definition opt :: "'a option \<Rightarrow> 'a \<Rightarrow> 'a" where
  "opt x z = (case x of None \<Rightarrow> z | Some v \<Rightarrow> v)"

lemma opt_simps [simp]: "opt None z = z" "opt (Some v) z = v"
  by (simp_all add: opt_def)

section \<open>Texts of errors\<close>

definition error_text :: "go_error \<Rightarrow> string" where
  "error_text e = (case e of Error t \<Rightarrow> t | Panic t \<Rightarrow> t)"

section \<open>Response streams\<close>

text \<open>
  A response stream yields messages until it ends or fails.  A loop \<open>recv_loop process failed\<close>
  hands each processed message on and stops at the end of the stream, at its failure, or when a
  message cannot be processed; None says that the loop still waits.
\<close>

datatype 'm recv = Msg 'm | EndOfStream | RecvFails string

fun recv_loop ::
    "('m \<Rightarrow> 'e result) \<Rightarrow> (string \<Rightarrow> go_error) \<Rightarrow> 'm recv list \<Rightarrow> 'e list \<times> go_error option option" where
  "recv_loop process failed [] = ([], None)"
| "recv_loop process failed (EndOfStream # rest) = ([], Some None)"
| "recv_loop process failed (RecvFails t # rest) = ([], Some (Some (failed t)))"
| "recv_loop process failed (Msg m # rest) =
     (case process m of
        Inl e \<Rightarrow> ([], Some (Some e))
      | Inr x \<Rightarrow> (case recv_loop process failed rest of (xs, r) \<Rightarrow> (x # xs, r)))"

text \<open>Sending on the event channel happens only when there is one.\<close>

definition on_channel :: "bool \<Rightarrow> 'e list \<times> 'r \<Rightarrow> 'e list \<times> 'r" where
  "on_channel eventChannel x = (if eventChannel then x else ([], snd x))"

text \<open>
  The contract of a client that reads such a stream: every message it gets is turned into one
  event, in order, and the error it returns is that of the stream or of the first message it
  cannot process.
\<close>

locale stream_client =
  fixes process :: "'m \<Rightarrow> 'e result"
    and failed :: "string \<Rightarrow> go_error"
    and run :: "'m recv list \<Rightarrow> 'e list \<times> go_error option option"
  assumes run_loop: "run stream = recv_loop process failed stream"
begin

lemma all_processed:
  assumes "list_all2 (\<lambda>m x. process m = Ok x) ms xs"
  shows "run (map Msg ms) = (xs, None)"
    and "run (map Msg ms @ EndOfStream # rest) = (xs, Some None)"
    and "run (map Msg ms @ RecvFails t # rest) = (xs, Some (Some (failed t)))"
  using assms by (induction rule: list_all2_induct) (simp_all add: run_loop)

lemma first_unprocessable:
  assumes "list_all2 (\<lambda>m x. process m = Ok x) ms xs" and "process m = Inl e"
  shows "run (map Msg ms @ Msg m # rest) = (xs, Some (Some e))"
  using assms by (induction rule: list_all2_induct) (simp_all add: run_loop)

lemma events_are_processed:
  "x \<in> set (fst (run stream)) \<Longrightarrow> \<exists>m. Msg m \<in> set stream \<and> process m = Ok x"
proof -
  have "x \<in> set (fst (recv_loop process failed stream)) \<Longrightarrow> \<exists>m. Msg m \<in> set stream \<and> process m = Ok x"
    by (induction process failed stream rule: recv_loop.induct)
      (auto split: sum.splits prod.splits)
  then show "x \<in> set (fst (run stream)) \<Longrightarrow> \<exists>m. Msg m \<in> set stream \<and> process m = Ok x"
    by (simp add: run_loop)
qed

lemma events_at_most_messages: "length (fst (run stream)) \<le> length stream"
proof -
  have "length (fst (recv_loop process failed stream)) \<le> length stream"
    by (induction process failed stream rule: recv_loop.induct) (auto split: sum.splits prod.splits)
  then show ?thesis by (simp add: run_loop)
qed

end

end
