(* ===== verification/ChannelRequests.thy ===== *)
theory ChannelRequests
  imports GoText ManagedChannelState
begin

text \<open>
  Requests on channels: \<open>update_channel.go\<close>, \<open>close_channel.go\<close>, \<open>open_channel.go\<close>,
  \<open>batch_open_channel.go\<close> and \<open>calculateHTLCs\<close> of \<open>handlers.go\<close> under \<open>src/internal/channels/\<close>, and
  \<open>src/internal/peers/connect_peer.go\<close>.  LND is a parameter: whether a connection is obtained, what
  each call answers, and the stream of status updates of an open or a close.  A function returns
  the events it sends and its error; None for the error says it still waits for LND or a cache.
\<close>

section \<open>Updating a policy\<close>

datatype PolicyScope = Global | ChanPoint string uint32

record PolicyUpdateRequest =
  pur_Scope :: PolicyScope
  pur_BaseFeeMsat :: int64
  pur_FeeRatePpm :: uint32
  pur_TimeLockDelta :: uint32
  pur_MaxHtlcMsat :: uint64
  pur_MinHtlcMsat :: uint64
  pur_MinHtlcMsatSpecified :: bool

definition processChannelPoint :: "string \<Rightarrow> uint32 \<Rightarrow> PolicyScope" where
  "processChannelPoint fundingTxidStr outputIndex = ChanPoint fundingTxidStr outputIndex"

text \<open>The time lock delta the cache has for the channel, when it is one LND accepts.\<close>

definition cached_delta :: "StateEnv \<Rightarrow> StateCache \<Rightarrow> int \<Rightarrow> int \<Rightarrow> uint32 option option" where
  "cached_delta env states nodeId channelId =
     (case GetChannelState env states nodeId channelId True of
        None \<Rightarrow> None
      | Some None \<Rightarrow> Some None
      | Some (Some cs) \<Rightarrow> Some (if 18 \<le> css_LocalTimeLockDelta cs then Some (css_LocalTimeLockDelta cs) else None))"

text \<open>The message for a time lock delta, as soon as it is known; below 18 it is raised to 18.\<close>

definition policy_message :: "PolicyScope \<Rightarrow> uint32 option \<Rightarrow> UpdateChannelRequest \<Rightarrow> PolicyUpdateRequest result" where
  "policy_message scope timeLockDelta req =
     (case timeLockDelta of
        None \<Rightarrow> Fails ''TimeLockDelta is missing''
      | Some delta \<Rightarrow> Ok
          \<lparr>pur_Scope = scope,
           pur_BaseFeeMsat = (case ucr_FeeBaseMsat req of None \<Rightarrow> 0 | Some fee \<Rightarrow> fee),
           pur_FeeRatePpm = (case ucr_FeeRateMilliMsat req of None \<Rightarrow> 0 | Some rate \<Rightarrow> ucast rate),
           pur_TimeLockDelta = (if delta < 18 then 18 else delta),
           pur_MaxHtlcMsat = opt (ucr_MaxHtlcMsat req) 0,
           pur_MinHtlcMsat = opt (ucr_MinHtlcMsat req) 0,
           pur_MinHtlcMsatSpecified = (ucr_MinHtlcMsat req \<noteq> None)\<rparr>)"

definition createPolicyRequest ::
    "channel_orders \<Rightarrow> ChannelState \<Rightarrow> StateEnv \<Rightarrow> StateCache \<Rightarrow> UpdateChannelRequest \<Rightarrow>
     PolicyUpdateRequest result option" where
  "createPolicyRequest ords channels env states req =
     (if ucr_NodeId req = 0 then Some (Fails ''Node id is missing'')
      else case ucr_ChannelId req of
        None \<Rightarrow> Some (policy_message Global (ucr_TimeLockDelta req) req)
      | Some channelId \<Rightarrow>
          if channelId = 0 then Some (policy_message Global (ucr_TimeLockDelta req) req)
          else (case GetChannelSettingByChannelId ords channels channelId of
                  None \<Rightarrow> None
                | Some settings \<Rightarrow>
                    (let scope = processChannelPoint (mcs_FundingTransactionHash settings)
                                   (word_of_int (mcs_FundingOutputIndex settings))
                     in case ucr_TimeLockDelta req of
                          Some delta \<Rightarrow> Some (policy_message scope (Some delta) req)
                        | None \<Rightarrow> map_option (\<lambda>delta. policy_message scope delta req)
                                    (cached_delta env states (ucr_NodeId req) channelId))))"

text \<open>\<open>failed\<close> are the errors of the updates LND reports as failed.\<close>

definition processUpdateResponse ::
    "UpdateChannelRequest \<Rightarrow> string list \<Rightarrow> bool \<Rightarrow> UpdateChannelResponse list \<times> UpdateChannelResponse" where
  "processUpdateResponse req failed eventChannel =
     (let r = (if length failed > 0
               then \<lparr>ucs_Request = req, ucs_Status = Inactive,
                     ucs_FailedUpdates = map (\<lambda>e. \<lparr>fr_Reason = e, fr_Error = e\<rparr>) failed\<rparr>
               else \<lparr>ucs_Request = req, ucs_Status = Active, ucs_FailedUpdates = []\<rparr>)
      in (if eventChannel then [r] else [], r))"

definition updateChannels ::
    "channel_orders \<Rightarrow> ChannelState \<Rightarrow> StateEnv \<Rightarrow> StateCache \<Rightarrow> (int \<Rightarrow> unit result) \<Rightarrow>
     (PolicyUpdateRequest \<Rightarrow> string list result) \<Rightarrow> bool \<Rightarrow> UpdateChannelRequest \<Rightarrow>
     (UpdateChannelResponse list \<times> UpdateChannelResponse result) option" where
  "updateChannels ords channels env states connect UpdateChannelPolicy eventChannel req =
     map_option (\<lambda>prepared.
       case prepared of
         Inl e \<Rightarrow> ([], Inl e)
       | Inr policyReq \<Rightarrow>
           (case connect (ucr_NodeId req) of
              Inl e \<Rightarrow> ([], Inl e)
            | Inr u \<Rightarrow>
                (case UpdateChannelPolicy policyReq of
                   Inl e \<Rightarrow> ([], Inl e)
                 | Inr failed \<Rightarrow>
                     (let x = processUpdateResponse req failed eventChannel in (fst x, Ok (snd x))))))
       (createPolicyRequest ords channels env states req)"

section \<open>Closing a channel\<close>

record LndCloseRequest =
  lcr_FundingTxid :: string
  lcr_OutputIndex :: uint32
  lcr_Force :: bool
  lcr_TargetConf :: "32 word"
  lcr_SatPerVbyte :: uint64
  lcr_DeliveryAddress :: string

datatype CloseStatusUpdate = ClosePending bytes uint32 | ChanClose bytes bool | OtherCloseUpdate

definition prepareCloseRequest ::
    "channel_orders \<Rightarrow> ChannelState \<Rightarrow> CloseChannelRequest \<Rightarrow> LndCloseRequest result option" where
  "prepareCloseRequest ords channels req =
     (if ccr_NodeId req = 0 then Some (Fails ''Node id is missing'')
      else if ccr_SatPerVbyte req \<noteq> None \<and> ccr_TargetConf req \<noteq> None
      then Some (Fails ''Cannot set both SatPerVbyte and TargetConf'')
      else map_option (\<lambda>settings. Ok
             \<lparr>lcr_FundingTxid = mcs_FundingTransactionHash settings,
              lcr_OutputIndex = word_of_int (mcs_FundingOutputIndex settings),
              lcr_Force = opt (ccr_Force req) False,
              lcr_TargetConf = opt (ccr_TargetConf req) 0,
              lcr_SatPerVbyte = opt (ccr_SatPerVbyte req) 0,
              lcr_DeliveryAddress = opt (ccr_DeliveryAddress req) []\<rparr>)
             (GetChannelSettingByChannelId ords channels (ccr_ChannelId req)))"

definition zeroCloseRequest :: CloseChannelRequest where
  "zeroCloseRequest =
     \<lparr>ccr_NodeId = 0, ccr_ChannelId = 0, ccr_Force = None, ccr_TargetConf = None,
      ccr_DeliveryAddress = None, ccr_SatPerVbyte = None\<rparr>"

definition zeroCloseResponse :: CloseChannelResponse where
  "zeroCloseResponse =
     \<lparr>ccs_ReqId = [], ccs_Request = zeroCloseRequest, ccs_Status = Opening,
      ccs_ClosePendingChannelPoint = \<lparr>cp_TxId = [], cp_OutputIndex = 0\<rparr>,
      ccs_CloseChannelStatus = \<lparr>ccst_ClosingTxId = [], ccst_Success = False\<rparr>\<rparr>"

definition processCloseResponse :: "CloseChannelRequest \<Rightarrow> string \<Rightarrow> CloseStatusUpdate \<Rightarrow> CloseChannelResponse result" where
  "processCloseResponse req reqId resp =
     (case resp of
        ClosePending txid index \<Rightarrow> Ok (zeroCloseResponse
          \<lparr>ccs_ReqId := reqId, ccs_Request := req, ccs_Status := Closing,
           ccs_ClosePendingChannelPoint := \<lparr>cp_TxId = txid, cp_OutputIndex = index\<rparr>\<rparr>)
      | ChanClose txid success \<Rightarrow> Ok (zeroCloseResponse
          \<lparr>ccs_ReqId := reqId, ccs_Request := req, ccs_Status := CooperativeClosed,
           ccs_CloseChannelStatus := \<lparr>ccst_ClosingTxId = txid, ccst_Success = success\<rparr>\<rparr>)
      | OtherCloseUpdate \<Rightarrow> Ok zeroCloseResponse)"

definition closeChannelResp ::
    "(LndCloseRequest \<Rightarrow> CloseStatusUpdate recv list result) \<Rightarrow> LndCloseRequest \<Rightarrow> bool \<Rightarrow>
     CloseChannelRequest \<Rightarrow> string \<Rightarrow> CloseChannelResponse list \<times> go_error option option" where
  "closeChannelResp lndClose closeChanReq eventChannel req reqId =
     (case lndClose closeChanReq of
        Inl e \<Rightarrow> ([], Some (Some e))
      | Inr stream \<Rightarrow> on_channel eventChannel (recv_loop (processCloseResponse req reqId) Error stream))"

definition CloseChannel ::
    "channel_orders \<Rightarrow> ChannelState \<Rightarrow> (int \<Rightarrow> unit result) \<Rightarrow>
     (LndCloseRequest \<Rightarrow> CloseStatusUpdate recv list result) \<Rightarrow> bool \<Rightarrow> CloseChannelRequest \<Rightarrow> string \<Rightarrow>
     CloseChannelResponse list \<times> go_error option option" where
  "CloseChannel ords channels connect lndClose eventChannel req reqId =
     (case connect (ccr_NodeId req) of
        Inl e \<Rightarrow> ([], Some (Some e))
      | Inr u \<Rightarrow>
          (case prepareCloseRequest ords channels req of
             None \<Rightarrow> ([], None)
           | Some (Inl e) \<Rightarrow> ([], Some (Some e))
           | Some (Inr closeChanReq) \<Rightarrow> closeChannelResp lndClose closeChanReq eventChannel req reqId))"

text \<open>The bit size 1 lets only the output indices 0 and 1 through.\<close>

definition convertChannelPoint :: "string \<Rightarrow> (string \<times> uint32) result" where
  "convertChannelPoint chanPointStr =
     (case split_on (CHR '':'') chanPointStr of
        [txid, index] \<Rightarrow>
          (case parse_uint 1 index of
             None \<Rightarrow> Fails ''Parsing channel point output index''
           | Some n \<Rightarrow> Ok (txid, word_of_nat n))
      | _ \<Rightarrow> Fails ''Channel point missing a colon'')"

section \<open>Opening channels\<close>

record LndOpenRequest =
  lor_NodePubkey :: bytes
  lor_LocalFundingAmount :: int64
  lor_PushSat :: int64
  lor_SatPerVbyte :: uint64
  lor_TargetConf :: "32 word"
  lor_Private :: bool
  lor_MinHtlcMsat :: int64
  lor_RemoteCsvDelay :: uint32
  lor_MinConfs :: "32 word"
  lor_SpendUnconfirmed :: bool
  lor_CloseAddress :: string

definition prepareOpenRequest :: "OpenChannelRequest \<Rightarrow> LndOpenRequest result" where
  "prepareOpenRequest req =
     (if ocr_NodeId req = 0 then Fails ''Node id is missing''
      else if ocr_SatPerVbyte req \<noteq> None \<and> ocr_TargetConf req \<noteq> None
      then Fails ''Cannot set both SatPerVbyte and TargetConf''
      else case hex_decode (ocr_NodePubKey req) of
        None \<Rightarrow> Fails ''error decoding public key hex''
      | Some pubKeyHex \<Rightarrow> Ok
          \<lparr>lor_NodePubkey = pubKeyHex, lor_LocalFundingAmount = ocr_LocalFundingAmount req,
           lor_PushSat = opt (ocr_PushSat req) 0, lor_SatPerVbyte = opt (ocr_SatPerVbyte req) 0,
           lor_TargetConf = opt (ocr_TargetConf req) 0, lor_Private = opt (ocr_Private req) False,
           lor_MinHtlcMsat = (case ocr_MinHtlcMsat req of None \<Rightarrow> 0 | Some m \<Rightarrow> m),
           lor_RemoteCsvDelay = opt (ocr_RemoteCsvDelay req) 0,
           lor_MinConfs = opt (ocr_MinConfs req) 0,
           lor_SpendUnconfirmed = opt (ocr_SpendUnconfirmed req) False,
           lor_CloseAddress = opt (ocr_CloseAddress req) []\<rparr>)"

datatype OpenStatusUpdate = ChanPending bytes uint32 | ChanOpen bytes uint32 | PsbtFund | OtherOpenUpdate

text \<open>\<open>chainhash\<close> is the text of a transaction hash, or the error for bytes that are none.\<close>

definition translateChanPoint :: "(bytes \<Rightarrow> string result) \<Rightarrow> bytes \<Rightarrow> uint32 \<Rightarrow> string result" where
  "translateChanPoint chainhash cb oi =
     (case chainhash cb of
        Inl e \<Rightarrow> Inl e
      | Inr ch \<Rightarrow> Ok (ch @ '':'' @ format_uint (unat oi)))"

definition zeroOpenRequest :: OpenChannelRequest where
  "zeroOpenRequest =
     \<lparr>ocr_NodeId = 0, ocr_SatPerVbyte = None, ocr_NodePubKey = [], ocr_Host = None,
      ocr_LocalFundingAmount = 0, ocr_PushSat = None, ocr_TargetConf = None, ocr_Private = None,
      ocr_MinHtlcMsat = None, ocr_RemoteCsvDelay = None, ocr_MinConfs = None,
      ocr_SpendUnconfirmed = None, ocr_CloseAddress = None\<rparr>"

definition zeroOpenResponse :: OpenChannelResponse where
  "zeroOpenResponse =
     \<lparr>ocs_ReqId = [], ocs_Request = zeroOpenRequest, ocs_Status = Opening, ocs_ChannelPoint = [],
      ocs_PendingChannelPoint = []\<rparr>"

definition processOpenResponse ::
    "(bytes \<Rightarrow> string result) \<Rightarrow> OpenChannelRequest \<Rightarrow> string \<Rightarrow> OpenStatusUpdate \<Rightarrow> OpenChannelResponse result" where
  "processOpenResponse chainhash req reqId resp =
     (case resp of
        ChanPending txid index \<Rightarrow>
          (case translateChanPoint chainhash txid index of
             Inl e \<Rightarrow> Inl e
           | Inr pcp \<Rightarrow> Ok \<lparr>ocs_ReqId = reqId, ocs_Request = req, ocs_Status = Opening,
                            ocs_ChannelPoint = [], ocs_PendingChannelPoint = pcp\<rparr>)
      | ChanOpen txid index \<Rightarrow>
          (case translateChanPoint chainhash txid index of
             Inl e \<Rightarrow> Inl e
           | Inr ocp \<Rightarrow> Ok \<lparr>ocs_ReqId = reqId, ocs_Request = req, ocs_Status = Open,
                            ocs_ChannelPoint = ocp, ocs_PendingChannelPoint = []\<rparr>)
      | PsbtFund \<Rightarrow> Fails ''Channel psbt fund response received''
      | OtherOpenUpdate \<Rightarrow> Ok zeroOpenResponse)"

record ConnectPeerRequest =
  cpr_NodeId :: int
  cpr_PubKey :: string
  cpr_Host :: string
  cpr_Perm :: "bool option"
  cpr_TimeOut :: "uint64 option"

record LndConnectRequest =
  lcn_Pubkey :: string
  lcn_Host :: string
  lcn_Perm :: bool
  lcn_Timeout :: uint64

definition processConnectRequest :: "ConnectPeerRequest \<Rightarrow> LndConnectRequest result" where
  "processConnectRequest req =
     (if cpr_PubKey req = [] \<or> cpr_Host req = [] then Fails ''Both LND Address and host must be provided''
      else Ok \<lparr>lcn_Pubkey = cpr_PubKey req, lcn_Host = cpr_Host req,
               lcn_Perm = opt (cpr_Perm req) False, lcn_Timeout = opt (cpr_TimeOut req) 30\<rparr>)"

definition ConnectPeer :: "(LndConnectRequest \<Rightarrow> go_error option) \<Rightarrow> ConnectPeerRequest \<Rightarrow> string result" where
  "ConnectPeer lndConnect req =
     (case processConnectRequest req of
        Inl e \<Rightarrow> Inl e
      | Inr r \<Rightarrow>
          (case lndConnect r of
             None \<Rightarrow> Ok ''Peer connected''
           | Some e \<Rightarrow> if contains (error_text e) ''already connected'' then Ok ''Peer already connected''
                       else Inl e))"

text \<open>\<open>peers\<close> are the public keys of the connected peers, or the error of listing them.\<close>

definition checkConnectPeer ::
    "string list result \<Rightarrow> (LndConnectRequest \<Rightarrow> go_error option) \<Rightarrow> int \<Rightarrow> string \<Rightarrow> string \<Rightarrow> go_error option" where
  "checkConnectPeer peers lndConnect nodeId remotePubkey host =
     (case peers of
        Inl e \<Rightarrow> Some e
      | Inr peerList \<Rightarrow>
          if list_ex (\<lambda>pubKey. pubKey = remotePubkey) peerList then None
          else (case ConnectPeer lndConnect
                       \<lparr>cpr_NodeId = nodeId, cpr_PubKey = remotePubkey, cpr_Host = host,
                        cpr_Perm = None, cpr_TimeOut = None\<rparr> of
                  Inl e \<Rightarrow> Some e
                | Inr r \<Rightarrow> None))"

definition OpenChannel ::
    "(bytes \<Rightarrow> string result) \<Rightarrow> (int \<Rightarrow> unit result) \<Rightarrow> string list result \<Rightarrow>
     (LndConnectRequest \<Rightarrow> go_error option) \<Rightarrow> (LndOpenRequest \<Rightarrow> OpenStatusUpdate recv list result) \<Rightarrow>
     bool \<Rightarrow> OpenChannelRequest \<Rightarrow> string \<Rightarrow> OpenChannelResponse list \<times> go_error option option" where
  "OpenChannel chainhash connect peers lndConnect lndOpen eventChannel req reqId =
     (case prepareOpenRequest req of
        Inl e \<Rightarrow> ([], Some (Some e))
      | Inr openChanReq \<Rightarrow>
          (case connect (ocr_NodeId req) of
             Inl e \<Rightarrow> ([], Some (Some e))
           | Inr u \<Rightarrow>
               (case (if ocr_NodePubKey req \<noteq> [] \<and> ocr_Host req \<noteq> None
                      then checkConnectPeer peers lndConnect (ocr_NodeId req) (ocr_NodePubKey req)
                             (opt (ocr_Host req) [])
                      else None) of
                  Some e \<Rightarrow> ([], Some (Some e))
                | None \<Rightarrow>
                    (case lndOpen openChanReq of
                       Inl e \<Rightarrow> ([], Some (Some e))
                     | Inr stream \<Rightarrow>
                         on_channel eventChannel
                           (recv_loop (processOpenResponse chainhash req reqId) Error stream)))))"

section \<open>Opening several channels\<close>

record LndBatchChannel =
  lbc_NodePubkey :: bytes
  lbc_LocalFundingAmount :: int64
  lbc_Private :: bool
  lbc_MinHtlcMsat :: int64
  lbc_PushSat :: int64

record LndBatchRequest =
  lbr_Channels :: "LndBatchChannel list"
  lbr_SatPerVbyte :: int64
  lbr_TargetConf :: "32 word"

definition lndBatchChannel :: "bytes \<Rightarrow> BatchOpenChannel \<Rightarrow> LndBatchChannel" where
  "lndBatchChannel pubKeyHex c =
     \<lparr>lbc_NodePubkey = pubKeyHex, lbc_LocalFundingAmount = boc_LocalFundingAmount c,
      lbc_Private = opt (boc_Private c) False,
      lbc_MinHtlcMsat = (case boc_MinHtlcMsat c of None \<Rightarrow> 0 | Some m \<Rightarrow> m),
      lbc_PushSat = opt (boc_PushSat c) 0\<rparr>"

fun batch_channels :: "BatchOpenChannel list \<Rightarrow> LndBatchChannel list result" where
  "batch_channels [] = Ok []"
| "batch_channels (c # cs) =
     (case hex_decode (boc_NodePubkey c) of
        None \<Rightarrow> Fails ''Hex decode string''
      | Some pubKeyHex \<Rightarrow>
          if boc_LocalFundingAmount c = 0 then Fails ''Local funding amount 0''
          else (case batch_channels cs of
                  Inl e \<Rightarrow> Inl e
                | Inr rest \<Rightarrow> Ok (lndBatchChannel pubKeyHex c # rest)))"

definition checkPrepareReq :: "BatchOpenRequest \<Rightarrow> LndBatchRequest result" where
  "checkPrepareReq req =
     (if bor_NodeId req = 0 then Fails ''Node id is missing''
      else if length (bor_Channels req) = 0 then Fails ''Channels array is empty''
      else if bor_TargetConf req \<noteq> None \<and> bor_SatPerVbyte req \<noteq> None
      then Fails ''Either targetConf or satPerVbyte accepted''
      else case batch_channels (bor_Channels req) of
        Inl e \<Rightarrow> Inl e
      | Inr channels \<Rightarrow> Ok
          \<lparr>lbr_Channels = channels, lbr_SatPerVbyte = opt (bor_SatPerVbyte req) 0,
           lbr_TargetConf = opt (bor_TargetConf req) 0\<rparr>)"

fun pending_channels :: "(bytes \<Rightarrow> string result) \<Rightarrow> (bytes \<times> uint32) list \<Rightarrow> PendingChannel list result" where
  "pending_channels chainhash [] = Ok []"
| "pending_channels chainhash ((txid, index) # rest) =
     (case translateChanPoint chainhash txid index of
        Inl e \<Rightarrow> Inl e
      | Inr chanPoint \<Rightarrow>
          (case pending_channels chainhash rest of
             Inl e \<Rightarrow> Inl e
           | Inr ps \<Rightarrow> Ok (\<lparr>pch_PendingChannelPoint = chanPoint\<rparr> # ps)))"

definition processBocResponse ::
    "(bytes \<Rightarrow> string result) \<Rightarrow> (bytes \<times> uint32) list \<Rightarrow> BatchOpenResponse result" where
  "processBocResponse chainhash pending =
     map_sum id (\<lambda>ps. \<lparr>bos_PendingChannels = ps\<rparr>) (pending_channels chainhash pending)"

definition batchOpenChannels ::
    "(bytes \<Rightarrow> string result) \<Rightarrow> (int \<Rightarrow> unit result) \<Rightarrow> (LndBatchRequest \<Rightarrow> (bytes \<times> uint32) list result) \<Rightarrow>
     BatchOpenRequest \<Rightarrow> BatchOpenResponse result" where
  "batchOpenChannels chainhash connect lndBatch req =
     (case checkPrepareReq req of
        Inl e \<Rightarrow> Inl e
      | Inr batchReq \<Rightarrow>
          (case connect (bor_NodeId req) of
             Inl e \<Rightarrow> Inl e
           | Inr u \<Rightarrow>
               (case lndBatch batchReq of
                  Inl e \<Rightarrow> Inl e
                | Inr pending \<Rightarrow> processBocResponse chainhash pending)))"

section \<open>Pending HTLCs of a channel\<close>

record PendingHtlcs =
  ph_ForwardingCount :: int
  ph_ForwardingAmount :: int64
  ph_LocalCount :: int
  ph_LocalAmount :: int64
  ph_TotalCount :: int
  ph_TotalAmount :: int64

fun count_htlcs :: "Htlc list \<Rightarrow> PendingHtlcs \<Rightarrow> PendingHtlcs" where
  "count_htlcs [] p = p"
| "count_htlcs (h # hs) p =
     count_htlcs hs
       (if htlc_ForwardingHtlcIndex h = 0
        then p\<lparr>ph_LocalCount := ph_LocalCount p + 1, ph_LocalAmount := ph_LocalAmount p + htlc_Amount h\<rparr>
        else p\<lparr>ph_ForwardingCount := ph_ForwardingCount p + 1,
               ph_ForwardingAmount := ph_ForwardingAmount p + htlc_Amount h\<rparr>)"

definition calculateHTLCs :: "Htlc list \<Rightarrow> PendingHtlcs" where
  "calculateHTLCs htlcs =
     (let zero = \<lparr>ph_ForwardingCount = 0, ph_ForwardingAmount = 0, ph_LocalCount = 0, ph_LocalAmount = 0,
                  ph_TotalCount = 0, ph_TotalAmount = 0\<rparr>
      in if length htlcs < 1 then zero
         else let p = count_htlcs htlcs zero
              in p\<lparr>ph_TotalAmount := ph_ForwardingAmount p + ph_LocalAmount p,
                   ph_TotalCount := ph_ForwardingCount p + ph_LocalCount p\<rparr>)"

section \<open>What a policy update asks of LND\<close>

lemma delta_at_least: "18 \<le> (if (delta :: uint32) < 18 then 18 else delta)"
  by (simp add: not_less)

lemma policy_message_ok:
  assumes "policy_message scope timeLockDelta req = Ok p"
  shows "18 \<le> pur_TimeLockDelta p" and "pur_Scope p = scope"
    and "pur_FeeRatePpm p = (case ucr_FeeRateMilliMsat req of None \<Rightarrow> 0 | Some rate \<Rightarrow> ucast rate)"
    and "pur_MinHtlcMsatSpecified p = (ucr_MinHtlcMsat req \<noteq> None)"
proof -
  from assms obtain delta where "timeLockDelta = Some delta"
    by (cases timeLockDelta) (simp_all add: policy_message_def)
  with assms have p: "p = \<lparr>pur_Scope = scope,
     pur_BaseFeeMsat = (case ucr_FeeBaseMsat req of None \<Rightarrow> 0 | Some fee \<Rightarrow> fee),
     pur_FeeRatePpm = (case ucr_FeeRateMilliMsat req of None \<Rightarrow> 0 | Some rate \<Rightarrow> ucast rate),
     pur_TimeLockDelta = (if delta < 18 then 18 else delta),
     pur_MaxHtlcMsat = opt (ucr_MaxHtlcMsat req) 0,
     pur_MinHtlcMsat = opt (ucr_MinHtlcMsat req) 0,
     pur_MinHtlcMsatSpecified = (ucr_MinHtlcMsat req \<noteq> None)\<rparr>"
    by (simp add: policy_message_def)
  show "18 \<le> pur_TimeLockDelta p" unfolding p using delta_at_least by simp
  show "pur_Scope p = scope"
    "pur_FeeRatePpm p = (case ucr_FeeRateMilliMsat req of None \<Rightarrow> 0 | Some rate \<Rightarrow> ucast rate)"
    "pur_MinHtlcMsatSpecified p = (ucr_MinHtlcMsat req \<noteq> None)"
    unfolding p by simp_all
qed

lemma createPolicyRequest_cases:
  assumes "createPolicyRequest ords channels env states req = Some (Ok p)"
  obtains scope delta where "policy_message scope delta req = Ok p" and "ucr_NodeId req \<noteq> 0"
    and "scope = Global \<longleftrightarrow> opt (ucr_ChannelId req) 0 = 0"
  using assms
  by (auto simp: createPolicyRequest_def processChannelPoint_def Let_def opt_def
      split: if_splits option.splits)

section \<open>What the streams of an open and a close report\<close>

interpretation closing: stream_client "processCloseResponse req reqId" Error
    "\<lambda>stream. closeChannelResp (\<lambda>r. Ok stream) closeChanReq True req reqId" for req reqId closeChanReq
  by unfold_locales (simp add: closeChannelResp_def on_channel_def)

definition close_event :: "CloseChannelRequest \<Rightarrow> string \<Rightarrow> CloseStatusUpdate \<Rightarrow> CloseChannelResponse" where
  "close_event req reqId m = (case processCloseResponse req reqId m of Inr x \<Rightarrow> x | Inl e \<Rightarrow> zeroCloseResponse)"

lemma processCloseResponse_total: "processCloseResponse req reqId m = Ok (close_event req reqId m)"
  by (cases m) (simp_all add: close_event_def processCloseResponse_def)

lemma closing_processed:
  "list_all2 (\<lambda>m x. processCloseResponse req reqId m = Ok x) ms (map (close_event req reqId) ms)"
  by (induction ms) (simp_all add: processCloseResponse_total)

lemma opening_ready:
  assumes "prepareOpenRequest req = Ok r" and "connect (ocr_NodeId req) = Ok ()"
    and "ocr_Host req = None" and "lndOpen r = Ok stream"
  shows "OpenChannel chainhash connect peers lndConnect lndOpen True req reqId
           = recv_loop (processOpenResponse chainhash req reqId) Error stream"
  using assms by (simp add: OpenChannel_def on_channel_def)

interpretation open_stream: stream_client "processOpenResponse chainhash req reqId" Error
    "\<lambda>stream. on_channel True (recv_loop (processOpenResponse chainhash req reqId) Error stream)"
    for chainhash req reqId
  by unfold_locales (simp add: on_channel_def)

text \<open>
  C13: A policy update that is sent to LND always carries a time lock delta of at least 18 blocks,
  addresses all channels exactly when the request names no channel (or channel 0), and says that a
  minimum HTLC is given exactly when the request gives one.  The fee rate is the request's rate
  reduced to 32 bits.
\<close>
theorem policy_update_sent:
  assumes "createPolicyRequest ords channels env states req = Some (Ok p)"
  shows "18 \<le> pur_TimeLockDelta p
     \<and> (pur_Scope p = Global \<longleftrightarrow> opt (ucr_ChannelId req) 0 = 0)
     \<and> pur_MinHtlcMsatSpecified p = (ucr_MinHtlcMsat req \<noteq> None)
     \<and> pur_FeeRatePpm p = (case ucr_FeeRateMilliMsat req of None \<Rightarrow> 0 | Some rate \<Rightarrow> ucast rate)"
  using assms by (elim createPolicyRequest_cases) (simp add: policy_message_ok)

text \<open>
  A close that reaches LND sends one event for each status update of the stream, in order, and
  returns without error when the stream ends and with the stream's error when it fails.
\<close>
lemma close_reports_each_update:
  assumes "connect (ccr_NodeId req) = Ok ()"
    and "prepareCloseRequest ords channels req = Some (Ok r)"
    and "lndClose r = Ok (map Msg ms @ final # rest)"
    and "final = EndOfStream \<and> e = None \<or> final = RecvFails t \<and> e = Some (Error t)"
  shows "CloseChannel ords channels connect lndClose True req reqId = (map (close_event req reqId) ms, Some e)"
  using assms closing.all_processed [OF closing_processed [of req reqId ms]]
  by (auto simp: CloseChannel_def closeChannelResp_def)

definition batchable :: "BatchOpenChannel \<Rightarrow> bool" where
  "batchable c = (hex_decode (boc_NodePubkey c) \<noteq> None \<and> boc_LocalFundingAmount c \<noteq> 0)"

definition asBatchChannel :: "BatchOpenChannel \<Rightarrow> LndBatchChannel" where
  "asBatchChannel c = lndBatchChannel (the (hex_decode (boc_NodePubkey c))) c"

lemma batch_channels_ok:
  "batch_channels cs = Ok bs \<longleftrightarrow> list_all batchable cs \<and> bs = map asBatchChannel cs"
proof (induction cs arbitrary: bs)
  case (Cons c cs)
  show ?case
  proof (cases "batch_channels cs")
    case (Inl e)
    with Cons show ?thesis by (auto simp: batchable_def split: option.splits)
  next
    case (Inr rest)
    with Cons have "list_all batchable cs" "rest = map asBatchChannel cs" by auto
    with Inr show ?thesis
      by (auto simp: batchable_def [of c] asBatchChannel_def [of c] split: option.splits)
  qed
qed auto

text \<open>
  C14: A batch open is sent to LND exactly when it names a node, at least one channel, not both
  ways of setting the fee, and every channel has a hexadecimal public key and a non-zero funding
  amount; LND is then asked for the same channels in the same order.
\<close>
theorem batch_request_accepted:
  "(checkPrepareReq req = Ok r) =
     (bor_NodeId req \<noteq> 0 \<and> bor_Channels req \<noteq> []
      \<and> (bor_TargetConf req = None \<or> bor_SatPerVbyte req = None)
      \<and> list_all batchable (bor_Channels req)
      \<and> r = \<lparr>lbr_Channels = map asBatchChannel (bor_Channels req),
              lbr_SatPerVbyte = opt (bor_SatPerVbyte req) 0, lbr_TargetConf = opt (bor_TargetConf req) 0\<rparr>)"
proof (cases "batch_channels (bor_Channels req)")
  case (Inl e)
  then have "\<not> list_all batchable (bor_Channels req)"
    using batch_channels_ok [of "bor_Channels req" "map asBatchChannel (bor_Channels req)"] by auto
  with Inl show ?thesis by (auto simp: checkPrepareReq_def)
next
  case (Inr bs)
  then have "list_all batchable (bor_Channels req)" "bs = map asBatchChannel (bor_Channels req)"
    using batch_channels_ok by auto
  with Inr show ?thesis by (auto simp: checkPrepareReq_def)
qed

text \<open>A public key that was printed from bytes reaches LND as the same bytes.\<close>

lemma open_request_pubkey:
  assumes "prepareOpenRequest req = Ok r" and "ocr_NodePubKey req = hex_encode bs"
  shows "lor_NodePubkey r = bs"
  using assms by (auto simp: prepareOpenRequest_def hex_decode_encode split: if_splits)

text \<open>
  A channel that is being opened reports each status update up to the first one that asks
  for a PSBT, which ends the request with an error whatever the stream still holds.
\<close>
lemma open_stops_at_psbt:
  assumes "prepareOpenRequest req = Ok r" and "connect (ocr_NodeId req) = Ok ()"
    and "ocr_Host req = None" and "lndOpen r = Ok (map Msg ms @ Msg PsbtFund # rest)"
    and "list_all2 (\<lambda>m x. processOpenResponse chainhash req reqId m = Ok x) ms xs"
  shows "OpenChannel chainhash connect peers lndConnect lndOpen True req reqId
           = (xs, Some (Some (Error ''Channel psbt fund response received'')))"
proof -
  have "processOpenResponse chainhash req reqId PsbtFund = Fails ''Channel psbt fund response received''"
    by (simp add: processOpenResponse_def)
  from open_stream.first_unprocessable [OF assms(5) this] show ?thesis
    using opening_ready [of req r connect lndOpen, OF assms(1-4)] by (simp add: on_channel_def)
qed

section \<open>The pending HTLC summary\<close>

lemma count_htlcs_sums:
  "ph_ForwardingCount (count_htlcs hs p) + ph_LocalCount (count_htlcs hs p)
     = ph_ForwardingCount p + ph_LocalCount p + int (length hs)"
  "ph_ForwardingAmount (count_htlcs hs p) + ph_LocalAmount (count_htlcs hs p)
     = ph_ForwardingAmount p + ph_LocalAmount p + sum_list (map htlc_Amount hs)"
  by (induction hs arbitrary: p) simp_all

lemma calculateHTLCs_totals:
  "ph_TotalCount (calculateHTLCs hs) = int (length hs)
     \<and> ph_TotalAmount (calculateHTLCs hs) = sum_list (map htlc_Amount hs)
     \<and> ph_TotalCount (calculateHTLCs hs)
          = ph_ForwardingCount (calculateHTLCs hs) + ph_LocalCount (calculateHTLCs hs)"
  by (cases hs) (simp_all add: calculateHTLCs_def Let_def count_htlcs_sums)

section \<open>Witnesses\<close>

definition sample_update :: UpdateChannelRequest where
  "sample_update = \<lparr>ucr_NodeId = 1, ucr_ChannelId = None, ucr_FeeRateMilliMsat = Some 250,
     ucr_FeeBaseMsat = None, ucr_MaxHtlcMsat = None, ucr_MinHtlcMsat = None, ucr_TimeLockDelta = Some 6\<rparr>"

definition sample_policy :: PolicyUpdateRequest where
  "sample_policy = \<lparr>pur_Scope = Global, pur_BaseFeeMsat = 0, pur_FeeRatePpm = 250, pur_TimeLockDelta = 18,
     pur_MaxHtlcMsat = 0, pur_MinHtlcMsat = 0, pur_MinHtlcMsatSpecified = False\<rparr>"

theorem policy_update_sent_witness:
  "18 \<le> pur_TimeLockDelta sample_policy \<and> pur_Scope sample_policy = Global"
proof -
  have "createPolicyRequest ords channels env states sample_update = Some (Ok sample_policy)"
    for ords :: channel_orders and channels :: ChannelState and env :: StateEnv and states :: StateCache
    by (simp add: createPolicyRequest_def policy_message_def sample_update_def sample_policy_def)
  from policy_update_sent [OF this] show ?thesis by (simp add: sample_update_def)
qed

definition sample_open :: OpenChannelRequest where
  "sample_open = zeroOpenRequest\<lparr>ocr_NodeId := 1, ocr_NodePubKey := ''02ff''\<rparr>"

lemma open_stops_at_psbt_witness:
  "\<exists>x. OpenChannel (\<lambda>b. Ok ''aa'') (\<lambda>n. Ok ()) (Ok []) (\<lambda>r. None)
        (\<lambda>r. Ok (map Msg [ChanPending [] 1] @ Msg PsbtFund # [EndOfStream])) True sample_open ''q''
      = ([x], Some (Some (Error ''Channel psbt fund response received'')))"
proof -
  obtain r where r: "prepareOpenRequest sample_open = Ok r"
    by (simp add: prepareOpenRequest_def sample_open_def zeroOpenRequest_def hex_val_def)
  obtain x where "processOpenResponse (\<lambda>b. Ok ''aa'') sample_open ''q'' (ChanPending [] 1) = Ok x"
    by (simp add: processOpenResponse_def translateChanPoint_def)
  then have "list_all2 (\<lambda>m x. processOpenResponse (\<lambda>b. Ok ''aa'') sample_open ''q'' m = Ok x)
      [ChanPending [] 1] [x]" by simp
  from open_stops_at_psbt [OF r _ _ _ this] show ?thesis
    by (intro exI) (simp add: sample_open_def zeroOpenRequest_def)
qed

definition sample_close :: CloseChannelRequest where
  "sample_close = zeroCloseRequest\<lparr>ccr_NodeId := 1, ccr_ChannelId := 7, ccr_TargetConf := Some 6\<rparr>"

lemma close_reports_each_update_witness:
  "CloseChannel (id, id) emptyChannelState (\<lambda>n. Ok ())
      (\<lambda>r. Ok (map Msg [ClosePending [1] 0, ChanClose [1] True] @ EndOfStream # [])) True sample_close ''q''
     = (map (close_event sample_close ''q'') [ClosePending [1] 0, ChanClose [1] True], Some None)"
proof -
  obtain r where "prepareCloseRequest (id, id) emptyChannelState sample_close = Some (Ok r)"
    by (simp add: prepareCloseRequest_def sample_close_def zeroCloseRequest_def channel_reads)
  then show ?thesis
    by (intro close_reports_each_update [where final = EndOfStream and e = None]) simp_all
qed

end
