(* ===== verification/Payments.thy ===== *)
theory Payments
  imports GoText Functions Events
begin

text \<open>
  Payments, invoices and addresses that are requested from LND: \<open>src/internal/payments/new_payment.go\<close>,
  \<open>src/internal/invoices/new_invoice.go\<close>, \<open>src/internal/on_chain_tx/send_coins.go\<close> and
  \<open>src/internal/on_chain_tx/new_address.go\<close>.  LND is a parameter: whether a connection is obtained,
  and what it answers; the values of its enumerations are their texts.
\<close>

section \<open>Paying an invoice\<close>

record LndSendPayment =
  lsp_TimeoutSeconds :: "32 word"
  lsp_PaymentRequest :: string
  lsp_FeeLimitMsat :: int64
  lsp_AmtMsat :: int64
  lsp_AllowSelfPayment :: bool

definition newSendPaymentRequest :: "NewPaymentRequest \<Rightarrow> LndSendPayment result" where
  "newSendPaymentRequest npReq = Ok
     \<lparr>lsp_TimeoutSeconds = npr_TimeOutSecs npReq,
      lsp_PaymentRequest = (case npr_Invoice npReq of None \<Rightarrow> [] | Some i \<Rightarrow> i),
      lsp_FeeLimitMsat =
        (case npr_FeeLimitMsat npReq of Some m \<Rightarrow> if m \<noteq> 0 then m else 0 | None \<Rightarrow> 0),
      lsp_AmtMsat = (case npr_AmtMSat npReq of None \<Rightarrow> 0 | Some m \<Rightarrow> m),
      lsp_AllowSelfPayment = (case npr_AllowSelfPayment npReq of None \<Rightarrow> False | Some b \<Rightarrow> b)\<rparr>"

text \<open>What a client is told of an error of the payment stream.\<close>

definition payment_error :: "string \<Rightarrow> go_error" where
  "payment_error t =
     (if contains t ''AlreadyExists'' then Error ''ALREADY_PAID''
      else if contains t ''UnknownPaymentHash'' then Error ''INVALID_HASH''
      else if contains t ''InvalidPaymentRequest'' then Error ''INVALID_PAYMENT_REQUEST''
      else if contains t ''checksum failed'' then Error ''CHECKSUM_FAILED''
      else if contains t ''amount must be specified when paying a zero amount invoice''
      then Error ''AMOUNT_REQUIRED''
      else if contains t ''amount must not be specified when paying a non-zero  amount invoice''
      then Error ''AMOUNT_NOT_ALLOWED''
      else Error ''UNKNOWN_ERROR'')"

record LndHop =
  lh_ChanId :: uint64
  lh_AmtToForwardMsat :: int64
  lh_Expiry :: uint32
  lh_PubKey :: string
  lh_MppRecord :: "(int64 \<times> byte list) option" \<comment> \<open>the total amount and the payment address\<close>

record LndFailure =
  lf_Code :: string
  lf_FailureSourceIndex :: uint32
  lf_Height :: uint32

record LndHtlcAttempt =
  la_AttemptId :: uint64
  la_Status :: string
  la_AttemptTimeNs :: int64
  la_ResolveTimeNs :: int64
  la_Preimage :: "byte list"
  la_Failure :: "LndFailure option"
  la_Hops :: "LndHop list"
  la_TotalTimeLock :: uint32
  la_TotalAmtMsat :: int64

record LndPayment =
  lp_Status :: string
  lp_PaymentHash :: string
  lp_PaymentPreimage :: string
  lp_ValueMsat :: int64
  lp_CreationTimeNs :: int64
  lp_FailureReason :: string
  lp_FeeMsat :: int64
  lp_Htlcs :: "LndHtlcAttempt list"

record Attempt =
  att_AttemptId :: uint64
  att_Status :: string
  att_Route :: Route
  att_AttemptTimeNs :: time
  att_ResolveTimeNs :: time
  att_Preimage :: string
  att_Failure :: FailureDetails

record NewPaymentResponse =
  nps_ReqId :: string
  nps_Request :: NewPaymentRequest
  nps_Status :: string
  nps_FailureReason :: string
  nps_Hash :: string
  nps_Preimage :: string
  nps_PaymentRequest :: string
  nps_AmountMsat :: int64
  nps_FeeLimitMsat :: int64
  nps_FeePaidMsat :: int64
  nps_CreationDate :: time
  nps_Attempt :: Attempt

text \<open>\<open>zero_time\<close> is the instant of Go's zero \<open>time.Time\<close>.\<close>

definition zeroAttempt :: "time \<Rightarrow> Attempt" where
  "zeroAttempt zero_time =
     \<lparr>att_AttemptId = 0, att_Status = [],
      att_Route = \<lparr>rt_TotalTimeLock = 0, rt_Hops = [], rt_TotalAmtMsat = 0\<rparr>,
      att_AttemptTimeNs = zero_time, att_ResolveTimeNs = zero_time, att_Preimage = [],
      att_Failure = \<lparr>fd_Reason = [], fd_FailureSourceIndex = 0, fd_Height = 0\<rparr>\<rparr>"

definition payment_hop :: "LndHop \<Rightarrow> Hops" where
  "payment_hop hop =
     \<lparr>hop_ChanId = ConvertLNDShortChannelID (lh_ChanId hop), hop_Expiry = lh_Expiry hop,
      hop_AmtToForwardMsat = lh_AmtToForwardMsat hop, hop_PubKey = lh_PubKey hop,
      hop_MppRecord =
        (case lh_MppRecord hop of
           None \<Rightarrow> \<lparr>mpp_PaymentAddr = [], mpp_TotalAmtMsat = 0\<rparr>
         | Some (totalAmt, addr) \<Rightarrow> \<lparr>mpp_PaymentAddr = hex_encode addr, mpp_TotalAmtMsat = totalAmt\<rparr>)\<rparr>"

fun add_hops :: "LndHop list \<Rightarrow> Route \<Rightarrow> Route" where
  "add_hops [] route = route"
| "add_hops (hop # hops) route = add_hops hops (route\<lparr>rt_Hops := rt_Hops route @ [payment_hop hop]\<rparr>)"

definition add_attempt :: "LndHtlcAttempt \<Rightarrow> Attempt \<Rightarrow> Attempt" where
  "add_attempt attempt a =
     (let a1 = a\<lparr>att_AttemptId := la_AttemptId attempt, att_Status := la_Status attempt,
                 att_AttemptTimeNs := sint (la_AttemptTimeNs attempt),
                 att_ResolveTimeNs := sint (la_ResolveTimeNs attempt),
                 att_Preimage := hex_encode (la_Preimage attempt)\<rparr>;
          a2 = (case la_Failure attempt of
                  None \<Rightarrow> a1
                | Some f \<Rightarrow> a1\<lparr>att_Failure := \<lparr>fd_Reason = lf_Code f,
                                  fd_FailureSourceIndex = lf_FailureSourceIndex f, fd_Height = lf_Height f\<rparr>\<rparr>);
          route = add_hops (la_Hops attempt) (att_Route a2)
      in a2\<lparr>att_Route := route\<lparr>rt_TotalTimeLock := la_TotalTimeLock attempt,
                               rt_TotalAmtMsat := la_TotalAmtMsat attempt\<rparr>\<rparr>)"

fun add_attempts :: "LndHtlcAttempt list \<Rightarrow> Attempt \<Rightarrow> Attempt" where
  "add_attempts [] a = a"
| "add_attempts (h # hs) a = add_attempts hs (add_attempt h a)"

definition processPaymentResponse :: "time \<Rightarrow> LndPayment \<Rightarrow> NewPaymentRequest \<Rightarrow> string \<Rightarrow> NewPaymentResponse" where
  "processPaymentResponse zero_time p req reqId =
     \<lparr>nps_ReqId = reqId, nps_Request = req, nps_Status = lp_Status p,
      nps_FailureReason = lp_FailureReason p, nps_Hash = lp_PaymentHash p,
      nps_Preimage = lp_PaymentPreimage p, nps_PaymentRequest = [], nps_AmountMsat = lp_ValueMsat p,
      nps_FeeLimitMsat = 0, nps_FeePaidMsat = lp_FeeMsat p,
      nps_CreationDate = sint (lp_CreationTimeNs p),
      nps_Attempt = add_attempts (lp_Htlcs p) (zeroAttempt zero_time)\<rparr>"

definition sendPayment ::
    "time \<Rightarrow> (LndSendPayment \<Rightarrow> LndPayment recv list result) \<Rightarrow> NewPaymentRequest \<Rightarrow> bool \<Rightarrow> string \<Rightarrow>
     NewPaymentResponse list \<times> go_error option option" where
  "sendPayment zero_time SendPaymentV2 npReq eventChannel reqId =
     (case newSendPaymentRequest npReq of
        Inl e \<Rightarrow> ([], Some (Some e))
      | Inr newPayReq \<Rightarrow>
          (case SendPaymentV2 newPayReq of
             Inl e \<Rightarrow> ([], Some (Some e))
           | Inr stream \<Rightarrow> on_channel eventChannel
               (recv_loop (\<lambda>p. Ok (processPaymentResponse zero_time p npReq reqId)) payment_error stream)))"

definition SendNewPayment ::
    "time \<Rightarrow> (int \<Rightarrow> unit result) \<Rightarrow> (LndSendPayment \<Rightarrow> LndPayment recv list result) \<Rightarrow> NewPaymentRequest \<Rightarrow>
     bool \<Rightarrow> string \<Rightarrow> NewPaymentResponse list \<times> go_error option option" where
  "SendNewPayment zero_time connect SendPaymentV2 npReq eventChannel reqId =
     (if npr_NodeId npReq = 0 then ([], Some (Some (Error ''Node id is missing'')))
      else case connect (npr_NodeId npReq) of
             Inl e \<Rightarrow> ([], Some (Some e))
           | Inr u \<Rightarrow> sendPayment zero_time SendPaymentV2 npReq eventChannel reqId)"

section \<open>Invoices\<close>

record newInvoiceRequest =
  nir_NodeId :: int
  nir_Memo :: "string option"
  nir_RPreImage :: "string option"
  nir_ValueMsat :: "int64 option"
  nir_Expiry :: "int64 option"
  nir_FallBackAddress :: "string option"
  nir_Private :: "bool option"
  nir_IsAmp :: "bool option"

record newInvoiceResponse =
  nis_NodeId :: int
  nis_PaymentRequest :: string
  nis_AddIndex :: uint64
  nis_PaymentAddress :: string

record LndInvoice =
  li_Memo :: string
  li_RPreimage :: "byte list"
  li_ValueMsat :: int64
  li_Expiry :: int64
  li_FallbackAddr :: string
  li_Private :: bool
  li_IsAmp :: bool

definition processInvoiceReq :: "newInvoiceRequest \<Rightarrow> LndInvoice result" where
  "processInvoiceReq req =
     (if nir_NodeId req = 0 then Fails ''Node id is missing''
      else case (case nir_RPreImage req of
                   None \<Rightarrow> Some []
                 | Some p \<Rightarrow> hex_decode p) of
             None \<Rightarrow> Fails ''error decoding preimage''
           | Some rPreImage \<Rightarrow> Ok
               \<lparr>li_Memo = opt (nir_Memo req) [], li_RPreimage = rPreImage,
                li_ValueMsat = opt (nir_ValueMsat req) 0, li_Expiry = opt (nir_Expiry req) 0,
                li_FallbackAddr = opt (nir_FallBackAddress req) [],
                li_Private = opt (nir_Private req) False, li_IsAmp = opt (nir_IsAmp req) False\<rparr>)"

text \<open>\<open>AddInvoice\<close> answers the payment request, the add index and the payment address.\<close>

definition newInvoice ::
    "(int \<Rightarrow> unit result) \<Rightarrow> (LndInvoice \<Rightarrow> (string \<times> uint64 \<times> byte list) result) \<Rightarrow> newInvoiceRequest \<Rightarrow>
     newInvoiceResponse result" where
  "newInvoice connect AddInvoice req =
     (case processInvoiceReq req of
        Inl e \<Rightarrow> Inl e
      | Inr newInvoiceReq \<Rightarrow>
          (case connect (nir_NodeId req) of
             Inl e \<Rightarrow> Inl e
           | Inr u \<Rightarrow>
               (case AddInvoice newInvoiceReq of
                  Inl e \<Rightarrow> Inl e
                | Inr (paymentRequest, addIndex, paymentAddr) \<Rightarrow> Ok
                    \<lparr>nis_NodeId = nir_NodeId req, nis_PaymentRequest = paymentRequest,
                     nis_AddIndex = addIndex, nis_PaymentAddress = hex_encode paymentAddr\<rparr>)))"

section \<open>On-chain payments and addresses\<close>

record LndSendCoins =
  lsc_Addr :: string
  lsc_Amount :: int64
  lsc_TargetConf :: "32 word"
  lsc_SatPerVbyte :: uint64
  lsc_SendAll :: bool
  lsc_Label :: string
  lsc_MinConfs :: "32 word"
  lsc_SpendUnconfirmed :: bool

definition processSendRequest :: "PayOnChainRequest \<Rightarrow> LndSendCoins result" where
  "processSendRequest req =
     (if poc_NodeId req = 0 then Fails ''Node id is missing''
      else if poc_Address req = [] then Fails ''Address must be provided''
      else if sint (poc_AmountSat req) \<le> 0 then Fails ''Invalid amount''
      else if poc_TargetConf req \<noteq> None \<and> poc_SatPerVbyte req \<noteq> None
      then Fails ''Either targetConf or satPerVbyte accepted''
      else Ok
        \<lparr>lsc_Addr = poc_Address req, lsc_Amount = poc_AmountSat req,
         lsc_TargetConf = opt (poc_TargetConf req) 0,
         lsc_SatPerVbyte = opt (poc_SatPerVbyte req) 0,
         lsc_SendAll = opt (poc_SendAll req) False, lsc_Label = opt (poc_Label req) [],
         lsc_MinConfs = opt (poc_MinConfs req) 0,
         lsc_SpendUnconfirmed = opt (poc_SpendUnconfirmed req) False\<rparr>)"

definition PayOnChain ::
    "(int \<Rightarrow> unit result) \<Rightarrow> (LndSendCoins \<Rightarrow> string result) \<Rightarrow> PayOnChainRequest \<Rightarrow> string result" where
  "PayOnChain connect SendCoins req =
     (case processSendRequest req of
        Inl e \<Rightarrow> Inl e
      | Inr sendCoinsReq \<Rightarrow>
          (case connect (poc_NodeId req) of
             Inl e \<Rightarrow> Inl e
           | Inr u \<Rightarrow> SendCoins sendCoinsReq))"

datatype AddressType = UNKNOWN | WITNESS_PUBKEY_HASH | NESTED_WITNESS_PUBKEY_HASH
  | HYBRID_NESTED_WITNESS_PUBKEY_HASH | TAPROOT_PUBKEY

record LndAddressRequest =
  lar_Account :: string
  lar_Type :: AddressType

definition createLndAddressRequest :: "NewAddressRequest \<Rightarrow> LndAddressRequest result" where
  "createLndAddressRequest req = Ok
     \<lparr>lar_Account = (if nar_Account req \<noteq> [] then nar_Account req else []),
      lar_Type =
        (if nar_Type req = 1 then WITNESS_PUBKEY_HASH
         else if nar_Type req = 2 then NESTED_WITNESS_PUBKEY_HASH
         else if nar_Type req = 3 then HYBRID_NESTED_WITNESS_PUBKEY_HASH
         else if nar_Type req = 4 then TAPROOT_PUBKEY
         else UNKNOWN)\<rparr>"

record NewAddressResponse =
  nas_ReqId :: string
  nas_Request :: NewAddressRequest
  nas_Address :: string

definition processAddressResponse :: "string \<Rightarrow> NewAddressRequest \<Rightarrow> string \<Rightarrow> NewAddressResponse" where
  "processAddressResponse addr req reqId = \<lparr>nas_ReqId = reqId, nas_Request = req, nas_Address = addr\<rparr>"

definition newAddress ::
    "(LndAddressRequest \<Rightarrow> string result) \<Rightarrow> NewAddressRequest \<Rightarrow> bool \<Rightarrow> string \<Rightarrow>
     NewAddressResponse list \<times> go_error option" where
  "newAddress NextAddr req eventChannel reqId =
     (case createLndAddressRequest req of
        Inl e \<Rightarrow> ([], Some e)
      | Inr r \<Rightarrow>
          (case NextAddr r of
             Inl e \<Rightarrow> ([], Some e)
           | Inr addr \<Rightarrow> (if eventChannel then [processAddressResponse addr req reqId] else [], None)))"

definition NewAddress ::
    "(int \<Rightarrow> unit result) \<Rightarrow> (LndAddressRequest \<Rightarrow> string result) \<Rightarrow> bool \<Rightarrow> NewAddressRequest \<Rightarrow> string \<Rightarrow>
     NewAddressResponse list \<times> go_error option" where
  "NewAddress connect NextAddr eventChannel req reqId =
     (if nar_NodeId req = 0 then ([], Some (Error ''Node id is missing''))
      else case connect (nar_NodeId req) of
             Inl e \<Rightarrow> ([], Some e)
           | Inr u \<Rightarrow> newAddress NextAddr req eventChannel reqId)"

section \<open>What a payment reports\<close>

interpretation payment: stream_client "\<lambda>p. Ok (processPaymentResponse zero_time p npReq reqId)" payment_error
    "\<lambda>stream. sendPayment zero_time (\<lambda>r. Ok stream) npReq True reqId" for zero_time npReq reqId
  by unfold_locales (simp add: sendPayment_def newSendPaymentRequest_def on_channel_def)

lemma payment_processed:
  "list_all2 (\<lambda>p x. Ok (processPaymentResponse zero_time p npReq reqId) = Ok x) ps
     (map (\<lambda>p. processPaymentResponse zero_time p npReq reqId) ps)"
  by (induction ps) simp_all

text \<open>
  C15: A payment that reaches LND reports every update of the payment, in order, and ends without
  error only at the end of the stream; an error of the stream is reported as one of seven fixed
  messages.
\<close>
theorem payment_stream_reported:
  assumes "final = EndOfStream \<and> e = None \<or> final = RecvFails t \<and> e = Some (payment_error t)"
    and "npr_NodeId npReq \<noteq> 0"
  shows "SendNewPayment zero_time (\<lambda>n. Ok ()) (\<lambda>r. Ok (map Msg ps @ final # rest)) npReq True reqId
           = (map (\<lambda>p. processPaymentResponse zero_time p npReq reqId) ps, Some e)
         \<and> payment_error t \<in> Error ` {''ALREADY_PAID'', ''INVALID_HASH'', ''INVALID_PAYMENT_REQUEST'',
             ''CHECKSUM_FAILED'', ''AMOUNT_REQUIRED'', ''AMOUNT_NOT_ALLOWED'', ''UNKNOWN_ERROR''}"
  using assms payment.all_processed [OF payment_processed [of zero_time npReq reqId ps]]
  by (auto simp: SendNewPayment_def payment_error_def)

lemma add_hops_eq: "add_hops hs r = r\<lparr>rt_Hops := rt_Hops r @ map payment_hop hs\<rparr>"
  by (induction hs arbitrary: r) simp_all

lemma add_attempt_simps:
  "att_AttemptId (add_attempt h a) = la_AttemptId h"
  "rt_Hops (att_Route (add_attempt h a)) = rt_Hops (att_Route a) @ map payment_hop (la_Hops h)"
  "att_Failure (add_attempt h a) =
     (case la_Failure h of None \<Rightarrow> att_Failure a
      | Some f \<Rightarrow> \<lparr>fd_Reason = lf_Code f, fd_FailureSourceIndex = lf_FailureSourceIndex f, fd_Height = lf_Height f\<rparr>)"
  by (simp_all add: add_attempt_def Let_def add_hops_eq split: option.split)

lemma add_attempts_hops:
  "rt_Hops (att_Route (add_attempts hs a)) =
     rt_Hops (att_Route a) @ concat (map (\<lambda>h. map payment_hop (la_Hops h)) hs)"
  by (induction hs arbitrary: a) (simp_all add: add_attempt_simps)

lemma add_attempts_id: "hs \<noteq> [] \<Longrightarrow> att_AttemptId (add_attempts hs a) = la_AttemptId (last hs)"
  by (induction hs arbitrary: a) (auto simp: add_attempt_simps)

lemma add_attempts_failure:
  "list_all (\<lambda>h. la_Failure h = None) hs \<Longrightarrow> att_Failure (add_attempts hs a) = att_Failure a"
  by (induction hs arbitrary: a) (simp_all add: add_attempt_simps)

lemma add_attempts_append: "add_attempts (hs @ ks) a = add_attempts ks (add_attempts hs a)"
  by (induction hs arbitrary: a) simp_all

text \<open>
  The one attempt a payment update reports mixes all HTLC attempts of the payment: it has
  the id of the last, the hops of all of them one after the other, and the failure of the last
  attempt that failed, also when a later attempt succeeded.
\<close>
lemma payment_attempts_mixed:
  assumes "lp_Htlcs p = earlier @ failed # later" and "later \<noteq> []"
    and "la_Failure failed = Some f" and "list_all (\<lambda>h. la_Failure h = None) later"
  shows "att_AttemptId (nps_Attempt (processPaymentResponse z p req reqId)) = la_AttemptId (last later)
     \<and> fd_Reason (att_Failure (nps_Attempt (processPaymentResponse z p req reqId))) = lf_Code f
     \<and> rt_Hops (att_Route (nps_Attempt (processPaymentResponse z p req reqId)))
          = concat (map (\<lambda>h. map payment_hop (la_Hops h)) (lp_Htlcs p))"
  using assms
  by (simp add: processPaymentResponse_def add_attempts_append add_attempts_failure add_attempts_id
      add_attempts_hops add_attempt_simps zeroAttempt_def)

section \<open>What the other requests ask of LND\<close>

text \<open>
  Coins are only sent for a positive amount to an address, with at most one way of setting the fee;
  so a request to send all coins, for which LND wants no amount, always names one.
\<close>

lemma processSendRequest_accepts:
  "(\<exists>r. processSendRequest req = Ok r) \<longleftrightarrow>
     poc_NodeId req \<noteq> 0 \<and> poc_Address req \<noteq> [] \<and> 0 < sint (poc_AmountSat req)
     \<and> (poc_TargetConf req = None \<or> poc_SatPerVbyte req = None)"
  by (auto simp: processSendRequest_def)

lemma send_all_names_amount:
  assumes "processSendRequest req = Ok r"
  shows "0 < sint (lsc_Amount r) \<and> lsc_Amount r = poc_AmountSat req
     \<and> (lsc_TargetConf r = 0 \<or> lsc_SatPerVbyte r = 0)"
  using assms by (auto simp: processSendRequest_def split: if_splits)

lemma invoice_preimage:
  assumes "nir_NodeId req \<noteq> 0" and "nir_RPreImage req = Some (hex_encode bs)"
  shows "\<exists>inv. processInvoiceReq req = Ok inv \<and> li_RPreimage inv = bs"
  using assms by (simp add: processInvoiceReq_def hex_decode_encode)

lemma invoice_fails:
  "processInvoiceReq req = Inl e \<longleftrightarrow>
     nir_NodeId req = 0 \<and> e = Error ''Node id is missing''
     \<or> nir_NodeId req \<noteq> 0 \<and> e = Error ''error decoding preimage''
       \<and> (\<exists>p. nir_RPreImage req = Some p \<and> hex_decode p = None)"
  by (auto simp: processInvoiceReq_def split: option.splits)

text \<open>Every address type the request can name reaches LND as its own type.\<close>

lemma address_type_injective:
  assumes "createLndAddressRequest a = Ok x" and "createLndAddressRequest b = Ok y"
    and "lar_Type x = lar_Type y" and "lar_Type x \<noteq> UNKNOWN"
  shows "nar_Type a = nar_Type b"
  using assms by (auto simp: createLndAddressRequest_def split: if_splits)

section \<open>Witnesses\<close>

definition sample_payment :: NewPaymentRequest where
  "sample_payment = \<lparr>npr_NodeId = 1, npr_Invoice = Some ''lnbc1'', npr_TimeOutSecs = 60, npr_Dest = None,
     npr_AmtMSat = None, npr_FeeLimitMsat = None, npr_AllowSelfPayment = None\<rparr>"

definition sample_attempt :: "uint64 \<Rightarrow> LndFailure option \<Rightarrow> LndHtlcAttempt" where
  "sample_attempt n f = \<lparr>la_AttemptId = n, la_Status = ''SUCCEEDED'', la_AttemptTimeNs = 1,
     la_ResolveTimeNs = 2, la_Preimage = [], la_Failure = f, la_Hops = [], la_TotalTimeLock = 0,
     la_TotalAmtMsat = 0\<rparr>"

definition sample_payment_update :: "LndHtlcAttempt list \<Rightarrow> LndPayment" where
  "sample_payment_update hs = \<lparr>lp_Status = ''SUCCEEDED'', lp_PaymentHash = ''aa'', lp_PaymentPreimage = ''bb'',
     lp_ValueMsat = 1000, lp_CreationTimeNs = 1, lp_FailureReason = ''FAILURE_REASON_NONE'',
     lp_FeeMsat = 1, lp_Htlcs = hs\<rparr>"

theorem payment_stream_reported_witness:
  "SendNewPayment 0 (\<lambda>n. Ok ())
     (\<lambda>r. Ok (map Msg [sample_payment_update []] @ RecvFails ''checksum failed'' # [])) sample_payment True ''q''
     = (map (\<lambda>p. processPaymentResponse 0 p sample_payment ''q'') [sample_payment_update []],
        Some (Some (payment_error ''checksum failed'')))"
proof -
  have "npr_NodeId sample_payment \<noteq> 0" by (simp add: sample_payment_def)
  then show ?thesis
    using payment_stream_reported [of "RecvFails ''checksum failed''" "Some (payment_error ''checksum failed'')"
        "''checksum failed''" sample_payment 0 "[sample_payment_update []]" "[]" "''q''"] by simp
qed

lemma payment_attempts_mixed_witness:
  "fd_Reason (att_Failure (nps_Attempt (processPaymentResponse 0
      (sample_payment_update [sample_attempt 1 (Some \<lparr>lf_Code = ''FEE_INSUFFICIENT'', lf_FailureSourceIndex = 1, lf_Height = 7\<rparr>),
                      sample_attempt 2 None]) sample_payment ''q''))) = ''FEE_INSUFFICIENT''"
  using payment_attempts_mixed [where earlier = "[]" and later = "[sample_attempt 2 None]"
      and failed = "sample_attempt 1 (Some \<lparr>lf_Code = ''FEE_INSUFFICIENT'', lf_FailureSourceIndex = 1, lf_Height = 7\<rparr>)"
      and p = "sample_payment_update [sample_attempt 1 (Some \<lparr>lf_Code = ''FEE_INSUFFICIENT'', lf_FailureSourceIndex = 1, lf_Height = 7\<rparr>),
                      sample_attempt 2 None]"]
  by (simp add: sample_payment_update_def sample_attempt_def)

end
