(* ===== verification/QueryParser.thy ===== *)
theory QueryParser
  imports GoText "HOL-Library.Char_ord" "HOL-Library.List_Lexorder"
begin

text \<open>
  \<open>src/internal/query_parser/\<close>: filters and sort orders that a client sends as JSON become
  conditions and an ORDER BY of an SQL query.  The decoder of the JSON text, the conversion to
  snake case and the text of a floating point number are parameters; the SQL builder's
  conditions are a datatype.  The theorems say that whatever is sent, only the allowed columns
  and the two directions reach the text of the query, and values only as bound parameters.
\<close>

section \<open>JSON values and conditions\<close>

datatype 'f json = JNull | JBool bool | JNumber 'f | JString string | JArray "'f json list"
  | JObject "(string \<times> 'f json) list"

text \<open>
  The Go values a parameter can be.  \<open>ParseFilter\<close> only makes strings, numbers, booleans and lists of
  strings; the other two are for callers of \<open>Overlap\<close>.
\<close>

datatype 'f param = PString string | PNumber 'f | PBool bool | PStrings "string list"
  | PNil | PNumbers "'f list"

datatype 'f Sqlizer =
    Eq string "'f param" | NotEq string "'f param"
  | Gt string "'f param" | GtOrEq string "'f param" | Lt string "'f param" | LtOrEq string "'f param"
  | ILike string string | NotILike string string
  | Expr string "'f param"
  | And "'f Sqlizer list" | Or "'f Sqlizer list"

record 'f Filter =
  fl_FuncName :: string
  fl_Key :: string
  fl_Parameter :: "'f json"

datatype 'f FilterClauses =
  FilterClauses (fc_And: "'f FilterClauses list") (fc_Or: "'f FilterClauses list") (fc_Filter: "'f Filter")

record Order =
  or_Key :: string
  or_Direction :: string

section \<open>Text of values\<close>

text \<open>\<open>fmt.Sprintf("%v", x)\<close>; the keys of a map are printed in order.\<close>

fun intercalate :: "string \<Rightarrow> string list \<Rightarrow> string" where
  "intercalate sep [] = []"
| "intercalate sep [x] = x"
| "intercalate sep (x # y # xs) = x @ sep @ intercalate sep (y # xs)"

definition fmt_bool :: "bool \<Rightarrow> string" where
  "fmt_bool b = (if b then ''true'' else ''false'')"

fun fmt_json :: "('f \<Rightarrow> string) \<Rightarrow> 'f json \<Rightarrow> string" where
  "fmt_json fmtf JNull = ''<nil>''"
| "fmt_json fmtf (JBool b) = fmt_bool b"
| "fmt_json fmtf (JNumber x) = fmtf x"
| "fmt_json fmtf (JString s) = s"
| "fmt_json fmtf (JArray vs) = ''['' @ intercalate '' '' (map (fmt_json fmtf) vs) @ '']''"
| "fmt_json fmtf (JObject kvs) =
     ''map['' @ intercalate '' ''
       (map (\<lambda>(k, t). k @ '':'' @ t) (sort_key fst (map (\<lambda>(k, v). (k, fmt_json fmtf v)) kvs))) @ '']''"

fun fmt_param :: "('f \<Rightarrow> string) \<Rightarrow> 'f param \<Rightarrow> string" where
  "fmt_param fmtf (PString s) = s"
| "fmt_param fmtf (PNumber x) = fmtf x"
| "fmt_param fmtf (PBool b) = fmt_bool b"
| "fmt_param fmtf (PStrings ss) = ''['' @ intercalate '' '' ss @ '']''"
| "fmt_param fmtf PNil = ''<nil>''"
| "fmt_param fmtf (PNumbers xs) = ''['' @ intercalate '' '' (map fmtf xs) @ '']''"

section \<open>Filters\<close>

fun IsAllowed :: "string list \<Rightarrow> string \<Rightarrow> bool" where
  "IsAllowed [] c = False"
| "IsAllowed (ac # acs) c = (if ac = c then True else IsAllowed acs c)"

lemma IsAllowed_iff [simp]: "IsAllowed acs c = (c \<in> set acs)"
  by (induction acs) auto

definition Overlap :: "'f param \<Rightarrow> string \<Rightarrow> bool \<Rightarrow> 'f Sqlizer result" where
  "Overlap param key notEq =
     (let equalOpr = (if notEq then ''!='' else ''='');
          text = ''? '' @ equalOpr @ '' ANY('' @ key @ '')''
      in case param of
           PNil \<Rightarrow> Ok (Eq key PNil)
         | PNumbers values \<Rightarrow> Ok (Or (map (\<lambda>value. Expr text (PNumber value)) values))
         | PStrings values \<Rightarrow> Ok (Or (map (\<lambda>value. Expr text (PString value)) values))
         | PNumber x \<Rightarrow> Ok (Expr text (PNumber x))
         | PString s \<Rightarrow> Ok (Expr text (PString s))
         | PBool b \<Rightarrow> Fails (''unsupported parameter type: bool. Any only supports string, ''
                            @ ''float or an array of string or float''))"

definition filter_param :: "('f \<Rightarrow> string) \<Rightarrow> 'f json \<Rightarrow> 'f param result" where
  "filter_param fmtf parameter =
     (case parameter of
        JString s \<Rightarrow> Ok (PString s)
      | JNumber x \<Rightarrow> Ok (PNumber x)
      | JBool b \<Rightarrow> Ok (PBool b)
      | JArray vs \<Rightarrow> Ok (PStrings (map (fmt_json fmtf) vs))
      | JNull \<Rightarrow> Fails ''unsupported parameter type: <nil>''
      | JObject kvs \<Rightarrow> Fails ''unsupported parameter type: map[string]interface {}'')"

definition ParseFilter ::
    "(string \<Rightarrow> string) \<Rightarrow> ('f \<Rightarrow> string) \<Rightarrow> string list \<Rightarrow> 'f Filter \<Rightarrow> 'f Sqlizer result" where
  "ParseFilter toSnake fmtf allowed f =
     (let key = toSnake (fl_Key f)
      in if \<not> IsAllowed allowed key
         then Fails (''filtering by '' @ key @ '' is not allwed. Try one of: '' @ intercalate '', '' allowed)
         else case filter_param fmtf (fl_Parameter f) of
           Inl e \<Rightarrow> Inl e
         | Inr param \<Rightarrow>
             (let name = fl_FuncName f
              in if name = ''eq'' then Ok (Eq key param)
                 else if name = ''neq'' then Ok (NotEq key param)
                 else if name = ''gt'' then Ok (Gt key param)
                 else if name = ''gte'' then Ok (GtOrEq key param)
                 else if name = ''lt'' then Ok (Lt key param)
                 else if name = ''lte'' then Ok (LtOrEq key param)
                 else if name = ''like'' then Ok (ILike key (''%'' @ fmt_param fmtf param @ ''%''))
                 else if name = ''notLike'' then Ok (NotILike key (''%'' @ fmt_param fmtf param @ ''%''))
                 else if name = ''any'' then Overlap param key False
                 else if name = ''notAny'' then Overlap param key True
                 else Fails (name @ '' is not a valid filter function'')))"

fun ParseFilterClauses ::
      "(string \<Rightarrow> string) \<Rightarrow> ('f \<Rightarrow> string) \<Rightarrow> string list \<Rightarrow> 'f FilterClauses \<Rightarrow> 'f Sqlizer result"
  and parse_clauses ::
      "(string \<Rightarrow> string) \<Rightarrow> ('f \<Rightarrow> string) \<Rightarrow> string list \<Rightarrow> 'f FilterClauses list \<Rightarrow> 'f Sqlizer list result"
where
  "ParseFilterClauses toSnake fmtf allowed (FilterClauses ands ors f) =
     (if length ands \<noteq> 0
      then (case parse_clauses toSnake fmtf allowed ands of Inl e \<Rightarrow> Inl e | Inr a \<Rightarrow> Ok (And a))
      else if length ors \<noteq> 0
      then (case parse_clauses toSnake fmtf allowed ors of Inl e \<Rightarrow> Inl e | Inr a \<Rightarrow> Ok (Or a))
      else ParseFilter toSnake fmtf allowed f)"
| "parse_clauses toSnake fmtf allowed [] = Ok []"
| "parse_clauses toSnake fmtf allowed (v # vs) =
     (case ParseFilterClauses toSnake fmtf allowed v of
        Inl e \<Rightarrow> Inl e
      | Inr r \<Rightarrow>
          (case parse_clauses toSnake fmtf allowed vs of
             Inl e \<Rightarrow> Inl e
           | Inr a \<Rightarrow> Ok (r # a)))"

definition ParseFilterParam ::
    "(string \<Rightarrow> 'f FilterClauses result) \<Rightarrow> (string \<Rightarrow> string) \<Rightarrow> ('f \<Rightarrow> string) \<Rightarrow> string \<Rightarrow> string list \<Rightarrow>
     'f Sqlizer result" where
  "ParseFilterParam unmarshal toSnake fmtf params allowedColumns =
     (case unmarshal params of
        Inl e \<Rightarrow> Inl e
      | Inr filters \<Rightarrow> ParseFilterClauses toSnake fmtf allowedColumns filters)"

section \<open>Sort orders\<close>

definition ParseOrder :: "(string \<Rightarrow> string) \<Rightarrow> string list \<Rightarrow> Order \<Rightarrow> string result" where
  "ParseOrder toSnake allowed s =
     (let key = toSnake (or_Key s)
      in if \<not> IsAllowed allowed key
         then Fails (''sorting by '' @ key @ '' is not allwed. Try one of: '' @ intercalate '', '' allowed)
         else if \<not> (or_Direction s = ''asc'' \<or> or_Direction s = ''desc'')
         then Fails (or_Direction s @ '' is not a valid sort direction. Should be either asc or desc'')
         else Ok (key @ '' '' @ or_Direction s))"

fun ParseOrderClauses :: "(string \<Rightarrow> string) \<Rightarrow> string list \<Rightarrow> Order list \<Rightarrow> string list result" where
  "ParseOrderClauses toSnake allowed [] = Ok []"
| "ParseOrderClauses toSnake allowed (s # ss) =
     (case ParseOrder toSnake allowed s of
        Inl e \<Rightarrow> Inl e
      | Inr os \<Rightarrow>
          (case ParseOrderClauses toSnake allowed ss of
             Inl e \<Rightarrow> Inl e
           | Inr r \<Rightarrow> Ok (os # r)))"

definition ParseOrderParams ::
    "(string \<Rightarrow> Order list result) \<Rightarrow> (string \<Rightarrow> string) \<Rightarrow> string \<Rightarrow> string list \<Rightarrow> string list result" where
  "ParseOrderParams unmarshal toSnake params allowedColumns =
     (case unmarshal params of
        Inl e \<Rightarrow> Inl e
      | Inr orders \<Rightarrow>
          ParseOrderClauses toSnake allowedColumns
            (map (\<lambda>param. param\<lparr>or_Key := toSnake (or_Key param)\<rparr>) orders))"

section \<open>Only allowed columns reach the query\<close>

text \<open>
  The fragments of SQL text in a condition: a column for the comparisons of the builder, the
  text of an expression.  Bound parameters are no part of the text.
\<close>

fun sql_texts :: "'f Sqlizer \<Rightarrow> string list" where
  "sql_texts (Eq c p) = [c]" | "sql_texts (NotEq c p) = [c]"
| "sql_texts (Gt c p) = [c]" | "sql_texts (GtOrEq c p) = [c]"
| "sql_texts (Lt c p) = [c]" | "sql_texts (LtOrEq c p) = [c]"
| "sql_texts (ILike c p) = [c]" | "sql_texts (NotILike c p) = [c]"
| "sql_texts (Expr t p) = [t]"
| "sql_texts (And ss) = concat (map sql_texts ss)"
| "sql_texts (Or ss) = concat (map sql_texts ss)"

definition allowed_texts :: "string list \<Rightarrow> string set" where
  "allowed_texts allowed =
     set allowed \<union> (\<lambda>c. ''? = ANY('' @ c @ '')'') ` set allowed \<union> (\<lambda>c. ''? != ANY('' @ c @ '')'') ` set allowed"

lemma Overlap_texts:
  assumes "Overlap param key notEq = Ok q" and "key \<in> set allowed"
  shows "set (sql_texts q) \<subseteq> allowed_texts allowed"
  using assms by (cases param) (auto simp: Overlap_def Let_def allowed_texts_def split: if_splits)

lemma ParseFilter_texts:
  assumes "ParseFilter toSnake fmtf allowed f = Ok q"
  shows "set (sql_texts q) \<subseteq> allowed_texts allowed"
proof -
  have key: "toSnake (fl_Key f) \<in> set allowed"
    using assms by (auto simp: ParseFilter_def Let_def split: if_splits)
  then have "toSnake (fl_Key f) \<in> allowed_texts allowed" by (simp add: allowed_texts_def)
  with assms key show ?thesis
    by (auto simp: ParseFilter_def Let_def dest: Overlap_texts [OF _ key] split: if_splits sum.splits)
qed

lemma ParseFilterClauses_texts:
  "ParseFilterClauses toSnake fmtf allowed c = Ok q \<Longrightarrow> set (sql_texts q) \<subseteq> allowed_texts allowed"
  "parse_clauses toSnake fmtf allowed cs = Ok qs \<Longrightarrow> set (concat (map sql_texts qs)) \<subseteq> allowed_texts allowed"
proof (induction toSnake fmtf allowed c and toSnake fmtf allowed cs arbitrary: q and qs
    rule: ParseFilterClauses_parse_clauses.induct)
  case (1 toSnake fmtf allowed ands ors f)
  then show ?case by (auto split: if_splits sum.splits dest: ParseFilter_texts)
next
  case (3 toSnake fmtf allowed v vs)
  from 3(3) obtain r a where "ParseFilterClauses toSnake fmtf allowed v = Ok r"
    and "parse_clauses toSnake fmtf allowed vs = Ok a" and "qs = r # a"
    by (auto split: sum.splits)
  with 3(1) [of r] 3(2) [of r a] show ?case by auto
qed simp

text \<open>
  C16: Whatever filter text a client sends, each fragment of SQL text of the condition it becomes
  is an allowed column, or one of the two fixed ANY expressions around an allowed column.
\<close>
theorem filter_text_whitelisted:
  assumes "ParseFilterParam unmarshal toSnake fmtf params allowedColumns = Ok q"
  shows "set (sql_texts q) \<subseteq> allowed_texts allowedColumns"
  using assms by (auto simp: ParseFilterParam_def split: sum.splits dest: ParseFilterClauses_texts)

definition order_ok :: "(string \<Rightarrow> string) \<Rightarrow> string list \<Rightarrow> Order \<Rightarrow> bool" where
  "order_ok toSnake allowed s =
     (toSnake (or_Key s) \<in> set allowed \<and> or_Direction s \<in> {''asc'', ''desc''})"

definition order_text :: "(string \<Rightarrow> string) \<Rightarrow> Order \<Rightarrow> string" where
  "order_text toSnake s = toSnake (or_Key s) @ '' '' @ or_Direction s"

lemma ParseOrder_cases:
  obtains "order_ok toSnake allowed s" and "ParseOrder toSnake allowed s = Ok (order_text toSnake s)"
  | t where "\<not> order_ok toSnake allowed s" and "ParseOrder toSnake allowed s = Fails t"
proof -
  have "\<not> order_ok toSnake allowed s \<Longrightarrow> \<exists>t. ParseOrder toSnake allowed s = Fails t"
    unfolding order_ok_def ParseOrder_def Let_def IsAllowed_iff by auto
  moreover have "order_ok toSnake allowed s \<Longrightarrow> ParseOrder toSnake allowed s = Ok (order_text toSnake s)"
    unfolding order_ok_def ParseOrder_def Let_def IsAllowed_iff order_text_def by auto
  ultimately show thesis using that by blast
qed

text \<open>
  C17: A list of sort orders is accepted exactly when the snake case of every key is an allowed
  column and every direction is asc or desc; the ORDER BY terms are then these columns with
  these directions, in the order sent.
\<close>
theorem order_clauses_whitelisted:
  "(ParseOrderClauses toSnake allowed ss = Ok ts) =
     (list_all (order_ok toSnake allowed) ss \<and> ts = map (order_text toSnake) ss)"
proof (induction ss arbitrary: ts)
  case (Cons s ss)
  show ?case
  proof (rule ParseOrder_cases [of toSnake allowed s])
    assume ok: "order_ok toSnake allowed s" "ParseOrder toSnake allowed s = Ok (order_text toSnake s)"
    show ?thesis
      using Cons [of "map (order_text toSnake) ss"] Cons ok
      by (cases "ParseOrderClauses toSnake allowed ss") auto
  qed simp
qed auto

section \<open>Which filters are accepted\<close>

definition filter_functions :: "string list" where
  "filter_functions = [''eq'', ''neq'', ''gt'', ''gte'', ''lt'', ''lte'', ''like'', ''notLike'', ''any'', ''notAny'']"

text \<open>Conversely, a filter on an allowed column with a known function is never refused, booleans with
  an ANY apart.\<close>

lemma ParseFilter_accepts:
  assumes "toSnake (fl_Key f) \<in> set allowed" and "fl_FuncName f \<in> set filter_functions"
    and "filter_param fmtf (fl_Parameter f) = Ok p"
    and "fl_FuncName f \<in> {''any'', ''notAny''} \<Longrightarrow> \<not> (\<exists>b. p = PBool b)"
  shows "\<exists>q. ParseFilter toSnake fmtf allowed f = Ok q"
  using assms by (cases p) (auto simp: ParseFilter_def Let_def filter_functions_def Overlap_def)

text \<open>An unknown column is refused whatever the rest of the filter says.\<close>

lemma ParseFilter_refuses:
  assumes "toSnake (fl_Key f) \<notin> set allowed"
  shows "\<exists>t. ParseFilter toSnake fmtf allowed f = Fails t"
  using assms by (auto simp: ParseFilter_def Let_def)

section \<open>Witnesses\<close>

definition sample_filter :: "int FilterClauses" where
  "sample_filter = FilterClauses [] [] \<lparr>fl_FuncName = ''any'', fl_Key = ''tags'', fl_Parameter = JArray [JString ''a'']\<rparr>"

theorem filter_text_whitelisted_witness:
  "\<exists>q. ParseFilterParam (\<lambda>t. Ok sample_filter) id (\<lambda>x. ''0'') ''{}'' [''tags''] = Ok q
     \<and> set (sql_texts q) \<subseteq> allowed_texts [''tags'']"
proof -
  obtain q where "ParseFilterParam (\<lambda>t. Ok sample_filter) id (\<lambda>x. ''0'') ''{}'' [''tags''] = Ok q"
    by (simp add: ParseFilterParam_def sample_filter_def ParseFilter_def filter_param_def Overlap_def Let_def)
  with filter_text_whitelisted [OF this] show ?thesis by blast
qed

end
