(* ===== verification/ServerErrors.thy ===== *)
theory ServerErrors
  imports GoText
begin

text \<open>
  \<open>src/pkg/server_errors/\<close>: the error object the front end expects, with field errors and server
  errors, and the responses that carry it.  A response is its status code and body.
\<close>

record ServerError =
  se_Fields :: "(string \<rightharpoonup> string list) option" \<comment> \<open>None is the nil map\<close>
  se_Server :: "string list"

definition emptyServerError :: ServerError where
  "emptyServerError = \<lparr>se_Fields = None, se_Server = []\<rparr>"

definition AddFieldError :: "string \<Rightarrow> string \<Rightarrow> ServerError \<Rightarrow> ServerError" where
  "AddFieldError field fieldError se =
     (let fields = (case se_Fields se of None \<Rightarrow> Map.empty | Some m \<Rightarrow> m);
          fields1 = (if fields field = None then fields(field \<mapsto> []) else fields)
      in se\<lparr>se_Fields := Some (fields1(field \<mapsto> the (fields1 field) @ [fieldError]))\<rparr>)"

definition AddServerError :: "string \<Rightarrow> ServerError \<Rightarrow> ServerError" where
  "AddServerError description se = se\<lparr>se_Server := se_Server se @ [description]\<rparr>"

definition SingleServerError :: "string \<Rightarrow> ServerError" where
  "SingleServerError description = AddServerError description emptyServerError"

definition SingleFieldError :: "string \<Rightarrow> string \<Rightarrow> ServerError" where
  "SingleFieldError field fieldError = AddFieldError field fieldError emptyServerError"

definition LogAndSendServerError :: "go_error \<Rightarrow> int \<times> ServerError" where
  "LogAndSendServerError err = (500, SingleServerError (error_text err))"

text \<open>\<open>errors.Wrap\<close> puts the message before the text of the error.\<close>

definition WrapLogAndSendServerError :: "go_error \<Rightarrow> string \<Rightarrow> int \<times> ServerError" where
  "WrapLogAndSendServerError err message = (500, SingleServerError (message @ '': '' @ error_text err))"

definition SendBadRequest :: "string \<Rightarrow> int \<times> ServerError" where
  "SendBadRequest message = (400, SingleServerError message)"

definition SendUnprocessableEntity :: "string \<Rightarrow> int \<times> ServerError" where
  "SendUnprocessableEntity message = (422, SingleServerError message)"

definition SendBadRequestFromError :: "go_error \<Rightarrow> int \<times> ServerError" where
  "SendBadRequestFromError err = (400, SingleServerError (error_text err))"

definition SendUnprocessableEntityFromError :: "go_error \<Rightarrow> int \<times> ServerError" where
  "SendUnprocessableEntityFromError err = (422, SingleServerError (error_text err))"

text \<open>An error wrapped with a message, and the message of a request that is no JSON.\<close>

definition JsonParseError :: string where
  "JsonParseError = ''Parsing JSON''"

definition wrapped :: "string \<Rightarrow> go_error \<Rightarrow> go_error" where
  "wrapped message e = Error (message @ '': '' @ error_text e)"

section \<open>Errors accumulate\<close>

definition field_errors :: "ServerError \<Rightarrow> string \<Rightarrow> string list" where
  "field_errors se field =
     (case se_Fields se of None \<Rightarrow> [] | Some m \<Rightarrow> (case m field of None \<Rightarrow> [] | Some es \<Rightarrow> es))"

lemma field_errors_add:
  "field_errors (AddFieldError f e se) g = field_errors se g @ (if g = f then [e] else [])"
  by (auto simp: field_errors_def AddFieldError_def Let_def split: option.splits)

lemma AddFieldError_server [simp]: "se_Server (AddFieldError f e se) = se_Server se"
  by (simp add: AddFieldError_def Let_def)

text \<open>Adding errors never loses one, and each field keeps its own in the order they were added.\<close>

lemma field_errors_collected:
  "field_errors (fold (\<lambda>(f, e). AddFieldError f e) fes se) g
     = field_errors se g @ map snd (filter (\<lambda>fe. fst fe = g) fes)"
  by (induction fes arbitrary: se) (auto simp: field_errors_add)

end
