(* ===== verification/LndStreams.thy ===== *)
theory LndStreams
  imports GoText ChannelBalanceCache
begin

text \<open>
  The subscriptions to LND's event streams, \<open>src/pkg/lnd/\<close>: the loop that \<open>htlcevents.go\<close>,
  \<open>peer_events.go\<close>, \<open>channelgraph.go\<close> and \<open>channel_events.go\<close> share, and what the first two do with each
  message.  A turn of the loop gets what the context, LND and the import service answer in it; a
  subscription is run on a list of turns.  The theorems say which statuses a subscription
  announces and that each received message is handled once and in order; for HTLC events, what
  reaches the channel state cache.
\<close>

section \<open>The subscription loop\<close>

text \<open>
  What a loop sends: a stream status through \<open>SendStreamEvent\<close>, and the events of its messages.
\<close>

datatype 'e emitted = StreamStatus Status | Emitted 'e

definition send_status :: "bool \<Rightarrow> Status \<Rightarrow> Status \<Rightarrow> 'e emitted list" where
  "send_status eventChannel status previousStatus =
     (if eventChannel \<and> (status = Initializing \<or> previousStatus \<noteq> status)
      then [StreamStatus status] else [])"

text \<open>A sent status is a call of \<open>SetStreamStatus\<close> of the service registry.\<close>

fun announce :: "time \<Rightarrow> int \<Rightarrow> SubscriptionStream \<Rightarrow> 'e emitted list \<Rightarrow> Services \<Rightarrow> Services \<times> ServiceEvent list" where
  "announce now nodeId stream [] rs = (rs, [])"
| "announce now nodeId stream (Emitted x # xs) rs = announce now nodeId stream xs rs"
| "announce now nodeId stream (StreamStatus s # xs) rs =
     (let (r1, ev1) = SetStreamStatus now nodeId stream s True rs;
          (r2, ev2) = announce now nodeId stream xs r1
      in (r2, ev1 @ ev2))"

lemma SendStreamEvent_announce:
  "SendStreamEvent now eventChannel nodeId stream status previousStatus rs =
     (let (r, ev) = announce now nodeId stream (send_status eventChannel status previousStatus) rs
      in (r, ev, status))"
  by (cases "eventChannel \<and> (status = Initializing \<or> previousStatus \<noteq> status)")
    (auto simp: SendStreamEvent_def send_status_def Let_def split: prod.split)

datatype loop_end = Running | Returned | Stuck

record subscription =
  sub_Stream :: bool
  sub_Status :: Status
  sub_End :: loop_end

definition subscribing :: subscription where
  "subscribing = \<lparr>sub_Stream = False, sub_Status = Inactive, sub_End = Running\<rparr>"

text \<open>
  A failed call says whether the context was cancelled.  \<open>tn_Imports\<close> are the answers of the imports
  a loop requests after it got its stream.
\<close>

record 'm turn =
  tn_Done :: bool
  tn_Subscribe :: "bool option"
  tn_Imports :: "go_error option list"
  tn_Recv :: "bool + 'm"

definition open_stream ::
    "bool \<Rightarrow> nat \<Rightarrow> 'm turn \<Rightarrow> subscription \<Rightarrow> 'e emitted list \<times> subscription \<times> bool" where
  "open_stream eventChannel imports t s =
     (if sub_Stream s then ([], s, True)
      else let pending = send_status eventChannel Pending (sub_Status s);
               s1 = s\<lparr>sub_Status := Pending\<rparr>
           in case tn_Subscribe t of
                Some cancelled \<Rightarrow> (pending, if cancelled then s1\<lparr>sub_End := Returned\<rparr> else s1, False)
              | None \<Rightarrow>
                  if list_ex (\<lambda>e. e \<noteq> None) (take imports (tn_Imports t)) then (pending, s1, False)
                  else (pending @ send_status eventChannel Active Pending,
                        s1\<lparr>sub_Stream := True, sub_Status := Active\<rparr>, True))"

text \<open>
  One turn; \<open>handle\<close> is None when handling the message never ends or panics.
\<close>

definition stream_turn ::
    "bool \<Rightarrow> nat \<Rightarrow> ('m \<Rightarrow> 'w \<Rightarrow> ('e list \<times> 'w) option) \<Rightarrow> 'm turn \<Rightarrow> subscription \<times> 'w \<Rightarrow>
     'e emitted list \<times> subscription \<times> 'w" where
  "stream_turn eventChannel imports handle t sw =
     (let (s, w) = sw in
      if sub_End s \<noteq> Running then ([], s, w)
      else if tn_Done t then ([], s\<lparr>sub_End := Returned\<rparr>, w)
      else case open_stream eventChannel imports t s of
        (em, s1, False) \<Rightarrow> (em, s1, w)
      | (em, s1, True) \<Rightarrow>
          (case tn_Recv t of
             Inl True \<Rightarrow> (em, s1\<lparr>sub_End := Returned\<rparr>, w)
           | Inl False \<Rightarrow> (em @ send_status eventChannel Pending (sub_Status s1),
                          s1\<lparr>sub_Stream := False, sub_Status := Pending\<rparr>, w)
           | Inr m \<Rightarrow>
               (case handle m w of
                  None \<Rightarrow> (em, s1\<lparr>sub_End := Stuck\<rparr>, w)
                | Some (evs, w1) \<Rightarrow> (em @ map Emitted evs, s1, w1))))"

fun stream_run ::
    "bool \<Rightarrow> nat \<Rightarrow> ('m \<Rightarrow> 'w \<Rightarrow> ('e list \<times> 'w) option) \<Rightarrow> 'm turn list \<Rightarrow> subscription \<times> 'w \<Rightarrow>
     'e emitted list \<times> subscription \<times> 'w" where
  "stream_run eventChannel imports handle [] sw = ([], sw)"
| "stream_run eventChannel imports handle (t # ts) sw =
     (let (em, sw1) = stream_turn eventChannel imports handle t sw;
          (ems, sw2) = stream_run eventChannel imports handle ts sw1
      in (em @ ems, sw2))"

text \<open>The messages of a run that are received, and what handling them in order sends.\<close>

definition received_in :: "bool \<Rightarrow> nat \<Rightarrow> 'm turn \<Rightarrow> subscription \<Rightarrow> 'm list" where
  "received_in eventChannel imports t s =
     (if sub_End s = Running \<and> \<not> tn_Done t \<and>
         snd (snd (open_stream eventChannel imports t s :: unit emitted list \<times> subscription \<times> bool))
      then (case tn_Recv t of Inl c \<Rightarrow> [] | Inr m \<Rightarrow> [m]) else [])"

fun received ::
    "bool \<Rightarrow> nat \<Rightarrow> ('m \<Rightarrow> 'w \<Rightarrow> ('e list \<times> 'w) option) \<Rightarrow> 'm turn list \<Rightarrow> subscription \<times> 'w \<Rightarrow> 'm list" where
  "received eventChannel imports handle [] sw = []"
| "received eventChannel imports handle (t # ts) sw =
     received_in eventChannel imports t (fst sw)
       @ received eventChannel imports handle ts (snd (stream_turn eventChannel imports handle t sw))"

fun handle_all :: "('m \<Rightarrow> 'w \<Rightarrow> ('e list \<times> 'w) option) \<Rightarrow> 'm list \<Rightarrow> 'w \<Rightarrow> 'e list \<times> 'w" where
  "handle_all handle [] w = ([], w)"
| "handle_all handle (m # ms) w =
     (case handle m w of
        None \<Rightarrow> ([], w)
      | Some (evs, w1) \<Rightarrow> (let (rest, w2) = handle_all handle ms w1 in (evs @ rest, w2)))"

fun events_of :: "'e emitted list \<Rightarrow> 'e list" where
  "events_of [] = []"
| "events_of (StreamStatus s # xs) = events_of xs"
| "events_of (Emitted x # xs) = x # events_of xs"

fun statuses_of :: "'e emitted list \<Rightarrow> Status list" where
  "statuses_of [] = []"
| "statuses_of (StreamStatus s # xs) = s # statuses_of xs"
| "statuses_of (Emitted x # xs) = statuses_of xs"

lemma events_of_append [simp]: "events_of (xs @ ys) = events_of xs @ events_of ys"
  by (induction xs rule: events_of.induct) simp_all

lemma statuses_of_append [simp]: "statuses_of (xs @ ys) = statuses_of xs @ statuses_of ys"
  by (induction xs rule: statuses_of.induct) simp_all

lemma of_map_Emitted [simp]: "events_of (map Emitted xs) = xs" "statuses_of (map Emitted xs) = []"
  by (induction xs) simp_all

lemma of_send_status [simp]:
  "events_of (send_status ec s p) = []"
  "statuses_of (send_status ec s p) = (if ec \<and> (s = Initializing \<or> p \<noteq> s) then [s] else [])"
  by (simp_all add: send_status_def)

subsection \<open>What a subscription announces and sends\<close>

definition sub_ok :: "subscription \<Rightarrow> bool" where
  "sub_ok s \<longleftrightarrow> (sub_Stream s \<longleftrightarrow> sub_Status s = Active) \<and> sub_Status s \<in> {Inactive, Pending, Active}"

lemma subscribing_ok [simp]: "sub_ok subscribing"
  by (simp add: sub_ok_def subscribing_def)

lemma open_stream_cases:
  assumes "open_stream ec n t s = (em, s1, go)" and "sub_ok s"
  shows "sub_ok s1" and "go \<Longrightarrow> sub_Stream s1 \<and> sub_End s1 = sub_End s"
    and "events_of em = []" and "set (statuses_of em) \<subseteq> {Pending, Active}"
    and "ec \<Longrightarrow> distinct_adj (sub_Status s # statuses_of em) \<and> last (sub_Status s # statuses_of em) = sub_Status s1"
    and "\<not> ec \<Longrightarrow> em = []"
    and "go = snd (snd (open_stream ec n t s :: unit emitted list \<times> subscription \<times> bool))"
  using assms by (auto simp: open_stream_def sub_ok_def Let_def send_status_def split: if_splits option.splits)

definition path :: "Status \<Rightarrow> Status list \<Rightarrow> Status \<Rightarrow> bool" where
  "path a xs b \<longleftrightarrow> distinct_adj (a # xs) \<and> last (a # xs) = b"

lemma path_append: "path a xs b \<Longrightarrow> path b ys c \<Longrightarrow> path a (xs @ ys) c"
  by (cases ys) (auto simp: path_def distinct_adj_append_iff distinct_adj_Cons split: if_splits)

lemma stream_turn_opened:
  assumes "sub_End s = Running" and "\<not> tn_Done t" and "open_stream ec n t s = (em0, s0, go)"
  shows "stream_turn ec n handle t (s, w) =
     (if \<not> go then (em0, s0, w)
      else case tn_Recv t of
             Inl c \<Rightarrow> if c then (em0, s0\<lparr>sub_End := Returned\<rparr>, w)
                      else (em0 @ send_status ec Pending (sub_Status s0),
                            s0\<lparr>sub_Stream := False, sub_Status := Pending\<rparr>, w)
           | Inr m \<Rightarrow> (case handle m w of
                        None \<Rightarrow> (em0, s0\<lparr>sub_End := Stuck\<rparr>, w)
                      | Some (evs, w1) \<Rightarrow> (em0 @ map Emitted evs, s0, w1)))"
  using assms by (auto simp: stream_turn_def split: sum.splits bool.splits)

lemma stream_turn_ok:
  fixes handle :: "'m \<Rightarrow> 'w \<Rightarrow> ('e list \<times> 'w) option"
  assumes "stream_turn ec n handle t (s, w) = (em, s1, w1)" and "sub_ok s"
  shows "sub_ok s1 \<and> (ec \<longrightarrow> path (sub_Status s) (statuses_of em) (sub_Status s1))
     \<and> set (statuses_of em) \<subseteq> {Pending, Active}
     \<and> (events_of em, w1) = handle_all handle (received_in ec n t s) w"
proof (cases "sub_End s \<noteq> Running \<or> tn_Done t")
  case True
  with assms(1) have "em = []" "w1 = w" "s1 = s \<or> s1 = s\<lparr>sub_End := Returned\<rparr>"
    by (auto simp: stream_turn_def split: if_splits)
  moreover from True have "received_in ec n t s = []" by (auto simp: received_in_def)
  ultimately show ?thesis using assms(2) by (auto simp: path_def sub_ok_def)
next
  case False
  obtain em0 :: "'e emitted list" and s0 go where o: "open_stream ec n t s = (em0, s0, go)" by (metis prod_cases3)
  note opened = open_stream_cases [OF o assms(2)]
  from False have turn: "stream_turn ec n handle t (s, w) = (if \<not> go then (em0, s0, w)
      else case tn_Recv t of
             Inl c \<Rightarrow> if c then (em0, s0\<lparr>sub_End := Returned\<rparr>, w)
                      else (em0 @ send_status ec Pending (sub_Status s0),
                            s0\<lparr>sub_Stream := False, sub_Status := Pending\<rparr>, w)
           | Inr m \<Rightarrow> (case handle m w of
                        None \<Rightarrow> (em0, s0\<lparr>sub_End := Stuck\<rparr>, w)
                      | Some (evs, w1) \<Rightarrow> (em0 @ map Emitted evs, s0, w1)))"
    by (intro stream_turn_opened [OF _ _ o]) simp_all
  from False opened(7) have here: "received_in ec n t s = (if go then (case tn_Recv t of Inl c \<Rightarrow> [] | Inr m \<Rightarrow> [m]) else [])"
    by (simp add: received_in_def)
  have p0: "ec \<Longrightarrow> path (sub_Status s) (statuses_of em0) (sub_Status s0)"
    using opened(5) by (simp add: path_def)
  show ?thesis
  proof (cases go)
    case go_on: True
    with opened(1,2) have active: "sub_Stream s0" "sub_Status s0 = Active" by (simp_all add: sub_ok_def)
    show ?thesis
    proof (cases "tn_Recv t")
      case (Inl c)
      have "ec \<Longrightarrow> path (sub_Status s) (statuses_of em0 @ [Pending]) Pending"
        by (rule path_append [OF p0]) (simp_all add: path_def active)
      with Inl go_on assms(1) turn here opened(3,4) p0 active show ?thesis
        by (auto simp: sub_ok_def split: if_splits)
    next
      case (Inr m)
      with go_on assms(1) turn here opened(1,3,4) p0 active show ?thesis
        by (cases "handle m w") (auto simp: sub_ok_def)
    qed
  next
    case stop: False
    with assms(1) turn here opened(1,3,4) p0 show ?thesis by auto
  qed
qed

lemma stream_run_stuck:
  assumes "sub_End s \<noteq> Running"
  shows "stream_run ec n handle ts (s, w) = ([], s, w)" and "received ec n handle ts (s, w) = []"
  using assms by (induction ts) (simp_all add: stream_turn_def received_in_def)

lemma stream_turn_stuck:
  fixes handle :: "'m \<Rightarrow> 'w \<Rightarrow> ('e list \<times> 'w) option"
  assumes "received_in ec n t s = [m]" and "handle m w = None" and "sub_ok s"
  shows "sub_End (fst (snd (stream_turn ec n handle t (s, w)))) = Stuck"
proof -
  obtain em0 :: "'e emitted list" and s0 go where o: "open_stream ec n t s = (em0, s0, go)" by (metis prod_cases3)
  note opened = open_stream_cases [OF o assms(3)]
  from assms(1) opened(7) have "sub_End s = Running" "\<not> tn_Done t" "go" "tn_Recv t = Inr m"
    by (auto simp: received_in_def split: if_splits sum.splits)
  with stream_turn_opened [OF _ _ o, of handle w] assms(2) show ?thesis by simp
qed

lemma received_in_cases: "received_in ec n t s = [] \<or> (\<exists>m. received_in ec n t s = [m])"
  by (simp add: received_in_def split: sum.split)

lemma stream_run_ok:
  assumes "stream_run ec n handle ts (s, w) = (em, s1, w1)" and "sub_ok s"
  shows "sub_ok s1 \<and> (ec \<longrightarrow> path (sub_Status s) (statuses_of em) (sub_Status s1))
     \<and> set (statuses_of em) \<subseteq> {Pending, Active}
     \<and> (events_of em, w1) = handle_all handle (received ec n handle ts (s, w)) w"
  using assms
proof (induction ts arbitrary: s w em)
  case Nil
  then show ?case by (simp add: path_def)
next
  case (Cons t ts)
  obtain e2 s2 w2 where turn: "stream_turn ec n handle t (s, w) = (e2, s2, w2)" by (metis prod_cases3)
  obtain e3 where run: "stream_run ec n handle ts (s2, w2) = (e3, s1, w1)" and em: "em = e2 @ e3"
    using Cons.prems(1) turn by (auto split: prod.splits)
  note one = stream_turn_ok [OF turn Cons.prems(2)]
  with Cons.IH [OF run] have rest: "sub_ok s1" "ec \<longrightarrow> path (sub_Status s2) (statuses_of e3) (sub_Status s1)"
    "set (statuses_of e3) \<subseteq> {Pending, Active}"
    "(events_of e3, w1) = handle_all handle (received ec n handle ts (s2, w2)) w2" by blast+
  have "ec \<longrightarrow> path (sub_Status s) (statuses_of em) (sub_Status s1)"
    using one rest(2) path_append unfolding em by fastforce
  moreover have "(events_of em, w1) = handle_all handle (received ec n handle (t # ts) (s, w)) w"
  proof (cases "\<exists>m. received_in ec n t s = [m] \<and> handle m w = None")
    case True
    with stream_turn_stuck [OF _ _ Cons.prems(2), of ec n t _ handle w] turn have "sub_End s2 = Stuck" by auto
    with run stream_run_stuck [of s2 ec n handle ts w2] have "e3 = []" "w1 = w2"
      "received ec n handle ts (s2, w2) = []" by auto
    with one turn em show ?thesis by simp
  next
    case False
    with one rest(4) turn em received_in_cases [of ec n t s] show ?thesis
      by (auto split: prod.splits option.splits)
  qed
  ultimately show ?case using one rest(1,3) unfolding em by auto
qed

text \<open>
  The contract of a handler: without an event channel it sends nothing.  Then the whole
  subscription sends nothing, and with a channel it sends what its handler makes of the received
  messages, between statuses that alternate.
\<close>

locale stream_handler =
  fixes eventChannel :: bool
    and requests :: nat
    and handle :: "'m \<Rightarrow> 'w \<Rightarrow> ('e list \<times> 'w) option"
  assumes quiet: "\<not> eventChannel \<Longrightarrow> handle m w = Some (evs, w1) \<Longrightarrow> evs = []"
begin

lemma statuses_alternate:
  assumes "stream_run eventChannel requests handle ts (subscribing, w) = (em, s1, w1)" and "eventChannel"
  shows "distinct_adj (Inactive # statuses_of em)" and "set (statuses_of em) \<subseteq> {Pending, Active}"
    and "last (Inactive # statuses_of em) = Active \<longleftrightarrow> sub_Stream s1"
  using stream_run_ok [OF assms(1)] assms(2) by (auto simp: path_def sub_ok_def subscribing_def)

lemma handled_in_order:
  assumes "stream_run eventChannel requests handle ts (subscribing, w) = (em, s1, w1)"
  shows "(events_of em, w1) = handle_all handle (received eventChannel requests handle ts (subscribing, w)) w"
  using stream_run_ok [OF assms] by simp

lemma silent_turn:
  assumes "\<not> eventChannel"
  shows "fst (stream_turn eventChannel requests handle t (s, w)) = []"
  using assms quiet
  by (auto simp: stream_turn_def open_stream_def send_status_def Let_def
      split: prod.splits option.splits sum.splits bool.splits if_splits)

lemma silent_run:
  assumes "\<not> eventChannel"
  shows "fst (stream_run eventChannel requests handle ts (s, w)) = []"
proof (induction ts arbitrary: s w)
  case (Cons t ts)
  obtain em s1 w1 where turn: "stream_turn eventChannel requests handle t (s, w) = (em, s1, w1)"
    by (metis prod_cases3)
  with silent_turn [OF assms, of t s w] Cons [of s1 w1] show ?case by (simp split: prod.split)
qed simp

end

section \<open>Peer events\<close>

record LndPeerEvent =
  lpe_PubKey :: string
  lpe_Type :: PeerEventType

text \<open>A message comes with the node cache and the clock when it is handled.\<close>

definition handle_peer_event ::
    "bool \<Rightarrow> NodeOrders \<Rightarrow> ManagedNodeSettings \<Rightarrow> time \<times> NodeState \<times> LndPeerEvent \<Rightarrow> unit \<Rightarrow>
     (PeerEvent list \<times> unit) option" where
  "handle_peer_event eventChannel ords nodeSettings msg u =
     (let (now, nodes, peerEvent) = msg in
      if eventChannel
      then (case GetNodeIdByPublicKey ords nodes (lpe_PubKey peerEvent) (mns_Chain nodeSettings)
                   (mns_Network nodeSettings) of
              None \<Rightarrow> None
            | Some eventNodeId \<Rightarrow>
                if eventNodeId \<noteq> 0
                then Some ([\<lparr>ev_EventTime = now, ev_NodeId = mns_NodeId nodeSettings,
                            pe_Type = lpe_Type peerEvent, pe_EventNodeId = eventNodeId\<rparr>], ())
                else Some ([], ()))
      else Some ([], ()))"

definition SubscribePeerEvents ::
    "bool \<Rightarrow> NodeOrders \<Rightarrow> ManagedNodeSettings \<Rightarrow> (time \<times> NodeState \<times> LndPeerEvent) turn list \<Rightarrow>
     PeerEvent emitted list \<times> subscription \<times> unit" where
  "SubscribePeerEvents eventChannel ords nodeSettings turns =
     stream_run eventChannel 0 (handle_peer_event eventChannel ords nodeSettings) turns (subscribing, ())"

interpretation peer_events: stream_handler eventChannel 0 "handle_peer_event eventChannel ords nodeSettings"
    for eventChannel ords nodeSettings
  by unfold_locales (simp add: handle_peer_event_def split: prod.splits)

section \<open>HTLC events\<close>

text \<open>Rounding to microseconds, halves up; the epoch is a whole microsecond.\<close>

definition convertMicro :: "int64 \<Rightarrow> time" where
  "convertMicro ns = ((sint ns + 500) div 1000) * 1000"

record LndHtlcInfo =
  lhi_IncomingTimelock :: uint32
  lhi_OutgoingTimelock :: uint32
  lhi_IncomingAmtMsat :: uint64
  lhi_OutgoingAmtMsat :: uint64

datatype LndHtlcKind =
    LndForward LndHtlcInfo
  | LndForwardFail
  | LndLinkFail LndHtlcInfo string string string \<comment> \<open>wire failure, failure detail, failure text\<close>
  | LndSettle
  | LndOtherHtlc

record LndHtlcEvent =
  lhe_EventType :: string
  lhe_IncomingChannelId :: uint64
  lhe_OutgoingChannelId :: uint64
  lhe_IncomingHtlcId :: uint64
  lhe_OutgoingHtlcId :: uint64
  lhe_TimestampNs :: uint64
  lhe_Event :: LndHtlcKind

record HtlcRow =
  hr_Time :: time
  hr_Data :: string
  hr_EventOrigin :: "string option"
  hr_EventType :: "string option"
  hr_OutgoingHtlcId :: "uint64 option"
  hr_IncomingHtlcId :: "uint64 option"
  hr_TimestampNs :: "uint64 option"
  hr_IncomingAmtMsat :: "uint64 option"
  hr_OutgoingAmtMsat :: "uint64 option"
  hr_IncomingTimelock :: "uint32 option"
  hr_OutgoingTimelock :: "uint32 option"
  hr_BoltFailureCode :: "string option"
  hr_BoltFailureString :: "string option"
  hr_LndFailureDetail :: "string option"
  hr_OutgoingChannelId :: "int option"
  hr_IncomingChannelId :: "int option"
  hr_NodeId :: int

text \<open>The zero value of the row; \<open>zero_time\<close> is the instant of Go's zero \<open>time.Time\<close>.\<close>

definition zeroHtlcRow :: "time \<Rightarrow> HtlcRow" where
  "zeroHtlcRow zero_time =
     \<lparr>hr_Time = zero_time, hr_Data = [], hr_EventOrigin = None, hr_EventType = None,
      hr_OutgoingHtlcId = None, hr_IncomingHtlcId = None, hr_TimestampNs = None,
      hr_IncomingAmtMsat = None, hr_OutgoingAmtMsat = None, hr_IncomingTimelock = None,
      hr_OutgoingTimelock = None, hr_BoltFailureCode = None, hr_BoltFailureString = None,
      hr_LndFailureDetail = None, hr_OutgoingChannelId = None, hr_IncomingChannelId = None, hr_NodeId = 0\<rparr>"

definition getChannelIdByLndShortChannelId ::
    "channel_orders \<Rightarrow> ChannelState \<Rightarrow> uint64 \<Rightarrow> int option option" where
  "getChannelIdByLndShortChannelId ords channels lndShortChannelId =
     map_option (\<lambda>tempChannelId. if tempChannelId \<noteq> 0 then Some tempChannelId else None)
       (GetChannelIdByShortChannelId ords channels (ConvertLNDShortChannelID lndShortChannelId))"

text \<open>The channel cache answers every read of a short channel id.\<close>

lemma getChannelIdByLndShortChannelId_answers:
  "\<exists>c. getChannelIdByLndShortChannelId ords channels lnd = Some c"
proof -
  have "\<exists>i. GetChannelIdByShortChannelId ords channels sc = Some i" for sc
  proof (cases "sc = [] \<or> sc = ''0x0x0''")
    case True
    then show ?thesis by (auto simp: GetChannelIdByShortChannelId_def)
  next
    case False
    then show ?thesis by (simp add: channel_reads)
  qed
  then show ?thesis by (auto simp: getChannelIdByLndShortChannelId_def)
qed

text \<open>The rows of the table are a list; an insert adds one or fails.\<close>

definition addHtlcEvent :: "go_error option \<Rightarrow> HtlcRow \<Rightarrow> HtlcRow list \<Rightarrow> go_error option \<times> HtlcRow list" where
  "addHtlcEvent insertFails row table = (case insertFails of Some e \<Rightarrow> (Some e, table) | None \<Rightarrow> (None, table @ [row]))"

text \<open>The fields the kind of the event fills in; the wrong kind has none of the messages the code reads.\<close>

definition add_kind :: "string \<Rightarrow> LndHtlcKind \<Rightarrow> HtlcRow \<Rightarrow> HtlcRow option" where
  "add_kind eventType kind row =
     (if eventType = ''LinkFailEvent''
      then (case kind of
              LndLinkFail info wireFailure failureDetail failureString \<Rightarrow> Some
                (row\<lparr>hr_IncomingAmtMsat := Some (lhi_IncomingAmtMsat info),
                     hr_OutgoingAmtMsat := Some (lhi_OutgoingAmtMsat info),
                     hr_IncomingTimelock := Some (lhi_IncomingTimelock info),
                     hr_OutgoingTimelock := Some (lhi_OutgoingTimelock info),
                     hr_BoltFailureCode := Some wireFailure,
                     hr_BoltFailureString := Some failureString,
                     hr_LndFailureDetail := Some failureDetail\<rparr>)
            | _ \<Rightarrow> None)
      else if eventType = ''ForwardEvent''
      then (case kind of
              LndForward info \<Rightarrow> Some
                (row\<lparr>hr_IncomingAmtMsat := Some (lhi_IncomingAmtMsat info),
                     hr_OutgoingAmtMsat := Some (lhi_OutgoingAmtMsat info),
                     hr_IncomingTimelock := Some (lhi_IncomingTimelock info),
                     hr_OutgoingTimelock := Some (lhi_OutgoingTimelock info)\<rparr>)
            | _ \<Rightarrow> None)
      else Some row)"

text \<open>None when the channel cache gives no answer or the event is not of the named kind.\<close>

definition storeFullEvent ::
    "time \<Rightarrow> (LndHtlcEvent \<Rightarrow> string result) \<Rightarrow> go_error option \<Rightarrow> channel_orders \<Rightarrow> ChannelState \<Rightarrow>
     LndHtlcEvent \<Rightarrow> int \<Rightarrow> string \<Rightarrow> HtlcRow list \<Rightarrow> (HtlcRow \<times> go_error option \<times> HtlcRow list) option" where
  "storeFullEvent zero_time marshal insertFails ords channels h nodeId eventType table =
     (case marshal h of
        Inl e \<Rightarrow> Some (zeroHtlcRow zero_time, Some e, table)
      | Inr jb \<Rightarrow>
          (case (getChannelIdByLndShortChannelId ords channels (lhe_IncomingChannelId h),
                 getChannelIdByLndShortChannelId ords channels (lhe_OutgoingChannelId h)) of
             (Some incomingChannelId, Some outgoingChannelId) \<Rightarrow>
               (let row = (zeroHtlcRow zero_time)
                      \<lparr>hr_Time := convertMicro (lhe_TimestampNs h), hr_Data := jb,
                       hr_EventOrigin := Some (lhe_EventType h), hr_EventType := Some eventType,
                       hr_OutgoingHtlcId := Some (lhe_OutgoingHtlcId h),
                       hr_IncomingHtlcId := Some (lhe_IncomingHtlcId h),
                       hr_TimestampNs := Some (lhe_TimestampNs h),
                       hr_OutgoingChannelId := outgoingChannelId,
                       hr_IncomingChannelId := incomingChannelId, hr_NodeId := nodeId\<rparr>
                in case add_kind eventType (lhe_Event h) row of
                     None \<Rightarrow> None
                   | Some row1 \<Rightarrow>
                       (case addHtlcEvent insertFails row1 table of
                          (Some e, table1) \<Rightarrow> Some (zeroHtlcRow zero_time, Some e, table1)
                        | (None, table1) \<Rightarrow> Some (row1, None, table1)))
           | _ \<Rightarrow> None))"

definition event_type_text :: "LndHtlcKind \<Rightarrow> string option" where
  "event_type_text kind =
     (case kind of
        LndForward info \<Rightarrow> Some ''ForwardEvent''
      | LndForwardFail \<Rightarrow> Some ''ForwardFailEvent''
      | LndLinkFail info failure detail text \<Rightarrow> Some ''LinkFailEvent''
      | LndSettle \<Rightarrow> Some ''SettleEvent''
      | LndOtherHtlc \<Rightarrow> None)"

definition htlc_event_of :: "time \<Rightarrow> int \<Rightarrow> HtlcRow \<Rightarrow> HtlcEvent" where
  "htlc_event_of now nodeId row =
     \<lparr>ev_EventTime = now, ev_NodeId = nodeId, he_Timestamp = hr_Time row, he_Data = [],
      he_EventOrigin = hr_EventOrigin row, he_EventType = hr_EventType row,
      he_OutgoingHtlcId = hr_OutgoingHtlcId row, he_IncomingHtlcId = hr_IncomingHtlcId row,
      he_TimestampNs = hr_TimestampNs row, he_IncomingAmtMsat = hr_IncomingAmtMsat row,
      he_OutgoingAmtMsat = hr_OutgoingAmtMsat row, he_IncomingTimelock = hr_IncomingTimelock row,
      he_OutgoingTimelock = hr_OutgoingTimelock row, he_BoltFailureCode = hr_BoltFailureCode row,
      he_BoltFailureString = hr_BoltFailureString row, he_LndFailureDetail = hr_LndFailureDetail row,
      he_OutgoingChannelId = hr_OutgoingChannelId row, he_IncomingChannelId = hr_IncomingChannelId row\<rparr>"

text \<open>
  The loop keeps the event it stored last in a variable: an event of another kind leaves it as it
  is, an event that cannot be stored sets it to the zero event, and it is sent in either case.
\<close>

record HtlcMessage =
  hm_Now :: time
  hm_Channels :: ChannelState
  hm_InsertFails :: "go_error option"
  hm_Event :: LndHtlcEvent

definition handle_htlc_event ::
    "bool \<Rightarrow> time \<Rightarrow> (LndHtlcEvent \<Rightarrow> string result) \<Rightarrow> channel_orders \<Rightarrow> int \<Rightarrow> HtlcMessage \<Rightarrow>
     HtlcRow \<times> HtlcRow list \<Rightarrow> (HtlcEvent list \<times> HtlcRow \<times> HtlcRow list) option" where
  "handle_htlc_event eventChannel zero_time marshal ords nodeId msg w =
     (let (stored, table) = w;
          next_stored =
            (case event_type_text (lhe_Event (hm_Event msg)) of
               None \<Rightarrow> Some (stored, table)
             | Some eventType \<Rightarrow>
                 map_option (\<lambda>(row, err, table1). (row, table1))
                   (storeFullEvent zero_time marshal (hm_InsertFails msg) ords (hm_Channels msg)
                      (hm_Event msg) nodeId eventType table))
      in map_option (\<lambda>(row, table1).
           (if eventChannel then [htlc_event_of (hm_Now msg) nodeId row] else [], row, table1)) next_stored)"

definition SubscribeAndStoreHtlcEvents ::
    "bool \<Rightarrow> time \<Rightarrow> (LndHtlcEvent \<Rightarrow> string result) \<Rightarrow> channel_orders \<Rightarrow> ManagedNodeSettings \<Rightarrow>
     HtlcMessage turn list \<Rightarrow> HtlcRow list \<Rightarrow> HtlcEvent emitted list \<times> subscription \<times> HtlcRow \<times> HtlcRow list" where
  "SubscribeAndStoreHtlcEvents eventChannel zero_time marshal ords nodeSettings turns table =
     stream_run eventChannel 0
       (handle_htlc_event eventChannel zero_time marshal ords (mns_NodeId nodeSettings))
       turns (subscribing, zeroHtlcRow zero_time, table)"

interpretation htlc_events: stream_handler eventChannel 0
    "handle_htlc_event eventChannel zero_time marshal ords nodeId"
    for eventChannel zero_time marshal ords nodeId
  by unfold_locales (auto simp: handle_htlc_event_def Let_def split: prod.splits)

subsection \<open>What reaches the channel state cache\<close>

lemma event_without_amounts_ignored:
  assumes "he_IncomingAmtMsat e = None" and "he_OutgoingAmtMsat e = None"
  shows "SetChannelStateBalanceHtlcEvent env e s = Served s None"
proof -
  have "htlc_incoming_step e channels = channels" "htlc_outgoing_step e channels = Ok channels" for channels
    using assms by (auto simp: htlc_incoming_step_def htlc_outgoing_step_def split: option.splits)
  then show ?thesis
    by (auto simp: SetChannelStateBalanceHtlcEvent_def processManagedChannelStateSettings_def
        writeHtlcEvent_def fun_upd_idem split: option.splits)
qed

lemma storeFullEvent_row:
  assumes "storeFullEvent zero_time marshal insertFails ords channels h nodeId eventType table
             = Some (row, None, table1)"
  shows "table1 = table @ [row]" and "hr_NodeId row = nodeId" and "hr_EventType row = Some eventType"
    and "eventType \<notin> {''LinkFailEvent'', ''ForwardEvent''} \<Longrightarrow>
           hr_IncomingAmtMsat row = None \<and> hr_OutgoingAmtMsat row = None"
    and "hr_IncomingHtlcId row = Some (lhe_IncomingHtlcId h)"
  using assms
  by (auto simp: storeFullEvent_def add_kind_def addHtlcEvent_def zeroHtlcRow_def Let_def
      split: sum.splits option.splits prod.splits if_splits LndHtlcKind.splits)

text \<open>
  A settled HTLC, or one whose forward failed, is stored without its amounts, and so the
  event that is sent for it leaves the channel state cache as it is: the HTLC that a forward
  event put on the pending list stays there.
\<close>
lemma settled_htlc_stays_pending:
  assumes "storeFullEvent zero_time marshal insertFails ords channels h nodeId eventType table
             = Some (row, None, table1)"
    and "event_type_text (lhe_Event h) = Some eventType" and "lhe_Event h \<in> {LndSettle, LndForwardFail}"
  shows "table1 = table @ [row]
     \<and> SetChannelStateBalanceHtlcEvent env (htlc_event_of now nodeId row) s = Served s None"
  using assms(2,3) storeFullEvent_row [OF assms(1)]
  by (auto simp: event_type_text_def htlc_event_of_def intro!: event_without_amounts_ignored)

subsection \<open>What reaches the subscriber\<close>

text \<open>
  The messages LND delivers on a list of turns, read off the turns alone: a turn delivers its
  message when a stream is open or LND grants one in it; a failure without cancellation closes the
  stream, and the context or a cancelled call ends everything.
\<close>

fun delivered :: "bool \<Rightarrow> 'm turn list \<Rightarrow> 'm list" where
  "delivered opened [] = []"
| "delivered opened (t # ts) =
     (if tn_Done t then []
      else if \<not> opened \<and> tn_Subscribe t = Some True then []
      else if \<not> opened \<and> tn_Subscribe t = Some False then delivered False ts
      else case tn_Recv t of
             Inl True \<Rightarrow> []
           | Inl False \<Rightarrow> delivered False ts
           | Inr m \<Rightarrow> m # delivered True ts)"

lemma received_delivered:
  assumes "\<And>m w. handle m w \<noteq> None"
  shows "sub_End s = Running \<Longrightarrow> received ec 0 handle ts (s, w) = delivered (sub_Stream s) ts"
proof (induction ts arbitrary: s w)
  case (Cons t ts)
  show ?case
  proof (cases "tn_Done t \<or> (\<not> sub_Stream s \<and> tn_Subscribe t \<noteq> None)")
    case True
    with Cons show ?thesis
      by (cases "tn_Subscribe t")
        (auto simp: received_in_def stream_turn_def open_stream_def stream_run_stuck Let_def)
  next
    case False
    show ?thesis
    proof (cases "tn_Recv t")
      case (Inl c)
      with False Cons show ?thesis
        by (cases "sub_Stream s"; cases c)
          (auto simp: received_in_def stream_turn_def open_stream_def stream_run_stuck Let_def)
    next
      case (Inr m)
      from assms obtain evs w1 where "handle m w = Some (evs, w1)" by fastforce
      with False Inr Cons show ?thesis
        by (cases "sub_Stream s") (auto simp: received_in_def stream_turn_def open_stream_def Let_def)
    qed
  qed
qed simp

text \<open>
  An event can be stored when its kind is known, it can be written as JSON and the insert works; the
  row that then stands for it.
\<close>

definition storable :: "(LndHtlcEvent \<Rightarrow> string result) \<Rightarrow> HtlcMessage \<Rightarrow> bool" where
  "storable marshal msg \<longleftrightarrow> event_type_text (lhe_Event (hm_Event msg)) \<noteq> None \<and>
     (\<exists>jb. marshal (hm_Event msg) = Ok jb) \<and> hm_InsertFails msg = None"

definition htlc_info :: "LndHtlcKind \<Rightarrow> LndHtlcInfo option" where
  "htlc_info kind = (case kind of LndForward i \<Rightarrow> Some i | LndLinkFail i f d t \<Rightarrow> Some i | _ \<Rightarrow> None)"

definition row_describes ::
    "(LndHtlcEvent \<Rightarrow> string result) \<Rightarrow> channel_orders \<Rightarrow> int \<Rightarrow> HtlcMessage \<Rightarrow> HtlcRow \<Rightarrow> bool" where
  "row_describes marshal ords nodeId msg row \<longleftrightarrow>
     (let h = hm_Event msg; info = htlc_info (lhe_Event h) in
        hr_NodeId row = nodeId \<and> marshal h = Ok (hr_Data row) \<and> hr_Time row = convertMicro (lhe_TimestampNs h) \<and>
        hr_TimestampNs row = Some (lhe_TimestampNs h) \<and> hr_EventOrigin row = Some (lhe_EventType h) \<and>
        hr_EventType row = event_type_text (lhe_Event h) \<and>
        hr_IncomingHtlcId row = Some (lhe_IncomingHtlcId h) \<and> hr_OutgoingHtlcId row = Some (lhe_OutgoingHtlcId h) \<and>
        getChannelIdByLndShortChannelId ords (hm_Channels msg) (lhe_IncomingChannelId h) = Some (hr_IncomingChannelId row) \<and>
        getChannelIdByLndShortChannelId ords (hm_Channels msg) (lhe_OutgoingChannelId h) = Some (hr_OutgoingChannelId row) \<and>
        hr_IncomingAmtMsat row = map_option lhi_IncomingAmtMsat info \<and>
        hr_OutgoingAmtMsat row = map_option lhi_OutgoingAmtMsat info \<and>
        hr_IncomingTimelock row = map_option lhi_IncomingTimelock info \<and>
        hr_OutgoingTimelock row = map_option lhi_OutgoingTimelock info)"

lemma handle_htlc_event_works:
  "\<exists>row1 rows. handle_htlc_event True zero_time marshal ords nodeId msg (row, table)
      = Some ([htlc_event_of (hm_Now msg) nodeId row1], row1, table @ rows) \<and>
    (if storable marshal msg then rows = [row1] \<and> row_describes marshal ords nodeId msg row1 else rows = [])"
proof -
  obtain a b where ab:
    "getChannelIdByLndShortChannelId ords (hm_Channels msg) (lhe_IncomingChannelId (hm_Event msg)) = Some a"
    "getChannelIdByLndShortChannelId ords (hm_Channels msg) (lhe_OutgoingChannelId (hm_Event msg)) = Some b"
    using getChannelIdByLndShortChannelId_answers by metis
  show ?thesis
    by (cases "lhe_Event (hm_Event msg)"; cases "marshal (hm_Event msg)"; cases "hm_InsertFails msg")
      (auto simp: handle_htlc_event_def storeFullEvent_def add_kind_def addHtlcEvent_def event_type_text_def
        storable_def row_describes_def htlc_info_def zeroHtlcRow_def ab Let_def)
qed

text \<open>The rows of a list of messages, and the event sent for each.\<close>

lemma handle_all_htlc:
  "\<exists>row1 rows evs. handle_all (handle_htlc_event True zero_time marshal ords nodeId) msgs (row, table)
      = (evs, row1, table @ rows) \<and>
    list_all2 (row_describes marshal ords nodeId) (filter (storable marshal) msgs) rows \<and>
    list_all2 (\<lambda>msg e. \<exists>r. e = htlc_event_of (hm_Now msg) nodeId r \<and>
                 (storable marshal msg \<longrightarrow> row_describes marshal ords nodeId msg r)) msgs evs"
proof (induction msgs arbitrary: row table)
  case (Cons msg msgs)
  obtain row1 rows1 where one: "handle_htlc_event True zero_time marshal ords nodeId msg (row, table)
      = Some ([htlc_event_of (hm_Now msg) nodeId row1], row1, table @ rows1)"
    and desc: "if storable marshal msg then rows1 = [row1] \<and> row_describes marshal ords nodeId msg row1 else rows1 = []"
    using handle_htlc_event_works by blast
  from Cons.IH [of row1 "table @ rows1"] obtain row2 rows2 evs where
    rest: "handle_all (handle_htlc_event True zero_time marshal ords nodeId) msgs (row1, table @ rows1)
      = (evs, row2, (table @ rows1) @ rows2)"
    and ok: "list_all2 (row_describes marshal ords nodeId) (filter (storable marshal) msgs) rows2"
      "list_all2 (\<lambda>msg e. \<exists>r. e = htlc_event_of (hm_Now msg) nodeId r \<and>
                 (storable marshal msg \<longrightarrow> row_describes marshal ords nodeId msg r)) msgs evs"
    by blast
  have "handle_all (handle_htlc_event True zero_time marshal ords nodeId) (msg # msgs) (row, table)
      = (htlc_event_of (hm_Now msg) nodeId row1 # evs, row2, table @ (rows1 @ rows2))"
    using one rest by simp
  moreover have "list_all2 (row_describes marshal ords nodeId) (filter (storable marshal) (msg # msgs)) (rows1 @ rows2)"
    using desc ok(1) by auto
  ultimately show ?case using desc ok(2) by fastforce
qed simp


text \<open>The same for the peers, whose events all name a known node.\<close>

lemma peer_subscription_reports:
  assumes "SubscribePeerEvents True ords nodeSettings turns = (em, s, w)"
  shows "distinct_adj (Inactive # statuses_of em) \<and> set (statuses_of em) \<subseteq> {Pending, Active}
     \<and> list_all (\<lambda>e. pe_EventNodeId e \<noteq> 0 \<and> ev_NodeId e = mns_NodeId nodeSettings) (events_of em)"
proof -
  have "list_all (\<lambda>e. pe_EventNodeId e \<noteq> 0 \<and> ev_NodeId e = mns_NodeId nodeSettings)
      (fst (handle_all (handle_peer_event True ords nodeSettings) ms u))" for ms u
    by (induction ms arbitrary: u) (auto simp: handle_peer_event_def split: prod.splits option.splits if_splits)
  with peer_events.handled_in_order [OF assms [unfolded SubscribePeerEvents_def]]
    peer_events.statuses_alternate [OF assms [unfolded SubscribePeerEvents_def]]
  show ?thesis by (metis fst_conv)
qed

text \<open>
  An event of a kind the code does not know is not stored, and the last stored event is sent again.
\<close>

lemma other_htlc_event_repeats:
  assumes "lhe_Event (hm_Event msg) = LndOtherHtlc"
  shows "handle_htlc_event True zero_time marshal ords nodeId msg (row, table)
           = Some ([htlc_event_of (hm_Now msg) nodeId row], row, table)"
  using assms by (simp add: handle_htlc_event_def event_type_text_def)

text \<open>An event that cannot be stored is sent as an event without data.\<close>

lemma unstored_htlc_event_is_zero:
  assumes "event_type_text (lhe_Event (hm_Event msg)) = Some ty" and "marshal (hm_Event msg) = Inl e"
  shows "handle_htlc_event True zero_time marshal ords nodeId msg (row, table)
           = Some ([htlc_event_of (hm_Now msg) nodeId (zeroHtlcRow zero_time)], zeroHtlcRow zero_time, table)"
  using assms by (simp add: handle_htlc_event_def storeFullEvent_def)

lemma silent_without_channel:
  "fst (SubscribeAndStoreHtlcEvents False zero_time marshal ords nodeSettings turns table) = []"
  "fst (SubscribePeerEvents False node_ords nodeSettings turns') = []"
  unfolding SubscribeAndStoreHtlcEvents_def SubscribePeerEvents_def
  by (rule htlc_events.silent_run peer_events.silent_run, simp)+

text \<open>Rounding moves an instant by at most half a microsecond.\<close>

lemma convertMicro_close: "\<bar>convertMicro ns - sint ns\<bar> \<le> 500 \<and> convertMicro ns mod 1000 = 0"
proof -
  have "(sint ns + 500) mod 1000 = sint ns + 500 - (sint ns + 500) div 1000 * 1000"
    by (simp add: minus_div_mult_eq_mod)
  moreover have "0 \<le> (sint ns + 500) mod 1000" "(sint ns + 500) mod 1000 < 1000" by simp_all
  ultimately show ?thesis unfolding convertMicro_def by (simp add: abs_if)
qed

section \<open>Witnesses\<close>

definition sample_htlc :: LndHtlcEvent where
  "sample_htlc = \<lparr>lhe_EventType = ''FORWARD'', lhe_IncomingChannelId = 0, lhe_OutgoingChannelId = 0,
     lhe_IncomingHtlcId = 3, lhe_OutgoingHtlcId = 4, lhe_TimestampNs = 1000, lhe_Event = LndSettle\<rparr>"

lemma sample_htlc_stored:
  "\<exists>row. storeFullEvent 0 (\<lambda>h. Ok ''{}'') None (id, id) emptyChannelState sample_htlc 1 ''SettleEvent'' []
     = Some (row, None, [row])"
  by (simp add: storeFullEvent_def sample_htlc_def getChannelIdByLndShortChannelId_def channel_reads
      GetChannelIdByShortChannelId_def ConvertLNDShortChannelID_text add_kind_def addHtlcEvent_def
      processManagedChannel_def Let_def)

lemma settled_htlc_stays_pending_witness:
  "\<exists>row. SetChannelStateBalanceHtlcEvent (exampleEnv 0) (htlc_event_of 0 1 row) exampleCache
     = Served exampleCache None"
proof -
  obtain row where "storeFullEvent 0 (\<lambda>h. Ok ''{}'') None (id, id) emptyChannelState sample_htlc 1 ''SettleEvent'' []
     = Some (row, None, [row])" using sample_htlc_stored by blast
  with settled_htlc_stays_pending [OF this] show ?thesis
    by (auto simp: event_type_text_def sample_htlc_def)
qed


end
