(* ===== verification/LndForwards.thy ===== *)
theory LndForwards
  imports LndStreams
begin

text \<open>
  \<open>src/pkg/lnd/forwards.go\<close>: at every tick the forwards since the last stored one are fetched from
  LND, in rounds of a maximal number, stored in the forward table and sent as events.  The table is
  a list of rows with its conflict rule; LND's answers, the failures of the database and the
  channel cache at each round are parameters.
\<close>

definition STREAM_LND_MAX_FORWARDS :: int where
  "STREAM_LND_MAX_FORWARDS = 50000"

record LndForwardingEvent =
  lfe_ChanIdIn :: uint64
  lfe_ChanIdOut :: uint64
  lfe_TimestampNs :: uint64
  lfe_FeeMsat :: uint64
  lfe_AmtInMsat :: uint64
  lfe_AmtOutMsat :: uint64

record ForwardRow =
  fw_Time :: time
  fw_TimeNs :: uint64
  fw_FeeMsat :: uint64
  fw_AmtInMsat :: uint64
  fw_AmtOutMsat :: uint64
  fw_IncomingChannelId :: "int option"
  fw_OutgoingChannelId :: "int option"
  fw_NodeId :: int

text \<open>\<open>ON CONFLICT (time, time_ns) DO NOTHING\<close>.\<close>

definition insert_forward :: "ForwardRow \<Rightarrow> ForwardRow list \<Rightarrow> ForwardRow list" where
  "insert_forward row table =
     (if list_ex (\<lambda>r. fw_Time r = fw_Time row \<and> fw_TimeNs r = fw_TimeNs row) table then table
      else table @ [row])"

record StoreFailures =
  sf_Prepare :: "go_error option"
  sf_Exec :: "nat \<Rightarrow> go_error option"
  sf_Close :: "go_error option"
  sf_Commit :: "go_error option"

definition forward_row :: "LndForwardingEvent \<Rightarrow> int option \<Rightarrow> int option \<Rightarrow> int \<Rightarrow> ForwardRow" where
  "forward_row event incoming outgoing nodeId =
     \<lparr>fw_Time = convertMicro (lfe_TimestampNs event), fw_TimeNs = lfe_TimestampNs event,
      fw_FeeMsat = lfe_FeeMsat event, fw_AmtInMsat = lfe_AmtInMsat event,
      fw_AmtOutMsat = lfe_AmtOutMsat event, fw_IncomingChannelId = incoming,
      fw_OutgoingChannelId = outgoing, fw_NodeId = nodeId\<rparr>"

definition forward_event :: "time \<Rightarrow> LndForwardingEvent \<Rightarrow> int option \<Rightarrow> int option \<Rightarrow> int \<Rightarrow> ForwardEvent" where
  "forward_event now event incoming outgoing nodeId =
     \<lparr>ev_EventTime = now, ev_NodeId = nodeId, fe_Timestamp = convertMicro (lfe_TimestampNs event),
      fe_FeeMsat = lfe_FeeMsat event, fe_AmountInMsat = lfe_AmtInMsat event,
      fe_AmountOutMsat = lfe_AmtOutMsat event, fe_OutgoingChannelId = outgoing,
      fe_IncomingChannelId = incoming\<rparr>"

text \<open>
  The inserts of one transaction: the table and the events so far, or an error; None when the
  channel cache gives no answer.
\<close>

fun insert_forwards ::
    "(nat \<Rightarrow> go_error option) \<Rightarrow> channel_orders \<Rightarrow> ChannelState \<Rightarrow> time \<Rightarrow> int \<Rightarrow> nat \<Rightarrow>
     LndForwardingEvent list \<Rightarrow> ForwardRow list \<Rightarrow> ForwardEvent list \<Rightarrow>
     (ForwardRow list \<times> ForwardEvent list) result option" where
  "insert_forwards execFails ords channels now nodeId i [] table events = Some (Ok (table, events))"
| "insert_forwards execFails ords channels now nodeId i (event # fwh) table events =
     (case (getChannelIdByLndShortChannelId ords channels (lfe_ChanIdIn event),
            getChannelIdByLndShortChannelId ords channels (lfe_ChanIdOut event)) of
        (Some incoming, Some outgoing) \<Rightarrow>
          (case execFails i of
             Some e \<Rightarrow> Some (Inl e)
           | None \<Rightarrow> insert_forwards execFails ords channels now nodeId (i + 1) fwh
                       (insert_forward (forward_row event incoming outgoing nodeId) table)
                       (events @ [forward_event now event incoming outgoing nodeId]))
      | _ \<Rightarrow> None)"

definition storeForwardingHistory ::
    "StoreFailures \<Rightarrow> channel_orders \<Rightarrow> ChannelState \<Rightarrow> time \<Rightarrow> LndForwardingEvent list \<Rightarrow> int \<Rightarrow> bool \<Rightarrow> bool \<Rightarrow>
     ForwardRow list \<Rightarrow> (ForwardEvent list \<times> ForwardRow list \<times> go_error option) option" where
  "storeForwardingHistory fails ords channels now fwh nodeId eventChannel bootStrapping table =
     (if length fwh > 0
      then (case sf_Prepare fails of
              Some e \<Rightarrow> Some ([], table, Some e)
            | None \<Rightarrow>
                (case insert_forwards (sf_Exec fails) ords channels now nodeId 0 fwh table [] of
                   None \<Rightarrow> None
                 | Some (Inl e) \<Rightarrow> Some ([], table, Some e)
                 | Some (Inr (table1, forwardEvents)) \<Rightarrow>
                     (case sf_Close fails of
                        Some e \<Rightarrow> Some ([], table, Some e)
                      | None \<Rightarrow>
                          (case sf_Commit fails of
                             Some e \<Rightarrow> Some ([], table, Some e)
                           | None \<Rightarrow> Some (if eventChannel \<and> \<not> bootStrapping then forwardEvents else [],
                                        table1, None)))))
      else Some ([], table, None))"

text \<open>The largest stored time of the node, 0 without one.\<close>

definition fetchLastForwardTime :: "go_error option \<Rightarrow> ForwardRow list \<Rightarrow> int \<Rightarrow> uint64 result" where
  "fetchLastForwardTime scanFails table nodeId =
     (case scanFails of
        Some e \<Rightarrow> Inl e
      | None \<Rightarrow> Ok (foldr max (map fw_TimeNs (filter (\<lambda>r. fw_NodeId r = nodeId) table)) 0))"

text \<open>
  The option \<open>MaxEvents\<close> overrides the maximum when it is above it or not positive; reading it panics
  when it is nil.
\<close>

definition forwards_max_events :: "int option option \<Rightarrow> int option" where
  "forwards_max_events options =
     (case options of
        None \<Rightarrow> Some STREAM_LND_MAX_FORWARDS
      | Some None \<Rightarrow> None
      | Some (Some m) \<Rightarrow>
          if m > STREAM_LND_MAX_FORWARDS \<or> m \<le> 0 then Some m else Some STREAM_LND_MAX_FORWARDS)"

text \<open>
  One round of fetching: LND answers a start time in seconds and a maximal number, or fails, with
  the context cancelled or not.
\<close>

record ForwardRound =
  rd_ScanFails :: "go_error option"
  rd_ForwardingHistory :: "uint64 \<Rightarrow> uint32 \<Rightarrow> bool + LndForwardingEvent list"
  rd_Fails :: StoreFailures
  rd_Channels :: ChannelState
  rd_Now :: time

datatype round_end = TickDone | LoopReturned | StillFetching | StuckFetching

fun forward_rounds ::
    "bool \<Rightarrow> channel_orders \<Rightarrow> int \<Rightarrow> int \<Rightarrow> ForwardRound list \<Rightarrow> Status \<Rightarrow> bool \<Rightarrow> ForwardRow list \<Rightarrow>
     ForwardEvent emitted list \<times> round_end \<times> Status \<times> bool \<times> ForwardRow list" where
  "forward_rounds ec ords nodeId maxEvents [] status boot table = ([], StillFetching, status, boot, table)"
| "forward_rounds ec ords nodeId maxEvents (r # rs) status boot table =
     (case fetchLastForwardTime (rd_ScanFails r) table nodeId of
        Inl e \<Rightarrow> (send_status ec Pending status, TickDone, Pending, boot, table)
      | Inr lastNs \<Rightarrow>
          (case rd_ForwardingHistory r (lastNs div 1000000000) (word_of_int maxEvents) of
             Inl True \<Rightarrow> ([], LoopReturned, status, boot, table)
           | Inl False \<Rightarrow> (send_status ec Pending status, TickDone, Pending, boot, table)
           | Inr fwh \<Rightarrow>
               (let now_status = (if boot then Initializing else Active);
                    announced = send_status ec now_status status
                in case storeForwardingHistory (rd_Fails r) ords (rd_Channels r) (rd_Now r) fwh nodeId ec boot table of
                     None \<Rightarrow> (announced, StuckFetching, now_status, boot, table)
                   | Some (events, table1, err) \<Rightarrow>
                       (let em = announced @ map Emitted events
                        in if int (length fwh) < maxEvents
                           then (em, TickDone, now_status, False, table1)
                           else case forward_rounds ec ords nodeId maxEvents rs now_status boot table1 of
                                  (ems, rest) \<Rightarrow> (em @ ems, rest)))))"

text \<open>A tick with its rounds, or the cancelled context.\<close>

fun forward_ticks ::
    "bool \<Rightarrow> channel_orders \<Rightarrow> int \<Rightarrow> int \<Rightarrow> ForwardRound list option list \<Rightarrow> Status \<Rightarrow> bool \<Rightarrow> ForwardRow list \<Rightarrow>
     ForwardEvent emitted list \<times> round_end \<times> Status \<times> bool \<times> ForwardRow list" where
  "forward_ticks ec ords nodeId maxEvents [] status boot table = ([], TickDone, status, boot, table)"
| "forward_ticks ec ords nodeId maxEvents (None # ticks) status boot table =
     ([], LoopReturned, status, boot, table)"
| "forward_ticks ec ords nodeId maxEvents (Some rounds # ticks) status boot table =
     (case forward_rounds ec ords nodeId maxEvents rounds status boot table of
        (em, TickDone, status1, boot1, table1) \<Rightarrow>
          (case forward_ticks ec ords nodeId maxEvents ticks status1 boot1 table1 of
             (ems, rest) \<Rightarrow> (em @ ems, rest))
      | other \<Rightarrow> other)"

definition SubscribeForwardingEvents ::
    "bool \<Rightarrow> channel_orders \<Rightarrow> ManagedNodeSettings \<Rightarrow> int option option \<Rightarrow> ForwardRound list option list \<Rightarrow>
     ForwardRow list \<Rightarrow> (ForwardEvent emitted list \<times> round_end \<times> Status \<times> bool \<times> ForwardRow list) option" where
  "SubscribeForwardingEvents eventChannel ords nodeSettings options ticks table =
     map_option (\<lambda>maxEvents.
       forward_ticks eventChannel ords (mns_NodeId nodeSettings) maxEvents ticks Inactive True table)
     (forwards_max_events options)"

section \<open>The forward table\<close>

definition forward_keys :: "ForwardRow list \<Rightarrow> (time \<times> uint64) list" where
  "forward_keys table = map (\<lambda>r. (fw_Time r, fw_TimeNs r)) table"

text \<open>A table grows: its rows stay, and no two rows have the same times.\<close>

definition grows :: "ForwardRow list \<Rightarrow> ForwardRow list \<Rightarrow> bool" where
  "grows table table1 \<longleftrightarrow>
     (\<exists>rows. table1 = table @ rows) \<and> (distinct (forward_keys table) \<longrightarrow> distinct (forward_keys table1))"

lemma grows_refl [simp]: "grows table table"
  by (simp add: grows_def)

lemma grows_trans: "grows a b \<Longrightarrow> grows b c \<Longrightarrow> grows a c"
  by (auto simp: grows_def)

lemma grows_insert: "grows table (insert_forward row table)"
  by (auto simp: grows_def insert_forward_def forward_keys_def list_ex_iff)

lemma insert_forwards_grows:
  "insert_forwards execFails ords channels now nodeId i fwh table events = Some (Ok (table1, events1)) \<Longrightarrow>
     grows table table1"
  by (induction execFails ords channels now nodeId i fwh table events rule: insert_forwards.induct)
    (auto split: option.splits prod.splits intro: grows_trans [OF grows_insert])

lemma insert_forwards_known:
  assumes "insert_forwards execFails ords channels now nodeId i fwh table events = Some (Ok (table1, events1))"
    and "\<forall>e \<in> set fwh. (convertMicro (lfe_TimestampNs e), lfe_TimestampNs e) \<in> set (forward_keys table)"
  shows "table1 = table \<and> length events1 = length events + length fwh"
  using assms
proof (induction execFails ords channels now nodeId i fwh table events rule: insert_forwards.induct)
  case (2 execFails ords channels now nodeId i event fwh table events)
  have "insert_forward (forward_row event a b nodeId) table = table" for a b
    using 2(3) by (auto simp: insert_forward_def forward_row_def forward_keys_def list_ex_iff)
  with 2 show ?case by (auto split: option.splits)
qed simp

lemma storeForwardingHistory_grows:
  assumes "storeForwardingHistory fails ords channels now fwh nodeId ec boot table = Some (events, table1, err)"
  shows "grows table table1" and "boot \<or> \<not> ec \<Longrightarrow> events = []" and "err \<noteq> None \<Longrightarrow> events = [] \<and> table1 = table"
  using assms
  by (auto simp: storeForwardingHistory_def insert_forwards_grows split: if_splits option.splits sum.splits prod.splits)

lemma forward_rounds_ok:
  "forward_rounds ec ords nodeId maxEvents rs status boot table = (em, fin, status1, boot1, table1) \<Longrightarrow>
     grows table table1 \<and> (boot \<or> \<not> ec \<longrightarrow> events_of em = []) \<and> (boot1 \<longrightarrow> boot)"
proof (induction ec ords nodeId maxEvents rs status boot table arbitrary: em fin status1 boot1 table1
    rule: forward_rounds.induct)
  case (2 ec ords nodeId maxEvents r rs status boot table)
  show ?case
  proof (cases "fetchLastForwardTime (rd_ScanFails r) table nodeId")
    case (Inl e)
    with 2(2) show ?thesis by auto
  next
    case (Inr lastNs)
    show ?thesis
    proof (cases "rd_ForwardingHistory r (lastNs div 1000000000) (word_of_int maxEvents)")
      case (Inl c)
      with Inr 2(2) show ?thesis by (cases c) auto
    next
      case fwh: (Inr fwh)
      show ?thesis
      proof (cases "storeForwardingHistory (rd_Fails r) ords (rd_Channels r) (rd_Now r) fwh nodeId ec boot table")
        case None
        with Inr fwh 2(2) show ?thesis by (auto simp: Let_def)
      next
        case (Some x)
        obtain events t2 err where x: "x = (events, t2, err)" by (metis prod_cases3)
        note stored = storeForwardingHistory_grows [OF Some [unfolded x]]
        show ?thesis
        proof (cases "int (length fwh) < maxEvents")
          case True
          with Inr fwh Some x 2(2) stored show ?thesis by (auto simp: Let_def)
        next
          case False
          obtain ems f3 s3 b3 t3 where rest: "forward_rounds ec ords nodeId maxEvents rs
              (if boot then Initializing else Active) boot t2 = (ems, f3, s3, b3, t3)"
            by (metis prod_cases5)
          note ih = 2(1) [OF Inr fwh refl refl Some [unfolded x] refl refl refl False rest]
          with False rest Inr fwh Some x 2(2) stored show ?thesis
            by (auto simp: Let_def intro: grows_trans)
        qed
      qed
    qed
  qed
qed simp

lemma forward_ticks_ok:
  "forward_ticks ec ords nodeId maxEvents ticks status boot table = (em, fin, status1, boot1, table1) \<Longrightarrow>
     grows table table1 \<and> (\<not> ec \<longrightarrow> events_of em = [])"
proof (induction ec ords nodeId maxEvents ticks status boot table arbitrary: em fin status1 boot1 table1
    rule: forward_ticks.induct)
  case (3 ec ords nodeId maxEvents rounds ticks status boot table)
  obtain e2 f2 s2 b2 t2 where one: "forward_rounds ec ords nodeId maxEvents rounds status boot table = (e2, f2, s2, b2, t2)"
    by (metis prod_cases5)
  note first = forward_rounds_ok [OF one]
  show ?case
  proof (cases f2)
    case TickDone
    obtain e3 f3 s3 b3 t3 where rest: "forward_ticks ec ords nodeId maxEvents ticks s2 b2 t2 = (e3, f3, s3, b3, t3)"
      by (metis prod_cases5)
    note ih = 3(1) [OF one [unfolded TickDone, symmetric] refl refl refl refl rest]
    with 3(2) one TickDone rest first show ?thesis by (auto intro: grows_trans)
  qed (use 3(2) one first in auto)
qed auto

text \<open>
  However long the forwards subscription runs and whatever LND and the database do, it only
  adds rows to the forward table, never two with the same times, and sends nothing without an
  event channel.
\<close>
lemma forwards_only_added:
  assumes "SubscribeForwardingEvents ec ords nodeSettings options ticks table
             = Some (em, fin, status, boot, table1)"
    and "distinct (forward_keys table)"
  shows "distinct (forward_keys table1) \<and> (\<exists>rows. table1 = table @ rows) \<and> (\<not> ec \<longrightarrow> events_of em = [])"
  using assms forward_ticks_ok by (fastforce simp: SubscribeForwardingEvents_def grows_def)

section \<open>What LND has and what is stored\<close>

text \<open>
  LND keeps its forwards in the order of their times and answers a request with those from the
  second of the start time on, the oldest first and no more than asked for.
\<close>

definition second_of :: "uint64 \<Rightarrow> uint64" where
  "second_of ns = ns div 1000000000"

definition page :: "LndForwardingEvent list \<Rightarrow> uint64 \<Rightarrow> uint32 \<Rightarrow> LndForwardingEvent list" where
  "page H start num = take (unat num) (filter (\<lambda>e. start \<le> second_of (lfe_TimestampNs e)) H)"

text \<open>
  An answer comes from the forwards there were at the time, a first part of \<open>H\<close>; in a good round
  LND answers from all of \<open>H\<close> and the database works.
\<close>

definition answers_from :: "LndForwardingEvent list \<Rightarrow> ForwardRound \<Rightarrow> bool" where
  "answers_from H r \<longleftrightarrow>
     (\<forall>start num xs. rd_ForwardingHistory r start num = Inr xs \<longrightarrow> (\<exists>p q. H = p @ q \<and> xs = page p start num))"

definition no_failures :: StoreFailures where
  "no_failures = \<lparr>sf_Prepare = None, sf_Exec = (\<lambda>i. None), sf_Close = None, sf_Commit = None\<rparr>"

definition good_round :: "LndForwardingEvent list \<Rightarrow> ForwardRound \<Rightarrow> bool" where
  "good_round H r \<longleftrightarrow> rd_ScanFails r = None \<and> rd_Fails r = no_failures \<and>
     rd_ForwardingHistory r = (\<lambda>start num. Inr (page H start num))"

definition forward_key :: "LndForwardingEvent \<Rightarrow> time \<times> uint64" where
  "forward_key e = (convertMicro (lfe_TimestampNs e), lfe_TimestampNs e)"

definition last_ns :: "int \<Rightarrow> ForwardRow list \<Rightarrow> uint64" where
  "last_ns nodeId table = foldr max (map fw_TimeNs (filter (\<lambda>r. fw_NodeId r = nodeId) table)) 0"

text \<open>
  A table is fit for the forwards \<open>H\<close> of a node: no two rows share their times, every forward up
  to the node's latest row is there, and no row of another node has the time of a forward.
\<close>

definition fit :: "int \<Rightarrow> LndForwardingEvent list \<Rightarrow> ForwardRow list \<Rightarrow> bool" where
  "fit nodeId H table \<longleftrightarrow> distinct (forward_keys table) \<and>
     (\<forall>e\<in>set H. lfe_TimestampNs e \<le> last_ns nodeId table \<longrightarrow> forward_key e \<in> set (forward_keys table)) \<and>
     (\<forall>r\<in>set table. fw_NodeId r \<noteq> nodeId \<longrightarrow> (fw_Time r, fw_TimeNs r) \<notin> forward_key ` set H)"

text \<open>Every row that was added is that of a forward of the node.\<close>

definition adds_forwards :: "int \<Rightarrow> LndForwardingEvent list \<Rightarrow> ForwardRow list \<Rightarrow> ForwardRow list \<Rightarrow> bool" where
  "adds_forwards nodeId H table table1 \<longleftrightarrow>
     (\<exists>rows. table1 = table @ rows \<and>
        (\<forall>row\<in>set rows. \<exists>e\<in>set H. \<exists>incoming outgoing. row = forward_row e incoming outgoing nodeId))"

lemma adds_forwards_refl [simp]: "adds_forwards nodeId H table table"
  by (simp add: adds_forwards_def)

lemma adds_forwards_trans:
  "adds_forwards nodeId H a b \<Longrightarrow> adds_forwards nodeId H b c \<Longrightarrow> adds_forwards nodeId H a c"
  by (force simp: adds_forwards_def)

lemma adds_forwards_mono: "adds_forwards nodeId xs a b \<Longrightarrow> set xs \<subseteq> set H \<Longrightarrow> adds_forwards nodeId H a b"
  unfolding adds_forwards_def by (elim exE conjE, intro exI conjI, assumption) blast

lemma second_of_mono: "ns \<le> ms \<Longrightarrow> second_of ns \<le> second_of ms"
  by (simp add: second_of_def word_le_nat_alt unat_div_distrib div_le_mono)

lemma foldr_max_word:
  fixes xs :: "'a::len word list"
  shows "x \<in> set xs \<Longrightarrow> x \<le> foldr max xs 0" and "foldr max xs 0 = 0 \<or> foldr max xs 0 \<in> set xs"
  by (induction xs) (auto simp: max_def)

lemma last_ns_ge: "r \<in> set table \<Longrightarrow> fw_NodeId r = nodeId \<Longrightarrow> fw_TimeNs r \<le> last_ns nodeId table"
  unfolding last_ns_def by (rule foldr_max_word(1)) auto

lemma last_ns_attained:
  "last_ns nodeId table = 0 \<or> (\<exists>r\<in>set table. fw_NodeId r = nodeId \<and> fw_TimeNs r = last_ns nodeId table)"
  using foldr_max_word(2) [of "map fw_TimeNs (filter (\<lambda>r. fw_NodeId r = nodeId) table)"]
  unfolding last_ns_def by auto

lemma forward_row_key: "(fw_Time (forward_row e a b n), fw_TimeNs (forward_row e a b n)) = forward_key e"
    "fw_NodeId (forward_row e a b n) = n" "fw_TimeNs (forward_row e a b n) = lfe_TimestampNs e"
  by (simp_all add: forward_row_def forward_key_def)

text \<open>What the inserts of a transaction leave in the table.\<close>

lemma insert_forwards_rows:
  "insert_forwards execFails ords channels now nodeId i fwh table events = Some (Ok (table1, events1)) \<Longrightarrow>
     adds_forwards nodeId fwh table table1 \<and>
     set (forward_keys table1) = set (forward_keys table) \<union> forward_key ` set fwh"
proof (induction execFails ords channels now nodeId i fwh table events rule: insert_forwards.induct)
  case (2 execFails ords channels now nodeId i event fwh table events)
  from 2(2) obtain a b where "execFails i = None"
      "getChannelIdByLndShortChannelId ords channels (lfe_ChanIdIn event) = Some a"
      "getChannelIdByLndShortChannelId ords channels (lfe_ChanIdOut event) = Some b"
    by (auto split: option.splits)
  with 2 have ih: "adds_forwards nodeId fwh (insert_forward (forward_row event a b nodeId) table) table1"
      "set (forward_keys table1) =
         set (forward_keys (insert_forward (forward_row event a b nodeId) table)) \<union> forward_key ` set fwh"
    by auto
  have one: "adds_forwards nodeId [event] table (insert_forward (forward_row event a b nodeId) table)"
    by (auto simp: adds_forwards_def insert_forward_def)
  have "adds_forwards nodeId (event # fwh) table table1"
    by (rule adds_forwards_trans [OF adds_forwards_mono [OF one] adds_forwards_mono [OF ih(1)]]) auto
  moreover have "set (forward_keys (insert_forward (forward_row event a b nodeId) table)) =
      insert (forward_key event) (set (forward_keys table))"
    by (force simp: insert_forward_def forward_keys_def list_ex_iff forward_row_def forward_key_def)
  ultimately show ?case using ih(2) by auto
qed simp

lemma insert_forwards_works:
  "\<exists>res. insert_forwards (\<lambda>i. None) ords channels now nodeId i fwh table events = Some (Ok res)"
proof (induction fwh arbitrary: i table events)
  case (Cons event fwh)
  obtain a b where "getChannelIdByLndShortChannelId ords channels (lfe_ChanIdIn event) = Some a"
    "getChannelIdByLndShortChannelId ords channels (lfe_ChanIdOut event) = Some b"
    using getChannelIdByLndShortChannelId_answers by metis
  with Cons show ?case by simp
qed simp

lemma storeForwardingHistory_rows:
  assumes "storeForwardingHistory fails ords channels now fwh nodeId ec boot table = Some (events, table1, err)"
  shows "adds_forwards nodeId fwh table table1 \<and>
    (table1 = table \<or> set (forward_keys table1) = set (forward_keys table) \<union> forward_key ` set fwh)"
  using assms
  by (auto simp: storeForwardingHistory_def dest: insert_forwards_rows split: if_splits option.splits sum.splits prod.splits)

lemma storeForwardingHistory_works:
  "\<exists>events table1. storeForwardingHistory no_failures ords channels now fwh nodeId ec boot table = Some (events, table1, None) \<and>
     set (forward_keys table1) = set (forward_keys table) \<union> forward_key ` set fwh"
proof (cases "fwh = []")
  case False
  obtain table1 events where ins:
    "insert_forwards (\<lambda>i. None) ords channels now nodeId 0 fwh table [] = Some (Ok (table1, events))"
    using insert_forwards_works [of ords channels now nodeId 0 fwh table "[]"] by auto
  with False insert_forwards_rows [OF ins] show ?thesis by (simp add: storeForwardingHistory_def no_failures_def)
qed (simp add: storeForwardingHistory_def)

lemma last_ns_added:
  assumes "adds_forwards nodeId fwh table table1"
  shows "last_ns nodeId table1 = last_ns nodeId table \<or>
    (\<exists>e\<in>set fwh. last_ns nodeId table1 = lfe_TimestampNs e)" and "last_ns nodeId table \<le> last_ns nodeId table1"
proof -
  from assms obtain rows where rows: "table1 = table @ rows"
      "\<forall>row\<in>set rows. \<exists>e\<in>set fwh. \<exists>a b. row = forward_row e a b nodeId"
    by (auto simp: adds_forwards_def)
  show le: "last_ns nodeId table \<le> last_ns nodeId table1"
    using last_ns_attained [of nodeId table]
  proof
    assume "\<exists>r\<in>set table. fw_NodeId r = nodeId \<and> fw_TimeNs r = last_ns nodeId table"
    then obtain r where "r \<in> set table1" "fw_NodeId r = nodeId" "fw_TimeNs r = last_ns nodeId table"
      using rows(1) by auto
    with last_ns_ge [of r table1 nodeId] show ?thesis by simp
  qed simp
  from last_ns_attained [of nodeId table1]
  show "last_ns nodeId table1 = last_ns nodeId table \<or> (\<exists>e\<in>set fwh. last_ns nodeId table1 = lfe_TimestampNs e)"
  proof
    assume "last_ns nodeId table1 = 0"
    with le show ?thesis by simp
  next
    assume "\<exists>r\<in>set table1. fw_NodeId r = nodeId \<and> fw_TimeNs r = last_ns nodeId table1"
    then obtain r where r: "r \<in> set table1" "fw_NodeId r = nodeId" "fw_TimeNs r = last_ns nodeId table1" by blast
    show ?thesis
    proof (cases "r \<in> set table")
      case True
      with r last_ns_ge [of r table nodeId] le show ?thesis by simp
    next
      case False
      with r rows obtain e a b where "e \<in> set fwh" "r = forward_row e a b nodeId" by auto
      with r(3) show ?thesis by (metis forward_row_key(3))
    qed
  qed
qed

text \<open>A page holds, up to equal times, every forward that is not after its last one.\<close>

lemma page_no_gap:
  assumes sorted: "sorted (map lfe_TimestampNs H)" and H: "H = p @ q"
    and e': "e' \<in> set (page p start num)" and e: "e \<in> set H" "start \<le> second_of (lfe_TimestampNs e)"
    and le: "lfe_TimestampNs e \<le> lfe_TimestampNs e'"
  shows "forward_key e \<in> forward_key ` set (page p start num)"
proof (cases "lfe_TimestampNs e = lfe_TimestampNs e'")
  case True
  then have "forward_key e = forward_key e'" by (simp add: forward_key_def)
  with e' show ?thesis by simp
next
  case False
  with le have less: "lfe_TimestampNs e < lfe_TimestampNs e'" by simp
  let ?L = "filter (\<lambda>e. start \<le> second_of (lfe_TimestampNs e)) p"
  have e'L: "e' \<in> set (take (unat num) ?L)" using e' by (simp add: page_def)
  then have "e' \<in> set p" by (auto dest: in_set_takeD)
  have "e \<in> set p"
  proof (rule ccontr)
    assume "e \<notin> set p"
    with e(1) H have "e \<in> set q" by simp
    with sorted H \<open>e' \<in> set p\<close> have "lfe_TimestampNs e' \<le> lfe_TimestampNs e"
      by (auto simp: sorted_append)
    with less show False by simp
  qed
  with e(2) have "e \<in> set ?L" by simp
  then consider "e \<in> set (take (unat num) ?L)" | "e \<in> set (drop (unat num) ?L)"
    by (metis Un_iff append_take_drop_id set_append)
  then show ?thesis
  proof cases
    case 1
    then show ?thesis by (auto simp: page_def)
  next
    case 2
    have "sorted (map lfe_TimestampNs ?L)" using sorted H by (simp add: sorted_append sorted_filter)
    then have "sorted (map lfe_TimestampNs (take (unat num) ?L) @ map lfe_TimestampNs (drop (unat num) ?L))"
      unfolding map_append [symmetric] append_take_drop_id .
    then have "\<forall>x\<in>lfe_TimestampNs ` set (take (unat num) ?L). \<forall>y\<in>lfe_TimestampNs ` set (drop (unat num) ?L). x \<le> y"
      unfolding sorted_append set_map by blast
    with 2 e'L have "lfe_TimestampNs e' \<le> lfe_TimestampNs e" by blast
    with less show ?thesis by simp
  qed
qed

lemma fit_round:
  assumes fit: "fit nodeId H table" and sorted: "sorted (map lfe_TimestampNs H)" and H: "H = p @ q"
    and stored: "storeForwardingHistory fails ords channels now (page p (second_of (last_ns nodeId table)) num)
      nodeId ec boot table = Some (events, table1, err)"
  shows "fit nodeId H table1" and "adds_forwards nodeId H table table1"
proof -
  let ?page = "page p (second_of (last_ns nodeId table)) num"
  have "set ?page \<subseteq> set p" unfolding page_def by (rule subset_trans [OF set_take_subset filter_is_subset])
  then have sub: "set ?page \<subseteq> set H" using H by auto
  from storeForwardingHistory_rows [OF stored] have adds: "adds_forwards nodeId ?page table table1"
    and keys: "table1 = table \<or> set (forward_keys table1) = set (forward_keys table) \<union> forward_key ` set ?page"
    by auto
  show added: "adds_forwards nodeId H table table1" by (rule adds_forwards_mono [OF adds sub])
  have "distinct (forward_keys table1)"
    using storeForwardingHistory_grows(1) [OF stored] fit by (simp add: grows_def fit_def)
  moreover have "forward_key e \<in> set (forward_keys table1)"
    if e: "e \<in> set H" "lfe_TimestampNs e \<le> last_ns nodeId table1" for e
  proof (cases "lfe_TimestampNs e \<le> last_ns nodeId table")
    case True
    with fit e(1) keys show ?thesis by (auto simp: fit_def)
  next
    case False
    with e(2) last_ns_added(1) [OF adds] obtain e' where
      e': "e' \<in> set ?page" "last_ns nodeId table1 = lfe_TimestampNs e'" by auto
    from False have "second_of (last_ns nodeId table) \<le> second_of (lfe_TimestampNs e)"
      by (intro second_of_mono) simp
    with page_no_gap [OF sorted H e'(1) e(1)] e(2) e'(2) have "forward_key e \<in> forward_key ` set ?page" by simp
    moreover have "table1 \<noteq> table" using False e(2) by auto
    ultimately show ?thesis using keys by auto
  qed
  moreover have "(fw_Time r, fw_TimeNs r) \<notin> forward_key ` set H"
    if "r \<in> set table1" "fw_NodeId r \<noteq> nodeId" for r
  proof -
    from added obtain rows where rows: "table1 = table @ rows"
        "\<forall>row\<in>set rows. \<exists>e\<in>set H. \<exists>a b. row = forward_row e a b nodeId"
      unfolding adds_forwards_def by blast
    with that(2) have "r \<notin> set rows" by (auto simp: forward_row_key)
    with rows(1) that(1) have "r \<in> set table" by simp
    with that(2) fit show ?thesis unfolding fit_def by blast
  qed
  ultimately show "fit nodeId H table1" by (simp add: fit_def)
qed

lemma fetched_last: "fetchLastForwardTime None table nodeId = Ok (last_ns nodeId table)"
  by (simp add: fetchLastForwardTime_def last_ns_def)

lemma fetchLastForwardTime_Ok:
  "fetchLastForwardTime f table nodeId = Inr lastNs \<Longrightarrow> lastNs = last_ns nodeId table"
  by (simp add: fetchLastForwardTime_def last_ns_def split: option.splits)

text \<open>Rounds keep the table fit, whatever fails in them.\<close>

lemma forward_rounds_fit:
  "forward_rounds ec ords nodeId maxEvents rs status boot table = (em, fin, status1, boot1, table1) \<Longrightarrow>
   sorted (map lfe_TimestampNs H) \<Longrightarrow> \<forall>r\<in>set rs. answers_from H r \<Longrightarrow> fit nodeId H table \<Longrightarrow>
   fit nodeId H table1 \<and> adds_forwards nodeId H table table1"
proof (induction ec ords nodeId maxEvents rs status boot table arbitrary: em fin status1 boot1 table1
    rule: forward_rounds.induct)
  case (2 ec ords nodeId maxEvents r rs status boot table)
  show ?case
  proof (cases "fetchLastForwardTime (rd_ScanFails r) table nodeId")
    case (Inl e)
    with 2(2,5) show ?thesis by auto
  next
    case (Inr lastNs)
    note lastNs = fetchLastForwardTime_Ok [OF Inr]
    show ?thesis
    proof (cases "rd_ForwardingHistory r (lastNs div 1000000000) (word_of_int maxEvents)")
      case (Inl c)
      with Inr 2(2,5) show ?thesis by (cases c) auto
    next
      case fwh: (Inr fwh)
      from 2(4) have "answers_from H r" by simp
      with fwh have "\<exists>p q. H = p @ q \<and> fwh = page p (lastNs div 1000000000) (word_of_int maxEvents)"
        unfolding answers_from_def by blast
      then obtain p q where H: "H = p @ q"
        and page: "fwh = page p (second_of (last_ns nodeId table)) (word_of_int maxEvents)"
        unfolding lastNs second_of_def by blast
      show ?thesis
      proof (cases "storeForwardingHistory (rd_Fails r) ords (rd_Channels r) (rd_Now r) fwh nodeId ec boot table")
        case None
        with Inr fwh 2(2,5) show ?thesis by (auto simp: Let_def)
      next
        case (Some x)
        obtain events t2 err where x: "x = (events, t2, err)" by (metis prod_cases3)
        note stored = fit_round [OF 2(5) 2(3) H Some [unfolded x page]]
        show ?thesis
        proof (cases "int (length fwh) < maxEvents")
          case True
          with Inr fwh Some x 2(2) stored show ?thesis by (auto simp: Let_def)
        next
          case False
          obtain ems f3 s3 b3 t3 where rest: "forward_rounds ec ords nodeId maxEvents rs
              (if boot then Initializing else Active) boot t2 = (ems, f3, s3, b3, t3)"
            by (metis prod_cases5)
          have "fit nodeId H t3 \<and> adds_forwards nodeId H t2 t3"
            by (rule 2(1) [OF Inr fwh refl refl Some [unfolded x] refl refl refl False rest 2(3) _ stored(1)])
              (use 2(4) in simp)
          with False rest Inr fwh Some x 2(2) stored(2) show ?thesis
            by (auto simp: Let_def intro: adds_forwards_trans)
        qed
      qed
    qed
  qed
qed simp

lemma forward_ticks_fit:
  "forward_ticks ec ords nodeId maxEvents ticks status boot table = (em, fin, status1, boot1, table1) \<Longrightarrow>
   sorted (map lfe_TimestampNs H) \<Longrightarrow> \<forall>rounds. Some rounds \<in> set ticks \<longrightarrow> (\<forall>r\<in>set rounds. answers_from H r) \<Longrightarrow>
   fit nodeId H table \<Longrightarrow> fit nodeId H table1 \<and> adds_forwards nodeId H table table1"
proof (induction ec ords nodeId maxEvents ticks status boot table arbitrary: em fin status1 boot1 table1
    rule: forward_ticks.induct)
  case (3 ec ords nodeId maxEvents rounds ticks status boot table)
  obtain e2 f2 s2 b2 t2 where one: "forward_rounds ec ords nodeId maxEvents rounds status boot table = (e2, f2, s2, b2, t2)"
    by (metis prod_cases5)
  have first: "fit nodeId H t2 \<and> adds_forwards nodeId H table t2"
    by (rule forward_rounds_fit [OF one 3(3) _ 3(5)]) (use 3(4) in simp)
  show ?case
  proof (cases f2)
    case TickDone
    obtain e3 f3 s3 b3 t3 where rest: "forward_ticks ec ords nodeId maxEvents ticks s2 b2 t2 = (e3, f3, s3, b3, t3)"
      by (metis prod_cases5)
    have "fit nodeId H t3 \<and> adds_forwards nodeId H t2 t3"
      by (rule 3(1) [OF one [unfolded TickDone, symmetric] refl refl refl refl rest 3(3)])
        (use 3(4) first in simp_all)
    with 3(2) one TickDone rest first show ?thesis by (auto intro: adds_forwards_trans)
  qed (use 3(2) one first in auto)
qed auto

text \<open>
  A good round that gets a full page gets past the second it started from, when no second holds a
  full page; so the rounds of a tick come to an end, and then nothing is missing.
\<close>

lemma length_filter_less:
  assumes "\<And>x. P x \<Longrightarrow> Q x" and "x \<in> set xs" and "Q x" and "\<not> P x"
  shows "length (filter P xs) < length (filter Q xs)"
proof -
  have "filter P xs = filter P (filter Q xs)" using assms(1) by (auto simp: intro: filter_cong)
  moreover have "length (filter P (filter Q xs)) < length (filter Q xs)"
    by (rule length_filter_less [where x = x]) (use assms in auto)
  ultimately show ?thesis by simp
qed

definition ahead :: "int \<Rightarrow> LndForwardingEvent list \<Rightarrow> ForwardRow list \<Rightarrow> nat" where
  "ahead nodeId H table =
     length (filter (\<lambda>e. second_of (last_ns nodeId table) < second_of (lfe_TimestampNs e)) H)"

lemma full_page_advances:
  assumes fit: "fit nodeId H table" and sorted: "sorted (map lfe_TimestampNs H)"
    and second: "\<forall>s. length (filter (\<lambda>e. second_of (lfe_TimestampNs e) = s) H) < n"
    and page: "fwh = page H (second_of (last_ns nodeId table)) num" and full: "n \<le> length fwh"
    and adds: "adds_forwards nodeId fwh table table1"
    and keys: "set (forward_keys table1) = set (forward_keys table) \<union> forward_key ` set fwh"
    and fit1: "fit nodeId H table1"
  shows "ahead nodeId H table1 < ahead nodeId H table"
proof -
  let ?S = "second_of (last_ns nodeId table)"
  have fwh: "e \<in> set H \<and> ?S \<le> second_of (lfe_TimestampNs e)" if "e \<in> set fwh" for e
    using that unfolding page page_def by (auto dest!: in_set_takeD)
  have "length (filter (\<lambda>e. second_of (lfe_TimestampNs e) = ?S) fwh) \<le>
      length (filter (\<lambda>e. second_of (lfe_TimestampNs e) = ?S) H)"
  proof -
    have "filter (\<lambda>e. second_of (lfe_TimestampNs e) = ?S) H =
        filter (\<lambda>e. second_of (lfe_TimestampNs e) = ?S) (filter (\<lambda>e. ?S \<le> second_of (lfe_TimestampNs e)) H)"
      by (auto intro: filter_cong)
    also have "\<dots> = filter (\<lambda>e. second_of (lfe_TimestampNs e) = ?S)
        (fwh @ drop (unat num) (filter (\<lambda>e. ?S \<le> second_of (lfe_TimestampNs e)) H))"
      by (simp add: page page_def)
    finally show ?thesis by simp
  qed
  also have "\<dots> < n" using second by blast
  finally have "filter (\<lambda>e. second_of (lfe_TimestampNs e) = ?S) fwh \<noteq> fwh" using full by auto
  then obtain e where "e \<in> set fwh" "second_of (lfe_TimestampNs e) \<noteq> ?S"
    by (auto simp: filter_id_conv)
  with fwh have e: "e \<in> set fwh" "e \<in> set H" "?S < second_of (lfe_TimestampNs e)"
    by (auto simp: order.not_eq_order_implies_strict)
  have "lfe_TimestampNs e \<le> last_ns nodeId table1"
  proof -
    from keys e(1) have "forward_key e \<in> set (forward_keys table1)" by auto
    then obtain r where r: "r \<in> set table1" "(fw_Time r, fw_TimeNs r) = forward_key e"
      by (auto simp: forward_keys_def)
    with fit1 e(2) have "fw_NodeId r = nodeId" by (force simp: fit_def)
    from last_ns_ge [OF r(1) this] r(2) show ?thesis by (simp add: forward_key_def)
  qed
  then have past: "second_of (lfe_TimestampNs e) \<le> second_of (last_ns nodeId table1)" by (rule second_of_mono)
  show ?thesis
    unfolding ahead_def
  proof (rule length_filter_less [where x = e])
    fix x assume "second_of (last_ns nodeId table1) < second_of (lfe_TimestampNs x)"
    with second_of_mono [OF last_ns_added(2) [OF adds]]
    show "?S < second_of (lfe_TimestampNs x)" by (rule order.strict_trans1)
  qed (use e past in \<open>simp_all add: not_less\<close>)
qed

lemma short_page_is_all:
  assumes fit: "fit nodeId H table" and short: "length (page H (second_of (last_ns nodeId table)) num) < unat num"
    and keys: "set (forward_keys table1) =
      set (forward_keys table) \<union> forward_key ` set (page H (second_of (last_ns nodeId table)) num)"
  shows "forward_key ` set H \<subseteq> set (forward_keys table1)"
proof
  fix k assume "k \<in> forward_key ` set H"
  then obtain e where e: "e \<in> set H" "k = forward_key e" by auto
  show "k \<in> set (forward_keys table1)"
  proof (cases "second_of (last_ns nodeId table) \<le> second_of (lfe_TimestampNs e)")
    case True
    have "page H (second_of (last_ns nodeId table)) num =
        filter (\<lambda>e. second_of (last_ns nodeId table) \<le> second_of (lfe_TimestampNs e)) H"
      using short by (simp add: page_def)
    with True e keys show ?thesis by auto
  next
    case False
    then have "lfe_TimestampNs e \<le> last_ns nodeId table"
      using second_of_mono [of "last_ns nodeId table" "lfe_TimestampNs e"] by (meson linear)
    with fit e keys show ?thesis by (auto simp: fit_def)
  qed
qed

lemma good_rounds_store_all:
  assumes sorted: "sorted (map lfe_TimestampNs H)" and num: "0 < maxEvents" "maxEvents < 2 ^ 32"
    and second: "\<forall>s. int (length (filter (\<lambda>e. second_of (lfe_TimestampNs e) = s) H)) < maxEvents"
  shows "\<forall>r\<in>set rs. good_round H r \<Longrightarrow> fit nodeId H table \<Longrightarrow> ahead nodeId H table < length rs \<Longrightarrow>
    \<exists>em status1 table1. forward_rounds ec ords nodeId maxEvents rs status boot table
        = (em, TickDone, status1, False, table1) \<and>
      fit nodeId H table1 \<and> adds_forwards nodeId H table table1 \<and> forward_key ` set H \<subseteq> set (forward_keys table1)"
proof (induction rs arbitrary: status table)
  case (Cons r rs)
  from Cons.prems(1) have r: "rd_ScanFails r = None" "rd_Fails r = no_failures"
      "rd_ForwardingHistory r = (\<lambda>start num. Inr (page H start num))"
    by (simp_all add: good_round_def)
  have n: "unat (word_of_int maxEvents :: uint32) = nat maxEvents"
    using word_of_int_inverse [OF refl, of maxEvents, where 'a = 32] num by (simp add: unat_eq_nat_uint)
  define fwh where "fwh = page H (second_of (last_ns nodeId table)) (word_of_int maxEvents)"
  obtain events table1 where stored: "storeForwardingHistory no_failures ords (rd_Channels r) (rd_Now r) fwh nodeId
      ec boot table = Some (events, table1, None)"
    and keys: "set (forward_keys table1) = set (forward_keys table) \<union> forward_key ` set fwh"
    using storeForwardingHistory_works by blast
  have H: "H = H @ []" by simp
  note kept = fit_round [OF Cons.prems(2) sorted H stored [unfolded fwh_def]]
  let ?status = "if boot then Initializing else Active"
  have run: "forward_rounds ec ords nodeId maxEvents (r # rs) status boot table =
      (let em = send_status ec ?status status @ map Emitted events
       in if int (length fwh) < maxEvents then (em, TickDone, ?status, False, table1)
          else case forward_rounds ec ords nodeId maxEvents rs ?status boot table1 of (ems, rest) \<Rightarrow> (em @ ems, rest))"
    using stored by (simp add: r fetched_last second_of_def [symmetric] fwh_def [symmetric] Let_def)
  show ?case
  proof (cases "int (length fwh) < maxEvents")
    case True
    have "forward_key ` set H \<subseteq> set (forward_keys table1)"
      by (rule short_page_is_all [OF Cons.prems(2) _ keys [unfolded fwh_def]])
        (use True n num in \<open>simp add: fwh_def [symmetric]\<close>)
    with True run kept show ?thesis by (simp add: Let_def)
  next
    case False
    have "\<forall>s. length (filter (\<lambda>e. second_of (lfe_TimestampNs e) = s) H) < nat maxEvents"
      using second by (auto simp: zless_nat_eq_int_zless)
    from full_page_advances [OF Cons.prems(2) sorted this fwh_def _ _ keys kept(1)]
      False storeForwardingHistory_rows [OF stored]
    have "ahead nodeId H table1 < ahead nodeId H table" by simp
    with Cons.prems(3) have "ahead nodeId H table1 < length rs" by simp
    from Cons.IH [OF _ kept(1) this] Cons.prems(1) obtain em status1 table2 where
      "forward_rounds ec ords nodeId maxEvents rs ?status boot table1 = (em, TickDone, status1, False, table2)"
      "fit nodeId H table2" "adds_forwards nodeId H table1 table2" "forward_key ` set H \<subseteq> set (forward_keys table2)"
      by fastforce
    with False run kept(2) show ?thesis by (auto simp: Let_def intro: adds_forwards_trans)
  qed
qed simp

lemma forward_ticks_append:
  "forward_ticks ec ords nodeId maxEvents ticks status boot table = (em, TickDone, status1, boot1, table1) \<Longrightarrow>
   None \<notin> set ticks \<and> forward_ticks ec ords nodeId maxEvents (ticks @ later) status boot table =
     (case forward_ticks ec ords nodeId maxEvents later status1 boot1 table1 of (ems, rest) \<Rightarrow> (em @ ems, rest))"
proof (induction ec ords nodeId maxEvents ticks status boot table arbitrary: em rule: forward_ticks.induct)
  case (3 ec ords nodeId maxEvents rounds ticks status boot table)
  obtain e2 f2 s2 b2 t2 where one: "forward_rounds ec ords nodeId maxEvents rounds status boot table = (e2, f2, s2, b2, t2)"
    by (metis prod_cases5)
  from 3(2) one have f2: "f2 = TickDone" by (cases f2) auto
  obtain e3 f3 s3 b3 t3 where rest: "forward_ticks ec ords nodeId maxEvents ticks s2 b2 t2 = (e3, f3, s3, b3, t3)"
    by (metis prod_cases5)
  from 3(2) one f2 rest have "f3 = TickDone" "s3 = status1" "b3 = boot1" "t3 = table1" "em = e2 @ e3" by auto
  with 3(1) [OF one [unfolded f2, symmetric] refl refl refl refl] rest one f2 show ?case
    by (auto split: prod.splits)
qed auto

text \<open>
  C19: let \<open>H\<close> be the forwards LND has of a node, in the order of their times, with fewer of them in
  any one second than one request may return, and let the subscription start from a forward table
  without two rows of the same times, in which no forward up to the node's latest row is missing (an
  empty table, say) and no row of another node has the time of one of them.  Run it over any
  ticks, LND answering truthfully from the forwards there were at each time or failing, the
  database failing or not, as long as each tick ends.  Then a tick in which both answer ends after at most as
  many full rounds as there are forwards; after it a row with the times of every forward of \<open>H\<close> is
  stored, no two rows have the same times, and every row that was added is that of a forward in \<open>H\<close>.
\<close>
theorem forwards_stored_once:
  assumes "forwards_max_events options = Some maxEvents" and "0 < maxEvents" and "maxEvents < 2 ^ 32"
    and "sorted (map lfe_TimestampNs H)"
    and "\<forall>s. int (length (filter (\<lambda>e. second_of (lfe_TimestampNs e) = s) H)) < maxEvents"
    and "fit (mns_NodeId nodeSettings) H table"
    and "SubscribeForwardingEvents ec ords nodeSettings options ticks table = Some (em, TickDone, status, boot, table1)"
    and "\<forall>rounds. Some rounds \<in> set ticks \<longrightarrow> (\<forall>r\<in>set rounds. answers_from H r)"
    and "\<forall>r\<in>set rounds. good_round H r" and "length H < length rounds"
  shows "\<exists>em2 status2 table2.
    SubscribeForwardingEvents ec ords nodeSettings options (ticks @ [Some rounds]) table
      = Some (em2, TickDone, status2, False, table2) \<and>
    (\<forall>e\<in>set H. \<exists>row\<in>set table2. fw_TimeNs row = lfe_TimestampNs e \<and> fw_Time row = convertMicro (lfe_TimestampNs e)) \<and>
    distinct (forward_keys table2) \<and>
    (\<exists>rows. table2 = table @ rows \<and>
       (\<forall>row\<in>set rows. \<exists>e\<in>set H. \<exists>incoming outgoing. row = forward_row e incoming outgoing (mns_NodeId nodeSettings)))"
proof -
  let ?n = "mns_NodeId nodeSettings"
  from assms(1,7) have run: "forward_ticks ec ords ?n maxEvents ticks Inactive True table = (em, TickDone, status, boot, table1)"
    by (simp add: SubscribeForwardingEvents_def)
  from forward_ticks_fit [OF run assms(4,8,6)]
  have first: "fit ?n H table1" "adds_forwards ?n H table table1" by auto
  have "ahead ?n H table1 < length rounds"
    using assms(10) unfolding ahead_def by (rule le_less_trans [OF length_filter_le])
  from good_rounds_store_all [OF assms(4,2,3,5,9) first(1) this] obtain em1 status2 table2 where
    last: "forward_rounds ec ords ?n maxEvents rounds status boot table1 = (em1, TickDone, status2, False, table2)"
    and ok: "fit ?n H table2" "adds_forwards ?n H table1 table2" "forward_key ` set H \<subseteq> set (forward_keys table2)"
    by blast
  have "SubscribeForwardingEvents ec ords nodeSettings options (ticks @ [Some rounds]) table
      = Some (em @ em1, TickDone, status2, False, table2)"
    using forward_ticks_append [OF run, of "[Some rounds]"] last assms(1) by (simp add: SubscribeForwardingEvents_def)
  moreover have "\<exists>row\<in>set table2. fw_TimeNs row = lfe_TimestampNs e \<and> fw_Time row = convertMicro (lfe_TimestampNs e)"
    if "e \<in> set H" for e
  proof -
    from ok(3) that have "forward_key e \<in> set (forward_keys table2)" by auto
    then show ?thesis by (auto simp: forward_keys_def forward_key_def)
  qed
  moreover have "adds_forwards ?n H table table2" using first(2) ok(2) by (rule adds_forwards_trans)
  ultimately show ?thesis using ok(1) unfolding fit_def adds_forwards_def by blast
qed

text \<open>
  The start time of a request is cut down to whole seconds, so LND answers with the last stored
  forward again.  It is not stored a second time, but after the import its event is sent again
  with every round.
\<close>
lemma stored_forward_sent_again:
  assumes "rd_ScanFails r = None" and "rd_Fails r = no_failures"
    and "rd_ForwardingHistory r (foldr max (map fw_TimeNs (filter (\<lambda>r. fw_NodeId r = nodeId) table)) 0 div 1000000000)
           (word_of_int maxEvents) = Inr [event]"
    and "(convertMicro (lfe_TimestampNs event), lfe_TimestampNs event) \<in> set (forward_keys table)"
    and "1 < maxEvents"
  shows "\<exists>incoming outgoing.
     forward_rounds True ords nodeId maxEvents (r # rs) Active False table
       = ([Emitted (forward_event (rd_Now r) event incoming outgoing nodeId)], TickDone, Active, False, table)"
proof -
  obtain a b where ab: "getChannelIdByLndShortChannelId ords (rd_Channels r) (lfe_ChanIdIn event) = Some a"
    "getChannelIdByLndShortChannelId ords (rd_Channels r) (lfe_ChanIdOut event) = Some b"
    using getChannelIdByLndShortChannelId_answers by metis
  have "insert_forward (forward_row event a b nodeId) table = table"
    using assms(4) by (auto simp: insert_forward_def forward_row_def forward_keys_def list_ex_iff)
  then have "storeForwardingHistory (rd_Fails r) ords (rd_Channels r) (rd_Now r) [event] nodeId True False table
      = Some ([forward_event (rd_Now r) event a b nodeId], table, None)"
    using ab assms(2) by (simp add: storeForwardingHistory_def no_failures_def)
  then show ?thesis
    using assms(1,3,5) by (auto simp: fetchLastForwardTime_def send_status_def Let_def)
qed

section \<open>The maximal number of events\<close>

text \<open>The option only takes effect where it should not: a smaller positive maximum is ignored.\<close>

lemma smaller_maximum_ignored:
  "0 < m \<Longrightarrow> m \<le> STREAM_LND_MAX_FORWARDS \<Longrightarrow>
     forwards_max_events (Some (Some m)) = Some STREAM_LND_MAX_FORWARDS"
  by (simp add: forwards_max_events_def)

text \<open>And with a maximum that is not positive the import never ends.\<close>

lemma import_never_ends:
  "maxEvents \<le> 0 \<Longrightarrow>
     forward_rounds ec ords nodeId maxEvents rs status True table = (em, fin, status1, boot1, table1) \<Longrightarrow> boot1"
proof (induction ec ords nodeId maxEvents rs status True table arbitrary: em fin status1 boot1 table1
    rule: forward_rounds.induct)
  case (2 ec ords nodeId maxEvents r rs status table)
  have more: "\<not> int (length xs) < maxEvents" for xs :: "LndForwardingEvent list" using 2(2) by simp
  show ?case
  proof (rule ccontr)
    assume ended: "\<not> boot1"
    then obtain lastNs fwh events t2 err where
      steps: "fetchLastForwardTime (rd_ScanFails r) table nodeId = Ok lastNs"
        "rd_ForwardingHistory r (lastNs div 1000000000) (word_of_int maxEvents) = Inr fwh"
        "storeForwardingHistory (rd_Fails r) ords (rd_Channels r) (rd_Now r) fwh nodeId ec True table
           = Some (events, t2, err)"
      using 2(3) by (auto simp: Let_def split: sum.splits bool.splits option.splits prod.splits)
    obtain ems f3 s3 b3 t3 where rest: "forward_rounds ec ords nodeId maxEvents rs Initializing True t2
        = (ems, f3, s3, b3, t3)" by (metis prod_cases5)
    have "b3 = boot1" using 2(3) steps rest more by (simp add: Let_def)
    moreover have b3 by (rule 2(1) [OF steps(1,2) refl refl steps(3) refl refl refl more]) (use 2(2) rest in auto)
    ultimately show False using ended by simp
  qed
qed simp

section \<open>Witnesses\<close>

definition sample_forward :: LndForwardingEvent where
  "sample_forward = \<lparr>lfe_ChanIdIn = 0, lfe_ChanIdOut = 0, lfe_TimestampNs = 5000, lfe_FeeMsat = 1,
     lfe_AmtInMsat = 2001, lfe_AmtOutMsat = 2000\<rparr>"

definition sample_round :: ForwardRound where
  "sample_round = \<lparr>rd_ScanFails = None, rd_ForwardingHistory = (\<lambda>start num. Inr [sample_forward]),
     rd_Fails = no_failures, rd_Channels = emptyChannelState, rd_Now = 9000\<rparr>"

definition answering_round :: ForwardRound where
  "answering_round = sample_round\<lparr>rd_ForwardingHistory := (\<lambda>start num. Inr (page [sample_forward] start num))\<rparr>"

theorem forwards_stored_once_witness:
  "\<exists>em status table2.
     SubscribeForwardingEvents True (id, id) zeroNodeSettings None ([] @ [Some [answering_round, answering_round]]) []
       = Some (em, TickDone, status, False, table2) \<and> (\<exists>row\<in>set table2. fw_TimeNs row = 5000)"
proof -
  have good: "\<forall>r\<in>set [answering_round, answering_round]. good_round [sample_forward] r"
    by (simp add: good_round_def answering_round_def sample_round_def)
  have start: "SubscribeForwardingEvents True (id, id) zeroNodeSettings None [] []
      = Some ([], TickDone, Inactive, True, [])"
    by (simp add: SubscribeForwardingEvents_def forwards_max_events_def)
  have fit: "fit (mns_NodeId zeroNodeSettings) [sample_forward] []"
    by (simp add: fit_def forward_keys_def last_ns_def sample_forward_def)
  have "forwards_max_events None = Some STREAM_LND_MAX_FORWARDS" by (simp add: forwards_max_events_def)
  moreover have "int (length (filter (\<lambda>e. second_of (lfe_TimestampNs e) = s) [sample_forward])) < STREAM_LND_MAX_FORWARDS" for s
    by (simp add: STREAM_LND_MAX_FORWARDS_def)
  ultimately show ?thesis
    using forwards_stored_once [OF _ _ _ _ _ fit start _ good, of STREAM_LND_MAX_FORWARDS]
    by (auto simp: STREAM_LND_MAX_FORWARDS_def sample_forward_def)
qed

lemma stored_forward_sent_again_witness:
  "\<exists>incoming outgoing.
     forward_rounds True (id, id) 1 10 [sample_round] Active False [forward_row sample_forward None None 1]
       = ([Emitted (forward_event 9000 sample_forward incoming outgoing 1)], TickDone, Active, False,
          [forward_row sample_forward None None 1])"
proof -
  have "rd_Now sample_round = 9000" by (simp add: sample_round_def)
  then show ?thesis
    using stored_forward_sent_again [of sample_round 1 "[forward_row sample_forward None None 1]" 10 sample_forward "(id, id)" "[]"]
    by (simp add: sample_round_def forward_keys_def forward_row_def)
qed

end
