(* ===== verification/LndTransactions.thy ===== *)
theory LndTransactions
  imports LndStreams "HOL-Library.Sublist"
begin

text \<open>
  \<open>src/pkg/lnd/transactions.go\<close>: on every new block the wallet transactions above the last stored height
  are fetched from LND, stored in the transaction table and sent as events.  A turn of the loop
  gets what the context, LND and the database answer in it.
\<close>

type_synonym int32 = "32 word"

record LndTransaction =
  lt_TimeStamp :: int64
  lt_TxHash :: string
  lt_Amount :: int64
  lt_NumConfirmations :: int32
  lt_BlockHash :: string
  lt_BlockHeight :: int32
  lt_TotalFees :: int64
  lt_OutputAddresses :: "string list"
  lt_RawTxHex :: string
  lt_Label :: string

record Tx =
  tx_Timestamp :: time
  tx_TransactionHash :: "string option"
  tx_Amount :: "int64 option"
  tx_NumberOfConfirmations :: "int32 option"
  tx_BlockHash :: "string option"
  tx_BlockHeight :: "int32 option"
  tx_TotalFees :: "int64 option"
  tx_DestinationAddresses :: "string list option"
  tx_RawTransactionHex :: "string option"
  tx_Label :: "string option"
  tx_NodeId :: int

definition zeroTx :: "time \<Rightarrow> Tx" where
  "zeroTx zero_time =
     \<lparr>tx_Timestamp = zero_time, tx_TransactionHash = None, tx_Amount = None, tx_NumberOfConfirmations = None,
      tx_BlockHash = None, tx_BlockHeight = None, tx_TotalFees = None, tx_DestinationAddresses = None,
      tx_RawTransactionHex = None, tx_Label = None, tx_NodeId = 0\<rparr>"

text \<open>\<open>ON CONFLICT (timestamp, tx_hash) DO NOTHING\<close>.\<close>

definition insert_tx :: "Tx \<Rightarrow> Tx list \<Rightarrow> Tx list" where
  "insert_tx row table =
     (if list_ex (\<lambda>r. tx_Timestamp r = tx_Timestamp row \<and> tx_TransactionHash r = tx_TransactionHash row) table
      then table else table @ [row])"

text \<open>The largest stored block height of the node, 1 without one.\<close>

definition fetchLastTxHeight :: "go_error option \<Rightarrow> Tx list \<Rightarrow> int \<Rightarrow> int32 result" where
  "fetchLastTxHeight scanFails table nodeId =
     (case scanFails of
        Some e \<Rightarrow> Inl e
      | None \<Rightarrow>
          (case map (the \<circ> tx_BlockHeight) (filter (\<lambda>r. tx_NodeId r = nodeId \<and> tx_BlockHeight r \<noteq> None) table) of
             [] \<Rightarrow> Ok 1
           | h # hs \<Rightarrow> Ok (word_of_int (foldr max (map sint hs) (sint h)))))"

definition storeTransaction ::
    "time \<Rightarrow> go_error option \<Rightarrow> LndTransaction option \<Rightarrow> int \<Rightarrow> Tx list \<Rightarrow> Tx \<times> go_error option \<times> Tx list" where
  "storeTransaction zero_time insertFails transaction nodeId table =
     (case transaction of
        None \<Rightarrow> (zeroTx zero_time, None, table)
      | Some t \<Rightarrow>
          (let storedTx =
                 \<lparr>tx_Timestamp = sint (lt_TimeStamp t) * 1000000000, tx_TransactionHash = Some (lt_TxHash t),
                  tx_Amount = Some (lt_Amount t), tx_NumberOfConfirmations = Some (lt_NumConfirmations t),
                  tx_BlockHash = Some (lt_BlockHash t), tx_BlockHeight = Some (lt_BlockHeight t),
                  tx_TotalFees = Some (lt_TotalFees t), tx_DestinationAddresses = Some (lt_OutputAddresses t),
                  tx_RawTransactionHex = Some (lt_RawTxHex t), tx_Label = Some (lt_Label t),
                  tx_NodeId = nodeId\<rparr>
           in case insertFails of
                Some e \<Rightarrow> (zeroTx zero_time, Some e, table)
              | None \<Rightarrow> (storedTx, None, insert_tx storedTx table)))"

definition transaction_event :: "time \<Rightarrow> int \<Rightarrow> Tx \<Rightarrow> TransactionEvent" where
  "transaction_event now nodeId storedTx =
     \<lparr>ev_EventTime = now, ev_NodeId = nodeId, te_Timestamp = tx_Timestamp storedTx,
      te_TransactionHash = tx_TransactionHash storedTx, te_Amount = tx_Amount storedTx,
      te_NumberOfConfirmations = tx_NumberOfConfirmations storedTx, te_BlockHash = tx_BlockHash storedTx,
      te_BlockHeight = tx_BlockHeight storedTx, te_TotalFees = tx_TotalFees storedTx,
      te_DestinationAddresses = tx_DestinationAddresses storedTx,
      te_RawTransactionHex = tx_RawTransactionHex storedTx, te_Label = tx_Label storedTx\<rparr>"

datatype TxEvent = BlockSeen BlockEvent | TransactionSeen TransactionEvent

text \<open>
  The transactions of one answer; an error of storing one is only logged, and then reading the
  height of the zero transaction panics.
\<close>

fun store_transactions ::
    "bool \<Rightarrow> bool \<Rightarrow> time \<Rightarrow> time \<Rightarrow> (nat \<Rightarrow> go_error option) \<Rightarrow> int \<Rightarrow> nat \<Rightarrow> LndTransaction option list \<Rightarrow>
     int32 \<Rightarrow> Tx list \<Rightarrow> TxEvent emitted list \<times> (int32 \<times> Tx list) option" where
  "store_transactions ec boot zero_time now insertFails nodeId i [] height table = ([], Some (height, table))"
| "store_transactions ec boot zero_time now insertFails nodeId i (t # ts) height table =
     (let (storedTx, err, table1) = storeTransaction zero_time (insertFails i) t nodeId table;
          em = (if ec \<and> \<not> boot then [Emitted (TransactionSeen (transaction_event now nodeId storedTx))] else [])
      in case tx_BlockHeight storedTx of
           None \<Rightarrow> (em, None)
         | Some h \<Rightarrow>
             (case store_transactions ec boot zero_time now insertFails nodeId (i + 1) ts
                     (if sint h > sint height then h else height) table1 of
                (ems, r) \<Rightarrow> (em @ ems, r)))"

text \<open>A failed call says whether the context was cancelled.\<close>

record TxTurn =
  tt_Done :: bool
  tt_Height :: "go_error option"
  tt_Cancelled :: bool
  tt_GetTransactions :: "int32 \<Rightarrow> bool + LndTransaction option list"
  tt_Register :: "go_error option"
  tt_Recv :: "bool + (bytes \<times> uint32)"
  tt_InsertFails :: "nat \<Rightarrow> go_error option"
  tt_Now :: time

record TxLoop =
  tl_Stream :: bool
  tl_Status :: Status
  tl_Boot :: bool
  tl_Height :: int32
  tl_End :: loop_end
  tl_Table :: "Tx list"

definition store_and_announce ::
    "bool \<Rightarrow> time \<Rightarrow> int \<Rightarrow> TxTurn \<Rightarrow> LndTransaction option list \<Rightarrow> TxEvent emitted list \<Rightarrow> TxLoop \<Rightarrow>
     TxEvent emitted list \<times> TxLoop" where
  "store_and_announce ec zero_time nodeId t txs em l =
     (let status = (if tl_Boot l then Initializing else Active);
          (ems, r) = store_transactions ec (tl_Boot l) zero_time (tt_Now t) (tt_InsertFails t) nodeId 0 txs
                       (tl_Height l) (tl_Table l);
          l1 = l\<lparr>tl_Status := status\<rparr>
      in (em @ send_status ec status (tl_Status l) @ ems,
          case r of None \<Rightarrow> l1\<lparr>tl_End := Stuck\<rparr>
                  | Some (height, table) \<Rightarrow> l1\<lparr>tl_Height := height, tl_Table := table\<rparr>))"

definition tx_turn ::
    "bool \<Rightarrow> time \<Rightarrow> int \<Rightarrow> TxTurn \<Rightarrow> TxLoop \<Rightarrow> TxEvent emitted list \<times> TxLoop" where
  "tx_turn ec zero_time nodeId t l =
     (if tl_End l \<noteq> Running then ([], l)
      else if tt_Done t then ([], l\<lparr>tl_End := Returned\<rparr>)
      else if \<not> tl_Stream l then
        (let pending = send_status ec Pending (tl_Status l);
             l1 = l\<lparr>tl_Status := Pending\<rparr>
         in case fetchLastTxHeight (tt_Height t) (tl_Table l) nodeId of
              Inl e \<Rightarrow> (pending, (if tt_Cancelled t then l1\<lparr>tl_End := Returned\<rparr> else l1)\<lparr>tl_Height := 1\<rparr>)
            | Inr height \<Rightarrow>
                (let l2 = l1\<lparr>tl_Height := height\<rparr>
                 in case tt_GetTransactions t (height + 1) of
                      Inl cancelled \<Rightarrow> (pending, if cancelled then l2\<lparr>tl_End := Returned\<rparr> else l2)
                    | Inr txs \<Rightarrow>
                        (case tt_Register t of
                           Some e \<Rightarrow> (pending, l2)
                         | None \<Rightarrow> store_and_announce ec zero_time nodeId t txs pending (l2\<lparr>tl_Stream := True\<rparr>))))
      else
        (let l1 = l\<lparr>tl_Boot := False\<rparr>;
             failed = l1\<lparr>tl_Stream := False, tl_Status := Pending\<rparr>
         in case tt_Recv t of
              Inl True \<Rightarrow> ([], l1\<lparr>tl_End := Returned\<rparr>)
            | Inl False \<Rightarrow> (send_status ec Pending (tl_Status l), failed)
            | Inr (hash, height) \<Rightarrow>
                (let block = (if ec then [Emitted (BlockSeen \<lparr>ev_EventTime = tt_Now t, ev_NodeId = nodeId,
                                                             be_Height = height, be_Hash = hash\<rparr>)] else [])
                 in case tt_GetTransactions t (tl_Height l + 1) of
                      Inl True \<Rightarrow> (block, l1\<lparr>tl_End := Returned\<rparr>)
                    | Inl False \<Rightarrow> (block @ send_status ec Pending (tl_Status l), failed)
                    | Inr txs \<Rightarrow> store_and_announce ec zero_time nodeId t txs block l1)))"

fun tx_turns ::
    "bool \<Rightarrow> time \<Rightarrow> int \<Rightarrow> TxTurn list \<Rightarrow> TxLoop \<Rightarrow> TxEvent emitted list \<times> TxLoop" where
  "tx_turns ec zero_time nodeId [] l = ([], l)"
| "tx_turns ec zero_time nodeId (t # ts) l =
     (let (em, l1) = tx_turn ec zero_time nodeId t l;
          (ems, l2) = tx_turns ec zero_time nodeId ts l1
      in (em @ ems, l2))"

definition SubscribeAndStoreTransactions ::
    "bool \<Rightarrow> time \<Rightarrow> ManagedNodeSettings \<Rightarrow> TxTurn list \<Rightarrow> Tx list \<Rightarrow> TxEvent emitted list \<times> TxLoop" where
  "SubscribeAndStoreTransactions eventChannel zero_time nodeSettings turns table =
     tx_turns eventChannel zero_time (mns_NodeId nodeSettings) turns
       \<lparr>tl_Stream = False, tl_Status = Inactive, tl_Boot = True, tl_Height = 0, tl_End = Running,
        tl_Table = table\<rparr>"

section \<open>Storing the transactions of an answer\<close>

lemma storeTransaction_cases:
  obtains "transaction = None" and "storeTransaction z f transaction n table = (zeroTx z, None, table)"
  | e where "f = Some e" and "transaction \<noteq> None" and "storeTransaction z f transaction n table = (zeroTx z, Some e, table)"
  | t row where "transaction = Some t" and "f = None"
      and "storeTransaction z f transaction n table = (row, None, insert_tx row table)"
      and "tx_BlockHeight row = Some (lt_BlockHeight t)" and "tx_NodeId row = n"
      and "tx_TransactionHash row = Some (lt_TxHash t)"
  by (cases transaction; cases f) (auto simp: storeTransaction_def Let_def that)

lemma zeroTx_height [simp]: "tx_BlockHeight (zeroTx z) = None"
  by (simp add: zeroTx_def)

definition has_tx :: "Tx list \<Rightarrow> LndTransaction \<Rightarrow> bool" where
  "has_tx table t \<longleftrightarrow> Some (lt_TxHash t) \<in> set (map tx_TransactionHash table)"

lemma has_tx_prefix: "prefix a b \<Longrightarrow> has_tx a t \<Longrightarrow> has_tx b t"
  by (auto simp: has_tx_def prefix_def)

lemma insert_tx_has: "tx_TransactionHash row = Some (lt_TxHash t) \<Longrightarrow> has_tx (insert_tx row table) t"
  by (auto simp: has_tx_def insert_tx_def list_ex_iff image_iff) metis

lemma insert_tx_prefix: "prefix table (insert_tx row table)"
  by (simp add: insert_tx_def)

text \<open>
  The transactions of one answer are all stored exactly when none is nil and no insert
  fails; otherwise the goroutine panics on the missing block height, although the failure itself
  is only logged.
\<close>
lemma transactions_stored_or_panic:
  "(snd (store_transactions ec boot z now insertFails n i ts height table) \<noteq> None) =
     (list_all (\<lambda>t. t \<noteq> None) ts \<and> list_all (\<lambda>j. insertFails (i + j) = None) [0..<length ts])"
proof (induction ts arbitrary: i height table)
  case (Cons t ts)
  have shift: "list_all (\<lambda>j. insertFails (i + j) = None) [0..<length (t # ts)] =
      (insertFails i = None \<and> list_all (\<lambda>j. insertFails (Suc (i + j)) = None) [0..<length ts])"
    by (simp add: upt_conv_Cons map_Suc_upt [symmetric] list.pred_map comp_def del: upt_Suc)
  show ?case unfolding shift
  proof (cases rule: storeTransaction_cases [of t z "insertFails i" n table])
    case (3 tr row)
    then have "snd (store_transactions ec boot z now insertFails n i (t # ts) height table) =
        snd (store_transactions ec boot z now insertFails n (Suc i) ts
          (if sint (lt_BlockHeight tr) > sint height then lt_BlockHeight tr else height) (insert_tx row table))"
      by (simp add: Let_def split: prod.split)
    with 3 Cons show "(snd (store_transactions ec boot z now insertFails n i (t # ts) height table) \<noteq> None) =
        (list_all (\<lambda>t. t \<noteq> None) (t # ts) \<and> insertFails i = None \<and>
         list_all (\<lambda>j. insertFails (Suc (i + j)) = None) [0..<length ts])" by simp
  qed (simp_all add: Let_def)
qed simp

text \<open>
  After an answer is stored the remembered height is the largest of the heights seen, so the
  next request, for the heights above it, does not ask for these transactions again; the table
  keeps its rows and has each transaction.
\<close>
lemma transactions_height_is_largest:
  assumes "store_transactions ec boot z now insertFails n i ts height table = (em, Some (height1, table1))"
  shows "sint height1 = foldr max (map (sint \<circ> lt_BlockHeight \<circ> the) ts) (sint height)
     \<and> prefix table table1 \<and> list_all (\<lambda>t. t \<noteq> None \<and> has_tx table1 (the t)) ts"
  using assms
proof (induction ts arbitrary: i height table em)
  case (Cons t ts)
  show ?case
  proof (cases rule: storeTransaction_cases [of t z "insertFails i" n table])
    case (3 tr row)
    let ?h = "if sint (lt_BlockHeight tr) > sint height then lt_BlockHeight tr else height"
    obtain ems where rest: "store_transactions ec boot z now insertFails n (i + 1) ts ?h (insert_tx row table)
        = (ems, Some (height1, table1))"
      using Cons.prems 3 by (auto simp: Let_def split: prod.splits)
    note ih = Cons.IH [OF rest]
    have h: "sint ?h = max (sint (lt_BlockHeight tr)) (sint height)" by simp
    have swap: "foldr max xs (max a b) = max a (foldr max xs b)" for xs and a b :: int
      by (induction xs) (auto simp: max.left_commute)
    have r: "prefix (insert_tx row table) table1" using ih by blast
    have "has_tx table1 tr" using has_tx_prefix [OF r insert_tx_has [OF 3(6)]] .
    moreover have "prefix table table1" using insert_tx_prefix r by (rule prefix_order.trans)
    ultimately show ?thesis using ih 3(1) unfolding h swap by (simp add: comp_def)
  qed (use Cons.prems in \<open>auto simp: Let_def split: prod.splits\<close>)
qed simp

section \<open>The whole subscription\<close>

text \<open>The table only grows, and nothing is sent without an event channel.\<close>

lemma store_transactions_grows:
  "store_transactions ec boot z now insertFails n i ts height table = (em, Some (height1, table1)) \<Longrightarrow>
     prefix table table1"
proof (induction ts arbitrary: i height table em)
  case (Cons t ts)
  show ?case
  proof (cases rule: storeTransaction_cases [of t z "insertFails i" n table])
    case (3 tr row)
    obtain h ems where "store_transactions ec boot z now insertFails n (i + 1) ts h (insert_tx row table)
        = (ems, Some (height1, table1))"
      using Cons.prems 3 by (auto simp: Let_def split: prod.splits)
    from Cons.IH [OF this] show ?thesis using insert_tx_prefix prefix_order.trans by blast
  qed (use Cons.prems in \<open>auto simp: Let_def split: prod.splits\<close>)
qed simp

lemma store_transactions_silent: "fst (store_transactions False boot z now insertFails n i ts height table) = []"
  by (induction ts arbitrary: i height table) (auto simp: Let_def split: prod.splits option.splits)

lemma store_and_announce_ok:
  "tl_Table l = tb \<Longrightarrow> prefix tb (tl_Table (snd (store_and_announce ec z n t txs em l)))"
  "fst (store_and_announce False z n t txs em l) = em"
  using store_transactions_grows [of ec "tl_Boot l" z "tt_Now t" "tt_InsertFails t" n 0 txs "tl_Height l" "tl_Table l"]
    store_transactions_silent [of "tl_Boot l" z "tt_Now t" "tt_InsertFails t" n 0 txs "tl_Height l" "tl_Table l"]
  by (auto simp: store_and_announce_def Let_def send_status_def split: prod.splits option.splits)

lemma tx_turn_ok:
  "prefix (tl_Table l) (tl_Table (snd (tx_turn ec z n t l)))" "fst (tx_turn False z n t l) = []"
  by (auto simp: tx_turn_def Let_def send_status_def store_and_announce_ok
      split: sum.split option.split bool.split)

lemma transactions_table_grows:
  "prefix (tl_Table l) (tl_Table (snd (tx_turns ec z n ts l)))" "fst (tx_turns False z n ts l) = []"
proof -
  show "prefix (tl_Table l) (tl_Table (snd (tx_turns ec z n ts l)))"
    by (induction ts arbitrary: l) (auto split: prod.splits, metis prefix_order.trans snd_conv tx_turn_ok(1))
  show "fst (tx_turns False z n ts l) = []"
    by (induction ts arbitrary: l) (auto split: prod.splits, metis fst_conv tx_turn_ok(2), metis fst_conv)
qed

section \<open>Witnesses\<close>

definition sample_tx :: LndTransaction where
  "sample_tx = \<lparr>lt_TimeStamp = 5, lt_TxHash = ''aa'', lt_Amount = 1, lt_NumConfirmations = 1, lt_BlockHash = ''bb'',
     lt_BlockHeight = 700, lt_TotalFees = 0, lt_OutputAddresses = [], lt_RawTxHex = [], lt_Label = []\<rparr>"

lemma transactions_height_is_largest_witness:
  "\<exists>em height1 table1. store_transactions True False 0 9 (\<lambda>i. None) 1 0 [Some sample_tx] 1 [] = (em, Some (height1, table1))
     \<and> sint height1 = 700 \<and> has_tx table1 sample_tx"
proof -
  obtain em height1 table1 where
    run: "store_transactions True False 0 9 (\<lambda>i. None) 1 0 [Some sample_tx] 1 [] = (em, Some (height1, table1))"
    by (simp add: storeTransaction_def sample_tx_def Let_def)
  from transactions_height_is_largest [OF this] have "sint height1 = 700" "has_tx table1 sample_tx"
    by (simp_all add: sample_tx_def)
  with run show ?thesis by blast
qed

end
