(* ===== verification/LndPayments.thy ===== *)
theory LndPayments
  imports LndStreams Payments "HOL-Library.Sublist"
begin

text \<open>
  \<open>src/pkg/lnd/payments.go\<close>: at every tick the payments after the last stored one are fetched from LND one
  by one, stored and sent as events; and at every tick of another loop the payments stored as
  in flight are fetched again and their rows updated.  The table is a list of rows with the
  conflict rule and the WHERE clauses of the statements.
\<close>

section \<open>Payments and their table\<close>

definition payment_status_text :: "PaymentStatus \<Rightarrow> string" where
  "payment_status_text s =
     (case s of
        IN_FLIGHT \<Rightarrow> ''IN_FLIGHT'' | SUCCEEDED \<Rightarrow> ''SUCCEEDED'' | FAILED \<Rightarrow> ''FAILED''
      | OtherPaymentStatus n \<Rightarrow> if n = 0 then ''UNKNOWN'' else format_int n)"

text \<open>The texts of LND's failure reasons are a parameter of what follows.\<close>

record LndListedPayment =
  ll_PaymentHash :: string
  ll_PaymentPreimage :: string
  ll_ValueMsat :: int64
  ll_ValueSat :: int64
  ll_PaymentRequest :: string
  ll_Status :: PaymentStatus
  ll_FeeMsat :: int64
  ll_CreationTimeNs :: int64
  ll_PaymentIndex :: uint64
  ll_FailureReason :: PaymentFailureReason
  ll_Htlcs :: "LndHop list list" \<comment> \<open>the hops of the route of each HTLC\<close>

record PaymentRow =
  pr_PaymentHash :: string
  pr_CreationTimestamp :: time
  pr_PaymentPreimage :: string
  pr_ValueMsat :: int64
  pr_PaymentRequest :: string
  pr_Status :: string
  pr_FeeMsat :: int64
  pr_CreationTimeNs :: int64
  pr_Htlcs :: string
  pr_PaymentIndex :: uint64
  pr_FailureReason :: string
  pr_IncomingChannelId :: "int option"
  pr_OutgoingChannelId :: "int option"
  pr_RebalanceAmountMsat :: "uint64 option"
  pr_NodeId :: int
  pr_CreatedOn :: time
  pr_UpdatedOn :: "time option"

text \<open>\<open>ON CONFLICT (creation_timestamp, payment_index) DO NOTHING\<close>.\<close>

definition insert_payment :: "PaymentRow \<Rightarrow> PaymentRow list \<Rightarrow> PaymentRow list" where
  "insert_payment row table =
     (if list_ex (\<lambda>r. pr_CreationTimestamp r = pr_CreationTimestamp row \<and> pr_PaymentIndex r = pr_PaymentIndex row) table
      then table else table @ [row])"

record PaymentFailures =
  pf_Exec :: "nat \<Rightarrow> go_error option"
  pf_Commit :: "go_error option"

section \<open>Storing payments\<close>

text \<open>
  The channels of a payment and the rebalanced amount, from the first and the last hop of its
  first HTLC; None when the channel cache gives no answer.
\<close>

definition payment_channels ::
    "channel_orders \<Rightarrow> ChannelState \<Rightarrow> LndListedPayment \<Rightarrow> (int option \<times> int option \<times> uint64 option) option" where
  "payment_channels ords channels payment =
     (case ll_Htlcs payment of
        (first # rest) # htlcs \<Rightarrow>
          (case (getChannelIdByLndShortChannelId ords channels (lh_ChanId first),
                 getChannelIdByLndShortChannelId ords channels (lh_ChanId (last (first # rest)))) of
             (Some incoming, Some outgoing) \<Rightarrow>
               Some (incoming, outgoing,
                     if incoming \<noteq> None \<and> incoming \<noteq> Some 0 then Some (lh_AmtToForwardMsat first) else None)
           | _ \<Rightarrow> None)
      | _ \<Rightarrow> Some (None, None, None))"

definition payment_row ::
    "(PaymentFailureReason \<Rightarrow> string) \<Rightarrow> time \<Rightarrow> string \<Rightarrow> int \<Rightarrow> LndListedPayment \<Rightarrow>
     int option \<times> int option \<times> uint64 option \<Rightarrow> PaymentRow" where
  "payment_row reason now htlcJson nodeId payment cs =
     \<lparr>pr_PaymentHash = ll_PaymentHash payment, pr_CreationTimestamp = convertMicro (ll_CreationTimeNs payment),
      pr_PaymentPreimage = ll_PaymentPreimage payment, pr_ValueMsat = ll_ValueMsat payment,
      pr_PaymentRequest = ll_PaymentRequest payment, pr_Status = payment_status_text (ll_Status payment),
      pr_FeeMsat = ll_FeeMsat payment, pr_CreationTimeNs = ll_CreationTimeNs payment, pr_Htlcs = htlcJson,
      pr_PaymentIndex = ll_PaymentIndex payment, pr_FailureReason = reason (ll_FailureReason payment),
      pr_IncomingChannelId = fst cs, pr_OutgoingChannelId = fst (snd cs),
      pr_RebalanceAmountMsat = snd (snd cs), pr_NodeId = nodeId, pr_CreatedOn = now, pr_UpdatedOn = None\<rparr>"

definition payment_event ::
    "time \<Rightarrow> int \<Rightarrow> LndListedPayment \<Rightarrow> int option \<times> int option \<times> uint64 option \<Rightarrow> PaymentEvent" where
  "payment_event now nodeId payment cs =
     \<lparr>ev_EventTime = now, ev_NodeId = nodeId, pay_AmountPaid = ll_ValueSat payment,
      pay_FeeMsat = ll_FeeMsat payment, pay_PaymentStatus = ll_Status payment,
      pay_PaymentFailureReason = ll_FailureReason payment, pay_OutgoingChannelId = fst (snd cs),
      pay_RebalanceAmountMsat = snd (snd cs), pay_IncomingChannelId = fst cs\<rparr>"

fun insert_payments ::
    "(PaymentFailureReason \<Rightarrow> string) \<Rightarrow> (LndHop list list \<Rightarrow> string result) \<Rightarrow> (nat \<Rightarrow> go_error option) \<Rightarrow>
     channel_orders \<Rightarrow> ChannelState \<Rightarrow> time \<Rightarrow> int \<Rightarrow> nat \<Rightarrow> LndListedPayment list \<Rightarrow> PaymentRow list \<Rightarrow>
     PaymentEvent list \<Rightarrow> (PaymentRow list \<times> PaymentEvent list) result option" where
  "insert_payments reason marshal execFails ords channels now nodeId i [] table events = Some (Ok (table, events))"
| "insert_payments reason marshal execFails ords channels now nodeId i (payment # ps) table events =
     (case marshal (ll_Htlcs payment) of
        Inl e \<Rightarrow> Some (Inl e)
      | Inr htlcJson \<Rightarrow>
          (case payment_channels ords channels payment of
             None \<Rightarrow> None
           | Some cs \<Rightarrow>
               (case execFails i of
                  Some e \<Rightarrow> Some (Inl e)
                | None \<Rightarrow>
                    insert_payments reason marshal execFails ords channels now nodeId (i + 1) ps
                      (insert_payment (payment_row reason now htlcJson nodeId payment cs) table)
                      (events @ [payment_event now nodeId payment cs]))))"

definition storePayments ::
    "(PaymentFailureReason \<Rightarrow> string) \<Rightarrow> (LndHop list list \<Rightarrow> string result) \<Rightarrow> PaymentFailures \<Rightarrow>
     channel_orders \<Rightarrow> ChannelState \<Rightarrow> time \<Rightarrow> LndListedPayment list \<Rightarrow> int \<Rightarrow> bool \<Rightarrow> bool \<Rightarrow> PaymentRow list \<Rightarrow>
     (PaymentEvent list \<times> PaymentRow list \<times> go_error option) option" where
  "storePayments reason marshal fails ords channels now p nodeId eventChannel bootStrapping table =
     (if length p > 0
      then (case insert_payments reason marshal (pf_Exec fails) ords channels now nodeId 0 p table [] of
              None \<Rightarrow> None
            | Some (Inl e) \<Rightarrow> Some ([], table, Some e)
            | Some (Inr (table1, paymentEvents)) \<Rightarrow>
                (case pf_Commit fails of
                   Some e \<Rightarrow> Some ([], table, Some e)
                 | None \<Rightarrow> Some (if eventChannel \<and> \<not> bootStrapping then paymentEvents else [], table1, None)))
      else Some ([], table, None))"

text \<open>The largest stored payment index of the node, 0 without one.\<close>

definition fetchLastPaymentIndex :: "go_error option \<Rightarrow> PaymentRow list \<Rightarrow> int \<Rightarrow> uint64 result" where
  "fetchLastPaymentIndex scanFails table nodeId =
     (case scanFails of
        Some e \<Rightarrow> Inl e
      | None \<Rightarrow> Ok (foldr max (map pr_PaymentIndex (filter (\<lambda>r. pr_NodeId r = nodeId) table)) 0))"

text \<open>The request: one payment after the given index; the answer also has the index to go on from.\<close>

record ListPaymentsRequest =
  lpq_IncludeIncomplete :: bool
  lpq_IndexOffset :: uint64
  lpq_MaxPayments :: uint64
  lpq_Reversed :: bool

definition fetchPayments ::
    "(ListPaymentsRequest \<Rightarrow> 'e + LndListedPayment list \<times> uint64) \<Rightarrow> uint64 \<Rightarrow> bool \<Rightarrow>
     'e + LndListedPayment list \<times> uint64" where
  "fetchPayments ListPayments lastIndex includeIncomplete =
     ListPayments \<lparr>lpq_IncludeIncomplete = includeIncomplete, lpq_IndexOffset = lastIndex,
                   lpq_MaxPayments = 1, lpq_Reversed = False\<rparr>"

section \<open>The payments subscription\<close>

record PaymentRound =
  pn_ListPayments :: "ListPaymentsRequest \<Rightarrow> bool + LndListedPayment list \<times> uint64"
  pn_Fails :: PaymentFailures
  pn_Channels :: ChannelState
  pn_Now :: time

datatype tick_end = TickEnd | LoopEnd | MoreRounds | StuckRound

fun payment_rounds ::
    "bool \<Rightarrow> (PaymentFailureReason \<Rightarrow> string) \<Rightarrow> (LndHop list list \<Rightarrow> string result) \<Rightarrow> channel_orders \<Rightarrow> int \<Rightarrow>
     bool \<Rightarrow> PaymentRound list \<Rightarrow> uint64 \<Rightarrow> Status \<Rightarrow> bool \<Rightarrow> PaymentRow list \<Rightarrow>
     PaymentEvent emitted list \<times> tick_end \<times> Status \<times> bool \<times> PaymentRow list" where
  "payment_rounds ec reason marshal ords nodeId incl [] lastIndex status boot table =
     ([], MoreRounds, status, boot, table)"
| "payment_rounds ec reason marshal ords nodeId incl (r # rs) lastIndex status boot table =
     (let now_status = (if boot then Initializing else Active);
          announced = send_status ec now_status status
      in case fetchPayments (pn_ListPayments r) lastIndex incl of
           Inl True \<Rightarrow> (announced, LoopEnd, now_status, boot, table)
         | Inl False \<Rightarrow> (announced @ send_status ec Pending now_status, TickEnd, Pending, boot, table)
         | Inr (payments, lastIndexOffset) \<Rightarrow>
             (case storePayments reason marshal (pn_Fails r) ords (pn_Channels r) (pn_Now r) payments nodeId ec boot table of
                None \<Rightarrow> (announced, StuckRound, now_status, boot, table)
              | Some (events, table1, err) \<Rightarrow>
                  (let em = announced @ map Emitted events
                   in if err \<noteq> None then (em, TickEnd, now_status, boot, table1)
                      else if length payments = 0 \<or> lastIndex = lastIndexOffset
                      then (em, TickEnd, now_status, False, table1)
                      else case payment_rounds ec reason marshal ords nodeId incl rs lastIndexOffset now_status boot table1 of
                             (ems, rest) \<Rightarrow> (em @ ems, rest))))"

text \<open>A tick: the failure of reading the last index and the rounds; None is the cancelled context.\<close>

fun payment_ticks ::
    "bool \<Rightarrow> (PaymentFailureReason \<Rightarrow> string) \<Rightarrow> (LndHop list list \<Rightarrow> string result) \<Rightarrow> channel_orders \<Rightarrow> int \<Rightarrow>
     bool \<Rightarrow> (go_error option \<times> PaymentRound list) option list \<Rightarrow> Status \<Rightarrow> bool \<Rightarrow> PaymentRow list \<Rightarrow>
     PaymentEvent emitted list \<times> tick_end \<times> Status \<times> bool \<times> PaymentRow list" where
  "payment_ticks ec reason marshal ords nodeId incl [] status boot table = ([], TickEnd, status, boot, table)"
| "payment_ticks ec reason marshal ords nodeId incl (None # ticks) status boot table =
     ([], LoopEnd, status, boot, table)"
| "payment_ticks ec reason marshal ords nodeId incl (Some (scanFails, rounds) # ticks) status boot table =
     (case (case fetchLastPaymentIndex scanFails table nodeId of
              Inl e \<Rightarrow> (send_status ec Pending status, TickEnd, Pending, boot, table)
            | Inr lastIndex \<Rightarrow> payment_rounds ec reason marshal ords nodeId incl rounds lastIndex status boot table) of
        (em, TickEnd, status1, boot1, table1) \<Rightarrow>
          (case payment_ticks ec reason marshal ords nodeId incl ticks status1 boot1 table1 of
             (ems, rest) \<Rightarrow> (em @ ems, rest))
      | other \<Rightarrow> other)"

text \<open>Whether incomplete payments are included is read once, from the service registry.\<close>

definition SubscribeAndStorePayments ::
    "bool \<Rightarrow> (PaymentFailureReason \<Rightarrow> string) \<Rightarrow> (LndHop list list \<Rightarrow> string result) \<Rightarrow> channel_orders \<Rightarrow>
     ManagedNodeSettings \<Rightarrow> Services \<Rightarrow> (go_error option \<times> PaymentRound list) option list \<Rightarrow> PaymentRow list \<Rightarrow>
     PaymentEvent emitted list \<times> tick_end \<times> Status \<times> bool \<times> PaymentRow list" where
  "SubscribeAndStorePayments eventChannel reason marshal ords nodeSettings rs ticks table =
     payment_ticks eventChannel reason marshal ords (mns_NodeId nodeSettings)
       (snd (GetIncludeIncomplete (mns_NodeId nodeSettings) rs)) ticks Inactive True table"

section \<open>Updating payments in flight\<close>

definition fetchInFlightPaymentIndexes :: "go_error option \<Rightarrow> PaymentRow list \<Rightarrow> int \<Rightarrow> uint64 list result" where
  "fetchInFlightPaymentIndexes queryFails table nodeId =
     (case queryFails of
        Some e \<Rightarrow> Inl e
      | None \<Rightarrow> Ok (sort (map pr_PaymentIndex
                 (filter (\<lambda>r. pr_Status r = ''IN_FLIGHT'' \<and> pr_NodeId r = nodeId) table))))"

definition update_index :: "uint64 \<Rightarrow> (PaymentRow \<Rightarrow> PaymentRow) \<Rightarrow> PaymentRow list \<Rightarrow> PaymentRow list" where
  "update_index paymentIndex f table = map (\<lambda>r. if pr_PaymentIndex r = paymentIndex then f r else r) table"

definition setPaymentToFailedDetailsUnavailable ::
    "go_error option \<Rightarrow> time \<Rightarrow> uint64 \<Rightarrow> PaymentRow list \<Rightarrow> PaymentRow list \<times> go_error option" where
  "setPaymentToFailedDetailsUnavailable execFails now paymentIndex table =
     (case execFails of
        Some e \<Rightarrow> (table, Some e)
      | None \<Rightarrow>
          (update_index paymentIndex
             (\<lambda>r. r\<lparr>pr_Status := ''FAILED'', pr_FailureReason := ''DETAILS_UNAVAILABLE'',
                    pr_UpdatedOn := Some now\<rparr>) table, None))"

text \<open>
  The status and failure reason to store: a payment in flight fails when its invoice expired more
  than ten minutes ago.  \<open>decode\<close> gives the expiry of a payment request; times are compared in whole
  seconds.
\<close>

definition second :: time where "second = 1000000000"

definition updated_status ::
    "(string \<Rightarrow> time result) \<Rightarrow> (PaymentFailureReason \<Rightarrow> string) \<Rightarrow> time \<Rightarrow> LndListedPayment \<Rightarrow>
     (string \<times> string) result" where
  "updated_status decode reason now payment =
     (let status = payment_status_text (ll_Status payment);
          fr = reason (ll_FailureReason payment)
      in if status = ''IN_FLIGHT''
         then (case (if ll_PaymentRequest payment \<noteq> [] then decode (ll_PaymentRequest payment)
                     else Ok (24 * 60 * 60 * second)) of
                 Inl e \<Rightarrow> Inl e
               | Inr expiry \<Rightarrow>
                   (let expiredAt = sint (ll_CreationTimeNs payment) + expiry + 10 * 60 * second
                    in if now div second > expiredAt div second
                       then Ok (''FAILED'', if fr = ''FAILURE_REASON_NONE'' then ''FAILURE_REASON_TIMEOUT'' else fr)
                       else Ok (status, fr)))
         else Ok (status, fr))"

definition update_row ::
    "time \<Rightarrow> int \<Rightarrow> string \<Rightarrow> string \<times> string \<Rightarrow> LndListedPayment \<Rightarrow> PaymentRow \<Rightarrow> PaymentRow" where
  "update_row now nodeId htlcJson sf payment r =
     r\<lparr>pr_PaymentHash := ll_PaymentHash payment, pr_PaymentPreimage := ll_PaymentPreimage payment,
       pr_ValueMsat := ll_ValueMsat payment, pr_PaymentRequest := ll_PaymentRequest payment,
       pr_Status := fst sf, pr_FeeMsat := ll_FeeMsat payment, pr_Htlcs := htlcJson,
       pr_FailureReason := snd sf, pr_NodeId := nodeId, pr_UpdatedOn := Some now\<rparr>"

text \<open>
  The statements run outside the transaction that is opened around them, so an error leaves the
  updates before it in place.
\<close>

fun update_payments ::
    "(string \<Rightarrow> time result) \<Rightarrow> (PaymentFailureReason \<Rightarrow> string) \<Rightarrow> (LndHop list list \<Rightarrow> string result) \<Rightarrow>
     (nat \<Rightarrow> go_error option) \<Rightarrow> time \<Rightarrow> int \<Rightarrow> nat \<Rightarrow> LndListedPayment list \<Rightarrow> PaymentRow list \<Rightarrow>
     PaymentRow list \<times> go_error option" where
  "update_payments decode reason marshal execFails now nodeId i [] table = (table, None)"
| "update_payments decode reason marshal execFails now nodeId i (payment # ps) table =
     (case marshal (ll_Htlcs payment) of
        Inl e \<Rightarrow> (table, Some e)
      | Inr htlcJson \<Rightarrow>
          (case updated_status decode reason now payment of
             Inl e \<Rightarrow> (table, Some e)
           | Inr sf \<Rightarrow>
               (case execFails i of
                  Some e \<Rightarrow> (table, Some e)
                | None \<Rightarrow>
                    update_payments decode reason marshal execFails now nodeId (i + 1) ps
                      (update_index (ll_PaymentIndex payment) (update_row now nodeId htlcJson sf payment) table))))"

definition updatePayments ::
    "(string \<Rightarrow> time result) \<Rightarrow> (PaymentFailureReason \<Rightarrow> string) \<Rightarrow> (LndHop list list \<Rightarrow> string result) \<Rightarrow>
     PaymentFailures \<Rightarrow> time \<Rightarrow> LndListedPayment list \<Rightarrow> int \<Rightarrow> PaymentRow list \<Rightarrow>
     PaymentRow list \<times> go_error option" where
  "updatePayments decode reason marshal fails now p nodeId table =
     (if length p > 0
      then (case update_payments decode reason marshal (pf_Exec fails) now nodeId 0 p table of
              (table1, Some e) \<Rightarrow> (table1, Some e)
            | (table1, None) \<Rightarrow> (table1, pf_Commit fails))
      else (table, None))"

record InFlightTick =
  it_QueryFails :: "go_error option"
  it_ListPayments :: "ListPaymentsRequest \<Rightarrow> bool + LndListedPayment list \<times> uint64"
  it_SetFails :: "uint64 \<Rightarrow> go_error option"
  it_Fails :: "uint64 \<Rightarrow> PaymentFailures"
  it_Now :: time

text \<open>The payments in flight of one tick; True says that the context was cancelled.\<close>

fun update_in_flight ::
    "(string \<Rightarrow> time result) \<Rightarrow> (PaymentFailureReason \<Rightarrow> string) \<Rightarrow> (LndHop list list \<Rightarrow> string result) \<Rightarrow> int \<Rightarrow>
     InFlightTick \<Rightarrow> uint64 list \<Rightarrow> PaymentRow list \<Rightarrow> bool \<times> PaymentRow list" where
  "update_in_flight decode reason marshal nodeId t [] table = (False, table)"
| "update_in_flight decode reason marshal nodeId t (i # is) table =
     (case fetchPayments (it_ListPayments t) (i - 1) True of
        Inl True \<Rightarrow> (True, table)
      | Inl False \<Rightarrow> update_in_flight decode reason marshal nodeId t is table
      | Inr (payments, lastIndexOffset) \<Rightarrow>
          update_in_flight decode reason marshal nodeId t is
            (case payments of
               [] \<Rightarrow> fst (setPaymentToFailedDetailsUnavailable (it_SetFails t i) (it_Now t) i table)
             | p # ps \<Rightarrow>
                 if ll_PaymentIndex p \<noteq> i
                 then fst (setPaymentToFailedDetailsUnavailable (it_SetFails t i) (it_Now t) i table)
                 else fst (updatePayments decode reason marshal (it_Fails t i) (it_Now t) (p # ps) nodeId table)))"

fun in_flight_ticks ::
    "bool \<Rightarrow> (string \<Rightarrow> time result) \<Rightarrow> (PaymentFailureReason \<Rightarrow> string) \<Rightarrow> (LndHop list list \<Rightarrow> string result) \<Rightarrow>
     int \<Rightarrow> InFlightTick option list \<Rightarrow> Status \<Rightarrow> bool \<Rightarrow> PaymentRow list \<Rightarrow>
     unit emitted list \<times> bool \<times> Status \<times> PaymentRow list" where
  "in_flight_ticks ec decode reason marshal nodeId [] status boot table = ([], False, status, table)"
| "in_flight_ticks ec decode reason marshal nodeId (None # ticks) status boot table = ([], True, status, table)"
| "in_flight_ticks ec decode reason marshal nodeId (Some t # ticks) status boot table =
     (case fetchInFlightPaymentIndexes (it_QueryFails t) table nodeId of
        Inl e \<Rightarrow>
          (case in_flight_ticks ec decode reason marshal nodeId ticks Pending boot table of
             (ems, rest) \<Rightarrow> (send_status ec Pending status @ ems, rest))
      | Inr inFlightIndexes \<Rightarrow>
          (let now_status = (if boot then Initializing else Active);
               em = send_status ec now_status status
           in case update_in_flight decode reason marshal nodeId t inFlightIndexes table of
                (True, table1) \<Rightarrow> (em, True, now_status, table1)
              | (False, table1) \<Rightarrow>
                  (case in_flight_ticks ec decode reason marshal nodeId ticks now_status False table1 of
                     (ems, rest) \<Rightarrow> (em @ ems, rest))))"

definition UpdateInFlightPayments ::
    "bool \<Rightarrow> (string \<Rightarrow> time result) \<Rightarrow> (PaymentFailureReason \<Rightarrow> string) \<Rightarrow> (LndHop list list \<Rightarrow> string result) \<Rightarrow>
     ManagedNodeSettings \<Rightarrow> InFlightTick option list \<Rightarrow> PaymentRow list \<Rightarrow>
     unit emitted list \<times> bool \<times> Status \<times> PaymentRow list" where
  "UpdateInFlightPayments eventChannel decode reason marshal nodeSettings ticks table =
     in_flight_ticks eventChannel decode reason marshal (mns_NodeId nodeSettings) ticks Inactive True table"

section \<open>The payment table\<close>

definition payment_keys :: "PaymentRow list \<Rightarrow> (time \<times> uint64) list" where
  "payment_keys table = map (\<lambda>r. (pr_CreationTimestamp r, pr_PaymentIndex r)) table"

lemma payment_keys_update [simp]:
  "(\<And>r. pr_CreationTimestamp (f r) = pr_CreationTimestamp r \<and> pr_PaymentIndex (f r) = pr_PaymentIndex r) \<Longrightarrow>
     payment_keys (update_index i f table) = payment_keys table"
  by (simp add: payment_keys_def update_index_def)

lemma update_row_keys [simp]:
  "pr_CreationTimestamp (update_row now n j sf p r) = pr_CreationTimestamp r"
  "pr_PaymentIndex (update_row now n j sf p r) = pr_PaymentIndex r"
  by (simp_all add: update_row_def)

lemma update_payments_keys [simp]:
  "payment_keys (fst (update_payments decode reason marshal execFails now nodeId i ps table)) = payment_keys table"
  by (induction decode reason marshal execFails now nodeId i ps table rule: update_payments.induct)
    (auto split: sum.split option.split)

lemma updates_keep_keys [simp]:
  "payment_keys (fst (updatePayments decode reason marshal fails now p nodeId table)) = payment_keys table"
  "payment_keys (fst (setPaymentToFailedDetailsUnavailable e now i table)) = payment_keys table"
proof -
  show "payment_keys (fst (updatePayments decode reason marshal fails now p nodeId table)) = payment_keys table"
    using update_payments_keys [of decode reason marshal "pf_Exec fails" now nodeId 0 p table]
    by (auto simp: updatePayments_def simp del: update_payments_keys split: prod.split option.split)
  show "payment_keys (fst (setPaymentToFailedDetailsUnavailable e now i table)) = payment_keys table"
    by (auto simp: setPaymentToFailedDetailsUnavailable_def split: option.split)
qed

lemma update_in_flight_keys:
  "payment_keys (snd (update_in_flight decode reason marshal nodeId t is table)) = payment_keys table"
  by (induction decode reason marshal nodeId t "is" table rule: update_in_flight.induct)
    (auto split: sum.split prod.split bool.split list.split)

text \<open>No subscription ever removes a payment or stores one twice.\<close>

definition keeps :: "PaymentRow list \<Rightarrow> PaymentRow list \<Rightarrow> bool" where
  "keeps table table1 \<longleftrightarrow> prefix (payment_keys table) (payment_keys table1)
     \<and> (distinct (payment_keys table) \<longrightarrow> distinct (payment_keys table1))"

lemma keeps_refl [simp]: "keeps t t"
  by (simp add: keeps_def)

lemma keeps_trans: "keeps a b \<Longrightarrow> keeps b c \<Longrightarrow> keeps a c"
  by (auto simp: keeps_def)

lemma keeps_insert: "keeps table (insert_payment row table)"
  by (auto simp: keeps_def payment_keys_def insert_payment_def list_ex_iff)

lemma insert_payments_keeps:
  "insert_payments reason marshal execFails ords channels now nodeId i ps table events = Some (Ok (table1, events1)) \<Longrightarrow>
     keeps table table1"
proof (induction reason marshal execFails ords channels now nodeId i ps table events rule: insert_payments.induct)
  case (2 reason marshal execFails ords channels now nodeId i payment ps table events)
  then obtain j cs where steps: "marshal (ll_Htlcs payment) = Ok j" "payment_channels ords channels payment = Some cs"
    "execFails i = None"
    by (auto split: sum.splits option.splits)
  with 2 have "keeps (insert_payment (payment_row reason now j nodeId payment cs) table) table1" by simp
  with keeps_insert show ?case by (rule keeps_trans)
qed simp

lemma storePayments_keeps:
  assumes "storePayments reason marshal fails ords channels now p nodeId ec boot table = Some (events, table1, err)"
  shows "keeps table table1" and "boot \<or> \<not> ec \<Longrightarrow> events = []"
  using assms
  by (auto simp: storePayments_def insert_payments_keeps split: if_splits option.splits sum.splits prod.splits)

lemma payment_rounds_keeps:
  "payment_rounds ec reason marshal ords nodeId incl rs lastIndex status boot table = (em, fin, status1, boot1, table1) \<Longrightarrow>
     keeps table table1"
proof (induction ec reason marshal ords nodeId incl rs lastIndex status boot table arbitrary: em fin status1 boot1 table1
    rule: payment_rounds.induct)
  case (2 ec reason marshal ords nodeId incl r rs lastIndex status boot table)
  show ?case
  proof (cases "fetchPayments (pn_ListPayments r) lastIndex incl")
    case (Inl c)
    with 2(2) show ?thesis by (cases c) (auto simp: Let_def)
  next
    case (Inr x)
    obtain ps off where x: "x = (ps, off)" by fastforce
    show ?thesis
    proof (cases "storePayments reason marshal (pn_Fails r) ords (pn_Channels r) (pn_Now r) ps nodeId ec boot table")
      case None
      with Inr x 2(2) show ?thesis by (auto simp: Let_def)
    next
      case (Some y)
      obtain events t2 err where y: "y = (events, t2, err)" by (metis prod_cases3)
      note stored = storePayments_keeps(1) [OF Some [unfolded y]]
      show ?thesis
      proof (cases "err \<noteq> None \<or> length ps = 0 \<or> lastIndex = off")
        case True
        with Inr x Some y 2(2) stored show ?thesis by (auto simp: Let_def split: if_splits)
      next
        case False
        obtain ems f3 s3 b3 t3 where rest: "payment_rounds ec reason marshal ords nodeId incl rs off
            (if boot then Initializing else Active) boot t2 = (ems, f3, s3, b3, t3)"
          by (metis prod_cases5)
        have "keeps t2 t3"
          by (rule 2(1) [OF refl refl Inr [unfolded x] refl Some [unfolded y] refl refl refl]) (use False rest in auto)
        moreover have "table1 = t3" using False rest Inr x Some y 2(2) by (auto simp: Let_def)
        ultimately show ?thesis using stored keeps_trans by blast
      qed
    qed
  qed
qed simp

lemma payment_ticks_keeps:
  "payment_ticks ec reason marshal ords nodeId incl ticks status boot table = (em, fin, status1, boot1, table1) \<Longrightarrow>
     keeps table table1"
proof (induction ec reason marshal ords nodeId incl ticks status boot table arbitrary: em fin status1 boot1 table1
    rule: payment_ticks.induct)
  case (3 ec reason marshal ords nodeId incl scanFails rounds ticks status boot table)
  define one where "one = (case fetchLastPaymentIndex scanFails table nodeId of
      Inl e \<Rightarrow> (send_status ec Pending status, TickEnd, Pending, boot, table)
    | Inr lastIndex \<Rightarrow> payment_rounds ec reason marshal ords nodeId incl rounds lastIndex status boot table)"
  obtain e2 f2 s2 b2 t2 where o: "one = (e2, f2, s2, b2, t2)" by (metis prod_cases5)
  then have first: "keeps table t2"
    unfolding one_def by (auto split: sum.splits dest: payment_rounds_keeps)
  show ?case
  proof (cases f2)
    case TickEnd
    obtain e3 f3 s3 b3 t3 where rest: "payment_ticks ec reason marshal ords nodeId incl ticks s2 b2 t2 = (e3, f3, s3, b3, t3)"
      by (metis prod_cases5)
    have "keeps t2 t3"
      by (rule 3(1) [OF o [unfolded one_def TickEnd, symmetric] refl refl refl refl rest])
    with 3(2) o [unfolded one_def] TickEnd rest first show ?thesis by (auto intro: keeps_trans)
  qed (use 3(2) o [unfolded one_def] first in auto)
qed auto

section \<open>Which payments an update touches\<close>

text \<open>
  Updating a payment in flight finds its row by the payment index alone: it overwrites the rows
  with this index of every node, and makes them rows of the node that is updated.  Rows with
  another index stay.
\<close>
lemma update_reassigns_other_nodes:
  assumes "marshal (ll_Htlcs payment) = Ok htlcJson" and "updated_status decode reason now payment = Ok sf"
    and "pf_Exec fails 0 = None"
  shows "list_all2 (\<lambda>r r1. if pr_PaymentIndex r = ll_PaymentIndex payment
              then pr_NodeId r1 = nodeId \<and> pr_PaymentHash r1 = ll_PaymentHash payment \<and> pr_Status r1 = fst sf
              else r1 = r)
           table (fst (updatePayments decode reason marshal fails now [payment] nodeId table))"
  using assms
  by (simp add: updatePayments_def update_index_def update_row_def list_all2_map2 list_all2_same)

section \<open>What a tick does to the payments in flight\<close>

definition no_payment_failures :: PaymentFailures where
  "no_payment_failures = \<lparr>pf_Exec = (\<lambda>i. None), pf_Commit = None\<rparr>"

text \<open>
  What LND says of the payment with an index in a tick: it may know none, or answer with another
  one.
\<close>

definition known_payment :: "InFlightTick \<Rightarrow> uint64 \<Rightarrow> LndListedPayment option" where
  "known_payment t i =
     (case fetchPayments (it_ListPayments t) (i - 1) True of
        Inr (p # ps, off) \<Rightarrow> if ll_PaymentIndex p = i then Some p else None
      | _ \<Rightarrow> None)"

text \<open>How long after its creation a payment may be in flight: the expiry of its invoice, or a day.\<close>

definition validity :: "(string \<Rightarrow> time result) \<Rightarrow> LndListedPayment \<Rightarrow> time" where
  "validity decode p =
     (if ll_PaymentRequest p = [] then 24 * 3600 * second
      else case decode (ll_PaymentRequest p) of Inl e \<Rightarrow> 0 | Inr expiry \<Rightarrow> expiry)"

definition expired :: "(string \<Rightarrow> time result) \<Rightarrow> time \<Rightarrow> LndListedPayment \<Rightarrow> bool" where
  "expired decode now p \<longleftrightarrow> ll_Status p = IN_FLIGHT \<and>
     (sint (ll_CreationTimeNs p) + validity decode p + 600 * second) div second < now div second"

text \<open>
  A tick in which everything answers: the database, the JSON encoding, LND with at most the one
  payment it is asked for, and the decoding of the invoices there are.
\<close>

definition answering_tick ::
    "(string \<Rightarrow> time result) \<Rightarrow> (LndHop list list \<Rightarrow> string result) \<Rightarrow> InFlightTick \<Rightarrow> bool" where
  "answering_tick decode marshal t \<longleftrightarrow>
     it_QueryFails t = None \<and> (\<forall>i. it_SetFails t i = None) \<and> (\<forall>i. it_Fails t i = no_payment_failures) \<and>
     (\<forall>h. \<exists>j. marshal h = Ok j) \<and>
     (\<forall>q. \<exists>ps off. it_ListPayments t q = Inr (ps, off) \<and> length ps \<le> 1) \<and>
     (\<forall>i p. known_payment t i = Some p \<and> ll_PaymentRequest p \<noteq> [] \<longrightarrow>
        (\<exists>expiry. decode (ll_PaymentRequest p) = Ok expiry))"

text \<open>What becomes of a row whose payment was in flight.\<close>

definition resolved_row ::
    "(string \<Rightarrow> time result) \<Rightarrow> (PaymentFailureReason \<Rightarrow> string) \<Rightarrow> int \<Rightarrow> InFlightTick \<Rightarrow> PaymentRow \<Rightarrow>
     PaymentRow \<Rightarrow> bool" where
  "resolved_row decode reason nodeId t r r1 \<longleftrightarrow>
     (case known_payment t (pr_PaymentIndex r) of
        None \<Rightarrow> r1 = r\<lparr>pr_Status := ''FAILED'', pr_FailureReason := ''DETAILS_UNAVAILABLE'',
                       pr_UpdatedOn := Some (it_Now t)\<rparr>
      | Some p \<Rightarrow>
          pr_Status r1 = (if expired decode (it_Now t) p then ''FAILED'' else payment_status_text (ll_Status p)) \<and>
          pr_FailureReason r1 =
            (if expired decode (it_Now t) p \<and> reason (ll_FailureReason p) = ''FAILURE_REASON_NONE''
             then ''FAILURE_REASON_TIMEOUT'' else reason (ll_FailureReason p)) \<and>
          pr_PaymentHash r1 = ll_PaymentHash p \<and> pr_PaymentPreimage r1 = ll_PaymentPreimage p \<and>
          pr_ValueMsat r1 = ll_ValueMsat p \<and> pr_FeeMsat r1 = ll_FeeMsat p \<and> pr_NodeId r1 = nodeId \<and>
          pr_PaymentIndex r1 = pr_PaymentIndex r \<and> pr_CreationTimestamp r1 = pr_CreationTimestamp r \<and>
          pr_IncomingChannelId r1 = pr_IncomingChannelId r \<and> pr_OutgoingChannelId r1 = pr_OutgoingChannelId r)"

lemma payment_status_in_flight: "payment_status_text s = ''IN_FLIGHT'' \<longleftrightarrow> s = IN_FLIGHT"
proof (cases s)
  case (OtherPaymentStatus n)
  have "format_uint m \<noteq> CHR ''I'' # cs" for m cs
    using format_uint_digits [of m] by (auto simp: is_digit_def)
  then show ?thesis using OtherPaymentStatus by (auto simp: payment_status_text_def format_int_def)
qed (simp_all add: payment_status_text_def)

lemma updated_status_known:
  assumes "answering_tick decode marshal t" and "known_payment t i = Some p"
  shows "updated_status decode reason (it_Now t) p = Ok
     (if expired decode (it_Now t) p then ''FAILED'' else payment_status_text (ll_Status p),
      if expired decode (it_Now t) p \<and> reason (ll_FailureReason p) = ''FAILURE_REASON_NONE''
      then ''FAILURE_REASON_TIMEOUT'' else reason (ll_FailureReason p))"
proof -
  have "ll_PaymentRequest p \<noteq> [] \<Longrightarrow> \<exists>expiry. decode (ll_PaymentRequest p) = Ok expiry"
    using assms unfolding answering_tick_def by blast
  then show ?thesis
    by (auto simp: updated_status_def expired_def validity_def payment_status_in_flight Let_def)
qed

text \<open>Every request of the tick rewrites the rows of its index by one function of the row.\<close>

lemma update_index_commutes:
  assumes "\<And>i r. pr_PaymentIndex (F i r) = pr_PaymentIndex r" and "\<And>i r. F i (F i r) = F i r"
  shows "map (\<lambda>r. if pr_PaymentIndex r \<in> set is then F (pr_PaymentIndex r) r else r) (update_index i (F i) table)
    = map (\<lambda>r. if pr_PaymentIndex r \<in> set (i # is) then F (pr_PaymentIndex r) r else r) table"
  by (auto simp: update_index_def assms)

lemma tick_request_step:
  assumes ok: "answering_tick decode marshal t"
  obtains F where "\<And>i is table. update_in_flight decode reason marshal nodeId t (i # is) table
      = update_in_flight decode reason marshal nodeId t is (update_index i (F i) table)"
    and "\<And>i r. pr_PaymentIndex (F i r) = pr_PaymentIndex r" and "\<And>i r. F i (F i r) = F i r"
    and "\<And>r. resolved_row decode reason nodeId t r (F (pr_PaymentIndex r) r)"
proof -
  define F where "F i r = (case known_payment t i of
      None \<Rightarrow> r\<lparr>pr_Status := ''FAILED'', pr_FailureReason := ''DETAILS_UNAVAILABLE'', pr_UpdatedOn := Some (it_Now t)\<rparr>
    | Some p \<Rightarrow> update_row (it_Now t) nodeId (case marshal (ll_Htlcs p) of Inl e \<Rightarrow> [] | Inr j \<Rightarrow> j)
        (if expired decode (it_Now t) p then ''FAILED'' else payment_status_text (ll_Status p),
         if expired decode (it_Now t) p \<and> reason (ll_FailureReason p) = ''FAILURE_REASON_NONE''
         then ''FAILURE_REASON_TIMEOUT'' else reason (ll_FailureReason p)) p r)" for i r
  show thesis
  proof
    fix i "is" table
    from ok obtain ps off where ans: "fetchPayments (it_ListPayments t) (i - 1) True = Inr (ps, off)" "length ps \<le> 1"
      unfolding answering_tick_def fetchPayments_def by blast
    have set_ok: "setPaymentToFailedDetailsUnavailable (it_SetFails t i) (it_Now t) i table =
        (update_index i (\<lambda>r. r\<lparr>pr_Status := ''FAILED'', pr_FailureReason := ''DETAILS_UNAVAILABLE'',
           pr_UpdatedOn := Some (it_Now t)\<rparr>) table, None)"
      using ok by (simp add: answering_tick_def setPaymentToFailedDetailsUnavailable_def)
    show "update_in_flight decode reason marshal nodeId t (i # is) table
      = update_in_flight decode reason marshal nodeId t is (update_index i (F i) table)"
    proof (cases "known_payment t i")
      case None
      then have "ps = [] \<or> (\<exists>p qs. ps = p # qs \<and> ll_PaymentIndex p \<noteq> i)"
        using ans by (auto simp: known_payment_def split: list.splits if_splits)
      moreover have "F i = (\<lambda>r. r\<lparr>pr_Status := ''FAILED'', pr_FailureReason := ''DETAILS_UNAVAILABLE'',
          pr_UpdatedOn := Some (it_Now t)\<rparr>)" using None by (simp add: F_def fun_eq_iff)
      ultimately show ?thesis using ans set_ok by auto
    next
      case (Some p)
      then have ps: "ps = [p]" "ll_PaymentIndex p = i"
        using ans by (auto simp: known_payment_def split: list.splits if_splits)
      obtain j where j: "marshal (ll_Htlcs p) = Ok j" using ok unfolding answering_tick_def by blast
      have "it_Fails t i = no_payment_failures" using ok unfolding answering_tick_def by blast
      then have "fst (updatePayments decode reason marshal (it_Fails t i) (it_Now t) [p] nodeId table) =
          update_index i (F i) table"
        using j updated_status_known [OF ok Some, of reason] ps(2) Some
        by (simp add: updatePayments_def no_payment_failures_def F_def [abs_def])
      with ans ps show ?thesis by simp
    qed
  qed (auto simp: F_def update_row_def resolved_row_def split: option.split)
qed

lemma tick_rows:
  assumes "answering_tick decode marshal t"
  shows "\<exists>table1. update_in_flight decode reason marshal nodeId t is table = (False, table1) \<and>
    list_all2 (\<lambda>r r1. if pr_PaymentIndex r \<in> set is then resolved_row decode reason nodeId t r r1 else r1 = r)
      table table1"
proof -
  obtain F where step: "\<And>i is table. update_in_flight decode reason marshal nodeId t (i # is) table
      = update_in_flight decode reason marshal nodeId t is (update_index i (F i) table)"
    and F: "\<And>i r. pr_PaymentIndex (F i r) = pr_PaymentIndex r" "\<And>i r. F i (F i r) = F i r"
      "\<And>r. resolved_row decode reason nodeId t r (F (pr_PaymentIndex r) r)"
    using tick_request_step [OF assms] by blast
  have "update_in_flight decode reason marshal nodeId t is table =
      (False, map (\<lambda>r. if pr_PaymentIndex r \<in> set is then F (pr_PaymentIndex r) r else r) table)"
  proof (induction "is" arbitrary: table)
    case (Cons i "is")
    show ?case unfolding step Cons.IH update_index_commutes [where F = F, OF F(1,2)] ..
  qed simp
  with F(3) show ?thesis by (simp add: list_all2_map2 list_all2_same)
qed

text \<open>
  C20: one tick of the in-flight loop in which the database, the JSON encoding and the decoding of the
  invoices work and LND answers each request with at most one payment.  Every row whose index is
  that of a payment of the node in flight is rewritten: as failed with its details unavailable when LND
  does not have that payment, and otherwise as LND reports it, except that a payment still in
  flight is stored as failed exactly when the current second is later than its creation, plus
  the expiry of its invoice (a day when it has none), plus ten minutes; its failure reason is then
  a timeout unless LND gives another.  Rows with other indexes stay as they are.
\<close>
theorem expired_payment_fails:
  assumes "answering_tick decode marshal t"
  shows "\<exists>em status table1.
    UpdateInFlightPayments ec decode reason marshal nodeSettings [Some t] table = (em, False, status, table1) \<and>
    list_all2 (\<lambda>r r1.
        if \<exists>q\<in>set table. pr_Status q = ''IN_FLIGHT'' \<and> pr_NodeId q = mns_NodeId nodeSettings \<and>
                       pr_PaymentIndex q = pr_PaymentIndex r
        then resolved_row decode reason (mns_NodeId nodeSettings) t r r1 else r1 = r)
      table table1"
proof -
  let ?n = "mns_NodeId nodeSettings"
  let ?is = "sort (map pr_PaymentIndex (filter (\<lambda>r. pr_Status r = ''IN_FLIGHT'' \<and> pr_NodeId r = ?n) table))"
  have fetched: "fetchInFlightPaymentIndexes (it_QueryFails t) table ?n = Ok ?is"
    using assms by (simp add: answering_tick_def fetchInFlightPaymentIndexes_def)
  obtain table1 where run: "update_in_flight decode reason marshal ?n t ?is table = (False, table1)"
    and rows: "list_all2 (\<lambda>r r1. if pr_PaymentIndex r \<in> set ?is then resolved_row decode reason ?n t r r1 else r1 = r)
      table table1"
    using tick_rows [OF assms] by blast
  have in_flight: "pr_PaymentIndex r \<in> set ?is \<longleftrightarrow>
      (\<exists>q\<in>set table. pr_Status q = ''IN_FLIGHT'' \<and> pr_NodeId q = ?n \<and> pr_PaymentIndex q = pr_PaymentIndex r)" for r
    by (force simp: image_iff)
  have "\<exists>em status. UpdateInFlightPayments ec decode reason marshal nodeSettings [Some t] table = (em, False, status, table1)"
    using fetched run by (simp add: UpdateInFlightPayments_def Let_def)
  with rows [unfolded in_flight] show ?thesis by blast
qed

section \<open>Payments in flight are resolved\<close>

definition settled :: "PaymentRow \<Rightarrow> bool" where
  "settled r \<longleftrightarrow> pr_Status r \<noteq> ''IN_FLIGHT''"

lemma set_update_index:
  assumes "\<forall>r. settled (f r)"
  shows "\<forall>r \<in> set (update_index i f table). settled r \<or> r \<in> set table \<and> pr_PaymentIndex r \<noteq> i"
  using assms by (auto simp: update_index_def)

text \<open>A tick with a working database and definite answers of LND.\<close>

definition definite_tick :: "(LndHop list list \<Rightarrow> string result) \<Rightarrow> InFlightTick \<Rightarrow> bool" where
  "definite_tick marshal t \<longleftrightarrow>
     (\<forall>i. it_SetFails t i = None) \<and> (\<forall>i. it_Fails t i = no_payment_failures) \<and>
     (\<forall>h. \<exists>j. marshal h = Ok j) \<and>
     (\<forall>q. \<exists>p off. it_ListPayments t q = Inr (p, off) \<and> length p \<le> 1 \<and>
            (\<forall>x \<in> set p. ll_Status x = SUCCEEDED \<or> ll_Status x = FAILED))"

lemma update_in_flight_step:
  assumes "definite_tick marshal t"
  obtains table1 where
    "update_in_flight decode reason marshal nodeId t (i # is) table
       = update_in_flight decode reason marshal nodeId t is table1"
    and "\<forall>r \<in> set table1. settled r \<or> r \<in> set table \<and> pr_PaymentIndex r \<noteq> i"
proof -
  obtain p off where ans: "fetchPayments (it_ListPayments t) (i - 1) True = Inr (p, off)" "length p \<le> 1"
    "\<forall>x \<in> set p. ll_Status x = SUCCEEDED \<or> ll_Status x = FAILED"
    using assms unfolding definite_tick_def fetchPayments_def by blast
  show thesis
  proof (cases "\<exists>x. p = [x] \<and> ll_PaymentIndex x = i")
    case True
    then obtain x where x: "p = [x]" "ll_PaymentIndex x = i" by blast
    obtain j where j: "marshal (ll_Htlcs x) = Ok j" using assms unfolding definite_tick_def by blast
    have st: "updated_status decode reason (it_Now t) x = Ok (payment_status_text (ll_Status x), reason (ll_FailureReason x))"
      using ans(3) x by (auto simp: updated_status_def payment_status_text_def Let_def)
    define f where "f = update_row (it_Now t) nodeId j
      (payment_status_text (ll_Status x), reason (ll_FailureReason x)) x"
    have final: "\<forall>r. settled (f r)"
      using ans(3) x by (auto simp: f_def settled_def update_row_def payment_status_text_def)
    have "fst (updatePayments decode reason marshal (it_Fails t i) (it_Now t) p nodeId table) = update_index i f table"
      using x j st assms by (simp add: updatePayments_def definite_tick_def no_payment_failures_def f_def)
    then show thesis
      using ans x by (intro that [of "update_index i f table"] set_update_index [OF final]) simp
  next
    case False
    define f :: "PaymentRow \<Rightarrow> PaymentRow" where "f = (\<lambda>r. r\<lparr>pr_Status := ''FAILED'', pr_FailureReason := ''DETAILS_UNAVAILABLE'',
        pr_UpdatedOn := Some (it_Now t)\<rparr>)"
    have final: "\<forall>r. settled (f r)" by (simp add: settled_def f_def)
    have "fst (setPaymentToFailedDetailsUnavailable (it_SetFails t i) (it_Now t) i table) = update_index i f table"
      using assms by (simp add: setPaymentToFailedDetailsUnavailable_def definite_tick_def f_def)
    moreover have "p = [] \<or> (\<exists>x. p = [x] \<and> ll_PaymentIndex x \<noteq> i)"
      using False ans(2) by (cases p) auto
    ultimately show thesis
      using ans by (intro that [of "update_index i f table"] set_update_index [OF final]) auto
  qed
qed

lemma update_in_flight_rows:
  assumes "definite_tick marshal t"
  shows "\<forall>r \<in> set (snd (update_in_flight decode reason marshal nodeId t is table)).
    settled r \<or> r \<in> set table \<and> pr_PaymentIndex r \<notin> set is"
proof (induction "is" arbitrary: table)
  case (Cons i "is")
  obtain table1 where step: "update_in_flight decode reason marshal nodeId t (i # is) table
       = update_in_flight decode reason marshal nodeId t is table1"
    "\<forall>r \<in> set table1. settled r \<or> r \<in> set table \<and> pr_PaymentIndex r \<noteq> i"
    using update_in_flight_step [OF assms] by metis
  from Cons [of table1] step show ?case by auto
qed simp

text \<open>
  One tick of the in-flight loop over a working database, in which LND answers every request
  with at most one payment, that succeeded or failed, leaves no payment of the node in flight.
\<close>
lemma in_flight_payments_resolved:
  assumes "definite_tick marshal t" and "fetchInFlightPaymentIndexes None table nodeId = Ok indexes"
  shows "fetchInFlightPaymentIndexes None (snd (update_in_flight decode reason marshal nodeId t indexes table)) nodeId
     = Ok []"
proof -
  have idx: "set indexes = pr_PaymentIndex ` {r \<in> set table. pr_Status r = ''IN_FLIGHT'' \<and> pr_NodeId r = nodeId}"
    using assms(2) by (auto simp: fetchInFlightPaymentIndexes_def)
  have "\<not> (pr_Status r = ''IN_FLIGHT'' \<and> pr_NodeId r = nodeId)"
    if "r \<in> set (snd (update_in_flight decode reason marshal nodeId t indexes table))" for r
    using update_in_flight_rows [OF assms(1)] that idx by (fastforce simp: settled_def)
  then show ?thesis by (simp add: fetchInFlightPaymentIndexes_def filter_empty_conv)
qed

section \<open>Witnesses\<close>

definition sample_listed :: LndListedPayment where
  "sample_listed = \<lparr>ll_PaymentHash = ''aa'', ll_PaymentPreimage = [], ll_ValueMsat = 5000, ll_ValueSat = 5,
     ll_PaymentRequest = [], ll_Status = IN_FLIGHT, ll_FeeMsat = 0, ll_CreationTimeNs = 0, ll_PaymentIndex = 3,
     ll_FailureReason = FAILURE_REASON_NONE, ll_Htlcs = []\<rparr>"

definition sample_row :: "int \<Rightarrow> PaymentRow" where
  "sample_row n = payment_row (\<lambda>r. ''FAILURE_REASON_NONE'') 0 ''[]'' n sample_listed (None, None, None)"

lemma update_reassigns_other_nodes_witness:
  "\<exists>r1. fst (updatePayments (\<lambda>s. Ok 0) (\<lambda>r. ''FAILURE_REASON_NONE'') (\<lambda>h. Ok ''[]'') no_payment_failures 0
       [sample_listed] 2 [sample_row 1]) = [r1] \<and> pr_NodeId r1 = 2"
proof -
  obtain sf where sf: "updated_status (\<lambda>s. Ok 0) (\<lambda>r. ''FAILURE_REASON_NONE'') 0 sample_listed = Ok sf"
    by (simp add: updated_status_def sample_listed_def payment_status_text_def second_def)
  have "pf_Exec no_payment_failures 0 = None" by (simp add: no_payment_failures_def)
  from update_reassigns_other_nodes [OF _ sf this, of "\<lambda>h. Ok ''[]''" "''[]''" 2 "[sample_row 1]"]
  show ?thesis by (auto simp: list_all2_Cons1 sample_row_def payment_row_def)
qed

theorem expired_payment_fails_witness:
  "\<exists>em status r1. UpdateInFlightPayments True (\<lambda>s. Inl (Error s)) (\<lambda>r. ''FAILURE_REASON_NONE'') (\<lambda>h. Ok ''[]'')
      (zeroNodeSettings\<lparr>mns_NodeId := 1\<rparr>)
      [Some \<lparr>it_QueryFails = None, it_ListPayments = (\<lambda>q. Inr ([sample_listed], 3)), it_SetFails = (\<lambda>i. None),
             it_Fails = (\<lambda>i. no_payment_failures), it_Now = 100000 * second\<rparr>] [sample_row 1]
      = (em, False, status, [r1]) \<and> pr_Status r1 = ''FAILED'' \<and> pr_FailureReason r1 = ''FAILURE_REASON_TIMEOUT''"
proof -
  let ?t = "\<lparr>it_QueryFails = None, it_ListPayments = (\<lambda>q. Inr ([sample_listed], 3)), it_SetFails = (\<lambda>i. None),
             it_Fails = (\<lambda>i. no_payment_failures), it_Now = 100000 * second\<rparr>"
  have known: "known_payment ?t i = (if i = 3 then Some sample_listed else None)" for i
    by (simp add: known_payment_def fetchPayments_def sample_listed_def)
  have "answering_tick (\<lambda>s. Inl (Error s)) (\<lambda>h. Ok ''[]'') ?t"
    by (simp add: answering_tick_def known) (simp add: sample_listed_def)
  from expired_payment_fails [OF this, of True "\<lambda>r. ''FAILURE_REASON_NONE''" "zeroNodeSettings\<lparr>mns_NodeId := 1\<rparr>"
      "[sample_row 1]"]
  obtain em status table1 where run: "UpdateInFlightPayments True (\<lambda>s. Inl (Error s)) (\<lambda>r. ''FAILURE_REASON_NONE'')
      (\<lambda>h. Ok ''[]'') (zeroNodeSettings\<lparr>mns_NodeId := 1\<rparr>) [Some ?t] [sample_row 1] = (em, False, status, table1)"
    and rows: "list_all2 (\<lambda>r r1. if \<exists>q\<in>set [sample_row 1]. pr_Status q = ''IN_FLIGHT'' \<and>
        pr_NodeId q = mns_NodeId (zeroNodeSettings\<lparr>mns_NodeId := 1\<rparr>) \<and> pr_PaymentIndex q = pr_PaymentIndex r
      then resolved_row (\<lambda>s. Inl (Error s)) (\<lambda>r. ''FAILURE_REASON_NONE'') (mns_NodeId (zeroNodeSettings\<lparr>mns_NodeId := 1\<rparr>)) ?t r r1
      else r1 = r) [sample_row 1] table1"
    by blast
  have row: "pr_Status (sample_row 1) = ''IN_FLIGHT''" "pr_NodeId (sample_row 1) = 1" "pr_PaymentIndex (sample_row 1) = 3"
    by (simp_all add: sample_row_def payment_row_def sample_listed_def payment_status_text_def)
  have late: "expired (\<lambda>s. Inl (Error s)) (it_Now ?t) sample_listed"
    by (simp add: expired_def validity_def sample_listed_def second_def)
  from rows obtain r1 where r1: "table1 = [r1]"
    "resolved_row (\<lambda>s. Inl (Error s)) (\<lambda>r. ''FAILURE_REASON_NONE'') 1 ?t (sample_row 1) r1"
    by (auto simp: list_all2_Cons1 row)
  then have "pr_Status r1 = ''FAILED'' \<and> pr_FailureReason r1 = ''FAILURE_REASON_TIMEOUT''"
    using late by (simp add: resolved_row_def known row)
  with run r1(1) show ?thesis by blast
qed

lemma in_flight_payments_resolved_witness:
  "fetchInFlightPaymentIndexes None
     (snd (update_in_flight (\<lambda>s. Ok 0) (\<lambda>r. []) (\<lambda>h. Ok ''[]'') 1
        \<lparr>it_QueryFails = None, it_ListPayments = (\<lambda>q. Inr ([], 0)), it_SetFails = (\<lambda>i. None),
         it_Fails = (\<lambda>i. no_payment_failures), it_Now = 5\<rparr> [3] [sample_row 1])) 1 = Ok []"
proof (rule in_flight_payments_resolved)
  show "definite_tick (\<lambda>h. Ok ''[]'') \<lparr>it_QueryFails = None, it_ListPayments = (\<lambda>q. Inr ([], 0)),
      it_SetFails = (\<lambda>i. None), it_Fails = (\<lambda>i. no_payment_failures), it_Now = 5\<rparr>"
    by (simp add: definite_tick_def)
  show "fetchInFlightPaymentIndexes None [sample_row 1] 1 = Ok [3]"
    by (simp add: fetchInFlightPaymentIndexes_def sample_row_def payment_row_def sample_listed_def payment_status_text_def)
qed

end
