(* ===== verification/LndInvoices.thy ===== *)
theory LndInvoices
  imports LndStreams "HOL-Library.Sublist"
begin

text \<open>
  \<open>src/pkg/lnd/invoices.go\<close>: the invoices of a node are first imported from LND in bulk and then
  received one by one, each time from a new stream, stored in the invoice table and sent as
  events.  LND, the decoder of payment requests, the JSON encoder and the failures of the
  database are parameters.
\<close>

section \<open>The network of a payment request\<close>

datatype NetworkParams = RegressionNetParams | MainNetParams | SigNetParams | TestNet3Params | SimNetParams

text \<open>A slice \<open>s[i:j]\<close> panics when the string is shorter than \<open>j\<close>.\<close>

definition slice :: "nat \<Rightarrow> nat \<Rightarrow> string \<Rightarrow> string option" where
  "slice i j s = (if j \<le> length s then Some (take (j - i) (drop i s)) else None)"

definition getNodeNetwork :: "string \<Rightarrow> NetworkParams option" where
  "getNodeNetwork pmntReq =
     (case slice 2 4 pmntReq of
        None \<Rightarrow> None
      | Some hrp \<Rightarrow>
          if hrp = ''bc''
          then map_option (\<lambda>suffix. if suffix = ''rt'' then RegressionNetParams else MainNetParams) (slice 4 6 pmntReq)
          else if hrp = ''tb''
          then map_option (\<lambda>suffix. if suffix = ''s'' then SigNetParams else TestNet3Params) (slice 4 5 pmntReq)
          else if hrp = ''sb'' then Some SimNetParams
          else Some MainNetParams)"

section \<open>Invoices and their table\<close>

record LndStoredInvoice =
  lv_Memo :: string
  lv_RPreimage :: "byte list"
  lv_RHash :: "byte list"
  lv_ValueMsat :: int64
  lv_CreationDate :: int64
  lv_SettleDate :: int64
  lv_PaymentRequest :: string
  lv_DescriptionHash :: "byte list"
  lv_Expiry :: int64
  lv_FallbackAddr :: string
  lv_CltvExpiry :: uint64
  lv_AddIndex :: uint64
  lv_SettleIndex :: uint64
  lv_AmtPaidSat :: int64
  lv_AmtPaidMsat :: int64
  lv_State :: InvoiceState
  lv_HtlcChanIds :: "uint64 list"
  lv_IsKeysend :: bool
  lv_PaymentAddr :: "byte list"
  lv_IsAmp :: bool

record Invoice =
  in_Memo :: string
  in_RPreimage :: string
  in_RHash :: string
  in_ValueMsat :: int64
  in_CreationDate :: time
  in_SettleDate :: time
  in_PaymentRequest :: string
  in_Destination :: string
  in_DescriptionHash :: "byte list"
  in_Expiry :: int64
  in_FallbackAddr :: string
  in_CltvExpiry :: uint64
  in_RouteHints :: string
  in_Private :: bool
  in_AddIndex :: uint64
  in_SettleIndex :: uint64
  in_AmtPaidSat :: int64
  in_AmtPaidMsat :: int64
  in_InvoiceState :: string
  in_Htlcs :: string
  in_Features :: string
  in_IsKeysend :: bool
  in_PaymentAddr :: string
  in_IsAmp :: bool
  in_AmpInvoiceState :: string
  in_DestinationNodeId :: "int option"
  in_NodeId :: int
  in_ChannelId :: "int option"
  in_CreatedOn :: time
  in_UpdatedOn :: time

text \<open>The largest stored indexes of the node, each 1 without one.\<close>

definition fetchLastInvoiceIndexes :: "go_error option \<Rightarrow> Invoice list \<Rightarrow> int \<Rightarrow> (uint64 \<times> uint64) result" where
  "fetchLastInvoiceIndexes scanFails table nodeId =
     (case scanFails of
        Some e \<Rightarrow> Inl e
      | None \<Rightarrow>
          (case filter (\<lambda>r. in_NodeId r = nodeId) table of
             [] \<Rightarrow> Ok (1, 1)
           | r # rs \<Rightarrow> Ok (foldr max (map in_AddIndex rs) (in_AddIndex r),
                          foldr max (map in_SettleIndex rs) (in_SettleIndex r))))"

section \<open>Storing an invoice\<close>

text \<open>The encoded route hints, HTLCs, features and AMP states, or the error of one of them.\<close>

record InvoiceJson =
  ij_RouteHints :: string
  ij_Htlcs :: string
  ij_Features :: string
  ij_AmpInvoiceState :: string

text \<open>What one invoice is processed with: the caches, the clock and the failing insert.\<close>

record InvoiceEnv =
  iv_Channels :: ChannelState
  iv_Nodes :: NodeState
  iv_Now :: time
  iv_InsertFails :: "go_error option"

definition is_paid :: "InvoiceState \<Rightarrow> bool" where
  "is_paid s \<longleftrightarrow> s = SETTLED \<or> s = OtherInvoiceState 3"

definition invoice_row ::
    "(InvoiceState \<Rightarrow> string) \<Rightarrow> InvoiceJson \<Rightarrow> time \<Rightarrow> LndStoredInvoice \<Rightarrow> string \<Rightarrow> int option \<Rightarrow> int \<Rightarrow>
     int option \<Rightarrow> Invoice" where
  "invoice_row stateText json now invoice destination destinationNodeId nodeId channelId =
     \<lparr>in_Memo = lv_Memo invoice, in_RPreimage = hex_encode (lv_RPreimage invoice),
      in_RHash = hex_encode (lv_RHash invoice), in_ValueMsat = lv_ValueMsat invoice,
      in_CreationDate = sint (lv_CreationDate invoice) * 1000000000,
      in_SettleDate = sint (lv_SettleDate invoice) * 1000000000,
      in_PaymentRequest = lv_PaymentRequest invoice, in_Destination = destination,
      in_DescriptionHash = lv_DescriptionHash invoice, in_Expiry = lv_Expiry invoice,
      in_FallbackAddr = lv_FallbackAddr invoice, in_CltvExpiry = lv_CltvExpiry invoice,
      in_RouteHints = ij_RouteHints json, in_Private = False,
      in_AddIndex = lv_AddIndex invoice, in_SettleIndex = lv_SettleIndex invoice,
      in_AmtPaidSat = lv_AmtPaidSat invoice, in_AmtPaidMsat = lv_AmtPaidMsat invoice,
      in_InvoiceState = stateText (lv_State invoice), in_Htlcs = ij_Htlcs json,
      in_Features = ij_Features json, in_IsKeysend = lv_IsKeysend invoice,
      in_PaymentAddr = hex_encode (lv_PaymentAddr invoice), in_IsAmp = lv_IsAmp invoice,
      in_AmpInvoiceState = ij_AmpInvoiceState json,
      in_DestinationNodeId = destinationNodeId, in_NodeId = nodeId,
      in_ChannelId = channelId, in_CreatedOn = now, in_UpdatedOn = now\<rparr>"

definition filled_invoice_event :: "LndStoredInvoice \<Rightarrow> int option \<Rightarrow> InvoiceEvent \<Rightarrow> InvoiceEvent" where
  "filled_invoice_event invoice channelId invoiceEvent =
     (let e1 = invoiceEvent\<lparr>ie_AddIndex := lv_AddIndex invoice, ie_ValueMSat := lv_ValueMsat invoice,
                            ie_State := lv_State invoice\<rparr>;
          e2 = (if is_paid (lv_State invoice)
                then e1\<lparr>ie_AmountPaidMsat := lv_AmtPaidMsat invoice,
                        ie_SettledDate := sint (lv_SettleDate invoice) * 1000000000\<rparr>
                else e1)
      in case channelId of None \<Rightarrow> e2 | Some c \<Rightarrow> e2\<lparr>ie_ChannelId := c\<rparr>)"

text \<open>The text of the state is a parameter.  None: the channel cache gives no answer.\<close>

definition insertInvoice ::
    "(InvoiceState \<Rightarrow> string) \<Rightarrow> (LndStoredInvoice \<Rightarrow> InvoiceJson result) \<Rightarrow> channel_orders \<Rightarrow> InvoiceEnv \<Rightarrow>
     LndStoredInvoice \<Rightarrow> string \<Rightarrow> int option \<Rightarrow> int \<Rightarrow> InvoiceEvent \<Rightarrow> bool \<Rightarrow> bool \<Rightarrow> Invoice list \<Rightarrow>
     (InvoiceEvent list \<times> Invoice list \<times> go_error option) option" where
  "insertInvoice stateText marshal ords env invoice destination destinationNodeId nodeId invoiceEvent
       eventChannel bootStrapping table =
     (case marshal invoice of
        Inl e \<Rightarrow> Some ([], table, Some e)
      | Inr json \<Rightarrow>
          (case (if length (lv_HtlcChanIds invoice) > 0
                 then getChannelIdByLndShortChannelId ords (iv_Channels env) (last (lv_HtlcChanIds invoice))
                 else Some None) of
             None \<Rightarrow> None
           | Some channelId \<Rightarrow>
               (case iv_InsertFails env of
                  Some e \<Rightarrow> Some ([], table, Some e)
                | None \<Rightarrow> Some
                    (if eventChannel \<and> \<not> bootStrapping
                     then [filled_invoice_event invoice channelId invoiceEvent] else [],
                     table @ [invoice_row stateText json (iv_Now env) invoice destination destinationNodeId
                                nodeId channelId],
                     None))))"

text \<open>
  \<open>decode\<close> gives the destination's public key of a payment request on a network.  None: the
  request is too short, or a cache gives no answer.
\<close>

definition zeroInvoiceEvent :: "time \<Rightarrow> time \<Rightarrow> int \<Rightarrow> InvoiceEvent" where
  "zeroInvoiceEvent zero_time now nodeId =
     \<lparr>ev_EventTime = now, ev_NodeId = nodeId, ie_ChannelId = 0, ie_AddIndex = 0, ie_ValueMSat = 0,
      ie_State = OtherInvoiceState 0, ie_AmountPaidMsat = 0, ie_SettledDate = zero_time,
      ie_DestinationNodeId = None\<rparr>"

record InvoiceClient =
  ic_ZeroTime :: time
  ic_StateText :: "InvoiceState \<Rightarrow> string"
  ic_Marshal :: "LndStoredInvoice \<Rightarrow> InvoiceJson result"
  ic_Decode :: "string \<Rightarrow> NetworkParams \<Rightarrow> byte list result"
  ic_ChannelOrders :: channel_orders
  ic_NodeOrders :: NodeOrders

definition processInvoice ::
    "InvoiceClient \<Rightarrow> InvoiceEnv \<Rightarrow> LndStoredInvoice \<Rightarrow> ManagedNodeSettings \<Rightarrow> bool \<Rightarrow> bool \<Rightarrow> Invoice list \<Rightarrow>
     (InvoiceEvent list \<times> Invoice list) option" where
  "processInvoice ic env invoice nodeSettings eventChannel bootStrapping table =
     (let event = zeroInvoiceEvent (ic_ZeroTime ic) (iv_Now env) (mns_NodeId nodeSettings);
          insert = (\<lambda>destination destinationNodeId e.
            map_option (\<lambda>(events, table1, err). (events, table1))
              (insertInvoice (ic_StateText ic) (ic_Marshal ic) (ic_ChannelOrders ic) env invoice destination
                 destinationNodeId (mns_NodeId nodeSettings) e eventChannel bootStrapping table))
      in if lv_PaymentRequest invoice \<noteq> []
         then (case getNodeNetwork (lv_PaymentRequest invoice) of
                 None \<Rightarrow> None
               | Some network \<Rightarrow>
                   (case ic_Decode ic (lv_PaymentRequest invoice) network of
                      Inl e \<Rightarrow> insert [] None event
                    | Inr key \<Rightarrow>
                        (case GetNodeIdByPublicKey (ic_NodeOrders ic) (iv_Nodes env) (hex_encode key)
                                (mns_Chain nodeSettings) (mns_Network nodeSettings) of
                           None \<Rightarrow> None
                         | Some nodeId \<Rightarrow>
                             insert (hex_encode key) (Some nodeId) (event\<lparr>ie_DestinationNodeId := Some nodeId\<rparr>))))
         else insert [] None event)"

section \<open>The subscription\<close>

definition STREAM_LND_MAX_INVOICES :: nat where
  "STREAM_LND_MAX_INVOICES = 1000"

text \<open>A failed call says whether the context was cancelled; an invoice comes with its environment.\<close>

record InvoiceTurn =
  it_Done :: bool
  it_ScanFails :: "go_error option"
  it_ListInvoices :: "nat \<Rightarrow> uint64 \<Rightarrow> bool + (LndStoredInvoice \<times> InvoiceEnv) list"
  it_SubscribeInvoices :: "uint64 \<Rightarrow> uint64 \<Rightarrow> bool option"
  it_RecvInvoice :: "bool + LndStoredInvoice \<times> InvoiceEnv"

record InvoiceLoop =
  il_Importing :: bool
  il_Status :: Status
  il_End :: loop_end
  il_Table :: "Invoice list"

fun process_invoices ::
    "InvoiceClient \<Rightarrow> ManagedNodeSettings \<Rightarrow> bool \<Rightarrow> bool \<Rightarrow> (LndStoredInvoice \<times> InvoiceEnv) list \<Rightarrow> Invoice list \<Rightarrow>
     InvoiceEvent list \<times> Invoice list option" where
  "process_invoices ic ns ec boot [] table = ([], Some table)"
| "process_invoices ic ns ec boot ((invoice, env) # rest) table =
     (case processInvoice ic env invoice ns ec boot table of
        None \<Rightarrow> ([], None)
      | Some (evs, table1) \<Rightarrow>
          (case process_invoices ic ns ec boot rest table1 of (evs2, r) \<Rightarrow> (evs @ evs2, r)))"

definition processError :: "bool \<Rightarrow> InvoiceLoop \<Rightarrow> InvoiceEvent emitted list \<times> InvoiceLoop" where
  "processError ec l = (send_status ec Pending (il_Status l), l\<lparr>il_Status := Pending\<rparr>)"

definition process_all ::
    "InvoiceClient \<Rightarrow> ManagedNodeSettings \<Rightarrow> bool \<Rightarrow> Status \<Rightarrow> bool \<Rightarrow> (LndStoredInvoice \<times> InvoiceEnv) list \<Rightarrow>
     InvoiceLoop \<Rightarrow> InvoiceEvent emitted list \<times> InvoiceLoop" where
  "process_all ic ns ec status importing invoices l =
     (let (evs, r) = process_invoices ic ns ec (il_Importing l) invoices (il_Table l);
          em = send_status ec status (il_Status l) @ map Emitted evs;
          l1 = l\<lparr>il_Status := status, il_Importing := importing\<rparr>
      in (em, case r of None \<Rightarrow> l1\<lparr>il_End := Stuck\<rparr> | Some table \<Rightarrow> l1\<lparr>il_Table := table\<rparr>))"

definition invoice_turn ::
    "InvoiceClient \<Rightarrow> ManagedNodeSettings \<Rightarrow> bool \<Rightarrow> InvoiceTurn \<Rightarrow> InvoiceLoop \<Rightarrow>
     InvoiceEvent emitted list \<times> InvoiceLoop" where
  "invoice_turn ic ns ec t l =
     (if il_End l \<noteq> Running then ([], l)
      else if it_Done t then ([], l\<lparr>il_End := Returned\<rparr>)
      else case fetchLastInvoiceIndexes (it_ScanFails t) (il_Table l) (mns_NodeId ns) of
        Inl e \<Rightarrow> processError ec l
      | Inr (addIndex, settleIndex) \<Rightarrow>
          if il_Importing l
          then (case it_ListInvoices t STREAM_LND_MAX_INVOICES addIndex of
                  Inl cancelled \<Rightarrow> if cancelled then ([], l\<lparr>il_End := Returned\<rparr>) else processError ec l
                | Inr invoices \<Rightarrow>
                    process_all ic ns ec Initializing (\<not> length invoices < STREAM_LND_MAX_INVOICES) invoices l)
          else (case it_SubscribeInvoices t addIndex settleIndex of
                  Some cancelled \<Rightarrow> if cancelled then ([], l\<lparr>il_End := Returned\<rparr>) else processError ec l
                | None \<Rightarrow>
                    (case it_RecvInvoice t of
                       Inl cancelled \<Rightarrow>
                         (let active = send_status ec Active (il_Status l);
                              l1 = l\<lparr>il_Status := Active\<rparr>
                          in if cancelled then (active, l1\<lparr>il_End := Returned\<rparr>)
                             else case processError ec l1 of (em, l2) \<Rightarrow> (active @ em, l2))
                     | Inr invoice \<Rightarrow> process_all ic ns ec Active False [invoice] l)))"

fun invoice_turns ::
    "InvoiceClient \<Rightarrow> ManagedNodeSettings \<Rightarrow> bool \<Rightarrow> InvoiceTurn list \<Rightarrow> InvoiceLoop \<Rightarrow>
     InvoiceEvent emitted list \<times> InvoiceLoop" where
  "invoice_turns ic ns ec [] l = ([], l)"
| "invoice_turns ic ns ec (t # ts) l =
     (let (em, l1) = invoice_turn ic ns ec t l;
          (ems, l2) = invoice_turns ic ns ec ts l1
      in (em @ ems, l2))"

definition SubscribeAndStoreInvoices ::
    "InvoiceClient \<Rightarrow> ManagedNodeSettings \<Rightarrow> bool \<Rightarrow> InvoiceTurn list \<Rightarrow> Invoice list \<Rightarrow>
     InvoiceEvent emitted list \<times> InvoiceLoop" where
  "SubscribeAndStoreInvoices ic nodeSettings eventChannel turns table =
     invoice_turns ic nodeSettings eventChannel turns
       \<lparr>il_Importing = True, il_Status = Inactive, il_End = Running, il_Table = table\<rparr>"

section \<open>The network of a payment request, by its prefix\<close>

lemma slice_prefix: "length p = i \<Longrightarrow> length q = j - i \<Longrightarrow> i \<le> j \<Longrightarrow> slice i j (p @ q @ r) = Some q"
  by (simp add: slice_def)

lemma getNodeNetwork_prefixes:
  "getNodeNetwork (''lnbcrt'' @ r) = Some RegressionNetParams"
  "[c, d] \<noteq> ''rt'' \<Longrightarrow> getNodeNetwork (''lnbc'' @ c # d # r) = Some MainNetParams"
  "getNodeNetwork (''lntbs'' @ r) = Some SigNetParams"
  "c \<noteq> CHR ''s'' \<Longrightarrow> getNodeNetwork (''lntb'' @ c # r) = Some TestNet3Params"
  "getNodeNetwork (''lnsb'' @ r) = Some SimNetParams"
  by (simp_all add: getNodeNetwork_def slice_def numeral_eq_Suc)

text \<open>A payment request of fewer than four characters ends the program.\<close>

lemma getNodeNetwork_panics:
  "getNodeNetwork s = None \<longleftrightarrow>
     length s < 4 \<or> take 2 (drop 2 s) = ''bc'' \<and> length s < 6 \<or> take 2 (drop 2 s) = ''tb'' \<and> length s < 5"
  by (auto simp: getNodeNetwork_def slice_def)

section \<open>What is stored and sent\<close>

text \<open>A table that gets at most the row of one invoice.\<close>

definition appends :: "int \<Rightarrow> LndStoredInvoice \<Rightarrow> Invoice list \<Rightarrow> Invoice list \<Rightarrow> bool" where
  "appends n invoice table table1 \<longleftrightarrow>
     table1 = table \<or> (\<exists>i. table1 = table @ [i] \<and> in_AddIndex i = lv_AddIndex invoice \<and> in_NodeId i = n)"

lemma invoice_row_simps [simp]:
  "in_AddIndex (invoice_row st j now v d di n c) = lv_AddIndex v"
  "in_NodeId (invoice_row st j now v d di n c) = n"
  by (simp_all add: invoice_row_def)

lemma insertInvoice_ok:
  assumes "insertInvoice stateText marshal ords env invoice dest destId n e ec boot table = Some (events, table1, err)"
  shows "appends n invoice table table1"
    and "events = [] \<or> ec \<and> \<not> boot \<and> table1 \<noteq> table \<and> (\<exists>c. events = [filled_invoice_event invoice c e])"
  using assms by (auto simp: insertInvoice_def appends_def split: sum.splits option.splits if_splits)

lemma processInvoice_ok:
  assumes "processInvoice ic env invoice ns ec boot table = Some (events, table1)"
  shows "appends (mns_NodeId ns) invoice table table1" and "\<not> ec \<or> boot \<Longrightarrow> events = []"
proof -
  obtain dest destId e err where ins: "insertInvoice (ic_StateText ic) (ic_Marshal ic) (ic_ChannelOrders ic) env invoice
      dest destId (mns_NodeId ns) e ec boot table = Some (events, table1, err)"
    using assms by (auto simp: processInvoice_def Let_def split: if_splits option.splits sum.splits)
  from insertInvoice_ok [OF ins] show "appends (mns_NodeId ns) invoice table table1" "\<not> ec \<or> boot \<Longrightarrow> events = []"
    by auto
qed

lemma process_invoices_silent:
  "\<not> ec \<or> boot \<Longrightarrow> fst (process_invoices ic ns ec boot invoices table) = []"
  by (induction ic ns ec boot invoices table rule: process_invoices.induct)
    (auto split: option.splits prod.splits dest: processInvoice_ok(2))

definition own_rows :: "int \<Rightarrow> LndStoredInvoice list \<Rightarrow> Invoice list \<Rightarrow> bool" where
  "own_rows n invoices rows \<longleftrightarrow>
     (\<forall>i \<in> set rows. in_NodeId i = n \<and> in_AddIndex i \<in> lv_AddIndex ` set invoices)"

lemma process_invoices_rows:
  "process_invoices ic ns ec boot invoices table = (events, Some table1) \<Longrightarrow>
     (\<exists>rows. table1 = table @ rows \<and> own_rows (mns_NodeId ns) (map fst invoices) rows)"
proof (induction ic ns ec boot invoices table arbitrary: events rule: process_invoices.induct)
  case (2 ic ns ec boot invoice env rest table)
  obtain evs t2 where one: "processInvoice ic env invoice ns ec boot table = Some (evs, t2)"
    using 2(2) by (auto split: option.splits)
  obtain evs2 where more: "process_invoices ic ns ec boot rest t2 = (evs2, Some table1)"
    using 2(2) one by (auto split: prod.splits)
  obtain rows where rows: "table1 = t2 @ rows" "own_rows (mns_NodeId ns) (map fst rest) rows"
    using 2(1) [OF one refl more] by blast
  from processInvoice_ok(1) [OF one] consider "t2 = table"
    | i where "t2 = table @ [i]" "in_AddIndex i = lv_AddIndex invoice" "in_NodeId i = mns_NodeId ns"
    unfolding appends_def by blast
  then show ?case
  proof cases
    case 1
    with rows show ?thesis by (auto simp: own_rows_def)
  next
    case (2 i)
    with rows show ?thesis by (intro exI [of _ "i # rows"]) (auto simp: own_rows_def)
  qed
qed (simp add: own_rows_def)

text \<open>
  The import never stores the first invoice of a node: it starts with the invoices after
  index 1, and LND answers a request with the invoices after the index it names.  Every row a turn
  of the import adds is the node's own and has a larger index, and the import sends no event.
\<close>
lemma first_invoice_not_imported:
  assumes "il_Importing l" and "invoice_turn ic ns ec t l = (em, l1)"
    and "\<forall>n off xs. it_ListInvoices t n off = Inr xs \<longrightarrow> (\<forall>x \<in> set xs. off < lv_AddIndex (fst x))"
    and "list_all (\<lambda>i. in_NodeId i = mns_NodeId ns \<longrightarrow> 1 < in_AddIndex i) (il_Table l)"
  shows "list_all (\<lambda>i. in_NodeId i = mns_NodeId ns \<longrightarrow> 1 < in_AddIndex i) (il_Table l1)
     \<and> prefix (il_Table l) (il_Table l1) \<and> events_of em = []"
proof (cases "il_End l \<noteq> Running \<or> it_Done t")
  case True
  with assms(2,4) show ?thesis by (auto simp: invoice_turn_def split: if_splits)
next
  case False
  show ?thesis
  proof (cases "fetchLastInvoiceIndexes (it_ScanFails t) (il_Table l) (mns_NodeId ns)")
    case (Inl e)
    with False assms show ?thesis by (auto simp: invoice_turn_def processError_def)
  next
    case (Inr x)
    obtain addIndex settleIndex where x: "x = (addIndex, settleIndex)" by fastforce
    have "1 \<le> foldr max xs a" if "1 \<le> a" for xs and a :: uint64
      using that by (induction xs) (auto simp: max_def)
    moreover have "\<forall>i \<in> set (filter (\<lambda>r. in_NodeId r = mns_NodeId ns) (il_Table l)). 1 < in_AddIndex i"
      using assms(4) by (auto simp: list_all_iff)
    ultimately have low: "1 \<le> addIndex"
      using Inr x by (cases "filter (\<lambda>r. in_NodeId r = mns_NodeId ns) (il_Table l)")
        (auto simp: fetchLastInvoiceIndexes_def split: option.splits)
    show ?thesis
    proof (cases "it_ListInvoices t STREAM_LND_MAX_INVOICES addIndex")
      case (Inl c)
      with False Inr x assms show ?thesis by (auto simp: invoice_turn_def processError_def split: if_splits)
    next
      case invoices: (Inr invoices)
      obtain evs r where p: "process_invoices ic ns ec True invoices (il_Table l) = (evs, r)" by fastforce
      have big: "\<forall>y \<in> set invoices. 1 < lv_AddIndex (fst y)"
        using assms(3) invoices low by (meson order_le_less_trans)
      have silent: "evs = []"
        using process_invoices_silent [of ec True ic ns invoices "il_Table l"] p by simp
      show ?thesis
      proof (cases r)
        case None
        with False Inr x invoices p silent assms show ?thesis
          by (auto simp: invoice_turn_def process_all_def)
      next
        case (Some table1)
        from process_invoices_rows [OF p [unfolded Some]] big obtain rows where
          "table1 = il_Table l @ rows" "\<forall>i \<in> set rows. 1 < in_AddIndex i"
          by (fastforce simp: own_rows_def)
        with False Inr x invoices p Some silent assms show ?thesis
          by (auto simp: invoice_turn_def process_all_def list_all_iff)
      qed
    qed
  qed
qed

text \<open>An event carries a paid amount only for an invoice that is settled or accepted.\<close>

lemma filled_invoice_event_amount:
  "ie_AmountPaidMsat (filled_invoice_event invoice c e) =
     (if is_paid (lv_State invoice) then lv_AmtPaidMsat invoice else ie_AmountPaidMsat e)"
  "ie_AddIndex (filled_invoice_event invoice c e) = lv_AddIndex invoice"
  "ie_State (filled_invoice_event invoice c e) = lv_State invoice"
  by (auto simp: filled_invoice_event_def Let_def split: option.split)

text \<open>The import ends with the first answer that is not full, and never starts again.\<close>

lemma import_ends:
  assumes "il_End l = Running" and "\<not> it_Done t"
    and "fetchLastInvoiceIndexes (it_ScanFails t) (il_Table l) (mns_NodeId ns) = Ok (addIndex, settleIndex)"
    and "il_Importing l" and "it_ListInvoices t STREAM_LND_MAX_INVOICES addIndex = Inr invoices"
  shows "il_Importing (snd (invoice_turn ic ns ec t l)) \<longleftrightarrow> STREAM_LND_MAX_INVOICES \<le> length invoices"
  using assms by (auto simp: invoice_turn_def process_all_def Let_def split: prod.splits option.splits)

lemma import_over:
  assumes "\<not> il_Importing l"
  shows "\<not> il_Importing (snd (invoice_turn ic ns ec t l))"
  using assms
  by (auto simp: invoice_turn_def process_all_def processError_def Let_def
      split: prod.splits option.splits sum.splits if_splits)

section \<open>Witnesses\<close>

definition sample_turn :: InvoiceTurn where
  "sample_turn = \<lparr>it_Done = False, it_ScanFails = None, it_ListInvoices = (\<lambda>n off. Inr []),
     it_SubscribeInvoices = (\<lambda>a b. None), it_RecvInvoice = Inl False\<rparr>"

lemma first_invoice_not_imported_witness:
  "\<forall>ic. list_all (\<lambda>i. in_NodeId i = mns_NodeId zeroNodeSettings \<longrightarrow> 1 < in_AddIndex i)
     (il_Table (snd (invoice_turn ic zeroNodeSettings True sample_turn
        \<lparr>il_Importing = True, il_Status = Inactive, il_End = Running, il_Table = []\<rparr>)))"
proof
  fix ic
  let ?l = "\<lparr>il_Importing = True, il_Status = Inactive, il_End = Running, il_Table = []\<rparr>"
  obtain em l1 where turn: "invoice_turn ic zeroNodeSettings True sample_turn ?l = (em, l1)" by fastforce
  have "\<forall>n off xs. it_ListInvoices sample_turn n off = Inr xs \<longrightarrow> (\<forall>x \<in> set xs. off < lv_AddIndex (fst x))"
    by (simp add: sample_turn_def)
  from first_invoice_not_imported [OF _ turn this] turn
  show "list_all (\<lambda>i. in_NodeId i = mns_NodeId zeroNodeSettings \<longrightarrow> 1 < in_AddIndex i)
     (il_Table (snd (invoice_turn ic zeroNodeSettings True sample_turn ?l)))" by simp
qed

end
