(* ===== verification/Nodes.thy ===== *)
theory Nodes
  imports ManagedNode Channels
begin

text \<open>
  The table of the nodes Torq knows, \<open>src/internal/nodes/database.go\<close> and \<open>node.go\<close>: a list of rows
  with an id sequence and the unique index on public key, chain and network.  The theorem says
  that adding a node gives it one row and one id.
\<close>

record Node =
  nd_NodeId :: int
  nd_PublicKey :: string
  nd_Chain :: Chain
  nd_Network :: Network
  nd_CreatedOn :: time

definition zeroNode :: Node where
  "zeroNode = \<lparr>nd_NodeId = 0, nd_PublicKey = [], nd_Chain = Bitcoin, nd_Network = MainNet, nd_CreatedOn = 0\<rparr>"

record NodeTable =
  nt_rows :: "Node list"
  nt_nextId :: int

record NodeFailures =
  nf_Get :: "go_error option"
  nf_Insert :: "go_error option"
  nf_Delete :: "go_error option"

text \<open>A missing row is the zero node without error.\<close>

definition GetNodeByPublicKey :: "NodeFailures \<Rightarrow> NodeTable \<Rightarrow> string \<Rightarrow> Node result" where
  "GetNodeByPublicKey fails db publicKey =
     (case nf_Get fails of
        Some e \<Rightarrow> Inl e
      | None \<Rightarrow> (case find (\<lambda>n. nd_PublicKey n = publicKey) (nt_rows db) of
                   None \<Rightarrow> Ok zeroNode
                 | Some n \<Rightarrow> Ok n))"

definition GetNodeById :: "NodeFailures \<Rightarrow> NodeTable \<Rightarrow> int \<Rightarrow> Node result" where
  "GetNodeById fails db nodeId =
     (case nf_Get fails of
        Some e \<Rightarrow> Inl e
      | None \<Rightarrow> (case find (\<lambda>n. nd_NodeId n = nodeId) (nt_rows db) of
                   None \<Rightarrow> Ok zeroNode
                 | Some n \<Rightarrow> Ok n))"

definition same_node :: "Node \<Rightarrow> Node \<Rightarrow> bool" where
  "same_node a b \<longleftrightarrow>
     nd_PublicKey a = nd_PublicKey b \<and> nd_Chain a = nd_Chain b \<and> nd_Network a = nd_Network b"

text \<open>
  A violation of the unique index is answered with the row of the public key.  None: the node
  cache gives no answer.
\<close>

definition AddNodeWhenNew ::
    "NodeFailures \<Rightarrow> NodeOrders \<Rightarrow> time \<Rightarrow> Node \<Rightarrow> NodeState \<Rightarrow> NodeTable \<Rightarrow> (int \<times> go_error option \<times> NodeTable) option" where
  "AddNodeWhenNew fails ords now node cache db =
     (case GetNodeIdByPublicKey ords cache (nd_PublicKey node) (nd_Chain node) (nd_Network node) of
        None \<Rightarrow> None
      | Some nodeId \<Rightarrow>
          if nodeId \<noteq> 0 then Some (nodeId, None, db)
          else case nf_Insert fails of
            Some e \<Rightarrow> Some (0, Some e, db)
          | None \<Rightarrow>
              if list_ex (same_node node) (nt_rows db)
              then (case GetNodeByPublicKey fails db (nd_PublicKey node) of
                      Inl e \<Rightarrow> Some (0, Some e, db)
                    | Inr storedNode \<Rightarrow> Some (nd_NodeId storedNode, None, db))
              else Some (nt_nextId db, None,
                     db\<lparr>nt_rows := nt_rows db @ [node\<lparr>nd_NodeId := nt_nextId db, nd_CreatedOn := now\<rparr>],
                        nt_nextId := nt_nextId db + 1\<rparr>))"

text \<open>The corridors that refer to the node, and the number of rows the delete took away.\<close>

definition removeNode :: "NodeFailures \<Rightarrow> (int \<Rightarrow> int list result) \<Rightarrow> int \<Rightarrow> NodeTable \<Rightarrow> NodeTable \<times> int result" where
  "removeNode fails referencing nodeId db =
     (case referencing nodeId of
        Inl e \<Rightarrow> (db, Inl e)
      | Inr corridors \<Rightarrow>
          if length corridors > 0 then (db, Fails ''Could not remove node since it's in use.'')
          else case nf_Delete fails of
            Some e \<Rightarrow> (db, Inl e)
          | None \<Rightarrow>
              (let rows = filter (\<lambda>n. nd_NodeId n \<noteq> nodeId) (nt_rows db)
               in (db\<lparr>nt_rows := rows\<rparr>, Ok (int (length (nt_rows db)) - int (length rows)))))"

section \<open>A node has one row\<close>

definition node_table_ok :: "NodeTable \<Rightarrow> bool" where
  "node_table_ok db \<longleftrightarrow>
     0 < nt_nextId db \<and> distinct (map nd_NodeId (nt_rows db)) \<and>
     (\<forall>n \<in> set (nt_rows db). 0 < nd_NodeId n \<and> nd_NodeId n < nt_nextId db) \<and>
     distinct (map (\<lambda>n. (nd_PublicKey n, nd_Chain n, nd_Network n)) (nt_rows db))"

lemma AddNodeWhenNew_inserts:
  assumes "node_table_ok db" and "\<not> list_ex (same_node node) (nt_rows db)"
  shows "node_table_ok (db\<lparr>nt_rows := nt_rows db @ [node\<lparr>nd_NodeId := nt_nextId db, nd_CreatedOn := now\<rparr>],
                          nt_nextId := nt_nextId db + 1\<rparr>)"
  using assms by (fastforce simp: node_table_ok_def same_node_def list_ex_iff)

lemma find_first_key:
  assumes "list_ex (same_node node) rows"
  shows "\<exists>n. find (\<lambda>n. nd_PublicKey n = nd_PublicKey node) rows = Some n \<and> n \<in> set rows
    \<and> nd_PublicKey n = nd_PublicKey node"
  using assms by (induction rows) (auto simp: same_node_def)

text \<open>
  Adding a node keeps the table in order (ids positive and used once, one row for each public
  key, chain and network); with a working database the id is the cached one, or that of a row with
  the node's public key.
\<close>
lemma node_registered_once:
  assumes "node_table_ok db" and "AddNodeWhenNew fails ords now node cache db = Some (i, e, db1)"
  shows "node_table_ok db1 \<and> set (nt_rows db) \<subseteq> set (nt_rows db1)
     \<and> (e = None \<and> GetNodeIdByPublicKey ords cache (nd_PublicKey node) (nd_Chain node) (nd_Network node) = Some 0 \<longrightarrow>
          0 < i \<and> (\<exists>n \<in> set (nt_rows db1). nd_NodeId n = i \<and> nd_PublicKey n = nd_PublicKey node))"
proof (cases "list_ex (same_node node) (nt_rows db)")
  case True
  then obtain n where n: "find (\<lambda>n. nd_PublicKey n = nd_PublicKey node) (nt_rows db) = Some n"
    "n \<in> set (nt_rows db)" "nd_PublicKey n = nd_PublicKey node"
    using find_first_key by blast
  have id: "0 < nd_NodeId n" using assms(1) n(2) by (simp add: node_table_ok_def)
  have "db1 = db \<and> (e = None \<and> GetNodeIdByPublicKey ords cache (nd_PublicKey node) (nd_Chain node) (nd_Network node) = Some 0
      \<longrightarrow> i = nd_NodeId n)"
    using assms(2) True n(1)
    by (auto simp: AddNodeWhenNew_def GetNodeByPublicKey_def split: option.splits if_splits)
  with assms(1) n id show ?thesis by blast
next
  case False
  then have "\<not> list_ex (same_node node) (nt_rows db)" .
  with assms AddNodeWhenNew_inserts [OF assms(1) False, of now] show ?thesis
    by (auto simp: AddNodeWhenNew_def node_table_ok_def split: option.splits if_splits)
qed

text \<open>
  A row of another chain is taken for the node when it comes first: the id is then not one of a
  row for the node.
\<close>

lemma violation_answers_other_chain:
  assumes "GetNodeIdByPublicKey ords cache k Bitcoin TestNet = Some 0"
  shows "AddNodeWhenNew \<lparr>nf_Get = None, nf_Insert = None, nf_Delete = None\<rparr> ords 0
      (zeroNode\<lparr>nd_PublicKey := k, nd_Network := TestNet\<rparr>) cache
      \<lparr>nt_rows = [zeroNode\<lparr>nd_NodeId := 1, nd_PublicKey := k\<rparr>,
                  zeroNode\<lparr>nd_NodeId := 2, nd_PublicKey := k, nd_Network := TestNet\<rparr>], nt_nextId = 3\<rparr>
    = Some (1, None, \<lparr>nt_rows = [zeroNode\<lparr>nd_NodeId := 1, nd_PublicKey := k\<rparr>,
                  zeroNode\<lparr>nd_NodeId := 2, nd_PublicKey := k, nd_Network := TestNet\<rparr>], nt_nextId = 3\<rparr>)"
  using assms by (simp add: AddNodeWhenNew_def GetNodeByPublicKey_def same_node_def zeroNode_def)

section \<open>Witness\<close>

definition no_node_failures :: NodeFailures where
  "no_node_failures = \<lparr>nf_Get = None, nf_Insert = None, nf_Delete = None\<rparr>"

lemma node_registered_once_witness:
  "\<forall>ords. \<exists>i db1. AddNodeWhenNew no_node_failures ords 5 (zeroNode\<lparr>nd_PublicKey := ''02''\<rparr>) emptyNodeState
      \<lparr>nt_rows = [], nt_nextId = 1\<rparr> = Some (i, None, db1) \<and> node_table_ok db1"
proof
  fix ords
  have "\<exists>i. GetNodeIdByPublicKey ords emptyNodeState ''02'' Bitcoin MainNet = Some i"
    by (simp add: node_cache_reads)
  then obtain i where "GetNodeIdByPublicKey ords emptyNodeState ''02'' Bitcoin MainNet = Some i" ..
  then obtain i db1 where add: "AddNodeWhenNew no_node_failures ords 5 (zeroNode\<lparr>nd_PublicKey := ''02''\<rparr>) emptyNodeState
      \<lparr>nt_rows = [], nt_nextId = 1\<rparr> = Some (i, None, db1)"
    by (cases "i = 0") (auto simp: AddNodeWhenNew_def no_node_failures_def zeroNode_def)
  have "node_table_ok \<lparr>nt_rows = [], nt_nextId = 1\<rparr>" by (simp add: node_table_ok_def)
  from node_registered_once [OF this add] add show "\<exists>i db1. AddNodeWhenNew no_node_failures ords 5
      (zeroNode\<lparr>nd_PublicKey := ''02''\<rparr>) emptyNodeState \<lparr>nt_rows = [], nt_nextId = 1\<rparr> = Some (i, None, db1) \<and> node_table_ok db1"
    by blast
qed

end
