(* ===== verification/LndChannelEvents.thy ===== *)
theory LndChannelEvents
  imports LndStreams Nodes
begin

text \<open>
  The subscription to LND's channel events and the import of its channel lists,
  \<open>src/pkg/lnd/channel_events.go\<close>.  A step acts on the node cache and the node table, the channel
  cache and the channel table, and the table of channel events; it is None when it panics or waits
  forever, otherwise it answers a value or an error and leaves what was done before the error.
  LND's answers, the JSON encoder and the text of transaction hashes are parameters.  The theorems
  say that a reported closure takes the channel out of the active lookups, that an imported one
  does not, and that a failed count of the open channels drops the remote node.
\<close>

section \<open>Messages\<close>

datatype Initiator = INITIATOR_UNKNOWN | INITIATOR_LOCAL | INITIATOR_REMOTE | INITIATOR_BOTH

text \<open>The fields of LND's channels and closed channels that the code reads.\<close>

record LndListedChannel =
  lo_ChannelPoint :: string
  lo_ChanId :: uint64
  lo_RemotePubkey :: string
  lo_Capacity :: int64
  lo_Private :: bool
  lo_Initiator :: bool

record LndCloseSummary =
  lcs_ChannelPoint :: string
  lcs_ChanId :: uint64
  lcs_RemotePubkey :: string
  lcs_Capacity :: int64
  lcs_CloseType :: ClosureType
  lcs_ClosingTxHash :: string
  lcs_OpenInitiator :: Initiator
  lcs_CloseInitiator :: Initiator

record LndPoint =
  lp_TxidBytes :: bytes
  lp_OutputIndex :: uint32

datatype LndChannelUpdate =
    OpenUpdate LndListedChannel | ClosedUpdate LndCloseSummary | ActiveUpdate LndPoint
  | InactiveUpdate LndPoint | FullyResolvedUpdate LndPoint | PendingOpenUpdate LndPoint

record LndChannelEventUpdate =
  cu_Type :: ChannelEventUpdateType
  cu_Channel :: LndChannelUpdate

text \<open>
  The getters of the update: the part of the message when it is of that kind, nil otherwise.  A nil
  point has no bytes and index 0.
\<close>

definition point_of :: "ChannelEventUpdateType \<Rightarrow> LndChannelUpdate \<Rightarrow> LndPoint option" where
  "point_of ty u =
     (case (ty, u) of
        (ACTIVE_CHANNEL, ActiveUpdate p) \<Rightarrow> Some p
      | (INACTIVE_CHANNEL, InactiveUpdate p) \<Rightarrow> Some p
      | (FULLY_RESOLVED_CHANNEL, FullyResolvedUpdate p) \<Rightarrow> Some p
      | (PENDING_OPEN_CHANNEL, PendingOpenUpdate p) \<Rightarrow> Some p
      | _ \<Rightarrow> None)"

definition nil_point :: LndPoint where
  "nil_point = \<lparr>lp_TxidBytes = [], lp_OutputIndex = 0\<rparr>"

record LndPendingChannel =
  lpc_ChannelPoint :: string
  lpc_RemoteNodePub :: string
  lpc_Capacity :: int64

section \<open>State and steps\<close>

record ChannelEventRow =
  cer_Time :: time
  cer_Type :: ChannelEventUpdateType
  cer_ChannelId :: int
  cer_Imported :: bool
  cer_Event :: string
  cer_NodeId :: int

record LndWorld =
  lw_NodeCache :: NodeState
  lw_Nodes :: NodeTable
  lw_Channels :: channel_world
  lw_Events :: "ChannelEventRow list"

text \<open>
  What is fixed while one message is handled or one list is imported.  \<open>le_InsertEvent\<close> is the error
  of inserting an event of a channel; a pending channel of LND may come without its channel.
\<close>

record LndEnv =
  le_NodeOrds :: NodeOrders
  le_ChannelOrds :: channel_orders
  le_RowOrd :: "(int, Channel) order"
  le_Now :: time
  le_ChannelFails :: db_failures
  le_NodeFails :: NodeFailures
  le_InsertEvent :: "int \<Rightarrow> go_error option"
  le_ExistingEvents :: "go_error option"
  le_OpenChannels :: "go_error option"
  le_Marshal :: "LndChannelUpdate option \<Rightarrow> string result"
  le_HashText :: "bytes \<Rightarrow> string result"
  le_Pending :: "LndPendingChannel option list result"

type_synonym ('w, 'a) process = "'w \<Rightarrow> ('w \<times> 'a result) option"

type_synonym 'a step = "(LndWorld, 'a) process"

text \<open>\<open>if err != nil { return err }\<close> between two steps.\<close>

definition and_then :: "('w, 'a) process \<Rightarrow> ('a \<Rightarrow> ('w, 'b) process) \<Rightarrow> ('w, 'b) process" where
  "and_then m f w =
     (case m w of
        None \<Rightarrow> None
      | Some (w1, Inl e) \<Rightarrow> Some (w1, Inl e)
      | Some (w1, Inr a) \<Rightarrow> f a w1)"

definition give :: "'a result \<Rightarrow> ('w, 'a) process" where
  "give r w = Some (w, r)"

text \<open>A step on the channel cache and table, and writes to the two caches.\<close>

definition channel_step :: "(channel_world \<Rightarrow> (channel_world, int \<times> go_error option) outcome) \<Rightarrow> int step" where
  "channel_step f w =
     (case f (lw_Channels w) of
        Served cw (Some (i, e)) \<Rightarrow>
          Some (w\<lparr>lw_Channels := cw\<rparr>, case e of None \<Rightarrow> Ok i | Some e \<Rightarrow> Inl e)
      | _ \<Rightarrow> None)"

definition write_channels :: "(ChannelState \<Rightarrow> (ChannelState, ChannelReply) outcome) \<Rightarrow> unit step" where
  "write_channels f w =
     (case f (fst (lw_Channels w)) of
        Served s r \<Rightarrow> Some (w\<lparr>lw_Channels := (s, snd (lw_Channels w))\<rparr>, Ok ())
      | _ \<Rightarrow> None)"

definition write_nodes :: "(NodeState \<Rightarrow> (NodeState, NodeReply) outcome) \<Rightarrow> unit step" where
  "write_nodes f w =
     (case f (lw_NodeCache w) of
        Served s r \<Rightarrow> Some (w\<lparr>lw_NodeCache := s\<rparr>, Ok ())
      | _ \<Rightarrow> None)"

section \<open>Nodes, channels and events\<close>

definition chanPointFromByte :: "LndEnv \<Rightarrow> bytes \<Rightarrow> uint32 \<Rightarrow> string result" where
  "chanPointFromByte env cb oi =
     (case le_HashText env cb of Inl e \<Rightarrow> Inl e | Inr ch \<Rightarrow> Ok (ch @ '':'' @ format_int (uint oi)))"

definition addNodeWhenNew :: "LndEnv \<Rightarrow> ManagedNodeSettings \<Rightarrow> string \<Rightarrow> int step" where
  "addNodeWhenNew env nodeSettings remotePublicKey w =
     (case GetNodeIdByPublicKey (le_NodeOrds env) (lw_NodeCache w) remotePublicKey
             (mns_Chain nodeSettings) (mns_Network nodeSettings) of
        None \<Rightarrow> None
      | Some remoteNodeId \<Rightarrow>
          if remoteNodeId \<noteq> 0 then Some (w, Ok remoteNodeId)
          else case AddNodeWhenNew (le_NodeFails env) (le_NodeOrds env) (le_Now env)
                      (zeroNode\<lparr>nd_PublicKey := remotePublicKey, nd_Chain := mns_Chain nodeSettings,
                                nd_Network := mns_Network nodeSettings\<rparr>)
                      (lw_NodeCache w) (lw_Nodes w) of
                 None \<Rightarrow> None
               | Some (i, e, db) \<Rightarrow>
                   Some (w\<lparr>lw_Nodes := db\<rparr>, case e of None \<Rightarrow> Ok i | Some e \<Rightarrow> Inl e))"

definition initiator_node :: "Initiator \<Rightarrow> int \<Rightarrow> int \<Rightarrow> int option" where
  "initiator_node i nodeId remoteNodeId =
     (if i = INITIATOR_LOCAL then Some nodeId
      else if i = INITIATOR_REMOTE then Some remoteNodeId else None)"

text \<open>The channel of the arguments; None: a closing hash without a closure type, a nil dereference.\<close>

definition channel_to_add ::
    "string \<Rightarrow> uint64 \<Rightarrow> ChannelStatus option \<Rightarrow> int64 \<Rightarrow> bool option \<Rightarrow> ClosureType option \<Rightarrow> string option \<Rightarrow>
     ManagedNodeSettings \<Rightarrow> int \<Rightarrow> int option \<Rightarrow> int option \<Rightarrow> Channel option" where
  "channel_to_add channelPoint lndShortChannelId channelStatus capacity private closeType closingTxHash
       nodeSettings remoteNodeId initiatingNodeId closingNodeId =
     (let (hash, index) = ParseChannelPoint channelPoint;
          nodeId = mns_NodeId nodeSettings;
          channel = zeroChannel
            \<lparr>ch_FundingTransactionHash := hash, ch_FundingOutputIndex := index,
             ch_FirstNodeId := nodeId, ch_SecondNodeId := remoteNodeId,
             ch_InitiatingNodeId := initiatingNodeId, ch_ClosingNodeId := closingNodeId,
             ch_Capacity := capacity, ch_Private := (case private of None \<Rightarrow> False | Some p \<Rightarrow> p),
             ch_AcceptingNodeId :=
               (if initiatingNodeId = Some nodeId then Some remoteNodeId
                else if initiatingNodeId = Some remoteNodeId then Some nodeId else None),
             ch_Status := (case channelStatus of None \<Rightarrow> Opening | Some st \<Rightarrow> st),
             ch_LNDShortChannelID := (if lndShortChannelId \<noteq> 0 then Some lndShortChannelId else None),
             ch_ShortChannelID :=
               (if lndShortChannelId \<noteq> 0 then Some (ConvertLNDShortChannelID lndShortChannelId) else None)\<rparr>
      in case closingTxHash of
           None \<Rightarrow> Some channel
         | Some txHash \<Rightarrow>
             map_option (\<lambda>ty. channel\<lparr>ch_Status := GetClosureStatus ty, ch_ClosingTransactionHash := Some txHash\<rparr>)
               closeType)"

definition addChannelOrUpdateStatus ::
    "LndEnv \<Rightarrow> string \<Rightarrow> uint64 \<Rightarrow> ChannelStatus option \<Rightarrow> int64 \<Rightarrow> bool option \<Rightarrow> ClosureType option \<Rightarrow>
     string option \<Rightarrow> ManagedNodeSettings \<Rightarrow> int \<Rightarrow> int option \<Rightarrow> int option \<Rightarrow> Channel step" where
  "addChannelOrUpdateStatus env channelPoint lndShortChannelId channelStatus capacity private closeType
       closingTxHash nodeSettings remoteNodeId initiatingNodeId closingNodeId w =
     (case channel_to_add channelPoint lndShortChannelId channelStatus capacity private closeType
             closingTxHash nodeSettings remoteNodeId initiatingNodeId closingNodeId of
        None \<Rightarrow> None
      | Some channel \<Rightarrow>
          and_then (channel_step (AddChannelOrUpdateChannelStatus (le_ChannelFails env)
              (le_ChannelOrds env) (le_RowOrd env) (le_Now env) channel))
            (\<lambda>channelId. give (Ok (channel\<lparr>ch_ChannelID := channelId\<rparr>))) w)"

text \<open>The open channels of a node, those neither closed nor cancelled.\<close>

definition GetOpenChannelsForNodeId :: "go_error option \<Rightarrow> ChannelTable \<Rightarrow> int \<Rightarrow> Channel list result" where
  "GetOpenChannelsForNodeId fails db nodeId =
     (case fails of
        Some e \<Rightarrow> if e = Error ''sql: no rows in result set'' then Ok [] else Inl e
      | None \<Rightarrow> Ok (filter (\<lambda>c. ch_Status c \<in> {Opening, Open, Closing}
                             \<and> (ch_FirstNodeId c = nodeId \<or> ch_SecondNodeId c = nodeId))
                      (map snd (tbl_rows db))))"

definition insertChannelEvent ::
    "LndEnv \<Rightarrow> bool \<Rightarrow> ChannelEventUpdateType \<Rightarrow> int \<Rightarrow> int \<Rightarrow> bool \<Rightarrow> string \<Rightarrow> ChannelEvent \<Rightarrow> ChannelEvent list step" where
  "insertChannelEvent env eventChannel eventType nodeId channelId imported json channelEvent w =
     (case le_InsertEvent env channelId of
        Some e \<Rightarrow> Some (w, Inl e)
      | None \<Rightarrow>
          Some (w\<lparr>lw_Events := lw_Events w @
                   [\<lparr>cer_Time = le_Now env, cer_Type = eventType, cer_ChannelId = channelId,
                     cer_Imported = imported, cer_Event = json, cer_NodeId = nodeId\<rparr>]\<rparr>,
                Ok (if eventChannel then [channelEvent\<lparr>ce_ChannelId := channelId\<rparr>] else [])))"

text \<open>Encoding the message and inserting its event, the end of each case.\<close>

definition marshal_and_insert ::
    "LndEnv \<Rightarrow> bool \<Rightarrow> ManagedNodeSettings \<Rightarrow> ChannelEventUpdateType \<Rightarrow> LndChannelUpdate option \<Rightarrow> ChannelEvent \<Rightarrow> int \<Rightarrow>
     ChannelEvent list step" where
  "marshal_and_insert env eventChannel nodeSettings ty c channelEvent channelId =
     and_then (give (le_Marshal env c))
       (\<lambda>json. insertChannelEvent env eventChannel ty (mns_NodeId nodeSettings) channelId False json channelEvent)"

section \<open>Channels that LND has pending\<close>

fun register_pending ::
    "LndEnv \<Rightarrow> ManagedNodeSettings \<Rightarrow> string \<Rightarrow> string \<Rightarrow> int \<Rightarrow> LndPendingChannel option list \<Rightarrow> int \<Rightarrow> int step" where
  "register_pending env nodeSettings channelPoint hash index [] channelId w = Some (w, Ok channelId)"
| "register_pending env nodeSettings channelPoint hash index (None # ps) channelId w = None"
| "register_pending env nodeSettings channelPoint hash index (Some p # ps) channelId w =
     (if lpc_ChannelPoint p = channelPoint
      then and_then (addNodeWhenNew env nodeSettings (lpc_RemoteNodePub p))
             (\<lambda>remoteNodeId. and_then (channel_step (AddChannelOrUpdateChannelStatus (le_ChannelFails env)
                (le_ChannelOrds env) (le_RowOrd env) (le_Now env)
                (zeroChannel\<lparr>ch_FundingTransactionHash := hash, ch_FundingOutputIndex := index,
                   ch_FirstNodeId := mns_NodeId nodeSettings, ch_SecondNodeId := remoteNodeId,
                   ch_Capacity := lpc_Capacity p, ch_Status := Opening\<rparr>)))
             (\<lambda>newId. register_pending env nodeSettings channelPoint hash index ps newId)) w
      else register_pending env nodeSettings channelPoint hash index ps channelId w)"

definition processPendingOpenChannel ::
    "LndEnv \<Rightarrow> ManagedNodeSettings \<Rightarrow> bytes \<Rightarrow> uint32 \<Rightarrow> int step" where
  "processPendingOpenChannel env nodeSettings txId outputIndex w =
     (case chanPointFromByte env txId outputIndex of
        Inl e \<Rightarrow> Some (w, Inl e)
      | Inr channelPoint \<Rightarrow>
          (let (hash, index) = ParseChannelPoint channelPoint in
           case GetChannelIdByFundingTransaction (le_ChannelOrds env) (fst (lw_Channels w)) hash index of
             None \<Rightarrow> None
           | Some channelId \<Rightarrow>
               if channelId \<noteq> 0 then Some (w, Ok channelId)
               else case le_Pending env of
                      Inl e \<Rightarrow> Some (w, Inl e)
                    | Inr ps \<Rightarrow> register_pending env nodeSettings channelPoint hash index ps channelId w))"

section \<open>Storing a channel event\<close>

definition store_open ::
    "LndEnv \<Rightarrow> bool \<Rightarrow> ManagedNodeSettings \<Rightarrow> ChannelEvent \<Rightarrow> LndListedChannel \<Rightarrow> ChannelEvent list step" where
  "store_open env eventChannel nodeSettings channelEvent c =
     and_then (addNodeWhenNew env nodeSettings (lo_RemotePubkey c))
     (\<lambda>remoteNodeId. and_then
       (addChannelOrUpdateStatus env (lo_ChannelPoint c) (lo_ChanId c) (Some Open) (lo_Capacity c)
          (Some (lo_Private c)) None None nodeSettings remoteNodeId
          (if lo_Initiator c then Some (mns_NodeId nodeSettings) else None) None)
     (\<lambda>channel. and_then (give (le_Marshal env (Some (OpenUpdate c))))
     (\<lambda>json. and_then
       (write_nodes (SetChannelNode (le_NodeOrds env) remoteNodeId (lo_RemotePubkey c)
          (mns_Chain nodeSettings) (mns_Network nodeSettings) (ch_Status channel)))
     (\<lambda>_. and_then
       (write_channels (SetChannel_of (le_ChannelOrds env) (ch_ChannelID channel) channel))
     (\<lambda>_. insertChannelEvent env eventChannel OPEN_CHANNEL (mns_NodeId nodeSettings)
            (ch_ChannelID channel) False json channelEvent)))))"

text \<open>A count that fails gives no channels: the error is only logged.\<close>

definition drop_closed ::
    "LndEnv \<Rightarrow> ManagedNodeSettings \<Rightarrow> string \<Rightarrow> int \<Rightarrow> Channel \<Rightarrow> unit step" where
  "drop_closed env nodeSettings remotePublicKey remoteNodeId channel w =
     (let chans = (case GetOpenChannelsForNodeId (le_OpenChannels env) (snd (lw_Channels w)) remoteNodeId of
                     Inl e \<Rightarrow> []
                   | Inr cs \<Rightarrow> cs)
      in and_then
           (write_channels (SetChannelStatus (le_ChannelOrds env) (ch_ChannelID channel) (ch_Status channel)))
           (\<lambda>_. if length chans = 0
                 then write_nodes (InactivateChannelNode (le_NodeOrds env) remotePublicKey
                        (mns_Chain nodeSettings) (mns_Network nodeSettings))
                 else give (Ok ())) w)"

definition add_closed :: "LndEnv \<Rightarrow> ManagedNodeSettings \<Rightarrow> LndCloseSummary \<Rightarrow> int \<Rightarrow> Channel step" where
  "add_closed env nodeSettings c remoteNodeId =
     addChannelOrUpdateStatus env (lcs_ChannelPoint c) (lcs_ChanId c) None (lcs_Capacity c) None
       (Some (lcs_CloseType c)) (Some (lcs_ClosingTxHash c)) nodeSettings remoteNodeId
       (initiator_node (lcs_OpenInitiator c) (mns_NodeId nodeSettings) remoteNodeId)
       (initiator_node (lcs_CloseInitiator c) (mns_NodeId nodeSettings) remoteNodeId)"

definition store_closed ::
    "LndEnv \<Rightarrow> bool \<Rightarrow> ManagedNodeSettings \<Rightarrow> ChannelEvent \<Rightarrow> LndCloseSummary \<Rightarrow> ChannelEvent list step" where
  "store_closed env eventChannel nodeSettings channelEvent c =
     and_then (addNodeWhenNew env nodeSettings (lcs_RemotePubkey c))
     (\<lambda>remoteNodeId. and_then (add_closed env nodeSettings c remoteNodeId)
     (\<lambda>channel. and_then
       (marshal_and_insert env eventChannel nodeSettings CLOSED_CHANNEL (Some (ClosedUpdate c)) channelEvent
          (ch_ChannelID channel))
     (\<lambda>evs. and_then (drop_closed env nodeSettings (lcs_RemotePubkey c) remoteNodeId channel)
     (\<lambda>_. give (Ok evs)))))"

definition store_point ::
    "LndEnv \<Rightarrow> bool \<Rightarrow> ManagedNodeSettings \<Rightarrow> ChannelEvent \<Rightarrow> LndChannelEventUpdate \<Rightarrow> ChannelEvent list step" where
  "store_point env eventChannel nodeSettings channelEvent ce w =
     (let c = point_of (cu_Type ce) (cu_Channel ce);
          p = (case c of None \<Rightarrow> nil_point | Some p \<Rightarrow> p)
      in case chanPointFromByte env (lp_TxidBytes p) (lp_OutputIndex p) of
           Inl e \<Rightarrow> Some (w, Inl e)
         | Inr channelPoint \<Rightarrow>
             (case GetChannelIdByChannelPoint (le_ChannelOrds env) (fst (lw_Channels w)) channelPoint of
                None \<Rightarrow> None
              | Some channelId \<Rightarrow>
                  marshal_and_insert env eventChannel nodeSettings (cu_Type ce)
                    (if c = None then None else Some (cu_Channel ce)) channelEvent channelId w))"

definition store_pending ::
    "LndEnv \<Rightarrow> bool \<Rightarrow> ManagedNodeSettings \<Rightarrow> ChannelEvent \<Rightarrow> LndChannelEventUpdate \<Rightarrow> ChannelEvent list step" where
  "store_pending env eventChannel nodeSettings channelEvent ce =
     (let c = point_of (cu_Type ce) (cu_Channel ce);
          p = (case c of None \<Rightarrow> nil_point | Some p \<Rightarrow> p)
      in and_then (processPendingOpenChannel env nodeSettings (lp_TxidBytes p) (lp_OutputIndex p))
           (\<lambda>channelId. marshal_and_insert env eventChannel nodeSettings (cu_Type ce)
              (if c = None then None else Some (cu_Channel ce)) channelEvent channelId))"

text \<open>An open or closed event without its channel is a nil dereference.\<close>

definition storeChannelEvent ::
    "LndEnv \<Rightarrow> bool \<Rightarrow> ManagedNodeSettings \<Rightarrow> LndChannelEventUpdate \<Rightarrow> ChannelEvent list step" where
  "storeChannelEvent env eventChannel nodeSettings ce w =
     (let channelEvent = \<lparr>ev_EventTime = le_Now env, ev_NodeId = mns_NodeId nodeSettings,
                          ce_Type = cu_Type ce, ce_ChannelId = 0\<rparr>
      in case cu_Type ce of
           OPEN_CHANNEL \<Rightarrow>
             (case cu_Channel ce of
                OpenUpdate c \<Rightarrow> store_open env eventChannel nodeSettings channelEvent c w
              | _ \<Rightarrow> None)
         | CLOSED_CHANNEL \<Rightarrow>
             (case cu_Channel ce of
                ClosedUpdate c \<Rightarrow> store_closed env eventChannel nodeSettings channelEvent c w
              | _ \<Rightarrow> None)
         | ACTIVE_CHANNEL \<Rightarrow> store_point env eventChannel nodeSettings channelEvent ce w
         | INACTIVE_CHANNEL \<Rightarrow> store_point env eventChannel nodeSettings channelEvent ce w
         | FULLY_RESOLVED_CHANNEL \<Rightarrow> store_pending env eventChannel nodeSettings channelEvent ce w
         | PENDING_OPEN_CHANNEL \<Rightarrow> store_pending env eventChannel nodeSettings channelEvent ce w
         | OtherChannelEvent i \<Rightarrow> Some (w, Ok []))"

section \<open>The subscription\<close>

text \<open>An error while storing is only logged.\<close>

definition handle_channel_event ::
    "bool \<Rightarrow> ManagedNodeSettings \<Rightarrow> LndEnv \<times> LndChannelEventUpdate \<Rightarrow> LndWorld \<Rightarrow>
     (ChannelEvent list \<times> LndWorld) option" where
  "handle_channel_event eventChannel nodeSettings msg w =
     map_option (\<lambda>(w1, r). (case r of Inl e \<Rightarrow> [] | Inr evs \<Rightarrow> evs, w1))
       (storeChannelEvent (fst msg) eventChannel nodeSettings (snd msg) w)"

text \<open>With an import channel the loop asks for one import after it got its stream.\<close>

definition SubscribeAndStoreChannelEvents ::
    "bool \<Rightarrow> bool \<Rightarrow> ManagedNodeSettings \<Rightarrow> (LndEnv \<times> LndChannelEventUpdate) turn list \<Rightarrow> LndWorld \<Rightarrow>
     ChannelEvent emitted list \<times> subscription \<times> LndWorld" where
  "SubscribeAndStoreChannelEvents importRequestChannel eventChannel nodeSettings turns w =
     stream_run eventChannel (if importRequestChannel then 1 else 0)
       (handle_channel_event eventChannel nodeSettings) turns (subscribing, w)"

section \<open>Imports\<close>

definition getExistingChannelEvents ::
    "LndEnv \<Rightarrow> ChannelEventUpdateType \<Rightarrow> int list \<Rightarrow> int list step" where
  "getExistingChannelEvents env t channelIds w =
     (if length channelIds = 0 then Some (w, Ok [])
      else case le_ExistingEvents env of
        Some e \<Rightarrow> Some (w, Inl e)
      | None \<Rightarrow>
          Some (w, Ok (map cer_ChannelId (filter (\<lambda>r. cer_ChannelId r \<in> set channelIds \<and> cer_Type r = t)
                                            (lw_Events w)))))"

text \<open>The ids of the channel points the cache knows; None: the cache gives no answer.\<close>

fun known_ids :: "channel_orders \<Rightarrow> ChannelState \<Rightarrow> string list \<Rightarrow> int list option" where
  "known_ids ords s [] = Some []"
| "known_ids ords s (p # ps) =
     (case GetChannelIdByChannelPoint ords s p of
        None \<Rightarrow> None
      | Some channelId \<Rightarrow>
          map_option (\<lambda>ids. if channelId \<noteq> 0 then channelId # ids else ids) (known_ids ords s ps))"

text \<open>The event of an imported channel, unless its channel had one before the import.\<close>

definition import_event ::
    "LndEnv \<Rightarrow> ManagedNodeSettings \<Rightarrow> ChannelEventUpdateType \<Rightarrow> LndChannelUpdate \<Rightarrow> int list \<Rightarrow> int \<Rightarrow>
     int \<Rightarrow> string \<Rightarrow> ChannelStatus \<Rightarrow> unit step" where
  "import_event env nodeSettings ty c existing channelId remoteNodeId remotePublicKey status =
     (if list_ex (\<lambda>i. channelId = i) existing then give (Ok ())
      else and_then (give (le_Marshal env (Some c)))
        (\<lambda>json. and_then
          (insertChannelEvent env False ty (mns_NodeId nodeSettings) channelId True json
             \<lparr>ev_EventTime = 0, ev_NodeId = 0, ce_Type = OPEN_CHANNEL, ce_ChannelId = 0\<rparr>)
        (\<lambda>_. write_nodes (SetChannelNode (le_NodeOrds env) remoteNodeId remotePublicKey
               (mns_Chain nodeSettings) (mns_Network nodeSettings) status))))"

fun import_open :: "LndEnv \<Rightarrow> ManagedNodeSettings \<Rightarrow> int list \<Rightarrow> LndListedChannel list \<Rightarrow> unit step" where
  "import_open env nodeSettings existing [] w = Some (w, Ok ())"
| "import_open env nodeSettings existing (c # cs) w =
     and_then (addNodeWhenNew env nodeSettings (lo_RemotePubkey c))
     (\<lambda>remoteNodeId. and_then
       (addChannelOrUpdateStatus env (lo_ChannelPoint c) (lo_ChanId c) (Some Open) (lo_Capacity c)
          (Some (lo_Private c)) None None nodeSettings remoteNodeId
          (if lo_Initiator c then Some (mns_NodeId nodeSettings) else None) None)
     (\<lambda>channel. and_then
       (import_event env nodeSettings OPEN_CHANNEL (OpenUpdate c) existing (ch_ChannelID channel)
          remoteNodeId (lo_RemotePubkey c) Open)
     (\<lambda>_. import_open env nodeSettings existing cs))) w"

fun import_closed :: "LndEnv \<Rightarrow> ManagedNodeSettings \<Rightarrow> int list \<Rightarrow> LndCloseSummary list \<Rightarrow> unit step" where
  "import_closed env nodeSettings existing [] w = Some (w, Ok ())"
| "import_closed env nodeSettings existing (c # cs) w =
     and_then (addNodeWhenNew env nodeSettings (lcs_RemotePubkey c))
     (\<lambda>remoteNodeId. and_then (add_closed env nodeSettings c remoteNodeId)
     (\<lambda>channel. and_then
       (import_event env nodeSettings CLOSED_CHANNEL (ClosedUpdate c) existing (ch_ChannelID channel)
          remoteNodeId (lcs_RemotePubkey c) (GetClosureStatus (lcs_CloseType c)))
     (\<lambda>_. import_closed env nodeSettings existing cs))) w"

definition import_all ::
    "LndEnv \<Rightarrow> ChannelEventUpdateType \<Rightarrow> string list \<Rightarrow> (int list \<Rightarrow> unit step) \<Rightarrow> unit step" where
  "import_all env t points run w =
     (case known_ids (le_ChannelOrds env) (fst (lw_Channels w)) points of
        None \<Rightarrow> None
      | Some channelIds \<Rightarrow> and_then (getExistingChannelEvents env t channelIds) run w)"

definition storeImportedOpenChannels ::
    "LndEnv \<Rightarrow> ManagedNodeSettings \<Rightarrow> LndListedChannel list \<Rightarrow> unit step" where
  "storeImportedOpenChannels env nodeSettings cs =
     (if length cs = 0 then give (Ok ())
      else import_all env OPEN_CHANNEL (map lo_ChannelPoint cs)
             (\<lambda>existing. import_open env nodeSettings existing cs))"

definition storeImportedClosedChannels ::
    "LndEnv \<Rightarrow> ManagedNodeSettings \<Rightarrow> LndCloseSummary list \<Rightarrow> unit step" where
  "storeImportedClosedChannels env nodeSettings cs =
     (if length cs = 0 then give (Ok ())
      else import_all env CLOSED_CHANNEL (map lcs_ChannelPoint cs)
             (\<lambda>existing. import_closed env nodeSettings existing cs))"

definition ImportChannelList ::
    "LndEnv \<Rightarrow> ChannelEventUpdateType \<Rightarrow> LndListedChannel list result \<Rightarrow> LndCloseSummary list result \<Rightarrow>
     ManagedNodeSettings \<Rightarrow> unit step" where
  "ImportChannelList env t listChannels closedChannels nodeSettings =
     (case t of
        OPEN_CHANNEL \<Rightarrow> and_then (give listChannels) (storeImportedOpenChannels env nodeSettings)
      | CLOSED_CHANNEL \<Rightarrow> and_then (give closedChannels) (storeImportedClosedChannels env nodeSettings)
      | _ \<Rightarrow> give (Ok ()))"

section \<open>What the steps keep\<close>

definition maintains :: "('w \<Rightarrow> 'w \<Rightarrow> bool) \<Rightarrow> ('w, 'a) process \<Rightarrow> bool" where
  "maintains R m \<longleftrightarrow> (\<forall>w w1 r. m w = Some (w1, r) \<longrightarrow> R w w1)"

named_theorems maintains_intros

lemma maintainsD: "maintains R m \<Longrightarrow> m w = Some (w1, r) \<Longrightarrow> R w w1"
  by (simp add: maintains_def)

lemma maintains_and_then [maintains_intros]:
  "maintains R m \<Longrightarrow> (\<And>a. maintains R (f a)) \<Longrightarrow> transp R \<Longrightarrow> maintains R (and_then m f)"
  by (fastforce simp: maintains_def and_then_def transp_def split: option.splits prod.splits sum.splits)

lemma maintains_give [maintains_intros]: "reflp R \<Longrightarrow> maintains R (give r)"
  by (simp add: maintains_def give_def reflpD)

lemma maintains_if [maintains_intros]: "maintains R m \<Longrightarrow> maintains R n \<Longrightarrow> maintains R (if c then m else n)"
  by simp

lemma and_then_Ok:
  "(and_then m f w = Some (w2, Ok b)) = (\<exists>w1 a. m w = Some (w1, Ok a) \<and> f a w1 = Some (w2, Ok b))"
  by (auto simp: and_then_def split: option.splits sum.splits)

lemma and_then_Some:
  assumes "and_then m f w = Some (w2, r)"
  obtains e where "m w = Some (w2, Inl e)" and "r = Inl e"
    | w1 a where "m w = Some (w1, Ok a)" and "f a w1 = Some (w2, r)"
  using assms by (auto simp: and_then_def split: option.splits sum.splits)

lemma give_Some: "(give r w = Some (w1, r1)) = (w1 = w \<and> r1 = r)"
  by (auto simp: give_def)

text \<open>Relations that only look at the channels, the nodes or the events.\<close>

definition same_active :: "LndWorld \<Rightarrow> LndWorld \<Rightarrow> bool" where
  "same_active w w1 \<longleftrightarrow>
     channelPointCache (fst (lw_Channels w1)) = channelPointCache (fst (lw_Channels w)) \<and>
     shortChannelIdCache (fst (lw_Channels w1)) = shortChannelIdCache (fst (lw_Channels w))"

definition same_events :: "LndWorld \<Rightarrow> LndWorld \<Rightarrow> bool" where
  "same_events w w1 \<longleftrightarrow> lw_Events w1 = lw_Events w"

definition same_channels :: "LndWorld \<Rightarrow> LndWorld \<Rightarrow> bool" where
  "same_channels w w1 \<longleftrightarrow> lw_Channels w1 = lw_Channels w"

definition nodes_grow :: "LndWorld \<Rightarrow> LndWorld \<Rightarrow> bool" where
  "nodes_grow w w1 \<longleftrightarrow> set (nt_rows (lw_Nodes w)) \<subseteq> set (nt_rows (lw_Nodes w1))"

lemmas relation_defs = same_active_def same_events_def same_channels_def nodes_grow_def

lemma relations_preorder [maintains_intros]:
  "reflp same_active" "transp same_active" "reflp same_events" "transp same_events"
  "reflp same_channels" "transp same_channels" "reflp nodes_grow" "transp nodes_grow"
  by (auto simp: relation_defs reflp_def transp_def)

lemma maintains_addNodeWhenNew [maintains_intros]:
  "maintains same_active (addNodeWhenNew env ns k)" "maintains same_events (addNodeWhenNew env ns k)"
  "maintains same_channels (addNodeWhenNew env ns k)"
  by (auto simp: maintains_def addNodeWhenNew_def relation_defs split: option.splits if_splits)

lemma maintains_channel_step [maintains_intros]: "maintains same_events (channel_step f)"
  by (auto simp: maintains_def channel_step_def relation_defs split: outcome.splits option.splits)

lemma maintains_writes [maintains_intros]:
  "maintains same_events (write_channels g)" "maintains same_events (write_nodes h)"
  "maintains same_active (write_nodes h)" "maintains same_channels (write_nodes h)"
  by (auto simp: maintains_def write_channels_def write_nodes_def relation_defs split: outcome.splits)

lemma maintains_insertChannelEvent [maintains_intros]:
  "maintains same_active (insertChannelEvent env ec ty n c i j e)"
  "maintains same_channels (insertChannelEvent env ec ty n c i j e)"
  by (auto simp: maintains_def insertChannelEvent_def relation_defs split: option.splits)

lemma maintains_marshal_and_insert [maintains_intros]:
  "maintains same_active (marshal_and_insert env ec ns ty c e i)"
  "maintains same_channels (marshal_and_insert env ec ns ty c e i)"
  unfolding marshal_and_insert_def by (intro maintains_intros; simp add: maintains_intros)+

lemma maintains_addChannelOrUpdateStatus:
  assumes "\<And>ch. channel_to_add p l st cap pr ct h ns r i c = Some ch \<Longrightarrow>
    maintains R (channel_step (AddChannelOrUpdateChannelStatus (le_ChannelFails env)
      (le_ChannelOrds env) (le_RowOrd env) (le_Now env) ch))" and "reflp R" and "transp R"
  shows "maintains R (addChannelOrUpdateStatus env p l st cap pr ct h ns r i c)"
  unfolding maintains_def addChannelOrUpdateStatus_def
  by (auto split: option.splits dest!: maintainsD [rotated]
      intro: maintains_and_then [OF assms(1) maintains_give [OF assms(2)] assms(3)])

lemma maintains_events_add [maintains_intros]:
  "maintains same_events (addChannelOrUpdateStatus env p l st cap pr ct h ns r i c)"
  by (intro maintains_addChannelOrUpdateStatus maintains_intros)

subsection \<open>A closed status leaves the active lookups alone\<close>

lemma SetChannel_of_closed:
  assumes "SetChannel_of ords c ch s = Served t r" and "CooperativeClosed \<le> ch_Status ch"
  shows "channelPointCache t = channelPointCache s \<and> shortChannelIdCache t = shortChannelIdCache s"
proof -
  from assms(1) have "writeChannel (setChannelMessage c (ch_ShortChannelID ch) (ch_Status ch)
      (ch_FundingTransactionHash ch) (ch_FundingOutputIndex ch) (ch_Capacity ch) (ch_Private ch)
      (ch_FirstNodeId ch) (ch_SecondNodeId ch) (ch_InitiatingNodeId ch) (ch_AcceptingNodeId ch)) s = Served t r"
    by (simp add: SetChannel_of_def SetChannel_def processManagedChannel_def)
  then show ?thesis
    by (rule writeChannel_Served) (use assms(2) in \<open>simp_all add: leD\<close>)
qed

lemma AddChannel_closed:
  assumes "AddChannelOrUpdateChannelStatus fails ords ord now ch cw = Served cw1 r"
    and "CooperativeClosed \<le> ch_Status ch"
  shows "channelPointCache (fst cw1) = channelPointCache (fst cw) \<and> shortChannelIdCache (fst cw1) = shortChannelIdCache (fst cw)"
  using assms
  by (cases cw; cases cw1)
    (auto simp: AddChannelOrUpdateChannelStatus_def addChannel_def cache_write_def Let_def
      split: FoundChannel.splits option.splits if_splits outcome.splits prod.splits
      dest!: SetChannel_of_closed)

lemma closed_channel_to_add:
  "channel_to_add p l None cap None (Some ct) (Some h) ns r i c = Some ch \<Longrightarrow> ch_Status ch = GetClosureStatus ct"
  by (auto simp: channel_to_add_def Let_def split: prod.splits)

lemma maintains_active_add_closed:
  assumes "CooperativeClosed \<le> GetClosureStatus (lcs_CloseType c)"
  shows "maintains same_active (add_closed env ns c r)"
  unfolding add_closed_def
proof (intro maintains_addChannelOrUpdateStatus maintains_intros)
  fix ch assume "channel_to_add (lcs_ChannelPoint c) (lcs_ChanId c) None (lcs_Capacity c) None
    (Some (lcs_CloseType c)) (Some (lcs_ClosingTxHash c)) ns r
    (initiator_node (lcs_OpenInitiator c) (mns_NodeId ns) r) (initiator_node (lcs_CloseInitiator c) (mns_NodeId ns) r) = Some ch"
  from closed_channel_to_add [OF this] assms have "CooperativeClosed \<le> ch_Status ch" by simp
  then show "maintains same_active (channel_step (AddChannelOrUpdateChannelStatus (le_ChannelFails env)
      (le_ChannelOrds env) (le_RowOrd env) (le_Now env) ch))"
    by (auto simp: maintains_def channel_step_def same_active_def split: outcome.splits option.splits
        dest!: AddChannel_closed)
qed

lemma maintains_import_event [maintains_intros]:
  "maintains same_active (import_event env ns ty c ex i n k st)"
  unfolding import_event_def by (intro maintains_intros)

lemma import_closed_active:
  assumes "\<forall>c \<in> set cs. CooperativeClosed \<le> GetClosureStatus (lcs_CloseType c)"
  shows "maintains same_active (import_closed env ns ex cs)"
  using assms
proof (induction cs)
  case Nil
  then show ?case by (simp add: maintains_def same_active_def)
next
  case (Cons c cs)
  then have "maintains same_active (import_closed env ns ex cs)"
    and "CooperativeClosed \<le> GetClosureStatus (lcs_CloseType c)" by simp_all
  then have "maintains same_active (and_then (addNodeWhenNew env ns (lcs_RemotePubkey c))
     (\<lambda>remoteNodeId. and_then (add_closed env ns c remoteNodeId)
     (\<lambda>channel. and_then (import_event env ns CLOSED_CHANNEL (ClosedUpdate c) ex (ch_ChannelID channel)
          remoteNodeId (lcs_RemotePubkey c) (GetClosureStatus (lcs_CloseType c)))
     (\<lambda>_. import_closed env ns ex cs))))"
    by (intro maintains_intros maintains_active_add_closed)
  then show ?case by (simp add: maintains_def)
qed

lemma import_all_active:
  "(\<And>ex. maintains same_active (run ex)) \<Longrightarrow> maintains same_active (import_all env t ps run)"
proof -
  assume run: "\<And>ex. maintains same_active (run ex)"
  have "maintains same_active (getExistingChannelEvents env t ids)" for ids
    by (auto simp: maintains_def getExistingChannelEvents_def same_active_def split: option.splits if_splits)
  then have "maintains same_active (and_then (getExistingChannelEvents env t ids) run)" for ids
    using run by (intro maintains_intros)
  then show ?thesis
    by (auto simp: maintains_def import_all_def split: option.splits)
qed

section \<open>What a stored event leaves\<close>

text \<open>An event is recorded once when it is stored and not at all when an error is returned.\<close>

definition recorded :: "LndEnv \<Rightarrow> bool \<Rightarrow> int \<Rightarrow> ChannelEventUpdateType \<Rightarrow> LndWorld \<Rightarrow> LndWorld \<Rightarrow> ChannelEvent list \<Rightarrow> bool" where
  "recorded env eventChannel nodeId ty w w1 evs \<longleftrightarrow>
     (\<exists>row. lw_Events w1 = lw_Events w @ [row] \<and> cer_Type row = ty \<and> cer_NodeId row = nodeId \<and>
        \<not> cer_Imported row \<and> cer_Time row = le_Now env \<and>
        evs = (if eventChannel
               then [\<lparr>ev_EventTime = le_Now env, ev_NodeId = nodeId, ce_Type = ty, ce_ChannelId = cer_ChannelId row\<rparr>]
               else []))"

definition base_event :: "LndEnv \<Rightarrow> int \<Rightarrow> ChannelEventUpdateType \<Rightarrow> ChannelEvent" where
  "base_event env nodeId ty = \<lparr>ev_EventTime = le_Now env, ev_NodeId = nodeId, ce_Type = ty, ce_ChannelId = 0\<rparr>"

definition outcome_ok :: "LndEnv \<Rightarrow> bool \<Rightarrow> int \<Rightarrow> ChannelEventUpdateType \<Rightarrow> LndWorld \<Rightarrow> LndWorld \<Rightarrow> ChannelEvent list result \<Rightarrow> bool" where
  "outcome_ok env eventChannel nodeId ty w w1 r \<longleftrightarrow>
     (case r of Inl e \<Rightarrow> lw_Events w1 = lw_Events w | Inr evs \<Rightarrow> recorded env eventChannel nodeId ty w w1 evs)"

lemma insertChannelEvent_ok:
  "insertChannelEvent env ec ty n c False j (base_event env n ty) w = Some (w1, r) \<Longrightarrow> outcome_ok env ec n ty w w1 r"
  by (auto simp: insertChannelEvent_def outcome_ok_def recorded_def base_event_def split: option.splits)

lemma outcome_ok_after:
  "same_events w w1 \<Longrightarrow> outcome_ok env ec n ty w1 w2 r \<Longrightarrow> outcome_ok env ec n ty w w2 r"
  by (auto simp: outcome_ok_def recorded_def same_events_def split: sum.splits)

lemma and_then_ok:
  assumes "and_then m f w = Some (w2, r)" and "maintains same_events m"
    and "\<And>a w1. f a w1 = Some (w2, r) \<Longrightarrow> outcome_ok env ec n ty w1 w2 r"
  shows "outcome_ok env ec n ty w w2 r"
  using assms(1)
proof (cases rule: and_then_Some)
  case (1 e)
  with assms(2) show ?thesis by (auto dest: maintainsD simp: outcome_ok_def same_events_def)
next
  case (2 w1 a)
  with assms(2,3) show ?thesis by (auto dest: maintainsD intro: outcome_ok_after)
qed

lemma marshal_and_insert_ok:
  "marshal_and_insert env ec ns ty c (base_event env (mns_NodeId ns) ty) i w = Some (w1, r) \<Longrightarrow>
   outcome_ok env ec (mns_NodeId ns) ty w w1 r"
  unfolding marshal_and_insert_def
  by (erule and_then_ok) (auto intro: maintains_intros insertChannelEvent_ok)

lemma store_open_ok:
  "store_open env ec ns (base_event env (mns_NodeId ns) OPEN_CHANNEL) c w = Some (w1, r) \<Longrightarrow>
   outcome_ok env ec (mns_NodeId ns) OPEN_CHANNEL w w1 r"
  unfolding store_open_def
  by (elim and_then_ok insertChannelEvent_ok; intro maintains_intros)

lemma drop_closed_Some:
  assumes "drop_closed env ns k n ch w = Some (w1, r)"
  shows "r = Ok () \<and> same_events w w1"
  using assms
  by (auto simp: drop_closed_def Let_def same_events_def write_channels_def write_nodes_def give_def and_then_def
      split: if_splits outcome.splits option.splits sum.splits prod.splits)

lemma closed_tail_ok:
  assumes "and_then (marshal_and_insert env ec ns CLOSED_CHANNEL c
      (base_event env (mns_NodeId ns) CLOSED_CHANNEL) i)
     (\<lambda>evs. and_then (drop_closed env ns k n ch) (\<lambda>_. give (Ok evs))) w = Some (w1, r)"
  shows "outcome_ok env ec (mns_NodeId ns) CLOSED_CHANNEL w w1 r"
  using assms
proof (cases rule: and_then_Some)
  case (1 e)
  then show ?thesis by (auto dest: marshal_and_insert_ok)
next
  case (2 w2 evs)
  from 2(2) obtain x where "drop_closed env ns k n ch w2 = Some (w1, Ok x)" "r = Ok evs"
    by (cases rule: and_then_Some) (auto dest: drop_closed_Some simp: give_def)
  with marshal_and_insert_ok [OF 2(1)] drop_closed_Some show ?thesis
    by (fastforce simp: outcome_ok_def recorded_def same_events_def)
qed

lemma store_closed_ok:
  "store_closed env ec ns (base_event env (mns_NodeId ns) CLOSED_CHANNEL) c w = Some (w1, r) \<Longrightarrow>
   outcome_ok env ec (mns_NodeId ns) CLOSED_CHANNEL w w1 r"
  unfolding store_closed_def add_closed_def
  by (elim closed_tail_ok and_then_ok; intro maintains_intros)

lemma store_point_ok:
  "store_point env ec ns (base_event env (mns_NodeId ns) (cu_Type ce)) ce w = Some (w1, r) \<Longrightarrow>
   outcome_ok env ec (mns_NodeId ns) (cu_Type ce) w w1 r"
  by (auto simp: store_point_def Let_def outcome_ok_def [of _ _ _ _ _ _ "Inl _"] split: sum.splits option.splits
      dest: marshal_and_insert_ok)

lemma register_pending_events:
  "register_pending env ns p h i ps c w = Some (w1, r) \<Longrightarrow> same_events w w1"
proof (induction ps arbitrary: c w w1 r)
  case (Cons q ps)
  then have rest: "maintains same_events (register_pending env ns p h i ps d)" for d
    by (auto simp: maintains_def)
  have "maintains same_events (and_then (addNodeWhenNew env ns k) (\<lambda>remoteNodeId. and_then (channel_step (g remoteNodeId))
      (register_pending env ns p h i ps)))" for k g
    using rest by (intro maintains_intros)
  from maintainsD [OF this] maintainsD [OF rest] Cons.prems show ?case
    by (cases q) (auto split: if_splits)
qed (simp add: same_events_def)

lemma maintains_processPending [maintains_intros]:
  "maintains same_events (processPendingOpenChannel env ns t i)"
  unfolding maintains_def processPendingOpenChannel_def
  by (auto simp: Let_def same_events_def [of w w for w]
      split: sum.splits prod.splits option.splits if_splits dest: register_pending_events)

lemma store_pending_ok:
  "store_pending env ec ns (base_event env (mns_NodeId ns) (cu_Type ce)) ce w = Some (w1, r) \<Longrightarrow>
   outcome_ok env ec (mns_NodeId ns) (cu_Type ce) w w1 r"
  unfolding store_pending_def Let_def
  by (erule and_then_ok) (auto intro: maintains_intros marshal_and_insert_ok)

lemma storeChannelEvent_ok:
  assumes "storeChannelEvent env ec ns ce w = Some (w1, r)"
  shows "if \<exists>i. cu_Type ce = OtherChannelEvent i then w1 = w \<and> r = Ok []
    else outcome_ok env ec (mns_NodeId ns) (cu_Type ce) w w1 r"
  using assms store_point_ok [of env ec ns ce w w1 r] store_pending_ok [of env ec ns ce w w1 r]
  unfolding storeChannelEvent_def Let_def base_event_def [symmetric]
  by (cases "cu_Type ce")
    (auto split: LndChannelUpdate.splits dest: store_open_ok store_closed_ok)

section \<open>Properties\<close>

text \<open>
  C21: A channel event that is stored without error adds one row to the table of channel events and
  is sent once, with the id of that row, when there is an event channel; an error or an unknown
  kind of event adds no row and sends nothing.
\<close>
theorem channel_event_recorded:
  assumes "storeChannelEvent env eventChannel nodeSettings ce w = Some (w1, r)"
  shows "case r of
      Inl e \<Rightarrow> lw_Events w1 = lw_Events w
    | Inr evs \<Rightarrow>
        if \<exists>i. cu_Type ce = OtherChannelEvent i then lw_Events w1 = lw_Events w \<and> evs = []
        else recorded env eventChannel (mns_NodeId nodeSettings) (cu_Type ce) w w1 evs"
  using storeChannelEvent_ok [OF assms] by (auto simp: outcome_ok_def split: sum.splits if_splits)

lemma storeChannelEvent_quiet:
  assumes "storeChannelEvent env False ns ce w = Some (w1, Ok evs)"
  shows "evs = []"
  using storeChannelEvent_ok [OF assms] by (auto simp: outcome_ok_def recorded_def split: if_splits)

interpretation channel_events: stream_handler eventChannel requests "handle_channel_event eventChannel nodeSettings"
    for eventChannel requests nodeSettings
proof unfold_locales
  fix m w evs w1
  assume "\<not> eventChannel" and "handle_channel_event eventChannel nodeSettings m w = Some (evs, w1)"
  then obtain r where "storeChannelEvent (fst m) False nodeSettings (snd m) w = Some (w1, r)"
    and "evs = (case r of Inl e \<Rightarrow> [] | Inr evs \<Rightarrow> evs)"
    by (auto simp: handle_channel_event_def)
  then show "evs = []" using storeChannelEvent_quiet by (cases r) auto
qed

text \<open>The subscription reports what storing the received events in order sends.\<close>

lemma channel_subscription_reports:
  assumes "SubscribeAndStoreChannelEvents importRequestChannel eventChannel nodeSettings turns w = (em, s1, w1)"
  shows "(events_of em, w1) = handle_all (handle_channel_event eventChannel nodeSettings)
     (received eventChannel (if importRequestChannel then 1 else 0)
        (handle_channel_event eventChannel nodeSettings) turns (subscribing, w)) w"
  using channel_events.handled_in_order assms unfolding SubscribeAndStoreChannelEvents_def .

subsection \<open>Closed channels\<close>

lemma ParseChannelPoint_hash_no_colon: "ParseChannelPoint p = (h, i) \<Longrightarrow> CHR '':'' \<notin> set h"
  using split_on_parts [OF hd_in_set [OF split_on_nonempty]]
  by (auto simp: ParseChannelPoint_def Let_def hd_conv_nth split: if_splits option.splits)

definition points_agree :: "ChannelState \<Rightarrow> bool" where
  "points_agree s \<longleftrightarrow> (\<forall>p d. map_of (channelPointCache s) p = Some d \<longrightarrow> allChannelPointCache s p = Some d)"

lemma AddChannel_points:
  assumes "AddChannelOrUpdateChannelStatus fails ords ord now ch cw = Served cw1 (Some (c, None))"
    and "ch_FundingTransactionHash ch \<noteq> []" and "c \<noteq> 0"
  shows "allChannelPointCache (fst cw1) = (allChannelPointCache (fst cw))
           (CreateChannelPoint (ch_FundingTransactionHash ch) (ch_FundingOutputIndex ch) \<mapsto> c)"
proof -
  obtain s r ch' where "s = fst cw" "SetChannel_of ords c ch' s = Served (fst cw1) r" "same_channel ch' ch"
    using assms
    by (cases cw; cases cw1)
      (auto simp: AddChannelOrUpdateChannelStatus_def addChannel_def cache_write_def Let_def find_channel_def
        same_channel_def split: FoundChannel.splits option.splits if_splits outcome.splits prod.splits)
  with SetChannel_of_Served [OF this(2) assms(3)] assms(2) show ?thesis
    by (simp add: same_channel_def split: if_splits)
qed

lemma AddChannel_cached_id:
  assumes "AddChannelOrUpdateChannelStatus fails ords ord now ch cw = Served cw1 (Some (c, None))"
    and "ch_FundingTransactionHash ch \<noteq> []" and "d \<noteq> 0"
    and "allChannelPointCache (fst cw) (CreateChannelPoint (ch_FundingTransactionHash ch) (ch_FundingOutputIndex ch)) = Some d"
  shows "c = d"
  using assms
  by (auto simp: AddChannelOrUpdateChannelStatus_def find_channel_def channel_reads cache_write_def Let_def
      split: if_splits outcome.splits prod.splits)

text \<open>The steps that a stored closure is made of.\<close>

lemma store_closed_steps:
  assumes "store_closed env ec ns ev c w = Some (w1, Ok evs)"
  obtains remote wa ch cw1 d wb where
    "addNodeWhenNew env ns (lcs_RemotePubkey c) w = Some (wa, Ok remote)"
    and "same_channels w wa"
    and "channel_to_add (lcs_ChannelPoint c) (lcs_ChanId c) None (lcs_Capacity c) None
      (Some (lcs_CloseType c)) (Some (lcs_ClosingTxHash c)) ns remote
      (initiator_node (lcs_OpenInitiator c) (mns_NodeId ns) remote)
      (initiator_node (lcs_CloseInitiator c) (mns_NodeId ns) remote) = Some ch"
    and "AddChannelOrUpdateChannelStatus (le_ChannelFails env) (le_ChannelOrds env) (le_RowOrd env) (le_Now env) ch
      (lw_Channels w) = Served cw1 (Some (d, None))"
    and "lw_Channels wb = cw1" and "lw_NodeCache wb = lw_NodeCache wa"
    and "drop_closed env ns (lcs_RemotePubkey c) remote (ch\<lparr>ch_ChannelID := d\<rparr>) wb = Some (w1, Ok ())"
proof -
  from assms obtain wa remote wc ch0 wb where
    node: "addNodeWhenNew env ns (lcs_RemotePubkey c) w = Some (wa, Ok remote)"
    and add: "add_closed env ns c remote wa = Some (wc, Ok ch0)"
    and ins: "marshal_and_insert env ec ns CLOSED_CHANNEL (Some (ClosedUpdate c)) ev (ch_ChannelID ch0) wc = Some (wb, Ok evs)"
    and drop: "drop_closed env ns (lcs_RemotePubkey c) remote ch0 wb = Some (w1, Ok ())"
    unfolding store_closed_def by (auto simp: and_then_Ok give_Some)
  have same: "same_channels w wa" by (rule maintainsD [OF maintains_addNodeWhenNew(3) node])
  from add obtain ch cw1 d where
    ch: "channel_to_add (lcs_ChannelPoint c) (lcs_ChanId c) None (lcs_Capacity c) None
      (Some (lcs_CloseType c)) (Some (lcs_ClosingTxHash c)) ns remote
      (initiator_node (lcs_OpenInitiator c) (mns_NodeId ns) remote)
      (initiator_node (lcs_CloseInitiator c) (mns_NodeId ns) remote) = Some ch"
    and srv: "AddChannelOrUpdateChannelStatus (le_ChannelFails env) (le_ChannelOrds env) (le_RowOrd env) (le_Now env) ch
      (lw_Channels w) = Served cw1 (Some (d, None))"
    and wc: "wc = wa\<lparr>lw_Channels := cw1\<rparr>" "ch0 = ch\<lparr>ch_ChannelID := d\<rparr>"
    using same unfolding add_closed_def addChannelOrUpdateStatus_def
    by (auto simp: and_then_Ok give_Some channel_step_def same_channels_def split: option.splits outcome.splits)
  have "same_channels wc wb" by (rule maintainsD [OF maintains_marshal_and_insert(2) ins])
  moreover have "lw_NodeCache wb = lw_NodeCache wc"
    using ins unfolding marshal_and_insert_def
    by (auto simp: and_then_Ok give_Some insertChannelEvent_def split: option.splits)
  ultimately show ?thesis using that node same ch srv wc drop by (simp add: same_channels_def)
qed

lemma drop_closed_channels:
  assumes "drop_closed env ns k n ch w = Some (w1, r)"
  obtains t r1 where "SetChannelStatus (le_ChannelOrds env) (ch_ChannelID ch) (ch_Status ch) (fst (lw_Channels w)) = Served t r1"
    and "fst (lw_Channels w1) = t"
  using assms
  by (auto simp: drop_closed_def Let_def write_channels_def write_nodes_def give_def and_then_def
      split: if_splits outcome.splits option.splits sum.splits prod.splits)

text \<open>A closed status takes the only active point of a channel away.\<close>

lemma SetChannelStatus_drops_point:
  assumes "SetChannelStatus ords d st s = Served t r" and "d \<noteq> 0" and "CooperativeClosed \<le> st"
    and "range_order (fst ords)" and "keys_distinct (channelPointCache s)" and "p \<noteq> []"
    and "\<forall>e. map_of (channelPointCache s) p = Some e \<longrightarrow> e = d"
    and "\<forall>q. map_of (channelPointCache s) q = Some d \<longrightarrow> q = p"
  shows "map_of (channelPointCache t) p = None \<and> allChannelPointCache t = allChannelPointCache s
    \<and> allChannelStatusCache t d = Some st"
proof -
  have gone: "map_of (delete_matching (fst ords) d (channelPointCache s)) p = None"
  proof (cases "map_of (channelPointCache s) p")
    case None
    then show ?thesis using delete_matching_other [OF assms(4,5), of p d] by simp
  next
    case (Some e)
    with assms(7) have "map_of (channelPointCache s) p = Some d" by simp
    from delete_matching_unique [OF assms(4,5) this assms(6,8)] show ?thesis .
  qed
  from assms(1) have "writeChannelStatus (fst ords)
      ((channelRequest WRITE_CHANNELSTATUSID)\<lparr>mc_ChannelId := d, mc_Status := st\<rparr>) s = Served t r"
    by (simp add: SetChannelStatus_def processManagedChannel_def)
  then show ?thesis
    by (rule writeChannelStatus_Served) (use assms(2,3) gone in simp_all)
qed

text \<open>
  When LND reports that a channel is closed and the event is stored without error, the channel is
  found among all channels with its closure as status and no longer among the active ones,
  whether the cache or the table knew it before.
\<close>
lemma closed_event_leaves_active:
  assumes "coherent (lw_Channels w)" and "channel_state_ok (fst (lw_Channels w))"
    and "points_agree (fst (lw_Channels w))"
    and "\<forall>d row. row_of (snd (lw_Channels w)) d = Some row \<longrightarrow> no_colon row"
    and "range_order (le_RowOrd env)" and "range_order (fst (le_ChannelOrds env))"
    and "le_ChannelFails env SelectByFundingTransaction = None"
    and "ParseChannelPoint (lcs_ChannelPoint c) = (h, i)" and "h \<noteq> []"
    and "CooperativeClosed \<le> GetClosureStatus (lcs_CloseType c)"
    and "storeChannelEvent env eventChannel nodeSettings
           \<lparr>cu_Type = CLOSED_CHANNEL, cu_Channel = ClosedUpdate c\<rparr> w = Some (w1, Ok evs)"
  shows "GetActiveChannelIdByFundingTransaction ords (fst (lw_Channels w1)) h i = Some 0 \<and>
    (\<exists>d. GetChannelIdByFundingTransaction ords (fst (lw_Channels w1)) h i = Some d \<and> 0 < d \<and>
         GetChannelStatusByChannelId ords (fst (lw_Channels w1)) d = Some (GetClosureStatus (lcs_CloseType c)))"
proof -
  let ?s = "fst (lw_Channels w)" and ?p = "CreateChannelPoint h i"
  from assms(11) have "store_closed env eventChannel nodeSettings
      \<lparr>ev_EventTime = le_Now env, ev_NodeId = mns_NodeId nodeSettings, ce_Type = CLOSED_CHANNEL, ce_ChannelId = 0\<rparr> c w
      = Some (w1, Ok evs)"
    by (simp add: storeChannelEvent_def Let_def)
  then obtain remote wa ch cw1 d wb where
    ch: "channel_to_add (lcs_ChannelPoint c) (lcs_ChanId c) None (lcs_Capacity c) None
      (Some (lcs_CloseType c)) (Some (lcs_ClosingTxHash c)) nodeSettings remote
      (initiator_node (lcs_OpenInitiator c) (mns_NodeId nodeSettings) remote)
      (initiator_node (lcs_CloseInitiator c) (mns_NodeId nodeSettings) remote) = Some ch"
    and add: "AddChannelOrUpdateChannelStatus (le_ChannelFails env) (le_ChannelOrds env) (le_RowOrd env) (le_Now env) ch
      (lw_Channels w) = Served cw1 (Some (d, None))"
    and wb: "lw_Channels wb = cw1"
    and drop: "drop_closed env nodeSettings (lcs_RemotePubkey c) remote (ch\<lparr>ch_ChannelID := d\<rparr>) wb = Some (w1, Ok ())"
    by (rule store_closed_steps)
  have h: "ch_FundingTransactionHash ch = h" "ch_FundingOutputIndex ch = i" "ch_Status ch = GetClosureStatus (lcs_CloseType c)"
    using ch assms(8) by (auto simp: channel_to_add_def Let_def)
  have nc: "no_colon ch" using ParseChannelPoint_hash_no_colon [OF assms(8)] h by (simp add: no_colon_def)
  have hash: "ch_FundingTransactionHash ch \<noteq> []" using h assms(9) by simp
  have added: "added (le_ChannelFails env) (le_ChannelOrds env) ch (snd (lw_Channels w)) d cw1"
    by (rule AddChannel_added [OF assms(1,5) hash nc assms(4) add])
  then have co: "coherent cw1" and row: "\<exists>row. row_of (snd cw1) d = Some row \<and> same_channel row ch"
    by (auto simp: added_def)
  from row coherentD(3) [OF co] have d: "0 < d" by auto
  have pts: "allChannelPointCache (fst cw1) = (allChannelPointCache ?s)(?p \<mapsto> d)"
    using AddChannel_points [OF add hash] d h by simp
  have act: "channelPointCache (fst cw1) = channelPointCache ?s"
    using AddChannel_closed [OF add] h assms(10) by simp
  have only: "e = d" if "map_of (channelPointCache ?s) ?p = Some e" for e
  proof -
    from that assms(3) have e: "allChannelPointCache ?s ?p = Some e" by (simp add: points_agree_def)
    with assms(2) have "e \<noteq> 0" by (auto simp: channel_state_ok_def ran_def)
    with AddChannel_cached_id [OF add hash this] e h show ?thesis by simp
  qed
  have only_p: "q = ?p" if "map_of (channelPointCache ?s) q = Some d" for q
  proof (rule ccontr)
    assume "q \<noteq> ?p"
    with that assms(3) pts have "allChannelPointCache (fst cw1) q = Some d" by (simp add: points_agree_def)
    from coherentD(4) [OF co this] row h have "CreateChannelPoint h i = q" by (auto simp: same_channel_def)
    with \<open>q \<noteq> ?p\<close> show False by simp
  qed
  obtain t r1 where set: "SetChannelStatus (le_ChannelOrds env) d (ch_Status ch) (fst cw1) = Served t r1"
    and t: "fst (lw_Channels w1) = t"
    using drop_closed_channels [OF drop] wb by auto
  have kd: "keys_distinct (channelPointCache (fst cw1))" using act assms(2) by (simp add: channel_state_ok_def)
  have closed: "CooperativeClosed \<le> ch_Status ch" using h assms(10) by simp
  have "?p \<noteq> []" by (simp add: CreateChannelPoint_def)
  moreover have "\<forall>e. map_of (channelPointCache (fst cw1)) ?p = Some e \<longrightarrow> e = d"
    and "\<forall>q. map_of (channelPointCache (fst cw1)) q = Some d \<longrightarrow> q = ?p"
    unfolding act using only only_p by blast+
  ultimately have "map_of (channelPointCache t) ?p = None \<and> allChannelPointCache t = allChannelPointCache (fst cw1)
      \<and> allChannelStatusCache t d = Some (ch_Status ch)"
    using SetChannelStatus_drops_point [OF set _ closed assms(6) kd] d by blast
  then show ?thesis using t pts h d by (simp add: channel_reads)
qed

text \<open>
  An import of closed channels takes no channel out of the active lookups, not even those it
  imports: unlike a reported closure it only writes whole channels.
\<close>
lemma imported_closures_stay_active:
  assumes "storeImportedClosedChannels env nodeSettings cs w = Some (w1, r)"
    and "\<forall>c \<in> set cs. CooperativeClosed \<le> GetClosureStatus (lcs_CloseType c)"
  shows "GetActiveChannelIdByFundingTransaction ords (fst (lw_Channels w1)) h i =
      GetActiveChannelIdByFundingTransaction ords (fst (lw_Channels w)) h i \<and>
    GetActiveChannelIdByShortChannelId ords (fst (lw_Channels w1)) sc =
      GetActiveChannelIdByShortChannelId ords (fst (lw_Channels w)) sc"
proof -
  have "maintains same_active (storeImportedClosedChannels env nodeSettings cs)"
    unfolding storeImportedClosedChannels_def
    by (intro maintains_intros import_all_active import_closed_active [OF assms(2)])
  from maintainsD [OF this assms(1)] show ?thesis
    by (cases "sc = [] \<or> sc = ''0x0x0''")
      (auto simp: same_active_def channel_reads, auto simp: GetActiveChannelIdByShortChannelId_def)
qed

text \<open>
  After a closure is stored, the remote node stays in the node cache as it was when the table
  shows an open channel of it, and is no active node when there is none; when the count fails it
  is no active node either, whatever channels it still has.
\<close>
lemma closed_event_drops_node:
  assumes "storeChannelEvent env eventChannel nodeSettings
           \<lparr>cu_Type = CLOSED_CHANNEL, cu_Channel = ClosedUpdate c\<rparr> w = Some (w1, Ok evs)"
    and "lcs_RemotePubkey c \<noteq> []"
  shows "\<exists>remote. GetNodeIdByPublicKey (le_NodeOrds env) (lw_NodeCache w) (lcs_RemotePubkey c)
        (mns_Chain nodeSettings) (mns_Network nodeSettings) \<in> {Some 0, Some remote} \<and>
     (case GetOpenChannelsForNodeId (le_OpenChannels env) (snd (lw_Channels w1)) remote of
        Inr (x # xs) \<Rightarrow> lw_NodeCache w1 = lw_NodeCache w
      | _ \<Rightarrow> GetActiveNodeIdByPublicKey ords (lw_NodeCache w1) (lcs_RemotePubkey c)
               (mns_Chain nodeSettings) (mns_Network nodeSettings) = Some 0)"
proof -
  from assms(1) have "store_closed env eventChannel nodeSettings
      \<lparr>ev_EventTime = le_Now env, ev_NodeId = mns_NodeId nodeSettings, ce_Type = CLOSED_CHANNEL, ce_ChannelId = 0\<rparr> c w
      = Some (w1, Ok evs)"
    by (simp add: storeChannelEvent_def Let_def)
  then obtain remote wa ch d wb where
    node: "addNodeWhenNew env nodeSettings (lcs_RemotePubkey c) w = Some (wa, Ok remote)"
    and wb: "lw_NodeCache wb = lw_NodeCache wa"
    and drop: "drop_closed env nodeSettings (lcs_RemotePubkey c) remote (ch\<lparr>ch_ChannelID := d\<rparr>) wb = Some (w1, Ok ())"
    by (rule store_closed_steps)
  from node have nodes: "lw_NodeCache wa = lw_NodeCache w"
    and id: "GetNodeIdByPublicKey (le_NodeOrds env) (lw_NodeCache w) (lcs_RemotePubkey c)
        (mns_Chain nodeSettings) (mns_Network nodeSettings) \<in> {Some 0, Some remote}"
    by (auto simp: addNodeWhenNew_def split: option.splits if_splits)
  let ?count = "GetOpenChannelsForNodeId (le_OpenChannels env) (snd (lw_Channels wb)) remote"
  let ?chans = "case ?count of Inl e \<Rightarrow> [] | Inr cs \<Rightarrow> cs"
  from drop obtain wc u where written: "write_channels (SetChannelStatus (le_ChannelOrds env)
        (ch_ChannelID (ch\<lparr>ch_ChannelID := d\<rparr>)) (ch_Status (ch\<lparr>ch_ChannelID := d\<rparr>))) wb = Some (wc, Ok u)"
    and last_write: "(if length ?chans = 0
        then write_nodes (InactivateChannelNode (le_NodeOrds env) (lcs_RemotePubkey c)
               (mns_Chain nodeSettings) (mns_Network nodeSettings))
        else give (Ok ())) wc = Some (w1, Ok ())"
    unfolding drop_closed_def Let_def and_then_Ok by blast
  from written have table: "snd (lw_Channels wc) = snd (lw_Channels wb)" "lw_NodeCache wc = lw_NodeCache wb"
    by (auto simp: write_channels_def split: outcome.splits)
  have "snd (lw_Channels w1) = snd (lw_Channels wb)"
    using last_write table by (auto simp: write_nodes_def give_def split: if_splits outcome.splits)
  moreover have "?chans \<noteq> [] \<Longrightarrow> lw_NodeCache w1 = lw_NodeCache w"
    using last_write table wb nodes by (simp add: give_Some)
  moreover have "?chans = [] \<Longrightarrow> GetActiveNodeIdByPublicKey ords (lw_NodeCache w1) (lcs_RemotePubkey c)
      (mns_Chain nodeSettings) (mns_Network nodeSettings) = Some 0"
    using last_write assms(2) by (auto simp: write_nodes_def node_cache_reads dest!: InactivateChannelNode_effect
        split: outcome.splits)
  ultimately show ?thesis using id by (intro exI [of _ remote]) (auto split: sum.splits list.splits)
qed

section \<open>Witnesses\<close>

definition sample_env :: LndEnv where
  "sample_env = \<lparr>le_NodeOrds = idOrders, le_ChannelOrds = (id, id), le_RowOrd = id, le_Now = 9,
     le_ChannelFails = (\<lambda>_. None), le_NodeFails = no_node_failures, le_InsertEvent = (\<lambda>_. None),
     le_ExistingEvents = None, le_OpenChannels = Some (Error ''connection reset''),
     le_Marshal = (\<lambda>_. Ok ''{}''), le_HashText = (\<lambda>_. Ok ''ab''), le_Pending = Ok []\<rparr>"

definition sample_row :: Channel where
  "sample_row = zeroChannel\<lparr>ch_ChannelID := 7, ch_FundingTransactionHash := ''ab'', ch_FundingOutputIndex := 1,
     ch_Status := Open, ch_FirstNodeId := 3, ch_SecondNodeId := 4\<rparr>"

definition sample_world :: LndWorld where
  "sample_world = \<lparr>lw_NodeCache = emptyNodeState, lw_Nodes = \<lparr>nt_rows = [], nt_nextId = 4\<rparr>,
     lw_Channels = (exampleChannelState, \<lparr>tbl_rows = [(7, sample_row)], tbl_nextId = 8\<rparr>), lw_Events = []\<rparr>"

definition sample_settings :: ManagedNodeSettings where
  "sample_settings = \<lparr>mns_NodeId = 3, mns_Chain = Bitcoin, mns_Network = MainNet, mns_PublicKey = ''03'',
     mns_Name = None, mns_Status = Active\<rparr>"

definition sample_closure :: LndCloseSummary where
  "sample_closure = \<lparr>lcs_ChannelPoint = ''ab:1'', lcs_ChanId = 0, lcs_RemotePubkey = ''02'', lcs_Capacity = 1000,
     lcs_CloseType = COOPERATIVE_CLOSE, lcs_ClosingTxHash = ''cd'', lcs_OpenInitiator = INITIATOR_LOCAL,
     lcs_CloseInitiator = INITIATOR_REMOTE\<rparr>"

lemma sample_point: "CreateChannelPoint ''ab'' 1 = ''ab:1''" "ParseChannelPoint ''ab:1'' = (''ab'', 1)"
proof -
  show p: "CreateChannelPoint ''ab'' 1 = ''ab:1''"
    by (simp add: CreateChannelPoint_def format_int_def format_uint.simps)
  show "ParseChannelPoint ''ab:1'' = (''ab'', 1)"
    using ParseChannelPoint_CreateChannelPoint [of "''ab''" 1] unfolding p by simp
qed

lemma sample_node: "GetNodeIdByPublicKey ords emptyNodeState k c n = Some 0"
  by (simp add: node_cache_reads directory_def emptyNodeState_def flat_def ids_of_def)

lemma sample_adds:
  "addNodeWhenNew sample_env sample_settings ''02'' sample_world =
     Some (sample_world\<lparr>lw_Nodes := \<lparr>nt_rows = [\<lparr>nd_NodeId = 4, nd_PublicKey = ''02'', nd_Chain = Bitcoin,
        nd_Network = MainNet, nd_CreatedOn = 9\<rparr>], nt_nextId = 5\<rparr>\<rparr>, Ok 4)"
  by (simp add: addNodeWhenNew_def AddNodeWhenNew_def sample_env_def sample_settings_def sample_world_def sample_node
      no_node_failures_def zeroNode_def)

lemma sample_closes:
  "\<exists>w1. add_closed sample_env sample_settings sample_closure 4 w = Some (w1, Ok ch)"
  if "lw_Channels w = lw_Channels sample_world"
    and "ch = zeroChannel\<lparr>ch_ChannelID := 7, ch_FundingTransactionHash := ''ab'', ch_FundingOutputIndex := 1,
      ch_FirstNodeId := 3, ch_SecondNodeId := 4, ch_InitiatingNodeId := Some 3, ch_AcceptingNodeId := Some 4,
      ch_ClosingNodeId := Some 4, ch_Capacity := 1000, ch_Status := CooperativeClosed,
      ch_ClosingTransactionHash := Some ''cd''\<rparr>" for w ch
  using that
  by (simp add: add_closed_def addChannelOrUpdateStatus_def channel_to_add_def sample_closure_def sample_point
      sample_settings_def initiator_node_def and_then_def channel_step_def AddChannelOrUpdateChannelStatus_def
      find_channel_def channel_reads sample_world_def exampleChannelState_eq sample_env_def GetClosureStatus_def
      zeroChannel_def zeroChannelSettings_def update_cached_def updateChannelStatusAndLndIds_def
      updateChannelClosingTransactionHash_def Let_def cache_write_def SetChannel_of_def SetChannel_def
      processManagedChannel_def writeChannel_def parseAndConvertShortIds_def setChannelMessage_def give_def
      split: prod.split)

lemma write_totals:
  "\<exists>w1. write_channels (SetChannelStatus ords c st) w = Some (w1, Ok ())"
  "\<exists>w1. write_nodes (InactivateChannelNode nords k chain network) w = Some (w1, Ok ())"
  "\<exists>w1. write_nodes (SetChannelNode nords n k chain network st) w = Some (w1, Ok ())"
  by (simp_all add: write_channels_def write_nodes_def SetChannelStatus_def processManagedChannel_def
      writeChannelStatus_def InactivateChannelNode_def processManagedNode_def inactivateChannelNode_def
      SetChannelNode_def SetInactiveChannelNode_def writeChannelNode_def Let_def)

lemma drop_closed_total: "\<exists>w1. drop_closed env ns k n ch w = Some (w1, Ok ())"
proof -
  obtain wa where "write_channels (SetChannelStatus (le_ChannelOrds env) (ch_ChannelID ch) (ch_Status ch)) w = Some (wa, Ok ())"
    using write_totals(1) by blast
  then show ?thesis
    using write_totals(2) [of "le_NodeOrds env" k "mns_Chain ns" "mns_Network ns" wa]
    by (auto simp: drop_closed_def and_then_def give_def Let_def)
qed

lemma sample_run:
  "\<exists>w1 evs. storeChannelEvent sample_env True sample_settings
     \<lparr>cu_Type = CLOSED_CHANNEL, cu_Channel = ClosedUpdate sample_closure\<rparr> sample_world = Some (w1, Ok evs)"
proof -
  let ?wa = "sample_world\<lparr>lw_Nodes := \<lparr>nt_rows = [\<lparr>nd_NodeId = 4, nd_PublicKey = ''02'', nd_Chain = Bitcoin,
        nd_Network = MainNet, nd_CreatedOn = 9\<rparr>], nt_nextId = 5\<rparr>\<rparr>"
  obtain wb ch where add: "add_closed sample_env sample_settings sample_closure 4 ?wa = Some (wb, Ok ch)"
    using sample_closes [of ?wa] by auto
  obtain wc evs where ins: "marshal_and_insert sample_env True sample_settings CLOSED_CHANNEL
      (Some (ClosedUpdate sample_closure)) ev (ch_ChannelID ch) wb = Some (wc, Ok (evs ev))" for ev
    by (simp add: marshal_and_insert_def and_then_def give_def insertChannelEvent_def sample_env_def)
  obtain w1 where "drop_closed sample_env sample_settings ''02'' 4 ch wc = Some (w1, Ok ())"
    using drop_closed_total by blast
  with sample_adds add ins show ?thesis
    by (simp add: storeChannelEvent_def store_closed_def and_then_def give_def sample_closure_def)
qed

theorem channel_event_recorded_witness:
  "\<exists>w1 evs row. storeChannelEvent sample_env True sample_settings
     \<lparr>cu_Type = CLOSED_CHANNEL, cu_Channel = ClosedUpdate sample_closure\<rparr> sample_world = Some (w1, Ok evs)
     \<and> lw_Events w1 = [row] \<and> map ce_ChannelId evs = [cer_ChannelId row]"
proof -
  obtain w1 evs where run: "storeChannelEvent sample_env True sample_settings
     \<lparr>cu_Type = CLOSED_CHANNEL, cu_Channel = ClosedUpdate sample_closure\<rparr> sample_world = Some (w1, Ok evs)"
    using sample_run by blast
  from channel_event_recorded [OF this] have "\<exists>row. lw_Events w1 = [row] \<and> map ce_ChannelId evs = [cer_ChannelId row]"
    by (auto simp: recorded_def sample_world_def)
  then obtain row where row: "lw_Events w1 = [row]" "map ce_ChannelId evs = [cer_ChannelId row]" by (elim exE conjE)
  show ?thesis by (intro exI conjI) (rule run, rule row(1), rule row(2))
qed

lemma sample_coherent: "coherent (lw_Channels sample_world)"
  by (simp add: sample_world_def coherent_def exampleChannelState_eq sample_row_def zeroChannel_def
      keys_distinct_def sample_point)

lemma closed_event_leaves_active_witness:
  "\<exists>w1 evs. storeChannelEvent sample_env True sample_settings
     \<lparr>cu_Type = CLOSED_CHANNEL, cu_Channel = ClosedUpdate sample_closure\<rparr> sample_world = Some (w1, Ok evs)
     \<and> GetActiveChannelIdByFundingTransaction (id, id) (fst (lw_Channels sample_world)) ''ab'' 1 = Some 7
     \<and> GetActiveChannelIdByFundingTransaction (id, id) (fst (lw_Channels w1)) ''ab'' 1 = Some 0"
proof -
  obtain w1 evs where run: "storeChannelEvent sample_env True sample_settings
     \<lparr>cu_Type = CLOSED_CHANNEL, cu_Channel = ClosedUpdate sample_closure\<rparr> sample_world = Some (w1, Ok evs)"
    using sample_run by blast
  have "channel_state_ok (fst (lw_Channels sample_world))" by (simp add: sample_world_def exampleChannelState_ok)
  moreover have "points_agree (fst (lw_Channels sample_world))"
    by (simp add: sample_world_def points_agree_def exampleChannelState_eq)
  moreover have "\<forall>d row. row_of (snd (lw_Channels sample_world)) d = Some row \<longrightarrow> no_colon row"
    by (simp add: sample_world_def sample_row_def no_colon_def)
  moreover have "range_order (le_RowOrd sample_env)" "range_order (fst (le_ChannelOrds sample_env))"
    "le_ChannelFails sample_env SelectByFundingTransaction = None"
    by (simp_all add: sample_env_def range_order_def)
  moreover have "ParseChannelPoint (lcs_ChannelPoint sample_closure) = (''ab'', 1)"
    "CooperativeClosed \<le> GetClosureStatus (lcs_CloseType sample_closure)"
    by (simp_all add: sample_closure_def sample_point GetClosureStatus_def)
  ultimately show ?thesis
    using closed_event_leaves_active [OF sample_coherent _ _ _ _ _ _ _ _ _ run, of "''ab''" 1 "(id, id)"] run
    by (simp add: channel_reads sample_world_def exampleChannelState_eq sample_point)
qed

lemma imported_closures_stay_active_witness:
  "\<exists>w1. storeImportedClosedChannels sample_env sample_settings [sample_closure] sample_world = Some (w1, Ok ())
     \<and> GetActiveChannelIdByFundingTransaction (id, id) (fst (lw_Channels w1)) ''ab'' 1 = Some 7"
proof -
  let ?wa = "sample_world\<lparr>lw_Nodes := \<lparr>nt_rows = [\<lparr>nd_NodeId = 4, nd_PublicKey = ''02'', nd_Chain = Bitcoin,
        nd_Network = MainNet, nd_CreatedOn = 9\<rparr>], nt_nextId = 5\<rparr>\<rparr>"
  obtain wb ch where add: "add_closed sample_env sample_settings sample_closure 4 ?wa = Some (wb, Ok ch)"
    using sample_closes [of ?wa] by auto
  let ?ins = "insertChannelEvent sample_env False CLOSED_CHANNEL (mns_NodeId sample_settings) (ch_ChannelID ch) True ''{}''
      \<lparr>ev_EventTime = 0, ev_NodeId = 0, ce_Type = OPEN_CHANNEL, ce_ChannelId = 0\<rparr>"
  obtain wc where "?ins wb = Some (wc, Ok [])"
    by (simp add: insertChannelEvent_def sample_env_def)
  then have "\<exists>w1. import_event sample_env sample_settings CLOSED_CHANNEL (ClosedUpdate sample_closure) []
      (ch_ChannelID ch) 4 ''02'' (GetClosureStatus (lcs_CloseType sample_closure)) wb = Some (w1, Ok ())"
    using write_totals(3) [of "le_NodeOrds sample_env" 4 "''02''" "mns_Chain sample_settings"
        "mns_Network sample_settings" "GetClosureStatus (lcs_CloseType sample_closure)" wc]
    by (simp add: import_event_def and_then_def give_def) (simp add: sample_env_def)
  then obtain w1 where ev: "import_event sample_env sample_settings CLOSED_CHANNEL (ClosedUpdate sample_closure) []
      (ch_ChannelID ch) 4 ''02'' (GetClosureStatus (lcs_CloseType sample_closure)) wb = Some (w1, Ok ())" ..
  have key: "lcs_RemotePubkey sample_closure = ''02''" by (simp add: sample_closure_def)
  have closed: "import_closed sample_env sample_settings [] [sample_closure] sample_world = Some (w1, Ok ())"
    using add ev sample_adds by (simp add: and_then_def key)
  have "GetChannelIdByChannelPoint (id, id) exampleChannelState ''ab:1'' = Some 7"
    by (simp add: GetChannelIdByChannelPoint_def processManagedChannel_def sample_point createChannelPoint_def
        exampleChannelState_eq CreateChannelPoint_def format_int_def format_uint.simps)
  then have run: "storeImportedClosedChannels sample_env sample_settings [sample_closure] sample_world = Some (w1, Ok ())"
  proof -
    assume known: "GetChannelIdByChannelPoint (id, id) exampleChannelState ''ab:1'' = Some 7"
    have "known_ids (le_ChannelOrds sample_env) (fst (lw_Channels sample_world)) [''ab:1''] = Some [7]"
      using known by (simp add: sample_env_def sample_world_def)
    moreover have "getExistingChannelEvents sample_env CLOSED_CHANNEL [7] sample_world = Some (sample_world, Ok [])"
      by (simp add: getExistingChannelEvents_def sample_env_def sample_world_def)
    moreover have "map lcs_ChannelPoint [sample_closure] = [''ab:1'']" by (simp add: sample_closure_def)
    ultimately show ?thesis
      unfolding storeImportedClosedChannels_def import_all_def and_then_def using closed by simp
  qed
  have "\<forall>c \<in> set [sample_closure]. CooperativeClosed \<le> GetClosureStatus (lcs_CloseType c)"
    by (simp add: sample_closure_def GetClosureStatus_def)
  from imported_closures_stay_active [OF run this, of "(id, id)" "''ab''" 1] run show ?thesis
    by (auto simp: channel_reads sample_world_def exampleChannelState_eq sample_point)
qed

lemma closed_event_drops_node_witness:
  "\<exists>w1 evs. storeChannelEvent sample_env True sample_settings
     \<lparr>cu_Type = CLOSED_CHANNEL, cu_Channel = ClosedUpdate sample_closure\<rparr> sample_world = Some (w1, Ok evs)
     \<and> GetActiveNodeIdByPublicKey idOrders (lw_NodeCache w1) ''02'' Bitcoin MainNet = Some 0"
proof -
  obtain w1 evs where run: "storeChannelEvent sample_env True sample_settings
     \<lparr>cu_Type = CLOSED_CHANNEL, cu_Channel = ClosedUpdate sample_closure\<rparr> sample_world = Some (w1, Ok evs)"
    using sample_run by blast
  have key: "lcs_RemotePubkey sample_closure = ''02''" by (simp add: sample_closure_def)
  have "GetOpenChannelsForNodeId (le_OpenChannels sample_env) db n = Inl (Error ''connection reset'')" for db n
    by (simp add: GetOpenChannelsForNodeId_def sample_env_def)
  with closed_event_drops_node [OF run, of idOrders] run key show ?thesis by (auto simp: sample_settings_def)
qed

end
