(* ===== verification/LndGraph.thy ===== *)
theory LndGraph
  imports LndChannelEvents "HOL-Library.Multiset"
begin

text \<open>
  The subscription to LND's channel graph and the imports that go with it,
  \<open>src/pkg/lnd/channelgraph.go\<close> and \<open>channelinfo.go\<close>: node announcements and routing policies are
  stored as rows when they differ from the latest row of their node or channel side.  The text
  Postgres gives back for a JSON document is a parameter, as it is not the text that was stored.
  The theorems say that a repeated policy adds no row, when a repeated announcement does, that
  only active channels get policies, and that channel points survive the import.
\<close>

section \<open>Messages, rows and state\<close>

record LndRoutingPolicy =
  lrp_TimeLockDelta :: uint32
  lrp_MinHtlc :: int64
  lrp_FeeBaseMsat :: int64
  lrp_FeeRateMilliMsat :: int64
  lrp_Disabled :: bool
  lrp_MaxHtlcMsat :: uint64

record LndEdgeUpdate =
  leu_ChanId :: uint64
  leu_ChanPoint :: LndPoint
  leu_Capacity :: int64
  leu_RoutingPolicy :: "LndRoutingPolicy option"
  leu_AdvertisingNode :: string
  leu_ConnectingNode :: string

record LndNodeAddress =
  lna_Network :: string
  lna_Addr :: string

record LndFeature =
  lft_Name :: string
  lft_IsRequired :: bool
  lft_IsKnown :: bool

record LndNodeUpdate =
  lnu_IdentityKey :: string
  lnu_Alias :: string
  lnu_Color :: string
  lnu_NodeAddresses :: "LndNodeAddress list"
  lnu_Features :: "(uint32 \<times> LndFeature) list"

record LndTopologyUpdate =
  ltu_NodeUpdates :: "LndNodeUpdate list"
  ltu_ChannelUpdates :: "LndEdgeUpdate list"

text \<open>The rows of \<open>node_event\<close> and \<open>routing_policy\<close>, as \<open>src/internal/graph_events/\<close> reads them.\<close>

record NodeEventFromGraph =
  neg_EventTime :: time
  neg_EventNodeId :: int
  neg_Alias :: string
  neg_Color :: string
  neg_NodeAddresses :: string
  neg_Features :: string
  neg_NodeId :: int

record ChannelEventFromGraph =
  ceg_EventTime :: time
  ceg_ChannelId :: int
  ceg_AnnouncingNodeId :: int
  ceg_ConnectingNodeId :: int
  ceg_Disabled :: bool
  ceg_TimeLockDelta :: uint32
  ceg_MinHtlcMsat :: uint64
  ceg_MaxHtlcMsat :: uint64
  ceg_FeeBaseMsat :: int64
  ceg_FeeRateMilliMsat :: int64
  ceg_NodeId :: int

definition zeroNodeEvent :: "time \<Rightarrow> NodeEventFromGraph" where
  "zeroNodeEvent zero_time =
     \<lparr>neg_EventTime = zero_time, neg_EventNodeId = 0, neg_Alias = [], neg_Color = [],
      neg_NodeAddresses = [], neg_Features = [], neg_NodeId = 0\<rparr>"

definition zeroChannelEvent :: "time \<Rightarrow> ChannelEventFromGraph" where
  "zeroChannelEvent zero_time =
     \<lparr>ceg_EventTime = zero_time, ceg_ChannelId = 0, ceg_AnnouncingNodeId = 0, ceg_ConnectingNodeId = 0,
      ceg_Disabled = False, ceg_TimeLockDelta = 0, ceg_MinHtlcMsat = 0, ceg_MaxHtlcMsat = 0,
      ceg_FeeBaseMsat = 0, ceg_FeeRateMilliMsat = 0, ceg_NodeId = 0\<rparr>"

record GraphWorld =
  gw_Lnd :: LndWorld
  gw_Policies :: "ChannelEventFromGraph list"
  gw_NodeEvents :: "NodeEventFromGraph list"

record GraphEnv =
  gv_Lnd :: LndEnv
  gv_ZeroTime :: time
  gv_PolicyOrd :: "ChannelEventFromGraph list \<Rightarrow> ChannelEventFromGraph list"
  gv_NodeEventOrd :: "NodeEventFromGraph list \<Rightarrow> NodeEventFromGraph list"
  gv_SelectPolicy :: "go_error option"
  gv_InsertPolicy :: "go_error option"
  gv_SelectNodeEvent :: "go_error option"
  gv_InsertNodeEvent :: "go_error option"
  gv_MarshalAddresses :: "LndNodeAddress list \<Rightarrow> string result"
  gv_MarshalFeatures :: "(uint32 \<times> LndFeature) list \<Rightarrow> string result"
  gv_Jsonb :: "string \<Rightarrow> string"

datatype GraphEvent = NodeGraph NodeGraphEvent | ChannelGraph ChannelGraphEvent

definition on_lnd :: "'a step \<Rightarrow> (GraphWorld, 'a) process" where
  "on_lnd m w = map_option (\<lambda>(l, r). (w\<lparr>gw_Lnd := l\<rparr>, r)) (m (gw_Lnd w))"

text \<open>\<open>ORDER BY time DESC LIMIT 1\<close>: the first row with the largest time, in the order of the rows.\<close>

definition latest :: "('a \<Rightarrow> time) \<Rightarrow> 'a list \<Rightarrow> 'a option" where
  "latest at rows =
     (case rows of [] \<Rightarrow> None | r # rs \<Rightarrow> Some (foldl (\<lambda>a b. if at a < at b then b else a) r rs))"

section \<open>Routing policies\<close>

definition no_rows :: go_error where
  "no_rows = Error ''sql: no rows in result set''"

text \<open>The id of a node's public key, 0 for an empty one.\<close>

definition policy_node :: "LndEnv \<Rightarrow> ManagedNodeSettings \<Rightarrow> string \<Rightarrow> int step" where
  "policy_node env nodeSettings key =
     (if key \<noteq> [] then addNodeWhenNew env nodeSettings key else give (Ok 0))"

text \<open>The two ends of a policy, announcing and connecting: a missing one is the other end of the channel.\<close>

definition policy_ends :: "ManagedChannelSettings \<Rightarrow> int \<Rightarrow> int \<Rightarrow> (int \<times> int) result" where
  "policy_ends settings announcing connecting =
     (if connecting = 0 \<and> announcing = 0
      then Fails ''Cannot obtain announcingNodeId nor connectingNodeId''
      else
        (let c = (if connecting = 0
                  then if announcing = mcs_FirstNodeId settings then mcs_SecondNodeId settings
                       else mcs_FirstNodeId settings
                  else connecting);
             a = (if announcing = 0
                  then if c = mcs_FirstNodeId settings then mcs_SecondNodeId settings
                       else mcs_FirstNodeId settings
                  else announcing)
         in Ok (a, c)))"

text \<open>A stored minimum that is negative does not fit the field it is read into.\<close>

definition previous_policy ::
    "GraphEnv \<Rightarrow> int \<Rightarrow> int \<Rightarrow> int \<Rightarrow> ChannelEventFromGraph list \<Rightarrow> ChannelEventFromGraph result" where
  "previous_policy env channelId announcing connecting rows =
     (case gv_SelectPolicy env of
        Some e \<Rightarrow> if e = no_rows then Ok (zeroChannelEvent (gv_ZeroTime env)) else Inl e
      | None \<Rightarrow>
          (case latest ceg_EventTime (gv_PolicyOrd env (filter (\<lambda>r. ceg_ChannelId r = channelId
                  \<and> ceg_AnnouncingNodeId r = announcing \<and> ceg_ConnectingNodeId r = connecting) rows)) of
             None \<Rightarrow> Ok (zeroChannelEvent (gv_ZeroTime env))
           | Some r \<Rightarrow> if sint (ceg_MinHtlcMsat r) < 0 then Fails ''converting driver.Value type to a uint64''
                      else Ok r))"

definition policy_differs :: "LndRoutingPolicy \<Rightarrow> ChannelEventFromGraph \<Rightarrow> bool" where
  "policy_differs p r \<longleftrightarrow>
     lrp_Disabled p \<noteq> ceg_Disabled r \<or> lrp_FeeBaseMsat p \<noteq> ceg_FeeBaseMsat r \<or>
     lrp_FeeRateMilliMsat p \<noteq> ceg_FeeRateMilliMsat r \<or> lrp_MaxHtlcMsat p \<noteq> ceg_MaxHtlcMsat r \<or>
     lrp_MinHtlc p \<noteq> ceg_MinHtlcMsat r \<or> lrp_TimeLockDelta p \<noteq> ceg_TimeLockDelta r"

definition policy_row :: "time \<Rightarrow> int \<Rightarrow> int \<Rightarrow> int \<Rightarrow> int \<Rightarrow> LndRoutingPolicy \<Rightarrow> ChannelEventFromGraph" where
  "policy_row eventTime nodeId channelId announcing connecting p =
     \<lparr>ceg_EventTime = eventTime, ceg_ChannelId = channelId, ceg_AnnouncingNodeId = announcing,
      ceg_ConnectingNodeId = connecting, ceg_Disabled = lrp_Disabled p,
      ceg_TimeLockDelta = lrp_TimeLockDelta p, ceg_MinHtlcMsat = lrp_MinHtlc p,
      ceg_MaxHtlcMsat = lrp_MaxHtlcMsat p, ceg_FeeBaseMsat = lrp_FeeBaseMsat p,
      ceg_FeeRateMilliMsat = lrp_FeeRateMilliMsat p, ceg_NodeId = nodeId\<rparr>"

definition policy_data :: "ChannelEventFromGraph \<Rightarrow> ChannelGraphEventData" where
  "policy_data r =
     \<lparr>cged_Disabled = ceg_Disabled r, cged_TimeLockDelta = ceg_TimeLockDelta r,
      cged_MinHtlcMsat = ceg_MinHtlcMsat r, cged_MaxHtlcMsat = ceg_MaxHtlcMsat r,
      cged_FeeBaseMsat = ceg_FeeBaseMsat r, cged_FeeRateMilliMsat = ceg_FeeRateMilliMsat r\<rparr>"

definition policy_event ::
    "GraphEnv \<Rightarrow> int \<Rightarrow> ChannelEventFromGraph \<Rightarrow> ChannelEventFromGraph \<Rightarrow> ChannelGraphEvent" where
  "policy_event env nodeId row previous =
     \<lparr>ev_EventTime = ceg_EventTime row, ev_NodeId = nodeId, ged_EventNodeId = None,
      ged_AnnouncingNodeId = Some (ceg_AnnouncingNodeId row), ged_ConnectingNodeId = Some (ceg_ConnectingNodeId row),
      ged_ChannelId = Some (ceg_ChannelId row), cge_Data = policy_data row,
      cge_PreviousEventTime = (if ceg_ChannelId previous \<noteq> 0 then ceg_EventTime previous else gv_ZeroTime env),
      cge_PreviousEventData = policy_data (if ceg_ChannelId previous \<noteq> 0 then previous
                                           else zeroChannelEvent (gv_ZeroTime env))\<rparr>"

definition store_policy ::
    "GraphEnv \<Rightarrow> time \<Rightarrow> int \<Rightarrow> ManagedNodeSettings \<Rightarrow> LndRoutingPolicy \<Rightarrow> bool \<Rightarrow> int \<times> int \<Rightarrow>
     (GraphWorld, GraphEvent list) process" where
  "store_policy env eventTime channelId nodeSettings p eventChannel ends w =
     (let (announcing, connecting) = ends in
      case previous_policy env channelId announcing connecting (gw_Policies w) of
        Inl e \<Rightarrow> Some (w, Inl e)
      | Inr previous \<Rightarrow>
          if policy_differs p previous
          then (case gv_InsertPolicy env of
                  Some e \<Rightarrow> Some (w, Inl e)
                | None \<Rightarrow>
                    (let row = policy_row eventTime (mns_NodeId nodeSettings) channelId announcing connecting p
                     in Some (w\<lparr>gw_Policies := gw_Policies w @ [row]\<rparr>,
                          Ok (if eventChannel
                              then [ChannelGraph (policy_event env (mns_NodeId nodeSettings) row previous)]
                              else []))))
          else Some (w, Ok []))"

definition insertRoutingPolicy ::
    "GraphEnv \<Rightarrow> time \<Rightarrow> int \<Rightarrow> ManagedNodeSettings \<Rightarrow> LndEdgeUpdate \<Rightarrow> bool \<Rightarrow> (GraphWorld, GraphEvent list) process" where
  "insertRoutingPolicy env eventTime channelId nodeSettings cu eventChannel w =
     (case GetChannelSettingByChannelId (le_ChannelOrds (gv_Lnd env)) (fst (lw_Channels (gw_Lnd w))) channelId of
        None \<Rightarrow> None
      | Some channelSettings \<Rightarrow>
          (case leu_RoutingPolicy cu of
             None \<Rightarrow> Some (w, Ok [])
           | Some p \<Rightarrow>
               and_then (on_lnd (policy_node (gv_Lnd env) nodeSettings (leu_AdvertisingNode cu)))
               (\<lambda>announcing. and_then (on_lnd (policy_node (gv_Lnd env) nodeSettings (leu_ConnectingNode cu)))
               (\<lambda>connecting. and_then (give (policy_ends channelSettings announcing connecting))
               (store_policy env eventTime channelId nodeSettings p eventChannel))) w))"

section \<open>Node announcements\<close>

definition previous_node_event :: "GraphEnv \<Rightarrow> int \<Rightarrow> NodeEventFromGraph list \<Rightarrow> NodeEventFromGraph result" where
  "previous_node_event env eventNodeId rows =
     (case gv_SelectNodeEvent env of
        Some e \<Rightarrow> if e = no_rows then Ok (zeroNodeEvent (gv_ZeroTime env)) else Inl e
      | None \<Rightarrow>
          (case latest neg_EventTime (gv_NodeEventOrd env (filter (\<lambda>r. neg_EventNodeId r = eventNodeId) rows)) of
             None \<Rightarrow> Ok (zeroNodeEvent (gv_ZeroTime env))
           | Some r \<Rightarrow> Ok r))"

definition node_data :: "NodeEventFromGraph \<Rightarrow> NodeGraphEventData" where
  "node_data r =
     \<lparr>nged_Alias = neg_Alias r, nged_Color = neg_Color r, nged_Addresses = neg_NodeAddresses r,
      nged_Features = neg_Features r\<rparr>"

definition node_event :: "GraphEnv \<Rightarrow> int \<Rightarrow> NodeEventFromGraph \<Rightarrow> NodeEventFromGraph \<Rightarrow> NodeGraphEvent" where
  "node_event env nodeId sent previous =
     \<lparr>ev_EventTime = neg_EventTime sent, ev_NodeId = nodeId, ged_EventNodeId = Some (neg_EventNodeId sent),
      ged_AnnouncingNodeId = None, ged_ConnectingNodeId = None, ged_ChannelId = None,
      nge_Data = node_data sent,
      nge_PreviousEventTime = (if neg_NodeId previous \<noteq> 0 then neg_EventTime previous else gv_ZeroTime env),
      nge_PreviousEventData = node_data (if neg_NodeId previous \<noteq> 0 then previous
                                         else zeroNodeEvent (gv_ZeroTime env))\<rparr>"

text \<open>The event has the text that was encoded, the row the text the database gives back.\<close>

definition insertNodeEvent ::
    "GraphEnv \<Rightarrow> time \<Rightarrow> int \<Rightarrow> string \<Rightarrow> string \<Rightarrow> LndNodeAddress list \<Rightarrow> (uint32 \<times> LndFeature) list \<Rightarrow> int \<Rightarrow> bool \<Rightarrow>
     (GraphWorld, GraphEvent list) process" where
  "insertNodeEvent env eventTime eventNodeId alias color nodeAddress features nodeId eventChannel w =
     (case gv_MarshalAddresses env nodeAddress of
        Inl e \<Rightarrow> Some (w, Inl e)
      | Inr najb \<Rightarrow>
     (case gv_MarshalFeatures env features of
        Inl e \<Rightarrow> Some (w, Inl e)
      | Inr fjb \<Rightarrow>
     (case previous_node_event env eventNodeId (gw_NodeEvents w) of
        Inl e \<Rightarrow> Some (w, Inl e)
      | Inr previous \<Rightarrow>
          if alias \<noteq> neg_Alias previous \<or> color \<noteq> neg_Color previous \<or>
             najb \<noteq> neg_NodeAddresses previous \<or> fjb \<noteq> neg_Features previous
          then (case gv_InsertNodeEvent env of
                  Some e \<Rightarrow> Some (w, Inl e)
                | None \<Rightarrow>
                    (let sent = \<lparr>neg_EventTime = eventTime, neg_EventNodeId = eventNodeId, neg_Alias = alias,
                                 neg_Color = color, neg_NodeAddresses = najb, neg_Features = fjb,
                                 neg_NodeId = nodeId\<rparr>;
                         row = sent\<lparr>neg_NodeAddresses := gv_Jsonb env najb, neg_Features := gv_Jsonb env fjb\<rparr>
                     in Some (w\<lparr>gw_NodeEvents := gw_NodeEvents w @ [row]\<rparr>,
                          Ok (if eventChannel then [NodeGraph (node_event env nodeId sent previous)] else []))))
          else Some (w, Ok []))))"

section \<open>The subscription\<close>

text \<open>
  The updates of a message one after the other: the first error ends them, what was sent before
  stays sent.  None: a cache gives no answer or the code panics.
\<close>

fun each_update ::
    "('u \<Rightarrow> (GraphWorld, GraphEvent list) process) \<Rightarrow> 'u list \<Rightarrow> GraphWorld \<Rightarrow>
     (GraphWorld \<times> GraphEvent list \<times> go_error option) option" where
  "each_update f [] w = Some (w, [], None)"
| "each_update f (u # us) w =
     (case f u w of
        None \<Rightarrow> None
      | Some (w1, Inl e) \<Rightarrow> Some (w1, [], Some e)
      | Some (w1, Inr evs) \<Rightarrow>
          map_option (\<lambda>(w2, rest, e). (w2, evs @ rest, e)) (each_update f us w1))"

definition node_update ::
    "GraphEnv \<Rightarrow> ManagedNodeSettings \<Rightarrow> bool \<Rightarrow> LndNodeUpdate \<Rightarrow> (GraphWorld, GraphEvent list) process" where
  "node_update env nodeSettings eventChannel nu w =
     (case GetActiveNodeIdByPublicKey (le_NodeOrds (gv_Lnd env)) (lw_NodeCache (gw_Lnd w)) (lnu_IdentityKey nu)
             (mns_Chain nodeSettings) (mns_Network nodeSettings) of
        None \<Rightarrow> None
      | Some eventNodeId \<Rightarrow>
          if eventNodeId \<noteq> 0
          then insertNodeEvent env (le_Now (gv_Lnd env)) eventNodeId (lnu_Alias nu) (lnu_Color nu)
                 (lnu_NodeAddresses nu) (lnu_Features nu) (mns_NodeId nodeSettings) eventChannel w
          else Some (w, Ok []))"

definition processNodeUpdates ::
    "GraphEnv \<Rightarrow> LndNodeUpdate list \<Rightarrow> ManagedNodeSettings \<Rightarrow> bool \<Rightarrow> GraphWorld \<Rightarrow>
     (GraphWorld \<times> GraphEvent list \<times> go_error option) option" where
  "processNodeUpdates env nus nodeSettings eventChannel = each_update (node_update env nodeSettings eventChannel) nus"

definition channel_update ::
    "GraphEnv \<Rightarrow> ManagedNodeSettings \<Rightarrow> bool \<Rightarrow> LndEdgeUpdate \<Rightarrow> (GraphWorld, GraphEvent list) process" where
  "channel_update env nodeSettings eventChannel cu w =
     (case chanPointFromByte (gv_Lnd env) (lp_TxidBytes (leu_ChanPoint cu)) (lp_OutputIndex (leu_ChanPoint cu)) of
        Inl e \<Rightarrow> Some (w, Inl e)
      | Inr channelPoint \<Rightarrow>
          (let (hash, index) = ParseChannelPoint channelPoint in
           case GetActiveChannelIdByFundingTransaction (le_ChannelOrds (gv_Lnd env)) (fst (lw_Channels (gw_Lnd w)))
                  hash index of
             None \<Rightarrow> None
           | Some channelId \<Rightarrow>
               if channelId \<noteq> 0
               then insertRoutingPolicy env (le_Now (gv_Lnd env)) channelId nodeSettings cu eventChannel w
               else Some (w, Ok [])))"

definition processChannelUpdates ::
    "GraphEnv \<Rightarrow> LndEdgeUpdate list \<Rightarrow> ManagedNodeSettings \<Rightarrow> bool \<Rightarrow> GraphWorld \<Rightarrow>
     (GraphWorld \<times> GraphEvent list \<times> go_error option) option" where
  "processChannelUpdates env cus nodeSettings eventChannel = each_update (channel_update env nodeSettings eventChannel) cus"

text \<open>Errors are only logged.\<close>

definition handle_graph_update ::
    "bool \<Rightarrow> ManagedNodeSettings \<Rightarrow> GraphEnv \<times> LndTopologyUpdate \<Rightarrow> GraphWorld \<Rightarrow> (GraphEvent list \<times> GraphWorld) option" where
  "handle_graph_update eventChannel nodeSettings msg w =
     (let (env, gpu) = msg in
      case processNodeUpdates env (ltu_NodeUpdates gpu) nodeSettings eventChannel w of
        None \<Rightarrow> None
      | Some (w1, evs1, e1) \<Rightarrow>
          map_option (\<lambda>(w2, evs2, e2). (evs1 @ evs2, w2))
            (processChannelUpdates env (ltu_ChannelUpdates gpu) nodeSettings eventChannel w1))"

text \<open>With an import channel the loop asks for two imports after it got its stream.\<close>

definition SubscribeAndStoreChannelGraph ::
    "bool \<Rightarrow> bool \<Rightarrow> ManagedNodeSettings \<Rightarrow> (GraphEnv \<times> LndTopologyUpdate) turn list \<Rightarrow> GraphWorld \<Rightarrow>
     GraphEvent emitted list \<times> subscription \<times> GraphWorld" where
  "SubscribeAndStoreChannelGraph importRequestChannel eventChannel nodeSettings turns w =
     stream_run eventChannel (if importRequestChannel then 2 else 0)
       (handle_graph_update eventChannel nodeSettings) turns (subscribing, w)"

section \<open>Imports\<close>

text \<open>
  What LND answers: a failed call either carries a gRPC status or is another error, for which the
  code goes on with a nil answer.
\<close>

datatype 'a answered = Answered 'a | StatusNotFound string | OtherStatus string | PlainError string

record LndNodeInfo =
  lni_Alias :: string
  lni_Color :: string
  lni_Addresses :: "LndNodeAddress list"
  lni_Features :: "(uint32 \<times> LndFeature) list"

fun import_nodes ::
    "GraphEnv \<Rightarrow> ManagedNodeSettings \<Rightarrow> (string \<Rightarrow> LndNodeInfo option answered) \<Rightarrow> string list \<Rightarrow> (GraphWorld, unit) process" where
  "import_nodes env nodeSettings info [] w = Some (w, Ok ())"
| "import_nodes env nodeSettings info (publicKey # keys) w =
     (case info publicKey of
        StatusNotFound t \<Rightarrow> import_nodes env nodeSettings info keys w
      | OtherStatus t \<Rightarrow> Some (w, Fails t)
      | PlainError t \<Rightarrow> None
      | Answered None \<Rightarrow> None
      | Answered (Some ni) \<Rightarrow>
          (case GetNodeIdByPublicKey (le_NodeOrds (gv_Lnd env)) (lw_NodeCache (gw_Lnd w)) publicKey
                  (mns_Chain nodeSettings) (mns_Network nodeSettings) of
             None \<Rightarrow> None
           | Some eventNodeId \<Rightarrow>
               and_then (insertNodeEvent env (le_Now (gv_Lnd env)) eventNodeId (lni_Alias ni) (lni_Color ni)
                   (lni_Addresses ni) (lni_Features ni) (mns_NodeId nodeSettings) False)
                 (\<lambda>_. import_nodes env nodeSettings info keys) w))"

definition ImportNodeInfo ::
    "GraphEnv \<Rightarrow> (string \<Rightarrow> LndNodeInfo option answered) \<Rightarrow> ManagedNodeSettings \<Rightarrow> (GraphWorld, unit) process" where
  "ImportNodeInfo env info nodeSettings w =
     (case GetAllChannelPublicKeys (le_NodeOrds (gv_Lnd env)) (lw_NodeCache (gw_Lnd w))
             (mns_Chain nodeSettings) (mns_Network nodeSettings) of
        None \<Rightarrow> None
      | Some publicKeys \<Rightarrow> import_nodes env nodeSettings info publicKeys w)"

subsection \<open>Channel points as text\<close>

text \<open>\<open>fmt.Sscanf\<close> with the format \<open>"%64s:%d"\<close>: white space is skipped before both values, a newline is an error.\<close>

definition is_space :: "char \<Rightarrow> bool" where
  "is_space c \<longleftrightarrow> (9 \<le> (of_char c :: nat) \<and> (of_char c :: nat) \<le> 13) \<or> of_char c = (32 :: nat)"

fun skip_space :: "string \<Rightarrow> string option" where
  "skip_space [] = Some []"
| "skip_space (c # cs) =
     (if of_char c = (10 :: nat) then None else if is_space c then skip_space cs else Some (c # cs))"

definition scan_uint32 :: "string \<Rightarrow> uint32 result" where
  "scan_uint32 s =
     (case skip_space s of
        None \<Rightarrow> Fails ''unexpected newline''
      | Some r \<Rightarrow>
          if r = [] then Fails ''unexpected EOF''
          else if takeWhile is_digit r = [] then Fails ''expected integer''
          else (case parse_uint 64 (takeWhile is_digit r) of
                  None \<Rightarrow> Fails ''value out of range''
                | Some n \<Rightarrow> if n < 2 ^ 32 then Ok (of_nat n) else Fails ''unsigned integer overflow''))"

definition scan_point :: "string \<Rightarrow> (string \<times> uint32) result" where
  "scan_point scp =
     (case skip_space scp of
        None \<Rightarrow> Fails ''unexpected newline''
      | Some s \<Rightarrow>
          (let txId = takeWhile (\<lambda>c. \<not> is_space c) (take 64 s)
           in if txId = [] then Fails ''unexpected EOF''
              else case drop (length txId) s of
                     [] \<Rightarrow> Fails ''unexpected EOF''
                   | c # r \<Rightarrow>
                       if c = CHR '':'' then (case scan_uint32 r of Inl e \<Rightarrow> Inl e | Inr n \<Rightarrow> Ok (txId, n))
                       else Fails ''input does not match format''))"

definition createChanPoint :: "(string \<Rightarrow> bytes result) \<Rightarrow> string \<Rightarrow> LndPoint result" where
  "createChanPoint hashFromStr scp =
     (case scan_point scp of
        Inl e \<Rightarrow> Inl e
      | Inr (txId, outIndex) \<Rightarrow>
          (case hashFromStr txId of
             Inl e \<Rightarrow> Inl e
           | Inr h \<Rightarrow> Ok \<lparr>lp_TxidBytes = h, lp_OutputIndex = outIndex\<rparr>))"

record LndChannelEdge =
  lce_ChannelId :: uint64
  lce_ChanPoint :: string
  lce_Capacity :: int64
  lce_Node1Pub :: string
  lce_Node2Pub :: string
  lce_Node1Policy :: "LndRoutingPolicy option"
  lce_Node2Policy :: "LndRoutingPolicy option"

definition constructChannelEdgeUpdates ::
    "(string \<Rightarrow> bytes result) \<Rightarrow> LndChannelEdge \<Rightarrow> LndEdgeUpdate list result" where
  "constructChannelEdgeUpdates hashFromStr chanEdge =
     (case createChanPoint hashFromStr (lce_ChanPoint chanEdge) of
        Inl e \<Rightarrow> Inl e
      | Inr cp1 \<Rightarrow>
          (case createChanPoint hashFromStr (lce_ChanPoint chanEdge) of
             Inl e \<Rightarrow> Inl e
           | Inr cp2 \<Rightarrow> Ok
               [\<lparr>leu_ChanId = lce_ChannelId chanEdge, leu_ChanPoint = cp1, leu_Capacity = lce_Capacity chanEdge,
                 leu_RoutingPolicy = lce_Node1Policy chanEdge, leu_AdvertisingNode = lce_Node1Pub chanEdge,
                 leu_ConnectingNode = []\<rparr>,
                \<lparr>leu_ChanId = lce_ChannelId chanEdge, leu_ChanPoint = cp2, leu_Capacity = lce_Capacity chanEdge,
                 leu_RoutingPolicy = lce_Node2Policy chanEdge, leu_AdvertisingNode = lce_Node2Pub chanEdge,
                 leu_ConnectingNode = []\<rparr>]))"

subsection \<open>Routing policies of all channels\<close>

definition getOpenChanIds :: "LndListedChannel list result \<Rightarrow> uint64 list result" where
  "getOpenChanIds listChannels =
     (case listChannels of Inl e \<Rightarrow> Inl e | Inr cs \<Rightarrow> Ok (map lo_ChanId cs))"

text \<open>\<open>strings.ToLower\<close> on ASCII text.\<close>

definition to_lower :: "string \<Rightarrow> string" where
  "to_lower = map (\<lambda>c. if 65 \<le> (of_char c :: nat) \<and> (of_char c :: nat) \<le> 90 then char_of (of_char c + 32 :: nat) else c)"

text \<open>A status other than open is set to open; an error of that update is only logged.\<close>

definition reopen :: "GraphEnv \<Rightarrow> int \<Rightarrow> (GraphWorld, unit) process" where
  "reopen env channelId w =
     (let l = gw_Lnd w in
      case GetChannelStatusByChannelId (le_ChannelOrds (gv_Lnd env)) (fst (lw_Channels l)) channelId of
        None \<Rightarrow> None
      | Some channelStatus \<Rightarrow>
          if channelStatus \<noteq> Open
          then (case UpdateChannelStatus (le_ChannelFails (gv_Lnd env)) (le_ChannelOrds (gv_Lnd env))
                       (le_Now (gv_Lnd env)) channelId Open (lw_Channels l) of
                  Served cw r \<Rightarrow> Some (w\<lparr>gw_Lnd := l\<lparr>lw_Channels := cw\<rparr>\<rparr>, Ok ())
                | _ \<Rightarrow> None)
          else Some (w, Ok ()))"

fun import_edge_updates ::
    "GraphEnv \<Rightarrow> ManagedNodeSettings \<Rightarrow> LndEdgeUpdate list \<Rightarrow> (GraphWorld, unit) process" where
  "import_edge_updates env nodeSettings [] w = Some (w, Ok ())"
| "import_edge_updates env nodeSettings (cu # cus) w =
     (case chanPointFromByte (gv_Lnd env) (lp_TxidBytes (leu_ChanPoint cu)) (lp_OutputIndex (leu_ChanPoint cu)) of
        Inl e \<Rightarrow> Some (w, Inl e)
      | Inr channelPoint \<Rightarrow>
          (let (hash, index) = ParseChannelPoint channelPoint in
           case GetChannelIdByFundingTransaction (le_ChannelOrds (gv_Lnd env)) (fst (lw_Channels (gw_Lnd w)))
                  hash index of
             None \<Rightarrow> None
           | Some channelId \<Rightarrow>
               if channelId = 0
               then Some (w, Fails ''Importing routing policy for a channel that doesn't exist in our database?'')
               else and_then (reopen env channelId)
                    (\<lambda>_. and_then (insertRoutingPolicy env (le_Now (gv_Lnd env)) channelId nodeSettings cu False)
                    (\<lambda>_. import_edge_updates env nodeSettings cus)) w))"

fun import_edges ::
    "GraphEnv \<Rightarrow> (string \<Rightarrow> bytes result) \<Rightarrow> (uint64 \<Rightarrow> LndChannelEdge option answered) \<Rightarrow> ManagedNodeSettings \<Rightarrow> uint64 list \<Rightarrow>
     (GraphWorld, unit) process" where
  "import_edges env hashFromStr info nodeSettings [] w = Some (w, Ok ())"
| "import_edges env hashFromStr info nodeSettings (cid # cids) w =
     (case info cid of
        Answered None \<Rightarrow> None
      | Answered (Some ce) \<Rightarrow>
          and_then (give (constructChannelEdgeUpdates hashFromStr ce))
          (\<lambda>ceu. and_then (import_edge_updates env nodeSettings ceu)
          (\<lambda>_. import_edges env hashFromStr info nodeSettings cids)) w
      | StatusNotFound t \<Rightarrow> import_edges env hashFromStr info nodeSettings cids w
      | OtherStatus t \<Rightarrow>
          if contains (to_lower t) ''edge not found'' then import_edges env hashFromStr info nodeSettings cids w
          else Some (w, Fails t)
      | PlainError t \<Rightarrow>
          if contains (to_lower t) ''edge not found'' then import_edges env hashFromStr info nodeSettings cids w
          else None)"

definition ImportRoutingPolicies ::
    "GraphEnv \<Rightarrow> (string \<Rightarrow> bytes result) \<Rightarrow> LndListedChannel list result \<Rightarrow>
     (uint64 \<Rightarrow> LndChannelEdge option answered) \<Rightarrow> ManagedNodeSettings \<Rightarrow> (GraphWorld, unit) process" where
  "ImportRoutingPolicies env hashFromStr listChannels info nodeSettings =
     and_then (give (getOpenChanIds listChannels)) (import_edges env hashFromStr info nodeSettings)"

section \<open>The latest row\<close>

definition any_order :: "('a list \<Rightarrow> 'a list) \<Rightarrow> bool" where
  "any_order ord \<longleftrightarrow> (\<forall>xs. mset (ord xs) = mset xs)"

lemma any_order_set: "any_order ord \<Longrightarrow> set (ord xs) = set xs"
  by (metis any_order_def set_mset_mset)

lemma any_order_id [simp]: "any_order id" "any_order rev"
  by (simp_all add: any_order_def)

lemma latest_max:
  assumes "latest at rows = Some x"
  shows "x \<in> set rows \<and> (\<forall>y \<in> set rows. at y \<le> at x)"
proof -
  have "foldl (\<lambda>a b. if at a < at b then b else a) r rs \<in> set (r # rs)
      \<and> (\<forall>y \<in> set (r # rs). at y \<le> at (foldl (\<lambda>a b. if at a < at b then b else a) r rs))" for r rs
  proof (induction rs arbitrary: r)
    case (Cons b rs)
    show ?case using Cons [of r] Cons [of b] by (cases "at r < at b") (auto intro: order_trans less_imp_le)
  qed simp
  with assms show ?thesis by (fastforce simp: latest_def split: list.splits)
qed

lemma latest_newest:
  assumes "any_order ord" and "r \<in> set rows" and "\<forall>x \<in> set rows. x \<noteq> r \<longrightarrow> at x < at r"
  shows "latest at (ord rows) = Some r"
proof -
  have "ord rows \<noteq> []" using any_order_set [OF assms(1), of rows] assms(2) by auto
  then obtain x where x: "latest at (ord rows) = Some x" by (cases "ord rows") (auto simp: latest_def)
  from latest_max [OF this] any_order_set [OF assms(1)] assms(2,3) have "x = r" by force
  with x show ?thesis by simp
qed

section \<open>Properties\<close>

lemma policy_node_cached:
  assumes "k \<noteq> [] \<longrightarrow> GetNodeIdByPublicKey (le_NodeOrds env) (lw_NodeCache l) k (mns_Chain ns) (mns_Network ns) \<noteq> Some 0"
    and "policy_node env ns k l = Some (l1, r)"
  shows "l1 = l \<and> (\<exists>i. r = Ok i)"
  using assms by (auto simp: policy_node_def addNodeWhenNew_def give_def split: if_splits option.splits)

lemma on_lnd_same: "m (gw_Lnd u) = Some (gw_Lnd u, r) \<Longrightarrow> on_lnd m u = Some (u, r)"
  by (cases u) (simp add: on_lnd_def)

lemma store_policy_lnd: "store_policy env t c ns p ec ends w = Some (w1, r) \<Longrightarrow> gw_Lnd w1 = gw_Lnd w"
  by (auto simp: store_policy_def Let_def split: prod.splits sum.splits if_splits option.splits)

lemma stored_policy_repeated:
  assumes "store_policy env t1 c ns p ec ends w = Some (w1, Ok evs1)"
    and "store_policy env t2 c ns p ec ends w1 = Some (w2, Ok evs2)"
    and "any_order (gv_PolicyOrd env)" and "gv_SelectPolicy env = None"
    and "\<forall>r \<in> set (gw_Policies w). ceg_EventTime r < t1"
  shows "w2 = w1 \<and> evs2 = []"
proof -
  obtain a b where ends: "ends = (a, b)" by fastforce
  from assms(1) obtain prev where prev: "previous_policy env c a b (gw_Policies w) = Ok prev"
    by (auto simp: store_policy_def ends split: sum.splits)
  show ?thesis
  proof (cases "policy_differs p prev")
    case False
    with assms(1,2) prev ends show ?thesis by (simp add: store_policy_def)
  next
    case True
    let ?row = "policy_row t1 (mns_NodeId ns) c a b p"
    have w1: "gw_Policies w1 = gw_Policies w @ [?row]"
      using assms(1) prev ends True by (auto simp: store_policy_def Let_def split: option.splits)
    have "latest ceg_EventTime (gv_PolicyOrd env (filter (\<lambda>r. ceg_ChannelId r = c \<and> ceg_AnnouncingNodeId r = a
        \<and> ceg_ConnectingNodeId r = b) (gw_Policies w1))) = Some ?row"
      unfolding w1 by (rule latest_newest [OF assms(3)]) (use assms(5) in \<open>auto simp: policy_row_def\<close>)
    then have "previous_policy env c a b (gw_Policies w1) = Ok ?row \<or> (\<exists>e. previous_policy env c a b (gw_Policies w1) = Inl e)"
      using assms(4) by (simp add: previous_policy_def)
    moreover have "\<not> policy_differs p ?row" by (simp add: policy_differs_def policy_row_def)
    ultimately show ?thesis using assms(2) ends by (auto simp: store_policy_def split: if_splits)
  qed
qed

text \<open>
  A routing policy that LND sends a second time adds no row and sends no event, as long as the
  nodes it names are cached and the rows before were older.
\<close>
lemma repeated_policy_not_stored:
  assumes "insertRoutingPolicy env t1 channelId nodeSettings cu eventChannel w = Some (w1, Ok evs1)"
    and "insertRoutingPolicy env t2 channelId nodeSettings cu eventChannel w1 = Some (w2, Ok evs2)"
    and "any_order (gv_PolicyOrd env)" and "gv_SelectPolicy env = None"
    and "\<forall>r \<in> set (gw_Policies w). ceg_EventTime r < t1"
    and "\<forall>k \<in> {leu_AdvertisingNode cu, leu_ConnectingNode cu}. k \<noteq> [] \<longrightarrow>
      GetNodeIdByPublicKey (le_NodeOrds (gv_Lnd env)) (lw_NodeCache (gw_Lnd w)) k
        (mns_Chain nodeSettings) (mns_Network nodeSettings) \<noteq> Some 0"
  shows "w2 = w1 \<and> evs2 = []"
proof (cases "leu_RoutingPolicy cu")
  case None
  with assms(1,2) show ?thesis by (auto simp: insertRoutingPolicy_def split: option.splits)
next
  case (Some p)
  let ?l = "gw_Lnd w"
  obtain settings where settings: "GetChannelSettingByChannelId (le_ChannelOrds (gv_Lnd env)) (fst (lw_Channels ?l)) channelId = Some settings"
    by (simp add: channel_reads)
  let ?run = "\<lambda>t. and_then (on_lnd (policy_node (gv_Lnd env) nodeSettings (leu_AdvertisingNode cu)))
      (\<lambda>a. and_then (on_lnd (policy_node (gv_Lnd env) nodeSettings (leu_ConnectingNode cu)))
      (\<lambda>c. and_then (give (policy_ends settings a c)) (store_policy env t channelId nodeSettings p eventChannel)))"
  have one: "\<exists>ends. store_policy env t channelId nodeSettings p eventChannel ends v = Some (v1, Ok evs)
      \<and> (\<forall>u x. gw_Lnd u = gw_Lnd v \<longrightarrow> ?run x u = store_policy env x channelId nodeSettings p eventChannel ends u)"
    if "?run t v = Some (v1, Ok evs)" and "gw_Lnd v = ?l" for t v v1 evs
  proof -
    from that(1) obtain va a vb b ends where
      a: "on_lnd (policy_node (gv_Lnd env) nodeSettings (leu_AdvertisingNode cu)) v = Some (va, Ok a)"
      and b: "on_lnd (policy_node (gv_Lnd env) nodeSettings (leu_ConnectingNode cu)) va = Some (vb, Ok b)"
      and ends: "Ok ends = policy_ends settings a b"
      and store: "store_policy env t channelId nodeSettings p eventChannel ends vb = Some (v1, Ok evs)"
      unfolding and_then_Ok give_Some by blast
    from a that(2) policy_node_cached [of "leu_AdvertisingNode cu" "gv_Lnd env" ?l nodeSettings] assms(6)
    have pa: "policy_node (gv_Lnd env) nodeSettings (leu_AdvertisingNode cu) ?l = Some (?l, Ok a)" and va: "va = v"
      by (auto simp: on_lnd_def)
    from b va that(2) policy_node_cached [of "leu_ConnectingNode cu" "gv_Lnd env" ?l nodeSettings] assms(6)
    have pb: "policy_node (gv_Lnd env) nodeSettings (leu_ConnectingNode cu) ?l = Some (?l, Ok b)" and vb: "vb = v"
      by (auto simp: on_lnd_def)
    have run: "?run x u = store_policy env x channelId nodeSettings p eventChannel ends u" if "gw_Lnd u = ?l" for u x
    proof -
      have "on_lnd (policy_node (gv_Lnd env) nodeSettings (leu_AdvertisingNode cu)) u = Some (u, Ok a)"
        "on_lnd (policy_node (gv_Lnd env) nodeSettings (leu_ConnectingNode cu)) u = Some (u, Ok b)"
        using pa pb that by (simp_all add: on_lnd_same)
      then show ?thesis by (simp add: and_then_def give_def flip: ends)
    qed
    show ?thesis
    proof (intro exI [of _ ends] conjI allI impI)
      show "store_policy env t channelId nodeSettings p eventChannel ends v = Some (v1, Ok evs)" using store vb by simp
      fix u :: GraphWorld and x assume "gw_Lnd u = gw_Lnd v"
      then show "?run x u = store_policy env x channelId nodeSettings p eventChannel ends u" using that(2) by (intro run) simp
    qed
  qed
  from assms(1) Some settings have run1: "?run t1 w = Some (w1, Ok evs1)" by (simp add: insertRoutingPolicy_def)
  from one [OF this refl] obtain ends where
    s1: "store_policy env t1 channelId nodeSettings p eventChannel ends w = Some (w1, Ok evs1)"
    and again: "\<And>u x. gw_Lnd u = ?l \<Longrightarrow> ?run x u = store_policy env x channelId nodeSettings p eventChannel ends u" by blast
  have same: "gw_Lnd w1 = ?l" by (rule store_policy_lnd [OF s1])
  with assms(2) Some settings have "?run t2 w1 = Some (w2, Ok evs2)" by (simp add: insertRoutingPolicy_def)
  with again [OF same] have "store_policy env t2 channelId nodeSettings p eventChannel ends w1 = Some (w2, Ok evs2)" by simp
  from stored_policy_repeated [OF s1 this assms(3-5)] show ?thesis .
qed

lemma insertNodeEvent_stored:
  assumes "gv_MarshalAddresses env a = Ok najb" and "gv_MarshalFeatures env f = Ok fjb"
    and "insertNodeEvent env t i al co a f n ec w = Some (w1, Ok evs)"
    and "gw_NodeEvents w1 \<noteq> gw_NodeEvents w"
  shows "gw_NodeEvents w1 = gw_NodeEvents w @
     [\<lparr>neg_EventTime = t, neg_EventNodeId = i, neg_Alias = al, neg_Color = co,
       neg_NodeAddresses = gv_Jsonb env najb, neg_Features = gv_Jsonb env fjb, neg_NodeId = n\<rparr>]"
  using assms by (auto simp: insertNodeEvent_def Let_def split: sum.splits if_splits option.splits)

text \<open>
  An announcement that repeats the one stored last is stored and sent again exactly when the
  database gives back another text for its addresses or features than was encoded, as Postgres
  does for JSON documents that have a member.
\<close>
lemma repeated_announcement_stored_again:
  assumes "gv_MarshalAddresses env a = Ok najb" and "gv_MarshalFeatures env f = Ok fjb"
    and "insertNodeEvent env t1 i al co a f n eventChannel w = Some (w1, Ok evs1)"
    and "gw_NodeEvents w1 \<noteq> gw_NodeEvents w"
    and "any_order (gv_NodeEventOrd env)" and "gv_SelectNodeEvent env = None" and "gv_InsertNodeEvent env = None"
    and "\<forall>r \<in> set (gw_NodeEvents w). neg_EventTime r < t1"
  shows "\<exists>w2 evs2. insertNodeEvent env t2 i al co a f n eventChannel w1 = Some (w2, Ok evs2) \<and>
     (if gv_Jsonb env najb = najb \<and> gv_Jsonb env fjb = fjb then w2 = w1 \<and> evs2 = []
      else length (gw_NodeEvents w2) = length (gw_NodeEvents w1) + 1 \<and> length evs2 = (if eventChannel then 1 else 0))"
proof -
  let ?row = "\<lparr>neg_EventTime = t1, neg_EventNodeId = i, neg_Alias = al, neg_Color = co,
       neg_NodeAddresses = gv_Jsonb env najb, neg_Features = gv_Jsonb env fjb, neg_NodeId = n\<rparr>"
  have w1: "gw_NodeEvents w1 = gw_NodeEvents w @ [?row]"
    by (rule insertNodeEvent_stored [OF assms(1-4)])
  have "latest neg_EventTime (gv_NodeEventOrd env (filter (\<lambda>r. neg_EventNodeId r = i) (gw_NodeEvents w1))) = Some ?row"
    unfolding w1 by (rule latest_newest [OF assms(5)]) (use assms(8) in auto)
  then have "previous_node_event env i (gw_NodeEvents w1) = Ok ?row"
    using assms(6) by (simp add: previous_node_event_def)
  then show ?thesis
    using assms(1,2,7) by (auto simp: insertNodeEvent_def Let_def)
qed

subsection \<open>Policies of active channels only\<close>

text \<open>What storing policies adds, in terms of the channels it found, and what it sends.\<close>

definition reports :: "GraphEnv \<Rightarrow> bool \<Rightarrow> int \<Rightarrow> GraphWorld \<Rightarrow> GraphEvent list \<Rightarrow> GraphWorld \<Rightarrow> bool" where
  "reports env eventChannel nodeId w evs w1 \<longleftrightarrow>
     lw_Channels (gw_Lnd w1) = lw_Channels (gw_Lnd w) \<and> gw_NodeEvents w1 = gw_NodeEvents w \<and>
     (\<exists>rows. gw_Policies w1 = gw_Policies w @ rows \<and>
        (\<forall>row \<in> set rows. ceg_NodeId row = nodeId \<and> ceg_ChannelId row \<noteq> 0 \<and>
           ceg_ChannelId row \<in> ran (map_of (channelPointCache (fst (lw_Channels (gw_Lnd w)))))) \<and>
        (\<exists>prevs. length prevs = length rows \<and>
           evs = (if eventChannel then map2 (\<lambda>row prev. ChannelGraph (policy_event env nodeId row prev)) rows prevs
                  else [])))"

lemma reports_refl: "reports env ec n w [] w"
  by (simp add: reports_def)

lemma reports_trans:
  assumes "reports env ec n w evs w1" and "reports env ec n w1 evs1 w2"
  shows "reports env ec n w (evs @ evs1) w2"
proof -
  let ?ev = "\<lambda>row prev. ChannelGraph (policy_event env n row prev)"
  from assms(1) obtain rows prevs where
    one: "gw_Policies w1 = gw_Policies w @ rows" "length prevs = length rows" "evs = (if ec then map2 ?ev rows prevs else [])"
    "\<forall>row \<in> set rows. ceg_NodeId row = n \<and> ceg_ChannelId row \<noteq> 0 \<and>
           ceg_ChannelId row \<in> ran (map_of (channelPointCache (fst (lw_Channels (gw_Lnd w)))))"
    unfolding reports_def by blast
  from assms(2) obtain rows1 prevs1 where
    two: "gw_Policies w2 = gw_Policies w1 @ rows1" "length prevs1 = length rows1" "evs1 = (if ec then map2 ?ev rows1 prevs1 else [])"
    "\<forall>row \<in> set rows1. ceg_NodeId row = n \<and> ceg_ChannelId row \<noteq> 0 \<and>
           ceg_ChannelId row \<in> ran (map_of (channelPointCache (fst (lw_Channels (gw_Lnd w1)))))"
    unfolding reports_def by blast
  have same: "lw_Channels (gw_Lnd w1) = lw_Channels (gw_Lnd w)" using assms(1) by (simp add: reports_def)
  have "gw_Policies w2 = gw_Policies w @ (rows @ rows1)" "length (prevs @ prevs1) = length (rows @ rows1)"
    "evs @ evs1 = (if ec then map2 ?ev (rows @ rows1) (prevs @ prevs1) else [])"
    "\<forall>row \<in> set (rows @ rows1). ceg_NodeId row = n \<and> ceg_ChannelId row \<noteq> 0 \<and>
           ceg_ChannelId row \<in> ran (map_of (channelPointCache (fst (lw_Channels (gw_Lnd w)))))"
    using one two same by auto
  moreover have "lw_Channels (gw_Lnd w2) = lw_Channels (gw_Lnd w)" "gw_NodeEvents w2 = gw_NodeEvents w"
    using assms by (simp_all add: reports_def)
  ultimately show ?thesis unfolding reports_def by blast
qed

definition sent_by :: "'a list result \<Rightarrow> 'a list" where
  "sent_by r = (case r of Inl e \<Rightarrow> [] | Inr evs \<Rightarrow> evs)"

lemma store_policy_reports:
  assumes "store_policy env t c ns p ec ends w = Some (w1, r)" and "c \<noteq> 0"
    and "c \<in> ran (map_of (channelPointCache (fst (lw_Channels (gw_Lnd w)))))"
  shows "reports env ec (mns_NodeId ns) w (sent_by r) w1"
proof (cases "w1 = w \<and> sent_by r = []")
  case True
  then show ?thesis by (simp add: reports_def)
next
  case False
  obtain a b where ends: "ends = (a, b)" by fastforce
  from False assms(1) obtain prev where "previous_policy env c a b (gw_Policies w) = Ok prev"
    and "w1 = w\<lparr>gw_Policies := gw_Policies w @ [policy_row t (mns_NodeId ns) c a b p]\<rparr>"
    and "sent_by r = (if ec then [ChannelGraph (policy_event env (mns_NodeId ns)
           (policy_row t (mns_NodeId ns) c a b p) prev)] else [])"
    by (auto simp: store_policy_def ends sent_by_def Let_def split: sum.splits if_splits option.splits)
  with assms(2,3) show ?thesis
    unfolding reports_def
    by (intro conjI exI [of _ "[policy_row t (mns_NodeId ns) c a b p]"] exI [of _ "[prev]"]) (auto simp: policy_row_def)
qed

lemma same_channels_reports:
  assumes "on_lnd (policy_node env0 ns k) w = Some (w1, r)"
  shows "reports env ec n w [] w1"
  using assms maintainsD [OF maintains_addNodeWhenNew(3)]
  by (auto simp: on_lnd_def policy_node_def give_def reports_def same_channels_def split: if_splits)

lemma insertRoutingPolicy_reports:
  assumes "insertRoutingPolicy env t c ns cu ec w = Some (w1, r)" and "c \<noteq> 0"
    and "c \<in> ran (map_of (channelPointCache (fst (lw_Channels (gw_Lnd w)))))"
  shows "reports env ec (mns_NodeId ns) w (sent_by r) w1"
proof (cases "leu_RoutingPolicy cu")
  case None
  with assms(1) show ?thesis by (auto simp: insertRoutingPolicy_def sent_by_def reports_refl split: option.splits)
next
  case (Some p)
  with assms(1) obtain settings where "and_then (on_lnd (policy_node (gv_Lnd env) ns (leu_AdvertisingNode cu)))
      (\<lambda>a. and_then (on_lnd (policy_node (gv_Lnd env) ns (leu_ConnectingNode cu)))
      (\<lambda>b. and_then (give (policy_ends settings a b)) (store_policy env t c ns p ec))) w = Some (w1, r)"
    by (auto simp: insertRoutingPolicy_def split: option.splits)
  then show ?thesis
  proof (cases rule: and_then_Some)
    case (1 e)
    with same_channels_reports show ?thesis by (auto simp: sent_by_def)
  next
    case (2 wa a)
    note wa = same_channels_reports [OF 2(1), of env ec "mns_NodeId ns"]
    from 2(2) show ?thesis
    proof (cases rule: and_then_Some)
      case (1 e)
      with reports_trans [OF wa same_channels_reports] show ?thesis by (auto simp: sent_by_def)
    next
      case (2 wb b)
      note wb = reports_trans [OF wa same_channels_reports [OF 2(1)]]
      from 2(2) show ?thesis
      proof (cases rule: and_then_Some)
        case (1 e)
        with wb show ?thesis by (auto simp: sent_by_def give_Some)
      next
        case (2 wc ends)
        then have "wc = wb" and "store_policy env t c ns p ec ends wb = Some (w1, r)" by (auto simp: give_Some)
        moreover have "c \<in> ran (map_of (channelPointCache (fst (lw_Channels (gw_Lnd wb)))))"
          using wb assms(3) by (simp add: reports_def)
        ultimately show ?thesis using reports_trans [OF wb store_policy_reports] assms(2) by simp
      qed
    qed
  qed
qed

lemma channel_update_reports:
  assumes "channel_update env ns ec cu w = Some (w1, r)"
  shows "reports env ec (mns_NodeId ns) w (sent_by r) w1"
proof (cases "w1 = w \<and> sent_by r = []")
  case True
  then show ?thesis by (simp add: reports_refl)
next
  case False
  with assms obtain p h i where point: "ParseChannelPoint p = (h, i)"
    and "chanPointFromByte (gv_Lnd env) (lp_TxidBytes (leu_ChanPoint cu)) (lp_OutputIndex (leu_ChanPoint cu)) = Ok p"
    by (auto simp: channel_update_def sent_by_def split: sum.splits prod.splits)
  with assms False obtain c where c: "c = aget 0 (channelPointCache (fst (lw_Channels (gw_Lnd w)))) (CreateChannelPoint h i)" "c \<noteq> 0"
    and ins: "insertRoutingPolicy env (le_Now (gv_Lnd env)) c ns cu ec w = Some (w1, r)"
    by (auto simp: channel_update_def channel_reads sent_by_def split: if_splits)
  have "c \<in> ran (map_of (channelPointCache (fst (lw_Channels (gw_Lnd w)))))"
    using c by (cases "map_of (channelPointCache (fst (lw_Channels (gw_Lnd w)))) (CreateChannelPoint h i)") (auto simp: ran_def)
  from insertRoutingPolicy_reports [OF ins c(2) this] show ?thesis .
qed

text \<open>
  The routing policies that a message of the channel graph adds are all of channels the cache has
  as active, and with an event channel each added row is sent, once and in the order of the rows.
\<close>
lemma policies_of_active_channels:
  assumes "processChannelUpdates env cus nodeSettings eventChannel w = Some (w1, evs, e)"
  shows "reports env eventChannel (mns_NodeId nodeSettings) w evs w1"
  using assms unfolding processChannelUpdates_def
proof (induction cus arbitrary: w evs)
  case (Cons cu cus)
  show ?case
  proof (cases "channel_update env nodeSettings eventChannel cu w")
    case (Some x)
    obtain v r where x: "x = (v, r)" by fastforce
    note one = channel_update_reports [OF Some [unfolded x]]
    show ?thesis
    proof (cases r)
      case (Inl e)
      with Cons.prems Some x one show ?thesis by (simp add: sent_by_def)
    next
      case (Inr evs0)
      with Cons.prems Some x obtain rest where "each_update (channel_update env nodeSettings eventChannel) cus v = Some (w1, rest, e)"
        and "evs = evs0 @ rest" by auto
      with reports_trans [OF one Cons.IH] Inr show ?thesis by (simp add: sent_by_def)
    qed
  qed (use Cons.prems in simp)
qed (simp add: reports_refl)

lemma insertNodeEvent_quiet:
  "insertNodeEvent env t i al co a f n False w = Some (w1, Ok evs) \<Longrightarrow> evs = []"
  by (auto simp: insertNodeEvent_def Let_def split: sum.splits if_splits option.splits)

lemma each_update_quiet:
  assumes "\<And>u w w1 evs. f u w = Some (w1, Ok evs) \<Longrightarrow> evs = []"
  shows "each_update f us w = Some (w1, evs, e) \<Longrightarrow> evs = []"
  using assms by (induction us arbitrary: w evs) (auto split: option.splits sum.splits)

interpretation graph_updates: stream_handler eventChannel requests "handle_graph_update eventChannel nodeSettings"
    for eventChannel requests nodeSettings
proof unfold_locales
  fix m w evs w1
  assume "\<not> eventChannel" and h: "handle_graph_update eventChannel nodeSettings m w = Some (evs, w1)"
  then have off: "eventChannel = False" by simp
  obtain env gpu where m: "m = (env, gpu)" by fastforce
  from h obtain va evs1 e1 evs2 e2 where
    nodes: "processNodeUpdates env (ltu_NodeUpdates gpu) nodeSettings False w = Some (va, evs1, e1)"
    and chans: "processChannelUpdates env (ltu_ChannelUpdates gpu) nodeSettings False va = Some (w1, evs2, e2)"
    and evs: "evs = evs1 @ evs2"
    by (auto simp: handle_graph_update_def m off split: option.splits)
  have "evs1 = []"
    using nodes unfolding processNodeUpdates_def
    by (rule each_update_quiet [rotated])
      (auto simp: node_update_def dest: insertNodeEvent_quiet split: option.splits if_splits)
  moreover have "evs2 = []"
    using chans unfolding processChannelUpdates_def
    by (rule each_update_quiet [rotated])
      (use channel_update_reports [where ec = False] in \<open>fastforce simp: reports_def sent_by_def\<close>)
  ultimately show "evs = []" by (simp add: evs)
qed

text \<open>Setting an open status does not bring a channel back among the active ones.\<close>

lemma reopened_channel_not_active:
  assumes "reopen env c w = Some (w1, r)"
  shows "GetActiveChannelIdByFundingTransaction ords (fst (lw_Channels (gw_Lnd w1))) h i =
    GetActiveChannelIdByFundingTransaction ords (fst (lw_Channels (gw_Lnd w))) h i"
proof -
  have kept: "SetChannelStatus ords c Open s = Served t r \<Longrightarrow> channelPointCache t = channelPointCache s"
    for ords c s t r
  proof -
    have closed: "\<not> CooperativeClosed \<le> Open" by (simp add: less_eq_ChannelStatus_def)
    assume "SetChannelStatus ords c Open s = Served t r"
    then have "writeChannelStatus (fst ords)
        ((channelRequest WRITE_CHANNELSTATUSID)\<lparr>mc_ChannelId := c, mc_Status := Open\<rparr>) s = Served t r"
      by (simp add: SetChannelStatus_def processManagedChannel_def)
    then show ?thesis by (rule writeChannelStatus_Served) (simp_all add: closed)
  qed
  show ?thesis
    using assms
    by (auto simp: reopen_def Let_def UpdateChannelStatus_def cache_write_def channel_reads
        split: option.splits if_splits outcome.splits prod.splits dest!: kept)
qed

subsection \<open>Channel points\<close>

lemma skip_space_none: "(\<forall>c \<in> set s. \<not> is_space c) \<Longrightarrow> skip_space s = Some s"
  by (cases s) (auto simp: is_space_def)

lemma digit_no_space: "is_digit c \<Longrightarrow> \<not> is_space c"
  by (auto simp: is_digit_def is_space_def)

lemma scan_uint32_format: "n < 2 ^ 32 \<Longrightarrow> scan_uint32 (format_uint n) = Ok (of_nat n)"
proof -
  assume n: "n < 2 ^ 32"
  have a: "skip_space (format_uint n) = Some (format_uint n)"
    using format_uint_digits [of n] digit_no_space by (intro skip_space_none) blast
  have b: "takeWhile is_digit (format_uint n) = format_uint n"
    using format_uint_digits [of n] by (intro takeWhile_eq_all_conv [THEN iffD2]) blast
  show ?thesis unfolding scan_uint32_def a option.case b using n by (simp add: parse_uint_format_uint)
qed

text \<open>
  The channel point of a channel edge, with a transaction hash of 64 characters, comes out of
  the import as the text it was, when the hash functions are inverse for it.
\<close>
lemma imported_channel_point_roundtrip:
  assumes "length txId = 64" and "\<forall>c \<in> set txId. \<not> is_space c" and "n < 2 ^ 32"
    and "hashFromStr txId = Ok h" and "le_HashText env h = Ok txId"
  shows "\<exists>p. createChanPoint hashFromStr (CreateChannelPoint txId (int n)) = Ok p \<and>
     chanPointFromByte env (lp_TxidBytes p) (lp_OutputIndex p) = Ok (CreateChannelPoint txId (int n))"
proof -
  have point: "CreateChannelPoint txId (int n) = txId @ CHR '':'' # format_uint n"
    by (simp add: CreateChannelPoint_def format_int_def)
  obtain c cs where tx: "txId = c # cs" using assms(1) by (cases txId) auto
  have skip: "skip_space (txId @ CHR '':'' # format_uint n) = Some (txId @ CHR '':'' # format_uint n)"
    using assms(2) by (auto simp: tx is_space_def)
  have "takeWhile (\<lambda>c. \<not> is_space c) txId = txId"
    using assms(2) by (intro takeWhile_eq_all_conv [THEN iffD2]) blast
  then have "scan_point (CreateChannelPoint txId (int n)) = Ok (txId, of_nat n)"
    using assms(1) tx scan_uint32_format [OF assms(3)]
    unfolding point scan_point_def skip by (simp add: Let_def)
  moreover have "uint (of_nat n :: uint32) = int n"
    using assms(3) by (simp add: take_bit_nat_eq_self_iff unsigned_of_nat)
  ultimately show ?thesis
    using assms(4,5) by (simp add: createChanPoint_def chanPointFromByte_def point format_int_def)
qed

section \<open>Witnesses\<close>

lemma imported_channel_point_roundtrip_witness:
  "\<exists>p. createChanPoint (\<lambda>s. Ok [7]) (CreateChannelPoint (replicate 64 (CHR ''a'')) (int 3)) = Ok p \<and>
     chanPointFromByte (sample_env\<lparr>le_HashText := (\<lambda>b. Ok (replicate 64 (CHR ''a'')))\<rparr>) (lp_TxidBytes p) (lp_OutputIndex p)
       = Ok (CreateChannelPoint (replicate 64 (CHR ''a'')) (int 3))"
  by (rule imported_channel_point_roundtrip) (simp_all add: is_space_def)

definition sample_genv :: GraphEnv where
  "sample_genv = \<lparr>gv_Lnd = sample_env, gv_ZeroTime = 0, gv_PolicyOrd = id, gv_NodeEventOrd = id,
     gv_SelectPolicy = None, gv_InsertPolicy = None, gv_SelectNodeEvent = None, gv_InsertNodeEvent = None,
     gv_MarshalAddresses = (\<lambda>_. Ok ''[{\"addr\":\"a\"}]''), gv_MarshalFeatures = (\<lambda>_. Ok ''{}''),
     gv_Jsonb = (\<lambda>s. if s = ''[{\"addr\":\"a\"}]'' then ''[{\"addr\": \"a\"}]'' else s)\<rparr>"

definition sample_gworld :: GraphWorld where
  "sample_gworld = \<lparr>gw_Lnd = sample_world\<lparr>lw_NodeCache :=
       emptyNodeState\<lparr>allChannelNodeIdCache := put_id Bitcoin MainNet ''02'' 4 []\<rparr>\<rparr>,
     gw_Policies = [], gw_NodeEvents = []\<rparr>"

definition sample_policy :: LndRoutingPolicy where
  "sample_policy = \<lparr>lrp_TimeLockDelta = 40, lrp_MinHtlc = 1000, lrp_FeeBaseMsat = 1000, lrp_FeeRateMilliMsat = 10,
     lrp_Disabled = False, lrp_MaxHtlcMsat = 990000\<rparr>"

definition sample_update :: LndEdgeUpdate where
  "sample_update = \<lparr>leu_ChanId = 0, leu_ChanPoint = \<lparr>lp_TxidBytes = [7], lp_OutputIndex = 1\<rparr>, leu_Capacity = 1000,
     leu_RoutingPolicy = Some sample_policy, leu_AdvertisingNode = ''02'', leu_ConnectingNode = []\<rparr>"

lemma sample_known_node:
  "GetNodeIdByPublicKey ords (emptyNodeState\<lparr>allChannelNodeIdCache := put_id Bitcoin MainNet ''02'' 4 []\<rparr>) ''02''
     Bitcoin MainNet = Some 4"
  by (simp add: node_cache_reads directory_def)

lemma sample_stores:
  assumes "gw_Lnd w = gw_Lnd sample_gworld"
  shows "insertRoutingPolicy sample_genv t 7 sample_settings sample_update ec w
    = store_policy sample_genv t 7 sample_settings sample_policy ec (4, 3) w"
proof -
  have nodes: "on_lnd (policy_node sample_env sample_settings ''02'') w = Some (w, Ok 4)"
    "on_lnd (policy_node sample_env sample_settings []) w = Some (w, Ok 0)"
    using assms sample_known_node
    by (intro on_lnd_same; simp add: policy_node_def addNodeWhenNew_def give_def sample_gworld_def sample_settings_def)+
  have "GetChannelSettingByChannelId ords (fst (lw_Channels (gw_Lnd w))) 7 = Some (aget zeroChannelSettings
      (allChannelSettingsByChannelIdCache exampleChannelState) 7)" for ords
    using assms by (simp add: sample_gworld_def sample_world_def channel_reads)
  then show ?thesis
    by (simp add: insertRoutingPolicy_def sample_update_def and_then_def nodes sample_genv_def give_def
        policy_ends_def exampleChannelState_eq)
qed

lemma sample_stored:
  "store_policy sample_genv t 7 sample_settings sample_policy True (4, 3) sample_gworld
    = Some (sample_gworld\<lparr>gw_Policies := [policy_row t 3 7 4 3 sample_policy]\<rparr>,
        Ok [ChannelGraph (policy_event sample_genv 3 (policy_row t 3 7 4 3 sample_policy) (zeroChannelEvent 0))])"
  by (simp add: store_policy_def previous_policy_def sample_genv_def sample_gworld_def latest_def policy_differs_def
      sample_policy_def zeroChannelEvent_def sample_settings_def Let_def)

lemma repeated_policy_not_stored_witness:
  "\<exists>w1 evs. insertRoutingPolicy sample_genv 10 7 sample_settings sample_update True sample_gworld = Some (w1, Ok evs)
     \<and> length (gw_Policies w1) = 1
     \<and> insertRoutingPolicy sample_genv 11 7 sample_settings sample_update True w1 = Some (w1, Ok [])"
proof -
  let ?w1 = "sample_gworld\<lparr>gw_Policies := [policy_row 10 3 7 4 3 sample_policy]\<rparr>"
  obtain evs where one: "insertRoutingPolicy sample_genv 10 7 sample_settings sample_update True sample_gworld = Some (?w1, Ok evs)"
    by (simp add: sample_stores sample_stored)
  have min: "0 \<le> sint (1000 :: 64 word)" by simp
  have "\<exists>w2 evs2. store_policy sample_genv 11 7 sample_settings sample_policy True (4, 3) ?w1 = Some (w2, Ok evs2)"
    by (simp add: store_policy_def previous_policy_def sample_genv_def latest_def policy_row_def sample_policy_def Let_def)
  then obtain w2 evs2 where two: "insertRoutingPolicy sample_genv 11 7 sample_settings sample_update True ?w1 = Some (w2, Ok evs2)"
    by (auto simp: sample_stores)
  have "w2 = ?w1 \<and> evs2 = []"
    by (rule repeated_policy_not_stored [OF one two])
      (auto simp: sample_genv_def sample_gworld_def sample_update_def sample_env_def sample_settings_def sample_known_node)
  with one two show ?thesis by (intro exI [of _ ?w1] exI [of _ evs]) simp
qed

lemma repeated_announcement_stored_again_witness:
  "\<exists>w1 evs1 w2 evs2. insertNodeEvent sample_genv 10 4 ''alice'' ''#fff'' [] [] 3 True sample_gworld = Some (w1, Ok evs1)
     \<and> insertNodeEvent sample_genv 11 4 ''alice'' ''#fff'' [] [] 3 True w1 = Some (w2, Ok evs2)
     \<and> length (gw_NodeEvents w2) = length (gw_NodeEvents w1) + 1"
proof -
  have "\<exists>w1 evs1. insertNodeEvent sample_genv 10 4 ''alice'' ''#fff'' [] [] 3 True sample_gworld = Some (w1, Ok evs1)
      \<and> gw_NodeEvents w1 \<noteq> []"
    by (simp add: insertNodeEvent_def previous_node_event_def sample_genv_def sample_gworld_def latest_def
        zeroNodeEvent_def Let_def)
  then obtain w1 evs1 where one: "insertNodeEvent sample_genv 10 4 ''alice'' ''#fff'' [] [] 3 True sample_gworld = Some (w1, Ok evs1)"
    and "gw_NodeEvents w1 \<noteq> gw_NodeEvents sample_gworld"
    by (auto simp: sample_gworld_def)
  from repeated_announcement_stored_again [OF _ _ this, of "''[{\"addr\":\"a\"}]''" "''{}''" 11] one show ?thesis
    by (auto simp: sample_genv_def sample_gworld_def)
qed

lemma policies_of_active_channels_witness:
  "\<exists>w1 evs. processChannelUpdates sample_genv [sample_update] sample_settings True sample_gworld = Some (w1, evs, None)
     \<and> length (gw_Policies w1) = 1 \<and> reports sample_genv True 3 sample_gworld evs w1"
proof -
  have point: "CreateChannelPoint ''ab'' 1 = ''ab:1''" "ParseChannelPoint ''ab:1'' = (''ab'', 1)" by (fact sample_point)+
  have "chanPointFromByte sample_env [7] 1 = Ok ''ab:1''"
    by (simp add: chanPointFromByte_def sample_env_def format_int_def format_uint.simps)
  then have "channel_update sample_genv sample_settings True sample_update sample_gworld
      = insertRoutingPolicy sample_genv (le_Now sample_env) 7 sample_settings sample_update True sample_gworld"
    by (simp add: channel_update_def sample_update_def sample_genv_def point channel_reads sample_gworld_def
        sample_world_def exampleChannelState_eq)
  then have run: "\<exists>w1 evs. processChannelUpdates sample_genv [sample_update] sample_settings True sample_gworld
      = Some (w1, evs, None) \<and> length (gw_Policies w1) = 1"
    by (simp add: processChannelUpdates_def sample_stores sample_stored)
  then obtain w1 evs where w1: "processChannelUpdates sample_genv [sample_update] sample_settings True sample_gworld
      = Some (w1, evs, None)" "length (gw_Policies w1) = 1" by auto
  from policies_of_active_channels [OF w1(1)] w1 show ?thesis by (auto simp: sample_settings_def)
qed

end
