(* ===== verification/SettingsTable.thy ===== *)
theory SettingsTable
  imports Nodes ManagedSettings GoText Events
begin

text \<open>
  The settings and the connection details of nodes, \<open>src/internal/settings/database.go\<close>,
  \<open>nodeConnectionDetails.go\<close> and the parts of \<open>routes.go\<close> that read them.  The table of details is a
  list of rows with the node as its key, which must be a row of the node table.  A status is kept as
  its number, since the requests store any number, and so are the flags of the ping services, whose
  column is a Postgres integer the code does arithmetic on.  The theorems say that this arithmetic
  sets and clears one flag, that nodes with a flag are found by it, that adding LND's node keeps one
  row for each node, and what the node cache holds once it is filled.
\<close>

unbundle bit_operations_syntax

section \<open>Settings of the user interface\<close>

record settings =
  st_DefaultDateRange :: string
  st_DefaultLanguage :: string
  st_PreferredTimezone :: string
  st_WeekStartsOn :: string

definition zeroSettings :: settings where
  "zeroSettings = \<lparr>st_DefaultDateRange = [], st_DefaultLanguage = [], st_PreferredTimezone = [], st_WeekStartsOn = []\<rparr>"

text \<open>The errors of the database, by the kind of statement, the clock, and what the driver stores for a slice.\<close>

record DetailsEnv =
  de_Now :: time
  de_Get :: "go_error option"
  de_Select :: "go_error option"
  de_Exec :: "go_error option"
  de_RowsAffected :: "go_error option"
  de_Bytes :: "bytes option \<Rightarrow> bytes option"
  de_NodeFails :: NodeFailures
  de_NodeOrds :: NodeOrders

definition getSettings :: "DetailsEnv \<Rightarrow> settings list \<Rightarrow> settings result" where
  "getSettings env rows =
     (case de_Get env of
        Some e \<Rightarrow> Inl e
      | None \<Rightarrow> Ok (case rows of [] \<Rightarrow> zeroSettings | r # _ \<Rightarrow> r))"

text \<open>A failure is only logged: the result is nil in any case.\<close>

definition InitializeManagedSettingsCache ::
    "DetailsEnv \<Rightarrow> settings list \<Rightarrow> SettingsState \<Rightarrow> (SettingsState, ManagedSettings) outcome" where
  "InitializeManagedSettingsCache env rows s =
     (case getSettings env rows of
        Inl e \<Rightarrow> Served s None
      | Inr d \<Rightarrow> SetSettings (st_DefaultDateRange d) (st_DefaultLanguage d) (st_WeekStartsOn d) (st_PreferredTimezone d) s)"

text \<open>The update has no condition: every row of the table gets the settings.\<close>

definition updateSettings ::
    "DetailsEnv \<Rightarrow> settings \<Rightarrow> settings list \<Rightarrow> SettingsState \<Rightarrow> (settings list \<times> SettingsState \<times> go_error option) option" where
  "updateSettings env d rows s =
     (case de_Exec env of
        Some e \<Rightarrow> Some (rows, s, Some e)
      | None \<Rightarrow>
          (case SetSettings (st_DefaultDateRange d) (st_DefaultLanguage d) (st_WeekStartsOn d) (st_PreferredTimezone d) s of
             Served s1 r \<Rightarrow> Some (map (\<lambda>r. d) rows, s1, None)
           | _ \<Rightarrow> None))"

section \<open>Connection details\<close>

text \<open>An uploaded file gives the same each time it is opened.\<close>

record UploadedFile =
  uf_Filename :: string
  uf_Open :: "go_error option"
  uf_Content :: "bytes result"

record NodeConnectionDetails =
  ncd_NodeId :: int
  ncd_Name :: string
  ncd_Implementation :: Implementation
  ncd_GRPCAddress :: "string option"
  ncd_TLSFileName :: "string option"
  ncd_TLSDataBytes :: "bytes option"
  ncd_TLSFile :: "UploadedFile option"
  ncd_MacaroonFileName :: "string option"
  ncd_MacaroonDataBytes :: "bytes option"
  ncd_MacaroonFile :: "UploadedFile option"
  ncd_Status :: int
  ncd_PingSystem :: int
  ncd_CustomSettings :: NodeConnectionDetailCustomSettings
  ncd_CreateOn :: time
  ncd_UpdatedOn :: "time option"

definition zeroDetails :: NodeConnectionDetails where
  "zeroDetails =
     \<lparr>ncd_NodeId = 0, ncd_Name = [], ncd_Implementation = LND, ncd_GRPCAddress = None,
      ncd_TLSFileName = None, ncd_TLSDataBytes = None, ncd_TLSFile = None,
      ncd_MacaroonFileName = None, ncd_MacaroonDataBytes = None, ncd_MacaroonFile = None,
      ncd_Status = 0, ncd_PingSystem = 0, ncd_CustomSettings = 0, ncd_CreateOn = 0, ncd_UpdatedOn = None\<rparr>"

text \<open>The flags of a value that was read from the table are a byte.\<close>

abbreviation ping_byte :: "int \<Rightarrow> PingSystem" where
  "ping_byte \<equiv> word_of_int"

definition AddNotificationType :: "PingSystem \<Rightarrow> NodeConnectionDetails \<Rightarrow> NodeConnectionDetails" where
  "AddNotificationType pingSystem ncd = ncd\<lparr>ncd_PingSystem := uint (ping_byte (ncd_PingSystem ncd) OR pingSystem)\<rparr>"

definition HasNotificationType :: "PingSystem \<Rightarrow> NodeConnectionDetails \<Rightarrow> bool" where
  "HasNotificationType pingSystem ncd \<longleftrightarrow> ping_byte (ncd_PingSystem ncd) AND pingSystem \<noteq> 0"

definition RemoveNotificationType :: "PingSystem \<Rightarrow> NodeConnectionDetails \<Rightarrow> NodeConnectionDetails" where
  "RemoveNotificationType pingSystem ncd =
     ncd\<lparr>ncd_PingSystem := uint (ping_byte (ncd_PingSystem ncd) AND NOT pingSystem)\<rparr>"

definition AddCustomSettings :: "NodeConnectionDetailCustomSettings \<Rightarrow> NodeConnectionDetails \<Rightarrow> NodeConnectionDetails" where
  "AddCustomSettings customSettings ncd = ncd\<lparr>ncd_CustomSettings := ncd_CustomSettings ncd OR customSettings\<rparr>"

definition HasCustomSettings :: "NodeConnectionDetailCustomSettings \<Rightarrow> NodeConnectionDetails \<Rightarrow> bool" where
  "HasCustomSettings customSettings ncd \<longleftrightarrow> ncd_CustomSettings ncd AND customSettings \<noteq> 0"

definition RemoveCustomSettings :: "NodeConnectionDetailCustomSettings \<Rightarrow> NodeConnectionDetails \<Rightarrow> NodeConnectionDetails" where
  "RemoveCustomSettings customSettings ncd = ncd\<lparr>ncd_CustomSettings := ncd_CustomSettings ncd AND NOT customSettings\<rparr>"

type_synonym details_table = "NodeConnectionDetails list"

section \<open>Reading the table\<close>

text \<open>Scanning an integer that is not a byte into a Go byte fails.\<close>

definition scan_details :: "NodeConnectionDetails \<Rightarrow> NodeConnectionDetails result" where
  "scan_details row =
     (if 0 \<le> ncd_PingSystem row \<and> ncd_PingSystem row < 256 then Ok row
      else Fails ''converting driver.Value type int64 to a uint8: value out of range'')"

fun scan_all :: "NodeConnectionDetails list \<Rightarrow> NodeConnectionDetails list result" where
  "scan_all [] = Ok []"
| "scan_all (row # rows) =
     (case scan_details row of
        Inl e \<Rightarrow> Inl e
      | Inr r \<Rightarrow> (case scan_all rows of Inl e \<Rightarrow> Inl e | Inr rs \<Rightarrow> Ok (r # rs)))"

definition select_details :: "DetailsEnv \<Rightarrow> (NodeConnectionDetails \<Rightarrow> bool) \<Rightarrow> details_table \<Rightarrow> NodeConnectionDetails list result" where
  "select_details env cond rows =
     (case de_Select env of
        Some e \<Rightarrow> Inl e
      | None \<Rightarrow> scan_all (sort_key ncd_NodeId (filter cond rows)))"

definition getNodeConnectionDetails :: "DetailsEnv \<Rightarrow> details_table \<Rightarrow> int \<Rightarrow> NodeConnectionDetails result" where
  "getNodeConnectionDetails env rows nodeId =
     (case de_Get env of
        Some e \<Rightarrow> Inl e
      | None \<Rightarrow> (case find (\<lambda>r. ncd_NodeId r = nodeId) rows of
                   None \<Rightarrow> Ok zeroDetails
                 | Some r \<Rightarrow> scan_details r))"

text \<open>
  \<open>pingSystem*2\<close> is computed on bytes; Postgres' remainder has the sign of the dividend.  Both
  systems the code asks for are not zero when doubled.
\<close>

definition ping_set :: "PingSystem \<Rightarrow> int \<Rightarrow> bool" where
  "ping_set pingSystem ping \<longleftrightarrow> ping smod uint (pingSystem * 2) \<ge> uint pingSystem"

definition active_with_ping :: "PingSystem \<Rightarrow> NodeConnectionDetails \<Rightarrow> bool" where
  "active_with_ping pingSystem r \<longleftrightarrow> ncd_Status r = status_code Active \<and> ping_set pingSystem (ncd_PingSystem r)"

definition GetPingSystemNodeIds :: "DetailsEnv \<Rightarrow> details_table \<Rightarrow> PingSystem \<Rightarrow> int list result" where
  "GetPingSystemNodeIds env rows pingSystem =
     (case de_Select env of
        Some e \<Rightarrow> Inl e
      | None \<Rightarrow> Ok (map ncd_NodeId (sort_key ncd_NodeId (filter (active_with_ping pingSystem) rows))))"

definition getPingConnectionDetails :: "DetailsEnv \<Rightarrow> details_table \<Rightarrow> PingSystem \<Rightarrow> NodeConnectionDetails list result" where
  "getPingConnectionDetails env rows pingSystem = select_details env (active_with_ping pingSystem) rows"

definition getAllNodeConnectionDetails :: "DetailsEnv \<Rightarrow> details_table \<Rightarrow> bool \<Rightarrow> NodeConnectionDetails list result" where
  "getAllNodeConnectionDetails env rows includeDeleted =
     (if includeDeleted then select_details env (\<lambda>r. True) rows
      else select_details env (\<lambda>r. ncd_Status r \<noteq> status_code Deleted) rows)"

definition getNodeConnectionDetailsByStatus :: "DetailsEnv \<Rightarrow> details_table \<Rightarrow> Status \<Rightarrow> NodeConnectionDetails list result" where
  "getNodeConnectionDetailsByStatus env rows status = select_details env (\<lambda>r. ncd_Status r = status_code status) rows"

definition GetNodeIdByGRPC :: "DetailsEnv \<Rightarrow> details_table \<Rightarrow> string \<Rightarrow> int result" where
  "GetNodeIdByGRPC env rows grpcAddress =
     (case getAllNodeConnectionDetails env rows True of
        Inl e \<Rightarrow> Inl e
      | Inr ncds \<Rightarrow> Ok (case find (\<lambda>r. ncd_GRPCAddress r = Some grpcAddress) ncds of
                          None \<Rightarrow> 0
                        | Some r \<Rightarrow> ncd_NodeId r))"

section \<open>Writing the table\<close>

definition affected :: "DetailsEnv \<Rightarrow> (NodeConnectionDetails \<Rightarrow> bool) \<Rightarrow> details_table \<Rightarrow> int result" where
  "affected env cond rows =
     (case de_RowsAffected env of
        Some e \<Rightarrow> Inl e
      | None \<Rightarrow> Ok (int (length (filter cond rows))))"

definition setNodeConnectionDetailsStatus ::
    "DetailsEnv \<Rightarrow> int \<Rightarrow> int \<Rightarrow> details_table \<Rightarrow> details_table \<times> int result" where
  "setNodeConnectionDetailsStatus env nodeId status rows =
     (case de_Exec env of
        Some e \<Rightarrow> (rows, Inl e)
      | None \<Rightarrow>
          (let cond = (\<lambda>r. ncd_NodeId r = nodeId \<and> ncd_Status r \<noteq> status)
           in (map (\<lambda>r. if cond r then r\<lparr>ncd_Status := status, ncd_UpdatedOn := Some (de_Now env)\<rparr> else r) rows,
               affected env cond rows)))"

text \<open>
  The statement of one of the two branches: the row of the node is changed when its flags are as
  the condition says.  Postgres refuses a zero divisor and a sum that is not a 32-bit integer.
\<close>

definition ping_due :: "bool \<Rightarrow> int \<Rightarrow> PingSystem \<Rightarrow> NodeConnectionDetails \<Rightarrow> bool" where
  "ping_due add nodeId pingSystem r \<longleftrightarrow> ncd_NodeId r = nodeId \<and> ping_set pingSystem (ncd_PingSystem r) = (\<not> add)"

definition ping_after :: "bool \<Rightarrow> PingSystem \<Rightarrow> NodeConnectionDetails \<Rightarrow> int" where
  "ping_after add pingSystem r =
     (if add then ncd_PingSystem r + uint pingSystem else ncd_PingSystem r - uint pingSystem)"

definition setNodeConnectionDetailsPingSystemStatus ::
    "DetailsEnv \<Rightarrow> int \<Rightarrow> PingSystem \<Rightarrow> int \<Rightarrow> details_table \<Rightarrow> details_table \<times> int result" where
  "setNodeConnectionDetailsPingSystemStatus env nodeId pingSystem status rows =
     (case de_Exec env of
        Some e \<Rightarrow> (rows, Inl e)
      | None \<Rightarrow>
          (let add = (status = status_code Active)
           in if pingSystem * 2 = 0 \<and> list_ex (\<lambda>r. ncd_NodeId r = nodeId) rows
              then (rows, Fails ''pq: division by zero'')
              else if list_ex (\<lambda>r. ping_due add nodeId pingSystem r \<and> 2 ^ 31 \<le> ping_after add pingSystem r) rows
              then (rows, Fails ''pq: integer out of range'')
              else (map (\<lambda>r. if ping_due add nodeId pingSystem r
                             then r\<lparr>ncd_PingSystem := ping_after add pingSystem r, ncd_UpdatedOn := Some (de_Now env)\<rparr>
                             else r) rows,
                    affected env (ping_due add nodeId pingSystem) rows)))"

text \<open>What of the details is stored: the uploaded files are no columns.\<close>

definition stored_details :: "DetailsEnv \<Rightarrow> NodeConnectionDetails \<Rightarrow> NodeConnectionDetails" where
  "stored_details env ncd =
     ncd\<lparr>ncd_TLSDataBytes := de_Bytes env (ncd_TLSDataBytes ncd), ncd_TLSFile := None,
         ncd_MacaroonDataBytes := de_Bytes env (ncd_MacaroonDataBytes ncd), ncd_MacaroonFile := None\<rparr>"

definition SetNodeConnectionDetails ::
    "DetailsEnv \<Rightarrow> NodeConnectionDetails \<Rightarrow> details_table \<Rightarrow> details_table \<times> NodeConnectionDetails \<times> go_error option" where
  "SetNodeConnectionDetails env ncd0 rows =
     (let ncd = ncd0\<lparr>ncd_UpdatedOn := Some (de_Now env)\<rparr>
      in case de_Exec env of
           Some e \<Rightarrow> (rows, ncd, Some e)
         | None \<Rightarrow>
             (map (\<lambda>r. if ncd_NodeId r = ncd_NodeId ncd
                       then (stored_details env ncd)\<lparr>ncd_CreateOn := ncd_CreateOn r\<rparr> else r) rows, ncd, None))"

definition SetNodeConnectionDetailsByConnectionDetails ::
    "DetailsEnv \<Rightarrow> int \<Rightarrow> Status \<Rightarrow> string \<Rightarrow> bytes option \<Rightarrow> bytes option \<Rightarrow> details_table \<Rightarrow> details_table \<times> go_error option" where
  "SetNodeConnectionDetailsByConnectionDetails env nodeId status grpcAddress tlsDataBytes macaroonDataBytes rows =
     (case getNodeConnectionDetails env rows nodeId of
        Inl e \<Rightarrow> (rows, Some e)
      | Inr ncd \<Rightarrow>
          (case SetNodeConnectionDetails env
                  (ncd\<lparr>ncd_UpdatedOn := Some (de_Now env), ncd_MacaroonDataBytes := macaroonDataBytes,
                       ncd_TLSDataBytes := tlsDataBytes, ncd_GRPCAddress := Some grpcAddress,
                       ncd_Status := status_code status\<rparr>) rows of
             (rows1, ncd1, e) \<Rightarrow> (rows1, e)))"

text \<open>The key must be new, and the node must be a row of the node table.\<close>

definition addNodeConnectionDetails ::
    "DetailsEnv \<Rightarrow> NodeConnectionDetails \<Rightarrow> NodeTable \<Rightarrow> details_table \<Rightarrow> details_table \<times> NodeConnectionDetails \<times> go_error option" where
  "addNodeConnectionDetails env ncd0 db rows =
     (let ncd = ncd0\<lparr>ncd_UpdatedOn := Some (de_Now env)\<rparr>
      in case de_Exec env of
           Some e \<Rightarrow> (rows, ncd, Some e)
         | None \<Rightarrow>
             if list_ex (\<lambda>r. ncd_NodeId r = ncd_NodeId ncd) rows
             then (rows, ncd, Some (Error ''pq: duplicate key value violates unique constraint''))
             else if \<not> list_ex (\<lambda>n. nd_NodeId n = ncd_NodeId ncd) (nt_rows db)
             then (rows, ncd, Some (Error ''pq: insert or update violates foreign key constraint''))
             else (rows @ [stored_details env ncd], ncd, None))"

section \<open>Details without files\<close>

record ConnectionDetails =
  cd_NodeId :: int
  cd_Name :: string
  cd_GRPCAddress :: string
  cd_TLSFileBytes :: "bytes option"
  cd_MacaroonFileBytes :: "bytes option"
  cd_Status :: int
  cd_PingSystem :: PingSystem
  cd_CustomSettings :: NodeConnectionDetailCustomSettings

definition AddPingSystem :: "PingSystem \<Rightarrow> ConnectionDetails \<Rightarrow> ConnectionDetails" where
  "AddPingSystem pingSystem cd = cd\<lparr>cd_PingSystem := cd_PingSystem cd OR pingSystem\<rparr>"

definition HasPingSystem :: "PingSystem \<Rightarrow> ConnectionDetails \<Rightarrow> bool" where
  "HasPingSystem pingSystem cd \<longleftrightarrow> cd_PingSystem cd AND pingSystem \<noteq> 0"

definition RemovePingSystem :: "PingSystem \<Rightarrow> ConnectionDetails \<Rightarrow> ConnectionDetails" where
  "RemovePingSystem pingSystem cd = cd\<lparr>cd_PingSystem := cd_PingSystem cd AND NOT pingSystem\<rparr>"

definition AddNodeCustomSettings :: "NodeConnectionDetailCustomSettings \<Rightarrow> ConnectionDetails \<Rightarrow> ConnectionDetails" where
  "AddNodeCustomSettings customSettings cd = cd\<lparr>cd_CustomSettings := cd_CustomSettings cd OR customSettings\<rparr>"

definition HasNodeCustomSettings :: "NodeConnectionDetailCustomSettings \<Rightarrow> ConnectionDetails \<Rightarrow> bool" where
  "HasNodeCustomSettings customSettings cd \<longleftrightarrow> cd_CustomSettings cd AND customSettings \<noteq> 0"

definition RemoveNodeCustomSettings :: "NodeConnectionDetailCustomSettings \<Rightarrow> ConnectionDetails \<Rightarrow> ConnectionDetails" where
  "RemoveNodeCustomSettings customSettings cd = cd\<lparr>cd_CustomSettings := cd_CustomSettings cd AND NOT customSettings\<rparr>"

text \<open>The status is left out, so it is that of the zero value, \<open>Inactive\<close>.\<close>

fun processConnectionDetails :: "NodeConnectionDetails list \<Rightarrow> ConnectionDetails list" where
  "processConnectionDetails [] = []"
| "processConnectionDetails (ncd # ncds) =
     (case (ncd_GRPCAddress ncd, ncd_TLSDataBytes ncd, ncd_MacaroonDataBytes ncd) of
        (Some grpcAddress, Some tls, Some macaroon) \<Rightarrow>
          \<lparr>cd_NodeId = ncd_NodeId ncd, cd_Name = ncd_Name ncd, cd_GRPCAddress = grpcAddress,
           cd_TLSFileBytes = Some tls, cd_MacaroonFileBytes = Some macaroon,
           cd_Status = status_code Inactive, cd_PingSystem = ping_byte (ncd_PingSystem ncd),
           cd_CustomSettings = ncd_CustomSettings ncd\<rparr> # processConnectionDetails ncds
      | _ \<Rightarrow> processConnectionDetails ncds)"

definition GetActiveNodesConnectionDetails :: "DetailsEnv \<Rightarrow> details_table \<Rightarrow> ConnectionDetails list result" where
  "GetActiveNodesConnectionDetails env rows =
     map_sum id processConnectionDetails (getNodeConnectionDetailsByStatus env rows Active)"

definition GetAmbossPingNodesConnectionDetails :: "DetailsEnv \<Rightarrow> details_table \<Rightarrow> ConnectionDetails list result" where
  "GetAmbossPingNodesConnectionDetails env rows =
     map_sum id processConnectionDetails (getPingConnectionDetails env rows PingAmboss)"

definition GetVectorPingNodesConnectionDetails :: "DetailsEnv \<Rightarrow> details_table \<Rightarrow> ConnectionDetails list result" where
  "GetVectorPingNodesConnectionDetails env rows =
     map_sum id processConnectionDetails (getPingConnectionDetails env rows PingVector)"

text \<open>The details of a node whatever its status; a missing row gives those of node 0.\<close>

definition GetConnectionDetailsById :: "DetailsEnv \<Rightarrow> details_table \<Rightarrow> int \<Rightarrow> ConnectionDetails result" where
  "GetConnectionDetailsById env rows nodeId =
     (case getNodeConnectionDetails env rows nodeId of
        Inl e \<Rightarrow> Inl e
      | Inr ncd \<Rightarrow> Ok
          \<lparr>cd_NodeId = ncd_NodeId ncd, cd_Name = ncd_Name ncd,
           cd_GRPCAddress = (case ncd_GRPCAddress ncd of None \<Rightarrow> [] | Some a \<Rightarrow> a),
           cd_TLSFileBytes = ncd_TLSDataBytes ncd, cd_MacaroonFileBytes = ncd_MacaroonDataBytes ncd,
           cd_Status = ncd_Status ncd, cd_PingSystem = ping_byte (ncd_PingSystem ncd),
           cd_CustomSettings = ncd_CustomSettings ncd\<rparr>)"

section \<open>Nodes of LND\<close>

text \<open>
  The connection to LND at an address and what it answers about itself: its public key and the
  names of its chains and networks.
\<close>

record LndAccess =
  la_Connect :: "string \<Rightarrow> bytes option \<Rightarrow> bytes option \<Rightarrow> go_error option"
  la_IdentityPubkey :: "string \<Rightarrow> string result"
  la_Chains :: "string \<Rightarrow> (string \<times> string) list"

definition chain_of_name :: "string \<Rightarrow> Chain option" where
  "chain_of_name name =
     (if name = ''bitcoin'' then Some Bitcoin else if name = ''litecoin'' then Some Litecoin else None)"

definition network_of_name :: "string \<Rightarrow> Network option" where
  "network_of_name name =
     (if name = ''mainnet'' then Some MainNet else if name = ''testnet'' then Some TestNet
      else if name = ''signet'' then Some SigNet else if name = ''simnet'' then Some SimNet
      else if name = ''regtest'' then Some RegTest else None)"

text \<open>
  The three errors after a successful answer wrap the nil error, which gives nil: the result is the
  empty key on Bitcoin's main network without an error.
\<close>

definition getInformationFromLndNode ::
    "LndAccess \<Rightarrow> string \<Rightarrow> bytes option \<Rightarrow> bytes option \<Rightarrow> (string \<times> Chain \<times> Network) result" where
  "getInformationFromLndNode lnd grpcAddress tlsCert macaroonFile =
     (case la_Connect lnd grpcAddress tlsCert macaroonFile of
        Some e \<Rightarrow> Inl e
      | None \<Rightarrow>
          (case la_IdentityPubkey lnd grpcAddress of
             Inl e \<Rightarrow> Inl e
           | Inr pubkey \<Rightarrow>
               (case la_Chains lnd grpcAddress of
                  [(c, n)] \<Rightarrow>
                    (case (chain_of_name c, network_of_name n) of
                       (Some chain, Some network) \<Rightarrow> Ok (pubkey, chain, network)
                     | _ \<Rightarrow> Ok ([], Bitcoin, MainNet))
                | _ \<Rightarrow> Ok ([], Bitcoin, MainNet))))"

text \<open>What the functions below act on: the node cache, the node table and the table of details.\<close>

record SettingsWorld =
  sw_NodeCache :: NodeState
  sw_Nodes :: NodeTable
  sw_Details :: details_table

definition node_name :: "int \<Rightarrow> string" where
  "node_name nodeId = ''Node_'' @ format_int nodeId"

definition torq_node_write ::
    "DetailsEnv \<Rightarrow> NodeConnectionDetails \<Rightarrow> int \<Rightarrow> string \<Rightarrow> Chain \<Rightarrow> Network \<Rightarrow> SettingsWorld \<Rightarrow> SettingsWorld option" where
  "torq_node_write env ncd nodeId publicKey chain network w =
     (case SetTorqNode (de_NodeOrds env) nodeId (ncd_Name ncd)
             (if ncd_Status ncd = status_code Active then Active else Inactive) publicKey chain network (sw_NodeCache w) of
        Served s r \<Rightarrow> Some (w\<lparr>sw_NodeCache := s\<rparr>)
      | _ \<Rightarrow> None)"

text \<open>None: a cache gives no answer.\<close>

definition AddNodeToDB ::
    "DetailsEnv \<Rightarrow> LndAccess \<Rightarrow> Implementation \<Rightarrow> string \<Rightarrow> bytes option \<Rightarrow> bytes option \<Rightarrow> SettingsWorld \<Rightarrow>
     (SettingsWorld \<times> NodeConnectionDetails result) option" where
  "AddNodeToDB env lnd implementation grpcAddress tlsDataBytes macaroonDataBytes w =
     (case getInformationFromLndNode lnd grpcAddress tlsDataBytes macaroonDataBytes of
        Inl e \<Rightarrow> Some (w, Inl e)
      | Inr (publicKey, chain, network) \<Rightarrow>
      (case AddNodeWhenNew (de_NodeFails env) (de_NodeOrds env) (de_Now env)
              (zeroNode\<lparr>nd_PublicKey := publicKey, nd_Chain := chain, nd_Network := network\<rparr>) (sw_NodeCache w) (sw_Nodes w) of
         None \<Rightarrow> None
       | Some (nodeId, Some e, db) \<Rightarrow> Some (w\<lparr>sw_Nodes := db\<rparr>, Inl e)
       | Some (nodeId, None, db) \<Rightarrow>
      (let w1 = w\<lparr>sw_Nodes := db\<rparr> in
       case getNodeConnectionDetails env (sw_Details w) nodeId of
         Inl e \<Rightarrow> Some (w1, Inl e)
       | Inr existing \<Rightarrow>
           if ncd_NodeId existing = nodeId
           then (case SetNodeConnectionDetails env
                        (existing\<lparr>ncd_GRPCAddress := Some grpcAddress, ncd_TLSDataBytes := tlsDataBytes,
                                  ncd_MacaroonDataBytes := macaroonDataBytes\<rparr>) (sw_Details w) of
                   (rows, ncd, Some e) \<Rightarrow> Some (w1\<lparr>sw_Details := rows\<rparr>, Inl e)
                 | (rows, ncd, None) \<Rightarrow> Some (w1\<lparr>sw_Details := rows\<rparr>, Ok ncd))
           else
             (let details = zeroDetails\<lparr>ncd_NodeId := nodeId, ncd_Name := node_name nodeId,
                    ncd_Implementation := implementation, ncd_GRPCAddress := Some grpcAddress,
                    ncd_Status := status_code Active, ncd_TLSDataBytes := tlsDataBytes,
                    ncd_MacaroonDataBytes := macaroonDataBytes, ncd_CreateOn := de_Now env\<rparr>
              in case addNodeConnectionDetails env details db (sw_Details w) of
                   (rows, ncd, Some e) \<Rightarrow> Some (w1\<lparr>sw_Details := rows\<rparr>, Inl e)
                 | (rows, ncd, None) \<Rightarrow>
                     map_option (\<lambda>w2. (w2, Ok ncd))
                       (torq_node_write env details nodeId publicKey chain network (w1\<lparr>sw_Details := rows\<rparr>))))))"

section \<open>Filling the node cache\<close>

fun set_torq_nodes :: "DetailsEnv \<Rightarrow> NodeConnectionDetails list \<Rightarrow> SettingsWorld \<Rightarrow> SettingsWorld option" where
  "set_torq_nodes env [] w = Some w"
| "set_torq_nodes env (torqNode # rest) w =
     (case GetNodeById (de_NodeFails env) (sw_Nodes w) (ncd_NodeId torqNode) of
        Inl e \<Rightarrow> set_torq_nodes env rest w
      | Inr node \<Rightarrow>
          (case torq_node_write env torqNode (nd_NodeId node) (nd_PublicKey node) (nd_Chain node) (nd_Network node) w of
             None \<Rightarrow> None
           | Some w1 \<Rightarrow> set_torq_nodes env rest w1))"

text \<open>
  The rows of the query, in some order: the nodes at either end of a channel with the status of that
  channel.  A row may fail to be scanned, which ends the loop.
\<close>

type_synonym channel_node = "(string \<times> Chain \<times> Network \<times> int \<times> ChannelStatus) result"

definition channel_node_rows :: "NodeTable \<Rightarrow> Channel list \<Rightarrow> channel_node list" where
  "channel_node_rows db chans =
     remdups (concat (map (\<lambda>n. map (\<lambda>c. Ok (nd_PublicKey n, nd_Chain n, nd_Network n, nd_NodeId n, ch_Status c))
       (filter (\<lambda>c. ch_FirstNodeId c = nd_NodeId n \<or> ch_SecondNodeId c = nd_NodeId n) chans)) (nt_rows db)))"

fun set_channel_nodes ::
    "DetailsEnv \<Rightarrow> channel_node list \<Rightarrow> SettingsWorld \<Rightarrow> (SettingsWorld \<times> go_error option) option" where
  "set_channel_nodes env [] w = Some (w, None)"
| "set_channel_nodes env (Inl e # rest) w = Some (w, Some e)"
| "set_channel_nodes env (Inr (publicKey, chain, network, nodeId, status) # rest) w =
     (case SetChannelNode (de_NodeOrds env) nodeId publicKey chain network status (sw_NodeCache w) of
        Served s r \<Rightarrow> set_channel_nodes env rest (w\<lparr>sw_NodeCache := s\<rparr>)
      | _ \<Rightarrow> None)"

definition InitializeManagedNodeCache ::
    "DetailsEnv \<Rightarrow> go_error option \<Rightarrow> channel_node list \<Rightarrow> SettingsWorld \<Rightarrow> (SettingsWorld \<times> go_error option) option" where
  "InitializeManagedNodeCache env queryFails channelNodes w =
     (case (case getAllNodeConnectionDetails env (sw_Details w) True of
              Inl e \<Rightarrow> Some w
            | Inr ncds \<Rightarrow> set_torq_nodes env ncds w) of
        None \<Rightarrow> None
      | Some w1 \<Rightarrow>
          (case queryFails of
             Some e \<Rightarrow> Some (w1, Some e)
           | None \<Rightarrow> set_channel_nodes env channelNodes w1))"


section \<open>Flags\<close>

text \<open>
  On bytes the arithmetic of the statements is what the bit operations do: the remainder tests the
  flag, adding sets it where it is clear, subtracting clears it where it is set.
\<close>

definition flag_arithmetic :: "PingSystem \<Rightarrow> int \<Rightarrow> bool" where
  "flag_arithmetic p x \<longleftrightarrow>
     ping_set p x = (ping_byte x AND p \<noteq> 0) \<and>
     (if ping_set p x then x - uint p = uint (ping_byte x AND NOT p) else x + uint p = uint (ping_byte x OR p))"

lemma flag_arithmetic_all:
  "list_all (flag_arithmetic 1) [0..255]" "list_all (flag_arithmetic 2) [0..255]"
  by code_simp+

lemma flag_arithmetic_byte:
  assumes "p = PingAmboss \<or> p = PingVector" and "0 \<le> x" and "x < 256"
  shows "flag_arithmetic p x"
  using assms flag_arithmetic_all by (auto simp: list_all_iff PingAmboss_def PingVector_def)

definition byte_flags :: "NodeConnectionDetails \<Rightarrow> bool" where
  "byte_flags r \<longleftrightarrow> 0 \<le> ncd_PingSystem r \<and> ncd_PingSystem r < 256"

lemma ping_set_flag:
  "p = PingAmboss \<or> p = PingVector \<Longrightarrow> byte_flags r \<Longrightarrow> ping_set p (ncd_PingSystem r) = HasNotificationType p r"
  using flag_arithmetic_byte by (simp add: byte_flags_def flag_arithmetic_def HasNotificationType_def)

lemma scan_byte_flags: "byte_flags r \<Longrightarrow> scan_details r = Ok r"
  by (simp add: byte_flags_def scan_details_def)

lemma scan_all_byte_flags: "\<forall>r \<in> set rows. byte_flags r \<Longrightarrow> scan_all rows = Ok rows"
  by (induction rows) (simp_all add: scan_byte_flags)

definition changed_flag :: "DetailsEnv \<Rightarrow> int \<Rightarrow> PingSystem \<Rightarrow> bool \<Rightarrow> NodeConnectionDetails \<Rightarrow> NodeConnectionDetails" where
  "changed_flag env nodeId p active r =
     (if ncd_NodeId r = nodeId \<and> HasNotificationType p r \<noteq> active
      then ((if active then AddNotificationType p r else RemoveNotificationType p r)\<lparr>ncd_UpdatedOn := Some (de_Now env)\<rparr>)
      else r)"

lemma flag_set: "(x OR p) AND p = p" and flag_clear: "(x AND NOT p) AND p = 0" for x p :: PingSystem
  by (rule bit_eqI, auto simp: bit_simps)+

lemma changed_flag_byte: "byte_flags r \<Longrightarrow> byte_flags (changed_flag env nodeId p active r)"
  using unsigned_less [where 'a = int and 'b = 8]
  by (auto simp: changed_flag_def byte_flags_def AddNotificationType_def RemoveNotificationType_def)

lemma ping_update_flags:
  assumes p: "p = PingAmboss \<or> p = PingVector" and bytes: "\<forall>r \<in> set rows. byte_flags r"
    and exec: "de_Exec env = None"
  shows "fst (setNodeConnectionDetailsPingSystemStatus env nodeId p status rows)
     = map (changed_flag env nodeId p (status = status_code Active)) rows"
proof -
  have dbl: "p * 2 \<noteq> 0" using p by (auto simp: PingAmboss_def PingVector_def)
  have small: "uint p \<le> 2" using p by (auto simp: PingAmboss_def PingVector_def)
  have after: "ping_after add p r < 2 ^ 31" if "r \<in> set rows" for add r
  proof -
    have "ncd_PingSystem r < 256" using bytes that by (simp add: byte_flags_def)
    then have "ncd_PingSystem r + uint p \<le> 258" "ncd_PingSystem r - uint p \<le> 258"
      using small uint_ge_0 [of p] by linarith+
    then show ?thesis by (cases add) (simp_all add: ping_after_def)
  qed
  have range: "\<not> list_ex (\<lambda>r. c r \<and> 2 ^ 31 \<le> ping_after add p r) rows" for c add
    using after by (auto simp: list_ex_iff not_le)
  have row: "(if ping_due add nodeId p r
      then r\<lparr>ncd_PingSystem := ping_after add p r, ncd_UpdatedOn := Some (de_Now env)\<rparr> else r)
      = changed_flag env nodeId p add r" if "r \<in> set rows" for add r
  proof -
    have "byte_flags r" using bytes that by blast
    then have "flag_arithmetic p (ncd_PingSystem r)" "ping_set p (ncd_PingSystem r) = HasNotificationType p r"
      using flag_arithmetic_byte [OF p] ping_set_flag [OF p] by (auto simp: byte_flags_def)
    then show ?thesis
      by (auto simp: ping_due_def ping_after_def changed_flag_def flag_arithmetic_def
          AddNotificationType_def RemoveNotificationType_def)
  qed
  show ?thesis
    unfolding setNodeConnectionDetailsPingSystemStatus_def exec Let_def
    by (simp only: option.case dbl range simp_thms if_False fst_conv map_cong [OF refl row])
qed

text \<open>
  Switching a ping service of a node on or off by the arithmetic of the SQL statements is setting
  or clearing its bit with the Go methods, in the row of that node and in no other; the node is then
  found, or no longer found, by the query for that service exactly as its flag and status say.
\<close>

lemma ping_switch_sets_flag:
  assumes p: "p = PingAmboss \<or> p = PingVector" and bytes: "\<forall>r \<in> set rows. byte_flags r"
    and exec: "de_Exec env = None" and sel: "de_Select env = None"
    and run: "setNodeConnectionDetailsPingSystemStatus env nodeId p status rows = (rows1, res)"
  shows "rows1 = map (changed_flag env nodeId p (status = status_code Active)) rows \<and>
     (\<forall>r \<in> set rows1. ncd_NodeId r = nodeId \<longrightarrow> HasNotificationType p r = (status = status_code Active)) \<and>
     (\<exists>ids. GetPingSystemNodeIds env rows1 p = Ok ids \<and>
        set ids = {ncd_NodeId r | r. r \<in> set rows1 \<and> ncd_Status r = status_code Active \<and> HasNotificationType p r})"
proof -
  have rows1: "rows1 = map (changed_flag env nodeId p (status = status_code Active)) rows"
    using ping_update_flags [OF p bytes exec] run by (metis fst_conv)
  then have bytes1: "\<forall>r \<in> set rows1. byte_flags r" using bytes changed_flag_byte by auto
  have p0: "p \<noteq> 0" using p by (auto simp: PingAmboss_def PingVector_def)
  have has: "HasNotificationType p (changed_flag env nodeId p act r) = act"
    if "ncd_NodeId (changed_flag env nodeId p act r) = nodeId" for act r
    using that p0 by (auto simp: changed_flag_def HasNotificationType_def AddNotificationType_def
        RemoveNotificationType_def flag_set flag_clear split: if_splits)
  show ?thesis
    using rows1 has bytes1 sel
    by (auto simp: GetPingSystemNodeIds_def active_with_ping_def ping_set_flag [OF p])
qed

definition sample_details_env :: DetailsEnv where
  "sample_details_env =
     \<lparr>de_Now = 7, de_Get = None, de_Select = None, de_Exec = None, de_RowsAffected = None, de_Bytes = id,
      de_NodeFails = no_node_failures, de_NodeOrds = idOrders\<rparr>"

definition sample_details :: "int \<Rightarrow> int \<Rightarrow> NodeConnectionDetails" where
  "sample_details nodeId ping = zeroDetails\<lparr>ncd_NodeId := nodeId, ncd_Status := 1, ncd_PingSystem := ping\<rparr>"

lemma sample_ping_switch:
  "setNodeConnectionDetailsPingSystemStatus sample_details_env 4 2 1 [sample_details 3 0, sample_details 4 1]
   = ([sample_details 3 0, (sample_details 4 3)\<lparr>ncd_UpdatedOn := Some 7\<rparr>], Ok 1)"
  by (simp add: setNodeConnectionDetailsPingSystemStatus_def ping_due_def ping_after_def ping_set_def
      affected_def sample_details_env_def sample_details_def zeroDetails_def signed_modulo_int_def)

lemma ping_switch_sets_flag_witness:
  "\<exists>rows1 res ids. setNodeConnectionDetailsPingSystemStatus sample_details_env 4 2 1 [sample_details 3 0, sample_details 4 1]
       = (rows1, res) \<and> map ncd_PingSystem rows1 = [0, 3]
     \<and> GetPingSystemNodeIds sample_details_env rows1 2 = Ok ids \<and> 4 \<in> set ids"
proof -
  let ?r = "(sample_details 4 3)\<lparr>ncd_UpdatedOn := Some 7\<rparr>"
  have p: "(2 :: PingSystem) = PingAmboss \<or> (2 :: PingSystem) = PingVector" by (simp add: PingVector_def)
  have bytes: "\<forall>r \<in> set [sample_details 3 0, sample_details 4 1]. byte_flags r"
    by (simp add: byte_flags_def sample_details_def)
  have env: "de_Exec sample_details_env = None" "de_Select sample_details_env = None"
    by (simp_all add: sample_details_env_def)
  from ping_switch_sets_flag [OF p bytes env sample_ping_switch]
  obtain ids where has: "\<forall>r \<in> {sample_details 3 0, ?r}. ncd_NodeId r = 4 \<longrightarrow> HasNotificationType 2 r"
    and ids: "GetPingSystemNodeIds sample_details_env [sample_details 3 0, ?r] 2 = Ok ids"
    "set ids = {ncd_NodeId r | r. r \<in> {sample_details 3 0, ?r} \<and> ncd_Status r = status_code Active \<and> HasNotificationType 2 r}"
    by auto
  have r: "ncd_NodeId ?r = 4" "ncd_Status ?r = status_code Active" "map ncd_PingSystem [sample_details 3 0, ?r] = [0, 3]"
    by (simp_all add: sample_details_def)
  from has r(1) have h: "HasNotificationType 2 ?r" by (metis insertCI)
  have "4 \<in> set ids" unfolding ids(2) using r(1,2) h by (intro CollectI exI [of _ ?r]) simp
  with ids(1) sample_ping_switch r(3) show ?thesis by (metis (no_types))
qed

section \<open>The table\<close>

datatype DetailsCall =
    SetStatusCall int int
  | SetPingCall int PingSystem int
  | SetCall NodeConnectionDetails
  | AddCall NodeConnectionDetails

text \<open>Each call comes with what the database and the clock answer to it.\<close>

definition details_call ::
    "NodeTable \<Rightarrow> details_table \<Rightarrow> DetailsEnv \<times> DetailsCall \<Rightarrow> (details_table, unit) outcome" where
  "details_call db rows envcall = (let (env, call) = envcall in Served
     (case call of
        SetStatusCall nodeId status \<Rightarrow> fst (setNodeConnectionDetailsStatus env nodeId status rows)
      | SetPingCall nodeId pingSystem status \<Rightarrow>
          fst (setNodeConnectionDetailsPingSystemStatus env nodeId pingSystem status rows)
      | SetCall ncd \<Rightarrow> fst (SetNodeConnectionDetails env ncd rows)
      | AddCall ncd \<Rightarrow> fst (addNodeConnectionDetails env ncd db rows)) None)"

text \<open>
  The calls that Go's types allow: the flags of a details struct are a byte.  The ping system of a
  switch may be any byte, as the route takes it from the path without a look at it.
\<close>

fun go_typed :: "DetailsCall \<Rightarrow> bool" where
  "go_typed (SetStatusCall nodeId status) = True"
| "go_typed (SetPingCall nodeId pingSystem status) = True"
| "go_typed (SetCall ncd) = byte_flags ncd"
| "go_typed (AddCall ncd) = byte_flags ncd"

definition keys_ok :: "NodeTable \<Rightarrow> details_table \<Rightarrow> bool" where
  "keys_ok db rows \<longleftrightarrow>
     distinct (map ncd_NodeId rows) \<and> ncd_NodeId ` set rows \<subseteq> nd_NodeId ` set (nt_rows db)"

lemma keys_ok_map: "(\<And>r. ncd_NodeId (f r) = ncd_NodeId r) \<Longrightarrow> keys_ok db (map f rows) = keys_ok db rows"
  by (simp add: keys_ok_def o_def image_image)

lemma SetStatus_rows:
  "\<exists>f. fst (setNodeConnectionDetailsStatus env nodeId status rows) = map f rows \<and>
     (\<forall>r. ncd_NodeId (f r) = ncd_NodeId r \<and> ncd_PingSystem (f r) = ncd_PingSystem r)"
proof (cases "de_Exec env")
  case None
  then show ?thesis
    by (intro exI [of _ "\<lambda>r. if ncd_NodeId r = nodeId \<and> ncd_Status r \<noteq> status
        then r\<lparr>ncd_Status := status, ncd_UpdatedOn := Some (de_Now env)\<rparr> else r"])
      (simp add: setNodeConnectionDetailsStatus_def Let_def)
next
  case (Some e)
  then show ?thesis by (intro exI [of _ "\<lambda>r. r"]) (simp add: setNodeConnectionDetailsStatus_def)
qed

lemma SetPing_rows:
  "\<exists>f. fst (setNodeConnectionDetailsPingSystemStatus env nodeId p status rows) = map f rows \<and>
     (\<forall>r. ncd_NodeId (f r) = ncd_NodeId r)"
proof -
  let ?out = "fst (setNodeConnectionDetailsPingSystemStatus env nodeId p status rows)"
  let ?f = "\<lambda>r. if ping_due (status = 1) nodeId p r
    then r\<lparr>ncd_PingSystem := ping_after (status = 1) p r, ncd_UpdatedOn := Some (de_Now env)\<rparr> else r"
  have "?out = map (\<lambda>r. r) rows \<or> ?out = map ?f rows"
    by (simp add: setNodeConnectionDetailsPingSystemStatus_def Let_def split: option.splits)
  then show ?thesis
  proof
    assume "?out = map ?f rows"
    then show ?thesis by (intro exI [of _ ?f]) simp
  qed (intro exI [of _ "\<lambda>r. r"], simp)
qed

lemma Set_rows:
  "\<exists>f. fst (SetNodeConnectionDetails env ncd rows) = map f rows \<and>
     (\<forall>r. ncd_NodeId (f r) = ncd_NodeId r \<and> (ncd_PingSystem (f r) = ncd_PingSystem r \<or> ncd_PingSystem (f r) = ncd_PingSystem ncd))"
proof (cases "de_Exec env")
  case None
  then show ?thesis
    by (intro exI [of _ "\<lambda>r. if ncd_NodeId r = ncd_NodeId ncd
        then (stored_details env (ncd\<lparr>ncd_UpdatedOn := Some (de_Now env)\<rparr>))\<lparr>ncd_CreateOn := ncd_CreateOn r\<rparr> else r"])
      (simp add: SetNodeConnectionDetails_def stored_details_def Let_def)
next
  case (Some e)
  then show ?thesis by (intro exI [of _ "\<lambda>r. r"]) (simp add: SetNodeConnectionDetails_def Let_def)
qed

lemma Add_rows:
  obtains "fst (addNodeConnectionDetails env ncd db rows) = rows"
  | r where "fst (addNodeConnectionDetails env ncd db rows) = rows @ [r]"
      "ncd_NodeId r = ncd_NodeId ncd" "ncd_PingSystem r = ncd_PingSystem ncd"
      "ncd_NodeId ncd \<notin> ncd_NodeId ` set rows" "ncd_NodeId ncd \<in> nd_NodeId ` set (nt_rows db)"
proof (cases "de_Exec env = None \<and> ncd_NodeId ncd \<notin> ncd_NodeId ` set rows \<and> ncd_NodeId ncd \<in> nd_NodeId ` set (nt_rows db)")
  case True
  then have "\<not> list_ex (\<lambda>r. ncd_NodeId r = ncd_NodeId ncd) rows" "list_ex (\<lambda>n. nd_NodeId n = ncd_NodeId ncd) (nt_rows db)"
    by (force simp: list_ex_iff)+
  with True that(2) [of "stored_details env (ncd\<lparr>ncd_UpdatedOn := Some (de_Now env)\<rparr>)"] show ?thesis
    by (simp add: addNodeConnectionDetails_def stored_details_def Let_def)
next
  case False
  then have "fst (addNodeConnectionDetails env ncd db rows) = rows"
    by (force simp: addNodeConnectionDetails_def Let_def list_ex_iff split: option.splits)
  then show ?thesis by (rule that(1))
qed

lemma keys_ok_call:
  assumes "keys_ok db rows" and "details_call db rows (env, call) = Served rows1 r"
  shows "keys_ok db rows1"
proof (cases call)
  case (SetStatusCall nodeId status)
  with assms SetStatus_rows [of env nodeId status rows] show ?thesis
    by (auto simp: details_call_def keys_ok_map)
next
  case (SetPingCall nodeId p status)
  with assms SetPing_rows [of env nodeId p status rows] show ?thesis
    by (auto simp: details_call_def keys_ok_map)
next
  case (SetCall ncd)
  with assms Set_rows [of env ncd rows] show ?thesis
    by (auto simp: details_call_def keys_ok_map)
next
  case (AddCall ncd)
  then have rows1: "rows1 = fst (addNodeConnectionDetails env ncd db rows)"
    using assms(2) by (simp add: details_call_def)
  show ?thesis
    by (rule Add_rows [of env ncd db rows]) (use assms(1) in \<open>auto simp: rows1 keys_ok_def simp del: fst_conv\<close>)
qed

interpretation details_rows: cache_server "details_call db" "[]" "keys_ok db" for db
  by unfold_locales (simp add: keys_ok_def, metis keys_ok_call surj_pair)

text \<open>A switch of the flag of a ping service keeps a byte a byte; any switch only touches its node.\<close>

lemma SetPing_flags:
  assumes "r1 \<in> set (fst (setNodeConnectionDetailsPingSystemStatus env nodeId p status rows))"
  shows "\<exists>r \<in> set rows. ncd_NodeId r1 = ncd_NodeId r \<and> (ncd_NodeId r \<noteq> nodeId \<longrightarrow> r1 = r) \<and>
    ((p = PingAmboss \<or> p = PingVector) \<and> byte_flags r \<longrightarrow> byte_flags r1)"
proof -
  let ?f = "\<lambda>r. if ping_due (status = 1) nodeId p r
    then r\<lparr>ncd_PingSystem := ping_after (status = 1) p r, ncd_UpdatedOn := Some (de_Now env)\<rparr> else r"
  have "fst (setNodeConnectionDetailsPingSystemStatus env nodeId p status rows) = rows \<or>
      fst (setNodeConnectionDetailsPingSystemStatus env nodeId p status rows) = map ?f rows"
    by (simp add: setNodeConnectionDetailsPingSystemStatus_def Let_def split: option.splits)
  with assms obtain r where r: "r \<in> set rows" "r1 = r \<or> r1 = ?f r" by auto
  have "byte_flags (?f r)" if "p = PingAmboss \<or> p = PingVector" "byte_flags r"
    using flag_arithmetic_byte [OF that(1), of "ncd_PingSystem r"] that(2)
      unsigned_less [where 'a = int and 'b = 8]
    by (auto simp: byte_flags_def flag_arithmetic_def ping_due_def ping_after_def)
  with r show ?thesis by (intro bexI [of _ r]) (auto simp: ping_due_def)
qed

text \<open>The nodes that a call switched a flag of other than those of the two ping services.\<close>

definition odd_switch :: "(DetailsEnv \<times> DetailsCall) list \<Rightarrow> int \<Rightarrow> bool" where
  "odd_switch calls n \<longleftrightarrow> (\<exists>env p status. (env, SetPingCall n p status) \<in> set calls \<and> p \<noteq> PingAmboss \<and> p \<noteq> PingVector)"

lemma flags_call:
  assumes "go_typed call" and "details_call db rows (env, call) = Served rows1 u" and "r1 \<in> set rows1"
  shows "byte_flags r1 \<or> odd_switch [(env, call)] (ncd_NodeId r1) \<or>
    (\<exists>r \<in> set rows. ncd_NodeId r = ncd_NodeId r1 \<and> \<not> byte_flags r)"
proof (cases call)
  case (SetStatusCall nodeId status)
  obtain f where "rows1 = map f rows" "\<And>r. ncd_NodeId (f r) = ncd_NodeId r \<and> ncd_PingSystem (f r) = ncd_PingSystem r"
    using SetStatus_rows [of env nodeId status rows] assms(2) SetStatusCall by (auto simp: details_call_def)
  with assms(3) show ?thesis by (auto simp: byte_flags_def)
next
  case (SetPingCall nodeId p status)
  then have "r1 \<in> set (fst (setNodeConnectionDetailsPingSystemStatus env nodeId p status rows))"
    using assms(2,3) by (simp add: details_call_def)
  from SetPing_flags [OF this] SetPingCall show ?thesis by (auto simp: odd_switch_def)
next
  case (SetCall ncd)
  obtain f where f: "rows1 = map f rows" "\<And>r. ncd_NodeId (f r) = ncd_NodeId r \<and>
      (ncd_PingSystem (f r) = ncd_PingSystem r \<or> ncd_PingSystem (f r) = ncd_PingSystem ncd)"
    using Set_rows [of env ncd rows] assms(2) SetCall by (auto simp: details_call_def)
  from assms(3) f(1) obtain r where r: "r \<in> set rows" "r1 = f r" by auto
  have "byte_flags ncd" using assms(1) SetCall by simp
  with f(2) [of r] r show ?thesis by (auto simp: byte_flags_def)
next
  case (AddCall ncd)
  then have rows1: "rows1 = fst (addNodeConnectionDetails env ncd db rows)" and "byte_flags ncd"
    using assms(1,2) by (simp_all add: details_call_def)
  with assms(3) show ?thesis
    by - (rule Add_rows [of env ncd db rows], auto simp: byte_flags_def)
qed

lemma odd_switch_Cons: "odd_switch (c # cs) n \<longleftrightarrow> odd_switch [c] n \<or> odd_switch cs n"
  unfolding odd_switch_def by (cases c) (simp, blast)

lemma flags_calls:
  "serves (details_call db) rows calls rows1 \<Longrightarrow> \<forall>(env, c) \<in> set calls. go_typed c \<Longrightarrow> r1 \<in> set rows1 \<Longrightarrow>
   byte_flags r1 \<or> odd_switch calls (ncd_NodeId r1) \<or> (\<exists>r \<in> set rows. ncd_NodeId r = ncd_NodeId r1 \<and> \<not> byte_flags r)"
proof (induction rows calls rows1 arbitrary: r1 rule: serves.induct)
  case (serves_Cons rows ec rows2 u calls rows1)
  obtain env c where ec: "ec = (env, c)" by (cases ec)
  with serves_Cons.prems(1) have c: "go_typed c" by simp
  from serves_Cons.IH serves_Cons.prems consider "byte_flags r1" | "odd_switch calls (ncd_NodeId r1)"
    | r where "r \<in> set rows2" "ncd_NodeId r = ncd_NodeId r1" "\<not> byte_flags r" by fastforce
  then show ?case
  proof cases
    case 3
    with flags_call [OF c serves_Cons.hyps(1) [unfolded ec] 3(1)] show ?thesis
      by (auto simp: ec odd_switch_Cons [of _ calls])
  qed (auto simp: odd_switch_Cons [of _ calls])
qed auto

lemma scan_all_iff: "(\<exists>rs. scan_all rows = Ok rs) \<longleftrightarrow> (\<forall>r \<in> set rows. byte_flags r)"
proof (induction rows)
  case (Cons r rows)
  then show ?case by (cases "scan_all rows") (auto simp: scan_details_def byte_flags_def)
qed simp



section \<open>LND's own node\<close>

lemma AddNodeWhenNew_outcome:
  assumes "AddNodeWhenNew fails ords now node cache db = Some (i, e, db1)"
  shows "set (nt_rows db) \<subseteq> set (nt_rows db1)" and "node_table_ok db \<Longrightarrow> e = None \<Longrightarrow> i \<noteq> 0"
proof -
  show "set (nt_rows db) \<subseteq> set (nt_rows db1)"
    using assms by (auto simp: AddNodeWhenNew_def split: option.splits sum.splits if_splits)
  assume ok: "node_table_ok db" and "e = None"
  then show "i \<noteq> 0"
    using assms find_first_key [of node "nt_rows db"]
    by (auto simp: AddNodeWhenNew_def GetNodeByPublicKey_def node_table_ok_def split: option.splits if_splits)
qed

lemma keys_ok_more_nodes:
  "keys_ok db rows \<Longrightarrow> set (nt_rows db) \<subseteq> set (nt_rows db1) \<Longrightarrow> keys_ok db1 rows"
  unfolding keys_ok_def by (meson image_mono subset_trans)

lemma torq_node_write_details: "torq_node_write env ncd i k c n w = Some w1 \<Longrightarrow>
    sw_Details w1 = sw_Details w \<and> sw_Nodes w1 = sw_Nodes w"
  by (auto simp: torq_node_write_def split: outcome.splits)

definition connected_row :: "DetailsEnv \<Rightarrow> string \<Rightarrow> bytes option \<Rightarrow> bytes option \<Rightarrow> NodeConnectionDetails \<Rightarrow> bool" where
  "connected_row env grpcAddress tls macaroon r \<longleftrightarrow>
     ncd_GRPCAddress r = Some grpcAddress \<and> ncd_TLSDataBytes r = de_Bytes env tls \<and>
     ncd_MacaroonDataBytes r = de_Bytes env macaroon"

lemma AddNodeToDB_existing:
  assumes "keys_ok db rows" and "getNodeConnectionDetails env rows i = Ok existing" and "ncd_NodeId existing = i" and "i \<noteq> 0"
    and "SetNodeConnectionDetails env (existing\<lparr>ncd_GRPCAddress := Some a, ncd_TLSDataBytes := t, ncd_MacaroonDataBytes := m\<rparr>) rows
      = (rows1, ncd, None)"
  shows "keys_ok db rows1 \<and> ncd_NodeId ncd = i \<and> (\<exists>r \<in> set rows1. ncd_NodeId r = i \<and> connected_row env a t m r)
     \<and> filter (\<lambda>r. ncd_NodeId r \<noteq> i) rows1 = filter (\<lambda>r. ncd_NodeId r \<noteq> i) rows"
proof -
  let ?n = "existing\<lparr>ncd_GRPCAddress := Some a, ncd_TLSDataBytes := t, ncd_MacaroonDataBytes := m,
    ncd_UpdatedOn := Some (de_Now env)\<rparr>"
  let ?f = "\<lambda>r. if ncd_NodeId r = i then (stored_details env ?n)\<lparr>ncd_CreateOn := ncd_CreateOn r\<rparr> else r"
  have rows1: "rows1 = map ?f rows" "ncd = ?n"
    using assms(3,5) by (auto simp: SetNodeConnectionDetails_def Let_def split: option.splits)
  obtain r where r: "r \<in> set rows" "ncd_NodeId r = i"
    using assms(2,3,4) nth_mem
    by (fastforce simp: getNodeConnectionDetails_def zeroDetails_def find_Some_iff split: option.splits)
  then have "?f r \<in> set rows1" "connected_row env a t m (?f r)" "ncd_NodeId (?f r) = i"
    using assms(3) by (auto simp: rows1 connected_row_def stored_details_def)
  moreover have "keys_ok db rows1"
    using assms(1,3) unfolding rows1 by (subst keys_ok_map) (auto simp: stored_details_def)
  moreover have "filter (\<lambda>r. ncd_NodeId r \<noteq> i) rows1 = filter (\<lambda>r. ncd_NodeId r \<noteq> i) rows"
    unfolding rows1 by (induction rows) (use assms(3) in \<open>auto simp: stored_details_def\<close>)
  ultimately show ?thesis using assms(3) by (auto simp: rows1(2))
qed

lemma AddNodeToDB_new:
  assumes "addNodeConnectionDetails env details db rows = (rows1, ncd, None)" and "keys_ok db rows"
    and "ncd_NodeId details = i" and "ncd_GRPCAddress details = Some a"
    and "ncd_TLSDataBytes details = t" and "ncd_MacaroonDataBytes details = m"
  shows "keys_ok db rows1 \<and> ncd_NodeId ncd = i \<and> (\<exists>r \<in> set rows1. ncd_NodeId r = i \<and> connected_row env a t m r)
     \<and> filter (\<lambda>r. ncd_NodeId r \<noteq> i) rows1 = filter (\<lambda>r. ncd_NodeId r \<noteq> i) rows"
proof -
  let ?n = "details\<lparr>ncd_UpdatedOn := Some (de_Now env)\<rparr>"
  from assms(1,3) have rows1: "rows1 = rows @ [stored_details env ?n]" "ncd = ?n"
    and fresh: "\<forall>r \<in> set rows. ncd_NodeId r \<noteq> i" and "\<exists>n \<in> set (nt_rows db). nd_NodeId n = i"
    by (auto simp: addNodeConnectionDetails_def Let_def list_ex_iff split: option.splits if_splits)
  then have known: "i \<in> nd_NodeId ` set (nt_rows db)" by blast
  have sd: "ncd_NodeId (stored_details env ?n) = i" "connected_row env a t m (stored_details env ?n)"
    using assms(3-6) by (simp_all add: stored_details_def connected_row_def)
  have "keys_ok db rows1" using assms(2) fresh known sd(1) unfolding rows1 keys_ok_def by auto
  moreover have "filter (\<lambda>r. ncd_NodeId r \<noteq> i) rows1 = filter (\<lambda>r. ncd_NodeId r \<noteq> i) rows"
    using sd(1) by (simp add: rows1)
  ultimately show ?thesis using sd assms(3) by (auto simp: rows1)
qed

text \<open>
  Adding the node of a configured LND leaves exactly one row for it, with the address and the
  credentials given, changes no row of another node, and keeps the table keyed by known nodes.
\<close>

lemma configured_node_has_one_row:
  assumes "node_table_ok (sw_Nodes w)" and "keys_ok (sw_Nodes w) (sw_Details w)"
    and "AddNodeToDB env lnd impl a t m w = Some (w1, Ok ncd)"
  shows "length (filter (\<lambda>r. ncd_NodeId r = ncd_NodeId ncd) (sw_Details w1)) = 1
     \<and> (\<exists>r \<in> set (sw_Details w1). ncd_NodeId r = ncd_NodeId ncd \<and> connected_row env a t m r)
     \<and> filter (\<lambda>r. ncd_NodeId r \<noteq> ncd_NodeId ncd) (sw_Details w1) = filter (\<lambda>r. ncd_NodeId r \<noteq> ncd_NodeId ncd) (sw_Details w)
     \<and> keys_ok (sw_Nodes w1) (sw_Details w1)"
proof -
  from assms(3) obtain k c n i db where add: "AddNodeWhenNew (de_NodeFails env) (de_NodeOrds env) (de_Now env)
      (zeroNode\<lparr>nd_PublicKey := k, nd_Chain := c, nd_Network := n\<rparr>) (sw_NodeCache w) (sw_Nodes w) = Some (i, None, db)"
    and rest: "AddNodeToDB env lnd impl a t m w = Some (w1, Ok ncd)"
    and info: "getInformationFromLndNode lnd a t m = Ok (k, c, n)"
    by (auto simp: AddNodeToDB_def split: sum.splits option.splits prod.splits)
  have i: "i \<noteq> 0" using AddNodeWhenNew_outcome(2) [OF add assms(1)] by simp
  have keys: "keys_ok db (sw_Details w)"
    by (rule keys_ok_more_nodes [OF assms(2) AddNodeWhenNew_outcome(1) [OF add]])
  from rest obtain existing where ex: "getNodeConnectionDetails env (sw_Details w) i = Ok existing"
    by (auto simp: AddNodeToDB_def info add Let_def split: sum.splits)
  let ?new = "zeroDetails\<lparr>ncd_NodeId := i, ncd_Name := node_name i, ncd_Implementation := impl, ncd_GRPCAddress := Some a,
    ncd_Status := status_code Active, ncd_TLSDataBytes := t, ncd_MacaroonDataBytes := m, ncd_CreateOn := de_Now env\<rparr>"
  let ?out = "\<lambda>rows1. keys_ok db rows1 \<and> ncd_NodeId ncd = i
     \<and> (\<exists>r \<in> set rows1. ncd_NodeId r = i \<and> connected_row env a t m r)
     \<and> filter (\<lambda>r. ncd_NodeId r \<noteq> i) rows1 = filter (\<lambda>r. ncd_NodeId r \<noteq> i) (sw_Details w)"
  have "?out (sw_Details w1) \<and> sw_Nodes w1 = db"
  proof (cases "ncd_NodeId existing = i")
    case True
    with rest AddNodeToDB_existing [OF keys ex True i, where a = a and t = t and m = m] show ?thesis
      by (auto simp: AddNodeToDB_def info add ex Let_def split: option.splits prod.splits)
  next
    case False
    from False rest obtain rows1 where "addNodeConnectionDetails env ?new db (sw_Details w) = (rows1, ncd, None)"
      and w1: "sw_Details w1 = rows1" "sw_Nodes w1 = db"
      by (auto simp: AddNodeToDB_def info add ex Let_def split: option.splits prod.splits dest!: torq_node_write_details)
    from AddNodeToDB_new [OF this(1) keys, of i a t m] w1 show ?thesis by simp
  qed
  moreover have "length (filter (\<lambda>r. ncd_NodeId r = i) rows) = 1"
    if "keys_ok db rows" "\<exists>r \<in> set rows. ncd_NodeId r = i" for rows
    using that unfolding keys_ok_def by (induction rows) (auto simp: filter_empty_conv image_iff)
  ultimately show ?thesis by blast
qed

lemma SetTorqNode_served: "\<exists>t. SetTorqNode ords i nm st k c n s = Served t None"
  by (cases "st = Active"; cases "nm = [] \<or> k = [] \<or> i = 0")
    (auto simp: SetTorqNode_def processManagedNode_def writeTorqNode_def Let_def)

lemma torq_node_write_served:
  obtains s where "torq_node_write env ncd i k c n w = Some (w\<lparr>sw_NodeCache := s\<rparr>)"
  using SetTorqNode_served [of "de_NodeOrds env" i "ncd_Name ncd" "if ncd_Status ncd = status_code Active then Active else Inactive"
      k c n "sw_NodeCache w"] by (auto simp: torq_node_write_def)

definition sample_lnd :: LndAccess where
  "sample_lnd = \<lparr>la_Connect = (\<lambda>a t m. None), la_IdentityPubkey = (\<lambda>a. Ok ''02''), la_Chains = (\<lambda>a. [(''bitcoin'', ''mainnet'')])\<rparr>"

definition empty_settings_world :: SettingsWorld where
  "empty_settings_world =
     \<lparr>sw_NodeCache = emptyNodeState, sw_Nodes = \<lparr>nt_rows = [], nt_nextId = 1\<rparr>, sw_Details = []\<rparr>"

lemma empty_cache_id: "GetNodeIdByPublicKey ords emptyNodeState k c n = Some 0"
  by (simp add: GetNodeIdByPublicKey_def processManagedNode_def readNode_def emptyNodeState_def
      initializeIdCache_def ids_of_def Let_def)

lemma configured_node_has_one_row_witness:
  "\<exists>w ncd. AddNodeToDB sample_details_env sample_lnd LND ''lnd:10009'' (Some [1]) (Some [2]) empty_settings_world = Some (w, Ok ncd)
     \<and> length (filter (\<lambda>r. ncd_NodeId r = ncd_NodeId ncd) (sw_Details w)) = 1"
proof -
  obtain w ncd where run: "AddNodeToDB sample_details_env sample_lnd LND ''lnd:10009'' (Some [1]) (Some [2]) empty_settings_world
      = Some (w, Ok ncd)"
  proof -
    let ?new = "zeroDetails\<lparr>ncd_NodeId := 1, ncd_Name := node_name 1, ncd_Implementation := LND, ncd_GRPCAddress := Some ''lnd:10009'',
      ncd_Status := status_code Active, ncd_TLSDataBytes := Some [1], ncd_MacaroonDataBytes := Some [2], ncd_CreateOn := 7\<rparr>"
    let ?db = "\<lparr>nt_rows = [zeroNode\<lparr>nd_PublicKey := ''02'', nd_NodeId := 1, nd_CreatedOn := 7\<rparr>], nt_nextId = 2\<rparr>"
    let ?w = "empty_settings_world\<lparr>sw_Nodes := ?db,
      sw_Details := [stored_details sample_details_env (?new\<lparr>ncd_UpdatedOn := Some 7\<rparr>)]\<rparr>"
    obtain s where s: "torq_node_write sample_details_env ?new 1 ''02'' Bitcoin MainNet ?w = Some (?w\<lparr>sw_NodeCache := s\<rparr>)"
      by (rule torq_node_write_served)
    have "AddNodeToDB sample_details_env sample_lnd LND ''lnd:10009'' (Some [1]) (Some [2]) empty_settings_world
      = Some (?w\<lparr>sw_NodeCache := s\<rparr>, Ok (?new\<lparr>ncd_UpdatedOn := Some 7\<rparr>))"
      using s by (simp add: AddNodeToDB_def getInformationFromLndNode_def sample_lnd_def chain_of_name_def network_of_name_def
          AddNodeWhenNew_def empty_settings_world_def empty_cache_id sample_details_env_def no_node_failures_def zeroNode_def
          getNodeConnectionDetails_def addNodeConnectionDetails_def zeroDetails_def stored_details_def Let_def)
    then show ?thesis by (rule that)
  qed
  have "node_table_ok (sw_Nodes empty_settings_world)" "keys_ok (sw_Nodes empty_settings_world) (sw_Details empty_settings_world)"
    by (simp_all add: empty_settings_world_def node_table_ok_def keys_ok_def)
  from configured_node_has_one_row [OF this run] run show ?thesis by blast
qed

text \<open>
  A node on a chain or network the code does not name is registered as a node without a public key:
  the error made for it wraps nil.
\<close>

lemma unknown_chain_registers_no_key:
  assumes "la_Connect lnd a t m = None" and "la_IdentityPubkey lnd a = Ok k" and "la_Chains lnd a = [(c, n)]"
    and "chain_of_name c = None \<or> network_of_name n = None"
  shows "getInformationFromLndNode lnd a t m = Ok ([], Bitcoin, MainNet)"
  using assms by (auto simp: getInformationFromLndNode_def split: option.splits)

text \<open>The details handed to the services never carry the status of their rows.\<close>

lemma processed_details_inactive: "cd \<in> set (processConnectionDetails ncds) \<Longrightarrow> cd_Status cd = status_code Inactive"
  by (induction ncds rule: processConnectionDetails.induct) (auto split: option.splits)

end
