(* ===== verification/ServiceBoot.thy ===== *)
theory ServiceBoot
  imports SettingsTable Services
begin

text \<open>
  The goroutines of \<open>src/cmd/torq/torq.go\<close> that boot, kill and restart the services of the nodes.
  The dispatcher serves one command after the other; booting a service launches a goroutine, which
  subscribes, connects to LND while it holds the boot lock of its node, runs, and after it stopped
  sends the command that boots it again.  Each step of such a task between two calls that wait is one
  action, so a run is a list of actions in the order they happened.  The theorems say for which nodes
  a command launches tasks, what a kill does, that tasks and locks agree as long as no task unlocks
  the lock of another, and that a task that does so can end the program.
\<close>

section \<open>State\<close>

text \<open>
  \<open>Retrying\<close> is a task of the LND service whose connection failed, \<open>Restarting\<close> one whose service
  stopped; both wait to send the command that boots the service again.  A task whose connection failed
  is \<open>Returning\<close>, one whose service ran is \<open>Finishing\<close> when only their deferred function is left.
\<close>

datatype BootPhase = Launched | Subscribed | Running | Retrying | Restarting | Returning | Finishing | Finished

record BootTask =
  bt_Type :: ServiceType
  bt_Node :: ConnectionDetails
  bt_NoDelay :: bool
  bt_Phase :: BootPhase

text \<open>
  The registry of each type of service, the table of connection details, the tasks in the order they
  were launched, the cancel functions that were called (a cancel function is named by its task), and
  whether the dispatcher still serves commands.
\<close>

record BootWorld =
  bw_Services :: "ServiceType \<Rightarrow> Services"
  bw_Details :: details_table
  bw_Tasks :: "BootTask list"
  bw_Cancelled :: "nat list"
  bw_Dispatching :: bool

definition with_services :: "ServiceType \<Rightarrow> Services \<Rightarrow> BootWorld \<Rightarrow> BootWorld" where
  "with_services ty rs w = w\<lparr>bw_Services := (bw_Services w)(ty := rs)\<rparr>"

section \<open>The dispatcher\<close>

text \<open>A one-time status of the registry is taken, then that of the command prevails.\<close>

definition take_enforced :: "ServiceChannelMessage \<Rightarrow> BootWorld \<Rightarrow> BootWorld \<times> Status option" where
  "take_enforced m w =
     (let (w1, enforced) =
            (if scm_NodeId m \<noteq> 0
             then (let (rs, e) = GetEnforcedServiceStatusCheck (scm_NodeId m) (bw_Services w (scm_ServiceType m))
                   in (with_services (scm_ServiceType m) rs w, e))
             else (w, None))
      in (w1, case scm_EnforcedServiceStatus m of None \<Rightarrow> enforced | Some st \<Rightarrow> Some st))"

text \<open>Whether the details of a node ask for the service.\<close>

fun wanted :: "ServiceType \<Rightarrow> ConnectionDetails \<Rightarrow> bool" where
  "wanted LndService node = (cd_Status node = status_code Active)"
| "wanted VectorService node = (cd_Status node = status_code Active \<and> HasPingSystem PingVector node)"
| "wanted AmbossService node = (cd_Status node = status_code Active \<and> HasPingSystem PingAmboss node)"
| "wanted TorqService node = False"

fun all_details :: "ServiceType \<Rightarrow> DetailsEnv \<Rightarrow> details_table \<Rightarrow> ConnectionDetails list result" where
  "all_details LndService env rows = GetActiveNodesConnectionDetails env rows"
| "all_details VectorService env rows = GetVectorPingNodesConnectionDetails env rows"
| "all_details AmbossService env rows = GetAmbossPingNodesConnectionDetails env rows"
| "all_details TorqService env rows = Ok []"

text \<open>
  The nodes to boot.  A failed query for all nodes is logged and gives none; a failed query for one
  node ends the dispatcher, which is the error here.
\<close>

definition boot_nodes ::
    "DetailsEnv \<Rightarrow> ServiceChannelMessage \<Rightarrow> Status option \<Rightarrow> details_table \<Rightarrow> ConnectionDetails list result" where
  "boot_nodes env m enforced rows =
     (if scm_NodeId m = 0
      then Ok (case all_details (scm_ServiceType m) env rows of Inl e \<Rightarrow> [] | Inr nodes \<Rightarrow> nodes)
      else if enforced = Some Inactive then Ok []
      else case GetConnectionDetailsById env rows (scm_NodeId m) of
             Inl e \<Rightarrow> Inl e
           | Inr node \<Rightarrow>
               if enforced = Some Active \<or> wanted (scm_ServiceType m) node then Ok [node] else Ok [])"

text \<open>
  The loop over the nodes; only the LND service compares the node with that of the command.  The boot
  lock is taken without waiting, and the task is launched when that succeeds.
\<close>

fun launch :: "ServiceChannelMessage \<Rightarrow> ConnectionDetails list \<Rightarrow> BootWorld \<Rightarrow> BootWorld" where
  "launch m [] w = w"
| "launch m (node # nodes) w =
     (let ty = scm_ServiceType m in
      if ty = LndService \<and> scm_NodeId m \<noteq> 0 \<and> scm_NodeId m \<noteq> cd_NodeId node then launch m nodes w
      else
        let (rs, bootLock) = GetBootLock (cd_NodeId node) (bw_Services w ty);
            (rs1, successful) = TryLock bootLock rs;
            w1 = with_services ty rs1 w
        in launch m nodes
             (if successful
              then w1\<lparr>bw_Tasks := bw_Tasks w1 @
                     [\<lparr>bt_Type = ty, bt_Node = node, bt_NoDelay = scm_NoDelay m, bt_Phase = Launched\<rparr>]\<rparr>
              else w1))"

text \<open>A boot of all LND services first tells that Torq itself has booted; its lock is nil.\<close>

definition torq_booted :: "DetailsEnv \<Rightarrow> ServiceChannelMessage \<Rightarrow> BootWorld \<Rightarrow> BootWorld \<times> ServiceEvent list" where
  "torq_booted env m w =
     (if scm_ServiceType m = LndService \<and> scm_NodeId m = 0
      then (case Booted (de_Now env) TorqDummyNodeId None True (bw_Services w TorqService) of
              Served rs (Some es) \<Rightarrow> (with_services TorqService rs w, es)
            | _ \<Rightarrow> (w, []))
      else (w, []))"

definition boot_command :: "DetailsEnv \<Rightarrow> ServiceChannelMessage \<Rightarrow> BootWorld \<Rightarrow> BootWorld \<times> ServiceEvent list" where
  "boot_command env m w =
     (let (w1, enforced) = take_enforced m w;
          (w2, es) = torq_booted env m w1
      in case boot_nodes env m enforced (bw_Details w2) of
           Inl e \<Rightarrow> (w2\<lparr>bw_Dispatching := False\<rparr>, es)
         | Inr nodes \<Rightarrow> (launch m nodes w2, es))"

text \<open>A kill without a channel for its answer blocks the dispatcher for good.\<close>

definition kill_command ::
    "DetailsEnv \<Rightarrow> ServiceChannelMessage \<Rightarrow> BootWorld \<Rightarrow> BootWorld \<times> ServiceEvent list \<times> Status option" where
  "kill_command env m w =
     (case Cancel (de_Now env) (scm_NodeId m) (scm_EnforcedServiceStatus m) (scm_NoDelay m) True
             (bw_Services w (scm_ServiceType m)) of
        (rs, es, cancelFunc, status) \<Rightarrow>
          (let w1 = with_services (scm_ServiceType m) rs w;
               w2 = w1\<lparr>bw_Cancelled := bw_Cancelled w1 @ (case cancelFunc of None \<Rightarrow> [] | Some c \<Rightarrow> [c])\<rparr>
           in if scm_Out m then (w2, es, Some status) else (w2\<lparr>bw_Dispatching := False\<rparr>, es, None)))"

definition dispatch ::
    "DetailsEnv \<Rightarrow> ServiceChannelMessage \<Rightarrow> BootWorld \<Rightarrow> BootWorld \<times> ServiceEvent list \<times> Status option" where
  "dispatch env m w =
     (if scm_ServiceType m = TorqService then (w, [], None)
      else case scm_ServiceCommand m of
             Boot \<Rightarrow> (let (w1, es) = boot_command env m w in (w1, es, None))
           | Kill \<Rightarrow> kill_command env m w)"

section \<open>The tasks\<close>

definition set_phase :: "nat \<Rightarrow> BootPhase \<Rightarrow> BootWorld \<Rightarrow> BootWorld" where
  "set_phase i p w = w\<lparr>bw_Tasks := (bw_Tasks w)[i := (bw_Tasks w ! i)\<lparr>bt_Phase := p\<rparr>]\<rparr>"

definition in_phase :: "nat \<Rightarrow> BootPhase \<Rightarrow> BootWorld \<Rightarrow> bool" where
  "in_phase i p w \<longleftrightarrow> i < length (bw_Tasks w) \<and> bt_Phase (bw_Tasks w ! i) = p"

definition boot_again :: "BootTask \<Rightarrow> ServiceChannelMessage" where
  "boot_again t =
     \<lparr>scm_ServiceType = bt_Type t, scm_ServiceCommand = Boot, scm_NodeId = cd_NodeId (bt_Node t),
      scm_EnforcedServiceStatus = None, scm_NoDelay = False, scm_Out = False\<rparr>"

text \<open>The task's \<open>AddSubscription\<close> with the cancel function of its context.\<close>

definition subscribe_task :: "time \<Rightarrow> nat \<Rightarrow> BootWorld \<Rightarrow> (BootWorld, ServiceEvent list \<times> Status option) outcome" where
  "subscribe_task now i w =
     (let t = bw_Tasks w ! i;
          (rs, es) = AddSubscription now (cd_NodeId (bt_Node t)) i True (bw_Services w (bt_Type t))
      in Served (set_phase i Subscribed (with_services (bt_Type t) rs w)) (Some (es, None)))"

text \<open>
  The connection to LND failed: the LND service will be booted again, a ping service just ends.
\<close>

definition connection_failed :: "time \<Rightarrow> nat \<Rightarrow> BootWorld \<Rightarrow> (BootWorld, ServiceEvent list \<times> Status option) outcome" where
  "connection_failed now i w =
     (let t = bw_Tasks w ! i;
          (rs, es) = RemoveSubscription now (cd_NodeId (bt_Node t)) True (bw_Services w (bt_Type t))
      in Served (set_phase i (if bt_Type t = LndService then Retrying else Returning)
                   (with_services (bt_Type t) rs w)) (Some (es, None)))"

text \<open>The connection stands: \<open>Booted\<close> unlocks the boot lock, which must be locked.\<close>

definition connected :: "time \<Rightarrow> nat \<Rightarrow> BootWorld \<Rightarrow> (BootWorld, ServiceEvent list \<times> Status option) outcome" where
  "connected now i w =
     (let t = bw_Tasks w ! i; n = cd_NodeId (bt_Node t)
      in case Booted now n (Some n) True (bw_Services w (bt_Type t)) of
           Served rs es \<Rightarrow>
             (let rs1 = (if bt_Type t = LndService
                         then SetIncludeIncomplete n (HasNodeCustomSettings ImportFailedPayments (bt_Node t)) rs else rs)
              in Served (set_phase i Running (with_services (bt_Type t) rs1 w))
                   (Some (case es of None \<Rightarrow> [] | Some es \<Rightarrow> es, None)))
         | Blocked \<Rightarrow> Blocked
         | Crashed msg \<Rightarrow> Crashed msg)"

text \<open>
  The service returned, for its context was cancelled or an error occurred.  The flag that there is
  no delay is taken out of the registry either way.
\<close>

definition service_stopped :: "time \<Rightarrow> nat \<Rightarrow> BootWorld \<Rightarrow> (BootWorld, ServiceEvent list \<times> Status option) outcome" where
  "service_stopped now i w =
     (let t = bw_Tasks w ! i; n = cd_NodeId (bt_Node t);
          (rs, es) = RemoveSubscription now n True (bw_Services w (bt_Type t));
          (rs1, noDelay) = IsNoDelay n rs
      in Served (set_phase i Restarting (with_services (bt_Type t) rs1 w)) (Some (es, None)))"

text \<open>The deferred function: whoever locked the boot lock, it is unlocked.\<close>

definition deferred_unlock :: "nat \<Rightarrow> BootWorld \<Rightarrow> (BootWorld, ServiceEvent list \<times> Status option) outcome" where
  "deferred_unlock i w =
     (let t = bw_Tasks w ! i; n = cd_NodeId (bt_Node t); rs = bw_Services w (bt_Type t)
      in Served (set_phase i Finished
           (if sv_bootLock rs n = Some True
            then with_services (bt_Type t) (rs\<lparr>sv_bootLock := (sv_bootLock rs)(n \<mapsto> False)\<rparr>) w else w))
           (Some ([], None)))"

section \<open>Actions\<close>

text \<open>
  An action is refused when its task is in another phase, or when the dispatcher does not receive.
\<close>

datatype BootAction =
    Receive DetailsEnv ServiceChannelMessage
  | Subscribe time nat
  | Connect time nat bool
  | Stop time nat
  | Resend DetailsEnv nat
  | Finish nat

definition boot_action ::
    "BootWorld \<Rightarrow> BootAction \<Rightarrow> (BootWorld, ServiceEvent list \<times> Status option) outcome" where
  "boot_action w a =
     (case a of
        Receive env m \<Rightarrow>
          (if bw_Dispatching w then (let (w1, r) = dispatch env m w in Served w1 (Some r)) else Blocked)
      | Subscribe now i \<Rightarrow> (if in_phase i Launched w then subscribe_task now i w else Blocked)
      | Connect now i ok \<Rightarrow>
          (if in_phase i Subscribed w then (if ok then connected now i w else connection_failed now i w) else Blocked)
      | Stop now i \<Rightarrow> (if in_phase i Running w then service_stopped now i w else Blocked)
      | Resend env i \<Rightarrow>
          (if bw_Dispatching w \<and> (in_phase i Retrying w \<or> in_phase i Restarting w)
           then (let (w1, r) = dispatch env (boot_again (bw_Tasks w ! i)) w
                 in Served (set_phase i (if in_phase i Retrying w then Returning else Finishing) w1) (Some r))
           else Blocked)
      | Finish i \<Rightarrow> 
          (if in_phase i Returning w \<or> in_phase i Finishing w then deferred_unlock i w else Blocked))"

definition initial_boot_world :: "details_table \<Rightarrow> BootWorld" where
  "initial_boot_world rows =
     \<lparr>bw_Services = emptyServices, bw_Details = rows, bw_Tasks = [], bw_Cancelled = [], bw_Dispatching = True\<rparr>"

section \<open>What the operations keep\<close>

lemma bootLock_kept [simp]:
  "sv_bootLock (setStreamStatuses n st rs) = sv_bootLock rs"
  "sv_bootLock (set_status n st rs) = sv_bootLock rs"
  "sv_bootLock (fst (AddSubscription now n c ch rs)) = sv_bootLock rs"
  "sv_bootLock (fst (RemoveSubscription now n ch rs)) = sv_bootLock rs"
  "sv_bootLock (fst (IsNoDelay n rs)) = sv_bootLock rs"
  "sv_bootLock (fst (Cancel now n e d ch rs)) = sv_bootLock rs"
  "sv_bootLock (fst (GetEnforcedServiceStatusCheck n rs)) = sv_bootLock rs"
  "sv_bootLock (SetIncludeIncomplete n b rs) = sv_bootLock rs"
  by (auto simp: setStreamStatuses_def set_status_def AddSubscription_def RemoveSubscription_def IsNoDelay_def
      Cancel_def GetEnforcedServiceStatusCheck_def SetIncludeIncomplete_def Let_def split: option.splits)

lemma bootLock_of:
  "AddSubscription now n c ch rs = (rs1, es) \<Longrightarrow> sv_bootLock rs1 = sv_bootLock rs"
  "RemoveSubscription now n ch rs = (rs1, es) \<Longrightarrow> sv_bootLock rs1 = sv_bootLock rs"
  "IsNoDelay n rs = (rs1, b) \<Longrightarrow> sv_bootLock rs1 = sv_bootLock rs"
  "Cancel now n e d ch rs = (rs1, x) \<Longrightarrow> sv_bootLock rs1 = sv_bootLock rs"
  "GetEnforcedServiceStatusCheck n rs = (rs1, f) \<Longrightarrow> sv_bootLock rs1 = sv_bootLock rs"
  by (metis bootLock_kept fst_conv)+

text \<open>Booting without a lock always succeeds and leaves the locks alone.\<close>

lemma Booted_None: "\<exists>rs1 es. Booted now n None ch rs = Served rs1 (Some es) \<and> sv_bootLock rs1 = sv_bootLock rs"
  by (simp add: Booted_def Let_def)

lemma with_services_simps [simp]:
  "bw_Services (with_services ty rs w) = (bw_Services w)(ty := rs)"
  "bw_Tasks (with_services ty rs w) = bw_Tasks w" "bw_Details (with_services ty rs w) = bw_Details w"
  "bw_Cancelled (with_services ty rs w) = bw_Cancelled w" "bw_Dispatching (with_services ty rs w) = bw_Dispatching w"
  by (simp_all add: with_services_def)

abbreviation locked :: "ServiceType \<Rightarrow> int \<Rightarrow> BootWorld \<Rightarrow> bool" where
  "locked ty n w \<equiv> sv_bootLock (bw_Services w ty) n = Some True"

definition same_locks :: "BootWorld \<Rightarrow> BootWorld \<Rightarrow> bool" where
  "same_locks w w1 \<longleftrightarrow> bw_Tasks w1 = bw_Tasks w \<and> bw_Details w1 = bw_Details w \<and>
     (\<forall>ty. sv_bootLock (bw_Services w1 ty) = sv_bootLock (bw_Services w ty))"

lemma take_enforced_locks: "take_enforced m w = (w1, e) \<Longrightarrow> same_locks w w1 \<and> bw_Dispatching w1 = bw_Dispatching w"
  by (auto simp: take_enforced_def same_locks_def bootLock_of split: prod.splits if_splits)

lemma torq_booted_locks: "torq_booted env m w = (w1, es) \<Longrightarrow> same_locks w w1 \<and> bw_Dispatching w1 = bw_Dispatching w"
  using Booted_None [of "de_Now env" TorqDummyNodeId True "bw_Services w TorqService"]
  by (auto simp: torq_booted_def same_locks_def split: if_splits)

lemma kill_command_locks: "kill_command env m w = (w1, r) \<Longrightarrow> same_locks w w1"
  by (auto simp: kill_command_def same_locks_def bootLock_of Let_def split: prod.splits if_splits)

section \<open>Launching\<close>

text \<open>What a loop over nodes launched: one task for a node, each for a node whose lock was free.\<close>

definition launched ::
    "ServiceChannelMessage \<Rightarrow> ConnectionDetails list \<Rightarrow> BootWorld \<Rightarrow> BootWorld \<Rightarrow> BootTask list \<Rightarrow> bool" where
  "launched m nodes w w1 new \<longleftrightarrow>
     bw_Tasks w1 = bw_Tasks w @ new \<and> bw_Details w1 = bw_Details w \<and> bw_Dispatching w1 = bw_Dispatching w \<and>
     distinct (map (cd_NodeId \<circ> bt_Node) new) \<and>
     (\<forall>t \<in> set new. bt_Type t = scm_ServiceType m \<and> bt_Phase t = Launched \<and> bt_Node t \<in> set nodes \<and>
        \<not> locked (scm_ServiceType m) (cd_NodeId (bt_Node t)) w) \<and>
     (\<forall>ty n. locked ty n w1 \<longleftrightarrow>
        locked ty n w \<or> ty = scm_ServiceType m \<and> n \<in> (cd_NodeId \<circ> bt_Node) ` set new)"

lemma launched_launch: "\<exists>new. launched m nodes w (launch m nodes w) new"
proof (induction nodes arbitrary: w)
  case Nil
  have "launched m [] w w []" by (simp add: launched_def)
  then show ?case by (intro exI [of _ "[]"]) simp
next
  case (Cons node nodes)
  let ?ty = "scm_ServiceType m" and ?n = "cd_NodeId node"
  let ?rs = "fst (GetBootLock ?n (bw_Services w ?ty))"
  let ?rs1 = "fst (TryLock ?n ?rs)" and ?ok = "snd (TryLock ?n ?rs)"
  let ?w1 = "with_services ?ty ?rs1 w"
  let ?task = "\<lparr>bt_Type = ?ty, bt_Node = node, bt_NoDelay = scm_NoDelay m, bt_Phase = Launched\<rparr>"
  have ok: "?ok = (\<not> locked ?ty ?n w)"
    by (auto simp: TryLock_def GetBootLock_def Let_def)
  have lock: "locked ty k ?w1 = (locked ty k w \<or> ty = ?ty \<and> k = ?n)" for ty k
    by (auto simp: TryLock_def GetBootLock_def Let_def)
  show ?case
  proof (cases "?ty = LndService \<and> scm_NodeId m \<noteq> 0 \<and> scm_NodeId m \<noteq> ?n")
    case True
    then have "launch m (node # nodes) w = launch m nodes w" by (simp add: Let_def)
    moreover from Cons.IH [of w] obtain new where "launched m nodes w (launch m nodes w) new" by blast
    ultimately show ?thesis by (auto simp: launched_def intro!: exI [of _ new])
  next
    case False
    let ?w2 = "if ?ok then ?w1\<lparr>bw_Tasks := bw_Tasks ?w1 @ [?task]\<rparr> else ?w1"
    have step: "launch m (node # nodes) w = launch m nodes ?w2"
      using False by (auto simp: Let_def split_beta GetBootLock_def)
    from Cons.IH [of ?w2] obtain new where new: "launched m nodes ?w2 (launch m nodes ?w2) new" by blast
    have lock2: "locked ty k ?w2 = (locked ty k w \<or> ty = ?ty \<and> k = ?n)" for ty k
      using lock by simp
    show ?thesis
    proof (intro exI)
      show "launched m (node # nodes) w (launch m (node # nodes) w) ((if ?ok then [?task] else []) @ new)"
        using new ok unfolding step launched_def lock2 by auto
    qed
  qed
qed

lemma same_locks_locked: "same_locks w w1 \<Longrightarrow> locked ty n w1 = locked ty n w"
  by (simp add: same_locks_def)

text \<open>Every node to boot is one the table asks for, or one the status of the command enforces.\<close>

lemma boot_nodes_wanted:
  assumes "boot_nodes env m enforced rows = Ok nodes" and "node \<in> set nodes"
  shows "if scm_NodeId m = 0 then \<exists>ns. all_details (scm_ServiceType m) env rows = Ok ns \<and> node \<in> set ns
    else enforced \<noteq> Some Inactive \<and> GetConnectionDetailsById env rows (scm_NodeId m) = Ok node \<and>
      (enforced = Some Active \<or> wanted (scm_ServiceType m) node)"
  using assms by (auto simp: boot_nodes_def split: if_splits sum.splits)

text \<open>
  A command to boot launches tasks only for nodes whose boot lock was free, one for a node, and
  locks it; for one node it launches at most a task with the stored details, and only when a status is
  enforced that is not inactive, or none is and the details ask for the service.
\<close>

lemma boot_command_launches:
  assumes "boot_command env m w = (w1, es)" and "take_enforced m w = (w0, enforced)"
  shows "\<exists>new. bw_Tasks w1 = bw_Tasks w @ new \<and> distinct (map (cd_NodeId \<circ> bt_Node) new) \<and>
    (\<forall>t \<in> set new. bt_Type t = scm_ServiceType m \<and> bt_Phase t = Launched \<and>
       \<not> locked (scm_ServiceType m) (cd_NodeId (bt_Node t)) w \<and> locked (scm_ServiceType m) (cd_NodeId (bt_Node t)) w1 \<and>
       (if scm_NodeId m = 0
        then \<exists>ns. all_details (scm_ServiceType m) env (bw_Details w) = Ok ns \<and> bt_Node t \<in> set ns
        else enforced \<noteq> Some Inactive \<and> GetConnectionDetailsById env (bw_Details w) (scm_NodeId m) = Ok (bt_Node t) \<and>
          (enforced = Some Active \<or> wanted (scm_ServiceType m) (bt_Node t))))"
proof -
  obtain w2 es2 where tb: "torq_booted env m w0 = (w2, es2)" by fastforce
  have kept: "same_locks w w0" "same_locks w0 w2" using take_enforced_locks [OF assms(2)] torq_booted_locks [OF tb] by auto
  then have same: "bw_Tasks w2 = bw_Tasks w" "bw_Details w2 = bw_Details w" "locked ty n w2 = locked ty n w" for ty n
    by (auto simp: same_locks_def)
  show ?thesis
  proof (cases "boot_nodes env m enforced (bw_Details w)")
    case (Inl e)
    then show ?thesis using assms(1) same
      by (intro exI [of _ "[]"]) (auto simp: boot_command_def assms(2) tb Let_def)
  next
    case (Inr nodes)
    then have w1: "w1 = launch m nodes w2" using assms(1) same by (simp add: boot_command_def assms(2) tb)
    from launched_launch [of m nodes w2] obtain new where new: "launched m nodes w2 w1 new" unfolding w1 by blast
    have node: "bt_Node t \<in> set nodes" if "t \<in> set new" for t using new that by (simp add: launched_def)
    show ?thesis
    proof (intro exI [of _ new] conjI ballI)
      fix t assume t: "t \<in> set new"
      show "if scm_NodeId m = 0
        then \<exists>ns. all_details (scm_ServiceType m) env (bw_Details w) = Ok ns \<and> bt_Node t \<in> set ns
        else enforced \<noteq> Some Inactive \<and> GetConnectionDetailsById env (bw_Details w) (scm_NodeId m) = Ok (bt_Node t) \<and>
          (enforced = Some Active \<or> wanted (scm_ServiceType m) (bt_Node t))"
        by (rule boot_nodes_wanted [OF Inr node [OF t]])
    qed (use new same in \<open>auto simp: launched_def\<close>)
  qed
qed

section \<open>Locks and tasks\<close>

text \<open>The phases in which a task holds the boot lock it was launched with.\<close>

definition holds_lock :: "ServiceType \<Rightarrow> int \<Rightarrow> BootTask \<Rightarrow> bool" where
  "holds_lock ty n t \<longleftrightarrow> bt_Type t = ty \<and> cd_NodeId (bt_Node t) = n \<and>
     bt_Phase t \<in> {Launched, Subscribed, Retrying, Returning}"

definition holders :: "ServiceType \<Rightarrow> int \<Rightarrow> BootWorld \<Rightarrow> nat" where
  "holders ty n w = length (filter (holds_lock ty n) (bw_Tasks w))"

definition locks_ok :: "BootWorld \<Rightarrow> bool" where
  "locks_ok w \<longleftrightarrow> (\<forall>ty n. holders ty n w = of_bool (locked ty n w))"

lemma filter_update:
  assumes "i < length xs"
  shows "length (filter P (xs[i := y])) + of_bool (P (xs ! i)) = length (filter P xs) + of_bool (P y)"
proof -
  have xs: "xs = take i xs @ xs ! i # drop (Suc i) xs" using assms by (rule id_take_nth_drop)
  have "filter P xs = filter P (take i xs) @ (if P (xs ! i) then [xs ! i] else []) @ filter P (drop (Suc i) xs)"
    by (subst (1) xs) simp
  moreover have "filter P (xs[i := y]) = filter P (take i xs) @ (if P y then [y] else []) @ filter P (drop (Suc i) xs)"
    using assms by (simp add: upd_conv_take_nth_drop)
  ultimately show ?thesis by simp
qed

lemma holders_set_phase:
  assumes "i < length (bw_Tasks w)"
  shows "holders ty n (set_phase i p w) + of_bool (holds_lock ty n (bw_Tasks w ! i))
    = holders ty n w + of_bool (holds_lock ty n ((bw_Tasks w ! i)\<lparr>bt_Phase := p\<rparr>))"
  using filter_update [OF assms] by (simp add: holders_def set_phase_def)

lemma holders_same_tasks: "bw_Tasks w1 = bw_Tasks w \<Longrightarrow> holders ty n w1 = holders ty n w"
  by (simp add: holders_def)

lemma locks_ok_same: "same_locks w w1 \<Longrightarrow> locks_ok w1 = locks_ok w"
  by (simp add: locks_ok_def same_locks_def holders_def)

lemma locks_ok_launch: "locks_ok w \<Longrightarrow> locks_ok (launch m nodes w)"
proof -
  assume ok: "locks_ok w"
  obtain new where new: "launched m nodes w (launch m nodes w) new" using launched_launch by blast
  have count: "length (filter (holds_lock ty n) new) = of_bool (ty = scm_ServiceType m \<and> n \<in> (cd_NodeId \<circ> bt_Node) ` set new)" for ty n
  proof -
    have "filter (holds_lock ty n) new = (if ty = scm_ServiceType m then filter (\<lambda>t. (cd_NodeId \<circ> bt_Node) t = n) new else [])"
      using new by (auto simp: launched_def holds_lock_def intro!: filter_cong)
    moreover have "length (filter (\<lambda>t. f t = n) ts) = of_bool (n \<in> f ` set ts)" if "distinct (map f ts)" for f :: "BootTask \<Rightarrow> int" and ts
      using that by (induction ts) auto
    then have "length (filter (\<lambda>t. (cd_NodeId \<circ> bt_Node) t = n) new) = of_bool (n \<in> (cd_NodeId \<circ> bt_Node) ` set new)"
      using new unfolding launched_def by blast
    ultimately show ?thesis by simp
  qed
  have "\<not> (locked ty n w \<and> ty = scm_ServiceType m \<and> n \<in> (cd_NodeId \<circ> bt_Node) ` set new)" for ty n
    using new by (auto simp: launched_def)
  then show "locks_ok (launch m nodes w)"
    using ok new count by (auto simp: locks_ok_def launched_def holders_def)
qed

lemma bw_Dispatching_update [simp]: "locks_ok (w\<lparr>bw_Dispatching := b\<rparr>) = locks_ok w"
  by (simp add: locks_ok_def holders_def)

lemma locks_ok_dispatch:
  assumes "locks_ok w" and "dispatch env m w = (w1, r)"
  shows "locks_ok w1"
proof (cases "scm_ServiceType m = TorqService")
  case False
  show ?thesis
  proof (cases "scm_ServiceCommand m")
    case Boot
    obtain w0 e w2 es where t: "take_enforced m w = (w0, e)" "torq_booted env m w0 = (w2, es)" by fastforce
    have "same_locks w w0" "same_locks w0 w2"
      using take_enforced_locks [OF t(1)] torq_booted_locks [OF t(2)] by auto
    then have "locks_ok w2" using assms(1) locks_ok_same by metis
    with Boot False assms(2) t show ?thesis
      by (auto simp: dispatch_def boot_command_def locks_ok_launch split: sum.splits)
  next
    case Kill
    then have "kill_command env m w = (w1, r)" using False assms(2) by (simp add: dispatch_def)
    with assms(1) show ?thesis using kill_command_locks locks_ok_same by blast
  qed
qed (use assms in \<open>simp add: dispatch_def\<close>)

abbreviation holding :: "BootPhase \<Rightarrow> bool" where
  "holding p \<equiv> p \<in> {Launched, Subscribed, Retrying, Returning}"

lemma holds_lock_phase:
  "holds_lock ty n (t\<lparr>bt_Phase := p\<rparr>) \<longleftrightarrow> bt_Type t = ty \<and> cd_NodeId (bt_Node t) = n \<and> holding p"
  by (simp add: holds_lock_def)

lemma set_phase_simps [simp]:
  "bw_Services (set_phase i p w) = bw_Services w" "bw_Dispatching (set_phase i p w) = bw_Dispatching w"
  by (simp_all add: set_phase_def)

lemma locks_ok_keep:
  assumes "locks_ok w" and "in_phase i p w" and "holding p = holding q"
    and "sv_bootLock rs = sv_bootLock (bw_Services w ty)"
  shows "locks_ok (set_phase i q (with_services ty rs w))"
proof -
  let ?w = "with_services ty rs w"
  have "holders ty' n (set_phase i q ?w) = holders ty' n w" for ty' n
    using holders_set_phase [of i ?w ty' n q] assms(2,3) holders_same_tasks [of ?w w ty' n]
    by (auto simp: in_phase_def holds_lock_phase holds_lock_def split: if_splits)
  with assms(1,4) show ?thesis by (simp add: locks_ok_def)
qed

lemma holder_locked:
  assumes "locks_ok w" and "in_phase i p w" and "holding p"
  shows "locked (bt_Type (bw_Tasks w ! i)) (cd_NodeId (bt_Node (bw_Tasks w ! i))) w"
proof -
  let ?t = "bw_Tasks w ! i"
  have "?t \<in> set (bw_Tasks w)" "holds_lock (bt_Type ?t) (cd_NodeId (bt_Node ?t)) ?t"
    using assms(2,3) by (auto simp: in_phase_def holds_lock_def)
  then have "holders (bt_Type ?t) (cd_NodeId (bt_Node ?t)) w \<noteq> 0"
    by (auto simp: holders_def filter_empty_conv)
  with assms(1) show ?thesis by (simp add: locks_ok_def split: if_splits)
qed

lemma locks_ok_release:
  assumes "locks_ok w" and "in_phase i p w" and "holding p" and "\<not> holding q"
    and "t = bw_Tasks w ! i"
    and "sv_bootLock rs = (sv_bootLock (bw_Services w (bt_Type t)))(cd_NodeId (bt_Node t) \<mapsto> False)"
  shows "locks_ok (set_phase i q (with_services (bt_Type t) rs w))"
proof -
  let ?w = "with_services (bt_Type t) rs w"
  have locked: "locked (bt_Type t) (cd_NodeId (bt_Node t)) w" using holder_locked [OF assms(1-3)] assms(5) by simp
  have "holders ty n (set_phase i q ?w) = of_bool (locked ty n w \<and> \<not> (ty = bt_Type t \<and> n = cd_NodeId (bt_Node t)))" for ty n
  proof -
    have "holders ty n (set_phase i q ?w) + of_bool (holds_lock ty n t) = holders ty n w"
      using holders_set_phase [of i ?w ty n q] assms(2,4,5) holders_same_tasks [of ?w w ty n]
      by (auto simp: in_phase_def holds_lock_phase)
    moreover have "holds_lock ty n t \<longleftrightarrow> ty = bt_Type t \<and> n = cd_NodeId (bt_Node t)"
      using assms(2,3,5) by (auto simp: in_phase_def holds_lock_def)
    moreover have "holders ty n w = of_bool (locked ty n w)" using assms(1) by (simp add: locks_ok_def)
    ultimately show ?thesis using locked by (auto split: if_splits)
  qed
  with assms(6) show ?thesis by (auto simp: locks_ok_def)
qed

lemma Booted_unlocks:
  assumes "sv_bootLock rs n = Some True"
  shows "\<exists>rs1 es. Booted now n (Some n) True rs = Served rs1 es \<and> sv_bootLock rs1 = (sv_bootLock rs)(n \<mapsto> False)"
  using assms by (simp add: Booted_def Let_def)

lemma locks_ok_connected:
  assumes "locks_ok w" and "in_phase i Subscribed w"
  shows "\<exists>w1 r. connected now i w = Served w1 r \<and> locks_ok w1"
proof -
  let ?t = "bw_Tasks w ! i"
  let ?n = "cd_NodeId (bt_Node ?t)"
  have "locked (bt_Type ?t) ?n w" by (rule holder_locked [OF assms]) simp
  from Booted_unlocks [OF this, of now] obtain rs es where b: "Booted now ?n (Some ?n) True (bw_Services w (bt_Type ?t)) = Served rs es"
    "sv_bootLock rs = (sv_bootLock (bw_Services w (bt_Type ?t)))(?n \<mapsto> False)" by blast
  have "locks_ok (set_phase i Running (with_services (bt_Type ?t) rs1 w))" if "sv_bootLock rs1 = sv_bootLock rs" for rs1
    by (rule locks_ok_release [OF assms _ _ refl]) (use that b(2) in simp_all)
  with b(1) show ?thesis by (simp add: connected_def Let_def)
qed

text \<open>
  A deferred function that would unlock the lock of another task.  The disciplined runs are those in
  which it waits until that lock is free.
\<close>

definition unlocks_other :: "nat \<Rightarrow> BootWorld \<Rightarrow> bool" where
  "unlocks_other i w \<longleftrightarrow> in_phase i Finishing w \<and>
     locked (bt_Type (bw_Tasks w ! i)) (cd_NodeId (bt_Node (bw_Tasks w ! i))) w"

definition disciplined_action ::
    "BootWorld \<Rightarrow> BootAction \<Rightarrow> (BootWorld, ServiceEvent list \<times> Status option) outcome" where
  "disciplined_action w a =
     (case a of Finish i \<Rightarrow> if unlocks_other i w then Blocked else boot_action w a | _ \<Rightarrow> boot_action w a)"

lemma locks_ok_deferred:
  assumes "locks_ok w" and "in_phase i Returning w \<or> in_phase i Finishing w" and "\<not> unlocks_other i w"
  shows "\<exists>w1 r. deferred_unlock i w = Served w1 r \<and> locks_ok w1"
proof (cases "in_phase i Returning w")
  case True
  let ?t = "bw_Tasks w ! i"
  let ?rs = "bw_Services w (bt_Type ?t)" and ?n = "cd_NodeId (bt_Node ?t)"
  have l: "locked (bt_Type ?t) ?n w" by (rule holder_locked [OF assms(1) True]) simp
  have "locks_ok (set_phase i Finished (with_services (bt_Type ?t) (?rs\<lparr>sv_bootLock := (sv_bootLock ?rs)(?n \<mapsto> False)\<rparr>) w))"
    by (rule locks_ok_release [OF assms(1) True _ _ refl]) simp_all
  with l show ?thesis by (simp add: deferred_unlock_def Let_def)
next
  case False
  then have f: "in_phase i Finishing w" using assms(2) by simp
  have "with_services ty (bw_Services w ty) w = w" for ty by (simp add: with_services_def)
  with locks_ok_keep [OF assms(1) f, of Finished "bw_Services w LndService" LndService] f assms(3) show ?thesis
    by (simp add: deferred_unlock_def unlocks_other_def Let_def)
qed

lemma dispatch_tasks:
  assumes "dispatch env m w = (w1, r)"
  shows "\<exists>new. bw_Tasks w1 = bw_Tasks w @ new"
proof -
  obtain w0 e w2 es where t: "take_enforced m w = (w0, e)" "torq_booted env m w0 = (w2, es)" by fastforce
  then have tasks: "bw_Tasks w2 = bw_Tasks w"
    using take_enforced_locks [OF t(1)] torq_booted_locks [OF t(2)] by (simp add: same_locks_def)
  have "\<exists>new. bw_Tasks (launch m nodes w2) = bw_Tasks w @ new" for nodes
    using launched_launch [of m nodes w2] tasks by (auto simp: launched_def)
  with assms t tasks show ?thesis
    using kill_command_locks [of env m w w1 r]
    by (auto simp: dispatch_def boot_command_def same_locks_def split: ServiceCommand.splits sum.splits if_splits)
qed

lemma in_phase_dispatch: "dispatch env m w = (w1, r) \<Longrightarrow> in_phase i p w \<Longrightarrow> in_phase i p w1"
  using dispatch_tasks [of env m w w1 r] by (auto simp: in_phase_def nth_append)

lemma locks_ok_disciplined:
  assumes "locks_ok w"
  shows "disciplined_action w a = Blocked \<or> (\<exists>w1 r. disciplined_action w a = Served w1 r \<and> locks_ok w1)"
proof (cases a)
  case (Receive env m)
  with assms show ?thesis
    by (auto simp: disciplined_action_def boot_action_def split: prod.splits intro: locks_ok_dispatch)
next
  case (Subscribe now i)
  with assms show ?thesis
    by (auto simp: disciplined_action_def boot_action_def subscribe_task_def Let_def bootLock_of split: prod.splits
        intro!: locks_ok_keep [where p = Launched])
next
  case (Connect now i ok)
  with assms locks_ok_connected [of w i now] show ?thesis
    by (auto simp: disciplined_action_def boot_action_def connection_failed_def Let_def bootLock_of split: prod.splits
        intro!: locks_ok_keep [where p = Subscribed])
next
  case (Stop now i)
  with assms show ?thesis
    by (auto simp: disciplined_action_def boot_action_def service_stopped_def Let_def bootLock_of split: prod.splits
        intro!: locks_ok_keep [where p = Running])
next
  case (Resend env i)
  show ?thesis
  proof (cases "bw_Dispatching w \<and> (in_phase i Retrying w \<or> in_phase i Restarting w)")
    case True
    obtain w1 r where d: "dispatch env (boot_again (bw_Tasks w ! i)) w = (w1, r)" by (metis surj_pair)
    let ?p = "if in_phase i Retrying w then Retrying else Restarting"
    let ?q = "if in_phase i Retrying w then Returning else Finishing"
    have "in_phase i ?p w1" using in_phase_dispatch [OF d] True by auto
    from locks_ok_keep [OF locks_ok_dispatch [OF assms d] this, of ?q "bw_Services w1 LndService" LndService]
    have "locks_ok (set_phase i ?q w1)" by (simp add: with_services_def)
    with True d Resend show ?thesis by (simp add: disciplined_action_def boot_action_def)
  qed (use Resend in \<open>auto simp: disciplined_action_def boot_action_def\<close>)
next
  case (Finish i)
  with assms locks_ok_deferred [of w i] show ?thesis
    by (auto simp: disciplined_action_def boot_action_def)
qed

lemma locks_ok_initial: "locks_ok (initial_boot_world rows)"
  by (simp add: locks_ok_def holders_def initial_boot_world_def emptyServices_def)

interpretation boot_tasks: cache_server disciplined_action "initial_boot_world rows" locks_ok for rows
proof
  show "locks_ok t" if "locks_ok s" "disciplined_action s m = Served t r" for s m t r
    using locks_ok_disciplined [OF that(1), of m] that(2) by auto
qed (rule locks_ok_initial)

text \<open>
  C23: As long as no task that finishes unlocks the boot lock of another, the dispatcher and its tasks
  never end the program, a node has at most one task of a service that is booting, and its boot lock
  is locked exactly while it has one.
\<close>

theorem one_boot_at_a_time:
  assumes "serves disciplined_action (initial_boot_world rows) acts w"
  shows "(\<forall>a msg. disciplined_action w a \<noteq> Crashed msg) \<and>
    (\<forall>ty n. length (filter (holds_lock ty n) (bw_Tasks w)) = (if locked ty n w then 1 else 0))"
proof -
  have ok: "locks_ok w" using assms by (rule boot_tasks.invar_reachable)
  have "disciplined_action w a \<noteq> Crashed msg" for a msg
    using locks_ok_disciplined [OF ok, of a] by auto
  with ok show ?thesis by (simp add: locks_ok_def holders_def)
qed

section \<open>A task that unlocks the lock of another\<close>

definition boot_message :: "int \<Rightarrow> Status option \<Rightarrow> ServiceChannelMessage" where
  "boot_message n enforced =
     \<lparr>scm_ServiceType = LndService, scm_ServiceCommand = Boot, scm_NodeId = n, scm_EnforcedServiceStatus = enforced,
      scm_NoDelay = False, scm_Out = False\<rparr>"

definition active_row :: "int \<Rightarrow> NodeConnectionDetails" where
  "active_row n = zeroDetails\<lparr>ncd_NodeId := n, ncd_Status := status_code Active\<rparr>"

text \<open>
  The service of a node stops, and while its task waits to boot it again a user boots the service;
  the first task's command comes to nothing, and its deferred function unlocks the boot lock the
  second task still holds.
\<close>

definition restart_race :: "int \<Rightarrow> BootAction list" where
  "restart_race n =
     [Receive sample_details_env (boot_message n None), Subscribe 0 0, Connect 0 0 True, Stop 0 0,
      Receive sample_details_env (boot_message n (Some Active)), Subscribe 0 1,
      Resend sample_details_env 0, Finish 0]"

lemmas boot_defs = boot_action_def dispatch_def boot_command_def take_enforced_def torq_booted_def boot_nodes_def
  GetEnforcedServiceStatusCheck_def GetBootLock_def TryLock_def subscribe_task_def connected_def service_stopped_def
  deferred_unlock_def AddSubscription_def RemoveSubscription_def IsNoDelay_def Booted_def SetIncludeIncomplete_def
  set_phase_def in_phase_def boot_again_def with_services_def set_status_def setStreamStatuses_def

text \<open>Only a command that boots a service takes a lock; the other steps leave a free lock free.\<close>

definition takes_lock :: "BootAction \<Rightarrow> bool" where
  "takes_lock a \<longleftrightarrow> (case a of Receive env m \<Rightarrow> True | Resend env i \<Rightarrow> True | _ \<Rightarrow> False)"

lemma free_lock_step:
  assumes "boot_action w a = Served w1 r" and "\<not> takes_lock a"
  shows "\<not> locked ty n w \<Longrightarrow> \<not> locked ty n w1" and "map bt_Type (bw_Tasks w1) = map bt_Type (bw_Tasks w)"
    and "map bt_Node (bw_Tasks w1) = map bt_Node (bw_Tasks w)"
  using assms
  by (auto simp: boot_action_def takes_lock_def subscribe_task_def connection_failed_def connected_def service_stopped_def
      deferred_unlock_def set_phase_def map_update list_update_id Booted_def Let_def bootLock_of in_phase_def
      split: BootAction.splits if_splits prod.splits outcome.splits option.splits
      intro!: nth_equalityI simp: nth_list_update)

lemma free_lock_steps:
  assumes "serves boot_action w acts w1" and "\<forall>a \<in> set acts. \<not> takes_lock a" and "\<not> locked ty n w"
  shows "\<not> locked ty n w1 \<and> map bt_Type (bw_Tasks w1) = map bt_Type (bw_Tasks w) \<and>
    map bt_Node (bw_Tasks w1) = map bt_Node (bw_Tasks w)"
  using assms
proof (induction rule: serves.induct)
  case (serves_Cons w a t r acts u)
  with free_lock_step [OF serves_Cons.hyps(1)] show ?case by simp
qed simp

text \<open>
  C24: the deferred function of a boot task can end the program.  Whenever a task has nothing left
  but its deferred function, that step can be taken and leaves the boot lock of its service and node
  free, also when another task of the same service and node holds it; and then, whatever the tasks do as
  long as no command to boot a service is served, the program ends with the fatal error of an
  unlocked mutex when the other task's connection stands.
\<close>

theorem restart_race_ends_program:
  assumes "in_phase i Finishing w" and "j < length (bw_Tasks w)"
    and "bt_Type (bw_Tasks w ! j) = bt_Type (bw_Tasks w ! i)"
    and "cd_NodeId (bt_Node (bw_Tasks w ! j)) = cd_NodeId (bt_Node (bw_Tasks w ! i))"
  shows "\<exists>w1. boot_action w (Finish i) = Served w1 (Some ([], None)) \<and>
     \<not> locked (bt_Type (bw_Tasks w ! i)) (cd_NodeId (bt_Node (bw_Tasks w ! i))) w1 \<and>
     (\<forall>acts w2 now. serves boot_action w1 acts w2 \<and> (\<forall>a \<in> set acts. \<not> takes_lock a) \<and> in_phase j Subscribed w2 \<longrightarrow>
        boot_action w2 (Connect now j True) = Crashed ''unlock of unlocked mutex'')"
proof -
  let ?ty = "bt_Type (bw_Tasks w ! i)" and ?n = "cd_NodeId (bt_Node (bw_Tasks w ! i))"
  obtain w1 where w1: "boot_action w (Finish i) = Served w1 (Some ([], None))" "\<not> locked ?ty ?n w1"
    using assms(1) by (simp add: boot_action_def deferred_unlock_def Let_def)
  have "\<not> takes_lock (Finish i)" by (simp add: takes_lock_def)
  note same = free_lock_step(2,3) [OF w1(1) this]
  have "boot_action w2 (Connect now j True) = Crashed ''unlock of unlocked mutex''"
    if acts: "serves boot_action w1 acts w2" "\<forall>a \<in> set acts. \<not> takes_lock a" and j: "in_phase j Subscribed w2" for acts w2 now
  proof -
    from free_lock_steps [OF acts w1(2)] same have "\<not> locked ?ty ?n w2"
      and "map bt_Type (bw_Tasks w2) = map bt_Type (bw_Tasks w)" "map bt_Node (bw_Tasks w2) = map bt_Node (bw_Tasks w)"
      by auto
    moreover from this(2,3) have "bt_Type (bw_Tasks w2 ! j) = bt_Type (bw_Tasks w ! j)"
        "bt_Node (bw_Tasks w2 ! j) = bt_Node (bw_Tasks w ! j)"
      using assms(2) by (metis length_map nth_map)+
    ultimately show ?thesis using j assms(3,4) by (simp add: boot_action_def connected_def Booted_def Let_def)
  qed
  with w1 show ?thesis by blast
qed

theorem restart_race_ends_program_witness:
  "\<exists>w w1. serves boot_action (initial_boot_world [active_row 4]) (butlast (restart_race 4)) w \<and>
     locked LndService 4 w \<and> boot_action w (Finish 0) = Served w1 (Some ([], None)) \<and>
     boot_action w1 (Connect 0 1 True) = Crashed ''unlock of unlocked mutex''"
proof -
  obtain w where run: "serves boot_action (initial_boot_world [active_row 4]) (butlast (restart_race 4)) w"
    and w: "in_phase 0 Finishing w" "in_phase 1 Subscribed w" "locked LndService 4 w"
      "bt_Type (bw_Tasks w ! 1) = bt_Type (bw_Tasks w ! 0)"
      "cd_NodeId (bt_Node (bw_Tasks w ! 1)) = cd_NodeId (bt_Node (bw_Tasks w ! 0))"
    by (simp add: restart_race_def boot_defs boot_message_def active_row_def initial_boot_world_def emptyServices_def
        GetConnectionDetailsById_def getNodeConnectionDetails_def scan_details_def sample_details_env_def zeroDetails_def
        initServiceMaps_def Let_def)
  have "1 < length (bw_Tasks w)" using w(2) by (simp add: in_phase_def)
  from restart_race_ends_program [OF w(1) this w(4,5)] obtain w1 where
    w1: "boot_action w (Finish 0) = Served w1 (Some ([], None))"
    and crash: "\<forall>acts w2 now. serves boot_action w1 acts w2 \<and> (\<forall>a \<in> set acts. \<not> takes_lock a) \<and>
        in_phase 1 Subscribed w2 \<longrightarrow> boot_action w2 (Connect now 1 True) = Crashed ''unlock of unlocked mutex''"
    by blast
  have "in_phase 1 Subscribed w1"
    using w1 w(1,2) by (auto simp: boot_action_def deferred_unlock_def set_phase_def in_phase_def Let_def split: if_splits)
  with crash have "boot_action w1 (Connect 0 1 True) = Crashed ''unlock of unlocked mutex''"
    by (metis empty_iff list.set(1) serves_Nil)
  with run w w1 show ?thesis by blast
qed

theorem one_boot_at_a_time_witness:
  "\<exists>w. serves disciplined_action (initial_boot_world [active_row 4])
       [Receive sample_details_env (boot_message 4 None), Receive sample_details_env (boot_message 4 (Some Active))] w \<and>
     length (filter (holds_lock LndService 4) (bw_Tasks w)) = 1"
proof -
  let ?acts = "[Receive sample_details_env (boot_message 4 None), Receive sample_details_env (boot_message 4 (Some Active))]"
  obtain w where run: "serves disciplined_action (initial_boot_world [active_row 4]) ?acts w" and l: "locked LndService 4 w"
    by (simp add: disciplined_action_def boot_defs boot_message_def active_row_def initial_boot_world_def emptyServices_def
        GetConnectionDetailsById_def getNodeConnectionDetails_def scan_details_def sample_details_env_def zeroDetails_def
        initServiceMaps_def Let_def)
  from one_boot_at_a_time [OF run] l run show ?thesis by auto
qed

lemma boot_command_launches_witness:
  "\<exists>w es t. boot_command sample_details_env (boot_message 4 None) (initial_boot_world [active_row 4]) = (w, es)
     \<and> bw_Tasks w = [t] \<and> cd_NodeId (bt_Node t) = 4 \<and> locked LndService 4 w"
proof -
  obtain w es t where run: "boot_command sample_details_env (boot_message 4 None) (initial_boot_world [active_row 4]) = (w, es)"
    "bw_Tasks w = [t]" "cd_NodeId (bt_Node t) = 4"
    by (simp add: boot_defs boot_message_def active_row_def initial_boot_world_def emptyServices_def
        GetConnectionDetailsById_def getNodeConnectionDetails_def scan_details_def sample_details_env_def zeroDetails_def Let_def)
  obtain w0 e where t: "take_enforced (boot_message 4 None) (initial_boot_world [active_row 4]) = (w0, e)" by fastforce
  have ty: "scm_ServiceType (boot_message 4 None) = LndService" "bw_Tasks (initial_boot_world [active_row 4]) = []"
    by (simp_all add: boot_message_def initial_boot_world_def)
  from boot_command_launches [OF run(1) t] ty run(2)
  have "\<forall>t' \<in> set [t]. locked LndService (cd_NodeId (bt_Node t')) w" by (metis self_append_conv2)
  with run show ?thesis by auto
qed

section \<open>Killing\<close>

text \<open>
  A kill with a channel for its answer is answered at once: with active after the cancel function
  of the node's task was called, the one-time status kept for the next boot, and the service set
  inactive; with pending while the node boots and with inactive when nothing runs, both without any
  change of status.  It launches nothing and leaves every boot lock as it is.
\<close>

lemma kill_is_answered:
  assumes "scm_Out m" and "scm_ServiceCommand m = Kill" and "scm_ServiceType m \<noteq> TorqService"
    and "bw_Dispatching w" and "rs = bw_Services w (scm_ServiceType m)" and "n = scm_NodeId m"
  shows "\<exists>w1 es st. boot_action w (Receive env m) = Served w1 (Some (es, Some st)) \<and> bw_Dispatching w1 \<and>
    bw_Tasks w1 = bw_Tasks w \<and> (\<forall>ty k. locked ty k w1 = locked ty k w) \<and>
    st = (if sv_runningList rs n = None then Inactive else if locked (scm_ServiceType m) n w then Pending else Active) \<and>
    bw_Cancelled w1 = bw_Cancelled w @ (if st = Active then [the (sv_runningList rs n)] else []) \<and>
    (st \<noteq> Active \<longrightarrow> (\<forall>ty k. status_of (bw_Services w1 ty) k = status_of (bw_Services w ty) k)) \<and>
    (st = Active \<longrightarrow> status_of (bw_Services w1 (scm_ServiceType m)) n = Inactive \<and>
       snd (GetEnforcedServiceStatusCheck n (bw_Services w1 (scm_ServiceType m))) = scm_EnforcedServiceStatus m)"
proof -
  obtain t es called st where c: "Cancel (de_Now env) n (scm_EnforcedServiceStatus m) (scm_NoDelay m) True rs = (t, es, called, st)"
    by (metis prod_cases4)
  note spec = Cancel_spec [OF c]
  have lock: "sv_bootLock t = sv_bootLock rs" using bootLock_of(4) [OF c] .
  have st: "st = (if sv_runningList rs n = None then Inactive else if locked (scm_ServiceType m) n w then Pending else Active)"
    using spec assms(5) by auto
  have cancelled: "(case called of None \<Rightarrow> [] | Some c \<Rightarrow> [c]) = (if st = Active then [the (sv_runningList rs n)] else [])"
    using spec by auto
  have same: "st \<noteq> Active \<Longrightarrow> status_of t k = status_of rs k" for k using spec by (simp add: status_of_updates)
  show ?thesis
    using assms c lock st cancelled same spec
    by (auto simp: boot_action_def dispatch_def kill_command_def Let_def)
qed

section \<open>The end of the dispatcher\<close>

lemma stopped_dispatcher:
  assumes "serves boot_action w acts w1" and "\<not> bw_Dispatching w"
  shows "\<not> bw_Dispatching w1 \<and> length (bw_Tasks w1) = length (bw_Tasks w) \<and>
    (\<forall>env m. Receive env m \<notin> set acts) \<and> (\<forall>env i. Resend env i \<notin> set acts)"
  using assms
proof (induction rule: serves.induct)
  case (serves_Cons w a t r acts u)
  have "\<not> bw_Dispatching t \<and> length (bw_Tasks t) = length (bw_Tasks w) \<and> (\<forall>env m. a \<noteq> Receive env m) \<and> (\<forall>env i. a \<noteq> Resend env i)"
    using serves_Cons.hyps(1) serves_Cons.prems
    by (cases a) (auto simp: boot_action_def subscribe_task_def connected_def connection_failed_def service_stopped_def
        deferred_unlock_def set_phase_def Let_def split: if_splits prod.splits outcome.splits)
  with serves_Cons.IH show ?case by auto
qed simp

text \<open>
  After the query for the node of a boot command failed once, no command is received any more and
  no service is booted again, whatever happens.
\<close>

lemma failed_query_ends_dispatcher:
  assumes "scm_NodeId m \<noteq> 0" and "scm_ServiceCommand m = Boot" and "scm_ServiceType m \<noteq> TorqService"
    and "de_Get env = Some e" and "scm_EnforcedServiceStatus m = Some Active" and "bw_Dispatching w"
    and "boot_action w (Receive env m) = Served w1 r" and "serves boot_action w1 acts w2"
  shows "length (bw_Tasks w2) = length (bw_Tasks w) \<and> (\<forall>env m. boot_action w2 (Receive env m) = Blocked) \<and>
    (\<forall>env i. boot_action w2 (Resend env i) = Blocked)"
proof -
  have "\<not> bw_Dispatching w1 \<and> length (bw_Tasks w1) = length (bw_Tasks w)"
    using assms(1-7)
    by (auto simp: boot_action_def dispatch_def boot_command_def torq_booted_def boot_nodes_def take_enforced_def
        GetConnectionDetailsById_def getNodeConnectionDetails_def Let_def split: prod.splits)
  with stopped_dispatcher [OF assms(8)] show ?thesis by (simp add: boot_action_def)
qed

definition kill_message :: "int \<Rightarrow> Status option \<Rightarrow> ServiceChannelMessage" where
  "kill_message n enforced =
     \<lparr>scm_ServiceType = LndService, scm_ServiceCommand = Kill, scm_NodeId = n, scm_EnforcedServiceStatus = enforced,
      scm_NoDelay = True, scm_Out = True\<rparr>"

lemma kill_is_answered_witness:
  "\<exists>w w1 es. serves boot_action (initial_boot_world [active_row 4])
       [Receive sample_details_env (boot_message 4 None), Subscribe 0 0, Connect 0 0 True] w \<and>
     boot_action w (Receive sample_details_env (kill_message 4 (Some Inactive))) = Served w1 (Some (es, Some Active)) \<and>
     bw_Cancelled w1 = [0] \<and> status_of (bw_Services w1 LndService) 4 = Inactive"
proof -
  let ?acts = "[Receive sample_details_env (boot_message 4 None), Subscribe 0 0, Connect 0 0 True]"
  obtain w where run: "serves boot_action (initial_boot_world [active_row 4]) ?acts w"
    and w: "bw_Dispatching w" "sv_runningList (bw_Services w LndService) 4 = Some 0" "\<not> locked LndService 4 w" "bw_Cancelled w = []"
    by (simp add: boot_defs boot_message_def active_row_def initial_boot_world_def emptyServices_def
        GetConnectionDetailsById_def getNodeConnectionDetails_def scan_details_def sample_details_env_def zeroDetails_def
        initServiceMaps_def Let_def)
  let ?m = "kill_message 4 (Some Inactive)"
  have m: "scm_Out ?m" "scm_ServiceCommand ?m = Kill" "scm_ServiceType ?m \<noteq> TorqService" "scm_ServiceType ?m = LndService" "scm_NodeId ?m = 4"
    by (simp_all add: kill_message_def)
  from kill_is_answered [OF m(1,2,3) w(1) refl refl, of sample_details_env] m w obtain w1 es where
    "boot_action w (Receive sample_details_env ?m) = Served w1 (Some (es, Some Active))"
    "bw_Cancelled w1 = [0]" "status_of (bw_Services w1 LndService) 4 = Inactive" by auto
  with run show ?thesis by blast
qed

lemma failed_query_ends_dispatcher_witness:
  "\<exists>w1 r. boot_action (initial_boot_world []) (Receive (sample_details_env\<lparr>de_Get := Some (Error ''down'')\<rparr>) (boot_message 4 (Some Active)))
       = Served w1 r \<and> (\<forall>env m. boot_action w1 (Receive env m) = Blocked)"
proof -
  let ?env = "sample_details_env\<lparr>de_Get := Some (Error ''down'')\<rparr>" and ?m = "boot_message 4 (Some Active)"
  have m: "scm_NodeId ?m \<noteq> 0" "scm_ServiceCommand ?m = Boot" "scm_ServiceType ?m \<noteq> TorqService"
    "scm_EnforcedServiceStatus ?m = Some Active" "de_Get ?env = Some (Error ''down'')"
    by (simp_all add: boot_message_def)
  have d: "bw_Dispatching (initial_boot_world [])" by (simp add: initial_boot_world_def)
  then obtain w1 r where run: "boot_action (initial_boot_world []) (Receive ?env ?m) = Served w1 r"
    by (simp add: boot_action_def split_beta)
  from failed_query_ends_dispatcher [OF m(1-3,5,4) d run serves_Nil] run show ?thesis by blast
qed

section \<open>Listening to the events of services\<close>

text \<open>
  What the listener of \<open>torq.go\<close> does with a service event: it panics when Torq itself is inactive,
  fills the caches and boots all LND services when Torq is initialising, and boots the ping services of
  a node that do not run when its LND service became active.  \<open>fill\<close> stands for the four fillings,
  whose errors are only logged; the commands are sent to the dispatcher in order.
\<close>

definition ping_boot :: "ServiceType \<Rightarrow> int \<Rightarrow> ServiceChannelMessage" where
  "ping_boot ty nodeId =
     \<lparr>scm_ServiceType = ty, scm_ServiceCommand = Boot, scm_NodeId = nodeId, scm_EnforcedServiceStatus = None,
      scm_NoDelay = False, scm_Out = False\<rparr>"

definition boot_when_inactive ::
    "(SubscriptionStream, Status) order \<Rightarrow> ServiceType \<Rightarrow> int \<Rightarrow> BootWorld \<Rightarrow> BootWorld \<times> ServiceChannelMessage list" where
  "boot_when_inactive ord ty nodeId w =
     (let (rs, status) = GetStatus ord nodeId (bw_Services w ty)
      in (with_services ty rs w, if status = Inactive then [ping_boot ty nodeId] else []))"

datatype 'c listener_outcome = Listens 'c BootWorld "ServiceChannelMessage list" | Dies

definition on_service_event ::
    "(SubscriptionStream, Status) order \<Rightarrow> ('c \<Rightarrow> 'c) \<Rightarrow> ServiceEvent \<Rightarrow> 'c \<Rightarrow> BootWorld \<Rightarrow> 'c listener_outcome" where
  "on_service_event ord fill e caches w =
     (case se_Type e of
        TorqService \<Rightarrow>
          (case se_Status e of
             Inactive \<Rightarrow> Dies
           | Initializing \<Rightarrow> Listens (fill caches) w [ping_boot LndService 0]
           | _ \<Rightarrow> Listens caches w [])
      | LndService \<Rightarrow>
          (if se_Status e = Active \<and> se_SubscriptionStream e = None
           then (let (w1, ms1) = boot_when_inactive ord VectorService (ev_NodeId e) w;
                     (w2, ms2) = boot_when_inactive ord AmbossService (ev_NodeId e) w1
                 in Listens caches w2 (ms1 @ ms2))
           else Listens caches w [])
      | _ \<Rightarrow> Listens caches w [])"

text \<open>
  The listener boots a ping service only for a node whose LND service became active, only when that
  ping service does not run, and its boot launches a task only if the stored details ask for it.
\<close>

lemma listener_boots_ping:
  assumes "on_service_event ord fill e caches w = Listens c1 w1 ms" and "m \<in> set ms" and "scm_NodeId m \<noteq> 0"
  shows "se_Type e = LndService \<and> se_Status e = Active \<and> scm_NodeId m = ev_NodeId e \<and>
    scm_ServiceType m \<in> {VectorService, AmbossService} \<and>
    snd (GetStatus ord (ev_NodeId e) (bw_Services w (scm_ServiceType m))) = Inactive"
  using assms
  by (auto simp: on_service_event_def boot_when_inactive_def ping_boot_def Let_def
      split: ServiceType.splits Status.splits if_splits prod.splits)

section \<open>Start-up\<close>

text \<open>
  The goroutine that migrates the database and enters the node of the command line: one turn per
  attempt, with what reading the two files and querying the table gave, and the attempts to add the
  node, each with its own LND.  None: no attempt of the list succeeded, so it still runs.
\<close>

record StartupTurn =
  su_Macaroon :: "bytes result"
  su_TLS :: "bytes result"
  su_Env :: DetailsEnv
  su_Adds :: "(DetailsEnv \<times> LndAccess) list"
  su_RenameEnv :: DetailsEnv

record StartupFlags =
  fl_Url :: string
  fl_MacaroonPath :: string
  fl_TlsPath :: string

fun add_until_added ::
    "string \<Rightarrow> bytes \<Rightarrow> bytes \<Rightarrow> (DetailsEnv \<times> LndAccess) list \<Rightarrow> SettingsWorld \<Rightarrow>
     (SettingsWorld \<times> NodeConnectionDetails) option" where
  "add_until_added grpcAddress tls macaroon [] w = None"
| "add_until_added grpcAddress tls macaroon ((env, lnd) # rest) w =
     (case AddNodeToDB env lnd LND grpcAddress (Some tls) (Some macaroon) w of
        None \<Rightarrow> None
      | Some (w1, Inl e) \<Rightarrow> add_until_added grpcAddress tls macaroon rest w1
      | Some (w1, Inr ncd) \<Rightarrow>
          if ncd_NodeId ncd \<noteq> 0 then Some (w1, ncd) else add_until_added grpcAddress tls macaroon rest w1)"

text \<open>The result also tells whether Torq's own service was removed, which the listener answers with a panic.\<close>

fun startup_turns ::
    "StartupFlags \<Rightarrow> StartupTurn list \<Rightarrow> SettingsWorld \<Rightarrow> (SettingsWorld \<times> bool) option" where
  "startup_turns fl [] w = None"
| "startup_turns fl (t # ts) w =
     (if fl_Url fl = [] \<or> fl_MacaroonPath fl = [] \<or> fl_TlsPath fl = [] then Some (w, False)
      else case (su_Macaroon t, su_TLS t) of
        (Inr macaroon, Inr tls) \<Rightarrow>
          (case GetNodeIdByGRPC (su_Env t) (sw_Details w) (fl_Url fl) of
             Inl e \<Rightarrow> startup_turns fl ts w
           | Inr nodeId \<Rightarrow>
               if nodeId = 0
               then (case add_until_added (fl_Url fl) tls macaroon (su_Adds t) w of
                       None \<Rightarrow> None
                     | Some (w1, ncd) \<Rightarrow>
                         Some (w1\<lparr>sw_Details := fst (SetNodeConnectionDetails (su_RenameEnv t)
                                 (ncd\<lparr>ncd_Name := ''Auto configured node''\<rparr>) (sw_Details w1))\<rparr>, False))
               else (case SetNodeConnectionDetailsByConnectionDetails (su_Env t) nodeId Active (fl_Url fl)
                            (Some tls) (Some macaroon) (sw_Details w) of
                       (rows, e) \<Rightarrow> Some (w\<lparr>sw_Details := rows\<rparr>, e \<noteq> None)))
      | _ \<Rightarrow> startup_turns fl ts w)"

text \<open>
  After a failed migration Torq's service is removed.  Otherwise it is set initialising, also when it
  was removed just before.
\<close>

definition startup ::
    "time \<Rightarrow> go_error option \<Rightarrow> StartupFlags \<Rightarrow> StartupTurn list \<Rightarrow> SettingsWorld \<Rightarrow> Services \<Rightarrow>
     (SettingsWorld \<times> Services \<times> ServiceEvent list) option" where
  "startup now migrationFails fl turns w rs =
     (case migrationFails of
        Some e \<Rightarrow> (let (rs1, es) = RemoveSubscription now TorqDummyNodeId True rs in Some (w, rs1, es))
      | None \<Rightarrow>
          (case startup_turns fl turns w of
             None \<Rightarrow> None
           | Some (w1, removed) \<Rightarrow>
               (let (rs1, es1) = (if removed then RemoveSubscription now TorqDummyNodeId True rs else (rs, []));
                    (rs2, es2) = Initialising now TorqDummyNodeId True rs1
                in Some (w1, rs2, es1 @ es2))))"

text \<open>
  Without a configured node the first turn ends the start-up, which makes Torq's service initialising.
\<close>

lemma startup_without_node:
  assumes "fl_Url fl = []" and "status_of rs TorqDummyNodeId = Pending" and "sv_ServiceType rs = TorqService"
  shows "\<exists>rs1 e. startup now None fl (t # ts) w rs = Some (w, rs1, [e]) \<and> status_of rs1 TorqDummyNodeId = Initializing \<and>
    se_Type e = TorqService \<and> se_Status e = Initializing"
  using assms by (simp add: startup_def Initialising_def sendServiceEvent_def set_status_def Let_def)

end
