(* ===== verification/SettingsRoutes.thy ===== *)
theory SettingsRoutes
  imports ServiceBoot ServerErrors
begin

text \<open>
  The requests of the settings page, \<open>src/internal/settings/routes.go\<close>: they read and write the
  settings and the connection details, check new connections against LND, and boot, kill or restart
  the services of a node through the dispatcher of \<open>ServiceBoot\<close>.  A request answers with a list of
  responses, since one of its branches answers and goes on; it is None when it panics or waits for
  ever.  What gin's binding gave is a parameter; the messages the queries
  put before their errors are left out.  The theorems say when the service of a node is
  started or restarted, that a status is stored exactly when its service followed, what a ping system
  that is none does, and that a failed registration answers twice.
\<close>

section \<open>Requests and responses\<close>

text \<open>
  \<open>hw_NoSub\<close> is Torq without subscriptions: every command is received and ignored, so that a kill is
  never answered.
\<close>

record HandlerWorld =
  hw_Settings :: SettingsWorld
  hw_SettingsRows :: "settings list"
  hw_SettingsCache :: SettingsState
  hw_Boot :: BootWorld
  hw_NoSub :: bool

datatype Response =
    RespondsDetails NodeConnectionDetails
  | RespondsDetailsList "NodeConnectionDetails list"
  | RespondsSettings settings
  | RespondsOK
  | Refuses "int \<times> ServerError"

type_synonym handled = "(HandlerWorld \<times> Response list) option"

abbreviation refuse :: "int \<times> ServerError \<Rightarrow> HandlerWorld \<Rightarrow> handled" where
  "refuse r w \<equiv> Some (w, [Refuses r])"

abbreviation hw_Details :: "HandlerWorld \<Rightarrow> details_table" where
  "hw_Details w \<equiv> sw_Details (hw_Settings w)"

definition with_details :: "details_table \<Rightarrow> HandlerWorld \<Rightarrow> HandlerWorld" where
  "with_details rows w = w\<lparr>hw_Settings := (hw_Settings w)\<lparr>sw_Details := rows\<rparr>\<rparr>"

section \<open>Commands to the dispatcher\<close>

text \<open>The dispatcher reads the table as it is when it serves the command.\<close>

definition send_command ::
    "DetailsEnv \<Rightarrow> ServiceChannelMessage \<Rightarrow> HandlerWorld \<Rightarrow> (HandlerWorld \<times> Status option) option" where
  "send_command env m w =
     (if hw_NoSub w then Some (w, None)
      else case boot_action ((hw_Boot w)\<lparr>bw_Details := hw_Details w\<rparr>) (Receive env m) of
             Served b (Some (es, st)) \<Rightarrow> Some (w\<lparr>hw_Boot := b\<rparr>, st)
           | _ \<Rightarrow> None)"

definition service_command ::
    "ServiceType \<Rightarrow> ServiceCommand \<Rightarrow> int \<Rightarrow> Status option \<Rightarrow> ServiceChannelMessage" where
  "service_command ty command nodeId enforced =
     \<lparr>scm_ServiceType = ty, scm_ServiceCommand = command, scm_NodeId = nodeId, scm_EnforcedServiceStatus = enforced,
      scm_NoDelay = (command = Kill), scm_Out = (command = Kill)\<rparr>"

definition startServiceOrRestartWhenRunning ::
    "DetailsEnv \<Rightarrow> ServiceType \<Rightarrow> int \<Rightarrow> bool \<Rightarrow> HandlerWorld \<Rightarrow> (HandlerWorld \<times> bool) option" where
  "startServiceOrRestartWhenRunning env serviceType nodeId active w =
     (let enforced = Some (if active then Active else Inactive)
      in case send_command env (service_command serviceType Kill nodeId enforced) w of
           Some (w1, Some status) \<Rightarrow>
             (if status = Pending then Some (w1, False)
              else if status = Inactive \<and> active
              then (case send_command env (service_command serviceType Boot nodeId enforced) w1 of
                      None \<Rightarrow> None
                    | Some (w2, r) \<Rightarrow> Some (w2, True))
              else Some (w1, True))
         | _ \<Rightarrow> None)"

section \<open>Reading requests\<close>

definition getSettingsHandler :: "DetailsEnv \<Rightarrow> HandlerWorld \<Rightarrow> handled" where
  "getSettingsHandler env w =
     (case getSettings env (hw_SettingsRows w) of
        Inl e \<Rightarrow> refuse (LogAndSendServerError e) w
      | Inr d \<Rightarrow> Some (w, [RespondsSettings d]))"

definition updateSettingsHandler :: "DetailsEnv \<Rightarrow> settings result \<Rightarrow> HandlerWorld \<Rightarrow> handled" where
  "updateSettingsHandler env bound w =
     (case bound of
        Inl e \<Rightarrow> refuse (SendBadRequestFromError (wrapped JsonParseError e)) w
      | Inr d \<Rightarrow>
          (case updateSettings env d (hw_SettingsRows w) (hw_SettingsCache w) of
             None \<Rightarrow> None
           | Some (rows, cache, Some e) \<Rightarrow>
               refuse (LogAndSendServerError e) (w\<lparr>hw_SettingsRows := rows, hw_SettingsCache := cache\<rparr>)
           | Some (rows, cache, None) \<Rightarrow>
               Some (w\<lparr>hw_SettingsRows := rows, hw_SettingsCache := cache\<rparr>, [RespondsSettings d])))"

definition getAllNodeConnectionDetailsHandler :: "DetailsEnv \<Rightarrow> HandlerWorld \<Rightarrow> handled" where
  "getAllNodeConnectionDetailsHandler env w =
     (case getAllNodeConnectionDetails env (hw_Details w) False of
        Inl e \<Rightarrow> refuse (LogAndSendServerError e) w
      | Inr ncds \<Rightarrow> Some (w, [RespondsDetailsList ncds]))"

definition getNodeConnectionDetailsHandler :: "DetailsEnv \<Rightarrow> string \<Rightarrow> HandlerWorld \<Rightarrow> handled" where
  "getNodeConnectionDetailsHandler env nodeIdText w =
     (case atoi nodeIdText of
        None \<Rightarrow> refuse (SendBadRequest ''Failed to find/parse nodeId in the request.'') w
      | Some nodeId \<Rightarrow>
          (case getNodeConnectionDetails env (hw_Details w) nodeId of
             Inl e \<Rightarrow> refuse (LogAndSendServerError e) w
           | Inr ncd \<Rightarrow> Some (w, [RespondsDetails ncd])))"

section \<open>Files\<close>

definition read_file :: "UploadedFile \<Rightarrow> bytes result" where
  "read_file f = (case uf_Open f of Some e \<Rightarrow> Inl e | None \<Rightarrow> uf_Content f)"

text \<open>Reading a file for its columns puts a message before either error.\<close>

definition stored_file :: "string \<Rightarrow> string \<Rightarrow> UploadedFile \<Rightarrow> bytes result" where
  "stored_file opening reading f =
     (case uf_Open f of
        Some e \<Rightarrow> Inl (wrapped opening e)
      | None \<Rightarrow> map_sum (wrapped reading) id (uf_Content f))"

definition processTLS :: "NodeConnectionDetails \<Rightarrow> NodeConnectionDetails result" where
  "processTLS ncd =
     (case ncd_TLSFile ncd of
        None \<Rightarrow> Ok ncd
      | Some f \<Rightarrow>
          (case stored_file ''Opening TLS file'' ''Reasing TLS file'' f of
             Inl e \<Rightarrow> Inl e
           | Inr tlsData \<Rightarrow> Ok (ncd\<lparr>ncd_TLSFileName := Some (uf_Filename f), ncd_TLSDataBytes := Some tlsData\<rparr>)))"

definition processMacaroon :: "NodeConnectionDetails \<Rightarrow> NodeConnectionDetails result" where
  "processMacaroon ncd =
     (case ncd_MacaroonFile ncd of
        None \<Rightarrow> Ok ncd
      | Some f \<Rightarrow>
          (case stored_file ''Opening macaroon file'' ''Reading macaroon file'' f of
             Inl e \<Rightarrow> Inl e
           | Inr macaroonData \<Rightarrow>
               Ok (ncd\<lparr>ncd_MacaroonFileName := Some (uf_Filename f), ncd_MacaroonDataBytes := Some macaroonData\<rparr>)))"

text \<open>\<open>strings.TrimSpace(name) == ""\<close>, with the white space of ASCII.\<close>

definition blank :: "string \<Rightarrow> bool" where
  "blank s \<longleftrightarrow> list_all (\<lambda>c. c = CHR '' '' \<or> (9 \<le> (of_char c :: nat) \<and> (of_char c :: nat) \<le> 13)) s"

definition named :: "NodeConnectionDetails \<Rightarrow> NodeConnectionDetails" where
  "named ncd = (if blank (ncd_Name ncd) then ncd\<lparr>ncd_Name := node_name (ncd_NodeId ncd)\<rparr> else ncd)"

section \<open>A new node\<close>

text \<open>
  The two files of the request, read before anything is checked.  An empty file is refused.
\<close>

definition required_file :: "UploadedFile \<Rightarrow> string \<Rightarrow> (int \<times> ServerError) + bytes" where
  "required_file f message =
     (case read_file f of
        Inl e \<Rightarrow> Inl (LogAndSendServerError e)
      | Inr data \<Rightarrow> if data = [] then Inl (SendBadRequest message) else Inr data)"

text \<open>
  The last part of the request: the node gets an id, which stays 0 when adding it failed (the error is
  answered, and the code goes on), and its details are stored.
\<close>

definition register_details ::
    "DetailsEnv \<Rightarrow> string \<Rightarrow> Chain \<Rightarrow> Network \<Rightarrow> int \<Rightarrow> NodeConnectionDetails \<Rightarrow> Response list \<Rightarrow> HandlerWorld \<Rightarrow> handled" where
  "register_details env publicKey chain network nodeId ncd0 answered w =
     (let ncd1 = named (ncd0\<lparr>ncd_NodeId := nodeId, ncd_Status := status_code Active\<rparr>)
      in case addNodeConnectionDetails env ncd1 (sw_Nodes (hw_Settings w)) (hw_Details w) of
           (rows, ncd, Some e) \<Rightarrow>
             Some (with_details rows w, answered @ [Refuses (WrapLogAndSendServerError e ''Adding node connection details'')])
         | (rows, ncd, None) \<Rightarrow>
             (case torq_node_write env ncd nodeId publicKey chain network (hw_Settings (with_details rows w)) of
                None \<Rightarrow> None
              | Some sw \<Rightarrow>
                  (case send_command env (service_command LndService Boot nodeId None) (w\<lparr>hw_Settings := sw\<rparr>) of
                     None \<Rightarrow> None
                   | Some (w1, r) \<Rightarrow> Some (w1, answered @ [RespondsDetails ncd]))))"

definition register_node ::
    "DetailsEnv \<Rightarrow> string \<Rightarrow> Chain \<Rightarrow> Network \<Rightarrow> NodeConnectionDetails \<Rightarrow> HandlerWorld \<Rightarrow> handled" where
  "register_node env publicKey chain network ncd w =
     (let sw = hw_Settings w in
      case GetNodeIdByPublicKey (de_NodeOrds env) (sw_NodeCache sw) publicKey chain network of
        None \<Rightarrow> None
      | Some nodeId \<Rightarrow>
          if nodeId \<noteq> 0 then register_details env publicKey chain network nodeId ncd [] w
          else
            (case AddNodeWhenNew (de_NodeFails env) (de_NodeOrds env) (de_Now env)
                    (zeroNode\<lparr>nd_PublicKey := publicKey, nd_Chain := chain, nd_Network := network\<rparr>)
                    (sw_NodeCache sw) (sw_Nodes sw) of
               None \<Rightarrow> None
             | Some (newId, e, db) \<Rightarrow>
                 register_details env publicKey chain network newId ncd
                   (case e of None \<Rightarrow> [] | Some err \<Rightarrow> [Refuses (WrapLogAndSendServerError err ''Adding node'')])
                   (w\<lparr>hw_Settings := sw\<lparr>sw_Nodes := db\<rparr>\<rparr>)))"

definition addNodeConnectionDetailsHandler ::
    "DetailsEnv \<Rightarrow> LndAccess \<Rightarrow> NodeConnectionDetails result \<Rightarrow> HandlerWorld \<Rightarrow> handled" where
  "addNodeConnectionDetailsHandler env lnd bound w =
     (case bound of
        Inl e \<Rightarrow> refuse (LogAndSendServerError e) w
      | Inr ncd \<Rightarrow>
      (case (ncd_TLSFile ncd, ncd_MacaroonFile ncd, ncd_GRPCAddress ncd) of
         (Some tlsFile, Some macaroonFile, Some (c # cs)) \<Rightarrow>
           (let grpcAddress = c # cs in
            case required_file tlsFile ''Can't check new gRPC details without TLS Cert'' of
              Inl r \<Rightarrow> refuse r w
            | Inr tlsCert \<Rightarrow>
           (case required_file macaroonFile ''Can't check new gRPC details without Macaroon File'' of
              Inl r \<Rightarrow> refuse r w
            | Inr macaroon \<Rightarrow>
           (case getInformationFromLndNode lnd grpcAddress (Some tlsCert) (Some macaroon) of
              Inl e \<Rightarrow> refuse (WrapLogAndSendServerError e
                ''Obtaining publicKey/chain/network from gRPC (gRPC connection fails)'') w
            | Inr (publicKey, chain, network) \<Rightarrow>
           (case GetNodeByPublicKey (de_NodeFails env) (sw_Nodes (hw_Settings w)) publicKey of
              Inl e \<Rightarrow> refuse (WrapLogAndSendServerError e ''Getting existing node by public key'') w
            | Inr node \<Rightarrow>
                if nd_PublicKey node = publicKey \<and> nd_Chain node = chain \<and> nd_Network node = network
                then refuse (SendUnprocessableEntity ''This node already exists'') w
                else case processTLS ncd of
                       Inl e \<Rightarrow> refuse (LogAndSendServerError e) w
                     | Inr ncd1 \<Rightarrow>
                         (case processMacaroon ncd1 of
                            Inl e \<Rightarrow> refuse (LogAndSendServerError e) w
                          | Inr ncd2 \<Rightarrow> register_node env publicKey chain network ncd2 w)))))
       | _ \<Rightarrow> refuse (SendBadRequest ''All node details are required to add new node connection details'') w))"

section \<open>Changing a node\<close>

text \<open>
  The credentials to check a connection with: the uploaded file, or what is stored when that is
  missing or empty.
\<close>

definition file_or_stored ::
    "string \<Rightarrow> string \<Rightarrow> string \<Rightarrow> UploadedFile option \<Rightarrow> bytes option \<Rightarrow> (int \<times> ServerError) + bytes" where
  "file_or_stored opening reading missing file stored =
     (case (case file of
              None \<Rightarrow> Inr []
            | Some f \<Rightarrow>
                (case uf_Open f of
                   Some e \<Rightarrow> Inl (WrapLogAndSendServerError e opening)
                 | None \<Rightarrow> (case uf_Content f of
                              Inl e \<Rightarrow> Inl (WrapLogAndSendServerError e reading)
                            | Inr data \<Rightarrow> Inr data))) of
        Inl r \<Rightarrow> Inl r
      | Inr data \<Rightarrow>
          (let used = (if data = [] then (case stored of None \<Rightarrow> [] | Some b \<Rightarrow> b) else data)
           in if used = [] then Inl (LogAndSendServerError (Error missing)) else Inr used))"

text \<open>
  The addresses are compared as pointers, which are the same only when both are nil.  None is the
  panic of reading the address of the request through nil.
\<close>

definition check_connection ::
    "LndAccess \<Rightarrow> NodeConnectionDetails \<Rightarrow> Node \<Rightarrow> NodeConnectionDetails \<Rightarrow> ((int \<times> ServerError) option) option" where
  "check_connection lnd existing node ncd =
     (if ncd_GRPCAddress existing = None \<and> ncd_GRPCAddress ncd = None then Some None
      else case file_or_stored ''Opening TLS file'' ''Reading TLS file'' ''Can't check new gRPC details without TLS Cert''
                  (ncd_TLSFile ncd) (ncd_TLSDataBytes existing) of
        Inl r \<Rightarrow> Some (Some r)
      | Inr tlsCert \<Rightarrow>
      (case file_or_stored ''Opening Macaroon file'' ''Reading Macaroon file''
              ''Can't check new gRPC details without Macaroon File'' (ncd_MacaroonFile ncd) (ncd_MacaroonDataBytes existing) of
         Inl r \<Rightarrow> Some (Some r)
       | Inr macaroon \<Rightarrow>
      (case ncd_GRPCAddress ncd of
         None \<Rightarrow> None
       | Some grpcAddress \<Rightarrow>
      (case getInformationFromLndNode lnd grpcAddress (Some tlsCert) (Some macaroon) of
         Inl e \<Rightarrow> Some (Some (WrapLogAndSendServerError e
           ''Obtaining publicKey/chain/network from gRPC (gRPC connection fails)''))
       | Inr (publicKey, chain, network) \<Rightarrow>
           if nd_PublicKey node \<noteq> publicKey \<or> nd_Chain node \<noteq> chain \<or> nd_Network node \<noteq> network
           then Some (Some (SendUnprocessableEntity
             ''PublicKey/chain/network does not match, create a new node instead of updating this one''))
           else Some None))))"

text \<open>The guard of a ping service: it is refused only off Bitcoin and off the main network.\<close>

definition ping_refused :: "PingSystem \<Rightarrow> NodeConnectionDetails \<Rightarrow> ManagedNodeSettings \<Rightarrow> bool" where
  "ping_refused pingSystem ncd ns \<longleftrightarrow>
     HasNotificationType pingSystem ncd \<and> mns_Chain ns \<noteq> Bitcoin \<and> mns_Network ns \<noteq> MainNet"

text \<open>The three services in turn, then the table when all of them followed.\<close>

definition restart_and_store :: "DetailsEnv \<Rightarrow> NodeConnectionDetails \<Rightarrow> HandlerWorld \<Rightarrow> handled" where
  "restart_and_store env ncd w =
     (let n = ncd_NodeId ncd in
      case startServiceOrRestartWhenRunning env LndService n (ncd_Status ncd = status_code Active) w of
        None \<Rightarrow> None
      | Some (w1, lndDone) \<Rightarrow>
      (case startServiceOrRestartWhenRunning env AmbossService n (HasNotificationType PingAmboss ncd) w1 of
         None \<Rightarrow> None
       | Some (w2, ambossDone) \<Rightarrow>
      (case startServiceOrRestartWhenRunning env VectorService n (HasNotificationType PingVector ncd) w2 of
         None \<Rightarrow> None
       | Some (w3, vectorDone) \<Rightarrow>
           if lndDone \<and> ambossDone \<and> vectorDone
           then (case SetNodeConnectionDetails env ncd (hw_Details w3) of
                   (rows, ncd1, Some e) \<Rightarrow> refuse (WrapLogAndSendServerError e ''Updating connection details'') (with_details rows w3)
                 | (rows, ncd1, None) \<Rightarrow> Some (with_details rows w3, [RespondsDetails ncd1]))
           else refuse (LogAndSendServerError (Error ''Service could not be stopped please try again.'')) w3)))"

definition set_include_incomplete :: "NodeConnectionDetails \<Rightarrow> HandlerWorld \<Rightarrow> HandlerWorld" where
  "set_include_incomplete ncd w =
     w\<lparr>hw_Boot := with_services LndService
         (SetIncludeIncomplete (ncd_NodeId ncd) (HasCustomSettings ImportFailedPayments ncd)
           (bw_Services (hw_Boot w) LndService)) (hw_Boot w)\<rparr>"

definition kept_credentials :: "NodeConnectionDetails \<Rightarrow> NodeConnectionDetails \<Rightarrow> NodeConnectionDetails" where
  "kept_credentials existing ncd =
     (if ncd_NodeId existing \<noteq> 0
      then ncd\<lparr>ncd_MacaroonDataBytes := ncd_MacaroonDataBytes existing, ncd_MacaroonFileName := ncd_MacaroonFileName existing,
               ncd_TLSDataBytes := ncd_TLSDataBytes existing, ncd_TLSFileName := ncd_TLSFileName existing\<rparr>
      else ncd)"

definition setNodeConnectionDetailsHandler ::
    "DetailsEnv \<Rightarrow> LndAccess \<Rightarrow> NodeConnectionDetails result \<Rightarrow> string \<Rightarrow> HandlerWorld \<Rightarrow> handled" where
  "setNodeConnectionDetailsHandler env lnd bound statusText w =
     (case bound of
        Inl e \<Rightarrow> refuse (SendBadRequestFromError (wrapped JsonParseError e)) w
      | Inr ncd0 \<Rightarrow>
      (case atoi statusText of
         None \<Rightarrow> refuse (SendBadRequest ''Failed to find/parse status in the request.'') w
       | Some statusId \<Rightarrow>
           if statusId > status_code Deleted
           then refuse (SendBadRequest ''Failed to find/parse status in the request.'') w
           else if ncd_NodeId ncd0 = 0
           then refuse (SendBadRequest ''Failed to find/parse nodeId in the request.'') w
           else
      (let ncd1 = named (ncd0\<lparr>ncd_Status := statusId\<rparr>) in
       case getNodeConnectionDetails env (hw_Details w) (ncd_NodeId ncd1) of
         Inl e \<Rightarrow> refuse (WrapLogAndSendServerError e ''Obtaining existing node connection details'') w
       | Inr existing \<Rightarrow>
      (case GetNodeById (de_NodeFails env) (sw_Nodes (hw_Settings w)) (ncd_NodeId ncd1) of
         Inl e \<Rightarrow> refuse (WrapLogAndSendServerError e ''Obtaining existing node'') w
       | Inr node \<Rightarrow>
      (let ncd2 = kept_credentials existing ncd1 in
       case check_connection lnd existing node ncd2 of
         None \<Rightarrow> None
       | Some (Some r) \<Rightarrow> refuse r w
       | Some None \<Rightarrow>
      (case processTLS ncd2 of
         Inl e \<Rightarrow> refuse (WrapLogAndSendServerError e ''Processing TLS file'') w
       | Inr ncd3 \<Rightarrow>
      (case processMacaroon ncd3 of
         Inl e \<Rightarrow> refuse (WrapLogAndSendServerError e ''Processing Macaroon file'') w
       | Inr ncd \<Rightarrow>
      (case GetNodeSettingsByNodeId (de_NodeOrds env) (sw_NodeCache (hw_Settings w)) (ncd_NodeId ncd) of
         None \<Rightarrow> None
       | Some ns \<Rightarrow>
           if ping_refused PingAmboss ncd ns
           then refuse (LogAndSendServerError (Error ''Amboss Ping Service is only allowed on Bitcoin Mainnet.'')) w
           else if ping_refused PingVector ncd ns
           then refuse (LogAndSendServerError (Error ''Vector Ping Service is only allowed on Bitcoin Mainnet.'')) w
           else restart_and_store env ncd (set_include_incomplete ncd w)))))))))"

section \<open>Status and ping services of a node\<close>

text \<open>Any number is taken for a status.\<close>

definition setNodeConnectionDetailsStatusHandler :: "DetailsEnv \<Rightarrow> string \<Rightarrow> string \<Rightarrow> HandlerWorld \<Rightarrow> handled" where
  "setNodeConnectionDetailsStatusHandler env nodeIdText statusText w =
     (case atoi nodeIdText of
        None \<Rightarrow> refuse (SendBadRequest ''Failed to find/parse nodeId in the request.'') w
      | Some nodeId \<Rightarrow>
      (case atoi statusText of
         None \<Rightarrow> refuse (SendBadRequest ''Failed to find/parse statusId in the request.'') w
       | Some statusId \<Rightarrow>
      (case startServiceOrRestartWhenRunning env LndService nodeId (statusId = status_code Active) w of
         None \<Rightarrow> None
       | Some (w1, True) \<Rightarrow>
           (case setNodeConnectionDetailsStatus env nodeId statusId (hw_Details w1) of
              (rows, Inl e) \<Rightarrow> refuse (LogAndSendServerError e) (with_details rows w1)
            | (rows, Inr k) \<Rightarrow> Some (with_details rows w1, [RespondsOK]))
       | Some (w1, False) \<Rightarrow>
           refuse (LogAndSendServerError (Error ''Service could not be stopped please try again.'')) w1)))"

text \<open>
  The conversion to a ping system keeps the lowest byte; a number that is neither system leaves the
  service at its zero value, the LND service.
\<close>

definition ping_service :: "int \<Rightarrow> ServiceType" where
  "ping_service pingSystem =
     (if ping_byte pingSystem = PingVector then VectorService
      else if ping_byte pingSystem = PingAmboss then AmbossService else LndService)"

definition setNodeConnectionDetailsPingSystemHandler ::
    "DetailsEnv \<Rightarrow> string \<Rightarrow> string \<Rightarrow> string \<Rightarrow> HandlerWorld \<Rightarrow> handled" where
  "setNodeConnectionDetailsPingSystemHandler env nodeIdText pingText statusText w =
     (case atoi nodeIdText of
        None \<Rightarrow> refuse (SendBadRequest ''Failed to find/parse nodeId in the request.'') w
      | Some nodeId \<Rightarrow>
      (case atoi pingText of
         None \<Rightarrow> refuse (SendBadRequest ''Failed to find/parse pingSystem in the request.'') w
       | Some pingSystem \<Rightarrow>
           if pingSystem > PingSystemMax
           then refuse (SendBadRequest ''Failed to parse pingSystem in the request.'') w
           else
      (case atoi statusText of
         None \<Rightarrow> refuse (SendBadRequest ''Failed to find/parse statusId in the request.'') w
       | Some statusId \<Rightarrow>
      (case GetNodeSettingsByNodeId (de_NodeOrds env) (sw_NodeCache (hw_Settings w)) nodeId of
         None \<Rightarrow> None
       | Some ns \<Rightarrow>
           if statusId = status_code Active \<and> (mns_Chain ns \<noteq> Bitcoin \<or> mns_Network ns \<noteq> MainNet)
           then refuse (SendBadRequest ''Ping Services are only allowed on Bitcoin Mainnet.'') w
           else
      (case startServiceOrRestartWhenRunning env (ping_service pingSystem) nodeId (statusId = status_code Active) w of
         None \<Rightarrow> None
       | Some (w1, True) \<Rightarrow>
           (case setNodeConnectionDetailsPingSystemStatus env nodeId (ping_byte pingSystem) statusId (hw_Details w1) of
              (rows, Inl e) \<Rightarrow> refuse (LogAndSendServerError e) (with_details rows w1)
            | (rows, Inr k) \<Rightarrow> Some (with_details rows w1, [RespondsOK]))
       | Some (w1, False) \<Rightarrow>
           refuse (LogAndSendServerError (Error ''Service could not be stopped please try again.'')) w1)))))"

section \<open>Services follow requests\<close>

definition running :: "ServiceType \<Rightarrow> int \<Rightarrow> HandlerWorld \<Rightarrow> bool" where
  "running ty n w \<longleftrightarrow> sv_runningList (bw_Services (hw_Boot w) ty) n \<noteq> None"

definition booting :: "ServiceType \<Rightarrow> int \<Rightarrow> HandlerWorld \<Rightarrow> bool" where
  "booting ty n w \<longleftrightarrow> running ty n w \<and> locked ty n (hw_Boot w)"

definition serving :: "HandlerWorld \<Rightarrow> bool" where
  "serving w \<longleftrightarrow> \<not> hw_NoSub w \<and> bw_Dispatching (hw_Boot w)"

text \<open>What a kill leaves: tasks, locks and settings as they were; a running service that is not booting stopped.\<close>

definition killed :: "ServiceType \<Rightarrow> int \<Rightarrow> Status option \<Rightarrow> HandlerWorld \<Rightarrow> HandlerWorld \<Rightarrow> bool" where
  "killed ty n enforced w w1 \<longleftrightarrow>
     hw_Settings w1 = hw_Settings w \<and> serving w1 \<and> bw_Tasks (hw_Boot w1) = bw_Tasks (hw_Boot w) \<and>
     (\<forall>ty k. locked ty k (hw_Boot w1) = locked ty k (hw_Boot w)) \<and>
     (if running ty n w \<and> \<not> booting ty n w
      then bw_Cancelled (hw_Boot w1) = bw_Cancelled (hw_Boot w) @ [the (sv_runningList (bw_Services (hw_Boot w) ty) n)] \<and>
        status_of (bw_Services (hw_Boot w1) ty) n = Inactive \<and>
        snd (GetEnforcedServiceStatusCheck n (bw_Services (hw_Boot w1) ty)) = enforced
      else bw_Cancelled (hw_Boot w1) = bw_Cancelled (hw_Boot w) \<and>
        (\<forall>ty k. status_of (bw_Services (hw_Boot w1) ty) k = status_of (bw_Services (hw_Boot w) ty) k))"

lemma send_kill:
  assumes "serving w" and "ty \<noteq> TorqService"
  shows "\<exists>w1. send_command env (service_command ty Kill n enforced) w =
      Some (w1, Some (if \<not> running ty n w then Inactive else if booting ty n w then Pending else Active)) \<and>
    killed ty n enforced w w1"
proof -
  let ?m = "service_command ty Kill n enforced" and ?b = "(hw_Boot w)\<lparr>bw_Details := hw_Details w\<rparr>"
  have m: "scm_Out ?m" "scm_ServiceCommand ?m = Kill" "scm_ServiceType ?m = ty" "scm_NodeId ?m = n"
    "scm_EnforcedServiceStatus ?m = enforced" "scm_ServiceType ?m \<noteq> TorqService"
    using assms(2) by (simp_all add: service_command_def)
  have d: "bw_Dispatching ?b" using assms(1) by (simp add: serving_def)
  from kill_is_answered [OF m(1,2,6) d refl refl, of env, unfolded m] obtain b es st where
    "boot_action ?b (Receive env ?m) = Served b (Some (es, Some st)) \<and> bw_Dispatching b \<and>
     bw_Tasks b = bw_Tasks ?b \<and> (\<forall>ty k. locked ty k b = locked ty k ?b) \<and>
     st = (if sv_runningList (bw_Services ?b ty) n = None then Inactive else if locked ty n ?b then Pending else Active) \<and>
     bw_Cancelled b = bw_Cancelled ?b @ (if st = Active then [the (sv_runningList (bw_Services ?b ty) n)] else []) \<and>
     (st \<noteq> Active \<longrightarrow> (\<forall>ty k. status_of (bw_Services b ty) k = status_of (bw_Services ?b ty) k)) \<and>
     (st = Active \<longrightarrow> status_of (bw_Services b ty) n = Inactive \<and>
        snd (GetEnforcedServiceStatusCheck n (bw_Services b ty)) = enforced)" by blast
  then have k: "boot_action ?b (Receive env ?m) = Served b (Some (es, Some st))" and b: "bw_Dispatching b"
      "bw_Tasks b = bw_Tasks (hw_Boot w)" "\<forall>ty k. locked ty k b = locked ty k (hw_Boot w)"
      "st = (if \<not> running ty n w then Inactive else if booting ty n w then Pending else Active)"
      "bw_Cancelled b = bw_Cancelled (hw_Boot w) @
        (if st = Active then [the (sv_runningList (bw_Services (hw_Boot w) ty) n)] else [])"
      "st \<noteq> Active \<longrightarrow> (\<forall>ty k. status_of (bw_Services b ty) k = status_of (bw_Services (hw_Boot w) ty) k)"
      "st = Active \<longrightarrow> status_of (bw_Services b ty) n = Inactive \<and> snd (GetEnforcedServiceStatusCheck n (bw_Services b ty)) = enforced"
    by (simp_all add: running_def booting_def)
  have "killed ty n enforced w (w\<lparr>hw_Boot := b\<rparr>)"
    using b assms(1) by (auto simp: killed_def serving_def running_def booting_def)
  with k b(4) assms(1) show ?thesis by (simp add: send_command_def serving_def)
qed

lemma send_boot:
  assumes "serving w" and "ty \<noteq> TorqService" and "n \<noteq> 0"
    and "GetConnectionDetailsById env (hw_Details w) n = Ok node" and "cd_NodeId node = n"
  shows "\<exists>w1. send_command env (service_command ty Boot n (Some Active)) w = Some (w1, None) \<and>
    hw_Settings w1 = hw_Settings w \<and> serving w1 \<and> bw_Cancelled (hw_Boot w1) = bw_Cancelled (hw_Boot w) \<and>
    bw_Tasks (hw_Boot w1) = bw_Tasks (hw_Boot w) @
      (if locked ty n (hw_Boot w) then []
       else [\<lparr>bt_Type = ty, bt_Node = node, bt_NoDelay = False, bt_Phase = Launched\<rparr>])"
proof -
  let ?m = "service_command ty Boot n (Some Active)" and ?b = "(hw_Boot w)\<lparr>bw_Details := hw_Details w\<rparr>"
  obtain b0 where t: "take_enforced ?m ?b = (b0, Some Active)"
    using assms(3) by (simp add: take_enforced_def service_command_def split_beta)
  have b0: "same_locks ?b b0" "bw_Dispatching b0 = bw_Dispatching ?b" using take_enforced_locks [OF t] by auto
  have canc: "bw_Cancelled b0 = bw_Cancelled ?b"
    using t by (auto simp: take_enforced_def split: prod.splits if_splits)
  have "boot_action ?b (Receive env ?m) = Served (launch ?m [node] b0) (Some ([], None))"
    using assms t b0 by (simp add: boot_action_def serving_def dispatch_def boot_command_def torq_booted_def
        boot_nodes_def service_command_def same_locks_def)
  moreover have "bw_Tasks (launch ?m [node] b0) = bw_Tasks (hw_Boot w) @
      (if locked ty n (hw_Boot w) then [] else [\<lparr>bt_Type = ty, bt_Node = node, bt_NoDelay = False, bt_Phase = Launched\<rparr>])"
    using b0(1) assms(5) by (auto simp: service_command_def same_locks_def Let_def GetBootLock_def TryLock_def)
  moreover have "bw_Cancelled (launch ?m [node] b0) = bw_Cancelled (hw_Boot w)" "bw_Dispatching (launch ?m [node] b0)"
    using canc b0(2) assms(1) by (auto simp: serving_def Let_def split_beta)
  ultimately show ?thesis using assms(1) by (auto simp: send_command_def serving_def)
qed

lemma start_service:
  assumes "serving w" and "ty \<noteq> TorqService" and "n \<noteq> 0"
    and "GetConnectionDetailsById env (hw_Details w) n = Ok node" and "cd_NodeId node = n"
  shows "\<exists>w1. startServiceOrRestartWhenRunning env ty n active w = Some (w1, \<not> booting ty n w) \<and>
    hw_Details w1 = hw_Details w \<and> serving w1 \<and>
    bw_Tasks (hw_Boot w1) = bw_Tasks (hw_Boot w) @
      (if active \<and> \<not> running ty n w \<and> \<not> locked ty n (hw_Boot w)
       then [\<lparr>bt_Type = ty, bt_Node = node, bt_NoDelay = False, bt_Phase = Launched\<rparr>] else []) \<and>
    bw_Cancelled (hw_Boot w1) = bw_Cancelled (hw_Boot w) @
      (if running ty n w \<and> \<not> booting ty n w then [the (sv_runningList (bw_Services (hw_Boot w) ty) n)] else []) \<and>
    (running ty n w \<and> \<not> booting ty n w \<longrightarrow> status_of (bw_Services (hw_Boot w1) ty) n = Inactive \<and>
       snd (GetEnforcedServiceStatusCheck n (bw_Services (hw_Boot w1) ty)) = Some (if active then Active else Inactive))"
proof -
  let ?e = "Some (if active then Active else Inactive)"
  obtain w1 where k: "send_command env (service_command ty Kill n ?e) w =
      Some (w1, Some (if \<not> running ty n w then Inactive else if booting ty n w then Pending else Active))"
    and w1: "killed ty n ?e w w1"
    using send_kill [OF assms(1,2)] by blast
  show ?thesis
  proof (cases "active \<and> \<not> running ty n w")
    case False
    with k w1 show ?thesis
      by (auto simp: startServiceOrRestartWhenRunning_def killed_def booting_def Let_def)
  next
    case True
    have "serving w1" "hw_Details w1 = hw_Details w" using w1 by (simp_all add: killed_def)
    with send_boot [of w1 ty n env node] assms obtain w2 where
      "send_command env (service_command ty Boot n (Some Active)) w1 = Some (w2, None)"
      "hw_Settings w2 = hw_Settings w1" "serving w2" "bw_Cancelled (hw_Boot w2) = bw_Cancelled (hw_Boot w1)"
      "bw_Tasks (hw_Boot w2) = bw_Tasks (hw_Boot w1) @ (if locked ty n (hw_Boot w1) then []
         else [\<lparr>bt_Type = ty, bt_Node = node, bt_NoDelay = False, bt_Phase = Launched\<rparr>])" by auto
    with True k w1 show ?thesis
      by (auto simp: startServiceOrRestartWhenRunning_def killed_def booting_def Let_def)
  qed
qed


section \<open>The status of a node\<close>

lemma row_details:
  assumes "keys_ok db rows" and "r \<in> set rows" and "byte_flags r" and "de_Get env = None"
  shows "\<exists>node. GetConnectionDetailsById env rows (ncd_NodeId r) = Ok node \<and> cd_NodeId node = ncd_NodeId r"
proof -
  have "find (\<lambda>s. ncd_NodeId s = ncd_NodeId r) rows = Some r"
    using assms(1,2) unfolding keys_ok_def by (induction rows) (auto simp: rev_image_eqI)
  then show ?thesis
    using assms(3,4) by (simp add: GetConnectionDetailsById_def getNodeConnectionDetails_def scan_byte_flags)
qed

text \<open>
  A request for the status of a node with stored details is answered, and the status is stored
  exactly when the LND service of the node followed: while that service boots the request is refused
  and the table left as it was; any number is stored as a status.
\<close>

lemma status_stored_with_service:
  assumes "serving w" and "keys_ok db (hw_Details w)" and "r \<in> set (hw_Details w)" and "byte_flags r" and "ncd_NodeId r \<noteq> 0"
    and "de_Get env = None" and "de_Exec env = None" and "de_RowsAffected env = None"
    and "atoi nodeIdText = Some (ncd_NodeId r)" and "atoi statusText = Some statusId"
  shows "\<exists>w1. setNodeConnectionDetailsStatusHandler env nodeIdText statusText w = Some (w1,
       if booting LndService (ncd_NodeId r) w
       then [Refuses (500, SingleServerError ''Service could not be stopped please try again.'')] else [RespondsOK]) \<and>
     (if booting LndService (ncd_NodeId r) w then hw_Details w1 = hw_Details w
      else map ncd_Status (filter (\<lambda>s. ncd_NodeId s = ncd_NodeId r) (hw_Details w1)) = [statusId]) \<and>
     filter (\<lambda>s. ncd_NodeId s \<noteq> ncd_NodeId r) (hw_Details w1) = filter (\<lambda>s. ncd_NodeId s \<noteq> ncd_NodeId r) (hw_Details w)"
proof -
  let ?n = "ncd_NodeId r" and ?active = "statusId = status_code Active"
  obtain node where node: "GetConnectionDetailsById env (hw_Details w) ?n = Ok node" "cd_NodeId node = ?n"
    using row_details [OF assms(2,3,4,6)] by blast
  obtain w1 where start: "startServiceOrRestartWhenRunning env LndService ?n ?active w = Some (w1, \<not> booting LndService ?n w)"
    and same: "hw_Details w1 = hw_Details w"
    using start_service [OF assms(1) _ assms(5) node, of LndService ?active] by auto
  have one: "filter (\<lambda>s. ncd_NodeId s = ?n) (hw_Details w) = [r]"
  proof -
    have "filter (\<lambda>s. ncd_NodeId s = ?n) rows = [r]" if "distinct (map ncd_NodeId rows)" "r \<in> set rows" for rows
      using that by (induction rows) (auto simp: filter_empty_conv image_iff)
    then show ?thesis using assms(2,3) by (simp add: keys_ok_def)
  qed
  let ?f = "\<lambda>s. if ncd_NodeId s = ?n \<and> ncd_Status s \<noteq> statusId
    then s\<lparr>ncd_Status := statusId, ncd_UpdatedOn := Some (de_Now env)\<rparr> else s"
  have set: "setNodeConnectionDetailsStatus env ?n statusId rows = (map ?f rows, affected env (\<lambda>s. ncd_NodeId s = ?n \<and> ncd_Status s \<noteq> statusId) rows)" for rows
    using assms(7) by (simp add: setNodeConnectionDetailsStatus_def)
  have keep: "filter (\<lambda>s. ncd_NodeId s \<noteq> ?n) (map ?f rows) = filter (\<lambda>s. ncd_NodeId s \<noteq> ?n) rows"
    "filter (\<lambda>s. ncd_NodeId s = ?n) (map ?f rows) = map ?f (filter (\<lambda>s. ncd_NodeId s = ?n) rows)" for rows
    by (induction rows) auto
  have stored: "map ncd_Status (filter (\<lambda>s. ncd_NodeId s = ?n) (map ?f (hw_Details w))) = [statusId]"
    unfolding keep(2) one by simp
  show ?thesis
    using start same stored keep(1) assms(8-10)
    by (auto simp: setNodeConnectionDetailsStatusHandler_def set with_details_def affected_def
        LogAndSendServerError_def error_text_def)
qed

section \<open>Ping systems\<close>

text \<open>
  A request for a ping system that is neither Amboss nor Vector acts on the LND service: switching
  such a system off stops the LND service of the node, and keeps it from booting again by itself.
\<close>

lemma unknown_ping_system_stops_lnd:
  assumes "serving w" and "running LndService n w" and "\<not> booting LndService n w" and "n \<noteq> 0"
    and "GetConnectionDetailsById env (hw_Details w) n = Ok node" and "cd_NodeId node = n"
    and "atoi nodeIdText = Some n" and "atoi pingText = Some p" and "p \<le> PingSystemMax" and "p mod 256 \<notin> {1, 2}"
    and "atoi statusText = Some (status_code Inactive)"
    and "GetNodeSettingsByNodeId (de_NodeOrds env) (sw_NodeCache (hw_Settings w)) n = Some ns"
  shows "\<exists>w1 rs. setNodeConnectionDetailsPingSystemHandler env nodeIdText pingText statusText w = Some (w1, rs) \<and>
     status_of (bw_Services (hw_Boot w1) LndService) n = Inactive \<and>
     bw_Cancelled (hw_Boot w1) = bw_Cancelled (hw_Boot w) @ [the (sv_runningList (bw_Services (hw_Boot w) LndService) n)] \<and>
     snd (GetEnforcedServiceStatusCheck n (bw_Services (hw_Boot w1) LndService)) = Some Inactive"
proof -
  have "uint (ping_byte p) = p mod 256" by (simp add: uint_word_of_int)
  then have "ping_byte p \<noteq> PingAmboss" "ping_byte p \<noteq> PingVector"
    using assms(10) by (auto simp: PingAmboss_def PingVector_def)
  then have ty: "ping_service p = LndService" by (simp add: ping_service_def)
  obtain w1 where start: "startServiceOrRestartWhenRunning env LndService n False w = Some (w1, True)"
    and w1: "bw_Cancelled (hw_Boot w1) = bw_Cancelled (hw_Boot w) @ [the (sv_runningList (bw_Services (hw_Boot w) LndService) n)]"
      "status_of (bw_Services (hw_Boot w1) LndService) n = Inactive"
      "snd (GetEnforcedServiceStatusCheck n (bw_Services (hw_Boot w1) LndService)) = Some Inactive"
    using start_service [OF assms(1) _ assms(4,5,6), of LndService False] assms(2,3) by auto
  obtain rows res where set: "setNodeConnectionDetailsPingSystemStatus env n (ping_byte p) (status_code Inactive) (hw_Details w1) = (rows, res)"
    by fastforce
  have "setNodeConnectionDetailsPingSystemHandler env nodeIdText pingText statusText w = Some (with_details rows w1,
      case res of Inl e \<Rightarrow> [Refuses (LogAndSendServerError e)] | Inr k \<Rightarrow> [RespondsOK])"
    using assms(7-9,11,12) ty start set
    by (simp add: setNodeConnectionDetailsPingSystemHandler_def split: sum.split)
  with w1 show ?thesis by (auto simp: with_details_def)
qed

text \<open>
  Switching on the system \<open>-1\<close>, which is taken for 255, leaves a row that can no longer be read.
\<close>

lemma negative_ping_system_unreadable:
  assumes "de_Exec env = None" and "de_Get env = None"
  shows "getNodeConnectionDetails env
      (fst (setNodeConnectionDetailsPingSystemStatus env n (ping_byte (- 1)) (status_code Active)
        [zeroDetails\<lparr>ncd_NodeId := n, ncd_PingSystem := 1\<rparr>])) n
    = Fails ''converting driver.Value type int64 to a uint8: value out of range''"
  using assms
  by (simp add: setNodeConnectionDetailsPingSystemStatus_def ping_due_def ping_after_def ping_set_def
      getNodeConnectionDetails_def scan_details_def zeroDetails_def unsigned_minus_1_eq_mask
      mask_eq_exp_minus_1 signed_modulo_int_def)

section \<open>Further branches\<close>

text \<open>Without subscriptions a request to start or stop a service is never answered.\<close>

lemma no_sub_request_hangs:
  "hw_NoSub w \<Longrightarrow> startServiceOrRestartWhenRunning env ty n active w = None"
  by (simp add: startServiceOrRestartWhenRunning_def send_command_def)

text \<open>
  When the node cannot be added, the request answers that, tries to store details for node 0 and
  answers the error of that, too.
\<close>

lemma failed_registration_answers_twice:
  assumes "GetNodeIdByPublicKey (de_NodeOrds env) (sw_NodeCache (hw_Settings w)) k c n = Some 0"
    and "nf_Insert (de_NodeFails env) = Some e" and "de_Exec env = None"
    and "node_table_ok (sw_Nodes (hw_Settings w))" and "keys_ok (sw_Nodes (hw_Settings w)) (hw_Details w)"
  shows "\<exists>w1 r. register_node env k c n ncd w =
     Some (w1, [Refuses (WrapLogAndSendServerError e ''Adding node''), Refuses (WrapLogAndSendServerError r ''Adding node connection details'')])"
proof -
  have no0: "\<not> list_ex (\<lambda>m. nd_NodeId m = 0) (nt_rows (sw_Nodes (hw_Settings w)))"
    using assms(4) by (auto simp: node_table_ok_def list_ex_iff)
  moreover have "\<not> list_ex (\<lambda>r. ncd_NodeId r = 0) (hw_Details w)"
    using assms(5) no0 by (auto simp: keys_ok_def list_ex_iff)
  ultimately show ?thesis
    using assms(1-3)
    by (simp add: register_node_def register_details_def AddNodeWhenNew_def addNodeConnectionDetails_def zeroNode_def named_def Let_def)
      blast
qed

text \<open>
  On Bitcoin's test network the details of a node may ask for a ping service, which the request for
  that ping service refuses.
\<close>

lemma ping_guards_differ:
  assumes "mns_Chain ns = Bitcoin" and "mns_Network ns = TestNet"
  shows "\<not> ping_refused p ncd ns" and "mns_Chain ns \<noteq> Bitcoin \<or> mns_Network ns \<noteq> MainNet"
  using assms by (simp_all add: ping_refused_def)

text \<open>An update without an address panics when an address is stored with its credentials.\<close>

lemma missing_address_panics:
  assumes "ncd_GRPCAddress ncd = None" and "ncd_GRPCAddress existing = Some a"
    and "ncd_TLSFile ncd = None" and "ncd_MacaroonFile ncd = None"
    and "ncd_TLSDataBytes existing = Some (t # ts)" and "ncd_MacaroonDataBytes existing = Some (m # ms)"
  shows "check_connection lnd existing node ncd = None"
  using assms by (simp add: check_connection_def file_or_stored_def)

section \<open>Examples\<close>

definition sample_handlers :: "BootWorld \<Rightarrow> HandlerWorld" where
  "sample_handlers b =
     \<lparr>hw_Settings = empty_settings_world\<lparr>sw_Nodes := \<lparr>nt_rows = [zeroNode\<lparr>nd_NodeId := 4\<rparr>], nt_nextId = 5\<rparr>,
        sw_Details := [active_row 4]\<rparr>,
      hw_SettingsRows = [], hw_SettingsCache = emptySettingsState, hw_Boot = b, hw_NoSub = False\<rparr>"

text \<open>The node 4 with its LND service connected.\<close>

lemma sample_running:
  obtains b where
    "serves boot_action (initial_boot_world [active_row 4])
       [Receive sample_details_env (boot_message 4 None), Subscribe 0 0, Connect 0 0 True] b"
    and "serving (sample_handlers b)" and "running LndService 4 (sample_handlers b)"
    and "\<not> booting LndService 4 (sample_handlers b)"
    and "sv_runningList (bw_Services b LndService) 4 = Some 0" and "bw_Cancelled b = []"
proof -
  let ?acts = "[Receive sample_details_env (boot_message 4 None), Subscribe 0 0, Connect 0 0 True]"
  obtain b where "serves boot_action (initial_boot_world [active_row 4]) ?acts b"
    and "bw_Dispatching b" "sv_runningList (bw_Services b LndService) 4 = Some 0" "\<not> locked LndService 4 b" "bw_Cancelled b = []"
    by (simp add: boot_defs boot_message_def active_row_def initial_boot_world_def emptyServices_def
        GetConnectionDetailsById_def getNodeConnectionDetails_def scan_details_def sample_details_env_def zeroDetails_def
        initServiceMaps_def Let_def)
  then show ?thesis
    by (intro that) (simp_all add: sample_handlers_def serving_def running_def booting_def)
qed

lemma sample_row:
  "keys_ok \<lparr>nt_rows = [zeroNode\<lparr>nd_NodeId := 4\<rparr>], nt_nextId = 5\<rparr> (hw_Details (sample_handlers b))"
  "active_row 4 \<in> set (hw_Details (sample_handlers b))" "byte_flags (active_row 4)" "ncd_NodeId (active_row 4) = 4"
  by (simp_all add: keys_ok_def sample_handlers_def byte_flags_def active_row_def zeroDetails_def)

lemma sample_env_succeeds:
  "de_Get sample_details_env = None" "de_Exec sample_details_env = None" "de_RowsAffected sample_details_env = None"
  by (simp_all add: sample_details_env_def)

lemma sample_texts: "atoi ''4'' = Some 4" "atoi ''0'' = Some 0"
  by (simp_all add: atoi_def is_digit_def digit_val_def)


lemma status_stored_with_service_witness:
  "\<exists>b w1. setNodeConnectionDetailsStatusHandler sample_details_env ''4'' ''0'' (sample_handlers b) = Some (w1, [RespondsOK])
     \<and> map ncd_Status (filter (\<lambda>s. ncd_NodeId s = 4) (hw_Details w1)) = [0]"
proof -
  obtain b where b: "serving (sample_handlers b)" "\<not> booting LndService 4 (sample_handlers b)" by (rule sample_running)
  from status_stored_with_service [OF b(1) sample_row(1-3) _ sample_env_succeeds, unfolded sample_row(4),
      OF _ sample_texts] b(2)
  show ?thesis by (intro exI [of _ b]) auto
qed

lemma unknown_ping_system_stops_lnd_witness:
  "\<exists>b w1 rs. setNodeConnectionDetailsPingSystemHandler sample_details_env ''4'' ''0'' ''0'' (sample_handlers b) = Some (w1, rs)
     \<and> bw_Cancelled (hw_Boot w1) = [0] \<and> status_of (bw_Services (hw_Boot w1) LndService) 4 = Inactive"
proof -
  obtain b where b: "serving (sample_handlers b)" "running LndService 4 (sample_handlers b)"
    "\<not> booting LndService 4 (sample_handlers b)" and sv: "sv_runningList (bw_Services b LndService) 4 = Some 0" "bw_Cancelled b = []"
    by (rule sample_running)
  have h: "hw_Boot (sample_handlers b) = b" by (simp add: sample_handlers_def)
  have t: "atoi ''0'' = Some (status_code Inactive)" using sample_texts(2) by simp
  from row_details [OF sample_row(1-3) sample_env_succeeds(1), unfolded sample_row(4)] obtain node where
    node: "GetConnectionDetailsById sample_details_env (hw_Details (sample_handlers b)) 4 = Ok node" "cd_NodeId node = 4" by blast
  have p: "(0 :: int) \<le> PingSystemMax" "(0 :: int) mod 256 \<notin> {1, 2}" by (simp_all add: PingSystemMax_def PingVector_def)
  obtain ns where ns: "GetNodeSettingsByNodeId (de_NodeOrds sample_details_env) (sw_NodeCache (hw_Settings (sample_handlers b))) 4 = Some ns"
    by (simp add: node_settings_read)
  from unknown_ping_system_stops_lnd [OF b _ node sample_texts p t ns] sv
  show ?thesis unfolding h by auto
qed

end
