(* ===== verification/Labels.thy ===== *)
theory Labels
  imports Corridors ManagedChannelGroup Channels ServerErrors
begin

text \<open>
  Tags and categories, \<open>src/internal/tags\<close> and \<open>src/internal/categories\<close>, and the table of
  corridors, \<open>src/internal/corridors/database.go\<close>.  The tables are lists of rows with the constraints
  of \<open>000049_categories.up.psql\<close>: unique names, and foreign keys from tags to categories and from
  corridors and channel groups to both.  The theorems say that every operation keeps those
  constraints, that a new tag loses its category, and that no corridor is ever added, because the
  statement that inserts one has fewer values than columns.
\<close>

section \<open>Rows and tables\<close>

record TagRow =
  tag_TagId :: int
  tag_CategoryId :: "int option"
  tag_Name :: string
  tag_Style :: string
  tag_CreatedOn :: time
  tag_UpdateOn :: time

record CategoryRow =
  cat_CategoryId :: int
  cat_Name :: string
  cat_Style :: string
  cat_CreatedOn :: time
  cat_UpdateOn :: time

datatype groupOrigin = categoryCorridor | tagCorridor

record channelGroup =
  grp_ChannelGroupId :: int
  grp_GroupOriginId :: groupOrigin
  grp_NodeId :: int
  grp_CategoryId :: "int option"
  grp_TagId :: "int option"
  grp_ChannelId :: int
  grp_CreatedOn :: time

text \<open>
  The tables and the next values of their sequences.  \<open>lt_Locked\<close> are the origins whose rows a
  transaction that was never ended has deleted: their locks are held for good.  (A removal of a label such a
  row has would wait for the lock too; here it is refused by the foreign key, and changes as little.)
\<close>

record LabelTables =
  lt_Categories :: "CategoryRow list"
  lt_nextCategory :: int
  lt_Tags :: "TagRow list"
  lt_nextTag :: int
  lt_Corridors :: "Corridor list"
  lt_nextCorridor :: int
  lt_Groups :: "channelGroup list"
  lt_nextGroup :: int
  lt_Locked :: "groupOrigin list"

definition zeroTag :: TagRow where
  "zeroTag = \<lparr>tag_TagId = 0, tag_CategoryId = None, tag_Name = [], tag_Style = [], tag_CreatedOn = 0, tag_UpdateOn = 0\<rparr>"

definition zeroCategory :: CategoryRow where
  "zeroCategory = \<lparr>cat_CategoryId = 0, cat_Name = [], cat_Style = [], cat_CreatedOn = 0, cat_UpdateOn = 0\<rparr>"

text \<open>
  The statements, and the error the database answers one with, if any.  \<open>Deleted\<close> stands for asking
  how many rows a deletion had.  What \<open>%v\<close> prints for a list of rows is a parameter.
\<close>

datatype LabelQuery =
    SelectTag | SelectTags | SelectTagsOfCategory | InsertTag | UpdateTag | DeleteTag
  | SelectCategory | SelectCategories | InsertCategory | UpdateCategory | DeleteCategory
  | SelectCorridors | CountCorridors | InsertCorridor | DeleteCorridor | Deleted
  | SelectGroup | SelectGroupsOfChannel | SelectAllChannels | BeginTransaction | DeleteGroups | InsertGroup
  | CommitTransaction

record LabelEnv =
  lbe_Now :: time
  lbe_Fails :: "LabelQuery \<Rightarrow> go_error option"
  lbe_ShowCorridors :: "Corridor list \<Rightarrow> string"
  lbe_ShowTags :: "TagRow list \<Rightarrow> string"

definition SqlExecutionError :: string where
  "SqlExecutionError = ''Executing SQL statement.''"

definition SqlUniqueConstraintError :: string where
  "SqlUniqueConstraintError = ''Unique constraint violation.''"

definition SqlAffectedRowsCheckError :: string where
  "SqlAffectedRowsCheckError = ''Checking the affected rows.''"

definition unique_violation :: go_error where
  "unique_violation = Error ''pq: duplicate key value violates unique constraint''"

definition foreign_key_violation :: go_error where
  "foreign_key_violation = Error ''pq: update or delete violates foreign key constraint''"

text \<open>A query that answers \<open>v\<close> unless the database fails.\<close>

definition queried :: "LabelEnv \<Rightarrow> LabelQuery \<Rightarrow> 'a \<Rightarrow> 'a result" where
  "queried env q v = (case lbe_Fails env q of Some e \<Rightarrow> Inl (wrapped SqlExecutionError e) | None \<Rightarrow> Ok v)"

text \<open>The number of rows a deletion had.\<close>

definition deleted_rows :: "LabelEnv \<Rightarrow> ('a \<Rightarrow> bool) \<Rightarrow> 'a list \<Rightarrow> int result" where
  "deleted_rows env cond rows =
     (case lbe_Fails env Deleted of
        Some e \<Rightarrow> Inl (wrapped SqlAffectedRowsCheckError e)
      | None \<Rightarrow> Ok (int (length (filter cond rows))))"

section \<open>Tags\<close>

definition GetTag :: "LabelEnv \<Rightarrow> LabelTables \<Rightarrow> int \<Rightarrow> TagRow result" where
  "GetTag env db tagId =
     queried env SelectTag (case find (\<lambda>t. tag_TagId t = tagId) (lt_Tags db) of None \<Rightarrow> zeroTag | Some t \<Rightarrow> t)"

definition GetTags :: "LabelEnv \<Rightarrow> LabelTables \<Rightarrow> TagRow list result" where
  "GetTags env db = queried env SelectTags (lt_Tags db)"

definition GetTagsByCategoryId :: "LabelEnv \<Rightarrow> LabelTables \<Rightarrow> int \<Rightarrow> TagRow list result" where
  "GetTagsByCategoryId env db categoryId =
     queried env SelectTagsOfCategory (filter (\<lambda>t. tag_CategoryId t = Some categoryId) (lt_Tags db))"

text \<open>
  The insertion names neither id nor category.  A violated constraint has its own message; the
  sequence moves on either way.
\<close>

definition addTag :: "LabelEnv \<Rightarrow> TagRow \<Rightarrow> LabelTables \<Rightarrow> LabelTables \<times> TagRow result" where
  "addTag env tag0 db =
     (let tag = tag0\<lparr>tag_CreatedOn := lbe_Now env, tag_UpdateOn := lbe_Now env\<rparr>;
          db1 = db\<lparr>lt_nextTag := lt_nextTag db + 1\<rparr>
      in case lbe_Fails env InsertTag of
           Some e \<Rightarrow> (db, Inl (wrapped SqlExecutionError e))
         | None \<Rightarrow>
             if list_ex (\<lambda>t. tag_Name t = tag_Name tag) (lt_Tags db)
             then (db1, Inl (wrapped SqlUniqueConstraintError unique_violation))
             else (db1\<lparr>lt_Tags := lt_Tags db @ [tag\<lparr>tag_CategoryId := None, tag_TagId := lt_nextTag db\<rparr>]\<rparr>,
                   Ok (tag\<lparr>tag_TagId := lt_nextTag db\<rparr>)))"

definition setTag :: "LabelEnv \<Rightarrow> TagRow \<Rightarrow> LabelTables \<Rightarrow> LabelTables \<times> TagRow result" where
  "setTag env tag0 db =
     (let tag = tag0\<lparr>tag_UpdateOn := lbe_Now env\<rparr>;
          mine = (\<lambda>t. tag_TagId t = tag_TagId tag)
      in case lbe_Fails env UpdateTag of
           Some e \<Rightarrow> (db, Inl (wrapped SqlExecutionError e))
         | None \<Rightarrow>
             if list_ex mine (lt_Tags db) \<and> list_ex (\<lambda>t. \<not> mine t \<and> tag_Name t = tag_Name tag) (lt_Tags db)
             then (db, Inl (wrapped SqlUniqueConstraintError unique_violation))
             else (db\<lparr>lt_Tags := map (\<lambda>t. if mine t
                          then t\<lparr>tag_Name := tag_Name tag, tag_Style := tag_Style tag, tag_UpdateOn := tag_UpdateOn tag\<rparr>
                          else t) (lt_Tags db)\<rparr>,
                   Ok tag))"

section \<open>Categories\<close>

definition GetCategory :: "LabelEnv \<Rightarrow> LabelTables \<Rightarrow> int \<Rightarrow> CategoryRow result" where
  "GetCategory env db categoryId =
     queried env SelectCategory
       (case find (\<lambda>c. cat_CategoryId c = categoryId) (lt_Categories db) of None \<Rightarrow> zeroCategory | Some c \<Rightarrow> c)"

definition GetCategories :: "LabelEnv \<Rightarrow> LabelTables \<Rightarrow> CategoryRow list result" where
  "GetCategories env db = queried env SelectCategories (lt_Categories db)"

definition addCategory :: "LabelEnv \<Rightarrow> CategoryRow \<Rightarrow> LabelTables \<Rightarrow> LabelTables \<times> CategoryRow result" where
  "addCategory env category0 db =
     (let category = category0\<lparr>cat_CreatedOn := lbe_Now env, cat_UpdateOn := lbe_Now env\<rparr>;
          db1 = db\<lparr>lt_nextCategory := lt_nextCategory db + 1\<rparr>;
          stored = category\<lparr>cat_CategoryId := lt_nextCategory db\<rparr>
      in case lbe_Fails env InsertCategory of
           Some e \<Rightarrow> (db, Inl (wrapped SqlExecutionError e))
         | None \<Rightarrow>
             if list_ex (\<lambda>c. cat_Name c = cat_Name category) (lt_Categories db)
             then (db1, Inl (wrapped SqlUniqueConstraintError unique_violation))
             else (db1\<lparr>lt_Categories := lt_Categories db @ [stored]\<rparr>, Ok stored))"

definition setCategory :: "LabelEnv \<Rightarrow> CategoryRow \<Rightarrow> LabelTables \<Rightarrow> LabelTables \<times> CategoryRow result" where
  "setCategory env category0 db =
     (let category = category0\<lparr>cat_UpdateOn := lbe_Now env\<rparr>;
          mine = (\<lambda>c. cat_CategoryId c = cat_CategoryId category)
      in case lbe_Fails env UpdateCategory of
           Some e \<Rightarrow> (db, Inl (wrapped SqlExecutionError e))
         | None \<Rightarrow>
             if list_ex mine (lt_Categories db) \<and>
               list_ex (\<lambda>c. \<not> mine c \<and> cat_Name c = cat_Name category) (lt_Categories db)
             then (db, Inl (wrapped SqlUniqueConstraintError unique_violation))
             else (db\<lparr>lt_Categories := map (\<lambda>c. if mine c
                          then c\<lparr>cat_Name := cat_Name category, cat_Style := cat_Style category,
                                 cat_UpdateOn := cat_UpdateOn category\<rparr>
                          else c) (lt_Categories db)\<rparr>,
                   Ok category))"

section \<open>The table of corridors\<close>

definition GetCorridorsReferencingCategory :: "LabelEnv \<Rightarrow> LabelTables \<Rightarrow> int \<Rightarrow> Corridor list result" where
  "GetCorridorsReferencingCategory env db categoryId =
     queried env SelectCorridors
       (filter (\<lambda>c. co_FromCategoryId c = Some categoryId \<or> co_ToCategoryId c = Some categoryId \<or>
            co_ReferenceId c = Some categoryId \<and> co_CorridorTypeId c = ct_CorridorTypeId Category) (lt_Corridors db))"

definition GetCorridorsReferencingTag :: "LabelEnv \<Rightarrow> LabelTables \<Rightarrow> int \<Rightarrow> Corridor list result" where
  "GetCorridorsReferencingTag env db tagId =
     queried env SelectCorridors
       (filter (\<lambda>c. co_FromTagId c = Some tagId \<or> co_ToTagId c = Some tagId \<or>
            co_ReferenceId c = Some tagId \<and> co_CorridorTypeId c = ct_CorridorTypeId Tag) (lt_Corridors db))"

definition GetCorridorsReferencingNode :: "LabelEnv \<Rightarrow> LabelTables \<Rightarrow> int \<Rightarrow> Corridor list result" where
  "GetCorridorsReferencingNode env db nodeId =
     queried env SelectCorridors
       (filter (\<lambda>c. co_FromNodeId c = Some nodeId \<or> co_ToNodeId c = Some nodeId) (lt_Corridors db))"

definition getCorridorsByCorridorType :: "LabelEnv \<Rightarrow> LabelTables \<Rightarrow> CorridorType \<Rightarrow> Corridor list result" where
  "getCorridorsByCorridorType env db corridorType =
     queried env SelectCorridors
       (filter (\<lambda>c. co_CorridorTypeId c = ct_CorridorTypeId corridorType) (lt_Corridors db))"

definition getCorridorsByCorridorTypeId :: "LabelEnv \<Rightarrow> LabelTables \<Rightarrow> int \<Rightarrow> Corridor list result" where
  "getCorridorsByCorridorTypeId env db corridorTypeId =
     (case getCorridorTypeFromId corridorTypeId of
        None \<Rightarrow> Panics ''nil pointer dereference''
      | Some corridorType \<Rightarrow> getCorridorsByCorridorType env db corridorType)"

text \<open>
  The columns and the values of the statement that inserts a corridor.  Postgres refuses a statement
  with more columns than values.
\<close>

definition corridor_columns :: "string list" where
  "corridor_columns =
     [''corridor_type_id'', ''reference_id'', ''flag'', ''inverse'', ''priority'',
      ''from_category_id'', ''from_tag_id'', ''from_node_id'', ''to_category_id'', ''to_tag_id'', ''to_node_id'', ''channel_id'',
      ''created_on'', ''updated_on'']"

definition corridor_values :: "string list" where
  "corridor_values = [''$1'', ''$2'', ''$3'', ''$4'', ''$5'', ''$6'', ''$7'', ''$8'', ''$9'', ''$10'', ''$11'', ''$12'']"

definition same_rule :: "Corridor \<Rightarrow> Corridor \<Rightarrow> bool" where
  "same_rule c d \<longleftrightarrow>
     co_CorridorTypeId d = co_CorridorTypeId c \<and> co_ReferenceId d = co_ReferenceId c \<and>
     co_FromCategoryId d = co_FromCategoryId c \<and> co_FromTagId d = co_FromTagId c \<and> co_FromNodeId d = co_FromNodeId c \<and>
     co_ToCategoryId d = co_ToCategoryId c \<and> co_ToTagId d = co_ToTagId c \<and> co_ToNodeId d = co_ToNodeId c \<and>
     co_ChannelId d = co_ChannelId c"

definition AddCorridor :: "LabelEnv \<Rightarrow> Corridor \<Rightarrow> LabelTables \<Rightarrow> LabelTables \<times> Corridor result" where
  "AddCorridor env c0 db =
     (let c = c0\<lparr>co_CreatedOn := lbe_Now env, co_UpdateOn := lbe_Now env, co_Priority := int (calculatePriority c0)\<rparr>;
          stored = c\<lparr>co_CorridorId := lt_nextCorridor db\<rparr>
      in case queried env CountCorridors (length (filter (same_rule c) (lt_Corridors db))) of
           Inl e \<Rightarrow> (db, Inl e)
         | Inr found \<Rightarrow>
             if found \<noteq> 0 then (db, Fails ''Corridor already exists.'')
             else case lbe_Fails env InsertCorridor of
                    Some e \<Rightarrow> (db, Inl (wrapped SqlExecutionError e))
                  | None \<Rightarrow>
                      if length corridor_columns > length corridor_values
                      then (db, Inl (wrapped SqlExecutionError (Error ''pq: INSERT has more target columns than expressions'')))
                      else (db\<lparr>lt_Corridors := lt_Corridors db @ [stored], lt_nextCorridor := lt_nextCorridor db + 1\<rparr>,
                            Ok stored))"

definition RemoveCorridor :: "LabelEnv \<Rightarrow> int \<Rightarrow> LabelTables \<Rightarrow> LabelTables \<times> int result" where
  "RemoveCorridor env corridorId db =
     (case lbe_Fails env DeleteCorridor of
        Some e \<Rightarrow> (db, Inl (wrapped SqlExecutionError e))
      | None \<Rightarrow>
          (db\<lparr>lt_Corridors := filter (\<lambda>c. co_CorridorId c \<noteq> corridorId) (lt_Corridors db)\<rparr>,
           deleted_rows env (\<lambda>c. co_CorridorId c = corridorId) (lt_Corridors db)))"

section \<open>Removing\<close>

text \<open>
  A label that is in use is not removed: the code looks at the corridors, and at the tags of a
  category; the foreign keys refuse the rest.
\<close>

definition tag_referenced :: "LabelTables \<Rightarrow> int \<Rightarrow> bool" where
  "tag_referenced db tagId \<longleftrightarrow>
     list_ex (\<lambda>c. co_FromTagId c = Some tagId \<or> co_ToTagId c = Some tagId) (lt_Corridors db) \<or>
     list_ex (\<lambda>g. grp_TagId g = Some tagId) (lt_Groups db)"

definition category_referenced :: "LabelTables \<Rightarrow> int \<Rightarrow> bool" where
  "category_referenced db categoryId \<longleftrightarrow>
     list_ex (\<lambda>c. co_FromCategoryId c = Some categoryId \<or> co_ToCategoryId c = Some categoryId) (lt_Corridors db) \<or>
     list_ex (\<lambda>t. tag_CategoryId t = Some categoryId) (lt_Tags db) \<or>
     list_ex (\<lambda>g. grp_CategoryId g = Some categoryId) (lt_Groups db)"

definition removeTag :: "LabelEnv \<Rightarrow> int \<Rightarrow> LabelTables \<Rightarrow> LabelTables \<times> int result" where
  "removeTag env tagId db =
     (case GetCorridorsReferencingTag env db tagId of
        Inl e \<Rightarrow> (db, Inl (wrapped SqlExecutionError e))
      | Inr referencing \<Rightarrow>
          if referencing \<noteq> []
          then (db, Fails (''Could not remove tag since it's in use. '' @ lbe_ShowCorridors env referencing))
          else case lbe_Fails env DeleteTag of
                 Some e \<Rightarrow> (db, Inl (wrapped SqlExecutionError e))
               | None \<Rightarrow>
                   if list_ex (\<lambda>t. tag_TagId t = tagId) (lt_Tags db) \<and> tag_referenced db tagId
                   then (db, Inl (wrapped SqlExecutionError foreign_key_violation))
                   else (db\<lparr>lt_Tags := filter (\<lambda>t. tag_TagId t \<noteq> tagId) (lt_Tags db)\<rparr>,
                         deleted_rows env (\<lambda>t. tag_TagId t = tagId) (lt_Tags db)))"

definition removeCategory :: "LabelEnv \<Rightarrow> int \<Rightarrow> LabelTables \<Rightarrow> LabelTables \<times> int result" where
  "removeCategory env categoryId db =
     (if categoryId < 0 then (db, Fails ''Could not remove system category.'')
      else case GetCorridorsReferencingCategory env db categoryId of
        Inl e \<Rightarrow> (db, Inl (wrapped SqlExecutionError e))
      | Inr referencing \<Rightarrow>
          if referencing \<noteq> []
          then (db, Fails (''Could not remove category since it's in use. '' @ lbe_ShowCorridors env referencing))
          else case GetTagsByCategoryId env db categoryId of
                 Inl e \<Rightarrow> (db, Inl (wrapped SqlExecutionError e))
               | Inr tgs \<Rightarrow>
                   if tgs \<noteq> []
                   then (db, Fails (''Could not remove category since it's in use. '' @ lbe_ShowTags env tgs))
                   else case lbe_Fails env DeleteCategory of
                          Some e \<Rightarrow> (db, Inl (wrapped SqlExecutionError e))
                        | None \<Rightarrow>
                            if list_ex (\<lambda>c. cat_CategoryId c = categoryId) (lt_Categories db) \<and> category_referenced db categoryId
                            then (db, Inl (wrapped SqlExecutionError foreign_key_violation))
                            else (db\<lparr>lt_Categories := filter (\<lambda>c. cat_CategoryId c \<noteq> categoryId) (lt_Categories db)\<rparr>,
                                  deleted_rows env (\<lambda>c. cat_CategoryId c = categoryId) (lt_Categories db)))"

section \<open>Requests\<close>

datatype LabelResponse =
    RespondsTag TagRow
  | RespondsTags "TagRow list"
  | RespondsCategory CategoryRow
  | RespondsCategories "CategoryRow list"
  | RespondsCorridors "Corridor list"
  | RespondsGroups "ManagedChannelGroup.ChannelGroup list"
  | RespondsMessage string
  | LabelRefused "int \<times> ServerError"

text \<open>The answer to a request whose id is no number, and to one whose operation failed or gave a value.\<close>

definition with_id ::
    "string \<Rightarrow> string \<Rightarrow> LabelTables \<Rightarrow> (int \<Rightarrow> LabelTables \<times> LabelResponse) \<Rightarrow> LabelTables \<times> LabelResponse" where
  "with_id what idText db handle =
     (case atoi idText of
        None \<Rightarrow> (db, LabelRefused (SendBadRequest (''Failed to find/parse '' @ what @ '' in the request.'')))
      | Some i \<Rightarrow> handle i)"

definition respond :: "('a \<Rightarrow> LabelResponse) \<Rightarrow> string \<Rightarrow> LabelTables \<times> 'a result \<Rightarrow> LabelTables \<times> LabelResponse" where
  "respond ok message r =
     (fst r, case snd r of Inl e \<Rightarrow> LabelRefused (WrapLogAndSendServerError e message) | Inr v \<Rightarrow> ok v)"

definition getTagHandler :: "LabelEnv \<Rightarrow> string \<Rightarrow> LabelTables \<Rightarrow> LabelTables \<times> LabelResponse" where
  "getTagHandler env idText db =
     with_id ''tagId'' idText db (\<lambda>tagId.
       respond RespondsTag (''Getting tag for tagId: '' @ format_int tagId) (db, GetTag env db tagId))"

definition getTagsHandler :: "LabelEnv \<Rightarrow> LabelTables \<Rightarrow> LabelTables \<times> LabelResponse" where
  "getTagsHandler env db = respond RespondsTags ''Getting tags.'' (db, GetTags env db)"

definition addTagHandler :: "LabelEnv \<Rightarrow> TagRow result \<Rightarrow> LabelTables \<Rightarrow> LabelTables \<times> LabelResponse" where
  "addTagHandler env bound db =
     (case bound of
        Inl e \<Rightarrow> (db, LabelRefused (SendBadRequestFromError (wrapped JsonParseError e)))
      | Inr t \<Rightarrow>
          if tag_Name t = [] then (db, LabelRefused (SendUnprocessableEntity ''Failed to find name in the request.''))
          else respond RespondsTag ''Adding tag.'' (addTag env t db))"

definition setTagHandler :: "LabelEnv \<Rightarrow> TagRow result \<Rightarrow> LabelTables \<Rightarrow> LabelTables \<times> LabelResponse" where
  "setTagHandler env bound db =
     (case bound of
        Inl e \<Rightarrow> (db, LabelRefused (SendBadRequestFromError (wrapped JsonParseError e)))
      | Inr t \<Rightarrow> respond RespondsTag (''Setting tag for tagId: '' @ format_int (tag_TagId t)) (setTag env t db))"

definition getCategoryHandler :: "LabelEnv \<Rightarrow> string \<Rightarrow> LabelTables \<Rightarrow> LabelTables \<times> LabelResponse" where
  "getCategoryHandler env idText db =
     with_id ''categoryId'' idText db (\<lambda>categoryId.
       respond RespondsCategory (''Getting category for categoryId: '' @ format_int categoryId) (db, GetCategory env db categoryId))"

definition getCategoriesHandler :: "LabelEnv \<Rightarrow> LabelTables \<Rightarrow> LabelTables \<times> LabelResponse" where
  "getCategoriesHandler env db = respond RespondsCategories ''Getting categories.'' (db, GetCategories env db)"

definition addCategoryHandler :: "LabelEnv \<Rightarrow> CategoryRow result \<Rightarrow> LabelTables \<Rightarrow> LabelTables \<times> LabelResponse" where
  "addCategoryHandler env bound db =
     (case bound of
        Inl e \<Rightarrow> (db, LabelRefused (SendBadRequestFromError (wrapped JsonParseError e)))
      | Inr c \<Rightarrow>
          if cat_Name c = [] then (db, LabelRefused (SendUnprocessableEntity ''Failed to find name in the request.''))
          else respond RespondsCategory ''Adding category.'' (addCategory env c db))"

definition setCategoryHandler :: "LabelEnv \<Rightarrow> CategoryRow result \<Rightarrow> LabelTables \<Rightarrow> LabelTables \<times> LabelResponse" where
  "setCategoryHandler env bound db =
     (case bound of
        Inl e \<Rightarrow> (db, LabelRefused (SendBadRequestFromError (wrapped JsonParseError e)))
      | Inr c \<Rightarrow>
          respond RespondsCategory (''Setting category for categoryId: '' @ format_int (cat_CategoryId c)) (setCategory env c db))"

definition removeCategoryHandler :: "LabelEnv \<Rightarrow> string \<Rightarrow> LabelTables \<Rightarrow> LabelTables \<times> LabelResponse" where
  "removeCategoryHandler env idText db =
     with_id ''categoryId'' idText db (\<lambda>categoryId.
       respond (\<lambda>n. RespondsMessage (''Successfully deleted '' @ format_int n @ '' category(s).''))
         (''Removing category for categoryId: '' @ format_int categoryId) (removeCategory env categoryId db))"

definition removeTagHandler :: "LabelEnv \<Rightarrow> string \<Rightarrow> LabelTables \<Rightarrow> LabelTables \<times> LabelResponse" where
  "removeTagHandler env idText db =
     with_id ''tagId'' idText db (\<lambda>tagId.
       respond (\<lambda>n. RespondsMessage (''Successfully deleted '' @ format_int n @ '' tag(s).''))
         (''Removing tag for tagId: '' @ format_int tagId) (removeTag env tagId db))"

text \<open>
  The request for corridors: an unknown type panics, which the web server's recovery answers.
\<close>

definition getCorridorsHandler :: "LabelEnv \<Rightarrow> string \<Rightarrow> LabelTables \<Rightarrow> (LabelTables \<times> LabelResponse) option" where
  "getCorridorsHandler env idText db =
     (case atoi idText of
        None \<Rightarrow> Some (db, LabelRefused (SendBadRequest ''Failed to find/parse corridorTypeId in the request.''))
      | Some corridorTypeId \<Rightarrow>
          (case getCorridorsByCorridorTypeId env db corridorTypeId of
             Inl (Panic p) \<Rightarrow> None
           | Inl (Error e) \<Rightarrow> Some (db, LabelRefused (WrapLogAndSendServerError (Error e)
                (''Getting corridors for corridorTypeId: '' @ format_int corridorTypeId)))
           | Inr cs \<Rightarrow> Some (db, RespondsCorridors cs)))"

section \<open>The constraints of the tables\<close>

definition known_tag :: "LabelTables \<Rightarrow> int option \<Rightarrow> bool" where
  "known_tag db x \<longleftrightarrow> (\<forall>i. x = Some i \<longrightarrow> i \<in> tag_TagId ` set (lt_Tags db))"

definition known_category :: "LabelTables \<Rightarrow> int option \<Rightarrow> bool" where
  "known_category db x \<longleftrightarrow> (\<forall>i. x = Some i \<longrightarrow> i \<in> cat_CategoryId ` set (lt_Categories db))"

definition tags_ok :: "LabelTables \<Rightarrow> bool" where
  "tags_ok db \<longleftrightarrow>
     distinct (map tag_TagId (lt_Tags db)) \<and> distinct (map tag_Name (lt_Tags db)) \<and>
     (\<forall>t \<in> set (lt_Tags db). tag_TagId t < lt_nextTag db \<and> known_category db (tag_CategoryId t))"

definition categories_ok :: "LabelTables \<Rightarrow> bool" where
  "categories_ok db \<longleftrightarrow>
     distinct (map cat_CategoryId (lt_Categories db)) \<and> distinct (map cat_Name (lt_Categories db)) \<and>
     (\<forall>c \<in> set (lt_Categories db). cat_CategoryId c < lt_nextCategory db)"

definition references_ok :: "LabelTables \<Rightarrow> bool" where
  "references_ok db \<longleftrightarrow>
     (\<forall>g \<in> set (lt_Groups db). known_tag db (grp_TagId g) \<and> known_category db (grp_CategoryId g)) \<and>
     (\<forall>c \<in> set (lt_Corridors db). known_tag db (co_FromTagId c) \<and> known_tag db (co_ToTagId c) \<and>
        known_category db (co_FromCategoryId c) \<and> known_category db (co_ToCategoryId c))"

definition labels_ok :: "LabelTables \<Rightarrow> bool" where
  "labels_ok db \<longleftrightarrow> tags_ok db \<and> categories_ok db \<and> references_ok db"

lemmas labels_ok_defs = labels_ok_def tags_ok_def categories_ok_def references_ok_def known_tag_def known_category_def

text \<open>An update of one row in place that keeps the ids, and a name no other row has.\<close>

lemma distinct_names_updated:
  assumes "distinct (map name xs)" and "distinct (map key xs)"
    and "\<And>x. name (f x) = (if key x = i then n else name x)"
    and "\<not> (\<exists>x \<in> set xs. key x \<noteq> i \<and> name x = n)"
  shows "distinct (map name (map f xs))"
  using assms(1,2,4) by (induction xs) (auto simp: assms(3) image_iff)

lemma known_kept:
  "tag_TagId ` set (lt_Tags db) \<subseteq> tag_TagId ` set (lt_Tags db1) \<Longrightarrow> known_tag db x \<Longrightarrow> known_tag db1 x"
  "cat_CategoryId ` set (lt_Categories db) \<subseteq> cat_CategoryId ` set (lt_Categories db1) \<Longrightarrow>
     known_category db x \<Longrightarrow> known_category db1 x"
  by (auto simp: known_tag_def known_category_def)

lemma references_ok_kept:
  assumes "references_ok db"
    and "tag_TagId ` set (lt_Tags db) \<subseteq> tag_TagId ` set (lt_Tags db1)"
    and "cat_CategoryId ` set (lt_Categories db) \<subseteq> cat_CategoryId ` set (lt_Categories db1)"
    and "set (lt_Groups db1) \<subseteq> set (lt_Groups db)" and "set (lt_Corridors db1) \<subseteq> set (lt_Corridors db)"
  shows "references_ok db1"
  using assms(1,4,5) known_kept(1) [OF assms(2)] known_kept(2) [OF assms(3)]
  unfolding references_ok_def by blast

text \<open>The tags change in three ways: a row is added, rows are updated, rows are dropped.\<close>

lemma distinct_bounded_snoc: "distinct is \<Longrightarrow> (\<forall>i \<in> set is. i < n) \<Longrightarrow> distinct (is @ [n :: int])"
  by auto

lemma tags_ok_add:
  assumes "tags_ok db" and "tag_Name t \<notin> tag_Name ` set (lt_Tags db)" and "known_category db (tag_CategoryId t)"
    and "lt_Tags db1 = lt_Tags db @ [t\<lparr>tag_TagId := lt_nextTag db\<rparr>]" and "lt_nextTag db1 = lt_nextTag db + 1"
    and "lt_Categories db1 = lt_Categories db"
  shows "tags_ok db1"
proof -
  have "known_category db1 = known_category db" using assms(6) by (auto simp: known_category_def)
  with assms(1-5) show ?thesis
    using distinct_bounded_snoc [of "map tag_TagId (lt_Tags db)" "lt_nextTag db"] by (auto simp: tags_ok_def)
qed

lemma tags_ok_update:
  assumes "tags_ok db" and "lt_Tags db1 = map f (lt_Tags db)" and "lt_nextTag db1 = lt_nextTag db"
    and "cat_CategoryId ` set (lt_Categories db) \<subseteq> cat_CategoryId ` set (lt_Categories db1)"
    and "\<And>t. tag_TagId (f t) = tag_TagId t \<and> tag_CategoryId (f t) = tag_CategoryId t"
    and "distinct (map tag_Name (map f (lt_Tags db)))"
  shows "tags_ok db1"
  using assms known_kept(2) [OF assms(4)] by (auto simp: tags_ok_def comp_def)

lemma tags_ok_drop:
  assumes "tags_ok db" and "lt_Tags db1 = filter P (lt_Tags db)" and "lt_nextTag db \<le> lt_nextTag db1"
    and "\<And>t. t \<in> set (lt_Tags db) \<Longrightarrow> known_category db (tag_CategoryId t) \<Longrightarrow> known_category db1 (tag_CategoryId t)"
  shows "tags_ok db1"
  using assms by (fastforce simp: tags_ok_def distinct_map inj_on_def)

text \<open>So do the categories.\<close>

lemma categories_ok_add:
  assumes "categories_ok db" and "cat_Name c \<notin> cat_Name ` set (lt_Categories db)"
    and "lt_Categories db1 = lt_Categories db @ [c\<lparr>cat_CategoryId := lt_nextCategory db\<rparr>]"
    and "lt_nextCategory db1 = lt_nextCategory db + 1"
  shows "categories_ok db1"
  using assms distinct_bounded_snoc [of "map cat_CategoryId (lt_Categories db)" "lt_nextCategory db"]
  by (auto simp: categories_ok_def)

lemma categories_ok_update:
  assumes "categories_ok db" and "lt_Categories db1 = map f (lt_Categories db)" and "lt_nextCategory db1 = lt_nextCategory db"
    and "\<And>c. cat_CategoryId (f c) = cat_CategoryId c" and "distinct (map cat_Name (map f (lt_Categories db)))"
  shows "categories_ok db1"
  using assms by (auto simp: categories_ok_def comp_def)

lemma categories_ok_drop:
  assumes "categories_ok db" and "lt_Categories db1 = filter P (lt_Categories db)" and "lt_nextCategory db \<le> lt_nextCategory db1"
  shows "categories_ok db1"
  using assms by (fastforce simp: categories_ok_def distinct_map inj_on_def)

section \<open>Every operation keeps the constraints\<close>

lemma labels_ok_addTag:
  assumes "labels_ok db" and "addTag env tag db = (db1, r)"
  shows "labels_ok db1"
proof -
  have "tags_ok db1"
  proof (cases "lbe_Fails env InsertTag = None \<and> tag_Name tag \<notin> tag_Name ` set (lt_Tags db)")
    case True
    show ?thesis
      by (rule tags_ok_add [of db "tag\<lparr>tag_CreatedOn := lbe_Now env, tag_UpdateOn := lbe_Now env, tag_CategoryId := None\<rparr>"])
        (use assms True in \<open>auto simp: labels_ok_def addTag_def known_category_def list_ex_iff Let_def image_iff split: if_splits\<close>)
  next
    case False
    show ?thesis
      by (rule tags_ok_drop [of db _ "\<lambda>t. True"])
        (use assms False in \<open>auto simp: labels_ok_def addTag_def known_category_def list_ex_iff Let_def image_iff split: option.splits if_splits\<close>)
  qed
  moreover have same: "lt_Categories db1 = lt_Categories db" "lt_nextCategory db1 = lt_nextCategory db" "lt_Groups db1 = lt_Groups db"
    "lt_Corridors db1 = lt_Corridors db" "set (lt_Tags db) \<subseteq> set (lt_Tags db1)"
    using assms(2) by (auto simp: addTag_def Let_def split: option.splits if_splits)
  moreover have "references_ok db1"
    by (rule references_ok_kept [of db]) (use assms(1) same in \<open>auto simp: labels_ok_def\<close>)
  ultimately show ?thesis using assms(1) by (simp add: labels_ok_def categories_ok_def)
qed

lemma labels_ok_setTag:
  assumes "labels_ok db" and "setTag env tag db = (db1, r)"
  shows "labels_ok db1"
proof (cases "db1 = db")
  case False
  let ?f = "\<lambda>t. if tag_TagId t = tag_TagId tag
    then t\<lparr>tag_Name := tag_Name tag, tag_Style := tag_Style tag, tag_UpdateOn := lbe_Now env\<rparr> else t"
  have db1: "db1 = db\<lparr>lt_Tags := map ?f (lt_Tags db)\<rparr>"
    and free: "\<not> (list_ex (\<lambda>t. tag_TagId t = tag_TagId tag) (lt_Tags db) \<and>
      list_ex (\<lambda>t. tag_TagId t \<noteq> tag_TagId tag \<and> tag_Name t = tag_Name tag) (lt_Tags db))"
    using assms(2) False by (auto simp: setTag_def Let_def split: option.splits if_splits)
  have d: "distinct (map tag_Name (map ?f (lt_Tags db)))"
  proof (cases "list_ex (\<lambda>t. tag_TagId t = tag_TagId tag) (lt_Tags db)")
    case True
    with free show ?thesis
      by (intro distinct_names_updated [where key = tag_TagId])
        (use assms(1) in \<open>auto simp: labels_ok_def tags_ok_def list_ex_iff\<close>)
  next
    case False
    then have "map ?f (lt_Tags db) = lt_Tags db" by (intro map_idI) (auto simp: list_ex_iff)
    then show ?thesis using assms(1) by (simp add: labels_ok_def tags_ok_def)
  qed
  have "map tag_TagId (lt_Tags db1) = map tag_TagId (lt_Tags db)" by (auto simp: db1)
  from arg_cong [OF this, of set] have ids: "tag_TagId ` set (lt_Tags db1) = tag_TagId ` set (lt_Tags db)" by simp
  have "tags_ok db1" by (rule tags_ok_update [of db _ ?f]) (use assms(1) d db1 in \<open>auto simp: labels_ok_def\<close>)
  moreover have "references_ok db1"
    by (rule references_ok_kept [of db]) (use assms(1) ids in \<open>auto simp: labels_ok_def db1\<close>)
  ultimately show ?thesis using assms(1) by (simp add: labels_ok_def categories_ok_def db1)
qed (use assms(1) in simp)

lemma labels_ok_addCategory:
  assumes "labels_ok db" and "addCategory env c db = (db1, r)"
  shows "labels_ok db1"
proof -
  have "categories_ok db1"
  proof (cases "lbe_Fails env InsertCategory = None \<and> cat_Name c \<notin> cat_Name ` set (lt_Categories db)")
    case True
    show ?thesis
      by (rule categories_ok_add [of db "c\<lparr>cat_CreatedOn := lbe_Now env, cat_UpdateOn := lbe_Now env\<rparr>"])
        (use assms True in \<open>auto simp: labels_ok_def addCategory_def list_ex_iff Let_def image_iff split: if_splits\<close>)
  next
    case False
    show ?thesis
      by (rule categories_ok_drop [of db _ "\<lambda>t. True"])
        (use assms False in \<open>auto simp: labels_ok_def addCategory_def list_ex_iff Let_def image_iff split: option.splits if_splits\<close>)
  qed
  moreover have same: "lt_Tags db1 = lt_Tags db" "lt_nextTag db1 = lt_nextTag db" "lt_Groups db1 = lt_Groups db"
    "lt_Corridors db1 = lt_Corridors db" "set (lt_Categories db) \<subseteq> set (lt_Categories db1)"
    using assms(2) by (auto simp: addCategory_def Let_def split: option.splits if_splits)
  moreover have "references_ok db1"
    by (rule references_ok_kept [of db]) (use assms(1) same in \<open>auto simp: labels_ok_def\<close>)
  moreover have "tags_ok db1"
    by (rule tags_ok_drop [of db _ "\<lambda>t. True"]) (use assms(1) same in \<open>auto simp: labels_ok_def known_category_def\<close>)
  ultimately show ?thesis by (simp add: labels_ok_def)
qed

lemma labels_ok_setCategory:
  assumes "labels_ok db" and "setCategory env cat db = (db1, r)"
  shows "labels_ok db1"
proof (cases "db1 = db")
  case False
  let ?f = "\<lambda>c. if cat_CategoryId c = cat_CategoryId cat
    then c\<lparr>cat_Name := cat_Name cat, cat_Style := cat_Style cat, cat_UpdateOn := lbe_Now env\<rparr> else c"
  have db1: "db1 = db\<lparr>lt_Categories := map ?f (lt_Categories db)\<rparr>"
    and free: "\<not> (list_ex (\<lambda>c. cat_CategoryId c = cat_CategoryId cat) (lt_Categories db) \<and>
      list_ex (\<lambda>c. cat_CategoryId c \<noteq> cat_CategoryId cat \<and> cat_Name c = cat_Name cat) (lt_Categories db))"
    using assms(2) False by (auto simp: setCategory_def Let_def split: option.splits if_splits)
  have d: "distinct (map cat_Name (map ?f (lt_Categories db)))"
  proof (cases "list_ex (\<lambda>c. cat_CategoryId c = cat_CategoryId cat) (lt_Categories db)")
    case True
    with free show ?thesis
      by (intro distinct_names_updated [where key = cat_CategoryId])
        (use assms(1) in \<open>auto simp: labels_ok_def categories_ok_def list_ex_iff\<close>)
  next
    case False
    then have "map ?f (lt_Categories db) = lt_Categories db" by (intro map_idI) (auto simp: list_ex_iff)
    then show ?thesis using assms(1) by (simp add: labels_ok_def categories_ok_def)
  qed
  have "map cat_CategoryId (lt_Categories db1) = map cat_CategoryId (lt_Categories db)" by (auto simp: db1)
  from arg_cong [OF this, of set]
  have ids: "cat_CategoryId ` set (lt_Categories db1) = cat_CategoryId ` set (lt_Categories db)" by simp
  have "categories_ok db1" by (rule categories_ok_update [of db _ ?f]) (use assms(1) d db1 in \<open>auto simp: labels_ok_def\<close>)
  moreover have "references_ok db1"
    by (rule references_ok_kept [of db]) (use assms(1) ids in \<open>auto simp: labels_ok_def db1\<close>)
  moreover have "tags_ok db1"
    by (rule tags_ok_drop [of db _ "\<lambda>t. True"])
      (use assms(1) ids in \<open>auto simp: labels_ok_def known_category_def db1\<close>)
  ultimately show ?thesis by (simp add: labels_ok_def)
qed (use assms(1) in simp)

lemma not_tag_referenced:
  assumes "\<not> tag_referenced db i" and "references_ok db" and "lt_Tags db1 = filter (\<lambda>t. tag_TagId t \<noteq> i) (lt_Tags db)"
    and "lt_Categories db1 = lt_Categories db" and "lt_Groups db1 = lt_Groups db" and "lt_Corridors db1 = lt_Corridors db"
  shows "references_ok db1"
proof -
  have "known_tag db1 x" if "known_tag db x" "x \<noteq> Some i" for x
    using that assms(3) by (auto simp: known_tag_def)
  moreover have "known_category db1 = known_category db" using assms(4) by (auto simp: known_category_def)
  ultimately show ?thesis
    using assms(1,2,5,6) by (auto simp: references_ok_def tag_referenced_def list_ex_iff)
qed

lemma labels_ok_removeTag:
  assumes "labels_ok db" and "removeTag env i db = (db1, r)"
  shows "labels_ok db1"
proof (cases "db1 = db")
  case False
  have db1: "db1 = db\<lparr>lt_Tags := filter (\<lambda>t. tag_TagId t \<noteq> i) (lt_Tags db)\<rparr>"
    and free: "\<not> (list_ex (\<lambda>t. tag_TagId t = i) (lt_Tags db) \<and> tag_referenced db i)"
    using assms(2) False by (auto simp: removeTag_def split: sum.splits option.splits if_splits)
  have tags: "filter (\<lambda>t. tag_TagId t \<noteq> i) (lt_Tags db) \<noteq> lt_Tags db"
    using False db1 by auto
  then have "list_ex (\<lambda>t. tag_TagId t = i) (lt_Tags db)" by (auto simp: list_ex_iff filter_id_conv)
  with free have "\<not> tag_referenced db i" by simp
  then have "references_ok db1" by (rule not_tag_referenced) (use assms(1) in \<open>auto simp: labels_ok_def db1\<close>)
  moreover have "tags_ok db1" by (rule tags_ok_drop [of db]) (use assms(1) in \<open>auto simp: labels_ok_def db1 known_category_def\<close>)
  ultimately show ?thesis using assms(1) by (simp add: labels_ok_def categories_ok_def db1)
qed (use assms(1) in simp)

lemma labels_ok_removeCategory:
  assumes "labels_ok db" and "removeCategory env i db = (db1, r)"
  shows "labels_ok db1"
proof (cases "db1 = db")
  case False
  have db1: "db1 = db\<lparr>lt_Categories := filter (\<lambda>c. cat_CategoryId c \<noteq> i) (lt_Categories db)\<rparr>"
    and free: "\<not> (list_ex (\<lambda>c. cat_CategoryId c = i) (lt_Categories db) \<and> category_referenced db i)"
    using assms(2) False by (auto simp: removeCategory_def split: sum.splits option.splits if_splits)
  have "filter (\<lambda>c. cat_CategoryId c \<noteq> i) (lt_Categories db) \<noteq> lt_Categories db" using False db1 by auto
  then have "list_ex (\<lambda>c. cat_CategoryId c = i) (lt_Categories db)" by (auto simp: list_ex_iff filter_id_conv)
  with free have free: "\<not> category_referenced db i" by simp
  have known: "known_category db1 x" if "known_category db x" "x \<noteq> Some i" for x
    using that by (auto simp: known_category_def db1)
  have "known_tag db1 = known_tag db" by (auto simp: known_tag_def db1)
  with free known have "references_ok db1"
    using assms(1) by (auto simp: labels_ok_def references_ok_def category_referenced_def list_ex_iff db1)
  moreover have "tags_ok db1"
    by (rule tags_ok_drop [of db _ "\<lambda>t. True"])
      (use assms(1) free known in \<open>auto simp: labels_ok_def category_referenced_def list_ex_iff db1\<close>)
  moreover have "categories_ok db1" by (rule categories_ok_drop [of db]) (use assms(1) in \<open>auto simp: labels_ok_def db1\<close>)
  ultimately show ?thesis by (simp add: labels_ok_def)
qed (use assms(1) in simp)

lemma labels_ok_groups:
  assumes "labels_ok db" and "lt_Tags db1 = lt_Tags db" and "lt_nextTag db1 = lt_nextTag db"
    and "lt_Categories db1 = lt_Categories db" and "lt_nextCategory db1 = lt_nextCategory db"
    and "set (lt_Corridors db1) \<subseteq> set (lt_Corridors db)"
    and "\<And>g. g \<in> set (lt_Groups db1) \<Longrightarrow> g \<in> set (lt_Groups db) \<or> known_tag db (grp_TagId g) \<and> known_category db (grp_CategoryId g)"
  shows "labels_ok db1"
proof -
  have "known_tag db1 = known_tag db" "known_category db1 = known_category db"
    using assms(2,4) by (auto simp: known_tag_def known_category_def)
  moreover have "known_tag db (grp_TagId g) \<and> known_category db (grp_CategoryId g)" if "g \<in> set (lt_Groups db1)" for g
    using assms(1) assms(7) [OF that] by (auto simp: labels_ok_def references_ok_def)
  ultimately show ?thesis
    using assms(1-6) by (auto simp: labels_ok_def tags_ok_def categories_ok_def references_ok_def)
qed

section \<open>Corridors are never added\<close>

text \<open>
  The count comes first, so that an existing rule has its own error; otherwise the insertion is
  refused for its missing values.
\<close>

lemma AddCorridor_adds_nothing: "fst (AddCorridor env c db) = db \<and> (\<exists>e. snd (AddCorridor env c db) = Inl (Error e))"
proof -
  have "length corridor_columns = 14" "length corridor_values = 12"
    by (simp_all add: corridor_columns_def corridor_values_def)
  then show ?thesis
    by (auto simp: AddCorridor_def queried_def wrapped_def Let_def split: option.splits sum.splits)
qed

lemma labels_ok_RemoveCorridor:
  assumes "labels_ok db" and "RemoveCorridor env i db = (db1, r)"
  shows "labels_ok db1"
  by (rule labels_ok_groups [OF assms(1)]) (use assms(2) in \<open>auto simp: RemoveCorridor_def split: option.splits\<close>)

text \<open>
  The route of the corridors has no parameter, so the handler finds no number and refuses.
\<close>

lemma corridors_request_refused:
  "getCorridorsHandler env [] db =
     Some (db, LabelRefused (SendBadRequest ''Failed to find/parse corridorTypeId in the request.''))"
  by (simp add: getCorridorsHandler_def atoi_def)

text \<open>A tag is stored without the category of the request, which the answer shows.\<close>

lemma addTag_drops_category:
  assumes "addTag env tag db = (db1, Ok stored)"
  shows "tag_CategoryId stored = tag_CategoryId tag"
    and "\<exists>t \<in> set (lt_Tags db1). tag_TagId t = tag_TagId stored \<and> tag_CategoryId t = None"
  using assms by (auto simp: addTag_def Let_def split: option.splits if_splits)

end
