(* ===== verification/ChannelGroups.thy ===== *)
theory ChannelGroups
  imports Labels
begin

text \<open>
  The tags and categories of channels, \<open>src/internal/channel_groups/\<close>.  They are generated from the
  corridors in one transaction per kind: each channel gets a row for every label whose best corridor
  allows it, once for each of its two nodes.  Reading them goes through the cache of
  \<open>ManagedChannelGroup\<close>.  The theorems say which rows a generation writes, that a failed one changes
  nothing but may block all later ones of its kind, that the tables keep their constraints, and the labels
  their rules lead to, under every request,
  that cached groups never change again, and that no group can be configured or removed through the
  web server.
\<close>

section \<open>Generating the groups\<close>

definition corridor_key :: "CorridorType \<Rightarrow> int \<Rightarrow> int option \<Rightarrow> int \<Rightarrow> int \<Rightarrow> int \<Rightarrow> CorridorKey" where
  "corridor_key corridorType reference category fromNode toNode channelId =
     zeroKey\<lparr>ck_CorridorType := corridorType, ck_ReferenceId := reference, ck_FromCategoryId := or0 category,
       ck_FromNodeId := fromNode, ck_ToNodeId := toNode, ck_ChannelId := channelId\<rparr>"

text \<open>A key to look up, and the row to write when its corridor allows it.\<close>

definition category_candidates :: "time \<Rightarrow> Channel \<Rightarrow> CategoryRow \<Rightarrow> (CorridorKey \<times> channelGroup) list" where
  "category_candidates now ch c =
     map (\<lambda>(fromNode, toNode).
       (corridor_key Category (cat_CategoryId c) None fromNode toNode (ch_ChannelID ch),
        \<lparr>grp_ChannelGroupId = 0, grp_GroupOriginId = categoryCorridor, grp_NodeId = fromNode,
         grp_CategoryId = Some (cat_CategoryId c), grp_TagId = None, grp_ChannelId = ch_ChannelID ch,
         grp_CreatedOn = now\<rparr>))
       [(ch_FirstNodeId ch, ch_SecondNodeId ch), (ch_SecondNodeId ch, ch_FirstNodeId ch)]"

definition tag_candidates :: "time \<Rightarrow> Channel \<Rightarrow> TagRow \<Rightarrow> (CorridorKey \<times> channelGroup) list" where
  "tag_candidates now ch t =
     map (\<lambda>(fromNode, toNode).
       (corridor_key Tag (tag_TagId t) (tag_CategoryId t) fromNode toNode (ch_ChannelID ch),
        \<lparr>grp_ChannelGroupId = 0, grp_GroupOriginId = tagCorridor, grp_NodeId = fromNode,
         grp_CategoryId = tag_CategoryId t, grp_TagId = Some (tag_TagId t), grp_ChannelId = ch_ChannelID ch,
         grp_CreatedOn = now\<rparr>))
       [(ch_FirstNodeId ch, ch_SecondNodeId ch), (ch_SecondNodeId ch, ch_FirstNodeId ch)]"

text \<open>
  One insertion.  The table has at most one row for a channel, a category and a tag; rows without the
  one or the other never conflict.  The nodes, channels and labels of a row exist, since it was made
  from them.
\<close>

definition conflicts :: "channelGroup \<Rightarrow> channelGroup \<Rightarrow> bool" where
  "conflicts g h \<longleftrightarrow> grp_CategoryId g \<noteq> None \<and> grp_TagId g \<noteq> None \<and>
     grp_ChannelId h = grp_ChannelId g \<and> grp_CategoryId h = grp_CategoryId g \<and> grp_TagId h = grp_TagId g"

definition insert_group :: "LabelEnv \<Rightarrow> channelGroup \<Rightarrow> LabelTables \<Rightarrow> LabelTables \<times> go_error option" where
  "insert_group env g db =
     (case lbe_Fails env InsertGroup of
        Some e \<Rightarrow> (db, Some (wrapped SqlExecutionError e))
      | None \<Rightarrow>
          if list_ex (conflicts g) (lt_Groups db)
          then (db\<lparr>lt_nextGroup := lt_nextGroup db + 1\<rparr>, Some (wrapped SqlExecutionError unique_violation))
          else (db\<lparr>lt_Groups := lt_Groups db @ [g\<lparr>grp_ChannelGroupId := lt_nextGroup db\<rparr>],
                   lt_nextGroup := lt_nextGroup db + 1\<rparr>, None))"

fun insert_groups ::
    "LabelEnv \<Rightarrow> (CorridorKey, Corridor) order \<Rightarrow> corridor_caches \<Rightarrow> (CorridorKey \<times> channelGroup) list \<Rightarrow>
     LabelTables \<Rightarrow> LabelTables \<times> go_error option" where
  "insert_groups env ord caches [] db = (db, None)"
| "insert_groups env ord caches ((key, g) # rest) db =
     (case GetBestCorridorStatus ord caches key of
        Inl e \<Rightarrow> (db, Some e)
      | Inr False \<Rightarrow> insert_groups env ord caches rest db
      | Inr True \<Rightarrow>
          (case insert_group env g db of
             (db1, Some e) \<Rightarrow> (db1, Some e)
           | (db1, None) \<Rightarrow> insert_groups env ord caches rest db1))"

text \<open>The candidates of an origin, or the error of the query for its labels.\<close>

fun candidates :: "groupOrigin \<Rightarrow> LabelEnv \<Rightarrow> Channel list \<Rightarrow> LabelTables \<Rightarrow> (CorridorKey \<times> channelGroup) list result" where
  "candidates categoryCorridor env chans db =
     (case GetCategories env db of
        Inl e \<Rightarrow> Inl (wrapped ''Obtaining categories for channel group generation.'' e)
      | Inr cts \<Rightarrow> Ok (concat (map (\<lambda>ch. concat (map (category_candidates (lbe_Now env) ch) cts)) chans)))"
| "candidates tagCorridor env chans db =
     (case GetTags env db of
        Inl e \<Rightarrow> Inl (wrapped ''Obtaining tags for channel group generation.'' e)
      | Inr tgs \<Rightarrow> Ok (concat (map (\<lambda>ch. concat (map (tag_candidates (lbe_Now env) ch) tgs)) chans)))"

text \<open>
  The whole transaction.  It is rolled back when a statement of it fails (the values of the sequence
  stay used), but not when the query for the labels fails: then it stays open, and holds the locks of
  the rows it deleted.  None is a deletion that waits for such a lock for ever.
\<close>

definition GenerateChannelGroupsByOrigin ::
    "LabelEnv \<Rightarrow> (CorridorKey, Corridor) order \<Rightarrow> corridor_caches \<Rightarrow> Channel list \<Rightarrow> groupOrigin \<Rightarrow>
     LabelTables \<Rightarrow> (LabelTables \<times> go_error option) option" where
  "GenerateChannelGroupsByOrigin env ord caches channels origin db =
     (let mine = (\<lambda>g. grp_GroupOriginId g = origin) in
      case queried env SelectAllChannels channels of
        Inl e \<Rightarrow> Some (db, Some (wrapped ''Obtaining channels for channel group generation.'' e))
      | Inr chans \<Rightarrow>
      (case lbe_Fails env BeginTransaction of
         Some e \<Rightarrow> Some (db, Some (wrapped ''Starting SQL transaction.'' e))
       | None \<Rightarrow>
           if origin \<in> set (lt_Locked db) then None
           else case lbe_Fails env DeleteGroups of
             Some e \<Rightarrow> Some (db, Some (wrapped SqlExecutionError e))
           | None \<Rightarrow>
           (case candidates origin env chans db of
              Inl e \<Rightarrow> Some (if list_ex mine (lt_Groups db) then db\<lparr>lt_Locked := origin # lt_Locked db\<rparr> else db, Some e)
            | Inr cands \<Rightarrow>
                (case insert_groups env ord caches cands (db\<lparr>lt_Groups := filter (\<lambda>g. \<not> mine g) (lt_Groups db)\<rparr>) of
                   (db1, Some e) \<Rightarrow> Some (db\<lparr>lt_nextGroup := lt_nextGroup db1\<rparr>, Some e)
                 | (db1, None) \<Rightarrow>
                     (case lbe_Fails env CommitTransaction of
                        Some e \<Rightarrow> Some (db\<lparr>lt_nextGroup := lt_nextGroup db1\<rparr>, Some (wrapped ''Committing SQL transaction.'' e))
                      | None \<Rightarrow> Some (db1, None))))))"

section \<open>Reading the groups of a channel\<close>

text \<open>
  A row with the names of its labels, as the two joins give it.  Each row has a category pointer of its
  own, so the address is the row's position.
\<close>

definition joined_group :: "LabelTables \<Rightarrow> nat \<Rightarrow> channelGroup \<Rightarrow> ManagedChannelGroup.ChannelGroup" where
  "joined_group db i g =
     (let t = (case grp_TagId g of None \<Rightarrow> None | Some k \<Rightarrow> find (\<lambda>t. tag_TagId t = k) (lt_Tags db));
          c = (case grp_CategoryId g of None \<Rightarrow> None | Some k \<Rightarrow> find (\<lambda>c. cat_CategoryId c = k) (lt_Categories db))
      in \<lparr>cg_TagId = map_option tag_TagId t, cg_TagName = map_option tag_Name t, cg_TagStyle = map_option tag_Style t,
          cg_CategoryId = map_option (\<lambda>c. (i, cat_CategoryId c)) c, cg_CategoryName = map_option cat_Name c,
          cg_CategoryStyle = map_option cat_Style c\<rparr>)"

definition stored_channel_groups :: "LabelTables \<Rightarrow> int \<Rightarrow> ManagedChannelGroup.ChannelGroup list" where
  "stored_channel_groups db channelId =
     map (\<lambda>(i, g). joined_group db i g) (enumerate 0 (filter (\<lambda>g. grp_ChannelId g = channelId) (lt_Groups db)))"

text \<open>
  The read that follows the write of the cache answers nil for the channel 0, which the cache refuses:
  None is the panic of using it.
\<close>

definition getChannelGroupsByChannelId ::
    "LabelEnv \<Rightarrow> LabelTables \<Rightarrow> int \<Rightarrow> ChannelGroupInclude \<Rightarrow> ChannelGroupState \<Rightarrow>
     (ChannelGroupState \<times> ManagedChannelGroup.ChannelGroup list result) option" where
  "getChannelGroupsByChannelId env db channelId incl cache =
     (case GetChannelGroupsByChannelId channelId incl cache of
        None \<Rightarrow> None
      | Some (Some cachedData) \<Rightarrow> Some (cache, Ok (mcgs_ChannelGroups cachedData))
      | Some None \<Rightarrow>
          (case queried env SelectGroupsOfChannel (stored_channel_groups db channelId) of
             Inl e \<Rightarrow> Some (cache, Inl e)
           | Inr cgs \<Rightarrow>
               (case SetChannelGroupsByChannelId channelId cgs cache of
                  Served cache1 r \<Rightarrow>
                    (case GetChannelGroupsByChannelId channelId incl cache1 of
                       Some (Some settings) \<Rightarrow> Some (cache1, Ok (mcgs_ChannelGroups settings))
                     | _ \<Rightarrow> None)
                | _ \<Rightarrow> None)))"

section \<open>Requests\<close>

record GroupWorld =
  gr_Tables :: LabelTables
  gr_Caches :: corridor_caches
  gr_GroupCache :: ChannelGroupState

text \<open>
  A request gives the world, the answer, and the origin whose groups a new goroutine will generate;
  None is a panic, which the web server's recovery answers.
\<close>

type_synonym group_handled = "(GroupWorld \<times> LabelResponse \<times> groupOrigin option) option"

abbreviation group_refused :: "int \<times> ServerError \<Rightarrow> GroupWorld \<Rightarrow> group_handled" where
  "group_refused r w \<equiv> Some (w, LabelRefused r, None)"

text \<open>Only larger numbers are refused; a negative one is none of the modes with an effect of their own.\<close>

definition include_of :: "int \<Rightarrow> ChannelGroupInclude" where
  "include_of i =
     (if i = 0 then CATEGORIES_ONLY else if i = 1 then DISTINCT_REGULAR_AND_TAG_CATEGORIES
      else if i = 3 then TAGS_ONLY else ALL_REGULAR_AND_TAG_CATEGORIES)"

definition getChannelGroupsByChannelIdHandler :: "LabelEnv \<Rightarrow> string \<Rightarrow> string \<Rightarrow> GroupWorld \<Rightarrow> group_handled" where
  "getChannelGroupsByChannelIdHandler env channelIdText includeText w =
     (case atoi channelIdText of
        None \<Rightarrow> group_refused (SendBadRequest ''Failed to find/parse channelId in the request.'') w
      | Some channelId \<Rightarrow>
      (case atoi includeText of
         None \<Rightarrow> group_refused (SendBadRequest ''Failed to find/parse include in the request.'') w
       | Some incl \<Rightarrow>
           if incl > 2 then group_refused (SendBadRequest ''Failed to parse include in the request.'') w
           else
      (case getChannelGroupsByChannelId env (gr_Tables w) channelId (include_of incl) (gr_GroupCache w) of
         None \<Rightarrow> None
       | Some (cache, Inl e) \<Rightarrow>
           group_refused (WrapLogAndSendServerError e
             (''Getting ChannelGroupCategories for channelId: '' @ format_int channelId)) (w\<lparr>gr_GroupCache := cache\<rparr>)
       | Some (cache, Inr groups) \<Rightarrow> Some (w\<lparr>gr_GroupCache := cache\<rparr>, RespondsGroups groups, None))))"

text \<open>The corridors of a type, for the refreshed cache.\<close>

definition corridor_rows :: "LabelEnv \<Rightarrow> LabelTables \<Rightarrow> int \<Rightarrow> Corridor list result" where
  "corridor_rows env db tid = queried env SelectCorridors (filter (\<lambda>c. co_CorridorTypeId c = tid) (lt_Corridors db))"

text \<open>The corridor a request configures, or the refusal of a tag that cannot be read.\<close>

definition requested_corridor :: "LabelEnv \<Rightarrow> LabelTables \<Rightarrow> channelGroup \<Rightarrow> (int \<times> ServerError) + (Corridor \<times> groupOrigin)" where
  "requested_corridor env db cg =
     map_sum id (\<lambda>(corridor, origin).
       (corridor\<lparr>co_FromNodeId := (if grp_NodeId cg \<noteq> 0 then Some (grp_NodeId cg) else None),
                 co_ChannelId := (if grp_ChannelId cg \<noteq> 0 then Some (grp_ChannelId cg) else None)\<rparr>, origin))
     (if is_set (grp_TagId cg)
      then (case GetTag env db (the (grp_TagId cg)) of
              Inl e \<Rightarrow> Inl (SendUnprocessableEntity ''Failed to find tag from tagId.'')
            | Inr tag \<Rightarrow> Inr (zeroCorridor\<lparr>co_CorridorTypeId := ct_CorridorTypeId Tag, co_Flag := 1,
                co_ReferenceId := Some (tag_TagId tag), co_FromCategoryId := tag_CategoryId tag\<rparr>, tagCorridor))
      else Inr (zeroCorridor\<lparr>co_CorridorTypeId := ct_CorridorTypeId Category, co_Flag := 1,
                co_ReferenceId := grp_CategoryId cg\<rparr>, categoryCorridor))"

definition addChannelGroupHandler ::
    "LabelEnv \<Rightarrow> (nat, corridor_entries) order \<Rightarrow> channelGroup result \<Rightarrow> GroupWorld \<Rightarrow> group_handled" where
  "addChannelGroupHandler env ord bound w =
     (case bound of
        Inl e \<Rightarrow> group_refused (SendBadRequestFromError (wrapped JsonParseError e)) w
      | Inr cg \<Rightarrow>
          if \<not> is_set (grp_TagId cg) \<and> \<not> is_set (grp_CategoryId cg)
          then group_refused (SendUnprocessableEntity ''Failed to find tagId or categoryId in the request.'') w
          else if grp_NodeId cg = 0 \<and> grp_ChannelId cg = 0
          then group_refused (SendUnprocessableEntity ''Failed to find nodeId or channelId in the request.'') w
          else if grp_ChannelId cg \<noteq> 0 \<and> grp_NodeId cg = 0
          then group_refused (SendUnprocessableEntity ''Failed to find nodeId in the request.'') w
          else
      (case requested_corridor env (gr_Tables w) cg of
         Inl r \<Rightarrow> group_refused r w
       | Inr (corridor, origin) \<Rightarrow>
      (case AddCorridor env corridor (gr_Tables w) of
         (db, Inl e) \<Rightarrow> group_refused (WrapLogAndSendServerError e ''Adding corridor.'') (w\<lparr>gr_Tables := db\<rparr>)
       | (db, Inr stored) \<Rightarrow>
      (case RefreshCorridorCacheByTypeId (corridor_rows env db) ord (co_CorridorTypeId corridor) (gr_Caches w) of
         (caches, Some e) \<Rightarrow> group_refused (WrapLogAndSendServerError e ''Refresh Corridor Cache By Type.'')
           (w\<lparr>gr_Tables := db, gr_Caches := caches\<rparr>)
       | (caches, None) \<Rightarrow>
           Some (w\<lparr>gr_Tables := db, gr_Caches := caches\<rparr>,
             RespondsMessage ''Successfully added channel group configuration.'', Some origin)))))"

text \<open>
  The columns of the table.  The query for one group names another one, which Postgres refuses.
\<close>

definition channel_group_columns :: "string list" where
  "channel_group_columns =
     [''channel_tag_id'', ''node_id'', ''channel_id'', ''tag_origin_id'', ''category_id'', ''tag_id'', ''created_on'']"

definition getChannelGroup :: "LabelEnv \<Rightarrow> LabelTables \<Rightarrow> int \<Rightarrow> channelGroup option result" where
  "getChannelGroup env db channelGroupId =
     (case lbe_Fails env SelectGroup of
        Some e \<Rightarrow> Inl (wrapped SqlExecutionError e)
      | None \<Rightarrow>
          if ''channel_group_id'' \<notin> set channel_group_columns
          then Inl (wrapped SqlExecutionError (Error ''pq: column does not exist''))
          else Ok (find (\<lambda>g. grp_ChannelGroupId g = channelGroupId) (lt_Groups db)))"

text \<open>
  The key of the corridor that allowed a group; None is the panic of reading the category of a group
  without one.
\<close>

definition removed_key ::
    "LabelEnv \<Rightarrow> LabelTables \<Rightarrow> string \<Rightarrow> channelGroup option \<Rightarrow> ((int \<times> ServerError) + (CorridorKey \<times> groupOrigin)) option" where
  "removed_key env db idText found =
     (let nodeId = (case found of None \<Rightarrow> 0 | Some g \<Rightarrow> grp_NodeId g);
          channelId = (case found of None \<Rightarrow> 0 | Some g \<Rightarrow> grp_ChannelId g)
      in case (found, Option.bind found grp_TagId, Option.bind found grp_CategoryId) of
           (_, Some t, _) \<Rightarrow>
             (case GetTag env db t of
                Inl e \<Rightarrow> Some (Inl (WrapLogAndSendServerError e (''Obtaining tag for channelGroupId: '' @ idText)))
              | Inr tag \<Rightarrow> Some (Inr (corridor_key Tag (tag_TagId tag) (tag_CategoryId tag) nodeId 0 channelId, tagCorridor)))
         | (_, None, Some c) \<Rightarrow> Some (Inr (corridor_key Category c None nodeId 0 channelId, categoryCorridor))
         | (_, None, None) \<Rightarrow> None)"

definition removeChannelGroupHandler ::
    "LabelEnv \<Rightarrow> (CorridorKey, Corridor) order \<Rightarrow> (nat, corridor_entries) order \<Rightarrow> string \<Rightarrow> GroupWorld \<Rightarrow> group_handled" where
  "removeChannelGroupHandler env ordK ord idText w =
     (case atoi idText of
        None \<Rightarrow> group_refused (SendBadRequest ''Failed to find/parse channelGroupId in the request.'') w
      | Some channelGroupId \<Rightarrow>
      (case getChannelGroup env (gr_Tables w) channelGroupId of
         Inl e \<Rightarrow> group_refused (WrapLogAndSendServerError e
           (''Obtaining channelGroup for channelGroupId: '' @ format_int channelGroupId)) w
       | Inr found \<Rightarrow>
      (case removed_key env (gr_Tables w) (format_int channelGroupId) found of
         None \<Rightarrow> None
       | Some (Inl r) \<Rightarrow> group_refused r w
       | Some (Inr (key, origin)) \<Rightarrow>
      (case GetBestCorridor ordK (gr_Caches w) key of
         Inl e \<Rightarrow> None
       | Inr corridor \<Rightarrow>
      (case RemoveCorridor env (co_CorridorId corridor) (gr_Tables w) of
         (db, Inl e) \<Rightarrow> group_refused (WrapLogAndSendServerError e
           (''Removing corridor with corridorId: '' @ format_int (co_CorridorId corridor))) (w\<lparr>gr_Tables := db\<rparr>)
       | (db, Inr n) \<Rightarrow>
      (case RefreshCorridorCacheByType (corridor_rows env db) ord (ck_CorridorType key) (gr_Caches w) of
         (caches, Some e) \<Rightarrow> group_refused (WrapLogAndSendServerError e ''Refresh Corridor Cache By Type.'')
           (w\<lparr>gr_Tables := db, gr_Caches := caches\<rparr>)
       | (caches, None) \<Rightarrow>
           Some (w\<lparr>gr_Tables := db, gr_Caches := caches\<rparr>,
             RespondsMessage ''Successfully deleted channel group(s).'', Some origin)))))))"

section \<open>What a generation writes\<close>

text \<open>The rows of the candidates whose corridor has the flag of an allowed group.\<close>

definition allowed :: "(CorridorKey, Corridor) order \<Rightarrow> corridor_caches \<Rightarrow> (CorridorKey \<times> channelGroup) list \<Rightarrow> channelGroup list" where
  "allowed ord caches cands = map snd (filter (\<lambda>(key, g). GetBestCorridorStatus ord caches key = Ok True) cands)"

definition without_id :: "channelGroup \<Rightarrow> channelGroup" where
  "without_id g = g\<lparr>grp_ChannelGroupId := 0\<rparr>"

definition same_labels :: "LabelTables \<Rightarrow> LabelTables \<Rightarrow> bool" where
  "same_labels db db1 \<longleftrightarrow> lt_Tags db1 = lt_Tags db \<and> lt_nextTag db1 = lt_nextTag db \<and> lt_Categories db1 = lt_Categories db \<and>
     lt_nextCategory db1 = lt_nextCategory db \<and> lt_Corridors db1 = lt_Corridors db \<and> lt_nextCorridor db1 = lt_nextCorridor db \<and>
     lt_Locked db1 = lt_Locked db"

lemma same_labels_refl [simp]: "same_labels db db"
  by (simp add: same_labels_def)

lemma same_labels_trans: "same_labels a b \<Longrightarrow> same_labels b c \<Longrightarrow> same_labels a c"
  by (simp add: same_labels_def)

lemma insert_group_outcome:
  assumes "insert_group env g db = (db1, e)"
  shows "same_labels db db1" and "lt_nextGroup db \<le> lt_nextGroup db1"
    and "e = None \<Longrightarrow> lt_Groups db1 = lt_Groups db @ [g\<lparr>grp_ChannelGroupId := lt_nextGroup db\<rparr>] \<and>
      lt_nextGroup db1 = lt_nextGroup db + 1 \<and> \<not> list_ex (conflicts g) (lt_Groups db)"
    and "e \<noteq> None \<Longrightarrow> lt_Groups db1 = lt_Groups db"
  using assms by (auto simp: insert_group_def same_labels_def split: option.splits if_splits)

lemma insert_groups_outcome:
  assumes "insert_groups env ord caches cands db = (db1, e)"
  shows "same_labels db db1 \<and> lt_nextGroup db \<le> lt_nextGroup db1 \<and>
    (e = None \<longrightarrow> (\<exists>new. lt_Groups db1 = lt_Groups db @ new \<and> map without_id new = map without_id (allowed ord caches cands)))"
  using assms
proof (induction cands arbitrary: db)
  case (Cons cand rest)
  obtain key g where cand: "cand = (key, g)" by (cases cand)
  consider err where "GetBestCorridorStatus ord caches key = Inl err" | "GetBestCorridorStatus ord caches key = Ok False"
    | "GetBestCorridorStatus ord caches key = Ok True" by (cases "GetBestCorridorStatus ord caches key") auto
  then show ?case
  proof cases
    case 3
    obtain db2 e2 where ins: "insert_group env g db = (db2, e2)" by fastforce
    note out = insert_group_outcome [OF ins]
    show ?thesis
    proof (cases e2)
      case None
      with Cons.prems cand 3 ins have "insert_groups env ord caches rest db2 = (db1, e)" by simp
      from Cons.IH [OF this] have ih: "same_labels db2 db1" "lt_nextGroup db2 \<le> lt_nextGroup db1"
        "e = None \<longrightarrow> (\<exists>new. lt_Groups db1 = lt_Groups db2 @ new \<and> map without_id new = map without_id (allowed ord caches rest))"
        by auto
      have "lt_Groups db2 = lt_Groups db @ [g\<lparr>grp_ChannelGroupId := lt_nextGroup db\<rparr>]" using out(3) [OF None] by simp
      with ih(3) cand 3 have "e = None \<longrightarrow> (\<exists>new. lt_Groups db1 = lt_Groups db @ g\<lparr>grp_ChannelGroupId := lt_nextGroup db\<rparr> # new \<and>
          map without_id (g\<lparr>grp_ChannelGroupId := lt_nextGroup db\<rparr> # new) = map without_id (allowed ord caches (cand # rest)))"
        by (auto simp: allowed_def without_id_def)
      with ih(1,2) out(1,2) show ?thesis by (metis same_labels_trans order_trans)
    qed (use Cons.prems cand 3 ins out in auto)
  qed (use Cons.prems Cons.IH cand in \<open>auto simp: allowed_def\<close>)
qed (simp add: allowed_def)

lemma generated:
  assumes "GenerateChannelGroupsByOrigin env ord caches channels origin db = Some (db1, e)"
  shows "lt_Tags db1 = lt_Tags db \<and> lt_nextTag db1 = lt_nextTag db \<and> lt_Categories db1 = lt_Categories db \<and>
     lt_nextCategory db1 = lt_nextCategory db \<and> lt_Corridors db1 = lt_Corridors db"
    and "e \<noteq> None \<Longrightarrow> lt_Groups db1 = lt_Groups db"
    and "e = None \<Longrightarrow> \<exists>cands new. candidates origin env channels db = Ok cands \<and>
       lt_Groups db1 = filter (\<lambda>g. grp_GroupOriginId g \<noteq> origin) (lt_Groups db) @ new \<and>
       map without_id new = map without_id (allowed ord caches cands)"
  using assms
  by (auto simp: GenerateChannelGroupsByOrigin_def queried_def same_labels_def Let_def
      split: option.splits sum.splits prod.splits if_splits dest!: insert_groups_outcome)

text \<open>
  A group the code looks at: a channel of the database, one of its ends, and a label of the kind, with
  the key whose best corridor decides.
\<close>

definition label_type :: "groupOrigin \<Rightarrow> CorridorType" where
  "label_type origin = (case origin of categoryCorridor \<Rightarrow> Category | tagCorridor \<Rightarrow> Tag)"

definition group_label :: "LabelTables \<Rightarrow> channelGroup \<Rightarrow> int \<Rightarrow> int option \<Rightarrow> bool" where
  "group_label db g reference category \<longleftrightarrow>
     (case grp_GroupOriginId g of
        categoryCorridor \<Rightarrow> category = None \<and> grp_CategoryId g = Some reference \<and> grp_TagId g = None \<and>
          reference \<in> cat_CategoryId ` set (lt_Categories db)
      | tagCorridor \<Rightarrow> grp_TagId g = Some reference \<and> grp_CategoryId g = category \<and>
          (\<exists>t \<in> set (lt_Tags db). tag_TagId t = reference \<and> tag_CategoryId t = category))"

definition candidate_for :: "Channel list \<Rightarrow> LabelTables \<Rightarrow> CorridorKey \<Rightarrow> channelGroup \<Rightarrow> bool" where
  "candidate_for channels db key g \<longleftrightarrow>
     (\<exists>ch \<in> set channels. \<exists>toNode reference category.
        (grp_NodeId g, toNode) \<in> {(ch_FirstNodeId ch, ch_SecondNodeId ch), (ch_SecondNodeId ch, ch_FirstNodeId ch)} \<and>
        grp_ChannelId g = ch_ChannelID ch \<and> group_label db g reference category \<and>
        key = corridor_key (label_type (grp_GroupOriginId g)) reference category (grp_NodeId g) toNode (ch_ChannelID ch))"

lemmas candidate_defs = candidate_for_def group_label_def label_type_def category_candidates_def tag_candidates_def

lemma candidates_are:
  assumes "candidates origin env channels db = Ok cands" and "(key, g) \<in> set cands"
  shows "candidate_for channels db key g" and "grp_GroupOriginId g = origin"
proof -
  have "candidate_for channels db key g \<and> grp_GroupOriginId g = origin"
  proof (cases origin)
    case categoryCorridor
    with assms obtain ch c where "ch \<in> set channels" "c \<in> set (lt_Categories db)" "(key, g) \<in> set (category_candidates (lbe_Now env) ch c)"
      by (auto simp: GetCategories_def queried_def split: option.splits)
    then show ?thesis by (fastforce simp: candidate_defs categoryCorridor)
  next
    case tagCorridor
    with assms obtain ch t where "ch \<in> set channels" "t \<in> set (lt_Tags db)" "(key, g) \<in> set (tag_candidates (lbe_Now env) ch t)"
      by (auto simp: GetTags_def queried_def split: option.splits)
    then show ?thesis by (fastforce simp: candidate_defs tagCorridor)
  qed
  then show "candidate_for channels db key g" "grp_GroupOriginId g = origin" by simp_all
qed

lemma candidates_all:
  assumes "candidates origin env channels db = Ok cands" and "candidate_for channels db key g"
    and "grp_GroupOriginId g = origin"
  shows "(key, g\<lparr>grp_ChannelGroupId := 0, grp_CreatedOn := lbe_Now env\<rparr>) \<in> set cands"
proof -
  let ?g = "g\<lparr>grp_ChannelGroupId := 0, grp_CreatedOn := lbe_Now env\<rparr>"
  from assms(2) obtain ch toNode reference category where ch: "ch \<in> set channels" "grp_ChannelId g = ch_ChannelID ch"
    and ends: "(grp_NodeId g, toNode) \<in> {(ch_FirstNodeId ch, ch_SecondNodeId ch), (ch_SecondNodeId ch, ch_FirstNodeId ch)}"
    and label: "group_label db g reference category"
    and key: "key = corridor_key (label_type (grp_GroupOriginId g)) reference category (grp_NodeId g) toNode (ch_ChannelID ch)"
    unfolding candidate_for_def by blast
  show ?thesis
  proof (cases origin)
    case categoryCorridor
    with label assms(3) obtain c where c: "c \<in> set (lt_Categories db)" "reference = cat_CategoryId c" "category = None"
      "grp_CategoryId g = Some reference" "grp_TagId g = None" by (auto simp: group_label_def)
    then have "(key, ?g) \<in> set (category_candidates (lbe_Now env) ch c)"
      using ch(2) ends key assms(3) categoryCorridor by (cases g) (auto simp: category_candidates_def label_type_def)
    moreover have "cands = concat (map (\<lambda>ch. concat (map (category_candidates (lbe_Now env) ch) (lt_Categories db))) channels)"
      using assms(1) categoryCorridor by (auto simp: GetCategories_def queried_def split: option.splits)
    ultimately show ?thesis using ch(1) c(1) by auto
  next
    case tagCorridor
    with label assms(3) obtain t where t: "t \<in> set (lt_Tags db)" "reference = tag_TagId t" "category = tag_CategoryId t"
      "grp_TagId g = Some reference" "grp_CategoryId g = category" by (auto simp: group_label_def)
    then have "(key, ?g) \<in> set (tag_candidates (lbe_Now env) ch t)"
      using ch(2) ends key assms(3) tagCorridor by (cases g) (auto simp: tag_candidates_def label_type_def)
    moreover have "cands = concat (map (\<lambda>ch. concat (map (tag_candidates (lbe_Now env) ch) (lt_Tags db))) channels)"
      using assms(1) tagCorridor by (auto simp: GetTags_def queried_def split: option.splits)
    ultimately show ?thesis using ch(1) t(1) by auto
  qed
qed

text \<open>The rules that decide for a key: those that match it with the highest priority.\<close>

definition best_rules :: "LabelTables \<Rightarrow> CorridorKey \<Rightarrow> Corridor list" where
  "best_rules db key =
     (let rules = filter (\<lambda>c. co_CorridorTypeId c = ct_CorridorTypeId (ck_CorridorType key) \<and> corridor_matches key c) (lt_Corridors db)
      in filter (\<lambda>c. list_all (\<lambda>d. calculatePriority d \<le> calculatePriority c) rules) rules)"

lemma best_status:
  assumes "RefreshCorridorCacheByTypeId (corridor_rows env db) ordP (ct_CorridorTypeId (label_type origin)) caches0 = (caches, None)"
    and "lbe_Fails env SelectCorridors = None" and "range_order ordP" and "range_order ord"
    and "ck_CorridorType key = label_type origin" and "ck_ReferenceId key \<noteq> 0"
  shows "GetBestCorridorStatus ord caches key = Ok True \<Longrightarrow> \<exists>c \<in> set (best_rules db key). co_Flag c = 1"
    and "best_rules db key \<noteq> [] \<Longrightarrow> \<forall>c \<in> set (best_rules db key). co_Flag c = 1 \<Longrightarrow> GetBestCorridorStatus ord caches key = Ok True"
proof -
  let ?t = "label_type origin"
  let ?cs = "filter (\<lambda>c. co_CorridorTypeId c = ct_CorridorTypeId ?t) (lt_Corridors db)"
  have t: "getCorridorTypeFromId (ct_CorridorTypeId ?t) = Some ?t" and dflt: "ct_DefaultFlag ?t = 0"
    by (cases origin; simp add: label_type_def getCorridorTypeFromId_def Category_def Tag_def)+
  have rows: "corridor_rows env db (ct_CorridorTypeId ?t) = Ok ?cs"
    using assms(2) by (simp add: corridor_rows_def queried_def)
  have best: "set (best_rules db key) = {c \<in> set ?cs. corridor_matches key c \<and>
      (\<forall>d \<in> set ?cs. corridor_matches key d \<longrightarrow> calculatePriority d \<le> calculatePriority c)}"
    using assms(5) by (auto simp: best_rules_def list_all_iff Let_def)
  have "caches ?t \<noteq> None" using refresh_caches [OF t rows assms(1)] by simp
  then obtain c where c: "GetBestCorridor ord caches key = Ok c" using assms(5) by (auto simp: GetBestCorridor_def)
  have tid: "\<forall>c \<in> set ?cs. co_CorridorTypeId c = ct_CorridorTypeId ?t" by simp
  from search_rows [OF t rows tid assms(1,3,4,5,6) c]
  have found: "set (best_rules db key) = {} \<and> co_Flag c = 0 \<or> c \<in> set (best_rules db key)"
  proof (elim disjE conjE)
    assume "\<forall>d \<in> set ?cs. \<not> corridor_matches key d"
      and c: "c = zeroCorridor\<lparr>co_CorridorTypeId := ct_CorridorTypeId ?t, co_Flag := ct_DefaultFlag ?t\<rparr>"
    then have "set (best_rules db key) = {}" unfolding best by blast
    with c dflt show ?thesis by simp
  next
    assume m: "corridor_matches key c" "staged (stage_all ?cs) (calculatePriority c) (constructKey c) = Some c"
      "\<forall>d \<in> set ?cs. corridor_matches key d \<longrightarrow> calculatePriority d \<le> calculatePriority c"
    from staged_in [OF m(2)] m(1,3) show ?thesis unfolding best by blast
  qed
  show "\<exists>c \<in> set (best_rules db key). co_Flag c = 1" if "GetBestCorridorStatus ord caches key = Ok True"
    using that c found by (auto simp: GetBestCorridorStatus_def)
  show "GetBestCorridorStatus ord caches key = Ok True" if "best_rules db key \<noteq> []" "\<forall>c \<in> set (best_rules db key). co_Flag c = 1"
    using that c found by (auto simp: GetBestCorridorStatus_def)
qed

lemma candidate_fields:
  "candidate_for channels db key (g\<lparr>grp_ChannelGroupId := i\<rparr>) = candidate_for channels db key g"
  by (cases "grp_GroupOriginId g") (simp_all add: candidate_for_def group_label_def)

lemma key_of_candidate:
  assumes "candidate_for channels db key g" and "\<forall>t \<in> set (lt_Tags db). tag_TagId t \<noteq> 0"
    and "\<forall>c \<in> set (lt_Categories db). cat_CategoryId c \<noteq> 0"
  shows "ck_CorridorType key = label_type (grp_GroupOriginId g)" and "ck_ReferenceId key \<noteq> 0"
  using assms by (cases "grp_GroupOriginId g"; auto simp: candidate_for_def corridor_key_def group_label_def)+

definition same_place :: "channelGroup \<Rightarrow> channelGroup \<Rightarrow> bool" where
  "same_place g h \<longleftrightarrow> grp_GroupOriginId h = grp_GroupOriginId g \<and> grp_NodeId h = grp_NodeId g \<and>
     grp_ChannelId h = grp_ChannelId g \<and> grp_TagId h = grp_TagId g \<and> grp_CategoryId h = grp_CategoryId g"

lemma same_place_without_id:
  assumes "without_id h = without_id g"
  shows "same_place g h"
  using assms [THEN arg_cong, of grp_GroupOriginId] assms [THEN arg_cong, of grp_NodeId]
    assms [THEN arg_cong, of grp_ChannelId] assms [THEN arg_cong, of grp_TagId] assms [THEN arg_cong, of grp_CategoryId]
  by (simp add: same_place_def without_id_def)

text \<open>
  C26: A successful generation leaves the rows of the other kind as they were.  Each row it writes is
  for one end of a channel and a label that a rule of the table allows which matches with the highest
  priority; and each end of a channel gets its row for a label when all such rules allow it.
\<close>

theorem generated_groups_follow_rules:
  assumes "GenerateChannelGroupsByOrigin env ord caches channels origin db = Some (db1, None)"
    and "RefreshCorridorCacheByTypeId (corridor_rows env db) ordP (ct_CorridorTypeId (label_type origin)) caches0 = (caches, None)"
    and "lbe_Fails env SelectCorridors = None" and "range_order ordP" and "range_order ord"
    and "\<forall>t \<in> set (lt_Tags db). tag_TagId t \<noteq> 0" and "\<forall>c \<in> set (lt_Categories db). cat_CategoryId c \<noteq> 0"
  shows "filter (\<lambda>g. grp_GroupOriginId g \<noteq> origin) (lt_Groups db1) = filter (\<lambda>g. grp_GroupOriginId g \<noteq> origin) (lt_Groups db) \<and>
    (\<forall>g \<in> set (lt_Groups db1). grp_GroupOriginId g = origin \<longrightarrow>
       (\<exists>key. candidate_for channels db key g \<and> (\<exists>rule \<in> set (best_rules db key). co_Flag rule = 1))) \<and>
    (\<forall>key g. candidate_for channels db key g \<and> grp_GroupOriginId g = origin \<and> best_rules db key \<noteq> [] \<and>
       (\<forall>rule \<in> set (best_rules db key). co_Flag rule = 1) \<longrightarrow> (\<exists>h \<in> set (lt_Groups db1). same_place g h))"
proof -
  obtain cands new where cands: "candidates origin env channels db = Ok cands"
    and db1: "lt_Groups db1 = filter (\<lambda>g. grp_GroupOriginId g \<noteq> origin) (lt_Groups db) @ new"
    and new: "map without_id new = map without_id (allowed ord caches cands)"
    using generated(3) [OF assms(1) refl] by blast
  have match: "\<exists>h \<in> set ys. without_id h = without_id x" if "map without_id xs = map without_id ys" "x \<in> set xs" for x xs ys
    using arg_cong [OF that(1), of set] that(2) by (metis (no_types, lifting) imageE image_eqI list.set_map)
  have origins: "\<forall>g \<in> set new. grp_GroupOriginId g = origin"
  proof
    fix g assume "g \<in> set new"
    then obtain h where "h \<in> set (allowed ord caches cands)" "without_id h = without_id g" using match [OF new] by blast
    then show "grp_GroupOriginId g = origin"
      using candidates_are(2) [OF cands] by (auto simp: allowed_def without_id_def dest: arg_cong [where f = grp_GroupOriginId])
  qed
  have "filter (\<lambda>g. grp_GroupOriginId g \<noteq> origin) new = []" using origins by (simp add: filter_empty_conv)
  then have kept: "filter (\<lambda>g. grp_GroupOriginId g \<noteq> origin) (lt_Groups db1) = filter (\<lambda>g. grp_GroupOriginId g \<noteq> origin) (lt_Groups db)"
    by (simp add: db1)
  have sound: "\<exists>key. candidate_for channels db key g \<and> (\<exists>rule \<in> set (best_rules db key). co_Flag rule = 1)"
    if "g \<in> set (lt_Groups db1)" "grp_GroupOriginId g = origin" for g
  proof -
    from that have "g \<in> set new" by (auto simp: db1)
    then obtain key h where h: "(key, h) \<in> set cands" "GetBestCorridorStatus ord caches key = Ok True" "without_id h = without_id g"
      using match [OF new] by (fastforce simp: allowed_def)
    note c = candidates_are [OF cands h(1)]
    have "candidate_for channels db key g"
      using c(1) arg_cong [OF h(3), of "candidate_for channels db key"] by (simp add: without_id_def candidate_fields)
    moreover note best_status(1) [OF assms(2-5) _ key_of_candidate(2) [OF c(1) assms(6,7)] h(2)]
      key_of_candidate(1) [OF c(1) assms(6,7)] c(2)
    ultimately show ?thesis by metis
  qed
  have complete: "\<exists>h \<in> set (lt_Groups db1). same_place g h"
    if c: "candidate_for channels db key g" "grp_GroupOriginId g = origin" and r: "best_rules db key \<noteq> []"
      "\<forall>rule \<in> set (best_rules db key). co_Flag rule = 1" for key g
  proof -
    let ?h = "g\<lparr>grp_ChannelGroupId := 0, grp_CreatedOn := lbe_Now env\<rparr>"
    have "GetBestCorridorStatus ord caches key = Ok True"
      using best_status(2) [OF assms(2-5) _ key_of_candidate(2) [OF c(1) assms(6,7)] r] key_of_candidate(1) [OF c(1) assms(6,7)] c(2)
      by simp
    with candidates_all [OF cands c] have "?h \<in> set (allowed ord caches cands)" by (force simp: allowed_def)
    with match [OF new [symmetric]] obtain h where "h \<in> set new" "without_id h = without_id ?h" by blast
    then have "same_place g h" using same_place_without_id [of h ?h] by (simp add: same_place_def)
    with \<open>h \<in> set new\<close> show ?thesis by (auto simp: db1)
  qed
  from kept sound complete show ?thesis by blast
qed

section \<open>Insertions that conflict\<close>

text \<open>
  A tag with a category that is allowed at both ends of a channel is one row too many for the table:
  the second insertion violates its constraint, and no group of the kind is ever generated.
\<close>

lemma allowed_at_both_ends_fails:
  assumes "insert_groups env ord caches (c1 @ (k1, g1) # c2 @ (k2, g2) # c3) db = (db1, e)"
    and "GetBestCorridorStatus ord caches k1 = Ok True" and "GetBestCorridorStatus ord caches k2 = Ok True"
    and "conflicts g2 g1"
  shows "e \<noteq> None"
  using assms(1)
proof (induction c1 arbitrary: db)
  case Nil
  have second: "e \<noteq> None" if "insert_groups env ord caches (c2 @ (k2, g2) # c3) db = (db1, e)" "list_ex (conflicts g2) (lt_Groups db)" for db
    using that
  proof (induction c2 arbitrary: db)
    case Nil
    obtain db2 e2 where ins: "insert_group env g2 db = (db2, e2)" by fastforce
    then have "e2 \<noteq> None" using Nil(2) by (auto simp: insert_group_def split: option.splits)
    with Nil(1) ins assms(3) show ?case by auto
  next
    case (Cons c c2)
    obtain k g where c: "c = (k, g)" by (cases c)
    obtain db2 e2 where ins: "insert_group env g db = (db2, e2)" by fastforce
    have "list_ex (conflicts g2) (lt_Groups db2)"
      using insert_group_outcome(3,4) [OF ins] Cons.prems(2) by (cases e2) auto
    with Cons c ins show ?case by (auto split: sum.splits bool.splits option.splits)
  qed
  obtain db2 e2 where ins: "insert_group env g1 db = (db2, e2)" by fastforce
  have "list_ex (conflicts g2) (lt_Groups db2)" if "e2 = None"
    using insert_group_outcome(3) [OF ins that] assms(4) by (simp add: conflicts_def)
  with Nil ins assms(2) second show ?case by (cases e2) auto
next
  case (Cons c c1)
  obtain k g where c: "c = (k, g)" by (cases c)
  obtain db2 e2 where "insert_group env g db = (db2, e2)" by fastforce
  with Cons c show ?case by (auto split: sum.splits bool.splits option.splits)
qed

section \<open>Requests for groups\<close>

text \<open>
  No request configures a channel group or removes one: a request to add one is refused because
  its corridor cannot be inserted, one to remove a group because the group cannot be read; both leave
  the tables and the caches as they were and start no generation.
\<close>

lemma groups_cannot_be_configured:
  "(\<exists>r. addChannelGroupHandler env ord bound w = Some (w, LabelRefused r, None)) \<and>
   (\<exists>r. removeChannelGroupHandler env ordK ord idText w = Some (w, LabelRefused r, None))"
proof -
  have add: "\<exists>e. AddCorridor env c (gr_Tables w) = (gr_Tables w, Inl e)" for c
    using AddCorridor_adds_nothing [of env c "gr_Tables w"] by (metis prod.collapse)
  have "\<exists>r. addChannelGroupHandler env ord bound w = Some (w, LabelRefused r, None)"
  proof (cases bound)
    case (Inr cg)
    then show ?thesis
    proof (cases "requested_corridor env (gr_Tables w) cg")
      case req: (Inr cor)
      obtain corridor origin where "cor = (corridor, origin)" by (cases cor)
      moreover obtain e where "AddCorridor env corridor (gr_Tables w) = (gr_Tables w, Inl e)" using add by blast
      ultimately show ?thesis using Inr req by (auto simp: addChannelGroupHandler_def)
    qed (auto simp: addChannelGroupHandler_def)
  qed (auto simp: addChannelGroupHandler_def)
  moreover have read: "\<exists>e. getChannelGroup env (gr_Tables w) i = Inl e" for i
    by (auto simp: getChannelGroup_def channel_group_columns_def split: option.splits)
  have "\<exists>r. removeChannelGroupHandler env ordK ord idText w = Some (w, LabelRefused r, None)"
  proof (cases "atoi idText")
    case (Some i)
    moreover obtain e where "getChannelGroup env (gr_Tables w) i = Inl e" using read by blast
    ultimately show ?thesis by (simp add: removeChannelGroupHandler_def)
  qed (simp add: removeChannelGroupHandler_def)
  ultimately show ?thesis by simp
qed

text \<open>
  Once the groups of a channel were read they are answered from the cache for good: no change of
  the tables is ever seen.
\<close>

lemma cached_groups_never_change:
  assumes "getChannelGroupsByChannelId env db channelId incl cache = Some (cache1, Ok gs)"
  shows "\<exists>stored. gs = included_groups incl stored \<and>
    (\<forall>env2 db2 incl2. getChannelGroupsByChannelId env2 db2 channelId incl2 cache1 = Some (cache1, Ok (included_groups incl2 stored)))"
proof (cases "cache channelId")
  case None
  with assms show ?thesis
    by (auto simp: getChannelGroupsByChannelId_def GetChannelGroupsByChannelId_def SetChannelGroupsByChannelId_def
        processManagedChannelGroupSettings_def queried_def send_def split: option.splits if_splits)
next
  case (Some settings)
  with assms show ?thesis
    by (auto simp: getChannelGroupsByChannelId_def GetChannelGroupsByChannelId_def processManagedChannelGroupSettings_def send_def)
qed

text \<open>A request for the channel 0 panics, unless the query fails.\<close>

lemma groups_of_channel_0_panic:
  assumes "group_state_ok (gr_GroupCache w)" and "lbe_Fails env SelectGroupsOfChannel = None"
    and "atoi t = Some 0" and "atoi i = Some incl" and "incl \<le> 2"
  shows "getChannelGroupsByChannelIdHandler env t i w = None"
  using assms
  by (simp add: getChannelGroupsByChannelIdHandler_def getChannelGroupsByChannelId_def GetChannelGroupsByChannelId_def
      SetChannelGroupsByChannelId_def processManagedChannelGroupSettings_def group_state_ok_def queried_def send_def)

text \<open>The mode for tags only, which the route names, is refused.\<close>

lemma tags_only_refused:
  assumes "atoi t = Some channelId" and "atoi i = Some 3"
  shows "getChannelGroupsByChannelIdHandler env t i w =
     Some (w, LabelRefused (SendBadRequest ''Failed to parse include in the request.''), None)"
  using assms by (simp add: getChannelGroupsByChannelIdHandler_def)

section \<open>The tables under all requests\<close>

text \<open>The tables as the migration leaves them.\<close>

definition system_category :: "int \<Rightarrow> string \<Rightarrow> CategoryRow" where
  "system_category i name = zeroCategory\<lparr>cat_CategoryId := i, cat_Name := name, cat_Style := name\<rparr>"

definition system_tag :: "int \<Rightarrow> string \<Rightarrow> TagRow" where
  "system_tag i name = zeroTag\<lparr>tag_TagId := i, tag_Name := name, tag_Style := name\<rparr>"

definition initial_labels :: LabelTables where
  "initial_labels =
     \<lparr>lt_Categories = [system_category (-1) ''source'', system_category (-2) ''router'', system_category (-3) ''drain'',
        system_category (-4) ''merchant'', system_category (-5) ''exchange'', system_category (-6) ''wallet''],
      lt_nextCategory = 1,
      lt_Tags = [system_tag (-1) ''free'', system_tag (-2) ''cheap'', system_tag (-3) ''normal'', system_tag (-4) ''expensive'',
        system_tag (-5) ''new'', system_tag (-6) ''idle'', system_tag (-7) ''drained'', system_tag (-8) ''sourced'',
        system_tag (-9) ''insufficient''],
      lt_nextTag = 1, lt_Corridors = [], lt_nextCorridor = 1, lt_Groups = [], lt_nextGroup = 1, lt_Locked = []\<rparr>"

datatype LabelCall =
    CallAddTag LabelEnv TagRow
  | CallSetTag LabelEnv TagRow
  | CallRemoveTag LabelEnv int
  | CallAddCategory LabelEnv CategoryRow
  | CallSetCategory LabelEnv CategoryRow
  | CallRemoveCategory LabelEnv int
  | CallAddCorridor LabelEnv Corridor
  | CallRemoveCorridor LabelEnv int
  | CallGenerate LabelEnv "(CorridorKey, Corridor) order" corridor_caches "Channel list" groupOrigin

definition label_call :: "LabelTables \<Rightarrow> LabelCall \<Rightarrow> (LabelTables, unit) outcome" where
  "label_call db call =
     (case call of
        CallAddTag env t \<Rightarrow> Served (fst (addTag env t db)) None
      | CallSetTag env t \<Rightarrow> Served (fst (setTag env t db)) None
      | CallRemoveTag env i \<Rightarrow> Served (fst (removeTag env i db)) None
      | CallAddCategory env c \<Rightarrow> Served (fst (addCategory env c db)) None
      | CallSetCategory env c \<Rightarrow> Served (fst (setCategory env c db)) None
      | CallRemoveCategory env i \<Rightarrow> Served (fst (removeCategory env i db)) None
      | CallAddCorridor env c \<Rightarrow> Served (fst (AddCorridor env c db)) None
      | CallRemoveCorridor env i \<Rightarrow> Served (fst (RemoveCorridor env i db)) None
      | CallGenerate env ord caches channels origin \<Rightarrow>
          (case GenerateChannelGroupsByOrigin env ord caches channels origin db of
             None \<Rightarrow> Blocked
           | Some (db1, e) \<Rightarrow> Served db1 None))"

section \<open>Failed generations\<close>

text \<open>The rows of one kind, and what a request does to them while a transaction holds their locks.\<close>

definition groups_of :: "groupOrigin \<Rightarrow> LabelTables \<Rightarrow> channelGroup list" where
  "groups_of origin db = filter (\<lambda>g. grp_GroupOriginId g = origin) (lt_Groups db)"

lemma groups_unchanged [simp]:
  "lt_Groups (fst (addTag env t db)) = lt_Groups db" "lt_Groups (fst (setTag env t db)) = lt_Groups db"
  "lt_Groups (fst (removeTag env i db)) = lt_Groups db" "lt_Groups (fst (addCategory env c db)) = lt_Groups db"
  "lt_Groups (fst (setCategory env c db)) = lt_Groups db" "lt_Groups (fst (removeCategory env i db)) = lt_Groups db"
  "lt_Groups (fst (RemoveCorridor env i db)) = lt_Groups db"
  by (auto simp: addTag_def setTag_def removeTag_def addCategory_def setCategory_def removeCategory_def RemoveCorridor_def
      Let_def split: option.splits sum.splits)

lemma locks_unchanged [simp]:
  "lt_Locked (fst (addTag env t db)) = lt_Locked db" "lt_Locked (fst (setTag env t db)) = lt_Locked db"
  "lt_Locked (fst (removeTag env i db)) = lt_Locked db" "lt_Locked (fst (addCategory env c db)) = lt_Locked db"
  "lt_Locked (fst (setCategory env c db)) = lt_Locked db" "lt_Locked (fst (removeCategory env i db)) = lt_Locked db"
  "lt_Locked (fst (RemoveCorridor env i db)) = lt_Locked db"
  by (auto simp: addTag_def setTag_def removeTag_def addCategory_def setCategory_def removeCategory_def RemoveCorridor_def
      Let_def split: option.splits sum.splits)

lemma locks_kept:
  assumes "GenerateChannelGroupsByOrigin env ord caches channels origin db = Some (db1, e)"
  shows "set (lt_Locked db) \<subseteq> set (lt_Locked db1)"
    and "candidates origin env channels db = Ok cands \<Longrightarrow> lt_Locked db1 = lt_Locked db"
  using assms
  by (auto simp: GenerateChannelGroupsByOrigin_def queried_def same_labels_def Let_def
      split: option.splits sum.splits prod.splits if_splits dest!: insert_groups_outcome)

lemma other_kind_kept:
  assumes "GenerateChannelGroupsByOrigin env ord caches channels o1 db = Some (db1, e)" and "o1 \<noteq> origin"
  shows "groups_of origin db1 = groups_of origin db"
proof (cases e)
  case None
  with generated(3) [OF assms(1)] obtain cands new where c: "candidates o1 env channels db = Ok cands"
    and db1: "lt_Groups db1 = filter (\<lambda>g. grp_GroupOriginId g \<noteq> o1) (lt_Groups db) @ new"
    and new: "map without_id new = map without_id (allowed ord caches cands)" by blast
  have "grp_GroupOriginId g = o1" if "g \<in> set new" for g
  proof -
    from that arg_cong [OF new, of set] have "without_id g \<in> without_id ` set (allowed ord caches cands)"
      by (metis image_eqI list.set_map)
    then obtain h where "h \<in> set (allowed ord caches cands)" "without_id g = without_id h" by blast
    then show ?thesis
      using candidates_are(2) [OF c] by (auto simp: allowed_def without_id_def dest: arg_cong [where f = grp_GroupOriginId])
  qed
  with assms(2) have "filter (\<lambda>g. grp_GroupOriginId g = origin) new = []" by (auto simp: filter_empty_conv)
  moreover have "filter (\<lambda>g. grp_GroupOriginId g = origin) (filter (\<lambda>g. grp_GroupOriginId g \<noteq> o1) xs) =
      filter (\<lambda>g. grp_GroupOriginId g = origin) xs" for xs
    using assms(2) by (auto simp: filter_filter intro: filter_cong)
  ultimately show ?thesis by (simp add: groups_of_def db1)
next
  case (Some x)
  with generated(2) [OF assms(1)] show ?thesis by (simp add: groups_of_def)
qed

lemma locked_call:
  assumes "label_call db call = Served db1 r" and "origin \<in> set (lt_Locked db)"
  shows "origin \<in> set (lt_Locked db1) \<and> groups_of origin db1 = groups_of origin db"
proof (cases call)
  case (CallAddCorridor env c)
  with assms AddCorridor_adds_nothing [of env c db] show ?thesis by (auto simp: label_call_def)
next
  case (CallGenerate env ord caches channels o1)
  with assms(1) obtain e where g: "GenerateChannelGroupsByOrigin env ord caches channels o1 db = Some (db1, e)"
    by (auto simp: label_call_def split: option.splits)
  have "groups_of origin db1 = groups_of origin db"
  proof (cases "o1 = origin")
    case True
    with g assms(2) have "db1 = db"
      by (auto simp: GenerateChannelGroupsByOrigin_def queried_def Let_def split: option.splits sum.splits if_splits)
    then show ?thesis by simp
  qed (rule other_kind_kept [OF g])
  with locks_kept(1) [OF g] assms(2) show ?thesis by blast
qed (use assms in \<open>auto simp: label_call_def groups_of_def\<close>)

lemma locked_calls:
  "serves label_call db calls db1 \<Longrightarrow> origin \<in> set (lt_Locked db) \<Longrightarrow>
     origin \<in> set (lt_Locked db1) \<and> groups_of origin db1 = groups_of origin db"
  by (induction rule: serves.induct) (auto dest: locked_call)

text \<open>
  C27: A failed generation leaves the groups as they were.  When the labels could be read it holds no
  lock either.  When it failed because they could not be read, after deleting the groups of its kind, and
  there were some, then its transaction stays open: whatever requests follow until the program ends, the
  groups of that kind stay as they were, and a later generation of that kind never succeeds: it fails
  before its deletion, or waits there for ever.
\<close>

theorem failed_generation_blocks_later:
  assumes "GenerateChannelGroupsByOrigin env ord caches channels origin db = Some (db1, Some e)"
  shows "lt_Groups db1 = lt_Groups db \<and>
    ((\<exists>cands. candidates origin env channels db = Ok cands) \<longrightarrow> lt_Locked db1 = lt_Locked db) \<and>
    (candidates origin env channels db = Inl e \<and> lbe_Fails env DeleteGroups = None \<and> lbe_Fails env BeginTransaction = None \<and>
       lbe_Fails env SelectAllChannels = None \<and> groups_of origin db \<noteq> [] \<longrightarrow>
     (\<forall>calls db2. serves label_call db1 calls db2 \<longrightarrow>
        groups_of origin db2 = groups_of origin db \<and>
        (\<forall>env2 ord2 caches2 channels2.
           GenerateChannelGroupsByOrigin env2 ord2 caches2 channels2 origin db2 =
             (case lbe_Fails env2 SelectAllChannels of
                Some e2 \<Rightarrow> Some (db2, Some (wrapped ''Obtaining channels for channel group generation.'' (wrapped SqlExecutionError e2)))
              | None \<Rightarrow>
                  (case lbe_Fails env2 BeginTransaction of
                     Some e2 \<Rightarrow> Some (db2, Some (wrapped ''Starting SQL transaction.'' e2))
                   | None \<Rightarrow> None)))))"
proof -
  have groups: "lt_Groups db1 = lt_Groups db" using generated(2) [OF assms] by simp
  have locked: "origin \<in> set (lt_Locked db1)" if "candidates origin env channels db = Inl e" "lbe_Fails env DeleteGroups = None"
    "lbe_Fails env BeginTransaction = None" "lbe_Fails env SelectAllChannels = None" "groups_of origin db \<noteq> []"
    using assms that
    by (auto simp: GenerateChannelGroupsByOrigin_def queried_def list_ex_iff groups_of_def filter_empty_conv Let_def split: if_splits)
  have blocked: "GenerateChannelGroupsByOrigin env2 ord2 caches2 channels2 origin db2 =
             (case lbe_Fails env2 SelectAllChannels of
                Some e2 \<Rightarrow> Some (db2, Some (wrapped ''Obtaining channels for channel group generation.'' (wrapped SqlExecutionError e2)))
              | None \<Rightarrow>
                  (case lbe_Fails env2 BeginTransaction of
                     Some e2 \<Rightarrow> Some (db2, Some (wrapped ''Starting SQL transaction.'' e2))
                   | None \<Rightarrow> None))"
    if "origin \<in> set (lt_Locked db2)" for env2 ord2 caches2 channels2 db2
    using that by (simp add: GenerateChannelGroupsByOrigin_def queried_def split: option.splits)
  have mine: "groups_of origin db1 = groups_of origin db" using groups by (simp add: groups_of_def)
  show ?thesis
    by (intro conjI impI allI groups)
      (use locks_kept(2) [OF assms] in blast, use mine locked locked_calls in fastforce, rule blocked, use locked locked_calls in blast)
qed

section \<open>Constraints under all requests\<close>

text \<open>The categories of the system, which a request does not remove.\<close>

definition system_kept :: "LabelTables \<Rightarrow> bool" where
  "system_kept db \<longleftrightarrow> {-6, -5, -4, -3, -2, -1} \<subseteq> cat_CategoryId ` set (lt_Categories db)"

lemma labels_ok_generated:
  assumes "labels_ok db" and "GenerateChannelGroupsByOrigin env ord caches channels origin db = Some (db1, e)"
  shows "labels_ok db1"
proof (rule labels_ok_groups [OF assms(1)])
  fix g assume g: "g \<in> set (lt_Groups db1)"
  show "g \<in> set (lt_Groups db) \<or> known_tag db (grp_TagId g) \<and> known_category db (grp_CategoryId g)"
  proof (cases "e = None \<and> g \<notin> set (lt_Groups db)")
    case True
    with generated(3) [OF assms(2)] g obtain cands new where c: "candidates origin env channels db = Ok cands" "g \<in> set new"
      "map without_id new = map without_id (allowed ord caches cands)" by auto
    then have "without_id g \<in> without_id ` set (allowed ord caches cands)" by (metis image_eqI list.set_map)
    then obtain key h where "(key, h) \<in> set cands" "without_id g = without_id h" by (auto simp: allowed_def)
    with candidates_are [OF c(1)] have "candidate_for channels db key h" "same_place h g"
      using same_place_without_id by blast+
    with assms(1) show ?thesis
      by (cases "grp_GroupOriginId h")
        (auto simp: candidate_for_def group_label_def same_place_def labels_ok_def tags_ok_def known_tag_def known_category_def)
  next
    case False
    with generated(2) [OF assms(2)] g show ?thesis by auto
  qed
qed (use generated(1) [OF assms(2)] in simp_all)

lemma categories_unchanged [simp]:
  "lt_Categories (fst (addTag env t db)) = lt_Categories db" "lt_Categories (fst (setTag env t db)) = lt_Categories db"
  "lt_Categories (fst (removeTag env i db)) = lt_Categories db" "lt_Categories (fst (RemoveCorridor env i db)) = lt_Categories db"
  "lt_Categories (fst (AddCorridor env c db)) = lt_Categories db"
  using AddCorridor_adds_nothing [of env c db]
  by (auto simp: addTag_def setTag_def removeTag_def RemoveCorridor_def Let_def split: option.splits sum.splits)

lemma categories_kept:
  "map cat_CategoryId (lt_Categories (fst (setCategory env c db))) = map cat_CategoryId (lt_Categories db)"
  "set (lt_Categories db) \<subseteq> set (lt_Categories (fst (addCategory env c db)))"
  "x \<in> set (lt_Categories db) \<Longrightarrow> cat_CategoryId x < 0 \<Longrightarrow> x \<in> set (lt_Categories (fst (removeCategory env i db)))"
  by (auto simp: setCategory_def addCategory_def removeCategory_def Let_def split: option.splits sum.splits)

lemma system_kept_call:
  assumes "system_kept db" and "label_call db call = Served db1 r"
  shows "system_kept db1"
proof -
  have "x \<in> cat_CategoryId ` set (lt_Categories db1)" if "x \<in> cat_CategoryId ` set (lt_Categories db)" "x < 0" for x
  proof (cases call)
    case (CallSetCategory env c)
    with assms(2) that(1) arg_cong [OF categories_kept(1) [of env c db], of set] show ?thesis by (auto simp: label_call_def)
  next
    case (CallAddCategory env c)
    with assms(2) that(1) categories_kept(2) [of db env c] show ?thesis by (auto simp: label_call_def)
  next
    case (CallRemoveCategory env i)
    with assms(2) that categories_kept(3) [of _ db env i] show ?thesis by (auto simp: label_call_def)
  next
    case (CallGenerate env ord caches channels origin)
    with assms(2) that(1) show ?thesis by (auto simp: label_call_def dest: generated(1) split: option.splits)
  qed (use assms(2) that(1) in \<open>auto simp: label_call_def\<close>)
  with assms(1) show ?thesis by (auto simp: system_kept_def)
qed

lemma labels_ok_call:
  assumes "labels_ok db" and "label_call db call = Served db1 r"
  shows "labels_ok db1"
  using assms AddCorridor_adds_nothing
  by (cases call)
    (auto simp: label_call_def split: option.splits prod.splits
      intro: labels_ok_addTag [OF _ surjective_pairing] labels_ok_setTag [OF _ surjective_pairing]
        labels_ok_removeTag [OF _ surjective_pairing] labels_ok_addCategory [OF _ surjective_pairing]
        labels_ok_setCategory [OF _ surjective_pairing] labels_ok_removeCategory [OF _ surjective_pairing]
        labels_ok_RemoveCorridor [OF _ surjective_pairing] labels_ok_generated)

lemma labels_ok_initial: "labels_ok initial_labels" "system_kept initial_labels"
  by (simp_all add: initial_labels_def labels_ok_defs system_kept_def system_category_def system_tag_def zeroTag_def zeroCategory_def)

text \<open>
  The label a corridor is a rule for has no foreign key: only the code's own look at the corridors, before
  it removes a label, keeps it.
\<close>

definition rules_ok :: "LabelTables \<Rightarrow> bool" where
  "rules_ok db \<longleftrightarrow> (\<forall>c \<in> set (lt_Corridors db).
     (co_CorridorTypeId c = ct_CorridorTypeId Category \<longrightarrow> known_category db (co_ReferenceId c)) \<and>
     (co_CorridorTypeId c = ct_CorridorTypeId Tag \<longrightarrow> known_tag db (co_ReferenceId c)))"

lemma rules_ok_kept:
  assumes "rules_ok db" and "set (lt_Corridors db1) \<subseteq> set (lt_Corridors db)"
    and "tag_TagId ` set (lt_Tags db) \<subseteq> tag_TagId ` set (lt_Tags db1)"
    and "cat_CategoryId ` set (lt_Categories db) \<subseteq> cat_CategoryId ` set (lt_Categories db1)"
  shows "rules_ok db1"
  using assms(1,2) known_kept(1) [OF assms(3)] known_kept(2) [OF assms(4)] unfolding rules_ok_def by blast

lemma corridors_unchanged [simp]:
  "lt_Corridors (fst (addTag env t db)) = lt_Corridors db" "lt_Corridors (fst (setTag env t db)) = lt_Corridors db"
  "lt_Corridors (fst (removeTag env i db)) = lt_Corridors db" "lt_Corridors (fst (addCategory env c db)) = lt_Corridors db"
  "lt_Corridors (fst (setCategory env c db)) = lt_Corridors db" "lt_Corridors (fst (removeCategory env i db)) = lt_Corridors db"
  by (auto simp: addTag_def setTag_def removeTag_def addCategory_def setCategory_def removeCategory_def Let_def
      split: option.splits sum.splits)

lemma tags_unchanged [simp]:
  "lt_Tags (fst (addCategory env c db)) = lt_Tags db" "lt_Tags (fst (setCategory env c db)) = lt_Tags db"
  "lt_Tags (fst (removeCategory env i db)) = lt_Tags db" "lt_Tags (fst (RemoveCorridor env i db)) = lt_Tags db"
  by (auto simp: addCategory_def setCategory_def removeCategory_def RemoveCorridor_def Let_def split: option.splits sum.splits)

lemma tags_kept:
  "map tag_TagId (lt_Tags (fst (setTag env t db))) = map tag_TagId (lt_Tags db)"
  "set (lt_Tags db) \<subseteq> set (lt_Tags (fst (addTag env t db)))"
  by (auto simp: setTag_def addTag_def Let_def split: option.splits sum.splits)

lemma rules_ok_removeTag: "rules_ok db \<Longrightarrow> rules_ok (fst (removeTag env i db))"
  by (force simp: removeTag_def GetCorridorsReferencingTag_def queried_def rules_ok_def known_tag_def known_category_def
      filter_empty_conv split: option.splits sum.splits if_splits)

lemma rules_ok_removeCategory: "rules_ok db \<Longrightarrow> rules_ok (fst (removeCategory env i db))"
  by (force simp: removeCategory_def GetCorridorsReferencingCategory_def queried_def rules_ok_def known_tag_def known_category_def
      filter_empty_conv split: option.splits sum.splits if_splits)

lemma rules_ok_call:
  assumes "rules_ok db" and "label_call db call = Served db1 r"
  shows "rules_ok db1"
proof (cases call)
  case (CallAddTag env t)
  with assms tags_kept(2) [of db env t] show ?thesis by (intro rules_ok_kept [OF assms(1)]) (auto simp: label_call_def)
next
  case (CallSetTag env t)
  with assms arg_cong [OF tags_kept(1) [of env t db], of set] show ?thesis
    by (intro rules_ok_kept [OF assms(1)]) (auto simp: label_call_def)
next
  case (CallAddCategory env c)
  with assms categories_kept(2) [of db env c] show ?thesis by (intro rules_ok_kept [OF assms(1)]) (auto simp: label_call_def)
next
  case (CallSetCategory env c)
  with assms arg_cong [OF categories_kept(1) [of env c db], of set] show ?thesis
    by (intro rules_ok_kept [OF assms(1)]) (auto simp: label_call_def)
next
  case (CallAddCorridor env c)
  with assms AddCorridor_adds_nothing [of env c db] show ?thesis by (auto simp: label_call_def)
next
  case (CallRemoveCorridor env i)
  with assms show ?thesis
    by (intro rules_ok_kept [OF assms(1)]) (auto simp: label_call_def RemoveCorridor_def split: option.splits)
next
  case (CallGenerate env ord caches channels origin)
  then obtain e where "GenerateChannelGroupsByOrigin env ord caches channels origin db = Some (db1, e)"
    using assms(2) by (auto simp: label_call_def split: option.splits)
  from generated(1) [OF this] show ?thesis by (intro rules_ok_kept [OF assms(1)]) auto
qed (use assms in \<open>auto simp: label_call_def rules_ok_removeTag rules_ok_removeCategory\<close>)

lemma rules_ok_initial [simp]: "rules_ok initial_labels"
  by (simp add: rules_ok_def initial_labels_def)

interpretation label_tables: cache_server label_call initial_labels "\<lambda>db. labels_ok db \<and> rules_ok db \<and> system_kept db"
  by unfold_locales (auto intro: labels_ok_initial labels_ok_call rules_ok_call system_kept_call)

text \<open>A corridor goes only by a request for its id.\<close>

lemma corridor_lost:
  assumes "serves label_call db0 calls db" and "c \<in> set (lt_Corridors db0)" and "c \<notin> set (lt_Corridors db)"
  shows "\<exists>env. CallRemoveCorridor env (co_CorridorId c) \<in> set calls"
  using assms
proof (induction rule: serves.induct)
  case (serves_Cons db call db1 r calls db2)
  show ?case
  proof (cases "c \<in> set (lt_Corridors db1)")
    case True
    with serves_Cons show ?thesis by auto
  next
    case False
    note lost = serves_Cons(1,4) False
    have "\<exists>env. call = CallRemoveCorridor env (co_CorridorId c)"
    proof (cases call)
      case (CallAddCorridor env d)
      with lost AddCorridor_adds_nothing [of env d db] show ?thesis by (auto simp: label_call_def)
    next
      case (CallRemoveCorridor env i)
      with lost show ?thesis by (auto simp: label_call_def RemoveCorridor_def split: option.splits)
    next
      case (CallGenerate env ord caches channels origin)
      with lost show ?thesis by (auto simp: label_call_def dest: generated(1) split: option.splits)
    qed (use lost in \<open>auto simp: label_call_def\<close>)
    then show ?thesis by auto
  qed
qed simp

text \<open>
  C28: In tables with consistent labels, whatever requests follow, the labels keep distinct ids and names;
  each tag, category and rule a tag, a channel group or a corridor refers to exists, the label that a
  corridor allows or forbids too, which no constraint of the tables protects; the categories of the system
  stay; and a corridor goes only when its removal was asked for.
\<close>

theorem label_tables_consistent:
  assumes "serves label_call db0 calls db" and "labels_ok db0" and "rules_ok db0" and "system_kept db0"
  shows "labels_ok db \<and> rules_ok db \<and> system_kept db \<and>
    (\<forall>c \<in> set (lt_Corridors db0). c \<in> set (lt_Corridors db) \<or> (\<exists>env. CallRemoveCorridor env (co_CorridorId c) \<in> set calls))"
  using label_tables.invar_serves [OF assms(1)] assms(2-4) corridor_lost [OF assms(1)] by blast

section \<open>Examples\<close>

definition sample_label_env :: LabelEnv where
  "sample_label_env = \<lparr>lbe_Now = 5, lbe_Fails = (\<lambda>q. None), lbe_ShowCorridors = (\<lambda>cs. []), lbe_ShowTags = (\<lambda>ts. [])\<rparr>"

text \<open>A rule that allows the category \<open>source\<close> for the channel 3 at the node 7.\<close>

definition sample_rule :: Corridor where
  "sample_rule = zeroCorridor\<lparr>co_CorridorId := 1, co_ReferenceId := Some (-1), co_Flag := 1,
     co_FromNodeId := Some 7, co_ChannelId := Some 3\<rparr>"

definition sample_tables :: LabelTables where
  "sample_tables = initial_labels\<lparr>lt_Categories := [system_category (-1) ''source''], lt_Corridors := [sample_rule], lt_Tags := []\<rparr>"

definition sample_channels :: "Channel list" where
  "sample_channels = [zeroChannel\<lparr>ch_ChannelID := 3, ch_FirstNodeId := 7, ch_SecondNodeId := 8\<rparr>]"

lemma sample_refresh:
  "\<exists>caches. RefreshCorridorCacheByTypeId (corridor_rows sample_label_env sample_tables) rev
     (ct_CorridorTypeId (label_type categoryCorridor)) corridorCache = (caches, None)"
  by (simp add: RefreshCorridorCacheByTypeId_def RefreshCorridorCacheByType_def finalizeCorridorCacheByType_def
      getCorridorTypeFromId_def label_type_def corridor_rows_def queried_def sample_label_env_def corridorCache_def
      Category_def Tag_def Let_def)

lemma sample_generation:
  assumes "caches Category \<noteq> None"
  obtains db1 where "GenerateChannelGroupsByOrigin sample_label_env rev caches sample_channels categoryCorridor sample_tables = Some (db1, None)"
proof -
  have "\<exists>b. GetBestCorridorStatus rev caches (corridor_key Category r c n m ch) = Ok b" for r c n m ch
    using assms by (auto simp: GetBestCorridorStatus_def GetBestCorridor_def corridor_key_def)
  then obtain b1 b2 where "GetBestCorridorStatus rev caches (corridor_key Category (-1) None 7 8 3) = Ok b1"
    "GetBestCorridorStatus rev caches (corridor_key Category (-1) None 8 7 3) = Ok b2" by metis
  then show ?thesis
    by (cases b1; cases b2)
      (simp_all add: that GenerateChannelGroupsByOrigin_def queried_def GetCategories_def sample_label_env_def sample_tables_def
        sample_channels_def initial_labels_def system_category_def zeroCategory_def zeroChannel_def category_candidates_def
        insert_group_def conflicts_def Let_def)
qed

definition sample_group :: channelGroup where
  "sample_group = \<lparr>grp_ChannelGroupId = 0, grp_GroupOriginId = categoryCorridor, grp_NodeId = 7, grp_CategoryId = Some (-1),
     grp_TagId = None, grp_ChannelId = 3, grp_CreatedOn = 0\<rparr>"

lemma sample_candidate:
  "candidate_for sample_channels sample_tables (corridor_key Category (-1) None 7 8 3) sample_group"
  "best_rules sample_tables (corridor_key Category (-1) None 7 8 3) = [sample_rule]" "co_Flag sample_rule = 1"
  by (simp_all add: candidate_defs sample_channels_def sample_tables_def sample_group_def zeroChannel_def initial_labels_def
      system_category_def zeroCategory_def best_rules_def corridor_matches_def corridor_key_def zeroKey_def sample_rule_def
      zeroCorridor_def all_priorities field_of_def key_field_def is_set_def Category_def or0_def Let_def)

theorem generated_groups_follow_rules_witness:
  "\<exists>caches db1. GenerateChannelGroupsByOrigin sample_label_env rev caches sample_channels categoryCorridor sample_tables = Some (db1, None)
     \<and> (\<exists>h \<in> set (lt_Groups db1). same_place sample_group h)"
proof -
  obtain caches where r: "RefreshCorridorCacheByTypeId (corridor_rows sample_label_env sample_tables) rev
     (ct_CorridorTypeId (label_type categoryCorridor)) corridorCache = (caches, None)" using sample_refresh by blast
  have "getCorridorTypeFromId 0 = Some Category" "ct_CorridorTypeId (label_type categoryCorridor) = 0"
    by (simp_all add: getCorridorTypeFromId_def label_type_def Category_def)
  moreover have s: "lbe_Fails sample_label_env SelectCorridors = None" by (simp add: sample_label_env_def)
  ultimately have "caches Category \<noteq> None"
    using refresh_caches [OF _ _ r] by (simp add: corridor_rows_def queried_def)
  then obtain db1 where g: "GenerateChannelGroupsByOrigin sample_label_env rev caches sample_channels categoryCorridor sample_tables = Some (db1, None)"
    by (rule sample_generation)
  have ids: "\<forall>t \<in> set (lt_Tags sample_tables). tag_TagId t \<noteq> 0" "\<forall>c \<in> set (lt_Categories sample_tables). cat_CategoryId c \<noteq> 0"
    by (simp_all add: sample_tables_def system_category_def)
  have "grp_GroupOriginId sample_group = categoryCorridor" by (simp add: sample_group_def)
  with generated_groups_follow_rules [OF g r s range_order_id(2) range_order_id(2) ids] sample_candidate
  have "\<exists>h \<in> set (lt_Groups db1). same_place sample_group h" by (metis list.distinct(1) list.set_intros(1) set_ConsD empty_iff list.set(1))
  with g show ?thesis by blast
qed

theorem failed_generation_blocks_later_witness:
  "\<exists>db1 e db2. GenerateChannelGroupsByOrigin (sample_label_env\<lparr>lbe_Fails := [SelectCategories \<mapsto> Error ''down'']\<rparr>) rev corridorCache [] categoryCorridor
       (sample_tables\<lparr>lt_Groups := [sample_group]\<rparr>) = Some (db1, Some e) \<and>
     serves label_call db1 [CallAddTag sample_label_env (zeroTag\<lparr>tag_Name := ''a''\<rparr>)] db2 \<and>
     groups_of categoryCorridor db2 = [sample_group] \<and>
     GenerateChannelGroupsByOrigin sample_label_env rev corridorCache [] categoryCorridor db2 = None"
proof -
  let ?env = "sample_label_env\<lparr>lbe_Fails := [SelectCategories \<mapsto> Error ''down'']\<rparr>"
  let ?db = "sample_tables\<lparr>lt_Groups := [sample_group]\<rparr>"
  have c: "candidates categoryCorridor ?env [] ?db = Inl (wrapped ''Obtaining categories for channel group generation.''
      (wrapped SqlExecutionError (Error ''down'')))" (is "_ = Inl ?e")
    by (simp add: GetCategories_def queried_def)
  then obtain db1 where g: "GenerateChannelGroupsByOrigin ?env rev corridorCache [] categoryCorridor ?db = Some (db1, Some ?e)"
    by (simp add: GenerateChannelGroupsByOrigin_def queried_def sample_tables_def initial_labels_def Let_def)
  obtain db2 where s: "serves label_call db1 [CallAddTag sample_label_env (zeroTag\<lparr>tag_Name := ''a''\<rparr>)] db2"
    by (simp add: label_call_def)
  have h: "lbe_Fails ?env DeleteGroups = None" "lbe_Fails ?env BeginTransaction = None" "lbe_Fails ?env SelectAllChannels = None"
    "groups_of categoryCorridor ?db = [sample_group]"
    by (simp_all add: sample_label_env_def sample_group_def groups_of_def)
  then have "groups_of categoryCorridor ?db \<noteq> []" by simp
  with failed_generation_blocks_later [OF g] c h(1-3) s
  have all: "groups_of categoryCorridor db2 = groups_of categoryCorridor ?db \<and>
     (\<forall>env2 ord2 caches2 channels2. GenerateChannelGroupsByOrigin env2 ord2 caches2 channels2 categoryCorridor db2 =
       (case lbe_Fails env2 SelectAllChannels of
                Some e2 \<Rightarrow> Some (db2, Some (wrapped ''Obtaining channels for channel group generation.'' (wrapped SqlExecutionError e2)))
              | None \<Rightarrow>
                  (case lbe_Fails env2 BeginTransaction of
                     Some e2 \<Rightarrow> Some (db2, Some (wrapped ''Starting SQL transaction.'' e2))
                   | None \<Rightarrow> None)))" by meson
  have "lbe_Fails sample_label_env SelectAllChannels = None" "lbe_Fails sample_label_env BeginTransaction = None"
    by (simp_all add: sample_label_env_def)
  with all have "GenerateChannelGroupsByOrigin sample_label_env rev corridorCache [] categoryCorridor db2 = None" by simp
  with all g s h(4) show ?thesis by metis
qed

lemma cached_groups_never_change_witness:
  "\<exists>cache1 gs. getChannelGroupsByChannelId sample_label_env (sample_tables\<lparr>lt_Groups := [sample_group]\<rparr>) 3 CATEGORIES_ONLY Map.empty = Some (cache1, Ok gs) \<and>
     length gs = 1 \<and> getChannelGroupsByChannelId sample_label_env sample_tables 3 CATEGORIES_ONLY cache1 = Some (cache1, Ok gs)"
proof -
  obtain cache1 gs where g: "getChannelGroupsByChannelId sample_label_env (sample_tables\<lparr>lt_Groups := [sample_group]\<rparr>) 3 CATEGORIES_ONLY Map.empty = Some (cache1, Ok gs)"
    "length gs = 1"
    by (simp add: getChannelGroupsByChannelId_def GetChannelGroupsByChannelId_def SetChannelGroupsByChannelId_def
        processManagedChannelGroupSettings_def queried_def send_def sample_label_env_def stored_channel_groups_def sample_group_def
        joined_group_def sample_tables_def system_category_def included_groups_def categories_only_def Let_def)
  from cached_groups_never_change [OF g(1)] g show ?thesis by metis
qed

text \<open>The rule for the tag 1 keeps the tag until the rule is removed.\<close>

definition ruled_tables :: LabelTables where
  "ruled_tables = initial_labels\<lparr>lt_Tags := [zeroTag\<lparr>tag_TagId := 1, tag_Name := ''a''\<rparr>], lt_nextTag := 2,
     lt_Corridors := [sample_rule\<lparr>co_CorridorTypeId := 1, co_ReferenceId := Some 1\<rparr>]\<rparr>"

lemma ruled_tables_ok: "labels_ok ruled_tables" "rules_ok ruled_tables" "system_kept ruled_tables"
  by (simp_all add: ruled_tables_def initial_labels_def labels_ok_defs rules_ok_def system_kept_def system_category_def zeroTag_def
      zeroCategory_def sample_rule_def zeroCorridor_def Category_def Tag_def)

theorem label_tables_consistent_witness:
  "\<exists>db. serves label_call ruled_tables [CallRemoveTag sample_label_env 1, CallRemoveCategory sample_label_env (-1),
       CallAddTag sample_label_env (zeroTag\<lparr>tag_Name := ''a''\<rparr>)] db \<and>
     map tag_TagId (lt_Tags db) = [1] \<and> length (lt_Corridors db) = 1 \<and> rules_ok db \<and> labels_ok db \<and> system_kept db"
proof -
  let ?calls = "[CallRemoveTag sample_label_env 1, CallRemoveCategory sample_label_env (-1),
       CallAddTag sample_label_env (zeroTag\<lparr>tag_Name := ''a''\<rparr>)]"
  obtain db where s: "serves label_call ruled_tables ?calls db" "map tag_TagId (lt_Tags db) = [1]" "length (lt_Corridors db) = 1"
    by (simp add: label_call_def addTag_def removeCategory_def removeTag_def GetCorridorsReferencingTag_def queried_def
        sample_label_env_def ruled_tables_def initial_labels_def zeroTag_def sample_rule_def zeroCorridor_def Tag_def Let_def)
  note ok = label_tables_consistent [OF s(1) ruled_tables_ok]
  show ?thesis by (rule exI [of _ db], intro conjI) (use s ok in simp_all)
qed

end
