(* ===== verification/NodeSubscription.thy ===== *)
theory NodeSubscription
  imports LndGraph
begin

text \<open>
  The subscription of one node, \<open>src/cmd/torq/internal/subscribe/server.go\<close>: a goroutine that serves
  import requests, at most one of a kind in 70 seconds; \<open>Start\<close>, which imports, starts ten streams
  one after the other and waits for each to become active; and the goroutine of a stream, which starts
  again after a first panic.  The imports are those of \<open>LndChannelEvents\<close> and \<open>LndGraph\<close>.  What the
  registry of services shows at each check is a parameter of the wait.  The theorems say that the wait
  ends once a stream stops to report its initialization, which imports a run makes, and that no stream
  starts before both imports succeeded.
\<close>

section \<open>Imports on request\<close>

text \<open>What LND answers during one import, and the time at its end.\<close>

record ImportAnswers =
  ia_Env :: GraphEnv
  ia_Open :: "LndListedChannel list result"
  ia_Closed :: "LndCloseSummary list result"
  ia_HashFromStr :: "string \<Rightarrow> bytes result"
  ia_Listed :: "LndListedChannel list result"
  ia_Edge :: "uint64 \<Rightarrow> LndChannelEdge option answered"
  ia_NodeInfo :: "string \<Rightarrow> LndNodeInfo option answered"
  ia_Finished :: time

definition refill_channel_cache :: "LndEnv \<Rightarrow> unit step" where
  "refill_channel_cache env w =
     (case InitializeManagedChannelCache (le_ChannelFails env) (le_ChannelOrds env) (le_RowOrd env) (lw_Channels w) of
        Served cw (Some e) \<Rightarrow> Some (w\<lparr>lw_Channels := cw\<rparr>, case e of None \<Rightarrow> Ok () | Some e \<Rightarrow> Inl e)
      | _ \<Rightarrow> None)"

fun run_import :: "ImportType \<Rightarrow> ImportAnswers \<Rightarrow> ManagedNodeSettings \<Rightarrow> (GraphWorld, unit) process" where
  "run_import ImportChannelAndRoutingPolicies a nodeSettings =
     (let env = ia_Env a; lnd = gv_Lnd env in
      and_then (on_lnd (ImportChannelList lnd OPEN_CHANNEL (ia_Open a) (ia_Closed a) nodeSettings))
      (\<lambda>_. and_then (on_lnd (ImportChannelList lnd CLOSED_CHANNEL (ia_Open a) (ia_Closed a) nodeSettings))
      (\<lambda>_. and_then (on_lnd (refill_channel_cache lnd))
      (\<lambda>_. ImportRoutingPolicies env (ia_HashFromStr a) (ia_Listed a) (ia_Edge a) nodeSettings))))"
| "run_import ImportNodeInformation a nodeSettings = ImportNodeInfo (ia_Env a) (ia_NodeInfo a) nodeSettings"

definition AVOID_CHANNEL_AND_POLICY_IMPORT_RERUN_TIME_SECONDS :: int where
  "AVOID_CHANNEL_AND_POLICY_IMPORT_RERUN_TIME_SECONDS = 70"

text \<open>
  The goroutine: the times of the last successes, and whether it still serves.  \<open>il_Imports\<close> is no variable
  of the code: it records the imports that were run, each with its kind, its start, and its end when it
  succeeded.
\<close>

record ImportLoop =
  il_SuccessTimes :: "ImportType \<rightharpoonup> time"
  il_Serving :: bool
  il_World :: GraphWorld
  il_Imports :: "(ImportType \<times> time \<times> time option) list"

definition recently :: "time \<Rightarrow> ImportType \<Rightarrow> ImportLoop \<Rightarrow> bool" where
  "recently now ty l \<longleftrightarrow>
     (case il_SuccessTimes l ty of
        None \<Rightarrow> False
      | Some t \<Rightarrow> now - t < AVOID_CHANNEL_AND_POLICY_IMPORT_RERUN_TIME_SECONDS * second)"

text \<open>
  One request: its answer is nil or the error of the import.  A panic ends the program; a cache that
  does not answer blocks.
\<close>

definition import_request ::
    "ManagedNodeSettings \<Rightarrow> time \<Rightarrow> ImportType \<Rightarrow> ImportAnswers \<Rightarrow> ImportLoop \<Rightarrow> (ImportLoop, go_error option) outcome" where
  "import_request nodeSettings now ty a l =
     (if \<not> il_Serving l then Blocked
      else if recently now ty l then Served l (Some None)
      else case run_import ty a nodeSettings (il_World l) of
             None \<Rightarrow> Blocked
           | Some (w, Inl (Panic p)) \<Rightarrow> Crashed p
           | Some (w, Inl (Error e)) \<Rightarrow>
               Served (l\<lparr>il_World := w, il_Imports := il_Imports l @ [(ty, now, None)]\<rparr>) (Some (Some (Error e)))
           | Some (w, Inr u) \<Rightarrow>
               Served (l\<lparr>il_World := w, il_SuccessTimes := (il_SuccessTimes l)(ty \<mapsto> ia_Finished a),
                         il_Imports := il_Imports l @ [(ty, now, Some (ia_Finished a))]\<rparr>) (Some None))"

text \<open>The goroutine leaves when it sees that the context is done, between two requests.\<close>

datatype ImportAction = ImportAsked time ImportType ImportAnswers | ContextDone

definition import_action ::
    "ManagedNodeSettings \<Rightarrow> ImportLoop \<Rightarrow> ImportAction \<Rightarrow> (ImportLoop, go_error option) outcome" where
  "import_action nodeSettings l action =
     (case action of
        ImportAsked now ty a \<Rightarrow> import_request nodeSettings now ty a l
      | ContextDone \<Rightarrow> if il_Serving l then Served (l\<lparr>il_Serving := False\<rparr>) None else Blocked)"

section \<open>Waiting for a stream\<close>

definition GENERIC_BOOTSTRAPPING_TIME_SECONDS :: int where
  "GENERIC_BOOTSTRAPPING_TIME_SECONDS = 60"

definition STREAM_BOOTED_CHECK_SECONDS :: int where
  "STREAM_BOOTED_CHECK_SECONDS = 5"

fun ping_timeout :: "SubscriptionStream \<Rightarrow> int" where
  "ping_timeout ForwardStream = GENERIC_BOOTSTRAPPING_TIME_SECONDS + 10"
| "ping_timeout PaymentStream = GENERIC_BOOTSTRAPPING_TIME_SECONDS + 10"
| "ping_timeout InFlightPaymentStream = GENERIC_BOOTSTRAPPING_TIME_SECONDS + 60"
| "ping_timeout _ = GENERIC_BOOTSTRAPPING_TIME_SECONDS"

text \<open>
  How the wait ended: the stream is active, nothing was heard of it, or its initialization went idle
  and it is declared active.  \<open>StillWaiting\<close> is a wait that goes on after the given checks.
\<close>

datatype wait_end = StreamReady | StreamSilent | StreamIdle | StillWaiting

text \<open>A check: the time, and the registry of the LND service at that time.\<close>

type_synonym check = "time \<times> Services"

fun wait_checks :: "int \<Rightarrow> SubscriptionStream \<Rightarrow> time \<Rightarrow> check list \<Rightarrow> wait_end" where
  "wait_checks nodeId stream streamStartTime [] = StillWaiting"
| "wait_checks nodeId stream streamStartTime ((now, rs) # checks) =
     (if snd (GetStreamStatus nodeId stream rs) = Active then StreamReady
      else if now - streamStartTime > GENERIC_BOOTSTRAPPING_TIME_SECONDS * second
      then (case snd (GetStreamInitializationPingTime nodeId stream rs) of
              None \<Rightarrow> StreamSilent
            | Some lastPing \<Rightarrow>
                if now - lastPing > ping_timeout stream * second then StreamIdle
                else wait_checks nodeId stream streamStartTime checks)
      else wait_checks nodeId stream streamStartTime checks)"

text \<open>An idle stream is announced to be active.\<close>

definition waitForReadyState ::
    "int \<Rightarrow> SubscriptionStream \<Rightarrow> bool \<Rightarrow> time \<Rightarrow> check list \<Rightarrow> wait_end \<times> unit emitted list" where
  "waitForReadyState nodeId stream eventChannel streamStartTime checks =
     (let r = wait_checks nodeId stream streamStartTime checks
      in (r, if r = StreamIdle then send_status eventChannel Active Initializing else []))"

section \<open>Start\<close>

text \<open>
  The goroutine of a stream: the deferred function runs the subscription once more after a panic, and
  nothing recovers from a panic of that run.
\<close>

datatype 'w run_end = Returns 'w | PanicsWith 'w string

definition stream_goroutine :: "('w \<Rightarrow> 'w run_end) \<Rightarrow> 'w \<Rightarrow> ('w, unit) outcome" where
  "stream_goroutine run w =
     (case run w of
        Returns w1 \<Rightarrow> Served w1 None
      | PanicsWith w1 p \<Rightarrow>
          (case run w1 of
             Returns w2 \<Rightarrow> Served w2 None
           | PanicsWith w2 q \<Rightarrow> Crashed q))"

datatype StartStep =
    AskImport ImportType
  | StartStream SubscriptionStream
  | AwaitStream SubscriptionStream
  | AwaitAll

definition start_steps :: "StartStep list" where
  "start_steps =
     [AskImport ImportChannelAndRoutingPolicies, AskImport ImportNodeInformation,
      StartStream ChannelEventStream, AwaitStream ChannelEventStream,
      StartStream GraphEventStream, AwaitStream GraphEventStream,
      StartStream HtlcEventStream, AwaitStream HtlcEventStream,
      StartStream PeerEventStream, AwaitStream PeerEventStream,
      StartStream ChannelBalanceCacheStream,
      StartStream TransactionStream, AwaitStream TransactionStream,
      StartStream ForwardStream, AwaitStream ForwardStream,
      StartStream PaymentStream, AwaitStream PaymentStream,
      StartStream InvoiceStream, AwaitStream InvoiceStream,
      StartStream InFlightPaymentStream, AwaitStream InFlightPaymentStream,
      AwaitAll]"

text \<open>
  What the program does around one start: when each import is asked for and what it gets, whether the
  import goroutine left before it, the checks of each wait, and whether all streams end in the end.
\<close>

record StartEnv =
  se_Asked :: "ImportType \<Rightarrow> time"
  se_Answers :: "ImportType \<Rightarrow> ImportAnswers"
  se_ContextDone :: "ImportType \<Rightarrow> bool"
  se_StreamStart :: "SubscriptionStream \<Rightarrow> time"
  se_Checks :: "SubscriptionStream \<Rightarrow> check list"
  se_StreamsEnd :: bool

record NodeRun =
  nr_Imports :: ImportLoop
  nr_Started :: "SubscriptionStream list"
  nr_Waits :: "(SubscriptionStream \<times> wait_end) list"

text \<open>
  Blocked is a start that never returns: nobody serves its import request, a wait does not end within
  the given checks, or a stream never ends.
\<close>

fun start_run :: "ManagedNodeSettings \<Rightarrow> StartEnv \<Rightarrow> StartStep list \<Rightarrow> NodeRun \<Rightarrow> (NodeRun, go_error option) outcome" where
  "start_run nodeSettings env [] r = Served r (Some None)"
| "start_run nodeSettings env (AskImport ty # steps) r =
     (let l = (nr_Imports r)\<lparr>il_Serving := il_Serving (nr_Imports r) \<and> \<not> se_ContextDone env ty\<rparr> in
      case import_request nodeSettings (se_Asked env ty) ty (se_Answers env ty) l of
        Served l1 (Some (Some e)) \<Rightarrow> Served (r\<lparr>nr_Imports := l1\<rparr>) (Some (Some e))
      | Served l1 _ \<Rightarrow> start_run nodeSettings env steps (r\<lparr>nr_Imports := l1\<rparr>)
      | Blocked \<Rightarrow> Blocked
      | Crashed p \<Rightarrow> Crashed p)"
| "start_run nodeSettings env (StartStream s # steps) r =
     start_run nodeSettings env steps (r\<lparr>nr_Started := nr_Started r @ [s]\<rparr>)"
| "start_run nodeSettings env (AwaitStream s # steps) r =
     (let e = fst (waitForReadyState (mns_NodeId nodeSettings) s True (se_StreamStart env s) (se_Checks env s))
      in if e = StillWaiting then Blocked
         else start_run nodeSettings env steps (r\<lparr>nr_Waits := nr_Waits r @ [(s, e)]\<rparr>))"
| "start_run nodeSettings env (AwaitAll # steps) r =
     (if se_StreamsEnd env then start_run nodeSettings env steps r else Blocked)"

definition Start :: "ManagedNodeSettings \<Rightarrow> StartEnv \<Rightarrow> GraphWorld \<Rightarrow> (NodeRun, go_error option) outcome" where
  "Start nodeSettings env w =
     start_run nodeSettings env start_steps
       \<lparr>nr_Imports = \<lparr>il_SuccessTimes = Map.empty, il_Serving = True, il_World = w, il_Imports = []\<rparr>, nr_Started = [], nr_Waits = []\<rparr>"

section \<open>The wait ends\<close>

lemma ping_timeout_bootstrap: "GENERIC_BOOTSTRAPPING_TIME_SECONDS \<le> ping_timeout stream"
  by (cases stream) simp_all

lemma wait_ends_at:
  assumes "(now, rs) \<in> set checks" and "now - start > GENERIC_BOOTSTRAPPING_TIME_SECONDS * second"
    and "\<And>p. snd (GetStreamInitializationPingTime n stream rs) = Some p \<Longrightarrow> now - p > ping_timeout stream * second"
  shows "wait_checks n stream start checks \<noteq> StillWaiting"
  using assms(1)
proof (induction checks)
  case (Cons c checks)
  obtain t rs1 where "c = (t, rs1)" by (cases c)
  with Cons assms(2,3) show ?case by (auto split: option.splits)
qed simp

lemma first_late:
  fixes g :: "nat \<Rightarrow> int"
  assumes "\<And>k. g k + d \<le> g (Suc k)" and "0 < d"
  obtains k where "x < g k" and "\<And>j. j < k \<Longrightarrow> g j \<le> x"
proof -
  have grows: "g 0 + int k * d \<le> g k" for k
  proof (induction k)
    case (Suc k)
    with assms(1) [of k] show ?case by (simp add: algebra_simps)
  qed simp
  have "int (nat (x - g 0 + 1)) * 1 \<le> int (nat (x - g 0 + 1)) * d"
    using assms(2) by (intro mult_left_mono) auto
  with grows [of "nat (x - g 0 + 1)"] have "x < g (nat (x - g 0 + 1))" by linarith
  then show ?thesis using that [of "LEAST k. x < g k"] by (metis LeastI not_less_Least not_less)
qed

lemma wait_ends_after:
  fixes f :: "nat \<Rightarrow> check"
  assumes "\<And>k p. snd (GetStreamInitializationPingTime n stream (snd (f k))) = Some p \<Longrightarrow> p \<le> lastPing"
    and "start \<le> lastPing" and late: "lastPing + ping_timeout stream * second < fst (f k)"
  shows "wait_checks n stream start (map f [0..<Suc k]) \<noteq> StillWaiting"
proof (rule wait_ends_at)
  have t: "GENERIC_BOOTSTRAPPING_TIME_SECONDS * second \<le> ping_timeout stream * second"
    using ping_timeout_bootstrap [of stream] by (simp add: second_def)
  show "(fst (f k), snd (f k)) \<in> set (map f [0..<Suc k])" by simp
  show "GENERIC_BOOTSTRAPPING_TIME_SECONDS * second < fst (f k) - start" using late t assms(2) by linarith
  show "ping_timeout stream * second < fst (f k) - p"
    if "snd (GetStreamInitializationPingTime n stream (snd (f k))) = Some p" for p
    using assms(1) [OF that] late by linarith
qed

lemma unheard: "snd (GetStreamInitializationPingTime n stream (emptyServices ty)) = None"
  by (simp add: GetStreamInitializationPingTime_def initServiceMaps_def emptyServices_def ensure_def)

lemma unstarted: "snd (GetStreamStatus n stream (emptyServices ty)) = Inactive"
  by (simp add: GetStreamStatus_def initServiceMaps_def emptyServices_def)

text \<open>
  C29: The wait for a stream ends in bounded time.  When the checks come five seconds apart, each at most
  \<open>d\<close> late, and the last sign of the stream's initialization is from the time \<open>lastPing\<close> (the start
  of the stream, when there was none), then a check at most \<open>d\<close> and five seconds after the stream's
  timeout for that sign ends it.
\<close>

theorem waiting_for_a_stream_ends:
  fixes f :: "nat \<Rightarrow> check"
  assumes "start + second \<le> fst (f 0)" and "fst (f 0) \<le> start + second + d"
    and "\<And>k. fst (f k) + STREAM_BOOTED_CHECK_SECONDS * second \<le> fst (f (Suc k))"
    and "\<And>k. fst (f (Suc k)) \<le> fst (f k) + STREAM_BOOTED_CHECK_SECONDS * second + d"
    and "\<And>k p. snd (GetStreamInitializationPingTime n stream (snd (f k))) = Some p \<Longrightarrow> p \<le> lastPing"
    and "start \<le> lastPing"
  shows "\<exists>k. wait_checks n stream start (map f [0..<Suc k]) \<noteq> StillWaiting \<and>
     fst (f k) \<le> lastPing + ping_timeout stream * second + 5 * second + d"
proof -
  have "0 < STREAM_BOOTED_CHECK_SECONDS * second" by (simp add: second_def STREAM_BOOTED_CHECK_SECONDS_def)
  with first_late [of "\<lambda>k. fst (f k)"] assms(3) obtain k where k: "lastPing + ping_timeout stream * second < fst (f k)"
    "\<And>j. j < k \<Longrightarrow> fst (f j) \<le> lastPing + ping_timeout stream * second" by metis
  have "fst (f k) \<le> lastPing + ping_timeout stream * second + 5 * second + d"
  proof (cases k)
    case 0
    have "0 \<le> ping_timeout stream * second" by (cases stream) (simp_all add: second_def GENERIC_BOOTSTRAPPING_TIME_SECONDS_def)
    with 0 assms(2,6) show ?thesis by (simp add: second_def)
  next
    case (Suc j)
    with k(2) [of j] assms(4) [of j] show ?thesis by (simp add: STREAM_BOOTED_CHECK_SECONDS_def)
  qed
  moreover have "wait_checks n stream start (map f [0..<Suc k]) \<noteq> StillWaiting"
    by (rule wait_ends_after [where f = f and lastPing = lastPing]) (use assms(5,6) k(1) in auto)
  ultimately show ?thesis by blast
qed

theorem waiting_for_a_stream_ends_witness:
  "\<exists>k. wait_checks 3 PaymentStream 0 (map (\<lambda>k. (second + int k * (5 * second), emptyServices LndService)) [0..<Suc k]) \<noteq> StillWaiting \<and>
     second + int k * (5 * second) \<le> 75 * second"
  using waiting_for_a_stream_ends
    [of 0 "\<lambda>k. (second + int k * (5 * second), emptyServices LndService)" 0 3 PaymentStream 0]
  by (simp add: unheard STREAM_BOOTED_CHECK_SECONDS_def GENERIC_BOOTSTRAPPING_TIME_SECONDS_def second_def algebra_simps)

text \<open>
  Nothing ends the wait in its first minute but the stream, so that a start of a service that was
  killed takes a minute for each stream that is left.
\<close>

lemma no_early_end:
  assumes "\<forall>(now, rs) \<in> set checks. now - start \<le> GENERIC_BOOTSTRAPPING_TIME_SECONDS * second \<and>
     snd (GetStreamStatus n stream rs) \<noteq> Active"
  shows "wait_checks n stream start checks = StillWaiting"
  using assms by (induction checks) auto

section \<open>Which imports are made\<close>

text \<open>Requests come one after the other: none before the end of an import that came first.\<close>

fun in_order :: "ImportAction list \<Rightarrow> bool" where
  "in_order [] = True"
| "in_order (ImportAsked now ty a # actions) =
     (now \<le> ia_Finished a \<and> (\<forall>now2 ty2 a2. ImportAsked now2 ty2 a2 \<in> set actions \<longrightarrow> ia_Finished a \<le> now2) \<and> in_order actions)"
| "in_order (ContextDone # actions) = in_order actions"

text \<open>Of two imports of a kind, the later starts 70 seconds after the end of the earlier, if that succeeded.\<close>

definition well_apart :: "ImportType \<times> time \<times> time option \<Rightarrow> ImportType \<times> time \<times> time option \<Rightarrow> bool" where
  "well_apart x y \<longleftrightarrow> (case (x, y) of ((ty1, start1, end1), (ty2, start2, end2)) \<Rightarrow>
     ty1 = ty2 \<longrightarrow> (\<forall>e. end1 = Some e \<longrightarrow> e + 70 * second \<le> start2))"

text \<open>What the goroutine remembers is the last success of each kind.\<close>

definition remembers :: "ImportLoop \<Rightarrow> bool" where
  "remembers l \<longleftrightarrow>
     (\<forall>ty start e. (ty, start, Some e) \<in> set (il_Imports l) \<longrightarrow> (\<exists>t. il_SuccessTimes l ty = Some t \<and> e \<le> t)) \<and>
     (\<forall>ty t. il_SuccessTimes l ty = Some t \<longrightarrow> (\<exists>start. (ty, start, Some t) \<in> set (il_Imports l)))"

definition before_all :: "ImportLoop \<Rightarrow> ImportAction list \<Rightarrow> bool" where
  "before_all l actions \<longleftrightarrow>
     (\<forall>ty t now ty2 a. il_SuccessTimes l ty = Some t \<and> ImportAsked now ty2 a \<in> set actions \<longrightarrow> t \<le> now)"

lemma import_request_outcome:
  assumes "import_request nodeSettings now ty a l = Served l1 r"
  obtains "recently now ty l" and "l1 = l"
  | "\<not> recently now ty l" and "il_Imports l1 = il_Imports l @ [(ty, now, None)]" and "il_SuccessTimes l1 = il_SuccessTimes l"
  | "\<not> recently now ty l" and "il_Imports l1 = il_Imports l @ [(ty, now, Some (ia_Finished a))]"
    and "il_SuccessTimes l1 = (il_SuccessTimes l)(ty \<mapsto> ia_Finished a)"
  using assms by (auto simp: import_request_def split: if_splits option.splits sum.splits go_error.splits)

lemma not_recently_apart:
  assumes "remembers l" and "\<not> recently now ty l" and "x \<in> set (il_Imports l)"
  shows "well_apart x (ty, now, e)"
proof -
  obtain ty1 start1 end1 where x: "x = (ty1, start1, end1)" by (cases x)
  have "e1 + 70 * second \<le> now" if "ty1 = ty" "end1 = Some e1" for e1
  proof -
    from assms(1,3) x that obtain t where "il_SuccessTimes l ty = Some t" "e1 \<le> t" unfolding remembers_def by blast
    with assms(2) show ?thesis by (simp add: recently_def AVOID_CHANNEL_AND_POLICY_IMPORT_RERUN_TIME_SECONDS_def)
  qed
  with x show ?thesis by (simp add: well_apart_def)
qed

definition import_invariant :: "ImportLoop \<Rightarrow> ImportAction list \<Rightarrow> bool" where
  "import_invariant l actions \<longleftrightarrow> sorted_wrt well_apart (il_Imports l) \<and> remembers l \<and> before_all l actions \<and> in_order actions"

lemma import_action_invariant:
  assumes "import_action nodeSettings l action = Served l1 r" and "import_invariant l (action # actions)"
  shows "import_invariant l1 actions" and "set (il_Imports l) \<subseteq> set (il_Imports l1)"
    and "action = ImportAsked now ty a \<Longrightarrow> (\<exists>e. (ty, now, e) \<in> set (il_Imports l1)) \<or>
      (\<exists>start e. (ty, start, Some e) \<in> set (il_Imports l1) \<and> e \<le> now \<and> now < e + 70 * second)"
proof -
  note inv = assms(2) [unfolded import_invariant_def]
  have known: "t \<le> now" if "il_SuccessTimes l ty = Some t" "ImportAsked now ty2 a \<in> set (action # actions)" for ty t now ty2 a
    using inv that unfolding before_all_def by blast
  have "import_invariant l1 actions \<and> set (il_Imports l) \<subseteq> set (il_Imports l1) \<and>
    (\<forall>now ty a. action = ImportAsked now ty a \<longrightarrow> (\<exists>e. (ty, now, e) \<in> set (il_Imports l1)) \<or>
      (\<exists>start e. (ty, start, Some e) \<in> set (il_Imports l1) \<and> e \<le> now \<and> now < e + 70 * second))"
  proof (cases action)
    case ContextDone
    have "before_all l actions" unfolding before_all_def using known by (meson list.set_intros(2))
    moreover have "in_order actions" using inv ContextDone by simp
    moreover from assms(1) ContextDone have "il_Imports l1 = il_Imports l" "il_SuccessTimes l1 = il_SuccessTimes l"
      by (auto simp: import_action_def split: if_splits)
    ultimately show ?thesis using inv ContextDone by (simp add: import_invariant_def remembers_def before_all_def)
  next
    case (ImportAsked now ty a)
    have before: "t \<le> now" if "il_SuccessTimes l ty2 = Some t" for ty2 t
      using known [OF that, where ?ty2.0 = ty and a = a] by (simp add: ImportAsked)
    have "before_all l actions" unfolding before_all_def using known by (meson list.set_intros(2))
    moreover have "in_order actions" "now \<le> ia_Finished a"
      "\<And>now2 ty2 a2. ImportAsked now2 ty2 a2 \<in> set actions \<Longrightarrow> ia_Finished a \<le> now2"
      using inv ImportAsked by auto
    ultimately have later: "before_all l actions" "in_order actions" "now \<le> ia_Finished a"
      "\<And>now2 ty2 a2. ImportAsked now2 ty2 a2 \<in> set actions \<Longrightarrow> ia_Finished a \<le> now2" by blast+
    from assms(1) ImportAsked have "import_request nodeSettings now ty a l = Served l1 r" by (simp add: import_action_def)
    then show ?thesis
    proof (cases rule: import_request_outcome)
      case 1
      then obtain t where t: "il_SuccessTimes l ty = Some t" "now < t + 70 * second"
        by (auto simp: recently_def AVOID_CHANNEL_AND_POLICY_IMPORT_RERUN_TIME_SECONDS_def split: option.splits)
      with inv obtain start where "(ty, start, Some t) \<in> set (il_Imports l)" unfolding remembers_def by blast
      with t before [OF t(1)] 1 inv later ImportAsked show ?thesis by (auto simp: import_invariant_def)
    next
      case 2
      have "remembers l1" using inv 2 by (auto simp: remembers_def)
      moreover have "before_all l1 actions" using later(1) 2 by (simp add: before_all_def)
      ultimately show ?thesis
        using 2 inv later(2) not_recently_apart [of l now ty] ImportAsked
        by (auto simp: import_invariant_def sorted_wrt_append)
    next
      case 3
      have "remembers l1" using inv 3 before later(3) by (fastforce simp: remembers_def)
      moreover have "before_all l1 actions"
        unfolding before_all_def 3(3)
      proof (intro allI impI, elim conjE)
        fix ty1 t now1 ty2 b
        assume t: "((il_SuccessTimes l)(ty \<mapsto> ia_Finished a)) ty1 = Some t" and asked: "ImportAsked now1 ty2 b \<in> set actions"
        show "t \<le> now1" using t later(4) [OF asked] known [of ty1 t now1 ty2 b] asked by (cases "ty1 = ty") simp_all
      qed
      ultimately show ?thesis
        using 3 inv later(2) not_recently_apart [of l now ty] ImportAsked
        by (auto simp: import_invariant_def sorted_wrt_append)
    qed
  qed
  then show "import_invariant l1 actions" "set (il_Imports l) \<subseteq> set (il_Imports l1)"
    "action = ImportAsked now ty a \<Longrightarrow> (\<exists>e. (ty, now, e) \<in> set (il_Imports l1)) \<or>
      (\<exists>start e. (ty, start, Some e) \<in> set (il_Imports l1) \<and> e \<le> now \<and> now < e + 70 * second)" by auto
qed

lemma imports_of_requests:
  assumes "serves (import_action nodeSettings) l actions l1" and "import_invariant l actions"
  shows "sorted_wrt well_apart (il_Imports l1) \<and> set (il_Imports l) \<subseteq> set (il_Imports l1) \<and>
    (\<forall>now ty a. ImportAsked now ty a \<in> set actions \<longrightarrow> (\<exists>e. (ty, now, e) \<in> set (il_Imports l1)) \<or>
      (\<exists>start e. (ty, start, Some e) \<in> set (il_Imports l1) \<and> e \<le> now \<and> now < e + 70 * second))"
  using assms
proof (induction rule: serves.induct)
  case (serves_Cons l action l2 r actions l1)
  note step = import_action_invariant [OF serves_Cons.hyps(1) serves_Cons.prems]
  note rest = serves_Cons.IH [OF step(1)]
  have mono: "x \<in> set (il_Imports l2) \<Longrightarrow> x \<in> set (il_Imports l1)" for x using rest by blast
  have "(\<exists>e. (ty, now, e) \<in> set (il_Imports l1)) \<or>
      (\<exists>start e. (ty, start, Some e) \<in> set (il_Imports l1) \<and> e \<le> now \<and> now < e + 70 * second)"
    if "ImportAsked now ty a \<in> set (action # actions)" for now ty a
  proof (cases "ImportAsked now ty a \<in> set actions")
    case True
    with rest show ?thesis by blast
  next
    case False
    with that have "action = ImportAsked now ty a" by simp
    from step(3) [OF this] mono show ?thesis by blast
  qed
  with rest step(2) show ?case by blast
qed (simp add: import_invariant_def)

text \<open>
  C30: Whatever requests a new import goroutine serves, one after the other, and whatever LND answers: of
  two imports of the same kind the later starts at least 70 seconds after the end of the earlier, when
  that succeeded; and a request makes no import of its own only when one of its kind succeeded less than
  70 seconds before.
\<close>

theorem imports_seventy_seconds_apart:
  assumes "serves (import_action nodeSettings) \<lparr>il_SuccessTimes = Map.empty, il_Serving = True, il_World = w, il_Imports = []\<rparr> actions l"
    and "in_order actions"
  shows "sorted_wrt well_apart (il_Imports l) \<and>
    (\<forall>now ty a. ImportAsked now ty a \<in> set actions \<longrightarrow> (\<exists>e. (ty, now, e) \<in> set (il_Imports l)) \<or>
      (\<exists>start e. (ty, start, Some e) \<in> set (il_Imports l) \<and> e \<le> now \<and> now < e + 70 * second))"
proof -
  have "import_invariant \<lparr>il_SuccessTimes = Map.empty, il_Serving = True, il_World = w, il_Imports = []\<rparr> actions"
    using assms(2) by (simp add: import_invariant_def remembers_def before_all_def)
  from imports_of_requests [OF assms(1) this] show ?thesis by blast
qed

text \<open>A failed import is not remembered: the next request of its kind imports again.\<close>

lemma failed_import_forgotten:
  assumes "import_request nodeSettings now ty a l = Served l1 (Some (Some e))"
  shows "il_SuccessTimes l1 = il_SuccessTimes l" and "\<not> recently now ty l"
  using assms by (auto simp: import_request_def split: if_splits option.splits sum.splits go_error.splits)

section \<open>What a start does\<close>

definition streams_of :: "StartStep list \<Rightarrow> SubscriptionStream list" where
  "streams_of steps = concat (map (\<lambda>s. case s of StartStream x \<Rightarrow> [x] | _ \<Rightarrow> []) steps)"

definition awaited_of :: "StartStep list \<Rightarrow> SubscriptionStream list" where
  "awaited_of steps = concat (map (\<lambda>s. case s of AwaitStream x \<Rightarrow> [x] | _ \<Rightarrow> []) steps)"

lemma streams_run:
  assumes "start_run nodeSettings env steps r = Served r1 e" and "\<forall>ty. AskImport ty \<notin> set steps"
  shows "e = Some None \<and> nr_Imports r1 = nr_Imports r \<and> nr_Started r1 = nr_Started r @ streams_of steps \<and>
    (\<exists>ws. nr_Waits r1 = nr_Waits r @ ws \<and> map fst ws = awaited_of steps \<and> (\<forall>w \<in> set ws. snd w \<noteq> StillWaiting))"
  using assms
proof (induction steps arbitrary: r)
  case (Cons step steps)
  then show ?case
  proof (cases step)
    case (AwaitStream s)
    let ?e = "fst (waitForReadyState (mns_NodeId nodeSettings) s True (se_StreamStart env s) (se_Checks env s))"
    from Cons.prems(1) AwaitStream have e: "?e \<noteq> StillWaiting"
      "start_run nodeSettings env steps (r\<lparr>nr_Waits := nr_Waits r @ [(s, ?e)]\<rparr>) = Served r1 e"
      by (auto simp: Let_def split: if_splits)
    from Cons.IH [OF e(2)] Cons.prems(2) obtain ws where "e = Some None" "nr_Imports r1 = nr_Imports r"
      "nr_Started r1 = nr_Started r @ streams_of steps" "nr_Waits r1 = nr_Waits r @ (s, ?e) # ws"
      "map fst ws = awaited_of steps" "\<forall>w \<in> set ws. snd w \<noteq> StillWaiting" by auto
    with e(1) AwaitStream show ?thesis
      by (intro conjI exI [of _ "(s, ?e) # ws"]) (auto simp: streams_of_def awaited_of_def)
  next
    case (StartStream s)
    with Cons.prems Cons.IH [of "r\<lparr>nr_Started := nr_Started r @ [s]\<rparr>"] show ?thesis
      by (simp add: streams_of_def awaited_of_def)
  next
    case AwaitAll
    with Cons.prems Cons.IH [of r] show ?thesis by (simp add: streams_of_def awaited_of_def split: if_splits)
  qed (use Cons.prems(2) in auto)
qed (simp add: streams_of_def awaited_of_def)

text \<open>One of the two imports, then the rest.\<close>

lemma import_step:
  assumes "start_run nodeSettings env (AskImport ty # steps)
      \<lparr>nr_Imports = \<lparr>il_SuccessTimes = ends, il_Serving = True, il_World = w, il_Imports = log\<rparr>, nr_Started = st, nr_Waits = ws\<rparr> = Served r e"
    and "ends ty = None"
  obtains err where "nr_Started r = st" and "e = Some (Some (Error err))"
  | w1 where "run_import ty (se_Answers env ty) nodeSettings w = Some (w1, Ok ())" and "\<not> se_ContextDone env ty"
    and "start_run nodeSettings env steps
      \<lparr>nr_Imports = \<lparr>il_SuccessTimes = ends(ty \<mapsto> ia_Finished (se_Answers env ty)), il_Serving = True, il_World = w1,
         il_Imports = log @ [(ty, se_Asked env ty, Some (ia_Finished (se_Answers env ty)))]\<rparr>,
       nr_Started = st, nr_Waits = ws\<rparr> = Served r e"
  using assms
  by (auto simp: import_request_def recently_def Let_def split: if_splits option.splits sum.splits go_error.splits)

lemma start_plan:
  defines "rest \<equiv> drop 2 start_steps"
  shows "start_steps = AskImport ImportChannelAndRoutingPolicies # AskImport ImportNodeInformation # rest"
    and "\<forall>ty. AskImport ty \<notin> set rest" and "distinct (streams_of rest)"
    and "set (streams_of rest) = set SubscriptionStreams \<union> {InFlightPaymentStream}"
    and "awaited_of rest = filter (\<lambda>s. s \<noteq> ChannelBalanceCacheStream) (streams_of rest)"
  by (auto simp: rest_def start_steps_def streams_of_def awaited_of_def SubscriptionStreams_def)

text \<open>
  Between the two imports nothing but the import goroutine looks at the context.  When it leaves first,
  the request of the second import is never taken and the start does not return.
\<close>

lemma killed_between_imports:
  assumes "se_ContextDone env ImportNodeInformation" and "Start nodeSettings env w = Served r e"
  obtains err where "e = Some (Some (Error err))" and "nr_Started r = []"
proof -
  have run: "start_run nodeSettings env (AskImport ImportChannelAndRoutingPolicies # AskImport ImportNodeInformation # drop 2 start_steps)
      \<lparr>nr_Imports = \<lparr>il_SuccessTimes = Map.empty, il_Serving = True, il_World = w, il_Imports = []\<rparr>, nr_Started = [], nr_Waits = []\<rparr> = Served r e"
    unfolding start_plan(1) [symmetric] using assms(2) by (simp add: Start_def)
  show ?thesis
  proof (rule import_step [OF run])
    fix w1
    let ?log = "[(ImportChannelAndRoutingPolicies, se_Asked env ImportChannelAndRoutingPolicies,
      Some (ia_Finished (se_Answers env ImportChannelAndRoutingPolicies)))]"
    let ?ends = "[ImportChannelAndRoutingPolicies \<mapsto> ia_Finished (se_Answers env ImportChannelAndRoutingPolicies)]"
    assume "start_run nodeSettings env (AskImport ImportNodeInformation # drop 2 start_steps)
        \<lparr>nr_Imports = \<lparr>il_SuccessTimes = ?ends, il_Serving = True, il_World = w1, il_Imports = [] @ ?log\<rparr>, nr_Started = [], nr_Waits = []\<rparr> = Served r e"
    then show thesis by (rule import_step) (use assms(1) that in simp_all)
  qed (use that in simp_all)
qed

text \<open>
  C31: A start that returns without an error has made both imports, one after the other, then started
  every stream exactly once, and waited for each but the maintenance of the channel balances; a start
  that returns an error has started no stream.
\<close>

theorem streams_start_after_imports:
  assumes "Start nodeSettings env w = Served r (Some e)"
  shows "(e \<noteq> None \<longrightarrow> nr_Started r = []) \<and>
    (e = None \<longrightarrow>
      (\<exists>w1. run_import ImportChannelAndRoutingPolicies (se_Answers env ImportChannelAndRoutingPolicies) nodeSettings w = Some (w1, Ok ()) \<and>
         run_import ImportNodeInformation (se_Answers env ImportNodeInformation) nodeSettings w1 = Some (il_World (nr_Imports r), Ok ())) \<and>
      distinct (nr_Started r) \<and> set (nr_Started r) = set SubscriptionStreams \<union> {InFlightPaymentStream} \<and>
      map fst (nr_Waits r) = filter (\<lambda>s. s \<noteq> ChannelBalanceCacheStream) (nr_Started r) \<and>
      (\<forall>x \<in> set (nr_Waits r). snd x \<noteq> StillWaiting))"
proof -
  have "start_run nodeSettings env (AskImport ImportChannelAndRoutingPolicies # AskImport ImportNodeInformation # drop 2 start_steps)
      \<lparr>nr_Imports = \<lparr>il_SuccessTimes = Map.empty, il_Serving = True, il_World = w, il_Imports = []\<rparr>, nr_Started = [], nr_Waits = []\<rparr> = Served r (Some e)"
    unfolding start_plan(1) [symmetric] using assms by (simp add: Start_def)
  then show ?thesis
  proof (rule import_step)
    fix w1
    let ?log = "[(ImportChannelAndRoutingPolicies, se_Asked env ImportChannelAndRoutingPolicies,
      Some (ia_Finished (se_Answers env ImportChannelAndRoutingPolicies)))]"
    let ?ends = "[ImportChannelAndRoutingPolicies \<mapsto> ia_Finished (se_Answers env ImportChannelAndRoutingPolicies)]"
    assume w1: "run_import ImportChannelAndRoutingPolicies (se_Answers env ImportChannelAndRoutingPolicies) nodeSettings w = Some (w1, Ok ())"
      and "\<not> se_ContextDone env ImportChannelAndRoutingPolicies"
      and "start_run nodeSettings env (AskImport ImportNodeInformation # drop 2 start_steps)
        \<lparr>nr_Imports = \<lparr>il_SuccessTimes = ?ends, il_Serving = True, il_World = w1, il_Imports = [] @ ?log\<rparr>, nr_Started = [], nr_Waits = []\<rparr> = Served r (Some e)"
    from this(3) show ?thesis
    proof (rule import_step)
      fix w2
      assume w2: "run_import ImportNodeInformation (se_Answers env ImportNodeInformation) nodeSettings w1 = Some (w2, Ok ())"
        and "\<not> se_ContextDone env ImportNodeInformation"
        and "start_run nodeSettings env (drop 2 start_steps)
          \<lparr>nr_Imports = \<lparr>il_SuccessTimes = ?ends(ImportNodeInformation \<mapsto> ia_Finished (se_Answers env ImportNodeInformation)),
            il_Serving = True, il_World = w2, il_Imports = ([] @ ?log) @ [(ImportNodeInformation, se_Asked env ImportNodeInformation,
              Some (ia_Finished (se_Answers env ImportNodeInformation)))]\<rparr>, nr_Started = [], nr_Waits = []\<rparr> = Served r (Some e)"
      from streams_run [OF this(3) start_plan(2)] w1 w2 start_plan(3-5) show ?thesis by auto
    qed auto
  qed auto
qed


text \<open>A node without channels and peers: both imports succeed, and the streams never report anything.\<close>

definition sample_answers :: "time \<Rightarrow> ImportAnswers" where
  "sample_answers t = \<lparr>ia_Env = sample_genv\<lparr>gv_Lnd := sample_env\<lparr>le_OpenChannels := None\<rparr>\<rparr>, ia_Open = Ok [], ia_Closed = Ok [],
     ia_HashFromStr = (\<lambda>_. Ok []), ia_Listed = Ok [], ia_Edge = (\<lambda>_. PlainError ''unavailable''),
     ia_NodeInfo = (\<lambda>_. StatusNotFound ''unable to find node''), ia_Finished = t\<rparr>"

definition empty_gworld :: GraphWorld where
  "empty_gworld = \<lparr>gw_Lnd = \<lparr>lw_NodeCache = emptyNodeState, lw_Nodes = \<lparr>nt_rows = [], nt_nextId = 4\<rparr>,
     lw_Channels = (emptyChannelState, \<lparr>tbl_rows = [], tbl_nextId = 8\<rparr>), lw_Events = []\<rparr>, gw_Policies = [], gw_NodeEvents = []\<rparr>"

lemma sample_import: "run_import ImportChannelAndRoutingPolicies (sample_answers t) sample_settings empty_gworld = Some (empty_gworld, Ok ())"
  by (simp add: sample_answers_def ImportChannelList_def and_then_def give_def sample_env_def sample_genv_def empty_gworld_def
      on_lnd_def Let_def storeImportedOpenChannels_def storeImportedClosedChannels_def refill_channel_cache_def
      InitializeManagedChannelCache_def cache_write_def ImportRoutingPolicies_def getOpenChanIds_def)

lemma sample_node_import: "run_import ImportNodeInformation (sample_answers t) sample_settings empty_gworld = Some (empty_gworld, Ok ())"
  by (simp add: sample_answers_def sample_env_def sample_genv_def empty_gworld_def sample_settings_def ImportNodeInfo_def
      GetAllChannelPublicKeys_def processManagedNode_def readPublicKeys_def initializeIdCache_def emptyNodeState_def ids_of_def
      send_def)

lemma sample_finished: "ia_Finished (sample_answers t) = t"
  by (simp add: sample_answers_def)

definition three_requests :: "ImportAction list" where
  "three_requests = map (\<lambda>(t, u). ImportAsked (t * second) ImportNodeInformation (sample_answers (u * second)))
     [(1, 5), (30, 31), (80, 81)]"

theorem imports_seventy_seconds_apart_witness:
  "\<exists>l. serves (import_action sample_settings) \<lparr>il_SuccessTimes = Map.empty, il_Serving = True, il_World = empty_gworld, il_Imports = []\<rparr>
       three_requests l \<and>
     il_Imports l = [(ImportNodeInformation, second, Some (5 * second)), (ImportNodeInformation, 80 * second, Some (81 * second))] \<and>
     sorted_wrt well_apart (il_Imports l)"
proof -
  obtain l where l: "serves (import_action sample_settings)
       \<lparr>il_SuccessTimes = Map.empty, il_Serving = True, il_World = empty_gworld, il_Imports = []\<rparr> three_requests l"
    "il_Imports l = [(ImportNodeInformation, second, Some (5 * second)), (ImportNodeInformation, 80 * second, Some (81 * second))]"
    by (simp add: three_requests_def import_action_def import_request_def recently_def sample_node_import sample_finished second_def
        AVOID_CHANNEL_AND_POLICY_IMPORT_RERUN_TIME_SECONDS_def del: run_import.simps)
  have "in_order three_requests" by (auto simp: three_requests_def sample_finished second_def)
  from imports_seventy_seconds_apart [OF l(1) this] l show ?thesis by blast
qed

definition sample_start :: StartEnv where
  "sample_start = \<lparr>se_Asked = (\<lambda>_. 0), se_Answers = (\<lambda>_. sample_answers 1), se_ContextDone = (\<lambda>_. False),
     se_StreamStart = (\<lambda>_. 0), se_Checks = (\<lambda>_. [(61 * second, emptyServices LndService)]), se_StreamsEnd = True\<rparr>"

lemma sample_wait: "wait_checks n stream 0 [(61 * second, emptyServices LndService)] = StreamSilent"
  by (simp add: unheard unstarted GENERIC_BOOTSTRAPPING_TIME_SECONDS_def second_def)

theorem streams_start_after_imports_witness:
  "\<exists>r. Start sample_settings sample_start empty_gworld = Served r (Some None) \<and> distinct (nr_Started r)
     \<and> length (nr_Waits r) = 9"
proof -
  obtain r where r: "Start sample_settings sample_start empty_gworld = Served r (Some None)" "length (nr_Waits r) = 9"
    by (simp add: Start_def start_steps_def import_request_def recently_def sample_start_def sample_import sample_node_import
        waitForReadyState_def sample_wait del: run_import.simps wait_checks.simps)
  from streams_start_after_imports [OF r(1)] r show ?thesis by auto
qed

end
