(* ===== verification/WebAccess.thy ===== *)
theory WebAccess
  imports Services ServerErrors
begin

text \<open>
  Who may use the web server: \<open>src/internal/auth/auth.go\<close> and the routes of
  \<open>src/cmd/torq/internal/torqsrv/server.go\<close>.  A session is the map of values the session library
  keeps in a signed cookie; what it decodes from the cookie of a request, and whether it can save, are
  part of the request.  The files, the random numbers and the rate limiter are parameters too.  The
  theorems say who gets behind \<open>AuthRequired\<close>, how the key of the cookie file is used up, what a
  failed refresh of that file allows, and which files the static routes name.
\<close>

section \<open>Sessions and the cookie file\<close>

type_synonym session = "string \<rightharpoonup> string"

definition Userkey :: string where
  "Userkey = ''user''"

text \<open>The key that signs the cookies: the password, or 64 random bytes without one.\<close>

definition CreateSession :: "byte list result \<Rightarrow> byte list \<Rightarrow> byte list result" where
  "CreateSession random apiPwd =
     (if length apiPwd = 0
      then (case random of Inl e \<Rightarrow> Inl (wrapped ''Generating random key'' e) | Inr cookiePwd \<Rightarrow> Ok cookiePwd)
      else Ok apiPwd)"

text \<open>How the system behaves: a failed write may leave a part of the text in the file.\<close>

record CookieEnv =
  ce_Read :: "go_error option"
  ce_Random :: "byte list result"
  ce_Create :: "go_error option"
  ce_Write :: "(nat \<times> go_error) option"
  ce_Sync :: "go_error option"

definition RefreshCookieFile :: "string \<Rightarrow> CookieEnv \<Rightarrow> string option \<Rightarrow> string option \<times> go_error option" where
  "RefreshCookieFile cookiePath env file =
     (if cookiePath = [] then (file, None)
      else case ce_Random env of
             Inl e \<Rightarrow> (file, Some (wrapped ''Generating random key'' e))
           | Inr cookie \<Rightarrow>
               (let hexCookie = hex_encode cookie in
                case ce_Create env of
                  Some e \<Rightarrow> (file, Some (wrapped ''Creating or truncating cookie file'' e))
                | None \<Rightarrow>
                    (case ce_Write env of
                       Some (n, e) \<Rightarrow> (Some (take n hexCookie), Some (wrapped ''Writing to cookie file'' e))
                     | None \<Rightarrow>
                         (Some hexCookie,
                          map_option (wrapped ''Flushing cookie contents to disk'') (ce_Sync env)))))"

section \<open>Requests and handlers\<close>

text \<open>An answer: its status, the message, and the session it stores in the cookie, when it stores one.\<close>

record WebResponse =
  wr_Status :: int
  wr_Message :: string
  wr_Cookie :: "session option"

abbreviation reply :: "int \<Rightarrow> string \<Rightarrow> WebResponse" where
  "reply status message \<equiv> \<lparr>wr_Status = status, wr_Message = message, wr_Cookie = None\<rparr>"

text \<open>\<open>strings.Trim (s, " ")\<close>\<close>

definition trim_spaces :: "string \<Rightarrow> string" where
  "trim_spaces s = rev (dropWhile (\<lambda>c. c = CHR '' '') (rev (dropWhile (\<lambda>c. c = CHR '' '') s)))"

definition log_in :: "string \<Rightarrow> session \<Rightarrow> go_error option \<Rightarrow> WebResponse" where
  "log_in user session save =
     (case save of
        Some e \<Rightarrow> reply 500 ''Failed to save session''
      | None \<Rightarrow> \<lparr>wr_Status = 200, wr_Message = ''Successfully authenticated user'',
                  wr_Cookie = Some (session(Userkey \<mapsto> user))\<rparr>)"

definition Login :: "string \<Rightarrow> session \<Rightarrow> go_error option \<Rightarrow> string \<Rightarrow> string \<Rightarrow> WebResponse" where
  "Login apiPwd session save username password =
     (if trim_spaces username = [] \<or> trim_spaces password = [] then reply 400 ''Parameters can't be empty''
      else if username \<noteq> ''admin'' \<or> password \<noteq> apiPwd then reply 401 ''Authentication failed''
      else log_in username session save)"

definition is_alnum :: "char \<Rightarrow> bool" where
  "is_alnum c =
     (let n = (of_char c :: nat) in 97 \<le> n \<and> n \<le> 122 \<or> 65 \<le> n \<and> n \<le> 90 \<or> 48 \<le> n \<and> n \<le> 57)"

definition CookieLogin ::
    "string \<Rightarrow> CookieEnv \<Rightarrow> session \<Rightarrow> go_error option \<Rightarrow> string result \<Rightarrow> string option \<Rightarrow> string option \<times> WebResponse" where
  "CookieLogin cookiePath env session save accessKey file =
     (case accessKey of
        Inl e \<Rightarrow> (file, reply 400 ''Unable to parse access key from JSON'')
      | Inr key \<Rightarrow>
          (case (file, ce_Read env) of
             (Some cookieFile, None) \<Rightarrow>
               (let cookieFileContents = filter is_alnum cookieFile in
                if key \<noteq> cookieFileContents then (file, reply 401 ''Authentication failed'')
                else (case RefreshCookieFile cookiePath env file of
                        (file1, Some e) \<Rightarrow> (file1, reply 500 ''Failed to refresh cookie file'')
                      | (file1, None) \<Rightarrow> (file1, log_in ''SSOUser'' session save)))
           | _ \<Rightarrow> (file, reply 500 ''Unable to read cookie file'')))"

text \<open>The user is deleted from the session, but the session is not saved.\<close>

definition Logout :: "session \<Rightarrow> session \<times> WebResponse" where
  "Logout session = (session(Userkey := None), reply 200 ''Successfully logged out'')"

definition AuthRequired :: "session \<Rightarrow> WebResponse option" where
  "AuthRequired session = (if session Userkey = None then Some (reply 401 ''unauthorized'') else None)"

definition TorqRequired :: "(SubscriptionStream, Status) order \<Rightarrow> Services \<Rightarrow> Services \<times> WebResponse option" where
  "TorqRequired ord rs =
     (let (rs1, torqServiceStatus) = GetStatus ord TorqDummyNodeId rs
      in (rs1, if torqServiceStatus \<noteq> Active then Some (reply 424 ''initializing'') else None))"

section \<open>The routes\<close>

datatype WebRoute =
    WebSocketRoute | StaticRoutes | LogoutRoute | LoginRoute | CookieLoginRoute | UnauthenticatedSettings
  | ServicesStatus | TableViewRoutes | CategoryRoutes | TagRoutes | ChannelGroupRoutes | CorridorRoutes
  | PaymentRoutes | InvoiceRoutes | OnChainTxRoutes | PeerRoutes | NodeRoutes | ChannelRoutes | ForwardRoutes
  | FlowRoutes | MessageRoutes | SettingRoutes | PingRoute

datatype Middleware = SessionMiddleware | Gzip | Cors | RateLimit | RequireAuth | RequireTorq

text \<open>
  The registration, call by call.  A group or route has the middlewares that its parent had when it
  was made: a later \<open>Use\<close> does not reach it.
\<close>

datatype Registration =
    EngineUse Middleware
  | EngineRoute WebRoute "Middleware list"
  | ApiGroup
  | ApiUse Middleware
  | ApiRoute WebRoute "Middleware list"

definition registerRoutes :: "Registration list" where
  "registerRoutes =
     [EngineUse SessionMiddleware, EngineUse Gzip, EngineUse Cors,
      EngineRoute WebSocketRoute [RequireAuth],
      EngineRoute StaticRoutes [],
      ApiGroup,
      ApiRoute LogoutRoute [], ApiRoute LoginRoute [RateLimit], ApiRoute CookieLoginRoute [RateLimit],
      ApiRoute UnauthenticatedSettings [], ApiRoute ServicesStatus [],
      ApiUse RequireAuth, ApiUse RequireTorq,
      ApiRoute TableViewRoutes [], ApiRoute CategoryRoutes [], ApiRoute TagRoutes [], ApiRoute ChannelGroupRoutes [],
      ApiRoute CorridorRoutes [], ApiRoute PaymentRoutes [], ApiRoute InvoiceRoutes [], ApiRoute OnChainTxRoutes [],
      ApiRoute PeerRoutes [], ApiRoute NodeRoutes [], ApiRoute ChannelRoutes [], ApiRoute ForwardRoutes [],
      ApiRoute FlowRoutes [], ApiRoute MessageRoutes [], ApiRoute SettingRoutes [], ApiRoute PingRoute []]"

fun registered :: "Middleware list \<Rightarrow> Middleware list \<Rightarrow> Registration list \<Rightarrow> (WebRoute \<times> Middleware list) list" where
  "registered engine api [] = []"
| "registered engine api (EngineUse m # rs) = registered (engine @ [m]) api rs"
| "registered engine api (EngineRoute r ms # rs) = (r, engine @ ms) # registered engine api rs"
| "registered engine api (ApiGroup # rs) = registered engine engine rs"
| "registered engine api (ApiUse m # rs) = registered engine (api @ [m]) rs"
| "registered engine api (ApiRoute r ms # rs) = (r, api @ ms) # registered engine api rs"

section \<open>Serving a request\<close>

record WebWorld =
  ww_CookieFile :: "string option"
  ww_TorqService :: Services

record WebRequest =
  rq_Route :: WebRoute
  rq_Session :: session
  rq_Username :: string
  rq_Password :: string
  rq_AccessKey :: "string result"
  rq_Env :: CookieEnv
  rq_Save :: "go_error option"
  rq_CorsRefused :: bool
  rq_LimitReached :: bool
  rq_Order :: "(SubscriptionStream, Status) order"

text \<open>
  A request is answered by a middleware or one of the three handlers of \<open>auth.go\<close>, or it reaches
  another handler.
\<close>

datatype Served_by = ByMiddleware WebResponse | ByAuth WebResponse | Reaches WebRoute

fun run_middlewares :: "WebRequest \<Rightarrow> Middleware list \<Rightarrow> WebWorld \<Rightarrow> WebWorld \<times> WebResponse option" where
  "run_middlewares rq [] w = (w, None)"
| "run_middlewares rq (m # ms) w =
     (case m of
        RequireAuth \<Rightarrow>
          (case AuthRequired (rq_Session rq) of Some r \<Rightarrow> (w, Some r) | None \<Rightarrow> run_middlewares rq ms w)
      | RequireTorq \<Rightarrow>
          (case TorqRequired (rq_Order rq) (ww_TorqService w) of
             (rs, Some r) \<Rightarrow> (w\<lparr>ww_TorqService := rs\<rparr>, Some r)
           | (rs, None) \<Rightarrow> run_middlewares rq ms (w\<lparr>ww_TorqService := rs\<rparr>))
      | Cors \<Rightarrow> if rq_CorsRefused rq then (w, Some (reply 403 [])) else run_middlewares rq ms w
      | RateLimit \<Rightarrow> if rq_LimitReached rq then (w, Some (reply 429 ''Limit exceeded'')) else run_middlewares rq ms w
      | _ \<Rightarrow> run_middlewares rq ms w)"

definition handle :: "string \<Rightarrow> string \<Rightarrow> WebRequest \<Rightarrow> WebWorld \<Rightarrow> WebWorld \<times> Served_by" where
  "handle apiPwd cookiePath rq w =
     (case rq_Route rq of
        LoginRoute \<Rightarrow> (w, ByAuth (Login apiPwd (rq_Session rq) (rq_Save rq) (rq_Username rq) (rq_Password rq)))
      | CookieLoginRoute \<Rightarrow>
          (let (file, r) = CookieLogin cookiePath (rq_Env rq) (rq_Session rq) (rq_Save rq) (rq_AccessKey rq) (ww_CookieFile w)
           in (w\<lparr>ww_CookieFile := file\<rparr>, ByAuth r))
      | LogoutRoute \<Rightarrow> (w, ByAuth (snd (Logout (rq_Session rq))))
      | r \<Rightarrow> (w, Reaches r))"

definition serve_request :: "string \<Rightarrow> string \<Rightarrow> WebRequest \<Rightarrow> WebWorld \<Rightarrow> WebWorld \<times> Served_by" where
  "serve_request apiPwd cookiePath rq w =
     (case map_of (registered [] [] registerRoutes) (rq_Route rq) of
        None \<Rightarrow> (w, ByMiddleware (reply 404 []))
      | Some ms \<Rightarrow>
          (case run_middlewares rq ms w of
             (w1, Some r) \<Rightarrow> (w1, ByMiddleware r)
           | (w1, None) \<Rightarrow> handle apiPwd cookiePath rq w1))"

text \<open>
  Requests one after the other.  A session the library accepts is empty or one that an earlier answer
  stored: the signature of the cookie is checked against the key of the server.
\<close>

type_synonym exchange = "WebRequest \<times> Served_by"

fun stored_session :: "Served_by \<Rightarrow> session option" where
  "stored_session (ByAuth r) = wr_Cookie r"
| "stored_session _ = None"

definition genuine :: "exchange list \<Rightarrow> WebRequest \<Rightarrow> bool" where
  "genuine past rq \<longleftrightarrow> rq_Session rq = Map.empty \<or> (\<exists>x \<in> set past. stored_session (snd x) = Some (rq_Session rq))"

inductive web_run :: "string \<Rightarrow> string \<Rightarrow> WebWorld \<Rightarrow> exchange list \<Rightarrow> WebWorld \<Rightarrow> bool"
  for apiPwd cookiePath :: string and w0 :: WebWorld where
  web_start: "web_run apiPwd cookiePath w0 [] w0"
| web_next: "web_run apiPwd cookiePath w0 past w \<Longrightarrow> genuine past rq \<Longrightarrow>
     serve_request apiPwd cookiePath rq w = (w1, r) \<Longrightarrow> web_run apiPwd cookiePath w0 (past @ [(rq, r)]) w1"

section \<open>Who gets in\<close>

definition protected :: "WebRoute \<Rightarrow> bool" where
  "protected r \<longleftrightarrow>
     r \<notin> {StaticRoutes, LogoutRoute, LoginRoute, CookieLoginRoute, UnauthenticatedSettings, ServicesStatus}"

text \<open>Every protected route requires a user; all but the web socket also require the Torq service.\<close>

lemma protected_routes:
  "\<exists>ms. map_of (registered [] [] registerRoutes) r = Some ms \<and> (RequireAuth \<in> set ms \<longleftrightarrow> protected r) \<and>
     (RequireTorq \<in> set ms \<longleftrightarrow> protected r \<and> r \<noteq> WebSocketRoute)"
  by (cases r) (simp_all add: registerRoutes_def protected_def)

lemma ensure_twice: "ensure n v (ensure n v m) = ensure n v m"
  by (auto simp: ensure_def split: option.splits)

lemma init_twice: "initServiceMaps n (initServiceMaps n rs) = initServiceMaps n rs"
  by (simp add: initServiceMaps_def ensure_twice)

lemma middlewares_pass:
  assumes "run_middlewares rq ms w = (w1, None)"
  shows "RequireAuth \<in> set ms \<Longrightarrow> rq_Session rq Userkey \<noteq> None"
    and "RequireTorq \<in> set ms \<Longrightarrow> snd (GetStatus (rq_Order rq) TorqDummyNodeId (ww_TorqService w)) = Active"
proof -
  have same: "snd (GetStatus ord n (fst (GetStatus ord n rs))) = snd (GetStatus ord n rs)" for ord n rs
    by (simp only: GetStatus_def Let_def fst_conv snd_conv init_twice)
  show "rq_Session rq Userkey \<noteq> None" if "RequireAuth \<in> set ms"
    using assms that
    by (induction ms arbitrary: w) (auto simp: AuthRequired_def split: Middleware.splits option.splits if_splits prod.splits)
  show "snd (GetStatus (rq_Order rq) TorqDummyNodeId (ww_TorqService w)) = Active" if "RequireTorq \<in> set ms"
    using assms that
  proof (induction ms arbitrary: w)
    case (Cons m ms)
    then show ?case
      by (cases m) (auto simp: TorqRequired_def split: option.splits if_splits prod.splits)
  qed simp
qed

lemma middlewares_file: "run_middlewares rq ms w = (w1, r) \<Longrightarrow> ww_CookieFile w1 = ww_CookieFile w"
  by (induction ms arbitrary: w) (auto split: Middleware.splits option.splits if_splits prod.splits)

text \<open>A session is stored by a login alone.\<close>

definition logs_in :: "string \<Rightarrow> string option \<Rightarrow> WebRequest \<Rightarrow> bool" where
  "logs_in apiPwd file rq \<longleftrightarrow>
     rq_Route rq = LoginRoute \<and> rq_Username rq = ''admin'' \<and> rq_Password rq = apiPwd \<and> trim_spaces apiPwd \<noteq> [] \<or>
     rq_Route rq = CookieLoginRoute \<and> (\<exists>f. file = Some f \<and> rq_AccessKey rq = Ok (filter is_alnum f))"

lemma trim_admin: "trim_spaces ''admin'' \<noteq> []"
  by (simp add: trim_spaces_def)

lemma Login_stores:
  "wr_Cookie (Login apiPwd session save username password) = Some s \<longleftrightarrow>
     trim_spaces apiPwd \<noteq> [] \<and> username = ''admin'' \<and> password = apiPwd \<and> save = None \<and> s = session(Userkey \<mapsto> ''admin'')"
  using trim_admin by (cases save) (auto simp: Login_def log_in_def)

lemma CookieLogin_stores:
  assumes "CookieLogin cookiePath env session save accessKey file = (file1, r)" and "wr_Cookie r = Some s"
  shows "\<exists>f. file = Some f \<and> accessKey = Ok (filter is_alnum f)" and "s = session(Userkey \<mapsto> ''SSOUser'')"
    and "RefreshCookieFile cookiePath env file = (file1, None)"
  using assms by (auto simp: CookieLogin_def log_in_def Let_def split: sum.splits option.splits if_splits prod.splits)

lemma stored_by_login:
  assumes "serve_request apiPwd cookiePath rq w = (w1, r)" and "stored_session r = Some s"
  shows "logs_in apiPwd (ww_CookieFile w) rq"
proof -
  obtain ms w2 where m: "run_middlewares rq ms w = (w2, None)" and h: "handle apiPwd cookiePath rq w2 = (w1, r)"
    using assms by (auto simp: serve_request_def split: option.splits prod.splits)
  have f: "ww_CookieFile w2 = ww_CookieFile w" by (rule middlewares_file [OF m])
  from h assms(2) f CookieLogin_stores(1) [of cookiePath "rq_Env rq" "rq_Session rq" "rq_Save rq" "rq_AccessKey rq" "ww_CookieFile w"]
  show ?thesis
    by (fastforce simp: handle_def logs_in_def Login_stores Logout_def split: WebRoute.splits prod.splits)
qed

lemma web_run_prefix:
  assumes "web_run apiPwd cookiePath w0 past w" and "x \<in> set past"
  shows "\<exists>past1 past2 w2 w3. past = past1 @ x # past2 \<and> web_run apiPwd cookiePath w0 past1 w2 \<and>
     serve_request apiPwd cookiePath (fst x) w2 = (w3, snd x)"
  using assms
proof (induction rule: web_run.induct)
  case (web_next past w rq w1 r)
  show ?case
  proof (cases "x \<in> set past")
    case True
    with web_next.IH obtain past1 past2 w2 w3 where "past = past1 @ x # past2" "web_run apiPwd cookiePath w0 past1 w2"
      "serve_request apiPwd cookiePath (fst x) w2 = (w3, snd x)" by blast
    then have "past @ [(rq, r)] = past1 @ x # past2 @ [(rq, r)]" by simp
    with \<open>web_run apiPwd cookiePath w0 past1 w2\<close> \<open>serve_request apiPwd cookiePath (fst x) w2 = (w3, snd x)\<close>
    show ?thesis by blast
  next
    case False
    with web_next.prems have x: "x = (rq, r)" by simp
    with web_next.hyps show ?thesis by fastforce
  qed
qed simp

lemma reaching_requires:
  assumes "serve_request apiPwd cookiePath rq w = (w1, Reaches route)" and "protected route"
  shows "rq_Session rq Userkey \<noteq> None"
    and "route \<noteq> WebSocketRoute \<Longrightarrow> snd (GetStatus (rq_Order rq) TorqDummyNodeId (ww_TorqService w)) = Active"
proof -
  obtain ms where ms: "map_of (registered [] [] registerRoutes) (rq_Route rq) = Some ms"
    and needs: "RequireAuth \<in> set ms \<longleftrightarrow> protected (rq_Route rq)"
      "RequireTorq \<in> set ms \<longleftrightarrow> protected (rq_Route rq) \<and> rq_Route rq \<noteq> WebSocketRoute"
    using protected_routes [of "rq_Route rq"] by blast
  from assms(1) ms obtain w2 where w2: "run_middlewares rq ms w = (w2, None)"
    and "handle apiPwd cookiePath rq w2 = (w1, Reaches route)"
    by (auto simp: serve_request_def split: option.splits prod.splits)
  then have "rq_Route rq = route" by (auto simp: handle_def split: WebRoute.splits prod.splits)
  with needs assms(2) middlewares_pass [OF w2] show "rq_Session rq Userkey \<noteq> None"
    and "route \<noteq> WebSocketRoute \<Longrightarrow> snd (GetStatus (rq_Order rq) TorqDummyNodeId (ww_TorqService w)) = Active" by auto
qed

text \<open>
  C32: A request that reaches a protected handler carries the session of an earlier login: one with the
  name \<open>admin\<close> and a password that is not blank, or one with the key that was in the cookie file at
  that time; and unless it opens a web socket, the Torq service is active.
\<close>

theorem users_have_logged_in:
  assumes "web_run apiPwd cookiePath w0 past w" and "genuine past rq"
    and "serve_request apiPwd cookiePath rq w = (w1, Reaches route)" and "protected route"
  shows "(\<exists>past1 rq0 r0 past2 w2. past = past1 @ (rq0, r0) # past2 \<and> web_run apiPwd cookiePath w0 past1 w2 \<and>
      stored_session r0 = Some (rq_Session rq) \<and> logs_in apiPwd (ww_CookieFile w2) rq0) \<and>
    (route \<noteq> WebSocketRoute \<longrightarrow> snd (GetStatus (rq_Order rq) TorqDummyNodeId (ww_TorqService w)) = Active)"
proof -
  have "rq_Session rq \<noteq> Map.empty" using reaching_requires(1) [OF assms(3,4)] by auto
  with assms(2) obtain x where x: "x \<in> set past" "stored_session (snd x) = Some (rq_Session rq)"
    by (auto simp: genuine_def)
  from web_run_prefix [OF assms(1) x(1)] obtain past1 past2 w2 w3 where
    "past = past1 @ x # past2" "web_run apiPwd cookiePath w0 past1 w2" and
    s: "serve_request apiPwd cookiePath (fst x) w2 = (w3, snd x)" by blast
  moreover have "logs_in apiPwd (ww_CookieFile w2) (fst x)" by (rule stored_by_login [OF s x(2)])
  ultimately show ?thesis using reaching_requires(2) [OF assms(3,4)] x(2) by (metis prod.collapse)
qed

text \<open>An empty or blank password refuses every login; a logout stores no session, so the old one goes on.\<close>

lemma blank_password_refuses: "trim_spaces apiPwd = [] \<Longrightarrow> wr_Cookie (Login apiPwd session save username password) = None"
  using Login_stores [of apiPwd session save username password] by (metis not_None_eq)

lemma logout_keeps_session:
  assumes "rq_Route rq = LogoutRoute" and "serve_request apiPwd cookiePath rq w = (w1, r)"
  shows "stored_session r = None" and "genuine (past @ [(rq, r)]) later \<longleftrightarrow> genuine past later"
proof -
  show "stored_session r = None"
    using assms stored_by_login [OF assms(2)] by (cases "stored_session r") (auto simp: logs_in_def)
  then show "genuine (past @ [(rq, r)]) later \<longleftrightarrow> genuine past later" by (auto simp: genuine_def)
qed

section \<open>The key of the cookie file\<close>

lemma is_alnum_hex: "d < 16 \<Longrightarrow> is_alnum (hex_digit d)"
  by (auto simp: is_alnum_def hex_digit_def Let_def take_bit_eq_mod)

lemma hex_encode_alnum: "filter is_alnum (hex_encode bs) = hex_encode bs"
proof (induction bs)
  case (Cons b bs)
  have "unat b < 256" by (simp add: order_less_le_trans [OF unsigned_less])
  then have "is_alnum (hex_digit (unat b div 16))" "is_alnum (hex_digit (unat b mod 16))"
    by (auto intro: is_alnum_hex)
  with Cons show ?case by (simp add: hex_encode_def)
qed (simp add: hex_encode_def)

lemma inj_hex_encode: "hex_encode a = hex_encode b \<longleftrightarrow> a = b"
  by (metis hex_decode_encode option.inject)

text \<open>A system on which nothing fails.\<close>

definition working :: "byte list \<Rightarrow> CookieEnv" where
  "working bs = \<lparr>ce_Read = None, ce_Random = Ok bs, ce_Create = None, ce_Write = None, ce_Sync = None\<rparr>"

text \<open>
  A key is used up by the login it allows: the file then holds the text of the fresh random bytes,
  and of all keys exactly this text is accepted next.
\<close>

lemma cookie_key_used_up:
  assumes "CookieLogin cookiePath env session save (Ok key) file = (file1, r)" and "wr_Cookie r \<noteq> None"
    and "cookiePath \<noteq> []" and "ce_Random env = Ok fresh"
  shows "file1 = Some (hex_encode fresh) \<and>
    (wr_Cookie (snd (CookieLogin cookiePath env2 session2 save2 (Ok key2) file1)) \<noteq> None \<longrightarrow> key2 = hex_encode fresh) \<and>
    wr_Cookie (snd (CookieLogin cookiePath (working next) session2 None (Ok (hex_encode fresh)) file1))
      = Some (session2(Userkey \<mapsto> ''SSOUser''))"
proof -
  obtain s where s: "wr_Cookie r = Some s" using assms(2) by blast
  from CookieLogin_stores(3) [OF assms(1) s] assms(3,4) have f: "file1 = Some (hex_encode fresh)"
    by (auto simp: RefreshCookieFile_def Let_def split: option.splits prod.splits)
  have "key2 = hex_encode fresh" if "wr_Cookie (snd (CookieLogin cookiePath env2 session2 save2 (Ok key2) file1)) = Some s2" for s2
    using CookieLogin_stores(1) [OF surjective_pairing that] f by (simp add: hex_encode_alnum)
  moreover have "wr_Cookie (snd (CookieLogin cookiePath (working next) session2 None (Ok (hex_encode fresh)) file1))
      = Some (session2(Userkey \<mapsto> ''SSOUser''))"
    using f assms(3) by (simp add: CookieLogin_def RefreshCookieFile_def working_def log_in_def hex_encode_alnum)
  ultimately show ?thesis using f by blast
qed

text \<open>
  C33: When the refresh of a valid login creates the file but cannot write to it, the file stays empty,
  and the next cookie login succeeds with an empty access key.
\<close>

theorem failed_refresh_opens_login:
  assumes "cookiePath \<noteq> []" and "ce_Read env = None" and "ce_Random env = Ok bs" and "ce_Create env = None"
    and "ce_Write env = Some (0, e)" and "key = filter is_alnum file"
  shows "CookieLogin cookiePath env session save (Ok key) (Some file) = (Some [], reply 500 ''Failed to refresh cookie file'') \<and>
    wr_Cookie (snd (CookieLogin cookiePath (working fresh) other None (Ok []) (Some []))) = Some (other(Userkey \<mapsto> ''SSOUser''))"
  using assms by (simp add: CookieLogin_def RefreshCookieFile_def working_def log_in_def)

section \<open>Comparing hosts\<close>

text \<open>\<open>utf8.DecodeRuneInString\<close>: the first rune of a text and its width; 0xFFFD with width 1 when it is invalid.\<close>

definition RuneError :: nat where
  "RuneError = 0xFFFD"

definition second_byte :: "nat \<Rightarrow> nat \<times> nat" where
  "second_byte x =
     (if x = 0xE0 then (0xA0, 0xBF) else if x = 0xED then (0x80, 0x9F)
      else if x = 0xF0 then (0x90, 0xBF) else if x = 0xF4 then (0x80, 0x8F) else (0x80, 0xBF))"

definition continues :: "nat \<Rightarrow> bool" where
  "continues b \<longleftrightarrow> 0x80 \<le> b \<and> b \<le> 0xBF"

definition DecodeRuneInString :: "string \<Rightarrow> nat \<times> nat" where
  "DecodeRuneInString s =
     (case map of_char s of
        [] \<Rightarrow> (RuneError, 0)
      | x # bs \<Rightarrow>
          if x < 0x80 then (x, 1)
          else if x < 0xC2 \<or> 0xF4 < x then (RuneError, 1)
          else (case bs of
                  [] \<Rightarrow> (RuneError, 1)
                | b1 # bs1 \<Rightarrow>
                    if b1 < fst (second_byte x) \<or> snd (second_byte x) < b1 then (RuneError, 1)
                    else if x < 0xE0 then ((x - 0xC0) * 64 + (b1 - 0x80), 2)
                    else (case bs1 of
                            [] \<Rightarrow> (RuneError, 1)
                          | b2 # bs2 \<Rightarrow>
                              if \<not> continues b2 then (RuneError, 1)
                              else if x < 0xF0 then (((x - 0xE0) * 64 + (b1 - 0x80)) * 64 + (b2 - 0x80), 3)
                              else (case bs2 of
                                      [] \<Rightarrow> (RuneError, 1)
                                    | b3 # bs3 \<Rightarrow>
                                        if \<not> continues b3 then (RuneError, 1)
                                        else ((((x - 0xF0) * 64 + (b1 - 0x80)) * 64 + (b2 - 0x80)) * 64 + (b3 - 0x80), 4)))))"

definition lower_rune :: "nat \<Rightarrow> nat" where
  "lower_rune r = (if 65 \<le> r \<and> r \<le> 90 then r + 97 - 65 else r)"

lemma rune_width: "s \<noteq> [] \<Longrightarrow> 0 < snd (DecodeRuneInString s)"
  by (cases s) (auto simp: DecodeRuneInString_def split: list.splits)

lemma rune_shrinks: "s \<noteq> [] \<Longrightarrow> (r, n) = DecodeRuneInString s \<Longrightarrow> length (drop n s) < length s"
  using rune_width [of s] by (cases "DecodeRuneInString s") auto

function equalASCIIFold :: "string \<Rightarrow> string \<Rightarrow> bool" where
  "equalASCIIFold s t =
     (if s \<noteq> [] \<and> t \<noteq> []
      then (let (sr, size_s) = DecodeRuneInString s; (tr, size_t) = DecodeRuneInString t;
                s1 = drop size_s s; t1 = drop size_t t
            in if sr = tr then equalASCIIFold s1 t1
               else if lower_rune sr \<noteq> lower_rune tr then False
               else equalASCIIFold s1 t1)
      else s = t)"
  by pat_completeness auto
termination by (relation "measure (\<lambda>(s, t). length s)") (auto dest: rune_shrinks)

declare equalASCIIFold.simps [simp del]

definition ascii :: "string \<Rightarrow> bool" where
  "ascii s \<longleftrightarrow> (\<forall>c \<in> set s. (of_char c :: nat) < 0x80)"

lemma ascii_rune: "(of_char c :: nat) < 0x80 \<Longrightarrow> DecodeRuneInString (c # s) = (of_char c, 1)"
  by (simp add: DecodeRuneInString_def)

definition lower_char :: "char \<Rightarrow> nat" where
  "lower_char c = lower_rune (of_char c)"

text \<open>
  On ASCII texts the comparison is that of the texts in lower case, character by character.
\<close>

lemma equalASCIIFold_is_lower_case_equality:
  assumes "ascii s" and "ascii t"
  shows "equalASCIIFold s t \<longleftrightarrow> map lower_char s = map lower_char t"
  using assms
proof (induction s arbitrary: t)
  case Nil
  then show ?case by (auto simp: equalASCIIFold.simps)
next
  case (Cons c s)
  show ?case
  proof (cases t)
    case Nil
    then show ?thesis by (simp add: equalASCIIFold.simps)
  next
    case (Cons d u)
    with Cons.prems have "(of_char c :: nat) < 0x80" "(of_char d :: nat) < 0x80" "ascii s" "ascii u"
      by (simp_all add: ascii_def)
    with Cons.IH [of u] Cons show ?thesis
      by (simp add: equalASCIIFold.simps [of "c # s"] ascii_rune lower_char_def)
  qed
qed

text \<open>Bytes that are no UTF-8 all decode to the same rune, so texts that differ in them are equal.\<close>

lemma invalid_bytes_equal: "equalASCIIFold [CHR 0xFF] [CHR 0xFE]"
  by (simp add: equalASCIIFold.simps DecodeRuneInString_def)

section \<open>Static files\<close>

definition has_suffix :: "string \<Rightarrow> string \<Rightarrow> bool" where
  "has_suffix suffix s \<longleftrightarrow> length suffix \<le> length s \<and> drop (length s - length suffix) s = suffix"

definition knownAssetList :: "string list" where
  "knownAssetList =
     [''/favicon.ico'', ''/favicon-16x16.png'', ''/favicon-32x32.png'', ''/mstile-150x150.png'', ''/safari-pinned-tab.svg'',
      ''/android-chrome-192x192.png'', ''/android-chrome-512x512.png'', ''/apple-touch-icon.png'', ''/browserconfig.xml'',
      ''/manifest.json'', ''/robots.txt'']"

text \<open>The file of a path; None is an index out of range.\<close>

definition static_file :: "string \<Rightarrow> string option" where
  "static_file path =
     (case find (\<lambda>knownAsset. has_suffix knownAsset path) knownAssetList of
        Some knownAsset \<Rightarrow> Some (''./web/build'' @ knownAsset)
      | None \<Rightarrow>
          (let parts = split_on (CHR ''/'') path in
           if contains path ''/static/'' \<and> contains path ''.'' \<and>
              (contains path ''css'' \<or> contains path ''js'' \<or> contains path ''media'')
           then if length parts < 2 then None
                else Some (''./web/build/static/'' @ parts ! (length parts - 2) @ ''/'' @ parts ! (length parts - 1))
           else if contains path ''/locales/'' \<and> contains path ''.json''
           then Some (''./web/build/locales/'' @ parts ! (length parts - 1))
           else Some ''./web/build/index.html''))"

lemma contains_set: "contains s sub \<Longrightarrow> set sub \<subseteq> set s"
proof (induction s)
  case (Cons c cs)
  then show ?case by (auto dest!: arg_cong [of _ _ set] in_set_takeD simp del: take_Suc_Cons)
qed simp

lemma split_on_two: "c \<in> set s \<Longrightarrow> 2 \<le> length (split_on c s)"
proof (induction s)
  case (Cons x s)
  have "0 < length (split_on c s)" by simp
  with Cons show ?case by (auto split: list.splits)
qed simp

text \<open>
  Every path has a file, and it is the index, a known asset, or a file named by the last one or two
  segments of the path below the directories of the build.
\<close>

lemma static_files_below_build:
  "\<exists>f. static_file path = Some f \<and>
     (f = ''./web/build/index.html'' \<or> f \<in> (\<lambda>asset. ''./web/build'' @ asset) ` set knownAssetList \<or>
      (\<exists>a b. CHR ''/'' \<notin> set a \<and> CHR ''/'' \<notin> set b \<and>
         (f = ''./web/build/static/'' @ a @ ''/'' @ b \<or> f = ''./web/build/locales/'' @ b)))"
proof (cases "find (\<lambda>knownAsset. has_suffix knownAsset path) knownAssetList")
  case (Some asset)
  then have "asset \<in> set knownAssetList" by (auto simp: find_Some_iff)
  with Some show ?thesis by (simp add: static_file_def)
next
  case None
  let ?parts = "split_on (CHR ''/'') path"
  let ?a = "?parts ! (length ?parts - 2)" and ?b = "?parts ! (length ?parts - 1)"
  have "0 < length ?parts" by simp
  then have "?a \<in> set ?parts" "?b \<in> set ?parts" by (simp_all only: nth_mem diff_less zero_less_numeral zero_less_one)
  then have parts: "CHR ''/'' \<notin> set ?a" "CHR ''/'' \<notin> set ?b" by (blast dest: split_on_parts)+
  show ?thesis
  proof (cases "contains path ''/static/'' \<and> contains path ''.'' \<and>
      (contains path ''css'' \<or> contains path ''js'' \<or> contains path ''media'')")
    case True
    then have "CHR ''/'' \<in> set path" using contains_set [of path "''/static/''"] by auto
    then have "2 \<le> length ?parts" by (rule split_on_two)
    with True None have "static_file path = Some (''./web/build/static/'' @ ?a @ ''/'' @ ?b)"
      by (simp add: static_file_def Let_def)
    with parts show ?thesis by blast
  next
    case False
    with None have "static_file path = Some (''./web/build/locales/'' @ ?b) \<or>
        static_file path = Some ''./web/build/index.html''" by (auto simp: static_file_def Let_def)
    with parts show ?thesis by blast
  qed
qed

section \<open>Examples\<close>

definition sample_request :: "WebRoute \<Rightarrow> session \<Rightarrow> WebRequest" where
  "sample_request route session = \<lparr>rq_Route = route, rq_Session = session, rq_Username = ''admin'', rq_Password = ''pw'',
     rq_AccessKey = Ok [], rq_Env = working [1], rq_Save = None, rq_CorsRefused = False, rq_LimitReached = False,
     rq_Order = id\<rparr>"

definition sample_web :: WebWorld where
  "sample_web = \<lparr>ww_CookieFile = Some ''0a'',
     ww_TorqService = (emptyServices TorqService)\<lparr>sv_serviceStatus := [(TorqDummyNodeId, Active)]\<rparr>\<rparr>"

theorem users_have_logged_in_witness:
  "\<exists>past w w1. web_run ''pw'' ''cookie'' sample_web past w \<and>
     serve_request ''pw'' ''cookie'' (sample_request TagRoutes [Userkey \<mapsto> ''admin'']) w = (w1, Reaches TagRoutes) \<and>
     (\<exists>past1 rq0 r0 past2 w2. past = past1 @ (rq0, r0) # past2 \<and> web_run ''pw'' ''cookie'' sample_web past1 w2 \<and>
        logs_in ''pw'' (ww_CookieFile w2) rq0)"
proof -
  let ?rq = "sample_request TagRoutes [Userkey \<mapsto> ''admin'']"
  let ?past = "[(sample_request LoginRoute Map.empty, ByAuth (log_in ''admin'' Map.empty None))]"
  have "serve_request ''pw'' ''cookie'' (sample_request LoginRoute Map.empty) sample_web
      = (sample_web, ByAuth (log_in ''admin'' Map.empty None))"
    by (simp add: serve_request_def registerRoutes_def sample_request_def handle_def Login_def trim_spaces_def)
  from web_next [OF web_start _ this] have run: "web_run ''pw'' ''cookie'' sample_web ?past sample_web"
    by (simp add: genuine_def sample_request_def)
  have ok: "genuine ?past ?rq" by (simp add: genuine_def log_in_def sample_request_def)
  obtain w1 where reach: "serve_request ''pw'' ''cookie'' ?rq sample_web = (w1, Reaches TagRoutes)"
    by (simp add: serve_request_def registerRoutes_def sample_request_def handle_def AuthRequired_def TorqRequired_def
        GetStatus_def initServiceMaps_def sample_web_def emptyServices_def)
  from users_have_logged_in [OF run ok reach] run reach show ?thesis unfolding protected_def by blast
qed

lemma cookie_key_used_up_witness:
  "wr_Cookie (snd (CookieLogin ''cookie'' (working [2]) Map.empty None (Ok (hex_encode [1])) (Some (hex_encode [1]))))
     = Some [Userkey \<mapsto> ''SSOUser''] \<and>
   wr_Cookie (snd (CookieLogin ''cookie'' (working [3]) Map.empty None (Ok (hex_encode [1])) (Some (hex_encode [2])))) = None"
proof -
  let ?first = "CookieLogin ''cookie'' (working [2]) Map.empty None (Ok (hex_encode [1])) (Some (hex_encode [1]))"
  have one: "?first = (Some (hex_encode [2]), log_in ''SSOUser'' Map.empty None)"
    by (simp add: CookieLogin_def RefreshCookieFile_def working_def hex_encode_alnum)
  have "wr_Cookie (snd (CookieLogin ''cookie'' (working [3]) Map.empty None (Ok (hex_encode [1])) (Some (hex_encode [2]))))
      \<noteq> None \<longrightarrow> hex_encode [1] = hex_encode [2 :: byte]"
    using cookie_key_used_up [OF one, of "[2]" "working [3]" Map.empty None "hex_encode [1]"]
    by (simp add: log_in_def working_def)
  with one show ?thesis by (simp add: inj_hex_encode log_in_def)
qed

theorem failed_refresh_opens_login_witness:
  "fst (CookieLogin ''cookie'' ((working [2])\<lparr>ce_Write := Some (0, Error ''no space left on device'')\<rparr>) Map.empty None (Ok ''0a'')
      (Some ''0a'')) = Some [] \<and>
   wr_Cookie (snd (CookieLogin ''cookie'' (working [3]) Map.empty None (Ok []) (Some []))) = Some [Userkey \<mapsto> ''SSOUser'']"
  using failed_refresh_opens_login [of "''cookie''" "(working [2])\<lparr>ce_Write := Some (0, Error ''no space left on device'')\<rparr>"
      "[2]" "Error ''no space left on device''" "''0a''" "''0a''" Map.empty None "[3]" Map.empty]
  by (simp add: working_def is_alnum_def)

lemma equalASCIIFold_is_lower_case_equality_witness:
  "equalASCIIFold ''Localhost:3000'' ''localhost:3000'' \<and> \<not> equalASCIIFold ''a'' ''ab''"
  using equalASCIIFold_is_lower_case_equality [of "''Localhost:3000''" "''localhost:3000''"]
    equalASCIIFold_is_lower_case_equality [of "''a''" "''ab''"]
  by (simp add: ascii_def lower_char_def lower_rune_def)

end
