(* ===== verification/WebSockets.thy ===== *)
theory WebSockets
  imports WebAccess ChannelRequests Payments Broadcast
begin

text \<open>
  Web sockets, \<open>src/cmd/torq/internal/torqsrv/websocket.go\<close>: the check of the origin, the dispatch of
  a request to the request functions of \<open>ChannelRequests\<close> and \<open>Payments\<close>, and a connection with its
  goroutines, which meet on one unbuffered channel: the reader, one for each request, the listener of
  the broadcast server, and the loop that writes.  A second step relation joins the connections with
  the loop of the broadcast server (\<open>src/pkg/broadcast/broadcast.go\<close>), one handed over value at a time.
  The theorems say what a request is answered, that a client gets the events in order, and what a
  connection that ends while it forwards an event does to the program.
\<close>

section \<open>Who may connect\<close>

text \<open>\<open>origins\<close> are the values of the Origin header, \<open>parse_host\<close> is the host of \<open>url.Parse\<close>.\<close>

definition CheckOrigin :: "(string \<Rightarrow> string result) \<Rightarrow> string list \<Rightarrow> string \<Rightarrow> bool" where
  "CheckOrigin parse_host origins host =
     (if (case origins of [] \<Rightarrow> [] | first # rest \<Rightarrow> first) = ''http://localhost:3000'' then True
      else case origins of
             [] \<Rightarrow> True
           | first # rest \<Rightarrow>
               (case parse_host first of Inl e \<Rightarrow> False | Inr u \<Rightarrow> equalASCIIFold u host))"

lemma other_origins_refused:
  assumes "CheckOrigin parse_host origins host" and "origins = first # rest" and "first \<noteq> ''http://localhost:3000''"
  shows "\<exists>u. parse_host first = Ok u \<and> equalASCIIFold u host"
  using assms by (auto simp: CheckOrigin_def split: sum.splits)

section \<open>Requests\<close>

text \<open>Of a request the dispatcher never reads the password and the on-chain payment.\<close>

record wsRequest =
  wsr_ReqId :: string
  wsr_Type :: string
  wsr_NewPaymentRequest :: "NewPaymentRequest option"
  wsr_OpenChannelRequest :: "OpenChannelRequest option"
  wsr_CloseChannelRequest :: "CloseChannelRequest option"
  wsr_NewAddressRequest :: "NewAddressRequest option"

record wsError =
  wse_ReqId :: string
  wse_Type :: string
  wse_Error :: string

datatype BusEvent =
    OpenChannelEvent OpenChannelResponse
  | CloseChannelEvent CloseChannelResponse
  | NewAddressEvent NewAddressResponse
  | NewPaymentEvent NewPaymentResponse
  | OtherEvent string

datatype wsMessage = Pong string | ErrorMessage wsError | EventMessage BusEvent

definition sendError :: "go_error option \<Rightarrow> wsRequest \<Rightarrow> wsMessage list" where
  "sendError err req =
     (case err of
        None \<Rightarrow> []
      | Some e \<Rightarrow> [ErrorMessage \<lparr>wse_ReqId = wsr_ReqId req, wse_Type = ''Error'', wse_Error = error_text e\<rparr>])"

text \<open>What the request functions need: LND, the connections to the nodes, and the channel cache.\<close>

record WsEnv =
  we_ZeroTime :: time
  we_Connect :: "int \<Rightarrow> unit result"
  we_SendPayment :: "LndSendPayment \<Rightarrow> LndPayment recv list result"
  we_NextAddr :: "LndAddressRequest \<Rightarrow> string result"
  we_ChannelOrds :: channel_orders
  we_Channels :: ChannelState
  we_Close :: "LndCloseRequest \<Rightarrow> CloseStatusUpdate recv list result"
  we_Chainhash :: "bytes \<Rightarrow> string result"
  we_Peers :: "string list result"
  we_LndConnect :: "LndConnectRequest \<Rightarrow> go_error option"
  we_Open :: "LndOpenRequest \<Rightarrow> OpenStatusUpdate recv list result"

text \<open>
  The events a request sends, and the messages it writes to its own socket; None for a request
  function that has not returned.
\<close>

type_synonym answered_request = "BusEvent list \<times> wsMessage list option"

definition finish :: "wsRequest \<Rightarrow> ('e \<Rightarrow> BusEvent) \<Rightarrow> 'e list \<times> go_error option option \<Rightarrow> answered_request" where
  "finish req event x = (map event (fst x), map_option (\<lambda>e. sendError e req) (snd x))"

definition refuse :: "wsRequest \<Rightarrow> string \<Rightarrow> answered_request" where
  "refuse req t = ([], Some (sendError (Some (Error t)) req))"

definition with_request :: "wsRequest \<Rightarrow> string \<Rightarrow> 'r option \<Rightarrow> ('r \<Rightarrow> answered_request) \<Rightarrow> answered_request" where
  "with_request req name r f =
     (case r of None \<Rightarrow> refuse req (''unknown '' @ name @ '' for type: '' @ wsr_Type req) | Some r \<Rightarrow> f r)"

definition processWsReq :: "WsEnv \<Rightarrow> bool \<Rightarrow> wsRequest \<Rightarrow> answered_request" where
  "processWsReq env eventChannel req =
     (if wsr_Type req = ''ping'' then ([], Some [Pong ''pong''])
      else if wsr_ReqId req = [] then refuse req (''unknown ReqId for type: '' @ wsr_Type req)
      else if wsr_Type req = ''newPayment'' then
        with_request req ''NewPaymentRequest'' (wsr_NewPaymentRequest req) (\<lambda>r. finish req NewPaymentEvent
          (SendNewPayment (we_ZeroTime env) (we_Connect env) (we_SendPayment env) r eventChannel (wsr_ReqId req)))
      else if wsr_Type req = ''newAddress'' then
        with_request req ''NewAddressRequest'' (wsr_NewAddressRequest req) (\<lambda>r. finish req NewAddressEvent
          (map_prod id Some (NewAddress (we_Connect env) (we_NextAddr env) eventChannel r (wsr_ReqId req))))
      else if wsr_Type req = ''closeChannel'' then
        with_request req ''CloseChannelRequest'' (wsr_CloseChannelRequest req) (\<lambda>r. finish req CloseChannelEvent
          (CloseChannel (we_ChannelOrds env) (we_Channels env) (we_Connect env) (we_Close env) eventChannel r (wsr_ReqId req)))
      else if wsr_Type req = ''openChannel'' then
        with_request req ''OpenChannelRequest'' (wsr_OpenChannelRequest req) (\<lambda>r. finish req OpenChannelEvent
          (OpenChannel (we_Chainhash env) (we_Connect env) (we_Peers env) (we_LndConnect env) (we_Open env) eventChannel r
            (wsr_ReqId req)))
      else refuse req (''unknown request type: '' @ wsr_Type req))"

section \<open>A connection\<close>

datatype Reader = Reads | Complains wsError | ReaderLeft

datatype Listener = Listens | Forwards wsMessage | Cancels | ListenerLeft

datatype Sender = ByReader | ByRequest | ByListener

text \<open>
  \<open>done\<close> is closed when the reader left.  \<open>cn_Offers\<close> are the messages of finished requests that wait
  for the loop; \<open>cn_Serving\<close> says that the loop runs.  Two histories: the messages the loop took, with
  their senders and whether they could be written, and the events the listener took before \<open>done\<close> was
  closed.
\<close>

record Connection =
  cn_Reader :: Reader
  cn_Listener :: Listener
  cn_Offers :: "wsMessage list"
  cn_Serving :: bool
  cn_Taken :: "(Sender \<times> wsMessage \<times> bool) list"
  cn_Heard :: "BusEvent list"

definition WebsocketHandler :: Connection where
  "WebsocketHandler = \<lparr>cn_Reader = Reads, cn_Listener = Listens, cn_Offers = [], cn_Serving = True, cn_Taken = [], cn_Heard = []\<rparr>"

definition forwarded :: "BusEvent \<Rightarrow> wsMessage option" where
  "forwarded event = (case event of OtherEvent t \<Rightarrow> None | e \<Rightarrow> Some (EventMessage e))"

text \<open>
  What can happen: a request is read, with the messages its function writes once it returned; reading
  ends or fails; the loop takes a message and writes it or fails; it sees \<open>done\<close>; the listener takes an
  event, its cancellation is taken, or its channel is closed.
\<close>

datatype WsAction =
    ReadRequest "wsMessage list"
  | ReadCloseError
  | ReadOtherError string
  | TakeFromReader bool
  | TakeFromRequest nat bool
  | TakeFromListener bool
  | SeeDone
  | HearEvent BusEvent
  | CancelTaken
  | ChannelClosed

definition take_message :: "Sender \<Rightarrow> wsMessage \<Rightarrow> bool \<Rightarrow> Connection \<Rightarrow> Connection" where
  "take_message sender m written c = c\<lparr>cn_Taken := cn_Taken c @ [(sender, m, written)], cn_Serving := written\<rparr>"

definition ParseErrorText :: string where
  "ParseErrorText = ''Could not parse request, please check that your JSON is correctly formated.''"

fun ws_act :: "WsAction \<Rightarrow> Connection \<Rightarrow> Connection option" where
  "ws_act (ReadRequest ms) c = (if cn_Reader c = Reads then Some (c\<lparr>cn_Offers := cn_Offers c @ ms\<rparr>) else None)"
| "ws_act ReadCloseError c = (if cn_Reader c = Reads then Some (c\<lparr>cn_Reader := ReaderLeft\<rparr>) else None)"
| "ws_act (ReadOtherError reqId) c =
     (if cn_Reader c = Reads
      then Some (c\<lparr>cn_Reader := Complains \<lparr>wse_ReqId = reqId, wse_Type = ''Error'', wse_Error = ParseErrorText\<rparr>\<rparr>)
      else None)"
| "ws_act (TakeFromReader written) c =
     (case cn_Reader c of
        Complains e \<Rightarrow>
          if cn_Serving c then Some (take_message ByReader (ErrorMessage e) written (c\<lparr>cn_Reader := Reads\<rparr>)) else None
      | _ \<Rightarrow> None)"
| "ws_act (TakeFromRequest i written) c =
     (if cn_Serving c \<and> i < length (cn_Offers c)
      then Some (take_message ByRequest (cn_Offers c ! i) written
                   (c\<lparr>cn_Offers := take i (cn_Offers c) @ drop (Suc i) (cn_Offers c)\<rparr>))
      else None)"
| "ws_act (TakeFromListener written) c =
     (case cn_Listener c of
        Forwards m \<Rightarrow>
          if cn_Serving c then Some (take_message ByListener m written (c\<lparr>cn_Listener := Listens\<rparr>)) else None
      | _ \<Rightarrow> None)"
| "ws_act SeeDone c = (if cn_Serving c \<and> cn_Reader c = ReaderLeft then Some (c\<lparr>cn_Serving := False\<rparr>) else None)"
| "ws_act (HearEvent event) c =
     (if cn_Listener c \<noteq> Listens then None
      else if cn_Reader c = ReaderLeft then Some (c\<lparr>cn_Listener := Cancels\<rparr>)
      else Some (c\<lparr>cn_Listener := (case forwarded event of None \<Rightarrow> Listens | Some m \<Rightarrow> Forwards m),
                   cn_Heard := cn_Heard c @ [event]\<rparr>))"
| "ws_act CancelTaken c = (if cn_Listener c = Cancels then Some (c\<lparr>cn_Listener := ListenerLeft\<rparr>) else None)"
| "ws_act ChannelClosed c = (if cn_Listener c = Listens then Some (c\<lparr>cn_Listener := ListenerLeft\<rparr>) else None)"

fun ws_run :: "WsAction list \<Rightarrow> Connection \<Rightarrow> Connection option" where
  "ws_run [] c = Some c"
| "ws_run (a # as) c = (case ws_act a c of None \<Rightarrow> None | Some c1 \<Rightarrow> ws_run as c1)"

section \<open>Connections and the broadcast server\<close>

text \<open>
  The loop of the server, with a value under way to the listeners that are left.  Numbers without a
  connection are the other listeners of the program, which always take a value.
\<close>

record Bus =
  bus_Listeners :: "nat list"
  bus_Delivering :: "(BusEvent \<times> nat list) option"
  bus_TakenValues :: "BusEvent list"
  bus_Connections :: "nat \<rightharpoonup> Connection"

fun outside :: "WsAction \<Rightarrow> bool" where
  "outside (HearEvent e) = True" | "outside CancelTaken = True" | "outside ChannelClosed = True" | "outside _ = False"

inductive bus_step :: "Bus \<Rightarrow> Bus \<Rightarrow> bool" where
  bus_value: "bus_Delivering s = None \<Longrightarrow>
     bus_step s (s\<lparr>bus_Delivering := Some (v, bus_Listeners s), bus_TakenValues := bus_TakenValues s @ [v]\<rparr>)"
| bus_socket: "bus_Delivering s = Some (v, n # ns) \<Longrightarrow> bus_Connections s n = Some c \<Longrightarrow> ws_act (HearEvent v) c = Some c1 \<Longrightarrow>
     bus_step s (s\<lparr>bus_Delivering := Some (v, ns), bus_Connections := (bus_Connections s)(n \<mapsto> c1)\<rparr>)"
| bus_other: "bus_Delivering s = Some (v, n # ns) \<Longrightarrow> bus_Connections s n = None \<Longrightarrow>
     bus_step s (s\<lparr>bus_Delivering := Some (v, ns)\<rparr>)"
| bus_delivered: "bus_Delivering s = Some (v, []) \<Longrightarrow> bus_step s (s\<lparr>bus_Delivering := None\<rparr>)"
| bus_subscribe: "bus_Delivering s = None \<Longrightarrow> n \<notin> set (bus_Listeners s) \<Longrightarrow> bus_Connections s n = None \<Longrightarrow>
     c \<in> {None, Some WebsocketHandler} \<Longrightarrow>
     bus_step s (s\<lparr>bus_Listeners := bus_Listeners s @ [n], bus_Connections := (bus_Connections s)(n := c)\<rparr>)"
| bus_cancel: "bus_Delivering s = None \<Longrightarrow> bus_Connections s n = Some c \<Longrightarrow> ws_act CancelTaken c = Some c1 \<Longrightarrow>
     bus_step s (s\<lparr>bus_Listeners := swap_remove n (bus_Listeners s), bus_Connections := (bus_Connections s)(n \<mapsto> c1)\<rparr>)"
| bus_connection: "bus_Connections s n = Some c \<Longrightarrow> \<not> outside a \<Longrightarrow> ws_act a c = Some c1 \<Longrightarrow>
     bus_step s (s\<lparr>bus_Connections := (bus_Connections s)(n \<mapsto> c1)\<rparr>)"

abbreviation bus_run :: "Bus \<Rightarrow> Bus \<Rightarrow> bool" where
  "bus_run \<equiv> bus_step\<^sup>*\<^sup>*"

section \<open>What a request is answered\<close>

fun event_reqId :: "BusEvent \<Rightarrow> string" where
  "event_reqId (OpenChannelEvent r) = ocs_ReqId r"
| "event_reqId (CloseChannelEvent r) = ccs_ReqId r"
| "event_reqId (NewAddressEvent r) = nas_ReqId r"
| "event_reqId (NewPaymentEvent r) = nps_ReqId r"
| "event_reqId (OtherEvent t) = []"

lemma loop_events: "x \<in> set (fst (on_channel ec (recv_loop process failed stream))) \<Longrightarrow> \<exists>m. process m = Ok x"
  by (induction process failed stream rule: recv_loop.induct)
    (auto simp: on_channel_def split: if_splits sum.splits prod.splits)

lemma payment_reqId: "x \<in> set (fst (SendNewPayment z connect lnd r ec reqId)) \<Longrightarrow> nps_ReqId x = reqId"
  by (auto simp: SendNewPayment_def sendPayment_def processPaymentResponse_def dest!: loop_events
      split: if_splits sum.splits)

lemma address_reqId: "x \<in> set (fst (NewAddress connect next ec r reqId)) \<Longrightarrow> nas_ReqId x = reqId"
  by (auto simp: NewAddress_def newAddress_def processAddressResponse_def split: if_splits sum.splits)

lemma close_reqId: "x \<in> set (fst (CloseChannel ords cs connect close ec r reqId)) \<Longrightarrow> ccs_ReqId x \<in> {reqId, []}"
  by (auto simp: CloseChannel_def closeChannelResp_def processCloseResponse_def zeroCloseResponse_def dest!: loop_events
      split: if_splits sum.splits option.splits CloseStatusUpdate.splits)

lemma open_reqId: "x \<in> set (fst (OpenChannel h connect peers lc lnd ec r reqId)) \<Longrightarrow> ocs_ReqId x \<in> {reqId, []}"
  by (auto simp: OpenChannel_def processOpenResponse_def zeroOpenResponse_def dest!: loop_events
      split: if_splits sum.splits option.splits OpenStatusUpdate.splits)

definition error_answer :: "wsRequest \<Rightarrow> string \<Rightarrow> wsMessage list" where
  "error_answer req t = [ErrorMessage \<lparr>wse_ReqId = wsr_ReqId req, wse_Type = ''Error'', wse_Error = t\<rparr>]"

definition well_answered :: "wsRequest \<Rightarrow> answered_request \<Rightarrow> bool" where
  "well_answered req out \<longleftrightarrow>
     (\<forall>e \<in> set (fst out). wsr_ReqId req \<noteq> [] \<and> event_reqId e \<in> {wsr_ReqId req, []}) \<and>
     (snd out = None \<or> snd out = Some [] \<or> snd out = Some [Pong ''pong''] \<or> (\<exists>t. snd out = Some (error_answer req t)))"

lemma well_answered_if:
  "(b \<Longrightarrow> well_answered req x) \<Longrightarrow> (\<not> b \<Longrightarrow> well_answered req y) \<Longrightarrow> well_answered req (if b then x else y)"
  by simp

lemma well_answered_refuse: "well_answered req (refuse req t)"
  by (auto simp: well_answered_def refuse_def sendError_def error_answer_def)

lemma well_answered_request:
  assumes "wsr_ReqId req \<noteq> []" and "\<And>r x. x \<in> set (fst (f r)) \<Longrightarrow> event_reqId (event x) \<in> {wsr_ReqId req, []}"
  shows "well_answered req (with_request req name r (\<lambda>r. finish req event (f r)))"
proof (cases r)
  case (Some r')
  have "snd (finish req event (f r')) = None \<or> snd (finish req event (f r')) = Some [] \<or>
      (\<exists>t. snd (finish req event (f r')) = Some (error_answer req t))"
    by (cases "snd (f r')") (auto simp: finish_def sendError_def error_answer_def split: option.splits)
  moreover have "\<forall>e \<in> set (fst (finish req event (f r'))). event_reqId e \<in> {wsr_ReqId req, []}"
    using assms(2) by (auto simp: finish_def)
  ultimately show ?thesis using Some assms(1) by (auto simp: well_answered_def with_request_def)
qed (simp add: with_request_def well_answered_refuse)

text \<open>
  A request is answered on its own socket by at most one message: a pong, or an error with its
  id.  Only a request with an id does anything, and the events it sends carry that id or, for an
  update of LND that the code does not know, none.
\<close>

lemma request_answered_once:
  "well_answered req (processWsReq env eventChannel req)"
proof -
  have ping: "well_answered req ([], Some [Pong ''pong''])" by (simp add: well_answered_def)
  have requests:
    "wsr_ReqId req \<noteq> [] \<Longrightarrow> well_answered req (with_request req name r1 (\<lambda>r. finish req NewPaymentEvent
       (SendNewPayment (we_ZeroTime env) (we_Connect env) (we_SendPayment env) r eventChannel (wsr_ReqId req))))"
    "wsr_ReqId req \<noteq> [] \<Longrightarrow> well_answered req (with_request req name r2 (\<lambda>r. finish req NewAddressEvent
       (map_prod id Some (NewAddress (we_Connect env) (we_NextAddr env) eventChannel r (wsr_ReqId req)))))"
    "wsr_ReqId req \<noteq> [] \<Longrightarrow> well_answered req (with_request req name r3 (\<lambda>r. finish req CloseChannelEvent
       (CloseChannel (we_ChannelOrds env) (we_Channels env) (we_Connect env) (we_Close env) eventChannel r (wsr_ReqId req))))"
    "wsr_ReqId req \<noteq> [] \<Longrightarrow> well_answered req (with_request req name r4 (\<lambda>r. finish req OpenChannelEvent
       (OpenChannel (we_Chainhash env) (we_Connect env) (we_Peers env) (we_LndConnect env) (we_Open env) eventChannel r
         (wsr_ReqId req))))" for name r1 r2 r3 r4
    by (erule well_answered_request; auto dest: payment_reqId address_reqId close_reqId open_reqId)+
  show ?thesis
    unfolding processWsReq_def
    by (intro well_answered_if ping well_answered_refuse requests)
qed

section \<open>What a client gets\<close>

definition in_flight :: "Connection \<Rightarrow> wsMessage list" where
  "in_flight c = (case cn_Listener c of Forwards m \<Rightarrow> [m] | _ \<Rightarrow> [])"

definition taken_by :: "Sender \<Rightarrow> Connection \<Rightarrow> wsMessage list" where
  "taken_by sender c = map (fst \<circ> snd) (filter (\<lambda>x. fst x = sender) (cn_Taken c))"

definition connection_ok :: "Connection \<Rightarrow> bool" where
  "connection_ok c \<longleftrightarrow>
     List.map_filter forwarded (cn_Heard c) = taken_by ByListener c @ in_flight c \<and>
     (\<forall>x \<in> set (butlast (cn_Taken c)). snd (snd x)) \<and>
     (cn_Serving c \<longrightarrow> (\<forall>x \<in> set (cn_Taken c). snd (snd x)))"

lemma heard_snoc: "List.map_filter forwarded (xs @ [e]) = List.map_filter forwarded xs @
    (case forwarded e of None \<Rightarrow> [] | Some m \<Rightarrow> [m])"
  by (simp add: List.map_filter_def split: option.splits)

lemma taken_by_take:
  "taken_by s (take_message t m b c) = taken_by s c @ (if t = s then [m] else [])"
  "in_flight (take_message t m b c) = in_flight c" "cn_Heard (take_message t m b c) = cn_Heard c"
  by (simp_all add: taken_by_def take_message_def in_flight_def)

lemma connection_ok_take:
  assumes "List.map_filter forwarded (cn_Heard c) = taken_by ByListener c @ (if t = ByListener then [m] else []) @ in_flight c"
    and "\<forall>x \<in> set (cn_Taken c). snd (snd x)"
  shows "connection_ok (take_message t m b c)"
  using assms by (auto simp: connection_ok_def taken_by_take) (auto simp: take_message_def)

lemma connection_ok_act:
  assumes "ws_act a c = Some c1" and ok: "connection_ok c"
  shows "connection_ok c1"
proof (cases a)
  case (TakeFromReader b)
  with assms obtain e where "cn_Reader c = Complains e" "cn_Serving c"
    and c1: "c1 = take_message ByReader (ErrorMessage e) b (c\<lparr>cn_Reader := Reads\<rparr>)"
    by (auto split: Reader.splits if_splits)
  with ok show ?thesis unfolding c1 by (intro connection_ok_take) (auto simp: connection_ok_def taken_by_def in_flight_def)
next
  case (TakeFromRequest i b)
  with assms have "cn_Serving c" and c1: "c1 = take_message ByRequest (cn_Offers c ! i) b
      (c\<lparr>cn_Offers := take i (cn_Offers c) @ drop (Suc i) (cn_Offers c)\<rparr>)" by (auto split: if_splits)
  with ok show ?thesis unfolding c1 by (intro connection_ok_take) (auto simp: connection_ok_def taken_by_def in_flight_def)
next
  case (TakeFromListener b)
  with assms obtain m where "cn_Listener c = Forwards m" "cn_Serving c"
    and c1: "c1 = take_message ByListener m b (c\<lparr>cn_Listener := Listens\<rparr>)"
    by (auto split: Listener.splits if_splits)
  with ok show ?thesis unfolding c1 by (intro connection_ok_take) (auto simp: connection_ok_def taken_by_def in_flight_def)
next
  case (HearEvent e)
  with assms show ?thesis
    by (auto simp: connection_ok_def taken_by_def in_flight_def heard_snoc split: if_splits option.splits)
qed (use assms in \<open>auto simp: connection_ok_def taken_by_def in_flight_def split: if_splits\<close>)

lemma connection_ok_run: "ws_run as c = Some c1 \<Longrightarrow> connection_ok c \<Longrightarrow> connection_ok c1"
  by (induction as arbitrary: c) (auto split: option.splits dest: connection_ok_act)

text \<open>
  The events that a connection forwards reach its writer in the order of the broadcast, none lost
  and none twice: what the writer took from the listener, followed by the event in flight, is what
  the listener heard; and of all messages the writer took only the last may be unwritten.
\<close>

lemma events_forwarded_in_order:
  assumes "ws_run as WebsocketHandler = Some c"
  shows "List.map_filter forwarded (cn_Heard c) = taken_by ByListener c @ in_flight c \<and>
    (\<forall>x \<in> set (butlast (cn_Taken c)). snd (snd x))"
proof -
  have "connection_ok WebsocketHandler"
    by (simp add: connection_ok_def WebsocketHandler_def taken_by_def in_flight_def List.map_filter_def)
  from connection_ok_run [OF assms this] show ?thesis by (simp add: connection_ok_def)
qed

section \<open>A connection that ends while it forwards\<close>

definition stuck :: "nat \<Rightarrow> wsMessage \<Rightarrow> Bus \<Rightarrow> bool" where
  "stuck n m s \<longleftrightarrow> n \<in> set (bus_Listeners s) \<and>
     (\<exists>c. bus_Connections s n = Some c \<and> cn_Listener c = Forwards m \<and> \<not> cn_Serving c)"

lemma stuck_act:
  assumes "ws_act a c = Some c1" and "cn_Listener c = Forwards m" and "\<not> cn_Serving c"
  shows "cn_Listener c1 = Forwards m" and "\<not> cn_Serving c1" and "\<not> outside a"
  using assms by (cases a; auto split: if_splits Reader.splits)+

lemma swap_remove_keeps: "x \<in> set ls \<Longrightarrow> x \<noteq> ch \<Longrightarrow> x \<in> set (swap_remove ch ls)"
proof (induction ls)
  case (Cons l ls)
  have "ls \<noteq> [] \<Longrightarrow> set ls = insert (last ls) (set (butlast ls))" by (cases ls rule: rev_cases) auto
  with Cons show ?case by auto
qed simp

text \<open>The values the server took since a moment, with the one under way that the connection did not get.\<close>

definition taken_since :: "nat \<Rightarrow> Bus \<Rightarrow> Bus \<Rightarrow> bool" where
  "taken_since n s t \<longleftrightarrow>
     bus_TakenValues t = bus_TakenValues s \<or>
     (\<exists>v ns. bus_TakenValues t = bus_TakenValues s @ [v] \<and> bus_Delivering t = Some (v, ns) \<and> n \<in> set ns)"

lemma stuck_step:
  assumes "bus_step t u" and "stuck n m t" and "taken_since n s t"
  shows "stuck n m u \<and> taken_since n s u"
  using assms
proof (induction rule: bus_step.induct)
  case (bus_value t v)
  then show ?case by (auto simp: stuck_def taken_since_def)
next
  case (bus_socket t v k ns c c1)
  then show ?case using stuck_act [OF bus_socket(3)] by (cases "k = n") (auto simp: stuck_def taken_since_def)
next
  case (bus_other t v k ns)
  then show ?case by (auto simp: stuck_def taken_since_def)
next
  case (bus_delivered t v)
  then show ?case by (auto simp: stuck_def taken_since_def)
next
  case (bus_subscribe t k c)
  then show ?case by (auto simp: stuck_def taken_since_def)
next
  case (bus_cancel t k c c1)
  then show ?case using stuck_act [OF bus_cancel(3)] swap_remove_keeps [of n "bus_Listeners t" k]
    by (cases "k = n") (auto simp: stuck_def taken_since_def)
next
  case (bus_connection t k c a c1)
  then show ?case using stuck_act [OF bus_connection(3)] by (cases "k = n") (auto simp: stuck_def taken_since_def)
qed

text \<open>
  C34: When the handler of a connection has returned while its listener has an event to forward, the
  listener waits forever, stays subscribed, and the broadcast server takes at most one more event for
  the rest of the run: no goroutine of the program hears of any later event.
\<close>

theorem ended_socket_stops_all_events:
  assumes "bus_run s t" and "stuck n m s"
  shows "stuck n m t \<and> length (bus_TakenValues t) \<le> length (bus_TakenValues s) + 1"
proof -
  have "stuck n m t \<and> taken_since n s t"
    using assms(1)
  proof (induction rule: rtranclp_induct)
    case base
    then show ?case using assms(2) by (simp add: taken_since_def)
  next
    case (step t u)
    then show ?case using stuck_step by blast
  qed
  then show ?thesis by (auto simp: taken_since_def)
qed

section \<open>Examples\<close>

definition sample_event :: BusEvent where
  "sample_event = NewAddressEvent \<lparr>nas_ReqId = ''q'', nas_Request = \<lparr>nar_NodeId = 1, nar_Type = 0, nar_Account = []\<rparr>, nas_Address = ''bc1''\<rparr>"

lemma events_forwarded_in_order_witness:
  "\<exists>c. ws_run [HearEvent (OtherEvent ''peer''), HearEvent sample_event, TakeFromListener True, HearEvent sample_event]
       WebsocketHandler = Some c \<and>
     List.map_filter forwarded (cn_Heard c) = taken_by ByListener c @ in_flight c \<and> in_flight c = [EventMessage sample_event]"
proof -
  obtain c where c: "ws_run [HearEvent (OtherEvent ''peer''), HearEvent sample_event, TakeFromListener True, HearEvent sample_event]
      WebsocketHandler = Some c" "in_flight c = [EventMessage sample_event]"
    by (simp add: WebsocketHandler_def forwarded_def sample_event_def take_message_def in_flight_def)
  with events_forwarded_in_order [OF c(1)] show ?thesis by blast
qed

text \<open>
  A client that closes its socket while an event is forwarded to it: the reader leaves, the loop sees
  \<open>done\<close> before it takes the event, and the handler returns.
\<close>

definition bus_at :: "(BusEvent \<times> nat list) option \<Rightarrow> Connection \<Rightarrow> Bus" where
  "bus_at d c = \<lparr>bus_Listeners = [0, 1], bus_Delivering = d, bus_TakenValues = [sample_event], bus_Connections = [0 \<mapsto> c]\<rparr>"

lemma closing_while_forwarding:
  defines "c \<equiv> WebsocketHandler\<lparr>cn_Listener := Forwards (EventMessage sample_event), cn_Heard := [sample_event],
      cn_Reader := ReaderLeft, cn_Serving := False\<rparr>"
  shows "bus_run (bus_at (Some (sample_event, [0, 1])) WebsocketHandler) (bus_at (Some (sample_event, [1])) c)"
proof -
  let ?c1 = "WebsocketHandler\<lparr>cn_Listener := Forwards (EventMessage sample_event), cn_Heard := [sample_event]\<rparr>"
  let ?c2 = "?c1\<lparr>cn_Reader := ReaderLeft\<rparr>"
  have "bus_step (bus_at (Some (sample_event, [0, 1])) WebsocketHandler) (bus_at (Some (sample_event, [1])) ?c1)"
    using bus_socket [of "bus_at (Some (sample_event, [0, 1])) WebsocketHandler" sample_event 0 "[1]" WebsocketHandler ?c1]
    by (simp add: bus_at_def WebsocketHandler_def forwarded_def sample_event_def)
  moreover have "bus_step (bus_at (Some (sample_event, [1])) ?c1) (bus_at (Some (sample_event, [1])) ?c2)"
    using bus_connection [of "bus_at (Some (sample_event, [1])) ?c1" 0 ?c1 ReadCloseError ?c2]
    by (simp add: bus_at_def WebsocketHandler_def)
  moreover have "bus_step (bus_at (Some (sample_event, [1])) ?c2) (bus_at (Some (sample_event, [1])) c)"
    using bus_connection [of "bus_at (Some (sample_event, [1])) ?c2" 0 ?c2 SeeDone c]
    by (simp add: bus_at_def WebsocketHandler_def c_def)
  ultimately show ?thesis by (meson converse_rtranclp_into_rtranclp r_into_rtranclp)
qed

theorem ended_socket_stops_all_events_witness:
  "\<exists>s t. bus_run (bus_at (Some (sample_event, [0, 1])) WebsocketHandler) s \<and> bus_run s t \<and>
     stuck 0 (EventMessage sample_event) t \<and> length (bus_TakenValues t) \<le> length (bus_TakenValues s) + 1"
proof -
  let ?c = "WebsocketHandler\<lparr>cn_Listener := Forwards (EventMessage sample_event), cn_Heard := [sample_event],
      cn_Reader := ReaderLeft, cn_Serving := False\<rparr>"
  let ?s = "bus_at (Some (sample_event, [1])) ?c" and ?t = "bus_at (Some (sample_event, [])) ?c"
  have "bus_run ?s ?t"
    using bus_other [of ?s sample_event 1 "[]"] by (intro r_into_rtranclp) (simp add: bus_at_def)
  moreover have "stuck 0 (EventMessage sample_event) ?s" by (simp add: stuck_def bus_at_def)
  ultimately show ?thesis using ended_socket_stops_all_events closing_while_forwarding by blast
qed

end
