(* ===== verification/TableViews.thy ===== *)
theory TableViews
  imports ServerErrors
begin

text \<open>
  The stored views of the tables of the user interface, \<open>src/internal/views/\<close>: rows that are listed,
  inserted, updated, deleted and put in order, and the conversion of old views at every listing.  A JSON
  text is represented by what \<open>json.Unmarshal\<close> finds in it, since the code does nothing else with it:
  each field is absent, null or given.  The theorems say where a new view is put, what an update of the
  order does, and how the conversion, which unmarshals every view into the same variable, carries the
  fields that one view lacks over from the view before it.
\<close>

section \<open>Views and their texts\<close>

datatype 'a field = Absent | Null | Given 'a

record ViewColumn =
  vc_Key :: string
  vc_Heading :: string
  vc_Type :: string
  vc_ValueType :: string

record ViewOrder =
  vo_Value :: string
  vo_Direction :: string
  vo_Label :: string

text \<open>The parameter of a filter is any JSON value, kept as its text.\<close>

record ViewFilter =
  fi_FuncName :: string
  fi_Key :: string
  fi_Parameter :: "string option"
  fi_Category :: string

text \<open>A slice is None when it is nil; a pointer is None when it is nil.\<close>

datatype ViewClauses =
  ViewClauses (fc_And: "ViewClauses list option") (fc_Or: "ViewClauses list option") (fc_Filter: "ViewFilter option")

record TableViewDetail =
  tvd_Title :: string
  tvd_Saved :: bool
  tvd_Columns :: "ViewColumn list option"
  tvd_Page :: string
  tvd_SortBy :: "ViewOrder list option"
  tvd_Id :: int
  tvd_Filters :: ViewClauses

definition zeroFilter :: ViewFilter where
  "zeroFilter = \<lparr>fi_FuncName = [], fi_Key = [], fi_Parameter = None, fi_Category = []\<rparr>"

definition zeroDetail :: TableViewDetail where
  "zeroDetail = \<lparr>tvd_Title = [], tvd_Saved = False, tvd_Columns = None, tvd_Page = [], tvd_SortBy = None, tvd_Id = 0,
     tvd_Filters = ViewClauses None None None\<rparr>"

text \<open>The same objects as texts.  The elements of an array are decoded from zero values.\<close>

record FilterText =
  ft_FuncName :: "string field"
  ft_Key :: "string field"
  ft_Parameter :: "string field"
  ft_Category :: "string field"

record ClausesText =
  ct_And :: "ViewClauses list field"
  ct_Or :: "ViewClauses list field"
  ct_Filter :: "FilterText field"

record ViewText =
  vt_Title :: "string field"
  vt_Saved :: "bool field"
  vt_Columns :: "ViewColumn list field"
  vt_Page :: "string field"
  vt_SortBy :: "ViewOrder list field"
  vt_Id :: "int field"
  vt_Filters :: "ClausesText field"

text \<open>\<open>json.Unmarshal\<close> into a variable that has a value: what is absent keeps it, so does a null that is no slice or pointer.\<close>

definition into_value :: "'a field \<Rightarrow> 'a \<Rightarrow> 'a" where
  "into_value f old = (case f of Given v \<Rightarrow> v | _ \<Rightarrow> old)"

definition into_slice :: "'a list field \<Rightarrow> 'a list option \<Rightarrow> 'a list option" where
  "into_slice f old = (case f of Absent \<Rightarrow> old | Null \<Rightarrow> None | Given xs \<Rightarrow> Some xs)"

definition into_filter :: "FilterText field \<Rightarrow> ViewFilter option \<Rightarrow> ViewFilter option" where
  "into_filter f old =
     (case f of
        Absent \<Rightarrow> old
      | Null \<Rightarrow> None
      | Given t \<Rightarrow>
          (let z = opt old zeroFilter in
           Some \<lparr>fi_FuncName = into_value (ft_FuncName t) (fi_FuncName z), fi_Key = into_value (ft_Key t) (fi_Key z),
                 fi_Parameter = (case ft_Parameter t of Absent \<Rightarrow> fi_Parameter z | Null \<Rightarrow> None | Given p \<Rightarrow> Some p),
                 fi_Category = into_value (ft_Category t) (fi_Category z)\<rparr>))"

definition into_clauses :: "ClausesText field \<Rightarrow> ViewClauses \<Rightarrow> ViewClauses" where
  "into_clauses f old =
     (case f of
        Given t \<Rightarrow> ViewClauses (into_slice (ct_And t) (fc_And old)) (into_slice (ct_Or t) (fc_Or old))
                     (into_filter (ct_Filter t) (fc_Filter old))
      | _ \<Rightarrow> old)"

definition unmarshal :: "ViewText \<Rightarrow> TableViewDetail \<Rightarrow> TableViewDetail" where
  "unmarshal t old =
     \<lparr>tvd_Title = into_value (vt_Title t) (tvd_Title old), tvd_Saved = into_value (vt_Saved t) (tvd_Saved old),
      tvd_Columns = into_slice (vt_Columns t) (tvd_Columns old), tvd_Page = into_value (vt_Page t) (tvd_Page old),
      tvd_SortBy = into_slice (vt_SortBy t) (tvd_SortBy old), tvd_Id = into_value (vt_Id t) (tvd_Id old),
      tvd_Filters = into_clauses (vt_Filters t) (tvd_Filters old)\<rparr>"

text \<open>
  \<open>json.Marshal\<close>: a nil slice is null; with \<open>omitempty\<close> a slice without elements, a nil pointer and an
  empty text are left out.
\<close>

definition slice_text :: "'a list option \<Rightarrow> 'a list field" where
  "slice_text xs = (case xs of None \<Rightarrow> Null | Some ys \<Rightarrow> Given ys)"

definition clauses_text :: "ViewClauses list option \<Rightarrow> ViewClauses list field" where
  "clauses_text xs = (case xs of None \<Rightarrow> Absent | Some ys \<Rightarrow> if ys = [] then Absent else Given ys)"

definition text_text :: "string \<Rightarrow> string field" where
  "text_text s = (if s = [] then Absent else Given s)"

definition none_if_empty :: "'a list option \<Rightarrow> 'a list option" where
  "none_if_empty xs = (if xs = Some [] then None else xs)"

primrec omit_empty :: "ViewClauses \<Rightarrow> ViewClauses" where
  "omit_empty (ViewClauses a r f) =
     ViewClauses (none_if_empty (map_option (map omit_empty) a)) (none_if_empty (map_option (map omit_empty) r)) f"

definition filter_text :: "ViewFilter option \<Rightarrow> FilterText field" where
  "filter_text f =
     (case f of
        None \<Rightarrow> Absent
      | Some x \<Rightarrow> Given \<lparr>ft_FuncName = text_text (fi_FuncName x), ft_Key = text_text (fi_Key x),
                         ft_Parameter = (case fi_Parameter x of None \<Rightarrow> Absent | Some p \<Rightarrow> Given p),
                         ft_Category = text_text (fi_Category x)\<rparr>)"

definition marshal :: "TableViewDetail \<Rightarrow> ViewText" where
  "marshal d =
     \<lparr>vt_Title = Given (tvd_Title d), vt_Saved = Given (tvd_Saved d), vt_Columns = slice_text (tvd_Columns d),
      vt_Page = Given (tvd_Page d), vt_SortBy = slice_text (tvd_SortBy d), vt_Id = Given (tvd_Id d),
      vt_Filters = Given \<lparr>ct_And = clauses_text (map_option (map omit_empty) (fc_And (tvd_Filters d))),
                          ct_Or = clauses_text (map_option (map omit_empty) (fc_Or (tvd_Filters d))),
                          ct_Filter = filter_text (fc_Filter (tvd_Filters d))\<rparr>\<rparr>"

section \<open>The table\<close>

text \<open>The text of a row may be of another shape than the program unmarshals.\<close>

record TableView =
  tv_Id :: int
  tv_View :: "ViewText result"
  tv_Page :: string
  tv_ViewOrder :: "int option"
  tv_Version :: string

text \<open>\<open>vs_Locked\<close> are the rows that a transaction without an end has updated.\<close>

record ViewTable =
  vs_Rows :: "TableView list"
  vs_NextId :: int
  vs_Locked :: "int set"

record ViewEnv =
  ve_Select :: "go_error option"
  ve_Max :: "go_error option"
  ve_Insert :: "go_error option"
  ve_Update :: "int \<Rightarrow> go_error option"
  ve_Delete :: "go_error option"
  ve_Begin :: bool
  ve_Order :: "nat \<Rightarrow> go_error option"
  ve_Commit :: "go_error option"
  ve_Ties :: "TableView list \<Rightarrow> TableView list"

text \<open>\<open>ORDER BY view_order\<close>: rows without an order last, rows of the same order as the database has them.\<close>

definition not_after :: "TableView \<Rightarrow> TableView \<Rightarrow> bool" where
  "not_after r s \<longleftrightarrow> (case (tv_ViewOrder r, tv_ViewOrder s) of
     (Some m, Some n) \<Rightarrow> m \<le> n | (None, Some n) \<Rightarrow> False | _ \<Rightarrow> True)"

fun insert_row :: "TableView \<Rightarrow> TableView list \<Rightarrow> TableView list" where
  "insert_row r [] = [r]"
| "insert_row r (s # rows) = (if not_after r s then r # s # rows else s # insert_row r rows)"

definition getTableViews :: "ViewEnv \<Rightarrow> ViewTable \<Rightarrow> TableView list result" where
  "getTableViews env db =
     (case ve_Select env of
        Some e \<Rightarrow> Inl (wrapped ''Unable to get table views. SQL statement error'' e)
      | None \<Rightarrow> Ok (foldr insert_row (ve_Ties env (vs_Rows db)) []))"

definition insertTableView :: "ViewEnv \<Rightarrow> ViewText result \<Rightarrow> string \<Rightarrow> ViewTable \<Rightarrow> ViewTable \<times> TableView result" where
  "insertTableView env view page db =
     (case ve_Max env of
        Some e \<Rightarrow> (db, Inl (wrapped ''Unable to get highest view order. SQL statement error'' e))
      | None \<Rightarrow>
          (let orders = List.map_filter tv_ViewOrder (filter (\<lambda>r. tv_Page r = page) (vs_Rows db));
               nextViewOrder = (if orders = [] then 1 else Max (set orders) + 1);
               row = \<lparr>tv_Id = vs_NextId db, tv_View = view, tv_Page = page, tv_ViewOrder = Some nextViewOrder, tv_Version = ''v2''\<rparr>
           in case ve_Insert env of
                Some e \<Rightarrow> (db, Inl (wrapped ''Unable to create view. SQL statement error'' e))
              | None \<Rightarrow> (db\<lparr>vs_Rows := vs_Rows db @ [row], vs_NextId := vs_NextId db + 1\<rparr>, Ok row)))"

text \<open>The update names neither the version nor the page.  It waits forever for a locked row.\<close>

definition updateTableView :: "ViewEnv \<Rightarrow> int \<Rightarrow> ViewText result \<Rightarrow> ViewTable \<Rightarrow> (ViewTable \<times> TableView result) option" where
  "updateTableView env viewId view db =
     (case ve_Update env viewId of
        Some e \<Rightarrow> Some (db, Inl (wrapped ''Unable to create view. SQL statement error'' e))
      | None \<Rightarrow>
          (case find (\<lambda>r. tv_Id r = viewId) (vs_Rows db) of
             None \<Rightarrow> Some (db, Inl (wrapped ''Unable to create view. SQL statement error'' (Error ''sql: no rows in result set'')))
           | Some row \<Rightarrow>
               if viewId \<in> vs_Locked db then None
               else Some (db\<lparr>vs_Rows := map (\<lambda>r. if tv_Id r = viewId then r\<lparr>tv_View := view\<rparr> else r) (vs_Rows db)\<rparr>,
                          Ok (row\<lparr>tv_View := view\<rparr>))))"

definition deleteTableView :: "ViewEnv \<Rightarrow> int \<Rightarrow> ViewTable \<Rightarrow> (ViewTable \<times> unit result) option" where
  "deleteTableView env viewId db =
     (case ve_Delete env of
        Some e \<Rightarrow> Some (db, Inl (wrapped ''Unable to create view. SQL statement error'' e))
      | None \<Rightarrow>
          if viewId \<in> vs_Locked db then None
          else Some (db\<lparr>vs_Rows := filter (\<lambda>r. tv_Id r \<noteq> viewId) (vs_Rows db)\<rparr>, Ok ()))"

text \<open>The statements of the transaction; None waits for a locked row.\<close>

fun order_rows :: "ViewEnv \<Rightarrow> int set \<Rightarrow> nat \<Rightarrow> (int \<times> int) list \<Rightarrow> TableView list \<Rightarrow> (TableView list \<times> (nat \<times> go_error) option) option" where
  "order_rows env locked i [] rows = Some (rows, None)"
| "order_rows env locked i ((viewId, n) # orders) rows =
     (case ve_Order env i of
        Some e \<Rightarrow> Some (rows, Some (i, e))
      | None \<Rightarrow>
          if viewId \<in> locked then None
          else order_rows env locked (Suc i) orders (map (\<lambda>r. if tv_Id r = viewId then r\<lparr>tv_ViewOrder := Some n\<rparr> else r) rows))"

text \<open>
  A failed statement leaves the function without ending the transaction: its changes are never seen,
  and the rows it changed stay locked.  \<open>MustBegin\<close> panics.
\<close>

definition updateTableViewOrder :: "ViewEnv \<Rightarrow> (int \<times> int) list \<Rightarrow> ViewTable \<Rightarrow> (ViewTable \<times> unit result) option" where
  "updateTableViewOrder env viewOrders db =
     (if \<not> ve_Begin env then Some (db, Inl (Panic ''sqlx: MustBegin''))
      else case order_rows env (vs_Locked db) 0 viewOrders (vs_Rows db) of
             None \<Rightarrow> None
           | Some (rows, Some (i, e)) \<Rightarrow>
               Some (db\<lparr>vs_Locked := vs_Locked db \<union> (fst ` set (take i viewOrders) \<inter> tv_Id ` set (vs_Rows db))\<rparr>,
                     Inl (wrapped ''Unable to update view order. SQL statement error'' e))
           | Some (rows, None) \<Rightarrow>
               (case ve_Commit env of
                  Some e \<Rightarrow> Some (db, Inl (wrapped ''Unable to commit update view order. SQL statement error'' e))
                | None \<Rightarrow> Some (db\<lparr>vs_Rows := rows\<rparr>, Ok ())))"

section \<open>The conversion of old views\<close>

text \<open>
  The keys of one view in camel case; \<open>camel\<close> is \<open>strcase.ToLowerCamel\<close>.  A clause without a filter
  is a nil pointer that is read.
\<close>

definition camel_clauses :: "(string \<Rightarrow> string) \<Rightarrow> ViewClauses list option \<Rightarrow> ViewClauses list option option" where
  "camel_clauses camel cs =
     (case cs of
        None \<Rightarrow> Some None
      | Some xs \<Rightarrow>
          if \<exists>c \<in> set xs. fc_Filter c = None then None
          else Some (Some (map (\<lambda>c. ViewClauses (fc_And c) (fc_Or c)
                                   (map_option (\<lambda>f. f\<lparr>fi_Key := camel (fi_Key f)\<rparr>) (fc_Filter c))) xs)))"

definition camel_view :: "(string \<Rightarrow> string) \<Rightarrow> TableViewDetail \<Rightarrow> TableViewDetail option" where
  "camel_view camel d =
     (case (camel_clauses camel (fc_And (tvd_Filters d)), camel_clauses camel (fc_Or (tvd_Filters d))) of
        (Some a, Some r) \<Rightarrow>
          Some (d\<lparr>tvd_Columns := map_option (map (\<lambda>c. c\<lparr>vc_Key := camel (vc_Key c)\<rparr>)) (tvd_Columns d),
                  tvd_SortBy := map_option (map (\<lambda>x. x\<lparr>vo_Value := camel (vo_Value x)\<rparr>)) (tvd_SortBy d),
                  tvd_Filters := ViewClauses a r (fc_Filter (tvd_Filters d))\<rparr>)
      | _ \<Rightarrow> None)"

text \<open>
  The loop over the rows.  \<open>carried\<close> is the variable that is declared before the loop; the slices of a
  converted view are those of the variable, so it carries the converted view on.  The rows that are
  answered are those that were read.
\<close>

fun convertView ::
    "(string \<Rightarrow> string) \<Rightarrow> ViewEnv \<Rightarrow> TableView list \<Rightarrow> TableViewDetail \<Rightarrow> ViewTable \<Rightarrow> (ViewTable \<times> unit result) option" where
  "convertView camel env [] carried db = Some (db, Ok ())"
| "convertView camel env (row # rows) carried db =
     (if tv_Version row \<noteq> ''v1'' then convertView camel env rows carried db
      else case tv_View row of
             Inl e \<Rightarrow> Some (db, Inl (wrapped ''JSON unmarshal'' e))
           | Inr t \<Rightarrow>
               (case camel_view camel (unmarshal t carried) of
                  None \<Rightarrow> Some (db, Inl (Panic ''nil pointer dereference''))
                | Some d \<Rightarrow>
                    (case updateTableView env (tv_Id row) (Ok (marshal d)) db of
                       None \<Rightarrow> None
                     | Some (db1, Inl e) \<Rightarrow> Some (db1, Inl e)
                     | Some (db1, Inr r) \<Rightarrow> convertView camel env rows d db1)))"

section \<open>The handlers\<close>

text \<open>A handler answers a status and perhaps a body; a panic is answered by the server with 500.\<close>

record TableViewResponse =
  tvr_Forwards :: "TableView list"
  tvr_Channel :: "TableView list"
  tvr_Payments :: "TableView list"
  tvr_Invoices :: "TableView list"
  tvr_OnChain :: "TableView list"

datatype ViewBody = NoBody | ServerErrorBody ServerError | ViewsBody TableViewResponse | ViewBody TableView

definition pages :: "TableView list \<Rightarrow> TableViewResponse" where
  "pages views =
     (let page = (\<lambda>p. filter (\<lambda>v. tv_Page v = p) views) in
      \<lparr>tvr_Forwards = page ''forwards'', tvr_Channel = page ''channel'', tvr_Payments = page ''payments'',
       tvr_Invoices = page ''invoices'', tvr_OnChain = page ''onChain''\<rparr>)"

definition view_error :: "go_error \<Rightarrow> int \<times> ViewBody" where
  "view_error e = (case e of Panic t \<Rightarrow> (500, NoBody) | Error t \<Rightarrow> map_prod id ServerErrorBody (LogAndSendServerError e))"

definition bad_json :: "go_error \<Rightarrow> int \<times> ViewBody" where
  "bad_json e = map_prod id ServerErrorBody (SendBadRequestFromError (wrapped JsonParseError e))"

definition getTableViewsHandler ::
    "(string \<Rightarrow> string) \<Rightarrow> ViewEnv \<Rightarrow> ViewTable \<Rightarrow> (ViewTable \<times> int \<times> ViewBody) option" where
  "getTableViewsHandler camel env db =
     (case getTableViews env db of
        Inl e \<Rightarrow> Some (db, view_error e)
      | Inr views \<Rightarrow>
          (case convertView camel env views zeroDetail db of
             None \<Rightarrow> None
           | Some (db1, Inl e) \<Rightarrow> Some (db1, view_error e)
           | Some (db1, Inr u) \<Rightarrow> Some (db1, 200, ViewsBody (pages views))))"

definition answer_view :: "ViewTable \<times> TableView result \<Rightarrow> ViewTable \<times> int \<times> ViewBody" where
  "answer_view x = (fst x, case snd x of Inl e \<Rightarrow> view_error e | Inr r \<Rightarrow> (200, ViewBody r))"

definition answer_done :: "ViewTable \<times> unit result \<Rightarrow> ViewTable \<times> int \<times> ViewBody" where
  "answer_done x = (fst x, case snd x of Inl e \<Rightarrow> view_error e | Inr u \<Rightarrow> (200, NoBody))"

definition insertTableViewsHandler ::
    "ViewEnv \<Rightarrow> (ViewText result \<times> string) result \<Rightarrow> ViewTable \<Rightarrow> ViewTable \<times> int \<times> ViewBody" where
  "insertTableViewsHandler env req db =
     (case req of Inl e \<Rightarrow> (db, bad_json e) | Inr (view, page) \<Rightarrow> answer_view (insertTableView env view page db))"

definition updateTableViewHandler ::
    "ViewEnv \<Rightarrow> (int \<times> ViewText result) result \<Rightarrow> ViewTable \<Rightarrow> (ViewTable \<times> int \<times> ViewBody) option" where
  "updateTableViewHandler env req db =
     (case req of
        Inl e \<Rightarrow> Some (db, bad_json e)
      | Inr (viewId, view) \<Rightarrow> map_option answer_view (updateTableView env viewId view db))"

definition deleteTableViewsHandler :: "ViewEnv \<Rightarrow> string \<Rightarrow> ViewTable \<Rightarrow> (ViewTable \<times> int \<times> ViewBody) option" where
  "deleteTableViewsHandler env viewId db =
     (case atoi viewId of
        None \<Rightarrow> Some (db, map_prod id ServerErrorBody (SendBadRequest ''Failed to find/parse viewId in the request.''))
      | Some i \<Rightarrow> map_option answer_done (deleteTableView env i db))"

definition updateTableViewOrderHandler ::
    "ViewEnv \<Rightarrow> (int \<times> int) list result \<Rightarrow> ViewTable \<Rightarrow> (ViewTable \<times> int \<times> ViewBody) option" where
  "updateTableViewOrderHandler env req db =
     (case req of
        Inl e \<Rightarrow> Some (db, bad_json e)
      | Inr viewOrders \<Rightarrow> map_option answer_done (updateTableViewOrder env viewOrders db))"

section \<open>Inserting and ordering\<close>

text \<open>
  A new view gets an order above all others of its page, the version \<open>v2\<close> and a fresh id, and no
  row changes.
\<close>

lemma new_view_is_last:
  assumes "insertTableView env view page db = (db1, Ok row)"
  shows "vs_Rows db1 = vs_Rows db @ [row] \<and> tv_Id row = vs_NextId db \<and> tv_Version row = ''v2'' \<and> tv_View row = view \<and>
    (\<exists>n. tv_ViewOrder row = Some n \<and>
      (\<forall>r \<in> set (vs_Rows db). \<forall>m. tv_Page r = page \<longrightarrow> tv_ViewOrder r = Some m \<longrightarrow> m < n))"
proof -
  let ?orders = "List.map_filter tv_ViewOrder (filter (\<lambda>r. tv_Page r = page) (vs_Rows db))"
  have "m < (if ?orders = [] then 1 else Max (set ?orders) + 1)"
    if "r \<in> set (vs_Rows db)" "tv_Page r = page" "tv_ViewOrder r = Some m" for r m
  proof -
    from that have m: "m \<in> set ?orders" by (force simp: List.map_filter_def image_iff)
    then have "m \<le> Max (set ?orders)" by (intro Max_ge) auto
    moreover have "?orders \<noteq> []" using m by force
    ultimately show ?thesis by simp
  qed
  with assms show ?thesis
    by (auto simp: insertTableView_def Let_def split: option.splits)
qed

lemma order_rows_spec:
  "order_rows env locked i orders rows = Some (rows1, None) \<Longrightarrow>
     rows1 = map (\<lambda>r. case map_of (rev orders) (tv_Id r) of None \<Rightarrow> r | Some n \<Rightarrow> r\<lparr>tv_ViewOrder := Some n\<rparr>) rows"
proof (induction env locked i orders rows rule: order_rows.induct)
  case (2 env locked i viewId n orders rows)
  then have "rows1 = map (\<lambda>r. case map_of (rev orders) (tv_Id r) of None \<Rightarrow> r | Some n \<Rightarrow> r\<lparr>tv_ViewOrder := Some n\<rparr>)
      (map (\<lambda>r. if tv_Id r = viewId then r\<lparr>tv_ViewOrder := Some n\<rparr> else r) rows)"
    by (auto split: option.splits if_splits)
  then show ?case by (auto simp: map_add_def split: option.splits)
qed simp

text \<open>
  An order that is stored gives every row the last order that the request names for it and changes
  nothing else.
\<close>

lemma stored_order:
  assumes "updateTableViewOrder env viewOrders db = Some (db1, Ok ())"
  shows "db1 = db\<lparr>vs_Rows := map (\<lambda>r. case map_of (rev viewOrders) (tv_Id r) of
      None \<Rightarrow> r | Some n \<Rightarrow> r\<lparr>tv_ViewOrder := Some n\<rparr>) (vs_Rows db)\<rparr>"
  using assms order_rows_spec [of env "vs_Locked db" 0 viewOrders "vs_Rows db"]
  by (auto simp: updateTableViewOrder_def split: if_splits option.splits prod.splits)

lemma order_rows_failed:
  "order_rows env locked i orders rows = Some (rows1, Some (j, e)) \<Longrightarrow> i \<le> j \<and> j < i + length orders \<and> ve_Order env j = Some e"
proof (induction env locked i orders rows rule: order_rows.induct)
  case (2 env locked i viewId n orders rows)
  then show ?case by (cases "ve_Order env i") (auto split: if_splits)
qed simp

text \<open>
  A failed order changes no row, but an order whose second or later statement failed keeps the rows
  before it locked for good: no later request to change or delete such a view ever returns.
\<close>

lemma failed_order_locks_views:
  assumes "updateTableViewOrder env ((viewId, n) # viewOrders) db = Some (db1, Inl (Error t))"
    and "ve_Order env 0 = None" and "ve_Commit env = None"
    and "viewId \<in> tv_Id ` set (vs_Rows db)" and "ve_Update env2 viewId = None" and "ve_Delete env2 = None"
  shows "vs_Rows db1 = vs_Rows db \<and> updateTableView env2 viewId view db1 = None \<and> deleteTableView env2 viewId db1 = None"
proof -
  obtain rows j e where run: "order_rows env (vs_Locked db) 0 ((viewId, n) # viewOrders) (vs_Rows db) = Some (rows, Some (j, e))"
    and db1: "db1 = db\<lparr>vs_Locked := vs_Locked db \<union> (fst ` set (take j ((viewId, n) # viewOrders)) \<inter> tv_Id ` set (vs_Rows db))\<rparr>"
    using assms(1,3) by (auto simp: updateTableViewOrder_def split: if_splits option.splits prod.splits)
  have "j \<noteq> 0" using order_rows_failed [OF run] assms(2) by (cases j) auto
  then have "viewId \<in> vs_Locked db1" using db1 assms(4) by (cases j) auto
  moreover obtain row where "find (\<lambda>r. tv_Id r = viewId) (vs_Rows db) = Some row"
    using assms(4) by (fastforce simp: find_None_iff dest: not_None_eq [THEN iffD1, rotated])
  ultimately show ?thesis using db1 assms(5,6) by (simp add: updateTableView_def deleteTableView_def)
qed

section \<open>What the conversion carries over\<close>

text \<open>A text with all fields is unmarshalled into the same view whatever the variable held.\<close>

definition complete_filter :: "FilterText field \<Rightarrow> bool" where
  "complete_filter f \<longleftrightarrow> (case f of Absent \<Rightarrow> False | Null \<Rightarrow> True | Given t \<Rightarrow>
     ft_FuncName t \<notin> {Absent, Null} \<and> ft_Key t \<notin> {Absent, Null} \<and> ft_Parameter t \<noteq> Absent \<and> ft_Category t \<notin> {Absent, Null})"

definition complete :: "ViewText \<Rightarrow> bool" where
  "complete t \<longleftrightarrow>
     vt_Title t \<notin> {Absent, Null} \<and> vt_Saved t \<notin> {Absent, Null} \<and> vt_Columns t \<noteq> Absent \<and> vt_Page t \<notin> {Absent, Null} \<and>
     vt_SortBy t \<noteq> Absent \<and> vt_Id t \<notin> {Absent, Null} \<and>
     (\<exists>c. vt_Filters t = Given c \<and> ct_And c \<noteq> Absent \<and> ct_Or c \<noteq> Absent \<and> complete_filter (ct_Filter c))"

lemma into_value_complete: "f \<notin> {Absent, Null} \<Longrightarrow> into_value f x = into_value f y"
  by (cases f) (simp_all add: into_value_def)

lemma into_slice_complete: "f \<noteq> Absent \<Longrightarrow> into_slice f x = into_slice f y"
  by (cases f) (simp_all add: into_slice_def)

lemma into_filter_complete: "complete_filter f \<Longrightarrow> into_filter f x = into_filter f y"
  by (cases f) (auto simp: into_filter_def complete_filter_def into_value_def Let_def split: field.splits)

lemma into_clauses_complete:
  assumes "vt_Filters t = Given c" and "ct_And c \<noteq> Absent" and "ct_Or c \<noteq> Absent" and "complete_filter (ct_Filter c)"
  shows "into_clauses (vt_Filters t) x = into_clauses (vt_Filters t) y"
  using into_slice_complete [OF assms(2), of "fc_And x" "fc_And y"] into_slice_complete [OF assms(3), of "fc_Or x" "fc_Or y"]
    into_filter_complete [OF assms(4), of "fc_Filter x" "fc_Filter y"] assms(1)
  by (simp add: into_clauses_def)

lemma unmarshal_complete:
  assumes "complete t"
  shows "unmarshal t x = unmarshal t y"
proof -
  obtain c where "vt_Filters t = Given c" "ct_And c \<noteq> Absent" "ct_Or c \<noteq> Absent" "complete_filter (ct_Filter c)"
    using assms by (auto simp: complete_def)
  note c = into_clauses_complete [OF this, of "tvd_Filters x" "tvd_Filters y"]
  have f: "vt_Title t \<notin> {Absent, Null}" "vt_Saved t \<notin> {Absent, Null}" "vt_Page t \<notin> {Absent, Null}" "vt_Id t \<notin> {Absent, Null}"
    "vt_Columns t \<noteq> Absent" "vt_SortBy t \<noteq> Absent"
    using assms unfolding complete_def by blast+
  show ?thesis
    unfolding unmarshal_def c into_value_complete [OF f(1), of "tvd_Title x" "tvd_Title y"]
      into_value_complete [OF f(2), of "tvd_Saved x" "tvd_Saved y"] into_value_complete [OF f(3), of "tvd_Page x" "tvd_Page y"]
      into_value_complete [OF f(4), of "tvd_Id x" "tvd_Id y"] into_slice_complete [OF f(5), of "tvd_Columns x" "tvd_Columns y"]
      into_slice_complete [OF f(6), of "tvd_SortBy x" "tvd_SortBy y"] ..
qed

definition stored_view :: "ViewTable \<Rightarrow> int \<Rightarrow> ViewText result option" where
  "stored_view db i = map_option tv_View (find (\<lambda>r. tv_Id r = i) (vs_Rows db))"

lemma find_update:
  "find (\<lambda>r. tv_Id r = i) (map (\<lambda>r. if tv_Id r = j then r\<lparr>tv_View := v\<rparr> else r) rows) =
     map_option (\<lambda>r. if tv_Id r = j then r\<lparr>tv_View := v\<rparr> else r) (find (\<lambda>r. tv_Id r = i) rows)"
  by (induction rows) auto

lemma updated_view:
  assumes "updateTableView env j view db = Some (db1, Inr row)"
  shows "stored_view db1 i = (if i = j then Some view else stored_view db i)"
proof -
  have rows: "vs_Rows db1 = map (\<lambda>r. if tv_Id r = j then r\<lparr>tv_View := view\<rparr> else r) (vs_Rows db)"
    and found: "find (\<lambda>r. tv_Id r = j) (vs_Rows db) \<noteq> None"
    using assms by (auto simp: updateTableView_def split: option.splits if_splits)
  have id: "tv_Id r = i" if "find (\<lambda>r. tv_Id r = i) (vs_Rows db) = Some r" for r
    using that by (auto simp: find_Some_iff)
  show ?thesis
  proof (cases "find (\<lambda>r. tv_Id r = i) (vs_Rows db)")
    case None
    with found show ?thesis unfolding stored_view_def rows find_update by auto
  next
    case (Some r)
    with id [OF this] show ?thesis unfolding stored_view_def rows find_update by simp
  qed
qed

lemma failed_update_view: "updateTableView env j view db = Some (db1, Inl e) \<Longrightarrow> db1 = db"
  by (auto simp: updateTableView_def split: option.splits if_splits)

text \<open>What every update of a listed row keeps, the loop keeps.\<close>

lemma convert_keeps:
  assumes "convertView camel env rows carried db = Some (db1, r)" and "P db"
    and "\<And>row view db db1 r. row \<in> set rows \<Longrightarrow> updateTableView env (tv_Id row) view db = Some (db1, r) \<Longrightarrow> P db \<Longrightarrow> P db1"
  shows "P db1"
  using assms
proof (induction rows arbitrary: carried db)
  case (Cons row rows)
  show ?case
  proof (cases "tv_Version row = ''v1'' \<and> (\<exists>t d. tv_View row = Ok t \<and> camel_view camel (unmarshal t carried) = Some d)")
    case False
    show ?thesis
    proof (cases "tv_Version row = ''v1''")
      case True
      with False Cons.prems(1,2) show ?thesis by (auto split: sum.splits option.splits)
    next
      case False
      with Cons.prems(1) have "convertView camel env rows carried db = Some (db1, r)" by simp
      from Cons.IH [OF this Cons.prems(2)] Cons.prems(3) show ?thesis by (meson list.set_intros(2))
    qed
  next
    case True
    then obtain t d where v: "tv_Version row = ''v1''" "tv_View row = Ok t" "camel_view camel (unmarshal t carried) = Some d" by blast
    with Cons.prems(1) obtain db2 x where up: "updateTableView env (tv_Id row) (Ok (marshal d)) db = Some (db2, x)"
      by (auto split: option.splits prod.splits)
    have p: "P db2" by (rule Cons.prems(3) [OF _ up Cons.prems(2)]) simp
    show ?thesis
    proof (cases x)
      case (Inl e)
      with v up Cons.prems(1) p show ?thesis by simp
    next
      case (Inr r1)
      with v up Cons.prems(1) have "convertView camel env rows d db2 = Some (db1, r)" by simp
      from Cons.IH [OF this p] Cons.prems(3) show ?thesis by (meson list.set_intros(2))
    qed
  qed
qed simp

lemma convert_other_views:
  assumes "convertView camel env rows carried db = Some (db1, r)" and "i \<notin> tv_Id ` set rows"
  shows "stored_view db1 i = stored_view db i"
proof (rule convert_keeps [OF assms(1), where P = "\<lambda>d. stored_view d i = stored_view db i"])
  fix row view d d1 r1
  assume "row \<in> set rows" and "updateTableView env (tv_Id row) view d = Some (d1, r1)" and "stored_view d i = stored_view db i"
  with assms(2) updated_view [of env "tv_Id row" view d d1 _ i] failed_update_view [of env "tv_Id row" view d d1]
  show "stored_view d1 i = stored_view db i" by (cases r1) auto
qed simp

text \<open>One step of the loop at an old view.\<close>

lemma convert_step:
  assumes "convertView camel env (row # rows) carried db = Some (db1, Ok ())" and "tv_Version row = ''v1''" and "tv_View row = Ok t"
  obtains d db2 where "camel_view camel (unmarshal t carried) = Some d" and "convertView camel env rows d db2 = Some (db1, Ok ())"
    and "\<And>i. stored_view db2 i = (if i = tv_Id row then Some (Ok (marshal d)) else stored_view db i)"
  using assms by (auto simp: updated_view split: option.splits sum.splits prod.splits)

text \<open>
  An old view with all its fields is converted on its own: what is stored is its own view with its
  keys in camel case, whatever the views before it are.
\<close>

lemma complete_view_converted_alone:
  assumes "convertView camel env (pre @ row # post) carried db = Some (db1, Ok ())" and "distinct (map tv_Id (pre @ row # post))"
    and "tv_Version row = ''v1''" and "tv_View row = Ok t" and "complete t"
  shows "\<exists>d. camel_view camel (unmarshal t zeroDetail) = Some d \<and> stored_view db1 (tv_Id row) = Some (Ok (marshal d))"
  using assms(1,2)
proof (induction pre arbitrary: carried db)
  case Nil
  obtain d db2 where d: "camel_view camel (unmarshal t carried) = Some d" and rest: "convertView camel env post d db2 = Some (db1, Ok ())"
    and "\<And>i. stored_view db2 i = (if i = tv_Id row then Some (Ok (marshal d)) else stored_view db i)"
    using convert_step [OF Nil(1) [unfolded append_Nil] assms(3,4)] by metis
  with convert_other_views [OF rest, of "tv_Id row"] Nil(2) unmarshal_complete [OF assms(5), of carried zeroDetail]
  show ?case by auto
next
  case (Cons p pre)
  show ?case
  proof (cases "tv_Version p = ''v1''")
    case False
    with Cons show ?thesis by (intro Cons.IH [of carried db]) auto
  next
    case True
    with Cons.prems(1) obtain tp where tp: "tv_View p = Ok tp" by (cases "tv_View p") auto
    obtain d db2 where "convertView camel env (pre @ row # post) d db2 = Some (db1, Ok ())"
      using convert_step [OF Cons.prems(1) [unfolded append_Cons] True tp] by metis
    with Cons show ?thesis by (intro Cons.IH [of d db2]) auto
  qed
qed

lemma camel_clauses_twice:
  assumes "\<And>k. camel (camel k) = camel k" and "camel_clauses camel cs = Some ds"
  shows "camel_clauses camel ds = Some ds"
proof (cases cs)
  case (Some xs)
  with assms have "\<forall>c \<in> set xs. fc_Filter c \<noteq> None" and ds: "ds = Some (map (\<lambda>c. ViewClauses (fc_And c) (fc_Or c)
      (map_option (\<lambda>f. f\<lparr>fi_Key := camel (fi_Key f)\<rparr>) (fc_Filter c))) xs)"
    by (auto simp: camel_clauses_def split: if_splits)
  then have "\<not> (\<exists>c \<in> set (the ds). fc_Filter c = None)" by auto
  with ds assms(1) show ?thesis by (simp add: camel_clauses_def option.map_comp comp_def)
qed (use assms in \<open>auto simp: camel_clauses_def\<close>)

text \<open>
  An old view that is stored without filters takes on the filters of the old view before it: after
  one listing both have the same ones.  Without filters is how the conversion itself stores a view
  whose lists of filters are empty.
\<close>

lemma filters_carried_over:
  assumes "convertView camel env (a # b # rest) carried db = Some (db1, Ok ())" and "distinct (map tv_Id (a # b # rest))"
    and "tv_Version a = ''v1''" and "tv_View a = Ok ta" and "tv_Version b = ''v1''" and "tv_View b = Ok tb"
    and "vt_Filters tb = Given \<lparr>ct_And = Absent, ct_Or = Absent, ct_Filter = Absent\<rparr>"
    and "\<And>k. camel (camel k) = camel k"
  shows "\<exists>ta1 tb1. stored_view db1 (tv_Id a) = Some (Ok ta1) \<and> stored_view db1 (tv_Id b) = Some (Ok tb1) \<and>
    vt_Filters tb1 = vt_Filters ta1"
proof -
  obtain d db2 where d: "camel_view camel (unmarshal ta carried) = Some d" and b: "convertView camel env (b # rest) d db2 = Some (db1, Ok ())"
    and sa: "\<And>i. stored_view db2 i = (if i = tv_Id a then Some (Ok (marshal d)) else stored_view db i)"
    using convert_step [OF assms(1,3,4)] by metis
  obtain d2 db3 where d2: "camel_view camel (unmarshal tb d) = Some d2" and rest: "convertView camel env rest d2 db3 = Some (db1, Ok ())"
    and sb: "\<And>i. stored_view db3 i = (if i = tv_Id b then Some (Ok (marshal d2)) else stored_view db2 i)"
    using convert_step [OF b assms(5,6)] by metis
  have "tvd_Filters (unmarshal tb d) = tvd_Filters d"
    by (simp add: unmarshal_def assms(7) into_clauses_def into_slice_def into_filter_def)
  then have "tvd_Filters d2 = tvd_Filters d"
    using d d2 camel_clauses_twice [of camel, OF assms(8)]
    by (auto simp: camel_view_def split: option.splits)
  then have "vt_Filters (marshal d2) = vt_Filters (marshal d)" by (simp add: marshal_def)
  moreover have "stored_view db1 (tv_Id b) = Some (Ok (marshal d2))" "stored_view db1 (tv_Id a) = Some (Ok (marshal d))"
    using convert_other_views [OF rest] sa sb assms(2) by auto
  ultimately show ?thesis by blast
qed

section \<open>Rows and their versions\<close>

text \<open>The requests of the routes, each with what the database does during it.\<close>

datatype ViewCall =
    ListViews "string \<Rightarrow> string" ViewEnv
  | AddView ViewEnv "(ViewText result \<times> string) result"
  | ChangeView ViewEnv "(int \<times> ViewText result) result"
  | DropView ViewEnv string
  | OrderViews ViewEnv "(int \<times> int) list result"

definition view_request :: "ViewCall \<Rightarrow> ViewTable \<Rightarrow> (ViewTable \<times> int \<times> ViewBody) option" where
  "view_request call db =
     (case call of
        ListViews camel env \<Rightarrow> getTableViewsHandler camel env db
      | AddView env req \<Rightarrow> Some (insertTableViewsHandler env req db)
      | ChangeView env req \<Rightarrow> updateTableViewHandler env req db
      | DropView env viewId \<Rightarrow> deleteTableViewsHandler env viewId db
      | OrderViews env req \<Rightarrow> updateTableViewOrderHandler env req db)"

definition view_call :: "ViewTable \<Rightarrow> ViewCall \<Rightarrow> (ViewTable, int \<times> ViewBody) outcome" where
  "view_call db call = (case view_request call db of None \<Rightarrow> Blocked | Some (db1, r) \<Rightarrow> Served db1 (Some r))"

text \<open>
  Every row has an id of its own below the next one, and is either a row of the start, with its
  version, or a later one, with \<open>v2\<close>.
\<close>

definition origin :: "TableView list \<Rightarrow> TableView \<Rightarrow> bool" where
  "origin rows0 r \<longleftrightarrow>
     (\<exists>r0 \<in> set rows0. tv_Id r0 = tv_Id r \<and> tv_Version r0 = tv_Version r) \<or> tv_Id r \<notin> tv_Id ` set rows0 \<and> tv_Version r = ''v2''"

definition ids_ok :: "ViewTable \<Rightarrow> bool" where
  "ids_ok db \<longleftrightarrow> distinct (map tv_Id (vs_Rows db)) \<and> (\<forall>r \<in> set (vs_Rows db). tv_Id r < vs_NextId db)"

definition views_ok :: "TableView list \<Rightarrow> ViewTable \<Rightarrow> bool" where
  "views_ok rows0 db \<longleftrightarrow> ids_ok db \<and> (\<forall>r \<in> set rows0. tv_Id r < vs_NextId db) \<and> (\<forall>r \<in> set (vs_Rows db). origin rows0 r)"

lemma views_ok_map:
  assumes "views_ok rows0 db" and "\<And>r. tv_Id (f r) = tv_Id r" and "\<And>r. tv_Version (f r) = tv_Version r"
  shows "views_ok rows0 (db\<lparr>vs_Rows := map f (vs_Rows db)\<rparr>)"
proof -
  have "map tv_Id (map f (vs_Rows db)) = map tv_Id (vs_Rows db)" using assms(2) by simp
  moreover have "origin rows0 (f r) = origin rows0 r" for r using assms(2,3) by (simp add: origin_def)
  ultimately show ?thesis using assms(1,2) by (auto simp: views_ok_def ids_ok_def simp del: map_map)
qed

lemma views_ok_lock [simp]: "views_ok rows0 (db\<lparr>vs_Locked := l\<rparr>) = views_ok rows0 db"
  by (simp add: views_ok_def ids_ok_def)

lemma views_ok_update: "updateTableView env i view db = Some (db1, r) \<Longrightarrow> views_ok rows0 db \<Longrightarrow> views_ok rows0 db1"
  by (auto simp: updateTableView_def split: option.splits if_splits intro!: views_ok_map)

lemma views_ok_convert:
  assumes "convertView camel env rows carried db = Some (db1, r)" and "views_ok rows0 db"
  shows "views_ok rows0 db1"
  using assms views_ok_update by (rule convert_keeps)

lemma views_ok_insert:
  assumes "insertTableView env view page db = (db1, r)" and "views_ok rows0 db"
  shows "views_ok rows0 db1"
proof (cases r)
  case (Inl e)
  with assms show ?thesis by (auto simp: insertTableView_def Let_def split: option.splits)
next
  case (Inr row)
  with assms(1) have "vs_Rows db1 = vs_Rows db @ [row]" "tv_Id row = vs_NextId db" "tv_Version row = ''v2''"
    "vs_NextId db1 = vs_NextId db + 1" by (auto simp: insertTableView_def Let_def split: option.splits)
  with assms(2) show ?thesis by (force simp: views_ok_def ids_ok_def origin_def)
qed

lemma views_ok_delete: "deleteTableView env i db = Some (db1, r) \<Longrightarrow> views_ok rows0 db \<Longrightarrow> views_ok rows0 db1"
  by (auto simp: deleteTableView_def views_ok_def ids_ok_def distinct_map_filter split: option.splits if_splits)

lemma views_ok_order:
  assumes "updateTableViewOrder env viewOrders db = Some (db1, r)" and "views_ok rows0 db"
  shows "views_ok rows0 db1"
proof (cases r)
  case (Inl e)
  with assms show ?thesis
    by (auto simp: updateTableViewOrder_def split: if_splits option.splits prod.splits)
next
  case (Inr u)
  with assms have "db1 = db\<lparr>vs_Rows := map (\<lambda>r. case map_of (rev viewOrders) (tv_Id r) of
      None \<Rightarrow> r | Some n \<Rightarrow> r\<lparr>tv_ViewOrder := Some n\<rparr>) (vs_Rows db)\<rparr>"
    using order_rows_spec [of env "vs_Locked db" 0 viewOrders "vs_Rows db"]
    by (auto simp: updateTableViewOrder_def split: if_splits option.splits prod.splits)
  with assms(2) show ?thesis by (auto intro!: views_ok_map split: option.splits)
qed

lemma views_ok_call:
  assumes "view_call db call = Served db1 r" and "views_ok rows0 db"
  shows "views_ok rows0 db1"
proof (cases call)
  case (AddView env req)
  with assms show ?thesis
    using views_ok_insert [OF surjective_pairing]
    by (auto simp: view_call_def view_request_def insertTableViewsHandler_def answer_view_def split: sum.splits prod.splits)
next
  case (ListViews camel env)
  with assms show ?thesis
    by (auto simp: view_call_def view_request_def getTableViewsHandler_def split: option.splits sum.splits prod.splits
        dest: views_ok_convert)
next
  case (ChangeView env req)
  with assms consider i v q where "updateTableView env i v db = Some (db1, q)" | "db1 = db"
    by (cases req) (auto simp: view_call_def view_request_def updateTableViewHandler_def answer_view_def split: option.splits)
  then show ?thesis using assms(2) views_ok_update by cases auto
next
  case (DropView env viewId)
  with assms consider i q where "deleteTableView env i db = Some (db1, q)" | "db1 = db"
    by (cases "atoi viewId") (auto simp: view_call_def view_request_def deleteTableViewsHandler_def answer_done_def split: option.splits)
  then show ?thesis using assms(2) views_ok_delete by cases auto
next
  case (OrderViews env req)
  with assms consider os q where "updateTableViewOrder env os db = Some (db1, q)" | "db1 = db"
    by (cases req) (auto simp: view_call_def view_request_def updateTableViewOrderHandler_def answer_done_def split: option.splits)
  then show ?thesis using assms(2) views_ok_order by cases auto
qed

definition initial_views :: "TableView list \<Rightarrow> int \<Rightarrow> ViewTable" where
  "initial_views rows next_id = \<lparr>vs_Rows = rows, vs_NextId = next_id, vs_Locked = {}\<rparr>"

definition view_table_ok :: "TableView list \<Rightarrow> int \<Rightarrow> bool" where
  "view_table_ok rows next_id \<longleftrightarrow> distinct (map tv_Id rows) \<and> (\<forall>r \<in> set rows. tv_Id r < next_id)"

lemma views_ok_initial: "view_table_ok rows next_id \<Longrightarrow> views_ok rows (initial_views rows next_id)"
  by (auto simp: views_ok_def ids_ok_def initial_views_def view_table_ok_def origin_def)

interpretation view_table: cache_server view_call "initial_views [] 1" "views_ok []"
  by unfold_locales (auto intro: views_ok_call views_ok_initial simp: view_table_ok_def)

lemma views_ok_serves: "serves view_call db calls db1 \<Longrightarrow> views_ok rows0 db \<Longrightarrow> views_ok rows0 db1"
  by (induction rule: serves.induct) (auto intro: views_ok_call)

text \<open>
  C40: Whatever the requests are, ids stay unique and no row changes its version: a view of the version
  \<open>v1\<close> stays one and is converted again at every listing, and every view added later has the version
  \<open>v2\<close>.
\<close>

theorem view_versions_never_change:
  assumes "serves view_call (initial_views rows next_id) calls db" and "view_table_ok rows next_id"
  shows "distinct (map tv_Id (vs_Rows db)) \<and>
    (\<forall>r \<in> set (vs_Rows db). (\<forall>r0 \<in> set rows. tv_Id r = tv_Id r0 \<longrightarrow> tv_Version r = tv_Version r0) \<and>
       (tv_Id r \<notin> tv_Id ` set rows \<longrightarrow> tv_Version r = ''v2''))"
proof -
  have ok: "views_ok rows db" by (rule views_ok_serves [OF assms(1) views_ok_initial [OF assms(2)]])
  have "r0 = r1" if "r0 \<in> set rows" "r1 \<in> set rows" "tv_Id r0 = tv_Id r1" for r0 r1
    using assms(2) that by (auto simp: view_table_ok_def distinct_map inj_on_def)
  with ok show ?thesis unfolding views_ok_def ids_ok_def origin_def by (metis (no_types, lifting) imageI)
qed

section \<open>Examples\<close>

definition all_well :: ViewEnv where
  "all_well = \<lparr>ve_Select = None, ve_Max = None, ve_Insert = None, ve_Update = (\<lambda>_. None), ve_Delete = None, ve_Begin = True,
     ve_Order = (\<lambda>_. None), ve_Commit = None, ve_Ties = id\<rparr>"

definition sample_text :: "ViewClauses list field \<Rightarrow> ViewText" where
  "sample_text a = \<lparr>vt_Title = Given ''t'', vt_Saved = Given True, vt_Columns = Given [], vt_Page = Given ''forwards'',
     vt_SortBy = Given [], vt_Id = Given 1, vt_Filters = Given \<lparr>ct_And = a, ct_Or = Absent, ct_Filter = Absent\<rparr>\<rparr>"

definition sample_clause :: ViewClauses where
  "sample_clause = ViewClauses None None (Some \<lparr>fi_FuncName = ''gte'', fi_Key = ''amount'', fi_Parameter = None, fi_Category = []\<rparr>)"

definition sample_view :: "int \<Rightarrow> ViewText \<Rightarrow> TableView" where
  "sample_view i t = \<lparr>tv_Id = i, tv_View = Ok t, tv_Page = ''forwards'', tv_ViewOrder = Some i, tv_Version = ''v1''\<rparr>"

definition sample_table :: ViewTable where
  "sample_table = initial_views [sample_view 1 (sample_text (Given [sample_clause])), sample_view 2 (sample_text Absent)] 3"

lemmas sample_views = all_well_def sample_text_def sample_clause_def sample_view_def sample_table_def initial_views_def

lemma new_view_is_last_witness:
  "\<exists>db1 row n. insertTableView all_well (Ok (sample_text Absent)) ''forwards'' sample_table = (db1, Ok row) \<and>
     tv_ViewOrder row = Some n \<and> 2 < n"
proof -
  obtain db1 row where run: "insertTableView all_well (Ok (sample_text Absent)) ''forwards'' sample_table = (db1, Ok row)"
    by (simp add: insertTableView_def sample_views Let_def)
  have r: "sample_view 2 (sample_text Absent) \<in> set (vs_Rows sample_table)" "tv_ViewOrder (sample_view 2 (sample_text Absent)) = Some 2"
    "tv_Page (sample_view 2 (sample_text Absent)) = ''forwards''"
    by (simp_all add: sample_table_def initial_views_def sample_view_def)
  from new_view_is_last [OF run] obtain n where n: "tv_ViewOrder row = Some n"
    and last: "\<forall>r \<in> set (vs_Rows sample_table). \<forall>m. tv_Page r = ''forwards'' \<longrightarrow> tv_ViewOrder r = Some m \<longrightarrow> m < n"
    by (elim conjE exE)
  have "2 < n" by (rule last [THEN bspec, OF r(1), THEN spec, THEN mp, THEN mp, OF r(3) r(2)])
  with run n show ?thesis by (intro exI conjI)
qed

lemma stored_order_witness:
  "\<exists>db1. updateTableViewOrder all_well [(1, 2), (2, 1)] sample_table = Some (db1, Ok ()) \<and>
     map tv_ViewOrder (vs_Rows db1) = [Some 2, Some 1]"
proof -
  obtain db1 where run: "updateTableViewOrder all_well [(1, 2), (2, 1)] sample_table = Some (db1, Ok ())"
    by (simp add: updateTableViewOrder_def sample_views)
  from stored_order [OF run] have "map tv_ViewOrder (vs_Rows db1) = [Some 2, Some 1]" by (simp add: sample_views)
  with run show ?thesis by (intro exI conjI)
qed

lemma failed_order_locks_views_witness:
  "\<exists>db1. updateTableViewOrder (all_well\<lparr>ve_Order := (\<lambda>i. if i = 1 then Some (Error ''out of range'') else None)\<rparr>) [(1, 2), (2, 1)] sample_table
       = Some (db1, Inl (wrapped ''Unable to update view order. SQL statement error'' (Error ''out of range''))) \<and>
     deleteTableView all_well 1 db1 = None"
proof -
  let ?env = "all_well\<lparr>ve_Order := (\<lambda>i. if i = 1 then Some (Error ''out of range'') else None)\<rparr>"
  obtain db1 where run: "updateTableViewOrder ?env [(1, 2), (2, 1)] sample_table
      = Some (db1, Inl (wrapped ''Unable to update view order. SQL statement error'' (Error ''out of range'')))"
    by (simp add: updateTableViewOrder_def sample_views)
  from failed_order_locks_views [OF run [unfolded wrapped_def], of all_well]
  have "deleteTableView all_well 1 db1 = None" by (simp add: sample_views)
  with run show ?thesis by blast
qed

lemma complete_view_converted_alone_witness:
  "\<exists>db1 t. getTableViewsHandler id all_well (initial_views [sample_view 1
       ((sample_text (Given []))\<lparr>vt_Filters := Given \<lparr>ct_And = Given [], ct_Or = Null, ct_Filter = Null\<rparr>\<rparr>)] 2) = Some (db1, 200, ViewsBody t) \<and>
     (\<exists>d. stored_view db1 1 = Some (Ok (marshal d)))"
proof -
  let ?t = "(sample_text (Given []))\<lparr>vt_Filters := Given \<lparr>ct_And = Given [], ct_Or = Null, ct_Filter = Null\<rparr>\<rparr>"
  let ?db = "initial_views [sample_view 1 ?t] 2"
  obtain db1 where run: "convertView id all_well ([] @ sample_view 1 ?t # []) zeroDetail ?db = Some (db1, Ok ())"
    by (simp add: sample_views camel_view_def camel_clauses_def unmarshal_def into_clauses_def into_slice_def updateTableView_def)
  have "\<exists>d. stored_view db1 1 = Some (Ok (marshal d))"
    using complete_view_converted_alone [OF run, of ?t]
    by (auto simp: sample_view_def complete_def sample_text_def complete_filter_def)
  moreover have "getTableViewsHandler id all_well ?db = Some (db1, 200, ViewsBody (pages [sample_view 1 ?t]))"
    using run by (simp add: getTableViewsHandler_def getTableViews_def all_well_def initial_views_def)
  ultimately show ?thesis by blast
qed

lemma filters_carried_over_witness:
  "\<exists>db1 ta1 tb1. convertView id all_well (vs_Rows sample_table) zeroDetail sample_table = Some (db1, Ok ()) \<and>
     stored_view db1 1 = Some (Ok ta1) \<and> stored_view db1 2 = Some (Ok tb1) \<and> vt_Filters tb1 = vt_Filters ta1"
proof -
  let ?a = "sample_view 1 (sample_text (Given [sample_clause]))" and ?b = "sample_view 2 (sample_text Absent)"
  obtain db1 where run: "convertView id all_well [?a, ?b] zeroDetail sample_table = Some (db1, Ok ())"
    by (simp add: sample_views camel_view_def camel_clauses_def unmarshal_def into_clauses_def into_slice_def into_filter_def
        updateTableView_def zeroDetail_def)
  from filters_carried_over [OF run, of "sample_text (Given [sample_clause])" "sample_text Absent"] run show ?thesis
    by (simp add: sample_view_def sample_text_def sample_table_def initial_views_def)
qed

theorem view_versions_never_change_witness:
  "\<exists>db. serves view_call sample_table [ListViews id all_well] db \<and> map tv_Version (vs_Rows db) = [''v1'', ''v1'']"
proof -
  let ?rows = "[sample_view 1 (sample_text (Given [sample_clause])), sample_view 2 (sample_text Absent)]"
  obtain db where run: "serves view_call (initial_views ?rows 3) [ListViews id all_well] db" and n: "map tv_Id (vs_Rows db) = [1, 2]"
    by (simp add: view_call_def view_request_def getTableViewsHandler_def getTableViews_def not_after_def
        sample_views camel_view_def camel_clauses_def unmarshal_def into_clauses_def into_slice_def into_filter_def
        updateTableView_def zeroDetail_def)
  have "view_table_ok ?rows 3" by (simp add: view_table_ok_def sample_view_def)
  from view_versions_never_change [OF run this] n have "map tv_Version (vs_Rows db) = [''v1'', ''v1'']"
    by (auto simp: sample_view_def)
  with run show ?thesis unfolding sample_table_def by (intro exI [of _ db] conjI)
qed

end
