(* ===== verification/Sql.thy ===== *)
theory Sql
  imports Complex_Main Prelude
begin

text \<open>
  The parts of SQL that the report queries are made of, as operations on lists of rows: nullable
  values, joins, groups with sums, and which table a column name belongs to.  A null is None, and a
  number of type \<open>numeric\<close> is a rational.  The lemmas say what a join with at most one partner and
  a sum over the group of a key are.
\<close>

section \<open>Nullable values\<close>

definition coalesce :: "'a option \<Rightarrow> 'a \<Rightarrow> 'a" where
  "coalesce x d = (case x of None \<Rightarrow> d | Some v \<Rightarrow> v)"

lemma coalesce_simps [simp]: "coalesce None d = d" "coalesce (Some v) d = v"
  by (simp_all add: coalesce_def)

definition lift2 :: "('a \<Rightarrow> 'b \<Rightarrow> 'c) \<Rightarrow> 'a option \<Rightarrow> 'b option \<Rightarrow> 'c option" where
  "lift2 f x y = (case (x, y) of (Some a, Some b) \<Rightarrow> Some (f a b) | _ \<Rightarrow> None)"

lemma lift2_simps [simp]: "lift2 f None y = None" "lift2 f x None = None" "lift2 f (Some a) (Some b) = Some (f a b)"
  by (auto simp: lift2_def split: option.splits)

definition sql_eq :: "'a option \<Rightarrow> 'a option \<Rightarrow> bool option" where
  "sql_eq x y = lift2 (=) x y"

definition nullif :: "'a option \<Rightarrow> 'a \<Rightarrow> 'a option" where
  "nullif x z = (if x = Some z then None else x)"

text \<open>\<open>x = ANY(keys)\<close>, with the rule for an empty array before the one for a null.\<close>

definition eq_any :: "'a option \<Rightarrow> 'a list \<Rightarrow> bool option" where
  "eq_any x keys = (if keys = [] then Some False else map_option (\<lambda>v. v \<in> set keys) x)"

section \<open>Columns\<close>

datatype ColumnRef = Bare string | Of string string

text \<open>A bare name must belong to exactly one of the tables of a query.\<close>

definition resolves :: "(string \<times> string list) list \<Rightarrow> ColumnRef \<Rightarrow> bool" where
  "resolves tables ref =
     (case ref of
        Bare c \<Rightarrow> length (filter (\<lambda>(t, cs). c \<in> set cs) tables) = 1
      | Of t c \<Rightarrow> list_ex (\<lambda>(t', cs). t' = t \<and> c \<in> set cs) tables)"

section \<open>Joins\<close>

definition left_join :: "('l \<Rightarrow> 'r \<Rightarrow> bool) \<Rightarrow> 'l list \<Rightarrow> 'r list \<Rightarrow> ('l \<times> 'r option) list" where
  "left_join on ls rs =
     concat (map (\<lambda>l. case filter (on l) rs of [] \<Rightarrow> [(l, None)] | ms \<Rightarrow> map (\<lambda>r. (l, Some r)) ms) ls)"

definition full_join :: "('l \<Rightarrow> 'r \<Rightarrow> bool) \<Rightarrow> 'l list \<Rightarrow> 'r list \<Rightarrow> ('l option \<times> 'r option) list" where
  "full_join on ls rs =
     map (\<lambda>(l, r). (Some l, r)) (left_join on ls rs) @
     map (\<lambda>r. (None, Some r)) (filter (\<lambda>r. \<not> list_ex (\<lambda>l. on l r) ls) rs)"

lemma left_join_append [simp]: "left_join on (ls @ ls') rs = left_join on ls rs @ left_join on ls' rs"
  by (simp add: left_join_def)

lemma left_join_Nil [simp]: "left_join on [] rs = []"
  by (simp add: left_join_def)

lemma left_join_Cons:
  "left_join on (l # ls) rs =
     (if filter (on l) rs = [] then [(l, None)] else map (\<lambda>r. (l, Some r)) (filter (on l) rs)) @ left_join on ls rs"
  by (auto simp: left_join_def split: list.splits)

lemma set_left_join:
  "(l, r) \<in> set (left_join on ls rs) \<longleftrightarrow>
     l \<in> set ls \<and> (case r of None \<Rightarrow> \<forall>r' \<in> set rs. \<not> on l r' | Some r' \<Rightarrow> r' \<in> set rs \<and> on l r')"
  by (induction ls) (auto simp: left_join_Cons filter_empty_conv split: option.splits)

lemma fst_left_join: "fst ` set (left_join on ls rs) = set ls"
proof (induction ls)
  case (Cons l ls)
  then show ?case by (cases "filter (on l) rs") (auto simp: left_join_def image_Un image_image)
qed simp

text \<open>When every row has at most one partner, a join keeps the rows of its left table as they are.\<close>

definition partner :: "('l \<Rightarrow> 'r \<Rightarrow> bool) \<Rightarrow> 'r list \<Rightarrow> 'l \<Rightarrow> 'r option" where
  "partner on rs l = List.find (on l) rs"

definition single_partner :: "('l \<Rightarrow> 'r \<Rightarrow> bool) \<Rightarrow> 'r list \<Rightarrow> 'l \<Rightarrow> bool" where
  "single_partner on rs l \<longleftrightarrow> length (filter (on l) rs) \<le> 1"

lemma find_filter: "List.find P xs = (case filter P xs of [] \<Rightarrow> None | x # _ \<Rightarrow> Some x)"
  by (induction xs) auto

lemma find_SomeD: "List.find P xs = Some x \<Longrightarrow> x \<in> set xs \<and> P x"
  by (induction xs) (auto split: if_splits)

lemma left_join_single:
  assumes "list_all (single_partner on rs) ls"
  shows "left_join on ls rs = map (\<lambda>l. (l, partner on rs l)) ls"
  using assms
proof (induction ls)
  case (Cons l ls)
  then have "length (filter (on l) rs) \<le> 1" by (simp add: single_partner_def)
  then have "filter (on l) rs = [] \<or> (\<exists>r. filter (on l) rs = [r])"
    by (cases "filter (on l) rs") auto
  with Cons show ?case by (auto simp: left_join_Cons partner_def find_filter)
qed simp

section \<open>Groups and sums\<close>

definition groups :: "('a \<Rightarrow> 'k) \<Rightarrow> 'a list \<Rightarrow> ('k \<times> 'a list) list" where
  "groups key xs = map (\<lambda>k. (k, filter (\<lambda>x. key x = k) xs)) (remdups (map key xs))"

text \<open>\<open>sum\<close> ignores nulls and is null when there is nothing to add; \<open>count\<close> ignores nulls.\<close>

definition sql_sum :: "('a \<Rightarrow> rat option) \<Rightarrow> 'a list \<Rightarrow> rat option" where
  "sql_sum f xs = (case List.map_filter f xs of [] \<Rightarrow> None | ys \<Rightarrow> Some (sum_list ys))"

definition sql_count :: "('a \<Rightarrow> 'b option) \<Rightarrow> 'a list \<Rightarrow> nat" where
  "sql_count f xs = length (List.map_filter f xs)"

lemma sql_sum_total: "coalesce (sql_sum f xs) 0 = (\<Sum>x\<leftarrow>xs. coalesce (f x) 0)"
proof -
  have "coalesce (sql_sum f xs) 0 = sum_list (List.map_filter f xs)"
    by (simp add: sql_sum_def split: list.splits)
  also have "\<dots> = (\<Sum>x\<leftarrow>xs. coalesce (f x) 0)"
    by (induction xs) (auto simp: List.map_filter_simps split: option.splits)
  finally show ?thesis .
qed

lemma groups_keys: "map fst (groups key xs) = remdups (map key xs)"
  by (simp add: groups_def comp_def)

lemma find_pair: "List.find (\<lambda>g. fst g = k) (map (\<lambda>k. (k, f k)) ks) = (if k \<in> set ks then Some (k, f k) else None)"
  by (induction ks) auto

lemma groups_find:
  "List.find (\<lambda>g. fst g = k) (groups key xs) =
     (if k \<in> key ` set xs then Some (k, filter (\<lambda>x. key x = k) xs) else None)"
  unfolding groups_def find_pair by simp

section \<open>Sums over joins\<close>

text \<open>
  In a full join of two lists in which every row has at most one partner, every row of either list
  occurs once: a sum over the join of something of its left part is the sum over the left list.
\<close>

definition left_part :: "('l \<Rightarrow> int) \<Rightarrow> 'l option \<times> 'r option \<Rightarrow> int" where
  "left_part f lr = (case fst lr of None \<Rightarrow> 0 | Some l \<Rightarrow> f l)"

definition right_part :: "('r \<Rightarrow> int) \<Rightarrow> 'l option \<times> 'r option \<Rightarrow> int" where
  "right_part g lr = (case snd lr of None \<Rightarrow> 0 | Some r \<Rightarrow> g r)"

lemma sum_full_join_left:
  assumes "list_all (single_partner on rs) ls"
  shows "(\<Sum>lr\<leftarrow>full_join on ls rs. left_part f lr) = (\<Sum>l\<leftarrow>ls. f l)"
proof -
  have "(\<Sum>r\<leftarrow>rs'. left_part f (None, Some r)) = 0" for rs' :: "'b list"
    by (induction rs') (simp_all add: left_part_def)
  then show ?thesis
    by (simp add: full_join_def left_join_single [OF assms] comp_def left_part_def)
qed

lemma sum_left_join_right:
  "(\<Sum>lr\<leftarrow>left_join on ls rs. case snd lr of None \<Rightarrow> 0 | Some r \<Rightarrow> g r) =
     (\<Sum>r\<leftarrow>rs. int (length (filter (\<lambda>l. on l r) ls)) * (g r :: int))"
proof (induction ls)
  case (Cons l ls)
  have one: "(\<Sum>r\<leftarrow>rs. (if on l r then g r else 0)) = (\<Sum>r\<leftarrow>filter (on l) rs. g r)"
    by (induction rs) auto
  have "(\<Sum>lr\<leftarrow>left_join on (l # ls) rs. case snd lr of None \<Rightarrow> 0 | Some r \<Rightarrow> g r) =
      (\<Sum>r\<leftarrow>filter (on l) rs. g r) + (\<Sum>r\<leftarrow>rs. int (length (filter (\<lambda>l. on l r) ls)) * g r)"
    using Cons by (simp add: left_join_Cons comp_def)
  also have "\<dots> = (\<Sum>r\<leftarrow>rs. (if on l r then g r else 0) + int (length (filter (\<lambda>l. on l r) ls)) * g r)"
    by (simp add: one sum_list_addf)
  also have "\<dots> = (\<Sum>r\<leftarrow>rs. int (length (filter (\<lambda>l. on l r) (l # ls))) * g r)"
    by (intro arg_cong [where f = sum_list] map_cong refl) (simp add: algebra_simps)
  finally show ?case .
qed simp

lemma sum_full_join_right:
  assumes "list_all (single_partner (\<lambda>r l. on l r) ls) rs"
  shows "(\<Sum>lr\<leftarrow>full_join on ls rs. right_part g lr) = (\<Sum>r\<leftarrow>rs. g r)"
proof -
  let ?n = "\<lambda>r. length (filter (\<lambda>l. on l r) ls)"
  have unmatched: "(\<Sum>r\<leftarrow>filter (\<lambda>r. \<not> list_ex (\<lambda>l. on l r) ls) rs. g r) =
      (\<Sum>r\<leftarrow>rs. if ?n r = 0 then g r else 0)"
    by (induction rs) (auto simp: filter_empty_conv list_ex_iff)
  have "(\<Sum>lr\<leftarrow>full_join on ls rs. right_part g lr) =
      (\<Sum>lr\<leftarrow>left_join on ls rs. case snd lr of None \<Rightarrow> 0 | Some r \<Rightarrow> g r) +
      (\<Sum>r\<leftarrow>filter (\<lambda>r. \<not> list_ex (\<lambda>l. on l r) ls) rs. g r)"
    by (simp add: full_join_def right_part_def comp_def split_beta)
  also have "\<dots> = (\<Sum>r\<leftarrow>rs. int (?n r) * g r + (if ?n r = 0 then g r else 0))"
    unfolding sum_left_join_right unmatched by (simp add: sum_list_addf)
  also have "\<dots> = (\<Sum>r\<leftarrow>rs. g r)"
  proof (intro arg_cong [where f = sum_list] map_cong refl)
    fix r assume "r \<in> set rs"
    with assms have "?n r \<le> 1" by (simp add: list_all_iff single_partner_def)
    then have "?n r = 0 \<or> ?n r = 1" by linarith
    then show "int (?n r) * g r + (if ?n r = 0 then g r else 0) = g r" by auto
  qed
  finally show ?thesis .
qed

text \<open>Joins on the key of a list of pairs; a null key has no partner.\<close>

definition same_key :: "('k option \<times> 'a) \<Rightarrow> ('k option \<times> 'b) \<Rightarrow> bool" where
  "same_key l r \<longleftrightarrow> sql_eq (fst l) (fst r) = Some True"

lemma same_key_iff: "same_key l r \<longleftrightarrow> fst l \<noteq> None \<and> fst l = fst r"
  by (cases "fst l"; cases "fst r") (auto simp: same_key_def sql_eq_def)

definition unique_keys :: "('k option \<times> 'a) list \<Rightarrow> bool" where
  "unique_keys rs \<longleftrightarrow> (\<forall>k. length (filter (\<lambda>r. fst r = Some k) rs) \<le> 1)"

lemma distinct_unique_keys: "distinct (map fst rs) \<Longrightarrow> unique_keys rs"
  unfolding unique_keys_def by (induction rs) (auto simp: filter_empty_conv rev_image_eqI)

lemma same_key_unique:
  assumes "unique_keys rs"
  shows "single_partner same_key rs l" and "single_partner (\<lambda>r l. same_key l r) rs l'"
proof -
  have few: "length (filter P rs) \<le> 1" if "\<And>r. P r \<Longrightarrow> k \<noteq> None \<and> fst r = k" for P k
  proof (cases k)
    case None
    then have "filter P rs = []" using that by (auto simp: filter_empty_conv)
    then show ?thesis by simp
  next
    case (Some i)
    have "length (filter P xs) \<le> length (filter (\<lambda>r. fst r = Some i) xs)" for xs
      using that Some by (induction xs) auto
    with assms show ?thesis unfolding unique_keys_def by (metis le_trans)
  qed
  show "single_partner same_key rs l" unfolding single_partner_def
    by (rule few [where k = "fst l"]) (auto simp: same_key_iff)
  show "single_partner (\<lambda>r l. same_key l r) rs l'" unfolding single_partner_def
    by (rule few [where k = "fst l'"]) (auto simp: same_key_iff)
qed

lemma same_key_single:
  assumes "distinct (map fst rs)"
  shows "single_partner same_key rs l" and "single_partner (\<lambda>r l. same_key l r) rs l'"
  using same_key_unique [OF distinct_unique_keys [OF assms]] by blast+

lemma sums_of_full_join:
  assumes "unique_keys ls" and "unique_keys rs"
  shows "(\<Sum>lr\<leftarrow>full_join same_key ls rs. left_part f lr) = (\<Sum>l\<leftarrow>ls. f l)"
    and "(\<Sum>lr\<leftarrow>full_join same_key ls rs. right_part g lr) = (\<Sum>r\<leftarrow>rs. g r)"
  using same_key_unique [OF assms(2)] same_key_unique [OF assms(1)]
  by (auto intro!: sum_full_join_left sum_full_join_right simp: list_all_iff)

text \<open>The row of a full join with a given key: the rows of both lists with this key, where there are any.\<close>

definition join_key :: "('k option \<times> 'a) option \<times> ('k option \<times> 'b) option \<Rightarrow> 'k option" where
  "join_key lr = (case Option.bind (fst lr) fst of None \<Rightarrow> Option.bind (snd lr) fst | Some k \<Rightarrow> Some k)"

lemma filter_key:
  "distinct (map fst xs) \<Longrightarrow> filter (\<lambda>x. fst x = k) xs = (case map_of xs k of None \<Rightarrow> [] | Some a \<Rightarrow> [(k, a)])"
  by (induction xs) (auto simp: filter_empty_conv map_of_eq_None_iff rev_image_eqI split: option.splits)

lemma partner_same_key:
  "partner same_key rs (k, a) = (case k of None \<Rightarrow> None | Some i \<Rightarrow> map_option (Pair (Some i)) (map_of rs (Some i)))"
  by (induction rs) (auto simp: partner_def same_key_iff split: option.splits)

lemma full_join_key:
  fixes ls :: "('k option \<times> 'a) list" and rs :: "('k option \<times> 'b) list"
  assumes "distinct (map fst ls)" and "distinct (map fst rs)"
  shows "filter (\<lambda>lr. join_key lr = Some k) (full_join same_key ls rs) =
    (if map_of ls (Some k) = None \<and> map_of rs (Some k) = None then []
     else [(map_option (Pair (Some k)) (map_of ls (Some k)), map_option (Pair (Some k)) (map_of rs (Some k)))])"
proof -
  have single: "list_all (single_partner same_key rs) ls" unfolding list_all_iff by (intro ballI same_key_single(1) assms(2))
  have key: "join_key (Some l, partner same_key rs l) = Some k \<longleftrightarrow> fst l = Some k" for l
    by (cases l) (auto simp: join_key_def partner_same_key split: option.splits)
  have left: "filter (\<lambda>lr. join_key lr = Some k) (map (\<lambda>(l, r). (Some l, r)) (left_join same_key ls rs)) =
      (case map_of ls (Some k) of None \<Rightarrow> []
       | Some a \<Rightarrow> [(Some (Some k, a), map_option (Pair (Some k)) (map_of rs (Some k)))])"
    unfolding left_join_single [OF single]
    by (simp add: filter_map comp_def key filter_key [OF assms(1)] partner_same_key split: option.splits)
  have unmatched: "(fst r = Some k \<and> \<not> list_ex (\<lambda>l. same_key l r) ls) \<longleftrightarrow> (map_of ls (Some k) = None \<and> fst r = Some k)" for r
    by (cases "fst r = Some k") (auto simp: list_ex_iff same_key_iff map_of_eq_None_iff image_iff)
  have "filter (\<lambda>lr. join_key lr = Some k) (map (\<lambda>r. (None :: ('k option \<times> 'a) option, Some r)) (filter (\<lambda>r. \<not> list_ex (\<lambda>l. same_key l r) ls) rs)) =
      map (\<lambda>r. (None :: ('k option \<times> 'a) option, Some r)) (filter (\<lambda>r. fst r = Some k \<and> \<not> list_ex (\<lambda>l. same_key l r) ls) rs)"
    by (simp add: filter_map comp_def join_key_def conj_commute)
  also have "filter (\<lambda>r. fst r = Some k \<and> \<not> list_ex (\<lambda>l. same_key l r) ls) rs =
      (if map_of ls (Some k) = None then case map_of rs (Some k) of None \<Rightarrow> [] | Some b \<Rightarrow> [(Some k, b)] else [])"
    unfolding unmatched by (simp add: filter_key [OF assms(2)] split: option.splits)
  finally have right: "filter (\<lambda>lr. join_key lr = Some k)
        (map (\<lambda>r. (None :: ('k option \<times> 'a) option, Some r)) (filter (\<lambda>r. \<not> list_ex (\<lambda>l. same_key l r) ls) rs)) =
      (if map_of ls (Some k) = None then case map_of rs (Some k) of None \<Rightarrow> [] | Some b \<Rightarrow> [(None, Some (Some k, b))] else [])"
    by (simp split: option.splits)
  show ?thesis unfolding full_join_def filter_append left right by (auto split: option.splits)
qed

lemma groups_distinct: "distinct (map fst (groups key xs))"
  by (simp add: groups_keys)

section \<open>Rounding and latest values\<close>

text \<open>\<open>round\<close> on \<open>numeric\<close> rounds halves away from zero.\<close>

definition sql_round :: "nat \<Rightarrow> rat \<Rightarrow> rat" where
  "sql_round digits x =
     (let y = x * 10 ^ digits in (if 0 \<le> y then of_int \<lfloor>y + 1/2\<rfloor> else of_int \<lceil>y - 1/2\<rceil>) / 10 ^ digits)"

text \<open>\<open>last(value, time)\<close> of TimescaleDB: the value of the latest row.\<close>

fun latest :: "('a \<Rightarrow> time) \<Rightarrow> 'a list \<Rightarrow> 'a option" where
  "latest tm [] = None"
| "latest tm (x # xs) =
     (case latest tm xs of None \<Rightarrow> Some x | Some y \<Rightarrow> if tm x \<le> tm y then Some y else Some x)"

lemma latest_None: "latest tm xs = None \<longleftrightarrow> xs = []"
  by (cases xs) (auto split: option.splits)

lemma latest_in: "latest tm xs = Some x \<Longrightarrow> x \<in> set xs \<and> (\<forall>y \<in> set xs. tm y \<le> tm x)"
  by (induction xs arbitrary: x) (auto simp: latest_None split: option.splits if_splits)

section \<open>Scanning\<close>

text \<open>Columns that are scanned into Go variables.\<close>

definition scan_required :: "'a option \<Rightarrow> 'a result" where
  "scan_required x = (case x of None \<Rightarrow> Fails ''converting NULL is unsupported'' | Some v \<Rightarrow> Ok v)"

definition scan_uint :: "nat \<Rightarrow> rat \<Rightarrow> int result" where
  "scan_uint bits x =
     (if x = of_int \<lfloor>x\<rfloor> \<and> 0 \<le> \<lfloor>x\<rfloor> \<and> \<lfloor>x\<rfloor> < 2 ^ bits then Ok \<lfloor>x\<rfloor>
      else Fails ''value out of range or invalid syntax'')"

definition scan_uint_opt :: "nat \<Rightarrow> rat option \<Rightarrow> int option result" where
  "scan_uint_opt bits x =
     (case x of None \<Rightarrow> Ok None
      | Some v \<Rightarrow> (case scan_uint bits v of Inl e \<Rightarrow> Inl e | Inr n \<Rightarrow> Ok (Some n)))"

lemma scan_uint_of_int:
  "scan_uint bits (of_int n) =
     (if 0 \<le> n \<and> n < 2 ^ bits then Ok n else Fails ''value out of range or invalid syntax'')"
  by (simp add: scan_uint_def)

end
