(* ===== verification/Reports.thy ===== *)
theory Reports
  imports Sql QueryParser ServerErrors ManagedNode Functions
begin

text \<open>
  What the report pages of \<open>src/internal/invoices/\<close>, \<open>src/internal/payments/\<close> and
  \<open>src/internal/on_chain_tx/\<close> share, which the source writes out three times: a request names a
  filter, an order, a limit and an offset, and is answered by a page of the rows and the number of
  all rows the filter selects.  Postgres is a record of parameters: what a condition selects, in which
  order rows come, and which of its steps fail.
\<close>

section \<open>Requests\<close>

text \<open>The query parameters of a request; one that is missing is the empty string.\<close>

record ReportQuery =
  rq_Filter :: string
  rq_Order :: string
  rq_Limit :: string
  rq_Offset :: string
  rq_Network :: string
  rq_Chain :: string

text \<open>The JSON decoders, the snake case conversion and the text of a floating point number.\<close>

record 'f Decoders =
  rd_Filter :: "string \<Rightarrow> 'f FilterClauses result"
  rd_Order :: "string \<Rightarrow> Order list result"
  rd_Snake :: "string \<Rightarrow> string"
  rd_Number :: "'f \<Rightarrow> string"

definition filter_param_of :: "'f Decoders \<Rightarrow> string list \<Rightarrow> string \<Rightarrow> 'f Sqlizer option result" where
  "filter_param_of dec allowed filterParam =
     (if filterParam = '''' then Ok None
      else case ParseFilterParam (rd_Filter dec) (rd_Snake dec) (rd_Number dec) filterParam allowed of
             Inl e \<Rightarrow> Inl e
           | Inr f \<Rightarrow> Ok (Some f))"

definition order_param_of :: "'f Decoders \<Rightarrow> string list \<Rightarrow> string \<Rightarrow> string list result" where
  "order_param_of dec allowed sortParam =
     (if sortParam = '''' then Ok [] else ParseOrderParams (rd_Order dec) (rd_Snake dec) sortParam allowed)"

text \<open>\<open>strconv.ParseUint\<close> fails with a \<open>NumError\<close> only, so the default branch is never taken.\<close>

definition number_param :: "string \<Rightarrow> string \<Rightarrow> uint64 result" where
  "number_param message s =
     (if s = '''' then Ok 0
      else case parse_uint 64 s of None \<Rightarrow> Fails message | Some n \<Rightarrow> Ok (word_of_nat n))"

definition limit_param :: "bool \<Rightarrow> string \<Rightarrow> uint64 result" where
  "limit_param at_least_one s =
     (case number_param ''Limit must be a positive number'' s of
        Inl e \<Rightarrow> Inl e
      | Inr limit \<Rightarrow>
          if at_least_one \<and> s \<noteq> '''' \<and> limit = 0 then Fails ''Limit must be a at least 1'' else Ok limit)"

definition offset_param :: "string \<Rightarrow> uint64 result" where
  "offset_param s = number_param ''Offset must be a positive number'' s"

section \<open>Answers\<close>

record Pagination =
  pg_Total :: uint64
  pg_Limit :: uint64
  pg_Offset :: uint64

record 'a ApiResponse =
  ar_Data :: "'a list"
  ar_Pagination :: Pagination

datatype 'a ReportBody =
    ErrorObject string
  | NotFoundObject string string
  | ServerErrorObject ServerError
  | Page "'a ApiResponse"
  | Details 'a

definition server_error :: "go_error \<Rightarrow> int \<times> 'a ReportBody" where
  "server_error e = (case LogAndSendServerError e of (status, body) \<Rightarrow> (status, ServerErrorObject body))"

definition bad_request :: "go_error \<Rightarrow> int \<times> 'a ReportBody" where
  "bad_request e = (400, ErrorObject (error_text e))"

text \<open>The parameters of a request, checked one after the other, and the answer to it.\<close>

definition report_params ::
    "'f Decoders \<Rightarrow> string list \<Rightarrow> string list \<Rightarrow> bool \<Rightarrow> ReportQuery \<Rightarrow>
     ('f Sqlizer option \<times> string list \<times> uint64 \<times> uint64) result" where
  "report_params dec filterColumns orderColumns at_least_one q =
     (case filter_param_of dec filterColumns (rq_Filter q) of
        Inl e \<Rightarrow> Inl e
      | Inr cond \<Rightarrow>
     (case order_param_of dec orderColumns (rq_Order q) of
        Inl e \<Rightarrow> Inl e
      | Inr sorting \<Rightarrow>
     (case limit_param at_least_one (rq_Limit q) of
        Inl e \<Rightarrow> Inl e
      | Inr limit \<Rightarrow>
     (case offset_param (rq_Offset q) of
        Inl e \<Rightarrow> Inl e
      | Inr offset \<Rightarrow> Ok (cond, sorting, limit, offset)))))"

definition report_answer :: "uint64 \<Rightarrow> uint64 \<Rightarrow> ('a list \<times> uint64) result \<Rightarrow> int \<times> 'a ReportBody" where
  "report_answer limit offset rows =
     (case rows of
        Inl e \<Rightarrow> server_error e
      | Inr (r, total_rows) \<Rightarrow>
          (200, Page \<lparr>ar_Data = r,
                      ar_Pagination = \<lparr>pg_Total = total_rows, pg_Limit = limit, pg_Offset = offset\<rparr>\<rparr>))"

text \<open>The body of the handlers; \<open>getRows\<close> is the query of the report.\<close>

definition report_handler ::
    "'f Decoders \<Rightarrow> string list \<Rightarrow> string list \<Rightarrow> bool \<Rightarrow>
     ('f Sqlizer option \<Rightarrow> string list \<Rightarrow> uint64 \<Rightarrow> uint64 \<Rightarrow> ('a list \<times> uint64) result) \<Rightarrow>
     ReportQuery \<Rightarrow> int \<times> 'a ReportBody" where
  "report_handler dec filterColumns orderColumns at_least_one getRows q =
     (case report_params dec filterColumns orderColumns at_least_one q of
        Inl e \<Rightarrow> bad_request e
      | Inr (cond, sorting, limit, offset) \<Rightarrow> report_answer limit offset (getRows cond sorting limit offset))"

lemmas report_handling = report_handler_def report_params_def report_answer_def

section \<open>The query\<close>

text \<open>
  The SQL builder may refuse a condition; a condition holds of a row, does not, or cannot be
  evaluated, which fails the query.  An ORDER BY compares rows (\<open>rb_Before\<close>: one may come before the
  other), and \<open>rb_Arrange\<close> is how the rows come for a limit and an offset: the sequence Postgres cuts
  the page from, which it may choose anew for each request.  A failure while rows are read ends
  \<open>rows.Next\<close> like the end of the rows, since the code never asks \<open>rows.Err\<close>: \<open>rb_Cut\<close> is the number
  of rows read until then.
\<close>

record ('f, 'row) ReportDb =
  rb_ToSql :: "'f Sqlizer option \<Rightarrow> go_error option"
  rb_Holds :: "'f Sqlizer \<Rightarrow> 'row \<Rightarrow> bool result"
  rb_Before :: "string list \<Rightarrow> 'row \<Rightarrow> 'row \<Rightarrow> bool"
  rb_Arrange :: "string list \<Rightarrow> uint64 \<Rightarrow> uint64 \<Rightarrow> 'row list \<Rightarrow> 'row list"
  rb_Query :: "go_error option"
  rb_Cut :: "nat option"
  rb_Count :: "go_error option"

record ReportErrors =
  rm_Compile :: string
  rm_Query :: string
  rm_Scan :: string
  rm_CompileCount :: string
  rm_Count :: string

fun collect :: "('a \<Rightarrow> 'b result) \<Rightarrow> 'a list \<Rightarrow> 'b list result" where
  "collect f [] = Ok []"
| "collect f (x # xs) =
     (case f x of Inl e \<Rightarrow> Inl e
      | Inr y \<Rightarrow> (case collect f xs of Inl e \<Rightarrow> Inl e | Inr ys \<Rightarrow> Ok (y # ys)))"

definition where_rows :: "('f, 'row) ReportDb \<Rightarrow> 'f Sqlizer option \<Rightarrow> 'row list \<Rightarrow> 'row list result" where
  "where_rows db cond rows =
     (case cond of
        None \<Rightarrow> Ok rows
      | Some f \<Rightarrow>
          (case collect (rb_Holds db f) rows of
             Inl e \<Rightarrow> Inl e
           | Inr bs \<Rightarrow> Ok (map fst (List.filter snd (zip rows bs)))))"

text \<open>\<open>LIMIT\<close> and \<open>OFFSET\<close> are of type \<open>bigint\<close>: a number from 2 ^ 63 on fails the query.\<close>

definition bigint_ok :: "uint64 \<Rightarrow> bool" where
  "bigint_ok n \<longleftrightarrow> unat n < 2 ^ 63"

definition page_rows :: "uint64 \<Rightarrow> uint64 \<Rightarrow> 'row list \<Rightarrow> 'row list result" where
  "page_rows limit offset rows =
     (if limit > 0
      then if bigint_ok limit \<and> bigint_ok offset then Ok (take (unat limit) (drop (unat offset) rows))
           else Fails ''bigint out of range''
      else Ok rows)"

definition cut_rows :: "('f, 'row) ReportDb \<Rightarrow> 'row list \<Rightarrow> 'row list" where
  "cut_rows db rows = (case rb_Cut db of None \<Rightarrow> rows | Some n \<Rightarrow> take n rows)"

definition query_rows ::
    "('f, 'row) ReportDb \<Rightarrow> 'row list \<Rightarrow> 'f Sqlizer option \<Rightarrow> string list \<Rightarrow> uint64 \<Rightarrow> uint64 \<Rightarrow> 'row list result" where
  "query_rows db table cond order limit offset =
     (case rb_Query db of
        Some e \<Rightarrow> Inl e
      | None \<Rightarrow>
          (case where_rows db cond table of
             Inl e \<Rightarrow> Inl e
           | Inr rows \<Rightarrow> page_rows limit offset (rb_Arrange db order limit offset rows)))"

definition count_rows :: "('f, 'row) ReportDb \<Rightarrow> 'row list \<Rightarrow> 'f Sqlizer option \<Rightarrow> uint64 result" where
  "count_rows db table cond =
     (case rb_Count db of
        Some e \<Rightarrow> Inl e
      | None \<Rightarrow>
          (case where_rows db cond table of
             Inl e \<Rightarrow> Inl e
           | Inr rows \<Rightarrow> Ok (word_of_nat (length rows))))"

definition run_report ::
    "ReportErrors \<Rightarrow> ('row \<Rightarrow> 'a result) \<Rightarrow> ('f, 'row) ReportDb \<Rightarrow> 'row list \<Rightarrow>
     'f Sqlizer option \<Rightarrow> string list \<Rightarrow> uint64 \<Rightarrow> uint64 \<Rightarrow> ('a list \<times> uint64) result" where
  "run_report messages scan db table cond order limit offset =
     (case rb_ToSql db cond of
        Some e \<Rightarrow> Inl (wrapped (rm_Compile messages) e)
      | None \<Rightarrow>
     (case query_rows db table cond order limit offset of
        Inl e \<Rightarrow> Inl (wrapped (rm_Query messages) e)
      | Inr rows \<Rightarrow>
     (case collect scan (cut_rows db rows) of
        Inl e \<Rightarrow> Inl (wrapped (rm_Scan messages) e)
      | Inr r \<Rightarrow>
     (case rb_ToSql db cond of
        Some e \<Rightarrow> Inl (wrapped (rm_CompileCount messages) e)
      | None \<Rightarrow>
     (case count_rows db table cond of
        Inl e \<Rightarrow> Inl (wrapped (rm_Count messages) e)
      | Inr total_rows \<Rightarrow> Ok (r, total_rows))))))"

section \<open>Pages\<close>

lemma collect_append: "collect f (xs @ ys) =
    (case collect f xs of Inl e \<Rightarrow> Inl e | Inr us \<Rightarrow> (case collect f ys of Inl e \<Rightarrow> Inl e | Inr vs \<Rightarrow> Ok (us @ vs)))"
  by (induction xs) (auto split: sum.splits)

lemma collect_all:
  assumes "list_all (\<lambda>x. isl (f x) = False) xs"
  shows "collect f xs = Ok (map (\<lambda>x. projr (f x)) xs)"
  using assms
proof (induction xs)
  case (Cons x xs)
  then show ?case by (cases "f x") auto
qed simp

lemma collect_fails: "collect f xs = Inl e \<Longrightarrow> \<exists>x \<in> set xs. f x = Inl e"
  by (induction xs) (auto split: sum.splits)

lemma collect_error: "x \<in> set xs \<Longrightarrow> isl (f x) \<Longrightarrow> \<exists>e. collect f xs = Inl e"
  by (induction xs) (auto simp: isl_def split: sum.splits)

lemma collect_length: "collect f xs = Ok ys \<Longrightarrow> length ys = length xs"
  by (induction xs arbitrary: ys) (auto split: sum.splits)

text \<open>
  A database that answers: the builder accepts the condition, no query fails, every row can be
  scanned, and the condition selects \<open>rows\<close>.
\<close>

definition answers ::
    "('f, 'row) ReportDb \<Rightarrow> ('row \<Rightarrow> 'a result) \<Rightarrow> 'row list \<Rightarrow> 'f Sqlizer option \<Rightarrow> 'row list \<Rightarrow> bool" where
  "answers db scan table cond rows \<longleftrightarrow>
     rb_ToSql db cond = None \<and> rb_Query db = None \<and> rb_Cut db = None \<and> rb_Count db = None \<and>
     where_rows db cond table = Ok rows \<and> list_all (\<lambda>r. isl (scan r) = False) rows"

definition shown :: "('row \<Rightarrow> 'a result) \<Rightarrow> 'row list \<Rightarrow> 'a list" where
  "shown scan rows = map (\<lambda>r. projr (scan r)) rows"

lemma collect_shown: "list_all (\<lambda>r. isl (scan r) = False) rows \<Longrightarrow> collect scan rows = Ok (shown scan rows)"
  by (simp add: collect_all shown_def)

text \<open>
  Postgres: for every limit and offset the rows come each once and as the order says.  Nothing is said
  of rows the order leaves tied; \<open>decides\<close> is an order that ties none that differ.
\<close>

definition orders_rows :: "('f, 'row) ReportDb \<Rightarrow> string list \<Rightarrow> 'row list \<Rightarrow> bool" where
  "orders_rows db sorting rows \<longleftrightarrow>
     (\<forall>limit offset. mset (rb_Arrange db sorting limit offset rows) = mset rows \<and>
        sorted_wrt (rb_Before db sorting) (rb_Arrange db sorting limit offset rows))"

definition decides :: "('f, 'row) ReportDb \<Rightarrow> string list \<Rightarrow> 'row list \<Rightarrow> bool" where
  "decides db sorting rows \<longleftrightarrow>
     (\<forall>x \<in> set rows. \<forall>y \<in> set rows. rb_Before db sorting x y \<and> rb_Before db sorting y x \<longrightarrow> x = y)"

text \<open>Rows that an order decides come in one sequence only.\<close>

lemma sorted_wrt_unique:
  assumes "mset xs = mset ys" and "sorted_wrt R xs" and "sorted_wrt R ys"
    and "\<And>x y. x \<in> set xs \<Longrightarrow> y \<in> set xs \<Longrightarrow> R x y \<Longrightarrow> R y x \<Longrightarrow> x = y"
  shows "xs = ys"
  using assms
proof (induction xs arbitrary: ys)
  case (Cons x xs)
  then obtain y ys1 where ys: "ys = y # ys1" by (cases ys) auto
  have sets: "set (x # xs) = set (y # ys1)" using mset_eq_setD [OF Cons.prems(1)] ys by simp
  have "x = y"
  proof (rule ccontr)
    assume "x \<noteq> y"
    with sets have "x \<in> set ys1" "y \<in> set xs" by auto
    with Cons.prems(2,3) ys have "R x y" "R y x" by auto
    with Cons.prems(4) sets \<open>x \<noteq> y\<close> show False by auto
  qed
  moreover have "xs = ys1" using Cons.prems ys \<open>x = y\<close> by (intro Cons.IH) auto
  ultimately show ?case using ys by simp
qed simp

lemma decided_arrangement:
  assumes "orders_rows db sorting rows" and "decides db sorting rows"
  obtains report where "mset report = mset rows" and "sorted_wrt (rb_Before db sorting) report"
    and "\<And>limit offset. rb_Arrange db sorting limit offset rows = report"
proof
  let ?report = "rb_Arrange db sorting 0 0 rows"
  show m: "mset ?report = mset rows" and s: "sorted_wrt (rb_Before db sorting) ?report"
    using assms(1) by (simp_all add: orders_rows_def)
  fix limit offset
  have other: "mset (rb_Arrange db sorting limit offset rows) = mset rows"
    "sorted_wrt (rb_Before db sorting) (rb_Arrange db sorting limit offset rows)"
    using assms(1) by (simp_all add: orders_rows_def)
  with s m assms(2) mset_eq_setD [OF other(1)] show "rb_Arrange db sorting limit offset rows = ?report"
    by (intro sorted_wrt_unique [where R = "rb_Before db sorting"]) (auto simp: decides_def)
qed

lemma run_report_answers:
  assumes "answers db scan table cond rows" and "mset (rb_Arrange db order limit offset rows) = mset rows"
    and "bigint_ok limit" and "bigint_ok offset"
  shows "run_report messages scan db table cond order limit offset =
    Ok (shown scan (if limit > 0 then take (unat limit) (drop (unat offset) (rb_Arrange db order limit offset rows))
                    else rb_Arrange db order limit offset rows), word_of_nat (length rows))"
proof -
  let ?all = "rb_Arrange db order limit offset rows"
  let ?page = "if limit > 0 then take (unat limit) (drop (unat offset) ?all) else ?all"
  have "set ?page \<subseteq> set rows"
    using mset_eq_setD [OF assms(2)] by (auto dest!: in_set_takeD in_set_dropD)
  with assms(1) have "list_all (\<lambda>r. isl (scan r) = False) ?page" by (auto simp: answers_def list_all_iff)
  from collect_shown [OF this] assms show ?thesis
    by (cases "limit > 0")
      (simp_all add: run_report_def answers_def query_rows_def page_rows_def cut_rows_def count_rows_def)
qed

text \<open>Pages of \<open>n\<close> rows each, put together, are the first rows of the list.\<close>

lemma concat_pages: "concat (map (\<lambda>i. take n (drop (i * n) xs)) [0..<k]) = take (k * n) xs"
proof (induction k)
  case (Suc k)
  have "take (n + k * n) xs = take (k * n) xs @ take n (drop (k * n) xs)"
    by (metis add.commute take_add)
  with Suc show ?case by (simp add: add.commute)
qed simp

lemma shown_take: "shown scan (take n xs) = take n (shown scan xs)"
  by (simp add: shown_def take_map)

lemma shown_drop: "shown scan (drop n xs) = drop n (shown scan xs)"
  by (simp add: shown_def drop_map)

text \<open>A request for one page, with the numbers in decimal.\<close>

definition page_query :: "ReportQuery \<Rightarrow> nat \<Rightarrow> nat \<Rightarrow> ReportQuery" where
  "page_query q n i = q\<lparr>rq_Limit := format_uint n, rq_Offset := format_uint (i * n)\<rparr>"

lemma number_param_format: "n < 2 ^ 64 \<Longrightarrow> number_param m (format_uint n) = Ok (word_of_nat n)"
  by (simp add: number_param_def parse_uint_format_uint)

lemma word_of_nat_small: "n < 2 ^ 63 \<Longrightarrow> unat (word_of_nat n :: uint64) = n"
  by (simp add: unat_of_nat)

lemma report_page:
  assumes "answers db scan table cond rows" and "orders_rows db sorting rows"
    and "filter_param_of dec filterColumns (rq_Filter q) = Ok cond"
    and "order_param_of dec orderColumns (rq_Order q) = Ok sorting"
    and "0 < n" and "n < 2 ^ 63" and "i * n < 2 ^ 63"
  shows "report_handler dec filterColumns orderColumns b (run_report messages scan db table) (page_query q n i) =
    (200, Page \<lparr>ar_Data = take n (drop (i * n) (shown scan (rb_Arrange db sorting (word_of_nat n) (word_of_nat (i * n)) rows))),
                ar_Pagination = \<lparr>pg_Total = word_of_nat (length rows), pg_Limit = word_of_nat n,
                                 pg_Offset = word_of_nat (i * n)\<rparr>\<rparr>)"
proof -
  have small: "bigint_ok (word_of_nat n)" "bigint_ok (word_of_nat (i * n))"
    using assms(6,7) unfolding bigint_ok_def by (simp_all only: word_of_nat_small)
  have pos: "(word_of_nat n :: uint64) > 0"
    using assms(5,6) by (metis word_of_nat_small unat_0 word_neq_0_conv not_gr0)
  have limit: "limit_param b (format_uint n) = Ok (word_of_nat n)"
    using assms(6) pos word_gt_0 [of "word_of_nat n :: uint64"] by (simp add: limit_param_def number_param_format)
  have offset: "offset_param (format_uint (i * n)) = Ok (word_of_nat (i * n))"
    using assms(7) unfolding offset_param_def by (intro number_param_format) simp
  have "mset (rb_Arrange db sorting (word_of_nat n) (word_of_nat (i * n)) rows) = mset rows"
    using assms(2) by (simp add: orders_rows_def)
  from run_report_answers [OF assms(1) this small] show ?thesis
    unfolding report_handling page_query_def
    using assms(3,4,6,7) limit offset pos
    by (simp add: shown_take shown_drop word_of_nat_small del: of_nat_mult)
qed

definition page_data :: "int \<times> 'a ReportBody \<Rightarrow> 'a list" where
  "page_data r = (case r of (status, Page p) \<Rightarrow> ar_Data p | _ \<Rightarrow> [])"

text \<open>A request whose filter and order are accepted, to a database that answers it.\<close>

definition report_ready ::
    "'f Decoders \<Rightarrow> string list \<Rightarrow> string list \<Rightarrow> ReportQuery \<Rightarrow> ('f, 'row) ReportDb \<Rightarrow> ('row \<Rightarrow> 'a result) \<Rightarrow> 'row list \<Rightarrow>
     string list \<Rightarrow> 'row list \<Rightarrow> bool" where
  "report_ready dec filterColumns orderColumns q db scan table sorting rows \<longleftrightarrow>
     (case filter_param_of dec filterColumns (rq_Filter q) of
        Inl e \<Rightarrow> False
      | Inr cond \<Rightarrow> answers db scan table cond rows) \<and>
     order_param_of dec orderColumns (rq_Order q) = Ok sorting \<and> orders_rows db sorting rows"

text \<open>The rows of the pages the list \<open>pages\<close> gives are those of one report, in its order.\<close>

definition pages_are :: "('f, 'row) ReportDb \<Rightarrow> ('row \<Rightarrow> 'a result) \<Rightarrow> string list \<Rightarrow> 'row list \<Rightarrow> nat \<Rightarrow> 'a list list \<Rightarrow> bool" where
  "pages_are db scan sorting rows n pages \<longleftrightarrow>
     (\<exists>report. mset report = mset rows \<and> sorted_wrt (rb_Before db sorting) report \<and>
        concat pages = take (length pages * n) (shown scan report))"

lemma report_pages:
  assumes "report_ready dec filterColumns orderColumns q db scan table sorting rows" and "decides db sorting rows"
    and "0 < n" and "n < 2 ^ 63" and "k * n < 2 ^ 63"
  shows "pages_are db scan sorting rows n (map (\<lambda>i. page_data (report_handler dec filterColumns orderColumns b
            (run_report messages scan db table) (page_query q n i))) [0..<k])"
proof -
  obtain cond where ready: "filter_param_of dec filterColumns (rq_Filter q) = Ok cond" "answers db scan table cond rows"
      "order_param_of dec orderColumns (rq_Order q) = Ok sorting" "orders_rows db sorting rows"
    using assms(1) by (auto simp: report_ready_def split: sum.splits)
  from decided_arrangement [OF ready(4) assms(2)] obtain report
    where report: "mset report = mset rows" "sorted_wrt (rb_Before db sorting) report"
      "\<And>limit offset. rb_Arrange db sorting limit offset rows = report" by metis
  have "i * n < 2 ^ 63" if "i < k" for i
  proof -
    from that have "i * n \<le> k * n" by simp
    with assms(5) show ?thesis by (rule le_less_trans [rotated])
  qed
  then have pages: "map (\<lambda>i. page_data (report_handler dec filterColumns orderColumns b
        (run_report messages scan db table) (page_query q n i))) [0..<k] =
      map (\<lambda>i. take n (drop (i * n) (shown scan report))) [0..<k]"
    using assms(3,4) ready report(3) by (intro map_cong refl) (simp add: report_page page_data_def)
  show ?thesis unfolding pages_are_def pages
    by (intro exI [of _ report] conjI report(1,2)) (simp add: concat_pages)
qed

text \<open>
  An order that ties rows does not do: a database that orders the rows as asked may show the first of two
  on both pages, and the other on none.
\<close>

lemma tied_rows_may_repeat:
  fixes x y :: 'row
  assumes "\<not> isl (scan x)" and "\<not> isl (scan y)"
    and "filter_param_of dec filterColumns (rq_Filter q) = Ok None" and "order_param_of dec orderColumns (rq_Order q) = Ok sorting"
  obtains db :: "('f, 'row) ReportDb"
    where "report_ready dec filterColumns orderColumns q db scan [x, y] sorting [x, y]"
    and "concat (map (\<lambda>i. page_data (report_handler dec filterColumns orderColumns b
      (run_report messages scan db [x, y]) (page_query q 1 i))) [0..<2]) = shown scan [x, x]"
proof
  let ?db = "\<lparr>rb_ToSql = (\<lambda>_. None), rb_Holds = (\<lambda>_ _. Ok True), rb_Before = (\<lambda>_ _ _. True),
     rb_Arrange = (\<lambda>_ _ offset rows. if offset = 0 then rows else rev rows), rb_Query = None, rb_Cut = None, rb_Count = None\<rparr>
     :: ('f, 'row) ReportDb"
  have a: "answers ?db scan [x, y] None [x, y]" using assms(1,2) by (simp add: answers_def where_rows_def)
  have o: "orders_rows ?db sorting [x, y]" by (simp add: orders_rows_def add_mset_commute)
  show "report_ready dec filterColumns orderColumns q ?db scan [x, y] sorting [x, y]"
    using a o assms(3,4) by (simp add: report_ready_def)
  have "page_data (report_handler dec filterColumns orderColumns b (run_report messages scan ?db [x, y]) (page_query q 1 i)) =
      shown scan [x]" if "i < 2" for i
  proof -
    from that have "i = 0 \<or> i = 1" by auto
    with report_page [OF a o assms(3,4), of 1 i b messages] show ?thesis by (auto simp: page_data_def shown_def)
  qed
  then show "concat (map (\<lambda>i. page_data (report_handler dec filterColumns orderColumns b
      (run_report messages scan ?db [x, y]) (page_query q 1 i))) [0..<2]) = shown scan [x, x]"
    by (simp add: shown_def upt_rec)
qed

text \<open>Without a limit the offset is ignored, but repeated in the answer.\<close>

lemma offset_without_limit:
  assumes "answers db scan table cond rows" and "orders_rows db sorting rows"
    and "filter_param_of dec filterColumns (rq_Filter q) = Ok cond"
    and "order_param_of dec orderColumns (rq_Order q) = Ok sorting"
    and "rq_Limit q = ''''" and "rq_Offset q = format_uint i" and "i < 2 ^ 63"
  shows "report_handler dec filterColumns orderColumns b (run_report messages scan db table) q =
    (200, Page \<lparr>ar_Data = shown scan (rb_Arrange db sorting 0 (word_of_nat i) rows),
                ar_Pagination = \<lparr>pg_Total = word_of_nat (length rows), pg_Limit = 0, pg_Offset = word_of_nat i\<rparr>\<rparr>)"
proof -
  have "bigint_ok 0" "bigint_ok (word_of_nat i)" using assms(7) by (simp_all add: bigint_ok_def word_of_nat_small)
  moreover have "mset (rb_Arrange db sorting 0 (word_of_nat i) rows) = mset rows" using assms(2) by (simp add: orders_rows_def)
  ultimately show ?thesis using run_report_answers [OF assms(1)] assms(3-7)
    by (simp add: report_handling limit_param_def number_param_def offset_param_def parse_uint_format_uint)
qed

section \<open>A database that answers everything\<close>

definition quiet_db :: "('f, 'row) ReportDb" where
  "quiet_db = \<lparr>rb_ToSql = (\<lambda>_. None), rb_Holds = (\<lambda>_ _. Ok True), rb_Before = (\<lambda>_ _ _. True),
     rb_Arrange = (\<lambda>_ _ _ rows. rows), rb_Query = None, rb_Cut = None, rb_Count = None\<rparr>"

text \<open>One that orders by a number of each row.\<close>

definition keyed_db :: "('row \<Rightarrow> int) \<Rightarrow> ('f, 'row) ReportDb" where
  "keyed_db key = quiet_db\<lparr>rb_Before := (\<lambda>_ x y. key x \<le> key y), rb_Arrange := (\<lambda>_ _ _ rows. sort_key key rows)\<rparr>"

lemma keyed_db_ready:
  assumes "list_all (\<lambda>r. isl (scan r) = False) table" and "distinct (map key table)"
    and "filter_param_of dec fs (rq_Filter q) = Ok None" and "order_param_of dec os (rq_Order q) = Ok sorting"
  shows "report_ready dec fs os q (keyed_db key) scan table sorting table"
proof -
  have "sorted_wrt (\<lambda>x y. key x \<le> key y) (sort_key key rows)" for rows
    using sorted_sort_key [of key rows] by (simp add: sorted_wrt_map)
  then show "report_ready dec fs os q (keyed_db key) scan table sorting table"
    using assms by (simp add: report_ready_def answers_def orders_rows_def keyed_db_def quiet_db_def where_rows_def)
qed

lemma keyed_decides: "distinct (map key table) \<Longrightarrow> decides (keyed_db key) sorting table"
  by (auto simp: decides_def keyed_db_def quiet_db_def distinct_map dest: inj_onD)

definition no_query :: ReportQuery where
  "no_query = \<lparr>rq_Filter = [], rq_Order = [], rq_Limit = [], rq_Offset = [], rq_Network = [], rq_Chain = []\<rparr>"

definition no_decoders :: "int Decoders" where
  "no_decoders = \<lparr>rd_Filter = (\<lambda>_. Fails []), rd_Order = (\<lambda>_. Fails []), rd_Snake = id, rd_Number = (\<lambda>_. [])\<rparr>"

end
