(* ===== verification/InvoiceReport.thy ===== *)
theory InvoiceReport
  imports Reports LndInvoices LndPayments
begin

text \<open>
  \<open>src/internal/invoices/handlers.go\<close> and \<open>invoices.go\<close>: the report over the invoices that the
  subscription stores (the rows of \<open>LndInvoices\<close>), each with whether the node paid it itself (a row of
  \<open>LndPayments\<close> has its hash), and the lookup of one invoice.  The theorems say which rows are taken for
  rebalances, that one expiry of more than 32 bits fails the
  whole report, and that the lookup never finds an invoice.
\<close>

section \<open>The report\<close>

text \<open>
  The selected columns, which are also the variables they are scanned into: no column is null in the
  rows the subscription stores.  Amounts in satoshi are exact quotients.
\<close>

record ReportedInvoice =
  ri_AddIndex :: int
  ri_CreationDate :: time
  ri_SettleDate :: time
  ri_SettleIndex :: int
  ri_PaymentRequest :: string
  ri_DestinationPubKey :: string
  ri_RHash :: string
  ri_RPreimage :: string
  ri_Memo :: string
  ri_Value :: rat
  ri_AmountPaid :: rat
  ri_InvoiceState :: string
  ri_IsRebalance :: bool
  ri_IsKeysend :: bool
  ri_IsAmp :: bool
  ri_PaymentAddr :: string
  ri_FallbackAddr :: string
  ri_UpdatedOn :: time
  ri_Expiry :: int
  ri_CltvExpiry :: int
  ri_Private :: bool

definition select_invoice :: "Invoice \<times> PaymentRow option \<Rightarrow> ReportedInvoice" where
  "select_invoice ip =
     (case ip of (i, p) \<Rightarrow>
       \<lparr>ri_AddIndex = uint (in_AddIndex i), ri_CreationDate = in_CreationDate i, ri_SettleDate = in_SettleDate i,
        ri_SettleIndex = uint (in_SettleIndex i), ri_PaymentRequest = in_PaymentRequest i,
        ri_DestinationPubKey = in_Destination i, ri_RHash = in_RHash i, ri_RPreimage = in_RPreimage i,
        ri_Memo = in_Memo i, ri_Value = of_int (sint (in_ValueMsat i)) / 1000,
        ri_AmountPaid = of_int (sint (in_AmtPaidMsat i)) / 1000, ri_InvoiceState = in_InvoiceState i,
        ri_IsRebalance = coalesce (sql_eq (Some (in_RHash i)) (map_option pr_PaymentHash p)) False,
        ri_IsKeysend = in_IsKeysend i, ri_IsAmp = in_IsAmp i, ri_PaymentAddr = in_PaymentAddr i,
        ri_FallbackAddr = in_FallbackAddr i, ri_UpdatedOn = in_UpdatedOn i,
        ri_Expiry = sint (in_Expiry i), ri_CltvExpiry = uint (in_CltvExpiry i), ri_Private = in_Private i\<rparr>)"

definition paid_by :: "Invoice \<Rightarrow> PaymentRow \<Rightarrow> bool" where
  "paid_by i p \<longleftrightarrow> in_RHash i = pr_PaymentHash p"

definition invoice_table :: "Invoice list \<Rightarrow> PaymentRow list \<Rightarrow> ReportedInvoice list" where
  "invoice_table invoices payments = remdups (map select_invoice (left_join paid_by invoices payments))"

definition scan_invoice :: "ReportedInvoice \<Rightarrow> ReportedInvoice result" where
  "scan_invoice r =
     (case collect (\<lambda>(bits, n). scan_uint bits (of_int n))
             [(64, ri_AddIndex r), (64, ri_SettleIndex r), (32, ri_Expiry r), (32, ri_CltvExpiry r)] of
        Inl e \<Rightarrow> Inl e
      | Inr ns \<Rightarrow> Ok r)"

definition invoice_messages :: ReportErrors where
  "invoice_messages = \<lparr>rm_Compile = ''Compiling SQL'', rm_Query = ''Running SQL Query'', rm_Scan = ''SQL row scan'',
     rm_CompileCount = ''Compile SQL'', rm_Count = ''SQL run query''\<rparr>"

definition getInvoices ::
    "('f, ReportedInvoice) ReportDb \<Rightarrow> Invoice list \<Rightarrow> PaymentRow list \<Rightarrow>
     'f Sqlizer option \<Rightarrow> string list \<Rightarrow> uint64 \<Rightarrow> uint64 \<Rightarrow> (ReportedInvoice list \<times> uint64) result" where
  "getInvoices db invoices payments = run_report invoice_messages scan_invoice db (invoice_table invoices payments)"

definition invoice_filter_columns :: "string list" where
  "invoice_filter_columns =
     [''add_index'', ''creation_date'', ''settle_date'', ''settle_index'', ''payment_request'', ''destination_pub_key'',
      ''r_hash'', ''r_preimage'', ''memo'', ''value'', ''amt_paid'', ''invoice_state'', ''is_rebalance'', ''is_keysend'',
      ''is_amp'', ''payment_addr'', ''fallback_addr'', ''updated_on'', ''expiry'', ''cltv_expiry'', ''private'']"

definition invoice_order_columns :: "string list" where
  "invoice_order_columns =
     [''creation_date'', ''settle_date'', ''add_index'', ''settle_index'', ''memo'', ''value'', ''amt_paid'',
      ''invoice_state'', ''is_rebalance'', ''is_keysend'', ''is_amp'', ''updated_on'', ''expiry'', ''private'']"

definition getInvoicesHandler ::
    "'f Decoders \<Rightarrow> ('f, ReportedInvoice) ReportDb \<Rightarrow> Invoice list \<Rightarrow> PaymentRow list \<Rightarrow> ReportQuery \<Rightarrow>
     int \<times> ReportedInvoice ReportBody" where
  "getInvoicesHandler dec db invoices payments =
     report_handler dec invoice_filter_columns invoice_order_columns True (getInvoices db invoices payments)"

section \<open>One invoice\<close>

datatype LookupError = LookupFailed go_error | NotFound string

record InvoiceHtlc =
  ht_State :: "uint64 option"
  ht_LNDShortChannelId :: "uint64 option"
  ht_Amt :: "uint64 option"
  ht_HtlcIndex :: "uint64 option"
  ht_AcceptTime :: "uint64 option"
  ht_ResolveTime :: "uint64 option"
  ht_AcceptHeight :: "uint64 option"
  ht_ExpiryHeight :: "uint64 option"
  ht_MppTotalAmt :: "uint64 option"

record Feature =
  ft_Name :: "string option"
  ft_IsKnown :: "bool option"
  ft_IsRequired :: "bool option"

record HopHint =
  hh_LNDShortChannelId :: "uint64 option"
  hh_NodeId :: "string option"
  hh_FeeBase :: "uint64 option"
  hh_CltvExpiryDelta :: "uint64 option"
  hh_FeeProportional :: "uint64 option"

record InvoiceDetails =
  de_Invoice :: ReportedInvoice
  de_DescriptionHash :: "byte list"
  de_Htlcs :: "InvoiceHtlc list"
  de_Features :: "(string \<times> Feature) list"
  de_RouteHints :: "HopHint list list"

text \<open>The JSON decoders of the three documents of an invoice.\<close>

record DetailDecoders =
  dd_Htlcs :: "string \<Rightarrow> InvoiceHtlc list result"
  dd_Features :: "string \<Rightarrow> (string \<times> Feature) list result"
  dd_RouteHints :: "string \<Rightarrow> HopHint list list result"

text \<open>The columns of the two tables, after all migrations.\<close>

definition invoice_columns :: "string list" where
  "invoice_columns =
     [''invoice_id'', ''memo'', ''r_preimage'', ''r_hash'', ''value_msat'', ''creation_date'', ''settle_date'',
      ''payment_request'', ''destination_pub_key'', ''description_hash'', ''expiry'', ''fallback_addr'', ''cltv_expiry'',
      ''route_hints'', ''private'', ''add_index'', ''settle_index'', ''amt_paid_msat'', ''invoice_state'', ''htlcs'',
      ''features'', ''is_keysend'', ''payment_addr'', ''is_amp'', ''amp_invoice_state'', ''created_on'', ''updated_on'',
      ''node_id'', ''destination_node_id'', ''channel_id'']"

definition payment_columns :: "string list" where
  "payment_columns =
     [''payment_index'', ''payment_hash'', ''payment_preimage'', ''payment_request'', ''status'', ''value_msat'',
      ''fee_msat'', ''htlcs'', ''failure_reason'', ''creation_timestamp'', ''creation_time_ns'', ''created_on'',
      ''updated_on'', ''destination_pub_key'', ''is_mpp'', ''count_successful_attempts'', ''count_failed_attempts'',
      ''resolved_ns'', ''successful_routes'', ''failed_routes'', ''node_id'', ''incoming_channel_id'',
      ''outgoing_channel_id'', ''rebalance_amount_msat'']"

definition invoice_join :: "(string \<times> string list) list" where
  "invoice_join = [(''invoice'', invoice_columns), (''p'', payment_columns)]"

text \<open>The columns a query names: in the report, and in the lookup in its list and in its condition.\<close>

definition report_refs :: "ColumnRef list" where
  "report_refs =
     [Bare ''add_index'', Bare ''creation_date'', Bare ''settle_date'', Bare ''settle_index'', Of ''invoice'' ''payment_request'',
      Of ''invoice'' ''destination_pub_key'', Bare ''r_hash'', Bare ''r_preimage'', Bare ''memo'', Of ''invoice'' ''value_msat'',
      Of ''invoice'' ''amt_paid_msat'', Bare ''invoice_state'', Of ''invoice'' ''r_hash'', Of ''p'' ''payment_hash'',
      Bare ''is_keysend'', Bare ''is_amp'', Bare ''payment_addr'', Bare ''fallback_addr'', Of ''invoice'' ''updated_on'',
      Bare ''expiry'', Bare ''cltv_expiry'', Bare ''private'']"

definition details_refs :: "ColumnRef list" where
  "details_refs = report_refs @ [Bare ''description_hash'', Bare ''htlcs'', Bare ''features'', Bare ''route_hints''] @
     [Bare ''r_hash'', Bare ''r_preimage'', Bare ''payment_request'']"

text \<open>The 25 selected columns and the 24 variables they are scanned into.\<close>

definition details_columns :: "string list" where
  "details_columns =
     [''add_index'', ''creation_date'', ''settle_date'', ''settle_index'', ''payment_request'', ''destination_pub_key'',
      ''r_hash'', ''r_preimage'', ''memo'', ''value'', ''amt_paid'', ''invoice_state'', ''is_rebalance'', ''is_keysend'',
      ''is_amp'', ''payment_addr'', ''fallback_addr'', ''updated_on'', ''expiry'', ''cltv_expiry'', ''private'',
      ''description_hash'', ''htlcs'', ''features'', ''route_hints'']"

definition details_variables :: "string list" where
  "details_variables =
     [''AddIndex'', ''CreationDate'', ''SettleDate'', ''SettleIndex'', ''PaymentRequest'', ''DestinationPubKey'',
      ''RHash'', ''RPreimage'', ''Memo'', ''Value'', ''AmountPaid'', ''InvoiceState'', ''IsKeysend'',
      ''IsAmp'', ''PaymentAddr'', ''FallbackAddr'', ''UpdatedOn'', ''CltvExpiry'', ''Expiry'', ''Private'',
      ''DescriptionHash'', ''h'', ''fm'', ''rh'']"

definition scan_details :: "Invoice \<times> PaymentRow option \<Rightarrow> ReportedInvoice result" where
  "scan_details ip =
     (if length details_columns \<noteq> length details_variables then Fails ''sql: expected 25 destination arguments in Scan, not 24''
      else scan_invoice (select_invoice ip))"

definition decode_details :: "DetailDecoders \<Rightarrow> Invoice \<Rightarrow> ReportedInvoice \<Rightarrow> InvoiceDetails result" where
  "decode_details dec i r =
     (case dd_Htlcs dec (in_Htlcs i) of
        Inl e \<Rightarrow> Inl (wrapped ''JSON unmarshal of HTLCs'' e)
      | Inr htlcs \<Rightarrow>
     (case dd_Features dec (in_Features i) of
        Inl e \<Rightarrow> Inl (wrapped ''JSON unmarshal of features'' e)
      | Inr features \<Rightarrow>
     (case dd_RouteHints dec (in_RouteHints i) of
        Inl e \<Rightarrow> Inl (wrapped ''JSON unmarshal of route hints'' e)
      | Inr hints \<Rightarrow> Ok \<lparr>de_Invoice = r, de_DescriptionHash = in_DescriptionHash i, de_Htlcs = htlcs,
                        de_Features = features, de_RouteHints = hints\<rparr>)))"

definition identified :: "string \<Rightarrow> Invoice \<times> PaymentRow option \<Rightarrow> bool" where
  "identified identifier ip =
     (case ip of (i, p) \<Rightarrow> in_RHash i = identifier \<or> in_RPreimage i = identifier \<or> in_PaymentRequest i = identifier)"

definition getInvoiceDetails ::
    "DetailDecoders \<Rightarrow> go_error option \<Rightarrow> Invoice list \<Rightarrow> PaymentRow list \<Rightarrow> string \<Rightarrow> LookupError + InvoiceDetails" where
  "getInvoiceDetails dec query invoices payments identifier =
     (case query of
        Some e \<Rightarrow> Inl (LookupFailed (wrapped ''SQL run query'' e))
      | None \<Rightarrow>
          if \<not> list_all (resolves invoice_join) details_refs
          then Inl (LookupFailed (wrapped ''SQL run query'' (Error ''column reference is ambiguous'')))
          else (case filter (identified identifier) (left_join paid_by invoices payments) of
                  [] \<Rightarrow> Inl (NotFound identifier)
                | ip # rest \<Rightarrow>
                    (case scan_details ip of
                       Inl e \<Rightarrow> Inl (LookupFailed (wrapped ''SQL run query'' e))
                     | Inr r \<Rightarrow>
                         (case decode_details dec (fst ip) r of
                            Inl e \<Rightarrow> Inl (LookupFailed e)
                          | Inr d \<Rightarrow> Inr d))))"

definition getInvoiceHandler ::
    "DetailDecoders \<Rightarrow> go_error option \<Rightarrow> Invoice list \<Rightarrow> PaymentRow list \<Rightarrow> string \<Rightarrow> int \<times> InvoiceDetails ReportBody" where
  "getInvoiceHandler dec query invoices payments identifier =
     (case getInvoiceDetails dec query invoices payments identifier of
        Inr d \<Rightarrow> (200, Details d)
      | Inl (NotFound i) \<Rightarrow> (404, NotFoundObject ''Invoice not found'' identifier)
      | Inl (LookupFailed e) \<Rightarrow> server_error e)"

section \<open>What the report shows\<close>

lemma report_refs_resolve: "list_all (resolves invoice_join) report_refs"
  by (simp add: report_refs_def resolves_def invoice_join_def invoice_columns_def payment_columns_def)

lemma select_invoice_paid:
  "paid_by i p \<Longrightarrow> select_invoice (i, Some p) = (select_invoice (i, None))\<lparr>ri_IsRebalance := True\<rparr>"
  by (simp add: select_invoice_def paid_by_def sql_eq_def)

text \<open>
  The rows of the invoice report are the stored invoices, each once whatever the number of payments
  with its hash, and an invoice is a rebalance exactly when a stored payment has its hash.
\<close>

lemma invoice_report_rows:
  "distinct (invoice_table invoices payments) \<and>
   set (invoice_table invoices payments) =
     (\<lambda>i. (select_invoice (i, None))\<lparr>ri_IsRebalance := in_RHash i \<in> pr_PaymentHash ` set payments\<rparr>) ` set invoices"
proof
  let ?row = "\<lambda>i. (select_invoice (i, None))\<lparr>ri_IsRebalance := in_RHash i \<in> pr_PaymentHash ` set payments\<rparr>"
  have plain: "select_invoice (i, None) = (select_invoice (i, None))\<lparr>ri_IsRebalance := False\<rparr>" for i
    by (simp add: select_invoice_def sql_eq_def)
  have row: "select_invoice (i, p) = ?row i" if "(i, p) \<in> set (left_join paid_by invoices payments)" for i p
  proof (cases p)
    case None
    with that have "in_RHash i \<notin> pr_PaymentHash ` set payments" by (auto simp: set_left_join paid_by_def)
    with None plain [of i] show ?thesis by (simp only: if_False)
  next
    case (Some q)
    with that have "paid_by i q" "q \<in> set payments" by (auto simp: set_left_join)
    then have "in_RHash i \<in> pr_PaymentHash ` set payments" by (auto simp: paid_by_def)
    with Some select_invoice_paid [OF \<open>paid_by i q\<close>] show ?thesis by (simp only:)
  qed
  have "select_invoice ` set (left_join paid_by invoices payments) =
      (\<lambda>ip. ?row (fst ip)) ` set (left_join paid_by invoices payments)"
  proof (rule image_cong [OF refl])
    fix ip assume "ip \<in> set (left_join paid_by invoices payments)"
    then show "select_invoice ip = ?row (fst ip)" using row [of "fst ip" "snd ip"] by (simp only: prod.collapse)
  qed
  also have "\<dots> = ?row ` fst ` set (left_join paid_by invoices payments)" by (rule image_image [symmetric])
  finally have "select_invoice ` set (left_join paid_by invoices payments) = ?row ` set invoices"
    by (simp only: fst_left_join)
  then show "set (invoice_table invoices payments) = ?row ` set invoices" by (simp add: invoice_table_def)
qed (simp add: invoice_table_def)

lemma scan_invoice_fails:
  assumes "ri_Expiry r < 0 \<or> 2 ^ 32 \<le> ri_Expiry r"
  shows "isl (scan_invoice r)"
proof -
  let ?cols = "[(64, ri_AddIndex r), (64, ri_SettleIndex r), (32, ri_Expiry r), (32, ri_CltvExpiry r)]"
  have "isl ((\<lambda>(bits, n). scan_uint bits (of_int n)) (32, ri_Expiry r))"
    using assms unfolding prod.case scan_uint_of_int by auto
  moreover have "(32, ri_Expiry r) \<in> set ?cols" by simp
  ultimately have "\<exists>e. collect (\<lambda>(bits, n). scan_uint bits (of_int n)) ?cols = Inl e"
    by (rule collect_error [rotated])
  then show ?thesis by (elim exE) (simp only: scan_invoice_def sum.case sum.disc)
qed

text \<open>
  One selected invoice whose expiry is negative or needs more than 32 bits fails the report: as long
  as it is on the page, the request is answered with a server error and no row is shown.
\<close>

lemma long_expiry_fails_report:
  assumes "filter_param_of dec invoice_filter_columns (rq_Filter q) = Ok cond"
    and "order_param_of dec invoice_order_columns (rq_Order q) = Ok sorting"
    and "limit_param True (rq_Limit q) = Ok limit" and "offset_param (rq_Offset q) = Ok offset"
    and "rb_ToSql db cond = None" and "rb_Cut db = None"
    and "query_rows db (invoice_table invoices payments) cond sorting limit offset = Ok rows"
    and "r \<in> set rows" and "ri_Expiry r < 0 \<or> 2 ^ 32 \<le> ri_Expiry r"
  shows "fst (getInvoicesHandler dec db invoices payments q) = 500"
proof -
  have "isl (scan_invoice r)" using assms(9) by (rule scan_invoice_fails)
  from collect_error [where f = scan_invoice, OF assms(8) this] obtain e where "collect scan_invoice rows = Inl e" by (elim exE)
  with assms(1-7) show ?thesis
    by (simp add: getInvoicesHandler_def report_handling getInvoices_def run_report_def cut_rows_def
        server_error_def LogAndSendServerError_def)
qed

text \<open>
  The lookup of one invoice never succeeds and never reports a missing invoice: its query names the
  columns \<open>htlcs\<close> and \<open>payment_request\<close>, which both joined tables have, so Postgres refuses it, and
  whatever the identifier the answer is a server error.
\<close>

lemma invoice_lookup_fails:
  "fst (getInvoiceHandler dec query invoices payments identifier) = 500 \<and>
   \<not> resolves invoice_join (Bare ''htlcs'') \<and> \<not> resolves invoice_join (Bare ''payment_request'') \<and>
   length details_columns \<noteq> length details_variables"
proof -
  have htlcs: "\<not> resolves invoice_join (Bare ''htlcs'')" "\<not> resolves invoice_join (Bare ''payment_request'')"
    by (simp_all add: resolves_def invoice_join_def invoice_columns_def payment_columns_def)
  then have "\<not> list_all (resolves invoice_join) details_refs" by (simp add: details_refs_def)
  then have "fst (getInvoiceHandler dec query invoices payments identifier) = 500"
    by (cases query) (simp_all add: getInvoiceHandler_def getInvoiceDetails_def server_error_def LogAndSendServerError_def)
  moreover have "length details_columns \<noteq> length details_variables"
    by (simp add: details_columns_def details_variables_def)
  ultimately show ?thesis using htlcs by blast
qed

section \<open>Examples\<close>

definition sample_invoice :: "int64 \<Rightarrow> Invoice" where
  "sample_invoice expiry =
     \<lparr>in_Memo = [], in_RPreimage = [], in_RHash = ''h'', in_ValueMsat = 1000, in_CreationDate = 0, in_SettleDate = 0,
      in_PaymentRequest = ''lnbc'', in_Destination = ''k'', in_DescriptionHash = [], in_Expiry = expiry,
      in_FallbackAddr = [], in_CltvExpiry = 40, in_RouteHints = [], in_Private = False, in_AddIndex = 1,
      in_SettleIndex = 0, in_AmtPaidSat = 0, in_AmtPaidMsat = 0, in_InvoiceState = ''OPEN'', in_Htlcs = [],
      in_Features = [], in_IsKeysend = False, in_PaymentAddr = [], in_IsAmp = False, in_AmpInvoiceState = [],
      in_DestinationNodeId = None, in_NodeId = 1, in_ChannelId = None, in_CreatedOn = 0, in_UpdatedOn = 0\<rparr>"

lemma long_expiry_fails_report_witness:
  "fst (getInvoicesHandler no_decoders quiet_db [sample_invoice (2 ^ 32)] [] no_query) = 500"
proof -
  let ?r = "select_invoice (sample_invoice (2 ^ 32), None)"
  have table: "invoice_table [sample_invoice (2 ^ 32)] [] = [?r]" by (simp add: invoice_table_def left_join_Cons)
  show ?thesis
  proof (rule long_expiry_fails_report [where cond = None and sorting = "[]" and limit = 0 and offset = 0
        and rows = "[?r]" and r = ?r])
    show "ri_Expiry ?r < 0 \<or> 2 ^ 32 \<le> ri_Expiry ?r" by (simp add: select_invoice_def sample_invoice_def)
    show "query_rows quiet_db (invoice_table [sample_invoice (2 ^ 32)] []) None [] 0 0 = Ok [?r]"
      unfolding table by (simp add: query_rows_def quiet_db_def where_rows_def page_rows_def)
  qed (simp_all add: no_query_def quiet_db_def filter_param_of_def order_param_of_def limit_param_def offset_param_def
      number_param_def)
qed

end
