(* ===== verification/InvoiceDecoder.thy ===== *)
theory InvoiceDecoder
  imports SettingsRoutes Payments ServerErrors
begin

text \<open>
  \<open>src/internal/invoices/decode_invoice.go\<close>: a payment request is decoded by the LND of a node, whose
  answer is turned into the object of the front end, and the handlers of the requests that create an
  invoice or send coins.  LND is a parameter: the connection, \<open>DecodePayReq\<close> and \<open>GetNodeInfo\<close>.  The
  theorems say what of the answer of LND is shown, and which requests are refused.
\<close>

section \<open>Decoded payment requests\<close>

record feature =
  fe_Name :: string
  fe_IsKnown :: bool
  fe_IsRequired :: bool

record hopHint =
  hp_LNDShortChannelId :: uint64
  hp_ShortChannelId :: string
  hp_NodeId :: string
  hp_FeeBase :: uint32
  hp_CltvExpiryDelta :: uint32
  hp_FeeProportional :: uint32

record DecodedInvoice =
  di_NodeAlias :: string
  di_PaymentRequest :: string
  di_DestinationPubKey :: string
  di_RHash :: string
  di_Memo :: string
  di_ValueMsat :: int64
  di_PaymentAddr :: string
  di_FallbackAddr :: string
  di_Expiry :: int64
  di_CreatedAt :: int64
  di_CltvExpiry :: int64
  di_Private :: bool
  di_Features :: "uint32 \<rightharpoonup> feature"
  di_RouteHints :: "hopHint list list"

text \<open>The answer of LND.\<close>

record LndHopHint =
  lhh_NodeId :: string
  lhh_ChanId :: uint64
  lhh_FeeBaseMsat :: uint32
  lhh_FeeProportionalMillionths :: uint32
  lhh_CltvExpiryDelta :: uint32

record PayReq =
  py_Destination :: string
  py_PaymentHash :: string
  py_Description :: string
  py_NumMsat :: int64
  py_FallbackAddr :: string
  py_Timestamp :: int64
  py_Expiry :: int64
  py_CltvExpiry :: int64
  py_RouteHints :: "LndHopHint list list"
  py_Features :: "uint32 \<rightharpoonup> feature"
  py_PaymentAddr :: "byte list"

definition constructRouteHints :: "LndHopHint list list \<Rightarrow> hopHint list list" where
  "constructRouteHints routeHints =
     map (map (\<lambda>hh. \<lparr>hp_LNDShortChannelId = lhh_ChanId hh,
        hp_ShortChannelId = ConvertLNDShortChannelID (lhh_ChanId hh), hp_NodeId = lhh_NodeId hh,
        hp_FeeBase = lhh_FeeBaseMsat hh, hp_CltvExpiryDelta = lhh_CltvExpiryDelta hh,
        hp_FeeProportional = lhh_FeeProportionalMillionths hh\<rparr>)) routeHints"

definition constructFeatureMap :: "(uint32 \<rightharpoonup> feature) \<Rightarrow> uint32 \<rightharpoonup> feature" where
  "constructFeatureMap features n =
     (case features n of
        None \<Rightarrow> None
      | Some v \<Rightarrow> Some \<lparr>fe_Name = fe_Name v, fe_IsKnown = fe_IsKnown v, fe_IsRequired = fe_IsRequired v\<rparr>)"

definition constructDecodedInvoice :: "PayReq \<Rightarrow> DecodedInvoice" where
  "constructDecodedInvoice p =
     \<lparr>di_NodeAlias = [], di_PaymentRequest = [], di_DestinationPubKey = py_Destination p,
      di_RHash = py_PaymentHash p, di_Memo = py_Description p, di_ValueMsat = py_NumMsat p,
      di_PaymentAddr = hex_encode (py_PaymentAddr p), di_FallbackAddr = py_FallbackAddr p,
      di_Expiry = py_Expiry p, di_CreatedAt = py_Timestamp p, di_CltvExpiry = py_CltvExpiry p,
      di_Private = False, di_Features = constructFeatureMap (py_Features p),
      di_RouteHints = constructRouteHints (py_RouteHints p)\<rparr>"

text \<open>
  \<open>Connect\<close> takes the address and the credentials; \<open>GetNodeInfo\<close> answers the alias of a node, and fails
  for a node that is not in the graph.
\<close>

record DecodeLnd =
  lc_Connect :: "string \<Rightarrow> bytes option \<Rightarrow> bytes option \<Rightarrow> unit result"
  lc_DecodePayReq :: "string \<Rightarrow> PayReq result"
  lc_GetNodeInfo :: "string \<Rightarrow> string result"

definition decodeInvoice ::
    "DecodeLnd \<Rightarrow> DetailsEnv \<Rightarrow> details_table \<Rightarrow> string \<Rightarrow> int \<Rightarrow> DecodedInvoice result" where
  "decodeInvoice lnd env rows invoice nodeId =
     (case GetConnectionDetailsById env rows nodeId of
        Inl e \<Rightarrow> Inl (wrapped ''Getting node connection details from the db'' e)
      | Inr cd \<Rightarrow>
     (case lc_Connect lnd (cd_GRPCAddress cd) (cd_TLSFileBytes cd) (cd_MacaroonFileBytes cd) of
        Inl e \<Rightarrow> Inl (wrapped ''Connecting to LND'' e)
      | Inr u \<Rightarrow>
     (case lc_DecodePayReq lnd invoice of
        Inl e \<Rightarrow> Inl (wrapped ''Decoding payment request'' e)
      | Inr decodedInvoice \<Rightarrow>
     (case lc_GetNodeInfo lnd (py_Destination decodedInvoice) of
        Inl e \<Rightarrow> Inl (wrapped ''Getting node info'' e)
      | Inr name_of \<Rightarrow> Ok ((constructDecodedInvoice decodedInvoice)\<lparr>di_NodeAlias := name_of\<rparr>)))))"

datatype DecodeBody = DecodeRefused ServerError | DecodeError string | Decoded DecodedInvoice

definition decodeInvoiceHandler ::
    "DecodeLnd \<Rightarrow> DetailsEnv \<Rightarrow> details_table \<Rightarrow> string \<Rightarrow> string \<Rightarrow> int \<times> DecodeBody" where
  "decodeInvoiceHandler lnd env rows invoice nodeIdText =
     (case atoi nodeIdText of
        None \<Rightarrow> map_prod id DecodeRefused (SendBadRequest ''Failed to find/parse nodeId in the request.'')
      | Some nodeId \<Rightarrow>
          (case decodeInvoice lnd env rows invoice nodeId of
             Inl e \<Rightarrow> (400, DecodeError (if contains (error_text e) ''checksum failed'' then ''CHECKSUM_FAILED''
                                      else ''COULD_NOT_DECODE_INVOICE''))
           | Inr di \<Rightarrow> (200, Decoded di)))"

section \<open>Requests that create\<close>

text \<open>The body of the request is what \<open>BindJSON\<close> finds in it, or its error.\<close>

datatype 'a CreateBody = CreateError ServerError | Created 'a

definition newInvoiceHandler ::
    "(int \<Rightarrow> unit result) \<Rightarrow> (LndInvoice \<Rightarrow> (string \<times> uint64 \<times> byte list) result) \<Rightarrow> newInvoiceRequest result \<Rightarrow>
     int \<times> newInvoiceResponse CreateBody" where
  "newInvoiceHandler connect AddInvoice body =
     (case body of
        Inl e \<Rightarrow> map_prod id CreateError (SendBadRequestFromError (wrapped JsonParseError e))
      | Inr requestBody \<Rightarrow>
          (case newInvoice connect AddInvoice requestBody of
             Inl e \<Rightarrow> map_prod id CreateError (WrapLogAndSendServerError e ''Creating new invoice'')
           | Inr resp \<Rightarrow> (200, Created resp)))"

record PayOnChainResponse =
  pocr_Request :: PayOnChainRequest
  pocr_TxId :: string

definition sendCoinsHandler ::
    "(int \<Rightarrow> unit result) \<Rightarrow> (LndSendCoins \<Rightarrow> string result) \<Rightarrow> PayOnChainRequest result \<Rightarrow>
     int \<times> PayOnChainResponse CreateBody" where
  "sendCoinsHandler connect SendCoins body =
     (case body of
        Inl e \<Rightarrow> map_prod id CreateError (SendBadRequestFromError (wrapped JsonParseError e))
      | Inr requestBody \<Rightarrow>
          (case PayOnChain connect SendCoins requestBody of
             Inl e \<Rightarrow> map_prod id CreateError (WrapLogAndSendServerError e ''Sending on-chain payment'')
           | Inr resp \<Rightarrow> (200, Created \<lparr>pocr_Request = requestBody, pocr_TxId = resp\<rparr>)))"

section \<open>What is shown\<close>

lemma constructFeatureMap_id: "constructFeatureMap features = features"
  by (rule ext) (simp add: constructFeatureMap_def split: option.splits)

text \<open>What LND decoded can be read back from the answer: the route hints and the payment address.\<close>

definition lnd_hint :: "hopHint \<Rightarrow> LndHopHint" where
  "lnd_hint h = \<lparr>lhh_NodeId = hp_NodeId h, lhh_ChanId = hp_LNDShortChannelId h, lhh_FeeBaseMsat = hp_FeeBase h,
     lhh_FeeProportionalMillionths = hp_FeeProportional h, lhh_CltvExpiryDelta = hp_CltvExpiryDelta h\<rparr>"

lemma route_hints_kept: "map (map lnd_hint) (constructRouteHints hints) = hints"
proof -
  have "map lnd_hint (map (\<lambda>hh. \<lparr>hp_LNDShortChannelId = lhh_ChanId hh,
        hp_ShortChannelId = ConvertLNDShortChannelID (lhh_ChanId hh), hp_NodeId = lhh_NodeId hh,
        hp_FeeBase = lhh_FeeBaseMsat hh, hp_CltvExpiryDelta = lhh_CltvExpiryDelta hh,
        hp_FeeProportional = lhh_FeeProportionalMillionths hh\<rparr>) hs) = hs" for hs
    by (induction hs) (simp_all add: lnd_hint_def)
  then show ?thesis by (simp add: constructRouteHints_def map_idI)
qed

text \<open>
  Whenever a decoding is answered with success, everything LND decoded can be read back from the
  answer, the bytes of the payment address and each hop of the route hints included; the payment
  request itself is left out of the answer and no invoice is shown as private.
\<close>

lemma decoded_invoice_kept:
  assumes "decodeInvoiceHandler lnd env rows invoice nodeIdText = (status, Decoded di)"
  shows "\<exists>p. lc_DecodePayReq lnd invoice = Ok p \<and> status = 200 \<and>
    p = \<lparr>py_Destination = di_DestinationPubKey di, py_PaymentHash = di_RHash di, py_Description = di_Memo di,
         py_NumMsat = di_ValueMsat di, py_FallbackAddr = di_FallbackAddr di, py_Timestamp = di_CreatedAt di,
         py_Expiry = di_Expiry di, py_CltvExpiry = di_CltvExpiry di,
         py_RouteHints = map (map lnd_hint) (di_RouteHints di), py_Features = di_Features di,
         py_PaymentAddr = the (hex_decode (di_PaymentAddr di))\<rparr> \<and>
    di_PaymentRequest di = [] \<and> \<not> di_Private di"
proof -
  obtain p name_of where p: "lc_DecodePayReq lnd invoice = Ok p" "status = 200"
      "di = (constructDecodedInvoice p)\<lparr>di_NodeAlias := name_of\<rparr>"
    using assms
    by (auto simp: decodeInvoiceHandler_def decodeInvoice_def SendBadRequest_def split: option.splits sum.splits)
  then show ?thesis
    by (simp add: constructDecodedInvoice_def constructFeatureMap_id route_hints_kept hex_decode_encode)
qed

text \<open>
  A payment request that LND decodes is nevertheless refused, as one that could not be decoded, when
  its destination is not in the graph of the node, whatever else holds.
\<close>

lemma unknown_destination_refused:
  assumes "atoi nodeIdText = Some nodeId" and "lc_DecodePayReq lnd invoice = Ok p"
    and "lc_GetNodeInfo lnd (py_Destination p) = Inl e" and "\<not> contains (''Getting node info: '' @ error_text e) ''checksum failed''"
    and "GetConnectionDetailsById env rows nodeId = Ok cd"
    and "lc_Connect lnd (cd_GRPCAddress cd) (cd_TLSFileBytes cd) (cd_MacaroonFileBytes cd) = Ok ()"
  shows "decodeInvoiceHandler lnd env rows invoice nodeIdText = (400, DecodeError ''COULD_NOT_DECODE_INVOICE'')"
  using assms by (simp add: decodeInvoiceHandler_def decodeInvoice_def wrapped_def error_text_def)

section \<open>Examples\<close>

definition sample_request :: PayReq where
  "sample_request = \<lparr>py_Destination = ''k'', py_PaymentHash = ''h'', py_Description = [], py_NumMsat = 1000,
     py_FallbackAddr = [], py_Timestamp = 5, py_Expiry = 3600, py_CltvExpiry = 40,
     py_RouteHints = [[\<lparr>lhh_NodeId = ''n'', lhh_ChanId = 7, lhh_FeeBaseMsat = 1, lhh_FeeProportionalMillionths = 2,
                       lhh_CltvExpiryDelta = 18\<rparr>]],
     py_Features = Map.empty, py_PaymentAddr = [255]\<rparr>"

definition sample_lnd :: "string result \<Rightarrow> DecodeLnd" where
  "sample_lnd info = \<lparr>lc_Connect = (\<lambda>_ _ _. Ok ()), lc_DecodePayReq = (\<lambda>_. Ok sample_request), lc_GetNodeInfo = (\<lambda>_. info)\<rparr>"

lemma sample_connection: "\<exists>cd. GetConnectionDetailsById sample_details_env [active_row 4] 4 = Ok cd"
  by (simp add: GetConnectionDetailsById_def getNodeConnectionDetails_def scan_details_def sample_details_env_def
      active_row_def zeroDetails_def)

lemma decoded_invoice_kept_witness:
  "\<exists>di. decodeInvoiceHandler (sample_lnd (Ok ''alice'')) sample_details_env [active_row 4] ''lnbc'' ''4'' = (200, Decoded di) \<and>
     hex_decode (di_PaymentAddr di) = Some [255] \<and> di_RHash di = ''h''"
proof -
  let ?di = "(constructDecodedInvoice sample_request)\<lparr>di_NodeAlias := ''alice''\<rparr>"
  have run: "decodeInvoiceHandler (sample_lnd (Ok ''alice'')) sample_details_env [active_row 4] ''lnbc'' ''4'' = (200, Decoded ?di)"
    using sample_connection by (auto simp: decodeInvoiceHandler_def decodeInvoice_def sample_texts sample_lnd_def)
  from decoded_invoice_kept [OF run] obtain p where
      "lc_DecodePayReq (sample_lnd (Ok ''alice'')) ''lnbc'' = Ok p" and "py_PaymentHash p = di_RHash ?di" by auto
  then have "py_PaymentHash sample_request = di_RHash ?di" by (simp add: sample_lnd_def)
  moreover have "hex_decode (di_PaymentAddr ?di) = Some [255]"
    by (simp add: constructDecodedInvoice_def sample_request_def hex_decode_encode)
  ultimately show ?thesis using run by (intro exI [of _ ?di]) (simp add: sample_request_def)
qed

lemma unknown_destination_refused_witness:
  "decodeInvoiceHandler (sample_lnd (Fails ''unable to find node'')) sample_details_env [active_row 4] ''lnbc'' ''4'' =
     (400, DecodeError ''COULD_NOT_DECODE_INVOICE'')"
proof -
  obtain cd where "GetConnectionDetailsById sample_details_env [active_row 4] 4 = Ok cd" using sample_connection by blast
  then show ?thesis
    by (intro unknown_destination_refused [where p = sample_request and e = "Error ''unable to find node''"])
      (simp_all add: sample_texts sample_lnd_def error_text_def)
qed

end
