(* ===== verification/PaymentReport.thy ===== *)
theory PaymentReport
  imports Reports LndPayments
begin

text \<open>
  \<open>src/internal/payments/handlers.go\<close> and \<open>payments.go\<close>: the report over the payments that the
  subscription stores (the rows of \<open>LndPayments\<close>) and the lookup of one payment.  What the generated
  columns of the table find in the JSON text of the HTLCs is a parameter, the public keys of the own
  nodes come from the node cache.  The theorems say how fees, rebalances and the time in flight are
  computed, and that a missing payment is answered with a server error and never as not found.
\<close>

section \<open>Selected rows\<close>

text \<open>The columns the table generates from the HTLCs.\<close>

record HtlcColumns =
  hc_DestinationPubKey :: "string option"
  hc_IsMpp :: "bool option"
  hc_SuccessfulAttempts :: "int option"
  hc_FailedAttempts :: "int option"
  hc_ResolvedNs :: "int option"
  hc_SuccessfulRoutes :: "string option"
  hc_FailedRoutes :: "string option"

record PaymentColumns =
  pc_PaymentIndex :: int
  pc_Date :: time
  pc_DestinationPubKey :: "string option"
  pc_Status :: string
  pc_Value :: rat
  pc_Fee :: rat
  pc_PPM :: rat
  pc_FailureReason :: string
  pc_PaymentHash :: string
  pc_PaymentPreimage :: string
  pc_PaymentRequest :: string
  pc_IsRebalance :: "bool option"
  pc_IsMPP :: "bool option"
  pc_CountSuccessfulAttempts :: "int option"
  pc_CountFailedAttempts :: "int option"
  pc_SecondsInFlight :: rat

definition payment_ppm :: "rat \<Rightarrow> rat \<Rightarrow> rat" where
  "payment_ppm value_msat fee_msat =
     coalesce (lift2 (/) (Some fee_msat) (map_option (\<lambda>v. v / 1000000) (nullif (Some value_msat) 0))) 0"

definition seconds_in_flight :: "int option \<Rightarrow> time \<Rightarrow> rat" where
  "seconds_in_flight resolved_ns created =
     coalesce (map_option (\<lambda>n. of_int n / 1000000000) (nullif resolved_ns 0)) 0 - of_int created / 1000000000"

definition select_payment :: "(string \<Rightarrow> HtlcColumns) \<Rightarrow> string list \<Rightarrow> PaymentRow \<Rightarrow> PaymentColumns" where
  "select_payment generated publicKeys p =
     (let h = generated (pr_Htlcs p);
          value = (of_int (sint (pr_ValueMsat p)) :: rat);
          fee = (of_int (sint (pr_FeeMsat p)) :: rat)
      in \<lparr>pc_PaymentIndex = uint (pr_PaymentIndex p), pc_Date = pr_CreationTimestamp p,
          pc_DestinationPubKey = hc_DestinationPubKey h, pc_Status = pr_Status p, pc_Value = value / 1000,
          pc_Fee = fee / 1000, pc_PPM = payment_ppm value fee, pc_FailureReason = pr_FailureReason p,
          pc_PaymentHash = pr_PaymentHash p, pc_PaymentPreimage = pr_PaymentPreimage p,
          pc_PaymentRequest = pr_PaymentRequest p, pc_IsRebalance = eq_any (hc_DestinationPubKey h) publicKeys,
          pc_IsMPP = hc_IsMpp h, pc_CountSuccessfulAttempts = hc_SuccessfulAttempts h,
          pc_CountFailedAttempts = hc_FailedAttempts h,
          pc_SecondsInFlight = seconds_in_flight (hc_ResolvedNs h) (pr_CreationTimestamp p)\<rparr>)"

section \<open>The report\<close>

record Payment =
  pm_PaymentIndex :: int
  pm_Date :: time
  pm_DestinationPubKey :: "string option"
  pm_Status :: string
  pm_Value :: rat
  pm_Fee :: rat
  pm_PPM :: rat
  pm_FailureReason :: string
  pm_PaymentHash :: string
  pm_PaymentPreimage :: string
  pm_PaymentRequest :: string
  pm_IsRebalance :: "bool option"
  pm_IsMPP :: bool
  pm_CountSuccessfulAttempts :: int
  pm_CountFailedAttempts :: int
  pm_SecondsInFlight :: rat

text \<open>The variables of the last columns but one are no pointers: a null there fails the scan.\<close>

definition scan_payment :: "PaymentColumns \<Rightarrow> Payment result" where
  "scan_payment c =
     (case (pc_IsMPP c, pc_CountSuccessfulAttempts c, pc_CountFailedAttempts c) of
        (Some mpp, Some successful, Some failed) \<Rightarrow> Ok
          \<lparr>pm_PaymentIndex = pc_PaymentIndex c, pm_Date = pc_Date c, pm_DestinationPubKey = pc_DestinationPubKey c,
           pm_Status = pc_Status c, pm_Value = pc_Value c, pm_Fee = pc_Fee c, pm_PPM = pc_PPM c,
           pm_FailureReason = pc_FailureReason c, pm_PaymentHash = pc_PaymentHash c,
           pm_PaymentPreimage = pc_PaymentPreimage c, pm_PaymentRequest = pc_PaymentRequest c,
           pm_IsRebalance = pc_IsRebalance c, pm_IsMPP = mpp, pm_CountSuccessfulAttempts = successful,
           pm_CountFailedAttempts = failed, pm_SecondsInFlight = pc_SecondsInFlight c\<rparr>
      | _ \<Rightarrow> Fails ''converting NULL is unsupported'')"

definition payment_messages :: ReportErrors where
  "payment_messages = \<lparr>rm_Compile = ''Compiling query to sql'', rm_Query = ''Running query'', rm_Scan = ''SQL row scan'',
     rm_CompileCount = ''SQL compile statement'', rm_Count = ''SQL run query''\<rparr>"

text \<open>The public keys of nodes; None when the node cache gives no answer.\<close>

fun public_keys :: "NodeOrders \<Rightarrow> NodeState \<Rightarrow> int list \<Rightarrow> string list option" where
  "public_keys ords s [] = Some []"
| "public_keys ords s (nodeId # nodeIds) =
     (case (GetNodeSettingsByNodeId ords s nodeId, public_keys ords s nodeIds) of
        (Some ns, Some keys) \<Rightarrow> Some (mns_PublicKey ns # keys)
      | _ \<Rightarrow> None)"

definition getPayments ::
    "(string \<Rightarrow> HtlcColumns) \<Rightarrow> ('f, PaymentColumns) ReportDb \<Rightarrow> PaymentRow list \<Rightarrow> string list \<Rightarrow>
     'f Sqlizer option \<Rightarrow> string list \<Rightarrow> uint64 \<Rightarrow> uint64 \<Rightarrow> (Payment list \<times> uint64) result" where
  "getPayments generated db rows publicKeys =
     run_report payment_messages scan_payment db (map (select_payment generated publicKeys) rows)"

definition payment_filter_columns :: "string list" where
  "payment_filter_columns =
     [''date'', ''destination_pub_key'', ''status'', ''value'', ''fee'', ''ppm'', ''failure_reason'', ''is_rebalance'', ''is_mpp'',
      ''count_successful_attempts'', ''count_failed_attempts'', ''seconds_in_flight'', ''payment_hash'', ''payment_preimage'']"

definition payment_order_columns :: "string list" where
  "payment_order_columns =
     [''date'', ''status'', ''value'', ''fee'', ''ppm'', ''failure_reason'', ''count_successful_attempts'',
      ''count_failed_attempts'', ''seconds_in_flight'']"

definition torq_keys :: "NodeOrders \<Rightarrow> NodeState \<Rightarrow> ReportQuery \<Rightarrow> string list option" where
  "torq_keys ords s q =
     (case GetAllTorqNodeIds ords s (GetChain (rq_Chain q)) (GetNetwork (rq_Network q)) of
        None \<Rightarrow> None
      | Some nodeIds \<Rightarrow> public_keys ords s nodeIds)"

text \<open>None: the node cache gives no answer.  It is asked after the parameters have been checked.\<close>

definition getPaymentsHandler ::
    "'f Decoders \<Rightarrow> (string \<Rightarrow> HtlcColumns) \<Rightarrow> ('f, PaymentColumns) ReportDb \<Rightarrow> NodeOrders \<Rightarrow> NodeState \<Rightarrow>
     PaymentRow list \<Rightarrow> ReportQuery \<Rightarrow> (int \<times> Payment ReportBody) option" where
  "getPaymentsHandler dec generated db ords nodes rows q =
     (case report_params dec payment_filter_columns payment_order_columns True q of
        Inl e \<Rightarrow> Some (bad_request e)
      | Inr (cond, sorting, limit, offset) \<Rightarrow>
          map_option (\<lambda>keys. report_answer limit offset (getPayments generated db rows keys cond sorting limit offset))
            (torq_keys ords nodes q))"

lemma getPaymentsHandler_report:
  "torq_keys ords nodes q = Some keys \<Longrightarrow> getPaymentsHandler dec generated db ords nodes rows q =
     Some (report_handler dec payment_filter_columns payment_order_columns True (getPayments generated db rows keys) q)"
  by (auto simp: getPaymentsHandler_def report_handler_def split: sum.splits)

section \<open>One payment\<close>

datatype PaymentLookupError = PaymentLookupFailed go_error | ErrPaymentNotFound string

record Hop =
  ho_Expiry :: uint64
  ho_LNDShortChannelId :: uint64
  ho_PubKey :: string
  ho_FeeMsat :: uint64
  ho_TlvPayload :: bool
  ho_ChanCapacity :: uint64
  ho_AmtToForwardMsat :: uint64

record PaymentRoute =
  ro_Hops :: "Hop list"
  ro_TotalAmt :: uint64
  ro_TotalFees :: uint64
  ro_TotalAmtMsat :: uint64
  ro_TotalFeesMsat :: uint64
  ro_TotalTimeLock :: uint64

record PaymentDetails =
  pd_Payment :: Payment
  pd_SuccessfulRoutes :: "PaymentRoute list"
  pd_FailedRoutes :: "PaymentRoute list"

definition named_payment :: "string \<Rightarrow> PaymentRow \<Rightarrow> bool" where
  "named_payment identifier p \<longleftrightarrow>
     pr_PaymentHash p = identifier \<or> pr_PaymentRequest p = identifier \<or> pr_PaymentPreimage p = identifier"

definition decode_routes :: "(string option \<Rightarrow> PaymentRoute list result) \<Rightarrow> HtlcColumns \<Rightarrow> Payment \<Rightarrow> PaymentDetails result" where
  "decode_routes unmarshal h p =
     (case unmarshal (hc_SuccessfulRoutes h) of
        Inl e \<Rightarrow> Inl (wrapped ''JSON unmarshal of successful route'' e)
      | Inr successful \<Rightarrow>
          (case unmarshal (hc_FailedRoutes h) of
             Inl e \<Rightarrow> Inl (wrapped ''JSON unmarshal of failed routes'' e)
           | Inr failed \<Rightarrow> Ok \<lparr>pd_Payment = p, pd_SuccessfulRoutes = successful, pd_FailedRoutes = failed\<rparr>))"

text \<open>
  \<open>QueryRow\<close> never answers nil: its error, also that there is no row, is that of \<open>Scan\<close>.  The branch
  behind \<open>row != nil\<close> is therefore the only one.
\<close>

definition SqlScanResulSetError :: string where
  "SqlScanResulSetError = ''Reading the results from the SQL statement.''"

definition query_row :: "go_error option \<Rightarrow> (PaymentRow \<Rightarrow> bool) \<Rightarrow> PaymentRow list \<Rightarrow> PaymentRow result option" where
  "query_row query P rows = Some
     (case query of
        Some e \<Rightarrow> Inl e
      | None \<Rightarrow> (case find P rows of None \<Rightarrow> Fails ''sql: no rows in result set'' | Some p \<Rightarrow> Ok p))"

definition getPaymentDetails ::
    "(string \<Rightarrow> HtlcColumns) \<Rightarrow> (string option \<Rightarrow> PaymentRoute list result) \<Rightarrow> go_error option \<Rightarrow> string list \<Rightarrow> PaymentRow list \<Rightarrow>
     string \<Rightarrow> PaymentLookupError + PaymentDetails" where
  "getPaymentDetails generated unmarshal query publicKeys rows identifier =
     (case query_row query (named_payment identifier) rows of
        None \<Rightarrow> Inl (ErrPaymentNotFound identifier)
      | Some row \<Rightarrow>
          (case row of
             Inl e \<Rightarrow> Inl (PaymentLookupFailed (wrapped SqlScanResulSetError e))
           | Inr p \<Rightarrow>
               (case scan_payment (select_payment generated publicKeys p) of
                  Inl e \<Rightarrow> Inl (PaymentLookupFailed (wrapped SqlScanResulSetError e))
                | Inr r \<Rightarrow>
                    (case decode_routes unmarshal (generated (pr_Htlcs p)) r of
                       Inl e \<Rightarrow> Inl (PaymentLookupFailed e)
                     | Inr d \<Rightarrow> Inr d))))"

definition getPaymentHandler ::
    "(string \<Rightarrow> HtlcColumns) \<Rightarrow> (string option \<Rightarrow> PaymentRoute list result) \<Rightarrow> go_error option \<Rightarrow> NodeOrders \<Rightarrow> NodeState \<Rightarrow>
     PaymentRow list \<Rightarrow> ReportQuery \<Rightarrow> string \<Rightarrow> (int \<times> PaymentDetails ReportBody) option" where
  "getPaymentHandler generated unmarshal query ords nodes rows q identifier =
     map_option (\<lambda>keys.
       case getPaymentDetails generated unmarshal query keys rows identifier of
         Inr d \<Rightarrow> (200, Details d)
       | Inl (ErrPaymentNotFound i) \<Rightarrow> (404, NotFoundObject ''Payment not found'' identifier)
       | Inl (PaymentLookupFailed e) \<Rightarrow> server_error e) (torq_keys ords nodes q)"

section \<open>What is shown\<close>

text \<open>The fee rate is the fee in millionths of the value, and 0 for a payment of nothing.\<close>

lemma payment_ppm_value: "v \<noteq> 0 \<Longrightarrow> payment_ppm v f * v = f * 1000000"
  by (simp add: payment_ppm_def nullif_def)

lemma payment_ppm_zero: "payment_ppm 0 f = 0"
  by (simp add: payment_ppm_def nullif_def)

text \<open>
  A payment whose last attempt is resolved is shown with the seconds from its creation until then;
  one without a resolved attempt is shown with minus the seconds from 1970 until its creation.
\<close>

lemma seconds_in_flight_of_payment:
  "pc_SecondsInFlight (select_payment generated keys p) * 1000000000 =
     (case hc_ResolvedNs (generated (pr_Htlcs p)) of
        None \<Rightarrow> - of_int (pr_CreationTimestamp p)
      | Some n \<Rightarrow> of_int (n - pr_CreationTimestamp p))"
  by (auto simp: select_payment_def Let_def seconds_in_flight_def nullif_def left_diff_distrib split: option.splits)

lemma node_settings_answered: "GetNodeSettingsByNodeId ords s i = Some ns \<Longrightarrow> public_keys ords s [i] = Some [mns_PublicKey ns]"
  by simp

text \<open>
  The lookup of a payment is never answered as not found: when no stored payment has the hash,
  request or preimage asked for, the answer is a server error, and whenever one is shown it has it.
\<close>

lemma missing_payment_is_server_error:
  assumes "getPaymentHandler generated unmarshal query ords nodes rows q identifier = Some (status, body)"
  shows "status \<noteq> 404 \<and> (list_all (\<lambda>p. \<not> named_payment identifier p) rows \<longrightarrow> status = 500) \<and>
    (case body of
       Details d \<Rightarrow> status = 200 \<and> identifier \<in> {pm_PaymentHash (pd_Payment d), pm_PaymentRequest (pd_Payment d),
                                               pm_PaymentPreimage (pd_Payment d)}
     | _ \<Rightarrow> status = 500)"
proof -
  obtain keys where keys: "(status, body) =
      (case getPaymentDetails generated unmarshal query keys rows identifier of
         Inr d \<Rightarrow> (200, Details d)
       | Inl (ErrPaymentNotFound i) \<Rightarrow> (404, NotFoundObject ''Payment not found'' identifier)
       | Inl (PaymentLookupFailed e) \<Rightarrow> server_error e)"
    using assms unfolding getPaymentHandler_def map_option_eq_Some by (metis (no_types, lifting))
  show ?thesis
  proof (cases "getPaymentDetails generated unmarshal query keys rows identifier")
    case (Inl e)
    then have "\<exists>e'. e = PaymentLookupFailed e'"
      by (auto simp: getPaymentDetails_def query_row_def split: sum.splits option.splits)
    with keys Inl show ?thesis by (auto simp: server_error_def LogAndSendServerError_def)
  next
    case (Inr d)
    then obtain p r where p: "find (named_payment identifier) rows = Some p"
        "scan_payment (select_payment generated keys p) = Ok r" "pd_Payment d = r"
      by (auto simp: getPaymentDetails_def query_row_def decode_routes_def split: sum.splits option.splits)
    have "named_payment identifier p" "\<not> list_all (\<lambda>p. \<not> named_payment identifier p) rows"
      using find_SomeD [OF p(1)] by (auto simp: list_all_iff)
    moreover have "pm_PaymentHash r = pr_PaymentHash p" "pm_PaymentRequest r = pr_PaymentRequest p"
      "pm_PaymentPreimage r = pr_PaymentPreimage p"
      using p(2) by (auto simp: scan_payment_def select_payment_def Let_def split: option.splits)
    ultimately show ?thesis using keys Inr p(3) by (auto simp: named_payment_def)
  qed
qed

end
