(* ===== verification/TransactionReport.thy ===== *)
theory TransactionReport
  imports InvoiceReport PaymentReport LndTransactions
begin

text \<open>
  \<open>src/internal/on_chain_tx/handlers.go\<close> and \<open>on_chain_tx.go\<close>: the report over the transactions that the
  subscription stores (the rows of \<open>LndTransactions\<close>), with what two regular expressions find in the
  label LND gives a transaction.  The theorems say what is found in such labels, that a transaction
  without addresses fails the whole report, and, for all three reports, that the pages of a report
  together are the report when its order leaves no rows tied.
\<close>

section \<open>Labels\<close>

text \<open>
  \<open>regexp_matches(label, p | $)\<close>: the first match from the left, where the end of the text always matches
  and leaves the group empty.
\<close>

fun first_match :: "(string \<Rightarrow> string option) \<Rightarrow> string \<Rightarrow> string option" where
  "first_match p [] = p []"
| "first_match p (c # cs) = (case p (c # cs) of Some x \<Rightarrow> Some x | None \<Rightarrow> first_match p cs)"

text \<open>Digits and a colon; what follows them.\<close>

definition after_number :: "string \<Rightarrow> string option" where
  "after_number s =
     (if takeWhile is_digit s = [] then None
      else case dropWhile is_digit s of
             [] \<Rightarrow> None
           | c # rest \<Rightarrow> if c = CHR '':'' then Some rest else None)"

definition starting_word :: "string list \<Rightarrow> string \<Rightarrow> string option" where
  "starting_word ws s = find (\<lambda>w. take (length w) s = w) ws"

text \<open>\<open>\d{1,}:(openchannel|closechannel|sweep)\<close>\<close>

definition tx_type_at :: "string \<Rightarrow> string option" where
  "tx_type_at s =
     (case after_number s of
        None \<Rightarrow> None
      | Some rest \<Rightarrow> starting_word [''openchannel'', ''closechannel'', ''sweep''] rest)"

text \<open>\<open>\d{1,}:(openchannel|closechannel):shortchanid-(\d{18,18})\<close>\<close>

definition short_chan_id_after :: "string \<Rightarrow> string option" where
  "short_chan_id_after rest =
     (case starting_word [''openchannel'', ''closechannel''] rest of
        None \<Rightarrow> None
      | Some w \<Rightarrow>
          (let t = drop (length w) rest; n = length '':shortchanid-''; scid = take 18 (drop n t)
           in if take n t = '':shortchanid-'' \<and> length scid = 18 \<and> list_all is_digit scid then Some scid else None))"

definition short_chan_id_at :: "string \<Rightarrow> string option" where
  "short_chan_id_at s = (case after_number s of None \<Rightarrow> None | Some rest \<Rightarrow> short_chan_id_after rest)"

definition lnd_tx_type_label :: "string \<Rightarrow> string option" where
  "lnd_tx_type_label label = first_match tx_type_at label"

definition lnd_short_chan_id :: "string \<Rightarrow> string option" where
  "lnd_short_chan_id label = first_match short_chan_id_at label"

section \<open>The report\<close>

record TxColumns =
  tc_Date :: time
  tc_TxHash :: "string option"
  tc_DestAddresses :: "string list option"
  tc_DestAddressesCount :: "nat option"
  tc_Amount :: "int64 option"
  tc_TotalFees :: "int64 option"
  tc_Label :: string
  tc_LndTxTypeLabel :: "string option"
  tc_LndShortChannelId :: "string option"

text \<open>The length of an empty array is null.\<close>

definition array_length :: "'a list option \<Rightarrow> nat option" where
  "array_length xs = (case xs of Some (y # ys) \<Rightarrow> Some (length (y # ys)) | _ \<Rightarrow> None)"

text \<open>A null label makes both functions yield no row, which drops the transaction.\<close>

definition select_tx :: "Tx \<Rightarrow> TxColumns list" where
  "select_tx t =
     (case tx_Label t of
        None \<Rightarrow> []
      | Some label \<Rightarrow>
          [\<lparr>tc_Date = tx_Timestamp t, tc_TxHash = tx_TransactionHash t, tc_DestAddresses = tx_DestinationAddresses t,
            tc_DestAddressesCount = array_length (tx_DestinationAddresses t), tc_Amount = tx_Amount t,
            tc_TotalFees = tx_TotalFees t, tc_Label = label, tc_LndTxTypeLabel = lnd_tx_type_label label,
            tc_LndShortChannelId = lnd_short_chan_id label\<rparr>])"

record Transaction =
  tn_Date :: time
  tn_TxHash :: string
  tn_DestAddresses :: "string list"
  tn_DestAddressesCount :: string
  tn_AmountMsat :: int64
  tn_TotalFeesMsat :: int64
  tn_Label :: string
  tn_LndTxTypeLabel :: "string option"
  tn_LndShortChannelId :: "string option"

definition scan_tx :: "TxColumns \<Rightarrow> Transaction result" where
  "scan_tx c =
     (case (tc_TxHash c, tc_DestAddressesCount c, tc_Amount c, tc_TotalFees c) of
        (Some h, Some n, Some amount, Some fees) \<Rightarrow> Ok
          \<lparr>tn_Date = tc_Date c, tn_TxHash = h,
           tn_DestAddresses = (case tc_DestAddresses c of None \<Rightarrow> [] | Some as \<Rightarrow> as),
           tn_DestAddressesCount = format_uint n, tn_AmountMsat = amount, tn_TotalFeesMsat = fees,
           tn_Label = tc_Label c, tn_LndTxTypeLabel = tc_LndTxTypeLabel c,
           tn_LndShortChannelId = tc_LndShortChannelId c\<rparr>
      | _ \<Rightarrow> Fails ''converting NULL is unsupported'')"

definition tx_messages :: ReportErrors where
  "tx_messages = \<lparr>rm_Compile = ''SQL compile statement'', rm_Query = ''Run SQL Query'', rm_Scan = ''SQL row scan'',
     rm_CompileCount = ''SQL compile query'', rm_Count = ''SQL run query''\<rparr>"

definition getOnChainTxs ::
    "('f, TxColumns) ReportDb \<Rightarrow> Tx list \<Rightarrow> 'f Sqlizer option \<Rightarrow> string list \<Rightarrow> uint64 \<Rightarrow> uint64 \<Rightarrow>
     (Transaction list \<times> uint64) result" where
  "getOnChainTxs db rows = run_report tx_messages scan_tx db (concat (map select_tx rows))"

definition tx_columns :: "string list" where
  "tx_columns =
     [''date'', ''dest_addresses'', ''dest_addresses_count'', ''amount'', ''total_fees'', ''label'', ''lnd_tx_type_label'',
      ''lnd_short_chan_id'']"

definition getOnChainTxsHandler ::
    "'f Decoders \<Rightarrow> ('f, TxColumns) ReportDb \<Rightarrow> Tx list \<Rightarrow> ReportQuery \<Rightarrow> int \<times> Transaction ReportBody" where
  "getOnChainTxsHandler dec db rows = report_handler dec tx_columns tx_columns False (getOnChainTxs db rows)"

section \<open>What is found in a label\<close>

lemma after_number_digits:
  assumes "ds \<noteq> []" and "list_all is_digit ds"
  shows "after_number (ds @ CHR '':'' # rest) = Some rest"
  using assms by (auto simp: after_number_def takeWhile_append dropWhile_append list_all_iff)

lemma first_match_here: "p s = Some x \<Longrightarrow> first_match p s = Some x"
  by (cases s) auto

lemma after_number_no_digit: "\<not> is_digit c \<Longrightarrow> after_number (c # cs) = None"
  by (simp add: after_number_def)

lemma after_number_only_digits:
  assumes "list_all is_digit ds"
  shows "after_number ds = None"
proof -
  from assms have only: "dropWhile is_digit ds = []" by (simp add: dropWhile_eq_Nil_conv list_all_iff)
  show ?thesis unfolding after_number_def only by simp
qed

lemma short_chan_id_skip: "\<not> is_digit c \<Longrightarrow> first_match short_chan_id_at (c # cs) = first_match short_chan_id_at cs"
  by (simp add: short_chan_id_at_def after_number_no_digit)

lemma short_chan_id_digits: "list_all is_digit ds \<Longrightarrow> first_match short_chan_id_at ds = None"
proof (induction ds)
  case (Cons d ds)
  then show ?case using after_number_only_digits [of "d # ds"] by (simp add: short_chan_id_at_def)
qed (simp add: short_chan_id_at_def after_number_def)

lemma short_chan_id_number:
  assumes "list_all is_digit ds" and "short_chan_id_after rest = None"
  shows "first_match short_chan_id_at (ds @ CHR '':'' # rest) = first_match short_chan_id_at rest"
  using assms(1)
proof (induction ds)
  case (Cons d ds)
  then have "after_number ((d # ds) @ CHR '':'' # rest) = Some rest" by (intro after_number_digits) simp_all
  with Cons assms(2) show ?case by (simp add: short_chan_id_at_def)
qed (simp add: short_chan_id_at_def after_number_no_digit)

text \<open>The label LND gives the transaction of a channel.\<close>

definition channel_label :: "nat \<Rightarrow> string \<Rightarrow> string \<Rightarrow> string" where
  "channel_label account kind scid = format_uint account @ CHR '':'' # kind @ '':shortchanid-'' @ scid"

lemma not_digits [simp]:
  "\<not> is_digit (CHR ''o'')" "\<not> is_digit (CHR ''p'')" "\<not> is_digit (CHR ''e'')" "\<not> is_digit (CHR ''n'')" "\<not> is_digit (CHR ''c'')"
  "\<not> is_digit (CHR ''h'')" "\<not> is_digit (CHR ''a'')" "\<not> is_digit (CHR ''l'')" "\<not> is_digit (CHR ''s'')" "\<not> is_digit (CHR ''r'')"
  "\<not> is_digit (CHR ''t'')" "\<not> is_digit (CHR ''i'')" "\<not> is_digit (CHR ''d'')"
  by (simp_all add: is_digit_def)

lemma after_kind:
  assumes "kind \<in> {''openchannel'', ''closechannel''}" and "list_all is_digit scid" and "length scid \<le> 18"
  shows "starting_word [''openchannel'', ''closechannel'', ''sweep''] (kind @ '':shortchanid-'' @ scid) = Some kind"
    and "short_chan_id_after (kind @ '':shortchanid-'' @ scid) = (if length scid = 18 then Some scid else None)"
    and "first_match short_chan_id_at (kind @ '':shortchanid-'' @ scid) = None"
proof -
  consider "kind = ''openchannel''" | "kind = ''closechannel''" using assms(1) by blast
  then have "starting_word [''openchannel'', ''closechannel'', ''sweep''] (kind @ '':shortchanid-'' @ scid) = Some kind \<and>
    short_chan_id_after (kind @ '':shortchanid-'' @ scid) = (if length scid = 18 then Some scid else None) \<and>
    first_match short_chan_id_at (kind @ '':shortchanid-'' @ scid) = None"
  proof cases
    case 1
    show ?thesis unfolding 1
      using assms(2,3) by (simp add: starting_word_def short_chan_id_after_def Let_def short_chan_id_skip short_chan_id_digits
          del: first_match.simps)
  next
    case 2
    show ?thesis unfolding 2
      using assms(2,3) by (simp add: starting_word_def short_chan_id_after_def Let_def short_chan_id_skip short_chan_id_digits
          del: first_match.simps)
  qed
  then show "starting_word [''openchannel'', ''closechannel'', ''sweep''] (kind @ '':shortchanid-'' @ scid) = Some kind"
    "short_chan_id_after (kind @ '':shortchanid-'' @ scid) = (if length scid = 18 then Some scid else None)"
    "first_match short_chan_id_at (kind @ '':shortchanid-'' @ scid) = None" by blast+
qed

text \<open>
  From the label LND gives the transaction that opens or closes a channel the report reads the kind,
  and the short channel id exactly when it has 18 digits: the ids of early blocks, so all those of a
  test network of one's own, are shorter and are not found.
\<close>

lemma channel_label_read:
  assumes "kind \<in> {''openchannel'', ''closechannel''}" and "list_all is_digit scid" and "length scid \<le> 18"
  shows "lnd_tx_type_label (channel_label n kind scid) = Some kind \<and>
    lnd_short_chan_id (channel_label n kind scid) = (if length scid = 18 then Some scid else None)"
proof -
  let ?rest = "kind @ '':shortchanid-'' @ scid"
  note kind = after_kind [OF assms]
  have digits: "format_uint n \<noteq> []" "list_all is_digit (format_uint n)"
    using format_uint_digits [of n] by (simp_all add: list_all_iff)
  have rest: "after_number (channel_label n kind scid) = Some ?rest"
    unfolding channel_label_def by (rule after_number_digits [OF digits])
  have "tx_type_at (channel_label n kind scid) = Some kind" unfolding tx_type_at_def rest option.case by (rule kind(1))
  then have "lnd_tx_type_label (channel_label n kind scid) = Some kind"
    unfolding lnd_tx_type_label_def by (rule first_match_here)
  moreover have "lnd_short_chan_id (channel_label n kind scid) = (if length scid = 18 then Some scid else None)"
  proof (cases "length scid = 18")
    case True
    then have "short_chan_id_at (channel_label n kind scid) = Some scid"
      unfolding short_chan_id_at_def rest option.case kind(2) by simp
    from first_match_here [where p = short_chan_id_at, OF this] True show ?thesis by (simp add: lnd_short_chan_id_def)
  next
    case False
    then have "short_chan_id_after ?rest = None" using kind(2) by simp
    from short_chan_id_number [OF digits(2) this] kind(3) False show ?thesis
      by (simp add: lnd_short_chan_id_def channel_label_def)
  qed
  ultimately show ?thesis by blast
qed

section \<open>A transaction without addresses\<close>

lemma scan_tx_no_addresses: "c \<in> set (select_tx t) \<Longrightarrow> tx_DestinationAddresses t \<in> {None, Some []} \<Longrightarrow> isl (scan_tx c)"
  by (auto simp: select_tx_def scan_tx_def array_length_def split: option.splits)

text \<open>
  One stored transaction without destination addresses, on the page asked for, fails the whole
  report of transactions, since the length of its empty array is null.
\<close>

lemma transaction_without_addresses_fails_report:
  assumes "report_params dec tx_columns tx_columns False q = Ok (cond, sorting, limit, offset)"
    and "rb_ToSql db cond = None" and "rb_Cut db = None"
    and "query_rows db (concat (map select_tx txs)) cond sorting limit offset = Ok rows"
    and "c \<in> set rows" and "c \<in> set (select_tx t)" and "tx_DestinationAddresses t \<in> {None, Some []}"
  shows "fst (getOnChainTxsHandler dec db txs q) = 500"
proof -
  from collect_error [where f = scan_tx, OF assms(5) scan_tx_no_addresses [OF assms(6,7)]]
  obtain e where "collect scan_tx rows = Inl e" by (elim exE)
  with assms(1-4) show ?thesis
    by (simp add: getOnChainTxsHandler_def report_handler_def getOnChainTxs_def run_report_def cut_rows_def
        report_answer_def server_error_def LogAndSendServerError_def)
qed

section \<open>Pages\<close>

text \<open>
  C35: For each of the three reports, take a request whose filter and order are accepted, a database that
  answers it, may arrange the rows anew for each page, and orders them as asked, and selected rows
  that can be scanned.  When the order leaves no two different rows tied, the pages of \<open>n\<close> rows with the
  offsets 0, n, 2n and so on, put together, are the first rows of one sequence of the selected rows, in
  the order asked for: enough pages show every selected row exactly as often as it is selected.
\<close>

theorem report_pages_cover:
  assumes "0 < n" and "n < 2 ^ 63" and "k * n < 2 ^ 63" and "torq_keys ords nodes qp = Some keys"
    and "report_ready dec invoice_filter_columns invoice_order_columns qi dbi scan_invoice (invoice_table invoices payments)
           isorting irows" and "decides dbi isorting irows"
    and "report_ready dec payment_filter_columns payment_order_columns qp dbp scan_payment
           (map (select_payment generated keys) payments) psorting prows" and "decides dbp psorting prows"
    and "report_ready dec tx_columns tx_columns qt dbt scan_tx (concat (map select_tx txs)) tsorting trows"
    and "decides dbt tsorting trows"
  shows "pages_are dbi scan_invoice isorting irows n
       (map (\<lambda>i. page_data (getInvoicesHandler dec dbi invoices payments (page_query qi n i))) [0..<k]) \<and>
     pages_are dbp scan_payment psorting prows n
       (map (\<lambda>i. page_data (the (getPaymentsHandler dec generated dbp ords nodes payments (page_query qp n i)))) [0..<k]) \<and>
     pages_are dbt scan_tx tsorting trows n
       (map (\<lambda>i. page_data (getOnChainTxsHandler dec dbt txs (page_query qt n i))) [0..<k])"
proof (intro conjI)
  have keys: "torq_keys ords nodes (page_query qp n i) = Some keys" for i
    using assms(4) by (simp add: torq_keys_def page_query_def)
  show "pages_are dbp scan_payment psorting prows n
       (map (\<lambda>i. page_data (the (getPaymentsHandler dec generated dbp ords nodes payments (page_query qp n i)))) [0..<k])"
    unfolding getPaymentsHandler_report [OF keys] option.sel getPayments_def by (rule report_pages [OF assms(7,8,1-3)])
qed (unfold getInvoicesHandler_def getInvoices_def getOnChainTxsHandler_def getOnChainTxs_def,
    (rule report_pages [OF assms(5,6,1-3)] report_pages [OF assms(9,10,1-3)])+)

section \<open>Examples\<close>

definition stored_tx :: "string list \<Rightarrow> Tx" where
  "stored_tx addresses = \<lparr>tx_Timestamp = 0, tx_TransactionHash = Some ''t'', tx_Amount = Some 5,
     tx_NumberOfConfirmations = Some 1, tx_BlockHash = Some ''b'', tx_BlockHeight = Some 1, tx_TotalFees = Some 0,
     tx_DestinationAddresses = Some addresses, tx_RawTransactionHex = Some [], tx_Label = Some [], tx_NodeId = 1\<rparr>"

definition stored_payment :: PaymentRow where
  "stored_payment = \<lparr>pr_PaymentHash = ''h'', pr_CreationTimestamp = 0, pr_PaymentPreimage = ''i'', pr_ValueMsat = 1000,
     pr_PaymentRequest = ''lnbc'', pr_Status = ''SUCCEEDED'', pr_FeeMsat = 1, pr_CreationTimeNs = 0, pr_Htlcs = [],
     pr_PaymentIndex = 1, pr_FailureReason = [], pr_IncomingChannelId = None, pr_OutgoingChannelId = None,
     pr_RebalanceAmountMsat = None, pr_NodeId = 1, pr_CreatedOn = 0, pr_UpdatedOn = None\<rparr>"

definition stored_columns :: "string \<Rightarrow> HtlcColumns" where
  "stored_columns htlcs = \<lparr>hc_DestinationPubKey = Some ''k'', hc_IsMpp = Some False, hc_SuccessfulAttempts = Some 1,
     hc_FailedAttempts = Some 0, hc_ResolvedNs = Some 5, hc_SuccessfulRoutes = None, hc_FailedRoutes = None\<rparr>"

definition plain_orders :: NodeOrders where
  "plain_orders = \<lparr>by_key = (\<lambda>m. m), by_network = (\<lambda>m. m), by_chain = (\<lambda>m. m)\<rparr>"

lemma channel_label_read_witness:
  "lnd_tx_type_label (channel_label 0 ''openchannel'' ''123456789012345678'') = Some ''openchannel'' \<and>
   lnd_short_chan_id (channel_label 0 ''openchannel'' ''123456789012345678'') = Some ''123456789012345678''"
  using channel_label_read [of "''openchannel''" "''123456789012345678''" 0] by (simp add: is_digit_def)

lemma transaction_without_addresses_fails_report_witness:
  "fst (getOnChainTxsHandler no_decoders quiet_db [stored_tx [''a''], stored_tx []] no_query) = 500"
proof (rule transaction_without_addresses_fails_report [where cond = None and sorting = "[]" and limit = 0 and offset = 0
      and t = "stored_tx []" and c = "hd (select_tx (stored_tx []))"
      and rows = "concat (map select_tx [stored_tx [''a''], stored_tx []])"])
  show "report_params no_decoders tx_columns tx_columns False no_query = Ok (None, [], 0, 0)"
    by (simp add: no_query_def report_params_def filter_param_of_def order_param_of_def limit_param_def offset_param_def
        number_param_def)
  show "query_rows quiet_db (concat (map select_tx [stored_tx [''a''], stored_tx []])) None [] 0 0 =
      Ok (concat (map select_tx [stored_tx [''a''], stored_tx []]))"
    by (simp add: query_rows_def quiet_db_def where_rows_def page_rows_def)
qed (simp_all add: quiet_db_def select_tx_def stored_tx_def)

text \<open>Requests that name a column to sort by, and databases that sort by it.\<close>

definition sorting_decoders :: "int Decoders" where
  "sorting_decoders = no_decoders\<lparr>rd_Order := (\<lambda>s. Ok [\<lparr>or_Key = s, or_Direction = ''asc''\<rparr>])\<rparr>"

lemma sorting_query:
  assumes "c \<in> set os" and "c \<noteq> []"
  shows "filter_param_of sorting_decoders fs (rq_Filter (no_query\<lparr>rq_Order := c\<rparr>)) = Ok None"
    and "order_param_of sorting_decoders os (rq_Order (no_query\<lparr>rq_Order := c\<rparr>)) = Ok [c @ '' asc'']"
  using assms by (simp_all add: no_query_def filter_param_of_def order_param_of_def sorting_decoders_def no_decoders_def
      ParseOrderParams_def ParseOrder_def IsAllowed_iff Let_def)

lemma sorted_ready:
  assumes "list_all (\<lambda>r. isl (scan r) = False) table" and "distinct (map key table)" and "c \<in> set os" and "c \<noteq> []"
    and "sorting = [c @ '' asc'']"
  shows "report_ready sorting_decoders fs os (no_query\<lparr>rq_Order := c\<rparr>) (keyed_db key) scan table sorting table"
  using keyed_db_ready [OF assms(1,2) sorting_query [OF assms(3,4)]] by (simp only: assms(5))

lemma ids_of_empty: "ids_of chain network [] = []"
  by (simp add: ids_of_def mget_def)

lemma no_keys: "torq_keys plain_orders emptyNodeState (no_query\<lparr>rq_Order := c\<rparr>) = Some []"
  by (simp add: torq_keys_def GetAllTorqNodeIds_def processManagedNode_def nodeRequest_def readNodeIds_def
      plain_orders_def emptyNodeState_def Let_def ids_of_empty)

theorem report_pages_cover_witness:
  "let invoices = [sample_invoice 3600, (sample_invoice 3600)\<lparr>in_AddIndex := 2\<rparr>]
   in pages_are (keyed_db ri_AddIndex :: (int, ReportedInvoice) ReportDb) scan_invoice [''add_index asc''] (invoice_table invoices [stored_payment]) 1
        (map (\<lambda>i. page_data (getInvoicesHandler sorting_decoders (keyed_db ri_AddIndex) invoices [stored_payment]
           (page_query (no_query\<lparr>rq_Order := ''add_index''\<rparr>) 1 i))) [0..<2])"
proof -
  let ?invoices = "[sample_invoice 3600, (sample_invoice 3600)\<lparr>in_AddIndex := 2\<rparr>]"
  let ?itable = "invoice_table ?invoices [stored_payment]"
  let ?ptable = "map (select_payment stored_columns []) [stored_payment]"
  let ?ttable = "concat (map select_tx [stored_tx [''a'']])"
  have "list_all (\<lambda>r. isl (scan_invoice r) = False) ?itable" "distinct (map ri_AddIndex ?itable)"
    by (auto simp: invoice_table_def left_join_Cons select_invoice_def sample_invoice_def scan_invoice_def scan_uint_of_int
        list_all_iff)
  note i_rows = this
  have i: "report_ready sorting_decoders invoice_filter_columns invoice_order_columns (no_query\<lparr>rq_Order := ''add_index''\<rparr>)
      (keyed_db ri_AddIndex) scan_invoice ?itable [''add_index asc''] ?itable" "decides (keyed_db ri_AddIndex) [''add_index asc''] ?itable"
    by - ((rule sorted_ready [OF i_rows]; simp add: invoice_order_columns_def), rule keyed_decides [OF i_rows(2)])
  have "list_all (\<lambda>r. isl (scan_payment r) = False) ?ptable" "distinct (map pc_Date ?ptable)"
    by (simp_all add: select_payment_def scan_payment_def stored_columns_def Let_def)
  note p_rows = this
  have p: "report_ready sorting_decoders payment_filter_columns payment_order_columns (no_query\<lparr>rq_Order := ''date''\<rparr>)
      (keyed_db pc_Date) scan_payment ?ptable [''date asc''] ?ptable" "decides (keyed_db pc_Date) [''date asc''] ?ptable"
    by - ((rule sorted_ready [OF p_rows]; simp add: payment_order_columns_def), rule keyed_decides [OF p_rows(2)])
  have "list_all (\<lambda>r. isl (scan_tx r) = False) ?ttable" "distinct (map tc_Date ?ttable)"
    by (simp_all add: select_tx_def scan_tx_def stored_tx_def array_length_def)
  note t_rows = this
  have t: "report_ready sorting_decoders tx_columns tx_columns (no_query\<lparr>rq_Order := ''date''\<rparr>)
      (keyed_db tc_Date) scan_tx ?ttable [''date asc''] ?ttable" "decides (keyed_db tc_Date) [''date asc''] ?ttable"
    by - ((rule sorted_ready [OF t_rows]; simp add: tx_columns_def), rule keyed_decides [OF t_rows(2)])
  have "(0::nat) < 1" "(1::nat) < 2 ^ 63" "(2::nat) * 1 < 2 ^ 63" by simp_all
  from report_pages_cover [OF this no_keys i p t, THEN conjunct1] show ?thesis
    unfolding Let_def .
qed

end
