(* ===== verification/ForwardReports.thy ===== *)
theory ForwardReports
  imports Reports LndForwards LndGraph ManagedSettings
begin

text \<open>
  The sums over forwarded payments: \<open>src/internal/forwards/handlers.go\<close> with one row for every channel,
  and \<open>src/internal/flow/handlers.go\<close> with where the payments through given channels come from and go
  to.  The queries are written as the joins, groups and sums they are made of, over the rows that the
  forwards subscription (\<open>LndForwards\<close>) and the channel and graph subscriptions store.  The conversion of
  an instant to the time zone of the settings is a parameter.  The theorems say that the joins compute
  the sums over the forwards of a channel, and which of them the flow shows.
\<close>

section \<open>Dates\<close>

text \<open>\<open>time.Parse\<close> with the layout \<open>2006-01-02\<close>: four, two and two digits of a day that exists.\<close>

definition leap_year :: "nat \<Rightarrow> bool" where
  "leap_year y \<longleftrightarrow> y mod 4 = 0 \<and> (y mod 100 \<noteq> 0 \<or> y mod 400 = 0)"

definition month_days :: "nat \<Rightarrow> nat list" where
  "month_days y = [31, if leap_year y then 29 else 28, 31, 30, 31, 30, 31, 31, 30, 31, 30, 31]"

text \<open>The days from the start of the year 0 and from the start of 1970.\<close>

definition days_before_year :: "nat \<Rightarrow> nat" where
  "days_before_year y = 365 * y + (y + 3) div 4 - (y + 99) div 100 + (y + 399) div 400"

definition unix_days :: "nat \<Rightarrow> nat \<Rightarrow> nat \<Rightarrow> int" where
  "unix_days y m d = int (days_before_year y + sum_list (take (m - 1) (month_days y)) + (d - 1)) - 719528"

definition day_ns :: int where
  "day_ns = 86400 * 1000000000"

definition parse_date :: "string \<Rightarrow> time result" where
  "parse_date s =
     (let y = take 4 s; m = take 2 (drop 5 s); d = take 2 (drop 8 s)
      in if length s = 10 \<and> s ! 4 = CHR ''-'' \<and> s ! 7 = CHR ''-''
         then (case (digits_val 0 y, digits_val 0 m, digits_val 0 d) of
                 (Some year, Some month, Some day) \<Rightarrow>
                   if 1 \<le> month \<and> month \<le> 12 \<and> 1 \<le> day \<and> day \<le> month_days year ! (month - 1)
                   then Ok (unix_days year month day * day_ns) else Fails ''parsing time''
               | _ \<Rightarrow> Fails ''parsing time'')
         else Fails ''parsing time'')"

section \<open>Sums of forwards\<close>

text \<open>\<open>floor(sum(msat)/1000)\<close>, \<open>floor(sum(fee)/1000)\<close> and \<open>count\<close> of the forwards of each channel.\<close>

record ForwardSum =
  fs_Amount :: int
  fs_Revenue :: int
  fs_Count :: int

definition sat_sum :: "(ForwardRow \<Rightarrow> uint64) \<Rightarrow> ForwardRow list \<Rightarrow> int" where
  "sat_sum msat fs = (\<Sum>f\<leftarrow>fs. uint (msat f)) div 1000"

definition forward_sum :: "(ForwardRow \<Rightarrow> uint64) \<Rightarrow> ForwardRow list \<Rightarrow> ForwardSum" where
  "forward_sum msat fs =
     \<lparr>fs_Amount = sat_sum msat fs, fs_Revenue = sat_sum fw_FeeMsat fs, fs_Count = int (length fs)\<rparr>"

definition grouped_sums ::
    "(ForwardRow \<Rightarrow> 'k) \<Rightarrow> (ForwardRow \<Rightarrow> uint64) \<Rightarrow> ForwardRow list \<Rightarrow> ('k \<times> ForwardSum) list" where
  "grouped_sums key msat fs = map (\<lambda>(k, g). (k, forward_sum msat g)) (groups key fs)"

lemma grouped_sums_keys: "map fst (grouped_sums key msat fs) = remdups (map key fs)"
  by (simp add: grouped_sums_def groups_def comp_def)

lemma grouped_sums_distinct: "distinct (map fst (grouped_sums key msat fs))"
  by (simp add: grouped_sums_keys)

definition of_key :: "(ForwardRow \<Rightarrow> 'k) \<Rightarrow> 'k \<Rightarrow> ForwardRow list \<Rightarrow> ForwardRow list" where
  "of_key key k fs = filter (\<lambda>f. key f = k) fs"

lemma map_of_grouped_sums:
  "map_of (grouped_sums key msat fs) k =
     (if of_key key k fs = [] then None else Some (forward_sum msat (of_key key k fs)))"
proof -
  have "map_of (map (\<lambda>k. (k, h k)) ks) k = (if k \<in> set ks then Some (h k) else None)" for h :: "'a \<Rightarrow> ForwardSum" and ks
    by (induction ks) auto
  from this [of "\<lambda>k. forward_sum msat (of_key key k fs)" "remdups (map key fs)"]
  have "map_of (grouped_sums key msat fs) k =
      (if k \<in> set (map key fs) then Some (forward_sum msat (of_key key k fs)) else None)"
    by (simp add: grouped_sums_def groups_def comp_def of_key_def)
  then show ?thesis by (auto simp: of_key_def filter_empty_conv)
qed

section \<open>The report of forwards\<close>

text \<open>The joined sums of one channel; a sum that is missing is 0, and a missing channel is channel 0.\<close>

record ChannelFlow =
  cf_ChannelId :: int
  cf_Out :: ForwardSum
  cf_In :: ForwardSum

definition zero_sum :: ForwardSum where
  "zero_sum = \<lparr>fs_Amount = 0, fs_Revenue = 0, fs_Count = 0\<rparr>"

definition channel_flow :: "(int option \<times> ForwardSum) option \<times> (int option \<times> ForwardSum) option \<Rightarrow> ChannelFlow" where
  "channel_flow oi =
     \<lparr>cf_ChannelId = coalesce (join_key oi) 0,
      cf_Out = coalesce (map_option snd (fst oi)) zero_sum,
      cf_In = coalesce (map_option snd (snd oi)) zero_sum\<rparr>"

definition channel_flows :: "ForwardRow list \<Rightarrow> ChannelFlow list" where
  "channel_flows fs =
     map channel_flow (full_join same_key (grouped_sums fw_OutgoingChannelId fw_AmtOutMsat fs)
                                          (grouped_sums fw_IncomingChannelId fw_AmtInMsat fs))"

text \<open>
  The rows the query joins to a channel; \<open>fd_Zone\<close> converts an instant to the preferred time zone.  The
  query names no order: \<open>fd_Arrange\<close> is the order the rows come in.  \<open>fd_Query\<close> is a failure before the
  first row, which the code sees; \<open>fd_Cut\<close> one after that many more, which ends \<open>rows.Next\<close> like the end
  of the rows.
\<close>

record ForwardsDb =
  fd_Forwards :: "ForwardRow list"
  fd_Channels :: "(int \<times> Channel) list"
  fd_ChannelEvents :: "ChannelEventRow list"
  fd_NodeEvents :: "NodeEventFromGraph list"
  fd_Nodes :: "Node list"
  fd_Zone :: "string \<Rightarrow> time \<Rightarrow> time"
  fd_Capacity :: "string \<Rightarrow> int option"
  fd_Arrange :: "(Channel \<times> ChannelFlow option) list \<Rightarrow> (Channel \<times> ChannelFlow option) list"
  fd_Query :: "go_error option"
  fd_Cut :: "nat option"

definition received :: "nat option \<Rightarrow> 'a list \<Rightarrow> 'a list" where
  "received stop rows = (case stop of None \<Rightarrow> rows | Some n \<Rightarrow> take (Suc n) rows)"

text \<open>
  Rows are computed while they are sent.  One that cannot be computed ends them; only when it is the
  first does the query itself fail.
\<close>

fun until_failure :: "('a \<Rightarrow> 'b result) \<Rightarrow> 'a list \<Rightarrow> 'b list" where
  "until_failure f [] = []"
| "until_failure f (x # xs) = (case f x of Inl e \<Rightarrow> [] | Inr y \<Rightarrow> y # until_failure f xs)"

definition sent_rows :: "('a \<Rightarrow> 'b result) \<Rightarrow> 'a list \<Rightarrow> 'b list result" where
  "sent_rows f xs =
     (case xs of
        [] \<Rightarrow> Ok []
      | x # rest \<Rightarrow> (case f x of Inl e \<Rightarrow> Inl e | Inr y \<Rightarrow> Ok (until_failure f xs)))"

definition in_zone :: "(time \<Rightarrow> time) \<Rightarrow> time \<Rightarrow> time \<Rightarrow> ForwardRow \<Rightarrow> bool" where
  "in_zone zone from_time to_time f \<longleftrightarrow> zone from_time \<le> zone (fw_Time f) \<and> zone (fw_Time f) \<le> zone to_time"

definition open_or_close :: "ChannelEventRow \<Rightarrow> bool" where
  "open_or_close e \<longleftrightarrow> cer_Type e \<in> {OPEN_CHANNEL, CLOSED_CHANNEL}"

definition event_capacity :: "ForwardsDb \<Rightarrow> int \<Rightarrow> int option" where
  "event_capacity db channelId =
     (case latest cer_Time (filter (\<lambda>e. open_or_close e \<and> cer_ChannelId e = channelId) (fd_ChannelEvents db)) of
        None \<Rightarrow> None
      | Some e \<Rightarrow> fd_Capacity db (cer_Event e))"

definition latest_announcement :: "ForwardsDb \<Rightarrow> int \<Rightarrow> NodeEventFromGraph option" where
  "latest_announcement db nodeId =
     latest neg_EventTime (filter (\<lambda>e. neg_EventNodeId e = nodeId) (fd_NodeEvents db))"

definition node_key :: "ForwardsDb \<Rightarrow> int \<Rightarrow> string option" where
  "node_key db nodeId = map_option nd_PublicKey (find (\<lambda>n. nd_NodeId n = nodeId) (fd_Nodes db))"

record forwardsTableRow =
  fr_Alias :: "string option"
  fr_FirstNodeId :: int
  fr_SecondNodeId :: int
  fr_ChannelID :: int
  fr_FundingTransactionHash :: string
  fr_FundingOutputIndex :: string
  fr_ChannelPoint :: string
  fr_PubKey :: string
  fr_ShortChannelID :: string
  fr_LNDShortChannelId :: string
  fr_Color :: string
  fr_Open :: bool
  fr_StatusId :: int
  fr_Capacity :: int
  fr_AmountOut :: int
  fr_AmountIn :: int
  fr_AmountTotal :: int
  fr_RevenueOut :: int
  fr_RevenueIn :: int
  fr_RevenueTotal :: int
  fr_CountOut :: int
  fr_CountIn :: int
  fr_CountTotal :: int
  fr_TurnoverOut :: rat
  fr_TurnoverIn :: rat
  fr_TurnoverTotal :: rat

text \<open>A quotient is null when one part is, and cannot be computed when the capacity is 0.\<close>

definition turnover :: "int option \<Rightarrow> int option \<Rightarrow> rat result" where
  "turnover amount capacity =
     (case (amount, capacity) of
        (Some a, Some c) \<Rightarrow> if c = 0 then Fails ''division by zero'' else Ok (sql_round 2 (of_int a / of_int c))
      | _ \<Rightarrow> Ok 0)"

definition forwards_row :: "ForwardsDb \<Rightarrow> Channel \<times> ChannelFlow option \<Rightarrow> forwardsTableRow result" where
  "forwards_row db cf =
     (let c = fst cf; flow = snd cf; capacity = event_capacity db (ch_ChannelID c);
          announcement = latest_announcement db (ch_SecondNodeId c); key = node_key db (ch_SecondNodeId c);
          outgoing = (case flow of None \<Rightarrow> zero_sum | Some f \<Rightarrow> cf_Out f);
          incoming = (case flow of None \<Rightarrow> zero_sum | Some f \<Rightarrow> cf_In f);
          index = format_int (ch_FundingOutputIndex c)
      in case (turnover (map_option (fs_Amount \<circ> cf_Out) flow) capacity, turnover (map_option (fs_Amount \<circ> cf_In) flow) capacity,
               turnover (map_option (\<lambda>f. fs_Amount (cf_In f) + fs_Amount (cf_Out f)) flow) capacity) of
           (Inr tout, Inr tin, Inr ttotal) \<Rightarrow> Ok
             \<lparr>fr_Alias = (case announcement of None \<Rightarrow> map_option (take 20) key | Some a \<Rightarrow> Some (neg_Alias a)),
              fr_FirstNodeId = ch_FirstNodeId c, fr_SecondNodeId = ch_SecondNodeId c, fr_ChannelID = ch_ChannelID c,
              fr_FundingTransactionHash = ch_FundingTransactionHash c, fr_FundingOutputIndex = index,
              fr_ChannelPoint = ch_FundingTransactionHash c @ '':'' @ index,
              fr_PubKey = coalesce key [],
              fr_ShortChannelID = coalesce (ch_ShortChannelID c) ''Short channel ID missing'',
              fr_LNDShortChannelId =
                coalesce (map_option (\<lambda>i. format_uint (unat i)) (ch_LNDShortChannelID c)) ''LND short channel id missing'',
              fr_Color = (case announcement of None \<Rightarrow> ''Color missing'' | Some a \<Rightarrow> neg_Color a),
              fr_Open = (channel_status_code (ch_Status c) \<le> 1), fr_StatusId = channel_status_code (ch_Status c),
              fr_Capacity = coalesce capacity 0,
              fr_AmountOut = fs_Amount outgoing, fr_AmountIn = fs_Amount incoming,
              fr_AmountTotal = fs_Amount incoming + fs_Amount outgoing,
              fr_RevenueOut = fs_Revenue outgoing, fr_RevenueIn = fs_Revenue incoming,
              fr_RevenueTotal = fs_Revenue incoming + fs_Revenue outgoing,
              fr_CountOut = fs_Count outgoing, fr_CountIn = fs_Count incoming,
              fr_CountTotal = fs_Count incoming + fs_Count outgoing,
              fr_TurnoverOut = tout, fr_TurnoverIn = tin, fr_TurnoverTotal = ttotal\<rparr>
         | _ \<Rightarrow> Fails ''division by zero'')"

text \<open>The numbers are scanned into unsigned variables of 64 bits.\<close>

definition scan_forwards_row :: "forwardsTableRow \<Rightarrow> forwardsTableRow result" where
  "scan_forwards_row r =
     (if list_all (\<lambda>n. 0 \<le> n \<and> n < 2 ^ 64)
           [fr_Capacity r, fr_AmountOut r, fr_AmountIn r, fr_AmountTotal r, fr_RevenueOut r, fr_RevenueIn r,
            fr_RevenueTotal r, fr_CountOut r, fr_CountIn r, fr_CountTotal r]
      then Ok r else Fails ''value out of range'')"

definition own_channel :: "int list \<Rightarrow> Channel \<Rightarrow> bool" where
  "own_channel nodeIds c \<longleftrightarrow> ch_FirstNodeId c \<in> set nodeIds \<or> ch_SecondNodeId c \<in> set nodeIds"

definition getForwardsTableData ::
    "ForwardsDb \<Rightarrow> string \<Rightarrow> int list \<Rightarrow> time \<Rightarrow> time \<Rightarrow> forwardsTableRow list result" where
  "getForwardsTableData db time_zone nodeIds fromTime toTime =
     (case fd_Query db of
        Some e \<Rightarrow> Inl (wrapped ''Running aggregated forwards query'' e)
      | None \<Rightarrow>
          (let flows = channel_flows (filter (in_zone (fd_Zone db time_zone) fromTime toTime) (fd_Forwards db));
               joined = left_join (\<lambda>c f. cf_ChannelId f = ch_ChannelID c) (map snd (fd_Channels db)) flows
           in case sent_rows (forwards_row db) (fd_Arrange db (filter (\<lambda>cf. own_channel nodeIds (fst cf)) joined)) of
                Inl e \<Rightarrow> Inl (wrapped ''Running aggregated forwards query'' e)
              | Inr rows \<Rightarrow>
                  (case collect scan_forwards_row (received (fd_Cut db) rows) of
                     Inl e \<Rightarrow> Inl (wrapped ''SQL row scan'' e)
                   | Inr r \<Rightarrow> Ok r)))"

text \<open>The query parameters of a request; one that is missing is the empty string.\<close>

record ForwardsQuery =
  fq_From :: string
  fq_To :: string
  fq_Network :: string
  fq_ChanIds :: string

datatype 'a ForwardsBody = ForwardsError ServerError | ForwardsRows "'a list"

definition sent_error :: "int \<times> ServerError \<Rightarrow> int \<times> 'a ForwardsBody" where
  "sent_error r = map_prod id ForwardsError r"

text \<open>
  \<open>commons.Network(network)\<close> takes any number, and the node cache knows no nodes of a network without a
  name; the cache and the settings are asked when the parameters are checked.  None: a cache gives no
  answer.
\<close>

definition network_of_code :: "int \<Rightarrow> Network option" where
  "network_of_code n =
     (if n = 0 then Some MainNet else if n = 1 then Some TestNet else if n = 2 then Some RegTest
      else if n = 3 then Some SigNet else if n = 4 then Some SimNet else None)"

definition nodes_of_network :: "NodeOrders \<Rightarrow> NodeState \<Rightarrow> int \<Rightarrow> int list option" where
  "nodes_of_network ords nodes n =
     (case network_of_code n of
        None \<Rightarrow> Some []
      | Some network \<Rightarrow> GetAllTorqNodeIds ords nodes Bitcoin network)"

definition getForwardsTableHandler ::
    "ForwardsDb \<Rightarrow> NodeOrders \<Rightarrow> NodeState \<Rightarrow> SettingsState \<Rightarrow> ForwardsQuery \<Rightarrow>
     (int \<times> forwardsTableRow ForwardsBody) option" where
  "getForwardsTableHandler db ords nodes settings q =
     (case parse_date (fq_From q) of
        Inl e \<Rightarrow> Some (sent_error (LogAndSendServerError e))
      | Inr from_time \<Rightarrow>
     (case parse_date (fq_To q) of
        Inl e \<Rightarrow> Some (sent_error (LogAndSendServerError e))
      | Inr to_time \<Rightarrow>
     (if fq_Network q = [] then Some (sent_error (SendBadRequest ''Network missing''))
      else case atoi (fq_Network q) of
        None \<Rightarrow> Some (sent_error (SendBadRequest (''Can'' @ [CHR 0x27] @ ''t process network'')))
      | Some network \<Rightarrow>
     (case (nodes_of_network ords nodes network, GetSettings settings) of
        (Some nodeIds, Some s) \<Rightarrow> Some
          (case getForwardsTableData db (ms_PreferredTimeZone s) nodeIds from_time to_time of
             Inl e \<Rightarrow> sent_error (LogAndSendServerError e)
           | Inr r \<Rightarrow> (200, ForwardsRows r))
      | _ \<Rightarrow> None))))"

section \<open>The flow\<close>

text \<open>
  The channels a request names by their LND ids, looked up one after the other; \<open>1\<close> alone stands for
  all channels, with the id 0.  None: the channel cache gives no answer.
\<close>

fun lookup_channels :: "channel_orders \<Rightarrow> ChannelState \<Rightarrow> string list \<Rightarrow> int list result option" where
  "lookup_channels ords channels [] = Some (Ok [])"
| "lookup_channels ords channels (s # ss) =
     (case parse_uint 64 s of
        None \<Rightarrow> Some (Fails ''Converting LND short channel id from string: invalid syntax'')
      | Some n \<Rightarrow>
          (case GetChannelIdByShortChannelId ords channels (ConvertLNDShortChannelID (word_of_nat n)) of
             None \<Rightarrow> None
           | Some i \<Rightarrow> map_option (map_sum id (\<lambda>ids. i # ids)) (lookup_channels ords channels ss)))"

definition requested_channels :: "channel_orders \<Rightarrow> ChannelState \<Rightarrow> string list \<Rightarrow> (bool \<times> int list) result option" where
  "requested_channels ords channels ss =
     (if ss = [''1''] then Some (Ok (True, [0]))
      else map_option (map_sum id (\<lambda>ids. (False, ids))) (lookup_channels ords channels ss))"

definition wanted_channel :: "bool \<Rightarrow> int list \<Rightarrow> int option \<Rightarrow> bool" where
  "wanted_channel getAll ids c \<longleftrightarrow> getAll \<or> (case c of None \<Rightarrow> False | Some i \<Rightarrow> i \<in> set ids)"

definition in_time :: "time \<Rightarrow> time \<Rightarrow> ForwardRow \<Rightarrow> bool" where
  "in_time from_time to_time f \<longleftrightarrow> from_time \<le> fw_Time f \<and> fw_Time f \<le> to_time"

record FlowColumns =
  fc_ChannelId :: "int option"
  fc_Out :: "ForwardSum option"
  fc_In :: "ForwardSum option"

definition flow_columns :: "(int option \<times> ForwardSum) option \<times> (int option \<times> ForwardSum) option \<Rightarrow> FlowColumns" where
  "flow_columns oi =
     \<lparr>fc_ChannelId = join_key oi, fc_Out = map_option snd (fst oi), fc_In = map_option snd (snd oi)\<rparr>"

definition flow_table :: "bool \<Rightarrow> int list \<Rightarrow> ForwardRow list \<Rightarrow> FlowColumns list" where
  "flow_table getAll ids fs =
     map flow_columns (full_join same_key
       (grouped_sums fw_OutgoingChannelId fw_AmtOutMsat (filter (\<lambda>f. wanted_channel getAll ids (fw_IncomingChannelId f)) fs))
       (grouped_sums fw_IncomingChannelId fw_AmtOutMsat (filter (\<lambda>f. wanted_channel getAll ids (fw_OutgoingChannelId f)) fs)))"

record channelFlowData =
  cd_Alias :: "string option"
  cd_FundingTransactionHash :: string
  cd_FundingOutputIndex :: int
  cd_PubKey :: "string option"
  cd_LNDShortChannelId :: "string option"
  cd_AmountOut :: int
  cd_AmountIn :: int
  cd_RevenueOut :: int
  cd_RevenueIn :: int
  cd_CountOut :: int
  cd_CountIn :: int

text \<open>
  The channel is joined by way of its events, its remote node by way of the announcements; the selected
  columns are the sums of \<open>i\<close> before those of \<open>o\<close>, and the variables those of out before those of in.
\<close>

definition has_events :: "ForwardsDb \<Rightarrow> int \<Rightarrow> bool" where
  "has_events db channelId \<longleftrightarrow> list_ex (\<lambda>e. open_or_close e \<and> cer_ChannelId e = channelId) (fd_ChannelEvents db)"

definition flow_row :: "ForwardsDb \<Rightarrow> FlowColumns \<Rightarrow> channelFlowData" where
  "flow_row db f =
     (let channel = Option.bind (fc_ChannelId f)
            (\<lambda>i. if has_events db i then find (\<lambda>c. ch_ChannelID c = i) (map snd (fd_Channels db)) else None);
          announcement = Option.bind channel (\<lambda>c. latest_announcement db (ch_SecondNodeId c));
          i = coalesce (fc_In f) zero_sum; out = coalesce (fc_Out f) zero_sum
      in \<lparr>cd_Alias = map_option neg_Alias announcement,
          cd_FundingTransactionHash = coalesce (map_option ch_FundingTransactionHash channel) [],
          cd_FundingOutputIndex = coalesce (map_option ch_FundingOutputIndex channel) 0,
          cd_PubKey = Option.bind announcement (\<lambda>a. node_key db (neg_EventNodeId a)),
          cd_LNDShortChannelId = map_option format_int (fc_ChannelId f),
          cd_AmountOut = fs_Amount i, cd_AmountIn = fs_Amount out,
          cd_RevenueOut = fs_Revenue i, cd_RevenueIn = fs_Revenue out,
          cd_CountOut = fs_Count i, cd_CountIn = fs_Count out\<rparr>)"

definition scan_flow_row :: "channelFlowData \<Rightarrow> channelFlowData result" where
  "scan_flow_row r =
     (if list_all (\<lambda>n. 0 \<le> n \<and> n < 2 ^ 64)
           [cd_AmountOut r, cd_RevenueOut r, cd_CountOut r, cd_AmountIn r, cd_RevenueIn r, cd_CountIn r]
      then Ok r else Fails ''value out of range'')"

definition getFlow ::
    "ForwardsDb \<Rightarrow> channel_orders \<Rightarrow> ChannelState \<Rightarrow> string list \<Rightarrow> time \<Rightarrow> time \<Rightarrow> channelFlowData list result option" where
  "getFlow db ords channels ss fromTime toTime =
     (case requested_channels ords channels ss of
        None \<Rightarrow> None
      | Some (Inl e) \<Rightarrow> Some (Inl e)
      | Some (Inr (getAll, ids)) \<Rightarrow> Some
          (case fd_Query db of
             Some e \<Rightarrow> Inl (wrapped ''Error running flow query'' e)
           | None \<Rightarrow>
               (case collect scan_flow_row (received (fd_Cut db)
                       (map (flow_row db) (flow_table getAll ids (filter (in_time fromTime toTime) (fd_Forwards db))))) of
                  Inl e \<Rightarrow> Inl (wrapped ''SQL row scan'' e)
                | Inr rows \<Rightarrow> Ok rows)))"

definition getFlowHandler ::
    "ForwardsDb \<Rightarrow> channel_orders \<Rightarrow> ChannelState \<Rightarrow> ForwardsQuery \<Rightarrow> (int \<times> channelFlowData ForwardsBody) option" where
  "getFlowHandler db ords channels q =
     (case parse_date (fq_From q) of
        Inl e \<Rightarrow> Some (sent_error (LogAndSendServerError e))
      | Inr from_time \<Rightarrow>
     (case parse_date (fq_To q) of
        Inl e \<Rightarrow> Some (sent_error (LogAndSendServerError e))
      | Inr to_time \<Rightarrow>
          map_option (\<lambda>r. case r of Inl e \<Rightarrow> sent_error (LogAndSendServerError e) | Inr rows \<Rightarrow> (200, ForwardsRows rows))
            (getFlow db ords channels (split_on (CHR '','') (fq_ChanIds q)) from_time to_time)))"

section \<open>The joins compute sums\<close>

text \<open>The forwards that leave or enter by a channel.\<close>

definition out_of :: "int \<Rightarrow> ForwardRow list \<Rightarrow> ForwardRow list" where
  "out_of i fs = of_key fw_OutgoingChannelId (Some i) fs"

definition into :: "int \<Rightarrow> ForwardRow list \<Rightarrow> ForwardRow list" where
  "into i fs = of_key fw_IncomingChannelId (Some i) fs"

lemma forward_sum_none: "forward_sum msat [] = zero_sum"
  by (simp add: forward_sum_def sat_sum_def zero_sum_def)

lemma joined_sums:
  "filter (\<lambda>lr. join_key lr = Some i) (full_join same_key (grouped_sums fw_OutgoingChannelId m fs) (grouped_sums fw_IncomingChannelId n gs)) =
     (if out_of i fs = [] \<and> into i gs = [] then []
      else [(if out_of i fs = [] then None else Some (Some i, forward_sum m (out_of i fs)),
             if into i gs = [] then None else Some (Some i, forward_sum n (into i gs)))])"
  unfolding full_join_key [OF grouped_sums_distinct grouped_sums_distinct] map_of_grouped_sums out_of_def into_def by auto

lemma channel_flow_join:
  assumes "i \<noteq> 0"
  shows "filter (\<lambda>f. cf_ChannelId f = i) (channel_flows fs) =
    (if out_of i fs = [] \<and> into i fs = [] then []
     else [\<lparr>cf_ChannelId = i, cf_Out = forward_sum fw_AmtOutMsat (out_of i fs),
            cf_In = forward_sum fw_AmtInMsat (into i fs)\<rparr>])"
proof -
  have key: "cf_ChannelId (channel_flow oi) = i \<longleftrightarrow> join_key oi = Some i" for oi
    using assms by (cases "join_key oi") (auto simp: channel_flow_def)
  show ?thesis
    unfolding channel_flows_def filter_map comp_def key joined_sums
    by (simp add: channel_flow_def forward_sum_none join_key_def)
qed

lemma collect_rows: "collect f xs = Ok ys \<Longrightarrow> list_all2 (\<lambda>x y. f x = Ok y) xs ys"
  by (induction xs arbitrary: ys) (auto split: sum.splits)

lemma scanned_rows: "collect scan_forwards_row rows = Ok rs \<Longrightarrow> rs = rows"
  by (induction rows arbitrary: rs) (auto simp: scan_forwards_row_def split: sum.splits if_splits)

text \<open>The sums a row shows.\<close>

definition shows_sums :: "ForwardRow list \<Rightarrow> Channel \<Rightarrow> forwardsTableRow \<Rightarrow> bool" where
  "shows_sums fs c r \<longleftrightarrow>
     (let i = ch_ChannelID c
      in fr_ChannelID r = i \<and>
         fr_AmountOut r = (\<Sum>f\<leftarrow>out_of i fs. uint (fw_AmtOutMsat f)) div 1000 \<and>
         fr_AmountIn r = (\<Sum>f\<leftarrow>into i fs. uint (fw_AmtInMsat f)) div 1000 \<and>
         fr_AmountTotal r = fr_AmountIn r + fr_AmountOut r \<and>
         fr_RevenueOut r = (\<Sum>f\<leftarrow>out_of i fs. uint (fw_FeeMsat f)) div 1000 \<and>
         fr_RevenueIn r = (\<Sum>f\<leftarrow>into i fs. uint (fw_FeeMsat f)) div 1000 \<and>
         fr_CountOut r = int (length (out_of i fs)) \<and> fr_CountIn r = int (length (into i fs)))"

definition flow_of :: "ChannelFlow list \<Rightarrow> Channel \<Rightarrow> ChannelFlow option" where
  "flow_of flows c = partner (\<lambda>c f. cf_ChannelId f = ch_ChannelID c) flows c"

lemma flow_of_channel:
  assumes "ch_ChannelID c \<noteq> 0"
  shows "single_partner (\<lambda>c f. cf_ChannelId f = ch_ChannelID c) (channel_flows fs) c"
    and "(case flow_of (channel_flows fs) c of None \<Rightarrow> zero_sum | Some f \<Rightarrow> cf_Out f) =
           forward_sum fw_AmtOutMsat (out_of (ch_ChannelID c) fs)"
    and "(case flow_of (channel_flows fs) c of None \<Rightarrow> zero_sum | Some f \<Rightarrow> cf_In f) =
           forward_sum fw_AmtInMsat (into (ch_ChannelID c) fs)"
  by (simp_all add: single_partner_def flow_of_def partner_def find_filter channel_flow_join [OF assms] forward_sum_none)

lemma row_shows_sums:
  assumes "forwards_row db (c, flow_of (channel_flows fs) c) = Ok r" and "ch_ChannelID c \<noteq> 0"
  shows "shows_sums fs c r"
  using assms(1)
  by (auto simp: forwards_row_def Let_def flow_of_channel [OF assms(2)] shows_sums_def forward_sum_def sat_sum_def split: sum.splits)

lemma until_failure_rows:
  "list_all2 (\<lambda>x y. f x = Ok y) (take (length (until_failure f xs)) xs) (until_failure f xs)"
  by (induction xs) (auto split: sum.splits)

lemma until_failure_all: "(\<And>x. x \<in> set xs \<Longrightarrow> \<exists>y. f x = Ok y) \<Longrightarrow> length (until_failure f xs) = length xs"
  by (induction xs) (fastforce split: sum.splits)+

lemma sent_rows_until: "sent_rows f xs = Ok ys \<Longrightarrow> ys = until_failure f xs"
  by (auto simp: sent_rows_def split: list.splits sum.splits)

lemma received_rows:
  "received stop rows = take (length (received stop rows)) rows" "received None rows = rows"
  by (auto simp: received_def min_def split: option.splits)

lemma forwards_row_computed:
  assumes "event_capacity db (ch_ChannelID c) \<noteq> Some 0"
  shows "\<exists>r. forwards_row db (c, flow) = Ok r"
proof -
  have "\<exists>t. turnover a (event_capacity db (ch_ChannelID c)) = Ok t" for a
    using assms by (auto simp: turnover_def split: option.splits)
  then obtain t1 t2 t3 where "turnover (map_option (fs_Amount \<circ> cf_Out) flow) (event_capacity db (ch_ChannelID c)) = Ok t1"
    "turnover (map_option (fs_Amount \<circ> cf_In) flow) (event_capacity db (ch_ChannelID c)) = Ok t2"
    "turnover (map_option (\<lambda>f. fs_Amount (cf_In f) + fs_Amount (cf_Out f)) flow) (event_capacity db (ch_ChannelID c)) = Ok t3"
    by metis
  then show ?thesis unfolding forwards_row_def Let_def fst_conv snd_conv by simp
qed

text \<open>
  C36: When the request for the report of forwards is answered, each row shows a different stored channel
  of the nodes, and the amounts, revenues and counts of that channel are the sums over the forwards in
  the time window that leave and enter by it, in whole satoshi, or 0 when there are none.  Every such
  channel has its row when none has a capacity of 0 and the connection to the database holds; otherwise
  rows may be missing without an error.
\<close>

theorem forwards_report_sums:
  assumes "getForwardsTableData db tz nodeIds fromTime toTime = Ok rows"
    and "list_all (\<lambda>c. ch_ChannelID c \<noteq> 0) (map snd (fd_Channels db))"
    and "\<And>xs. mset (fd_Arrange db xs) = mset xs"
  shows "\<exists>cs. mset cs = mset (filter (own_channel nodeIds) (map snd (fd_Channels db))) \<and>
    list_all2 (shows_sums (filter (in_zone (fd_Zone db tz) fromTime toTime) (fd_Forwards db))) (take (length rows) cs) rows \<and>
    (fd_Cut db = None \<and> (\<forall>c \<in> set cs. event_capacity db (ch_ChannelID c) \<noteq> Some 0) \<longrightarrow> length rows = length cs)"
proof -
  let ?fs = "filter (in_zone (fd_Zone db tz) fromTime toTime) (fd_Forwards db)"
  let ?cs = "map snd (fd_Channels db)" and ?on = "\<lambda>c f. cf_ChannelId f = ch_ChannelID c"
  let ?pair = "\<lambda>c. (c, flow_of (channel_flows ?fs) c)"
  have "list_all (single_partner ?on (channel_flows ?fs)) ?cs"
    using assms(2) flow_of_channel(1) by (auto simp: list_all_iff)
  then have "left_join ?on ?cs (channel_flows ?fs) = map ?pair ?cs"
    unfolding flow_of_def by (rule left_join_single)
  then have joined: "filter (\<lambda>cf. own_channel nodeIds (fst cf)) (left_join ?on ?cs (channel_flows ?fs)) =
      map ?pair (filter (own_channel nodeIds) ?cs)"
    by (simp only: filter_map comp_def fst_conv)
  define js where "js = fd_Arrange db (map ?pair (filter (own_channel nodeIds) ?cs))"
  have js: "mset js = mset (map ?pair (filter (own_channel nodeIds) ?cs))" unfolding js_def by (rule assms(3))
  have pairs: "js = map ?pair (map fst js)"
    using mset_eq_setD [OF js] by (simp add: map_idI [symmetric]) (rule map_idI [symmetric], auto)
  have rows: "rows = received (fd_Cut db) (until_failure (forwards_row db) js)"
    using assms(1) sent_rows_until scanned_rows
    by (fastforce simp: getForwardsTableData_def Let_def joined js_def split: option.splits sum.splits)
  show ?thesis
  proof (intro exI [of _ "map fst js"] conjI impI)
    have "mset (map fst js) = image_mset fst (mset js)" by simp
    then show cs: "mset (map fst js) = mset (filter (own_channel nodeIds) ?cs)" unfolding js by (simp add: multiset.map_comp comp_def)
    let ?all = "until_failure (forwards_row db) js"
    have "list_all2 (\<lambda>x r. forwards_row db x = Ok r) (take (length rows) (take (length ?all) js)) (take (length rows) ?all)"
      by (rule list_all2_takeI [OF until_failure_rows])
    moreover have "take (length rows) ?all = rows" "length rows \<le> length ?all"
      using received_rows(1) [of "fd_Cut db" ?all] rows by (simp, metis length_take min.cobounded1 rows)
    ultimately have "list_all2 (\<lambda>x r. forwards_row db x = Ok r) (take (length rows) js) rows" by (simp add: min_absorb1)
    then have "list_all2 (\<lambda>c r. forwards_row db (?pair c) = Ok r) (take (length rows) (map fst js)) rows"
      by (subst (asm) pairs) (simp only: take_map list_all2_map1)
    moreover have ids: "ch_ChannelID c \<noteq> 0" if "c \<in> set (take (length rows) (map fst js))" for c
      using in_set_takeD [OF that] mset_eq_setD [OF cs] assms(2) by (auto simp: list_all_iff)
    ultimately show "list_all2 (shows_sums ?fs) (take (length rows) (map fst js)) rows"
      by (elim list.rel_mono_strong) (use ids row_shows_sums in blast)
    assume ok: "fd_Cut db = None \<and> (\<forall>c \<in> set (map fst js). event_capacity db (ch_ChannelID c) \<noteq> Some 0)"
    have "\<exists>r. forwards_row db x = Ok r" if "x \<in> set js" for x
      using that ok forwards_row_computed [of db "fst x" "snd x"] by auto
    moreover have "rows = ?all" using rows ok by (simp add: received_rows(2))
    ultimately show "length rows = length (map fst js)" by (simp add: until_failure_all)
  qed
qed

text \<open>
  For the channels a request names, the flow, when no failure cuts it, has exactly one row for each channel
  through which a forward in the time window entered and left by a named one, or the other way round.  What it shows as
  the amount out of a channel are the forwards that came in by it and left by a named channel, and as
  the amount in those that came in by a named channel and left by it; the field for the short channel
  id holds the number of the channel in the database.
\<close>

definition shows_flow :: "bool \<Rightarrow> int list \<Rightarrow> ForwardRow list \<Rightarrow> int \<Rightarrow> channelFlowData \<Rightarrow> bool" where
  "shows_flow getAll ids fs i r \<longleftrightarrow>
     (let came = into i (filter (\<lambda>f. wanted_channel getAll ids (fw_OutgoingChannelId f)) fs);
          went = out_of i (filter (\<lambda>f. wanted_channel getAll ids (fw_IncomingChannelId f)) fs)
      in (came \<noteq> [] \<or> went \<noteq> []) \<and> cd_LNDShortChannelId r = Some (format_int i) \<and>
         cd_AmountOut r = sat_sum fw_AmtOutMsat came \<and> cd_AmountIn r = sat_sum fw_AmtOutMsat went \<and>
         cd_RevenueOut r = sat_sum fw_FeeMsat came \<and> cd_RevenueIn r = sat_sum fw_FeeMsat went \<and>
         cd_CountOut r = int (length came) \<and> cd_CountIn r = int (length went))"

lemma flow_table_channel:
  "filter (\<lambda>f. fc_ChannelId f = Some i) (flow_table getAll ids fs) =
     (let came = into i (filter (\<lambda>f. wanted_channel getAll ids (fw_OutgoingChannelId f)) fs);
          went = out_of i (filter (\<lambda>f. wanted_channel getAll ids (fw_IncomingChannelId f)) fs)
      in if came = [] \<and> went = [] then []
         else [\<lparr>fc_ChannelId = Some i, fc_Out = (if went = [] then None else Some (forward_sum fw_AmtOutMsat went)),
                fc_In = (if came = [] then None else Some (forward_sum fw_AmtOutMsat came))\<rparr>])"
  unfolding flow_table_def filter_map comp_def flow_columns_def FlowColumns.select_convs joined_sums
  by (simp add: Let_def join_key_def)

lemma scanned_flow: "collect scan_flow_row rows = Ok rs \<Longrightarrow> rs = rows"
  by (induction rows arbitrary: rs) (auto simp: scan_flow_row_def split: sum.splits if_splits)

lemma flow_sums:
  assumes "getFlow db ords channels ss fromTime toTime = Some (Ok rows)"
    and "requested_channels ords channels ss = Some (Ok (getAll, ids))"
    and "fs = filter (in_time fromTime toTime) (fd_Forwards db)"
  shows "rows = received (fd_Cut db) (map (flow_row db) (flow_table getAll ids fs)) \<and>
    (f \<in> set (flow_table getAll ids fs) \<longrightarrow> fc_ChannelId f = Some i \<longrightarrow> shows_flow getAll ids fs i (flow_row db f))"
proof
  show "rows = received (fd_Cut db) (map (flow_row db) (flow_table getAll ids fs))"
    using assms scanned_flow by (auto simp: getFlow_def split: option.splits sum.splits)
  show "f \<in> set (flow_table getAll ids fs) \<longrightarrow> fc_ChannelId f = Some i \<longrightarrow> shows_flow getAll ids fs i (flow_row db f)"
  proof (intro impI)
    assume "f \<in> set (flow_table getAll ids fs)" "fc_ChannelId f = Some i"
    then have "f \<in> set (filter (\<lambda>f. fc_ChannelId f = Some i) (flow_table getAll ids fs))" by simp
    then show "shows_flow getAll ids fs i (flow_row db f)"
      unfolding flow_table_channel
      by (auto simp: Let_def shows_flow_def flow_row_def zero_sum_def forward_sum_def sat_sum_def split: if_splits)
  qed
qed

section \<open>Examples\<close>

definition sample_forward :: "time \<Rightarrow> int \<Rightarrow> int \<Rightarrow> ForwardRow" where
  "sample_forward t i out = \<lparr>fw_Time = t, fw_TimeNs = 0, fw_FeeMsat = 1000, fw_AmtInMsat = 51000, fw_AmtOutMsat = 50000,
     fw_IncomingChannelId = Some i, fw_OutgoingChannelId = Some out, fw_NodeId = 1\<rparr>"

definition sample_db :: ForwardsDb where
  "sample_db = \<lparr>fd_Forwards = [sample_forward 5 1 2, sample_forward 6 2 1], fd_Channels = [(1, zeroChannel\<lparr>ch_ChannelID := 1, ch_FirstNodeId := 7\<rparr>)],
     fd_ChannelEvents = [], fd_NodeEvents = [], fd_Nodes = [], fd_Zone = (\<lambda>_ t. t), fd_Capacity = (\<lambda>_. None), fd_Arrange = (\<lambda>rows. rows),
     fd_Query = None, fd_Cut = None\<rparr>"

lemma parse_date_examples:
  "parse_date ''1970-01-01'' = Ok 0" "parse_date ''2024-02-29'' = Ok (19782 * day_ns)" "isl (parse_date ''2023-02-29'')"
  by (simp_all add: parse_date_def is_digit_def digit_val_def unix_days_def days_before_year_def month_days_def leap_year_def)

theorem forwards_report_sums_witness:
  "\<exists>rows cs. getForwardsTableData sample_db ''UTC'' [7] 0 10 = Ok rows \<and>
     mset cs = mset (filter (own_channel [7]) (map snd (fd_Channels sample_db))) \<and>
     list_all2 (shows_sums (filter (in_zone (fd_Zone sample_db ''UTC'') 0 10) (fd_Forwards sample_db))) (take (length rows) cs) rows"
proof -
  have "\<not> isl (getForwardsTableData sample_db ''UTC'' [7] 0 10)" by code_simp
  then obtain rows where "getForwardsTableData sample_db ''UTC'' [7] 0 10 = Ok rows"
    by (cases "getForwardsTableData sample_db ''UTC'' [7] 0 10") simp_all
  moreover have "list_all (\<lambda>c. ch_ChannelID c \<noteq> 0) (map snd (fd_Channels sample_db))"
    "\<And>xs. mset (fd_Arrange sample_db xs) = mset xs" by (simp_all add: sample_db_def zeroChannel_def)
  ultimately show ?thesis using forwards_report_sums by blast
qed

text \<open>A second channel with a capacity of 0 is left out of the report without an error, and all that follow.\<close>

definition zero_capacity_db :: ForwardsDb where
  "zero_capacity_db = sample_db\<lparr>
     fd_Channels := map (\<lambda>i. (i, zeroChannel\<lparr>ch_ChannelID := i, ch_FirstNodeId := 7\<rparr>)) [1, 2, 3],
     fd_ChannelEvents := [\<lparr>cer_Time = 0, cer_Type = OPEN_CHANNEL, cer_ChannelId = 2, cer_Imported = False, cer_Event = [], cer_NodeId = 7\<rparr>],
     fd_Capacity := (\<lambda>_. Some 0)\<rparr>"

lemma zero_capacity_cuts_report:
  "map_sum id (map fr_ChannelID) (getForwardsTableData zero_capacity_db ''UTC'' [7] 0 10) = Ok [1]"
  by code_simp

end
