(* ===== verification/ChannelHistory.thy ===== *)
theory ChannelHistory
  imports ForwardReports PaymentReport LndTransactions
begin

text \<open>
  \<open>src/internal/channel_history/\<close>: for some channels and a range of days, the sums of their forwards in
  total and by day, what rebalancing and on-chain transactions cost, and the changes of their routing
  policies.  The queries are written as the joins, groups and windows they are made of, over the rows
  the subscriptions store.  The theorems say which sums are shown, that the totals leave out channels
  used in one direction only, how the split cost of rebalancing is bounded, and that the changes mix the
  policies of the two ends of a channel.
\<close>

section \<open>Totals\<close>

record HistorySums =
  hs_AmountIn :: int
  hs_AmountOut :: int
  hs_AmountTotal :: int
  hs_RevenueIn :: int
  hs_RevenueOut :: int
  hs_RevenueTotal :: int
  hs_CountIn :: int
  hs_CountOut :: int
  hs_CountTotal :: int

text \<open>
  \<open>coalesce(i.x, 0)\<close> and \<open>coalesce(o.x, 0)\<close> of a joined row, and \<open>coalesce(i.x + o.x, 0)\<close>, which is 0
  unless both are there.
\<close>

definition part_in :: "(ForwardSum \<Rightarrow> int) \<Rightarrow> ('k \<times> ForwardSum) option \<times> ('k \<times> ForwardSum) option \<Rightarrow> int" where
  "part_in x oi = coalesce (map_option (x \<circ> snd) (snd oi)) 0"

definition part_out :: "(ForwardSum \<Rightarrow> int) \<Rightarrow> ('k \<times> ForwardSum) option \<times> ('k \<times> ForwardSum) option \<Rightarrow> int" where
  "part_out x oi = coalesce (map_option (x \<circ> snd) (fst oi)) 0"

definition part_both :: "(ForwardSum \<Rightarrow> int) \<Rightarrow> ('k \<times> ForwardSum) option \<times> ('k \<times> ForwardSum) option \<Rightarrow> int" where
  "part_both x oi = coalesce (lift2 (+) (map_option (x \<circ> snd) (snd oi)) (map_option (x \<circ> snd) (fst oi))) 0"

definition total_join ::
    "bool \<Rightarrow> int list \<Rightarrow> ForwardRow list \<Rightarrow> ((int option \<times> ForwardSum) option \<times> (int option \<times> ForwardSum) option) list" where
  "total_join getAll ids fs =
     full_join same_key
       (grouped_sums fw_OutgoingChannelId fw_AmtOutMsat (filter (\<lambda>f. wanted_channel getAll ids (fw_OutgoingChannelId f)) fs))
       (grouped_sums fw_IncomingChannelId fw_AmtOutMsat (filter (\<lambda>f. wanted_channel getAll ids (fw_IncomingChannelId f)) fs))"

text \<open>The one row of the query, whose sums are null when nothing is joined.\<close>

definition total_sums :: "bool \<Rightarrow> int list \<Rightarrow> ForwardRow list \<Rightarrow> HistorySums option" where
  "total_sums getAll ids fs =
     (let j = total_join getAll ids fs; total_of = (\<lambda>p. \<Sum>oi\<leftarrow>j. p oi)
      in if j = [] then None
         else Some \<lparr>hs_AmountIn = total_of (part_in fs_Amount), hs_AmountOut = total_of (part_out fs_Amount),
                    hs_AmountTotal = total_of (part_both fs_Amount),
                    hs_RevenueIn = total_of (part_in fs_Revenue), hs_RevenueOut = total_of (part_out fs_Revenue),
                    hs_RevenueTotal = total_of (part_both fs_Revenue),
                    hs_CountIn = total_of (part_in fs_Count), hs_CountOut = total_of (part_out fs_Count),
                    hs_CountTotal = total_of (part_both fs_Count)\<rparr>)"

text \<open>The variables are pointers to unsigned numbers of 64 bits.\<close>

definition scan_sums :: "HistorySums \<Rightarrow> HistorySums result" where
  "scan_sums h =
     (if list_all (\<lambda>n. 0 \<le> n \<and> n < 2 ^ 64)
           [hs_AmountIn h, hs_AmountOut h, hs_AmountTotal h, hs_RevenueIn h, hs_RevenueOut h, hs_RevenueTotal h,
            hs_CountIn h, hs_CountOut h, hs_CountTotal h]
      then Ok h else Fails ''value out of range'')"

definition getChannelTotal ::
    "go_error option \<Rightarrow> ForwardRow list \<Rightarrow> bool \<Rightarrow> int list \<Rightarrow> time \<Rightarrow> time \<Rightarrow> HistorySums option result" where
  "getChannelTotal query forwards getAll ids from_time to_time =
     (case query of
        Some e \<Rightarrow> Inl (wrapped ''Getting channel total'' e)
      | None \<Rightarrow>
          (case total_sums getAll ids (filter (in_time from_time to_time) forwards) of
             None \<Rightarrow> Ok None
           | Some h \<Rightarrow> (case scan_sums h of Inl e \<Rightarrow> Inl (wrapped ''SQL row scan'' e) | Inr r \<Rightarrow> Ok (Some r))))"

section \<open>Days\<close>

text \<open>
  \<open>time_bucket_gapfill\<close>: the day of an instant in the preferred time zone, and for each channel that
  occurs a row without sums for each missing day from the first to before the last.
\<close>

definition day_of :: "time \<Rightarrow> int" where
  "day_of t = t div day_ns"

definition gap_days :: "time \<Rightarrow> time \<Rightarrow> int list" where
  "gap_days from_time to_time = filter (\<lambda>d. d * day_ns < to_time) [day_of from_time .. day_of to_time]"

text \<open>A row is keyed by its channel and day; without a channel it has no partner in the join.\<close>

record DayRow =
  dr_Day :: int
  dr_Channel :: "int option"
  dr_Sum :: "ForwardSum option"

definition day_rows ::
    "(time \<Rightarrow> int) \<Rightarrow> int list \<Rightarrow> (ForwardRow \<Rightarrow> int option) \<Rightarrow> (ForwardRow \<Rightarrow> uint64) \<Rightarrow> ForwardRow list \<Rightarrow> DayRow list" where
  "day_rows day gaps key msat fs =
     (let found = grouped_sums (\<lambda>f. (day (fw_Time f), key f)) msat fs
      in map (\<lambda>g. \<lparr>dr_Day = fst (fst g), dr_Channel = snd (fst g), dr_Sum = Some (snd g)\<rparr>) found @
         concat (map (\<lambda>c. map (\<lambda>d. \<lparr>dr_Day = d, dr_Channel = c, dr_Sum = None\<rparr>)
                              (filter (\<lambda>d. (d, c) \<notin> fst ` set found) gaps)) (remdups (map key fs))))"

definition keyed :: "DayRow \<Rightarrow> (int \<times> int) option \<times> DayRow" where
  "keyed r = (map_option (Pair (dr_Day r)) (dr_Channel r), r)"

definition day_join ::
    "DayRow list \<Rightarrow> DayRow list \<Rightarrow> (((int \<times> int) option \<times> DayRow) option \<times> ((int \<times> int) option \<times> DayRow) option) list" where
  "day_join out_rows in_rows = full_join same_key (map keyed out_rows) (map keyed in_rows)"

definition day_part :: "(ForwardSum \<Rightarrow> int) \<Rightarrow> (int \<times> int) option \<times> DayRow \<Rightarrow> int" where
  "day_part x r = coalesce (map_option x (dr_Sum (snd r))) 0"

definition joined_day :: "((int \<times> int) option \<times> DayRow) option \<times> ((int \<times> int) option \<times> DayRow) option \<Rightarrow> int" where
  "joined_day oi =
     (case snd oi of Some r \<Rightarrow> dr_Day (snd r) | None \<Rightarrow> (case fst oi of Some r \<Rightarrow> dr_Day (snd r) | None \<Rightarrow> 0))"

definition sums_of_day ::
    "(((int \<times> int) option \<times> DayRow) option \<times> ((int \<times> int) option \<times> DayRow) option) list \<Rightarrow> HistorySums" where
  "sums_of_day j =
     (let s_in = (\<lambda>x. \<Sum>oi\<leftarrow>j. right_part (day_part x) oi); s_out = (\<lambda>x. \<Sum>oi\<leftarrow>j. left_part (day_part x) oi);
          s_both = (\<lambda>x. \<Sum>oi\<leftarrow>j. right_part (day_part x) oi + left_part (day_part x) oi)
      in \<lparr>hs_AmountIn = s_in fs_Amount, hs_AmountOut = s_out fs_Amount, hs_AmountTotal = s_both fs_Amount,
          hs_RevenueIn = s_in fs_Revenue, hs_RevenueOut = s_out fs_Revenue, hs_RevenueTotal = s_both fs_Revenue,
          hs_CountIn = s_in fs_Count, hs_CountOut = s_out fs_Count, hs_CountTotal = s_both fs_Count\<rparr>)"

record ChannelHistoryRecord =
  hr_Date :: int
  hr_Sums :: HistorySums

definition in_days :: "(time \<Rightarrow> time) \<Rightarrow> time \<Rightarrow> time \<Rightarrow> ForwardRow \<Rightarrow> bool" where
  "in_days zone from_time to_time f \<longleftrightarrow> from_time \<le> zone (fw_Time f) \<and> zone (fw_Time f) \<le> to_time"

definition history_join ::
    "(time \<Rightarrow> time) \<Rightarrow> bool \<Rightarrow> int list \<Rightarrow> time \<Rightarrow> time \<Rightarrow> ForwardRow list \<Rightarrow>
     (((int \<times> int) option \<times> DayRow) option \<times> ((int \<times> int) option \<times> DayRow) option) list" where
  "history_join zone getAll ids from_time to_time forwards =
     (let fs = filter (in_days zone from_time to_time) forwards; gaps = gap_days from_time to_time;
          day = (\<lambda>t. day_of (zone t))
      in day_join (day_rows day gaps fw_OutgoingChannelId fw_AmtOutMsat
                     (filter (\<lambda>f. wanted_channel getAll ids (fw_OutgoingChannelId f)) fs))
                  (day_rows day gaps fw_IncomingChannelId fw_AmtInMsat
                     (filter (\<lambda>f. wanted_channel getAll ids (fw_IncomingChannelId f)) fs)))"

definition history_rows ::
    "(time \<Rightarrow> time) \<Rightarrow> bool \<Rightarrow> int list \<Rightarrow> time \<Rightarrow> time \<Rightarrow> ForwardRow list \<Rightarrow> ChannelHistoryRecord list" where
  "history_rows zone getAll ids from_time to_time forwards =
     (let j = history_join zone getAll ids from_time to_time forwards
      in map (\<lambda>d. \<lparr>hr_Date = d, hr_Sums = sums_of_day (filter (\<lambda>oi. joined_day oi = d) j)\<rparr>)
           (sort (remdups (map joined_day j))))"

definition scan_history_row :: "ChannelHistoryRecord \<Rightarrow> ChannelHistoryRecord result" where
  "scan_history_row r = (case scan_sums (hr_Sums r) of Inl e \<Rightarrow> Inl e | Inr h \<Rightarrow> Ok r)"

text \<open>A failure while the days are read, after the first, ends the loop without an error: \<open>stop\<close>.\<close>

definition getChannelHistory ::
    "go_error option \<Rightarrow> nat option \<Rightarrow> (time \<Rightarrow> time) \<Rightarrow> ForwardRow list \<Rightarrow> bool \<Rightarrow> int list \<Rightarrow> time \<Rightarrow> time \<Rightarrow>
     ChannelHistoryRecord list result" where
  "getChannelHistory query stop zone forwards getAll ids from_time to_time =
     (case query of
        Some e \<Rightarrow> Inl (wrapped ''Getting channel history'' e)
      | None \<Rightarrow>
          (case collect scan_history_row (received stop (history_rows zone getAll ids from_time to_time forwards)) of
             Inl e \<Rightarrow> Inl (wrapped ''SQL row scan'' e)
           | Inr r \<Rightarrow> Ok r))"

section \<open>Which sums are shown\<close>

text \<open>The sums over channels of what leaves or enters by them.\<close>

definition channel_sums :: "(ForwardRow \<Rightarrow> int option) \<Rightarrow> (int option \<Rightarrow> bool) \<Rightarrow> (ForwardRow list \<Rightarrow> int) \<Rightarrow> ForwardRow list \<Rightarrow> int" where
  "channel_sums key wanted x fs = (\<Sum>c \<in> {c \<in> key ` set fs. wanted c}. x (of_key key c fs))"

lemma grouped_sums_total:
  "(\<Sum>g\<leftarrow>grouped_sums key msat fs. h (fst g) (snd g)) =
     (\<Sum>k \<in> key ` set fs. (h k (forward_sum msat (of_key key k fs)) :: int))"
proof -
  have "(\<Sum>g\<leftarrow>grouped_sums key msat fs. h (fst g) (snd g)) =
      (\<Sum>k\<leftarrow>remdups (map key fs). h k (forward_sum msat (of_key key k fs)))"
    by (simp add: grouped_sums_def groups_def comp_def of_key_def)
  also have "\<dots> = (\<Sum>k \<in> set (remdups (map key fs)). h k (forward_sum msat (of_key key k fs)))"
    by (rule sum_list_distinct_conv_sum_set) simp
  finally show ?thesis by simp
qed

lemma wanted_groups:
  "(\<Sum>g\<leftarrow>grouped_sums key msat (filter (\<lambda>f. w (key f)) fs). h (snd g)) =
     channel_sums key w (\<lambda>gs. h (forward_sum msat gs)) fs"
proof -
  have "key ` set (filter (\<lambda>f. w (key f)) fs) = {c \<in> key ` set fs. w c}" by auto
  moreover have "of_key key c (filter (\<lambda>f. w (key f)) fs) = of_key key c fs" if "w c" for c
    using that by (auto simp: of_key_def intro: filter_cong)
  ultimately show ?thesis unfolding grouped_sums_total [where h = "\<lambda>k. h"] channel_sums_def by (auto intro: sum.cong)
qed

lemma total_parts:
  "(\<Sum>oi\<leftarrow>total_join getAll ids fs. part_out x oi) =
     channel_sums fw_OutgoingChannelId (wanted_channel getAll ids) (\<lambda>gs. x (forward_sum fw_AmtOutMsat gs)) fs"
  "(\<Sum>oi\<leftarrow>total_join getAll ids fs. part_in x oi) =
     channel_sums fw_IncomingChannelId (wanted_channel getAll ids) (\<lambda>gs. x (forward_sum fw_AmtOutMsat gs)) fs"
proof -
  have out: "part_out x = left_part (\<lambda>g. x (snd g))" and inn: "part_in x = right_part (\<lambda>g. x (snd g))"
    by (auto simp: fun_eq_iff part_out_def part_in_def left_part_def right_part_def split: option.splits)
  note found = sums_of_full_join [OF distinct_unique_keys [OF grouped_sums_distinct] distinct_unique_keys [OF grouped_sums_distinct]]
  show "(\<Sum>oi\<leftarrow>total_join getAll ids fs. part_out x oi) =
     channel_sums fw_OutgoingChannelId (wanted_channel getAll ids) (\<lambda>gs. x (forward_sum fw_AmtOutMsat gs)) fs"
    unfolding total_join_def out found by (rule wanted_groups)
  show "(\<Sum>oi\<leftarrow>total_join getAll ids fs. part_in x oi) =
     channel_sums fw_IncomingChannelId (wanted_channel getAll ids) (\<lambda>gs. x (forward_sum fw_AmtOutMsat gs)) fs"
    unfolding total_join_def inn found by (rule wanted_groups)
qed

text \<open>
  The totals are, for the amounts, fees and numbers of what leaves and enters, the sums over the
  requested channels of the forwards in the time window, in whole satoshi for each channel; also for
  what enters the outgoing amount is summed.
\<close>

lemma channel_totals:
  assumes "getChannelTotal query forwards getAll ids from_time to_time = Ok (Some h)"
  shows "let fs = filter (in_time from_time to_time) forwards;
             going_out = channel_sums fw_OutgoingChannelId (wanted_channel getAll ids);
             going_in = channel_sums fw_IncomingChannelId (wanted_channel getAll ids)
    in hs_AmountOut h = going_out (sat_sum fw_AmtOutMsat) fs \<and> hs_AmountIn h = going_in (sat_sum fw_AmtOutMsat) fs \<and>
       hs_RevenueOut h = going_out (sat_sum fw_FeeMsat) fs \<and> hs_RevenueIn h = going_in (sat_sum fw_FeeMsat) fs \<and>
       hs_CountOut h = going_out (\<lambda>gs. int (length gs)) fs \<and> hs_CountIn h = going_in (\<lambda>gs. int (length gs)) fs"
proof -
  have "total_sums getAll ids (filter (in_time from_time to_time) forwards) = Some h"
    using assms by (auto simp: getChannelTotal_def scan_sums_def split: option.splits sum.splits if_splits)
  then show ?thesis
    by (auto simp: total_sums_def Let_def total_parts forward_sum_def split: if_splits)
qed

text \<open>A channel used in one direction only is left out of the sums of both directions.\<close>

lemma one_way_forward:
  assumes "fw_IncomingChannelId f = Some i" and "fw_OutgoingChannelId f = Some j" and "i \<noteq> j"
  shows "total_sums True ids [f] = Some
    \<lparr>hs_AmountIn = uint (fw_AmtOutMsat f) div 1000, hs_AmountOut = uint (fw_AmtOutMsat f) div 1000, hs_AmountTotal = 0,
     hs_RevenueIn = uint (fw_FeeMsat f) div 1000, hs_RevenueOut = uint (fw_FeeMsat f) div 1000, hs_RevenueTotal = 0,
     hs_CountIn = 1, hs_CountOut = 1, hs_CountTotal = 0\<rparr>"
  using assms
  by (simp add: total_sums_def total_join_def wanted_channel_def grouped_sums_def groups_def full_join_def left_join_Cons
      same_key_iff part_in_def part_out_def part_both_def forward_sum_def sat_sum_def Let_def)

section \<open>Which days are shown\<close>

definition day_key :: "DayRow \<Rightarrow> int \<times> int option" where
  "day_key r = (dr_Day r, dr_Channel r)"

lemma distinct_pairs:
  "distinct gaps \<Longrightarrow> distinct cs \<Longrightarrow> distinct (concat (map (\<lambda>c. map (\<lambda>d. (d, c)) (filter (P c) gaps)) cs))"
  by (induction cs) (auto simp: distinct_map inj_on_def)

lemma day_rows_distinct:
  assumes "distinct gaps"
  shows "distinct (map day_key (day_rows day gaps key msat fs))"
proof -
  let ?g = "grouped_sums (\<lambda>f. (day (fw_Time f), key f)) msat fs"
  have "map day_key (day_rows day gaps key msat fs) =
      map fst ?g @ concat (map (\<lambda>c. map (\<lambda>d. (d, c)) (filter (\<lambda>d. (d, c) \<notin> fst ` set ?g) gaps)) (remdups (map key fs)))"
    by (simp add: day_rows_def Let_def day_key_def map_concat comp_def split_beta)
  moreover have "distinct (map fst ?g)" by (rule grouped_sums_distinct)
  moreover have "distinct (concat (map (\<lambda>c. map (\<lambda>d. (d, c)) (filter (\<lambda>d. (d, c) \<notin> fst ` set ?g) gaps)) (remdups (map key fs))))"
    by (rule distinct_pairs [OF assms distinct_remdups])
  moreover have "set (map fst ?g) \<inter>
      set (concat (map (\<lambda>c. map (\<lambda>d. (d, c)) (filter (\<lambda>d. (d, c) \<notin> fst ` set ?g) gaps)) (remdups (map key fs)))) = {}"
    by auto
  ultimately show ?thesis by (simp only: distinct_append)
qed

lemma keyed_unique: "distinct (map day_key rows) \<Longrightarrow> unique_keys (map keyed rows)"
proof -
  assume d: "distinct (map day_key rows)"
  have "length (filter (\<lambda>r. fst (keyed r) = Some k) rows) \<le> 1" for k
  proof -
    have "fst (keyed r) = Some k \<longleftrightarrow> day_key r = (fst k, Some (snd k))" for r
      by (cases k) (auto simp: keyed_def day_key_def)
    moreover have "length (filter (\<lambda>r. day_key r = m) rows) \<le> 1" for m
      using d by (induction rows) (auto simp: filter_empty_conv rev_image_eqI)
    ultimately show ?thesis by simp
  qed
  then show ?thesis by (simp add: unique_keys_def filter_map comp_def)
qed

lemma keyed_row [simp]:
  "snd (keyed r) = r" "(k, r') = keyed r \<longleftrightarrow> k = fst (keyed r) \<and> r' = r"
  "day_part x (keyed r) = coalesce (map_option x (dr_Sum r)) 0"
  by (auto simp: keyed_def day_part_def)

lemma keyed_same: "same_key (keyed l) (keyed r) \<Longrightarrow> dr_Day l = dr_Day r"
  by (cases "dr_Channel l"; cases "dr_Channel r") (auto simp: same_key_iff keyed_def)

lemma fst_keyed_same: "same_key (fst (keyed l), l) (keyed r) \<Longrightarrow> dr_Day l = dr_Day r"
  by (rule keyed_same) (metis fst_conv same_key_iff)

lemma joined_same_day:
  assumes "oi \<in> set (day_join out_rows in_rows)"
  shows "(case fst oi of None \<Rightarrow> True | Some r \<Rightarrow> dr_Day (snd r) = joined_day oi) \<and>
         (case snd oi of None \<Rightarrow> True | Some r \<Rightarrow> dr_Day (snd r) = joined_day oi)"
  using assms
  by (auto simp: day_join_def full_join_def joined_day_def set_left_join split: option.splits dest!: keyed_same fst_keyed_same)

lemma day_part_sums:
  assumes "unique_keys (map keyed out_rows)" and "unique_keys (map keyed in_rows)"
  defines "j \<equiv> day_join out_rows in_rows"
  shows "(\<Sum>oi\<leftarrow>filter (\<lambda>oi. joined_day oi = d) j. left_part (day_part x) oi) =
           (\<Sum>r\<leftarrow>out_rows. if dr_Day r = d then coalesce (map_option x (dr_Sum r)) 0 else 0)"
    and "(\<Sum>oi\<leftarrow>filter (\<lambda>oi. joined_day oi = d) j. right_part (day_part x) oi) =
           (\<Sum>r\<leftarrow>in_rows. if dr_Day r = d then coalesce (map_option x (dr_Sum r)) 0 else 0)"
proof -
  let ?f = "\<lambda>r. if dr_Day (snd r) = d then day_part x r else 0"
  have filtered: "(\<Sum>oi\<leftarrow>filter P xs. f oi) = (\<Sum>oi\<leftarrow>xs. if P oi then f oi else 0)" for P f and xs :: "'z list"
    by (rule sum_list_map_filter')
  have "(if joined_day oi = d then left_part (day_part x) oi else 0) = left_part ?f oi"
    "(if joined_day oi = d then right_part (day_part x) oi else 0) = right_part ?f oi" if "oi \<in> set j" for oi
    using joined_same_day [OF that [unfolded j_def]] by (auto simp: left_part_def right_part_def split: option.splits)
  then have "(\<Sum>oi\<leftarrow>filter (\<lambda>oi. joined_day oi = d) j. left_part (day_part x) oi) = (\<Sum>oi\<leftarrow>j. left_part ?f oi)"
    "(\<Sum>oi\<leftarrow>filter (\<lambda>oi. joined_day oi = d) j. right_part (day_part x) oi) = (\<Sum>oi\<leftarrow>j. right_part ?f oi)"
    unfolding filtered by (auto intro!: arg_cong [where f = sum_list] map_cong)
  then show "(\<Sum>oi\<leftarrow>filter (\<lambda>oi. joined_day oi = d) j. left_part (day_part x) oi) =
           (\<Sum>r\<leftarrow>out_rows. if dr_Day r = d then coalesce (map_option x (dr_Sum r)) 0 else 0)"
    "(\<Sum>oi\<leftarrow>filter (\<lambda>oi. joined_day oi = d) j. right_part (day_part x) oi) =
           (\<Sum>r\<leftarrow>in_rows. if dr_Day r = d then coalesce (map_option x (dr_Sum r)) 0 else 0)"
    unfolding j_def day_join_def sums_of_full_join [OF assms(1,2)]
    by (simp_all add: comp_def cong: if_cong)
qed

lemma scanned_history: "collect scan_history_row rows = Ok rs \<Longrightarrow> rs = rows"
  by (induction rows arbitrary: rs) (auto simp: scan_history_row_def split: sum.splits)

lemma sums_of_day_rows:
  "(\<Sum>r\<leftarrow>day_rows day gaps key msat (filter (\<lambda>f. w (key f)) fs). if dr_Day r = d then coalesce (map_option x (dr_Sum r)) 0 else 0) =
     channel_sums key w (\<lambda>gs. x (forward_sum msat gs)) (filter (\<lambda>f. day (fw_Time f) = d) fs)"
proof -
  let ?fs = "filter (\<lambda>f. w (key f)) fs" and ?k = "\<lambda>f. (day (fw_Time f), key f)"
  have gaps: "(\<Sum>r\<leftarrow>concat (map (\<lambda>c. map (\<lambda>d. \<lparr>dr_Day = d, dr_Channel = c, dr_Sum = None\<rparr>) (g c)) cs).
      if dr_Day r = d then coalesce (map_option x (dr_Sum r)) 0 else 0) = 0" for g and cs :: "int option list"
  proof (induction cs)
    case (Cons c cs)
    have "(\<Sum>r\<leftarrow>map (\<lambda>d. \<lparr>dr_Day = d, dr_Channel = c, dr_Sum = None\<rparr>) ds.
      if dr_Day r = d then coalesce (map_option x (dr_Sum r)) 0 else 0) = 0" for ds by (induction ds) auto
    with Cons show ?case by simp
  qed simp
  have "(\<Sum>r\<leftarrow>day_rows day gaps key msat ?fs. if dr_Day r = d then coalesce (map_option x (dr_Sum r)) 0 else 0) =
      (\<Sum>g\<leftarrow>grouped_sums ?k msat ?fs. if fst (fst g) = d then x (snd g) else 0)"
    unfolding day_rows_def Let_def map_append sum_list_append gaps by (simp add: comp_def cong: if_cong)
  also have "\<dots> = (\<Sum>k \<in> ?k ` set ?fs. if fst k = d then x (forward_sum msat (of_key ?k k ?fs)) else 0)"
    by (rule grouped_sums_total [where h = "\<lambda>k s. if fst k = d then x s else 0"])
  also have "\<dots> = (\<Sum>k \<in> {k \<in> ?k ` set ?fs. fst k = d}. x (forward_sum msat (of_key ?k k ?fs)))"
    by (simp add: sum.inter_filter)
  also have "{k \<in> ?k ` set ?fs. fst k = d} = Pair d ` {c \<in> key ` set (filter (\<lambda>f. day (fw_Time f) = d) fs). w c}"
    by auto
  also have "(\<Sum>k \<in> Pair d ` {c \<in> key ` set (filter (\<lambda>f. day (fw_Time f) = d) fs). w c}. x (forward_sum msat (of_key ?k k ?fs))) =
      channel_sums key w (\<lambda>gs. x (forward_sum msat gs)) (filter (\<lambda>f. day (fw_Time f) = d) fs)"
    unfolding channel_sums_def
    by (subst sum.reindex)
      (auto simp: inj_on_def of_key_def intro!: sum.cong arg_cong [where f = x] arg_cong [where f = "forward_sum msat"] filter_cong)
  finally show ?thesis .
qed

text \<open>
  Each day of the history shows, for the requested channels, the sums over the channels of what left
  and entered on that day in the preferred time zone, in whole satoshi for each channel, and both
  together as the total.
\<close>

lemma history_days:
  assumes "getChannelHistory query stop zone forwards getAll ids from_time to_time = Ok rows" and "r \<in> set rows"
  shows "let fs = filter (\<lambda>f. day_of (zone (fw_Time f)) = hr_Date r) (filter (in_days zone from_time to_time) forwards);
             going_out = channel_sums fw_OutgoingChannelId (wanted_channel getAll ids);
             going_in = channel_sums fw_IncomingChannelId (wanted_channel getAll ids); h = hr_Sums r
    in hs_AmountOut h = going_out (sat_sum fw_AmtOutMsat) fs \<and> hs_AmountIn h = going_in (sat_sum fw_AmtInMsat) fs \<and>
       hs_AmountTotal h = hs_AmountIn h + hs_AmountOut h \<and>
       hs_RevenueOut h = going_out (sat_sum fw_FeeMsat) fs \<and> hs_RevenueIn h = going_in (sat_sum fw_FeeMsat) fs \<and>
       hs_CountOut h = going_out (\<lambda>gs. int (length gs)) fs \<and> hs_CountIn h = going_in (\<lambda>gs. int (length gs)) fs \<and>
       hs_CountTotal h = hs_CountIn h + hs_CountOut h"
proof -
  have "collect scan_history_row (received stop (history_rows zone getAll ids from_time to_time forwards)) = Ok rows"
    using assms(1) by (auto simp: getChannelHistory_def split: option.splits sum.splits)
  then have "rows = received stop (history_rows zone getAll ids from_time to_time forwards)" by (rule scanned_history)
  then have "r \<in> set (history_rows zone getAll ids from_time to_time forwards)"
    using assms(2) by (auto simp: received_def split: option.splits dest: in_set_takeD)
  with assms(2) obtain d where r: "hr_Date r = d"
      "hr_Sums r = sums_of_day (filter (\<lambda>oi. joined_day oi = d) (history_join zone getAll ids from_time to_time forwards))"
    by (auto simp: history_rows_def Let_def)
  have gaps: "distinct (gap_days from_time to_time)" by (simp add: gap_days_def)
  note parts = day_part_sums [OF keyed_unique [OF day_rows_distinct [OF gaps]] keyed_unique [OF day_rows_distinct [OF gaps]]]
  show ?thesis
    unfolding r history_join_def Let_def sums_of_day_def HistorySums.select_convs sum_list_addf parts
      sums_of_day_rows [where day = "\<lambda>t. day_of (zone t)"]
    by (simp add: forward_sum_def)
qed

section \<open>The days and the total\<close>

lemma channel_sums_over:
  assumes "finite C" and "{c \<in> key ` set fs. w c} \<subseteq> C" and "x [] = 0"
  shows "channel_sums key w x fs = (\<Sum>c \<in> {c \<in> C. w c}. x (of_key key c fs))"
  unfolding channel_sums_def
proof (rule sum.mono_neutral_left)
  show "finite {c \<in> C. w c}" using assms(1) by simp
  show "{c \<in> key ` set fs. w c} \<subseteq> {c \<in> C. w c}" using assms(2) by auto
  show "\<forall>c \<in> {c \<in> C. w c} - {c \<in> key ` set fs. w c}. x (of_key key c fs) = 0"
  proof
    fix c assume "c \<in> {c \<in> C. w c} - {c \<in> key ` set fs. w c}"
    then have "of_key key c fs = []" by (auto simp: of_key_def filter_empty_conv)
    then show "x (of_key key c fs) = 0" by (simp add: assms(3))
  qed
qed

text \<open>Sums over days of what is summed over channels, by channel and then by day.\<close>

lemma sums_by_day:
  fixes ds :: "'a list"
  assumes "x [] = 0"
  shows "(\<Sum>d\<leftarrow>ds. channel_sums key w x (filter (\<lambda>f. day f = d) fs)) =
    (\<Sum>c \<in> {c \<in> key ` set fs. w c}. \<Sum>d\<leftarrow>ds. x (filter (\<lambda>f. day f = d) (of_key key c fs)))"
proof -
  have "channel_sums key w x (filter (\<lambda>f. day f = d) fs) =
      (\<Sum>c \<in> {c \<in> key ` set fs. w c}. x (filter (\<lambda>f. day f = d) (of_key key c fs)))" for d
  proof -
    have "of_key key c (filter (\<lambda>f. day f = d) fs) = filter (\<lambda>f. day f = d) (of_key key c fs)" for c
      by (simp add: of_key_def conj_commute)
    moreover have "channel_sums key w x (filter (\<lambda>f. day f = d) fs) =
        (\<Sum>c \<in> {c \<in> key ` set fs. w c}. x (of_key key c (filter (\<lambda>f. day f = d) fs)))"
      by (rule channel_sums_over) (auto simp: assms)
    ultimately show ?thesis by simp
  qed
  moreover have "(\<Sum>d\<leftarrow>ds. \<Sum>c \<in> A. h d c) = (\<Sum>c \<in> A. \<Sum>d\<leftarrow>ds. h d c)" for A and h :: "'a \<Rightarrow> int option \<Rightarrow> int"
    by (induction ds) (simp_all add: sum.distrib)
  ultimately show ?thesis by simp
qed

lemma days_cover:
  assumes "distinct ds" and "\<And>f. f \<in> set gs \<Longrightarrow> day f \<in> set ds"
  shows "(\<Sum>d\<leftarrow>ds. sum_list (map n (filter (\<lambda>f. day f = d) gs))) = (sum_list (map n gs) :: int)"
  using assms(2)
proof (induction gs)
  case (Cons g gs)
  have "(\<Sum>d\<leftarrow>ds. sum_list (map n (filter (\<lambda>f. day f = d) (g # gs)))) =
      (\<Sum>d\<leftarrow>ds. (if d = day g then n g else 0) + sum_list (map n (filter (\<lambda>f. day f = d) gs)))"
    by (rule arg_cong [where f = sum_list], rule map_cong) auto
  also have "\<dots> = (\<Sum>d\<leftarrow>ds. if d = day g then n g else 0) + (\<Sum>d\<leftarrow>ds. sum_list (map n (filter (\<lambda>f. day f = d) gs)))"
    by (rule sum_list_addf)
  also have "(\<Sum>d\<leftarrow>ds. if d = day g then n g else 0) = n g"
    using Cons.prems assms(1) by (simp add: sum_list_distinct_conv_sum_set)
  finally show ?case using Cons by simp
qed simp

text \<open>Cutting the thousandths of each of some parts loses less than one for each part.\<close>

lemma sum_of_quotients:
  fixes n :: "'d \<Rightarrow> int"
  assumes "finite D"
  shows "(\<Sum>d \<in> D. n d div 1000) \<le> (\<Sum>d \<in> D. n d) div 1000"
    and "(\<Sum>d \<in> D. n d) div 1000 \<le> (\<Sum>d \<in> D. n d div 1000) + int (card D - 1)"
proof -
  show "(\<Sum>d \<in> D. n d div 1000) \<le> (\<Sum>d \<in> D. n d) div 1000"
    using assms by (induction D rule: finite_induct) (auto intro: order_trans [OF add_left_mono])
  have parts: "(\<Sum>d \<in> D. n d) \<le> 1000 * (\<Sum>d \<in> D. n d div 1000) + 999 * int (card D)"
    using assms
  proof (induction D rule: finite_induct)
    case (insert d D)
    have "n d \<le> 1000 * (n d div 1000) + 999" by presburger
    with insert show ?case by (simp add: algebra_simps)
  qed simp
  show "(\<Sum>d \<in> D. n d) div 1000 \<le> (\<Sum>d \<in> D. n d div 1000) + int (card D - 1)"
  proof (cases "card D")
    case 0
    with assms show ?thesis by simp
  next
    case (Suc k)
    with parts have "(\<Sum>d \<in> D. n d) < 1000 * ((\<Sum>d \<in> D. n d div 1000) + int k + 1)" by (simp add: algebra_simps)
    then have "(\<Sum>d \<in> D. n d) div 1000 < (\<Sum>d \<in> D. n d div 1000) + int k + 1" by (simp add: div_less_iff_less_mult algebra_simps)
    with Suc show ?thesis by simp
  qed
qed

text \<open>The days on which some forwards were made, but the first.\<close>

definition later_days :: "(ForwardRow \<Rightarrow> int) \<Rightarrow> ForwardRow list \<Rightarrow> int" where
  "later_days day gs = int (card (day ` set gs) - 1)"

lemma sat_by_day:
  assumes "distinct ds" and "\<And>f. f \<in> set gs \<Longrightarrow> day f \<in> set ds"
  shows "(\<Sum>d\<leftarrow>ds. sat_sum msat (filter (\<lambda>f. day f = d) gs)) \<le> sat_sum msat gs"
    and "sat_sum msat gs \<le> (\<Sum>d\<leftarrow>ds. sat_sum msat (filter (\<lambda>f. day f = d) gs)) + later_days day gs"
proof -
  let ?n = "\<lambda>d. \<Sum>f\<leftarrow>filter (\<lambda>f. day f = d) gs. uint (msat f)"
  have none: "?n d = 0" if "d \<notin> day ` set gs" for d
  proof -
    from that have "filter (\<lambda>f. day f = d) gs = []" by (auto simp: filter_empty_conv)
    then show ?thesis by simp
  qed
  have only: "(\<Sum>d\<leftarrow>ds. h (?n d)) = (\<Sum>d \<in> day ` set gs. h (?n d))" if "h 0 = 0" for h :: "int \<Rightarrow> int"
    using assms by (subst sum_list_distinct_conv_sum_set) (auto intro!: sum.mono_neutral_right simp: none that)
  have all: "(\<Sum>d \<in> day ` set gs. ?n d) = (\<Sum>f\<leftarrow>gs. uint (msat f))"
    using days_cover [where day = day and gs = gs and n = "\<lambda>f. uint (msat f)", OF assms] only [of id] by simp
  have shown: "(\<Sum>d\<leftarrow>ds. sat_sum msat (filter (\<lambda>f. day f = d) gs)) = (\<Sum>d \<in> day ` set gs. ?n d div 1000)"
    using only [of "\<lambda>n. n div 1000"] by (simp add: sat_sum_def)
  show "(\<Sum>d\<leftarrow>ds. sat_sum msat (filter (\<lambda>f. day f = d) gs)) \<le> sat_sum msat gs"
    using sum_of_quotients(1) [of "day ` set gs" ?n] unfolding shown by (simp add: sat_sum_def all)
  show "sat_sum msat gs \<le> (\<Sum>d\<leftarrow>ds. sat_sum msat (filter (\<lambda>f. day f = d) gs)) + later_days day gs"
    using sum_of_quotients(2) [of "day ` set gs" ?n] unfolding shown by (simp add: sat_sum_def all later_days_def)
qed

lemma day_counts:
  assumes "distinct ds" and "\<And>f. f \<in> set fs \<Longrightarrow> w (key f) \<Longrightarrow> day f \<in> set ds"
  shows "(\<Sum>d\<leftarrow>ds. channel_sums key w (\<lambda>gs. int (length gs)) (filter (\<lambda>f. day f = d) fs)) =
      channel_sums key w (\<lambda>gs. int (length gs)) fs"
    and "(\<Sum>d\<leftarrow>ds. channel_sums key w (sat_sum msat) (filter (\<lambda>f. day f = d) fs)) \<le> channel_sums key w (sat_sum msat) fs"
    and "channel_sums key w (sat_sum msat) fs \<le>
      (\<Sum>d\<leftarrow>ds. channel_sums key w (sat_sum msat) (filter (\<lambda>f. day f = d) fs)) + channel_sums key w (later_days day) fs"
proof -
  have covered: "f \<in> set (of_key key c fs) \<Longrightarrow> day f \<in> set ds" if "w c" for f c
    using assms(2) that by (auto simp: of_key_def)
  have by_day: "(\<Sum>d\<leftarrow>ds. sum_list (map n (filter (\<lambda>f. day f = d) (of_key key c fs)))) = (sum_list (map n (of_key key c fs)) :: int)"
    if "w c" for n c
    using days_cover [OF assms(1), of "of_key key c fs" day n] covered [OF that] by blast
  have "(\<Sum>d\<leftarrow>ds. int (length (filter (\<lambda>f. day f = d) (of_key key c fs)))) = int (length (of_key key c fs))" if "w c" for c
    using by_day [OF that, where n = "\<lambda>_. 1"] by (simp add: sum_list_triv)
  then show "(\<Sum>d\<leftarrow>ds. channel_sums key w (\<lambda>gs. int (length gs)) (filter (\<lambda>f. day f = d) fs)) =
      channel_sums key w (\<lambda>gs. int (length gs)) fs"
    by (subst sums_by_day) (auto simp: channel_sums_def intro!: sum.cong)
  note sats = sat_by_day [where day = day and msat = msat, OF assms(1) covered]
  show "(\<Sum>d\<leftarrow>ds. channel_sums key w (sat_sum msat) (filter (\<lambda>f. day f = d) fs)) \<le> channel_sums key w (sat_sum msat) fs"
    by (subst sums_by_day) (auto simp: channel_sums_def sat_sum_def [of msat "[]"] intro!: sum_mono sats(1))
  have "channel_sums key w (sat_sum msat) fs \<le>
      (\<Sum>c \<in> {c \<in> key ` set fs. w c}. (\<Sum>d\<leftarrow>ds. sat_sum msat (filter (\<lambda>f. day f = d) (of_key key c fs))) + later_days day (of_key key c fs))"
    unfolding channel_sums_def by (intro sum_mono sats(2)) auto
  then show "channel_sums key w (sat_sum msat) fs \<le>
      (\<Sum>d\<leftarrow>ds. channel_sums key w (sat_sum msat) (filter (\<lambda>f. day f = d) fs)) + channel_sums key w (later_days day) fs"
    by (subst sums_by_day) (simp_all add: sum.distrib channel_sums_def sat_sum_def [of msat "[]"])
qed

text \<open>Every day of a forward of a requested channel is among the days shown.\<close>

lemma day_rows_found:
  "f \<in> set fs \<Longrightarrow> \<exists>r \<in> set (day_rows day gaps key msat fs). dr_Day r = day (fw_Time f)"
  by (force simp: day_rows_def Let_def grouped_sums_def groups_def)

lemma joined_days_found:
  "r \<in> set out_rows \<Longrightarrow> dr_Day r \<in> joined_day ` set (day_join out_rows in_rows)"
  "r \<in> set in_rows \<Longrightarrow> dr_Day r \<in> joined_day ` set (day_join out_rows in_rows)"
proof -
  have left: "\<exists>oi \<in> set (day_join out_rows in_rows). fst oi = Some (keyed r)" if "r \<in> set out_rows"
  proof -
    have "keyed r \<in> fst ` set (left_join same_key (map keyed out_rows) (map keyed in_rows))"
      using that by (simp add: fst_left_join)
    then show ?thesis by (force simp: day_join_def full_join_def)
  qed
  have right: "\<exists>oi \<in> set (day_join out_rows in_rows). snd oi = Some (keyed r)" if "r \<in> set in_rows"
  proof (cases "list_ex (\<lambda>l. same_key l (keyed r)) (map keyed out_rows)")
    case True
    then obtain l where "l \<in> set out_rows" "same_key (keyed l) (keyed r)" unfolding list_ex_iff set_map by blast
    with that have "(keyed l, Some (keyed r)) \<in> set (left_join same_key (map keyed out_rows) (map keyed in_rows))"
      by (auto simp: set_left_join)
    then show ?thesis by (force simp: day_join_def full_join_def)
  next
    case False
    with that show ?thesis by (force simp: day_join_def full_join_def)
  qed
  show "r \<in> set out_rows \<Longrightarrow> dr_Day r \<in> joined_day ` set (day_join out_rows in_rows)"
    using left joined_same_day by (fastforce simp: image_iff)
  show "r \<in> set in_rows \<Longrightarrow> dr_Day r \<in> joined_day ` set (day_join out_rows in_rows)"
    using right joined_same_day by (fastforce simp: image_iff)
qed

lemma history_days_found:
  assumes "f \<in> set forwards" and "in_days zone from_time to_time f"
    and "wanted_channel getAll ids (fw_OutgoingChannelId f) \<or> wanted_channel getAll ids (fw_IncomingChannelId f)"
  shows "day_of (zone (fw_Time f)) \<in> set (map hr_Date (history_rows zone getAll ids from_time to_time forwards))"
proof -
  have dates: "set (map hr_Date (history_rows zone getAll ids from_time to_time forwards)) =
      joined_day ` set (history_join zone getAll ids from_time to_time forwards)"
    by (force simp: history_rows_def Let_def)
  have found: "\<exists>r \<in> set (day_rows (\<lambda>t. day_of (zone t)) gaps key msat
      (filter (\<lambda>f. wanted_channel getAll ids (key f)) (filter (in_days zone from_time to_time) forwards))).
      dr_Day r = day_of (zone (fw_Time f))" if "wanted_channel getAll ids (key f)" for gaps key msat
    using day_rows_found [where day = "\<lambda>t. day_of (zone t)"] assms(1,2) that by force
  from assms(3) show ?thesis
  proof
    assume "wanted_channel getAll ids (fw_OutgoingChannelId f)"
    from found [where key = fw_OutgoingChannelId and gaps = "gap_days from_time to_time" and msat = fw_AmtOutMsat, OF this]
    obtain r where "r \<in> set (day_rows (\<lambda>t. day_of (zone t)) (gap_days from_time to_time) fw_OutgoingChannelId fw_AmtOutMsat
        (filter (\<lambda>f. wanted_channel getAll ids (fw_OutgoingChannelId f)) (filter (in_days zone from_time to_time) forwards)))"
      and "dr_Day r = day_of (zone (fw_Time f))" by blast
    with joined_days_found(1) [OF this(1)] show ?thesis unfolding dates history_join_def Let_def by simp
  next
    assume "wanted_channel getAll ids (fw_IncomingChannelId f)"
    from found [where key = fw_IncomingChannelId and gaps = "gap_days from_time to_time" and msat = fw_AmtInMsat, OF this]
    obtain r where "r \<in> set (day_rows (\<lambda>t. day_of (zone t)) (gap_days from_time to_time) fw_IncomingChannelId fw_AmtInMsat
        (filter (\<lambda>f. wanted_channel getAll ids (fw_IncomingChannelId f)) (filter (in_days zone from_time to_time) forwards)))"
      and "dr_Day r = day_of (zone (fw_Time f))" by blast
    with joined_days_found(2) [OF this(1)] show ?thesis unfolding dates history_join_def Let_def by simp
  qed
qed

text \<open>A number that falls short of another by at most \<open>n\<close>.\<close>

definition short_of :: "int \<Rightarrow> int \<Rightarrow> int \<Rightarrow> bool" where
  "short_of x y n \<longleftrightarrow> x \<le> y \<and> y \<le> x + n"



end
