(* ===== verification/ChannelCosts.thy ===== *)
theory ChannelCosts
  imports ChannelHistory TransactionReport LndInvoices
begin

text \<open>
  \<open>src/internal/channel_history/\<close>: what rebalancing and on-chain transactions cost
  (\<open>rebalancing_history.go\<close>, \<open>on_chain_cost.go\<close>) and how the balance of a channel developed
  (\<open>channel_balance.go\<close>).  What Postgres finds in the JSON texts of payments and invoices is a parameter:
  the attempts of a payment with the hops of their routes, and the parts of an invoice.  The theorems
  bound the split cost of rebalancing, say which transactions count as the cost of a channel, and that
  the balance also loses what failed attempts of a payment would have moved.
\<close>

section \<open>The cost of rebalancing\<close>

text \<open>A member that is missing in the JSON text, as every one that is zero, is None.\<close>

record AttemptHop =
  ah_ChanId :: "nat option"
  ah_PubKey :: "string option"
  ah_AmtToForwardMsat :: "int option"

record PaymentAttempt =
  pa_Status :: "int option"
  pa_Hops :: "AttemptHop list"

type_synonym attempts_of = "string \<Rightarrow> PaymentAttempt list"

text \<open>The hops of the route of the last attempt.\<close>

definition last_hops :: "attempts_of \<Rightarrow> PaymentRow \<Rightarrow> AttemptHop list" where
  "last_hops attempts p = (case rev (attempts (pr_Htlcs p)) of [] \<Rightarrow> [] | a # _ \<Rightarrow> pa_Hops a)"

definition hop_chan :: "AttemptHop \<Rightarrow> string option" where
  "hop_chan h = map_option format_uint (ah_ChanId h)"

definition first_chan :: "attempts_of \<Rightarrow> PaymentRow \<Rightarrow> string option" where
  "first_chan attempts p = (case last_hops attempts p of [] \<Rightarrow> None | h # _ \<Rightarrow> hop_chan h)"

definition last_chan :: "attempts_of \<Rightarrow> PaymentRow \<Rightarrow> string option" where
  "last_chan attempts p = (case rev (last_hops attempts p) of [] \<Rightarrow> None | h # _ \<Rightarrow> hop_chan h)"

definition last_key :: "attempts_of \<Rightarrow> PaymentRow \<Rightarrow> string option" where
  "last_key attempts p = (case rev (last_hops attempts p) of [] \<Rightarrow> None | h # _ \<Rightarrow> ah_PubKey h)"

definition is_any :: "'a option \<Rightarrow> 'a list \<Rightarrow> bool" where
  "is_any x keys \<longleftrightarrow> eq_any x keys = Some True"

definition in_window :: "(time \<Rightarrow> time) \<Rightarrow> time \<Rightarrow> time \<Rightarrow> time \<Rightarrow> bool" where
  "in_window zone from_time to_time t \<longleftrightarrow> from_time \<le> zone t \<and> zone t \<le> to_time"

record RebalancingDetails =
  rd_AmountMsat :: int
  rd_TotalCostMsat :: int
  rd_SplitCostMsat :: int
  rd_Count :: int

definition rebalances :: "attempts_of \<Rightarrow> (time \<Rightarrow> time) \<Rightarrow> string list \<Rightarrow> time \<Rightarrow> time \<Rightarrow> PaymentRow \<Rightarrow> bool" where
  "rebalances attempts zone publicKeys from_time to_time p \<longleftrightarrow>
     pr_Status p = ''SUCCEEDED'' \<and> is_any (last_key attempts p) publicKeys \<and>
     in_window zone from_time to_time (pr_CreationTimestamp p)"

definition msat_sum :: "(PaymentRow \<Rightarrow> rat) \<Rightarrow> PaymentRow list \<Rightarrow> rat" where
  "msat_sum x ps = sql_round 0 (\<Sum>p\<leftarrow>ps. x p)"

definition fee_of :: "PaymentRow \<Rightarrow> rat" where
  "fee_of p = of_int (sint (pr_FeeMsat p))"

definition value_of :: "PaymentRow \<Rightarrow> rat" where
  "value_of p = of_int (sint (pr_ValueMsat p))"

text \<open>The sums of a query are scanned into unsigned variables.\<close>

definition scan_details_row :: "rat \<Rightarrow> rat \<Rightarrow> rat \<Rightarrow> nat \<Rightarrow> RebalancingDetails result" where
  "scan_details_row amount total_cost split_cost n =
     (case (scan_uint 64 amount, scan_uint 64 total_cost, scan_uint 64 split_cost) of
        (Inr a, Inr t, Inr s) \<Rightarrow>
          Ok \<lparr>rd_AmountMsat = a, rd_TotalCostMsat = t, rd_SplitCostMsat = s, rd_Count = int n\<rparr>
      | _ \<Rightarrow> Fails ''SQL row scan for rebalancing details: value out of range'')"

definition details_of :: "go_error option \<Rightarrow> rat \<Rightarrow> rat \<Rightarrow> rat \<Rightarrow> nat \<Rightarrow> RebalancingDetails result" where
  "details_of query amount total_cost split_cost n =
     (case query of
        Some e \<Rightarrow> Inl (wrapped ''SQL row scan for rebalancing details'' e)
      | None \<Rightarrow> scan_details_row amount total_cost split_cost n)"

definition getRebalancingCost ::
    "go_error option \<Rightarrow> attempts_of \<Rightarrow> (time \<Rightarrow> time) \<Rightarrow> PaymentRow list \<Rightarrow> string list \<Rightarrow> time \<Rightarrow> time \<Rightarrow>
     RebalancingDetails result" where
  "getRebalancingCost query attempts zone payments publicKeys from_time to_time =
     (let ps = filter (rebalances attempts zone publicKeys from_time to_time) payments
      in details_of query (msat_sum value_of ps) (msat_sum fee_of ps) 0 (length ps))"

text \<open>
  All of the fee when both the first and the last channel are requested ones, half of it when one is.
\<close>

definition split_fee :: "attempts_of \<Rightarrow> string list \<Rightarrow> PaymentRow \<Rightarrow> rat" where
  "split_fee attempts ids p =
     (if is_any (first_chan attempts p) ids \<and> is_any (last_chan attempts p) ids then fee_of p else fee_of p / 2)"

definition channel_rebalances ::
    "attempts_of \<Rightarrow> (time \<Rightarrow> time) \<Rightarrow> int list \<Rightarrow> string list \<Rightarrow> string list \<Rightarrow> time \<Rightarrow> time \<Rightarrow> PaymentRow \<Rightarrow> bool" where
  "channel_rebalances attempts zone nodeIds publicKeys ids from_time to_time p \<longleftrightarrow>
     rebalances attempts zone publicKeys from_time to_time p \<and>
     (is_any (first_chan attempts p) ids \<or> is_any (last_chan attempts p) ids) \<and> pr_NodeId p \<in> set nodeIds"

definition getChannelRebalancing ::
    "go_error option \<Rightarrow> attempts_of \<Rightarrow> (time \<Rightarrow> time) \<Rightarrow> PaymentRow list \<Rightarrow> int list \<Rightarrow> string list \<Rightarrow> string list \<Rightarrow>
     time \<Rightarrow> time \<Rightarrow> RebalancingDetails result" where
  "getChannelRebalancing query attempts zone payments nodeIds publicKeys ids from_time to_time =
     (let ps = filter (channel_rebalances attempts zone nodeIds publicKeys ids from_time to_time) payments
      in details_of query (msat_sum value_of ps) (msat_sum fee_of ps) (msat_sum (split_fee attempts ids) ps) (length ps))"

section \<open>The cost of transactions\<close>

definition fees_sum :: "Tx list \<Rightarrow> rat" where
  "fees_sum txs = coalesce (sql_sum (\<lambda>t. map_option (\<lambda>f. of_int (sint f)) (tx_TotalFees t)) txs) 0"

definition cost_row :: "go_error option \<Rightarrow> rat \<Rightarrow> int result" where
  "cost_row query fees =
     (case query of
        Some e \<Rightarrow> Inl (wrapped ''SQL row scan for cost'' e)
      | None \<Rightarrow> (case scan_uint 64 fees of Inl e \<Rightarrow> Inl (wrapped ''SQL row scan for cost'' e) | Inr n \<Rightarrow> Ok n))"

definition getTotalOnChainCost ::
    "go_error option \<Rightarrow> (time \<Rightarrow> time) \<Rightarrow> Tx list \<Rightarrow> int list \<Rightarrow> time \<Rightarrow> time \<Rightarrow> int result" where
  "getTotalOnChainCost query zone txs nodeIds from_time to_time =
     cost_row query
       (fees_sum (filter (\<lambda>t. in_window zone from_time to_time (tx_Timestamp t) \<and> tx_NodeId t \<in> set nodeIds) txs))"

text \<open>\<open>split_part\<close>: the part of that number, counted from 1; empty when there are fewer.\<close>

definition split_part :: "string \<Rightarrow> char \<Rightarrow> nat \<Rightarrow> string" where
  "split_part s c n = (let parts = split_on c s in if n - 1 < length parts then parts ! (n - 1) else [])"

definition labelled :: "string list \<Rightarrow> Tx \<Rightarrow> bool" where
  "labelled ids t \<longleftrightarrow> is_any (map_option (\<lambda>l. split_part l (CHR ''-'') 2) (tx_Label t)) ids"

definition getChannelOnChainCost :: "go_error option \<Rightarrow> Tx list \<Rightarrow> string list \<Rightarrow> int result" where
  "getChannelOnChainCost query txs ids = cost_row query (fees_sum (filter (labelled ids) txs))"

section \<open>The balance of a channel\<close>

text \<open>The parts of an invoice that were paid over channels; state 1 is a settled part.\<close>

record InvoicePart =
  ip_ChanId :: "nat option"
  ip_State :: "int option"
  ip_AmtMsat :: "int option"

record BalanceDb =
  bl_Forwards :: "ForwardRow list"
  bl_Payments :: "PaymentRow list"
  bl_Invoices :: "Invoice list"
  bl_Txs :: "Tx list"
  bl_Channels :: "(int \<times> Channel) list"
  bl_ChannelEvents :: "ChannelEventRow list"
  bl_Attempts :: attempts_of
  bl_Parts :: "string \<Rightarrow> InvoicePart list"
  bl_Query :: "go_error option"

text \<open>
  What the wallet paid for the funding transaction, without its fee: a row for every open or close event
  of the channel and every stored transaction with the hash, or without one 0.  The first row counts.
\<close>

definition funding_rows :: "BalanceDb \<Rightarrow> int \<Rightarrow> rat list" where
  "funding_rows db channelId =
     (let events = filter (\<lambda>e. open_or_close e \<and> cer_ChannelId e = channelId) (bl_ChannelEvents db);
          cs = filter (\<lambda>c. ch_ChannelID c = channelId) (map snd (bl_Channels db));
          joined = left_join (\<lambda>c t. sql_eq (Some (ch_FundingTransactionHash c)) (tx_TransactionHash t) = Some True) cs (bl_Txs db)
      in concat (map (\<lambda>e. map (\<lambda>ct. coalesce (Option.bind (snd ct) (\<lambda>t.
           lift2 (\<lambda>a f. - of_int (sint a) - of_int (sint f)) (tx_Amount t) (tx_TotalFees t))) 0) joined) events))"

definition initial_balance :: "BalanceDb \<Rightarrow> int \<Rightarrow> rat option" where
  "initial_balance db channelId = (case funding_rows db channelId of [] \<Rightarrow> None | b # _ \<Rightarrow> Some b)"

text \<open>
  What moved the balance, in msat: \<open>jsonb_path_query_array\<close> asks all attempts of a payment that has a
  first hop with the channel, and all settled parts of an invoice that has a part with the channel.
\<close>

record Movement =
  mv_Time :: time
  mv_Amt :: "rat option"

definition sql_total :: "int list \<Rightarrow> rat option" where
  "sql_total ns = (if ns = [] then None else Some (of_int (sum_list ns)))"

definition first_hops :: "attempts_of \<Rightarrow> PaymentRow \<Rightarrow> AttemptHop list" where
  "first_hops attempts p = List.map_filter (\<lambda>a. case pa_Hops a of [] \<Rightarrow> None | h # _ \<Rightarrow> Some h) (attempts (pr_Htlcs p))"

definition payment_movement :: "attempts_of \<Rightarrow> nat \<Rightarrow> PaymentRow \<Rightarrow> Movement option" where
  "payment_movement attempts scid p =
     (let hops = first_hops attempts p; mine = filter (\<lambda>h. ah_ChanId h = Some scid) hops
      in if pr_Status p = ''SUCCEEDED'' \<and> mine \<noteq> []
         then Some \<lparr>mv_Time = pr_CreationTimestamp p,
                    mv_Amt = map_option uminus (sql_total (List.map_filter ah_AmtToForwardMsat mine))\<rparr>
         else None)"

definition invoice_movement :: "(string \<Rightarrow> InvoicePart list) \<Rightarrow> nat \<Rightarrow> Invoice \<Rightarrow> Movement option" where
  "invoice_movement parts scid i =
     (let mine = filter (\<lambda>h. ip_ChanId h = Some scid) (parts (in_Htlcs i))
      in if in_InvoiceState i = ''SETTLED'' \<and> mine \<noteq> []
         then Some \<lparr>mv_Time = in_SettleDate i,
                    mv_Amt = sql_total (List.map_filter ip_AmtMsat (filter (\<lambda>h. ip_State h = Some 1) mine))\<rparr>
         else None)"

text \<open>\<open>UNION\<close> keeps one of rows that are equal.\<close>

definition movements :: "BalanceDb \<Rightarrow> nat \<Rightarrow> int \<Rightarrow> Movement list" where
  "movements db scid channelId = remdups
     (map (\<lambda>f. \<lparr>mv_Time = fw_Time f, mv_Amt = Some (- of_int (uint (fw_AmtOutMsat f)))\<rparr>)
        (filter (\<lambda>f. fw_OutgoingChannelId f = Some channelId) (bl_Forwards db)) @
      map (\<lambda>f. \<lparr>mv_Time = fw_Time f, mv_Amt = Some (of_int (uint (fw_AmtInMsat f)))\<rparr>)
        (filter (\<lambda>f. fw_IncomingChannelId f = Some channelId) (bl_Forwards db)) @
      List.map_filter (payment_movement (bl_Attempts db) scid) (bl_Payments db) @
      List.map_filter (invoice_movement (bl_Parts db) scid) (bl_Invoices db))"

text \<open>
  \<open>sum(amt/1000) over (order by time)\<close> adds what moved until the time of the row; it is null, and with it
  the balance, while nothing but nulls did.
\<close>

definition moved_until :: "Movement list \<Rightarrow> time \<Rightarrow> rat option" where
  "moved_until ms t = sql_sum (\<lambda>m. map_option (\<lambda>a. a / 1000) (mv_Amt m)) (filter (\<lambda>m. mv_Time m \<le> t) ms)"

definition balance_at :: "rat option \<Rightarrow> Movement list \<Rightarrow> time \<Rightarrow> int option" where
  "balance_at initial ms t = map_option floor (lift2 (+) initial (moved_until ms t))"

record BalanceColumns =
  bc_Date :: time
  bc_Outbound :: "int option"
  bc_Diff :: "int option"

text \<open>The difference to the row before, of the rows in the time range.\<close>

fun with_diffs :: "int option \<Rightarrow> (time \<times> int option) list \<Rightarrow> BalanceColumns list" where
  "with_diffs before [] = []"
| "with_diffs before ((t, b) # rows) =
     \<lparr>bc_Date = t, bc_Outbound = b, bc_Diff = lift2 (-) b before\<rparr> # with_diffs b rows"

definition balance_rows :: "BalanceDb \<Rightarrow> (time \<Rightarrow> time) \<Rightarrow> nat \<Rightarrow> int \<Rightarrow> time \<Rightarrow> time \<Rightarrow> BalanceColumns list" where
  "balance_rows db zone scid channelId from_time to_time =
     (let ms = movements db scid channelId
      in with_diffs None
           (map (\<lambda>m. (mv_Time m, balance_at (initial_balance db channelId) ms (mv_Time m)))
             (filter (\<lambda>m. in_window zone from_time to_time (mv_Time m)) (sort_key mv_Time ms))))"

record Balance =
  ba_Date :: time
  ba_InboundCapacity :: int
  ba_OutboundCapacity :: int
  ba_CapacityDiff :: "int option"

definition in_int64 :: "int \<Rightarrow> bool" where
  "in_int64 n \<longleftrightarrow> - (2 ^ 63) \<le> n \<and> n < 2 ^ 63"

definition scan_balance :: "BalanceColumns \<Rightarrow> Balance result" where
  "scan_balance c =
     (case bc_Outbound c of
        None \<Rightarrow> Fails ''converting NULL to int64 is unsupported''
      | Some n \<Rightarrow>
          if in_int64 n \<and> (case bc_Diff c of None \<Rightarrow> True | Some d \<Rightarrow> in_int64 d)
          then Ok \<lparr>ba_Date = bc_Date c, ba_InboundCapacity = 0, ba_OutboundCapacity = n, ba_CapacityDiff = bc_Diff c\<rparr>
          else Fails ''value out of range'')"

record ChannelBalance =
  cb_LNDShortChannelId :: string
  cb_Balances :: "Balance list"

text \<open>The text of the id is cast to JSON, where a number has no leading zeros.\<close>

definition json_number :: "string \<Rightarrow> go_error option \<Rightarrow> go_error option" where
  "json_number idText query =
     (if query = None \<and> 1 < length idText \<and> idText ! 0 = CHR ''0'' then Some (Error ''invalid input syntax for type json'') else query)"

text \<open>None: the channel cache or the settings give no answer.\<close>

definition getChannelBalance ::
    "BalanceDb \<Rightarrow> (string \<Rightarrow> time \<Rightarrow> time) \<Rightarrow> channel_orders \<Rightarrow> ChannelState \<Rightarrow> SettingsState \<Rightarrow> string \<Rightarrow>
     time \<Rightarrow> time \<Rightarrow> ChannelBalance result option" where
  "getChannelBalance db zone ords channels settings idText from_time to_time =
     (case parse_uint 64 idText of
        None \<Rightarrow> Some (Fails ''Converting LND short channel id: invalid syntax'')
      | Some scid \<Rightarrow>
     (case (GetChannelIdByShortChannelId ords channels (ConvertLNDShortChannelID (word_of_nat scid)), GetSettings settings) of
        (Some channelId, Some s) \<Rightarrow> Some
          (case json_number idText (bl_Query db) of
             Some e \<Rightarrow> Inl (wrapped ''SQL run query'' e)
           | None \<Rightarrow>
               (case collect scan_balance
                       (balance_rows db (zone (ms_PreferredTimeZone s)) scid channelId from_time to_time) of
                  Inl e \<Rightarrow> Inl (wrapped ''SQL struct scan'' e)
                | Inr bs \<Rightarrow> Ok \<lparr>cb_LNDShortChannelId = idText, cb_Balances = bs\<rparr>))
      | _ \<Rightarrow> None))"

section \<open>Split costs add up\<close>

lemma is_any_iff: "is_any x keys \<longleftrightarrow> (\<exists>v. x = Some v \<and> v \<in> set keys)"
  by (cases x) (auto simp: is_any_def eq_any_def)

lemma is_any_append: "is_any x (A @ B) \<longleftrightarrow> is_any x A \<or> is_any x B"
  by (auto simp: is_any_iff)

lemma is_any_disjoint: "set A \<inter> set B = {} \<Longrightarrow> is_any x A \<Longrightarrow> \<not> is_any x B"
  by (auto simp: is_any_iff)

lemma round_whole: "sql_round 0 x = (if 0 \<le> x then of_int \<lfloor>x + 1/2\<rfloor> else of_int \<lceil>x - 1/2\<rceil>)"
  by (simp add: sql_round_def)

text \<open>The unrounded sum of the split fees is a number of halves.\<close>

definition halves :: "attempts_of \<Rightarrow> string list \<Rightarrow> PaymentRow list \<Rightarrow> int" where
  "halves attempts ids ps =
     (\<Sum>p\<leftarrow>ps. (if is_any (first_chan attempts p) ids \<and> is_any (last_chan attempts p) ids then 2 else 1) * sint (pr_FeeMsat p))"

lemma halves_split: "(\<Sum>p\<leftarrow>ps. split_fee attempts ids p) = of_int (halves attempts ids ps) / 2"
  by (induction ps) (auto simp: split_fee_def fee_of_def halves_def add_divide_distrib)

lemma fees_whole: "(\<Sum>p\<leftarrow>ps. fee_of p) = of_int (\<Sum>p\<leftarrow>ps. sint (pr_FeeMsat p))"
  by (induction ps) (auto simp: fee_of_def)

lemma round_halves: "0 \<le> n \<Longrightarrow> sql_round 0 (of_int n / 2) = of_int ((n + 1) div 2)"
  using floor_divide_of_int_eq [of "n + 1" 2, where ?'a = rat] by (simp add: round_whole add_divide_distrib)

lemma round_int: "sql_round 0 (of_int n) = of_int n"
proof -
  have "\<lfloor>of_int n + 1 / 2 :: rat\<rfloor> = n" by (rule floor_unique) simp_all
  moreover have "\<lceil>of_int n - 1 / 2 :: rat\<rceil> = n" by (rule ceiling_unique) simp_all
  ultimately show ?thesis by (simp add: round_whole)
qed

text \<open>Half the fee for each end of a payment among the channels.\<close>

definition ends_in :: "attempts_of \<Rightarrow> string list \<Rightarrow> PaymentRow \<Rightarrow> int" where
  "ends_in attempts ids p =
     ((if is_any (first_chan attempts p) ids then 1 else 0) + (if is_any (last_chan attempts p) ids then 1 else 0)) *
     sint (pr_FeeMsat p)"

lemma halves_ends:
  "halves attempts ids (filter (channel_rebalances attempts zone nodeIds keys ids from_time to_time) ps) =
     (\<Sum>p\<leftarrow>filter (\<lambda>p. rebalances attempts zone keys from_time to_time p \<and> pr_NodeId p \<in> set nodeIds) ps. ends_in attempts ids p)"
  by (induction ps) (auto simp: halves_def ends_in_def channel_rebalances_def)

lemma ends_in_append: "set A \<inter> set B = {} \<Longrightarrow> ends_in attempts (A @ B) p = ends_in attempts A p + ends_in attempts B p"
  unfolding ends_in_def is_any_append by (auto dest: is_any_disjoint simp: algebra_simps)

lemma halves_add_up:
  assumes "set A \<inter> set B = {}"
  shows "halves attempts (A @ B) (filter (channel_rebalances attempts zone nodeIds keys (A @ B) from_time to_time) ps) =
    halves attempts A (filter (channel_rebalances attempts zone nodeIds keys A from_time to_time) ps) +
    halves attempts B (filter (channel_rebalances attempts zone nodeIds keys B from_time to_time) ps)"
proof -
  have "ends_in attempts (A @ B) = (\<lambda>p. ends_in attempts A p + ends_in attempts B p)"
    using ends_in_append [OF assms] by blast
  then show ?thesis by (simp only: halves_ends sum_list_addf)
qed

lemma halves_bounds:
  assumes "list_all (\<lambda>p. 0 \<le> sint (pr_FeeMsat p)) ps"
  shows "0 \<le> halves attempts ids ps" and "(\<Sum>p\<leftarrow>ps. sint (pr_FeeMsat p)) \<le> halves attempts ids ps"
    and "halves attempts ids ps \<le> 2 * (\<Sum>p\<leftarrow>ps. sint (pr_FeeMsat p))"
  using assms by (induction ps) (auto simp: halves_def)

lemma scanned_details:
  "scan_details_row a t s n = Ok d \<Longrightarrow> of_int (rd_TotalCostMsat d) = t \<and> of_int (rd_SplitCostMsat d) = s \<and> rd_Count d = int n"
  by (auto simp: scan_details_row_def scan_uint_def split: sum.splits if_splits)

lemma channel_details:
  assumes "getChannelRebalancing query attempts zone payments nodeIds keys ids from_time to_time = Ok d"
    and "list_all (\<lambda>p. 0 \<le> sint (pr_FeeMsat p)) payments"
    and "ps = filter (channel_rebalances attempts zone nodeIds keys ids from_time to_time) payments"
  shows "rd_TotalCostMsat d = (\<Sum>p\<leftarrow>ps. sint (pr_FeeMsat p)) \<and> rd_SplitCostMsat d = (halves attempts ids ps + 1) div 2"
proof -
  have nonneg: "0 \<le> halves attempts ids ps"
    by (rule halves_bounds) (use assms(2,3) in \<open>auto simp: list_all_iff\<close>)
  have "of_int (rd_TotalCostMsat d) = msat_sum fee_of ps \<and> of_int (rd_SplitCostMsat d) = msat_sum (split_fee attempts ids) ps"
    using assms(1,3) by (auto simp: getChannelRebalancing_def details_of_def Let_def dest!: scanned_details split: option.splits)
  then show ?thesis
    unfolding msat_sum_def halves_split fees_whole round_int round_halves [OF nonneg] of_int_eq_iff .
qed

text \<open>
  C38: For one group of channels, the split cost is at least half of the total cost of its rebalances and
  at most all of it.  The split costs of two groups without a common channel add up to that of both
  groups together, or to one msat more because each is rounded.
\<close>

theorem split_costs_add_up:
  assumes "getChannelRebalancing query attempts zone payments nodeIds keys A from_time to_time = Ok a"
    and "getChannelRebalancing query attempts zone payments nodeIds keys B from_time to_time = Ok b"
    and "getChannelRebalancing query attempts zone payments nodeIds keys (A @ B) from_time to_time = Ok c"
    and "set A \<inter> set B = {}" and "list_all (\<lambda>p. 0 \<le> sint (pr_FeeMsat p)) payments"
  shows "rd_SplitCostMsat c \<le> rd_SplitCostMsat a + rd_SplitCostMsat b \<and>
    rd_SplitCostMsat a + rd_SplitCostMsat b \<le> rd_SplitCostMsat c + 1 \<and>
    rd_TotalCostMsat a \<le> 2 * rd_SplitCostMsat a \<and> rd_SplitCostMsat a \<le> rd_TotalCostMsat a"
proof -
  let ?ps = "\<lambda>ids. filter (channel_rebalances attempts zone nodeIds keys ids from_time to_time) payments"
  note details = channel_details [OF _ assms(5) refl]
  note a = details [OF assms(1)] and b = details [OF assms(2)] and c = details [OF assms(3)]
  have "list_all (\<lambda>p. 0 \<le> sint (pr_FeeMsat p)) (?ps A)" using assms(5) by (auto simp: list_all_iff)
  from halves_bounds [OF this, of attempts A] halves_add_up [OF assms(4), of attempts zone nodeIds keys from_time to_time payments]
  show ?thesis using a b c by linarith
qed

section \<open>Which transactions are the cost of a channel\<close>

text \<open>
  The label LND gives the transaction that opens or closes a channel names the channel by its short
  channel id, so such a transaction counts for the channel; and every transaction whose label has no
  hyphen, so also the empty one, counts when an empty id is among those asked for.
\<close>

lemma channel_transaction_counts:
  assumes "tx_Label t = Some (channel_label n kind scid)" and "CHR ''-'' \<notin> set kind" and "CHR ''-'' \<notin> set scid"
  shows "labelled ids t \<longleftrightarrow> scid \<in> set ids"
proof -
  have "CHR ''-'' \<notin> set (format_uint n)"
    using format_uint_digits [of n] by (auto simp: is_digit_def)
  then have "CHR ''-'' \<notin> set (format_uint n @ CHR '':'' # kind @ '':shortchanid'')" using assms(2) by auto
  from split_on_append [OF this, of scid] have "split_on (CHR ''-'') (channel_label n kind scid) =
      [format_uint n @ CHR '':'' # kind @ '':shortchanid'', scid]"
    by (simp add: channel_label_def split_on_no_sep [OF assms(3)])
  then show ?thesis by (simp add: labelled_def assms(1) split_part_def is_any_iff)
qed

lemma unlabelled_transactions_count:
  "tx_Label t = Some l \<Longrightarrow> CHR ''-'' \<notin> set l \<Longrightarrow> [] \<in> set ids \<Longrightarrow> labelled ids t"
  by (simp add: labelled_def split_part_def split_on_no_sep is_any_iff)

section \<open>Balances\<close>

text \<open>The shown differences lead from the first balance to the last.\<close>

lemma differences_lead_to_last:
  assumes "list_all2 (\<lambda>x y. scan_balance x = Ok y) (with_diffs (Some b) rows) bs"
  shows "ba_OutboundCapacity (last (\<lparr>ba_Date = t, ba_InboundCapacity = 0, ba_OutboundCapacity = b, ba_CapacityDiff = d\<rparr> # bs)) =
    b + (\<Sum>x\<leftarrow>bs. the (ba_CapacityDiff x))"
  using assms
proof (induction rows arbitrary: b bs t d)
  case (Cons row rows)
  obtain t' o' where row: "row = (t', o')" by fastforce
  with Cons.prems obtain x xs where bs: "bs = x # xs" and x: "scan_balance \<lparr>bc_Date = t', bc_Outbound = o', bc_Diff = lift2 (-) o' (Some b)\<rparr> = Ok x"
    and xs: "list_all2 (\<lambda>x y. scan_balance x = Ok y) (with_diffs o' rows) xs"
    by (auto simp: list_all2_Cons1)
  from x obtain n where "o' = Some n" and
    x': "x = \<lparr>ba_Date = t', ba_InboundCapacity = 0, ba_OutboundCapacity = n, ba_CapacityDiff = Some (n - b)\<rparr>"
    by (auto simp: scan_balance_def split: option.splits if_splits)
  with Cons.IH [of n xs t' "Some (n - b)"] xs show ?case by (simp add: bs)
qed simp

lemma balances_add_up:
  assumes "getChannelBalance db zone ords channels settings idText from_time to_time = Some (Ok cb)"
    and "cb_Balances cb = b # bs"
  shows "ba_CapacityDiff b = None \<and>
    ba_OutboundCapacity (last (b # bs)) = ba_OutboundCapacity b + (\<Sum>x\<leftarrow>bs. the (ba_CapacityDiff x))"
proof -
  obtain rows where "list_all2 (\<lambda>x y. scan_balance x = Ok y) (with_diffs None rows) (b # bs)"
    using assms by (auto simp: getChannelBalance_def balance_rows_def Let_def split: option.splits sum.splits dest!: collect_rows)
  moreover from this obtain t n rows' where "rows = (t, n) # rows'"
    by (cases rows) auto
  ultimately have first: "scan_balance \<lparr>bc_Date = t, bc_Outbound = n, bc_Diff = None\<rparr> = Ok b"
    and others: "list_all2 (\<lambda>x y. scan_balance x = Ok y) (with_diffs n rows') bs" by auto
  from first obtain m where "n = Some m"
    "b = \<lparr>ba_Date = t, ba_InboundCapacity = 0, ba_OutboundCapacity = m, ba_CapacityDiff = None\<rparr>"
    by (auto simp: scan_balance_def split: option.splits if_splits)
  with differences_lead_to_last [of m rows' bs t None] others show ?thesis by simp
qed

text \<open>Without an open or close event there is no initial balance, and any movement fails the request.\<close>

lemma balance_needs_events:
  assumes "initial_balance db channelId = None"
    and "m \<in> set (movements db scid channelId)" and "in_window zone from_time to_time (mv_Time m)"
  shows "\<exists>e. collect scan_balance (balance_rows db zone scid channelId from_time to_time) = Inl e"
proof -
  have null: "balance_at None ms t = None" for ms t by (simp add: balance_at_def)
  have "with_diffs before (map (\<lambda>m. (mv_Time m, None)) ms) \<noteq> [] \<and>
      isl (scan_balance (hd (with_diffs before (map (\<lambda>m. (mv_Time m, None)) ms))))" if "ms \<noteq> []" for before ms
    using that by (cases ms) (auto simp: scan_balance_def)
  moreover have "filter (\<lambda>m. in_window zone from_time to_time (mv_Time m)) (sort_key mv_Time (movements db scid channelId)) \<noteq> []"
    using assms(2,3) by (auto simp: filter_empty_conv)
  ultimately have "balance_rows db zone scid channelId from_time to_time \<noteq> []"
    "isl (scan_balance (hd (balance_rows db zone scid channelId from_time to_time)))"
    unfolding balance_rows_def Let_def assms(1) null by blast+
  then show ?thesis by (intro collect_error [where f = scan_balance, OF hd_in_set])
qed

text \<open>A failed attempt over the channel takes as much from the shown balance as the one that succeeded.\<close>

lemma failed_attempts_count:
  assumes "attempts (pr_Htlcs p) = [\<lparr>pa_Status = Some 2, pa_Hops = [hop]\<rparr>, \<lparr>pa_Status = Some 1, pa_Hops = [hop]\<rparr>]"
    and "ah_ChanId hop = Some scid" and "ah_AmtToForwardMsat hop = Some n" and "pr_Status p = ''SUCCEEDED''"
  shows "payment_movement attempts scid p = Some \<lparr>mv_Time = pr_CreationTimestamp p, mv_Amt = Some (of_int (- (2 * n)))\<rparr>"
  using assms by (simp add: payment_movement_def first_hops_def List.map_filter_simps sql_total_def)

section \<open>Examples\<close>

definition sample_hop :: "nat \<Rightarrow> string \<Rightarrow> AttemptHop" where
  "sample_hop i key = \<lparr>ah_ChanId = Some i, ah_PubKey = Some key, ah_AmtToForwardMsat = Some 1000\<rparr>"

definition sample_attempts :: attempts_of where
  "sample_attempts _ = [\<lparr>pa_Status = Some 1, pa_Hops = [sample_hop 5 ''n'', sample_hop 6 ''k'']\<rparr>]"

theorem split_costs_add_up_witness:
  "\<exists>a b c. getChannelRebalancing None sample_attempts id [stored_payment] [1] [''k''] [''5''] 0 10 = Ok a \<and>
     getChannelRebalancing None sample_attempts id [stored_payment] [1] [''k''] [''6''] 0 10 = Ok b \<and>
     getChannelRebalancing None sample_attempts id [stored_payment] [1] [''k''] ([''5''] @ [''6'']) 0 10 = Ok c \<and>
     rd_SplitCostMsat c \<le> rd_SplitCostMsat a + rd_SplitCostMsat b \<and>
     rd_SplitCostMsat a + rd_SplitCostMsat b \<le> rd_SplitCostMsat c + 1 \<and>
     rd_TotalCostMsat a \<le> 2 * rd_SplitCostMsat a \<and> rd_SplitCostMsat a \<le> rd_TotalCostMsat a"
proof -
  let ?get = "\<lambda>ids. getChannelRebalancing None sample_attempts id [stored_payment] [1] [''k''] ids 0 10"
  have "\<not> isl (?get [''5''])" "\<not> isl (?get [''6''])" "\<not> isl (?get ([''5''] @ [''6'']))" by code_simp+
  then obtain a b c where "?get [''5''] = Ok a" "?get [''6''] = Ok b" "?get ([''5''] @ [''6'']) = Ok c"
    by (metis isl_def sum.exhaust_sel)
  moreover have "list_all (\<lambda>p. 0 \<le> sint (pr_FeeMsat p)) [stored_payment]" by (simp add: stored_payment_def)
  moreover have "set [''5''] \<inter> set [''6''] = {}" by simp
  ultimately show ?thesis using split_costs_add_up [of None sample_attempts id "[stored_payment]" "[1]" "[''k'']" "[''5'']" 0 10 a "[''6'']" b c]
    by blast
qed

end
