(* ===== verification/HistoryRoutes.thy ===== *)
theory HistoryRoutes
  imports ChannelCosts
begin

text \<open>
  \<open>src/internal/channel_history/channel_events.go\<close>: the changes of the routing policies of channels, over
  the rows the graph subscription stores (\<open>LndGraph\<close>), and \<open>handlers.go\<close>: the five requests about the
  history of channels.  The theorems say that the changes of a setting, replayed, give the setting of the
  latest stored policy of a channel, and that those of its two ends are mixed.
\<close>

section \<open>Changes of policies\<close>

record PolicyChange =
  ph_Date :: time
  ph_Datetime :: time
  ph_ChannelId :: int
  ph_Outbound :: bool
  ph_Type :: string
  ph_Value :: "rat option"
  ph_PreviousValue :: "rat option"

text \<open>\<open>lag(x, 1, default) over (partition by channel_id order by ts)\<close>: the setting of the row before.\<close>

fun lagged :: "('p \<Rightarrow> 'v) \<Rightarrow> 'v \<Rightarrow> 'p list \<Rightarrow> ('p \<times> 'v) list" where
  "lagged f before [] = []"
| "lagged f before (p # ps) = (p, before) # lagged f (f p) ps"

definition changed :: "('p \<Rightarrow> 'v) \<Rightarrow> 'p \<times> 'v \<Rightarrow> bool" where
  "changed f pv \<longleftrightarrow> snd pv \<noteq> f (fst pv)"

definition of_channel :: "int \<Rightarrow> ChannelEventFromGraph list \<Rightarrow> ChannelEventFromGraph list" where
  "of_channel i ps = sort_key ceg_EventTime (filter (\<lambda>p. ceg_ChannelId p = i) ps)"

definition policy_steps ::
    "(ChannelEventFromGraph \<Rightarrow> 'v) \<Rightarrow> 'v \<Rightarrow> ChannelEventFromGraph list \<Rightarrow> (ChannelEventFromGraph \<times> 'v) list" where
  "policy_steps f none ps =
     concat (map (\<lambda>i. filter (changed f) (lagged f none (of_channel i ps))) (remdups (map ceg_ChannelId ps)))"

text \<open>A change of one kind; \<open>date(ts)\<close> is the start of the day, read as a time of the preferred zone.\<close>

definition policy_change ::
    "(time \<Rightarrow> time) \<Rightarrow> int list \<Rightarrow> (ChannelEventFromGraph \<Rightarrow> string) \<Rightarrow> (ChannelEventFromGraph \<Rightarrow> 'v) \<Rightarrow>
     ('v \<Rightarrow> rat option) \<Rightarrow> ChannelEventFromGraph \<times> 'v \<Rightarrow> PolicyChange" where
  "policy_change zone nodeIds kind f value pv =
     (let p = fst pv
      in \<lparr>ph_Date = zone (day_of (ceg_EventTime p) * day_ns), ph_Datetime = zone (ceg_EventTime p),
          ph_ChannelId = ceg_ChannelId p, ph_Outbound = (ceg_AnnouncingNodeId p \<in> set nodeIds),
          ph_Type = kind p, ph_Value = value (f p), ph_PreviousValue = value (snd pv)\<rparr>)"

definition whole_sat :: "int \<Rightarrow> rat option" where
  "whole_sat msat = Some (sql_round 0 (of_int msat / 1000))"

text \<open>The five parts of the query, together without duplicates and the latest first.\<close>

definition policy_changes :: "(time \<Rightarrow> time) \<Rightarrow> int list \<Rightarrow> ChannelEventFromGraph list \<Rightarrow> PolicyChange list" where
  "policy_changes zone nodeIds ps =
     (let of_kind = (\<lambda>kind f value. map (policy_change zone nodeIds (\<lambda>_. kind) f value) (policy_steps f 0 ps));
          disabled = map (policy_change zone nodeIds (\<lambda>p. if ceg_Disabled p then ''disabled'' else ''enabled'') ceg_Disabled
                            (\<lambda>_. None)) (policy_steps ceg_Disabled False ps)
      in sort_key (\<lambda>c. - ph_Datetime c) (remdups (disabled @
           of_kind ''fee_rate'' (\<lambda>p. sint (ceg_FeeRateMilliMsat p)) (\<lambda>n. Some (of_int n)) @
           of_kind ''base_fee'' (\<lambda>p. sint (ceg_FeeBaseMsat p)) whole_sat @
           of_kind ''max_htlc'' (\<lambda>p. uint (ceg_MaxHtlcMsat p)) whole_sat @
           of_kind ''min_htlc'' (\<lambda>p. uint (ceg_MinHtlcMsat p)) whole_sat)))"

definition scan_change :: "PolicyChange \<Rightarrow> PolicyChange result" where
  "scan_change c =
     (case (scan_uint_opt 64 (ph_Value c), scan_uint_opt 64 (ph_PreviousValue c)) of
        (Inr _, Inr _) \<Rightarrow> Ok c
      | _ \<Rightarrow> Fails ''value out of range or invalid syntax'')"

definition policy_in_range :: "(time \<Rightarrow> time) \<Rightarrow> int list \<Rightarrow> time \<Rightarrow> time \<Rightarrow> ChannelEventFromGraph \<Rightarrow> bool" where
  "policy_in_range zone channelIds from_time to_time p \<longleftrightarrow>
     ceg_ChannelId p \<in> set channelIds \<and> in_window zone from_time to_time (ceg_EventTime p)"

definition getChannelEventHistory ::
    "go_error option \<Rightarrow> (time \<Rightarrow> time) \<Rightarrow> ChannelEventFromGraph list \<Rightarrow> int list \<Rightarrow> int list \<Rightarrow> time \<Rightarrow> time \<Rightarrow>
     PolicyChange list result" where
  "getChannelEventHistory query zone policies nodeIds channelIds from_time to_time =
     (case query of
        Some e \<Rightarrow> Inl (wrapped ''sqlx.In'' e)
      | None \<Rightarrow>
          (case collect scan_change
                  (policy_changes zone nodeIds (filter (policy_in_range zone channelIds from_time to_time) policies)) of
             Inl e \<Rightarrow> Inl (wrapped ''SQL row scan'' e)
           | Inr cs \<Rightarrow> Ok cs))"

section \<open>Requests\<close>

definition FROM_ERROR :: string where
  "FROM_ERROR = ''Invalid '' @ [CHR 0x27] @ ''from'' @ [CHR 0x27] @ '' date.''"

definition TO_ERROR :: string where
  "TO_ERROR = ''Invalid '' @ [CHR 0x27] @ ''to'' @ [CHR 0x27] @ '' date.''"

definition getChannelFrom :: "string \<Rightarrow> time result" where
  "getChannelFrom queryFrom = (case parse_date queryFrom of Inl e \<Rightarrow> Inl (wrapped ''Time parse'' e) | Inr t \<Rightarrow> Ok t)"

definition getChannelTo :: "string \<Rightarrow> time result" where
  "getChannelTo queryTo = (case parse_date queryTo of Inl e \<Rightarrow> Inl (wrapped ''Time parse'' e) | Inr t \<Rightarrow> Ok t)"

record HistoryQuery =
  hq_ChanIds :: string
  hq_From :: string
  hq_To :: string
  hq_Network :: string
  hq_Chain :: string

record ChannelHistoryBody =
  chi_Label :: string
  chi_Sums :: "HistorySums option"
  chi_Channels :: "Channel list"
  chi_History :: "ChannelHistoryRecord list"

record ChannelReBalancing =
  crb_RebalancingCost :: int
  crb_RebalancingDetails :: RebalancingDetails

datatype HistoryAnswer =
    HistoryError ServerError
  | HistoryOf ChannelHistoryBody
  | EventsOf "PolicyChange list"
  | BalancesOf "ChannelBalance list"
  | RebalancingOf ChannelReBalancing
  | OnChainCostOf int

definition history_error :: "int \<times> ServerError \<Rightarrow> int \<times> HistoryAnswer" where
  "history_error r = map_prod id HistoryError r"

text \<open>
  What a request finds: the tables, the caches, which of its queries fails, and after how many days but
  the first a failure ends the loop over the days.
\<close>

datatype HistoryStatement = TotalQuery | ChannelsQuery | DaysQuery | EventsQuery | CostQuery

record HistoryEnv =
  he_Tables :: BalanceDb
  he_Policies :: "ChannelEventFromGraph list"
  he_Zone :: "string \<Rightarrow> time \<Rightarrow> time"
  he_Fails :: "HistoryStatement \<Rightarrow> go_error option"
  he_Cut :: "nat option"
  he_Channels :: ChannelState
  he_ChannelOrders :: channel_orders
  he_Nodes :: NodeState
  he_NodeOrders :: NodeOrders
  he_Settings :: SettingsState

definition history_dates :: "HistoryQuery \<Rightarrow> (int \<times> HistoryAnswer) + (time \<times> time)" where
  "history_dates q =
     (case getChannelFrom (hq_From q) of
        Inl _ \<Rightarrow> Inl (history_error (SendBadRequest FROM_ERROR))
      | Inr from_time \<Rightarrow>
          (case getChannelTo (hq_To q) of
             Inl _ \<Rightarrow> Inl (history_error (SendBadRequest TO_ERROR))
           | Inr to_time \<Rightarrow> Inr (from_time, to_time)))"

definition chan_ids :: "HistoryQuery \<Rightarrow> string list" where
  "chan_ids q = split_on (CHR '','') (hq_ChanIds q)"

definition GetChannels :: "go_error option \<Rightarrow> Channel list \<Rightarrow> bool \<Rightarrow> int list \<Rightarrow> Channel list result" where
  "GetChannels query channels getAll channelIds =
     (case query of
        Some e \<Rightarrow> Inl (wrapped ''Running getChannels query'' e)
      | None \<Rightarrow> Ok (filter (\<lambda>c. getAll \<or> ch_ChannelID c \<in> set channelIds) channels))"

text \<open>None in what follows: a cache gives no answer.\<close>

definition zone_of :: "HistoryEnv \<Rightarrow> (time \<Rightarrow> time) option" where
  "zone_of env = map_option (\<lambda>s. he_Zone env (ms_PreferredTimeZone s)) (GetSettings (he_Settings env))"

definition nodes_of :: "HistoryEnv \<Rightarrow> HistoryQuery \<Rightarrow> int list option" where
  "nodes_of env q =
     GetAllTorqNodeIds (he_NodeOrders env) (he_Nodes env) (GetChain (hq_Chain q)) (GetNetwork (hq_Network q))"

definition history_answer :: "('a \<Rightarrow> HistoryAnswer) \<Rightarrow> 'a result \<Rightarrow> int \<times> HistoryAnswer" where
  "history_answer made r =
     (case r of Inl e \<Rightarrow> history_error (LogAndSendServerError e) | Inr x \<Rightarrow> (200, made x))"

definition channel_history :: "HistoryEnv \<Rightarrow> bool \<Rightarrow> int list \<Rightarrow> time \<Rightarrow> time \<Rightarrow> ChannelHistoryBody result option" where
  "channel_history env getAll ids from_time to_time =
     (case getChannelTotal (he_Fails env TotalQuery) (bl_Forwards (he_Tables env)) getAll ids from_time to_time of
        Inl e \<Rightarrow> Some (Inl e)
      | Inr totals \<Rightarrow>
     (case GetChannels (he_Fails env ChannelsQuery) (map snd (bl_Channels (he_Tables env))) getAll ids of
        Inl e \<Rightarrow> Some (Inl e)
      | Inr cs \<Rightarrow>
          map_option (\<lambda>zone.
            case getChannelHistory (he_Fails env DaysQuery) (he_Cut env) zone (bl_Forwards (he_Tables env)) getAll ids from_time to_time of
              Inl e \<Rightarrow> Inl e
            | Inr days \<Rightarrow> Ok \<lparr>chi_Label = [], chi_Sums = totals, chi_Channels = cs, chi_History = days\<rparr>)
            (zone_of env)))"

definition getChannelHistoryHandler :: "HistoryEnv \<Rightarrow> HistoryQuery \<Rightarrow> (int \<times> HistoryAnswer) option" where
  "getChannelHistoryHandler env q =
     (case history_dates q of
        Inl r \<Rightarrow> Some r
      | Inr (from_time, to_time) \<Rightarrow>
     (case requested_channels (he_ChannelOrders env) (he_Channels env) (chan_ids q) of
        None \<Rightarrow> None
      | Some (Inl e) \<Rightarrow> Some (history_error (LogAndSendServerError e))
      | Some (Inr (getAll, ids)) \<Rightarrow>
          map_option (history_answer HistoryOf) (channel_history env getAll ids from_time to_time)))"

definition getChannelEventHistoryHandler :: "HistoryEnv \<Rightarrow> HistoryQuery \<Rightarrow> (int \<times> HistoryAnswer) option" where
  "getChannelEventHistoryHandler env q =
     (case history_dates q of
        Inl r \<Rightarrow> Some r
      | Inr (from_time, to_time) \<Rightarrow>
     (case requested_channels (he_ChannelOrders env) (he_Channels env) (chan_ids q) of
        None \<Rightarrow> None
      | Some (Inl e) \<Rightarrow> Some (history_error (LogAndSendServerError e))
      | Some (Inr (getAll, ids)) \<Rightarrow>
     (case (nodes_of env q, zone_of env) of
        (Some nodeIds, Some zone) \<Rightarrow> Some (history_answer EventsOf
          (getChannelEventHistory (he_Fails env EventsQuery) zone (he_Policies env) nodeIds ids from_time to_time))
      | _ \<Rightarrow> None)))"

text \<open>The balances of one channel after the other; all channels together have none.\<close>

fun channel_balances :: "HistoryEnv \<Rightarrow> time \<Rightarrow> time \<Rightarrow> string list \<Rightarrow> ChannelBalance list result option" where
  "channel_balances env from_time to_time [] = Some (Ok [])"
| "channel_balances env from_time to_time (s # ss) =
     (case getChannelBalance (he_Tables env) (he_Zone env) (he_ChannelOrders env) (he_Channels env) (he_Settings env)
             s from_time to_time of
        None \<Rightarrow> None
      | Some (Inl e) \<Rightarrow> Some (Inl e)
      | Some (Inr cb) \<Rightarrow> map_option (map_sum id (Cons cb)) (channel_balances env from_time to_time ss))"

definition getChannelBalanceHandler :: "HistoryEnv \<Rightarrow> HistoryQuery \<Rightarrow> (int \<times> HistoryAnswer) option" where
  "getChannelBalanceHandler env q =
     (case history_dates q of
        Inl r \<Rightarrow> Some r
      | Inr (from_time, to_time) \<Rightarrow>
          map_option (history_answer BalancesOf)
            (if chan_ids q = [''1''] then Some (Ok []) else channel_balances env from_time to_time (chan_ids q)))"

definition rebalancing_of :: "(RebalancingDetails \<Rightarrow> int) \<Rightarrow> RebalancingDetails result \<Rightarrow> int \<times> HistoryAnswer" where
  "rebalancing_of cost r =
     history_answer (\<lambda>d. RebalancingOf \<lparr>crb_RebalancingCost = cost d, crb_RebalancingDetails = d\<rparr>) r"

definition getChannelReBalancingHandler :: "HistoryEnv \<Rightarrow> HistoryQuery \<Rightarrow> (int \<times> HistoryAnswer) option" where
  "getChannelReBalancingHandler env q =
     (case history_dates q of
        Inl r \<Rightarrow> Some r
      | Inr (from_time, to_time) \<Rightarrow>
     (case nodes_of env q of
        None \<Rightarrow> None
      | Some nodeIds \<Rightarrow>
     (case (public_keys (he_NodeOrders env) (he_Nodes env) nodeIds, zone_of env) of
        (Some keys, Some zone) \<Rightarrow>
          (let db = he_Tables env; failure = he_Fails env CostQuery
           in Some (if chan_ids q = [''1'']
                    then rebalancing_of rd_TotalCostMsat
                           (getRebalancingCost failure (bl_Attempts db) zone (bl_Payments db) keys from_time to_time)
                    else rebalancing_of rd_SplitCostMsat
                           (getChannelRebalancing failure (bl_Attempts db) zone (bl_Payments db) nodeIds keys (chan_ids q)
                              from_time to_time)))
      | _ \<Rightarrow> None)))"

definition getTotalOnchainCostHandler :: "HistoryEnv \<Rightarrow> HistoryQuery \<Rightarrow> (int \<times> HistoryAnswer) option" where
  "getTotalOnchainCostHandler env q =
     (case history_dates q of
        Inl r \<Rightarrow> Some r
      | Inr (from_time, to_time) \<Rightarrow>
          (if chan_ids q = [''1'']
           then (case (nodes_of env q, zone_of env) of
                   (Some nodeIds, Some zone) \<Rightarrow> Some (history_answer OnChainCostOf
                     (getTotalOnChainCost (he_Fails env CostQuery) zone (bl_Txs (he_Tables env)) nodeIds from_time to_time))
                 | _ \<Rightarrow> None)
           else Some (history_answer OnChainCostOf
                  (getChannelOnChainCost (he_Fails env CostQuery) (bl_Txs (he_Tables env)) (chan_ids q)))))"

datatype HistoryRoute = HistoryRoute | EventRoute | BalanceRoute | RebalancingRoute | OnChainCostRoute

fun history_request :: "HistoryEnv \<Rightarrow> HistoryRoute \<Rightarrow> HistoryQuery \<Rightarrow> (int \<times> HistoryAnswer) option" where
  "history_request env HistoryRoute q = getChannelHistoryHandler env q"
| "history_request env EventRoute q = getChannelEventHistoryHandler env q"
| "history_request env BalanceRoute q = getChannelBalanceHandler env q"
| "history_request env RebalancingRoute q = getChannelReBalancingHandler env q"
| "history_request env OnChainCostRoute q = getTotalOnchainCostHandler env q"

section \<open>Replaying the changes\<close>

text \<open>Steps that each start from where the one before ended; the result is where the last ends.\<close>

fun replays :: "'v \<Rightarrow> ('v \<times> 'v) list \<Rightarrow> 'v option" where
  "replays v [] = Some v"
| "replays v ((before, after) # xs) = (if before = v \<and> after \<noteq> v then replays after xs else None)"

definition last_setting :: "('p \<Rightarrow> 'v) \<Rightarrow> 'v \<Rightarrow> 'p list \<Rightarrow> 'v" where
  "last_setting f none ps = (if ps = [] then none else f (last ps))"

lemma lagged_replays:
  "replays v (map (\<lambda>pv. (snd pv, f (fst pv))) (filter (changed f) (lagged f v ps))) = Some (last_setting f v ps)"
  by (induction ps arbitrary: v) (auto simp: changed_def last_setting_def)

lemma lagged_policies: "pv \<in> set (lagged f v ps) \<Longrightarrow> fst pv \<in> set ps"
  by (induction ps arbitrary: v) auto

lemma steps_of_channel:
  "filter (\<lambda>pv. ceg_ChannelId (fst pv) = i) (policy_steps f none ps) =
     filter (changed f) (lagged f none (of_channel i ps))"
proof -
  let ?steps = "\<lambda>j. filter (changed f) (lagged f none (of_channel j ps))"
  have steps: "ceg_ChannelId (fst pv) = j" if "pv \<in> set (?steps j)" for pv j
    using that lagged_policies [of pv f none "of_channel j ps"] by (auto simp: of_channel_def)
  have own: "filter (\<lambda>pv. ceg_ChannelId (fst pv) = i) (?steps j) = (if j = i then ?steps j else [])" for j
  proof (cases "j = i")
    case True
    have "filter (\<lambda>pv. ceg_ChannelId (fst pv) = i) (?steps j) = ?steps j"
      by (rule filter_True) (use steps [of _ j] True in blast)
    with True show ?thesis by (simp only: if_True refl)
  next
    case False
    have "filter (\<lambda>pv. ceg_ChannelId (fst pv) = i) (?steps j) = []"
      by (rule filter_False) (use steps [of _ j] False in blast)
    with False show ?thesis by (simp only: if_False)
  qed
  have found: "filter (\<lambda>pv. ceg_ChannelId (fst pv) = i) (concat (map ?steps js)) = (if i \<in> set js then ?steps i else [])"
    if "distinct js" for js
    using that
  proof (induction js)
    case (Cons j js)
    then show ?case by (simp only: list.map concat.simps filter_append own) auto
  qed simp
  show ?thesis
  proof (cases "i \<in> set (map ceg_ChannelId ps)")
    case True
    with found [of "remdups (map ceg_ChannelId ps)"] show ?thesis by (simp add: policy_steps_def)
  next
    case False
    then have "filter (\<lambda>p. ceg_ChannelId p = i) ps = []" by (auto simp: filter_empty_conv)
    then have "of_channel i ps = []" by (simp add: of_channel_def)
    with False found [of "remdups (map ceg_ChannelId ps)"] show ?thesis by (simp add: policy_steps_def)
  qed
qed

text \<open>
  For every setting, the changes found for a channel start from nothing (0, or not disabled), each
  continues where the one before ended, and the last ends at the setting of the latest of the policies,
  whichever end of the channel announced it.
\<close>

lemma changes_replay_to_latest:
  "replays none (map (\<lambda>pv. (snd pv, f (fst pv))) (filter (\<lambda>pv. ceg_ChannelId (fst pv) = i) (policy_steps f none ps))) =
     Some (last_setting f none (of_channel i ps))"
  unfolding steps_of_channel by (rule lagged_replays)

text \<open>
  The policies of the two ends are not told apart: when the ends have different settings, neither ever
  changes its own and they announce them in turn, each announcement is found to be a change.
\<close>

lemma unchanged_ends_found_changed:
  assumes "successively (\<lambda>p q. ceg_AnnouncingNodeId p \<noteq> ceg_AnnouncingNodeId q) ps"
    and "\<And>p. p \<in> set ps \<Longrightarrow> f p = (if ceg_AnnouncingNodeId p = n then a else b)" and "a \<noteq> b"
    and "\<And>p. p \<in> set ps \<Longrightarrow> ceg_AnnouncingNodeId p \<in> {n, m}" and "ps \<noteq> [] \<Longrightarrow> none \<noteq> f (hd ps)"
  shows "filter (changed f) (lagged f none ps) = lagged f none ps"
  using assms
proof (induction ps arbitrary: none)
  case (Cons p ps)
  have "ps \<noteq> [] \<Longrightarrow> f p \<noteq> f (hd ps)"
    using Cons.prems(1-4) by (cases ps) auto
  moreover have "successively (\<lambda>p q. ceg_AnnouncingNodeId p \<noteq> ceg_AnnouncingNodeId q) ps"
    using Cons.prems(1) by (cases ps) auto
  ultimately have "filter (changed f) (lagged f (f p) ps) = lagged f (f p) ps"
    using Cons.prems(2-4) by (intro Cons.IH) auto
  moreover have "changed f (p, none)" using Cons.prems(5) by (simp add: changed_def)
  ultimately show ?case by simp
qed simp

section \<open>All channels\<close>

lemma no_policies_no_changes: "policy_changes zone nodeIds [] = []"
  by (simp add: policy_changes_def policy_steps_def)

text \<open>
  A request for all channels asks for the changes of channel 0, which no policy has, and for no
  balance: both are answered as if there were none.
\<close>

lemma all_channels_show_nothing:
  assumes "chan_ids q = [''1'']" and "history_dates q = Inr (from_time, to_time)"
    and "nodes_of env q = Some nodeIds" and "zone_of env = Some zone" and "he_Fails env EventsQuery = None"
    and "\<And>p. p \<in> set (he_Policies env) \<Longrightarrow> ceg_ChannelId p \<noteq> 0"
  shows "history_request env EventRoute q = Some (200, EventsOf [])"
    and "history_request env BalanceRoute q = Some (200, BalancesOf [])"
proof -
  have "filter (policy_in_range zone [0] from_time to_time) (he_Policies env) = []"
    using assms(6) by (auto simp: filter_empty_conv policy_in_range_def)
  with assms show "history_request env EventRoute q = Some (200, EventsOf [])"
    by (simp add: getChannelEventHistoryHandler_def requested_channels_def getChannelEventHistory_def
        no_policies_no_changes history_answer_def)
  show "history_request env BalanceRoute q = Some (200, BalancesOf [])"
    using assms(1,2) by (simp add: getChannelBalanceHandler_def history_answer_def)
qed

text \<open>
  Every request with a date that is none is answered with 400 and reads nothing.
\<close>

lemma bad_dates_refused:
  assumes "isl (parse_date (hq_From q)) \<or> isl (parse_date (hq_To q))"
  shows "\<exists>e \<in> {FROM_ERROR, TO_ERROR}. history_request env route q = Some (400, HistoryError (SingleServerError e))"
proof -
  have "\<exists>e \<in> {FROM_ERROR, TO_ERROR}. history_dates q = Inl (400, HistoryError (SingleServerError e))"
    using assms by (auto simp: history_dates_def getChannelFrom_def getChannelTo_def history_error_def SendBadRequest_def
        split: sum.splits)
  then show ?thesis
    by (cases route) (auto simp: getChannelHistoryHandler_def getChannelEventHistoryHandler_def getChannelBalanceHandler_def
        getChannelReBalancingHandler_def getTotalOnchainCostHandler_def)
qed

end
