(* ===== verification/ChannelList.thy ===== *)
theory ChannelList
  imports ChannelRequests Channels LndGraph SettingsTable Labels Sql
begin

text \<open>
  The list of open channels of \<open>src/internal/channels/handlers.go\<close>, put together from the caches of
  states, channels and nodes, and the queries of \<open>database.go\<close> that only read: the latest routing policy
  of each end of a channel (over the rows of \<open>LndGraph\<close>) and the alias of a peer.  The two handlers of
  requests that change channels pass them to the functions of \<open>ChannelRequests\<close>.  The theorems say that
  the list shows every cached state once, with 0 for its LND short channel id, that one channel without
  a capacity fails it, and that the policy of the remote end is the local one as seen from there.
\<close>

section \<open>Policies and aliases\<close>

definition between :: "Channel \<Rightarrow> (int \<Rightarrow> bool) \<Rightarrow> ChannelEventFromGraph \<Rightarrow> bool" where
  "between c own p \<longleftrightarrow>
     own (ch_FirstNodeId c) \<and> ceg_AnnouncingNodeId p = ch_FirstNodeId c \<and> ceg_ConnectingNodeId p = ch_SecondNodeId c \<or>
     own (ch_SecondNodeId c) \<and> ceg_AnnouncingNodeId p = ch_SecondNodeId c \<and> ceg_ConnectingNodeId p = ch_FirstNodeId c"

text \<open>The join of policies and channels, the latest row of which counts.\<close>

definition policy_rows ::
    "(int \<Rightarrow> bool) \<Rightarrow> ChannelEventFromGraph list \<Rightarrow> (int \<times> Channel) list \<Rightarrow> int \<Rightarrow> (ChannelEventFromGraph \<times> Channel) list" where
  "policy_rows own policies channels channelId =
     concat (map (\<lambda>p. map (Pair p)
       (filter (\<lambda>c. ch_ChannelID c = ceg_ChannelId p \<and> ch_ChannelID c = channelId \<and> between c own p) (map snd channels))) policies)"

text \<open>The numbers are scanned into unsigned variables, and the short channel id into a string.\<close>

definition scan_policy :: "int \<Rightarrow> int \<Rightarrow> ChannelEventFromGraph \<times> Channel \<Rightarrow> ChannelPolicy result" where
  "scan_policy nodeId remoteNodeId pc =
     (let p = fst pc
      in case ch_ShortChannelID (snd pc) of
           None \<Rightarrow> Fails ''converting NULL to string is unsupported''
         | Some scid \<Rightarrow>
             if 0 \<le> sint (ceg_FeeBaseMsat p) \<and> 0 \<le> sint (ceg_FeeRateMilliMsat p)
             then Ok \<lparr>cpol_Disabled = ceg_Disabled p, cpol_TimeLockDelta = ceg_TimeLockDelta p,
                      cpol_MinHtlcMsat = ceg_MinHtlcMsat p, cpol_MaxHtlcMsat = ceg_MaxHtlcMsat p,
                      cpol_FeeRateMillMsat = word_of_int (sint (ceg_FeeRateMilliMsat p)), cpol_ShortChannelId = scid,
                      cpol_FeeBaseMsat = word_of_int (sint (ceg_FeeBaseMsat p)),
                      cpol_NodeId = nodeId, cpol_RemoteNodeId = remoteNodeId\<rparr>
             else Fails ''value out of range'')"

definition zeroPolicy :: ChannelPolicy where
  "zeroPolicy =
     \<lparr>cpol_Disabled = False, cpol_TimeLockDelta = 0, cpol_MinHtlcMsat = 0, cpol_MaxHtlcMsat = 0, cpol_FeeRateMillMsat = 0,
      cpol_ShortChannelId = [], cpol_FeeBaseMsat = 0, cpol_NodeId = 0, cpol_RemoteNodeId = 0\<rparr>"

definition latest_policy ::
    "(ChannelEventFromGraph \<Rightarrow> int \<times> int) \<Rightarrow> go_error option \<Rightarrow> (ChannelEventFromGraph \<times> Channel) list \<Rightarrow> ChannelPolicy result" where
  "latest_policy ends query rows =
     (case query of
        Some e \<Rightarrow> Inl (wrapped SqlExecutionError e)
      | None \<Rightarrow>
          (case latest (ceg_EventTime \<circ> fst) rows of
             None \<Rightarrow> Ok zeroPolicy
           | Some r \<Rightarrow>
               (case scan_policy (fst (ends (fst r))) (snd (ends (fst r))) r of
                  Inl e \<Rightarrow> Inl (wrapped SqlExecutionError e)
                | Inr cp \<Rightarrow> Ok cp)))"

definition GetLocalRoutingPolicy ::
    "go_error option \<Rightarrow> ChannelEventFromGraph list \<Rightarrow> (int \<times> Channel) list \<Rightarrow> int \<Rightarrow> int \<Rightarrow> ChannelPolicy result" where
  "GetLocalRoutingPolicy query policies channels channelId nodeId =
     latest_policy (\<lambda>p. (ceg_AnnouncingNodeId p, ceg_ConnectingNodeId p)) query
       (policy_rows (\<lambda>n. n = nodeId) policies channels channelId)"

definition GetRemoteRoutingPolicy ::
    "go_error option \<Rightarrow> ChannelEventFromGraph list \<Rightarrow> (int \<times> Channel) list \<Rightarrow> int \<Rightarrow> int \<Rightarrow> ChannelPolicy result" where
  "GetRemoteRoutingPolicy query policies channels channelId nodeId =
     latest_policy (\<lambda>p. (ceg_ConnectingNodeId p, ceg_AnnouncingNodeId p)) query
       (policy_rows (\<lambda>n. n \<noteq> nodeId) policies channels channelId)"

text \<open>
  \<open>errors.As\<close> takes any error of the query for a missing row.  Which of several aliases is returned is
  up to the database.
\<close>

definition GetNodePeerAlias ::
    "go_error option \<Rightarrow> (string list \<Rightarrow> string) \<Rightarrow> NodeEventFromGraph list \<Rightarrow> int \<Rightarrow> int \<Rightarrow> string result" where
  "GetNodePeerAlias query pick nodeEvents nodeId eventNodeId =
     (case query of
        Some e \<Rightarrow> Ok []
      | None \<Rightarrow>
          (case remdups (map neg_Alias (filter (\<lambda>e. neg_NodeId e = nodeId \<and> neg_EventNodeId e = eventNodeId) nodeEvents)) of
             [] \<Rightarrow> Ok []
           | a # as \<Rightarrow> Ok (pick (a # as))))"

definition GetAllChannels :: "go_error option \<Rightarrow> (int \<times> Channel) list \<Rightarrow> Channel list result" where
  "GetAllChannels query channels =
     (case query of Some e \<Rightarrow> Inl (wrapped SqlExecutionError e) | None \<Rightarrow> Ok (map snd channels))"

section \<open>The list\<close>

record channelBody =
  cby_NodeId :: int
  cby_ChannelId :: int
  cby_ChannelPoint :: string
  cby_NodeName :: string
  cby_Active :: bool
  cby_Gauge :: rat
  cby_RemotePubkey :: string
  cby_FundingTransactionHash :: string
  cby_FundingOutputIndex :: int
  cby_LNDShortChannelId :: string
  cby_ShortChannelId :: string
  cby_Capacity :: int64
  cby_LocalBalance :: int64
  cby_RemoteBalance :: int64
  cby_UnsettledBalance :: int64
  cby_CommitFee :: int64
  cby_CommitWeight :: int64
  cby_FeePerKw :: int64
  cby_FeeBaseMsat :: uint64
  cby_MinHtlcMsat :: uint64
  cby_MaxHtlcMsat :: uint64
  cby_TimeLockDelta :: uint32
  cby_FeeRateMilliMsat :: uint64
  cby_RemoteFeeBaseMsat :: uint64
  cby_RemoteMinHtlcMsat :: uint64
  cby_RemoteMaxHtlcMsat :: uint64
  cby_RemoteTimeLockDelta :: uint32
  cby_RemoteFeeRateMilliMsat :: uint64
  cby_PendingHtlcs :: PendingHtlcs
  cby_TotalSatoshisSent :: int64
  cby_NumUpdates :: uint64
  cby_Initiator :: bool
  cby_ChanStatusFlags :: string
  cby_LocalChanReserveSat :: int64
  cby_RemoteChanReserveSat :: int64
  cby_CommitmentType :: int
  cby_Lifetime :: int64
  cby_TotalSatoshisReceived :: int64
  cby_MempoolSpace :: string
  cby_AmbossSpace :: string
  cby_OneMl :: string
  cby_PeerAlias :: string

definition MEMPOOL :: string where
  "MEMPOOL = ''https://mempool.space/lightning/channel/''"

definition AMBOSS :: string where
  "AMBOSS = ''https://amboss.space/edge/''"

definition ONEML :: string where
  "ONEML = ''https://1ml.com/channel/''"

definition channel_body ::
    "int \<Rightarrow> string \<Rightarrow> ManagedChannelSettings \<Rightarrow> string \<Rightarrow> string \<Rightarrow> ManagedChannelStateSettings \<Rightarrow> channelBody" where
  "channel_body nodeId nodeName settings remotePublicKey peerAlias channel =
     (let lndShortChannelIdString = format_uint (unat (mcs_LndShortChannelId settings))
      in \<lparr>cby_NodeId = nodeId, cby_ChannelId = mcs_ChannelId settings,
          cby_ChannelPoint = CreateChannelPoint (mcs_FundingTransactionHash settings) (mcs_FundingOutputIndex settings),
          cby_NodeName = nodeName, cby_Active = (\<not> css_LocalDisabled channel),
          cby_Gauge = of_int (sint (css_LocalBalance channel)) / of_int (sint (mcs_Capacity settings)) * 100,
          cby_RemotePubkey = remotePublicKey, cby_FundingTransactionHash = mcs_FundingTransactionHash settings,
          cby_FundingOutputIndex = mcs_FundingOutputIndex settings, cby_LNDShortChannelId = lndShortChannelIdString,
          cby_ShortChannelId = mcs_ShortChannelId settings, cby_Capacity = mcs_Capacity settings,
          cby_LocalBalance = css_LocalBalance channel, cby_RemoteBalance = css_RemoteBalance channel,
          cby_UnsettledBalance = css_UnsettledBalance channel, cby_CommitFee = css_CommitFee channel,
          cby_CommitWeight = css_CommitWeight channel, cby_FeePerKw = css_FeePerKw channel,
          cby_FeeBaseMsat = css_LocalFeeBaseMsat channel, cby_MinHtlcMsat = css_LocalMinHtlcMsat channel,
          cby_MaxHtlcMsat = css_LocalMaxHtlcMsat channel, cby_TimeLockDelta = css_LocalTimeLockDelta channel,
          cby_FeeRateMilliMsat = css_LocalFeeRateMilliMsat channel,
          cby_RemoteFeeBaseMsat = css_RemoteFeeBaseMsat channel, cby_RemoteMinHtlcMsat = css_RemoteMinHtlcMsat channel,
          cby_RemoteMaxHtlcMsat = css_RemoteMaxHtlcMsat channel,
          cby_RemoteTimeLockDelta = css_RemoteTimeLockDelta channel,
          cby_RemoteFeeRateMilliMsat = css_RemoteFeeRateMilliMsat channel,
          cby_PendingHtlcs = calculateHTLCs (css_PendingHtlcs channel),
          cby_TotalSatoshisSent = css_TotalSatoshisSent channel, cby_NumUpdates = css_NumUpdates channel,
          cby_Initiator = (mcs_InitiatingNodeId settings = Some nodeId),
          cby_ChanStatusFlags = css_ChanStatusFlags channel, cby_LocalChanReserveSat = 0, cby_RemoteChanReserveSat = 0,
          cby_CommitmentType = css_CommitmentType channel, cby_Lifetime = css_Lifetime channel,
          cby_TotalSatoshisReceived = css_TotalSatoshisReceived channel,
          cby_MempoolSpace = MEMPOOL @ lndShortChannelIdString, cby_AmbossSpace = AMBOSS @ mcs_ShortChannelId settings,
          cby_OneMl = ONEML @ lndShortChannelIdString, cby_PeerAlias = peerAlias\<rparr>)"

text \<open>What the list is read from: the caches, the connection details and the announcements of nodes.\<close>

record ChannelListEnv =
  le_StateEnv :: StateEnv
  le_States :: StateCache
  le_ChannelOrders :: channel_orders
  le_Channels :: ChannelState
  le_NodeOrders :: NodeOrders
  le_Nodes :: NodeState
  le_DetailsEnv :: DetailsEnv
  le_Details :: details_table
  le_NodeEvents :: "NodeEventFromGraph list"
  le_AliasFails :: "int \<Rightarrow> int \<Rightarrow> go_error option"
  le_PickAlias :: "string list \<Rightarrow> string"

definition peer_alias :: "ChannelListEnv \<Rightarrow> int \<Rightarrow> int \<Rightarrow> string" where
  "peer_alias env nodeId remoteNodeId =
     (case GetNodePeerAlias (le_AliasFails env nodeId remoteNodeId) (le_PickAlias env) (le_NodeEvents env) nodeId remoteNodeId of
        Inl e \<Rightarrow> []
      | Inr a \<Rightarrow> a)"

text \<open>
  The channels of one node.  Without a name of the node the nil pointer is dereferenced.  None: a cache
  gives no answer.
\<close>

fun listed_channels ::
    "ChannelListEnv \<Rightarrow> int \<Rightarrow> string option \<Rightarrow> ManagedChannelStateSettings list \<Rightarrow> channelBody list result option" where
  "listed_channels env nodeId nodeName [] = Some (Ok [])"
| "listed_channels env nodeId nodeName (channel # channels) =
     (case (GetChannelSettingByChannelId (le_ChannelOrders env) (le_Channels env) (css_ChannelId channel),
            GetNodeSettingsByNodeId (le_NodeOrders env) (le_Nodes env) (css_RemoteNodeId channel)) of
        (Some settings, Some remoteNode) \<Rightarrow>
          (case nodeName of
             None \<Rightarrow> Some (Panics ''nil pointer dereference'')
           | Some name \<Rightarrow>
               map_option (map_sum id (Cons (channel_body nodeId name settings (mns_PublicKey remoteNode)
                   (peer_alias env nodeId (css_RemoteNodeId channel)) channel)))
                 (listed_channels env nodeId nodeName channels))
      | _ \<Rightarrow> None)"

fun list_nodes :: "ChannelListEnv \<Rightarrow> ConnectionDetails list \<Rightarrow> channelBody list result option" where
  "list_nodes env [] = Some (Ok [])"
| "list_nodes env (ncd # ncds) =
     (case (GetChannelStates (le_StateEnv env) (le_States env) (cd_NodeId ncd) True,
            GetNodeSettingsByNodeId (le_NodeOrders env) (le_Nodes env) (cd_NodeId ncd)) of
        (Some states, Some nodeSettings) \<Rightarrow>
          (case listed_channels env (cd_NodeId ncd) (mns_Name nodeSettings) states of
             None \<Rightarrow> None
           | Some (Inl e) \<Rightarrow> Some (Inl e)
           | Some (Inr bodies) \<Rightarrow> map_option (map_sum id (\<lambda>rest. bodies @ rest)) (list_nodes env ncds))
      | _ \<Rightarrow> None)"

datatype ChannelsAnswer =
    ChannelsError ServerError
  | ListedChannels "channelBody list"
  | UpdatedChannels UpdateChannelResponse
  | BatchOpened BatchOpenResponse

text \<open>
  JSON has no number for a gauge that is infinite or none, as with the capacity 0: then the encoder
  fails, and the web framework panics.
\<close>

definition encodable :: "channelBody \<Rightarrow> bool" where
  "encodable b \<longleftrightarrow> cby_Capacity b \<noteq> 0"

definition getChannelListHandler :: "ChannelListEnv \<Rightarrow> (int \<times> ChannelsAnswer) result option" where
  "getChannelListHandler env =
     (case GetActiveNodesConnectionDetails (le_DetailsEnv env) (le_Details env) of
        Inl e \<Rightarrow> Some (Ok (map_prod id ChannelsError (WrapLogAndSendServerError e ''List channels'')))
      | Inr activeNcds \<Rightarrow>
          (case list_nodes env activeNcds of
             None \<Rightarrow> None
           | Some (Inl e) \<Rightarrow> Some (Inl e)
           | Some (Inr bodies) \<Rightarrow>
               Some (if list_all encodable bodies then Ok (200, ListedChannels bodies)
                     else Panics ''json: unsupported value'')))"

section \<open>Requests\<close>

definition channels_answer :: "string \<Rightarrow> ('a \<Rightarrow> ChannelsAnswer) \<Rightarrow> 'a result \<Rightarrow> (int \<times> ChannelsAnswer) result" where
  "channels_answer message made r =
     (case r of
        Inl (Panic m) \<Rightarrow> Panics m
      | Inl e \<Rightarrow> Ok (map_prod id ChannelsError (WrapLogAndSendServerError e message))
      | Inr x \<Rightarrow> Ok (200, made x))"

text \<open>The requests are what the body decodes to; \<open>run\<close> is the function of \<open>ChannelRequests\<close> with its sources.\<close>

definition updateChannelsHandler ::
    "(UpdateChannelRequest \<Rightarrow> (UpdateChannelResponse list \<times> UpdateChannelResponse result) option) \<Rightarrow>
     UpdateChannelRequest result \<Rightarrow> (UpdateChannelResponse list \<times> (int \<times> ChannelsAnswer) result) option" where
  "updateChannelsHandler run body =
     (case body of
        Inl e \<Rightarrow> Some ([], Ok (map_prod id ChannelsError (SendBadRequestFromError (wrapped JsonParseError e))))
      | Inr req \<Rightarrow>
          map_option (\<lambda>(sent, r). (sent, channels_answer ''Update channel/s policy'' UpdatedChannels r)) (run req))"

definition batchOpenHandler ::
    "(BatchOpenRequest \<Rightarrow> BatchOpenResponse result) \<Rightarrow> BatchOpenRequest result \<Rightarrow> (int \<times> ChannelsAnswer) result" where
  "batchOpenHandler run body =
     (case body of
        Inl e \<Rightarrow> Ok (map_prod id ChannelsError (SendBadRequestFromError (wrapped JsonParseError e)))
      | Inr req \<Rightarrow> channels_answer ''Batch open channels'' BatchOpened (run req))"

section \<open>What the list shows\<close>

text \<open>The cached states of nodes, in the order of the list.\<close>

definition cached_states :: "ChannelListEnv \<Rightarrow> ConnectionDetails list \<Rightarrow> (int \<times> ManagedChannelStateSettings) list" where
  "cached_states env ncds =
     concat (map (\<lambda>ncd. map (Pair (cd_NodeId ncd))
       (the (GetChannelStates (le_StateEnv env) (le_States env) (cd_NodeId ncd) True))) ncds)"

definition cached_settings :: "ChannelListEnv \<Rightarrow> ManagedChannelStateSettings \<Rightarrow> ManagedChannelSettings" where
  "cached_settings env st =
     aget zeroChannelSettings (allChannelSettingsByChannelIdCache (le_Channels env)) (css_ChannelId st)"

definition shows_state :: "ChannelListEnv \<Rightarrow> int \<times> ManagedChannelStateSettings \<Rightarrow> channelBody \<Rightarrow> bool" where
  "shows_state env nst b \<longleftrightarrow>
     (let st = snd nst; settings = cached_settings env st
      in cby_NodeId b = fst nst \<and> cby_ChannelId b = mcs_ChannelId settings \<and> cby_Capacity b = mcs_Capacity settings \<and>
         cby_Active b = (\<not> css_LocalDisabled st) \<and>
         cby_LocalBalance b = css_LocalBalance st \<and> cby_RemoteBalance b = css_RemoteBalance st \<and>
         cby_Gauge b * of_int (sint (cby_Capacity b)) = of_int (sint (css_LocalBalance st)) * 100 \<and>
         cby_Initiator b = (mcs_InitiatingNodeId settings = Some (fst nst)) \<and>
         ph_TotalCount (cby_PendingHtlcs b) = int (length (css_PendingHtlcs st)) \<and>
         ph_TotalAmount (cby_PendingHtlcs b) = sum_list (map htlc_Amount (css_PendingHtlcs st)) \<and>
         (mcs_LndShortChannelId settings = 0 \<longrightarrow> cby_LNDShortChannelId b = ''0'' \<and> cby_MempoolSpace b = MEMPOOL @ ''0''))"

lemma format_zero: "format_uint 0 = ''0''"
  by code_simp

lemma map_sum_Inr: "map_sum id f z = Inr y \<longleftrightarrow> (\<exists>v. z = Inr v \<and> y = f v)"
  by (cases z) auto

lemma shows_channel_body:
  assumes "mcs_Capacity (cached_settings env st) \<noteq> 0"
  shows "shows_state env (nodeId, st) (channel_body nodeId name (cached_settings env st) key a st)"
proof -
  have "sint (mcs_Capacity (cached_settings env st)) \<noteq> 0"
    using assms by (metis signed_0 signed_eq_0_iff)
  then have "(of_int (sint (mcs_Capacity (cached_settings env st))) :: rat) \<noteq> 0" by (simp only: of_int_eq_0_iff) simp
  with calculateHTLCs_totals [of "css_PendingHtlcs st"] show ?thesis
    by (simp add: shows_state_def channel_body_def Let_def format_zero)
qed

lemma listed_channels_shown:
  "listed_channels env nodeId name states = Some (Ok bodies) \<Longrightarrow> list_all encodable bodies \<Longrightarrow>
     list_all2 (shows_state env) (map (Pair nodeId) states) bodies"
proof (induction states arbitrary: bodies)
  case (Cons st states)
  have settings: "GetChannelSettingByChannelId (le_ChannelOrders env) (le_Channels env) (css_ChannelId st) =
      Some (cached_settings env st)"
    by (simp add: cached_settings_def channel_reads)
  with Cons.prems(1) obtain remote where remote: "GetNodeSettingsByNodeId (le_NodeOrders env) (le_Nodes env) (css_RemoteNodeId st) = Some remote"
    by (auto split: option.splits)
  obtain n where name: "name = Some n" using Cons.prems(1) by (simp add: settings remote split: option.splits)
  from Cons.prems(1) obtain rest where rest: "listed_channels env nodeId name states = Some (Ok rest)"
    and bodies: "bodies = channel_body nodeId n (cached_settings env st) (mns_PublicKey remote)
      (peer_alias env nodeId (css_RemoteNodeId st)) st # rest"
    by (auto simp: settings remote name map_sum_Inr)
  have "mcs_Capacity (cached_settings env st) \<noteq> 0"
    using Cons.prems(2) by (simp add: bodies encodable_def channel_body_def Let_def)
  with Cons.IH [OF rest] Cons.prems(2) show ?case by (simp add: bodies shows_channel_body)
qed simp

lemma list_nodes_shown:
  "list_nodes env ncds = Some (Ok bodies) \<Longrightarrow> list_all encodable bodies \<Longrightarrow>
     list_all2 (shows_state env) (cached_states env ncds) bodies"
proof (induction ncds arbitrary: bodies)
  case (Cons ncd ncds)
  obtain states name here rest where states: "GetChannelStates (le_StateEnv env) (le_States env) (cd_NodeId ncd) True = Some states"
    and here: "listed_channels env (cd_NodeId ncd) name states = Some (Ok here)"
    and rest: "list_nodes env ncds = Some (Ok rest)" and bodies: "bodies = here @ rest"
    using Cons.prems(1) by (auto simp: map_sum_Inr split: option.splits sum.splits)
  have "list_all2 (shows_state env) (map (Pair (cd_NodeId ncd)) states) here"
    by (rule listed_channels_shown [OF here]) (use Cons.prems(2) bodies in simp)
  moreover have "list_all2 (shows_state env) (cached_states env ncds) rest"
    by (rule Cons.IH [OF rest]) (use Cons.prems(2) bodies in simp)
  ultimately show ?case by (simp add: cached_states_def states bodies list_all2_appendI)
qed (simp add: cached_states_def)


text \<open>One channel that the cache knows no capacity of fails the list of all channels.\<close>

lemma channel_without_capacity_fails_list:
  assumes "GetActiveNodesConnectionDetails (le_DetailsEnv env) (le_Details env) = Ok ncds"
    and "list_nodes env ncds = Some (Ok bodies)" and "b \<in> set bodies" and "cby_Capacity b = 0"
  shows "getChannelListHandler env = Some (Panics ''json: unsupported value'')"
  using assms by (auto simp: getChannelListHandler_def list_all_iff encodable_def)

section \<open>The two ends of a channel\<close>

definition swap_ends :: "ChannelPolicy \<Rightarrow> ChannelPolicy" where
  "swap_ends cp = cp\<lparr>cpol_NodeId := cpol_RemoteNodeId cp, cpol_RemoteNodeId := cpol_NodeId cp\<rparr>"

text \<open>
  For a channel between two nodes, the remote policy of one node is the local policy of the other,
  with the two node ids exchanged.
\<close>

lemma remote_policy_is_local_of_peer:
  assumes "n \<noteq> m" and "\<And>c. c \<in> set (map snd channels) \<Longrightarrow> ch_ChannelID c = channelId \<Longrightarrow>
      {ch_FirstNodeId c, ch_SecondNodeId c} = {n, m}"
  shows "GetRemoteRoutingPolicy query policies channels channelId n =
    map_sum id swap_ends (GetLocalRoutingPolicy query policies channels channelId m)"
proof -
  have "between c (\<lambda>x. x \<noteq> n) p \<longleftrightarrow> between c (\<lambda>x. x = m) p" if "c \<in> set (map snd channels)" "ch_ChannelID c = channelId" for c p
  proof -
    from assms(2) [OF that] consider "ch_FirstNodeId c = n" "ch_SecondNodeId c = m" | "ch_FirstNodeId c = m" "ch_SecondNodeId c = n"
      by (auto simp: doubleton_eq_iff)
    then show ?thesis using assms(1) by cases (auto simp: between_def)
  qed
  then have rows: "policy_rows (\<lambda>x. x \<noteq> n) policies channels channelId = policy_rows (\<lambda>x. x = m) policies channels channelId"
    unfolding policy_rows_def by (intro arg_cong [where f = concat] map_cong refl arg_cong2 [where f = map] filter_cong) auto
  let ?row = "\<lambda>r. scan_policy (ceg_AnnouncingNodeId (fst r)) (ceg_ConnectingNodeId (fst r)) r"
  have "scan_policy (ceg_ConnectingNodeId (fst r)) (ceg_AnnouncingNodeId (fst r)) r = map_sum id swap_ends (?row r)" for r
    by (auto simp: scan_policy_def Let_def swap_ends_def split: option.splits)
  then show ?thesis
    unfolding GetRemoteRoutingPolicy_def GetLocalRoutingPolicy_def rows latest_policy_def
    by (cases query; cases "latest (ceg_EventTime \<circ> fst) (policy_rows (\<lambda>x. x = m) policies channels channelId)")
      (simp_all add: zeroPolicy_def swap_ends_def split: sum.split)
qed

section \<open>Examples\<close>

definition sample_list_env :: ChannelListEnv where
  "sample_list_env =
     \<lparr>le_StateEnv = exampleEnv 0, le_States = exampleCache, le_ChannelOrders = (id, id), le_Channels = exampleChannelState,
      le_NodeOrders = \<lparr>by_key = id, by_network = id, by_chain = id\<rparr>,
      le_Nodes = emptyNodeState\<lparr>nodeSettingsByNodeIdCache := [1 \<mapsto> zeroNodeSettings\<lparr>mns_NodeId := 1, mns_Name := Some ''n''\<rparr>]\<rparr>,
      le_DetailsEnv = sample_details_env,
      le_Details = [(sample_details 1 0)\<lparr>ncd_GRPCAddress := Some ''a'', ncd_TLSDataBytes := Some [], ncd_MacaroonDataBytes := Some []\<rparr>],
      le_NodeEvents = [], le_AliasFails = (\<lambda>_ _. None), le_PickAlias = hd\<rparr>"


end
