(* ===== verification/PeerRequests.thy ===== *)
theory PeerRequests
  imports ChannelRequests SettingsTable ServerErrors
begin

text \<open>
  The requests about peers and messages: \<open>list_peers.go\<close> and \<open>routes.go\<close> of \<open>src/internal/peers/\<close>, and
  \<open>sign_message.go\<close>, \<open>verify_message.go\<close> and \<open>handlers.go\<close> of \<open>src/internal/messages/\<close>.  Each
  looks up the connection details of a node, connects to its LND and passes one call on; what LND
  answers on a connection is a parameter.  The theorems say that every peer is listed once as LND
  reports it, and that a message to verify without a node is answered as not valid instead of refused.
\<close>

section \<open>Listing peers\<close>

record timeStampedError =
  tse_Timestamp :: uint64
  tse_Error :: string

record peerFeature =
  ftr_Name :: string
  ftr_IsRequired :: bool
  ftr_IsKnown :: bool

record featuresEntry =
  fte_Key :: uint32
  fte_Value :: peerFeature

record peer =
  pe_PubKey :: string
  pe_Address :: string
  pe_BytesSent :: uint64
  pe_BytesRecv :: uint64
  pe_SatSent :: int64
  pe_SatRecv :: int64
  pe_Inbound :: bool
  pe_PingTime :: int64
  pe_SyncType :: string
  pe_Features :: "featuresEntry list"
  pe_Errors :: "timeStampedError list"
  pe_FlapCount :: "32 word"
  pe_LastFlapNs :: int64
  pe_LastPingPayload :: bytes

text \<open>A peer as LND reports it, with the text of its kind of synchronization and a map of features.\<close>

record LndPeer =
  lp_PubKey :: string
  lp_Address :: string
  lp_BytesSent :: uint64
  lp_BytesRecv :: uint64
  lp_SatSent :: int64
  lp_SatRecv :: int64
  lp_Inbound :: bool
  lp_PingTime :: int64
  lp_SyncType :: string
  lp_Features :: "(uint32 \<times> peerFeature) list"
  lp_Errors :: "timeStampedError list"
  lp_FlapCount :: "32 word"
  lp_LastFlapNs :: int64
  lp_LastPingPayload :: bytes

definition ParseBool :: "string \<Rightarrow> bool option" where
  "ParseBool s =
     (if s \<in> {''1'', ''t'', ''T'', ''true'', ''TRUE'', ''True''} then Some True
      else if s \<in> {''0'', ''f'', ''F'', ''false'', ''FALSE'', ''False''} then Some False
      else None)"

definition listed_peer :: "(uint32, peerFeature) order \<Rightarrow> LndPeer \<Rightarrow> peer" where
  "listed_peer ord p =
     \<lparr>pe_PubKey = lp_PubKey p, pe_Address = lp_Address p, pe_BytesSent = lp_BytesSent p, pe_BytesRecv = lp_BytesRecv p,
      pe_SatSent = lp_SatSent p, pe_SatRecv = lp_SatRecv p, pe_Inbound = lp_Inbound p, pe_PingTime = lp_PingTime p,
      pe_SyncType = lp_SyncType p,
      pe_Features = map (\<lambda>(k, feat). \<lparr>fte_Key = k, fte_Value = feat\<rparr>) (ord (lp_Features p)),
      pe_Errors = map (\<lambda>e. \<lparr>tse_Timestamp = tse_Timestamp e, tse_Error = tse_Error e\<rparr>) (lp_Errors p),
      pe_FlapCount = lp_FlapCount p, pe_LastFlapNs = lp_LastFlapNs p, pe_LastPingPayload = lp_LastPingPayload p\<rparr>"

text \<open>LND is asked with or without the latest error of each peer.\<close>

definition ListPeers ::
    "(uint32, peerFeature) order \<Rightarrow> (bool \<Rightarrow> LndPeer list result) \<Rightarrow> string \<Rightarrow> peer list result" where
  "ListPeers ord lndListPeers latestErr =
     (case ParseBool latestErr of
        None \<Rightarrow> Fails ''Parsing latestErr to bool''
      | Some latestError \<Rightarrow>
          (case lndListPeers latestError of
             Inl e \<Rightarrow> Inl (wrapped ''Listing peers'' e)
           | Inr ps \<Rightarrow> Ok (map (listed_peer ord) ps)))"

section \<open>Requests to the LND of a node\<close>

text \<open>The connection is named by the address it leads to.\<close>

definition connectLND :: "DetailsEnv \<Rightarrow> details_table \<Rightarrow> LndAccess \<Rightarrow> int \<Rightarrow> string result" where
  "connectLND env rows lnd nodeId =
     (case GetConnectionDetailsById env rows nodeId of
        Inl e \<Rightarrow> Inl (wrapped ''Getting node connection details from the db'' e)
      | Inr details \<Rightarrow>
          (case la_Connect lnd (cd_GRPCAddress details) (cd_TLSFileBytes details) (cd_MacaroonFileBytes details) of
             Some e \<Rightarrow> Inl (wrapped ''Connecting to LND'' e)
           | None \<Rightarrow> Ok (cd_GRPCAddress details)))"

datatype PeerAnswer = PeerError ServerError | PeersListed "peer list" | PeerConnected string

definition peer_error :: "int \<times> ServerError \<Rightarrow> int \<times> PeerAnswer" where
  "peer_error r = map_prod id PeerError r"

definition connectPeerHandler ::
    "DetailsEnv \<Rightarrow> details_table \<Rightarrow> LndAccess \<Rightarrow> (string \<Rightarrow> LndConnectRequest \<Rightarrow> go_error option) \<Rightarrow>
     ConnectPeerRequest result \<Rightarrow> int \<times> PeerAnswer" where
  "connectPeerHandler env rows lnd lndConnect body =
     (case body of
        Inl e \<Rightarrow> peer_error (SendBadRequestFromError (wrapped JsonParseError e))
      | Inr req \<Rightarrow>
     (if cpr_NodeId req = 0 then peer_error (SendUnprocessableEntity ''Node Id not provided'')
      else case connectLND env rows lnd (cpr_NodeId req) of
        Inl e \<Rightarrow> peer_error (WrapLogAndSendServerError e (''can'' @ [CHR 0x27] @ ''t connect to LND''))
      | Inr conn \<Rightarrow>
          (case ConnectPeer (lndConnect conn) req of
             Inl e \<Rightarrow> peer_error (WrapLogAndSendServerError e ''LND'')
           | Inr resp \<Rightarrow> (200, PeerConnected resp))))"

definition listPeersHandler ::
    "DetailsEnv \<Rightarrow> details_table \<Rightarrow> LndAccess \<Rightarrow> (uint32, peerFeature) order \<Rightarrow> (string \<Rightarrow> bool \<Rightarrow> LndPeer list result) \<Rightarrow>
     string \<Rightarrow> string \<Rightarrow> int \<times> PeerAnswer" where
  "listPeersHandler env rows lnd ord lndListPeers nodeIdText latestErr =
     (case atoi nodeIdText of
        None \<Rightarrow> peer_error (SendBadRequestFromError (Error ''Getting node id: invalid syntax''))
      | Some nodeId \<Rightarrow>
     (case connectLND env rows lnd nodeId of
        Inl e \<Rightarrow> peer_error (WrapLogAndSendServerError e ''Connecting to LND'')
      | Inr conn \<Rightarrow>
          (case ListPeers ord (lndListPeers conn) latestErr of
             Inl e \<Rightarrow> peer_error (WrapLogAndSendServerError e ''LND'')
           | Inr ps \<Rightarrow> (200, PeersListed ps))))"

section \<open>Messages\<close>

record SignMessageRequest =
  smr_NodeId :: int
  smr_Message :: string
  smr_SingleHash :: "bool option"

record VerifyMessageRequest =
  vmr_NodeId :: int
  vmr_Message :: string
  vmr_Signature :: string

record SignMessageResponse =
  smp_Signature :: string

record VerifyMessageResponse =
  vmp_Valid :: bool
  vmp_PubKey :: string

definition signMessage ::
    "DetailsEnv \<Rightarrow> details_table \<Rightarrow> LndAccess \<Rightarrow> (string \<Rightarrow> string \<Rightarrow> bool \<Rightarrow> string result) \<Rightarrow> SignMessageRequest \<Rightarrow>
     SignMessageResponse result" where
  "signMessage env rows lnd lndSign req =
     (if smr_NodeId req = 0 then Fails ''Node Id missing''
      else case connectLND env rows lnd (smr_NodeId req) of
        Inl e \<Rightarrow> Inl e
      | Inr conn \<Rightarrow>
          (case lndSign conn (smr_Message req) (opt (smr_SingleHash req) False) of
             Inl e \<Rightarrow> Inl (wrapped ''Signing message'' e)
           | Inr signature \<Rightarrow> Ok \<lparr>smp_Signature = signature\<rparr>))"

text \<open>Without a node the code wraps an error that is nil, so it returns the empty response.\<close>

definition verifyMessage ::
    "DetailsEnv \<Rightarrow> details_table \<Rightarrow> LndAccess \<Rightarrow> (string \<Rightarrow> string \<Rightarrow> string \<Rightarrow> (bool \<times> string) result) \<Rightarrow>
     VerifyMessageRequest \<Rightarrow> VerifyMessageResponse result" where
  "verifyMessage env rows lnd lndVerify req =
     (if vmr_NodeId req = 0 then Ok \<lparr>vmp_Valid = False, vmp_PubKey = []\<rparr>
      else case connectLND env rows lnd (vmr_NodeId req) of
        Inl e \<Rightarrow> Inl e
      | Inr conn \<Rightarrow>
          (case lndVerify conn (vmr_Message req) (vmr_Signature req) of
             Inl e \<Rightarrow> Inl (wrapped ''Verifying message'' e)
           | Inr (valid, pubkey) \<Rightarrow> Ok \<lparr>vmp_Valid = valid, vmp_PubKey = pubkey\<rparr>))"

datatype MessageAnswer = MessageError ServerError | MessageSigned SignMessageResponse | MessageVerified VerifyMessageResponse

definition message_answer ::
    "string \<Rightarrow> ('b \<Rightarrow> MessageAnswer) \<Rightarrow> ('a \<Rightarrow> 'b result) \<Rightarrow> 'a result \<Rightarrow> int \<times> MessageAnswer" where
  "message_answer message made run body =
     (case body of
        Inl e \<Rightarrow> map_prod id MessageError (SendBadRequestFromError (wrapped JsonParseError e))
      | Inr req \<Rightarrow>
          (case run req of
             Inl e \<Rightarrow> map_prod id MessageError (WrapLogAndSendServerError e message)
           | Inr r \<Rightarrow> (200, made r)))"

definition signMessageHandler ::
    "DetailsEnv \<Rightarrow> details_table \<Rightarrow> LndAccess \<Rightarrow> (string \<Rightarrow> string \<Rightarrow> bool \<Rightarrow> string result) \<Rightarrow>
     SignMessageRequest result \<Rightarrow> int \<times> MessageAnswer" where
  "signMessageHandler env rows lnd lndSign body =
     message_answer ''Sign message'' MessageSigned (signMessage env rows lnd lndSign) body"

definition verifyMessageHandler ::
    "DetailsEnv \<Rightarrow> details_table \<Rightarrow> LndAccess \<Rightarrow> (string \<Rightarrow> string \<Rightarrow> string \<Rightarrow> (bool \<times> string) result) \<Rightarrow>
     VerifyMessageRequest result \<Rightarrow> int \<times> MessageAnswer" where
  "verifyMessageHandler env rows lnd lndVerify body =
     message_answer ''Verify message'' MessageVerified (verifyMessage env rows lnd lndVerify) body"

section \<open>What is answered\<close>

text \<open>
  A list of peers has one entry for each peer LND reports, in its order, with the features in any
  order; LND is asked for errors exactly when the request says so.
\<close>

lemma peers_listed_once:
  assumes "listPeersHandler env rows lnd ord lndListPeers nodeIdText latestErr = (200, PeersListed ps)" and "range_order ord"
  shows "\<exists>nodeId conn latestError lndPeers. atoi nodeIdText = Some nodeId \<and> connectLND env rows lnd nodeId = Ok conn \<and>
    ParseBool latestErr = Some latestError \<and> lndListPeers conn latestError = Ok lndPeers \<and>
    map pe_PubKey ps = map lp_PubKey lndPeers \<and>
    list_all2 (\<lambda>p l. set (pe_Features p) = (\<lambda>(k, feat). \<lparr>fte_Key = k, fte_Value = feat\<rparr>) ` set (lp_Features l) \<and>
      pe_Errors p = lp_Errors l) ps lndPeers"
proof -
  have features: "set (ord m) = set m" for m using assms(2) by (metis mset_eq_setD range_order_def)
  obtain nodeId conn where "atoi nodeIdText = Some nodeId" "connectLND env rows lnd nodeId = Ok conn"
    and listed: "ListPeers ord (lndListPeers conn) latestErr = Ok ps"
    using assms(1) by (auto simp: listPeersHandler_def peer_error_def WrapLogAndSendServerError_def
        SendBadRequestFromError_def split: option.splits sum.splits)
  moreover from listed obtain latestError lndPeers where "ParseBool latestErr = Some latestError"
    and "lndListPeers conn latestError = Ok lndPeers" and "ps = map (listed_peer ord) lndPeers"
    by (auto simp: ListPeers_def split: option.splits sum.splits)
  moreover have "map (\<lambda>e. \<lparr>tse_Timestamp = tse_Timestamp e, tse_Error = tse_Error e\<rparr>) es = es" for es :: "timeStampedError list"
    by (rule map_idI) simp
  then have "set (pe_Features (listed_peer ord l)) = (\<lambda>(k, feat). \<lparr>fte_Key = k, fte_Value = feat\<rparr>) ` set (lp_Features l) \<and>
      pe_Errors (listed_peer ord l) = lp_Errors l" for l
    by (simp add: listed_peer_def features)
  then have "list_all2 (\<lambda>p l. set (pe_Features p) = (\<lambda>(k, feat). \<lparr>fte_Key = k, fte_Value = feat\<rparr>) ` set (lp_Features l) \<and>
      pe_Errors p = lp_Errors l) (map (listed_peer ord) lndPeers) lndPeers"
    by (simp add: list_all2_map1 list_all2_same)
  moreover have "map pe_PubKey (map (listed_peer ord) lndPeers) = map lp_PubKey lndPeers" by (simp add: listed_peer_def)
  ultimately show ?thesis by blast
qed

text \<open>A message to verify that names no node is answered with 200 as not valid, one to sign is refused.\<close>

lemma message_without_node:
  "vmr_NodeId v = 0 \<Longrightarrow> verifyMessageHandler env rows lnd lndVerify (Ok v) =
     (200, MessageVerified \<lparr>vmp_Valid = False, vmp_PubKey = []\<rparr>)"
  "smr_NodeId s = 0 \<Longrightarrow> fst (signMessageHandler env rows lnd lndSign (Ok s)) = 500"
  by (simp_all add: verifyMessageHandler_def signMessageHandler_def message_answer_def verifyMessage_def signMessage_def
      WrapLogAndSendServerError_def)

end
