(* ===== verification/StatusReport.thy ===== *)
theory StatusReport
  imports Services ManagedNode SettingsTable ServerErrors GoText
begin

text \<open>
  What the program tells about itself: the version (\<open>src/build/version.go\<close>), the report of the running
  services (\<open>src/internal/services/\<close>) over the registry of \<open>Services\<close>, and the pings it sends to Amboss and
  Vector (\<open>src/cmd/torq/internal/amboss_ping/server.go\<close>, \<open>vector_ping/server.go\<close>).  The theorems say that
  the report shows the registry as it is and changes no status in it, and that every ping posted
  carries a signature of its own message.
\<close>

section \<open>The version\<close>

definition semanticAlphabet :: string where
  "semanticAlphabet = ''0123456789ABCDEFGHIJKLMNOPQRSTUVWXYZabcdefghijklmnopqrstuvwxyz-''"

definition normalizeVerString :: "string \<Rightarrow> string" where
  "normalizeVerString str = filter (\<lambda>r. r \<in> set semanticAlphabet) str"

text \<open>The two variables that a build may set.\<close>

definition Version :: "string \<Rightarrow> string \<Rightarrow> string" where
  "Version overrideBuildVer appBuild =
     (if overrideBuildVer \<noteq> [] then overrideBuildVer
      else let version = format_uint 0 @ ''.'' @ format_uint 0 @ ''.'' @ format_uint 1;
               preRelease = normalizeVerString ''dev'';
               version = (if preRelease \<noteq> [] then version @ ''-'' @ preRelease else version);
               build = normalizeVerString appBuild
           in if build \<noteq> [] then version @ ''+'' @ build else version)"

section \<open>The report of the services\<close>

record Service =
  svc_Status :: Status
  svc_BootTime :: "time option"

record TorqServiceRow =
  tq_Service :: Service
  tq_Version :: string

record LndServiceRow =
  lr_Service :: Service
  lr_NodeId :: int
  lr_TransactionStreamStatus :: Status
  lr_TransactionStreamBootTime :: "time option"
  lr_HtlcEventStreamStatus :: Status
  lr_HtlcEventStreamBootTime :: "time option"
  lr_ChannelEventStreamStatus :: Status
  lr_ChannelEventStreamBootTime :: "time option"
  lr_GraphEventStreamStatus :: Status
  lr_GraphEventStreamBootTime :: "time option"
  lr_ForwardStreamStatus :: Status
  lr_ForwardStreamBootTime :: "time option"
  lr_InvoiceStreamStatus :: Status
  lr_InvoiceStreamBootTime :: "time option"
  lr_PaymentStreamStatus :: Status
  lr_PaymentStreamBootTime :: "time option"
  lr_InFlightPaymentStreamStatus :: Status
  lr_InFlightPaymentStreamBootTime :: "time option"
  lr_PeerEventStreamStatus :: Status
  lr_PeerEventStreamBootTime :: "time option"

record PingServiceRow =
  pg_Service :: Service
  pg_NodeId :: int

record ServicesReport =
  sp_TorqService :: TorqServiceRow
  sp_LndServices :: "LndServiceRow list"
  sp_VectorServices :: "PingServiceRow list"
  sp_AmbossServices :: "PingServiceRow list"

record RunningServices =
  ru_Torq :: Services
  ru_Lnd :: Services
  ru_Vector :: Services
  ru_Amboss :: Services

type_synonym stream_order = "(SubscriptionStream, Status) order"

text \<open>Every question makes the maps of the node when they are missing, so the registry is passed on.\<close>

definition read_service :: "stream_order \<Rightarrow> int \<Rightarrow> Services \<Rightarrow> Services \<times> Service" where
  "read_service ord nodeId rs =
     (let (r1, status) = GetStatus ord nodeId rs; (r2, bootTime) = GetBootTime nodeId r1
      in (r2, \<lparr>svc_Status = status, svc_BootTime = bootTime\<rparr>))"

definition read_stream :: "int \<Rightarrow> SubscriptionStream \<Rightarrow> Services \<Rightarrow> Services \<times> Status \<times> time option" where
  "read_stream nodeId stream rs =
     (let (r1, status) = GetStreamStatus nodeId stream rs; (r2, bootTime) = GetStreamBootTime nodeId stream r1
      in (r2, status, bootTime))"

definition lnd_row :: "stream_order \<Rightarrow> int \<Rightarrow> Services \<Rightarrow> Services \<times> LndServiceRow" where
  "lnd_row ord n r0 =
     (let (r1, service) = read_service ord n r0;
          (r2, s2, t2) = read_stream n TransactionStream r1; (r3, s3, t3) = read_stream n HtlcEventStream r2;
          (r4, s4, t4) = read_stream n ChannelEventStream r3; (r5, s5, t5) = read_stream n GraphEventStream r4;
          (r6, s6, t6) = read_stream n ForwardStream r5; (r7, s7, t7) = read_stream n InvoiceStream r6;
          (r8, s8, t8) = read_stream n PaymentStream r7; (r9, s9, t9) = read_stream n InFlightPaymentStream r8;
          (r10, s10, t10) = read_stream n PeerEventStream r9
      in (r10,
          \<lparr>lr_Service = service, lr_NodeId = n,
           lr_TransactionStreamStatus = s2, lr_TransactionStreamBootTime = t2,
           lr_HtlcEventStreamStatus = s3, lr_HtlcEventStreamBootTime = t3,
           lr_ChannelEventStreamStatus = s4, lr_ChannelEventStreamBootTime = t4,
           lr_GraphEventStreamStatus = s5, lr_GraphEventStreamBootTime = t5,
           lr_ForwardStreamStatus = s6, lr_ForwardStreamBootTime = t6,
           lr_InvoiceStreamStatus = s7, lr_InvoiceStreamBootTime = t7,
           lr_PaymentStreamStatus = s8, lr_PaymentStreamBootTime = t8,
           lr_InFlightPaymentStreamStatus = s9, lr_InFlightPaymentStreamBootTime = t9,
           lr_PeerEventStreamStatus = s10, lr_PeerEventStreamBootTime = t10\<rparr>))"

definition ping_row :: "stream_order \<Rightarrow> int \<Rightarrow> Services \<Rightarrow> Services \<times> PingServiceRow" where
  "ping_row ord n rs = (let (r1, service) = read_service ord n rs in (r1, \<lparr>pg_Service = service, pg_NodeId = n\<rparr>))"

fun read_rows :: "(int \<Rightarrow> Services \<Rightarrow> Services \<times> 'a) \<Rightarrow> int list \<Rightarrow> Services \<Rightarrow> Services \<times> 'a list" where
  "read_rows row [] rs = (rs, [])"
| "read_rows row (n # ns) rs = (let (r1, x) = row n rs; (r2, xs) = read_rows row ns r1 in (r2, x # xs))"

text \<open>The nodes of a ping system; without an answer of the database there are none, and it is logged.\<close>

definition ping_nodes :: "DetailsEnv \<Rightarrow> details_table \<Rightarrow> PingSystem \<Rightarrow> int list" where
  "ping_nodes env rows p = (case GetPingSystemNodeIds env rows p of Inl e \<Rightarrow> [] | Inr ns \<Rightarrow> ns)"

text \<open>None: the node cache gives no answer.\<close>

definition getServicesHandler ::
    "stream_order \<Rightarrow> string \<Rightarrow> NodeOrders \<Rightarrow> NodeState \<Rightarrow> DetailsEnv \<Rightarrow> details_table \<Rightarrow> RunningServices \<Rightarrow>
     (RunningServices \<times> ServicesReport) option" where
  "getServicesHandler ord version ords nodes env rows ru =
     (let (torq, service) = read_service ord TorqDummyNodeId (ru_Torq ru)
      in map_option (\<lambda>ns.
           let (lnd, lnds) = read_rows (lnd_row ord) ns (ru_Lnd ru);
               (vector, vectors) = read_rows (ping_row ord) (ping_nodes env rows PingVector) (ru_Vector ru);
               (amboss, ambosses) = read_rows (ping_row ord) (ping_nodes env rows PingAmboss) (ru_Amboss ru)
           in (\<lparr>ru_Torq = torq, ru_Lnd = lnd, ru_Vector = vector, ru_Amboss = amboss\<rparr>,
               \<lparr>sp_TorqService = \<lparr>tq_Service = service, tq_Version = version\<rparr>, sp_LndServices = lnds,
                sp_VectorServices = vectors, sp_AmbossServices = ambosses\<rparr>))
           (GetAllActiveTorqNodeIds ords nodes None None))"

section \<open>Pings\<close>

text \<open>
  A round of the loop: the time as text, how LND signs a message, whether the message is delivered.
  The answer lists what was posted and the error that ended the loop, None while it runs.
\<close>

record AmbossRound =
  ar_Now :: string
  ar_Sign :: "string \<Rightarrow> string result"
  ar_Post :: "go_error option"

definition amboss_query :: string where
  "amboss_query = ''mutation HealthCheck($signature: String!, $timestamp: String!) { healthCheck(signature: $signature, timestamp: $timestamp) }''"

definition quoted :: "string \<Rightarrow> string" where
  "quoted s = CHR 0x22 # s @ [CHR 0x22]"

definition amboss_values :: "string \<Rightarrow> string \<Rightarrow> (string \<times> string) list" where
  "amboss_values signature now =
     [(''query'', amboss_query),
      (''variables'', ''{'' @ quoted ''signature'' @ '': '' @ quoted signature @ '', '' @ quoted ''timestamp'' @ '': '' @ quoted now @ ''}'')]"

fun amboss_ping :: "AmbossRound list \<Rightarrow> (string \<times> string) list list \<times> go_error option" where
  "amboss_ping [] = ([], None)"
| "amboss_ping (r # rs) =
     (case ar_Sign r (ar_Now r) of
        Inl e \<Rightarrow> ([], Some (wrapped (''Signing message: '' @ ar_Now r) e))
      | Inr signature \<Rightarrow>
          (case ar_Post r of
             Some e \<Rightarrow> ([], Some (wrapped ''Posting message'' e))
           | None \<Rightarrow> map_prod (Cons (amboss_values signature (ar_Now r))) id (amboss_ping rs)))"

record VectorPingFeature =
  vf_Name :: string
  vf_Required :: bool
  vf_Known :: bool

record VectorPingChain =
  vc_Chain :: string
  vc_Network :: string

record VectorPing =
  vp_PingTime :: time
  vp_TorqVersion :: string
  vp_Implementation :: string
  vp_Version :: string
  vp_PublicKey :: string
  vp_Alias :: string
  vp_Color :: string
  vp_PendingChannelCount :: int
  vp_ActiveChannelCount :: int
  vp_InactiveChannelCount :: int
  vp_PeerCount :: int
  vp_BlockHeight :: int
  vp_BlockHash :: string
  vp_BestHeaderTimestamp :: time
  vp_ChainSynced :: bool
  vp_GraphSynced :: bool
  vp_Chains :: "VectorPingChain list"
  vp_Addresses :: "string list"
  vp_Features :: "int \<rightharpoonup> VectorPingFeature"
  vp_HtlcInterceptorRequired :: bool

record LndInfo =
  gi_Version :: string
  gi_IdentityPubkey :: string
  gi_Alias :: string
  gi_Color :: string
  gi_NumPendingChannels :: uint32
  gi_NumActiveChannels :: uint32
  gi_NumInactiveChannels :: uint32
  gi_NumPeers :: uint32
  gi_BlockHeight :: uint32
  gi_BlockHash :: string
  gi_BestHeaderTimestamp :: int64
  gi_SyncedToChain :: bool
  gi_SyncedToGraph :: bool
  gi_Chains :: "(string \<times> string) list"
  gi_Uris :: "string list"
  gi_Features :: "(uint32 \<times> VectorPingFeature) list"
  gi_RequireHtlcInterceptor :: bool

definition vector_info :: "time \<Rightarrow> string \<Rightarrow> LndInfo \<Rightarrow> VectorPing" where
  "vector_info now version info =
     \<lparr>vp_PingTime = now, vp_TorqVersion = version, vp_Implementation = ''LND'', vp_Version = gi_Version info,
      vp_PublicKey = gi_IdentityPubkey info, vp_Alias = gi_Alias info, vp_Color = gi_Color info,
      vp_PendingChannelCount = uint (gi_NumPendingChannels info), vp_ActiveChannelCount = uint (gi_NumActiveChannels info),
      vp_InactiveChannelCount = uint (gi_NumInactiveChannels info), vp_PeerCount = uint (gi_NumPeers info),
      vp_BlockHeight = uint (gi_BlockHeight info), vp_BlockHash = gi_BlockHash info,
      vp_BestHeaderTimestamp = sint (gi_BestHeaderTimestamp info) * 1000000000,
      vp_ChainSynced = gi_SyncedToChain info, vp_GraphSynced = gi_SyncedToGraph info,
      vp_Chains = map (\<lambda>(c, n). \<lparr>vc_Chain = c, vc_Network = n\<rparr>) (gi_Chains info), vp_Addresses = gi_Uris info,
      vp_Features = map_of (map (\<lambda>(k, f). (uint k, f)) (gi_Features info)),
      vp_HtlcInterceptorRequired = gi_RequireHtlcInterceptor info\<rparr>"

record PeerEventPost =
  pp_Signature :: string
  pp_Message :: string

record VectorRound =
  vr_Now :: time
  vr_Info :: "LndInfo result"
  vr_Sign :: "string \<Rightarrow> string result"
  vr_Post :: "go_error option"
  vr_Close :: "go_error option"

text \<open>The JSON text of a ping is a parameter; the encoder may fail, as for a time after the year 9999.\<close>

fun vector_ping :: "(VectorPing \<Rightarrow> string result) \<Rightarrow> string \<Rightarrow> VectorRound list \<Rightarrow> PeerEventPost list \<times> go_error option" where
  "vector_ping json version [] = ([], None)"
| "vector_ping json version (r # rs) =
     (case vr_Info r of
        Inl e \<Rightarrow> ([], Some (wrapped ''Obtaining LND info'' e))
      | Inr info \<Rightarrow>
     (case json (vector_info (vr_Now r) version info) of
        Inl e \<Rightarrow> ([], Some (wrapped ''Marshalling message'' e))
      | Inr text \<Rightarrow>
     (case vr_Sign r text of
        Inl e \<Rightarrow> ([], Some (wrapped (''Signing message: '' @ text) e))
      | Inr signature \<Rightarrow>
     (case vr_Post r of
        Some e \<Rightarrow> ([], Some (wrapped (''Posting message: '' @ text) e))
      | None \<Rightarrow>
          let post = \<lparr>pp_Signature = signature, pp_Message = text\<rparr>
          in case vr_Close r of
               Some e \<Rightarrow> ([post], Some (wrapped ''Closing response body.'' e))
             | None \<Rightarrow> map_prod (Cons post) id (vector_ping json version rs)))))"

section \<open>What the report shows\<close>

text \<open>Two registries that answer every question in the same way.\<close>

definition same_answers :: "Services \<Rightarrow> Services \<Rightarrow> bool" where
  "same_answers rs rs' \<longleftrightarrow>
     sv_ServiceType rs = sv_ServiceType rs' \<and> sv_serviceStatus rs = sv_serviceStatus rs' \<and> sv_bootTime rs = sv_bootTime rs' \<and>
     (\<forall>n. mget [] (sv_streamStatus rs) n = mget [] (sv_streamStatus rs') n \<and>
          mget Map.empty (sv_streamBootTime rs) n = mget Map.empty (sv_streamBootTime rs') n)"

lemma same_answers_refl [simp]: "same_answers rs rs"
  by (simp add: same_answers_def)

lemma mget_ensure [simp]: "mget z (ensure n z m) k = mget z m k"
  by (auto simp: ensure_def split: option.splits)

lemma init_maps [simp]:
  "sv_streamStatus (initServiceMaps n rs) = ensure n [] (sv_streamStatus rs)"
  "sv_streamBootTime (initServiceMaps n rs) = ensure n Map.empty (sv_streamBootTime rs)"
  by (simp_all add: initServiceMaps_def)

lemma same_answers_init [simp]: "same_answers rs (initServiceMaps n rs') = same_answers rs rs'"
  by (simp add: same_answers_def)

lemma same_questions:
  assumes "same_answers rs rs'"
  shows "snd (GetStatus ord n rs') = snd (GetStatus ord n rs)" and "snd (GetBootTime n rs') = snd (GetBootTime n rs)"
    and "snd (GetStreamStatus n s rs') = snd (GetStreamStatus n s rs)"
    and "snd (GetStreamBootTime n s rs') = snd (GetStreamBootTime n s rs)"
  using assms
  by (simp_all add: GetStatus_def GetBootTime_def GetStreamStatus_def GetStreamBootTime_def same_answers_def Let_def split: option.split)

lemma asked_registry [simp]:
  "fst (GetStatus ord n rs) = initServiceMaps n rs" "fst (GetBootTime n rs) = initServiceMaps n rs"
  "fst (GetStreamStatus n s rs) = initServiceMaps n rs" "fst (GetStreamBootTime n s rs) = initServiceMaps n rs"
  by (simp_all add: GetStatus_def GetBootTime_def GetStreamStatus_def GetStreamBootTime_def Let_def)

text \<open>A question that leaves the registry answering as before and whose answer depends on that only.\<close>

definition steady :: "(Services \<Rightarrow> Services \<times> 'a) \<Rightarrow> bool" where
  "steady q \<longleftrightarrow> (\<forall>rs rs'. same_answers rs rs' \<longrightarrow> same_answers rs (fst (q rs')) \<and> snd (q rs') = snd (q rs))"

lemma steadyD: "steady q \<Longrightarrow> same_answers rs rs' \<Longrightarrow> same_answers rs (fst (q rs')) \<and> snd (q rs') = snd (q rs)"
  by (simp add: steady_def)

lemma steady_questions:
  "steady (GetStatus ord n)" "steady (GetBootTime n)" "steady (GetStreamStatus n s)" "steady (GetStreamBootTime n s)"
  by (simp_all add: steady_def same_questions)

text \<open>What a question is answered with before anything else is asked.\<close>

lemma read_service_answers:
  assumes "same_answers rs rs'"
  shows "same_answers rs (fst (read_service ord n rs'))"
    and "snd (read_service ord n rs') = \<lparr>svc_Status = snd (GetStatus ord n rs), svc_BootTime = snd (GetBootTime n rs)\<rparr>"
proof -
  note first = steadyD [OF steady_questions(1) assms, of ord n]
  note second = steadyD [OF steady_questions(2) conjunct1 [OF first], of n]
  show "same_answers rs (fst (read_service ord n rs'))"
    and "snd (read_service ord n rs') = \<lparr>svc_Status = snd (GetStatus ord n rs), svc_BootTime = snd (GetBootTime n rs)\<rparr>"
    using first second by (simp_all add: read_service_def split_beta Let_def)
qed

lemma read_stream_answers:
  assumes "same_answers rs rs'"
  shows "same_answers rs (fst (read_stream n s rs'))"
    and "snd (read_stream n s rs') = (snd (GetStreamStatus n s rs), snd (GetStreamBootTime n s rs))"
proof -
  note first = steadyD [OF steady_questions(3) assms, of n s]
  note second = steadyD [OF steady_questions(4) conjunct1 [OF first], of n s]
  show "same_answers rs (fst (read_stream n s rs'))"
    and "snd (read_stream n s rs') = (snd (GetStreamStatus n s rs), snd (GetStreamBootTime n s rs))"
    using first second by (simp_all add: read_stream_def split_beta Let_def)
qed

text \<open>The streams of a row, each with its status and boot time.\<close>

definition shown_streams :: "LndServiceRow \<Rightarrow> (SubscriptionStream \<times> Status \<times> time option) list" where
  "shown_streams r =
     [(TransactionStream, lr_TransactionStreamStatus r, lr_TransactionStreamBootTime r),
      (HtlcEventStream, lr_HtlcEventStreamStatus r, lr_HtlcEventStreamBootTime r),
      (ChannelEventStream, lr_ChannelEventStreamStatus r, lr_ChannelEventStreamBootTime r),
      (GraphEventStream, lr_GraphEventStreamStatus r, lr_GraphEventStreamBootTime r),
      (ForwardStream, lr_ForwardStreamStatus r, lr_ForwardStreamBootTime r),
      (InvoiceStream, lr_InvoiceStreamStatus r, lr_InvoiceStreamBootTime r),
      (PaymentStream, lr_PaymentStreamStatus r, lr_PaymentStreamBootTime r),
      (InFlightPaymentStream, lr_InFlightPaymentStreamStatus r, lr_InFlightPaymentStreamBootTime r),
      (PeerEventStream, lr_PeerEventStreamStatus r, lr_PeerEventStreamBootTime r)]"

definition registry_row :: "stream_order \<Rightarrow> Services \<Rightarrow> int \<Rightarrow> LndServiceRow \<Rightarrow> bool" where
  "registry_row ord rs n r \<longleftrightarrow>
     lr_NodeId r = n \<and> lr_Service r = \<lparr>svc_Status = snd (GetStatus ord n rs), svc_BootTime = snd (GetBootTime n rs)\<rparr> \<and>
     list_all (\<lambda>(stream, status, bootTime).
       status = snd (GetStreamStatus n stream rs) \<and> bootTime = snd (GetStreamBootTime n stream rs)) (shown_streams r)"

lemma lnd_row_answers:
  assumes "same_answers rs rs'"
  shows "same_answers rs (fst (lnd_row ord n rs')) \<and> registry_row ord rs n (snd (lnd_row ord n rs'))"
proof -
  define q where "q = read_stream n"
  have q: "same_answers rs (fst (q s r)) \<and>
      snd (q s r) = (snd (GetStreamStatus n s rs), snd (GetStreamBootTime n s rs))" if "same_answers rs r" for s r
    unfolding q_def using read_stream_answers [OF that] by blast
  obtain r1 service where start: "read_service ord n rs' = (r1, service)" by fastforce
  have same1: "same_answers rs r1"
    and service: "service = \<lparr>svc_Status = snd (GetStatus ord n rs), svc_BootTime = snd (GetBootTime n rs)\<rparr>"
    using read_service_answers [OF assms, of ord n] by (simp_all add: start)
  have step: "\<exists>r'. q s r = (r', snd (GetStreamStatus n s rs), snd (GetStreamBootTime n s rs)) \<and> same_answers rs r'"
    if "same_answers rs r" for s r
    using q [OF that, of s] by (cases "q s r") auto
  obtain r2 where 2: "q TransactionStream r1 = (r2, snd (GetStreamStatus n TransactionStream rs), snd (GetStreamBootTime n TransactionStream rs))"
    and same2: "same_answers rs r2" using step [OF same1] by blast
  obtain r3 where 3: "q HtlcEventStream r2 = (r3, snd (GetStreamStatus n HtlcEventStream rs), snd (GetStreamBootTime n HtlcEventStream rs))"
    and same3: "same_answers rs r3" using step [OF same2] by blast
  obtain r4 where 4: "q ChannelEventStream r3 = (r4, snd (GetStreamStatus n ChannelEventStream rs), snd (GetStreamBootTime n ChannelEventStream rs))"
    and same4: "same_answers rs r4" using step [OF same3] by blast
  obtain r5 where 5: "q GraphEventStream r4 = (r5, snd (GetStreamStatus n GraphEventStream rs), snd (GetStreamBootTime n GraphEventStream rs))"
    and same5: "same_answers rs r5" using step [OF same4] by blast
  obtain r6 where 6: "q ForwardStream r5 = (r6, snd (GetStreamStatus n ForwardStream rs), snd (GetStreamBootTime n ForwardStream rs))"
    and same6: "same_answers rs r6" using step [OF same5] by blast
  obtain r7 where 7: "q InvoiceStream r6 = (r7, snd (GetStreamStatus n InvoiceStream rs), snd (GetStreamBootTime n InvoiceStream rs))"
    and same7: "same_answers rs r7" using step [OF same6] by blast
  obtain r8 where 8: "q PaymentStream r7 = (r8, snd (GetStreamStatus n PaymentStream rs), snd (GetStreamBootTime n PaymentStream rs))"
    and same8: "same_answers rs r8" using step [OF same7] by blast
  obtain r9 where 9: "q InFlightPaymentStream r8 = (r9, snd (GetStreamStatus n InFlightPaymentStream rs), snd (GetStreamBootTime n InFlightPaymentStream rs))"
    and same9: "same_answers rs r9" using step [OF same8] by blast
  obtain r10 where 10: "q PeerEventStream r9 = (r10, snd (GetStreamStatus n PeerEventStream rs), snd (GetStreamBootTime n PeerEventStream rs))"
    and same10: "same_answers rs r10" using step [OF same9] by blast
  show ?thesis
    unfolding lnd_row_def q_def [symmetric] start Let_def split_conv 2 3 4 5 6 7 8 9 10
    by (simp add: same10 registry_row_def shown_streams_def service)
qed

lemma rows_answers:
  assumes "\<And>n rs'. same_answers rs rs' \<Longrightarrow> same_answers rs (fst (row n rs')) \<and> P n (snd (row n rs'))"
    and "same_answers rs rs'"
  shows "same_answers rs (fst (read_rows row ns rs')) \<and> list_all2 P ns (snd (read_rows row ns rs'))"
  using assms(2)
proof (induction ns arbitrary: rs')
  case (Cons n ns)
  from assms(1) [OF Cons.prems, of n] Cons.IH [of "fst (row n rs')"] show ?case
    by (simp add: split_beta Let_def)
qed simp

definition registry_ping :: "stream_order \<Rightarrow> Services \<Rightarrow> int \<Rightarrow> PingServiceRow \<Rightarrow> bool" where
  "registry_ping ord rs n r \<longleftrightarrow>
     r = \<lparr>pg_Service = \<lparr>svc_Status = snd (GetStatus ord n rs), svc_BootTime = snd (GetBootTime n rs)\<rparr>, pg_NodeId = n\<rparr>"

lemma ping_row_answers:
  "same_answers rs rs' \<Longrightarrow> same_answers rs (fst (ping_row ord n rs')) \<and> registry_ping ord rs n (snd (ping_row ord n rs'))"
  using read_service_answers [of rs rs' ord n] by (simp add: ping_row_def registry_ping_def split_beta Let_def)

text \<open>
  The report of the services has one row for each active node and each node of a ping system, in
  their order, with the statuses and boot times the registry has when the report starts: asking for
  some rows changes neither what the later rows show nor any answer afterwards.
\<close>

lemma services_report_shows_registry:
  assumes "getServicesHandler ord version ords nodes env rows ru = Some (ru', report)"
  shows "\<exists>ns. GetAllActiveTorqNodeIds ords nodes None None = Some ns \<and>
    list_all2 (registry_row ord (ru_Lnd ru)) ns (sp_LndServices report) \<and>
    list_all2 (registry_ping ord (ru_Vector ru)) (ping_nodes env rows PingVector) (sp_VectorServices report) \<and>
    list_all2 (registry_ping ord (ru_Amboss ru)) (ping_nodes env rows PingAmboss) (sp_AmbossServices report) \<and>
    same_answers (ru_Torq ru) (ru_Torq ru') \<and> same_answers (ru_Lnd ru) (ru_Lnd ru') \<and>
    same_answers (ru_Vector ru) (ru_Vector ru') \<and> same_answers (ru_Amboss ru) (ru_Amboss ru')"
proof -
  note lnd = rows_answers [where P = "registry_row ord (ru_Lnd ru)" and row = "lnd_row ord", OF lnd_row_answers same_answers_refl]
  note vector = rows_answers [where P = "registry_ping ord (ru_Vector ru)" and row = "ping_row ord", OF ping_row_answers same_answers_refl]
  note amboss = rows_answers [where P = "registry_ping ord (ru_Amboss ru)" and row = "ping_row ord", OF ping_row_answers same_answers_refl]
  obtain ns where "GetAllActiveTorqNodeIds ords nodes None None = Some ns"
    using assms by (auto simp: getServicesHandler_def split_beta Let_def)
  with assms lnd vector amboss read_service_answers(1) [OF same_answers_refl] show ?thesis
    by (auto simp: getServicesHandler_def split_beta Let_def)
qed

text \<open>A boot time is shown only for a stream that is shown as active, of a service that is active.\<close>

lemma boot_time_of_active:
  assumes "registry_row ord rs n r" and "(stream, status, Some t) \<in> set (shown_streams r)"
  shows "status = Active"
proof -
  have "status = snd (GetStreamStatus n stream rs)" "snd (GetStreamBootTime n stream rs) = Some t"
    using assms by (auto simp: registry_row_def list_all_iff)
  then show ?thesis
    by (auto simp: GetStreamBootTime_def GetStreamStatus_def Let_def split: if_splits option.splits)
qed

section \<open>What is posted\<close>

text \<open>
  Every ping posted to Vector is signed by LND in the round it was made in, and the rounds before the
  one that ends the loop are all posted.
\<close>

lemma vector_posts_signed:
  "list_all2 (\<lambda>p r. vr_Sign r (pp_Message p) = Ok (pp_Signature p) \<and> vr_Post r = None \<and>
       (\<exists>info. vr_Info r = Ok info \<and> json (vector_info (vr_Now r) version info) = Ok (pp_Message p)))
     (fst (vector_ping json version rs)) (take (length (fst (vector_ping json version rs))) rs)"
proof (induction rs)
  case (Cons r rs)
  then show ?case by (auto simp: Let_def split: sum.splits option.splits)
qed simp

lemma vector_runs_on:
  "snd (vector_ping json version rs) = None \<Longrightarrow> length (fst (vector_ping json version rs)) = length rs"
  by (induction rs) (auto simp: Let_def split: sum.splits option.splits)

lemma amboss_runs_on:
  "snd (amboss_ping rs) = None \<Longrightarrow>
     list_all2 (\<lambda>v r. \<exists>signature. ar_Sign r (ar_Now r) = Ok signature \<and> v = amboss_values signature (ar_Now r))
       (fst (amboss_ping rs)) rs"
  by (induction rs) (auto split: sum.splits option.splits)

text \<open>The version has only the characters of semantic versions, unless a build replaces it.\<close>

lemma version_characters:
  "set (Version [] appBuild) \<subseteq> set semanticAlphabet \<union> {CHR ''.'', CHR ''+''}"
proof -
  have "set (format_uint 0) \<union> set (format_uint 1) \<union> {CHR ''-''} \<subseteq> set semanticAlphabet" by code_simp
  then show ?thesis by (auto simp: Version_def normalizeVerString_def Let_def)
qed

end
