(* ===== verification/NodeRoutes.thy ===== *)
theory NodeRoutes
  imports Nodes Labels LndGraph
begin

text \<open>
  The requests about nodes, \<open>src/internal/nodes/routes.go\<close>, with the queries of \<open>database.go\<close> that only
  they use.  The theorems say what each node of the list shows, that the list fails as soon as one node
  is stored when the query for its latest announcement is refused, and which row a removal takes away.
\<close>

record NodeEventRow =
  ne_EventTime :: time
  ne_PublicKey :: string
  ne_Alias :: string
  ne_Color :: string
  ne_NodeAddresses :: string
  ne_Features :: string

record NodeInformation =
  ni_NodeId :: int
  ni_PublicKey :: string
  ni_Alias :: string
  ni_Color :: string

text \<open>
  What the database library answers: a failure of the query for all nodes, and for a node the
  announcement that is put into the struct of the caller, or an error.
\<close>

record NodeQueries =
  nq_Nodes :: "go_error option"
  nq_Event :: "int \<Rightarrow> NodeEventRow result"
  nq_ZeroTime :: time

definition zeroNodeEventRow :: "time \<Rightarrow> NodeEventRow" where
  "zeroNodeEventRow zero_time =
     \<lparr>ne_EventTime = zero_time, ne_PublicKey = [], ne_Alias = [], ne_Color = [], ne_NodeAddresses = [], ne_Features = []\<rparr>"

definition getNodes :: "NodeQueries \<Rightarrow> NodeTable \<Rightarrow> Node list result" where
  "getNodes q db =
     (case nq_Nodes q of
        Some e \<Rightarrow> if e = no_rows then Ok [] else Inl e
      | None \<Rightarrow> Ok (nt_rows db))"

definition getLatestNodeEvent :: "NodeQueries \<Rightarrow> int \<Rightarrow> NodeEventRow result" where
  "getLatestNodeEvent q nodeId =
     (case nq_Event q nodeId of
        Inl e \<Rightarrow> if e = no_rows then Ok (zeroNodeEventRow (nq_ZeroTime q)) else Inl e
      | Inr nodeEvent \<Rightarrow> Ok nodeEvent)"

fun node_informations :: "NodeQueries \<Rightarrow> Node list \<Rightarrow> NodeInformation list result" where
  "node_informations q [] = Ok []"
| "node_informations q (node # nds) =
     (case getLatestNodeEvent q (nd_NodeId node) of
        Inl e \<Rightarrow> Inl e
      | Inr nodeEvent \<Rightarrow>
          map_sum id (\<lambda>ps. \<lparr>ni_NodeId = nd_NodeId node, ni_PublicKey = nd_PublicKey node,
                            ni_Alias = ne_Alias nodeEvent, ni_Color = ne_Color nodeEvent\<rparr> # ps)
            (node_informations q nds))"

definition getNodeInformationAll :: "NodeQueries \<Rightarrow> NodeTable \<Rightarrow> NodeInformation list result" where
  "getNodeInformationAll q db =
     (case getNodes q db of
        Inl e \<Rightarrow> if e = no_rows then Ok [] else Inl e
      | Inr nds \<Rightarrow> node_informations q nds)"

section \<open>Requests\<close>

datatype NodesAnswer =
    NodesRefused "int \<times> ServerError"
  | ListsNodes "NodeInformation list"
  | NodesMessage string

definition getNodesHandler :: "NodeQueries \<Rightarrow> NodeTable \<Rightarrow> NodesAnswer" where
  "getNodesHandler q db =
     (case getNodeInformationAll q db of
        Inl e \<Rightarrow> NodesRefused (WrapLogAndSendServerError e ''Getting nodes.'')
      | Inr nds \<Rightarrow> ListsNodes nds)"

definition referencing_corridors :: "LabelEnv \<Rightarrow> LabelTables \<Rightarrow> int \<Rightarrow> int list result" where
  "referencing_corridors env labels nodeId =
     map_sum id (map co_CorridorId) (GetCorridorsReferencingNode env labels nodeId)"

definition removeNodeHandler ::
    "LabelEnv \<Rightarrow> NodeFailures \<Rightarrow> LabelTables \<Rightarrow> string \<Rightarrow> NodeTable \<Rightarrow> NodeTable \<times> NodesAnswer" where
  "removeNodeHandler env fails labels idText db =
     (case atoi idText of
        None \<Rightarrow> (db, NodesRefused (SendBadRequest ''Failed to find/parse nodeId in the request.''))
      | Some nodeId \<Rightarrow>
          (case removeNode fails (referencing_corridors env labels) nodeId db of
             (db', Inl e) \<Rightarrow>
               (db', NodesRefused (WrapLogAndSendServerError e (''Removing node for nodeId: '' @ format_int nodeId)))
           | (db', Inr affected) \<Rightarrow>
               (db', NodesMessage (''Successfully deleted '' @ format_int affected @ '' node(s).''))))"

text \<open>\<open>RegisterNodeRoutes\<close>: the two requests by their methods.\<close>

datatype NodeRequest = GetNodes | DeleteNode string

definition node_request ::
    "NodeQueries \<Rightarrow> LabelEnv \<Rightarrow> NodeFailures \<Rightarrow> LabelTables \<Rightarrow> NodeRequest \<Rightarrow> NodeTable \<Rightarrow> NodeTable \<times> NodesAnswer" where
  "node_request q env fails labels request db =
     (case request of
        GetNodes \<Rightarrow> (db, getNodesHandler q db)
      | DeleteNode idText \<Rightarrow> removeNodeHandler env fails labels idText db)"

section \<open>The list\<close>

definition shows_node :: "NodeQueries \<Rightarrow> Node \<Rightarrow> NodeInformation \<Rightarrow> bool" where
  "shows_node q node info \<longleftrightarrow>
     (\<exists>nodeEvent. getLatestNodeEvent q (nd_NodeId node) = Ok nodeEvent \<and>
        info = \<lparr>ni_NodeId = nd_NodeId node, ni_PublicKey = nd_PublicKey node,
                ni_Alias = ne_Alias nodeEvent, ni_Color = ne_Color nodeEvent\<rparr>)"

lemma node_informations_Inr:
  "node_informations q nds = Ok infos \<longleftrightarrow> list_all2 (shows_node q) nds infos"
proof (induction nds arbitrary: infos)
  case (Cons node nds)
  then show ?case
    by (cases "getLatestNodeEvent q (nd_NodeId node)"; cases infos; cases "node_informations q nds")
      (auto simp: shows_node_def)
qed auto

text \<open>A list has one entry for each stored node, in the order of the rows.\<close>

lemma nodes_listed:
  assumes "getNodesHandler q db = ListsNodes infos" and "nq_Nodes q = None"
  shows "list_all2 (shows_node q) (nt_rows db) infos"
  using assms by (auto simp: getNodesHandler_def getNodeInformationAll_def getNodes_def node_informations_Inr
      split: sum.splits)

text \<open>
  \<open>getLatestNodeEvent\<close> asks for many rows (\<open>Select\<close>) but gives the library one struct, which it refuses
  by its documentation, and has the place holder of another database.  When each such query is refused,
  the list of nodes fails for every table that has a row.
\<close>

lemma refused_query_fails_list:
  assumes "\<forall>i. \<exists>e. nq_Event q i = Inl e \<and> e \<noteq> no_rows" and "nt_rows db \<noteq> []" and "nq_Nodes q = None"
  obtains body where "getNodesHandler q db = NodesRefused (500, body)"
proof -
  obtain node nds where rows: "nt_rows db = node # nds" using assms(2) by (cases "nt_rows db") auto
  obtain e where "nq_Event q (nd_NodeId node) = Inl e" "e \<noteq> no_rows" using assms(1) by blast
  then have "getNodesHandler q db = NodesRefused (WrapLogAndSendServerError e ''Getting nodes.'')"
    using rows assms(3) by (simp add: getNodesHandler_def getNodeInformationAll_def getNodes_def getLatestNodeEvent_def)
  with that show thesis by (simp add: WrapLogAndSendServerError_def)
qed

lemma empty_table_lists_nothing:
  "nq_Nodes q = None \<Longrightarrow> nt_rows db = [] \<Longrightarrow> getNodesHandler q db = ListsNodes []"
  by (simp add: getNodesHandler_def getNodeInformationAll_def getNodes_def)

section \<open>Removal\<close>

lemma removed_rows:
  assumes "removeNode fails refs nodeId db = (db', Ok affected)"
  shows "nt_rows db' = filter (\<lambda>n. nd_NodeId n \<noteq> nodeId) (nt_rows db)" and "nt_nextId db' = nt_nextId db"
    and "affected = int (length (filter (\<lambda>n. nd_NodeId n = nodeId) (nt_rows db)))"
proof -
  have "db' = db\<lparr>nt_rows := filter (\<lambda>n. nd_NodeId n \<noteq> nodeId) (nt_rows db)\<rparr>"
    and affected: "affected = int (length (nt_rows db)) - int (length (filter (\<lambda>n. nd_NodeId n \<noteq> nodeId) (nt_rows db)))"
    using assms by (auto simp: removeNode_def Let_def split: sum.splits if_splits option.splits)
  then show "nt_rows db' = filter (\<lambda>n. nd_NodeId n \<noteq> nodeId) (nt_rows db)" "nt_nextId db' = nt_nextId db"
    by simp_all
  show "affected = int (length (filter (\<lambda>n. nd_NodeId n = nodeId) (nt_rows db)))"
    unfolding affected using sum_length_filter_compl [of "\<lambda>n. nd_NodeId n = nodeId" "nt_rows db"] by simp
qed

lemma refused_removal_keeps_table: "removeNode fails refs nodeId db = (db', Inl e) \<Longrightarrow> db' = db"
  by (auto simp: removeNode_def Let_def split: sum.splits if_splits option.splits)

lemma distinct_filter_key: "distinct (map f xs) \<Longrightarrow> length (filter (\<lambda>x. f x = k) xs) \<le> 1"
  by (induction xs) (auto simp: filter_empty_conv image_iff)

text \<open>
  A removal takes away the row of the node and no other, and at most one; a node a corridor refers to,
  and every node when the request names no number, stays.
\<close>

lemma removal_takes_one_row:
  assumes "removeNodeHandler env fails labels idText db = (db', shown)" and "node_table_ok db"
  shows "node_table_ok db'"
    and "db' \<noteq> db \<Longrightarrow> \<exists>nodeId affected. atoi idText = Some nodeId \<and> affected \<le> (1::int)
           \<and> referencing_corridors env labels nodeId = Ok []
           \<and> nt_rows db' = filter (\<lambda>n. nd_NodeId n \<noteq> nodeId) (nt_rows db)
           \<and> shown = NodesMessage (''Successfully deleted '' @ format_int affected @ '' node(s).'')"
proof -
  have "db' = db \<or> (\<exists>nodeId affected. atoi idText = Some nodeId
      \<and> removeNode fails (referencing_corridors env labels) nodeId db = (db', Ok affected)
      \<and> shown = NodesMessage (''Successfully deleted '' @ format_int affected @ '' node(s).''))"
    using assms(1) by (auto simp: removeNodeHandler_def dest!: refused_removal_keeps_table split: option.splits prod.splits sum.splits)
  moreover {
    fix nodeId affected
    assume r: "removeNode fails (referencing_corridors env labels) nodeId db = (db', Ok affected)"
    have "node_table_ok db'"
      using assms(2) removed_rows(1,2) [OF r] by (auto simp: node_table_ok_def distinct_map_filter)
    moreover have "referencing_corridors env labels nodeId = Ok []"
      using r by (auto simp: removeNode_def split: sum.splits if_splits)
    moreover have "affected \<le> 1"
      using removed_rows(3) [OF r] distinct_filter_key [of nd_NodeId "nt_rows db" nodeId] assms(2)
      by (simp add: node_table_ok_def)
    ultimately have "node_table_ok db' \<and> referencing_corridors env labels nodeId = Ok [] \<and> affected \<le> 1
        \<and> nt_rows db' = filter (\<lambda>n. nd_NodeId n \<noteq> nodeId) (nt_rows db)"
      using removed_rows(1) [OF r] by blast
  }
  ultimately show "node_table_ok db'"
    and "db' \<noteq> db \<Longrightarrow> \<exists>nodeId affected. atoi idText = Some nodeId \<and> affected \<le> (1::int)
           \<and> referencing_corridors env labels nodeId = Ok []
           \<and> nt_rows db' = filter (\<lambda>n. nd_NodeId n \<noteq> nodeId) (nt_rows db)
           \<and> shown = NodesMessage (''Successfully deleted '' @ format_int affected @ '' node(s).'')"
    using assms(2) by blast+
qed

end
