(* ===== verification/Spec2Isabelle.thy ===== *)
theory Spec2Isabelle
  imports Prelude ManagedSettings ManagedChannelGroup ManagedChannel ManagedNode
    Events ManagedChannelState Services Broadcast Corridors ChannelBalanceCache
    Channels ChannelRequests Payments QueryParser ServerErrors LndStreams LndForwards
    LndTransactions LndPayments LndInvoices Nodes LndChannelEvents LndGraph SettingsTable ServiceBoot SettingsRoutes
    Labels ChannelGroups NodeSubscription WebAccess WebSockets TableViews
    Sql Reports InvoiceReport InvoiceDecoder PaymentReport TransactionReport
    ForwardReports ChannelHistory ChannelCosts HistoryRoutes ChannelList PeerRequests StatusReport NodeRoutes
begin

text \<open>
  Torq (\<open>src/\<close>) watches and manages the Lightning nodes of one operator.  It is one Go program: a web
  server with a Postgres database, and for each node a set of goroutines that follow the event streams
  of the node's LND daemon.  The goroutines share caches, each a goroutine of its own that serves one
  request at a time over a channel, and tell each other what happened over one event channel, which a
  broadcast server copies to its listeners.  This development models these goroutines, the functions
  they call and the tables they write, and proves what makes them correct; where the code does not do
  what it means to, a theorem shows it.

  \<^bold>\<open>How the program is modelled.\<close>  A cache or registry is a record of its state and one function per
  request, or per operation under its mutex.  A request is \<open>Served\<close> with a new state and perhaps an
  answer, \<open>Blocked\<close> when the goroutine waits forever, or \<open>Crashed\<close> when it panics (theory \<open>Prelude\<close>).
  Code that fails returns a value of \<open>go_error + 'a\<close>, where a panic is an error of its own; a
  \<open>process\<close> acts on the caches and tables, keeps what was written before an error, and is None when it
  never returns.  A table of the database is a list of rows with the conflict rules of its statements;
  each statement may fail, by a parameter.  A loop over a stream takes the list of what happens in its
  turns, so a theorem about all lists is about every run, however long; where a loop must end, it is
  proved that it does (the wait for a stream, the text parsers, the batches of a list).  There is no
  fuel.  Ids are HOL integers, since the code never computes with them; amounts and counters are words
  of the width of the code, so that sums wrap.  A Go map that the code ranges over is an association
  list with the range order as a parameter.  LND, the database driver, the clock, random numbers and
  third-party libraries are parameters too.

  \<^bold>\<open>Shared theories.\<close>  \<open>Prelude\<close>: Go types, maps, numbers and texts, and the interfaces \<open>cache_server\<close>
  (an invariant that every request keeps) and \<open>keyed_cache\<close> (what is read after writes).  \<open>GoText\<close>: hexadecimal and other texts, and
  the interface \<open>stream_client\<close> of a loop that reads an answer of LND piece by piece.  \<open>Constants\<close>,
  \<open>Events\<close>, \<open>Functions\<close>, \<open>ServerErrors\<close>: \<open>src/pkg/commons/constants.go\<close>, \<open>events.go\<close>, \<open>functions.go\<close>
  and \<open>src/pkg/server_errors/\<close>; short channel ids and channel points are shown to be read back from
  their texts.

  \<^bold>\<open>Caches\<close>, all in \<open>src/pkg/commons/\<close>.  \<open>ManagedSettings\<close>, \<open>ManagedChannelGroup\<close>, \<open>ManagedChannel\<close>
  (channel ids by channel point and short id), \<open>ManagedNode\<close> (nodes by key, chain and network; it
  implements an abstract directory), \<open>ManagedChannelState\<close> (balances, policies and pending HTLCs of the
  channels; an HTLC event applied twice cancels out), \<open>Services\<close> (status, boot time and boot lock of
  each service).  For each, an invariant that all sequences of requests keep, and what is read back
  after a write.  \<open>Broadcast\<close> is \<open>src/pkg/broadcast/broadcast.go\<close>: delivery once and in order, no
  double close.

  \<^bold>\<open>Tables.\<close>  \<open>Corridors\<close> (\<open>src/internal/corridors/\<close>: the best corridor is a matching row of highest
  priority), \<open>Channels\<close> (\<open>src/internal/channels/\<close>: cache and table agree), \<open>Nodes\<close>
  (\<open>src/internal/nodes/\<close>), \<open>SettingsTable\<close> (\<open>src/internal/settings/\<close>: settings and connection details,
  with the ping services of a node as bits of a number), \<open>Labels\<close> and \<open>ChannelGroups\<close> (tags,
  categories and the groups generated from corridors, \<open>src/internal/tags\<close>, \<open>categories\<close> and
  \<open>channel_groups\<close>: references stay valid, and what a generation writes).

  \<^bold>\<open>Following a node\<close>, in \<open>src/pkg/lnd/\<close>.  \<open>LndStreams\<close>: the loop that the stream subscriptions share,
  with its interface \<open>stream_handler\<close>, and the HTLC and peer events.  \<open>LndForwards\<close>, \<open>LndTransactions\<close>,
  \<open>LndPayments\<close>, \<open>LndInvoices\<close>: what is fetched at each tick or block and stored.  \<open>LndChannelEvents\<close> and
  \<open>LndGraph\<close>: channel events, channel lists, node announcements and routing policies, from streams and
  imports.  \<open>ChannelBalanceCache\<close>: the goroutine that keeps the channel state cache up to date.
  \<open>NodeSubscription\<close> is \<open>src/cmd/torq/internal/subscribe/server.go\<close>, which starts all of these: imports
  before streams, a limit on imports, and a wait for each stream that ends.

  \<^bold>\<open>Running the services.\<close>  \<open>ServiceBoot\<close> is \<open>src/cmd/torq/torq.go\<close>: the dispatcher of boot and kill
  commands and the tasks it launches, as actions of a transition system; one boot at a time, and the
  race of two tasks on one boot lock.  \<open>SettingsRoutes\<close> are the requests of the settings page, which
  store the wanted status of a service and make it follow.

  \<^bold>\<open>Requests of the operator.\<close>  \<open>ChannelRequests\<close> and \<open>Payments\<close>: opening, closing and updating
  channels, payments, invoices and addresses: which requests reach LND, as what, and what is reported.
  \<open>NodeRoutes\<close> lists and removes nodes; \<open>ChannelList\<close> lists the open channels of every node from the caches, with the queries for policies
  and aliases, and holds the handlers of the requests that change channels.  \<open>PeerRequests\<close> lists and
  connects peers, and signs and verifies messages (\<open>src/internal/peers/\<close>, \<open>src/internal/messages/\<close>).
  \<open>WebAccess\<close>: sessions, logins, the cookie file and the routes of the web server
  (\<open>src/internal/auth/auth.go\<close>, \<open>src/cmd/torq/internal/torqsrv/server.go\<close>).  \<open>WebSockets\<close>:
  \<open>torqsrv/websocket.go\<close>, the dispatch of requests, the goroutines of a connection, and what a
  connection that ends can do to the broadcast server.  \<open>StatusReport\<close>: the state of every service and
  stream as the status page shows it, and the pings to Amboss and Vector (\<open>src/internal/services/\<close>,
  \<open>src/cmd/torq/internal/amboss_ping\<close>, \<open>vector_ping\<close>).

  \<^bold>\<open>Reports.\<close>  \<open>QueryParser\<close>: the filters and orders of reports, of which only allowed columns reach a
  query.  \<open>TableViews\<close> stores the tables the operator has laid out, and converts views of older
  versions (\<open>src/internal/views/\<close>).  \<open>Sql\<close> is the fragment of SQL the reports need on lists of rows:
  nullable values, joins, groups and their sums, and the columns of a query; \<open>Reports\<close> holds the parameters
  and answers the report pages share (\<open>src/pkg/api_helpers\<close>).  \<open>InvoiceReport\<close>, \<open>PaymentReport\<close> and
  \<open>TransactionReport\<close> are the pages of \<open>src/internal/invoices\<close>, \<open>payments\<close> and \<open>on_chain_tx\<close>, over
  the rows that the subscriptions store; \<open>InvoiceDecoder\<close> shows the operator what a payment request
  holds.  \<open>ForwardReports\<close> sums the forwards of each channel, and those between requested and other channels
  (\<open>src/internal/forwards\<close>, \<open>flow\<close>).  \<open>ChannelHistory\<close>, \<open>ChannelCosts\<close> and \<open>HistoryRoutes\<close> are
  \<open>src/internal/channel_history/\<close>: totals, days, rebalancing and on-chain costs, balances over time and
  changes of policies, and their handlers.  It is shown that the parts of a report add up to its whole:
  the days to the range, the forwards to the row of their channel, the split costs to the cost.

  \<^bold>\<open>Locales.\<close>  \<open>cache_server\<close> is interpreted by the channel, node, channel state and group caches, the
  service registry, the boot tasks, the connection details and the tables of labels; \<open>keyed_cache\<close> by
  the lookups of the settings, group and node caches; \<open>channel_registry\<close> by the channel cache;
  \<open>stream_client\<close> by payments and by opening and closing channels; \<open>stream_handler\<close> by the HTLC, peer,
  channel and graph subscriptions.

  \<^bold>\<open>Simplified.\<close>  The sums of reports are exact integers and rationals, where Postgres computes with
  \<open>numeric\<close> of arbitrary size and the driver refuses a result that does not fit the field of the code,
  which is a branch of the model; floats are not rounded.  Whether a row satisfies a condition whose
  text the code builds, how Postgres orders rows of equal keys, the time zone conversion and what a JSON
  column holds are parameters.  Of the errors of the standard library the texts are kept only
  where the code tests or returns them.

  \<^bold>\<open>Not modelled.\<close>  Credentials of the connections to LND, the connection to Postgres, its migrations
  and the helpers of its tests, which set up libraries; the command line of \<open>torq.go\<close> and the wiring of
  its channels; the virtual network, a tool for development that drives containers; the registration of
  routes where a group of handlers has no other logic; the user interface, which is no Go code.
\<close>

end
